(* ===== verification/Prelude.thy ===== *)
theory Prelude
  imports Complex_Main "HOL-Library.AList" "HOL-Library.Multiset" "HOL-Library.Sublist"
begin

text \<open>
  Shared vocabulary of the development: the Python values and containers the trading code
  uses, the generic lemmas on them, the named collections the component proofs draw on and the
  interfaces (locales) that several components share.

  Conventions. A Python \<open>float\<close> is a real number: the arithmetic is exact, rounding, NaN and
  the infinities are not represented (an operation whose source tests for or produces an
  infinity carries an explicit constructor for it). A \<open>float\<close> time stamp (Unix seconds) is a
  real; a \<open>datetime\<close> is its exact integer number of microseconds. A \<open>dict\<close> is an association
  list in insertion order, which is what CPython's \<open>dict\<close> iterates over: \<open>AList.update\<close> keeps
  the position of an existing key and appends a new one, \<open>AList.delete\<close> removes it. A
  \<open>deque\<close> and a \<open>list\<close> are lists.
\<close>

named_theorems dict_simps \<open>lookups and key sets of dictionaries after an update or a removal\<close>
named_theorems window_simps \<open>facts on time windows kept in a deque\<close>

section \<open>Types of the Python values\<close>

type_synonym pyfloat = real
type_synonym epoch = real
type_synonym datetime = int
type_synonym ('k, 'v) dict = "('k \<times> 'v) list"

datatype py_error = ValueError string | RuntimeError string | KeyError string
  | IndexError | ZeroDivisionError | NotImplementedError string
  | TypeError | AttributeError string | HTTPError

text \<open>An f-string is the list of its pieces: literal text, a code point outside of it, a number with a format
  of \<open>n\<close> decimals, one with an explicit sign or with grouped thousands, an integer, a value in its default rendering, an embedded string.\<close>

datatype fpiece = FTxt string | FUni nat | FNum nat real | FSigned nat real | FGrouped nat real | FInt int | FVal real | FStr string

type_synonym fstring = "fpiece list"

datatype jval = JStr string | JNum real | JBool bool | JFmt fstring | JNull

definition ftext :: "string \<Rightarrow> fstring" where
  "ftext s = [FTxt s]"

text \<open>Sequencing of operations that may raise.\<close>

definition bind_r :: "'e + 'a \<Rightarrow> ('a \<Rightarrow> 'e + 'b) \<Rightarrow> 'e + 'b" where
  "bind_r r k = (case r of Inl e \<Rightarrow> Inl e | Inr x \<Rightarrow> k x)"

lemma bind_r_simps [simp]: "bind_r (Inl e) k = Inl e" "bind_r (Inr x) k = k x"
  by (simp_all add: bind_r_def)

lemma bind_r_eq_Inr: "bind_r r k = Inr y \<longleftrightarrow> (\<exists>x. r = Inr x \<and> k x = Inr y)"
  by (cases r) auto

text \<open>The required keys of a configuration section, read one after the other.\<close>

fun cfg_reads :: "(string, real) dict \<Rightarrow> string list \<Rightarrow> py_error + real list" where
  "cfg_reads d [] = Inr []"
| "cfg_reads d (k # ks) =
     (case map_of d k of
        None \<Rightarrow> Inl (KeyError k)
      | Some v \<Rightarrow> bind_r (cfg_reads d ks) (\<lambda>vs. Inr (v # vs)))"

definition minutes :: "int \<Rightarrow> int" where
  "minutes m = m * 60000000"

definition days :: "int \<Rightarrow> int" where
  "days d = d * 86400000000"

section \<open>Dictionaries\<close>

definition dict_getd :: "('k, 'v) dict \<Rightarrow> 'k \<Rightarrow> 'v \<Rightarrow> 'v" where
  "dict_getd d k dflt = (case map_of d k of None \<Rightarrow> dflt | Some v \<Rightarrow> v)"

definition dict_setdefault :: "'k \<Rightarrow> 'v \<Rightarrow> ('k, 'v) dict \<Rightarrow> ('k, 'v) dict" where
  "dict_setdefault k v d = (case map_of d k of None \<Rightarrow> AList.update k v d | Some _ \<Rightarrow> d)"

abbreviation keys_of :: "('k, 'v) dict \<Rightarrow> 'k list" where
  "keys_of d \<equiv> map fst d"

abbreviation values_of :: "('k, 'v) dict \<Rightarrow> 'v list" where
  "values_of d \<equiv> map snd d"

text \<open>Popping several keys one after the other, as the \<open>for \<dots>: d.pop(k, None)\<close> loops do.\<close>

definition dict_pop_all :: "'k list \<Rightarrow> ('k, 'v) dict \<Rightarrow> ('k, 'v) dict" where
  "dict_pop_all ks d = fold AList.delete ks d"

section \<open>Sequences\<close>

text \<open>\<open>xs[-n:]\<close> for a non-negative \<open>n\<close>; for \<open>n = 0\<close> Python's \<open>xs[-0:]\<close> is the whole list.\<close>

definition py_tail :: "nat \<Rightarrow> 'a list \<Rightarrow> 'a list" where
  "py_tail n xs = (if n = 0 then xs else drop (length xs - n) xs)"

text \<open>The loop \<open>while q and P(q[0]): q.popleft()\<close>.\<close>

fun popleft_while :: "('a \<Rightarrow> bool) \<Rightarrow> 'a list \<Rightarrow> 'a list" where
  "popleft_while P [] = []"
| "popleft_while P (x # xs) = (if P x then popleft_while P xs else x # xs)"

text \<open>Appending to a \<open>deque(maxlen=n)\<close>.\<close>

definition deque_append :: "nat \<Rightarrow> 'a \<Rightarrow> 'a list \<Rightarrow> 'a list" where
  "deque_append n x q = (let q' = q @ [x] in drop (length q' - n) q')"

section \<open>Numbers\<close>

text \<open>\<open>int(x)\<close> truncates towards zero; \<open>round(x)\<close> rounds half to even.\<close>

definition py_int :: "real \<Rightarrow> int" where
  "py_int x = (if 0 \<le> x then \<lfloor>x\<rfloor> else \<lceil>x\<rceil>)"

definition py_round :: "real \<Rightarrow> int" where
  "py_round x =
     (let f = \<lfloor>x\<rfloor>; d = x - of_int f
      in if d < 1 / 2 then f
         else if 1 / 2 < d then f + 1
         else if even f then f else f + 1)"

definition py_round_to :: "nat \<Rightarrow> real \<Rightarrow> real" where
  "py_round_to n x = of_int (py_round (x * 10 ^ n)) / 10 ^ n"

text \<open>\<open>x or y\<close> on floats: zero is false.\<close>

definition float_or :: "real \<Rightarrow> real \<Rightarrow> real" where
  "float_or x y = (if x = 0 then y else x)"

lemma py_round_error: "\<bar>of_int (py_round x) - x\<bar> \<le> 1 / 2"
proof -
  have "of_int \<lfloor>x\<rfloor> \<le> x" "x < of_int \<lfloor>x\<rfloor> + 1" by linarith+
  then show ?thesis by (auto simp: py_round_def Let_def abs_le_iff)
qed

lemma py_round_to_error: "\<bar>py_round_to n x - x\<bar> \<le> 1 / (2 * 10 ^ n)"
proof -
  have "\<bar>py_round_to n x - x\<bar> = \<bar>of_int (py_round (x * 10 ^ n)) - x * 10 ^ n\<bar> / 10 ^ n"
    by (simp add: py_round_to_def diff_divide_distrib [symmetric] field_simps)
  also have "\<dots> \<le> (1 / 2) / 10 ^ n" by (intro divide_right_mono py_round_error) simp
  finally show ?thesis by simp
qed

section \<open>Lemmas on dictionaries\<close>

lemma map_of_dict_update [dict_simps, simp]:
  "map_of (AList.update k v d) = (map_of d)(k \<mapsto> v)"
  by (rule AList.update_conv')

lemma map_of_dict_delete [dict_simps, simp]:
  "map_of (AList.delete k d) = (map_of d)(k := None)"
  by (rule AList.delete_conv')

lemma dict_getd_update [dict_simps, simp]:
  "dict_getd (AList.update k v d) k' dflt = (if k' = k then v else dict_getd d k' dflt)"
  by (simp add: dict_getd_def)

lemma dict_getd_Nil [simp]: "dict_getd [] k dflt = dflt"
  by (simp add: dict_getd_def)

lemma map_of_dict_setdefault [dict_simps, simp]:
  "map_of (dict_setdefault k v d) =
     (case map_of d k of None \<Rightarrow> (map_of d)(k \<mapsto> v) | Some _ \<Rightarrow> map_of d)"
  by (simp add: dict_setdefault_def split: option.split)

lemma keys_dict_update [dict_simps]:
  "set (keys_of (AList.update k v d)) = insert k (set (keys_of d))"
  using AList.dom_update [of k v d] by (simp add: dom_map_of_conv_image_fst)

lemma set_dict_update: "set (AList.update k v d) \<subseteq> insert (k, v) (set d)"
  by (induction d) auto

lemma map_of_pop_all [dict_simps, simp]:
  "map_of (dict_pop_all ks d) k = (if k \<in> set ks then None else map_of d k)"
  by (induction ks arbitrary: d) (simp_all add: dict_pop_all_def)

lemma dict_pop_all_filter: "dict_pop_all ks d = filter (\<lambda>(k, v). k \<notin> set ks) d"
proof (induction ks arbitrary: d)
  case Nil
  then show ?case by (simp add: dict_pop_all_def case_prod_beta)
next
  case (Cons k ks)
  have "dict_pop_all (k # ks) d = dict_pop_all ks (AList.delete k d)"
    by (simp add: dict_pop_all_def)
  also have "\<dots> = filter (\<lambda>(k', v). k' \<notin> set ks) (filter (\<lambda>(k', v). k \<noteq> k') d)"
    by (simp only: Cons.IH AList.delete_eq)
  also have "\<dots> = filter (\<lambda>(k', v). k' \<notin> set (k # ks)) d"
    by (auto simp: case_prod_beta intro: filter_cong)
  finally show ?case .
qed

lemma distinct_pop_all [intro]: "distinct (keys_of d) \<Longrightarrow> distinct (keys_of (dict_pop_all ks d))"
  by (simp add: dict_pop_all_filter distinct_map_filter)

lemma dict_update_new: "k \<notin> set (keys_of d) \<Longrightarrow> AList.update k v d = d @ [(k, v)]"
  by (induction d) auto

lemma dict_delete_absent: "map_of d k = None \<Longrightarrow> AList.delete k d = d"
  by (induction d) (auto split: if_splits)

lemma dict_values_map_of:
  "distinct (keys_of d) \<Longrightarrow> v \<in> set (values_of d) \<longleftrightarrow> (\<exists>k. map_of d k = Some v)"
  by (force simp: map_of_eq_Some_iff)

section \<open>Lemmas on sequences\<close>

lemma popleft_while_dropWhile [window_simps]: "popleft_while P q = dropWhile P q"
  by (induction q) auto

lemma length_py_tail [simp]: "0 < n \<Longrightarrow> length (py_tail n xs) = min n (length xs)"
  by (simp add: py_tail_def)

lemma set_py_tail: "set (py_tail n xs) \<subseteq> set xs"
  by (simp add: py_tail_def set_drop_subset)

lemma length_deque_append: "length (deque_append n x q) = min n (Suc (length q))"
  by (simp add: deque_append_def Let_def)

lemma sorted_le_last: "sorted xs \<Longrightarrow> x \<in> set xs \<Longrightarrow> x \<le> last xs"
  by (induction xs) auto

lemma sum_list_ge_0: "(\<And>x. x \<in> set xs \<Longrightarrow> 0 \<le> x) \<Longrightarrow> 0 \<le> sum_list (xs :: real list)"
  by (rule sum_list_nonneg) auto

section \<open>Interfaces shared by several components\<close>

subsection \<open>A store with keys\<close>

text \<open>
  What the clients of a dictionary rely on: what a lookup returns after an insertion and after
  a removal, and that both keep the well-formedness of the store.
\<close>

locale keyed_store =
  fixes empty :: "'d" and insert :: "'k \<Rightarrow> 'v \<Rightarrow> 'd \<Rightarrow> 'd" and remove :: "'k \<Rightarrow> 'd \<Rightarrow> 'd"
    and lookup :: "'d \<Rightarrow> 'k \<Rightarrow> 'v option" and wf :: "'d \<Rightarrow> bool"
  assumes lookup_empty: "lookup empty k = None"
    and lookup_insert: "wf d \<Longrightarrow> lookup (insert k v d) k' = (if k' = k then Some v else lookup d k')"
    and lookup_remove: "wf d \<Longrightarrow> lookup (remove k d) k' = (if k' = k then None else lookup d k')"
    and wf_empty: "wf empty"
    and wf_insert: "wf d \<Longrightarrow> wf (insert k v d)"
    and wf_remove: "wf d \<Longrightarrow> wf (remove k d)"
begin

lemma wf_remove_all: "wf d \<Longrightarrow> wf (fold remove ks d)"
  by (induction ks arbitrary: d) (simp_all add: wf_remove)

lemma lookup_remove_all:
  "wf d \<Longrightarrow> lookup (fold remove ks d) k = (if k \<in> set ks then None else lookup d k)"
  by (induction ks arbitrary: d) (simp_all add: lookup_remove wf_remove)

lemma insert_remove: "wf d \<Longrightarrow> lookup (remove k (insert k v d)) k' = (if k' = k then None else lookup d k')"
  by (simp add: lookup_insert lookup_remove wf_insert)

end

interpretation dict: keyed_store "[]" AList.update AList.delete map_of "\<lambda>d. distinct (keys_of d)"
  by unfold_locales (auto intro: distinct_update distinct_delete)

subsection \<open>An operation that keeps an invariant\<close>

locale preserved =
  fixes step :: "'e \<Rightarrow> 's \<Rightarrow> 's" and inv :: "'s \<Rightarrow> bool"
  assumes step_inv: "inv s \<Longrightarrow> inv (step e s)"
begin

lemma run_inv: "inv s \<Longrightarrow> inv (fold step es s)"
  by (induction es arbitrary: s) (simp_all add: step_inv)

end

subsection \<open>An edge-triggered alert\<close>

text \<open>
  A monitor observes a condition again and again and sends a message exactly when the condition
  has changed since the last observation; \<open>edge_changes\<close> are the messages of a run, one per change.
\<close>

fun edge_changes :: "'m list \<Rightarrow> 'm list \<Rightarrow> bool \<Rightarrow> bool list \<Rightarrow> 'm list" where
  "edge_changes rise fall b [] = []"
| "edge_changes rise fall b (c # cs) =
     (if c = b then [] else if c then rise else fall) @ edge_changes rise fall c cs"

lemma edge_changes_start: "edge_changes [r] [f] c cs = m # ms \<Longrightarrow> m = (if c then f else r)"
  by (induction cs arbitrary: ms) (auto split: if_splits)

lemma edge_changes_alternate:
  "r \<noteq> f \<Longrightarrow> edge_changes [r] [f] b cs = m # m' # ms \<Longrightarrow> m \<noteq> m'"
proof (induction cs arbitrary: b)
  case (Cons c cs)
  show ?case
  proof (cases "c = b")
    case True
    with Cons show ?thesis by simp
  next
    case False
    with Cons.prems edge_changes_start [of r f c cs m' ms] show ?thesis by (auto split: if_splits)
  qed
qed simp

locale edge_alert =
  fixes observe :: "'i \<Rightarrow> 's \<Rightarrow> 's" and level :: "'i \<Rightarrow> bool" and seen :: "'s \<Rightarrow> bool" and sent :: "'s \<Rightarrow> 'm list"
    and rise :: "'m list" and fall :: "'m list"
  assumes seen_observe: "seen (observe i s) = level i"
    and sent_observe: "sent (observe i s) = sent s @ (if level i = seen s then [] else if level i then rise else fall)"
begin

lemma sent_run: "sent (fold observe is s) = sent s @ edge_changes rise fall (seen s) (map level is)"
  by (induction "is" arbitrary: s) (simp_all add: sent_observe seen_observe)

lemma seen_run: "seen (fold observe is s) = (if is = [] then seen s else level (last is))"
  by (induction "is" arbitrary: s) (simp_all add: seen_observe)

lemma steady_run: "set (map level is) \<subseteq> {seen s} \<Longrightarrow> sent (fold observe is s) = sent s"
  by (induction "is" arbitrary: s) (auto simp: sent_observe seen_observe)

end

subsection \<open>A deque of time-stamped entries\<close>

text \<open>
  Entries arrive at the right end; the collection \<open>gc\<close> removes from the left those older than
  a cut-off and stops at the first that is not. When the stamps arrive in order this is exactly
  the selection of the entries inside the window.
\<close>

locale time_window =
  fixes stamp :: "'e \<Rightarrow> 't::linorder" and gc :: "'t \<Rightarrow> 'e list \<Rightarrow> 'e list"
  assumes gc_suffix: "\<exists>old. q = old @ gc c q \<and> (\<forall>e \<in> set old. stamp e < c)"
    and gc_head: "gc c q = e # q' \<Longrightarrow> c \<le> stamp e"
begin

lemma gc_subset: "set (gc c q) \<subseteq> set q"
  by (metis gc_suffix set_append Un_upper2)

lemma gc_sorted: "sorted (map stamp q) \<Longrightarrow> sorted (map stamp (gc c q))"
  by (metis gc_suffix map_append sorted_append)

lemma gc_fresh:
  assumes "sorted (map stamp q)" and "e \<in> set (gc c q)"
  shows "c \<le> stamp e"
proof (cases "gc c q")
  case Nil
  with assms show ?thesis by simp
next
  case (Cons e' q')
  then have "c \<le> stamp e'" by (rule gc_head)
  also have "stamp e' \<le> stamp e"
    using gc_sorted [OF assms(1), of c] assms(2) Cons by auto
  finally show ?thesis .
qed

lemma gc_filter:
  assumes "sorted (map stamp q)"
  shows "gc c q = filter (\<lambda>e. c \<le> stamp e) q"
proof -
  obtain old where old: "q = old @ gc c q" "\<forall>e \<in> set old. stamp e < c"
    using gc_suffix by blast
  have "filter (\<lambda>e. c \<le> stamp e) q
      = filter (\<lambda>e. c \<le> stamp e) old @ filter (\<lambda>e. c \<le> stamp e) (gc c q)"
    by (subst old(1)) simp
  also have "filter (\<lambda>e. c \<le> stamp e) old = []"
    using old(2) by (auto simp: filter_empty_conv)
  also have "filter (\<lambda>e. c \<le> stamp e) (gc c q) = gc c q"
    using gc_fresh [OF assms] by (simp add: filter_id_conv)
  finally show ?thesis by simp
qed

lemma gc_snoc_sorted:
  "sorted (map stamp q) \<Longrightarrow> \<forall>e \<in> set q. stamp e \<le> stamp x \<Longrightarrow> sorted (map stamp (gc c (q @ [x])))"
  by (intro gc_sorted) (auto simp: sorted_append)

lemma gc_keeps_last: "c \<le> stamp x \<Longrightarrow> x \<in> set (gc c (q @ [x]))"
proof -
  assume "c \<le> stamp x"
  obtain old where old: "q @ [x] = old @ gc c (q @ [x])" "\<forall>e \<in> set old. stamp e < c"
    using gc_suffix by blast
  have "gc c (q @ [x]) \<noteq> []"
  proof
    assume "gc c (q @ [x]) = []"
    with old have "x \<in> set old" by (metis append_Nil2 in_set_conv_decomp)
    with old(2) \<open>c \<le> stamp x\<close> show False by auto
  qed
  with old(1) show ?thesis
    by (metis append_is_Nil_conv last_appendR last_in_set last_snoc)
qed

end

lemma popleft_while_window:
  "\<exists>old. q = old @ popleft_while (\<lambda>e. f e < c) q \<and> (\<forall>e \<in> set old. f e < c)"
  by (metis popleft_while_dropWhile set_takeWhileD takeWhile_dropWhile_id)

lemma popleft_while_head:
  "popleft_while (\<lambda>e. f e < (c :: 't :: linorder)) q = e # q' \<Longrightarrow> c \<le> f e"
  by (metis dropWhile_eq_Cons_conv linorder_not_le popleft_while_dropWhile)

interpretation deque_by_fst: time_window fst "\<lambda>c. popleft_while (\<lambda>e. fst e < c)"
  by unfold_locales (rule popleft_while_window, rule popleft_while_head)

interpretation deque_by_id: time_window id "\<lambda>c. popleft_while (\<lambda>e. id e < c)"
  by unfold_locales (rule popleft_while_window, rule popleft_while_head)

lemma option_filter_eqI:
  assumes "\<And>z. x = Some z \<longleftrightarrow> y = Some z \<and> \<not> P z"
  shows "x = (case y of None \<Rightarrow> None | Some z \<Rightarrow> if P z then None else Some z)"
proof (cases y)
  case None
  then have "x \<noteq> Some z" for z using assms [of z] by simp
  then have "x = None" by (cases x) blast+
  with None show ?thesis by simp
next
  case (Some w)
  have "x = None" if "P w"
    using assms [of "the x"] Some that by (cases x) auto
  with Some assms [of w] show ?thesis by auto
qed

section \<open>Stores of objects under their own key\<close>

text \<open>
  The interface a client of an order book relies on: a new object is found under its key, an
  object whose key is taken changes nothing, and pulling a key reports whether it was there.
\<close>

locale object_store =
  fixes find :: "'b \<Rightarrow> 'k \<Rightarrow> 'o option"
    and put :: "'o \<Rightarrow> 'b \<Rightarrow> 'b"
    and pull :: "'k \<Rightarrow> 'b \<Rightarrow> bool \<times> 'b"
    and key :: "'o \<Rightarrow> 'k"
    and legal :: "'o \<Rightarrow> bool"
  assumes find_put: "legal x \<Longrightarrow> find (put x b) = (if find b (key x) = None then (find b)(key x \<mapsto> x) else find b)"
    and pull_ok: "fst (pull k b) \<longleftrightarrow> find b k \<noteq> None"
    and find_pull: "find (snd (pull k b)) = (find b)(k := None)"
begin

lemma put_present: "legal x \<Longrightarrow> find (put x b) (key x) \<noteq> None"
  by (simp add: find_put)

lemma put_origin: "legal x \<Longrightarrow> find (put x b) k = Some y \<Longrightarrow> find b k = Some y \<or> (k = key x \<and> y = x)"
  by (auto simp: find_put split: if_splits)

lemma pull_origin: "find (snd (pull k b)) k' = Some y \<Longrightarrow> find b k' = Some y \<and> k' \<noteq> k"
  by (auto simp: find_pull split: if_splits)

lemma swap_origin:
  "legal x \<Longrightarrow> find (put x (snd (pull k b))) k' = Some y \<Longrightarrow>
   (find b k' = Some y \<and> k' \<noteq> k) \<or> (k' = key x \<and> y = x)"
  using put_origin pull_origin by blast

lemma swap_found: "legal x \<Longrightarrow> find b (key x) = None \<or> key x = k \<Longrightarrow> find (put x (snd (pull k b))) (key x) = Some x"
  by (auto simp: find_put find_pull)

lemma pull_all: "find (fold (\<lambda>k b. snd (pull k b)) ks b) k' = (if k' \<in> set ks then None else find b k')"
  by (induction ks arbitrary: b) (auto simp: find_pull)

end

end
