(* ===== verification/Store.thy ===== *)
theory Store
  imports Prelude
begin

text \<open>
  The two Postgres tables the execution components write, \<open>trading.orders\<close> and
  \<open>trading.fills\<close>, and \<open>upsert_many\<close> of \<open>common/db.py\<close>: an insertion of several rows in one
  transaction with \<open>ON CONFLICT (key) DO NOTHING\<close>. A table is the list of its rows; the key is
  a function of the row. Two flags say what fails. Without \<open>db_up\<close> no connection is acquired, so every statement raises and
  nothing is stored; without \<open>fills_up\<close> an insertion into \<open>trading.fills\<close> raises while the other statements are
  executed, so a sequence of writes can end between its two transactions. The callers handle the exception.
\<close>

record order_row =
  or_order_id :: string
  or_strategy_id :: string
  or_instrument_id :: string
  or_side :: string
  or_order_type :: string
  or_qty :: real
  or_price :: real
  or_status :: string
  or_ts_submit :: epoch
  or_ts_last_update :: epoch
  or_mode :: string
  or_backtest_id :: "string option"
  or_metadata :: "(string, jval) dict"

record fill_row =
  fr_fill_id :: string
  fr_order_id :: string
  fr_ts :: epoch
  fr_price :: real
  fr_qty :: real
  fr_liquidity_side :: string
  fr_fee :: real
  fr_fee_currency :: string
  fr_mode :: string
  fr_backtest_id :: "string option"
  fr_metadata :: "(string, jval) dict"

record trading_db =
  orders_tbl :: "order_row list"
  fills_tbl :: "fill_row list"
  db_up :: bool
  fills_up :: bool

definition order_key :: "order_row \<Rightarrow> string \<times> epoch" where
  "order_key r = (or_order_id r, or_ts_submit r)"

definition fill_key :: "fill_row \<Rightarrow> string \<times> epoch" where
  "fill_key r = (fr_fill_id r, fr_ts r)"

text \<open>\<open>executemany\<close> of the insertion: the rows one after the other, a conflicting one skipped.\<close>

fun upsert_many :: "('r \<Rightarrow> 'k) \<Rightarrow> 'r list \<Rightarrow> 'r list \<Rightarrow> 'r list" where
  "upsert_many key [] tbl = tbl"
| "upsert_many key (r # rs) tbl =
     upsert_many key rs (if key r \<in> key ` set tbl then tbl else tbl @ [r])"

section \<open>Idempotence and keys of the upsert\<close>

lemma upsert_many_keys: "key ` set (upsert_many key rs tbl) = key ` set tbl \<union> key ` set rs"
  by (induction key rs tbl rule: upsert_many.induct) auto

lemma upsert_many_prefix: "\<exists>new. upsert_many key rs tbl = tbl @ new \<and> set new \<subseteq> set rs"
  by (induction key rs tbl rule: upsert_many.induct) (auto split: if_splits)

lemma upsert_many_distinct:
  "distinct (map key tbl) \<Longrightarrow> distinct (map key (upsert_many key rs tbl))"
  by (induction key rs tbl rule: upsert_many.induct) auto

lemma upsert_many_known: "key ` set rs \<subseteq> key ` set tbl \<Longrightarrow> upsert_many key rs tbl = tbl"
  by (induction key rs tbl rule: upsert_many.induct) auto

lemma upsert_many_fresh:
  "distinct (map key rs) \<Longrightarrow> key ` set rs \<inter> key ` set tbl = {} \<Longrightarrow> upsert_many key rs tbl = tbl @ rs"
  by (induction key rs tbl rule: upsert_many.induct) (auto simp: disjoint_iff)

lemma upsert_many_idem: "upsert_many key rs (upsert_many key rs tbl) = upsert_many key rs tbl"
  by (rule upsert_many_known) (simp add: upsert_many_keys)

end
