(* ===== verification/Limit_Book.thy ===== *)
theory Limit_Book
  imports Store
begin

text \<open>
  \<open>paper/limit_book_sim.py\<close>: the in-memory limit order book of the market-making strategies.
  \<open>limit_book\<close> is the state of \<open>LimitBookSim\<close>; \<open>place\<close>, \<open>cancel\<close>, \<open>cancel_all\<close> and
  \<open>on_tick\<close> are its coroutines, each with the persistence calls it makes on the database of
  theory \<open>Store\<close>. The \<open>asyncio.Lock\<close> makes the in-memory part of each coroutine atomic, and
  the persistence calls that follow it touch the database only, so a coroutine is one step.
  Times of a database row are the float time stamps \<open>_dt\<close> converts.
\<close>

section \<open>Data\<close>

record limit_order =
  lo_coid :: string
  lo_strategy_id :: string
  lo_instrument_id :: string
  lo_side :: string
  lo_price :: real
  lo_qty :: real
  lo_ts_placed :: epoch
  lo_ttl_s :: "real option"
  lo_metadata :: "(string, jval) dict"

record limit_fill =
  lf_coid :: string
  lf_strategy_id :: string
  lf_instrument_id :: string
  lf_side :: string
  lf_price :: real
  lf_qty :: real
  lf_ts :: epoch
  lf_fee :: real
  lf_liquidity_side :: string

record limit_book =
  bk_orders :: "(string, limit_order) dict"
  bk_mode :: string
  bk_maker_fee_bps :: real
  bk_persist :: bool
  bk_backtest_id :: "string option"

definition DEFAULT_MAKER_FEE_BPS :: real where
  "DEFAULT_MAKER_FEE_BPS = 10"

definition new_book :: "string \<Rightarrow> real \<Rightarrow> bool \<Rightarrow> string option \<Rightarrow> limit_book" where
  "new_book mode maker_fee_bps persist backtest_id =
     \<lparr>bk_orders = [], bk_mode = mode, bk_maker_fee_bps = maker_fee_bps,
      bk_persist = persist, bk_backtest_id = backtest_id\<rparr>"

definition expired_at :: "limit_order \<Rightarrow> epoch \<Rightarrow> bool" where
  "expired_at lo now =
     (case lo_ttl_s lo of None \<Rightarrow> False | Some ttl \<Rightarrow> now \<ge> lo_ts_placed lo + ttl)"

text \<open>The order id: a digest, a parameter here, of the joined key of the order.\<close>

definition coid_key :: "(int \<Rightarrow> string) \<Rightarrow> (real \<Rightarrow> string) \<Rightarrow> string \<Rightarrow> string \<Rightarrow> int \<Rightarrow> int \<Rightarrow> string \<Rightarrow> real \<Rightarrow> string"
  where
  "coid_key show_int fmt8 strategy_id instrument_id reset_gen level_idx side center_price =
     strategy_id @ ''|'' @ instrument_id @ ''|'' @ show_int reset_gen @ ''|'' @
     show_int level_idx @ ''|'' @ side @ ''|'' @ fmt8 center_price"

definition deterministic_coid ::
  "(string \<Rightarrow> string) \<Rightarrow> (int \<Rightarrow> string) \<Rightarrow> (real \<Rightarrow> string) \<Rightarrow> string \<Rightarrow> string \<Rightarrow> int \<Rightarrow> int \<Rightarrow> string \<Rightarrow> real \<Rightarrow> string"
  where
  "deterministic_coid sha256_hex show_int fmt8 strategy_id instrument_id reset_gen level_idx side center_price =
     take 16 (sha256_hex
       (coid_key show_int fmt8 strategy_id instrument_id reset_gen level_idx side center_price))"

section \<open>Reading the book\<close>

definition book_len :: "limit_book \<Rightarrow> nat" where
  "book_len b = length (bk_orders b)"

definition snapshot :: "limit_book \<Rightarrow> limit_order list" where
  "snapshot b = values_of (bk_orders b)"

definition book_get :: "limit_book \<Rightarrow> string \<Rightarrow> limit_order option" where
  "book_get b coid = map_of (bk_orders b) coid"

section \<open>Persistence\<close>

definition order_row_of :: "limit_book \<Rightarrow> limit_order \<Rightarrow> order_row" where
  "order_row_of b lo =
     \<lparr>or_order_id = lo_coid lo, or_strategy_id = lo_strategy_id lo,
      or_instrument_id = lo_instrument_id lo, or_side = lo_side lo,
      or_order_type = ''LIMIT'', or_qty = lo_qty lo, or_price = lo_price lo,
      or_status = ''NEW'', or_ts_submit = lo_ts_placed lo, or_ts_last_update = lo_ts_placed lo,
      or_mode = bk_mode b, or_backtest_id = bk_backtest_id b, or_metadata = lo_metadata lo\<rparr>"

definition persist_new :: "limit_book \<Rightarrow> limit_order \<Rightarrow> trading_db \<Rightarrow> trading_db" where
  "persist_new b lo db =
     (if db_up db
      then db\<lparr>orders_tbl := upsert_many order_key [order_row_of b lo] (orders_tbl db)\<rparr>
      else db)"

text \<open>The \<open>UPDATE \<dots> WHERE order_id = \<dots> AND ts_submit = \<dots>\<close>; \<open>now\<close> is the wall clock.\<close>

definition persist_cancel :: "epoch \<Rightarrow> limit_order \<Rightarrow> string \<Rightarrow> trading_db \<Rightarrow> trading_db" where
  "persist_cancel now lo reason db =
     (if db_up db
      then db\<lparr>orders_tbl := map (\<lambda>r.
             if order_key r = (lo_coid lo, lo_ts_placed lo)
             then r\<lparr>or_status := ''CANCELLED'',
                    or_ts_last_update := (if reason = ''ttl'' then lo_ts_placed lo else now),
                    or_metadata := AList.update ''cancel_reason'' (JStr reason) (or_metadata r)\<rparr>
             else r) (orders_tbl db)\<rparr>
      else db)"

definition fill_row_of :: "limit_book \<Rightarrow> limit_fill \<Rightarrow> fill_row" where
  "fill_row_of b f =
     \<lparr>fr_fill_id = lf_coid f @ ''-fill'', fr_order_id = lf_coid f, fr_ts = lf_ts f,
      fr_price = lf_price f, fr_qty = lf_qty f, fr_liquidity_side = lf_liquidity_side f,
      fr_fee = lf_fee f, fr_fee_currency = ''USDT'', fr_mode = bk_mode b,
      fr_backtest_id = bk_backtest_id b, fr_metadata = [(''kind'', JStr ''limit_fill'')]\<rparr>"

text \<open>The \<open>UPDATE \<dots> SET status = 'FILLED' \<dots> WHERE order_id = \<dots>\<close>, on every row of that id.\<close>

definition mark_filled :: "limit_fill \<Rightarrow> order_row list \<Rightarrow> order_row list" where
  "mark_filled f tbl =
     map (\<lambda>r. if or_order_id r = lf_coid f
              then r\<lparr>or_status := ''FILLED'', or_ts_last_update := lf_ts f\<rparr> else r) tbl"

definition persist_fills :: "limit_book \<Rightarrow> limit_fill list \<Rightarrow> trading_db \<Rightarrow> trading_db" where
  "persist_fills b fills db =
     (if db_up db \<and> fills_up db
      then db\<lparr>fills_tbl := upsert_many fill_key (map (fill_row_of b) fills) (fills_tbl db),
              orders_tbl := fold mark_filled fills (orders_tbl db)\<rparr>
      else db)"

section \<open>Placing and cancelling\<close>

definition place ::
  "limit_order \<Rightarrow> limit_book \<Rightarrow> trading_db \<Rightarrow> py_error + (bool \<times> limit_book \<times> trading_db)" where
  "place lo b db =
     (if lo_side lo \<noteq> ''BUY'' \<and> lo_side lo \<noteq> ''SELL''
      then Inl (ValueError (''invalid side: '' @ lo_side lo))
      else if lo_price lo \<le> 0 \<or> lo_qty lo \<le> 0
      then Inl (ValueError ''price and qty must be > 0'')
      else if map_of (bk_orders b) (lo_coid lo) \<noteq> None
      then Inr (False, b, db)
      else (let b' = b\<lparr>bk_orders := AList.update (lo_coid lo) lo (bk_orders b)\<rparr>
            in Inr (True, b', if bk_persist b then persist_new b lo db else db)))"

definition cancel ::
  "string \<Rightarrow> string \<Rightarrow> epoch \<Rightarrow> limit_book \<Rightarrow> trading_db \<Rightarrow> bool \<times> limit_book \<times> trading_db" where
  "cancel coid reason now b db =
     (case map_of (bk_orders b) coid of
        None \<Rightarrow> (False, b, db)
      | Some lo \<Rightarrow>
          (True, b\<lparr>bk_orders := AList.delete coid (bk_orders b)\<rparr>,
           if bk_persist b then persist_cancel now lo reason db else db))"

definition cancel_victim ::
  "string option \<Rightarrow> string option \<Rightarrow> string option \<Rightarrow> limit_order \<Rightarrow> bool" where
  "cancel_victim strategy_id instrument_id side lo \<longleftrightarrow>
     (strategy_id = None \<or> strategy_id = Some (lo_strategy_id lo)) \<and>
     (instrument_id = None \<or> instrument_id = Some (lo_instrument_id lo)) \<and>
     (side = None \<or> side = Some (lo_side lo))"

definition cancel_all ::
  "string option \<Rightarrow> string option \<Rightarrow> string option \<Rightarrow> string \<Rightarrow> epoch \<Rightarrow> limit_book \<Rightarrow> trading_db
   \<Rightarrow> nat \<times> limit_book \<times> trading_db" where
  "cancel_all strategy_id instrument_id side reason now b db =
     (let victims = filter (cancel_victim strategy_id instrument_id side) (snapshot b);
          b' = b\<lparr>bk_orders := dict_pop_all (map lo_coid victims) (bk_orders b)\<rparr>
      in (length victims, b',
          if victims \<noteq> [] \<and> bk_persist b
          then fold (\<lambda>lo. persist_cancel now lo reason) victims db else db))"

section \<open>Matching\<close>

definition crossed :: "limit_order \<Rightarrow> real \<Rightarrow> bool" where
  "crossed lo px \<longleftrightarrow>
     (lo_side lo = ''BUY'' \<and> px \<le> lo_price lo) \<or> (lo_side lo = ''SELL'' \<and> px \<ge> lo_price lo)"

definition fill_of :: "real \<Rightarrow> epoch \<Rightarrow> limit_order \<Rightarrow> limit_fill" where
  "fill_of fee_bps ts lo =
     \<lparr>lf_coid = lo_coid lo, lf_strategy_id = lo_strategy_id lo,
      lf_instrument_id = lo_instrument_id lo, lf_side = lo_side lo, lf_price = lo_price lo,
      lf_qty = lo_qty lo, lf_ts = ts, lf_fee = fee_bps * (1 / 10000) * lo_price lo * lo_qty lo,
      lf_liquidity_side = ''MAKER''\<rparr>"

fun match_loop ::
  "real \<Rightarrow> real \<Rightarrow> epoch \<Rightarrow> limit_order list \<Rightarrow> limit_fill list \<Rightarrow> limit_order list
   \<Rightarrow> limit_fill list \<times> limit_order list" where
  "match_loop fee_bps px ts [] fills expd = (fills, expd)"
| "match_loop fee_bps px ts (lo # los) fills expd =
     (if expired_at lo ts then match_loop fee_bps px ts los fills (expd @ [lo])
      else if \<not> crossed lo px then match_loop fee_bps px ts los fills expd
      else match_loop fee_bps px ts los (fills @ [fill_of fee_bps ts lo]) expd)"

definition fifo_orders :: "string \<Rightarrow> limit_book \<Rightarrow> limit_order list" where
  "fifo_orders instrument_id b =
     sort_key lo_ts_placed (filter (\<lambda>lo. lo_instrument_id lo = instrument_id) (snapshot b))"

definition on_tick ::
  "string \<Rightarrow> real \<Rightarrow> epoch \<Rightarrow> limit_book \<Rightarrow> trading_db
   \<Rightarrow> limit_fill list \<times> limit_book \<times> trading_db" where
  "on_tick instrument_id px ts b db =
     (let (fills, expd) = match_loop (bk_maker_fee_bps b) px ts (fifo_orders instrument_id b) [] [];
          b' = b\<lparr>bk_orders := dict_pop_all (map lo_coid expd)
                   (dict_pop_all (map lf_coid fills) (bk_orders b))\<rparr>;
          db1 = (if bk_persist b then fold (\<lambda>lo. persist_cancel ts lo ''ttl'') expd db else db);
          db2 = (if bk_persist b \<and> fills \<noteq> [] then persist_fills b fills db1 else db1)
      in (fills, b', db2))"

section \<open>The book as a machine\<close>

text \<open>
  One call on the book, with the database it writes. A call that raises leaves both as they
  were. \<open>book_reach\<close> are the states an empty book and an empty database reach when the
  database answers and every new order id is one the book has not used before, which is what
  \<open>deterministic_coid\<close> is for.
\<close>

datatype book_op =
    OpPlace limit_order
  | OpCancel string string epoch
  | OpCancelAll "string option" "string option" "string option" string epoch
  | OpTick string real epoch

fun book_step :: "book_op \<Rightarrow> limit_book \<times> trading_db \<Rightarrow> limit_book \<times> trading_db" where
  "book_step (OpPlace lo) (b, db) =
     (case place lo b db of Inl _ \<Rightarrow> (b, db) | Inr (_, b', db') \<Rightarrow> (b', db'))"
| "book_step (OpCancel coid reason now) (b, db) = snd (cancel coid reason now b db)"
| "book_step (OpCancelAll st ins sd reason now) (b, db) = snd (cancel_all st ins sd reason now b db)"
| "book_step (OpTick ins px ts) (b, db) = snd (on_tick ins px ts b db)"

fun fresh_op :: "book_op \<Rightarrow> limit_book \<times> trading_db \<Rightarrow> bool" where
  "fresh_op (OpPlace lo) (b, db) =
     (map_of (bk_orders b) (lo_coid lo) \<noteq> None \<or> lo_coid lo \<notin> or_order_id ` set (orders_tbl db))"
| "fresh_op _ _ = True"

inductive book_reach :: "limit_book \<times> trading_db \<Rightarrow> bool" where
  start: "book_reach (new_book mode fee True bt, \<lparr>orders_tbl = [], fills_tbl = [], db_up = True, fills_up = True\<rparr>)"
| step: "book_reach s \<Longrightarrow> fresh_op op s \<Longrightarrow> book_reach (book_step op s)"

section \<open>Well-formed books\<close>

definition order_wf :: "limit_order \<Rightarrow> bool" where
  "order_wf lo \<longleftrightarrow> (lo_side lo = ''BUY'' \<or> lo_side lo = ''SELL'') \<and> 0 < lo_price lo \<and> 0 < lo_qty lo"

definition book_wf :: "limit_book \<Rightarrow> bool" where
  "book_wf b \<longleftrightarrow> distinct (keys_of (bk_orders b)) \<and>
     (\<forall>(k, lo) \<in> set (bk_orders b). k = lo_coid lo \<and> order_wf lo)"

abbreviation drop_orders :: "string list \<Rightarrow> limit_book \<Rightarrow> limit_book" where
  "drop_orders ks b \<equiv> b\<lparr>bk_orders := dict_pop_all ks (bk_orders b)\<rparr>"

lemma book_wf_key: "book_wf b \<Longrightarrow> map_of (bk_orders b) k = Some lo \<Longrightarrow> k = lo_coid lo \<and> order_wf lo"
  by (auto simp: book_wf_def dest!: map_of_SomeD)

lemma book_wf_snapshot:
  "book_wf b \<Longrightarrow> lo \<in> set (snapshot b) \<longleftrightarrow> map_of (bk_orders b) (lo_coid lo) = Some lo"
proof -
  assume wf: "book_wf b"
  then have "distinct (keys_of (bk_orders b))" by (simp add: book_wf_def)
  then have "lo \<in> set (snapshot b) \<longleftrightarrow> (\<exists>k. map_of (bk_orders b) k = Some lo)"
    unfolding snapshot_def by (rule dict_values_map_of)
  also have "\<dots> \<longleftrightarrow> map_of (bk_orders b) (lo_coid lo) = Some lo"
    using book_wf_key [OF wf] by blast
  finally show ?thesis .
qed

lemma book_wf_distinct_coids: "book_wf b \<Longrightarrow> distinct (map lo_coid (snapshot b))"
proof -
  assume wf: "book_wf b"
  then have "map lo_coid (snapshot b) = keys_of (bk_orders b)"
    by (auto simp: book_wf_def snapshot_def)
  with wf show ?thesis by (simp add: book_wf_def)
qed

lemma book_wf_drop [intro]: "book_wf b \<Longrightarrow> book_wf (drop_orders ks b)"
  by (auto simp: book_wf_def dict_pop_all_filter distinct_map_filter)

lemma book_wf_new_order [intro]:
  "book_wf b \<Longrightarrow> order_wf lo \<Longrightarrow> book_wf (b\<lparr>bk_orders := AList.update (lo_coid lo) lo (bk_orders b)\<rparr>)"
  using set_dict_update [of "lo_coid lo" lo "bk_orders b"]
  by (auto simp: book_wf_def distinct_update)

lemma snapshot_drop:
  assumes "book_wf b"
  shows "snapshot (drop_orders ks b) = filter (\<lambda>lo. lo_coid lo \<notin> set ks) (snapshot b)"
proof -
  have "filter (\<lambda>e. fst e \<notin> set ks) (bk_orders b) = filter (\<lambda>e. lo_coid (snd e) \<notin> set ks) (bk_orders b)"
    by (rule filter_cong) (use assms in \<open>auto simp: book_wf_def\<close>)
  then show ?thesis
    by (simp add: snapshot_def dict_pop_all_filter filter_map comp_def case_prod_beta')
qed

lemma delete_is_pop: "AList.delete k d = dict_pop_all [k] d"
  by (simp add: dict_pop_all_def)

subsection \<open>The matching loop\<close>

definition leaves :: "real \<Rightarrow> epoch \<Rightarrow> limit_order \<Rightarrow> bool" where
  "leaves px ts lo \<longleftrightarrow> expired_at lo ts \<or> crossed lo px"

lemma match_loop_eq:
  "match_loop fee px ts los fills expd =
     (fills @ map (fill_of fee ts) (filter (\<lambda>lo. \<not> expired_at lo ts \<and> crossed lo px) los),
      expd @ filter (\<lambda>lo. expired_at lo ts) los)"
  by (induction los arbitrary: fills expd) auto

lemma set_fifo_orders:
  "set (fifo_orders ins b) = {lo \<in> set (snapshot b). lo_instrument_id lo = ins}"
  by (auto simp: fifo_orders_def)

lemma lf_coid_fill_of [simp]: "lf_coid (fill_of fee ts lo) = lo_coid lo"
  by (simp add: fill_of_def)

lemma on_tick_fills:
  "fst (on_tick ins px ts b db) =
     map (fill_of (bk_maker_fee_bps b) ts)
       (filter (\<lambda>lo. \<not> expired_at lo ts \<and> crossed lo px) (fifo_orders ins b))"
  by (simp add: on_tick_def match_loop_eq Let_def)

lemma dict_pop_all_append: "dict_pop_all ks2 (dict_pop_all ks1 d) = dict_pop_all (ks1 @ ks2) d"
  by (simp add: dict_pop_all_def)

lemma on_tick_book:
  "fst (snd (on_tick ins px ts b db)) =
     drop_orders (map lo_coid (filter (\<lambda>lo. \<not> expired_at lo ts \<and> crossed lo px) (fifo_orders ins b))
       @ map lo_coid (filter (\<lambda>lo. expired_at lo ts) (fifo_orders ins b))) b"
  by (simp add: on_tick_def match_loop_eq dict_pop_all_append comp_def Let_def)

lemma on_tick_snapshot:
  assumes "book_wf b"
  shows "snapshot (fst (snd (on_tick ins px ts b db))) =
    filter (\<lambda>lo. \<not> (lo_instrument_id lo = ins \<and> leaves px ts lo)) (snapshot b)"
proof -
  let ?gone = "\<lambda>lo. lo \<in> set (snapshot b) \<and> lo_instrument_id lo = ins \<and> leaves px ts lo"
  have coids: "lo_coid lo \<in> lo_coid ` {lo. ?gone lo} \<longleftrightarrow> ?gone lo" if "lo \<in> set (snapshot b)" for lo
  proof -
    have inj: "inj_on lo_coid (set (snapshot b))"
      using book_wf_distinct_coids [OF assms] by (simp add: distinct_map)
    then show ?thesis using that by (auto dest: inj_onD)
  qed
  have gone: "set (map lo_coid (filter (\<lambda>lo. \<not> expired_at lo ts \<and> crossed lo px) (fifo_orders ins b))
       @ map lo_coid (filter (\<lambda>lo. expired_at lo ts) (fifo_orders ins b))) = lo_coid ` {lo. ?gone lo}"
    by (auto simp: set_fifo_orders leaves_def)
  show ?thesis
    unfolding on_tick_book snapshot_drop [OF assms] gone
    by (rule filter_cong) (simp_all add: coids)
qed

subsection \<open>Every call keeps a book well-formed\<close>

lemma place_wf: "book_wf b \<Longrightarrow> place lo b db = Inr (r, b', db') \<Longrightarrow> book_wf b'"
  by (auto simp: place_def Let_def order_wf_def split: if_splits)

lemma cancel_wf: "book_wf b \<Longrightarrow> book_wf (fst (snd (cancel coid reason now b db)))"
  by (auto simp: cancel_def delete_is_pop split: option.split)

lemma cancel_all_wf: "book_wf b \<Longrightarrow> book_wf (fst (snd (cancel_all st ins sd reason now b db)))"
  by (auto simp: cancel_all_def Let_def)

lemma on_tick_wf: "book_wf b \<Longrightarrow> book_wf (fst (snd (on_tick ins px ts b db)))"
  by (auto simp: on_tick_book)

lemma book_step_wf: "book_wf (fst s) \<Longrightarrow> book_wf (fst (book_step op s))"
  using place_wf cancel_wf cancel_all_wf on_tick_wf
  by (cases s; cases op) (fastforce split: sum.split)+

interpretation book: preserved book_step "\<lambda>s. book_wf (fst s)"
  by unfold_locales (rule book_step_wf)

lemma new_book_wf [simp]: "book_wf (new_book mode fee pers bt)"
  by (simp add: new_book_def book_wf_def)

text \<open>What a client sees of the book: a store of orders under their ids, whatever the database does.\<close>

interpretation book_store: object_store "\<lambda>s. book_get (fst s)" "\<lambda>lo s. book_step (OpPlace lo) s"
    "\<lambda>c s. cancel c reason now (fst s) (snd s)" lo_coid order_wf for reason now
proof
  fix lo and s :: "limit_book \<times> trading_db"
  assume "order_wf lo"
  then show "book_get (fst (book_step (OpPlace lo) s)) =
      (if book_get (fst s) (lo_coid lo) = None then (book_get (fst s))(lo_coid lo \<mapsto> lo) else book_get (fst s))"
    by (cases s) (auto simp: book_get_def fun_eq_iff place_def order_wf_def Let_def)
qed (auto simp: book_get_def fun_eq_iff cancel_def split: option.split)

lemma on_tick_get:
  assumes "book_wf b"
  shows "book_get (fst (snd (on_tick ins px ts b db))) c =
    (case book_get b c of None \<Rightarrow> None
     | Some lo \<Rightarrow> if lo_instrument_id lo = ins \<and> leaves px ts lo then None else Some lo)"
proof -
  let ?b = "fst (snd (on_tick ins px ts b db))"
  have "book_wf ?b" using assms by (rule on_tick_wf)
  note mem = book_wf_snapshot [OF this] book_wf_snapshot [OF assms]
  note key = book_wf_key [OF \<open>book_wf ?b\<close>] book_wf_key [OF assms]
  have own: "book_get ?b (lo_coid lo) = Some lo \<longleftrightarrow>
      book_get b (lo_coid lo) = Some lo \<and> \<not> (lo_instrument_id lo = ins \<and> leaves px ts lo)" for lo
    unfolding book_get_def mem [symmetric] on_tick_snapshot [OF assms] by simp
  have "book_get ?b c = Some lo \<longleftrightarrow> book_get b c = Some lo \<and> \<not> (lo_instrument_id lo = ins \<and> leaves px ts lo)" for lo
  proof (cases "c = lo_coid lo")
    case True
    with own show ?thesis by simp
  next
    case False
    with key show ?thesis unfolding book_get_def by blast
  qed
  then show ?thesis by (rule option_filter_eqI)
qed

section \<open>The database mirrors the book\<close>

fun row_of :: "order_row list \<Rightarrow> string \<Rightarrow> order_row option" where
  "row_of [] c = None"
| "row_of (r # tbl) c = (if or_order_id r = c then Some r else row_of tbl c)"

text \<open>
  The row of an order id is \<open>NEW\<close> exactly while the order rests; a row that left that status has
  a terminal one, and exactly the filled rows have a fill, one each.
\<close>

definition db_mirror :: "limit_book \<Rightarrow> trading_db \<Rightarrow> bool" where
  "db_mirror b db \<longleftrightarrow>
     db_up db \<and> fills_up db \<and> bk_persist b \<and> distinct (map or_order_id (orders_tbl db)) \<and>
     (\<forall>k lo. map_of (bk_orders b) k = Some lo \<longrightarrow>
        (\<exists>r. row_of (orders_tbl db) k = Some r \<and> or_ts_submit r = lo_ts_placed lo \<and> or_status r = ''NEW'')) \<and>
     (\<forall>c r. row_of (orders_tbl db) c = Some r \<longrightarrow> or_status r = ''NEW'' \<longrightarrow> map_of (bk_orders b) c \<noteq> None) \<and>
     (\<forall>c r. row_of (orders_tbl db) c = Some r \<longrightarrow> or_status r \<in> {''NEW'', ''FILLED'', ''CANCELLED''}) \<and>
     distinct (map fr_order_id (fills_tbl db)) \<and>
     (\<forall>fr \<in> set (fills_tbl db). fr_fill_id fr = fr_order_id fr @ ''-fill'') \<and>
     (\<forall>c. c \<in> fr_order_id ` set (fills_tbl db) \<longleftrightarrow>
        (\<exists>r. row_of (orders_tbl db) c = Some r \<and> or_status r = ''FILLED''))"

lemma row_of_id: "row_of tbl c = Some r \<Longrightarrow> or_order_id r = c"
  by (induction tbl) (auto split: if_splits)

lemma row_of_None: "row_of tbl c = None \<longleftrightarrow> c \<notin> or_order_id ` set tbl"
  by (induction tbl) auto

lemma row_of_map: "(\<And>r. or_order_id (f r) = or_order_id r) \<Longrightarrow> row_of (map f tbl) c = map_option f (row_of tbl c)"
  by (induction tbl) auto

lemma row_of_mem: "row_of tbl c = Some r \<Longrightarrow> r \<in> set tbl"
  by (induction tbl) (auto split: if_splits)

lemma row_of_member: "distinct (map or_order_id tbl) \<Longrightarrow> r \<in> set tbl \<Longrightarrow> row_of tbl (or_order_id r) = Some r"
  by (induction tbl) (auto simp: image_iff)

lemma row_of_snoc: "or_order_id r \<notin> or_order_id ` set tbl \<Longrightarrow>
    row_of (tbl @ [r]) c = (if c = or_order_id r then Some r else row_of tbl c)"
  by (induction tbl) auto

lemma db_mirror_row:
  "db_mirror b db \<Longrightarrow> map_of (bk_orders b) k = Some lo \<Longrightarrow>
     \<exists>r. row_of (orders_tbl db) k = Some r \<and> or_ts_submit r = lo_ts_placed lo \<and> or_status r = ''NEW''"
  by (simp add: db_mirror_def)

lemma db_mirror_new_iff:
  "db_mirror b db \<Longrightarrow>
     (\<exists>r. row_of (orders_tbl db) c = Some r \<and> or_status r = ''NEW'') \<longleftrightarrow> map_of (bk_orders b) c \<noteq> None"
proof
  assume mir: "db_mirror b db"
  show "map_of (bk_orders b) c \<noteq> None" if "\<exists>r. row_of (orders_tbl db) c = Some r \<and> or_status r = ''NEW''"
    using that mir by (auto simp: db_mirror_def)
  show "\<exists>r. row_of (orders_tbl db) c = Some r \<and> or_status r = ''NEW''" if "map_of (bk_orders b) c \<noteq> None"
    using that db_mirror_row [OF mir] by fastforce
qed

text \<open>An order leaves the book: its row, and only its row, takes a terminal status.\<close>

lemma db_mirror_leave:
  assumes mir: "db_mirror b db" and lo: "map_of (bk_orders b) c = Some lo"
    and id: "\<And>r. or_order_id (f r) = or_order_id r" and ts: "\<And>r. or_ts_submit (f r) = or_ts_submit r"
    and other: "\<And>r. or_order_id r \<noteq> c \<Longrightarrow> f r = r"
    and st: "\<And>r. row_of (orders_tbl db) c = Some r \<Longrightarrow> or_status (f r) = st"
    and fin: "st = ''FILLED'' \<or> st = ''CANCELLED''"
    and fills: "distinct (map fr_order_id fs)" "\<forall>fr \<in> set fs. fr_fill_id fr = fr_order_id fr @ ''-fill''"
      "fr_order_id ` set fs = fr_order_id ` set (fills_tbl db) \<union> (if st = ''FILLED'' then {c} else {})"
  shows "db_mirror (drop_orders [c] b) (db\<lparr>orders_tbl := map f (orders_tbl db), fills_tbl := fs\<rparr>)"
proof -
  have rows: "row_of (map f (orders_tbl db)) k = map_option f (row_of (orders_tbl db) k)" for k
    by (rule row_of_map) (rule id)
  have same: "f r = r" if "row_of (orders_tbl db) k = Some r" "k \<noteq> c" for k r
    using other that row_of_id [OF that(1)] by simp
  have status: "or_status (f r) = (if k = c then st else or_status r)"
    if "row_of (orders_tbl db) k = Some r" for k r
    using that same [OF that] st by auto
  have ids: "distinct (map or_order_id (map f (orders_tbl db)))"
    using mir by (simp add: db_mirror_def comp_def id)
  obtain r0 where r0: "row_of (orders_tbl db) c = Some r0" "or_status r0 = ''NEW''"
    using db_mirror_row [OF mir lo] by blast
  have resting: "\<exists>r. row_of (map f (orders_tbl db)) k = Some r \<and> or_ts_submit r = lo_ts_placed lo' \<and> or_status r = ''NEW''"
    if "map_of (bk_orders (drop_orders [c] b)) k = Some lo'" for k lo'
  proof -
    from that have "k \<noteq> c" "map_of (bk_orders b) k = Some lo'" by (auto split: if_splits)
    with db_mirror_row [OF mir this(2)] show ?thesis by (auto simp: rows ts status)
  qed
  have new: "map_of (bk_orders (drop_orders [c] b)) k \<noteq> None"
    if "row_of (map f (orders_tbl db)) k = Some r" "or_status r = ''NEW''" for k r
  proof -
    from that(1) obtain r' where r': "row_of (orders_tbl db) k = Some r'" "r = f r'" by (auto simp: rows)
    with that(2) fin status [OF r'(1)] have "k \<noteq> c" "or_status r' = ''NEW''" by (auto split: if_splits)
    with mir r'(1) have "map_of (bk_orders b) k \<noteq> None" unfolding db_mirror_def by blast
    with \<open>k \<noteq> c\<close> show ?thesis by simp
  qed
  have stat: "or_status r \<in> {''NEW'', ''FILLED'', ''CANCELLED''}"
    if "row_of (map f (orders_tbl db)) k = Some r" for k r
  proof -
    from that obtain r' where r': "row_of (orders_tbl db) k = Some r'" "r = f r'" by (auto simp: rows)
    moreover have "or_status r' \<in> {''NEW'', ''FILLED'', ''CANCELLED''}"
      using mir r'(1) unfolding db_mirror_def by blast
    ultimately show ?thesis using fin by (auto simp: status [OF r'(1)])
  qed
  have filled: "k \<in> fr_order_id ` set fs \<longleftrightarrow> (\<exists>r. row_of (map f (orders_tbl db)) k = Some r \<and> or_status r = ''FILLED'')" for k
  proof -
    have "k \<in> fr_order_id ` set (fills_tbl db) \<longleftrightarrow> (\<exists>r. row_of (orders_tbl db) k = Some r \<and> or_status r = ''FILLED'')"
      using mir by (simp add: db_mirror_def)
    then show ?thesis using r0 by (auto simp: fills(3) rows status split: if_splits)
  qed
  show ?thesis
    using mir ids resting new stat fills(1,2) filled by (simp add: db_mirror_def)
qed

lemma db_mirror_cancel:
  assumes mir: "db_mirror b db" and lo: "map_of (bk_orders b) (lo_coid lo) = Some lo"
  shows "db_mirror (drop_orders [lo_coid lo] b) (persist_cancel now lo reason db)"
proof -
  let ?f = "\<lambda>r. if order_key r = (lo_coid lo, lo_ts_placed lo)
             then r\<lparr>or_status := ''CANCELLED'',
                    or_ts_last_update := (if reason = ''ttl'' then lo_ts_placed lo else now),
                    or_metadata := AList.update ''cancel_reason'' (JStr reason) (or_metadata r)\<rparr>
             else r"
  have "db_mirror (drop_orders [lo_coid lo] b)
      (db\<lparr>orders_tbl := map ?f (orders_tbl db), fills_tbl := fills_tbl db\<rparr>)"
  proof (rule db_mirror_leave [OF mir lo])
    fix r assume r: "row_of (orders_tbl db) (lo_coid lo) = Some r"
    then have "or_ts_submit r = lo_ts_placed lo" using db_mirror_row [OF mir lo] by auto
    with row_of_id [OF r] show "or_status (?f r) = ''CANCELLED''" by (simp add: order_key_def)
  qed (use mir in \<open>auto simp: order_key_def db_mirror_def\<close>)
  then show ?thesis
    using mir by (simp add: persist_cancel_def db_mirror_def)
qed

lemma db_mirror_fill:
  assumes mir: "db_mirror b db" and lo: "map_of (bk_orders b) (lf_coid f) = Some lo"
  shows "db_mirror (drop_orders [lf_coid f] b) (persist_fills b [f] db)"
proof -
  let ?g = "\<lambda>r. if or_order_id r = lf_coid f
              then r\<lparr>or_status := ''FILLED'', or_ts_last_update := lf_ts f\<rparr> else r"
  have no_fill: "lf_coid f \<notin> fr_order_id ` set (fills_tbl db)"
    using mir db_mirror_row [OF mir lo] by (auto simp: db_mirror_def)
  then have key: "fill_key (fill_row_of b f) \<notin> fill_key ` set (fills_tbl db)"
    using mir by (auto simp: db_mirror_def fill_key_def fill_row_of_def)
  have "db_mirror (drop_orders [lf_coid f] b)
      (db\<lparr>orders_tbl := map ?g (orders_tbl db), fills_tbl := fills_tbl db @ [fill_row_of b f]\<rparr>)"
  proof (rule db_mirror_leave [OF mir lo])
  qed (use mir no_fill in \<open>auto simp: db_mirror_def fill_row_of_def dest: row_of_id\<close>)
  then show ?thesis
    using mir key by (simp add: persist_fills_def db_mirror_def mark_filled_def)
qed

lemma drop_orders_Cons: "drop_orders (k # ks) b = drop_orders ks (drop_orders [k] b)"
  by (simp add: dict_pop_all_def)

lemma db_mirror_cancels:
  "db_mirror b db \<Longrightarrow> distinct (map lo_coid los) \<Longrightarrow>
   \<forall>lo \<in> set los. map_of (bk_orders b) (lo_coid lo) = Some lo \<Longrightarrow>
   db_mirror (drop_orders (map lo_coid los) b) (fold (\<lambda>lo. persist_cancel now lo reason) los db)"
proof (induction los arbitrary: b db)
  case Nil
  then show ?case by (simp add: dict_pop_all_def)
next
  case (Cons lo los)
  have "db_mirror (drop_orders [lo_coid lo] b) (persist_cancel now lo reason db)"
    using Cons.prems by (intro db_mirror_cancel) auto
  then have "db_mirror (drop_orders (map lo_coid los) (drop_orders [lo_coid lo] b))
      (fold (\<lambda>lo. persist_cancel now lo reason) los (persist_cancel now lo reason db))"
    using Cons.prems by (intro Cons.IH) (auto simp: image_iff)
  then show ?case by (simp add: dict_pop_all_def)
qed

lemma persist_fills_Cons: "persist_fills b (f # fs) db = persist_fills b fs (persist_fills b [f] db)"
  by (cases "db_up db \<and> fills_up db") (auto simp: persist_fills_def)

lemma persist_fills_Nil: "persist_fills b [] db = db"
  by (simp add: persist_fills_def)

lemma persist_fills_orders [simp]: "persist_fills (b\<lparr>bk_orders := d\<rparr>) fs db = persist_fills b fs db"
proof -
  have "fill_row_of (b\<lparr>bk_orders := d\<rparr>) = fill_row_of b"
    by (simp add: fun_eq_iff fill_row_of_def)
  then show ?thesis by (simp add: persist_fills_def)
qed

lemma dict_pop_all_cong: "set ks = set ks' \<Longrightarrow> dict_pop_all ks d = dict_pop_all ks' d"
  by (simp add: dict_pop_all_filter)

lemma drop_orders_swap: "drop_orders (ks @ ks') b = drop_orders (ks' @ ks) b"
  using dict_pop_all_cong [of "ks @ ks'" "ks' @ ks" "bk_orders b"] by (simp add: Un_commute)

lemma db_mirror_fills:
  "db_mirror b db \<Longrightarrow> distinct (map lf_coid fs) \<Longrightarrow>
   \<forall>f \<in> set fs. map_of (bk_orders b) (lf_coid f) \<noteq> None \<Longrightarrow>
   db_mirror (drop_orders (map lf_coid fs) b) (persist_fills b fs db)"
proof (induction fs arbitrary: b db)
  case Nil
  then show ?case by (simp add: dict_pop_all_def persist_fills_Nil)
next
  case (Cons f fs)
  then obtain lo where "map_of (bk_orders b) (lf_coid f) = Some lo" by auto
  then have "db_mirror (drop_orders [lf_coid f] b) (persist_fills b [f] db)"
    using Cons.prems by (intro db_mirror_fill) auto
  then have "db_mirror (drop_orders (map lf_coid fs) (drop_orders [lf_coid f] b))
      (persist_fills (drop_orders [lf_coid f] b) fs (persist_fills b [f] db))"
    using Cons.prems by (intro Cons.IH) (auto simp: image_iff)
  then show ?case
    by (subst persist_fills_Cons) (simp add: dict_pop_all_def)
qed

lemma db_mirror_place:
  assumes wf: "book_wf b" and mir: "db_mirror b db" and new: "map_of (bk_orders b) (lo_coid lo) = None"
    and fresh: "lo_coid lo \<notin> or_order_id ` set (orders_tbl db)"
  shows "db_mirror (b\<lparr>bk_orders := AList.update (lo_coid lo) lo (bk_orders b)\<rparr>) (persist_new b lo db)"
proof -
  let ?r = "order_row_of b lo"
  have r: "or_order_id ?r = lo_coid lo" "or_status ?r = ''NEW''" "or_ts_submit ?r = lo_ts_placed lo"
    by (simp_all add: order_row_of_def)
  have "order_key ?r \<notin> order_key ` set (orders_tbl db)"
    using fresh by (force simp: order_key_def r)
  then have db: "persist_new b lo db = db\<lparr>orders_tbl := orders_tbl db @ [?r]\<rparr>"
    using mir by (simp add: persist_new_def db_mirror_def)
  have rows: "row_of (orders_tbl db @ [?r]) c = (if c = lo_coid lo then Some ?r else row_of (orders_tbl db) c)" for c
    using fresh row_of_snoc [of ?r "orders_tbl db" c] by (simp add: r)
  have no_fill: "lo_coid lo \<notin> fr_order_id ` set (fills_tbl db)"
    using mir row_of_None [of "orders_tbl db" "lo_coid lo"] fresh by (simp add: db_mirror_def)
  have ids: "distinct (map or_order_id (orders_tbl db @ [?r]))"
    using mir fresh by (simp add: db_mirror_def r)
  have "\<forall>c. c \<in> fr_order_id ` set (fills_tbl db) \<longleftrightarrow>
      (\<exists>r. row_of (orders_tbl db @ [?r]) c = Some r \<and> or_status r = ''FILLED'')"
    using mir no_fill by (auto simp: db_mirror_def rows r)
  moreover have "\<forall>k lo'. map_of (AList.update (lo_coid lo) lo (bk_orders b)) k = Some lo' \<longrightarrow>
      (\<exists>r. row_of (orders_tbl db @ [?r]) k = Some r \<and> or_ts_submit r = lo_ts_placed lo' \<and> or_status r = ''NEW'')"
    using mir by (auto simp: db_mirror_def rows r)
  ultimately show ?thesis
    using mir ids by (simp add: db_mirror_def db rows r)
qed

lemma db_mirror_on_tick:
  assumes wf: "book_wf b" and mir: "db_mirror b db"
  shows "db_mirror (fst (snd (on_tick ins px ts b db))) (snd (snd (on_tick ins px ts b db)))"
proof -
  let ?exp = "filter (\<lambda>lo. expired_at lo ts) (fifo_orders ins b)"
  let ?los = "filter (\<lambda>lo. \<not> expired_at lo ts \<and> crossed lo px) (fifo_orders ins b)"
  let ?fills = "map (fill_of (bk_maker_fee_bps b) ts) ?los"
  let ?db1 = "fold (\<lambda>lo. persist_cancel ts lo ''ttl'') ?exp db"
  have dist: "distinct (map lo_coid (fifo_orders ins b))"
  proof -
    have "distinct (map lo_coid (filter (\<lambda>lo. lo_instrument_id lo = ins) (snapshot b)))"
      by (intro distinct_map_filter book_wf_distinct_coids wf)
    then show ?thesis
      unfolding fifo_orders_def distinct_map by (simp add: distinct_sort)
  qed
  have rest: "map_of (bk_orders b) (lo_coid lo) = Some lo" if "lo \<in> set (fifo_orders ins b)" for lo
    using that book_wf_snapshot [OF wf] by (simp add: set_fifo_orders)
  have inj: "inj_on lo_coid (set (fifo_orders ins b))" using dist by (simp add: distinct_map)
  have 1: "db_mirror (drop_orders (map lo_coid ?exp) b) ?db1"
    using mir rest by (intro db_mirror_cancels distinct_map_filter dist) auto
  have "db_mirror (drop_orders (map lf_coid ?fills) (drop_orders (map lo_coid ?exp) b))
      (persist_fills (drop_orders (map lo_coid ?exp) b) ?fills ?db1)"
  proof (rule db_mirror_fills [OF 1])
    show "distinct (map lf_coid ?fills)"
      by (simp add: comp_def distinct_map_filter dist)
    show "\<forall>f \<in> set ?fills. map_of (bk_orders (drop_orders (map lo_coid ?exp) b)) (lf_coid f) \<noteq> None"
      using rest inj by (auto dest: inj_onD)
  qed
  moreover have "drop_orders (map lf_coid ?fills) (drop_orders (map lo_coid ?exp) b)
      = fst (snd (on_tick ins px ts b db))"
    unfolding on_tick_book by (subst drop_orders_swap) (simp add: dict_pop_all_append comp_def)
  moreover have "persist_fills (drop_orders (map lo_coid ?exp) b) ?fills ?db1 = snd (snd (on_tick ins px ts b db))"
    using mir by (simp add: on_tick_def match_loop_eq Let_def db_mirror_def persist_fills_Nil)
  ultimately show ?thesis by simp
qed

lemma book_step_mirror:
  assumes "book_wf (fst s)" "db_mirror (fst s) (snd s)" "fresh_op op s"
  shows "db_mirror (fst (book_step op s)) (snd (book_step op s))"
proof (cases s)
  case (Pair b db)
  note wf = assms(1) [unfolded Pair, simplified] and mir = assms(2) [unfolded Pair, simplified]
  show ?thesis
  proof (cases op)
    case (OpPlace lo)
    show ?thesis
    proof (cases "order_wf lo \<and> map_of (bk_orders b) (lo_coid lo) = None")
      case True
      then have "book_step op s = (b\<lparr>bk_orders := AList.update (lo_coid lo) lo (bk_orders b)\<rparr>, persist_new b lo db)"
        using OpPlace Pair mir by (auto simp: place_def Let_def order_wf_def db_mirror_def)
      with True OpPlace Pair assms(3) db_mirror_place [OF wf mir] show ?thesis by simp
    next
      case False
      then have "book_step op s = s"
        using OpPlace Pair by (auto simp: place_def order_wf_def split: if_splits)
      with assms(2) show ?thesis by simp
    qed
  next
    case (OpCancel coid reason now)
    show ?thesis
    proof (cases "map_of (bk_orders b) coid")
      case None
      with OpCancel Pair mir show ?thesis by (simp add: cancel_def)
    next
      case (Some lo)
      then have "coid = lo_coid lo" using book_wf_key [OF wf] by blast
      with Some OpCancel Pair mir db_mirror_cancel [OF mir, of lo] show ?thesis
        by (simp add: cancel_def delete_is_pop db_mirror_def)
    qed
  next
    case (OpCancelAll st ins sd reason now)
    let ?v = "filter (cancel_victim st ins sd) (snapshot b)"
    have "db_mirror (drop_orders (map lo_coid ?v) b) (fold (\<lambda>lo. persist_cancel now lo reason) ?v db)"
      using mir book_wf_snapshot [OF wf]
      by (intro db_mirror_cancels distinct_map_filter book_wf_distinct_coids wf) auto
    moreover have "bk_persist b" using mir by (simp add: db_mirror_def)
    ultimately show ?thesis
      using OpCancelAll Pair by (cases "?v = []") (simp_all add: cancel_all_def Let_def)
  next
    case (OpTick ins px ts)
    with Pair db_mirror_on_tick [OF wf mir] show ?thesis by simp
  qed
qed

lemma book_reach_inv: "book_reach s \<Longrightarrow> book_wf (fst s) \<and> db_mirror (fst s) (snd s)"
proof (induction rule: book_reach.induct)
  case (start mode fee bt)
  show ?case by (simp add: new_book_wf) (simp add: db_mirror_def new_book_def)
next
  case (step s op)
  then show ?case using book_step_wf book_step_mirror by blast
qed

section \<open>What the book promises\<close>

lemma mset_filter3:
  assumes "\<And>x. x \<in> set xs \<Longrightarrow> \<not> (P x \<and> Q x)"
  shows "mset xs = mset (filter (\<lambda>x. \<not> (P x \<or> Q x)) xs) + mset (filter P xs) + mset (filter Q xs)"
  using assms by (induction xs) auto

lemma on_tick_partition:
  assumes "book_wf b"
  shows "mset (snapshot b) = mset (snapshot (fst (snd (on_tick ins px ts b db))))
    + mset (filter (\<lambda>lo. \<not> expired_at lo ts \<and> crossed lo px) (fifo_orders ins b))
    + mset (filter (\<lambda>lo. expired_at lo ts) (fifo_orders ins b))"
proof -
  let ?fil = "\<lambda>lo. lo_instrument_id lo = ins \<and> \<not> expired_at lo ts \<and> crossed lo px"
  let ?exp = "\<lambda>lo. lo_instrument_id lo = ins \<and> expired_at lo ts"
  have "(\<lambda>lo. \<not> (lo_instrument_id lo = ins \<and> leaves px ts lo)) = (\<lambda>lo. \<not> (?fil lo \<or> ?exp lo))"
    by (auto simp: leaves_def)
  moreover have "mset (snapshot b) = mset (filter (\<lambda>lo. \<not> (?fil lo \<or> ?exp lo)) (snapshot b))
      + mset (filter ?fil (snapshot b)) + mset (filter ?exp (snapshot b))"
    by (rule mset_filter3) simp
  ultimately show ?thesis
    unfolding on_tick_snapshot [OF assms]
    by (simp add: fifo_orders_def mset_filter filter_filter_mset conj_commute conj_left_commute)
qed

text \<open>C1. Matching conserves orders. A tick splits the resting orders of the book into those that
  stay, those that fill and those whose time to live is over; only orders of the ticked
  instrument leave. The fills come out first in, first out, each at its own limit price and
  quantity with the maker fee on that notional, and an order past its time to live is never
  filled.\<close>

theorem on_tick_conserves:
  assumes "book_wf b" and "on_tick ins px ts b db = (fills, b', db')"
  shows "\<exists>filled expd.
    fills = map (fill_of (bk_maker_fee_bps b) ts) filled \<and>
    sorted (map lo_ts_placed filled) \<and>
    (\<forall>lo \<in> set filled. lo_instrument_id lo = ins \<and> crossed lo px \<and> \<not> expired_at lo ts) \<and>
    (\<forall>lo \<in> set expd. lo_instrument_id lo = ins \<and> expired_at lo ts) \<and>
    mset (snapshot b) = mset (snapshot b') + mset filled + mset expd"
proof -
  let ?filled = "filter (\<lambda>lo. \<not> expired_at lo ts \<and> crossed lo px) (fifo_orders ins b)"
  let ?expd = "filter (\<lambda>lo. expired_at lo ts) (fifo_orders ins b)"
  have "sorted (map lo_ts_placed ?filled)"
    unfolding fifo_orders_def by (intro sorted_filter) simp
  with on_tick_fills [of ins px ts b db] on_tick_partition [OF assms(1), of ins px ts db] assms(2)
  show ?thesis
    by (intro exI [of _ ?filled] exI [of _ ?expd]) (auto simp: set_fifo_orders)
qed

text \<open>A tick leaves nothing behind that it should have matched: repeating it at the same
  price and time fills nothing and changes neither the book nor the database.\<close>

theorem on_tick_quiescent:
  assumes "book_wf b" and "on_tick ins px ts b db = (fills, b', db')"
  shows "on_tick ins px ts b' db' = ([], b', db')"
proof -
  have b': "b' = fst (snd (on_tick ins px ts b db))" using assms(2) by simp
  have stay: "\<forall>lo \<in> set (fifo_orders ins b'). \<not> leaves px ts lo"
    unfolding set_fifo_orders b' on_tick_snapshot [OF assms(1)] by simp
  then have "filter (\<lambda>lo. \<not> expired_at lo ts \<and> crossed lo px) (fifo_orders ins b') = []"
    "filter (\<lambda>lo. expired_at lo ts) (fifo_orders ins b') = []"
    by (auto simp: leaves_def filter_empty_conv)
  then show ?thesis
    by (simp add: on_tick_def match_loop_eq dict_pop_all_def)
qed

text \<open>C3. The orders table mirrors the book. From an empty book and empty tables, whatever calls
  follow (with order ids not used before), every order id has one row; the row says \<open>NEW\<close>
  exactly while the order rests in memory, and the fills table holds exactly one fill for each
  row that says \<open>FILLED\<close> and none for the others: no order is filled twice, and none is both
  filled and cancelled.\<close>

theorem orders_table_mirrors_book:
  assumes "book_reach (b, db)"
  shows "distinct (map or_order_id (orders_tbl db)) \<and>
    (\<forall>c. (\<exists>r \<in> set (orders_tbl db). or_order_id r = c \<and> or_status r = ''NEW'') \<longleftrightarrow> book_get b c \<noteq> None) \<and>
    distinct (map fr_order_id (fills_tbl db)) \<and>
    fr_order_id ` set (fills_tbl db) = or_order_id ` {r \<in> set (orders_tbl db). or_status r = ''FILLED''}"
proof -
  have mir: "db_mirror b db" using book_reach_inv [OF assms] by simp
  then have dist: "distinct (map or_order_id (orders_tbl db))" by (simp add: db_mirror_def)
  have rows: "r \<in> set (orders_tbl db) \<and> or_order_id r = c \<longleftrightarrow> row_of (orders_tbl db) c = Some r" for r c
    using row_of_member [OF dist] row_of_mem row_of_id by blast
  have "(\<exists>r \<in> set (orders_tbl db). or_order_id r = c \<and> or_status r = ''NEW'') \<longleftrightarrow> book_get b c \<noteq> None" for c
  proof -
    have "(\<exists>r \<in> set (orders_tbl db). or_order_id r = c \<and> or_status r = ''NEW'')
        \<longleftrightarrow> (\<exists>r. row_of (orders_tbl db) c = Some r \<and> or_status r = ''NEW'')"
      using rows by blast
    also have "\<dots> \<longleftrightarrow> book_get b c \<noteq> None"
      unfolding book_get_def by (rule db_mirror_new_iff [OF mir])
    finally show ?thesis .
  qed
  moreover have "fr_order_id ` set (fills_tbl db) = or_order_id ` {r \<in> set (orders_tbl db). or_status r = ''FILLED''}"
  proof (rule set_eqI)
    fix c
    have "c \<in> fr_order_id ` set (fills_tbl db) \<longleftrightarrow> (\<exists>r. row_of (orders_tbl db) c = Some r \<and> or_status r = ''FILLED'')"
      using mir by (simp add: db_mirror_def)
    also have "\<dots> \<longleftrightarrow> (\<exists>r \<in> set (orders_tbl db). or_order_id r = c \<and> or_status r = ''FILLED'')"
      using rows by blast
    also have "\<dots> \<longleftrightarrow> c \<in> or_order_id ` {r \<in> set (orders_tbl db). or_status r = ''FILLED''}"
      by auto
    finally show "c \<in> fr_order_id ` set (fills_tbl db) \<longleftrightarrow>
        c \<in> or_order_id ` {r \<in> set (orders_tbl db). or_status r = ''FILLED''}" .
  qed
  ultimately show ?thesis using mir by (simp add: db_mirror_def)
qed

text \<open>No sequence of calls, whatever the database does, corrupts the book: the order ids stay
  distinct, each order sits under its own id, and every resting order has a legal side and a
  positive price and quantity.\<close>

theorem book_always_wf:
  "book_wf (fst (fold book_step ops (new_book mode fee pers bt, db)))"
  by (rule book.run_inv) simp

section \<open>The book refines a map of orders\<close>

text \<open>What the callers rely on, without the dictionary, the queue order, the fills and the tables: a map from
  order ids to orders.\<close>

definition keep_where :: "('v \<Rightarrow> bool) \<Rightarrow> ('k \<rightharpoonup> 'v) \<Rightarrow> ('k \<rightharpoonup> 'v)" where
  "keep_where P m = (\<lambda>k. case m k of None \<Rightarrow> None | Some v \<Rightarrow> if P v then Some v else None)"

fun spec_step :: "book_op \<Rightarrow> (string \<rightharpoonup> limit_order) \<Rightarrow> (string \<rightharpoonup> limit_order)" where
  "spec_step (OpPlace lo) m = (if order_wf lo \<and> m (lo_coid lo) = None then m(lo_coid lo \<mapsto> lo) else m)"
| "spec_step (OpCancel coid reason now) m = m(coid := None)"
| "spec_step (OpCancelAll st ins sd reason now) m = keep_where (\<lambda>lo. \<not> cancel_victim st ins sd lo) m"
| "spec_step (OpTick ins px ts) m = keep_where (\<lambda>lo. \<not> (lo_instrument_id lo = ins \<and> leaves px ts lo)) m"

definition abs_book :: "limit_book \<times> trading_db \<Rightarrow> (string \<rightharpoonup> limit_order)" where
  "abs_book s = book_get (fst s)"

lemma cancel_all_get:
  assumes "book_wf b"
  shows "book_get (fst (snd (cancel_all st ins sd reason now b db))) = keep_where (\<lambda>lo. \<not> cancel_victim st ins sd lo) (book_get b)"
proof
  fix c
  have hit: "c \<in> lo_coid ` {lo \<in> set (snapshot b). cancel_victim st ins sd lo} \<longleftrightarrow>
      (\<exists>lo. map_of (bk_orders b) c = Some lo \<and> cancel_victim st ins sd lo)"
    using book_wf_snapshot [OF assms] book_wf_key [OF assms] by (auto simp: image_iff)
  have "book_get (fst (snd (cancel_all st ins sd reason now b db))) c =
      (if c \<in> lo_coid ` {lo \<in> set (snapshot b). cancel_victim st ins sd lo} then None else book_get b c)"
    by (simp add: cancel_all_def book_get_def Let_def)
  then show "book_get (fst (snd (cancel_all st ins sd reason now b db))) c = keep_where (\<lambda>lo. \<not> cancel_victim st ins sd lo) (book_get b) c"
    unfolding hit by (auto simp: keep_where_def book_get_def split: option.split)
qed

lemma book_step_refines:
  assumes "book_wf (fst s)"
  shows "abs_book (book_step op s) = spec_step op (abs_book s)"
proof -
  obtain b db where s: "s = (b, db)" by (cases s)
  note wf = assms [unfolded s fst_conv]
  show ?thesis
  proof (cases op)
    case (OpPlace lo)
    then show ?thesis by (auto simp: s abs_book_def book_get_def place_def order_wf_def Let_def)
  next
    case (OpCancel coid reason now)
    then show ?thesis by (auto simp: s abs_book_def book_get_def cancel_def fun_eq_iff split: option.split)
  next
    case (OpCancelAll st ins sd reason now)
    with cancel_all_get [OF wf] show ?thesis by (simp add: s abs_book_def)
  next
    case (OpTick ins px ts)
    with on_tick_get [OF wf] show ?thesis
      by (simp add: s abs_book_def keep_where_def fun_eq_iff split: option.split)
  qed
qed

text \<open>C6. The order book refines a map of orders. Whatever calls are made and whatever the database does, what
  \<open>get\<close> answers is what the abstract map answers after the same calls: a legal order with a new id is
  added, a cancel removes its id, a filtered cancel the matching orders, a tick the orders of its instrument that
  have crossed or expired.\<close>

theorem book_refines_map:
  "book_get (fst (fold book_step ops (new_book mode fee pers bt, db))) = fold spec_step ops Map.empty"
proof -
  have "abs_book (fold book_step ops s) = fold spec_step ops (abs_book s)" if "book_wf (fst s)" for s
    using that
  proof (induction ops arbitrary: s)
    case (Cons op ops)
    then show ?case using book_step_wf [OF Cons.prems] book_step_refines [OF Cons.prems] by simp
  qed simp
  moreover have "abs_book (new_book mode fee pers bt, db) = Map.empty" by (simp add: abs_book_def new_book_def book_get_def fun_eq_iff)
  ultimately show ?thesis unfolding abs_book_def by (metis fst_conv new_book_wf)
qed

text \<open>A filtered cancel removes exactly the orders that match the filters and reports how many;
  with a side filter every order on the other side keeps resting, which is how a grid reset
  preserves its closing orders.\<close>

theorem cancel_all_exact:
  assumes "book_wf b" and "cancel_all st ins sd reason now b db = (n, b', db')"
  shows "n = length (filter (cancel_victim st ins sd) (snapshot b)) \<and>
    snapshot b' = filter (\<lambda>lo. \<not> cancel_victim st ins sd lo) (snapshot b) \<and>
    (sd = Some ''BUY'' \<longrightarrow> (\<forall>lo \<in> set (snapshot b). lo_side lo = ''SELL'' \<longrightarrow> lo \<in> set (snapshot b')))"
proof -
  let ?v = "filter (cancel_victim st ins sd) (snapshot b)"
  have inj: "inj_on lo_coid (set (snapshot b))"
    using book_wf_distinct_coids [OF assms(1)] by (simp add: distinct_map)
  have "b' = drop_orders (map lo_coid ?v) b" and n: "n = length ?v"
    using assms(2) by (auto simp: cancel_all_def Let_def)
  then have "snapshot b' = filter (\<lambda>lo. lo_coid lo \<notin> set (map lo_coid ?v)) (snapshot b)"
    by (simp only: snapshot_drop [OF assms(1)])
  also have "\<dots> = filter (\<lambda>lo. \<not> cancel_victim st ins sd lo) (snapshot b)"
    by (rule filter_cong) (use inj in \<open>auto dest: inj_onD\<close>)
  finally show ?thesis using n by (auto simp: cancel_victim_def)
qed

section \<open>A worked example\<close>

text \<open>Two bids and an offer; the older bid has a time to live of five seconds.\<close>

definition ex_order :: "string \<Rightarrow> string \<Rightarrow> real \<Rightarrow> epoch \<Rightarrow> real option \<Rightarrow> limit_order" where
  "ex_order coid side price ts ttl =
     \<lparr>lo_coid = coid, lo_strategy_id = ''mm'', lo_instrument_id = ''m-YES'', lo_side = side,
      lo_price = price, lo_qty = 10, lo_ts_placed = ts, lo_ttl_s = ttl, lo_metadata = []\<rparr>"

definition ex_db :: trading_db where
  "ex_db = \<lparr>orders_tbl = [], fills_tbl = [], db_up = True, fills_up = True\<rparr>"

definition ex_book :: limit_book where
  "ex_book = (new_book ''paper'' 10 True None)\<lparr>bk_orders :=
     [(''a'', ex_order ''a'' ''BUY'' 0.3 1 (Some 5)), (''b'', ex_order ''b'' ''BUY'' 0.4 2 None),
      (''c'', ex_order ''c'' ''SELL'' 0.5 3 None)]\<rparr>"

lemmas ex_defs = ex_order_def ex_db_def ex_book_def new_book_def

lemma ex_book_wf: "book_wf ex_book"
  by (simp add: book_wf_def order_wf_def ex_defs)

lemma ex_tick:
  "on_tick ''m-YES'' 0.35 6 ex_book ex_db =
     ([fill_of 10 6 (ex_order ''b'' ''BUY'' 0.4 2 None)],
      ex_book\<lparr>bk_orders := [(''c'', ex_order ''c'' ''SELL'' 0.5 3 None)]\<rparr>,
      ex_db\<lparr>fills_tbl := [fill_row_of ex_book (fill_of 10 6 (ex_order ''b'' ''BUY'' 0.4 2 None))]\<rparr>)"
  by (simp add: on_tick_def match_loop_eq fifo_orders_def snapshot_def expired_at_def crossed_def Let_def
      dict_pop_all_def persist_cancel_def persist_fills_def mark_filled_def fill_of_def ex_defs)

theorem on_tick_conserves_witness:
  "book_wf ex_book \<and> (\<exists>filled expd.
     [fill_of 10 6 (ex_order ''b'' ''BUY'' 0.4 2 None)] = map (fill_of (bk_maker_fee_bps ex_book) 6) filled \<and>
     mset (snapshot ex_book) = mset [ex_order ''c'' ''SELL'' 0.5 3 None] + mset filled + mset expd)"
proof -
  have "snapshot (ex_book\<lparr>bk_orders := [(''c'', ex_order ''c'' ''SELL'' 0.5 3 None)]\<rparr>) = [ex_order ''c'' ''SELL'' 0.5 3 None]"
    by (simp add: snapshot_def)
  with on_tick_conserves [OF ex_book_wf ex_tick] ex_book_wf show ?thesis by metis
qed

theorem on_tick_quiescent_witness:
  "\<exists>b' db'. fst (on_tick ''m-YES'' 0.35 6 ex_book ex_db) \<noteq> [] \<and> on_tick ''m-YES'' 0.35 6 b' db' = ([], b', db')"
  using on_tick_quiescent [OF ex_book_wf ex_tick] ex_tick by (metis fst_conv list.distinct(1))

theorem orders_table_mirrors_book_witness:
  "\<exists>b db. book_reach (b, db) \<and> book_get b ''a'' \<noteq> None \<and>
     (\<exists>r \<in> set (orders_tbl db). or_order_id r = ''a'' \<and> or_status r = ''NEW'')"
proof -
  let ?s = "(new_book ''paper'' 10 True None, ex_db)"
  let ?op = "OpPlace (ex_order ''a'' ''BUY'' 0.3 1 None)"
  have "book_reach (book_step ?op ?s)"
    using book_reach.step [OF book_reach.start, of ?op] by (simp add: ex_db_def new_book_def)
  moreover obtain b db where s: "book_step ?op ?s = (b, db)" by (cases "book_step ?op ?s")
  ultimately have reach: "book_reach (b, db)" by simp
  have "book_get b ''a'' \<noteq> None"
    using s by (auto simp: place_def ex_defs book_get_def)
  with orders_table_mirrors_book [OF reach] reach show ?thesis by blast
qed

theorem cancel_all_exact_witness:
  "book_wf ex_book \<and> fst (cancel_all None None (Some ''BUY'') ''reset'' 7 ex_book ex_db) = 2"
proof -
  obtain n b' db' where r: "cancel_all None None (Some ''BUY'') ''reset'' 7 ex_book ex_db = (n, b', db')"
    by (cases "cancel_all None None (Some ''BUY'') ''reset'' 7 ex_book ex_db")
  with cancel_all_exact [OF ex_book_wf r] ex_book_wf show ?thesis
    by (simp add: cancel_victim_def snapshot_def ex_defs)
qed

end
