(* ===== verification/Types.thy ===== *)
theory Types
  imports Prelude
begin

text \<open>
  \<open>engine/types.py\<close>: the data that passes between the data loaders, the strategies, the risk
  manager and the drivers. A tick context holds the list of the recent contexts; \<open>tick_core\<close>
  is a context without that list and \<open>tick_context\<close> extends it with the list of recent cores,
  which are what the strategies read.
\<close>

datatype action = ENTER | SKIP

datatype side = YES_UP | YES_DOWN | NONE

fun side_value :: "side \<Rightarrow> string" where
  "side_value YES_UP = ''YES_UP''"
| "side_value YES_DOWN = ''YES_DOWN''"
| "side_value NONE = ''NONE''"

datatype order_type = MARKET | GTC

record tick_core =
  tc_ts :: epoch
  tc_market_slug :: string
  tc_t_in_window :: real
  tc_window_close_ts :: real
  tc_spot_price :: real
  tc_chainlink_price :: "real option"
  tc_open_price :: real
  tc_pm_yes_bid :: real
  tc_pm_yes_ask :: real
  tc_pm_no_bid :: real
  tc_pm_no_ask :: real
  tc_pm_depth_yes :: real
  tc_pm_depth_no :: real
  tc_pm_imbalance :: real
  tc_pm_spread_bps :: real
  tc_implied_prob_yes :: real
  tc_model_prob_yes :: real
  tc_edge :: real
  tc_z_score :: real
  tc_vol_regime :: string
  tc_t_to_close :: real
  tc_ema_fast :: real
  tc_ema_slow :: real
  tc_rsi_14 :: real
  tc_vol_realized :: real
  tc_vol_ewma :: real
  tc_delta_bps :: real

record tick_context = tick_core +
  tc_recent_ticks :: "tick_core list"

definition depth_total_usd :: "'a tick_core_scheme \<Rightarrow> real" where
  "depth_total_usd ctx = tc_pm_depth_yes ctx + tc_pm_depth_no ctx"

record decision =
  dc_action :: action
  dc_side :: side
  dc_reason :: fstring
  dc_signal_features :: "(string, jval) dict"
  dc_signal_breakdown :: "(string, jval) dict"
  dc_order_type :: order_type
  dc_limit_price :: "real option"
  dc_ttl_seconds :: "int option"
  dc_horizon_s :: "int option"
  dc_size_usd :: "real option"

text \<open>The dataclass defaults: \<open>Decision(action, side, reason, features)\<close>.\<close>

definition mk_decision :: "action \<Rightarrow> side \<Rightarrow> fstring \<Rightarrow> (string, jval) dict \<Rightarrow> decision" where
  "mk_decision a sd reason feats =
     \<lparr>dc_action = a, dc_side = sd, dc_reason = reason, dc_signal_features = feats,
      dc_signal_breakdown = [], dc_order_type = MARKET, dc_limit_price = None,
      dc_ttl_seconds = None, dc_horizon_s = None, dc_size_usd = None\<rparr>"

text \<open>A context at the start of a worked example, every field at a neutral value.\<close>

definition ex_core :: tick_core where
  "ex_core =
     \<lparr>tc_ts = 0, tc_market_slug = ''m'', tc_t_in_window = 0, tc_window_close_ts = 300, tc_spot_price = 100,
      tc_chainlink_price = None, tc_open_price = 100, tc_pm_yes_bid = 1 / 2, tc_pm_yes_ask = 11 / 20,
      tc_pm_no_bid = 9 / 20, tc_pm_no_ask = 1 / 2, tc_pm_depth_yes = 100, tc_pm_depth_no = 100,
      tc_pm_imbalance = 0, tc_pm_spread_bps = 100, tc_implied_prob_yes = 1 / 2, tc_model_prob_yes = 1 / 2,
      tc_edge = 1 / 10, tc_z_score = 2, tc_vol_regime = ''normal'', tc_t_to_close = 300, tc_ema_fast = 0,
      tc_ema_slow = 0, tc_rsi_14 = 50, tc_vol_realized = 0, tc_vol_ewma = 0, tc_delta_bps = 0\<rparr>"

end
