(* ===== verification/Indicators.thy ===== *)
theory Indicators
  imports Types
begin

text \<open>
  \<open>engine/indicators.py\<close>: the indicators of a market and the stack that recomputes them at every
  tick. Each indicator is the record of its dataclass and its \<open>update\<close> returns the new value
  with the new state. Periods are positive, as in every configuration of the repository. The
  error function of the mathematics library is the parameter \<open>erf\<close>.
\<close>

section \<open>Moving average, relative strength, volatilities\<close>

record EMA =
  ema_period :: nat
  ema_value :: real
  ema_initialized :: bool

definition new_ema :: "nat \<Rightarrow> EMA" where
  "new_ema period = \<lparr>ema_period = period, ema_value = 0, ema_initialized = False\<rparr>"

definition ema_update :: "real \<Rightarrow> EMA \<Rightarrow> real \<times> EMA" where
  "ema_update x e =
     (if \<not> ema_initialized e then (x, e\<lparr>ema_value := x, ema_initialized := True\<rparr>)
      else (let alpha = 2 / (real (ema_period e) + 1);
                v = alpha * x + (1 - alpha) * ema_value e
            in (v, e\<lparr>ema_value := v\<rparr>)))"

record RSI =
  rsi_period :: nat
  rsi_gains :: "real list"
  rsi_losses :: "real list"
  rsi_prev :: "real option"

definition new_rsi :: "nat \<Rightarrow> RSI" where
  "new_rsi period = \<lparr>rsi_period = period, rsi_gains = [], rsi_losses = [], rsi_prev = None\<rparr>"

definition rsi_value :: "nat \<Rightarrow> real list \<Rightarrow> real list \<Rightarrow> real" where
  "rsi_value period gains losses =
     (if length gains < period then 50
      else (let avg_g = sum_list (py_tail period gains) / real period;
                avg_l = sum_list (py_tail period losses) / real period
            in if avg_l = 0 then 100 else 100 - 100 / (1 + avg_g / avg_l)))"

definition rsi_update :: "real \<Rightarrow> RSI \<Rightarrow> real \<times> RSI" where
  "rsi_update x r =
     (case rsi_prev r of
        None \<Rightarrow> (50, r\<lparr>rsi_prev := Some x\<rparr>)
      | Some prev \<Rightarrow>
          (let delta = x - prev;
               g = deque_append 500 (max delta 0) (rsi_gains r);
               l = deque_append 500 (max (- delta) 0) (rsi_losses r)
           in (rsi_value (rsi_period r) g l,
               r\<lparr>rsi_gains := g, rsi_losses := l, rsi_prev := Some x\<rparr>)))"

record realized_vol =
  rv_window_seconds :: nat
  rv_returns :: "real list"
  rv_prev :: "real option"

definition new_realized_vol :: "nat \<Rightarrow> realized_vol" where
  "new_realized_vol w = \<lparr>rv_window_seconds = w, rv_returns = [], rv_prev = None\<rparr>"

definition sum_sq_dev :: "real list \<Rightarrow> real \<Rightarrow> real" where
  "sum_sq_dev xs mean = sum_list (map (\<lambda>x. (x - mean)\<^sup>2) xs)"

definition rv_update :: "real \<Rightarrow> realized_vol \<Rightarrow> real \<times> realized_vol" where
  "rv_update x v =
     (let returns = (case rv_prev v of
                       Some prev \<Rightarrow> if prev > 0 \<and> x > 0 then deque_append 3600 (ln (x / prev)) (rv_returns v)
                                    else rv_returns v
                     | None \<Rightarrow> rv_returns v);
          v' = v\<lparr>rv_returns := returns, rv_prev := Some x\<rparr>;
          n = min (length returns) (rv_window_seconds v)
      in if n < 2 then (0, v')
         else (let sample = py_tail n returns;
                   mean = sum_list sample / real n;
                   var = sum_sq_dev sample mean / (real n - 1)
               in (sqrt (var * 365 * 24 * 3600), v')))"

record ewma_vol =
  ev_lam :: real
  ev_var :: real
  ev_prev :: "real option"

definition new_ewma_vol :: "real \<Rightarrow> ewma_vol" where
  "new_ewma_vol lam = \<lparr>ev_lam = lam, ev_var = 0, ev_prev = None\<rparr>"

definition ewma_update :: "real \<Rightarrow> ewma_vol \<Rightarrow> real \<times> ewma_vol" where
  "ewma_update x v =
     (case ev_prev v of
        None \<Rightarrow> (0, v\<lparr>ev_prev := Some x\<rparr>)
      | Some prev \<Rightarrow>
          (if prev \<le> 0 \<or> x \<le> 0 then (0, v\<lparr>ev_prev := Some x\<rparr>)
           else (let r = ln (x / prev);
                     var = ev_lam v * ev_var v + (1 - ev_lam v) * r * r
                 in (sqrt (var * 365 * 24 * 3600), v\<lparr>ev_var := var, ev_prev := Some x\<rparr>))))"

section \<open>Probability and z-score\<close>

definition norm_cdf :: "(real \<Rightarrow> real) \<Rightarrow> real \<Rightarrow> real" where
  "norm_cdf erf x = 1 / 2 * (1 + erf (x / sqrt 2))"

definition black_scholes_binary_prob ::
  "(real \<Rightarrow> real) \<Rightarrow> real \<Rightarrow> real \<Rightarrow> real \<Rightarrow> real \<Rightarrow> real" where
  "black_scholes_binary_prob erf S K sigma T =
     (if T \<le> 0 \<or> sigma \<le> 0 \<or> S \<le> 0 \<or> K \<le> 0 then 1 / 2
      else norm_cdf erf ((ln (S / K) - sigma\<^sup>2 / 2 * T) / (sigma * sqrt T)))"

definition rolling_zscore :: "real list \<Rightarrow> nat \<Rightarrow> real" where
  "rolling_zscore values window =
     (if length values < 2 then 0
      else (let sample = py_tail window values;
                n = length sample;
                mean = sum_list sample / real n;
                var = sum_sq_dev sample mean / max (real n - 1) 1;
                std = (if var > 0 then sqrt var else 1 / 10 ^ 9)
            in (last values - mean) / std))"

section \<open>The stack of a market\<close>

record indicator_stack =
  st_ema_fast :: EMA
  st_ema_slow :: EMA
  st_rsi :: RSI
  st_vol_realized :: realized_vol
  st_vol_ewma :: ewma_vol
  st_recent_edges :: "real list"

definition new_stack :: "nat \<Rightarrow> nat \<Rightarrow> nat \<Rightarrow> nat \<Rightarrow> real \<Rightarrow> indicator_stack" where
  "new_stack ema_fast_period ema_slow_period rsi_n vol_window_seconds vol_ewma_lambda =
     \<lparr>st_ema_fast = new_ema ema_fast_period, st_ema_slow = new_ema ema_slow_period,
      st_rsi = new_rsi rsi_n, st_vol_realized = new_realized_vol vol_window_seconds,
      st_vol_ewma = new_ewma_vol vol_ewma_lambda, st_recent_edges = []\<rparr>"

definition stack_update ::
  "(real \<Rightarrow> real) \<Rightarrow> 'a tick_core_scheme \<Rightarrow> indicator_stack \<Rightarrow> 'a tick_core_scheme \<times> indicator_stack" where
  "stack_update erf ctx st =
     (let px = tc_spot_price ctx;
          (ef, st_ef) = ema_update px (st_ema_fast st);
          (es, st_es) = ema_update px (st_ema_slow st);
          (rs, st_rs) = rsi_update px (st_rsi st);
          (rv, st_rv) = rv_update px (st_vol_realized st);
          (ew, st_ew) = ewma_update px (st_vol_ewma st);
          T_years = max (tc_t_to_close ctx / (365 * 24 * 3600)) (1 / 10 ^ 8);
          sigma = (if ew > 0 then ew else 80 / 100);
          model = black_scholes_binary_prob erf px (tc_open_price ctx) sigma T_years;
          edge = model - tc_implied_prob_yes ctx;
          edges = deque_append 120 edge (st_recent_edges st)
      in (ctx\<lparr>tc_ema_fast := ef, tc_ema_slow := es, tc_rsi_14 := rs, tc_vol_realized := rv,
              tc_vol_ewma := ew, tc_model_prob_yes := model, tc_edge := edge,
              tc_z_score := rolling_zscore edges 60\<rparr>,
          \<lparr>st_ema_fast = st_ef, st_ema_slow = st_es, st_rsi = st_rs, st_vol_realized = st_rv,
           st_vol_ewma = st_ew, st_recent_edges = edges\<rparr>))"

section \<open>Bounds\<close>

lemma convex_between:
  fixes a :: real
  assumes "0 \<le> a" "a \<le> 1" "lo \<le> x" "x \<le> hi" "lo \<le> y" "y \<le> hi"
  shows "lo \<le> a * x + (1 - a) * y \<and> a * x + (1 - a) * y \<le> hi"
proof -
  have "a * lo + (1 - a) * lo \<le> a * x + (1 - a) * y"
    using assms by (intro add_mono mult_left_mono) auto
  moreover have "a * x + (1 - a) * y \<le> a * hi + (1 - a) * hi"
    using assms by (intro add_mono mult_left_mono) auto
  moreover have "a * c + (1 - a) * c = c" for c :: real by (simp add: algebra_simps)
  ultimately show ?thesis by simp
qed

definition ema_inv :: "real \<Rightarrow> real \<Rightarrow> EMA \<Rightarrow> bool" where
  "ema_inv lo hi e \<longleftrightarrow> 1 \<le> ema_period e \<and> (ema_initialized e \<longrightarrow> lo \<le> ema_value e \<and> ema_value e \<le> hi)"

lemma ema_update_inv:
  assumes "ema_inv lo hi e" "lo \<le> x" "x \<le> hi"
  shows "ema_inv lo hi (snd (ema_update x e)) \<and> lo \<le> fst (ema_update x e) \<and> fst (ema_update x e) \<le> hi"
proof (cases "ema_initialized e")
  case True
  with assms show ?thesis
    using convex_between [of "2 / (real (ema_period e) + 1)" lo x hi "ema_value e"]
    by (simp add: ema_inv_def ema_update_def Let_def)
qed (use assms in \<open>simp add: ema_inv_def ema_update_def\<close>)

definition rsi_inv :: "RSI \<Rightarrow> bool" where
  "rsi_inv r \<longleftrightarrow> (\<forall>x \<in> set (rsi_gains r). 0 \<le> x) \<and> (\<forall>x \<in> set (rsi_losses r). 0 \<le> x)"

lemma set_deque_append: "set (deque_append n x q) \<subseteq> insert x (set q)"
  using set_drop_subset [of "Suc (length q) - n" "q @ [x]"] by (simp add: deque_append_def Let_def)

lemma py_tail_sum_nonneg: "\<forall>x \<in> set xs. 0 \<le> x \<Longrightarrow> 0 \<le> sum_list (py_tail n xs :: real list)"
  using set_py_tail [of n xs] by (intro sum_list_ge_0) auto

lemma rsi_value_bounds:
  assumes "\<forall>x \<in> set g. 0 \<le> x" "\<forall>x \<in> set l. 0 \<le> x"
  shows "0 \<le> rsi_value p g l \<and> rsi_value p g l \<le> 100"
proof -
  have "100 / (1 + x) \<le> 100 \<and> 0 \<le> 100 / (1 + x)" if "0 \<le> x" for x :: real
    using that by (simp add: divide_le_eq)
  moreover define rs where "rs = sum_list (py_tail p g) / real p / (sum_list (py_tail p l) / real p)"
  moreover have "0 \<le> rs"
    unfolding rs_def by (intro divide_nonneg_nonneg py_tail_sum_nonneg assms) simp_all
  ultimately have "100 / (1 + rs) \<le> 100 \<and> 0 \<le> 100 / (1 + rs)" by blast
  moreover have "rsi_value p g l \<in> {50, 100, 100 - 100 / (1 + rs)}"
    by (auto simp add: rsi_value_def Let_def rs_def)
  ultimately show ?thesis by auto
qed

lemma rsi_update_inv:
  assumes "rsi_inv r"
  shows "rsi_inv (snd (rsi_update x r)) \<and> 0 \<le> fst (rsi_update x r) \<and> fst (rsi_update x r) \<le> 100"
proof (cases "rsi_prev r")
  case None
  with assms show ?thesis by (simp add: rsi_update_def rsi_inv_def)
next
  case (Some prev)
  let ?g = "deque_append 500 (max (x - prev) 0) (rsi_gains r)"
  let ?l = "deque_append 500 (max (- (x - prev)) 0) (rsi_losses r)"
  have "\<forall>y \<in> set ?g. 0 \<le> y" "\<forall>y \<in> set ?l. 0 \<le> y"
    using assms set_deque_append [of 500 "max (x - prev) 0" "rsi_gains r"]
      set_deque_append [of 500 "max (- (x - prev)) 0" "rsi_losses r"]
    by (auto simp: rsi_inv_def)
  with rsi_value_bounds [of ?g ?l] Some show ?thesis
    by (simp add: rsi_update_def rsi_inv_def Let_def)
qed

lemma sum_sq_dev_nonneg: "0 \<le> sum_sq_dev xs m"
  unfolding sum_sq_dev_def by (rule sum_list_ge_0) auto

lemma rv_update_nonneg: "0 \<le> fst (rv_update x v)"
proof -
  have "0 \<le> sqrt (sum_sq_dev xs m / (real n - 1) * 365 * 24 * 3600)" if "\<not> n < 2" for xs m n
    using that sum_sq_dev_nonneg [of xs m] by (intro real_sqrt_ge_zero mult_nonneg_nonneg divide_nonneg_nonneg) auto
  then show ?thesis by (simp only: rv_update_def Let_def fst_conv if_split order_refl split: if_split) simp
qed

definition ewma_inv :: "ewma_vol \<Rightarrow> bool" where
  "ewma_inv v \<longleftrightarrow> 0 \<le> ev_lam v \<and> ev_lam v \<le> 1 \<and> 0 \<le> ev_var v"

lemma ewma_update_inv:
  assumes "ewma_inv v"
  shows "ewma_inv (snd (ewma_update x v)) \<and> 0 \<le> fst (ewma_update x v)"
proof -
  have "0 \<le> ev_lam v * ev_var v + (1 - ev_lam v) * r * r" for r
    using assms by (simp add: ewma_inv_def mult.assoc)
  with assms show ?thesis
    by (simp add: ewma_update_def ewma_inv_def Let_def split: option.split)
qed

lemma bs_prob_bounds:
  assumes "\<forall>x. \<bar>erf x\<bar> \<le> 1"
  shows "0 \<le> black_scholes_binary_prob erf S K sigma T \<and> black_scholes_binary_prob erf S K sigma T \<le> 1"
proof -
  have "0 \<le> norm_cdf erf x \<and> norm_cdf erf x \<le> 1" for x
  proof -
    have "\<bar>erf (x / sqrt 2)\<bar> \<le> 1" using assms by blast
    then have "- 1 \<le> erf (x / sqrt 2)" "erf (x / sqrt 2) \<le> 1" by linarith+
    then show ?thesis unfolding norm_cdf_def by simp
  qed
  then show ?thesis by (simp add: black_scholes_binary_prob_def)
qed

definition stack_inv :: "real \<Rightarrow> real \<Rightarrow> indicator_stack \<Rightarrow> bool" where
  "stack_inv lo hi st \<longleftrightarrow> ema_inv lo hi (st_ema_fast st) \<and> ema_inv lo hi (st_ema_slow st) \<and>
     rsi_inv (st_rsi st) \<and> ewma_inv (st_vol_ewma st) \<and> length (st_recent_edges st) \<le> 120"

text \<open>The market-data fields of a context that the stack reads and never writes.\<close>

definition same_market :: "'a tick_core_scheme \<Rightarrow> 'a tick_core_scheme \<Rightarrow> bool" where
  "same_market c c' \<longleftrightarrow> tc_ts c' = tc_ts c \<and> tc_market_slug c' = tc_market_slug c \<and>
     tc_t_in_window c' = tc_t_in_window c \<and> tc_spot_price c' = tc_spot_price c \<and>
     tc_open_price c' = tc_open_price c \<and> tc_implied_prob_yes c' = tc_implied_prob_yes c \<and>
     tc_pm_yes_ask c' = tc_pm_yes_ask c \<and> tc_pm_no_ask c' = tc_pm_no_ask c \<and>
     tc_pm_yes_bid c' = tc_pm_yes_bid c \<and> tc_pm_no_bid c' = tc_pm_no_bid c \<and>
     tc_pm_spread_bps c' = tc_pm_spread_bps c \<and> tc_window_close_ts c' = tc_window_close_ts c"

definition indicators_ok :: "real \<Rightarrow> real \<Rightarrow> 'a tick_core_scheme \<Rightarrow> bool" where
  "indicators_ok lo hi c \<longleftrightarrow> lo \<le> tc_ema_fast c \<and> tc_ema_fast c \<le> hi \<and>
     lo \<le> tc_ema_slow c \<and> tc_ema_slow c \<le> hi \<and> 0 \<le> tc_rsi_14 c \<and> tc_rsi_14 c \<le> 100 \<and>
     0 \<le> tc_vol_realized c \<and> 0 \<le> tc_vol_ewma c \<and> 0 \<le> tc_model_prob_yes c \<and> tc_model_prob_yes c \<le> 1 \<and>
     tc_edge c = tc_model_prob_yes c - tc_implied_prob_yes c"

lemma stack_update_market: "same_market ctx (fst (stack_update erf ctx st))"
  by (simp add: same_market_def stack_update_def Let_def split: prod.split)

lemma stack_update_ok:
  assumes "\<forall>x. \<bar>erf x\<bar> \<le> 1" "stack_inv lo hi st" "lo \<le> tc_spot_price ctx" "tc_spot_price ctx \<le> hi"
  shows "stack_inv lo hi (snd (stack_update erf ctx st)) \<and> indicators_ok lo hi (fst (stack_update erf ctx st))"
proof -
  let ?px = "tc_spot_price ctx"
  have inv: "ema_inv lo hi (st_ema_fast st)" "ema_inv lo hi (st_ema_slow st)" "rsi_inv (st_rsi st)"
    "ewma_inv (st_vol_ewma st)" "length (st_recent_edges st) \<le> 120"
    using assms(2) by (simp_all add: stack_inv_def)
  note facts = ema_update_inv [OF inv(1) assms(3,4)] ema_update_inv [OF inv(2) assms(3,4)]
    rsi_update_inv [OF inv(3), of ?px] rv_update_nonneg [of ?px "st_vol_realized st"]
    ewma_update_inv [OF inv(4), of ?px]
  show ?thesis
    using facts bs_prob_bounds [OF assms(1)]
    by (simp add: stack_update_def Let_def case_prod_beta stack_inv_def indicators_ok_def length_deque_append)
qed

fun stack_run :: "(real \<Rightarrow> real) \<Rightarrow> 'a tick_core_scheme list \<Rightarrow> indicator_stack \<Rightarrow> 'a tick_core_scheme list" where
  "stack_run erf [] st = []"
| "stack_run erf (c # cs) st = (let (c', st') = stack_update erf c st in c' # stack_run erf cs st')"

text \<open>The indicators of a market stay in range. Replaying any ticks whose prices lie in a band
  through a fresh stack gives, at every tick, moving averages inside the band, a relative
  strength index in [0, 100], non-negative volatilities and a model probability in [0, 1]; the
  edge is the difference to the implied probability. The error function only has to be bounded
  by one.\<close>

theorem indicators_in_range:
  assumes "\<forall>x. \<bar>erf x\<bar> \<le> 1" and "1 \<le> fast" and "1 \<le> slow" and "0 \<le> lam" and "lam \<le> 1"
    and "\<forall>c \<in> set cs. lo \<le> tc_spot_price c \<and> tc_spot_price c \<le> hi"
  shows "\<forall>c \<in> set (stack_run erf cs (new_stack fast slow period window lam)). indicators_ok lo hi c"
proof -
  have "\<forall>c \<in> set (stack_run erf cs st). indicators_ok lo hi c" if "stack_inv lo hi st" for st
    using assms(6) that
  proof (induction cs arbitrary: st)
    case (Cons c cs)
    then have "stack_inv lo hi (snd (stack_update erf c st))" "indicators_ok lo hi (fst (stack_update erf c st))"
      using stack_update_ok [OF assms(1), of lo hi st c] by simp_all
    with Cons show ?case by (simp add: case_prod_beta Let_def)
  qed simp
  moreover have "stack_inv lo hi (new_stack fast slow period window lam)"
    using assms(2-5) by (simp add: stack_inv_def new_stack_def new_ema_def new_rsi_def new_ewma_vol_def
        ema_inv_def rsi_inv_def ewma_inv_def)
  ultimately show ?thesis by blast
qed

theorem indicators_in_range_witness:
  "list_all (indicators_ok 100 101)
     (stack_run (\<lambda>x. max (- 1) (min 1 x)) [ex_core, ex_core\<lparr>tc_spot_price := 101\<rparr>] (new_stack 12 26 14 60 (94 / 100)))"
  unfolding list_all_iff by (rule indicators_in_range) (auto simp: ex_core_def abs_le_iff)

end
