(* ===== verification/MM_Features.thy ===== *)
theory MM_Features
  imports Indicators
begin

text \<open>
  \<open>strategies/polymarket_btc15m/_mm_features.py\<close>: the quoting formulas of the market maker
  (Avellaneda-Stoikov on a binary market) and its zone and time gates.
\<close>

section \<open>Definitions\<close>

record as_params =
  ap_gamma_inventory_risk :: real
  ap_window_seconds :: int
  ap_spread_floor_bps :: real
  ap_spread_ceiling_bps :: real
  ap_tau_terminal_s :: real

definition default_as_params :: as_params where
  "default_as_params =
     \<lparr>ap_gamma_inventory_risk = 1 / 2, ap_window_seconds = 900, ap_spread_floor_bps = 50,
      ap_spread_ceiling_bps = 500, ap_tau_terminal_s = 60\<rparr>"

definition sigma_bm :: "real \<Rightarrow> real \<Rightarrow> int \<Rightarrow> real" where
  "sigma_bm p_fair t_in_window_s window_seconds =
     (if \<not> (0 < p_fair \<and> p_fair < 1) then 0
      else if t_in_window_s \<ge> of_int window_seconds then 0
      else (let t = max 0 t_in_window_s
            in sqrt (p_fair * (1 - p_fair) * (of_int window_seconds - t) / of_int window_seconds)))"

definition reservation_price :: "real \<Rightarrow> real \<Rightarrow> as_params \<Rightarrow> real \<Rightarrow> real" where
  "reservation_price p_fair q_shares params t_in_window_s =
     (let sigma = sigma_bm p_fair t_in_window_s (ap_window_seconds params)
      in if sigma = 0 then p_fair
         else (let t_remaining = max 0 (of_int (ap_window_seconds params) - t_in_window_s);
                   skew = q_shares * ap_gamma_inventory_risk params * sigma\<^sup>2 * t_remaining;
                   r = p_fair - skew
               in min (999 / 1000) (max (1 / 1000) r)))"

definition optimal_total_spread :: "real \<Rightarrow> real \<Rightarrow> as_params \<Rightarrow> real \<Rightarrow> real" where
  "optimal_total_spread p_fair k params t_in_window_s =
     (let sigma = sigma_bm p_fair t_in_window_s (ap_window_seconds params);
          t_remaining = max 0 (of_int (ap_window_seconds params) - t_in_window_s);
          g = ap_gamma_inventory_risk params;
          inv_risk_term = g * sigma\<^sup>2 * t_remaining;
          intensity_term = (if k > 0 \<and> g > 0 then (2 / g) * ln (1 + g / k) else 0);
          delta = inv_risk_term + intensity_term;
          spread_lo = ap_spread_floor_bps params / 10000;
          spread_hi = ap_spread_ceiling_bps params / 10000
      in min spread_hi (max spread_lo delta))"

definition optimal_bid_ask :: "real \<Rightarrow> real \<Rightarrow> real \<Rightarrow> as_params \<Rightarrow> real \<Rightarrow> real \<times> real" where
  "optimal_bid_ask p_fair q_shares k params t_in_window_s =
     (let r = reservation_price p_fair q_shares params t_in_window_s;
          half = optimal_total_spread p_fair k params t_in_window_s / 2;
          bid = max (1 / 1000) (min (999 / 1000) (r - half));
          ask = max (1 / 1000) (min (999 / 1000) (r + half))
      in if bid \<ge> ask then (max (1 / 1000) (r - 5 / 1000), min (999 / 1000) (r + 5 / 1000))
         else (bid, ask))"

definition calibrate_c_b :: "real list \<Rightarrow> real \<Rightarrow> int \<Rightarrow> real \<Rightarrow> real" where
  "calibrate_c_b price_increments p_bucket_mid window_seconds sample_period_s =
     (let n = length price_increments
      in if n < 2 then 0
         else (let mean = sum_list price_increments / real n;
                   var = sum_sq_dev price_increments mean / (real n - 1);
                   emp_std = sqrt var;
                   theo_std = sqrt (p_bucket_mid * (1 - p_bucket_mid) * sample_period_s / of_int window_seconds)
               in if theo_std \<le> 0 then 0 else emp_std / theo_std))"

definition in_quoting_window :: "real \<Rightarrow> as_params \<Rightarrow> real \<Rightarrow> bool" where
  "in_quoting_window t_in_window_s params entry_window_start_s =
     (if t_in_window_s < entry_window_start_s then False
      else if t_in_window_s > of_int (ap_window_seconds params) - ap_tau_terminal_s params then False
      else True)"

definition in_active_zone :: "real \<Rightarrow> real \<Rightarrow> real \<Rightarrow> real \<Rightarrow> real \<Rightarrow> bool" where
  "in_active_zone p_fair zone_lo zone_hi dead_zone_lo dead_zone_hi =
     (if \<not> (zone_lo \<le> p_fair \<and> p_fair \<le> zone_hi) then False
      else if dead_zone_lo \<le> p_fair \<and> p_fair \<le> dead_zone_hi then False
      else True)"

section \<open>Bounds of the quotes\<close>

lemma sigma_bm_nonneg: "0 \<le> sigma_bm p t T"
proof (cases "0 < p \<and> p < 1 \<and> t < of_int T")
  case True
  have "0 \<le> p * (1 - p) * (of_int T - max 0 t) / of_int T"
  proof (cases "0 < T")
    case pos: True
    with True show ?thesis by (intro divide_nonneg_pos mult_nonneg_nonneg) auto
  next
    case False
    then have "of_int T \<le> (0 :: real)" by simp
    with True show ?thesis by (intro divide_nonpos_nonpos mult_nonneg_nonpos mult_nonneg_nonneg) auto
  qed
  with True show ?thesis by (simp add: sigma_bm_def Let_def)
qed (auto simp: sigma_bm_def)

lemma sigma_bm_le_half:
  assumes "0 < T"
  shows "sigma_bm p t T \<le> 1 / 2"
proof (cases "0 < p \<and> p < 1 \<and> t < of_int T")
  case True
  have "p * (1 - p) \<le> 1 / 4"
    using zero_le_power2 [of "p - 1 / 2"] by (simp add: power2_eq_square field_simps)
  moreover have "(of_int T - max 0 t) / of_int T \<le> 1" "0 \<le> (of_int T - max 0 t) / of_int T"
    using True assms by auto
  ultimately have "p * (1 - p) * ((of_int T - max 0 t) / of_int T) \<le> 1 / 4 * 1"
    by (intro mult_mono) auto
  then have "sqrt (p * (1 - p) * (of_int T - max 0 t) / of_int T) \<le> sqrt ((1 / 2)\<^sup>2)"
    by (simp add: power2_eq_square)
  with True show ?thesis by (simp add: sigma_bm_def Let_def)
qed (auto simp: sigma_bm_def)

lemma reservation_bounds:
  assumes "1 / 1000 \<le> p" "p \<le> 999 / 1000"
  shows "1 / 1000 \<le> reservation_price p q P t \<and> reservation_price p q P t \<le> 999 / 1000"
  using assms by (simp add: reservation_price_def Let_def min_def max_def)

lemma reservation_antimono:
  assumes "q \<le> q'" "0 \<le> ap_gamma_inventory_risk P"
  shows "reservation_price p q' P t \<le> reservation_price p q P t"
proof -
  let ?s = "(sigma_bm p t (ap_window_seconds P))\<^sup>2" and ?r = "max 0 (of_int (ap_window_seconds P) - t)"
  have "q * ap_gamma_inventory_risk P * ?s * ?r \<le> q' * ap_gamma_inventory_risk P * ?s * ?r"
    using assms by (intro mult_right_mono) auto
  then show ?thesis
    unfolding reservation_price_def Let_def by (auto simp: min_def max_def)
qed

lemma spread_between:
  "ap_spread_floor_bps P \<le> ap_spread_ceiling_bps P \<Longrightarrow>
   ap_spread_floor_bps P / 10000 \<le> optimal_total_spread p k P t \<and>
   optimal_total_spread p k P t \<le> ap_spread_ceiling_bps P / 10000"
  by (simp only: optimal_total_spread_def Let_def) (simp add: min_def max_def)

lemma clamp_mono: "a \<le> b \<Longrightarrow> max l (min u a) \<le> max l (min u (b :: real))"
  by (simp add: min_def max_def)

lemma quotes_ordered:
  assumes "1 / 1000 \<le> p" "p \<le> 999 / 1000"
  shows "1 / 1000 \<le> fst (optimal_bid_ask p q k P t) \<and> fst (optimal_bid_ask p q k P t) < snd (optimal_bid_ask p q k P t) \<and>
    snd (optimal_bid_ask p q k P t) \<le> 999 / 1000"
proof -
  define r where "r = reservation_price p q P t"
  define h where "h = optimal_total_spread p k P t / 2"
  have r: "1 / 1000 \<le> r" "r \<le> 999 / 1000" using reservation_bounds [OF assms] by (simp_all add: r_def)
  have "optimal_bid_ask p q k P t =
      (if max (1 / 1000) (min (999 / 1000) (r + h)) \<le> max (1 / 1000) (min (999 / 1000) (r - h))
       then (max (1 / 1000) (r - 5 / 1000), min (999 / 1000) (r + 5 / 1000))
       else (max (1 / 1000) (min (999 / 1000) (r - h)), max (1 / 1000) (min (999 / 1000) (r + h))))"
    unfolding optimal_bid_ask_def Let_def r_def h_def by (rule refl)
  with r show ?thesis by (simp add: min_def max_def)
qed

text \<open>C32. The market maker's quotes are always a proper two-sided market: for a fair price in
  [0.001, 0.999], whatever the inventory, the fill intensity, the parameters and the time, the
  bid is below the ask and both lie in [0.001, 0.999]. The quoted spread before clamping stays
  between its floor and its ceiling, and a longer inventory never raises the price the quotes
  are centred on.\<close>

theorem quotes_form_a_market:
  assumes "1 / 1000 \<le> p" and "p \<le> 999 / 1000" and "optimal_bid_ask p q k P t = (bid, ask)"
    and "ap_spread_floor_bps P \<le> ap_spread_ceiling_bps P" and "0 \<le> ap_gamma_inventory_risk P"
  shows "1 / 1000 \<le> bid \<and> bid < ask \<and> ask \<le> 999 / 1000 \<and>
    ap_spread_floor_bps P / 10000 \<le> optimal_total_spread p k P t \<and>
    optimal_total_spread p k P t \<le> ap_spread_ceiling_bps P / 10000 \<and>
    (\<forall>q'. q \<le> q' \<longrightarrow> reservation_price p q' P t \<le> reservation_price p q P t)"
  using quotes_ordered [OF assms(1,2), of q k P t] spread_between [OF assms(4)] reservation_antimono [OF _ assms(5)]
    assms(3) by simp

theorem quotes_form_a_market_witness:
  "\<exists>bid ask. optimal_bid_ask (3 / 10) 5 28 default_as_params 120 = (bid, ask) \<and> 1 / 1000 \<le> bid \<and> bid < ask"
proof -
  obtain bid ask where ba: "optimal_bid_ask (3 / 10) 5 28 default_as_params 120 = (bid, ask)"
    by (cases "optimal_bid_ask (3 / 10) 5 28 default_as_params 120")
  have "1 / 1000 \<le> bid \<and> bid < ask"
    using quotes_form_a_market [OF _ _ ba] by (simp add: default_as_params_def)
  with ba show ?thesis by blast
qed

end
