(* ===== verification/MM_Safety.thy ===== *)
theory MM_Safety
  imports Types
begin

text \<open>
  \<open>engine/mm_safety.py\<close>: the guard every market-making strategy carries, and
  \<open>paper/global_mm_state.py\<close>: the caps shared by all of them. \<open>mm_guard\<close> is the state of
  \<open>MMSafetyGuard\<close>, \<open>market_mm_state\<close> the dataclass \<open>_MarketMMState\<close> (its field
  \<open>last_alert_ts\<close> is never read or written). The optional argument \<open>now\<close> of the methods, the
  wall clock when absent, is explicit. The lock of \<open>GlobalMMState\<close> makes each method one step.
\<close>

section \<open>The guard\<close>

record mm_safety_params =
  sp_inventory_cap_usdc :: real
  sp_cancel_fill_ratio_max :: real
  sp_cancel_fill_window_minutes :: int
  sp_cancel_fill_kill_threshold :: int
  sp_cancel_fill_kill_window_min :: int
  sp_cancel_fill_resume_min :: int
  sp_taker_fee_canary_pct :: real
  sp_taker_fee_canary_window_days :: int
  sp_tau_terminal_s :: real
  sp_auto_kill_on_breach :: bool

definition default_safety_params :: mm_safety_params where
  "default_safety_params =
     \<lparr>sp_inventory_cap_usdc = 50, sp_cancel_fill_ratio_max = 30, sp_cancel_fill_window_minutes = 5,
      sp_cancel_fill_kill_threshold = 2, sp_cancel_fill_kill_window_min = 60,
      sp_cancel_fill_resume_min = 15, sp_taker_fee_canary_pct = 5 / 100,
      sp_taker_fee_canary_window_days = 7, sp_tau_terminal_s = 30, sp_auto_kill_on_breach = False\<rparr>"

record market_mm_state =
  mm_cancels :: "datetime list"
  mm_fills :: "datetime list"
  mm_breach_events :: "datetime list"
  mm_killed_until :: "datetime option"

definition new_market_mm_state :: market_mm_state where
  "new_market_mm_state = \<lparr>mm_cancels = [], mm_fills = [], mm_breach_events = [], mm_killed_until = None\<rparr>"

record safety_alert =
  al_ts :: datetime
  al_market_slug :: string
  al_ratio :: real
  al_n_breaches_in_window :: nat

record mm_guard =
  gd_strategy_id :: string
  gd_params :: mm_safety_params
  gd_market_state :: "(string, market_mm_state) dict"
  gd_inventory_shares :: "(string, real) dict"
  gd_taker_fee_paid_usdc :: "(datetime \<times> real) list"
  gd_pnl_gross_usdc :: "(datetime \<times> real) list"
  gd_alerts :: "safety_alert list"

definition new_guard :: "string \<Rightarrow> mm_safety_params \<Rightarrow> mm_guard" where
  "new_guard strategy_id params =
     \<lparr>gd_strategy_id = strategy_id, gd_params = params, gd_market_state = [],
      gd_inventory_shares = [], gd_taker_fee_paid_usdc = [], gd_pnl_gross_usdc = [], gd_alerts = []\<rparr>"

subsection \<open>Inventory cap and terminal window\<close>

datatype block_reason =
    BlockOk
  | InventoryCapBreach real real
  | TerminalWindow real real
  | GlobalInventoryCap real real
  | GlobalCapitalCap real real

definition inventory_shares :: "mm_guard \<Rightarrow> string \<Rightarrow> real" where
  "inventory_shares g market_slug = dict_getd (gd_inventory_shares g) market_slug 0"

definition block_post_quote :: "mm_guard \<Rightarrow> string \<Rightarrow> int \<Rightarrow> real \<Rightarrow> real \<Rightarrow> bool \<times> block_reason" where
  "block_post_quote g market_slug side_sign qty_shares p_market =
     (let current_q = dict_getd (gd_inventory_shares g) market_slug 0;
          projected_q = current_q + of_int side_sign * qty_shares;
          projected_usdc = \<bar>projected_q * p_market\<bar>;
          cap = sp_inventory_cap_usdc (gd_params g)
      in if projected_usdc > cap then (True, InventoryCapBreach projected_usdc cap)
         else (False, BlockOk))"

definition block_post_quote_terminal :: "mm_guard \<Rightarrow> real \<Rightarrow> int \<Rightarrow> bool \<times> block_reason" where
  "block_post_quote_terminal g t_in_window_s window_seconds =
     (let tau = sp_tau_terminal_s (gd_params g)
      in if t_in_window_s > of_int window_seconds - tau then (True, TerminalWindow t_in_window_s tau)
         else (False, BlockOk))"

definition record_inventory_after_fill :: "string \<Rightarrow> int \<Rightarrow> real \<Rightarrow> mm_guard \<Rightarrow> mm_guard" where
  "record_inventory_after_fill market_slug side_sign qty_shares g =
     (let cur = dict_getd (gd_inventory_shares g) market_slug 0
      in g\<lparr>gd_inventory_shares :=
             AList.update market_slug (cur + of_int side_sign * qty_shares) (gd_inventory_shares g)\<rparr>)"

subsection \<open>Cancel to fill ratio\<close>

definition gc_times :: "datetime \<Rightarrow> datetime list \<Rightarrow> datetime list" where
  "gc_times cutoff = popleft_while (\<lambda>t. t < cutoff)"

definition gc_window :: "mm_safety_params \<Rightarrow> datetime \<Rightarrow> market_mm_state \<Rightarrow> market_mm_state" where
  "gc_window p now st =
     (let cutoff = now - minutes (sp_cancel_fill_window_minutes p);
          kill_cutoff = now - minutes (sp_cancel_fill_kill_window_min p)
      in st\<lparr>mm_cancels := gc_times cutoff (mm_cancels st),
            mm_fills := gc_times cutoff (mm_fills st),
            mm_breach_events := gc_times kill_cutoff (mm_breach_events st)\<rparr>)"

definition breach_ratio :: "market_mm_state \<Rightarrow> real" where
  "breach_ratio st = real (length (mm_cancels st)) / real (max 1 (length (mm_fills st)))"

text \<open>The state of the market and the alert, if one is raised.\<close>

definition maybe_breach ::
  "mm_safety_params \<Rightarrow> string \<Rightarrow> datetime \<Rightarrow> market_mm_state \<Rightarrow> market_mm_state \<times> safety_alert list" where
  "maybe_breach p market_slug now st =
     (let ratio = breach_ratio st
      in if ratio \<le> sp_cancel_fill_ratio_max p then (st, [])
         else if mm_breach_events st \<noteq> [] \<and> now - last (mm_breach_events st) < minutes 1 then (st, [])
         else (let events = mm_breach_events st @ [now];
                   n_breaches = length events;
                   alert = \<lparr>al_ts = now, al_market_slug = market_slug, al_ratio = ratio,
                            al_n_breaches_in_window = n_breaches\<rparr>;
                   st1 = st\<lparr>mm_breach_events := events\<rparr>;
                   st2 = (if int n_breaches \<ge> sp_cancel_fill_kill_threshold p \<and> sp_auto_kill_on_breach p
                          then st1\<lparr>mm_killed_until := Some (now + minutes (sp_cancel_fill_resume_min p))\<rparr>
                          else st1)
               in (st2, [alert])))"

definition market_of :: "mm_guard \<Rightarrow> string \<Rightarrow> market_mm_state" where
  "market_of g market_slug = dict_getd (gd_market_state g) market_slug new_market_mm_state"

definition put_market :: "string \<Rightarrow> market_mm_state \<Rightarrow> mm_guard \<Rightarrow> mm_guard" where
  "put_market market_slug st g = g\<lparr>gd_market_state := AList.update market_slug st (gd_market_state g)\<rparr>"

definition record_cancel :: "string \<Rightarrow> datetime \<Rightarrow> mm_guard \<Rightarrow> mm_guard" where
  "record_cancel market_slug now g =
     (let st = market_of g market_slug;
          st1 = gc_window (gd_params g) now (st\<lparr>mm_cancels := mm_cancels st @ [now]\<rparr>);
          (st2, alerts) = maybe_breach (gd_params g) market_slug now st1
      in (put_market market_slug st2 g)\<lparr>gd_alerts := gd_alerts g @ alerts\<rparr>)"

definition record_fill :: "string \<Rightarrow> datetime \<Rightarrow> mm_guard \<Rightarrow> mm_guard" where
  "record_fill market_slug now g =
     (let st = market_of g market_slug
      in put_market market_slug (gc_window (gd_params g) now (st\<lparr>mm_fills := mm_fills st @ [now]\<rparr>)) g)"

definition is_market_killed :: "string \<Rightarrow> datetime \<Rightarrow> mm_guard \<Rightarrow> bool \<times> mm_guard" where
  "is_market_killed market_slug now g =
     (case map_of (gd_market_state g) market_slug of
        None \<Rightarrow> (False, g)
      | Some st \<Rightarrow>
          (case mm_killed_until st of
             None \<Rightarrow> (False, g)
           | Some until \<Rightarrow>
               if now \<ge> until then (False, put_market market_slug (st\<lparr>mm_killed_until := None\<rparr>) g)
               else (True, g)))"

subsection \<open>Taker fee canary\<close>

definition gc_pairs :: "datetime \<Rightarrow> (datetime \<times> real) list \<Rightarrow> (datetime \<times> real) list" where
  "gc_pairs cutoff = popleft_while (\<lambda>e. fst e < cutoff)"

definition gc_canary :: "datetime \<Rightarrow> mm_guard \<Rightarrow> mm_guard" where
  "gc_canary now g =
     (let cutoff = now - days (sp_taker_fee_canary_window_days (gd_params g))
      in g\<lparr>gd_taker_fee_paid_usdc := gc_pairs cutoff (gd_taker_fee_paid_usdc g),
           gd_pnl_gross_usdc := gc_pairs cutoff (gd_pnl_gross_usdc g)\<rparr>)"

definition record_taker_fee_paid :: "real \<Rightarrow> datetime \<Rightarrow> mm_guard \<Rightarrow> mm_guard" where
  "record_taker_fee_paid usdc now g =
     gc_canary now (g\<lparr>gd_taker_fee_paid_usdc := gd_taker_fee_paid_usdc g @ [(now, usdc)]\<rparr>)"

definition record_pnl_gross :: "real \<Rightarrow> datetime \<Rightarrow> mm_guard \<Rightarrow> mm_guard" where
  "record_pnl_gross usdc now g =
     gc_canary now (g\<lparr>gd_pnl_gross_usdc := gd_pnl_gross_usdc g @ [(now, usdc)]\<rparr>)"

definition canary_ratio :: "mm_guard \<Rightarrow> real" where
  "canary_ratio g =
     (let fee = sum_list (map snd (gd_taker_fee_paid_usdc g));
          gross = sum_list (map snd (gd_pnl_gross_usdc g))
      in if gross \<le> 0 then 0 else fee / gross)"

definition canary_breached :: "mm_guard \<Rightarrow> bool" where
  "canary_breached g \<longleftrightarrow> canary_ratio g > sp_taker_fee_canary_pct (gd_params g)"

section \<open>The caps across strategies\<close>

record global_mm_state =
  gm_max_total_capital_at_risk_usd :: real
  gm_max_total_inventory_usdc :: real
  gm_inventory_usdc_by_strategy :: "(string, real) dict"
  gm_capital_at_risk_by_strategy :: "(string, real) dict"

definition default_global_mm_state :: global_mm_state where
  "default_global_mm_state =
     \<lparr>gm_max_total_capital_at_risk_usd = 10 ^ 9, gm_max_total_inventory_usdc = 10 ^ 9,
      gm_inventory_usdc_by_strategy = [], gm_capital_at_risk_by_strategy = []\<rparr>"

definition total_inventory_usdc :: "global_mm_state \<Rightarrow> real" where
  "total_inventory_usdc g = sum_list (values_of (gm_inventory_usdc_by_strategy g))"

definition total_capital_at_risk_usd :: "global_mm_state \<Rightarrow> real" where
  "total_capital_at_risk_usd g = sum_list (values_of (gm_capital_at_risk_by_strategy g))"

definition update_strategy :: "string \<Rightarrow> real \<Rightarrow> real \<Rightarrow> global_mm_state \<Rightarrow> global_mm_state" where
  "update_strategy strategy_id inventory_usdc capital_at_risk_usd g =
     g\<lparr>gm_inventory_usdc_by_strategy :=
         AList.update strategy_id inventory_usdc (gm_inventory_usdc_by_strategy g),
       gm_capital_at_risk_by_strategy :=
         AList.update strategy_id capital_at_risk_usd (gm_capital_at_risk_by_strategy g)\<rparr>"

definition others_sum :: "string \<Rightarrow> (string, real) dict \<Rightarrow> real" where
  "others_sum k d = sum_list (values_of (filter (\<lambda>(k', v). k' \<noteq> k) d))"

definition global_block_post_quote ::
  "global_mm_state \<Rightarrow> string \<Rightarrow> real \<Rightarrow> real \<Rightarrow> bool \<times> block_reason" where
  "global_block_post_quote g strategy_id delta_inventory_usdc delta_capital_at_risk_usd =
     (let current_inv = dict_getd (gm_inventory_usdc_by_strategy g) strategy_id 0;
          others_inv = others_sum strategy_id (gm_inventory_usdc_by_strategy g);
          projected_inv = others_inv + \<bar>current_inv\<bar> + delta_inventory_usdc
      in if projected_inv > gm_max_total_inventory_usdc g
         then (True, GlobalInventoryCap projected_inv (gm_max_total_inventory_usdc g))
         else (let current_cap = dict_getd (gm_capital_at_risk_by_strategy g) strategy_id 0;
                   others_cap = others_sum strategy_id (gm_capital_at_risk_by_strategy g);
                   projected_cap = others_cap + current_cap + delta_capital_at_risk_usd
               in if projected_cap > gm_max_total_capital_at_risk_usd g
                  then (True, GlobalCapitalCap projected_cap (gm_max_total_capital_at_risk_usd g))
                  else (False, BlockOk)))"

section \<open>Lemmas on the guard\<close>

interpretation times_window: time_window "\<lambda>t :: datetime. t" gc_times
  unfolding gc_times_def
  by unfold_locales (rule popleft_while_window, rule popleft_while_head)

interpretation canary_window: time_window fst gc_pairs
  unfolding gc_pairs_def
  by unfold_locales (rule popleft_while_window, rule popleft_while_head)

lemma market_of_put [simp]:
  "market_of (put_market k st g) k' = (if k' = k then st else market_of g k')"
  by (simp add: market_of_def put_market_def)

lemma guard_put_sel [simp]:
  "gd_params (put_market k st g) = gd_params g" "gd_inventory_shares (put_market k st g) = gd_inventory_shares g"
  "gd_alerts (put_market k st g) = gd_alerts g"
  by (simp_all add: put_market_def)

lemma market_of_alerts [simp]: "market_of (g\<lparr>gd_alerts := a\<rparr>) k = market_of g k"
  by (simp add: market_of_def)

lemma gc_window_sel:
  "mm_cancels (gc_window p now st) = gc_times (now - minutes (sp_cancel_fill_window_minutes p)) (mm_cancels st)"
  "mm_fills (gc_window p now st) = gc_times (now - minutes (sp_cancel_fill_window_minutes p)) (mm_fills st)"
  "mm_breach_events (gc_window p now st) = gc_times (now - minutes (sp_cancel_fill_kill_window_min p)) (mm_breach_events st)"
  "mm_killed_until (gc_window p now st) = mm_killed_until st"
  by (simp_all add: gc_window_def Let_def)

lemma maybe_breach_sel [simp]:
  "mm_cancels (fst (maybe_breach p s now st)) = mm_cancels st"
  "mm_fills (fst (maybe_breach p s now st)) = mm_fills st"
  by (simp_all add: maybe_breach_def Let_def)

lemma record_cancel_market:
  "market_of (record_cancel s now g) s' =
     (if s' = s then fst (maybe_breach (gd_params g) s now (gc_window (gd_params g) now
        ((market_of g s)\<lparr>mm_cancels := mm_cancels (market_of g s) @ [now]\<rparr>))) else market_of g s')"
  by (simp add: record_cancel_def Let_def case_prod_beta)

lemma record_fill_market:
  "market_of (record_fill s now g) s' =
     (if s' = s then gc_window (gd_params g) now ((market_of g s)\<lparr>mm_fills := mm_fills (market_of g s) @ [now]\<rparr>)
      else market_of g s')"
  by (simp add: record_fill_def Let_def)

lemma record_params [simp]:
  "gd_params (record_cancel s now g) = gd_params g" "gd_params (record_fill s now g) = gd_params g"
  by (simp_all add: record_cancel_def record_fill_def Let_def case_prod_beta)

lemma inventory_untouched [simp]:
  "inventory_shares (record_cancel s now g) m = inventory_shares g m"
  "inventory_shares (record_fill s now g) m = inventory_shares g m"
  "inventory_shares (snd (is_market_killed s now g)) m = inventory_shares g m"
  by (simp_all add: inventory_shares_def record_cancel_def record_fill_def is_market_killed_def Let_def
      case_prod_beta split: option.split)

lemma block_post_quote_iff:
  "fst (block_post_quote g s sg q p) \<longleftrightarrow>
     sp_inventory_cap_usdc (gd_params g) < \<bar>(inventory_shares g s + of_int sg * q) * p\<bar>"
  by (simp add: block_post_quote_def inventory_shares_def Let_def)

lemma inventory_after_fill:
  "inventory_shares (record_inventory_after_fill s sg qty g) m =
     (if m = s then inventory_shares g s + of_int sg * qty else inventory_shares g m)"
  by (simp add: inventory_shares_def record_inventory_after_fill_def Let_def)

subsection \<open>A history of cancels and fills on one market\<close>

datatype mkt_event = Cancelled datetime | Filled datetime

fun mkt_time :: "mkt_event \<Rightarrow> datetime" where
  "mkt_time (Cancelled t) = t"
| "mkt_time (Filled t) = t"

fun mkt_step :: "string \<Rightarrow> mkt_event \<Rightarrow> mm_guard \<Rightarrow> mm_guard" where
  "mkt_step s (Cancelled t) g = record_cancel s t g"
| "mkt_step s (Filled t) g = record_fill s t g"

definition cancel_times :: "mkt_event list \<Rightarrow> datetime list" where
  "cancel_times es = map mkt_time (filter (\<lambda>e. case e of Cancelled _ \<Rightarrow> True | Filled _ \<Rightarrow> False) es)"

definition fill_times :: "mkt_event list \<Rightarrow> datetime list" where
  "fill_times es = map mkt_time (filter (\<lambda>e. case e of Cancelled _ \<Rightarrow> False | Filled _ \<Rightarrow> True) es)"

lemma event_times_append [simp]:
  "cancel_times (es @ es') = cancel_times es @ cancel_times es'"
  "fill_times (es @ es') = fill_times es @ fill_times es'"
  by (simp_all add: cancel_times_def fill_times_def)

lemma event_times_single [simp]:
  "cancel_times [Cancelled t] = [t]" "cancel_times [Filled t] = []" "cancel_times [] = []"
  "fill_times [Cancelled t] = []" "fill_times [Filled t] = [t]" "fill_times [] = []"
  by (simp_all add: cancel_times_def fill_times_def)

lemma mkt_step_params [simp]: "gd_params (mkt_step s e g) = gd_params g"
  by (cases e) simp_all

lemma mkt_params [simp]: "gd_params (fold (mkt_step s) es g) = gd_params g"
  by (induction es arbitrary: g) simp_all

lemma new_guard_params [simp]: "gd_params (new_guard name p) = p"
  by (simp add: new_guard_def)

lemma event_times_sorted:
  "sorted (map mkt_time es) \<Longrightarrow> sorted (cancel_times es) \<and> sorted (fill_times es)"
  by (simp add: cancel_times_def fill_times_def sorted_filter)

text \<open>Collecting again, later, selects from the whole history.\<close>

lemma gc_of_window:
  assumes "sorted h" "T \<le> now" "q = filter (\<lambda>t. T - w \<le> t) h"
  shows "gc_times (now - w) q = filter (\<lambda>t. now - w \<le> t) h"
proof -
  have "sorted (map (\<lambda>t. t) q)" using assms by (simp add: sorted_filter [of "\<lambda>t. t", simplified])
  from times_window.gc_filter [OF this] assms show ?thesis
    by (auto intro: filter_cong)
qed

definition windows_exact :: "string \<Rightarrow> mkt_event list \<Rightarrow> datetime \<Rightarrow> mm_guard \<Rightarrow> bool" where
  "windows_exact s es T g \<longleftrightarrow>
     (let w = minutes (sp_cancel_fill_window_minutes (gd_params g))
      in mm_cancels (market_of g s) = filter (\<lambda>t. T - w \<le> t) (cancel_times es) \<and>
         mm_fills (market_of g s) = filter (\<lambda>t. T - w \<le> t) (fill_times es))"

lemma windows_exact_step:
  assumes "windows_exact s es T g" "sorted (map mkt_time (es @ [e]))" "T \<le> mkt_time e"
  shows "windows_exact s (es @ [e]) (mkt_time e) (mkt_step s e g)"
proof -
  let ?w = "minutes (sp_cancel_fill_window_minutes (gd_params g))"
  have srt: "sorted (cancel_times (es @ [e]))" "sorted (fill_times (es @ [e]))"
    using event_times_sorted [OF assms(2)] by simp_all
  have srt0: "sorted (cancel_times es)" "sorted (fill_times es)"
    using assms(2) event_times_sorted [of es] by (simp_all add: sorted_append)
  have c: "mm_cancels (market_of g s) = filter (\<lambda>t. T - ?w \<le> t) (cancel_times es)"
    and f: "mm_fills (market_of g s) = filter (\<lambda>t. T - ?w \<le> t) (fill_times es)"
    using assms(1) by (simp_all add: windows_exact_def Let_def)
  have snoc: "gc_times (now - ?w) (filter (\<lambda>t. T - ?w \<le> t) h @ [now]) = filter (\<lambda>t. now - ?w \<le> t) (h @ [now])"
    if "sorted (h @ [now])" "T \<le> now" for h now
  proof -
    have "sorted (map (\<lambda>t. t) (filter (\<lambda>t. T - ?w \<le> t) h @ [now]))"
      using that(1) sorted_filter [of "\<lambda>t. t" h] by (auto simp: sorted_append)
    from times_window.gc_filter [OF this] that(2) show ?thesis by (auto intro: filter_cong)
  qed
  show ?thesis
  proof (cases e)
    case (Cancelled now)
    with assms(3) have "T \<le> now" by simp
    with Cancelled srt srt0 show ?thesis
      by (simp add: windows_exact_def Let_def record_cancel_market gc_window_sel c f snoc gc_of_window [OF _ _ refl] del: filter_append)
  next
    case (Filled now)
    with assms(3) have "T \<le> now" by simp
    with Filled srt srt0 show ?thesis
      by (simp add: windows_exact_def Let_def record_fill_market gc_window_sel c f snoc gc_of_window [OF _ _ refl] del: filter_append)
  qed
qed

lemma windows_exact_run:
  assumes "sorted (map mkt_time (es @ [e]))"
  shows "windows_exact s (es @ [e]) (mkt_time e) (fold (mkt_step s) (es @ [e]) (new_guard name p))"
  using assms
proof (induction es arbitrary: e rule: rev_induct)
  case Nil
  have "windows_exact s [] (mkt_time e) (new_guard name p)"
    by (simp add: windows_exact_def new_guard_def market_of_def new_market_mm_state_def Let_def)
  from windows_exact_step [OF this, of e] show ?case by simp
next
  case (snoc e' es)
  have "windows_exact s (es @ [e']) (mkt_time e') (fold (mkt_step s) (es @ [e']) (new_guard name p))"
    by (rule snoc.IH) (use snoc.prems in \<open>simp add: sorted_append\<close>)
  from windows_exact_step [OF this snoc.prems] snoc.prems show ?case by (simp add: sorted_append)
qed

subsection \<open>Breach events\<close>

definition spaced :: "datetime list \<Rightarrow> bool" where
  "spaced = sorted_wrt (\<lambda>a b. a + minutes 1 \<le> b)"

definition breach_inv :: "string \<Rightarrow> datetime \<Rightarrow> mm_guard \<Rightarrow> bool" where
  "breach_inv s T g \<longleftrightarrow>
     (let bs = mm_breach_events (market_of g s)
      in spaced bs \<and> (\<forall>b \<in> set bs. T - minutes (sp_cancel_fill_kill_window_min (gd_params g)) \<le> b \<and> b \<le> T))"

lemma spaced_sorted: "spaced bs \<Longrightarrow> sorted bs"
  unfolding spaced_def by (induction bs) (force simp: minutes_def)+

lemma spaced_snoc:
  assumes "spaced bs" "bs = [] \<or> minutes 1 \<le> now - last bs"
  shows "spaced (bs @ [now])"
proof -
  have "b + minutes 1 \<le> now" if "b \<in> set bs" for b
    using sorted_le_last [OF spaced_sorted [OF assms(1)] that] assms(2) that by auto
  with assms(1) show ?thesis by (simp add: spaced_def sorted_wrt_append)
qed

lemma gc_breaches:
  assumes "spaced bs" "\<forall>b \<in> set bs. b \<le> now"
  shows "spaced (gc_times c bs) \<and> (\<forall>b \<in> set (gc_times c bs). c \<le> b \<and> b \<le> now)"
proof -
  have srt: "sorted (map (\<lambda>t. t) bs)" using spaced_sorted [OF assms(1)] by simp
  have "spaced (filter (\<lambda>t. c \<le> t) bs)"
    using assms(1) by (simp add: spaced_def sorted_wrt_filter)
  with assms(2) show ?thesis unfolding times_window.gc_filter [OF srt] by auto
qed

lemma breach_step:
  assumes "breach_inv s T g" "T \<le> mkt_time e" "0 \<le> sp_cancel_fill_kill_window_min (gd_params g)"
  shows "breach_inv s (mkt_time e) (mkt_step s e g)"
proof -
  let ?now = "mkt_time e" and ?kw = "minutes (sp_cancel_fill_kill_window_min (gd_params g))"
  let ?bs = "gc_times (?now - ?kw) (mm_breach_events (market_of g s))"
  have gc: "spaced ?bs \<and> (\<forall>b \<in> set ?bs. ?now - ?kw \<le> b \<and> b \<le> ?now)"
    using assms(1,2) by (intro gc_breaches) (auto simp: breach_inv_def Let_def)
  have kw: "0 \<le> ?kw" using assms(3) by (simp add: minutes_def)
  have snoc: "breach_inv s ?now g'"
    if "mm_breach_events (market_of g' s) = ?bs \<or>
        (mm_breach_events (market_of g' s) = ?bs @ [?now] \<and> (?bs = [] \<or> minutes 1 \<le> ?now - last ?bs))"
      "gd_params g' = gd_params g" for g'
    using that gc kw spaced_snoc [of ?bs ?now] by (auto simp: breach_inv_def Let_def)
  show ?thesis
  proof (cases e)
    case (Cancelled now)
    then show ?thesis
      by (intro snoc) (auto simp: record_cancel_market maybe_breach_def gc_window_sel Let_def)
  next
    case (Filled now)
    then show ?thesis by (intro snoc) (auto simp: record_fill_market gc_window_sel)
  qed
qed

lemma breach_run:
  assumes "sorted (map mkt_time (es @ [e]))" "0 \<le> sp_cancel_fill_kill_window_min p"
  shows "breach_inv s (mkt_time e) (fold (mkt_step s) (es @ [e]) (new_guard name p))"
  using assms(1)
proof (induction es arbitrary: e rule: rev_induct)
  case Nil
  have "breach_inv s (mkt_time e) (new_guard name p)"
    by (simp add: breach_inv_def new_guard_def market_of_def new_market_mm_state_def spaced_def Let_def)
  from breach_step [OF this order_refl] assms(2) show ?case by simp
next
  case (snoc e' es)
  have "breach_inv s (mkt_time e') (fold (mkt_step s) (es @ [e']) (new_guard name p))"
    by (rule snoc.IH) (use snoc.prems in \<open>simp add: sorted_append\<close>)
  from breach_step [OF this, of e] snoc.prems assms(2) show ?case by (simp add: sorted_append)
qed

lemma spaced_length:
  assumes "spaced bs" "\<forall>b \<in> set bs. L \<le> b \<and> b \<le> U" "bs \<noteq> []"
  shows "(int (length bs) - 1) * minutes 1 \<le> U - L"
  using assms
proof (induction bs arbitrary: L)
  case (Cons b bs)
  show ?case
  proof (cases "bs = []")
    case True
    with Cons.prems show ?thesis by auto
  next
    case False
    have "(int (length bs) - 1) * minutes 1 \<le> U - (b + minutes 1)"
      by (rule Cons.IH) (use Cons.prems False in \<open>auto simp: spaced_def\<close>)
    with Cons.prems show ?thesis by (simp add: algebra_simps)
  qed
qed simp

section \<open>What the guard promises\<close>

text \<open>C14. An accepted quote cannot push the inventory past the cap. When the guard does not block a
  quote and the position is inside the cap at the market price, then after any partial or full
  fill of that quote the position is still inside the cap, and no other market changes; the
  guard blocks exactly the quotes whose full fill would leave the cap.\<close>

theorem accepted_quote_respects_cap:
  assumes "fst (block_post_quote g s sg qty p) = False" and "0 \<le> f" and "f \<le> qty"
    and "\<bar>inventory_shares g s * p\<bar> \<le> sp_inventory_cap_usdc (gd_params g)"
  defines "g' \<equiv> record_inventory_after_fill s sg f g"
  shows "\<bar>inventory_shares g' s * p\<bar> \<le> sp_inventory_cap_usdc (gd_params g') \<and>
    (\<forall>m. m \<noteq> s \<longrightarrow> inventory_shares g' m = inventory_shares g m) \<and>
    (\<forall>q. fst (block_post_quote g s sg q p) \<longleftrightarrow>
       sp_inventory_cap_usdc (gd_params g) < \<bar>inventory_shares (record_inventory_after_fill s sg q g) s * p\<bar>)"
proof -
  let ?c = "sp_inventory_cap_usdc (gd_params g)" and ?q = "inventory_shares g s" and ?d = "of_int sg * p :: real"
  have full: "\<bar>?q * p + qty * ?d\<bar> \<le> ?c"
    using assms(1) by (simp add: block_post_quote_iff algebra_simps)
  have part: "\<bar>?q * p + f * ?d\<bar> \<le> ?c"
  proof -
    have "min 0 (qty * ?d) \<le> f * ?d \<and> f * ?d \<le> max 0 (qty * ?d)"
    proof (cases "0 \<le> ?d")
      case True
      with assms(2,3) show ?thesis by (simp add: mult_right_mono min_def max_def)
    next
      case False
      then have "qty * ?d \<le> f * ?d" using assms(3) by (intro mult_right_mono_neg) auto
      moreover have "f * ?d \<le> 0" using assms(2) False by (simp add: mult_nonneg_nonpos)
      ultimately show ?thesis by linarith
    qed
    with full assms(4) show ?thesis by linarith
  qed
  have "inventory_shares g' s * p = ?q * p + f * ?d"
    by (simp add: g'_def inventory_after_fill algebra_simps)
  moreover have "gd_params g' = gd_params g"
    by (simp add: g'_def record_inventory_after_fill_def Let_def)
  ultimately show ?thesis
    using part by (simp add: block_post_quote_iff) (simp add: g'_def inventory_after_fill)
qed

text \<open>The cancel-to-fill windows are exact and breaches are counted once per minute. After any
  history of cancels and fills of a market in time order, ending at time \<open>T\<close>, the two deques hold
  exactly the cancels and the fills of the last window; the recorded breaches are at least a
  minute apart, all inside the kill window, and so at most one more than its length in minutes.\<close>

theorem cancel_fill_windows_exact:
  fixes s name :: string
  assumes "sorted (map mkt_time (es @ [e]))" and "0 \<le> sp_cancel_fill_kill_window_min p"
  defines "st \<equiv> market_of (fold (mkt_step s) (es @ [e]) (new_guard name p)) s"
    and "W \<equiv> minutes (sp_cancel_fill_window_minutes p)"
  shows "mm_cancels st = filter (\<lambda>t. mkt_time e - W \<le> t) (cancel_times (es @ [e])) \<and>
    mm_fills st = filter (\<lambda>t. mkt_time e - W \<le> t) (fill_times (es @ [e])) \<and>
    sorted_wrt (\<lambda>a b. a + minutes 1 \<le> b) (mm_breach_events st) \<and>
    (\<forall>b \<in> set (mm_breach_events st). mkt_time e - minutes (sp_cancel_fill_kill_window_min p) \<le> b \<and> b \<le> mkt_time e) \<and>
    int (length (mm_breach_events st)) \<le> sp_cancel_fill_kill_window_min p + 1"
proof -
  have par: "gd_params (fold (mkt_step s) (es @ [e]) (new_guard name p)) = p"
    by simp
  have bs: "spaced (mm_breach_events st)"
    "\<forall>b \<in> set (mm_breach_events st). mkt_time e - minutes (sp_cancel_fill_kill_window_min p) \<le> b \<and> b \<le> mkt_time e"
    using breach_run [OF assms(1,2), of s name] unfolding breach_inv_def par st_def Let_def by blast+
  have "int (length (mm_breach_events st)) \<le> sp_cancel_fill_kill_window_min p + 1"
  proof (cases "mm_breach_events st = []")
    case False
    from spaced_length [OF bs False] show ?thesis by (simp add: minutes_def)
  qed (use assms(2) in simp)
  with bs windows_exact_run [OF assms(1), of s name p] show ?thesis
    unfolding windows_exact_def par st_def W_def Let_def spaced_def by blast
qed

text \<open>Without the automatic kill no call kills a market.\<close>

lemma never_killed_step:
  "\<not> sp_auto_kill_on_breach (gd_params g) \<Longrightarrow> mm_killed_until (market_of g s) = None \<Longrightarrow>
   mm_killed_until (market_of (mkt_step s e g) s) = None"
  by (cases e) (simp_all add: record_cancel_market record_fill_market maybe_breach_def gc_window_sel Let_def)

lemma never_killed_run:
  assumes "\<not> sp_auto_kill_on_breach p"
  shows "mm_killed_until (market_of (fold (mkt_step s) es (new_guard name p)) s) = None"
proof (induction es rule: rev_induct)
  case Nil
  show ?case by (simp add: market_of_def new_guard_def new_market_mm_state_def)
next
  case (snoc e es)
  have "gd_params (fold (mkt_step s) es (new_guard name p)) = p"
    by simp
  with snoc assms never_killed_step show ?case by simp
qed

lemma is_market_killed_iff:
  "fst (is_market_killed s t g) \<longleftrightarrow> (\<exists>u. mm_killed_until (market_of g s) = Some u \<and> t < u)"
  by (simp add: is_market_killed_def market_of_def dict_getd_def new_market_mm_state_def split: option.split)

text \<open>The kill switch of a market. A cancel that records a breach reaching the threshold kills the
  market exactly until the resume time when the automatic kill is on; when it is off (paper
  mode) no history of cancels and fills ever kills a market.\<close>

theorem breach_kills_market:
  assumes "gd_alerts (record_cancel s now g) = gd_alerts g @ [a]"
    and "sp_cancel_fill_kill_threshold (gd_params g) \<le> int (al_n_breaches_in_window a)"
  shows "(sp_auto_kill_on_breach (gd_params g) \<longrightarrow>
      (\<forall>t. fst (is_market_killed s t (record_cancel s now g)) \<longleftrightarrow>
         t < now + minutes (sp_cancel_fill_resume_min (gd_params g)))) \<and>
    (\<not> sp_auto_kill_on_breach p \<longrightarrow> \<not> fst (is_market_killed s t (fold (mkt_step s) es (new_guard name p)))) \<and>
    sp_cancel_fill_ratio_max (gd_params g) < al_ratio a"
proof -
  let ?st = "gc_window (gd_params g) now ((market_of g s)\<lparr>mm_cancels := mm_cancels (market_of g s) @ [now]\<rparr>)"
  have al: "snd (maybe_breach (gd_params g) s now ?st) = [a]"
    using assms(1) by (simp add: record_cancel_def Let_def case_prod_beta)
  then have kill: "sp_auto_kill_on_breach (gd_params g) \<longrightarrow>
      mm_killed_until (fst (maybe_breach (gd_params g) s now ?st)) = Some (now + minutes (sp_cancel_fill_resume_min (gd_params g)))"
    and ratio: "sp_cancel_fill_ratio_max (gd_params g) < al_ratio a"
    using assms(2) by (auto simp: maybe_breach_def Let_def split: if_splits)
  with never_killed_run [of p s es name] show ?thesis
    by (auto simp: is_market_killed_iff record_cancel_market)
qed

section \<open>What the shared caps promise\<close>

lemma sum_dict_split:
  "distinct (keys_of d) \<Longrightarrow> sum_list (values_of d) = others_sum k d + dict_getd d k (0 :: real)"
proof (induction d)
  case (Cons a d)
  obtain k' v where a: "a = (k', v)" by (cases a)
  show ?case
  proof (cases "k' = k")
    case True
    with Cons.prems a have "k \<notin> set (keys_of d)" by simp
    then have "filter (\<lambda>(k', v). k' \<noteq> k) d = d" "map_of d k = None"
      by (force simp: filter_id_conv map_of_eq_None_iff)+
    with True a show ?thesis by (simp add: others_sum_def dict_getd_def)
  next
    case False
    with Cons a show ?thesis by (simp add: others_sum_def dict_getd_def)
  qed
qed (simp add: others_sum_def)

lemma others_sum_update [simp]: "others_sum k (AList.update k v d) = others_sum k d"
  unfolding others_sum_def by (induction d) auto

definition global_wf :: "global_mm_state \<Rightarrow> bool" where
  "global_wf g \<longleftrightarrow> distinct (keys_of (gm_inventory_usdc_by_strategy g)) \<and>
     distinct (keys_of (gm_capital_at_risk_by_strategy g))"

lemma global_wf_update: "global_wf g \<Longrightarrow> global_wf (update_strategy s i c g)"
  by (simp add: global_wf_def update_strategy_def distinct_update)

text \<open>The shared caps hold after an accepted quote. If the quote of a strategy is not blocked,
  then booking its exposure for that strategy leaves the totals over all strategies within the
  two caps.\<close>

theorem global_caps_hold:
  assumes "global_wf g" and "fst (global_block_post_quote g s d_inv d_cap) = False"
  defines "g' \<equiv> update_strategy s (\<bar>dict_getd (gm_inventory_usdc_by_strategy g) s 0\<bar> + d_inv)
      (dict_getd (gm_capital_at_risk_by_strategy g) s 0 + d_cap) g"
  shows "total_inventory_usdc g' \<le> gm_max_total_inventory_usdc g' \<and>
    total_capital_at_risk_usd g' \<le> gm_max_total_capital_at_risk_usd g' \<and> global_wf g'"
proof -
  have wf: "global_wf g'" unfolding g'_def by (rule global_wf_update [OF assms(1)])
  then have "total_inventory_usdc g' = others_sum s (gm_inventory_usdc_by_strategy g)
      + (\<bar>dict_getd (gm_inventory_usdc_by_strategy g) s 0\<bar> + d_inv)"
    "total_capital_at_risk_usd g' = others_sum s (gm_capital_at_risk_by_strategy g)
      + (dict_getd (gm_capital_at_risk_by_strategy g) s 0 + d_cap)"
    using sum_dict_split [of "gm_inventory_usdc_by_strategy g'" s] sum_dict_split [of "gm_capital_at_risk_by_strategy g'" s]
    by (simp_all add: global_wf_def total_inventory_usdc_def total_capital_at_risk_usd_def g'_def update_strategy_def)
  with assms(2) wf show ?thesis
    by (simp add: g'_def update_strategy_def global_block_post_quote_def Let_def split: if_splits)
qed

section \<open>Worked examples\<close>

theorem accepted_quote_respects_cap_witness:
  "\<bar>inventory_shares (record_inventory_after_fill ''m'' 1 60 (new_guard ''mm'' default_safety_params)) ''m'' * (1 / 2)\<bar> \<le> 50"
proof -
  have "fst (block_post_quote (new_guard ''mm'' default_safety_params) ''m'' 1 80 (1 / 2)) = False"
    by (simp add: block_post_quote_def new_guard_def default_safety_params_def Let_def)
  from accepted_quote_respects_cap [OF this, of 60] show ?thesis
    by (simp add: inventory_shares_def new_guard_def default_safety_params_def record_inventory_after_fill_def Let_def)
qed

theorem cancel_fill_windows_exact_witness:
  "mm_cancels (market_of (fold (mkt_step ''m'') ([Cancelled 0, Cancelled (minutes 4)] @ [Filled (minutes 6)])
     (new_guard ''mm'' default_safety_params)) ''m'') = [minutes 4]"
proof -
  have s: "sorted (map mkt_time ([Cancelled 0, Cancelled (minutes 4)] @ [Filled (minutes 6)]))"
    by (simp add: minutes_def)
  from cancel_fill_windows_exact [OF s, of default_safety_params "''m''" "''mm''"] show ?thesis
    by (simp add: default_safety_params_def minutes_def cancel_times_def)
qed

theorem breach_kills_market_witness:
  "let p = default_safety_params\<lparr>sp_cancel_fill_ratio_max := 0, sp_cancel_fill_kill_threshold := 1,
             sp_auto_kill_on_breach := True\<rparr>;
       g = record_cancel ''m'' 0 (new_guard ''mm'' p)
   in fst (is_market_killed ''m'' (minutes 14) g) \<and> \<not> fst (is_market_killed ''m'' (minutes 15) g)"
proof -
  let ?p = "default_safety_params\<lparr>sp_cancel_fill_ratio_max := 0, sp_cancel_fill_kill_threshold := 1,
      sp_auto_kill_on_breach := True\<rparr>"
  let ?g = "new_guard ''mm'' ?p"
  let ?a = "\<lparr>al_ts = 0, al_market_slug = ''m'', al_ratio = 1, al_n_breaches_in_window = 1\<rparr>"
  have "gd_alerts (record_cancel ''m'' 0 ?g) = gd_alerts ?g @ [?a]"
    by (simp add: record_cancel_def maybe_breach_def breach_ratio_def gc_window_def gc_times_def new_guard_def
        market_of_def new_market_mm_state_def default_safety_params_def minutes_def Let_def)
  from breach_kills_market [OF this, of ?p 0 "[]" "''mm''"] show ?thesis
    by (simp add: new_guard_def default_safety_params_def minutes_def Let_def)
qed

theorem global_caps_hold_witness:
  "total_inventory_usdc (update_strategy ''a'' 30 30
     (default_global_mm_state\<lparr>gm_inventory_usdc_by_strategy := [(''b'', 20)]\<rparr>)) \<le> 10 ^ 9"
proof -
  let ?g = "default_global_mm_state\<lparr>gm_inventory_usdc_by_strategy := [(''b'', 20)]\<rparr>"
  have "global_wf ?g" "fst (global_block_post_quote ?g ''a'' 30 30) = False"
    by (simp_all add: global_wf_def default_global_mm_state_def global_block_post_quote_def others_sum_def
        dict_getd_def Let_def)
  from global_caps_hold [OF this] show ?thesis
    by (simp add: update_strategy_def default_global_mm_state_def dict_getd_def)
qed

end
