(* ===== verification/K_Estimator.thy ===== *)
theory K_Estimator
  imports Prelude
begin

text \<open>
  \<open>strategies/polymarket_btc15m/_k_estimator.py\<close>: the fill-intensity estimator of the market
  maker, with its persistence in \<open>research.k_estimator_state\<close>. The table is a dictionary from
  its key (strategy, bucket, delta) to the stored counter; \<open>now\<close> is the wall clock.
\<close>

section \<open>Counters\<close>

record k_counter =
  kc_fills_count :: int
  kc_minutes_quoted :: real
  kc_window_start :: datetime

definition new_counter :: "datetime \<Rightarrow> k_counter" where
  "new_counter now = \<lparr>kc_fills_count = 0, kc_minutes_quoted = 0, kc_window_start = now\<rparr>"

definition counter_k :: "k_counter \<Rightarrow> real" where
  "counter_k c = (if kc_minutes_quoted c \<le> 0 then 0 else of_int (kc_fills_count c) / kc_minutes_quoted c)"

type_synonym cell = "string \<times> int"

record k_estimator =
  ke_strategy_id :: string
  ke_deltas_cents :: "int list"
  ke_window :: int
  ke_counters :: "(cell, k_counter) dict"

definition new_estimator :: "string \<Rightarrow> int list \<Rightarrow> int \<Rightarrow> k_estimator" where
  "new_estimator strategy_id deltas_cents window_days =
     \<lparr>ke_strategy_id = strategy_id, ke_deltas_cents = deltas_cents, ke_window = days window_days,
      ke_counters = []\<rparr>"

definition default_estimator :: "string \<Rightarrow> k_estimator" where
  "default_estimator strategy_id = new_estimator strategy_id [1, 2, 3, 5] 7"

section \<open>Operations\<close>

definition put_counter :: "cell \<Rightarrow> k_counter \<Rightarrow> k_estimator \<Rightarrow> k_estimator" where
  "put_counter key c e = e\<lparr>ke_counters := AList.update key c (ke_counters e)\<rparr>"

text \<open>The counter after \<open>_maybe_roll\<close>: fresh when absent or when its window is over.\<close>

definition rolled_counter :: "cell \<Rightarrow> datetime \<Rightarrow> k_estimator \<Rightarrow> k_counter" where
  "rolled_counter key now e =
     (case map_of (ke_counters e) key of
        None \<Rightarrow> new_counter now
      | Some c \<Rightarrow> if now - kc_window_start c \<ge> ke_window e then new_counter now else c)"

definition maybe_roll :: "cell \<Rightarrow> datetime \<Rightarrow> k_estimator \<Rightarrow> k_estimator" where
  "maybe_roll key now e = put_counter key (rolled_counter key now e) e"

definition warm_start :: "string \<Rightarrow> int \<Rightarrow> real \<Rightarrow> real \<Rightarrow> datetime \<Rightarrow> k_estimator \<Rightarrow> k_estimator" where
  "warm_start bucket delta_cents k0 mins now e =
     put_counter (bucket, delta_cents)
       \<lparr>kc_fills_count = py_round (k0 * mins), kc_minutes_quoted = mins, kc_window_start = now\<rparr> e"

definition k_record_fill :: "string \<Rightarrow> int \<Rightarrow> datetime \<Rightarrow> k_estimator \<Rightarrow> k_estimator" where
  "k_record_fill bucket delta_cents now e =
     (if delta_cents \<notin> set (ke_deltas_cents e) then e
      else (let key = (bucket, delta_cents);
                e1 = maybe_roll key now e;
                c = rolled_counter key now e
            in put_counter key (c\<lparr>kc_fills_count := kc_fills_count c + 1\<rparr>) e1))"

definition record_quoting_minute ::
  "string \<Rightarrow> int \<Rightarrow> real \<Rightarrow> datetime \<Rightarrow> k_estimator \<Rightarrow> k_estimator" where
  "record_quoting_minute bucket delta_cents period_minutes now e =
     (if delta_cents \<notin> set (ke_deltas_cents e) then e
      else (let key = (bucket, delta_cents);
                e1 = maybe_roll key now e;
                c = rolled_counter key now e
            in put_counter key (c\<lparr>kc_minutes_quoted := kc_minutes_quoted c + period_minutes\<rparr>) e1))"

definition k_of :: "k_estimator \<Rightarrow> string \<Rightarrow> int \<Rightarrow> real" where
  "k_of e bucket delta_cents =
     (case map_of (ke_counters e) (bucket, delta_cents) of None \<Rightarrow> 0 | Some c \<Rightarrow> counter_k c)"

record k_snapshot =
  ks_fills_count :: int
  ks_minutes_quoted :: real
  ks_k_value :: real
  ks_window_start :: datetime

definition k_snapshot_of :: "k_estimator \<Rightarrow> (cell, k_snapshot) dict" where
  "k_snapshot_of e = map (\<lambda>(key, c). (key,
     \<lparr>ks_fills_count = kc_fills_count c, ks_minutes_quoted = kc_minutes_quoted c,
      ks_k_value = counter_k c, ks_window_start = kc_window_start c\<rparr>)) (ke_counters e)"

section \<open>Persistence\<close>

record k_row =
  kr_window_start :: datetime
  kr_fills_count :: int
  kr_minutes_quoted :: real
  kr_k_value :: real
  kr_last_update :: datetime

type_synonym k_table = "(string \<times> string \<times> int, k_row) dict"

definition row_of_counter :: "datetime \<Rightarrow> k_counter \<Rightarrow> k_row" where
  "row_of_counter now c =
     \<lparr>kr_window_start = kc_window_start c, kr_fills_count = kc_fills_count c,
      kr_minutes_quoted = kc_minutes_quoted c, kr_k_value = counter_k c, kr_last_update = now\<rparr>"

definition flush_to_db :: "datetime \<Rightarrow> k_estimator \<Rightarrow> k_table \<Rightarrow> nat \<times> k_table" where
  "flush_to_db now e tbl =
     (length (ke_counters e),
      fold (\<lambda>((bucket, dc), c). AList.update (ke_strategy_id e, bucket, dc) (row_of_counter now c))
        (ke_counters e) tbl)"

definition counter_of_row :: "k_row \<Rightarrow> k_counter" where
  "counter_of_row r =
     \<lparr>kc_fills_count = kr_fills_count r, kc_minutes_quoted = kr_minutes_quoted r,
      kc_window_start = kr_window_start r\<rparr>"

definition load_from_db :: "k_table \<Rightarrow> k_estimator \<Rightarrow> nat \<times> k_estimator" where
  "load_from_db tbl e =
     (let rows = filter (\<lambda>((s, bucket, dc), r). s = ke_strategy_id e) tbl
      in (length rows,
          fold (\<lambda>((s, bucket, dc), r). put_counter (bucket, dc) (counter_of_row r)) rows e))"

section \<open>Lemmas\<close>

lemma map_of_put_counter [simp]:
  "map_of (ke_counters (put_counter key c e)) = (map_of (ke_counters e))(key \<mapsto> c)"
  by (simp add: put_counter_def)

lemma put_counter_sel [simp]:
  "ke_strategy_id (put_counter key c e) = ke_strategy_id e" "ke_window (put_counter key c e) = ke_window e"
  "ke_deltas_cents (put_counter key c e) = ke_deltas_cents e"
  by (simp_all add: put_counter_def)

lemma k_record_fill_cells:
  "map_of (ke_counters (k_record_fill b d now e)) key =
     (if key = (b, d) \<and> d \<in> set (ke_deltas_cents e)
      then Some ((rolled_counter (b, d) now e)\<lparr>kc_fills_count := kc_fills_count (rolled_counter (b, d) now e) + 1\<rparr>)
      else map_of (ke_counters e) key)"
  by (simp add: k_record_fill_def maybe_roll_def Let_def)

lemma k_record_fill_sel [simp]:
  "ke_strategy_id (k_record_fill b d now e) = ke_strategy_id e" "ke_window (k_record_fill b d now e) = ke_window e"
  "ke_deltas_cents (k_record_fill b d now e) = ke_deltas_cents e"
  by (simp_all add: k_record_fill_def maybe_roll_def Let_def)

lemma counter_of_row_of_counter [simp]: "counter_of_row (row_of_counter now c) = c"
  by (simp add: counter_of_row_def row_of_counter_def)

lemma flush_lookup:
  assumes "distinct (keys_of cs)"
  shows "map_of (fold (\<lambda>((bucket, dc), c). AList.update (s, bucket, dc) (row_of_counter now c)) cs tbl) (s', b, d) =
    (if s' = s then (case map_of cs (b, d) of Some c \<Rightarrow> Some (row_of_counter now c) | None \<Rightarrow> map_of tbl (s', b, d))
     else map_of tbl (s', b, d))"
  using assms
proof (induction cs arbitrary: tbl)
  case (Cons x cs)
  obtain b' d' c where x: "x = ((b', d'), c)" by (metis surj_pair)
  have "map_of cs (b', d') = None" using Cons.prems x by (simp add: map_of_eq_None_iff)
  with Cons x show ?case by (auto split: option.split)
qed (simp split: option.split)

lemma flush_distinct:
  "distinct (keys_of tbl) \<Longrightarrow>
   distinct (keys_of (fold (\<lambda>((bucket, dc), c). AList.update (s, bucket, dc) (row_of_counter now c)) cs tbl))"
proof (induction cs arbitrary: tbl)
  case (Cons x cs)
  then show ?case by (cases x) (auto simp: distinct_update split: prod.split)
qed simp

lemma load_lookup:
  assumes "distinct (keys_of tbl)"
  shows "map_of (ke_counters (fold (\<lambda>((s, bucket, dc), r). put_counter (bucket, dc) (counter_of_row r))
      (filter (\<lambda>((s, bucket, dc), r). s = s0) tbl) e)) (b, d) =
    (case map_of tbl (s0, b, d) of Some r \<Rightarrow> Some (counter_of_row r) | None \<Rightarrow> map_of (ke_counters e) (b, d))"
  using assms
proof (induction tbl arbitrary: e)
  case (Cons x tbl)
  obtain s' b' d' r where x: "x = ((s', b', d'), r)" by (metis surj_pair)
  have "map_of tbl (s', b', d') = None" using Cons.prems x by (simp add: map_of_eq_None_iff)
  with Cons x show ?case by (auto split: option.split)
qed simp

section \<open>What the estimator promises\<close>

text \<open>A restart loses nothing. Flushing the counters and loading them into a fresh estimator of the
  same strategy restores every counter exactly; cells that were not in memory keep the row
  stored before, and rows of other strategies are neither read nor changed.\<close>

theorem flush_load_roundtrip:
  assumes "distinct (keys_of (ke_counters e))" and "distinct (keys_of tbl)"
    and "snd (flush_to_db now e tbl) = tbl'"
    and "snd (load_from_db tbl' (e\<lparr>ke_counters := []\<rparr>)) = e'"
  shows "map_of (ke_counters e') cell = (case map_of (ke_counters e) cell of
       Some c \<Rightarrow> Some c
     | None \<Rightarrow> map_option counter_of_row (map_of tbl (ke_strategy_id e, cell))) \<and>
    (s \<noteq> ke_strategy_id e \<longrightarrow> map_of tbl' (s, cell) = map_of tbl (s, cell))"
proof -
  obtain b d where cell: "cell = (b, d)" by (cases cell)
  have tbl': "tbl' = fold (\<lambda>((bucket, dc), c). AList.update (ke_strategy_id e, bucket, dc) (row_of_counter now c))
      (ke_counters e) tbl"
    using assms(3) by (simp add: flush_to_db_def)
  have "distinct (keys_of tbl')" unfolding tbl' by (rule flush_distinct [OF assms(2)])
  from load_lookup [OF this, of "ke_strategy_id e" "e\<lparr>ke_counters := []\<rparr>" b d] assms(4)
  have "map_of (ke_counters e') (b, d) = map_option counter_of_row (map_of tbl' (ke_strategy_id e, b, d))"
    by (simp add: load_from_db_def Let_def split: option.splits)
  with flush_lookup [OF assms(1), of "ke_strategy_id e" now tbl] show ?thesis
    by (simp add: tbl' cell split: option.split)
qed

lemma k_fills_in_window:
  assumes "map_of (ke_counters e) (b, d) = Some c" "d \<in> set (ke_deltas_cents e)"
    and "\<forall>t \<in> set ts. t - kc_window_start c < ke_window e"
  shows "map_of (ke_counters (fold (k_record_fill b d) ts e)) (b, d) =
    Some (c\<lparr>kc_fills_count := kc_fills_count c + int (length ts)\<rparr>)"
  using assms
proof (induction ts arbitrary: e c)
  case (Cons t ts)
  let ?e = "k_record_fill b d t e" and ?c = "c\<lparr>kc_fills_count := kc_fills_count c + 1\<rparr>"
  have "rolled_counter (b, d) t e = c" using Cons.prems by (simp add: rolled_counter_def)
  then have "map_of (ke_counters ?e) (b, d) = Some ?c"
    using Cons.prems(2) by (simp add: k_record_fill_cells)
  from Cons.IH [OF this] Cons.prems show ?case by (simp add: algebra_simps)
qed simp

lemma k_zero_cell_stays:
  assumes "\<forall>c. map_of (ke_counters e) (b, d) = Some c \<longrightarrow> kc_minutes_quoted c = 0"
  shows "\<forall>c. map_of (ke_counters (fold (k_record_fill b d) ts e)) (b, d) = Some c \<longrightarrow> kc_minutes_quoted c = 0"
  using assms
proof (induction ts arbitrary: e)
  case (Cons t ts)
  have "\<forall>c. map_of (ke_counters (k_record_fill b d t e)) (b, d) = Some c \<longrightarrow> kc_minutes_quoted c = 0"
    using Cons.prems
    by (auto simp: k_record_fill_cells rolled_counter_def new_counter_def split: option.splits if_splits)
  from Cons.IH [OF this] show ?case by simp
qed simp

text \<open>The estimate of a warm-started cell. While fills arrive inside the window the estimate is
  the warm-start count plus the fills, over the warm-start minutes; the first fill after the
  window is over starts a counter without quoted minutes, and from then on the estimate is zero
  however many fills arrive: only \<open>record_quoting_minute\<close>, which no caller invokes, adds
  minutes.\<close>

theorem warm_cell_course:
  fixes b :: string and k0 :: real
  assumes "d \<in> set (ke_deltas_cents e)" and "0 < mins"
    and "\<forall>t \<in> set ts. t - t0 < ke_window e" and "ke_window e \<le> late - t0"
  defines "e1 \<equiv> fold (k_record_fill b d) ts (warm_start b d k0 mins t0 e)"
  shows "k_of e1 b d = (of_int (py_round (k0 * mins)) + real (length ts)) / mins \<and>
    k_of (fold (k_record_fill b d) ts' (k_record_fill b d late e1)) b d = 0"
proof -
  let ?e0 = "warm_start b d k0 mins t0 e"
  let ?c = "\<lparr>kc_fills_count = py_round (k0 * mins), kc_minutes_quoted = mins, kc_window_start = t0\<rparr>"
  have c0: "map_of (ke_counters ?e0) (b, d) = Some ?c" "d \<in> set (ke_deltas_cents ?e0)" "ke_window ?e0 = ke_window e"
    using assms(1) by (simp_all add: warm_start_def)
  from k_fills_in_window [OF c0(1,2), of ts] assms(3) c0(3)
  have e1: "map_of (ke_counters e1) (b, d) = Some (?c\<lparr>kc_fills_count := kc_fills_count ?c + int (length ts)\<rparr>)"
    by (simp add: e1_def)
  have sel: "ke_window e1 = ke_window e" "ke_deltas_cents e1 = ke_deltas_cents e"
  proof -
    have "ke_window (fold (k_record_fill b d) ts x) = ke_window x \<and>
        ke_deltas_cents (fold (k_record_fill b d) ts x) = ke_deltas_cents x" for x
      by (induction ts arbitrary: x) simp_all
    then show "ke_window e1 = ke_window e" "ke_deltas_cents e1 = ke_deltas_cents e"
      by (simp_all add: e1_def warm_start_def)
  qed
  have "rolled_counter (b, d) late e1 = new_counter late"
    using e1 sel assms(4) by (simp add: rolled_counter_def)
  then have "\<forall>c. map_of (ke_counters (k_record_fill b d late e1)) (b, d) = Some c \<longrightarrow> kc_minutes_quoted c = 0"
    using assms(1) sel by (simp add: k_record_fill_cells new_counter_def)
  from k_zero_cell_stays [OF this, of ts'] have "k_of (fold (k_record_fill b d) ts' (k_record_fill b d late e1)) b d = 0"
    by (auto simp: k_of_def counter_k_def split: option.split)
  with e1 assms(2) show ?thesis by (simp add: k_of_def counter_k_def)
qed

section \<open>Worked examples\<close>

definition ex_estimator :: k_estimator where
  "ex_estimator = warm_start ''0.30-0.40'' 2 28 60 0 (default_estimator ''mm'')"

theorem flush_load_roundtrip_witness:
  "map_of (ke_counters (snd (load_from_db (snd (flush_to_db 5 ex_estimator [])) (ex_estimator\<lparr>ke_counters := []\<rparr>)))) (''0.30-0.40'', 2)
     = map_of (ke_counters ex_estimator) (''0.30-0.40'', 2) \<and> map_of (ke_counters ex_estimator) (''0.30-0.40'', 2) \<noteq> None"
proof -
  have "distinct (keys_of (ke_counters ex_estimator))" "distinct (keys_of ([] :: k_table))"
    by (simp_all add: ex_estimator_def warm_start_def put_counter_def default_estimator_def new_estimator_def)
  from flush_load_roundtrip [OF this refl refl, of 5 "(''0.30-0.40'', 2)" "''x''"] show ?thesis
    by (simp add: ex_estimator_def warm_start_def)
qed

theorem warm_cell_course_witness:
  "k_of (fold (k_record_fill ''0.30-0.40'' 2) [days 1, days 2] ex_estimator) ''0.30-0.40'' 2 = 1682 / 60"
proof -
  have "2 \<in> set (ke_deltas_cents (default_estimator ''mm''))" "\<forall>t \<in> set [days 1, days 2]. t - 0 < ke_window (default_estimator ''mm'')"
    "ke_window (default_estimator ''mm'') \<le> days 8 - 0" "(0 :: real) < 60"
    by (simp_all add: default_estimator_def new_estimator_def days_def)
  from warm_cell_course [OF this(1) this(4) this(2) this(3), of "''0.30-0.40''" 28 "[]"] show ?thesis
    by (simp add: ex_estimator_def py_round_def Let_def)
qed

end
