(* ===== verification/MM_Rebate.thy ===== *)
theory MM_Rebate
  imports MM_Features MM_Safety K_Estimator
begin

text \<open>
  \<open>strategies/polymarket_btc15m/mm_rebate_v1.py\<close> with the action type of
  \<open>engine/mm_actions.py\<close>: the market-making strategy. \<open>mm_strategy\<close> is the state of
  \<open>MMRebateV1\<close>; \<open>mm_on_tick\<close> and \<open>mm_on_fill\<close> are its two callbacks, each returning the new
  state. The digest that names an order is the parameter \<open>digest\<close>, a function of the joined key;
  \<open>now\<close> is the wall clock of the call.
\<close>

section \<open>Actions\<close>

record post_quote =
  pq_side :: side
  pq_price :: real
  pq_qty_shares :: real
  pq_market_slug :: string
  pq_ttl_seconds :: int
  pq_client_id_seed :: string

datatype mm_action =
    PostQuote post_quote
  | CancelQuote string string string
  | ReplaceQuote string post_quote

section \<open>State\<close>

record live_quote =
  lq_client_order_id :: string
  lq_side :: side
  lq_price :: real
  lq_qty_shares :: real

record mm_strategy =
  mr_name :: string
  mr_slug_pattern :: "string option"
  mr_zone_lo :: real
  mr_zone_hi :: real
  mr_dead_lo :: real
  mr_dead_hi :: real
  mr_entry_window_start_s :: real
  mr_stake_nominal_usd :: real
  mr_as_params :: as_params
  mr_safety :: mm_guard
  mr_k :: k_estimator
  mr_live :: "(string, live_quote list) dict"
  mr_ttl_seconds :: int

text \<open>A number, a string or a boolean of a TOML section, with its default.\<close>

definition cfg_num :: "(string, jval) dict \<Rightarrow> string \<Rightarrow> real \<Rightarrow> real" where
  "cfg_num d k dflt = (case map_of d k of Some (JNum x) \<Rightarrow> x | _ \<Rightarrow> dflt)"

definition cfg_str :: "(string, jval) dict \<Rightarrow> string \<Rightarrow> string option" where
  "cfg_str d k = (case map_of d k of Some (JStr s) \<Rightarrow> Some s | _ \<Rightarrow> None)"

definition cfg_bool :: "(string, jval) dict \<Rightarrow> string \<Rightarrow> bool \<Rightarrow> bool" where
  "cfg_bool d k dflt = (case map_of d k of Some (JBool b) \<Rightarrow> b | _ \<Rightarrow> dflt)"

definition safety_params_of :: "(string, jval) dict \<Rightarrow> mm_safety_params" where
  "safety_params_of c =
     \<lparr>sp_inventory_cap_usdc = cfg_num c ''inventory_cap_usdc'' 50,
      sp_cancel_fill_ratio_max = cfg_num c ''cancel_fill_ratio_max'' 30,
      sp_cancel_fill_window_minutes = py_int (cfg_num c ''cancel_fill_window_minutes'' 5),
      sp_cancel_fill_kill_threshold = py_int (cfg_num c ''cancel_fill_kill_threshold'' 2),
      sp_cancel_fill_kill_window_min = py_int (cfg_num c ''cancel_fill_kill_window_min'' 60),
      sp_cancel_fill_resume_min = py_int (cfg_num c ''cancel_fill_resume_min'' 15),
      sp_taker_fee_canary_pct = cfg_num c ''taker_fee_canary_pct'' (5 / 100),
      sp_taker_fee_canary_window_days = py_int (cfg_num c ''taker_fee_canary_window_days'' 7),
      sp_tau_terminal_s = cfg_num c ''tau_terminal_s'' 30,
      sp_auto_kill_on_breach = cfg_bool c ''auto_kill_on_breach'' False\<rparr>"

definition as_params_of :: "(string, jval) dict \<Rightarrow> as_params" where
  "as_params_of p =
     \<lparr>ap_gamma_inventory_risk = cfg_num p ''gamma_inventory_risk'' (1 / 2),
      ap_window_seconds = py_int (cfg_num p ''window_seconds'' 900),
      ap_spread_floor_bps = cfg_num p ''spread_floor_bps'' 50,
      ap_spread_ceiling_bps = cfg_num p ''spread_ceiling_bps'' 500,
      ap_tau_terminal_s = cfg_num p ''tau_terminal_s'' 30\<rparr>"

definition new_mm_rebate :: "(string, jval) dict \<Rightarrow> (string, jval) dict \<Rightarrow> k_estimator option \<Rightarrow> mm_strategy" where
  "new_mm_rebate p mm_safety_cfg k_estimator =
     (let name = (case cfg_str p ''instance_name'' of Some s \<Rightarrow> s | None \<Rightarrow> ''mm_rebate_v1'')
      in \<lparr>mr_name = name, mr_slug_pattern = cfg_str p ''slug_pattern'',
          mr_zone_lo = cfg_num p ''zone_lo'' (15 / 100), mr_zone_hi = cfg_num p ''zone_hi'' (40 / 100),
          mr_dead_lo = cfg_num p ''dead_zone_lo'' (40 / 100),
          mr_dead_hi = cfg_num p ''dead_zone_hi'' (60 / 100),
          mr_entry_window_start_s = cfg_num p ''entry_window_start_s'' 60,
          mr_stake_nominal_usd = cfg_num p ''stake_nominal_usd'' 20,
          mr_as_params = as_params_of p,
          mr_safety = new_guard name (safety_params_of mm_safety_cfg),
          mr_k = (case k_estimator of Some k \<Rightarrow> k | None \<Rightarrow> default_estimator name),
          mr_live = [], mr_ttl_seconds = py_int (cfg_num p ''quote_ttl_seconds'' 0)\<rparr>)"

section \<open>Helpers\<close>

fun bucket_of :: "real \<Rightarrow> (real \<times> real \<times> string) list \<Rightarrow> string option" where
  "bucket_of p [] = None"
| "bucket_of p ((lo, hi, name) # es) = (if lo \<le> p \<and> p < hi then Some name else bucket_of p es)"

definition BUCKET_EDGES :: "(real \<times> real \<times> string) list" where
  "BUCKET_EDGES =
     [(15 / 100, 20 / 100, ''0.15-0.20''), (20 / 100, 30 / 100, ''0.20-0.30''),
      (30 / 100, 40 / 100, ''0.30-0.40''), (40 / 100, 50 / 100, ''0.40-0.50'')]"

text \<open>\<open>deltas[-1]\<close> raises on an empty tuple; the configured tuple is not empty.\<close>

definition delta_cents_round_up :: "real \<Rightarrow> int list \<Rightarrow> int" where
  "delta_cents_round_up offset deltas =
     (let cents = max 1 (py_round (offset * 100))
      in case List.find (\<lambda>d. cents \<le> d) deltas of Some d \<Rightarrow> d | None \<Rightarrow> last deltas)"

record digest_env =
  dg_sha256_hex :: "string \<Rightarrow> string"
  dg_fmt6 :: "real \<Rightarrow> string"

definition mm_coid :: "digest_env \<Rightarrow> string \<Rightarrow> string \<Rightarrow> real \<Rightarrow> side \<Rightarrow> string \<Rightarrow> string" where
  "mm_coid digest strategy slug ts sd seed =
     take 16 (dg_sha256_hex digest
       (strategy @ ''|'' @ slug @ ''|'' @ dg_fmt6 digest ts @ ''|'' @ side_value sd @ ''|'' @ seed))"

definition bucket_for_estimator :: "real \<Rightarrow> string" where
  "bucket_for_estimator p = (case bucket_of p BUCKET_EDGES of Some b \<Rightarrow> b | None \<Rightarrow> ''0.15-0.20'')"

definition compute_p_fair :: "'a tick_core_scheme \<Rightarrow> real" where
  "compute_p_fair ctx = tc_implied_prob_yes ctx"

section \<open>The ledger of resting quotes\<close>

definition live_of :: "string \<Rightarrow> mm_strategy \<Rightarrow> live_quote list" where
  "live_of slug s = dict_getd (mr_live s) slug []"

definition set_live :: "string \<Rightarrow> live_quote list \<Rightarrow> mm_strategy \<Rightarrow> mm_strategy" where
  "set_live slug qs s = s\<lparr>mr_live := AList.update slug qs (mr_live s)\<rparr>"

definition existing_for :: "string \<Rightarrow> side \<Rightarrow> mm_strategy \<Rightarrow> live_quote option" where
  "existing_for slug sd s = List.find (\<lambda>q. lq_side q = sd) (live_of slug s)"

definition track_new :: "string \<Rightarrow> string \<Rightarrow> side \<Rightarrow> real \<Rightarrow> real \<Rightarrow> mm_strategy \<Rightarrow> mm_strategy" where
  "track_new slug coid sd price qty_shares s =
     set_live slug (live_of slug s @
       [\<lparr>lq_client_order_id = coid, lq_side = sd, lq_price = price, lq_qty_shares = qty_shares\<rparr>]) s"

definition untrack :: "string \<Rightarrow> string \<Rightarrow> mm_strategy \<Rightarrow> mm_strategy" where
  "untrack slug coid s = set_live slug (filter (\<lambda>q. lq_client_order_id q \<noteq> coid) (live_of slug s)) s"

definition safety_cancel :: "string \<Rightarrow> datetime \<Rightarrow> mm_strategy \<Rightarrow> mm_strategy" where
  "safety_cancel slug now s = s\<lparr>mr_safety := record_cancel slug now (mr_safety s)\<rparr>"

definition cancel_all_for_market ::
  "string \<Rightarrow> string \<Rightarrow> datetime \<Rightarrow> mm_strategy \<Rightarrow> mm_action list \<times> mm_strategy" where
  "cancel_all_for_market slug reason now s =
     (let live = live_of slug s;
          out = map (\<lambda>q. CancelQuote (lq_client_order_id q) slug reason) live
      in if out \<noteq> [] then (out, set_live slug [] (fold (\<lambda>_. safety_cancel slug now) live s))
         else (out, s))"

definition cancel_side ::
  "string \<Rightarrow> side \<Rightarrow> string \<Rightarrow> datetime \<Rightarrow> mm_strategy \<Rightarrow> mm_action list \<times> mm_strategy" where
  "cancel_side slug sd reason now s =
     (case existing_for slug sd s of
        None \<Rightarrow> ([], s)
      | Some q \<Rightarrow>
          ([CancelQuote (lq_client_order_id q) slug reason],
           safety_cancel slug now (untrack slug (lq_client_order_id q) s)))"

definition post_or_replace_side ::
  "digest_env \<Rightarrow> datetime \<Rightarrow> string \<Rightarrow> side \<Rightarrow> real \<Rightarrow> real \<Rightarrow> real \<Rightarrow> 'a tick_core_scheme \<Rightarrow> mm_strategy
   \<Rightarrow> mm_action list \<times> mm_strategy" where
  "post_or_replace_side digest now slug sd price qty_shares p_fair ctx s =
     (let side_sign = (if sd = YES_UP then 1 else -1);
          (blocked, _) = block_post_quote (mr_safety s) slug side_sign qty_shares p_fair
      in if blocked then cancel_side slug sd ''inventory_cap'' now s
         else (let existing = existing_for slug sd s;
                   seed = (if sd = YES_UP then ''bid'' else ''ask'');
                   new_coid = mm_coid digest (mr_name s) slug (tc_ts ctx) sd seed;
                   new_quote = \<lparr>pq_side = sd, pq_price = price, pq_qty_shares = qty_shares,
                     pq_market_slug = slug, pq_ttl_seconds = mr_ttl_seconds s, pq_client_id_seed = seed\<rparr>
               in case existing of
                    None \<Rightarrow> ([PostQuote new_quote], track_new slug new_coid sd price qty_shares s)
                  | Some q \<Rightarrow>
                      if \<bar>lq_price q - price\<bar> \<ge> 1 / 100
                      then ([ReplaceQuote (lq_client_order_id q) new_quote],
                            safety_cancel slug now (track_new slug new_coid sd price qty_shares
                              (untrack slug (lq_client_order_id q) s)))
                      else ([], s)))"

section \<open>The callbacks\<close>

definition starts_with :: "string \<Rightarrow> string \<Rightarrow> bool" where
  "starts_with pattern slug \<longleftrightarrow> take (length pattern) slug = pattern"

text \<open>The stages 5 and 6: the two quotes.\<close>

definition quote_both ::
  "digest_env \<Rightarrow> datetime \<Rightarrow> 'a tick_core_scheme \<Rightarrow> real \<Rightarrow> mm_strategy \<Rightarrow> mm_action list \<times> mm_strategy" where
  "quote_both digest now ctx p_fair s =
     (let slug = tc_market_slug ctx;
          bucket = bucket_for_estimator p_fair;
          k_at_2c = k_of (mr_k s) bucket 2;
          q_shares = inventory_shares (mr_safety s) slug;
          (bid, ask) = optimal_bid_ask p_fair q_shares k_at_2c (mr_as_params s) (tc_t_in_window ctx);
          qty_shares = mr_stake_nominal_usd s / max bid (1 / 1000);
          (acts1, s1) = post_or_replace_side digest now slug YES_UP bid qty_shares p_fair ctx s;
          (acts2, s2) = post_or_replace_side digest now slug YES_DOWN ask qty_shares p_fair ctx s1
      in (acts1 @ acts2, s2))"

definition mm_on_tick ::
  "digest_env \<Rightarrow> datetime \<Rightarrow> 'a tick_core_scheme \<Rightarrow> mm_strategy \<Rightarrow> mm_action list \<times> mm_strategy" where
  "mm_on_tick digest now ctx s =
     (let slug = tc_market_slug ctx;
          foreign = (case mr_slug_pattern s of None \<Rightarrow> False | Some pat \<Rightarrow> \<not> starts_with pat slug);
          p_fair = compute_p_fair ctx
      in if foreign then ([], s)
         else if \<not> in_active_zone p_fair (mr_zone_lo s) (mr_zone_hi s) (mr_dead_lo s) (mr_dead_hi s)
         then cancel_all_for_market slug ''out_of_zone'' now s
         else if \<not> in_quoting_window (tc_t_in_window ctx) (mr_as_params s) (mr_entry_window_start_s s)
         then cancel_all_for_market slug ''out_of_quoting_window'' now s
         else (let (killed, g) = is_market_killed slug now (mr_safety s);
                   s1 = s\<lparr>mr_safety := g\<rparr>
               in if killed then cancel_all_for_market slug ''market_killed_by_safety'' now s1
                  else if fst (block_post_quote_terminal g (tc_t_in_window ctx) (ap_window_seconds (mr_as_params s)))
                  then cancel_all_for_market slug ''tau_terminal'' now s1
                  else quote_both digest now ctx p_fair s1))"

definition mm_on_fill :: "string \<Rightarrow> string \<Rightarrow> string \<Rightarrow> real \<Rightarrow> real \<Rightarrow> datetime \<Rightarrow> mm_strategy \<Rightarrow> mm_strategy" where
  "mm_on_fill slug client_order_id sd_value fill_price fill_qty_shares now s =
     (let side_sign = (if sd_value = ''YES_UP'' then 1 else -1);
          g1 = record_inventory_after_fill slug side_sign fill_qty_shares (mr_safety s);
          g2 = MM_Safety.record_fill slug now g1;
          s1 = s\<lparr>mr_safety := g2\<rparr>;
          s2 = set_live slug (filter (\<lambda>q. lq_client_order_id q \<noteq> client_order_id) (live_of slug s1)) s1
      in s2\<lparr>mr_k := k_record_fill (bucket_for_estimator fill_price) 2 now (mr_k s2)\<rparr>)"

section \<open>Lemmas on the ledger\<close>

lemma live_of_set_live [simp]: "live_of slug' (set_live slug qs s) = (if slug' = slug then qs else live_of slug' s)"
  by (simp add: live_of_def set_live_def)

lemma set_live_sel [simp]:
  "mr_safety (set_live slug qs s) = mr_safety s" "mr_name (set_live slug qs s) = mr_name s"
  "mr_as_params (set_live slug qs s) = mr_as_params s" "mr_ttl_seconds (set_live slug qs s) = mr_ttl_seconds s"
  by (simp_all add: set_live_def)

lemma live_of_safety [simp]: "live_of slug (s\<lparr>mr_safety := g\<rparr>) = live_of slug s" "live_of slug (s\<lparr>mr_k := k\<rparr>) = live_of slug s"
  by (simp_all add: live_of_def)

lemma safety_cancel_sel [simp]:
  "live_of m (safety_cancel slug now s) = live_of m s" "mr_name (safety_cancel slug now s) = mr_name s"
  "gd_params (mr_safety (safety_cancel slug now s)) = gd_params (mr_safety s)"
  "inventory_shares (mr_safety (safety_cancel slug now s)) m = inventory_shares (mr_safety s) m"
  "mr_safety (safety_cancel slug now s) = record_cancel slug now (mr_safety s)"
  by (simp_all add: safety_cancel_def)

lemma safety_cancels_live [simp]: "live_of m (fold (\<lambda>_. safety_cancel slug now) qs s) = live_of m s"
  by (induction qs arbitrary: s) simp_all

lemma existing_for_mem:
  "existing_for slug sd s = Some q \<Longrightarrow> q \<in> set (live_of slug s) \<and> lq_side q = sd"
  by (auto simp: existing_for_def find_Some_iff)

lemma existing_for_None:
  "existing_for slug sd s = None \<longleftrightarrow> sd \<notin> lq_side ` set (live_of slug s)"
  by (auto simp: existing_for_def find_None_iff)

text \<open>At most one quote per side and market, and only on the two sides.\<close>

definition ledger_ok :: "live_quote list \<Rightarrow> bool" where
  "ledger_ok qs \<longleftrightarrow> distinct (map lq_side qs) \<and> lq_side ` set qs \<subseteq> {YES_UP, YES_DOWN}"

definition quotes_inv :: "mm_strategy \<Rightarrow> bool" where
  "quotes_inv s \<longleftrightarrow> (\<forall>slug. ledger_ok (live_of slug s))"

lemma ledger_ok_filter: "ledger_ok qs \<Longrightarrow> ledger_ok (filter P qs)"
  by (auto simp: ledger_ok_def distinct_map_filter)

lemma ledger_ok_length: "ledger_ok qs \<Longrightarrow> length qs \<le> 2"
proof -
  assume ok: "ledger_ok qs"
  then have "length qs = card (lq_side ` set qs)"
    by (metis distinct_card ledger_ok_def length_map set_map)
  also have "\<dots> \<le> card {YES_UP, YES_DOWN}"
    using ok by (intro card_mono) (auto simp: ledger_ok_def)
  finally show ?thesis by simp
qed

lemma ledger_ok_snoc:
  "ledger_ok qs \<Longrightarrow> lq_side q \<notin> lq_side ` set qs \<Longrightarrow> lq_side q \<in> {YES_UP, YES_DOWN} \<Longrightarrow> ledger_ok (qs @ [q])"
  by (auto simp: ledger_ok_def)

lemma side_gone:
  assumes "ledger_ok qs" "q \<in> set qs"
  shows "lq_side q \<notin> lq_side ` set (filter (\<lambda>q'. lq_client_order_id q' \<noteq> lq_client_order_id q) qs)"
proof
  assume "lq_side q \<in> lq_side ` set (filter (\<lambda>q'. lq_client_order_id q' \<noteq> lq_client_order_id q) qs)"
  then obtain q' where "q' \<in> set qs" "lq_side q' = lq_side q" "lq_client_order_id q' \<noteq> lq_client_order_id q" by auto
  moreover have "inj_on lq_side (set qs)" using assms(1) by (simp add: ledger_ok_def distinct_map)
  ultimately show False using assms(2) by (auto dest: inj_onD)
qed

lemma cancel_all_inv: "quotes_inv s \<Longrightarrow> quotes_inv (snd (cancel_all_for_market slug reason now s))"
  by (auto simp: cancel_all_for_market_def quotes_inv_def ledger_ok_def Let_def)

lemma cancel_side_inv: "quotes_inv s \<Longrightarrow> quotes_inv (snd (cancel_side slug sd reason now s))"
  by (auto simp: cancel_side_def quotes_inv_def untrack_def ledger_ok_filter split: option.split)

lemma post_or_replace_inv:
  assumes "quotes_inv s" "sd \<in> {YES_UP, YES_DOWN}"
  shows "quotes_inv (snd (post_or_replace_side digest now slug sd price qty p ctx s))"
proof -
  have ok: "ledger_ok (live_of m s)" for m using assms(1) by (simp add: quotes_inv_def)
  let ?q = "\<lambda>c. \<lparr>lq_client_order_id = c, lq_side = sd, lq_price = price, lq_qty_shares = qty\<rparr>"
  have new: "ledger_ok (live_of slug s @ [?q c])" if "existing_for slug sd s = None" for c
    using that assms(2) ok by (intro ledger_ok_snoc) (simp_all add: existing_for_None)
  have rep: "ledger_ok (filter (\<lambda>x. lq_client_order_id x \<noteq> lq_client_order_id q) (live_of slug s) @ [?q c])"
    if "existing_for slug sd s = Some q" for q c
    using side_gone [OF ok, of q slug] existing_for_mem [OF that] assms(2)
    by (intro ledger_ok_snoc ledger_ok_filter ok) auto
  show ?thesis
  proof (cases "fst (block_post_quote (mr_safety s) slug (if sd = YES_UP then 1 else -1) qty p)")
    case True
    with assms(1) cancel_side_inv show ?thesis
      by (simp add: post_or_replace_side_def case_prod_beta Let_def)
  next
    case False
    with assms(1) new rep ok show ?thesis
      by (auto simp: post_or_replace_side_def case_prod_beta Let_def quotes_inv_def track_new_def untrack_def
          split: option.split)
  qed
qed

lemma quote_both_inv: "quotes_inv s \<Longrightarrow> quotes_inv (snd (quote_both digest now ctx p s))"
  by (simp add: quote_both_def case_prod_beta Let_def post_or_replace_inv)

lemma quotes_inv_safety [simp]: "quotes_inv (s\<lparr>mr_safety := g\<rparr>) = quotes_inv s"
  by (simp add: quotes_inv_def)

lemma mm_on_tick_inv: "quotes_inv s \<Longrightarrow> quotes_inv (snd (mm_on_tick digest now ctx s))"
  by (simp add: mm_on_tick_def case_prod_beta Let_def quote_both_inv cancel_all_inv)

lemma mm_on_fill_inv: "quotes_inv s \<Longrightarrow> quotes_inv (mm_on_fill slug c sv px qty now s)"
  by (simp add: mm_on_fill_def Let_def quotes_inv_def ledger_ok_filter)

datatype mm_event = MMTick datetime tick_core | MMFill string string string real real datetime

fun mm_step :: "digest_env \<Rightarrow> mm_event \<Rightarrow> mm_strategy \<Rightarrow> mm_strategy" where
  "mm_step digest (MMTick now ctx) s = snd (mm_on_tick digest now ctx s)"
| "mm_step digest (MMFill slug c sv px qty now) s = mm_on_fill slug c sv px qty now s"

lemma mm_step_inv: "quotes_inv s \<Longrightarrow> quotes_inv (mm_step digest e s)"
  by (cases e) (simp_all add: mm_on_tick_inv mm_on_fill_inv)

interpretation mm: preserved "mm_step digest" quotes_inv for digest
  by unfold_locales (rule mm_step_inv)

section \<open>What the strategy promises\<close>

text \<open>The ledger never holds more than one bid and one ask per market. From a fresh strategy,
  whatever ticks and fills follow, the resting quotes of every market are at most two and lie on
  different sides.\<close>

theorem one_quote_per_side:
  "let qs = live_of slug (fold (mm_step digest) es (new_mm_rebate p c k))
   in distinct (map lq_side qs) \<and> length qs \<le> 2 \<and> lq_side ` set qs \<subseteq> {YES_UP, YES_DOWN}"
proof -
  have "quotes_inv (new_mm_rebate p c k)"
    by (simp add: quotes_inv_def live_of_def new_mm_rebate_def ledger_ok_def Let_def)
  from mm.run_inv [OF this, of digest es]
  have "ledger_ok (live_of slug (fold (mm_step digest) es (new_mm_rebate p c k)))"
    by (simp add: quotes_inv_def)
  with ledger_ok_length show ?thesis by (simp add: ledger_ok_def Let_def)
qed

fun quote_in :: "mm_action \<Rightarrow> post_quote option" where
  "quote_in (PostQuote q) = Some q"
| "quote_in (CancelQuote _ _ _) = None"
| "quote_in (ReplaceQuote _ q) = Some q"

lemma no_quote_in_cancels:
  "a \<in> set (fst (cancel_all_for_market slug reason now s)) \<Longrightarrow> quote_in a = None"
  "a \<in> set (fst (cancel_side slug sd reason now s)) \<Longrightarrow> quote_in a = None"
  by (auto simp: cancel_all_for_market_def cancel_side_def Let_def split: if_splits option.splits)

definition sign_of :: "side \<Rightarrow> int" where
  "sign_of sd = (if sd = YES_UP then 1 else -1)"

lemma post_or_replace_quote:
  assumes "a \<in> set (fst (post_or_replace_side digest now slug sd price qty p ctx s))" "quote_in a = Some pq"
  shows "pq_side pq = sd \<and> pq_price pq = price \<and> pq_qty_shares pq = qty \<and> pq_market_slug pq = slug \<and>
    \<bar>(inventory_shares (mr_safety s) slug + of_int (sign_of sd) * qty) * p\<bar> \<le> sp_inventory_cap_usdc (gd_params (mr_safety s))"
proof (cases "fst (block_post_quote (mr_safety s) slug (sign_of sd) qty p)")
  case True
  with assms no_quote_in_cancels show ?thesis
    by (simp add: post_or_replace_side_def case_prod_beta Let_def sign_of_def)
next
  case False
  then have "\<bar>(inventory_shares (mr_safety s) slug + of_int (sign_of sd) * qty) * p\<bar> \<le> sp_inventory_cap_usdc (gd_params (mr_safety s))"
    by (simp add: block_post_quote_iff)
  with False assms show ?thesis
    by (auto simp: post_or_replace_side_def case_prod_beta Let_def sign_of_def split: option.splits if_splits)
qed

lemma post_or_replace_safety:
  "gd_params (mr_safety (snd (post_or_replace_side digest now slug sd price qty p ctx s))) = gd_params (mr_safety s)"
  "inventory_shares (mr_safety (snd (post_or_replace_side digest now slug sd price qty p ctx s))) m = inventory_shares (mr_safety s) m"
  by (simp_all add: post_or_replace_side_def cancel_side_def untrack_def track_new_def case_prod_beta Let_def split: option.split)

lemma quote_both_quote:
  assumes "a \<in> set (fst (quote_both digest now ctx p s))" "quote_in a = Some pq"
  defines "slug \<equiv> tc_market_slug ctx"
  shows "pq_side pq \<in> {YES_UP, YES_DOWN} \<and> pq_market_slug pq = slug \<and>
    (\<exists>i k. pq_price pq \<in> {fst (optimal_bid_ask p i k (mr_as_params s) (tc_t_in_window ctx)),
       snd (optimal_bid_ask p i k (mr_as_params s) (tc_t_in_window ctx))}) \<and>
    \<bar>(inventory_shares (mr_safety s) slug + of_int (sign_of (pq_side pq)) * pq_qty_shares pq) * p\<bar>
      \<le> sp_inventory_cap_usdc (gd_params (mr_safety s))"
proof -
  define k where "k = k_of (mr_k s) (bucket_for_estimator p) 2"
  define ba where "ba = optimal_bid_ask p (inventory_shares (mr_safety s) slug) k (mr_as_params s) (tc_t_in_window ctx)"
  define qty where "qty = mr_stake_nominal_usd s / max (fst ba) (1 / 1000)"
  define s1 where "s1 = snd (post_or_replace_side digest now slug YES_UP (fst ba) qty p ctx s)"
  have eq: "fst (quote_both digest now ctx p s) = fst (post_or_replace_side digest now slug YES_UP (fst ba) qty p ctx s)
      @ fst (post_or_replace_side digest now slug YES_DOWN (snd ba) qty p ctx s1)"
    by (simp add: quote_both_def case_prod_beta Let_def s1_def qty_def ba_def k_def slug_def)
  have inv: "inventory_shares (mr_safety s1) slug = inventory_shares (mr_safety s) slug"
    "gd_params (mr_safety s1) = gd_params (mr_safety s)"
    by (simp_all add: s1_def post_or_replace_safety)
  from assms(1) consider
      "a \<in> set (fst (post_or_replace_side digest now slug YES_UP (fst ba) qty p ctx s))"
    | "a \<in> set (fst (post_or_replace_side digest now slug YES_DOWN (snd ba) qty p ctx s1))"
    unfolding eq by auto
  then show ?thesis
  proof cases
    case 1
    from post_or_replace_quote [OF 1 assms(2)] show ?thesis
      by (auto simp: ba_def)
  next
    case 2
    from post_or_replace_quote [OF 2 assms(2)] inv show ?thesis
      by (auto simp: ba_def)
  qed
qed

text \<open>The gates of a tick, as one condition.\<close>

definition gates_open :: "datetime \<Rightarrow> 'a tick_core_scheme \<Rightarrow> mm_strategy \<Rightarrow> bool" where
  "gates_open now ctx s \<longleftrightarrow>
     in_active_zone (tc_implied_prob_yes ctx) (mr_zone_lo s) (mr_zone_hi s) (mr_dead_lo s) (mr_dead_hi s) \<and>
     in_quoting_window (tc_t_in_window ctx) (mr_as_params s) (mr_entry_window_start_s s) \<and>
     \<not> fst (is_market_killed (tc_market_slug ctx) now (mr_safety s)) \<and>
     tc_t_in_window ctx \<le> of_int (ap_window_seconds (mr_as_params s)) - sp_tau_terminal_s (gd_params (mr_safety s))"

definition foreign_market :: "'a tick_core_scheme \<Rightarrow> mm_strategy \<Rightarrow> bool" where
  "foreign_market ctx s \<longleftrightarrow> (\<exists>pat. mr_slug_pattern s = Some pat \<and> \<not> starts_with pat (tc_market_slug ctx))"

lemma killed_check_params [simp]: "gd_params (snd (is_market_killed slug now g)) = gd_params g"
  by (simp add: is_market_killed_def split: option.split)

lemma mm_on_tick_cases:
  "mm_on_tick digest now ctx s =
     (if foreign_market ctx s then ([], s)
      else if gates_open now ctx s
      then quote_both digest now ctx (tc_implied_prob_yes ctx) (s\<lparr>mr_safety := snd (is_market_killed (tc_market_slug ctx) now (mr_safety s))\<rparr>)
      else (if \<not> in_active_zone (tc_implied_prob_yes ctx) (mr_zone_lo s) (mr_zone_hi s) (mr_dead_lo s) (mr_dead_hi s)
            then cancel_all_for_market (tc_market_slug ctx) ''out_of_zone'' now s
            else if \<not> in_quoting_window (tc_t_in_window ctx) (mr_as_params s) (mr_entry_window_start_s s)
            then cancel_all_for_market (tc_market_slug ctx) ''out_of_quoting_window'' now s
            else cancel_all_for_market (tc_market_slug ctx)
              (if fst (is_market_killed (tc_market_slug ctx) now (mr_safety s)) then ''market_killed_by_safety'' else ''tau_terminal'')
              now (s\<lparr>mr_safety := snd (is_market_killed (tc_market_slug ctx) now (mr_safety s))\<rparr>)))"
  by (auto simp: mm_on_tick_def foreign_market_def gates_open_def compute_p_fair_def block_post_quote_terminal_def
      case_prod_beta Let_def split: option.split)

text \<open>C23. The strategy quotes only inside its gates. An action of a tick that carries a quote is for
  the market of that tick, and the fair price is in the active zone and outside the dead zone,
  the time inside the quoting window and before the terminal seconds, the market not killed, the
  full fill of the quote within the inventory cap; if the zone lies in [0.001, 0.999] so does
  the quoted price.\<close>

theorem quotes_only_inside_gates:
  assumes "a \<in> set (fst (mm_on_tick digest now ctx s))" and "quote_in a = Some pq"
  defines "p \<equiv> tc_implied_prob_yes ctx" and "slug \<equiv> tc_market_slug ctx"
  shows "pq_market_slug pq = slug \<and> mr_zone_lo s \<le> p \<and> p \<le> mr_zone_hi s \<and>
    \<not> (mr_dead_lo s \<le> p \<and> p \<le> mr_dead_hi s) \<and>
    mr_entry_window_start_s s \<le> tc_t_in_window ctx \<and>
    tc_t_in_window ctx \<le> of_int (ap_window_seconds (mr_as_params s)) - sp_tau_terminal_s (gd_params (mr_safety s)) \<and>
    \<not> fst (is_market_killed slug now (mr_safety s)) \<and>
    \<bar>(inventory_shares (mr_safety s) slug + of_int (sign_of (pq_side pq)) * pq_qty_shares pq) * p\<bar>
      \<le> sp_inventory_cap_usdc (gd_params (mr_safety s)) \<and>
    (1 / 1000 \<le> mr_zone_lo s \<and> mr_zone_hi s \<le> 999 / 1000 \<longrightarrow> 1 / 1000 \<le> pq_price pq \<and> pq_price pq \<le> 999 / 1000)"
proof -
  let ?s = "s\<lparr>mr_safety := snd (is_market_killed slug now (mr_safety s))\<rparr>"
  have open_: "gates_open now ctx s" and act: "a \<in> set (fst (quote_both digest now ctx p ?s))"
    using assms(1,2) no_quote_in_cancels
    by (auto simp: mm_on_tick_cases p_def slug_def split: if_splits)
  have zone: "mr_zone_lo s \<le> p" "p \<le> mr_zone_hi s" "\<not> (mr_dead_lo s \<le> p \<and> p \<le> mr_dead_hi s)"
    "mr_entry_window_start_s s \<le> tc_t_in_window ctx"
    using open_ by (auto simp: gates_open_def in_active_zone_def in_quoting_window_def p_def split: if_splits)
  note q = quote_both_quote [OF act assms(2)]
  have "1 / 1000 \<le> pq_price pq \<and> pq_price pq \<le> 999 / 1000" if b: "1 / 1000 \<le> mr_zone_lo s" "mr_zone_hi s \<le> 999 / 1000"
  proof -
    have "1 / 1000 \<le> p" "p \<le> 999 / 1000" using b zone by linarith+
    then have "1 / 1000 \<le> fst (optimal_bid_ask p i k P t) \<and> fst (optimal_bid_ask p i k P t) \<le> 999 / 1000 \<and>
        1 / 1000 \<le> snd (optimal_bid_ask p i k P t) \<and> snd (optimal_bid_ask p i k P t) \<le> 999 / 1000" for i k P t
      using quotes_ordered [of p i k P t] by linarith
    with q show ?thesis by auto
  qed
  with q zone open_ show ?thesis by (simp add: gates_open_def slug_def)
qed

text \<open>Leaving the gates clears the market. On a tick of a market of its own whose gates are not
  all open, the strategy emits exactly one cancel for each quote it tracks on that market, and
  tracks none afterwards; the quotes of other markets are untouched.\<close>

theorem closed_gates_cancel_everything:
  assumes "\<not> foreign_market ctx s" and "\<not> gates_open now ctx s"
    and "mm_on_tick digest now ctx s = (acts, s')"
  shows "(\<exists>reason. acts = map (\<lambda>q. CancelQuote (lq_client_order_id q) (tc_market_slug ctx) reason) (live_of (tc_market_slug ctx) s)) \<and>
    live_of (tc_market_slug ctx) s' = [] \<and> (\<forall>m. m \<noteq> tc_market_slug ctx \<longrightarrow> live_of m s' = live_of m s)"
proof -
  have all: "(\<exists>reason. fst (cancel_all_for_market slug r now s0) = map (\<lambda>q. CancelQuote (lq_client_order_id q) slug reason) (live_of slug s0)) \<and>
      live_of slug (snd (cancel_all_for_market slug r now s0)) = [] \<and>
      (\<forall>m. m \<noteq> slug \<longrightarrow> live_of m (snd (cancel_all_for_market slug r now s0)) = live_of m s0)" for slug r s0
    by (auto simp: cancel_all_for_market_def Let_def)
  show ?thesis
    using assms all [of "tc_market_slug ctx" _ s]
      all [of "tc_market_slug ctx" _ "s\<lparr>mr_safety := snd (is_market_killed (tc_market_slug ctx) now (mr_safety s))\<rparr>"]
    by (simp add: mm_on_tick_cases split: if_splits) (metis fst_conv snd_conv)+
qed

section \<open>A worked example\<close>

definition ex_digest :: digest_env where
  "ex_digest = \<lparr>dg_sha256_hex = id, dg_fmt6 = (\<lambda>_. [])\<rparr>"

definition ex_mm :: mm_strategy where
  "ex_mm = new_mm_rebate [] [] None"

definition ex_mm_ctx :: "real \<Rightarrow> tick_core" where
  "ex_mm_ctx p = ex_core\<lparr>tc_implied_prob_yes := p, tc_t_in_window := 100\<rparr>"

lemma ex_mm_gates: "gates_open 0 (ex_mm_ctx (3 / 10)) ex_mm" "\<not> foreign_market (ex_mm_ctx p) ex_mm"
  by (simp_all add: gates_open_def foreign_market_def ex_mm_def ex_mm_ctx_def new_mm_rebate_def cfg_num_def cfg_str_def in_active_zone_def
      in_quoting_window_def as_params_of_def safety_params_of_def new_guard_def is_market_killed_def py_int_def Let_def)

lemma quote_both_fresh:
  assumes "live_of (tc_market_slug ctx) s = []"
    and "\<And>x. \<not> fst (block_post_quote (mr_safety s) (tc_market_slug ctx) 1 (mr_stake_nominal_usd s / x) p)"
  shows "\<exists>pq. PostQuote pq \<in> set (fst (quote_both digest now ctx p s))"
  using assms by (auto simp: quote_both_def post_or_replace_side_def existing_for_def case_prod_beta Let_def)

theorem quotes_only_inside_gates_witness:
  "\<exists>s pq. PostQuote pq \<in> set (fst (mm_on_tick ex_digest 0 (ex_mm_ctx (3 / 10)) s)) \<and> pq_market_slug pq = ''m''"
proof -
  let ?s = "ex_mm\<lparr>mr_stake_nominal_usd := 0\<rparr>"
  let ?ctx = "ex_mm_ctx (3 / 10)"
  have "gates_open 0 ?ctx ?s" "\<not> foreign_market ?ctx ?s"
    using ex_mm_gates by (simp_all add: gates_open_def foreign_market_def)
  moreover define s1 where "s1 = ?s\<lparr>mr_safety := snd (is_market_killed (tc_market_slug ?ctx) 0 (mr_safety ?s))\<rparr>"
  ultimately have tick: "mm_on_tick ex_digest 0 ?ctx ?s = quote_both ex_digest 0 ?ctx (3 / 10) s1"
    by (simp add: mm_on_tick_cases ex_mm_ctx_def s1_def)
  have "live_of slug s1 = []" "\<not> fst (block_post_quote (mr_safety s1) slug 1 (mr_stake_nominal_usd s1 / x) (3 / 10))" for slug x
    by (simp_all add: s1_def ex_mm_def new_mm_rebate_def live_of_def is_market_killed_def new_guard_def block_post_quote_iff
        inventory_shares_def safety_params_of_def cfg_num_def Let_def)
  then obtain pq where pq: "PostQuote pq \<in> set (fst (quote_both ex_digest 0 ?ctx (3 / 10) s1))"
    using quote_both_fresh by blast
  with quotes_only_inside_gates [of "PostQuote pq" ex_digest 0 ?ctx ?s pq] tick have "pq_market_slug pq = ''m''"
    by (simp add: ex_mm_ctx_def ex_core_def)
  with pq tick show ?thesis by metis
qed

theorem closed_gates_cancel_everything_witness:
  "\<exists>s'. mm_on_tick ex_digest 0 (ex_mm_ctx (9 / 10)) (track_new ''m'' ''c1'' YES_UP (3 / 10) 5 ex_mm)
      = ([CancelQuote ''c1'' ''m'' ''out_of_zone''], s') \<and> live_of ''m'' s' = []"
proof -
  let ?s = "track_new ''m'' ''c1'' YES_UP (3 / 10) 5 ex_mm" and ?ctx = "ex_mm_ctx (9 / 10)"
  have f: "\<not> foreign_market ?ctx ?s" "\<not> gates_open 0 ?ctx ?s"
    by (simp_all add: foreign_market_def gates_open_def track_new_def set_live_def ex_mm_def ex_mm_ctx_def new_mm_rebate_def
        cfg_str_def cfg_num_def in_active_zone_def Let_def)
  obtain acts s' where r: "mm_on_tick ex_digest 0 ?ctx ?s = (acts, s')" by (cases "mm_on_tick ex_digest 0 ?ctx ?s")
  have zone: "\<not> in_active_zone (tc_implied_prob_yes ?ctx) (mr_zone_lo ?s) (mr_zone_hi ?s) (mr_dead_lo ?s) (mr_dead_hi ?s)"
    by (simp add: track_new_def set_live_def ex_mm_def ex_mm_ctx_def new_mm_rebate_def cfg_num_def in_active_zone_def Let_def)
  have "live_of ''m'' ?s = [\<lparr>lq_client_order_id = ''c1'', lq_side = YES_UP, lq_price = 3 / 10, lq_qty_shares = 5\<rparr>]"
    by (simp add: track_new_def) (simp add: live_of_def ex_mm_def new_mm_rebate_def Let_def)
  then have "acts = [CancelQuote ''c1'' ''m'' ''out_of_zone'']"
    using r f zone by (simp add: mm_on_tick_cases cancel_all_for_market_def Let_def)
      (simp add: ex_mm_ctx_def ex_core_def)
  with closed_gates_cancel_everything [OF f r] r show ?thesis by (simp add: ex_mm_ctx_def ex_core_def)
qed

end
