(* ===== verification/Fill_Model.thy ===== *)
theory Fill_Model
  imports Types
begin

text \<open>
  What a position costs and what it pays: \<open>engine/sizing.py\<close> (the stake),
  \<open>engine/fill_model.py\<close> (the simulated fill and the settlement of a binary contract) and
  \<open>strategies/polymarket_btc15m/_fee_model.py\<close> (the fees and the maker rebate). The draw
  \<open>deterministic_rng(seed).random()\<close> is a parameter, a function of the seed string: the
  digest and the generator belong to the standard library and only its determinism matters.

  The locale \<open>binary_payoff\<close> is the contract both settlement routines of the program meet, the
  one here and the one of the backtest driver.
\<close>

section \<open>Stake\<close>

record kelly_config =
  kc_stake_min_usd :: real
  kc_stake_max_usd :: real
  kc_kelly_fraction :: real
  kc_min_trades :: int

definition default_kelly_config :: kelly_config where
  "default_kelly_config =
     \<lparr>kc_stake_min_usd = 5, kc_stake_max_usd = 15, kc_kelly_fraction = 1 / 4, kc_min_trades = 20\<rparr>"

definition kelly_fraction :: "real \<Rightarrow> real \<Rightarrow> real" where
  "kelly_fraction p_win entry_price =
     (if entry_price \<le> 0 \<or> entry_price \<ge> 1 then 0
      else (let b = (1 - entry_price) / entry_price
            in max 0 ((b * p_win - (1 - p_win)) / b)))"

definition stake_for_trade :: "real \<Rightarrow> real \<Rightarrow> real \<Rightarrow> int \<Rightarrow> kelly_config \<Rightarrow> real" where
  "stake_for_trade p_win entry_price capital_usd n_settled_trades cfg =
     (if n_settled_trades < kc_min_trades cfg then kc_stake_min_usd cfg
      else (let f_star = kelly_fraction p_win entry_price;
                raw = capital_usd * kc_kelly_fraction cfg * f_star
            in max (kc_stake_min_usd cfg) (min (kc_stake_max_usd cfg) raw)))"

section \<open>Fill and settlement\<close>

record fill_params =
  fp_fee_k :: real
  fp_slippage_bps :: real
  fp_fill_probability :: real

definition default_fill_params :: fill_params where
  "default_fill_params = \<lparr>fp_fee_k = 1 / 20, fp_slippage_bps = 10, fp_fill_probability = 19 / 20\<rparr>"

record fill_result =
  fres_filled :: bool
  fres_entry_price :: real
  fres_slippage :: real
  fres_fee :: real

definition no_fill :: fill_result where
  "no_fill = \<lparr>fres_filled = False, fres_entry_price = 0, fres_slippage = 0, fres_fee = 0\<rparr>"

definition simulate_fill ::
  "(string \<Rightarrow> real) \<Rightarrow> side \<Rightarrow> real \<Rightarrow> real \<Rightarrow> real \<Rightarrow> fill_params \<Rightarrow> string \<Rightarrow> fill_result" where
  "simulate_fill rng_random side pm_yes_ask pm_no_ask stake_usd params seed_source =
     (if rng_random seed_source > fp_fill_probability params then no_fill
      else (let base = (if side = YES_UP then pm_yes_ask else pm_no_ask)
            in if base \<le> 0 \<or> base \<ge> 1 then no_fill
               else (let slip = base * fp_slippage_bps params / 10000;
                         entry = min (base + slip) (99 / 100);
                         fee = fp_fee_k params * entry * (1 - entry) * stake_usd
                     in \<lparr>fres_filled = True, fres_entry_price = entry, fres_slippage = slip,
                         fres_fee = fee\<rparr>)))"

definition settle :: "side \<Rightarrow> real \<Rightarrow> real \<Rightarrow> real \<Rightarrow> bool \<Rightarrow> string \<times> real \<times> real" where
  "settle side entry_price stake_usd fee outcome_went_up =
     (if entry_price \<le> 0 then (''error'', 0, - stake_usd - fee)
      else (let shares = stake_usd / entry_price;
                chose_up = (side = YES_UP);
                wins = (chose_up \<and> outcome_went_up) \<or> (\<not> chose_up \<and> \<not> outcome_went_up);
                exit_price = (if wins then 1 else 0);
                pnl = shares * exit_price - stake_usd - fee
            in (if wins then ''win'' else ''loss'', exit_price, pnl)))"

section \<open>Fees and rebates\<close>

definition DEFAULT_FEE_A :: real where
  "DEFAULT_FEE_A = 5 / 1000"

definition DEFAULT_FEE_B :: real where
  "DEFAULT_FEE_B = 25 / 1000"

datatype rebate_category = CRYPTO | SPORTS | FINANCE | POLITICS | ECONOMICS | CULTURE | WEATHER
  | TECH | MENTIONS | OTHER | GEOPOLITICS

fun category_value :: "rebate_category \<Rightarrow> string" where
  "category_value CRYPTO = ''crypto''"
| "category_value SPORTS = ''sports''"
| "category_value FINANCE = ''finance''"
| "category_value POLITICS = ''politics''"
| "category_value ECONOMICS = ''economics''"
| "category_value CULTURE = ''culture''"
| "category_value WEATHER = ''weather''"
| "category_value TECH = ''tech''"
| "category_value MENTIONS = ''mentions''"
| "category_value OTHER = ''other''"
| "category_value GEOPOLITICS = ''geopolitics''"

definition all_categories :: "rebate_category list" where
  "all_categories = [CRYPTO, SPORTS, FINANCE, POLITICS, ECONOMICS, CULTURE, WEATHER, TECH,
     MENTIONS, OTHER, GEOPOLITICS]"

text \<open>\<open>RebateCategory(s)\<close>: the member with that value, or \<open>ValueError\<close>.\<close>

definition category_of :: "string \<Rightarrow> rebate_category option" where
  "category_of s = List.find (\<lambda>c. category_value c = s) all_categories"

fun REBATE_RATE_BY_CATEGORY :: "rebate_category \<Rightarrow> real" where
  "REBATE_RATE_BY_CATEGORY CRYPTO = 1 / 5"
| "REBATE_RATE_BY_CATEGORY GEOPOLITICS = 0"
| "REBATE_RATE_BY_CATEGORY _ = 1 / 4"

definition MIN_PAYOUT_USDC :: real where
  "MIN_PAYOUT_USDC = 1"

definition fee_taker :: "real \<Rightarrow> real \<Rightarrow> real \<Rightarrow> real" where
  "fee_taker p fee_a fee_b =
     (if \<not> (0 \<le> p \<and> p \<le> 1) then 0 else fee_a + fee_b * 4 * p * (1 - p))"

definition fee_maker :: "real \<Rightarrow> real" where
  "fee_maker p = 0"

text \<open>A member of the enumeration is a string too, so both kinds of argument are looked up by
  their value.\<close>

definition rebate_pool_share :: "real \<Rightarrow> real \<Rightarrow> string \<Rightarrow> real" where
  "rebate_pool_share my_volume_share total_taker_fees_pool category =
     (if my_volume_share \<le> 0 \<or> total_taker_fees_pool \<le> 0 then 0
      else (case category_of category of
              None \<Rightarrow> 0
            | Some c \<Rightarrow>
                (let rate = REBATE_RATE_BY_CATEGORY c
                 in if rate \<le> 0 then 0
                    else (let pool = rate * total_taker_fees_pool;
                              payout = pool * my_volume_share
                          in if payout < MIN_PAYOUT_USDC then 0 else payout))))"

record fill_economics =
  fe_spread_capt_usdc :: real
  fe_adverse_signed_usdc :: real
  fe_fee_taker_avoided_usdc :: real
  fe_net_pre_rebate_usdc :: real

definition expected_fill_economics ::
  "real \<Rightarrow> real \<Rightarrow> real \<Rightarrow> real \<Rightarrow> real \<Rightarrow> real \<Rightarrow> fill_economics" where
  "expected_fill_economics p_fair delta_capt_yes_units notional_usdc adverse_signed_yes_units fee_a fee_b =
     (if \<not> (0 < p_fair \<and> p_fair < 1) \<or> notional_usdc \<le> 0
      then \<lparr>fe_spread_capt_usdc = 0, fe_adverse_signed_usdc = 0, fe_fee_taker_avoided_usdc = 0,
            fe_net_pre_rebate_usdc = 0\<rparr>
      else (let shares = notional_usdc / p_fair;
                spread_capt = delta_capt_yes_units * shares;
                adverse = adverse_signed_yes_units * shares;
                fee_avoided = fee_taker p_fair fee_a fee_b * notional_usdc
            in \<lparr>fe_spread_capt_usdc = spread_capt, fe_adverse_signed_usdc = adverse,
                fe_fee_taker_avoided_usdc = fee_avoided,
                fe_net_pre_rebate_usdc = spread_capt - adverse\<rparr>))"

section \<open>The contract of a binary payoff\<close>

text \<open>
  \<open>pay entry stake fee won\<close> is the profit of \<open>stake\<close> dollars put into contracts bought at
  \<open>entry\<close>, each worth one dollar if the position wins and nothing otherwise.
\<close>

locale binary_payoff =
  fixes pay :: "real \<Rightarrow> real \<Rightarrow> real \<Rightarrow> bool \<Rightarrow> real"
  assumes pay_win: "0 < entry \<Longrightarrow> pay entry stake fee True = stake / entry - stake - fee"
    and pay_loss: "0 < entry \<Longrightarrow> pay entry stake fee False = - stake - fee"
begin

lemma pay_bounds:
  "0 < entry \<Longrightarrow> 0 \<le> stake \<Longrightarrow> - stake - fee \<le> pay entry stake fee won \<and> pay entry stake fee won \<le> stake / entry - stake - fee"
  by (cases won) (simp_all add: pay_win pay_loss)

lemma pay_gain: "0 < entry \<Longrightarrow> pay entry stake fee True = stake * (1 - entry) / entry - fee"
  by (simp add: pay_win field_simps)

lemma pay_win_iff:
  assumes "0 < entry" "0 \<le> stake" "0 \<le> fee" "fee < stake * (1 - entry) / entry"
  shows "0 < pay entry stake fee won \<longleftrightarrow> won"
  using assms by (cases won) (simp_all add: pay_gain pay_loss)

lemma pay_expected:
  assumes "0 < entry"
  shows "p * pay entry stake fee True + (1 - p) * pay entry stake fee False = (p / entry - 1) * stake - fee"
  using assms by (simp add: pay_win pay_loss field_simps)

lemma pay_fair: "0 < entry \<Longrightarrow> entry * pay entry stake 0 True + (1 - entry) * pay entry stake 0 False = 0"
  using pay_expected [of entry entry stake 0] by simp

end

interpretation settle_up: binary_payoff "\<lambda>e s f won. snd (snd (settle YES_UP e s f won))"
  by unfold_locales (simp_all add: settle_def)

interpretation settle_down: binary_payoff "\<lambda>e s f won. snd (snd (settle YES_DOWN e s f (\<not> won)))"
  by unfold_locales (simp_all add: settle_def)

section \<open>Properties\<close>

text \<open>The Kelly fraction in closed form: the edge over the odds.\<close>

lemma kelly_closed_form:
  assumes "0 < e" "e < 1"
  shows "kelly_fraction p e = max 0 ((p - e) / (1 - e))"
proof -
  have "((1 - e) / e * p - (1 - p)) / ((1 - e) / e) = (p - e) / (1 - e)"
    using assms by (simp add: field_simps)
  with assms show ?thesis by (simp add: kelly_fraction_def)
qed

lemma kelly_fraction_nonneg: "0 \<le> kelly_fraction p e"
  by (simp add: kelly_fraction_def Let_def)

lemma kelly_fraction_mono: "p \<le> p' \<Longrightarrow> kelly_fraction p e \<le> kelly_fraction p' e"
proof (cases "0 < e \<and> e < 1")
  case True
  assume "p \<le> p'"
  with True have "(p - e) / (1 - e) \<le> (p' - e) / (1 - e)" by (simp add: divide_right_mono)
  then have "max 0 ((p - e) / (1 - e)) \<le> max 0 ((p' - e) / (1 - e))" by (rule max.mono [OF order_refl])
  with True show ?thesis by (simp add: kelly_closed_form)
qed (auto simp: kelly_fraction_def)

text \<open>The Kelly rule bets exactly on the positions worth buying: at an entry price inside
  (0, 1) the fraction is positive precisely when the expected settlement result of a stake,
  without fee, is positive, for a position on either side whose side wins with probability
  \<open>q\<close>; it never exceeds one for a probability, and the closed form is edge over odds.\<close>

theorem kelly_bets_on_positive_expectation:
  assumes "0 < e" and "e < 1" and "0 < stake" and "q \<le> 1"
  shows "(0 < kelly_fraction q e \<longleftrightarrow>
       0 < q * snd (snd (settle YES_UP e stake 0 True)) + (1 - q) * snd (snd (settle YES_UP e stake 0 False))) \<and>
    (0 < kelly_fraction q e \<longleftrightarrow>
       0 < q * snd (snd (settle YES_DOWN e stake 0 False)) + (1 - q) * snd (snd (settle YES_DOWN e stake 0 True))) \<and>
    kelly_fraction q e = max 0 ((q - e) / (1 - e)) \<and> kelly_fraction q e \<le> 1"
proof -
  have "0 < (q - e) / (1 - e) \<longleftrightarrow> e < q"
    using assms by (simp add: zero_less_divide_iff)
  then have pos: "0 < kelly_fraction q e \<longleftrightarrow> e < q"
    unfolding kelly_closed_form [OF assms(1,2)] by (auto simp: less_max_iff_disj)
  have "1 < q / e \<longleftrightarrow> e < q" using assms by (simp add: less_divide_eq)
  then have ev: "0 < (q / e - 1) * stake - 0 \<longleftrightarrow> e < q"
    using assms(3) by (simp add: zero_less_mult_iff)
  moreover have "(q - e) / (1 - e) \<le> 1" using assms by simp
  ultimately show ?thesis
    using settle_up.pay_expected [OF assms(1), of q stake 0] settle_down.pay_expected [OF assms(1), of q stake 0]
      kelly_closed_form [OF assms(1,2), of q] pos by simp
qed

text \<open>The stake of the next trade lies in the configured band, is the floor until enough trades
  have settled and whenever the win probability does not exceed the entry price, and never
  decreases with the win probability.\<close>

theorem stake_in_band:
  assumes "kc_stake_min_usd cfg \<le> kc_stake_max_usd cfg" and "0 \<le> kc_stake_min_usd cfg"
    and "0 \<le> capital" and "0 \<le> kc_kelly_fraction cfg" and "p \<le> p'"
  shows "kc_stake_min_usd cfg \<le> stake_for_trade p e capital n cfg \<and>
    stake_for_trade p e capital n cfg \<le> kc_stake_max_usd cfg \<and>
    (n < kc_min_trades cfg \<or> p \<le> e \<longrightarrow> stake_for_trade p e capital n cfg = kc_stake_min_usd cfg) \<and>
    stake_for_trade p e capital n cfg \<le> stake_for_trade p' e capital n cfg"
proof -
  let ?raw = "\<lambda>q. capital * kc_kelly_fraction cfg * kelly_fraction q e"
  have "?raw p \<le> ?raw p'"
    using assms(3,4) kelly_fraction_mono [OF assms(5)] by (intro mult_left_mono) auto
  then have mono: "stake_for_trade p e capital n cfg \<le> stake_for_trade p' e capital n cfg"
    by (auto simp: stake_for_trade_def Let_def)
  have "kelly_fraction p e = 0" if "p \<le> e"
  proof (cases "0 < e \<and> e < 1")
    case True
    with that have "(p - e) / (1 - e) \<le> 0" by (simp add: divide_nonpos_pos)
    with True show ?thesis by (simp add: kelly_closed_form)
  qed (auto simp: kelly_fraction_def)
  with assms(1,2) have "n < kc_min_trades cfg \<or> p \<le> e \<longrightarrow> stake_for_trade p e capital n cfg = kc_stake_min_usd cfg"
    by (auto simp: stake_for_trade_def Let_def)
  with assms(1) mono show ?thesis by (auto simp: stake_for_trade_def Let_def)
qed

lemma parabola_le: "x * (1 - x) \<le> (1 / 4 :: real)"
proof -
  have "0 \<le> (x - 1 / 2)\<^sup>2" by simp
  then show ?thesis by (simp add: power2_eq_square field_simps)
qed

lemma parabola_nonneg: "0 \<le> x \<Longrightarrow> x \<le> 1 \<Longrightarrow> 0 \<le> x * (1 - x :: real)"
  by simp

text \<open>A simulated fill is all or nothing. When the draw and the ask let it through, the entry
  price lies in (0, 0.99], it is the slipped ask unless capped, the fee is non-negative and at
  most a quarter of the fee constant of the stake, and a settlement can lose no more than stake
  and fee; when not, nothing is charged.\<close>

theorem simulated_fill_bounds:
  fixes rng :: "string \<Rightarrow> real" and sd :: side and yes_ask no_ask :: real and seed :: string
  assumes "0 \<le> fp_slippage_bps params" and "0 \<le> fp_fee_k params" and "0 \<le> stake"
  defines "r \<equiv> simulate_fill rng sd yes_ask no_ask stake params seed"
    and "base \<equiv> (if sd = YES_UP then yes_ask else no_ask)"
  shows "(fres_filled r \<longleftrightarrow> rng seed \<le> fp_fill_probability params \<and> 0 < base \<and> base < 1) \<and>
    (if fres_filled r
     then 0 < fres_entry_price r \<and> fres_entry_price r \<le> 99 / 100 \<and>
       fres_entry_price r = min (base + fres_slippage r) (99 / 100) \<and>
       0 \<le> fres_fee r \<and> fres_fee r \<le> fp_fee_k params / 4 * stake \<and>
       - stake - fres_fee r \<le> snd (snd (settle sd (fres_entry_price r) stake (fres_fee r) up))
     else r = no_fill)"
proof (cases "rng seed \<le> fp_fill_probability params \<and> 0 < base \<and> base < 1")
  case False
  then have "r = no_fill"
    by (auto simp: r_def base_def simulate_fill_def Let_def)
  with False show ?thesis by (auto simp: no_fill_def)
next
  case True
  let ?slip = "base * fp_slippage_bps params / 10000"
  let ?e = "min (base + ?slip) (99 / 100)"
  have r: "r = \<lparr>fres_filled = True, fres_entry_price = ?e, fres_slippage = ?slip,
      fres_fee = fp_fee_k params * ?e * (1 - ?e) * stake\<rparr>"
    using True by (auto simp: r_def base_def simulate_fill_def Let_def)
  have e: "0 < ?e" "?e \<le> 1" using True assms(1) by (auto simp: min_def add_pos_nonneg)
  have quad: "0 \<le> ?e * (1 - ?e)" "?e * (1 - ?e) \<le> 1 / 4"
    using e parabola_nonneg [of ?e] parabola_le [of ?e] by simp_all
  have fee: "0 \<le> fp_fee_k params * x * stake \<and> fp_fee_k params * x * stake \<le> fp_fee_k params * (1 / 4) * stake"
    if "0 \<le> x" "x \<le> 1 / 4" for x
    using that assms(2,3) by (intro conjI mult_right_mono mult_left_mono mult_nonneg_nonneg)
  have "- stake - f \<le> snd (snd (settle sd ?e stake f up))" for f
    using e assms(3) by (simp add: settle_def Let_def)
  moreover have "?e \<le> 99 / 100" by (rule min.cobounded2)
  ultimately show ?thesis using True e fee [OF quad] by (simp add: r mult.assoc)
qed

text \<open>Fees and rebates are bounded and symmetric. The taker fee of a legal price lies between
  \<open>a\<close> and \<open>a + b\<close>, is the same for a price and its complement and peaks at one half; a maker
  pays nothing; a rebate is never negative, never more than a quarter of the collected fees for
  a volume share of at most one, zero for an unknown or fee-free category, and otherwise at
  least the minimum payout when it is not zero.\<close>

theorem fees_bounded:
  assumes "0 \<le> p" and "p \<le> 1" and "0 \<le> b" and "share \<le> 1" and "0 \<le> fees"
  shows "a \<le> fee_taker p a b \<and> fee_taker p a b \<le> a + b \<and> fee_taker (1 - p) a b = fee_taker p a b \<and>
    fee_taker (1 / 2) a b = a + b \<and> fee_maker p \<le> fee_taker p 0 b \<and>
    (let r = rebate_pool_share share fees c
     in 0 \<le> r \<and> r \<le> fees / 4 \<and> (r \<noteq> 0 \<longrightarrow> MIN_PAYOUT_USDC \<le> r) \<and>
        (category_of c = None \<or> category_of c = Some GEOPOLITICS \<longrightarrow> r = 0))"
proof -
  have q: "0 \<le> b * (p * (1 - p))" using assms parabola_nonneg by simp
  have "4 * (p * (1 - p)) * b \<le> 4 * (1 / 4) * b"
    using parabola_le [of p] assms by (intro mult_right_mono) auto
  then have fee: "a \<le> fee_taker p a b \<and> fee_taker p a b \<le> a + b" "fee_maker p \<le> fee_taker p 0 b"
    using q assms by (simp_all add: fee_taker_def fee_maker_def algebra_simps)
  have sym: "fee_taker (1 - p) a b = fee_taker p a b \<and> fee_taker (1 / 2) a b = a + b"
    using assms by (simp add: fee_taker_def algebra_simps)
  have rate: "0 \<le> REBATE_RATE_BY_CATEGORY cat \<and> REBATE_RATE_BY_CATEGORY cat \<le> 1 / 4" for cat
    by (cases cat) simp_all
  have cap: "rt * fees * share \<le> fees / 4" if "0 \<le> rt" "rt \<le> 1 / 4" "0 < share" for rt
  proof -
    have "rt * fees * share \<le> 1 / 4 * fees * 1"
      using that assms by (intro mult_mono) auto
    then show ?thesis by simp
  qed
  let ?r = "rebate_pool_share share fees c"
  have "0 \<le> ?r \<and> ?r \<le> fees / 4 \<and> (?r \<noteq> 0 \<longrightarrow> MIN_PAYOUT_USDC \<le> ?r) \<and>
      (category_of c = None \<or> category_of c = Some GEOPOLITICS \<longrightarrow> ?r = 0)"
    using assms(5) rate cap
    by (auto simp: rebate_pool_share_def Let_def MIN_PAYOUT_USDC_def split: option.splits)
  with fee sym show ?thesis by (simp add: Let_def)
qed

section \<open>Worked examples\<close>

theorem kelly_bets_on_positive_expectation_witness:
  "0 < kelly_fraction (3 / 5) (1 / 2) \<and>
   0 < 3 / 5 * snd (snd (settle YES_UP (1 / 2) 10 0 True)) + (1 - 3 / 5) * snd (snd (settle YES_UP (1 / 2) 10 0 False))"
proof -
  have "kelly_fraction (3 / 5) (1 / 2) = 1 / 5" by (simp add: kelly_closed_form)
  with kelly_bets_on_positive_expectation [of "1 / 2" 10 "3 / 5"] show ?thesis by simp
qed

theorem stake_in_band_witness:
  "5 \<le> stake_for_trade (7 / 10) (1 / 2) 100 30 default_kelly_config \<and>
   stake_for_trade (7 / 10) (1 / 2) 100 30 default_kelly_config \<le> 15"
  using stake_in_band [of default_kelly_config 100 "7 / 10" "8 / 10" "1 / 2" 30]
  by (simp add: default_kelly_config_def)

theorem simulated_fill_bounds_witness:
  "fres_filled (simulate_fill (\<lambda>_. 1 / 2) YES_UP (3 / 5) (2 / 5) 10 default_fill_params ''s'') \<and>
   fres_entry_price (simulate_fill (\<lambda>_. 1 / 2) YES_UP (3 / 5) (2 / 5) 10 default_fill_params ''s'') \<le> 99 / 100"
proof -
  have "0 \<le> fp_slippage_bps default_fill_params" "0 \<le> fp_fee_k default_fill_params"
    "1 / 2 \<le> fp_fill_probability default_fill_params"
    by (simp_all add: default_fill_params_def)
  then show ?thesis
    using simulated_fill_bounds [of default_fill_params 10 "\<lambda>_. 1 / 2" YES_UP "3 / 5" "2 / 5" "''s''" True]
    by auto
qed

theorem fees_bounded_witness:
  "fee_taker (1 / 4) DEFAULT_FEE_A DEFAULT_FEE_B \<le> DEFAULT_FEE_A + DEFAULT_FEE_B \<and>
   rebate_pool_share (1 / 2) 100 ''crypto'' \<le> 100 / 4"
  using fees_bounded [of "1 / 4" DEFAULT_FEE_B "1 / 2" 100 DEFAULT_FEE_A "''crypto''"]
  by (simp add: DEFAULT_FEE_B_def Let_def)

end
