(* ===== verification/Exec_Client.thy ===== *)
theory Exec_Client
  imports Store Fill_Model
begin

text \<open>
  \<open>paper/exec_client.py\<close>: the simulated execution client of the paper engine. \<open>try_enter\<close> and
  \<open>exec_settle\<close> are its two coroutines, on the tables of theory \<open>Store\<close>. The file system is
  the parameter \<open>exists\<close>, which says of a path whether it is there; the digest of the order id and
  the random draw are parameters as in the other theories. The two insertions of an entry are two transactions:
  the database flags \<open>db_up\<close> and \<open>fills_up\<close> let the first fail, or the second after the first.
\<close>

section \<open>Data\<close>

definition KILL_SWITCH_PATHS :: "string list" where
  "KILL_SWITCH_PATHS = [''/etc/trading-system/KILL_SWITCH'', ''/var/tea/control/KILL_SWITCH'']"

definition STALE_BOOK_SECONDS :: real where
  "STALE_BOOK_SECONDS = 10"

definition LATE_ENTRY_GUARD :: real where
  "LATE_ENTRY_GUARD = 5"

definition LATENCY_MS :: real where
  "LATENCY_MS = 100"

record exec_position =
  ep_market_slug :: string
  ep_condition_id :: string
  ep_side :: side
  ep_entry_ts :: epoch
  ep_entry_price :: real
  ep_stake_usd :: real
  ep_slippage :: real
  ep_fee :: real
  ep_client_order_id :: string
  ep_window_close_ts :: real
  ep_open_price :: real
  ep_strategy_id :: string

record exec_client =
  ec_strategy_id :: string
  ec_fill_params :: fill_params
  ec_sha256_hex :: "string \<Rightarrow> string"
  ec_fmt6 :: "real \<Rightarrow> string"
  ec_rng_random :: "string \<Rightarrow> real"

record entry_request =
  rq_ts :: epoch
  rq_condition_id :: string
  rq_slug :: string
  rq_side :: side
  rq_stake_usd :: real
  rq_pm_yes_ask :: real
  rq_pm_no_ask :: real
  rq_book_last_update_ts :: real
  rq_t_in_window :: real
  rq_latest_entry_t :: real
  rq_window_close_ts :: real
  rq_open_price :: real

definition client_order_id :: "exec_client \<Rightarrow> string \<Rightarrow> string \<Rightarrow> real \<Rightarrow> side \<Rightarrow> string" where
  "client_order_id c strategy slug ts sd =
     take 16 (ec_sha256_hex c (strategy @ ''|'' @ slug @ ''|'' @ ec_fmt6 c ts @ ''|'' @ side_value sd))"

definition kill_switch_active :: "(string \<Rightarrow> bool) \<Rightarrow> bool" where
  "kill_switch_active exists \<longleftrightarrow> list_ex exists KILL_SWITCH_PATHS"

section \<open>Entering\<close>

definition request_coid :: "exec_client \<Rightarrow> entry_request \<Rightarrow> string" where
  "request_coid c q = client_order_id c (ec_strategy_id c) (rq_slug q) (rq_ts q) (rq_side q)"

definition request_fill :: "exec_client \<Rightarrow> entry_request \<Rightarrow> fill_result" where
  "request_fill c q =
     simulate_fill (ec_rng_random c) (rq_side q) (rq_pm_yes_ask q) (rq_pm_no_ask q) (rq_stake_usd q)
       (ec_fill_params c) (request_coid c q)"

definition entry_order_row :: "exec_client \<Rightarrow> entry_request \<Rightarrow> order_row" where
  "entry_order_row c q =
     (let fill = request_fill c q
      in \<lparr>or_order_id = request_coid c q, or_strategy_id = ec_strategy_id c,
          or_instrument_id = rq_slug q @ ''-'' @ (if rq_side q = YES_UP then ''YES'' else ''NO'') @ ''.POLYMARKET'',
          or_side = ''BUY'', or_order_type = ''LIMIT'', or_qty = rq_stake_usd q / fres_entry_price fill,
          or_price = fres_entry_price fill, or_status = ''FILLED'', or_ts_submit = rq_ts q,
          or_ts_last_update = rq_ts q + LATENCY_MS / 1000, or_mode = ''paper'', or_backtest_id = None,
          or_metadata = []\<rparr>)"

definition entry_fill_row :: "exec_client \<Rightarrow> entry_request \<Rightarrow> fill_row" where
  "entry_fill_row c q =
     (let fill = request_fill c q
      in \<lparr>fr_fill_id = request_coid c q @ ''-fill'', fr_order_id = request_coid c q,
          fr_ts = rq_ts q + LATENCY_MS / 1000, fr_price = fres_entry_price fill,
          fr_qty = rq_stake_usd q / fres_entry_price fill, fr_liquidity_side = ''TAKER'',
          fr_fee = fres_fee fill, fr_fee_currency = ''USDC'', fr_mode = ''paper'',
          fr_backtest_id = None, fr_metadata = [(''kind'', JStr ''entry'')]\<rparr>)"

definition entry_position :: "exec_client \<Rightarrow> entry_request \<Rightarrow> exec_position" where
  "entry_position c q =
     (let fill = request_fill c q
      in \<lparr>ep_market_slug = rq_slug q, ep_condition_id = rq_condition_id q, ep_side = rq_side q,
          ep_entry_ts = rq_ts q, ep_entry_price = fres_entry_price fill, ep_stake_usd = rq_stake_usd q,
          ep_slippage = fres_slippage fill, ep_fee = fres_fee fill, ep_client_order_id = request_coid c q,
          ep_window_close_ts = rq_window_close_ts q, ep_open_price = rq_open_price q,
          ep_strategy_id = ec_strategy_id c\<rparr>)"

definition try_enter ::
  "(string \<Rightarrow> bool) \<Rightarrow> exec_client \<Rightarrow> entry_request \<Rightarrow> trading_db \<Rightarrow> exec_position option \<times> trading_db" where
  "try_enter exists c q db =
     (if kill_switch_active exists then (None, db)
      else if rq_t_in_window q > rq_latest_entry_t q - LATE_ENTRY_GUARD then (None, db)
      else if rq_ts q - rq_book_last_update_ts q > STALE_BOOK_SECONDS then (None, db)
      else if \<not> fres_filled (request_fill c q) then (None, db)
      else if \<not> db_up db then (None, db)
      else (let db1 = db\<lparr>orders_tbl := upsert_many order_key [entry_order_row c q] (orders_tbl db)\<rparr>
            in if \<not> fills_up db1 then (None, db1)
               else (Some (entry_position c q),
                     db1\<lparr>fills_tbl := upsert_many fill_key [entry_fill_row c q] (fills_tbl db1)\<rparr>)))"

section \<open>Settling\<close>

definition exit_fill_row :: "exec_position \<Rightarrow> real \<Rightarrow> string \<times> real \<times> real \<Rightarrow> fill_row" where
  "exit_fill_row pos settle_ts = (\<lambda>(resolution, exit_price, pnl).
     \<lparr>fr_fill_id = ep_client_order_id pos @ ''-exit'', fr_order_id = ep_client_order_id pos,
      fr_ts = settle_ts, fr_price = exit_price,
      fr_qty = ep_stake_usd pos / max (ep_entry_price pos) (1 / 10 ^ 9), fr_liquidity_side = ''TAKER'',
      fr_fee = 0, fr_fee_currency = ''USDC'', fr_mode = ''paper'', fr_backtest_id = None,
      fr_metadata = [(''kind'', JStr ''settle''), (''resolution'', JStr resolution), (''pnl'', JNum pnl)]\<rparr>)"

definition exec_settle ::
  "exec_position \<Rightarrow> real \<Rightarrow> real \<Rightarrow> bool \<Rightarrow> trading_db \<Rightarrow> (string \<times> real \<times> real) \<times> trading_db" where
  "exec_settle pos settle_ts price outcome_went_up db =
     (let r = settle (ep_side pos) (ep_entry_price pos) (ep_stake_usd pos) 0 outcome_went_up
      in (r, if db_up db \<and> fills_up db
             then db\<lparr>fills_tbl := upsert_many fill_key [exit_fill_row pos settle_ts r] (fills_tbl db)\<rparr>
             else db))"

section \<open>What the client promises\<close>

lemma try_enter_Some_iff:
  "fst (try_enter exists c q db) = Some pos \<longleftrightarrow>
     \<not> kill_switch_active exists \<and> rq_t_in_window q \<le> rq_latest_entry_t q - LATE_ENTRY_GUARD \<and>
     rq_ts q - rq_book_last_update_ts q \<le> STALE_BOOK_SECONDS \<and> fres_filled (request_fill c q) \<and>
     db_up db \<and> fills_up db \<and> pos = entry_position c q"
  by (auto simp: try_enter_def Let_def)

lemma try_enter_Some_db:
  assumes "try_enter exists c q db = (Some pos, db')"
  shows "db' = db\<lparr>orders_tbl := upsert_many order_key [entry_order_row c q] (orders_tbl db),
      fills_tbl := upsert_many fill_key [entry_fill_row c q] (fills_tbl db)\<rparr>"
proof -
  have "fst (try_enter exists c q db) = Some pos" using assms by simp
  then show ?thesis
    using assms unfolding try_enter_Some_iff by (auto simp: try_enter_def Let_def)
qed

text \<open>The guards an entry passes before anything is written.\<close>

definition entry_guards :: "(string \<Rightarrow> bool) \<Rightarrow> exec_client \<Rightarrow> entry_request \<Rightarrow> bool" where
  "entry_guards exists c q \<longleftrightarrow>
     \<not> exists ''/etc/trading-system/KILL_SWITCH'' \<and> \<not> exists ''/var/tea/control/KILL_SWITCH'' \<and>
     rq_t_in_window q + 5 \<le> rq_latest_entry_t q \<and> rq_ts q - rq_book_last_update_ts q \<le> 10 \<and> fres_filled (request_fill c q)"

lemma try_enter_cases:
  "try_enter exists c q db =
     (if \<not> entry_guards exists c q \<or> \<not> db_up db then (None, db)
      else if \<not> fills_up db then (None, db\<lparr>orders_tbl := upsert_many order_key [entry_order_row c q] (orders_tbl db)\<rparr>)
      else (Some (entry_position c q),
            db\<lparr>orders_tbl := upsert_many order_key [entry_order_row c q] (orders_tbl db),
               fills_tbl := upsert_many fill_key [entry_fill_row c q] (fills_tbl db)\<rparr>))"
  by (auto simp: try_enter_def entry_guards_def kill_switch_active_def KILL_SWITCH_PATHS_def LATE_ENTRY_GUARD_def
      STALE_BOOK_SECONDS_def Let_def)

lemma upsert_new_row:
  "key r \<notin> key ` set tbl \<Longrightarrow> r \<in> set (upsert_many key [r] tbl)"
  by simp

text \<open>C25. Entering is guarded and idempotent, but not atomic. A position is returned exactly when both kill switch files
  are absent, the tick is at least five seconds before the last entry second, the book is at most ten seconds old, the simulated fill happened and
  both insertions succeed; then the order row and the fill row are in the tables (as new rows where their keys were free).
  Without a position no fill is stored; the orders change in one case only, when every guard let the entry pass and just
  the second insertion failed: the order then stands as \<open>FILLED\<close> without a fill and without a position. Whatever happened, repeating the
  same request stores nothing more while the database stays as it is, and once the fills are written again the repetition completes a half-stored entry.\<close>

theorem entry_guarded_and_idempotent:
  assumes run: "try_enter exists c q db = (res, db')"
  shows "(res \<noteq> None \<longleftrightarrow> entry_guards exists c q \<and> db_up db \<and> fills_up db) \<and>
    (res \<noteq> None \<longrightarrow>
      \<not> exists ''/etc/trading-system/KILL_SWITCH'' \<and> \<not> exists ''/var/tea/control/KILL_SWITCH'' \<and>
      rq_t_in_window q + 5 \<le> rq_latest_entry_t q \<and> rq_ts q - rq_book_last_update_ts q \<le> 10 \<and>
      fres_filled (request_fill c q) \<and>
      order_key (entry_order_row c q) \<in> order_key ` set (orders_tbl db') \<and>
      fill_key (entry_fill_row c q) \<in> fill_key ` set (fills_tbl db') \<and>
      (order_key (entry_order_row c q) \<notin> order_key ` set (orders_tbl db) \<longrightarrow> orders_tbl db' = orders_tbl db @ [entry_order_row c q]) \<and>
      (fill_key (entry_fill_row c q) \<notin> fill_key ` set (fills_tbl db) \<longrightarrow> fills_tbl db' = fills_tbl db @ [entry_fill_row c q])) \<and>
    (res = None \<longrightarrow> fills_tbl db' = fills_tbl db \<and>
      (if entry_guards exists c q \<and> db_up db
       then orders_tbl db' = upsert_many order_key [entry_order_row c q] (orders_tbl db) \<and> or_status (entry_order_row c q) = ''FILLED''
       else db' = db)) \<and>
    try_enter exists c q db' = (res, db') \<and>
    (entry_guards exists c q \<and> db_up db \<longrightarrow>
      try_enter exists c q (db'\<lparr>fills_up := True\<rparr>) =
        (Some (entry_position c q), snd (try_enter exists c q (db\<lparr>fills_up := True\<rparr>))))"
proof -
  define os where "os = upsert_many order_key [entry_order_row c q] (orders_tbl db)"
  define fs where "fs = upsert_many fill_key [entry_fill_row c q] (fills_tbl db)"
  have rows: "order_key (entry_order_row c q) \<in> order_key ` set os" "fill_key (entry_fill_row c q) \<in> fill_key ` set fs"
    "order_key (entry_order_row c q) \<notin> order_key ` set (orders_tbl db) \<longrightarrow> os = orders_tbl db @ [entry_order_row c q]"
    "fill_key (entry_fill_row c q) \<notin> fill_key ` set (fills_tbl db) \<longrightarrow> fs = fills_tbl db @ [entry_fill_row c q]"
    "upsert_many order_key [entry_order_row c q] os = os" "upsert_many fill_key [entry_fill_row c q] fs = fs"
    unfolding os_def fs_def by (simp_all add: upsert_many_idem upsert_many_keys del: upsert_many.simps) simp_all
  note cases = try_enter_cases [of exists c q, folded os_def fs_def]
  have filled: "or_status (entry_order_row c q) = ''FILLED''" by (simp add: entry_order_row_def Let_def)
  consider (refused) "\<not> (entry_guards exists c q \<and> db_up db)" | (half) "entry_guards exists c q" "db_up db" "\<not> fills_up db"
    | (stored) "entry_guards exists c q" "db_up db" "fills_up db" by blast
  then show ?thesis
  proof cases
    case refused
    with run have r: "res = None" "db' = db" by (auto simp: try_enter_cases)
    with refused run show ?thesis by (auto simp del: upsert_many.simps)
  next
    case half
    with run have r: "res = None" "db' = db\<lparr>orders_tbl := os\<rparr>" by (auto simp: try_enter_cases os_def)
    have "try_enter exists c q db' = (res, db')"
      using half by (simp add: try_enter_cases r rows(5) del: upsert_many.simps)
    moreover have "try_enter exists c q (db'\<lparr>fills_up := True\<rparr>) = (Some (entry_position c q), snd (try_enter exists c q (db\<lparr>fills_up := True\<rparr>)))"
      using half by (simp add: try_enter_cases r rows(5) flip: os_def fs_def del: upsert_many.simps)
    ultimately show ?thesis using half filled r os_def by simp
  next
    case stored
    with run have r: "res = Some (entry_position c q)" "db' = db\<lparr>orders_tbl := os, fills_tbl := fs\<rparr>"
      by (auto simp: try_enter_cases os_def fs_def)
    have again: "try_enter exists c q db' = (res, db')"
      using stored by (simp add: try_enter_cases r rows(5,6) del: upsert_many.simps)
    have same: "db\<lparr>fills_up := True\<rparr> = db" "db'\<lparr>fills_up := True\<rparr> = db'" using stored(3) r(2) by simp_all
    show ?thesis
      using stored again run r rows(1-4) unfolding same by (simp add: entry_guards_def)
  qed
qed

text \<open>The settlement of a paper position ignores the entry fee: its result is the binary payoff
  without fee, exactly the fee more than the result \<open>settle\<close> computes with it, although the
  fee is stored with the entry fill.\<close>

theorem exec_settle_omits_fee:
  assumes "0 < ep_entry_price pos"
  shows "snd (snd (fst (exec_settle pos t px up db))) =
      snd (snd (settle (ep_side pos) (ep_entry_price pos) (ep_stake_usd pos) (ep_fee pos) up)) + ep_fee pos \<and>
    (db_up db \<and> fills_up db \<longrightarrow> (\<exists>r \<in> set (fills_tbl (snd (exec_settle pos t px up db))).
       fill_key r = (ep_client_order_id pos @ ''-exit'', t)))"
  using assms by (auto simp: exec_settle_def settle_def exit_fill_row_def fill_key_def Let_def)

section \<open>Worked examples\<close>

definition ex_client :: exec_client where
  "ex_client = \<lparr>ec_strategy_id = ''s'', ec_fill_params = default_fill_params, ec_sha256_hex = id,
     ec_fmt6 = (\<lambda>_. []), ec_rng_random = (\<lambda>_. 0)\<rparr>"

definition ex_request :: entry_request where
  "ex_request = \<lparr>rq_ts = 100, rq_condition_id = ''c'', rq_slug = ''m'', rq_side = YES_UP, rq_stake_usd = 10,
     rq_pm_yes_ask = 1 / 2, rq_pm_no_ask = 1 / 2, rq_book_last_update_ts = 99, rq_t_in_window = 150,
     rq_latest_entry_t = 240, rq_window_close_ts = 300, rq_open_price = 100\<rparr>"

definition empty_db :: trading_db where
  "empty_db = \<lparr>orders_tbl = [], fills_tbl = [], db_up = True, fills_up = True\<rparr>"

lemma ex_filled: "fres_filled (request_fill ex_client ex_request)"
  by (simp add: request_fill_def simulate_fill_def ex_client_def ex_request_def default_fill_params_def Let_def)

theorem entry_guarded_and_idempotent_witness:
  "fst (try_enter (\<lambda>_. False) ex_client ex_request empty_db) \<noteq> None \<and>
   try_enter (\<lambda>_. False) ex_client ex_request (snd (try_enter (\<lambda>_. False) ex_client ex_request empty_db))
     = try_enter (\<lambda>_. False) ex_client ex_request empty_db \<and>
   fst (try_enter (\<lambda>_. False) ex_client ex_request (empty_db\<lparr>fills_up := False\<rparr>)) = None \<and>
   orders_tbl (snd (try_enter (\<lambda>_. False) ex_client ex_request (empty_db\<lparr>fills_up := False\<rparr>))) = [entry_order_row ex_client ex_request]"
proof -
  let ?e = "try_enter (\<lambda>_. False) ex_client ex_request"
  have run: "?e db = (fst (?e db), snd (?e db))" for db by simp
  have guards: "entry_guards (\<lambda>_. False) ex_client ex_request"
    using ex_filled by (simp add: entry_guards_def ex_request_def)
  show ?thesis
    using entry_guarded_and_idempotent [OF run [of empty_db]] entry_guarded_and_idempotent [OF run [of "empty_db\<lparr>fills_up := False\<rparr>"]] guards
    by (simp add: empty_db_def)
qed

theorem exec_settle_omits_fee_witness:
  "snd (snd (fst (exec_settle (entry_position ex_client ex_request) 300 101 True empty_db))) =
     snd (snd (settle YES_UP (ep_entry_price (entry_position ex_client ex_request)) 10 (ep_fee (entry_position ex_client ex_request)) True))
     + ep_fee (entry_position ex_client ex_request)"
proof -
  have "0 < ep_entry_price (entry_position ex_client ex_request)"
    by (simp add: entry_position_def request_fill_def simulate_fill_def ex_client_def ex_request_def default_fill_params_def Let_def)
  from exec_settle_omits_fee [OF this] show ?thesis
    by (simp add: entry_position_def ex_request_def Let_def)
qed

end
