(* ===== verification/Risk.thy ===== *)
theory Risk
  imports Types
begin

text \<open>
  \<open>engine/risk.py\<close>: the gate every entry of a directional strategy passes. \<open>risk_manager\<close> is
  the configuration \<open>RiskManager.__init__\<close> reads, \<open>risk_state\<close> the dataclass \<open>RiskState\<close>.
  \<open>can_enter\<close> and \<open>on_trade_closed\<close> are the two operations; both first roll the UTC day. The
  day key, a formatted date in the code, is the number of the day.
\<close>

section \<open>State and configuration\<close>

datatype trip = NoTrip | DailyLossHit real

datatype pause_cause = NoPause | RollingLoss real

record risk_state =
  rs_cooldown_until :: real
  rs_daily_pnl :: real
  rs_daily_trades :: int
  rs_day_key :: int
  rs_circuit_breaker_tripped :: bool
  rs_trip_reason :: trip
  rs_recent_pnls :: "(real \<times> real) list"
  rs_pause_until :: real
  rs_pause_reason :: pause_cause

record risk_manager =
  rm_cooldown_seconds :: int
  rm_max_size :: real
  rm_daily_loss_limit :: real
  rm_daily_trade_limit :: int
  rm_min_edge_bps :: real
  rm_min_z_score :: real
  rm_min_depth :: real
  rm_max_spread :: real
  rm_loss_pause_threshold :: real
  rm_loss_pause_window_s :: int
  rm_loss_pause_duration_s :: int
  rm_state :: risk_state

definition today_of :: "real \<Rightarrow> int" where
  "today_of t = \<lfloor>t / 86400\<rfloor>"

definition new_risk_state :: "int \<Rightarrow> risk_state" where
  "new_risk_state day =
     \<lparr>rs_cooldown_until = 0, rs_daily_pnl = 0, rs_daily_trades = 0, rs_day_key = day,
      rs_circuit_breaker_tripped = False, rs_trip_reason = NoTrip, rs_recent_pnls = [],
      rs_pause_until = 0, rs_pause_reason = NoPause\<rparr>"

definition risk_keys :: "string list" where
  "risk_keys =
     [''cooldown_seconds'', ''max_position_size_usd'', ''daily_loss_limit_usd'',
      ''daily_trade_limit'', ''min_edge_bps'', ''min_z_score'', ''min_pm_depth_usd'',
      ''skip_if_spread_bps'']"

definition new_risk_manager :: "(string, real) dict \<Rightarrow> py_error + risk_manager" where
  "new_risk_manager r =
     bind_r (cfg_reads r risk_keys) (\<lambda>vs. Inr
       \<lparr>rm_cooldown_seconds = py_int (vs ! 0), rm_max_size = vs ! 1, rm_daily_loss_limit = vs ! 2,
        rm_daily_trade_limit = py_int (vs ! 3), rm_min_edge_bps = vs ! 4, rm_min_z_score = vs ! 5,
        rm_min_depth = vs ! 6, rm_max_spread = vs ! 7,
        rm_loss_pause_threshold = dict_getd r ''loss_pause_threshold_usd'' 0,
        rm_loss_pause_window_s = py_int (dict_getd r ''loss_pause_window_minutes'' 30) * 60,
        rm_loss_pause_duration_s = py_int (dict_getd r ''loss_pause_duration_minutes'' 30) * 60,
        rm_state = new_risk_state (today_of 0)\<rparr>)"

section \<open>Operations\<close>

definition roll_day :: "real \<Rightarrow> risk_manager \<Rightarrow> risk_manager" where
  "roll_day now m =
     (let today = today_of now
      in if today \<noteq> rs_day_key (rm_state m) then m\<lparr>rm_state := new_risk_state today\<rparr> else m)"

datatype verdict =
    Ok
  | CircuitBreaker trip
  | CoolOff int pause_cause
  | Cooldown int
  | DailyTradeLimit int
  | DailyLossLimit trip
  | SpreadTooWide real
  | DepthLow real real
  | ZScoreLow real real
  | EdgeLow real

definition can_enter ::
  "'a tick_core_scheme \<Rightarrow> risk_manager \<Rightarrow> (bool \<times> verdict) \<times> risk_manager" where
  "can_enter ctx m0 =
     (let now = tc_ts ctx; m = roll_day now m0; s = rm_state m
      in if rs_circuit_breaker_tripped s then ((False, CircuitBreaker (rs_trip_reason s)), m)
         else if now < rs_pause_until s
         then ((False, CoolOff (py_int (rs_pause_until s - now)) (rs_pause_reason s)), m)
         else if now < rs_cooldown_until s
         then ((False, Cooldown (py_int (rs_cooldown_until s - now))), m)
         else if rs_daily_trades s \<ge> rm_daily_trade_limit m
         then ((False, DailyTradeLimit (rm_daily_trade_limit m)), m)
         else if rs_daily_pnl s \<le> - rm_daily_loss_limit m
         then (let reason = DailyLossHit (rs_daily_pnl s)
               in ((False, DailyLossLimit reason),
                   m\<lparr>rm_state := s\<lparr>rs_circuit_breaker_tripped := True, rs_trip_reason := reason\<rparr>\<rparr>))
         else if tc_pm_spread_bps ctx > rm_max_spread m
         then ((False, SpreadTooWide (tc_pm_spread_bps ctx)), m)
         else (let depth_needed = min (tc_pm_depth_yes ctx) (tc_pm_depth_no ctx)
               in if depth_needed < rm_min_depth m then ((False, DepthLow depth_needed (rm_min_depth m)), m)
                  else if \<bar>tc_z_score ctx\<bar> < rm_min_z_score m
                  then ((False, ZScoreLow (tc_z_score ctx) (rm_min_z_score m)), m)
                  else if \<bar>tc_edge ctx\<bar> * 10000 < rm_min_edge_bps m
                  then ((False, EdgeLow (\<bar>tc_edge ctx\<bar> * 10000)), m)
                  else ((True, Ok), m)))"

text \<open>The bookkeeping of the rolling window, the branch \<open>loss_pause_threshold > 0\<close>.\<close>

definition gc_pnls :: "real \<Rightarrow> (real \<times> real) list \<Rightarrow> (real \<times> real) list" where
  "gc_pnls cutoff = popleft_while (\<lambda>e. fst e < cutoff)"

definition roll_window :: "risk_manager \<Rightarrow> real \<Rightarrow> real \<Rightarrow> risk_state \<Rightarrow> risk_state" where
  "roll_window m pnl now s =
     (let q = gc_pnls (now - of_int (rm_loss_pause_window_s m)) (rs_recent_pnls s @ [(now, pnl)]);
          window_pnl = sum_list (map snd q)
      in if window_pnl \<le> - rm_loss_pause_threshold m
         then s\<lparr>rs_recent_pnls := [], rs_pause_until := now + of_int (rm_loss_pause_duration_s m),
                rs_pause_reason := RollingLoss window_pnl\<rparr>
         else s\<lparr>rs_recent_pnls := q\<rparr>)"

definition on_trade_closed :: "real \<Rightarrow> real \<Rightarrow> risk_manager \<Rightarrow> risk_manager" where
  "on_trade_closed pnl now m0 =
     (let m = roll_day now m0;
          s = (rm_state m)\<lparr>rs_daily_pnl := rs_daily_pnl (rm_state m) + pnl,
                rs_daily_trades := rs_daily_trades (rm_state m) + 1,
                rs_cooldown_until := now + of_int (rm_cooldown_seconds m)\<rparr>
      in m\<lparr>rm_state := (if rm_loss_pause_threshold m > 0 then roll_window m pnl now s else s)\<rparr>)"

section \<open>A history of checks and closed trades\<close>

datatype risk_event = Check tick_core | Closed real real

fun risk_time :: "risk_event \<Rightarrow> real" where
  "risk_time (Check ctx) = tc_ts ctx"
| "risk_time (Closed pnl now) = now"

fun risk_step :: "risk_event \<Rightarrow> risk_manager \<Rightarrow> risk_manager" where
  "risk_step (Check ctx) m = snd (can_enter ctx m)"
| "risk_step (Closed pnl now) m = on_trade_closed pnl now m"

text \<open>The closed trades of one UTC day, as (time, profit) pairs.\<close>

fun closes :: "risk_event list \<Rightarrow> (real \<times> real) list" where
  "closes [] = []"
| "closes (Check ctx # es) = closes es"
| "closes (Closed pnl now # es) = (now, pnl) # closes es"

definition closes_on :: "int \<Rightarrow> risk_event list \<Rightarrow> (real \<times> real) list" where
  "closes_on d es = filter (\<lambda>c. today_of (fst c) = d) (closes es)"

lemma closes_append [simp]: "closes (es @ es') = closes es @ closes es'"
  by (induction es rule: closes.induct) auto

lemma closes_times: "c \<in> set (closes es) \<Longrightarrow> \<exists>e \<in> set es. risk_time e = fst c"
  by (induction es rule: closes.induct) auto

lemma today_of_mono: "t \<le> t' \<Longrightarrow> today_of t \<le> today_of t'"
  by (simp add: today_of_def floor_mono divide_right_mono)

subsection \<open>What an operation keeps\<close>

definition same_limits :: "risk_manager \<Rightarrow> risk_manager \<Rightarrow> bool" where
  "same_limits m m' \<longleftrightarrow> m'\<lparr>rm_state := rm_state m\<rparr> = m"

lemma same_limits_refl [simp]: "same_limits m m"
  by (simp add: same_limits_def)

lemma same_limits_trans: "same_limits m m' \<Longrightarrow> same_limits m' m'' \<Longrightarrow> same_limits m m''"
  by (cases m; cases m'; cases m'') (simp add: same_limits_def)

lemma same_limitsD:
  assumes "same_limits m m'"
  shows "rm_cooldown_seconds m' = rm_cooldown_seconds m" "rm_daily_loss_limit m' = rm_daily_loss_limit m"
    "rm_daily_trade_limit m' = rm_daily_trade_limit m" "rm_min_edge_bps m' = rm_min_edge_bps m"
    "rm_min_z_score m' = rm_min_z_score m" "rm_min_depth m' = rm_min_depth m"
    "rm_max_spread m' = rm_max_spread m" "rm_loss_pause_threshold m' = rm_loss_pause_threshold m"
    "rm_loss_pause_window_s m' = rm_loss_pause_window_s m"
    "rm_loss_pause_duration_s m' = rm_loss_pause_duration_s m"
  using assms by (cases m; cases m'; simp add: same_limits_def)+

lemma roll_day_limits [simp]: "same_limits m (roll_day now m)"
  by (simp add: roll_day_def same_limits_def Let_def)

lemma can_enter_limits: "same_limits m (snd (can_enter ctx m))"
  using roll_day_limits [of m "tc_ts ctx"] by (auto simp: can_enter_def Let_def same_limits_def)

lemma risk_step_limits: "same_limits m (risk_step e m)"
proof (cases e)
  case (Check ctx)
  then show ?thesis by (simp add: can_enter_limits)
next
  case (Closed pnl now)
  then show ?thesis
    using roll_day_limits [of m now] by (auto simp: on_trade_closed_def Let_def same_limits_def)
qed

lemma risk_run_limits: "same_limits m (fold risk_step es m)"
  by (induction es arbitrary: m) (auto intro: same_limits_trans risk_step_limits)

lemma roll_day_key [simp]: "rs_day_key (rm_state (roll_day now m)) = today_of now"
  by (simp add: roll_day_def new_risk_state_def Let_def)

lemma roll_day_same [simp]: "today_of now = rs_day_key (rm_state m) \<Longrightarrow> roll_day now m = m"
  by (simp add: roll_day_def)

text \<open>A check changes the day and the breaker only.\<close>

lemma can_enter_ledger [simp]:
  "rs_daily_pnl (rm_state (snd (can_enter ctx m))) = rs_daily_pnl (rm_state (roll_day (tc_ts ctx) m))"
  "rs_daily_trades (rm_state (snd (can_enter ctx m))) = rs_daily_trades (rm_state (roll_day (tc_ts ctx) m))"
  "rs_cooldown_until (rm_state (snd (can_enter ctx m))) = rs_cooldown_until (rm_state (roll_day (tc_ts ctx) m))"
  "rs_pause_until (rm_state (snd (can_enter ctx m))) = rs_pause_until (rm_state (roll_day (tc_ts ctx) m))"
  "rs_day_key (rm_state (snd (can_enter ctx m))) = today_of (tc_ts ctx)"
  "rs_recent_pnls (rm_state (snd (can_enter ctx m))) = rs_recent_pnls (rm_state (roll_day (tc_ts ctx) m))"
  by (simp_all add: can_enter_def Let_def)

lemma roll_window_ledger [simp]:
  "rs_daily_pnl (roll_window m pnl now s) = rs_daily_pnl s"
  "rs_daily_trades (roll_window m pnl now s) = rs_daily_trades s"
  "rs_cooldown_until (roll_window m pnl now s) = rs_cooldown_until s"
  "rs_day_key (roll_window m pnl now s) = rs_day_key s"
  "rs_circuit_breaker_tripped (roll_window m pnl now s) = rs_circuit_breaker_tripped s"
  by (simp_all add: roll_window_def Let_def)

lemma on_trade_closed_ledger [simp]:
  "rs_daily_pnl (rm_state (on_trade_closed pnl now m)) = rs_daily_pnl (rm_state (roll_day now m)) + pnl"
  "rs_daily_trades (rm_state (on_trade_closed pnl now m)) = rs_daily_trades (rm_state (roll_day now m)) + 1"
  "rs_cooldown_until (rm_state (on_trade_closed pnl now m)) = now + of_int (rm_cooldown_seconds m)"
  "rs_day_key (rm_state (on_trade_closed pnl now m)) = today_of now"
  "rs_circuit_breaker_tripped (rm_state (on_trade_closed pnl now m))
     = rs_circuit_breaker_tripped (rm_state (roll_day now m))"
  using same_limitsD(1) [OF roll_day_limits [of m now]]
  by (simp_all add: on_trade_closed_def Let_def)

section \<open>The daily ledger\<close>

text \<open>
  The abstract state of the manager is its history: the trades closed on the current day.
\<close>

definition ledger_inv :: "risk_event list \<Rightarrow> risk_manager \<Rightarrow> bool" where
  "ledger_inv es m \<longleftrightarrow>
     (let s = rm_state m; today = closes_on (rs_day_key s) es
      in (es \<noteq> [] \<longrightarrow> rs_day_key s = today_of (risk_time (last es))) \<and>
         rs_daily_pnl s = sum_list (map snd today) \<and>
         rs_daily_trades s = int (length today) \<and>
         (\<forall>c \<in> set today. fst c + of_int (rm_cooldown_seconds m) \<le> rs_cooldown_until s))"

lemma closes_on_later_day:
  assumes "sorted (map risk_time (es @ [e]))" "es \<noteq> []"
    and "today_of (risk_time (last es)) \<noteq> today_of (risk_time e)"
  shows "closes_on (today_of (risk_time e)) es = []"
proof -
  have last: "risk_time (last es) \<le> risk_time e"
    using assms(1,2) by (simp add: sorted_append)
  have "today_of (fst c) < today_of (risk_time e)" if c: "c \<in> set (closes es)" for c
  proof -
    obtain e' where e': "e' \<in> set es" "risk_time e' = fst c" using closes_times [OF c] by blast
    have "sorted (map risk_time es)" using assms(1) by (simp add: sorted_append)
    then have "risk_time e' \<le> last (map risk_time es)"
      by (rule sorted_le_last) (use e' in force)
    with e' assms(2) have "fst c \<le> risk_time (last es)" by (simp add: last_map)
    from today_of_mono [OF this] today_of_mono [OF last] assms(3) show ?thesis by linarith
  qed
  then show ?thesis by (force simp: closes_on_def filter_empty_conv)
qed

lemma ledger_rolled:
  assumes "ledger_inv es m" "sorted (map risk_time (es @ [e]))"
  defines "s \<equiv> rm_state (roll_day (risk_time e) m)"
    and "today \<equiv> closes_on (today_of (risk_time e)) es"
  shows "rs_daily_pnl s = sum_list (map snd today) \<and> rs_daily_trades s = int (length today) \<and>
    (\<forall>c \<in> set today. fst c + of_int (rm_cooldown_seconds m) \<le> rs_cooldown_until s)"
proof (cases "today_of (risk_time e) = rs_day_key (rm_state m)")
  case True
  with assms(1) show ?thesis by (simp add: ledger_inv_def s_def today_def Let_def)
next
  case False
  have "today = []"
  proof (cases "es = []")
    case True
    then show ?thesis by (simp add: today_def closes_on_def)
  next
    case es: False
    with assms(1) False show ?thesis
      unfolding today_def by (intro closes_on_later_day assms(2)) (auto simp: ledger_inv_def Let_def)
  qed
  moreover have "s = new_risk_state (today_of (risk_time e))"
    using False by (simp add: s_def roll_day_def Let_def)
  ultimately show ?thesis by (simp add: new_risk_state_def)
qed

lemma ledger_step:
  assumes "ledger_inv es m" "sorted (map risk_time (es @ [e]))"
  shows "ledger_inv (es @ [e]) (risk_step e m)"
proof (cases e)
  case (Check ctx)
  with ledger_rolled [OF assms] same_limitsD(1) [OF risk_step_limits [of m e]] show ?thesis
    by (simp add: ledger_inv_def Let_def closes_on_def)
next
  case (Closed pnl now)
  have "fst c \<le> now" if "c \<in> set (closes es)" for c
    using closes_times [OF that] assms(2) Closed by (auto simp: sorted_append)
  with Closed ledger_rolled [OF assms] same_limitsD(1) [OF risk_step_limits [of m e]] show ?thesis
    by (auto simp: ledger_inv_def Let_def closes_on_def)
qed

lemma ledger_init: "new_risk_manager r = Inr m \<Longrightarrow> ledger_inv [] m"
  by (auto simp: new_risk_manager_def bind_r_eq_Inr ledger_inv_def new_risk_state_def closes_on_def Let_def)

lemma ledger_run:
  assumes "new_risk_manager r = Inr m" "sorted (map risk_time es)"
  shows "ledger_inv es (fold risk_step es m)"
  using assms(2)
proof (induction es rule: rev_induct)
  case Nil
  with ledger_init [OF assms(1)] show ?case by simp
next
  case (snoc e es)
  then have "ledger_inv es (fold risk_step es m)" by (simp add: sorted_append)
  from ledger_step [OF this snoc.prems] show ?case by simp
qed

text \<open>When a check lets a trade through, every gate of the source was open.\<close>

lemma can_enter_ok_iff:
  "fst (fst (can_enter ctx m)) \<longleftrightarrow>
     (let m' = roll_day (tc_ts ctx) m; s = rm_state m'
      in \<not> rs_circuit_breaker_tripped s \<and> rs_pause_until s \<le> tc_ts ctx \<and>
         rs_cooldown_until s \<le> tc_ts ctx \<and> rs_daily_trades s < rm_daily_trade_limit m \<and>
         - rm_daily_loss_limit m < rs_daily_pnl s \<and> tc_pm_spread_bps ctx \<le> rm_max_spread m \<and>
         rm_min_depth m \<le> min (tc_pm_depth_yes ctx) (tc_pm_depth_no ctx) \<and>
         rm_min_z_score m \<le> \<bar>tc_z_score ctx\<bar> \<and> rm_min_edge_bps m \<le> \<bar>tc_edge ctx\<bar> * 10000)"
  using same_limitsD [OF roll_day_limits [of m "tc_ts ctx"]]
  by (auto simp: can_enter_def Let_def not_less not_le)

lemma admitted_history:
  assumes "new_risk_manager r = Inr m" "sorted (map risk_time (es @ [Check ctx]))"
    and "fst (fst (can_enter ctx (fold risk_step es m)))"
  defines "today \<equiv> closes_on (today_of (tc_ts ctx)) es"
  shows "int (length today) < rm_daily_trade_limit m" "- rm_daily_loss_limit m < sum_list (map snd today)"
    "\<forall>c \<in> set today. fst c + of_int (rm_cooldown_seconds m) \<le> tc_ts ctx"
proof -
  have "sorted (map risk_time es)" using assms(2) by (simp add: sorted_append)
  note facts = ledger_rolled [OF ledger_run [OF assms(1) this] assms(2)]
    assms(3) [unfolded can_enter_ok_iff] same_limitsD [OF risk_run_limits [of m es]]
  show "int (length today) < rm_daily_trade_limit m" "- rm_daily_loss_limit m < sum_list (map snd today)"
    "\<forall>c \<in> set today. fst c + of_int (rm_cooldown_seconds m) \<le> tc_ts ctx"
    using facts by (auto simp: Let_def today_def)
qed

section \<open>What the manager promises\<close>

text \<open>C5. Admission. After any history of checks and closed trades in time order, a trade is let
  through only when fewer trades than the daily limit were closed that UTC day, their total
  profit is above minus the daily loss limit, each of them closed at least the cooldown ago,
  and spread, depth, z-score and edge of the tick pass their thresholds.\<close>

theorem entry_admission_sound:
  assumes "new_risk_manager r = Inr m" and "sorted (map risk_time (es @ [Check ctx]))"
    and "fst (fst (can_enter ctx (fold risk_step es m)))"
  shows "let today = closes_on (today_of (tc_ts ctx)) es
    in int (length today) < rm_daily_trade_limit m \<and>
       - rm_daily_loss_limit m < sum_list (map snd today) \<and>
       (\<forall>(t, pnl) \<in> set today. t + of_int (rm_cooldown_seconds m) \<le> tc_ts ctx) \<and>
       tc_pm_spread_bps ctx \<le> rm_max_spread m \<and>
       rm_min_depth m \<le> tc_pm_depth_yes ctx \<and> rm_min_depth m \<le> tc_pm_depth_no ctx \<and>
       rm_min_z_score m \<le> \<bar>tc_z_score ctx\<bar> \<and> rm_min_edge_bps m \<le> \<bar>tc_edge ctx\<bar> * 10000"
  using admitted_history [OF assms] assms(3) [unfolded can_enter_ok_iff]
    same_limitsD [OF risk_run_limits [of m es]]
  by (auto simp: Let_def)

text \<open>The breaker is a latch: while events stay on the day it tripped, nothing releases it.\<close>

lemma risk_step_tripped:
  assumes "rs_circuit_breaker_tripped (rm_state m)" "today_of (risk_time e) = rs_day_key (rm_state m)"
  shows "rs_circuit_breaker_tripped (rm_state (risk_step e m)) \<and>
    rs_day_key (rm_state (risk_step e m)) = rs_day_key (rm_state m)"
  using assms by (cases e) (simp_all add: can_enter_def Let_def)

lemma risk_run_tripped:
  "rs_circuit_breaker_tripped (rm_state m) \<Longrightarrow> \<forall>e \<in> set es. today_of (risk_time e) = rs_day_key (rm_state m) \<Longrightarrow>
   rs_circuit_breaker_tripped (rm_state (fold risk_step es m)) \<and>
   rs_day_key (rm_state (fold risk_step es m)) = rs_day_key (rm_state m)"
proof (induction es arbitrary: m)
  case (Cons e es)
  with risk_step_tripped [of m e] show ?case by simp
qed simp

lemma can_enter_tripping:
  "snd (fst (can_enter ctx m)) = DailyLossLimit c \<Longrightarrow>
     rs_circuit_breaker_tripped (rm_state (snd (can_enter ctx m)))"
  by (auto simp: can_enter_def Let_def split: if_splits)

lemma can_enter_new_day:
  assumes "today_of (tc_ts ctx) \<noteq> rs_day_key (rm_state m)"
  shows "roll_day (tc_ts ctx) m = m\<lparr>rm_state := new_risk_state (today_of (tc_ts ctx))\<rparr>"
  using assms by (simp add: roll_day_def Let_def)

text \<open>The daily loss circuit breaker latches. Once a check has refused because the day's loss
  reached its limit, every later check of that UTC day is refused whatever trades close in
  between, and the first check of another day starts from a clean slate: only the limits and
  the thresholds of the tick decide.\<close>

theorem circuit_breaker_latches:
  assumes "snd (fst (can_enter ctx m)) = DailyLossLimit c"
    and "\<forall>e \<in> set es. today_of (risk_time e) = today_of (tc_ts ctx)"
  defines "m' \<equiv> fold risk_step es (snd (can_enter ctx m))"
  shows "(today_of (tc_ts ctx') = today_of (tc_ts ctx) \<longrightarrow>
      fst (can_enter ctx' m') = (False, CircuitBreaker (rs_trip_reason (rm_state m')))) \<and>
    (today_of (tc_ts ctx') \<noteq> today_of (tc_ts ctx) \<longrightarrow> 0 \<le> tc_ts ctx' \<longrightarrow>
      0 < rm_daily_trade_limit m \<longrightarrow> 0 < rm_daily_loss_limit m \<longrightarrow>
      tc_pm_spread_bps ctx' \<le> rm_max_spread m \<longrightarrow>
      rm_min_depth m \<le> min (tc_pm_depth_yes ctx') (tc_pm_depth_no ctx') \<longrightarrow>
      rm_min_z_score m \<le> \<bar>tc_z_score ctx'\<bar> \<longrightarrow> rm_min_edge_bps m \<le> \<bar>tc_edge ctx'\<bar> * 10000 \<longrightarrow>
      fst (fst (can_enter ctx' m')))"
proof -
  let ?m = "snd (can_enter ctx m)"
  have run: "rs_circuit_breaker_tripped (rm_state m')" "rs_day_key (rm_state m') = today_of (tc_ts ctx)"
    using risk_run_tripped [of ?m es] can_enter_tripping [OF assms(1)] assms(2)
    by (simp_all add: m'_def)
  have lim: "same_limits m m'"
    unfolding m'_def by (rule same_limits_trans [OF can_enter_limits risk_run_limits])
  show ?thesis
  proof (intro conjI impI)
    assume "today_of (tc_ts ctx') = today_of (tc_ts ctx)"
    with run show "fst (can_enter ctx' m') = (False, CircuitBreaker (rs_trip_reason (rm_state m')))"
      by (simp add: can_enter_def Let_def)
  next
    assume "today_of (tc_ts ctx') \<noteq> today_of (tc_ts ctx)"
    then have roll: "roll_day (tc_ts ctx') m' = m'\<lparr>rm_state := new_risk_state (today_of (tc_ts ctx'))\<rparr>"
      using run by (intro can_enter_new_day) simp
    assume "0 \<le> tc_ts ctx'" "0 < rm_daily_trade_limit m" "0 < rm_daily_loss_limit m"
      "tc_pm_spread_bps ctx' \<le> rm_max_spread m"
      "rm_min_depth m \<le> min (tc_pm_depth_yes ctx') (tc_pm_depth_no ctx')"
      "rm_min_z_score m \<le> \<bar>tc_z_score ctx'\<bar>" "rm_min_edge_bps m \<le> \<bar>tc_edge ctx'\<bar> * 10000"
    then show "fst (fst (can_enter ctx' m'))"
      unfolding can_enter_ok_iff roll using same_limitsD [OF lim] by (simp add: new_risk_state_def Let_def)
  qed
qed

lemma can_enter_paused:
  "today_of (tc_ts ctx) = rs_day_key (rm_state m) \<Longrightarrow> tc_ts ctx < rs_pause_until (rm_state m) \<Longrightarrow>
     \<not> fst (fst (can_enter ctx m))"
  by (simp add: can_enter_ok_iff Let_def)

section \<open>The rolling loss window\<close>

interpretation pnl_window: time_window fst gc_pnls
  unfolding gc_pnls_def by unfold_locales (rule popleft_while_window, rule popleft_while_head)

definition window_inv :: "real \<Rightarrow> risk_manager \<Rightarrow> bool" where
  "window_inv t m \<longleftrightarrow> sorted (map fst (rs_recent_pnls (rm_state m))) \<and>
     (\<forall>c \<in> set (rs_recent_pnls (rm_state m)). fst c \<le> t)"

lemma window_inv_mono: "window_inv t m \<Longrightarrow> t \<le> t' \<Longrightarrow> window_inv t' m"
  by (auto simp: window_inv_def)

lemma window_inv_roll: "window_inv t m \<Longrightarrow> window_inv t (roll_day now m)"
  by (simp add: window_inv_def roll_day_def new_risk_state_def Let_def)

lemma roll_window_recent:
  assumes "sorted (map fst (rs_recent_pnls s))" "\<forall>c \<in> set (rs_recent_pnls s). fst c \<le> now"
  shows "roll_window m pnl now s =
    (let w = filter (\<lambda>c. now - of_int (rm_loss_pause_window_s m) \<le> fst c) (rs_recent_pnls s @ [(now, pnl)])
     in if sum_list (map snd w) \<le> - rm_loss_pause_threshold m
        then s\<lparr>rs_recent_pnls := [], rs_pause_until := now + of_int (rm_loss_pause_duration_s m),
               rs_pause_reason := RollingLoss (sum_list (map snd w))\<rparr>
        else s\<lparr>rs_recent_pnls := w\<rparr>)"
proof -
  have "sorted (map fst (rs_recent_pnls s @ [(now, pnl)]))"
    using assms by (auto simp: sorted_append)
  from pnl_window.gc_filter [OF this] show ?thesis
    by (simp add: roll_window_def Let_def)
qed

lemma window_step:
  assumes "window_inv t m" "t \<le> risk_time e"
  shows "window_inv (risk_time e) (risk_step e m)"
proof -
  have rolled: "window_inv (risk_time e) (roll_day (risk_time e) m)"
    using assms by (intro window_inv_roll) (rule window_inv_mono)
  show ?thesis
  proof (cases e)
    case (Check ctx)
    with rolled show ?thesis by (simp add: window_inv_def)
  next
    case (Closed pnl now)
    with rolled have "sorted (map fst (rs_recent_pnls (rm_state (roll_day now m))))"
      "\<forall>c \<in> set (rs_recent_pnls (rm_state (roll_day now m))). fst c \<le> now"
      by (simp_all add: window_inv_def)
    with Closed show ?thesis
      by (auto simp: window_inv_def on_trade_closed_def roll_window_recent Let_def sorted_append sorted_filter)
  qed
qed

lemma window_run:
  assumes "new_risk_manager r = Inr m" "sorted (map risk_time (es @ [e]))"
  shows "window_inv (risk_time e) (fold risk_step es m)"
  using assms(2)
proof (induction es arbitrary: e rule: rev_induct)
  case Nil
  from assms(1) show ?case
    by (auto simp: new_risk_manager_def bind_r_eq_Inr window_inv_def new_risk_state_def)
next
  case (snoc e' es)
  then have "window_inv (risk_time e') (fold risk_step es m)" and le: "risk_time e' \<le> risk_time e"
    by (auto simp: sorted_append)
  from window_step [OF this(1)] le show ?case by (auto intro: window_inv_mono)
qed

text \<open>The rolling-loss cool-off. With a positive threshold, closing a trade keeps exactly the
  recorded results of the last window; when their sum is a loss of at least the threshold the
  window is emptied and every check of that UTC day before the end of the pause is refused,
  and otherwise the pause is left as it was.\<close>

theorem rolling_loss_pauses:
  assumes "new_risk_manager r = Inr m" and "sorted (map risk_time (es @ [Closed pnl now]))"
    and "0 < rm_loss_pause_threshold m"
  defines "m1 \<equiv> roll_day now (fold risk_step es m)" and "m2 \<equiv> on_trade_closed pnl now (fold risk_step es m)"
  defines "w \<equiv> filter (\<lambda>(t, p). now - of_int (rm_loss_pause_window_s m) \<le> t) (rs_recent_pnls (rm_state m1) @ [(now, pnl)])"
  shows "(if sum_list (map snd w) \<le> - rm_loss_pause_threshold m
     then rs_recent_pnls (rm_state m2) = [] \<and>
       (\<forall>ctx :: tick_core. today_of (tc_ts ctx) = today_of now \<and> tc_ts ctx < now + of_int (rm_loss_pause_duration_s m)
          \<longrightarrow> \<not> fst (fst (can_enter ctx m2)))
     else rs_recent_pnls (rm_state m2) = w \<and> rs_pause_until (rm_state m2) = rs_pause_until (rm_state m1))"
proof -
  have inv: "window_inv now m1"
    using window_run [OF assms(1,2)] unfolding m1_def by (intro window_inv_roll) simp
  have lim: "same_limits m m1"
    unfolding m1_def by (rule same_limits_trans [OF risk_run_limits roll_day_limits])
  let ?s = "(rm_state m1)\<lparr>rs_daily_pnl := rs_daily_pnl (rm_state m1) + pnl,
      rs_daily_trades := rs_daily_trades (rm_state m1) + 1,
      rs_cooldown_until := now + of_int (rm_cooldown_seconds m1)\<rparr>"
  have m2: "m2 = m1\<lparr>rm_state := roll_window m1 pnl now ?s\<rparr>"
    using assms(3) same_limitsD [OF lim] by (simp add: m2_def m1_def on_trade_closed_def Let_def)
  have s: "roll_window m1 pnl now ?s =
    (if sum_list (map snd w) \<le> - rm_loss_pause_threshold m
        then ?s\<lparr>rs_recent_pnls := [], rs_pause_until := now + of_int (rm_loss_pause_duration_s m),
               rs_pause_reason := RollingLoss (sum_list (map snd w))\<rparr>
        else ?s\<lparr>rs_recent_pnls := w\<rparr>)"
    using inv same_limitsD [OF lim]
    by (subst roll_window_recent) (simp_all add: window_inv_def w_def case_prod_beta' Let_def)
  have key: "rs_day_key (rm_state m2) = today_of now" by (simp add: m2_def)
  show ?thesis
  proof (cases "sum_list (map snd w) \<le> - rm_loss_pause_threshold m")
    case True
    then have "rs_pause_until (rm_state m2) = now + of_int (rm_loss_pause_duration_s m)"
      "rs_recent_pnls (rm_state m2) = []"
      by (simp_all add: m2 s)
    with True key show ?thesis by (simp add: can_enter_paused)
  qed (simp add: m2 s)
qed

section \<open>A worked example\<close>

definition ex_risk_cfg :: "(string, real) dict" where
  "ex_risk_cfg =
     [(''cooldown_seconds'', 60), (''max_position_size_usd'', 50), (''daily_loss_limit_usd'', 20),
      (''daily_trade_limit'', 5), (''min_edge_bps'', 100), (''min_z_score'', 1),
      (''min_pm_depth_usd'', 10), (''skip_if_spread_bps'', 300), (''loss_pause_threshold_usd'', 8)]"

definition ex_manager :: risk_manager where
  "ex_manager =
     \<lparr>rm_cooldown_seconds = 60, rm_max_size = 50, rm_daily_loss_limit = 20, rm_daily_trade_limit = 5,
      rm_min_edge_bps = 100, rm_min_z_score = 1, rm_min_depth = 10, rm_max_spread = 300,
      rm_loss_pause_threshold = 8, rm_loss_pause_window_s = 1800, rm_loss_pause_duration_s = 1800,
      rm_state = new_risk_state 0\<rparr>"

definition ex_ctx_at :: "real \<Rightarrow> tick_core" where
  "ex_ctx_at t = ex_core\<lparr>tc_ts := t\<rparr>"

lemma ex_manager_init: "new_risk_manager ex_risk_cfg = Inr ex_manager"
  by (simp add: new_risk_manager_def ex_risk_cfg_def risk_keys_def ex_manager_def dict_getd_def py_int_def today_of_def)

lemmas ex_risk_simps = ex_manager_def ex_ctx_at_def ex_core_def new_risk_state_def today_of_def roll_day_def

theorem entry_admission_sound_witness:
  "fst (fst (can_enter (ex_ctx_at 500) (fold risk_step [Closed (- 3) 100] ex_manager))) \<and>
   - rm_daily_loss_limit ex_manager < sum_list (map snd (closes_on 0 [Closed (- 3) 100]))"
proof -
  have ok: "fst (fst (can_enter (ex_ctx_at 500) (fold risk_step [Closed (- 3) 100] ex_manager)))"
    by (simp add: can_enter_ok_iff on_trade_closed_def roll_window_def gc_pnls_def ex_risk_simps Let_def)
  have "sorted (map risk_time ([Closed (- 3) 100] @ [Check (ex_ctx_at 500)]))" by (simp add: ex_ctx_at_def)
  from entry_admission_sound [OF ex_manager_init this ok] ok show ?thesis
    by (simp add: Let_def today_of_def ex_ctx_at_def)
qed

theorem circuit_breaker_latches_witness:
  "\<not> fst (fst (can_enter (ex_ctx_at 900) (fold risk_step [Closed 100 700]
      (snd (can_enter (ex_ctx_at 500) (ex_manager\<lparr>rm_state := (new_risk_state 0)\<lparr>rs_daily_pnl := - 25\<rparr>\<rparr>))))))"
proof -
  let ?m = "ex_manager\<lparr>rm_state := (new_risk_state 0)\<lparr>rs_daily_pnl := - 25\<rparr>\<rparr>"
  have trip: "snd (fst (can_enter (ex_ctx_at 500) ?m)) = DailyLossLimit (DailyLossHit (- 25))"
    by (simp add: can_enter_def ex_risk_simps Let_def)
  have day: "\<forall>e \<in> set [Closed 100 700]. today_of (risk_time e) = today_of (tc_ts (ex_ctx_at 500))"
    by (simp add: today_of_def ex_ctx_at_def)
  have "today_of (tc_ts (ex_ctx_at 900)) = today_of (tc_ts (ex_ctx_at 500))"
    by (simp add: today_of_def ex_ctx_at_def)
  with circuit_breaker_latches [OF trip day, of "ex_ctx_at 900"] show ?thesis by simp
qed

theorem rolling_loss_pauses_witness:
  "\<not> fst (fst (can_enter (ex_ctx_at 1500) (on_trade_closed (- 5) 200 (fold risk_step [Closed (- 4) 100] ex_manager))))"
proof -
  have m1: "rs_recent_pnls (rm_state (roll_day 200 (fold risk_step [Closed (- 4) 100] ex_manager))) = [(100, - 4)]"
    by (simp add: on_trade_closed_def roll_window_def gc_pnls_def ex_risk_simps Let_def)
  have "sorted (map risk_time ([Closed (- 4) 100] @ [Closed (- 5) 200]))" by simp
  moreover have "0 < rm_loss_pause_threshold ex_manager" by (simp add: ex_manager_def)
  moreover have "today_of (tc_ts (ex_ctx_at 1500)) = today_of 200" "tc_ts (ex_ctx_at 1500) < 200 + 1800"
    by (simp_all add: today_of_def ex_ctx_at_def)
  ultimately show ?thesis
    using rolling_loss_pauses [OF ex_manager_init, of "[Closed (- 4) 100]" "- 5" 200] unfolding m1
    by (simp add: ex_manager_def)
qed

end
