(* ===== verification/Backtest.thy ===== *)
theory Backtest
  imports Risk Fill_Model Indicators
begin

text \<open>
  \<open>engine/backtest_driver.py\<close>: the replay of historical markets through a strategy with a shared
  risk manager, and the performance figures of the resulting trades.

  \<open>run_backtest\<close> is split where the source nests its loops: \<open>bt_tick\<close> is the body of the loop
  over the ticks of a market, \<open>bt_market\<close> the body of the loop over the markets. The strategy is
  a parameter with a state of its own, threaded through every call; \<open>draws n\<close> is the \<open>n\<close>-th
  value of the shared generator; the markets are what \<open>loader.iter_markets\<close> yields and
  \<open>settle_prices\<close> what \<open>loader.market_outcomes\<close> returns, absent when the loader does not
  provide it.
\<close>

section \<open>Data\<close>

record backtest_trade =
  bt_trade_idx :: nat
  bt_market_slug :: string
  bt_side :: side
  bt_entry_ts :: epoch
  bt_entry_price :: real
  bt_stake_usd :: real
  bt_exit_ts :: epoch
  bt_exit_price :: real
  bt_resolution :: string
  bt_pnl_usd :: real
  bt_slippage :: real
  bt_fee :: real
  bt_entry_t_in_window :: real
  bt_signal_first_seen_t_in_window :: real
  bt_implied_prob_yes_at_entry :: real
  bt_model_prob_yes_at_entry :: real
  bt_edge_at_entry :: real
  bt_pm_spread_bps_at_entry :: real
  bt_vol_regime_at_entry :: string
  bt_signal_features :: "(string, jval) dict"
  bt_signal_breakdown :: "(string, jval) dict"

record 's backtest_run_result =
  res_strategy :: string
  res_start_ts :: real
  res_end_ts :: real
  res_n_markets :: nat
  res_n_ticks :: nat
  res_n_trades :: nat
  res_trades :: "backtest_trade list"
  res_config_used :: "(string, jval) dict"
  res_decision_counts :: "(string, int) dict"
  res_final_strategy :: 's
  res_final_risk :: risk_manager

record entry_window_config =
  ew_earliest_entry_t_s :: real
  ew_latest_entry_t_s :: real

definition default_entry_window :: entry_window_config where
  "default_entry_window = \<lparr>ew_earliest_entry_t_s = 120, ew_latest_entry_t_s = 240\<rparr>"

record fill_config =
  fc_slippage_bps :: real
  fc_fill_probability :: real
  fc_apply_fee_in_backtest :: bool
  fc_fee_k :: real

definition default_fill_config :: fill_config where
  "default_fill_config =
     \<lparr>fc_slippage_bps = 10, fc_fill_probability = 19 / 20, fc_apply_fee_in_backtest = False, fc_fee_k = 1 / 20\<rparr>"

record indicator_config =
  ic_ema_fast_period :: nat
  ic_ema_slow_period :: nat
  ic_rsi_period :: nat
  ic_vol_window_seconds :: nat
  ic_vol_ewma_lambda :: real

definition default_indicator_config :: indicator_config where
  "default_indicator_config =
     \<lparr>ic_ema_fast_period = 12, ic_ema_slow_period = 26, ic_rsi_period = 14,
      ic_vol_window_seconds = 60, ic_vol_ewma_lambda = 94 / 100\<rparr>"

text \<open>The dictionary \<open>position\<close> of the source.\<close>

record position =
  po_side :: side
  po_entry_ts :: epoch
  po_entry_price :: real
  po_slippage :: real
  po_t_in_window :: real
  po_implied_prob_yes :: real
  po_model_prob_yes :: real
  po_edge :: real
  po_spread_bps :: real
  po_vol_regime :: string
  po_signal_features :: "(string, jval) dict"
  po_signal_breakdown :: "(string, jval) dict"

text \<open>The local variables of \<open>run_backtest\<close> that live across markets, with the strategy's own
  state and the position in the stream of draws; and those of one market.\<close>

record 's bt_state =
  bs_risk :: risk_manager
  bs_strat :: 's
  bs_draws :: nat
  bs_counts :: "(string, int) dict"
  bs_n_ticks :: nat
  bs_n_markets :: nat
  bs_trades :: "backtest_trade list"
  bs_trade_idx :: nat

record market_state =
  ms_position :: "position option"
  ms_first_seen :: "real option"
  ms_recent :: "tick_core list"
  ms_indicators :: indicator_stack

record 's strategy =
  sg_name :: string
  sg_on_start :: "'s \<Rightarrow> 's"
  sg_should_enter :: "tick_context \<Rightarrow> 's \<Rightarrow> decision \<times> 's"
  sg_on_stop :: "'s \<Rightarrow> 's"

record bt_params =
  bp_stake_usd :: real
  bp_fill_cfg :: fill_config
  bp_entry_window :: entry_window_config
  bp_indicator_cfg :: indicator_config
  bp_bypass_risk :: bool
  bp_draws :: "nat \<Rightarrow> real"
  bp_erf :: "real \<Rightarrow> real"
  bp_settle_prices :: "(string, real) dict option"

section \<open>Helpers\<close>

definition vol_regime_from :: "'a tick_core_scheme \<Rightarrow> string" where
  "vol_regime_from ctx =
     (let z = \<bar>float_or (tc_z_score ctx) 0\<bar>
      in if z < 1 / 2 then ''low'' else if z < 3 / 2 then ''mid'' else ''high'')"

text \<open>\<open>ticks\<close> is not empty where it is called.\<close>

definition final_price_of :: "tick_core list \<Rightarrow> real" where
  "final_price_of ticks =
     (let l = last ticks
      in case tc_chainlink_price l of
           Some c \<Rightarrow> if c \<noteq> 0 then c else float_or (tc_spot_price l) 0
         | None \<Rightarrow> float_or (tc_spot_price l) 0)"

definition won_market :: "real \<Rightarrow> real \<Rightarrow> side \<Rightarrow> bool" where
  "won_market open_price final_price side =
     (if open_price \<le> 0 \<or> final_price \<le> 0 then False
      else (let went_up = final_price \<ge> open_price
            in if side = YES_UP then went_up else \<not> went_up))"

definition resolve_pnl :: "real \<Rightarrow> real \<Rightarrow> bool \<Rightarrow> real" where
  "resolve_pnl entry_price stake_usd won =
     (if entry_price \<le> 0 then - stake_usd
      else (let shares = stake_usd / entry_price
            in if won then shares * 1 - stake_usd else - stake_usd))"

definition count_up :: "string \<Rightarrow> (string, int) dict \<Rightarrow> (string, int) dict" where
  "count_up k d = AList.update k (dict_getd d k 0 + 1) d"

fun action_value :: "action \<Rightarrow> string" where
  "action_value ENTER = ''ENTER''"
| "action_value SKIP = ''SKIP''"

text \<open>The first non-zero opening price, or the first spot price.\<close>

fun first_open :: "tick_core list \<Rightarrow> real" where
  "first_open [] = 0"
| "first_open (t # ts) = (if tc_open_price t \<noteq> 0 then tc_open_price t else first_open ts)"

definition open_price_market :: "tick_core list \<Rightarrow> real" where
  "open_price_market ticks =
     (let o1 = first_open ticks
      in if o1 = 0 then float_or (tc_spot_price (hd ticks)) 0 else o1)"

definition close_ts_of :: "tick_core list \<Rightarrow> real" where
  "close_ts_of ticks = float_or (tc_window_close_ts (hd ticks)) (tc_ts (last ticks))"

section \<open>One tick\<close>

definition fill_price_of :: "fill_config \<Rightarrow> side \<Rightarrow> 'a tick_core_scheme \<Rightarrow> real \<times> real" where
  "fill_price_of cfg sd ctx =
     (let (mid, limit) =
            (if sd = YES_UP then ((tc_pm_yes_bid ctx + tc_pm_yes_ask ctx) / 2, tc_pm_yes_ask ctx)
             else ((tc_pm_no_bid ctx + tc_pm_no_ask ctx) / 2, tc_pm_no_ask ctx));
          slip = mid * fc_slippage_bps cfg / 10000
      in (slip, min (limit + slip) (99 / 100)))"

definition open_position :: "'a tick_core_scheme \<Rightarrow> decision \<Rightarrow> real \<Rightarrow> real \<Rightarrow> position" where
  "open_position ctx d slip fill_price =
     \<lparr>po_side = dc_side d, po_entry_ts = tc_ts ctx, po_entry_price = fill_price,
      po_slippage = slip, po_t_in_window = tc_t_in_window ctx,
      po_implied_prob_yes = tc_implied_prob_yes ctx, po_model_prob_yes = tc_model_prob_yes ctx,
      po_edge = tc_edge ctx, po_spread_bps = tc_pm_spread_bps ctx,
      po_vol_regime = vol_regime_from ctx, po_signal_features = dc_signal_features d,
      po_signal_breakdown = dc_signal_breakdown d\<rparr>"

text \<open>The risk gate of a tick inside the entry window: whether the strategy is asked.\<close>

definition bt_gate :: "bt_params \<Rightarrow> 'a tick_core_scheme \<Rightarrow> 's bt_state \<Rightarrow> bool \<times> 's bt_state" where
  "bt_gate P ctx st =
     (if bp_bypass_risk P then (True, st)
      else (let ((allowed, reason), risk) = can_enter ctx (bs_risk st);
                st1 = st\<lparr>bs_risk := risk\<rparr>
            in if allowed then (True, st1)
               else (False, st1\<lparr>bs_counts := count_up ''RISK_SKIP'' (bs_counts st1)\<rparr>)))"

text \<open>The decision, the draw and the fill that may follow it.\<close>

definition bt_decide ::
  "'s strategy \<Rightarrow> bt_params \<Rightarrow> tick_context \<Rightarrow> market_state \<Rightarrow> 's bt_state \<Rightarrow> market_state \<times> 's bt_state" where
  "bt_decide S P ctx mk st0 =
     (let (d, strat) = sg_should_enter S ctx (bs_strat st0);
          st = st0\<lparr>bs_strat := strat, bs_counts := count_up (action_value (dc_action d)) (bs_counts st0)\<rparr>
      in if dc_action d \<noteq> ENTER then (mk, st)
         else (let mk1 = (if ms_first_seen mk = None then mk\<lparr>ms_first_seen := Some (tc_t_in_window ctx)\<rparr> else mk);
                   u = bp_draws P (bs_draws st);
                   st1 = st\<lparr>bs_draws := bs_draws st + 1\<rparr>
               in if u > fc_fill_probability (bp_fill_cfg P)
                  then (mk1, st1\<lparr>bs_counts := count_up ''FILL_MISS'' (bs_counts st1)\<rparr>)
                  else (let (slip, fill_price) = fill_price_of (bp_fill_cfg P) (dc_side d) ctx
                        in if fill_price \<le> 0 then (mk1, st1)
                           else (mk1\<lparr>ms_position := Some (open_position ctx d slip fill_price)\<rparr>, st1))))"

definition with_recent :: "tick_core \<Rightarrow> tick_core list \<Rightarrow> tick_context" where
  "with_recent c recent = tick_core.extend c (tick_context.fields recent)"

definition in_entry_window :: "bt_params \<Rightarrow> 'a tick_core_scheme \<Rightarrow> bool" where
  "in_entry_window P ctx \<longleftrightarrow>
     ew_earliest_entry_t_s (bp_entry_window P) \<le> tc_t_in_window ctx \<and>
     tc_t_in_window ctx \<le> ew_latest_entry_t_s (bp_entry_window P)"

definition bt_tick ::
  "'s strategy \<Rightarrow> bt_params \<Rightarrow> tick_core \<Rightarrow> market_state \<times> 's bt_state \<Rightarrow> market_state \<times> 's bt_state" where
  "bt_tick S P tick = (\<lambda>(mk0, st0).
     let st = st0\<lparr>bs_n_ticks := bs_n_ticks st0 + 1\<rparr>;
         (core, ind) = stack_update (bp_erf P) tick (ms_indicators mk0);
         ctx = with_recent core (ms_recent mk0);
         mk = mk0\<lparr>ms_indicators := ind, ms_recent := ms_recent mk0 @ [core]\<rparr>
     in if ms_position mk \<noteq> None then (mk, st)
        else if \<not> in_entry_window P ctx then (mk, st)
        else (let (allowed, st1) = bt_gate P ctx st
              in if \<not> allowed then (mk, st1) else bt_decide S P ctx mk st1))"

section \<open>One market\<close>

definition fresh_market :: "bt_params \<Rightarrow> market_state" where
  "fresh_market P =
     (let c = bp_indicator_cfg P
      in \<lparr>ms_position = None, ms_first_seen = None, ms_recent = [],
          ms_indicators = new_stack (ic_ema_fast_period c) (ic_ema_slow_period c) (ic_rsi_period c)
            (ic_vol_window_seconds c) (ic_vol_ewma_lambda c)\<rparr>)"

definition close_position ::
  "bt_params \<Rightarrow> string \<Rightarrow> real \<Rightarrow> real \<Rightarrow> real \<Rightarrow> nat \<Rightarrow> real option \<Rightarrow> position \<Rightarrow> backtest_trade" where
  "close_position P slug open_price final_price close_ts idx first_seen pos =
     (let won = won_market open_price final_price (po_side pos);
          gross_pnl = resolve_pnl (po_entry_price pos) (bp_stake_usd P) won;
          p = po_entry_price pos;
          fee_charged = (if fc_apply_fee_in_backtest (bp_fill_cfg P) \<and> p > 0
                         then fc_fee_k (bp_fill_cfg P) * p * (1 - p) * bp_stake_usd P else 0);
          pnl = gross_pnl - fee_charged
      in \<lparr>bt_trade_idx = idx, bt_market_slug = slug, bt_side = po_side pos,
          bt_entry_ts = po_entry_ts pos, bt_entry_price = po_entry_price pos,
          bt_stake_usd = bp_stake_usd P, bt_exit_ts = close_ts,
          bt_exit_price = (if won then 1 else 0), bt_resolution = (if won then ''win'' else ''loss''),
          bt_pnl_usd = pnl, bt_slippage = po_slippage pos, bt_fee = fee_charged,
          bt_entry_t_in_window = po_t_in_window pos,
          bt_signal_first_seen_t_in_window =
            (case first_seen of Some s \<Rightarrow> float_or s (po_t_in_window pos) | None \<Rightarrow> po_t_in_window pos),
          bt_implied_prob_yes_at_entry = po_implied_prob_yes pos,
          bt_model_prob_yes_at_entry = po_model_prob_yes pos, bt_edge_at_entry = po_edge pos,
          bt_pm_spread_bps_at_entry = po_spread_bps pos, bt_vol_regime_at_entry = po_vol_regime pos,
          bt_signal_features = po_signal_features pos,
          bt_signal_breakdown = po_signal_breakdown pos\<rparr>)"

text \<open>The settlement price of a market: \<open>None\<close> where the market is skipped.\<close>

definition settle_price :: "bt_params \<Rightarrow> string \<Rightarrow> tick_core list \<Rightarrow> real option" where
  "settle_price P slug ticks =
     (case bp_settle_prices P of
        Some prices \<Rightarrow> map_of prices slug
      | None \<Rightarrow> Some (final_price_of ticks))"

definition bt_settle ::
  "bt_params \<Rightarrow> string \<Rightarrow> tick_core list \<Rightarrow> real \<Rightarrow> market_state \<Rightarrow> 's bt_state \<Rightarrow> 's bt_state" where
  "bt_settle P slug ticks final_price mk st =
     (case ms_position mk of
        None \<Rightarrow> st
      | Some pos \<Rightarrow>
          (let close_ts = close_ts_of ticks;
               t = close_position P slug (open_price_market ticks) final_price close_ts
                     (bs_trade_idx st) (ms_first_seen mk) pos;
               st1 = st\<lparr>bs_trades := bs_trades st @ [t], bs_trade_idx := bs_trade_idx st + 1\<rparr>
           in if bp_bypass_risk P then st1
              else st1\<lparr>bs_risk := on_trade_closed (bt_pnl_usd t) close_ts (bs_risk st1)\<rparr>))"

definition bt_market ::
  "'s strategy \<Rightarrow> bt_params \<Rightarrow> string \<times> tick_core list \<Rightarrow> 's bt_state \<Rightarrow> 's bt_state" where
  "bt_market S P = (\<lambda>(slug, ticks) st0.
     if ticks = [] then st0
     else (let st = st0\<lparr>bs_n_markets := bs_n_markets st0 + 1\<rparr>
           in case settle_price P slug ticks of
                None \<Rightarrow> st
              | Some final_price \<Rightarrow>
                  (let (mk, st1) = fold (bt_tick S P) ticks (fresh_market P, st)
                   in bt_settle P slug ticks final_price mk st1)))"

definition bt_init :: "'s strategy \<Rightarrow> risk_manager \<Rightarrow> 's \<Rightarrow> 's bt_state" where
  "bt_init S risk s0 =
     \<lparr>bs_risk = risk, bs_strat = sg_on_start S s0, bs_draws = 0, bs_counts = [], bs_n_ticks = 0,
      bs_n_markets = 0, bs_trades = [], bs_trade_idx = 0\<rparr>"

definition run_backtest ::
  "'s strategy \<Rightarrow> (string \<times> tick_core list) list \<Rightarrow> real \<Rightarrow> real \<Rightarrow> bt_params \<Rightarrow> risk_manager
   \<Rightarrow> (string, jval) dict \<Rightarrow> 's \<Rightarrow> 's backtest_run_result" where
  "run_backtest S markets from_ts to_ts P risk config_used s0 =
     (let st = fold (bt_market S P) markets (bt_init S risk s0)
      in \<lparr>res_strategy = sg_name S, res_start_ts = from_ts, res_end_ts = to_ts,
          res_n_markets = bs_n_markets st, res_n_ticks = bs_n_ticks st,
          res_n_trades = length (bs_trades st), res_trades = bs_trades st,
          res_config_used = config_used, res_decision_counts = bs_counts st,
          res_final_strategy = sg_on_stop S (bs_strat st), res_final_risk = bs_risk st\<rparr>)"

section \<open>Performance figures\<close>

record performance =
  pf_n_trades :: nat
  pf_total_pnl :: real
  pf_win_rate :: real
  pf_wins :: nat
  pf_losses :: nat
  pf_avg_pnl :: real
  pf_avg_win :: real
  pf_avg_loss :: real
  pf_profit_factor :: real

record risk_adjusted =
  ra_sharpe_per_trade :: real
  ra_sharpe_annualized_iid :: real
  ra_sharpe_daily :: real
  ra_mdd_usd :: real
  ra_trades_per_year_assumed :: real

definition daily_pnls :: "backtest_trade list \<Rightarrow> (int, real) dict" where
  "daily_pnls trades =
     fold (\<lambda>t d. let day = today_of (bt_entry_ts t)
                 in AList.update day (dict_getd d day 0 + bt_pnl_usd t) d) trades []"

text \<open>The loop over the equity curve: running equity, running peak, deepest fall so far.\<close>

fun mdd_loop :: "real list \<Rightarrow> real \<Rightarrow> real \<Rightarrow> real \<Rightarrow> real" where
  "mdd_loop [] equity peak mdd = mdd"
| "mdd_loop (p # ps) equity peak mdd =
     (let equity' = equity + p; peak' = max peak equity'
      in mdd_loop ps equity' peak' (min mdd (equity' - peak')))"

definition sharpe_daily_of :: "real list \<Rightarrow> real" where
  "sharpe_daily_of ds =
     (if length ds \<ge> 2
      then (let d_mean = sum_list ds / real (length ds);
                d_var = sum_sq_dev ds d_mean / (real (length ds) - 1);
                d_std = (if d_var > 0 then sqrt d_var else 0)
            in if d_std > 0 then d_mean / d_std * sqrt 365 else 0)
      else 0)"

definition compute_kpis :: "backtest_trade list \<Rightarrow> real \<Rightarrow> performance \<times> risk_adjusted" where
  "compute_kpis trades duration_s =
     (if trades = []
      then (\<lparr>pf_n_trades = 0, pf_total_pnl = 0, pf_win_rate = 0, pf_wins = 0, pf_losses = 0,
             pf_avg_pnl = 0, pf_avg_win = 0, pf_avg_loss = 0, pf_profit_factor = 0\<rparr>,
            \<lparr>ra_sharpe_per_trade = 0, ra_sharpe_annualized_iid = 0, ra_sharpe_daily = 0,
             ra_mdd_usd = 0, ra_trades_per_year_assumed = 0\<rparr>)
      else (let pnls = map bt_pnl_usd trades;
                wins = filter (\<lambda>p. p > 0) pnls;
                losses = filter (\<lambda>p. p \<le> 0) pnls;
                total = sum_list pnls;
                n = length trades;
                mean = total / real n;
                var = sum_sq_dev pnls mean / max (real n - 1) 1;
                std = (if var > 0 then sqrt var else 0);
                sharpe_per_trade = (if std > 0 then mean / std else 0);
                trades_per_year = real n / max duration_s 1 * (36525 / 100) * 86400
            in (\<lparr>pf_n_trades = n, pf_total_pnl = total, pf_win_rate = real (length wins) / real n,
                 pf_wins = length wins, pf_losses = length losses, pf_avg_pnl = mean,
                 pf_avg_win = (if wins \<noteq> [] then sum_list wins / real (length wins) else 0),
                 pf_avg_loss = (if losses \<noteq> [] then sum_list losses / real (length losses) else 0),
                 pf_profit_factor =
                   (if losses \<noteq> [] \<and> sum_list losses \<noteq> 0 then sum_list wins / - sum_list losses else 0)\<rparr>,
                \<lparr>ra_sharpe_per_trade = sharpe_per_trade,
                 ra_sharpe_annualized_iid = sharpe_per_trade * sqrt (max trades_per_year 1),
                 ra_sharpe_daily = sharpe_daily_of (values_of (daily_pnls trades)),
                 ra_mdd_usd = mdd_loop pnls 0 0 0,
                 ra_trades_per_year_assumed = trades_per_year\<rparr>)))"

section \<open>The replay, tick by tick\<close>

interpretation bt_payoff: binary_payoff "\<lambda>e s f won. resolve_pnl e s won - f"
  by unfold_locales (simp_all add: resolve_pnl_def)

text \<open>What a tick of a market can do to the position.\<close>

definition pos_ok :: "bt_params \<Rightarrow> tick_core list \<Rightarrow> position \<Rightarrow> bool" where
  "pos_ok P ticks pos \<longleftrightarrow> 0 < po_entry_price pos \<and> po_entry_price pos \<le> 99 / 100 \<and>
     (\<exists>c \<in> set ticks. po_entry_ts pos = tc_ts c \<and> po_t_in_window pos = tc_t_in_window c \<and> in_entry_window P c)"

lemma with_recent_sel [simp]:
  "tc_ts (with_recent c r) = tc_ts c" "tc_t_in_window (with_recent c r) = tc_t_in_window c"
  "tc_recent_ticks (with_recent c r) = r" "tick_core.truncate (with_recent c r) = c"
  by (simp_all add: with_recent_def tick_core.defs tick_context.defs)

lemma in_entry_window_recent [simp]: "in_entry_window P (with_recent c r) = in_entry_window P c"
  by (simp add: in_entry_window_def)

lemma stack_update_sel [simp]:
  "tc_ts (fst (stack_update f c st)) = tc_ts c"
  "tc_t_in_window (fst (stack_update f c st)) = tc_t_in_window c"
  using stack_update_market [of c f st] by (simp_all add: same_market_def)

lemma stack_update_in_window [simp]: "in_entry_window P (fst (stack_update f c st)) = in_entry_window P c"
  by (simp add: in_entry_window_def)

lemma bt_gate_trades [simp]:
  "bs_trades (snd (bt_gate P ctx st)) = bs_trades st" "bs_trade_idx (snd (bt_gate P ctx st)) = bs_trade_idx st"
  "bs_strat (snd (bt_gate P ctx st)) = bs_strat st"
  by (simp_all add: bt_gate_def Let_def case_prod_beta)

lemma bt_decide_trades [simp]:
  "bs_trades (snd (bt_decide S P ctx mk st)) = bs_trades st"
  "bs_trade_idx (snd (bt_decide S P ctx mk st)) = bs_trade_idx st"
  "bs_risk (snd (bt_decide S P ctx mk st)) = bs_risk st"
  by (simp_all add: bt_decide_def Let_def case_prod_beta)

lemma fill_price_cap: "snd (fill_price_of cfg sd ctx) \<le> 99 / 100"
  by (simp only: fill_price_of_def Let_def case_prod_beta snd_conv min.cobounded2)

lemma bt_decide_position:
  assumes "ms_position mk = None" "ms_position (fst (bt_decide S P ctx mk st)) = Some pos"
  shows "0 < po_entry_price pos \<and> po_entry_price pos \<le> 99 / 100 \<and> po_entry_ts pos = tc_ts ctx \<and>
    po_t_in_window pos = tc_t_in_window ctx"
proof -
  let ?d = "fst (sg_should_enter S ctx (bs_strat st))"
  let ?f = "fill_price_of (bp_fill_cfg P) (dc_side ?d) ctx"
  have "pos = open_position ctx ?d (fst ?f) (snd ?f) \<and> 0 < snd ?f"
    using assms by (auto simp: bt_decide_def Let_def case_prod_beta split: if_splits)
  with fill_price_cap [of "bp_fill_cfg P" "dc_side ?d" ctx] show ?thesis
    by (simp only: open_position_def position.simps simp_thms)
qed

lemma bt_tick_eq:
  "bt_tick S P tick (mk0, st0) =
     (let core = fst (stack_update (bp_erf P) tick (ms_indicators mk0));
          mk = mk0\<lparr>ms_indicators := snd (stack_update (bp_erf P) tick (ms_indicators mk0)),
                   ms_recent := ms_recent mk0 @ [core]\<rparr>;
          st = st0\<lparr>bs_n_ticks := bs_n_ticks st0 + 1\<rparr>;
          g = bt_gate P (with_recent core (ms_recent mk0)) st
      in if ms_position mk0 \<noteq> None \<or> \<not> in_entry_window P tick then (mk, st)
         else if \<not> fst g then (mk, snd g)
         else bt_decide S P (with_recent core (ms_recent mk0)) mk (snd g))"
  by (simp add: bt_tick_def Let_def case_prod_beta)

lemma bt_tick_keeps:
  "ms_position (fst m) = Some pos \<Longrightarrow> ms_position (fst (bt_tick S P tick m)) = Some pos"
  by (cases m) (simp add: bt_tick_eq Let_def)

lemma bt_ticks_keep:
  "ms_position (fst m) = Some pos \<Longrightarrow> ms_position (fst (fold (bt_tick S P) ticks m)) = Some pos"
  by (induction ticks arbitrary: m) (simp_all add: bt_tick_keeps)

lemma bt_tick_opens:
  assumes "ms_position (fst m) = None" "ms_position (fst (bt_tick S P tick m)) = Some pos"
  shows "pos_ok P [tick] pos"
proof (cases m)
  case (Pair mk0 st0)
  let ?core = "fst (stack_update (bp_erf P) tick (ms_indicators mk0))"
  have w: "in_entry_window P tick"
    using assms Pair by (auto simp: bt_tick_eq Let_def split: if_splits)
  have "0 < po_entry_price pos \<and> po_entry_price pos \<le> 99 / 100 \<and> po_entry_ts pos = tc_ts (with_recent ?core (ms_recent mk0)) \<and>
    po_t_in_window pos = tc_t_in_window (with_recent ?core (ms_recent mk0))"
    using assms Pair w
    by (intro bt_decide_position) (auto simp: bt_tick_eq Let_def split: if_splits)
  with w show ?thesis by (simp add: pos_ok_def)
qed

lemma pos_ok_mono: "pos_ok P ticks pos \<Longrightarrow> set ticks \<subseteq> set ticks' \<Longrightarrow> pos_ok P ticks' pos"
  by (auto simp: pos_ok_def)

lemma bt_ticks_open:
  assumes "ms_position (fst m) = None" "ms_position (fst (fold (bt_tick S P) ticks m)) = Some pos"
  shows "pos_ok P ticks pos"
  using assms
proof (induction ticks arbitrary: m)
  case (Cons c cs)
  show ?case
  proof (cases "ms_position (fst (bt_tick S P c m))")
    case None
    with Cons have "pos_ok P cs pos" by simp
    then show ?thesis by (rule pos_ok_mono) auto
  next
    case (Some pos')
    with Cons.prems have "pos' = pos" using bt_ticks_keep [OF Some] by simp
    with Some bt_tick_opens [OF Cons.prems(1)] have "pos_ok P [c] pos" by simp
    then show ?thesis by (rule pos_ok_mono) auto
  qed
qed simp

lemma bt_tick_trades [simp]:
  "bs_trades (snd (bt_tick S P tick m)) = bs_trades (snd m)"
  "bs_trade_idx (snd (bt_tick S P tick m)) = bs_trade_idx (snd m)"
  by (cases m; simp add: bt_tick_eq Let_def)+

lemma bt_ticks_trades [simp]:
  "bs_trades (snd (fold (bt_tick S P) ticks m)) = bs_trades (snd m)"
  "bs_trade_idx (snd (fold (bt_tick S P) ticks m)) = bs_trade_idx (snd m)"
  by (induction ticks arbitrary: m) simp_all

section \<open>The replay, market by market\<close>

text \<open>The ticks of a market carry its slug.\<close>

definition own_ticks :: "(string \<times> tick_core list) list \<Rightarrow> bool" where
  "own_ticks markets = list_all (\<lambda>(slug, ticks). list_all (\<lambda>t. tc_market_slug t = slug) ticks) markets"

definition trade_ok :: "bt_params \<Rightarrow> (string \<times> tick_core list) list \<Rightarrow> backtest_trade \<Rightarrow> bool" where
  "trade_ok P markets t \<longleftrightarrow>
     (\<exists>ticks. (bt_market_slug t, ticks) \<in> set markets \<and>
        (\<exists>c \<in> set ticks. bt_entry_ts t = tc_ts c \<and> bt_entry_t_in_window t = tc_t_in_window c) \<and>
        (\<exists>fp. settle_price P (bt_market_slug t) ticks = Some fp \<and>
           bt_resolution t = (if won_market (open_price_market ticks) fp (bt_side t) then ''win'' else ''loss''))) \<and>
     ew_earliest_entry_t_s (bp_entry_window P) \<le> bt_entry_t_in_window t \<and>
     bt_entry_t_in_window t \<le> ew_latest_entry_t_s (bp_entry_window P) \<and>
     0 < bt_entry_price t \<and> bt_entry_price t \<le> 99 / 100 \<and> bt_stake_usd t = bp_stake_usd P \<and>
     (bt_resolution t = ''win'' \<and> bt_exit_price t = 1 \<and>
        bt_pnl_usd t = bt_stake_usd t / bt_entry_price t - bt_stake_usd t - bt_fee t \<or>
      bt_resolution t = ''loss'' \<and> bt_exit_price t = 0 \<and> bt_pnl_usd t = - bt_stake_usd t - bt_fee t)"

lemma close_position_ok:
  assumes "pos_ok P ticks pos" "(slug, ticks) \<in> set markets" "settle_price P slug ticks = Some fp"
  shows "trade_ok P markets (close_position P slug (open_price_market ticks) fp ct idx fs pos)"
proof -
  let ?op = "open_price_market ticks"
  have e: "0 < po_entry_price pos" using assms(1) by (simp add: pos_ok_def)
  note pay = bt_payoff.pay_win [OF e] bt_payoff.pay_loss [OF e]
  let ?t = "close_position P slug ?op fp ct idx fs pos"
  have "bt_pnl_usd ?t = resolve_pnl (po_entry_price pos) (bp_stake_usd P) (won_market ?op fp (po_side pos)) - bt_fee ?t"
    by (simp add: close_position_def Let_def)
  then have "bt_resolution ?t = ''win'' \<and> bt_exit_price ?t = 1 \<and>
        bt_pnl_usd ?t = bt_stake_usd ?t / bt_entry_price ?t - bt_stake_usd ?t - bt_fee ?t \<or>
      bt_resolution ?t = ''loss'' \<and> bt_exit_price ?t = 0 \<and> bt_pnl_usd ?t = - bt_stake_usd ?t - bt_fee ?t"
    by (cases "won_market ?op fp (po_side pos)") (simp_all add: pay close_position_def Let_def)
  moreover have "bt_market_slug ?t = slug" "bt_entry_ts ?t = po_entry_ts pos" "bt_entry_price ?t = po_entry_price pos"
    "bt_resolution ?t = (if won_market ?op fp (bt_side ?t) then ''win'' else ''loss'')"
    "bt_entry_t_in_window ?t = po_t_in_window pos" "bt_stake_usd ?t = bp_stake_usd P"
    by (simp_all add: close_position_def Let_def)
  ultimately show ?thesis using assms by (auto simp: trade_ok_def in_entry_window_def pos_ok_def)
qed

text \<open>A market appends at most one trade, numbered by the running index.\<close>

lemma bt_market_trades:
  "(bs_trades (bt_market S P (slug, ticks) st) = bs_trades st \<and> bs_trade_idx (bt_market S P (slug, ticks) st) = bs_trade_idx st) \<or>
   (\<exists>t. bs_trades (bt_market S P (slug, ticks) st) = bs_trades st @ [t] \<and>
      bs_trade_idx (bt_market S P (slug, ticks) st) = bs_trade_idx st + 1 \<and>
      bt_market_slug t = slug \<and> bt_trade_idx t = bs_trade_idx st \<and>
      ((slug, ticks) \<in> set markets \<longrightarrow> trade_ok P markets t))"
proof (cases "ticks = [] \<or> settle_price P slug ticks = None")
  case True
  then show ?thesis by (auto simp: bt_market_def)
next
  case False
  then obtain fp where fp: "settle_price P slug ticks = Some fp" by auto
  let ?st = "st\<lparr>bs_n_markets := bs_n_markets st + 1\<rparr>"
  let ?r = "fold (bt_tick S P) ticks (fresh_market P, ?st)"
  have run: "bt_market S P (slug, ticks) st = bt_settle P slug ticks fp (fst ?r) (snd ?r)"
    using False fp by (simp add: bt_market_def case_prod_beta Let_def)
  have fresh: "ms_position (fst (fresh_market P, ?st)) = None" by (simp add: fresh_market_def Let_def)
  show ?thesis
  proof (cases "ms_position (fst ?r)")
    case None
    then show ?thesis by (simp add: run bt_settle_def)
  next
    case (Some pos)
    with bt_ticks_open [OF fresh] have "pos_ok P ticks pos" by blast
    then have "(slug, ticks) \<in> set markets \<Longrightarrow> trade_ok P markets (close_position P slug (open_price_market ticks) fp ct idx fs pos)" for ct idx fs
      by (rule close_position_ok [OF _ _ fp])
    moreover have "bt_market_slug (close_position P slug op fp ct idx fs pos) = slug"
      "bt_trade_idx (close_position P slug op fp ct idx fs pos) = idx" for op ct idx fs
      by (simp_all add: close_position_def Let_def)
    ultimately show ?thesis using Some by (auto simp: run bt_settle_def Let_def)
  qed
qed

lemma bt_markets_trades:
  assumes "set ms \<subseteq> set markets" "bs_trade_idx st = length (bs_trades st)"
  shows "\<exists>new. bs_trades (fold (bt_market S P) ms st) = bs_trades st @ new \<and>
    subseq (map bt_market_slug new) (map fst ms) \<and>
    map bt_trade_idx new = [length (bs_trades st)..<length (bs_trades st) + length new] \<and>
    (\<forall>t \<in> set new. trade_ok P markets t)"
  using assms
proof (induction ms arbitrary: st)
  case (Cons m ms)
  obtain slug ticks where m: "m = (slug, ticks)" by (cases m)
  let ?st = "bt_market S P (slug, ticks) st"
  have mem: "(slug, ticks) \<in> set markets" using Cons.prems m by simp
  from bt_market_trades [of S P slug ticks st markets] show ?case
  proof (elim disjE exE conjE)
    assume "bs_trades ?st = bs_trades st" "bs_trade_idx ?st = bs_trade_idx st"
    with Cons.IH [of ?st] Cons.prems m show ?thesis by auto
  next
    fix t
    assume t: "bs_trades ?st = bs_trades st @ [t]" "bs_trade_idx ?st = bs_trade_idx st + 1"
      "bt_market_slug t = slug" "bt_trade_idx t = bs_trade_idx st"
      "(slug, ticks) \<in> set markets \<longrightarrow> trade_ok P markets t"
    with Cons.IH [of ?st] Cons.prems obtain new where new:
      "bs_trades (fold (bt_market S P) ms ?st) = bs_trades st @ [t] @ new"
      "subseq (map bt_market_slug new) (map fst ms)"
      "map bt_trade_idx new = [Suc (length (bs_trades st))..<Suc (length (bs_trades st)) + length new]"
      "\<forall>t \<in> set new. trade_ok P markets t"
      by auto
    with t mem Cons.prems(2) m show ?thesis
      by (intro exI [of _ "t # new"]) (simp add: upt_conv_Cons del: upt_Suc)
  qed
qed simp

section \<open>What a replay promises\<close>

lemma replay_trades:
  assumes "r = run_backtest S markets from_ts to_ts P risk cfg s0"
  shows "subseq (map bt_market_slug (res_trades r)) (map fst markets)"
    and "map bt_trade_idx (res_trades r) = [0..<res_n_trades r]"
    and "t \<in> set (res_trades r) \<Longrightarrow> trade_ok P markets t"
  using bt_markets_trades [of markets markets "bt_init S risk s0" S P]
  by (auto simp: assms run_backtest_def bt_init_def Let_def)

text \<open>C10. Every trade of a replay is sound. The trades come in market order, at most one per market,
  numbered from zero; each is entered at a tick of its market that lies inside the entry window,
  at a price in (0, 0.99]; it is won exactly when the settlement price lies on the side it bet on of
  the opening price, and its result is the binary payoff of that resolution less the fee.\<close>

theorem backtest_trades_sound:
  assumes "r = run_backtest S markets from_ts to_ts P risk cfg s0"
  shows "subseq (map bt_market_slug (res_trades r)) (map fst markets) \<and>
    map bt_trade_idx (res_trades r) = [0..<res_n_trades r] \<and>
    (\<forall>t \<in> set (res_trades r). trade_ok P markets t)"
  using replay_trades [OF assms] by blast

text \<open>C39. No look-ahead. Markets appended to a replay only append trades, and ticks that follow the
  opening of a position cannot change it.\<close>

theorem backtest_no_lookahead:
  "(\<exists>more. res_trades (run_backtest S (ms1 @ ms2) f t P risk cfg s0)
      = res_trades (run_backtest S ms1 f t P risk cfg s0) @ more) \<and>
   (\<forall>pos. ms_position (fst (fold (bt_tick S P) ticks m)) = Some pos \<longrightarrow>
      ms_position (fst (fold (bt_tick S P) (ticks @ later) m)) = Some pos)"
proof -
  have idx: "bs_trade_idx (fold (bt_market S P) ms1 (bt_init S risk s0))
      = length (bs_trades (fold (bt_market S P) ms1 (bt_init S risk s0)))"
  proof (induction ms1 rule: rev_induct)
    case (snoc x xs)
    then show ?case
      using bt_market_trades [of S P "fst x" "snd x" "fold (bt_market S P) xs (bt_init S risk s0)" "[]"] by auto
  qed (simp add: bt_init_def)
  have "\<exists>more. bs_trades (fold (bt_market S P) ms2 (fold (bt_market S P) ms1 (bt_init S risk s0)))
      = bs_trades (fold (bt_market S P) ms1 (bt_init S risk s0)) @ more"
    using bt_markets_trades [OF _ idx, of ms2 ms2 S P] by auto
  then show ?thesis by (auto simp: run_backtest_def Let_def bt_ticks_keep)
qed

section \<open>The risk manager inside a replay\<close>

text \<open>The ghost history of the risk manager: its checks, and one closed trade per trade.\<close>

definition risk_link :: "risk_manager \<Rightarrow> 's bt_state \<Rightarrow> risk_event list \<Rightarrow> bool" where
  "risk_link m st es \<longleftrightarrow> bs_risk st = fold risk_step es m \<and> sorted (map risk_time es) \<and>
     closes es = map (\<lambda>t. (bt_exit_ts t, bt_pnl_usd t)) (bs_trades st)"

text \<open>A trade entered at \<open>e\<close> after \<open>trades\<close> respects the limits of the manager \<open>m\<close>.\<close>

definition within_limits :: "risk_manager \<Rightarrow> backtest_trade list \<Rightarrow> epoch \<Rightarrow> bool" where
  "within_limits m trades e \<longleftrightarrow>
     (let today = filter (\<lambda>t. today_of (bt_exit_ts t) = today_of e) trades
      in int (length today) < rm_daily_trade_limit m \<and>
         - rm_daily_loss_limit m < sum_list (map bt_pnl_usd today) \<and>
         (\<forall>t \<in> set today. bt_exit_ts t + of_int (rm_cooldown_seconds m) \<le> e))"

lemma can_enter_truncate: "can_enter (tick_core.truncate ctx) m = can_enter ctx m"
  by (simp add: can_enter_def tick_core.defs Let_def)

lemma closes_on_trades:
  "closes es = map (\<lambda>t. (bt_exit_ts t, bt_pnl_usd t)) trades \<Longrightarrow>
   closes_on d es = map (\<lambda>t. (bt_exit_ts t, bt_pnl_usd t)) (filter (\<lambda>t. today_of (bt_exit_ts t) = d) trades)"
  by (simp add: closes_on_def filter_map comp_def)

lemma within_limits_admitted:
  assumes "new_risk_manager r = Inr m" "risk_link m st es" "\<forall>e \<in> set es. risk_time e \<le> tc_ts c"
    and "fst (fst (can_enter c (bs_risk st)))"
  shows "within_limits m (bs_trades st) (tc_ts (c :: tick_core))"
proof -
  have "sorted (map risk_time (es @ [Check c]))" using assms(2,3) by (auto simp: risk_link_def sorted_append)
  moreover have "bs_risk st = fold risk_step es m"
    and cl: "closes es = map (\<lambda>t. (bt_exit_ts t, bt_pnl_usd t)) (bs_trades st)"
    using assms(2) by (simp_all add: risk_link_def)
  ultimately have "int (length (closes_on (today_of (tc_ts c)) es)) < rm_daily_trade_limit m"
    "- rm_daily_loss_limit m < sum_list (map snd (closes_on (today_of (tc_ts c)) es))"
    "\<forall>c' \<in> set (closes_on (today_of (tc_ts c)) es). fst c' + of_int (rm_cooldown_seconds m) \<le> tc_ts c"
    using admitted_history [OF assms(1), of es c] assms(4) by simp_all
  then show ?thesis
    unfolding closes_on_trades [OF cl] by (simp add: within_limits_def Let_def comp_def)
qed

lemma risk_link_same:
  "bs_risk st' = bs_risk st \<Longrightarrow> bs_trades st' = bs_trades st \<Longrightarrow> risk_link m st' es = risk_link m st es"
  by (simp add: risk_link_def)

text \<open>The state of a market in progress: the history is not ahead of time \<open>t\<close>, and an open
  position was admitted.\<close>

definition market_link :: "risk_manager \<Rightarrow> real \<Rightarrow> market_state \<times> 's bt_state \<Rightarrow> bool" where
  "market_link m t ms \<longleftrightarrow>
     (\<exists>es. risk_link m (snd ms) es \<and> (\<forall>e \<in> set es. risk_time e \<le> t)) \<and>
     (\<forall>pos. ms_position (fst ms) = Some pos \<longrightarrow> within_limits m (bs_trades (snd ms)) (po_entry_ts pos))"

lemma market_link_tick:
  assumes "new_risk_manager r = Inr m" "\<not> bp_bypass_risk P" "market_link m t (mk0, st0)" "t \<le> tc_ts tick"
  shows "market_link m (tc_ts tick) (bt_tick S P tick (mk0, st0))"
proof -
  let ?core = "fst (stack_update (bp_erf P) tick (ms_indicators mk0))"
  let ?ctx = "with_recent ?core (ms_recent mk0)"
  let ?st = "st0\<lparr>bs_n_ticks := bs_n_ticks st0 + 1\<rparr>"
  let ?mk = "mk0\<lparr>ms_indicators := snd (stack_update (bp_erf P) tick (ms_indicators mk0)), ms_recent := ms_recent mk0 @ [?core]\<rparr>"
  obtain es where es: "risk_link m st0 es" "\<forall>e \<in> set es. risk_time e \<le> t"
    using assms(3) by (auto simp: market_link_def)
  then have le: "\<forall>e \<in> set es. risk_time e \<le> tc_ts ?core" using assms(4) by auto
  have es': "risk_link m ?st es" using es(1) by (simp add: risk_link_def)
  show ?thesis
  proof (cases "ms_position mk0 \<noteq> None \<or> \<not> in_entry_window P tick")
    case True
    with es' le assms(3) show ?thesis by (auto simp: bt_tick_eq Let_def market_link_def)
  next
    case False
    let ?g = "bt_gate P ?ctx ?st"
    have gate: "bs_risk (snd ?g) = risk_step (Check ?core) (bs_risk ?st)" "fst ?g = fst (fst (can_enter ?core (bs_risk ?st)))"
      using assms(2) can_enter_truncate [of ?ctx "bs_risk ?st"]
      by (simp_all add: bt_gate_def Let_def case_prod_beta)
    have link: "risk_link m (snd ?g) (es @ [Check ?core])"
      using es' le gate(1) by (auto simp: risk_link_def sorted_append)
    have bound: "\<forall>e \<in> set (es @ [Check ?core]). risk_time e \<le> tc_ts tick" using le by simp
    show ?thesis
    proof (cases "fst ?g")
      case refused: False
      with False have "bt_tick S P tick (mk0, st0) = (?mk, snd ?g)" by (simp add: bt_tick_eq Let_def)
      with False link bound show ?thesis unfolding market_link_def by fastforce
    next
      case True
      with gate(2) have lim: "within_limits m (bs_trades st0) (tc_ts tick)"
        using within_limits_admitted [OF assms(1) es' le] by simp
      have dec: "bt_tick S P tick (mk0, st0) = bt_decide S P ?ctx ?mk (snd ?g)"
        using False True by (simp add: bt_tick_eq Let_def)
      have "risk_link m (snd (bt_decide S P ?ctx ?mk (snd ?g))) (es @ [Check ?core])"
        using link by (simp add: risk_link_def)
      moreover have "po_entry_ts pos = tc_ts tick" if "ms_position (fst (bt_decide S P ?ctx ?mk (snd ?g))) = Some pos" for pos
        using bt_decide_position [OF _ that] False by simp
      ultimately show ?thesis
        using bound lim unfolding dec market_link_def by fastforce
    qed
  qed
qed

lemma market_link_ticks:
  assumes "new_risk_manager r = Inr m" "\<not> bp_bypass_risk P"
  shows "market_link m t ms \<Longrightarrow> sorted (t # map tc_ts ticks @ [c]) \<Longrightarrow> market_link m c (fold (bt_tick S P) ticks ms)"
proof (induction ticks arbitrary: t ms)
  case Nil
  then show ?case by (fastforce simp: market_link_def)
next
  case (Cons tick ticks)
  obtain mk st where ms: "ms = (mk, st)" by (cases ms)
  from Cons.prems ms have "market_link m (tc_ts tick) (bt_tick S P tick ms)"
    using market_link_tick [OF assms, of t mk st tick S] by simp
  with Cons show ?case by simp
qed

text \<open>Markets in chronological order: the ticks of a market in order and before its close, and
  no market starting before the previous one closed.\<close>

fun chronological :: "real \<Rightarrow> (string \<times> tick_core list) list \<Rightarrow> bool" where
  "chronological t [] \<longleftrightarrow> True"
| "chronological t ((slug, ticks) # ms) \<longleftrightarrow>
     (if ticks = [] then chronological t ms
      else sorted (t # map tc_ts ticks @ [close_ts_of ticks]) \<and> chronological (close_ts_of ticks) ms)"

text \<open>Every trade respects the limits with respect to the trades before it.\<close>

fun all_within :: "risk_manager \<Rightarrow> backtest_trade list \<Rightarrow> backtest_trade list \<Rightarrow> bool" where
  "all_within m before [] \<longleftrightarrow> True"
| "all_within m before (t # ts) \<longleftrightarrow> within_limits m before (bt_entry_ts t) \<and> all_within m (before @ [t]) ts"

lemma all_within_snoc: "all_within m before (ts @ [t]) \<longleftrightarrow> all_within m before ts \<and> within_limits m (before @ ts) (bt_entry_ts t)"
  by (induction ts arbitrary: before) auto

definition run_link :: "risk_manager \<Rightarrow> real \<Rightarrow> 's bt_state \<Rightarrow> bool" where
  "run_link m t st \<longleftrightarrow> (\<exists>es. risk_link m st es \<and> (\<forall>e \<in> set es. risk_time e \<le> t)) \<and> all_within m [] (bs_trades st)"

lemma run_link_market:
  assumes "new_risk_manager r = Inr m" "\<not> bp_bypass_risk P" "run_link m t st" "ticks \<noteq> []"
    and "sorted (t # map tc_ts ticks @ [close_ts_of ticks])"
  shows "run_link m (close_ts_of ticks) (bt_market S P (slug, ticks) st)"
proof (cases "settle_price P slug ticks")
  case None
  with assms(3-5) show ?thesis by (fastforce simp: bt_market_def run_link_def risk_link_def)
next
  case (Some fp)
  let ?st = "st\<lparr>bs_n_markets := bs_n_markets st + 1\<rparr>"
  let ?r = "fold (bt_tick S P) ticks (fresh_market P, ?st)"
  have run: "bt_market S P (slug, ticks) st = bt_settle P slug ticks fp (fst ?r) (snd ?r)"
    using assms(4) Some by (simp add: bt_market_def case_prod_beta Let_def)
  have "market_link m t (fresh_market P, ?st)"
    using assms(3) by (simp add: market_link_def run_link_def risk_link_def fresh_market_def Let_def)
  then have link: "market_link m (close_ts_of ticks) ?r" by (rule market_link_ticks [OF assms(1,2) _ assms(5)])
  then obtain es where es: "risk_link m (snd ?r) es" "\<forall>e \<in> set es. risk_time e \<le> close_ts_of ticks"
    by (auto simp: market_link_def)
  have old: "all_within m [] (bs_trades st)" using assms(3) by (simp add: run_link_def)
  show ?thesis
  proof (cases "ms_position (fst ?r)")
    case None
    with es old show ?thesis by (auto simp: run bt_settle_def run_link_def)
  next
    case (Some pos)
    define t where "t = close_position P slug (open_price_market ticks) fp (close_ts_of ticks)
      (bs_trade_idx (snd ?r)) (ms_first_seen (fst ?r)) pos"
    have sel: "bt_entry_ts t = po_entry_ts pos" "bt_exit_ts t = close_ts_of ticks"
      by (simp_all add: t_def close_position_def Let_def)
    let ?s = "snd ?r\<lparr>bs_trades := bs_trades (snd ?r) @ [t], bs_trade_idx := bs_trade_idx (snd ?r) + 1,
      bs_risk := on_trade_closed (bt_pnl_usd t) (close_ts_of ticks) (bs_risk (snd ?r))\<rparr>"
    have eq: "bt_market S P (slug, ticks) st = ?s"
      using Some assms(2) unfolding run by (simp add: bt_settle_def t_def Let_def)
    have "risk_link m ?s (es @ [Closed (bt_pnl_usd t) (close_ts_of ticks)])"
      using es sel by (auto simp: risk_link_def sorted_append)
    moreover have "within_limits m (bs_trades st) (po_entry_ts pos)"
      using link Some by (simp add: market_link_def)
    then have "all_within m [] (bs_trades ?s)" using old by (simp add: all_within_snoc sel)
    ultimately show ?thesis using es(2) unfolding eq run_link_def by fastforce
  qed
qed

lemma run_link_markets:
  assumes "new_risk_manager r = Inr m" "\<not> bp_bypass_risk P"
  shows "run_link m t st \<Longrightarrow> chronological t ms \<Longrightarrow> \<exists>t'. run_link m t' (fold (bt_market S P) ms st)"
proof (induction ms arbitrary: t st)
  case (Cons x ms)
  obtain slug ticks where x: "x = (slug, ticks)" by (cases x)
  show ?case
  proof (cases "ticks = []")
    case True
    with Cons x show ?thesis by (simp add: bt_market_def)
  next
    case False
    with Cons.prems x run_link_market [OF assms Cons.prems(1) False, of S slug]
    show ?thesis using Cons.IH [of "close_ts_of ticks"] by simp
  qed
qed auto

lemma all_within_nth: "all_within m before ts \<Longrightarrow> i < length ts \<Longrightarrow> within_limits m (before @ take i ts) (bt_entry_ts (ts ! i))"
proof (induction ts arbitrary: before i)
  case (Cons t ts)
  then show ?case by (cases i) fastforce+
qed simp

lemma replay_within_limits:
  assumes "new_risk_manager cfg_risk = Inr m" and "\<not> bp_bypass_risk P" and "chronological t0 markets"
    and "r = run_backtest S markets from_ts to_ts P m cfg s0" and "i < length (res_trades r)"
  shows "within_limits m (take i (res_trades r)) (bt_entry_ts (res_trades r ! i))"
proof -
  have "run_link m t0 (bt_init S m s0)"
    unfolding run_link_def by (intro conjI exI [of _ "[]"]) (simp_all add: risk_link_def bt_init_def)
  from run_link_markets [OF assms(1,2) this assms(3), of S]
  have "all_within m [] (res_trades r)" by (auto simp: assms(4) run_backtest_def run_link_def Let_def)
  from all_within_nth [OF this assms(5)] show ?thesis by simp
qed

text \<open>C9. A replay obeys the risk limits. When the markets come in chronological order and the
  risk gate is not bypassed, each trade was entered when fewer trades than the daily limit had
  closed that UTC day, with the day's result above minus the daily loss limit, and at least the
  cooldown after each of them closed.\<close>

theorem backtest_respects_risk_limits:
  assumes "new_risk_manager cfg_risk = Inr m" and "\<not> bp_bypass_risk P" and "chronological t0 markets"
    and "r = run_backtest S markets from_ts to_ts P m cfg s0" and "i < length (res_trades r)"
  shows "within_limits m (take i (res_trades r)) (bt_entry_ts (res_trades r ! i))"
  using assms by (rule replay_within_limits)

section \<open>The figures\<close>

lemma mdd_loop_start: "mdd_loop ps e pk m \<le> m"
proof (induction ps arbitrary: e pk m)
  case (Cons p ps)
  show ?case
    using order_trans [OF Cons.IH min.cobounded1] by (simp add: Let_def)
qed simp

lemma average_times: "real (length xs) * (if xs \<noteq> [] then sum_list xs / real (length xs) else 0) = sum_list xs"
  by simp

lemma mdd_loop_le:
  assumes "e \<le> pk" "m \<le> e - pk" "i \<le> j" "j \<le> length ps"
  shows "mdd_loop ps e pk m \<le> sum_list (take j ps) - sum_list (take i ps) \<and>
    mdd_loop ps e pk m \<le> e + sum_list (take j ps) - pk"
  using assms
proof (induction ps arbitrary: e pk m i j)
  case (Cons p ps)
  let ?e = "e + p" and ?pk = "max pk (e + p)"
  let ?m = "min m (?e - ?pk)"
  have IH: "i' \<le> j' \<Longrightarrow> j' \<le> length ps \<Longrightarrow>
      mdd_loop ps ?e ?pk ?m \<le> sum_list (take j' ps) - sum_list (take i' ps) \<and>
      mdd_loop ps ?e ?pk ?m \<le> ?e + sum_list (take j' ps) - ?pk" for i' j'
    by (rule Cons.IH) auto
  have low: "mdd_loop ps ?e ?pk ?m \<le> m"
    by (rule order_trans [OF mdd_loop_start min.cobounded1])
  show ?case
  proof (cases j)
    case 0
    with Cons.prems low show ?thesis by (simp add: Let_def)
  next
    case (Suc j')
    with Cons.prems have j': "j' \<le> length ps" by simp
    from IH [OF _ j', of 0] have a: "mdd_loop ps ?e ?pk ?m \<le> e + p + sum_list (take j' ps) - max pk (e + p)" by simp
    then have b: "mdd_loop ps ?e ?pk ?m \<le> e + (p + sum_list (take j' ps)) - pk" by linarith
    show ?thesis
    proof (cases i)
      case 0
      with b Suc Cons.prems(1) show ?thesis by (simp add: Let_def)
    next
      case i: (Suc i')
      with Cons.prems Suc have "i' \<le> j'" by simp
      from IH [OF this j'] b Suc i show ?thesis by (simp add: Let_def)
    qed
  qed
qed simp

lemma mdd_loop_attained:
  "mdd_loop ps e pk m = m \<or> (\<exists>j \<le> length ps. mdd_loop ps e pk m = e + sum_list (take j ps) - pk) \<or>
   (\<exists>i j. i \<le> j \<and> j \<le> length ps \<and> mdd_loop ps e pk m = sum_list (take j ps) - sum_list (take i ps))"
proof (induction ps arbitrary: e pk m)
  case (Cons p ps)
  let ?L = "mdd_loop ps (e + p) (max pk (e + p)) (min m (e + p - max pk (e + p)))"
  let ?Q = "\<lambda>x. x = m \<or> (\<exists>j \<le> length (p # ps). x = e + sum_list (take j (p # ps)) - pk) \<or>
    (\<exists>i j. i \<le> j \<and> j \<le> length (p # ps) \<and> x = sum_list (take j (p # ps)) - sum_list (take i (p # ps)))"
  have peak: "?Q (e + p + sum_list (take j ps) - max pk (e + p))" if "j \<le> length ps" for j
  proof (cases "pk \<le> e + p")
    case True
    with that show ?thesis by (intro disjI2 exI [of _ 1] exI [of _ "Suc j"]) simp
  next
    case False
    with that show ?thesis by (intro disjI2 disjI1 exI [of _ "Suc j"]) simp
  qed
  consider "?L = min m (e + p - max pk (e + p))"
    | j where "j \<le> length ps" "?L = e + p + sum_list (take j ps) - max pk (e + p)"
    | i j where "i \<le> j" "j \<le> length ps" "?L = sum_list (take j ps) - sum_list (take i ps)"
    using Cons.IH [of "e + p" "max pk (e + p)" "min m (e + p - max pk (e + p))"] by blast
  then have "?Q ?L"
  proof cases
    case 1
    then have "?L = m \<or> ?L = e + p + sum_list (take 0 ps) - max pk (e + p)" by (auto simp: min_def)
    with peak [of 0] show ?thesis by auto
  next
    case 2
    with peak show ?thesis by metis
  next
    case 3
    then show ?thesis by (intro disjI2 exI [of _ "Suc i"] exI [of _ "Suc j"]) simp
  qed
  then show ?case by (simp add: Let_def)
qed simp

lemma sum_values_update:
  "distinct (keys_of d) \<Longrightarrow> sum_list (values_of (AList.update k (dict_getd d k 0 + x) d)) = sum_list (values_of d) + (x :: real)"
proof (induction d)
  case (Cons a d)
  show ?case
  proof (cases "fst a = k")
    case True
    then show ?thesis by (cases a) (simp add: dict_getd_def)
  next
    case False
    then have "dict_getd (a # d) k 0 = dict_getd d k 0" by (cases a) (simp add: dict_getd_def)
    with Cons False show ?thesis by (cases a) simp
  qed
qed simp

lemma daily_pnls_total:
  "distinct (keys_of (daily_pnls ts)) \<and> sum_list (values_of (daily_pnls ts)) = sum_list (map bt_pnl_usd ts)"
proof (induction ts rule: rev_induct)
  case (snoc t ts)
  have "daily_pnls (ts @ [t]) = AList.update (today_of (bt_entry_ts t))
      (dict_getd (daily_pnls ts) (today_of (bt_entry_ts t)) 0 + bt_pnl_usd t) (daily_pnls ts)"
    by (simp add: daily_pnls_def Let_def)
  with snoc sum_values_update [of "daily_pnls ts"] show ?case by (simp add: distinct_update)
qed (simp add: daily_pnls_def)

lemma sum_wins_losses:
  "sum_list (filter (\<lambda>p. p > 0) xs) + sum_list (filter (\<lambda>p. p \<le> 0) xs) = sum_list (xs :: real list)"
  by (induction xs) auto

text \<open>C11. The figures say what they are named after. Wins and losses partition the trades, the
  average is the total over the number, the daily results (one per UTC day) add up to the total,
  and the maximum drawdown is exactly the deepest fall of the equity curve from an earlier point
  of it: no fall is deeper, and one attains it.\<close>

theorem kpis_correct:
  fixes duration :: real
  assumes "trades \<noteq> []"
  defines "pnls \<equiv> map bt_pnl_usd trades" and "k \<equiv> compute_kpis trades duration"
  shows "pf_wins (fst k) + pf_losses (fst k) = length trades \<and>
    pf_total_pnl (fst k) = sum_list pnls \<and> pf_avg_pnl (fst k) * real (length trades) = sum_list pnls \<and>
    real (pf_wins (fst k)) * pf_avg_win (fst k) + real (pf_losses (fst k)) * pf_avg_loss (fst k) = sum_list pnls \<and>
    distinct (keys_of (daily_pnls trades)) \<and> sum_list (values_of (daily_pnls trades)) = sum_list pnls \<and>
    (\<forall>i j. i \<le> j \<and> j \<le> length pnls \<longrightarrow>
       ra_mdd_usd (snd k) \<le> sum_list (take j pnls) - sum_list (take i pnls)) \<and>
    (\<exists>i j. i \<le> j \<and> j \<le> length pnls \<and> ra_mdd_usd (snd k) = sum_list (take j pnls) - sum_list (take i pnls))"
proof -
  have mdd: "ra_mdd_usd (snd k) = mdd_loop pnls 0 0 0"
    using assms(1) by (simp add: k_def compute_kpis_def pnls_def Let_def)
  have "\<exists>i j. i \<le> j \<and> j \<le> length pnls \<and> mdd_loop pnls 0 0 0 = sum_list (take j pnls) - sum_list (take i pnls)"
    using mdd_loop_attained [of pnls 0 0 0]
  proof (elim disjE exE conjE)
    assume "mdd_loop pnls 0 0 0 = 0"
    then show ?thesis by (intro exI [of _ 0]) simp
  next
    fix j assume "j \<le> length pnls" "mdd_loop pnls 0 0 0 = 0 + sum_list (take j pnls) - 0"
    then show ?thesis by (intro exI [of _ 0] exI [of _ j]) simp
  qed blast
  moreover have "pf_wins (fst k) + pf_losses (fst k) = length trades"
    using assms(1) sum_length_filter_compl [of "\<lambda>p. p > 0" pnls]
    by (simp add: k_def compute_kpis_def pnls_def Let_def not_less)
  moreover have "real (pf_wins (fst k)) * pf_avg_win (fst k) + real (pf_losses (fst k)) * pf_avg_loss (fst k) = sum_list pnls"
  proof -
    let ?w = "filter (\<lambda>p. p > 0) pnls" and ?l = "filter (\<lambda>p. p \<le> 0) pnls"
    have "real (pf_wins (fst k)) * pf_avg_win (fst k) = sum_list ?w"
      "real (pf_losses (fst k)) * pf_avg_loss (fst k) = sum_list ?l"
      using assms(1) average_times [of ?w] average_times [of ?l]
      by (simp_all only: k_def compute_kpis_def pnls_def Let_def fst_conv performance.simps if_False)
    with sum_wins_losses [of pnls] show ?thesis by simp
  qed
  ultimately show ?thesis
    using assms(1) daily_pnls_total [of trades] mdd mdd_loop_le [of 0 0 0 _ _ pnls]
    by (simp add: k_def compute_kpis_def pnls_def Let_def)
qed

text \<open>The two settlement routines agree: for a position entered at a positive price in a market
  with positive prices, the backtest result less a fee is the result \<open>settle\<close> computes from the
  direction of the market, where a tie counts as up.\<close>

theorem backtest_settles_like_paper:
  assumes "0 < entry" and "0 < op" and "0 < fp"
  shows "resolve_pnl entry stake (won_market op fp sd) - fee = snd (snd (settle sd entry stake fee (op \<le> fp))) \<and>
    (fst (settle sd entry stake fee (op \<le> fp)) = ''win'' \<longleftrightarrow> won_market op fp sd)"
  using assms by (auto simp: resolve_pnl_def won_market_def settle_def Let_def)

section \<open>A worked example\<close>

text \<open>A strategy that always buys the up side, on one market with a tick inside the window and one
  after it.\<close>

definition ex_strategy :: "unit strategy" where
  "ex_strategy = \<lparr>sg_name = ''always_up'', sg_on_start = id,
     sg_should_enter = (\<lambda>ctx s. (mk_decision ENTER YES_UP (ftext ''up'') [], s)), sg_on_stop = id\<rparr>"

definition ex_bt_risk_cfg :: "(string, real) dict" where
  "ex_bt_risk_cfg = AList.update ''min_z_score'' 0 (AList.update ''min_edge_bps'' 0 ex_risk_cfg)"

definition ex_bt_manager :: risk_manager where
  "ex_bt_manager = ex_manager\<lparr>rm_min_z_score := 0, rm_min_edge_bps := 0\<rparr>"

definition ex_bt_params :: bt_params where
  "ex_bt_params = \<lparr>bp_stake_usd = 11, bp_fill_cfg = default_fill_config\<lparr>fc_slippage_bps := 0\<rparr>,
     bp_entry_window = default_entry_window, bp_indicator_cfg = default_indicator_config,
     bp_bypass_risk = False, bp_draws = (\<lambda>_. 0), bp_erf = (\<lambda>_. 0), bp_settle_prices = None\<rparr>"

definition ex_tick1 :: tick_core where
  "ex_tick1 = ex_core\<lparr>tc_ts := 150, tc_t_in_window := 150\<rparr>"

definition ex_tick2 :: tick_core where
  "ex_tick2 = ex_core\<lparr>tc_ts := 290, tc_t_in_window := 290, tc_spot_price := 101\<rparr>"

definition ex_markets :: "(string \<times> tick_core list) list" where
  "ex_markets = [(''m'', [ex_tick1, ex_tick2])]"

lemma ex_bt_manager_init: "new_risk_manager ex_bt_risk_cfg = Inr ex_bt_manager"
  by (simp add: new_risk_manager_def ex_bt_risk_cfg_def ex_risk_cfg_def risk_keys_def ex_bt_manager_def
      ex_manager_def dict_getd_def py_int_def today_of_def)

lemma ex_admitted:
  "fst (fst (can_enter (with_recent (fst (stack_update f ex_tick1 st)) r) ex_bt_manager))"
  by (simp add: can_enter_ok_iff with_recent_def tick_core.defs stack_update_def case_prod_beta Let_def
      ex_bt_manager_def ex_risk_simps ex_tick1_def)

lemma ex_decides:
  "tc_pm_yes_ask ctx = 11 / 20 \<Longrightarrow> ms_position (fst (bt_decide ex_strategy ex_bt_params ctx mk st)) \<noteq> None"
  by (simp add: bt_decide_def ex_strategy_def mk_decision_def ex_bt_params_def default_fill_config_def
      fill_price_of_def Let_def)

lemma ex_first_tick:
  "ms_position (fst (bt_tick ex_strategy ex_bt_params ex_tick1 (fresh_market ex_bt_params,
     (bt_init ex_strategy ex_bt_manager ())\<lparr>bs_n_markets := 1\<rparr>))) \<noteq> None"
proof -
  have "in_entry_window ex_bt_params ex_tick1"
    by (simp add: in_entry_window_def ex_bt_params_def default_entry_window_def ex_tick1_def)
  moreover have "fst (bt_gate ex_bt_params (with_recent (fst (stack_update f ex_tick1 st)) r) bs)"
    if "bs_risk bs = ex_bt_manager" for f st r and bs :: "unit bt_state"
    using that ex_admitted [of f st r] by (simp add: bt_gate_def case_prod_beta Let_def ex_bt_params_def)
  moreover have "tc_pm_yes_ask (with_recent (fst (stack_update f ex_tick1 st)) r) = 11 / 20" for f st r
    using stack_update_market [of ex_tick1 f st]
    by (simp add: with_recent_def tick_core.defs same_market_def ex_tick1_def ex_core_def)
  ultimately show ?thesis
    by (simp add: bt_tick_eq ex_decides fresh_market_def bt_init_def Let_def)
qed

lemma ex_trades: "length (res_trades (run_backtest ex_strategy ex_markets 0 300 ex_bt_params ex_bt_manager [] ())) = 1"
proof -
  obtain pos where "ms_position (fst (bt_tick ex_strategy ex_bt_params ex_tick1 (fresh_market ex_bt_params,
     (bt_init ex_strategy ex_bt_manager ())\<lparr>bs_n_markets := 1\<rparr>))) = Some pos"
    using ex_first_tick by blast
  from bt_tick_keeps [OF this] show ?thesis
    by (simp add: run_backtest_def ex_markets_def bt_market_def settle_price_def bt_settle_def case_prod_beta Let_def bt_init_def
      arg_cong [OF ex_bt_params_def, of bp_settle_prices])
qed

theorem backtest_trades_sound_witness:
  "\<exists>t. res_trades (run_backtest ex_strategy ex_markets 0 300 ex_bt_params ex_bt_manager [] ()) = [t] \<and>
     trade_ok ex_bt_params ex_markets t"
proof -
  obtain t where t: "res_trades (run_backtest ex_strategy ex_markets 0 300 ex_bt_params ex_bt_manager [] ()) = [t]"
    using ex_trades by (auto simp: length_Suc_conv)
  with backtest_trades_sound [OF refl, of ex_strategy ex_markets 0 300 ex_bt_params ex_bt_manager "[]" "()"]
  show ?thesis by simp
qed

theorem backtest_no_lookahead_witness:
  "ms_position (fst (fold (bt_tick ex_strategy ex_bt_params) ([ex_tick1] @ [ex_tick2]) (fresh_market ex_bt_params,
     (bt_init ex_strategy ex_bt_manager ())\<lparr>bs_n_markets := 1\<rparr>))) \<noteq> None"
  using backtest_no_lookahead [of ex_strategy "[]" "[]" 0 0 ex_bt_params ex_bt_manager "[]" "()" "[ex_tick1]"
      "(fresh_market ex_bt_params, (bt_init ex_strategy ex_bt_manager ())\<lparr>bs_n_markets := 1\<rparr>)" "[ex_tick2]"] ex_first_tick
  by auto

theorem backtest_respects_risk_limits_witness:
  "\<exists>t. res_trades (run_backtest ex_strategy ex_markets 0 300 ex_bt_params ex_bt_manager [] ()) = [t] \<and>
     within_limits ex_bt_manager [] (bt_entry_ts t)"
proof -
  have "\<not> bp_bypass_risk ex_bt_params" by (simp add: ex_bt_params_def)
  moreover have "chronological 0 ex_markets"
    by (simp add: ex_markets_def close_ts_of_def float_or_def ex_tick1_def ex_tick2_def ex_core_def)
  moreover obtain t where t: "res_trades (run_backtest ex_strategy ex_markets 0 300 ex_bt_params ex_bt_manager [] ()) = [t]"
    using ex_trades by (auto simp: length_Suc_conv)
  ultimately show ?thesis
    using backtest_respects_risk_limits [OF ex_bt_manager_init _ _ refl, of ex_bt_params 0 ex_markets 0 ex_strategy 0 300 "[]" "()"]
    by simp
qed

definition ex_trade :: "real \<Rightarrow> backtest_trade" where
  "ex_trade pnl = (close_position ex_bt_params ''m'' 100 101 300 0 None
     (open_position ex_tick1 (mk_decision ENTER YES_UP (ftext ''up'') []) 0 (1 / 2)))\<lparr>bt_pnl_usd := pnl\<rparr>"

theorem kpis_correct_witness:
  "let k = compute_kpis [ex_trade 2, ex_trade (- 3)] 1
   in pf_wins (fst k) + pf_losses (fst k) = 2 \<and> ra_mdd_usd (snd k) \<le> - 3"
proof -
  have ne: "[ex_trade 2, ex_trade (- 3)] \<noteq> []" by simp
  let ?k = "compute_kpis [ex_trade 2, ex_trade (- 3)] 1"
  have "ra_mdd_usd (snd ?k) \<le> sum_list (take 2 (map bt_pnl_usd [ex_trade 2, ex_trade (- 3)]))
      - sum_list (take 1 (map bt_pnl_usd [ex_trade 2, ex_trade (- 3)]))"
    using kpis_correct [OF ne, of 1] by (elim conjE) (metis length_map length_Cons list.size(3) one_le_numeral order_refl numeral_2_eq_2)
  then have "ra_mdd_usd (snd ?k) \<le> - 3" by (simp add: ex_trade_def)
  moreover have "pf_wins (fst ?k) + pf_losses (fst ?k) = 2" using kpis_correct [OF ne, of 1] by simp
  ultimately show ?thesis by (simp add: Let_def)
qed

theorem backtest_settles_like_paper_witness:
  "snd (snd (settle YES_UP (1 / 2) 10 0 (100 \<le> (100 :: real)))) = 10"
  using backtest_settles_like_paper [of "1 / 2" 100 100 10 YES_UP 0]
  by (simp add: resolve_pnl_def won_market_def)

end
