(* ===== verification/Paper_Driver.thy ===== *)
theory Paper_Driver
  imports Exec_Client Backtest
begin

text \<open>
  \<open>paper/driver.py\<close>: the driver of a directional strategy in the paper engine. \<open>paper_driver\<close> is
  the state of \<open>PaperDriver\<close> with the components it calls (strategy, risk manager, execution
  client), the tables the execution client writes and the messages handed to Telegram.
  \<open>handle_tick\<close> is \<open>_handle_tick\<close>; the background loops are one definition per iteration:
  \<open>settle_watchdog_step\<close>, \<open>orphan_cleanup_step\<close>, \<open>kill_switch_step\<close>, \<open>reconciliation_step\<close>,
  \<open>eval_summary_step\<close>; \<open>handle_control_message\<close> the control channel; \<open>boot\<close> what \<open>run\<close> does
  before it listens. The market-data tables the settlement queries are the parameter \<open>md\<close>, the
  wall clock and the file system are arguments. A raise inside a handler is caught by its loop
  and leaves the state as it was at that point. The strategy's numbers are exact.
\<close>

section \<open>State\<close>

record driver_config =
  dv_strategy_id :: string
  dv_stake_usd :: real
  dv_earliest_entry_t :: real
  dv_latest_entry_t :: real
  dv_daily_alert_pnl_threshold :: real
  dv_daily_pause_pnl_threshold :: real

datatype tg_message =
    TradeOpen string string real real
  | TradeClose string real string
  | LossThreshold real real
  | KillSwitchOn
  | KillSwitchOff
  | ReconciliationFail fstring

record 's paper_driver =
  pd_strategy :: "'s strategy"
  pd_strat_state :: 's
  pd_risk :: risk_manager
  pd_exec :: exec_client
  pd_cfg :: driver_config
  pd_indicators :: "(string, indicator_stack) dict"
  pd_recent_ticks :: "(string, tick_core list) dict"
  pd_last_tick_at :: "(string, real) dict"
  pd_open_positions :: "(string, exec_position) dict"
  pd_trade_taken :: "string set"
  pd_today :: "int option"
  pd_daily_pnl :: real
  pd_daily_trades :: int
  pd_kill_switch_last_state :: bool
  pd_paused :: bool
  pd_eval_counts :: "(string, int) dict"
  pd_eval_skip_reasons :: "(fstring, int) dict"
  pd_hb_open_positions :: nat
  pd_hb_trades_today :: int
  pd_db :: trading_db
  pd_sent :: "tg_message list"

definition new_paper_driver ::
  "'s strategy \<Rightarrow> 's \<Rightarrow> risk_manager \<Rightarrow> exec_client \<Rightarrow> driver_config \<Rightarrow> trading_db \<Rightarrow> 's paper_driver" where
  "new_paper_driver strat s0 risk exec cfg db =
     \<lparr>pd_strategy = strat, pd_strat_state = s0, pd_risk = risk, pd_exec = exec, pd_cfg = cfg,
      pd_indicators = [], pd_recent_ticks = [], pd_last_tick_at = [], pd_open_positions = [],
      pd_trade_taken = {}, pd_today = None, pd_daily_pnl = 0, pd_daily_trades = 0,
      pd_kill_switch_last_state = False, pd_paused = False, pd_eval_counts = [],
      pd_eval_skip_reasons = [], pd_hb_open_positions = 0, pd_hb_trades_today = 0, pd_db = db,
      pd_sent = []\<rparr>"

definition send :: "tg_message \<Rightarrow> 's paper_driver \<Rightarrow> 's paper_driver" where
  "send m d = d\<lparr>pd_sent := pd_sent d @ [m]\<rparr>"

definition bump_counter :: "string \<Rightarrow> fstring option \<Rightarrow> 's paper_driver \<Rightarrow> 's paper_driver" where
  "bump_counter bucket reason d =
     (let d1 = d\<lparr>pd_eval_counts := AList.update bucket (dict_getd (pd_eval_counts d) bucket 0 + 1) (pd_eval_counts d)\<rparr>
      in case reason of
           Some r \<Rightarrow> if r \<noteq> [] then d1\<lparr>pd_eval_skip_reasons :=
               AList.update r (dict_getd (pd_eval_skip_reasons d) r 0 + 1) (pd_eval_skip_reasons d)\<rparr> else d1
         | None \<Rightarrow> d1)"

section \<open>Ticks from the stream\<close>

text \<open>A decoded payload: numbers by key, \<open>None\<close> for JSON null, and the strings it carries.\<close>

record tick_dict =
  td_num :: "(string, real option) dict"
  td_market_slug :: string
  td_condition_id :: "string option"

text \<open>\<open>float(d.get(key, 0.0) or 0.0)\<close>.\<close>

definition num_or0 :: "tick_dict \<Rightarrow> string \<Rightarrow> real" where
  "num_or0 d k = (case map_of (td_num d) k of Some (Some x) \<Rightarrow> x | _ \<Rightarrow> 0)"

definition tick_from_dict :: "tick_dict \<Rightarrow> py_error + tick_core" where
  "tick_from_dict d =
     (case map_of (td_num d) ''ts'' of
        Some (Some t) \<Rightarrow>
          (case map_of (td_num d) ''window_close_ts'' of
             Some (Some close_ts) \<Rightarrow>
               if map_of (td_num d) ''t_in_window'' = Some None then Inl (ValueError ''t_in_window'')
               else (let spot = num_or0 d ''spot_price'';
                    op = num_or0 d ''open_price'';
                    delta = (if op > 0 then (spot - op) / op * 10000 else 0);
                    cl = num_or0 d ''chainlink_price''
                in Inr \<lparr>tc_ts = t, tc_market_slug = td_market_slug d, tc_t_in_window = num_or0 d ''t_in_window'',
                    tc_window_close_ts = close_ts, tc_spot_price = spot,
                    tc_chainlink_price = (if cl \<noteq> 0 then Some cl else None), tc_open_price = op,
                    tc_pm_yes_bid = num_or0 d ''pm_yes_bid'', tc_pm_yes_ask = num_or0 d ''pm_yes_ask'',
                    tc_pm_no_bid = num_or0 d ''pm_no_bid'', tc_pm_no_ask = num_or0 d ''pm_no_ask'',
                    tc_pm_depth_yes = num_or0 d ''pm_depth_yes'', tc_pm_depth_no = num_or0 d ''pm_depth_no'',
                    tc_pm_imbalance = num_or0 d ''pm_imbalance'', tc_pm_spread_bps = num_or0 d ''pm_spread_bps'',
                    tc_implied_prob_yes = num_or0 d ''implied_prob_yes'', tc_model_prob_yes = 0, tc_edge = 0,
                    tc_z_score = 0, tc_vol_regime = ''unknown'', tc_t_to_close = max 0 (close_ts - t),
                    tc_ema_fast = 0, tc_ema_slow = 0, tc_rsi_14 = 50, tc_vol_realized = 0, tc_vol_ewma = 0,
                    tc_delta_bps = delta\<rparr>)
           | _ \<Rightarrow> Inl (KeyError ''window_close_ts''))
      | _ \<Rightarrow> Inl (KeyError ''ts''))"

definition condition_id_placeholder :: "tick_dict \<Rightarrow> string \<Rightarrow> string" where
  "condition_id_placeholder d slug =
     (case td_condition_id d of Some c \<Rightarrow> if c \<noteq> [] then c else ''local:'' @ slug | None \<Rightarrow> ''local:'' @ slug)"

section \<open>Reasons and their tags\<close>

definition has_substring :: "string \<Rightarrow> string \<Rightarrow> bool" where
  "has_substring needle hay \<longleftrightarrow>
     list_ex (\<lambda>i. take (length needle) (drop i hay) = needle) [0..<Suc (length hay)]"

text \<open>\<open>needle in text\<close> for a needle of letters and punctuation, which no number renders.\<close>

definition mentions :: "string \<Rightarrow> fstring \<Rightarrow> bool" where
  "mentions needle f \<longleftrightarrow>
     list_ex (\<lambda>p. case p of FTxt t \<Rightarrow> has_substring needle t | FStr t \<Rightarrow> has_substring needle t | _ \<Rightarrow> False) f"

fun trip_text :: "trip \<Rightarrow> fstring" where
  "trip_text NoTrip = []"
| "trip_text (DailyLossHit x) = [FTxt ''daily_loss_limit hit: '', FNum 2 x]"

fun pause_text :: "pause_cause \<Rightarrow> fstring" where
  "pause_text NoPause = []"
| "pause_text (RollingLoss x) = [FTxt ''rolling loss $'', FNum 2 x]"

fun verdict_text :: "verdict \<Rightarrow> fstring" where
  "verdict_text Ok = ftext ''ok''"
| "verdict_text (CircuitBreaker t) = FTxt ''circuit_breaker: '' # trip_text t"
| "verdict_text (CoolOff n c) =
     [FTxt ''cool-off rodante '', FInt n, FTxt ''s restantes (''] @ pause_text c @ [FTxt '')'']"
| "verdict_text (Cooldown n) = [FTxt ''cooldown '', FInt n, FTxt ''s restantes'']"
| "verdict_text (DailyTradeLimit n) = [FTxt ''limite de trades diarios ('', FInt n, FTxt '')'']"
| "verdict_text (DailyLossLimit t) = trip_text t"
| "verdict_text (SpreadTooWide x) = [FTxt ''spread PM muy ancho ('', FNum 0 x, FTxt '' bps)'']"
| "verdict_text (DepthLow x y) = [FTxt ''depth bajo ($'', FNum 1 x, FTxt '' < $'', FVal y, FTxt '')'']"
| "verdict_text (ZScoreLow x y) = [FTxt ''z_score bajo ('', FNum 2 x, FTxt '' < '', FVal y, FTxt '')'']"
| "verdict_text (EdgeLow x) = [FTxt ''edge bajo ('', FNum 0 x, FTxt '' bps)'']"

fun first_word :: "fstring \<Rightarrow> string" where
  "first_word (FTxt t # _) = takeWhile (\<lambda>c. c \<noteq> CHR '' '') t"
| "first_word _ = ''unknown''"

definition risk_tag :: "fstring \<Rightarrow> string" where
  "risk_tag reason =
     (if mentions ''cooldown'' reason then ''cooldown''
      else if mentions ''z_score'' reason then ''risk_z_score''
      else if mentions ''edge'' reason then ''risk_edge''
      else if mentions ''spread'' reason then ''risk_spread''
      else if mentions ''depth'' reason then ''risk_depth''
      else if mentions ''circuit_breaker'' reason \<or> mentions ''daily_loss_limit'' reason then ''risk_circuit''
      else if mentions ''cool-off'' reason then ''risk_cool_off''
      else first_word reason)"

text \<open>\<open>reason.split(" (")[0]\<close>.\<close>

fun before_paren :: "string \<Rightarrow> string" where
  "before_paren [] = []"
| "before_paren [c] = [c]"
| "before_paren (c # c' # t) =
     (if c = CHR '' '' \<and> c' = CHR ''('' then [] else c # before_paren (c' # t))"

fun short_reason :: "fstring \<Rightarrow> fstring" where
  "short_reason [] = []"
| "short_reason (FTxt t # r) =
     (if has_substring '' ('' t then [FTxt (before_paren t)] else FTxt t # short_reason r)"
| "short_reason (p # r) = p # short_reason r"

section \<open>Small steps\<close>

definition driver_roll_day :: "real \<Rightarrow> 's paper_driver \<Rightarrow> 's paper_driver" where
  "driver_roll_day t d =
     (let day = today_of t
      in if pd_today d \<noteq> Some day
         then d\<lparr>pd_today := Some day, pd_daily_pnl := 0, pd_daily_trades := 0, pd_trade_taken := {}\<rparr>
         else d)"

definition cleanup_market :: "string \<Rightarrow> 's paper_driver \<Rightarrow> 's paper_driver" where
  "cleanup_market slug d =
     d\<lparr>pd_indicators := AList.delete slug (pd_indicators d),
       pd_recent_ticks := AList.delete slug (pd_recent_ticks d),
       pd_last_tick_at := AList.delete slug (pd_last_tick_at d)\<rparr>"

section \<open>Settlement\<close>

record paper_tick_row =
  pt_condition_id :: string
  pt_ts :: real
  pt_spot_price :: "real option"
  pt_chainlink_price :: "real option"

record market_db =
  md_paper_ticks :: "paper_tick_row list"
  md_ohlcv :: "(int, real) dict"
  md_up :: bool

definition window_rows :: "market_db \<Rightarrow> string \<Rightarrow> real \<Rightarrow> paper_tick_row list" where
  "window_rows md cid close_ts =
     sort_key pt_ts (filter (\<lambda>r. pt_condition_id r = cid \<and> close_ts - 305 \<le> pt_ts r \<and> pt_ts r \<le> close_ts + 5)
       (md_paper_ticks md))"

definition last_paper_tick_price :: "market_db \<Rightarrow> string \<Rightarrow> real \<Rightarrow> real option \<times> real \<times> string" where
  "last_paper_tick_price md cid close_ts =
     (if \<not> md_up md then (None, close_ts, ''paper_tick_err'')
      else (let rows = window_rows md cid close_ts
            in if rows = [] then (None, close_ts, ''no_paper_tick'')
               else (let latest = last rows
                     in case pt_spot_price latest of
                          Some p \<Rightarrow> (Some p, pt_ts latest, ''paper_tick_spot'')
                        | None \<Rightarrow>
                            (case pt_chainlink_price latest of
                               Some p \<Rightarrow> (Some p, pt_ts latest, ''paper_tick_chainlink'')
                             | None \<Rightarrow> (None, close_ts, ''no_price_in_tick'')))))"

definition first_paper_tick_spot :: "market_db \<Rightarrow> string \<Rightarrow> real \<Rightarrow> py_error + (real option \<times> string)" where
  "first_paper_tick_spot md cid close_ts =
     (if close_ts \<le> 0 then Inl (ValueError ''window_close_ts is required to prevent stale cross-window picks'')
      else if \<not> md_up md then Inr (None, ''first_tick_err'')
      else (case filter (\<lambda>r. case pt_spot_price r of Some p \<Rightarrow> p > 0 | None \<Rightarrow> False) (window_rows md cid close_ts) of
              [] \<Rightarrow> Inr (None, ''no_first_tick'')
            | r # _ \<Rightarrow> Inr (pt_spot_price r, ''paper_tick_first_spot'')))"

definition ohlcv_close_at :: "market_db \<Rightarrow> real \<Rightarrow> real option \<times> real" where
  "ohlcv_close_at md close_ts =
     (let minute_ts = \<lfloor>close_ts / 60\<rfloor> * 60
      in if \<not> md_up md then (None, close_ts) else (map_of (md_ohlcv md) minute_ts, close_ts))"

definition settle_from_values :: "string \<Rightarrow> real \<Rightarrow> real \<Rightarrow> bool \<Rightarrow> 's paper_driver \<Rightarrow> 's paper_driver" where
  "settle_from_values slug settle_ts px went_up d0 =
     (case map_of (pd_open_positions d0) slug of
        None \<Rightarrow> d0
      | Some pos \<Rightarrow>
          (let d = d0\<lparr>pd_open_positions := AList.delete slug (pd_open_positions d0)\<rparr>;
               ((resolution, exit_price, pnl), db) = exec_settle pos settle_ts px went_up (pd_db d);
               d1 = d\<lparr>pd_db := db, pd_daily_pnl := pd_daily_pnl d + pnl,
                      pd_risk := on_trade_closed pnl settle_ts (pd_risk d)\<rparr>;
               d2 = send (TradeClose resolution pnl slug) d1;
               d3 = (if pd_daily_pnl d2 \<le> dv_daily_alert_pnl_threshold (pd_cfg d2)
                     then send (LossThreshold (pd_daily_pnl d2)
                            (pd_daily_pnl d2 / max (dv_stake_usd (pd_cfg d2)) 1 / (33333 / 100))) d2
                     else d2)
           in cleanup_market slug d3))"

definition settle_via_watchdog ::
  "market_db \<Rightarrow> string \<Rightarrow> exec_position \<Rightarrow> real \<Rightarrow> 's paper_driver \<Rightarrow> 's paper_driver" where
  "settle_via_watchdog md slug pos now d =
     (let age = now - ep_window_close_ts pos;
          (p1, ts1, src1) = last_paper_tick_price md (ep_condition_id pos) (ep_window_close_ts pos);
          (px, settle_ts) = (if p1 = None \<and> age > 120 then ohlcv_close_at md (ep_window_close_ts pos) else (p1, ts1))
      in case px of
           None \<Rightarrow>
             (if age > 600
              then cleanup_market slug (d\<lparr>pd_open_positions := AList.delete slug (pd_open_positions d)\<rparr>)
              else d)
         | Some price \<Rightarrow>
             (case first_paper_tick_spot md (ep_condition_id pos) (ep_window_close_ts pos) of
                Inl _ \<Rightarrow> d
              | Inr (open1, src2) \<Rightarrow>
                  (let open2 = (if open1 = None then fst (ohlcv_close_at md (ep_window_close_ts pos - 300)) else open1)
                   in case open2 of
                        None \<Rightarrow> d
                      | Some op \<Rightarrow>
                          if op \<le> 0 then d else settle_from_values slug settle_ts price (price > op) d)))"

definition settle_position :: "market_db \<Rightarrow> real \<Rightarrow> string \<Rightarrow> 's paper_driver \<Rightarrow> 's paper_driver" where
  "settle_position md now slug d =
     (case map_of (pd_open_positions d) slug of
        None \<Rightarrow> d
      | Some pos \<Rightarrow> settle_via_watchdog md slug pos now d)"

definition settle_watchdog_step :: "market_db \<Rightarrow> real \<Rightarrow> 's paper_driver \<Rightarrow> 's paper_driver" where
  "settle_watchdog_step md now d =
     (let expd = filter (\<lambda>(slug, pos). ep_window_close_ts pos > 0 \<and> now - ep_window_close_ts pos > 15) (pd_open_positions d)
      in fold (\<lambda>(slug, pos). settle_via_watchdog md slug pos now) expd d)"

section \<open>The tick handler\<close>

text \<open>The set-up shared with the market-making driver: buffers, indicators, day, counters. The
  context returned is the one the strategy sees.\<close>

definition default_stack :: indicator_stack where
  "default_stack = new_stack 12 26 14 60 (94 / 100)"

definition tick_setup :: "(real \<Rightarrow> real) \<Rightarrow> tick_core \<Rightarrow> 's paper_driver \<Rightarrow> tick_context \<times> 's paper_driver" where
  "tick_setup erf tick d0 =
     (let slug = tc_market_slug tick;
          ind = dict_getd (pd_indicators d0) slug default_stack;
          buf = dict_getd (pd_recent_ticks d0) slug [];
          (core, ind') = stack_update erf tick ind;
          ctx = with_recent core (py_tail 120 buf);
          buf1 = buf @ [core];
          buf2 = (if length buf1 > 140 then tl buf1 else buf1);
          d1 = d0\<lparr>pd_indicators := AList.update slug ind' (pd_indicators d0),
                  pd_recent_ticks := AList.update slug buf2 (pd_recent_ticks d0),
                  pd_last_tick_at := AList.update slug (tc_ts tick) (pd_last_tick_at d0)\<rparr>
      in (ctx, bump_counter ''ticks'' None (driver_roll_day (tc_ts tick) d1)))"

definition entry_request_of :: "driver_config \<Rightarrow> tick_dict \<Rightarrow> tick_context \<Rightarrow> side \<Rightarrow> entry_request" where
  "entry_request_of cfg d ctx sd =
     \<lparr>rq_ts = tc_ts ctx, rq_condition_id = condition_id_placeholder d (tc_market_slug ctx),
      rq_slug = tc_market_slug ctx, rq_side = sd, rq_stake_usd = dv_stake_usd cfg,
      rq_pm_yes_ask = tc_pm_yes_ask ctx, rq_pm_no_ask = tc_pm_no_ask ctx,
      rq_book_last_update_ts = tc_ts ctx, rq_t_in_window = tc_t_in_window ctx,
      rq_latest_entry_t = dv_latest_entry_t cfg, rq_window_close_ts = tc_window_close_ts ctx,
      rq_open_price = tc_open_price ctx\<rparr>"

text \<open>From the strategy's answer to the stored position.\<close>

definition enter_market ::
  "(string \<Rightarrow> bool) \<Rightarrow> tick_dict \<Rightarrow> tick_context \<Rightarrow> decision \<Rightarrow> 's paper_driver \<Rightarrow> 's paper_driver" where
  "enter_market exists td ctx dec d =
     (let slug = tc_market_slug ctx;
          (res, db) = try_enter exists (pd_exec d) (entry_request_of (pd_cfg d) td ctx (dc_side dec)) (pd_db d);
          d1 = d\<lparr>pd_db := db\<rparr>
      in case res of
           None \<Rightarrow> bump_counter ''fill_miss'' None d1
         | Some pos \<Rightarrow>
             (let d2 = d1\<lparr>pd_open_positions := AList.update slug pos (pd_open_positions d1),
                          pd_trade_taken := insert slug (pd_trade_taken d1),
                          pd_daily_trades := pd_daily_trades d1 + 1\<rparr>;
                  d3 = bump_counter ''fill'' None (bump_counter ''enter'' None d2)
              in send (TradeOpen slug (side_value (ep_side pos)) (ep_entry_price pos) (ep_stake_usd pos)) d3))"

text \<open>The risk gate and the strategy.\<close>

definition evaluate_entry ::
  "(string \<Rightarrow> bool) \<Rightarrow> tick_dict \<Rightarrow> tick_context \<Rightarrow> 's paper_driver \<Rightarrow> 's paper_driver" where
  "evaluate_entry exists td ctx d0 =
     (let d = bump_counter ''in_entry_window'' None d0;
          ((allowed, reason), risk) = can_enter ctx (pd_risk d);
          d1 = d\<lparr>pd_risk := risk\<rparr>
      in if \<not> allowed then bump_counter ''risk_skip'' (Some (ftext (risk_tag (verdict_text reason)))) d1
         else (let (dec, st) = sg_should_enter (pd_strategy d1) ctx (pd_strat_state d1);
                   d2 = d1\<lparr>pd_strat_state := st\<rparr>
               in if dc_action dec \<noteq> ENTER
                  then bump_counter ''strategy_skip''
                    (Some (if dc_reason dec \<noteq> [] then short_reason (dc_reason dec) else ftext ''strategy_skip'')) d2
                  else enter_market exists td ctx dec d2))"

text \<open>The gates between the pause flag and the risk manager.\<close>

definition gated_tick ::
  "market_db \<Rightarrow> (string \<Rightarrow> bool) \<Rightarrow> real \<Rightarrow> tick_dict \<Rightarrow> tick_context \<Rightarrow> 's paper_driver \<Rightarrow> 's paper_driver" where
  "gated_tick md exists now td ctx d0 =
     (let slug = tc_market_slug ctx;
          d1 = d0\<lparr>pd_hb_open_positions := length (pd_open_positions d0), pd_hb_trades_today := pd_daily_trades d0\<rparr>;
          stopped = (pd_daily_pnl d1 \<le> dv_daily_pause_pnl_threshold (pd_cfg d1));
          d = (if stopped \<and> map_of (pd_open_positions d1) slug = None
               then d1\<lparr>pd_trade_taken := insert slug (pd_trade_taken d1)\<rparr> else d1)
      in if map_of (pd_open_positions d) slug \<noteq> None
         then (if tc_t_in_window ctx \<ge> 300 then settle_position md now slug d else d)
         else if slug \<in> pd_trade_taken d
         then (if tc_t_in_window ctx \<ge> 300
               then cleanup_market slug (d\<lparr>pd_trade_taken := pd_trade_taken d - {slug}\<rparr>) else d)
         else if \<not> (dv_earliest_entry_t (pd_cfg d) \<le> tc_t_in_window ctx \<and> tc_t_in_window ctx \<le> dv_latest_entry_t (pd_cfg d))
         then (let d2 = bump_counter ''out_of_window'' None d
               in if tc_t_in_window ctx > 300 then cleanup_market slug d2 else d2)
         else if stopped then bump_counter ''risk_skip'' (Some (ftext ''daily_pause'')) d
         else evaluate_entry exists td ctx d)"

definition handle_tick ::
  "(real \<Rightarrow> real) \<Rightarrow> market_db \<Rightarrow> (string \<Rightarrow> bool) \<Rightarrow> real \<Rightarrow> tick_dict \<Rightarrow> 's paper_driver \<Rightarrow> 's paper_driver" where
  "handle_tick erf md exists now td d0 =
     (case tick_from_dict td of
        Inl _ \<Rightarrow> d0
      | Inr tick \<Rightarrow>
          (let (ctx, d) = tick_setup erf tick d0
           in if pd_paused d then bump_counter ''paused_skip'' (Some (ftext ''paused'')) d
              else gated_tick md exists now td ctx d))"

section \<open>Background loops and control\<close>

definition orphan_cleanup_step :: "real \<Rightarrow> 's paper_driver \<Rightarrow> 's paper_driver" where
  "orphan_cleanup_step now d =
     (let stale = map fst (filter (\<lambda>(slug, last_ts). now - last_ts > 600 \<and> map_of (pd_open_positions d) slug = None)
            (pd_last_tick_at d))
      in fold cleanup_market stale d)"

definition kill_switch_step :: "(string \<Rightarrow> bool) \<Rightarrow> 's paper_driver \<Rightarrow> 's paper_driver" where
  "kill_switch_step exists d =
     (let present = kill_switch_active exists;
          d1 = (if present \<and> \<not> pd_kill_switch_last_state d then send KillSwitchOn d
                else if \<not> present \<and> pd_kill_switch_last_state d then send KillSwitchOff d
                else d)
      in d1\<lparr>pd_kill_switch_last_state := present\<rparr>)"

text \<open>The rows the reconciliation and the bootstrap aggregate: fills of the last day in paper
  mode, joined with the orders of the strategy.\<close>

definition joined_fills :: "string \<Rightarrow> real \<Rightarrow> trading_db \<Rightarrow> fill_row list" where
  "joined_fills strategy now db =
     concat (map (\<lambda>f. map (\<lambda>_. f) (filter (\<lambda>r. or_order_id r = fr_order_id f \<and> or_strategy_id r = strategy) (orders_tbl db)))
       (filter (\<lambda>f. fr_mode f = ''paper'' \<and> fr_ts f \<ge> now - 86400) (fills_tbl db)))"

definition fill_kind :: "fill_row \<Rightarrow> jval option" where
  "fill_kind f = map_of (fr_metadata f) ''kind''"

definition settled_pnl :: "fill_row list \<Rightarrow> real" where
  "settled_pnl fs =
     sum_list (map (\<lambda>f. if fill_kind f = Some (JStr ''settle'')
                         then (case map_of (fr_metadata f) ''pnl'' of Some (JNum x) \<Rightarrow> x | _ \<Rightarrow> 0) else 0) fs)"

definition count_kind :: "string \<Rightarrow> fill_row list \<Rightarrow> nat" where
  "count_kind k fs = length (filter (\<lambda>f. fill_kind f = Some (JStr k)) fs)"

definition reconciliation_step :: "real \<Rightarrow> 's paper_driver \<Rightarrow> 's paper_driver" where
  "reconciliation_step now d =
     (if \<not> db_up (pd_db d) then d
      else (let fs = joined_fills (sg_name (pd_strategy d)) now (pd_db d);
                db_settled = settled_pnl fs;
                db_entries = int (count_kind ''entry'' fs);
                db_exits = int (count_kind ''settle'' fs)
            in if db_entries = 0 \<and> pd_daily_trades d = 0 then d
               else (let delta = \<bar>db_settled - pd_daily_pnl d\<bar>;
                         open_diff = (db_entries - db_exits) - int (length (pd_open_positions d))
                     in if delta > 1 \<or> \<bar>open_diff\<bar> > 1
                        then send (ReconciliationFail
                          [FTxt ''db_settled=$'', FNum 2 db_settled, FTxt '' local=$'', FNum 2 (pd_daily_pnl d),
                           FTxt '' delta=$'', FNum 2 delta, FTxt '' open_db='', FInt (db_entries - db_exits),
                           FTxt '' open_local='', FInt (int (length (pd_open_positions d)))]) d
                        else d)))"

definition eval_summary_step :: "'s paper_driver \<Rightarrow> 's paper_driver" where
  "eval_summary_step d = d\<lparr>pd_eval_counts := [], pd_eval_skip_reasons := []\<rparr>"

text \<open>A control payload: its \<open>action\<close>, if it decodes and has one.\<close>

definition handle_control_message :: "string option \<Rightarrow> 's paper_driver \<Rightarrow> 's paper_driver" where
  "handle_control_message act d =
     (if act = Some ''pause'' then d\<lparr>pd_paused := True\<rparr>
      else if act = Some ''resume'' then d\<lparr>pd_paused := False\<rparr>
      else d)"

section \<open>Start-up\<close>

definition bootstrap_daily_pnl :: "real \<Rightarrow> 's paper_driver \<Rightarrow> 's paper_driver" where
  "bootstrap_daily_pnl now d =
     (if \<not> db_up (pd_db d) then d
      else (let fs = joined_fills (sg_name (pd_strategy d)) now (pd_db d)
            in d\<lparr>pd_daily_pnl := settled_pnl fs, pd_daily_trades := int (count_kind ''entry'' fs)\<rparr>))"

definition strip_suffix :: "string \<Rightarrow> string \<Rightarrow> string" where
  "strip_suffix suf s =
     (if length suf \<le> length s \<and> drop (length s - length suf) s = suf then take (length s - length suf) s else s)"

text \<open>The pattern \<open>-(YES|NO)\.POLYMARKET$\<close>, anchored at the end, matches at most once.\<close>

definition slug_of_instrument :: "string \<Rightarrow> string" where
  "slug_of_instrument s =
     (let a = strip_suffix ''-YES.POLYMARKET'' s
      in if a \<noteq> s then a else strip_suffix ''-NO.POLYMARKET'' s)"

definition rehydrate_trade_taken :: "real \<Rightarrow> 's paper_driver \<Rightarrow> 's paper_driver" where
  "rehydrate_trade_taken now d =
     (if \<not> db_up (pd_db d) then d
      else d\<lparr>pd_trade_taken := pd_trade_taken d \<union> (set (filter (\<lambda>s. s \<noteq> [])
             (map (\<lambda>r. slug_of_instrument (or_instrument_id r))
               (filter (\<lambda>r. or_mode r = ''paper'' \<and> or_strategy_id r = sg_name (pd_strategy d) \<and> or_ts_submit r > now - 600)
                 (orders_tbl (pd_db d))))))\<rparr>)"

text \<open>The stored pause flag, \<open>None\<close> when there is no row or the query failed.\<close>

definition rehydrate_pause_state :: "bool option \<Rightarrow> 's paper_driver \<Rightarrow> 's paper_driver" where
  "rehydrate_pause_state stored d = (case stored of None \<Rightarrow> d | Some b \<Rightarrow> d\<lparr>pd_paused := b\<rparr>)"

definition boot :: "bool option \<Rightarrow> real \<Rightarrow> 's paper_driver \<Rightarrow> 's paper_driver" where
  "boot stored now d =
     (let d1 = bootstrap_daily_pnl now (rehydrate_trade_taken now (rehydrate_pause_state stored d))
      in d1\<lparr>pd_strat_state := sg_on_start (pd_strategy d1) (pd_strat_state d1)\<rparr>)"

section \<open>Selectors of the small steps\<close>

lemma bump_counter_sel [simp]:
  "pd_strat_state (bump_counter b r d) = pd_strat_state d" "pd_strategy (bump_counter b r d) = pd_strategy d"
  "pd_risk (bump_counter b r d) = pd_risk d" "pd_exec (bump_counter b r d) = pd_exec d"
  "pd_cfg (bump_counter b r d) = pd_cfg d" "pd_recent_ticks (bump_counter b r d) = pd_recent_ticks d"
  "pd_last_tick_at (bump_counter b r d) = pd_last_tick_at d" "pd_indicators (bump_counter b r d) = pd_indicators d"
  "pd_open_positions (bump_counter b r d) = pd_open_positions d" "pd_trade_taken (bump_counter b r d) = pd_trade_taken d"
  "pd_today (bump_counter b r d) = pd_today d" "pd_daily_pnl (bump_counter b r d) = pd_daily_pnl d"
  "pd_daily_trades (bump_counter b r d) = pd_daily_trades d" "pd_paused (bump_counter b r d) = pd_paused d"
  "pd_db (bump_counter b r d) = pd_db d" "pd_sent (bump_counter b r d) = pd_sent d"
  by (simp_all add: bump_counter_def Let_def split: option.split)

lemma send_sel [simp]:
  "pd_strat_state (send m d) = pd_strat_state d" "pd_risk (send m d) = pd_risk d" "pd_cfg (send m d) = pd_cfg d"
  "pd_recent_ticks (send m d) = pd_recent_ticks d" "pd_open_positions (send m d) = pd_open_positions d"
  "pd_trade_taken (send m d) = pd_trade_taken d" "pd_today (send m d) = pd_today d"
  "pd_daily_pnl (send m d) = pd_daily_pnl d" "pd_daily_trades (send m d) = pd_daily_trades d"
  "pd_paused (send m d) = pd_paused d" "pd_db (send m d) = pd_db d" "pd_sent (send m d) = pd_sent d @ [m]"
  "pd_kill_switch_last_state (send m d) = pd_kill_switch_last_state d"
  by (simp_all add: send_def)

lemma cleanup_sel [simp]:
  "pd_strat_state (cleanup_market s d) = pd_strat_state d" "pd_risk (cleanup_market s d) = pd_risk d"
  "pd_cfg (cleanup_market s d) = pd_cfg d" "pd_open_positions (cleanup_market s d) = pd_open_positions d"
  "pd_trade_taken (cleanup_market s d) = pd_trade_taken d" "pd_today (cleanup_market s d) = pd_today d"
  "pd_daily_pnl (cleanup_market s d) = pd_daily_pnl d" "pd_daily_trades (cleanup_market s d) = pd_daily_trades d"
  "pd_paused (cleanup_market s d) = pd_paused d" "pd_db (cleanup_market s d) = pd_db d"
  "pd_sent (cleanup_market s d) = pd_sent d"
  "pd_recent_ticks (cleanup_market s d) = AList.delete s (pd_recent_ticks d)"
  by (simp_all add: cleanup_market_def)

lemma roll_day_sel [simp]:
  "pd_strat_state (driver_roll_day t d) = pd_strat_state d" "pd_risk (driver_roll_day t d) = pd_risk d"
  "pd_cfg (driver_roll_day t d) = pd_cfg d" "pd_recent_ticks (driver_roll_day t d) = pd_recent_ticks d"
  "pd_open_positions (driver_roll_day t d) = pd_open_positions d" "pd_today (driver_roll_day t d) = Some (today_of t)"
  "pd_paused (driver_roll_day t d) = pd_paused d" "pd_db (driver_roll_day t d) = pd_db d"
  "pd_sent (driver_roll_day t d) = pd_sent d" "pd_strategy (driver_roll_day t d) = pd_strategy d"
  "pd_exec (driver_roll_day t d) = pd_exec d"
  by (simp_all add: driver_roll_day_def Let_def)

lemma tick_setup_sel [simp]:
  "pd_strat_state (snd (tick_setup erf c d)) = pd_strat_state d" "pd_risk (snd (tick_setup erf c d)) = pd_risk d"
  "pd_cfg (snd (tick_setup erf c d)) = pd_cfg d" "pd_open_positions (snd (tick_setup erf c d)) = pd_open_positions d"
  "pd_paused (snd (tick_setup erf c d)) = pd_paused d" "pd_db (snd (tick_setup erf c d)) = pd_db d"
  "pd_sent (snd (tick_setup erf c d)) = pd_sent d" "pd_strategy (snd (tick_setup erf c d)) = pd_strategy d"
  "pd_exec (snd (tick_setup erf c d)) = pd_exec d"
  by (simp_all add: tick_setup_def Let_def case_prod_beta)

lemma tick_setup_ctx [simp]:
  "tc_market_slug (fst (tick_setup erf c d)) = tc_market_slug c" "tc_ts (fst (tick_setup erf c d)) = tc_ts c"
  "tc_t_in_window (fst (tick_setup erf c d)) = tc_t_in_window c"
  using stack_update_market [of c erf] 
  by (simp_all add: tick_setup_def Let_def case_prod_beta with_recent_def tick_core.defs same_market_def)

text \<open>The day's ledger the gates see: emptied when the tick opens a new day.\<close>

lemma tick_setup_day:
  "pd_trade_taken (snd (tick_setup erf c d)) = (if pd_today d = Some (today_of (tc_ts c)) then pd_trade_taken d else {})"
  "pd_daily_pnl (snd (tick_setup erf c d)) = (if pd_today d = Some (today_of (tc_ts c)) then pd_daily_pnl d else 0)"
  "pd_daily_trades (snd (tick_setup erf c d)) = (if pd_today d = Some (today_of (tc_ts c)) then pd_daily_trades d else 0)"
  by (simp_all add: tick_setup_def driver_roll_day_def Let_def case_prod_beta)

subsection \<open>Settlement removes positions, and only removes\<close>

lemma settle_from_values_open:
  "pd_open_positions (settle_from_values s t px up d) = AList.delete s (pd_open_positions d)"
proof (cases "map_of (pd_open_positions d) s")
  case None
  then show ?thesis by (simp add: settle_from_values_def dict_delete_absent)
next
  case (Some pos)
  then show ?thesis by (simp add: settle_from_values_def Let_def case_prod_beta)
qed

lemma settle_via_watchdog_open:
  "pd_open_positions (settle_via_watchdog md s pos now d) \<in> {pd_open_positions d, AList.delete s (pd_open_positions d)}"
  by (auto simp: settle_via_watchdog_def Let_def case_prod_beta settle_from_values_open split: option.split sum.split)

lemma settle_position_open:
  "pd_open_positions (settle_position md now s d) \<in> {pd_open_positions d, AList.delete s (pd_open_positions d)}"
  using settle_via_watchdog_open [of md s _ now d] by (simp add: settle_position_def split: option.split)

lemma settle_position_no_new: "map_of (pd_open_positions d) k = None \<Longrightarrow> map_of (pd_open_positions (settle_position md now s d)) k = None"
  using settle_position_open [of md now s d] by auto

section \<open>Entries\<close>

lemma enter_market_opens:
  assumes "map_of (pd_open_positions d) (tc_market_slug ctx) = None"
    and "map_of (pd_open_positions (enter_market ex td ctx dec d)) (tc_market_slug ctx) = Some pos"
  shows "try_enter ex (pd_exec d) (entry_request_of (pd_cfg d) td ctx (dc_side dec)) (pd_db d) = (Some pos, pd_db (enter_market ex td ctx dec d)) \<and>
    tc_market_slug ctx \<in> pd_trade_taken (enter_market ex td ctx dec d)"
  using assms by (auto simp: enter_market_def Let_def case_prod_beta prod_eq_iff split: option.splits)

lemma evaluate_entry_opens:
  assumes "map_of (pd_open_positions d) (tc_market_slug ctx) = None"
    and "map_of (pd_open_positions (evaluate_entry ex td ctx d)) (tc_market_slug ctx) = Some pos"
  shows "fst (fst (can_enter ctx (pd_risk d))) \<and>
    (\<exists>dec st. sg_should_enter (pd_strategy d) ctx (pd_strat_state d) = (dec, st) \<and> dc_action dec = ENTER \<and>
       try_enter ex (pd_exec d) (entry_request_of (pd_cfg d) td ctx (dc_side dec)) (pd_db d) = (Some pos, pd_db (evaluate_entry ex td ctx d))) \<and>
    tc_market_slug ctx \<in> pd_trade_taken (evaluate_entry ex td ctx d)"
proof -
  define dec where "dec = fst (sg_should_enter (pd_strategy d) ctx (pd_strat_state d))"
  define d2 where "d2 = (bump_counter ''in_entry_window'' None d)\<lparr>pd_risk := snd (can_enter ctx (pd_risk d)),
      pd_strat_state := snd (sg_should_enter (pd_strategy d) ctx (pd_strat_state d))\<rparr>"
  have ok: "fst (fst (can_enter ctx (pd_risk d)))" and ent: "dc_action dec = ENTER"
    and eq: "evaluate_entry ex td ctx d = enter_market ex td ctx dec d2"
    using assms unfolding dec_def d2_def
    by (auto simp: evaluate_entry_def Let_def case_prod_beta split: if_splits)
  have "map_of (pd_open_positions d2) (tc_market_slug ctx) = None" using assms(1) by (simp add: d2_def)
  from enter_market_opens [OF this assms(2) [unfolded eq]] ok ent show ?thesis
    by (auto simp: eq dec_def d2_def intro!: exI [of _ "snd (sg_should_enter (pd_strategy d) ctx (pd_strat_state d))"] prod_eqI)
qed

text \<open>C4. A position is opened only when every gate is open. When a tick makes the driver hold a
  position in its market that it did not hold before, then the driver was not paused, the market
  had not been taken that UTC day, the day's result was above the pause threshold, the time lay
  in the entry window and at least five seconds before its end, the risk manager allowed it, the
  strategy decided to enter, no kill switch file was present, the order and its fill are in the
  tables, and the market now counts as taken.\<close>

theorem entry_passes_every_gate:
  assumes "tick_from_dict td = Inr c" and "slug = tc_market_slug c"
    and "map_of (pd_open_positions d) slug = None"
    and "map_of (pd_open_positions (handle_tick erf md ex now td d)) slug = Some pos"
  defines "d1 \<equiv> snd (tick_setup erf c d)" and "ctx \<equiv> fst (tick_setup erf c d)" and "d' \<equiv> handle_tick erf md ex now td d"
  shows "\<not> pd_paused d \<and> slug \<notin> pd_trade_taken d1 \<and>
    dv_daily_pause_pnl_threshold (pd_cfg d) < pd_daily_pnl d1 \<and>
    dv_earliest_entry_t (pd_cfg d) \<le> tc_t_in_window c \<and> tc_t_in_window c + 5 \<le> dv_latest_entry_t (pd_cfg d) \<and>
    fst (fst (can_enter ctx (pd_risk d))) \<and>
    (\<exists>dec st. sg_should_enter (pd_strategy d) ctx (pd_strat_state d) = (dec, st) \<and> dc_action dec = ENTER) \<and>
    \<not> kill_switch_active ex \<and> slug \<in> pd_trade_taken d' \<and>
    ep_client_order_id pos \<in> or_order_id ` set (orders_tbl (pd_db d')) \<and>
    ep_client_order_id pos @ ''-fill'' \<in> fr_fill_id ` set (fills_tbl (pd_db d'))"
proof -
  have slug: "tc_market_slug ctx = slug" by (simp add: ctx_def assms(2))
  have none: "map_of (pd_open_positions d1) slug = None" using assms(3) by (simp add: d1_def)
  have np: "\<not> pd_paused d"
    using assms(1,3,4) by (auto simp: handle_tick_def case_prod_beta Let_def split: if_splits)
  have gated: "d' = gated_tick md ex now td ctx d1"
    using assms(1) np by (simp add: d'_def handle_tick_def case_prod_beta Let_def d1_def ctx_def)
  let ?d = "d1\<lparr>pd_hb_open_positions := length (pd_open_positions d1), pd_hb_trades_today := pd_daily_trades d1\<rparr>"
  have pos: "map_of (pd_open_positions d') slug = Some pos" using assms(4) by (simp add: d'_def)
  have open_: "slug \<notin> pd_trade_taken d1" "dv_daily_pause_pnl_threshold (pd_cfg d1) < pd_daily_pnl d1"
    "dv_earliest_entry_t (pd_cfg d1) \<le> tc_t_in_window ctx" "d' = evaluate_entry ex td ctx ?d"
    using pos none unfolding gated gated_tick_def
    by (auto simp: Let_def slug split: if_splits)
  have "map_of (pd_open_positions ?d) (tc_market_slug ctx) = None"
    "map_of (pd_open_positions (evaluate_entry ex td ctx ?d)) (tc_market_slug ctx) = Some pos"
    using none pos open_(4) slug by simp_all
  from evaluate_entry_opens [OF this] slug obtain dec st where
    ok: "fst (fst (can_enter ctx (pd_risk d1)))" and taken: "slug \<in> pd_trade_taken d'"
    and dec: "sg_should_enter (pd_strategy d1) ctx (pd_strat_state d1) = (dec, st)" "dc_action dec = ENTER"
    and ent: "try_enter ex (pd_exec d1) (entry_request_of (pd_cfg d1) td ctx (dc_side dec)) (pd_db d1) = (Some pos, pd_db d')"
    using open_(4) by auto
  define rq where "rq = entry_request_of (pd_cfg d1) td ctx (dc_side dec)"
  have g: "\<not> kill_switch_active ex" "rq_t_in_window rq \<le> rq_latest_entry_t rq - LATE_ENTRY_GUARD" "pos = entry_position (pd_exec d1) rq"
    using try_enter_Some_iff [of ex "pd_exec d1" rq "pd_db d1" pos] ent by (simp_all add: rq_def)
  have db: "orders_tbl (pd_db d') = upsert_many order_key [entry_order_row (pd_exec d1) rq] (orders_tbl (pd_db d1))"
    "fills_tbl (pd_db d') = upsert_many fill_key [entry_fill_row (pd_exec d1) rq] (fills_tbl (pd_db d1))"
    using try_enter_Some_db [OF ent] unfolding rq_def [symmetric] by simp_all
  have "or_order_id (entry_order_row (pd_exec d1) rq) \<in> or_order_id ` set (orders_tbl (pd_db d'))"
    unfolding db by (auto simp: order_key_def)
  moreover have "fr_fill_id (entry_fill_row (pd_exec d1) rq) \<in> fr_fill_id ` set (fills_tbl (pd_db d'))"
    unfolding db by (auto simp: fill_key_def)
  moreover have "or_order_id (entry_order_row (pd_exec d1) rq) = ep_client_order_id pos"
    "fr_fill_id (entry_fill_row (pd_exec d1) rq) = ep_client_order_id pos @ ''-fill''"
    by (simp_all add: g(3) entry_order_row_def entry_fill_row_def entry_position_def Let_def)
  moreover have "tc_t_in_window c + 5 \<le> dv_latest_entry_t (pd_cfg d)"
    using g(2) by (simp add: rq_def entry_request_of_def LATE_ENTRY_GUARD_def d1_def ctx_def)
  ultimately show ?thesis
    using np open_ ok dec taken g(1) by (simp add: d1_def ctx_def)
qed

text \<open>Pausing stops trading at once. While the pause flag is set, no tick reaches the risk manager or
  the strategy, opens or settles a position, writes an order or sends a message; only the control
  message \<open>resume\<close> clears the flag.\<close>

theorem paused_driver_is_inert:
  assumes "pd_paused d" and d'_def: "d' = handle_tick erf md ex now td d"
  shows "pd_strat_state d' = pd_strat_state d \<and> pd_risk d' = pd_risk d \<and> pd_open_positions d' = pd_open_positions d \<and>
    pd_db d' = pd_db d \<and> pd_sent d' = pd_sent d \<and> pd_paused d' \<and>
    (\<not> pd_paused (handle_control_message a d) \<longleftrightarrow> a = Some ''resume'')"
  using assms(1) by (simp add: d'_def handle_tick_def case_prod_beta Let_def handle_control_message_def split: sum.split)

section \<open>Accounting\<close>

text \<open>What a settlement owes: the side that was bought pays one dollar a share when the market went its way.\<close>

definition position_won :: "exec_position \<Rightarrow> bool \<Rightarrow> bool" where
  "position_won pos up \<longleftrightarrow> 0 < ep_entry_price pos \<and> (ep_side pos = YES_UP) = up"

definition payoff :: "exec_position \<Rightarrow> bool \<Rightarrow> real" where
  "payoff pos up = (if position_won pos up then ep_stake_usd pos / ep_entry_price pos else 0) - ep_stake_usd pos"

definition close_text :: "exec_position \<Rightarrow> bool \<Rightarrow> string" where
  "close_text pos up = (if ep_entry_price pos \<le> 0 then ''error'' else if position_won pos up then ''win'' else ''loss'')"

definition closing_row :: "exec_position \<Rightarrow> real \<Rightarrow> bool \<Rightarrow> fill_row" where
  "closing_row pos t up =
     \<lparr>fr_fill_id = ep_client_order_id pos @ ''-exit'', fr_order_id = ep_client_order_id pos, fr_ts = t,
      fr_price = (if position_won pos up then 1 else 0), fr_qty = ep_stake_usd pos / max (ep_entry_price pos) (1 / 10 ^ 9),
      fr_liquidity_side = ''TAKER'', fr_fee = 0, fr_fee_currency = ''USDC'', fr_mode = ''paper'', fr_backtest_id = None,
      fr_metadata = [(''kind'', JStr ''settle''), (''resolution'', JStr (close_text pos up)), (''pnl'', JNum (payoff pos up))]\<rparr>"

definition with_fills :: "fill_row list \<Rightarrow> trading_db \<Rightarrow> trading_db" where
  "with_fills rs db = (if db_up db \<and> fills_up db then db\<lparr>fills_tbl := upsert_many fill_key rs (fills_tbl db)\<rparr> else db)"

lemma with_fills_Nil [simp]: "with_fills [] db = db"
  by (simp add: with_fills_def)

lemma with_fills_append: "with_fills (rs @ rs') db = with_fills rs' (with_fills rs db)"
proof -
  have "upsert_many fill_key (rs @ rs') t = upsert_many fill_key rs' (upsert_many fill_key rs t)" for t
    by (induction rs arbitrary: t) simp_all
  then show ?thesis by (cases "db_up db \<and> fills_up db") (auto simp: with_fills_def)
qed

lemma exec_settle_eq: "exec_settle pos t px up db = ((close_text pos up, if position_won pos up then 1 else 0, payoff pos up), with_fills [closing_row pos t up] db)"
  by (auto simp: exec_settle_def settle_def close_text_def position_won_def payoff_def with_fills_def closing_row_def exit_fill_row_def Let_def)

lemma settle_effect:
  fixes t px :: real and up :: bool
  assumes "map_of (pd_open_positions d) slug = Some pos"
  defines "d' \<equiv> settle_from_values slug t px up d"
  shows "pd_daily_pnl d' = pd_daily_pnl d + payoff pos up" "pd_risk d' = on_trade_closed (payoff pos up) t (pd_risk d)"
    "pd_db d' = with_fills [closing_row pos t up] (pd_db d)" "pd_daily_trades d' = pd_daily_trades d" "pd_trade_taken d' = pd_trade_taken d"
    "pd_cfg d' = pd_cfg d"
    "pd_sent d' = pd_sent d @ TradeClose (close_text pos up) (payoff pos up) slug #
      (if pd_daily_pnl d' \<le> dv_daily_alert_pnl_threshold (pd_cfg d)
       then [LossThreshold (pd_daily_pnl d') (pd_daily_pnl d' / max (dv_stake_usd (pd_cfg d)) 1 / (33333 / 100))] else [])"
  using assms(1) by (simp_all add: d'_def settle_from_values_def exec_settle_eq Let_def)

text \<open>C18. A settlement is booked exactly once and everywhere. Settling a held position removes it and no other. Its result is
  the stake over the entry price when the side won and nothing when it lost, less the stake; that result is added to the day's ledger and given to the risk
  manager, the tables gain one exit fill and nothing else, with the price 1 or 0 and the result in its metadata (as a new row where its key is free and
  the fills can be written), and the messages gain one announcement of the close with that result, followed by one alert exactly when the ledger is at or
  below its threshold. Settling a market without a position does nothing, so no position can be settled twice.\<close>

theorem settlement_booked_once:
  assumes "map_of (pd_open_positions d) slug = Some pos" and entry: "0 < ep_entry_price pos"
    and won_def: "won = ((ep_side pos = YES_UP) = up)"
    and pnl_def: "pnl = (if won then ep_stake_usd pos / ep_entry_price pos else 0) - ep_stake_usd pos"
    and row_def: "row = \<lparr>fr_fill_id = ep_client_order_id pos @ ''-exit'', fr_order_id = ep_client_order_id pos, fr_ts = t,
      fr_price = (if won then 1 else 0), fr_qty = ep_stake_usd pos / max (ep_entry_price pos) (1 / 10 ^ 9),
      fr_liquidity_side = ''TAKER'', fr_fee = 0, fr_fee_currency = ''USDC'', fr_mode = ''paper'', fr_backtest_id = None,
      fr_metadata = [(''kind'', JStr ''settle''), (''resolution'', JStr (if won then ''win'' else ''loss'')), (''pnl'', JNum pnl)]\<rparr>"
    and d'_def: "d' = settle_from_values slug t px up d"
  shows "map_of (pd_open_positions d') = (map_of (pd_open_positions d))(slug := None) \<and>
    pd_daily_pnl d' = pd_daily_pnl d + pnl \<and> pd_risk d' = on_trade_closed pnl t (pd_risk d) \<and>
    (let alert = LossThreshold (pd_daily_pnl d + pnl) ((pd_daily_pnl d + pnl) / max (dv_stake_usd (pd_cfg d)) 1 / (33333 / 100))
     in pd_sent d' = pd_sent d @ TradeClose (if won then ''win'' else ''loss'') pnl slug #
          (if pd_daily_pnl d + pnl \<le> dv_daily_alert_pnl_threshold (pd_cfg d) then [alert] else [])) \<and>
    (if db_up (pd_db d) \<and> fills_up (pd_db d) \<and> fill_key row \<notin> fill_key ` set (fills_tbl (pd_db d))
     then pd_db d' = (pd_db d)\<lparr>fills_tbl := fills_tbl (pd_db d) @ [row]\<rparr> else pd_db d' = pd_db d) \<and>
    settle_from_values slug t2 px2 up2 d' = d'"
proof -
  note e = settle_effect [OF assms(1), of t px up, folded d'_def]
  have won: "position_won pos up = won" "payoff pos up = pnl" "close_text pos up = (if won then ''win'' else ''loss'')"
    using entry by (simp_all add: position_won_def payoff_def close_text_def won_def pnl_def)
  have row: "closing_row pos t up = row" by (simp add: closing_row_def row_def won)
  have "map_of (pd_open_positions d') slug = None" by (simp add: d'_def settle_from_values_open)
  then have again: "settle_from_values slug t2 px2 up2 d' = d'" by (simp add: settle_from_values_def)
  have db: "if db_up (pd_db d) \<and> fills_up (pd_db d) \<and> fill_key row \<notin> fill_key ` set (fills_tbl (pd_db d))
     then pd_db d' = (pd_db d)\<lparr>fills_tbl := fills_tbl (pd_db d) @ [row]\<rparr> else pd_db d' = pd_db d"
    unfolding e(3) row by (simp add: with_fills_def)
  have "pd_open_positions d' = AList.delete slug (pd_open_positions d)" by (simp add: d'_def settle_from_values_open)
  then show ?thesis
    using again db e(1,2,7) unfolding won Let_def by (simp del: if_split)
qed

text \<open>The watchdog settles a position as soon as both prices are known.\<close>

definition closing_price :: "market_db \<Rightarrow> exec_position \<Rightarrow> real \<Rightarrow> real option" where
  "closing_price md pos now =
     (let p = fst (last_paper_tick_price md (ep_condition_id pos) (ep_window_close_ts pos))
      in if p = None \<and> now - ep_window_close_ts pos > 120 then fst (ohlcv_close_at md (ep_window_close_ts pos)) else p)"

definition opening_price :: "market_db \<Rightarrow> exec_position \<Rightarrow> real option" where
  "opening_price md pos =
     (case first_paper_tick_spot md (ep_condition_id pos) (ep_window_close_ts pos) of
        Inl _ \<Rightarrow> None
      | Inr (Some p, _) \<Rightarrow> Some p
      | Inr (None, _) \<Rightarrow> fst (ohlcv_close_at md (ep_window_close_ts pos - 300)))"

lemma first_tick_no_raise: "0 < t \<Longrightarrow> \<exists>op src. first_paper_tick_spot md cid t = Inr (op, src)"
  by (cases "filter (\<lambda>r. case pt_spot_price r of Some p \<Rightarrow> p > 0 | None \<Rightarrow> False) (window_rows md cid t)")
    (auto simp: first_paper_tick_spot_def)

definition closing_time :: "market_db \<Rightarrow> exec_position \<Rightarrow> real \<Rightarrow> real" where
  "closing_time md pos now =
     (let (p, ts, src) = last_paper_tick_price md (ep_condition_id pos) (ep_window_close_ts pos)
      in if p = None \<and> now - ep_window_close_ts pos > 120 then ep_window_close_ts pos else ts)"

text \<open>The settlement of a position, when both prices are known: its time and whether the market went up.\<close>

definition verdict_of :: "market_db \<Rightarrow> real \<Rightarrow> exec_position \<Rightarrow> (real \<times> bool) option" where
  "verdict_of md now pos =
     (case (closing_price md pos now, opening_price md pos) of
        (Some p, Some op) \<Rightarrow> if 0 < op then Some (closing_time md pos now, op < p) else None
      | _ \<Rightarrow> None)"

definition abandoned :: "market_db \<Rightarrow> real \<Rightarrow> exec_position \<Rightarrow> bool" where
  "abandoned md now pos \<longleftrightarrow> closing_price md pos now = None \<and> now - ep_window_close_ts pos > 600"

fun verdicts :: "market_db \<Rightarrow> real \<Rightarrow> (string \<times> exec_position) list \<Rightarrow> (string \<times> exec_position \<times> real \<times> bool) list" where
  "verdicts md now [] = []"
| "verdicts md now ((slug, pos) # xs) =
     (case verdict_of md now pos of None \<Rightarrow> [] | Some (t, up) \<Rightarrow> [(slug, pos, t, up)]) @ verdicts md now xs"

fun is_close :: "tg_message \<Rightarrow> bool" where
  "is_close (TradeClose r p s) = True"
| "is_close _ = False"

lemma verdict_slugs: "s \<in> fst ` set (verdicts md now xs) \<longleftrightarrow> (\<exists>p. (s, p) \<in> set xs \<and> verdict_of md now p \<noteq> None)"
proof (induction xs)
  case (Cons x xs)
  obtain s' p' where x: "x = (s', p')" by (cases x)
  have "fst ` set (verdicts md now (x # xs)) = (if verdict_of md now p' = None then {} else {s'}) \<union> fst ` set (verdicts md now xs)"
    by (auto simp: x split: option.split)
  then show ?case using Cons.IH by (auto simp: x)
qed simp

lemma settle_px: "settle_from_values s t px up d = settle_from_values s t px' up d"
  by (simp add: settle_from_values_def exec_settle_eq Let_def split: option.split)

lemma watchdog_step:
  assumes "0 < ep_window_close_ts pos"
  shows "settle_via_watchdog md slug pos now d =
    (case verdict_of md now pos of
       Some (t, up) \<Rightarrow> settle_from_values slug t 0 up d
     | None \<Rightarrow> if abandoned md now pos then cleanup_market slug (d\<lparr>pd_open_positions := AList.delete slug (pd_open_positions d)\<rparr>) else d)"
proof -
  obtain op src where f: "first_paper_tick_spot md (ep_condition_id pos) (ep_window_close_ts pos) = Inr (op, src)"
    using first_tick_no_raise [OF assms] by blast
  have o: "snd (ohlcv_close_at md t) = t" for t by (simp add: ohlcv_close_at_def Let_def)
  obtain p1 ts1 src1 where l: "last_paper_tick_price md (ep_condition_id pos) (ep_window_close_ts pos) = (p1, ts1, src1)"
    by (cases "last_paper_tick_price md (ep_condition_id pos) (ep_window_close_ts pos)") auto
  define px where "px = closing_price md pos now"
  define op' where "op' = opening_price md pos"
  have px: "(if p1 = None \<and> now - ep_window_close_ts pos > 120 then ohlcv_close_at md (ep_window_close_ts pos) else (p1, ts1)) =
      (px, closing_time md pos now)"
    using o [of "ep_window_close_ts pos"] by (simp add: px_def closing_price_def closing_time_def l Let_def prod_eq_iff)
  have op: "(if op = None then fst (ohlcv_close_at md (ep_window_close_ts pos - 300)) else op) = op'"
    by (simp add: op'_def opening_price_def f split: option.split)
  have v: "verdict_of md now pos = (case (px, op') of (Some p, Some op) \<Rightarrow> if 0 < op then Some (closing_time md pos now, op < p) else None | _ \<Rightarrow> None)"
    "abandoned md now pos \<longleftrightarrow> px = None \<and> now - ep_window_close_ts pos > 600"
    by (simp_all add: verdict_of_def abandoned_def px_def op'_def)
  have w: "settle_via_watchdog md slug pos now d = (case px of
           None \<Rightarrow> if now - ep_window_close_ts pos > 600 then cleanup_market slug (d\<lparr>pd_open_positions := AList.delete slug (pd_open_positions d)\<rparr>) else d
         | Some price \<Rightarrow> (case op' of None \<Rightarrow> d
             | Some op \<Rightarrow> if op \<le> 0 then d else settle_from_values slug (closing_time md pos now) price (price > op) d))"
    unfolding settle_via_watchdog_def Let_def l prod.case px f sum.case op ..
  show ?thesis
    unfolding w v using settle_px [of slug "closing_time md pos now" _ _ d 0]
    by (cases px; cases op') auto
qed

lemma sweep_effect:
  fixes md :: market_db and now :: real
  assumes "distinct (map fst xs)" "\<forall>(s, p) \<in> set xs. map_of (pd_open_positions d) s = Some p \<and> 0 < ep_window_close_ts p"
  defines "d' \<equiv> fold (\<lambda>(slug, pos). settle_via_watchdog md slug pos now) xs d"
  shows "pd_daily_pnl d' = pd_daily_pnl d + sum_list (map (\<lambda>(s, p, t, up). payoff p up) (verdicts md now xs)) \<and>
    pd_risk d' = fold (\<lambda>(s, p, t, up). on_trade_closed (payoff p up) t) (verdicts md now xs) (pd_risk d) \<and>
    pd_db d' = with_fills (map (\<lambda>(s, p, t, up). closing_row p t up) (verdicts md now xs)) (pd_db d) \<and>
    filter is_close (pd_sent d') = filter is_close (pd_sent d) @ map (\<lambda>(s, p, t, up). TradeClose (close_text p up) (payoff p up) s) (verdicts md now xs) \<and>
    pd_open_positions d' = filter (\<lambda>(s, p). s \<notin> fst ` set (filter (\<lambda>(s, p). verdict_of md now p \<noteq> None \<or> abandoned md now p) xs)) (pd_open_positions d)"
  using assms(1,2) unfolding d'_def
proof (induction xs arbitrary: d)
  case (Cons x xs)
  obtain s p where x: "x = (s, p)" by (cases x)
  let ?d1 = "settle_via_watchdog md s p now d"
  have sp: "map_of (pd_open_positions d) s = Some p" "0 < ep_window_close_ts p" "s \<notin> fst ` set xs" using Cons.prems by (auto simp: x)
  note step = watchdog_step [OF sp(2), of md s now d]
  have opn: "pd_open_positions ?d1 = (if verdict_of md now p \<noteq> None \<or> abandoned md now p then AList.delete s (pd_open_positions d) else pd_open_positions d)"
    by (auto simp: step settle_from_values_open split: option.split)
  have "map_of (pd_open_positions ?d1) s' = Some p' \<and> 0 < ep_window_close_ts p'" if "(s', p') \<in> set xs" for s' p'
  proof -
    have "s' \<noteq> s" using that sp(3) by force
    with that Cons.prems(2) show ?thesis by (auto simp: opn)
  qed
  then have "\<forall>(s', p') \<in> set xs. map_of (pd_open_positions ?d1) s' = Some p' \<and> 0 < ep_window_close_ts p'" by auto
  note IH = Cons.IH [OF _ this]
  have one: "pd_daily_pnl ?d1 = pd_daily_pnl d + sum_list (map (\<lambda>(s, p, t, up). payoff p up) (verdicts md now [(s, p)]))"
    "pd_risk ?d1 = fold (\<lambda>(s, p, t, up). on_trade_closed (payoff p up) t) (verdicts md now [(s, p)]) (pd_risk d)"
    "pd_db ?d1 = with_fills (map (\<lambda>(s, p, t, up). closing_row p t up) (verdicts md now [(s, p)])) (pd_db d)"
    "filter is_close (pd_sent ?d1) = filter is_close (pd_sent d) @ map (\<lambda>(s, p, t, up). TradeClose (close_text p up) (payoff p up) s) (verdicts md now [(s, p)])"
    by (auto simp: step settle_effect [OF sp(1)] split: option.split)
  have two: "verdicts md now ((s, p) # xs) = verdicts md now [(s, p)] @ verdicts md now xs" by simp
  have flt: "filter (\<lambda>(s', p'). s' \<notin> fst ` set (filter G xs)) (pd_open_positions ?d1) =
      filter (\<lambda>(s', p'). s' \<notin> fst ` set (filter G ((s, p) # xs))) (pd_open_positions d)"
    if "G = (\<lambda>(s, p). verdict_of md now p \<noteq> None \<or> abandoned md now p)" for G
    by (auto simp: opn that AList.delete_eq intro!: filter_cong)
  have "distinct (map fst xs)" using Cons.prems(1) by (simp add: x)
  from IH [OF this] show ?case unfolding x two using one flt [OF refl]
    by (simp only: fold_simps(2) prod.case map_append sum_list_append fold_append comp_def with_fills_append append_assoc add.assoc)
qed simp

text \<open>C21. The watchdog leaves no closed window behind, and books what it closes. In one sweep every open position whose window
  closed more than fifteen seconds ago is settled if a closing price and a positive opening price are known, upwards exactly when the closing price is
  above the opening price: the settlements of the sweep, in the order of the positions, are added to the ledger, given to the risk manager, stored as one exit fill each and announced
  once each. A position for which no closing price is found within ten minutes of the close is dropped without any of that; every other
  position stays.\<close>

theorem watchdog_settles_closed_windows:
  assumes keys: "distinct (keys_of (pd_open_positions d))"
    and d'_def: "d' = settle_watchdog_step md now d"
    and due_def: "due = filter (\<lambda>(slug, pos). 0 < ep_window_close_ts pos \<and> 15 < now - ep_window_close_ts pos) (pd_open_positions d)"
    and settled_def: "settled = concat (map (\<lambda>(slug, pos). case (closing_price md pos now, opening_price md pos) of
        (Some p, Some op) \<Rightarrow> if 0 < op then [(slug, pos, closing_time md pos now, op < p)] else [] | _ \<Rightarrow> []) due)"
  shows "pd_daily_pnl d' = pd_daily_pnl d + sum_list (map (\<lambda>(slug, pos, t, up). payoff pos up) settled) \<and>
    pd_risk d' = fold (\<lambda>(slug, pos, t, up). on_trade_closed (payoff pos up) t) settled (pd_risk d) \<and>
    pd_db d' = with_fills (map (\<lambda>(slug, pos, t, up). closing_row pos t up) settled) (pd_db d) \<and>
    filter is_close (pd_sent d') = filter is_close (pd_sent d) @
      map (\<lambda>(slug, pos, t, up). TradeClose (close_text pos up) (payoff pos up) slug) settled \<and>
    pd_open_positions d' = filter (\<lambda>(slug, pos). \<not> ((slug, pos) \<in> set due \<and>
      (slug \<in> fst ` set settled \<or> closing_price md pos now = None \<and> 600 < now - ep_window_close_ts pos))) (pd_open_positions d)"
proof -
  have d': "d' = fold (\<lambda>(slug, pos). settle_via_watchdog md slug pos now) due d"
    by (simp add: d'_def settle_watchdog_step_def due_def Let_def)
  have vs: "settled = verdicts md now due" unfolding settled_def
    by (induction due) (auto simp: verdict_of_def split: option.split)
  have dist: "distinct (map fst due)" using keys unfolding due_def by (rule distinct_map_filter)
  have mem: "map_of (pd_open_positions d) s = Some p" if "(s, p) \<in> set (pd_open_positions d)" for s p
    using that keys by simp
  have "\<forall>(s, p) \<in> set due. map_of (pd_open_positions d) s = Some p \<and> 0 < ep_window_close_ts p"
    unfolding due_def using mem by auto
  note eff = sweep_effect [OF dist this, of md now, folded d' vs]
  note in_settled = verdict_slugs [of _ md now]
  have gone: "s \<in> fst ` set (filter (\<lambda>(s, p). verdict_of md now p \<noteq> None \<or> abandoned md now p) due) \<longleftrightarrow>
      (s, p) \<in> set due \<and> (s \<in> fst ` set settled \<or> closing_price md p now = None \<and> 600 < now - ep_window_close_ts p)"
    if "(s, p) \<in> set (pd_open_positions d)" for s p
  proof -
    have uniq: "p' = p" if "(s, p') \<in> set due" for p'
      using mem [of s p'] mem [OF \<open>(s, p) \<in> set (pd_open_positions d)\<close>] that by (auto simp: due_def)
    then have "s \<in> fst ` set settled \<longleftrightarrow> (s, p) \<in> set due \<and> verdict_of md now p \<noteq> None" unfolding vs in_settled by blast
    moreover have "s \<in> fst ` set (filter (\<lambda>(s, p). G p) due) \<longleftrightarrow> (s, p) \<in> set due \<and> G p" for G
    proof -
      have "s \<in> fst ` set (filter (\<lambda>(s, p). G p) due) \<longleftrightarrow> (\<exists>p'. (s, p') \<in> set due \<and> G p')" by (induction due) auto
      also have "\<dots> \<longleftrightarrow> (s, p) \<in> set due \<and> G p" by (auto dest: uniq)
      finally show ?thesis .
    qed
    ultimately show ?thesis by (simp only: abandoned_def) blast
  qed
  have "pd_open_positions d' = filter (\<lambda>(s, p). \<not> ((s, p) \<in> set due \<and>
      (s \<in> fst ` set settled \<or> closing_price md p now = None \<and> 600 < now - ep_window_close_ts p))) (pd_open_positions d)"
    unfolding eff [THEN conjunct2, THEN conjunct2, THEN conjunct2, THEN conjunct2]
  proof (intro filter_cong refl)
    fix x assume "x \<in> set (pd_open_positions d)"
    with gone [of "fst x" "snd x"] show "(case x of (s, p) \<Rightarrow> s \<notin> fst ` set (filter (\<lambda>(s, p). verdict_of md now p \<noteq> None \<or> abandoned md now p) due)) =
      (case x of (s, p) \<Rightarrow> \<not> ((s, p) \<in> set due \<and> (s \<in> fst ` set settled \<or> closing_price md p now = None \<and> 600 < now - ep_window_close_ts p)))"
      by (simp only: prod.case_eq_if prod.collapse if_True)
  qed
  with eff show ?thesis by blast
qed

section \<open>Start-up and midnight\<close>

text \<open>The state restored at start-up does not survive the first tick. Whatever the tables hold,
  the first tick after a boot of a fresh driver empties the set of markets already taken and the
  day's ledger that start-up had just restored, because the driver does not yet know the day.\<close>

theorem first_tick_discards_restored_state:
  "let d = boot stored now (new_paper_driver strat s0 risk exec cfg db); d1 = snd (tick_setup erf c d)
   in pd_trade_taken d1 = {} \<and> pd_daily_pnl d1 = 0 \<and> pd_daily_trades d1 = 0 \<and>
      (db_up db \<longrightarrow> pd_daily_pnl d = settled_pnl (joined_fills (sg_name strat) now db))"
proof -
  let ?d = "boot stored now (new_paper_driver strat s0 risk exec cfg db)"
  have "pd_today ?d = None"
    by (simp add: boot_def bootstrap_daily_pnl_def rehydrate_trade_taken_def rehydrate_pause_state_def new_paper_driver_def
        Let_def split: option.split)
  moreover have "pd_daily_pnl ?d = settled_pnl (joined_fills (sg_name strat) now db)" if "db_up db"
    using that by (simp add: boot_def bootstrap_daily_pnl_def rehydrate_trade_taken_def rehydrate_pause_state_def new_paper_driver_def
        Let_def split: option.split)
  ultimately show ?thesis by (simp add: tick_setup_day Let_def)
qed

text \<open>Reconciliation compares different periods. After the first tick of a new UTC day the local
  ledger is empty while the query still counts the last twenty-four hours: if those hold an entry
  and settled results that differ from zero by more than a dollar, the next reconciliation raises
  a failure although nothing was lost.\<close>

theorem reconciliation_fails_after_midnight:
  assumes "pd_today d \<noteq> Some (today_of (tc_ts c))" and "db_up (pd_db d)"
    and "1 < \<bar>settled_pnl (joined_fills (sg_name (pd_strategy d)) now (pd_db d))\<bar>"
    and "0 < count_kind ''entry'' (joined_fills (sg_name (pd_strategy d)) now (pd_db d))"
  shows "\<exists>detail. pd_sent (reconciliation_step now (snd (tick_setup erf c d))) = pd_sent d @ [ReconciliationFail detail]"
  using assms by (simp add: reconciliation_step_def tick_setup_day Let_def)

section \<open>Kill switch alerts\<close>

definition no_files :: "string \<Rightarrow> bool" where
  "no_files _ = False"

definition all_files :: "string \<Rightarrow> bool" where
  "all_files _ = True"

lemma kill_switch_files [simp]: "kill_switch_active no_files = False" "kill_switch_active all_files = True"
  by (simp_all add: kill_switch_active_def KILL_SWITCH_PATHS_def no_files_def all_files_def)

interpretation kill_alert: edge_alert kill_switch_step kill_switch_active
  pd_kill_switch_last_state pd_sent "[KillSwitchOn]" "[KillSwitchOff]"
  by unfold_locales (auto simp: kill_switch_step_def Let_def)

text \<open>Kill switch alerts are edge-triggered: over any sequence of polls the messages sent are one
  per change of the presence of a kill switch file, so a steady state is never announced again
  and announcements alternate between on and off.\<close>

theorem kill_switch_alerts_once_per_change:
  "pd_sent (fold kill_switch_step fs d) =
     pd_sent d @ edge_changes [KillSwitchOn] [KillSwitchOff] (pd_kill_switch_last_state d) (map kill_switch_active fs) \<and>
   (set (map kill_switch_active fs) \<subseteq> {pd_kill_switch_last_state d} \<longrightarrow> pd_sent (fold kill_switch_step fs d) = pd_sent d) \<and>
   (edge_changes [KillSwitchOn] [KillSwitchOff] (pd_kill_switch_last_state d) (map kill_switch_active fs) = m # m' # ms \<longrightarrow> m \<noteq> m')"
  using kill_alert.sent_run [of fs d] kill_alert.steady_run [of fs d]
    edge_changes_alternate [of KillSwitchOn KillSwitchOff "pd_kill_switch_last_state d" "map kill_switch_active fs" m m' ms]
  by simp

section \<open>The state stays small and consistent\<close>

definition driver_inv :: "'s paper_driver \<Rightarrow> bool" where
  "driver_inv d \<longleftrightarrow> distinct (keys_of (pd_open_positions d)) \<and>
     (\<forall>slug. length (dict_getd (pd_recent_ticks d) slug []) \<le> 140)"

lemma driver_inv_step:
  assumes "driver_inv d" "distinct (keys_of (pd_open_positions d'))"
    and "\<And>slug. length (dict_getd (pd_recent_ticks d') slug []) \<le> max 140 (length (dict_getd (pd_recent_ticks d) slug []))"
  shows "driver_inv d'"
proof -
  have "length (dict_getd (pd_recent_ticks d') slug []) \<le> 140" for slug
    using assms(1) assms(3) [of slug] by (simp add: driver_inv_def)
  with assms(2) show ?thesis by (simp add: driver_inv_def)
qed

lemma dict_getd_delete: "dict_getd (AList.delete k d) k' dflt = (if k' = k then dflt else dict_getd d k' dflt)"
  by (simp add: dict_getd_def)

lemma inv_same:
  "pd_open_positions d' = pd_open_positions d \<Longrightarrow> pd_recent_ticks d' = pd_recent_ticks d \<Longrightarrow> driver_inv d' = driver_inv d"
  by (simp add: driver_inv_def)

lemma inv_cleanup: "driver_inv d \<Longrightarrow> driver_inv (cleanup_market s d)"
  by (simp add: driver_inv_def dict_getd_delete)

lemma inv_bump [simp]: "driver_inv (bump_counter b r d) = driver_inv d"
  by (rule inv_same) simp_all

lemma inv_setup: "driver_inv d \<Longrightarrow> driver_inv (snd (tick_setup erf c d))"
proof -
  assume inv: "driver_inv d"
  let ?buf = "dict_getd (pd_recent_ticks d) (tc_market_slug c) []"
  have "length ?buf \<le> 140" using inv by (simp add: driver_inv_def)
  then show ?thesis
    using inv by (auto simp: driver_inv_def tick_setup_def Let_def case_prod_beta)
qed

lemma inv_settle_values: "driver_inv d \<Longrightarrow> driver_inv (settle_from_values s t px up d)"
proof (cases "map_of (pd_open_positions d) s")
  case (Some pos)
  assume inv: "driver_inv d"
  let ?d = "settle_from_values s t px up d"
  have "pd_recent_ticks ?d = AList.delete s (pd_recent_ticks d)"
    using Some by (simp add: settle_from_values_def Let_def case_prod_beta)
  with inv show ?thesis
    by (simp add: driver_inv_def settle_from_values_open dict_getd_delete distinct_delete)
qed (simp add: settle_from_values_def)

lemma inv_watchdog: "driver_inv d \<Longrightarrow> driver_inv (settle_via_watchdog md s pos now d)"
proof -
  assume inv: "driver_inv d"
  have drop: "driver_inv (cleanup_market s (d\<lparr>pd_open_positions := AList.delete s (pd_open_positions d)\<rparr>))"
    using inv by (intro inv_cleanup) (simp add: driver_inv_def distinct_delete)
  show ?thesis
    using inv drop
    by (simp add: settle_via_watchdog_def Let_def case_prod_beta inv_settle_values split: option.split sum.split)
qed

lemma inv_watchdog_step: "driver_inv d \<Longrightarrow> driver_inv (settle_watchdog_step md now d)"
proof -
  have "driver_inv d \<Longrightarrow> driver_inv (fold (\<lambda>(slug, pos). settle_via_watchdog md slug pos now) xs d)" for xs
    by (induction xs arbitrary: d) (auto simp: inv_watchdog)
  then show "driver_inv d \<Longrightarrow> ?thesis" by (simp add: settle_watchdog_step_def Let_def)
qed

lemma inv_enter: "driver_inv d \<Longrightarrow> driver_inv (enter_market ex td ctx dec d)"
  by (simp add: enter_market_def Let_def case_prod_beta driver_inv_def distinct_update split: option.split)

lemma inv_fields [simp]:
  "driver_inv (d\<lparr>pd_risk := r\<rparr>) = driver_inv d"
  "driver_inv (d\<lparr>pd_strat_state := s\<rparr>) = driver_inv d"
  "driver_inv (d\<lparr>pd_risk := r, pd_strat_state := s\<rparr>) = driver_inv d"
  by (rule inv_same; simp)+

lemma inv_evaluate: "driver_inv d \<Longrightarrow> driver_inv (evaluate_entry ex td ctx d)"
  by (simp add: evaluate_entry_def Let_def case_prod_beta inv_enter)

lemma inv_gated: "driver_inv d \<Longrightarrow> driver_inv (gated_tick md ex now td ctx d)"
proof -
  assume inv: "driver_inv d"
  let ?d1 = "d\<lparr>pd_hb_open_positions := length (pd_open_positions d), pd_hb_trades_today := pd_daily_trades d\<rparr>"
  have i: "driver_inv ?d1" "driver_inv (?d1\<lparr>pd_trade_taken := A\<rparr>)" for A
    using inv by (simp_all add: driver_inv_def)
  have settle: "driver_inv e \<Longrightarrow> driver_inv (settle_position md now s e)" for s e
    by (simp add: settle_position_def inv_watchdog split: option.split)
  show ?thesis
    unfolding gated_tick_def Let_def using i
    by (auto intro: settle inv_cleanup inv_evaluate)
qed

datatype driver_event =
    DTick market_db "string \<Rightarrow> bool" real tick_dict
  | DWatchdog market_db real
  | DOrphans real
  | DKillSwitch "string \<Rightarrow> bool"
  | DReconcile real
  | DSummary
  | DControl "string option"

fun driver_step :: "(real \<Rightarrow> real) \<Rightarrow> driver_event \<Rightarrow> 's paper_driver \<Rightarrow> 's paper_driver" where
  "driver_step erf (DTick md ex now td) d = handle_tick erf md ex now td d"
| "driver_step erf (DWatchdog md now) d = settle_watchdog_step md now d"
| "driver_step erf (DOrphans now) d = orphan_cleanup_step now d"
| "driver_step erf (DKillSwitch ex) d = kill_switch_step ex d"
| "driver_step erf (DReconcile now) d = reconciliation_step now d"
| "driver_step erf DSummary d = eval_summary_step d"
| "driver_step erf (DControl a) d = handle_control_message a d"

lemma driver_step_inv: "driver_inv d \<Longrightarrow> driver_inv (driver_step erf e d)"
proof (cases e)
  case (DTick md ex now td)
  assume "driver_inv d"
  with DTick show ?thesis
    by (simp add: handle_tick_def case_prod_beta Let_def inv_setup inv_gated split: sum.split)
next
  case (DOrphans now)
  have "driver_inv d \<Longrightarrow> driver_inv (fold cleanup_market xs d)" for xs
    by (induction xs arbitrary: d) (simp_all add: inv_cleanup)
  then show "driver_inv d \<Longrightarrow> ?thesis" using DOrphans by (simp add: orphan_cleanup_step_def Let_def)
next
  case (DWatchdog md now)
  then show "driver_inv d \<Longrightarrow> ?thesis" by (simp add: inv_watchdog_step)
qed (simp_all add: driver_inv_def kill_switch_step_def reconciliation_step_def eval_summary_step_def
    handle_control_message_def Let_def)

interpretation paper: preserved "driver_step erf" driver_inv for erf
  by unfold_locales (rule driver_step_inv)

text \<open>Whatever the driver receives, in any order, it holds at most one position per market, keeps
  at most 140 ticks per market and shows the strategy at most 120 of them.\<close>

theorem driver_state_bounded:
  fixes erf :: "real \<Rightarrow> real"
  assumes "d = fold (driver_step erf) es (new_paper_driver strat s0 risk exec cfg db)"
  shows "distinct (keys_of (pd_open_positions d)) \<and> length (dict_getd (pd_recent_ticks d) slug []) \<le> 140 \<and>
    length (tc_recent_ticks (fst (tick_setup erf c d))) \<le> 120"
proof -
  have "driver_inv (new_paper_driver strat s0 risk exec cfg db)" by (simp add: driver_inv_def new_paper_driver_def)
  then have "driver_inv d" unfolding assms by (rule paper.run_inv)
  then show ?thesis
    by (simp add: driver_inv_def tick_setup_def case_prod_beta Let_def)
qed

section \<open>Worked examples\<close>

text \<open>A driver of the always-up strategy and one tick in the middle of the window.\<close>

definition ex_driver_config :: driver_config where
  "ex_driver_config = \<lparr>dv_strategy_id = ''s'', dv_stake_usd = 10, dv_earliest_entry_t = 60, dv_latest_entry_t = 240,
     dv_daily_alert_pnl_threshold = - 50, dv_daily_pause_pnl_threshold = - 100\<rparr>"

definition ex_driver :: "unit paper_driver" where
  "ex_driver = new_paper_driver ex_strategy () ex_bt_manager ex_client ex_driver_config empty_db"

definition ex_tick_dict :: tick_dict where
  "ex_tick_dict = \<lparr>td_num = [(''ts'', Some 150), (''window_close_ts'', Some 300), (''t_in_window'', Some 150),
       (''spot_price'', Some 100), (''open_price'', Some 100), (''pm_yes_ask'', Some (1 / 2)),
       (''pm_no_ask'', Some (1 / 2)), (''pm_depth_yes'', Some 100), (''pm_depth_no'', Some 100)],
     td_market_slug = ''m'', td_condition_id = Some ''c''\<rparr>"

definition ex_driver_tick :: tick_core where
  "ex_driver_tick = projr (tick_from_dict ex_tick_dict)"

definition ex_market_db :: market_db where
  "ex_market_db = \<lparr>md_paper_ticks = [], md_ohlcv = [(300, 101), (0, 100)], md_up = True\<rparr>"

lemma ex_tick_parses: "tick_from_dict ex_tick_dict = Inr ex_driver_tick"
  by (simp add: ex_driver_tick_def tick_from_dict_def ex_tick_dict_def Let_def)

lemma ex_driver_tick_sel [simp]:
  "tc_market_slug ex_driver_tick = ''m''" "tc_ts ex_driver_tick = 150" "tc_t_in_window ex_driver_tick = 150"
  "tc_pm_yes_ask ex_driver_tick = 1 / 2" "tc_pm_spread_bps ex_driver_tick = 0"
  "tc_pm_depth_yes ex_driver_tick = 100" "tc_pm_depth_no ex_driver_tick = 100" "tc_window_close_ts ex_driver_tick = 300"
  by (simp_all add: ex_driver_tick_def tick_from_dict_def ex_tick_dict_def num_or0_def Let_def)

lemma ex_driver_admitted: "fst (fst (can_enter (fst (tick_setup erf ex_driver_tick ex_driver)) ex_bt_manager))"
  by (simp add: can_enter_ok_iff tick_setup_def with_recent_def tick_core.defs stack_update_def case_prod_beta Let_def
      ex_bt_manager_def ex_manager_def new_risk_state_def today_of_def roll_day_def)

lemma ex_driver_enters:
  "map_of (pd_open_positions (handle_tick (\<lambda>_. 0) ex_market_db no_files 150 ex_tick_dict ex_driver)) ''m'' \<noteq> None"
proof -
  let ?r = "tick_setup (\<lambda>_. 0) ex_driver_tick ex_driver"
  define ctx where "ctx = fst ?r"
  define d1 where "d1 = snd ?r"
  have ctx: "tc_market_slug ctx = ''m''" "tc_t_in_window ctx = 150" "tc_pm_yes_ask ctx = 1 / 2" "tc_ts ctx = 150"
    using stack_update_market [of ex_driver_tick "\<lambda>_. 0"]
    by (simp_all add: ctx_def tick_setup_def case_prod_beta Let_def with_recent_def tick_core.defs same_market_def)
  have d1: "pd_open_positions d1 = []" "pd_trade_taken d1 = {}" "pd_daily_pnl d1 = 0" "pd_cfg d1 = ex_driver_config"
    "pd_strategy d1 = ex_strategy" "pd_risk d1 = ex_bt_manager" "pd_exec d1 = ex_client" "pd_db d1 = empty_db" "\<not> pd_paused d1"
    by (simp_all add: d1_def tick_setup_day ex_driver_def new_paper_driver_def)
  have "handle_tick (\<lambda>_. 0) ex_market_db no_files 150 ex_tick_dict ex_driver = gated_tick ex_market_db no_files 150 ex_tick_dict ctx d1"
    using d1(9) by (simp add: handle_tick_def ex_tick_parses case_prod_beta Let_def ctx_def d1_def)
  moreover have "fst (fst (can_enter ctx (pd_risk d1)))"
    using ex_driver_admitted [of "\<lambda>_. 0"] by (simp add: d1 ctx_def)
  moreover have "fst (try_enter no_files ex_client (entry_request_of ex_driver_config ex_tick_dict ctx YES_UP) empty_db) \<noteq> None"
    using ctx by (simp add: try_enter_def entry_request_of_def LATE_ENTRY_GUARD_def STALE_BOOK_SECONDS_def
        ex_driver_config_def empty_db_def request_fill_def simulate_fill_def ex_client_def default_fill_params_def Let_def)
  ultimately show ?thesis
    using d1 ctx by (auto simp: gated_tick_def evaluate_entry_def enter_market_def Let_def case_prod_beta ex_driver_config_def
        ex_strategy_def mk_decision_def split: option.splits)
qed

theorem entry_passes_every_gate_witness:
  "''m'' \<in> pd_trade_taken (handle_tick (\<lambda>_. 0) ex_market_db no_files 150 ex_tick_dict ex_driver) \<and>
   orders_tbl (pd_db (handle_tick (\<lambda>_. 0) ex_market_db no_files 150 ex_tick_dict ex_driver)) \<noteq> []"
proof -
  obtain pos where p: "map_of (pd_open_positions (handle_tick (\<lambda>_. 0) ex_market_db no_files 150 ex_tick_dict ex_driver)) ''m'' = Some pos"
    using ex_driver_enters by blast
  have "''m'' = tc_market_slug ex_driver_tick" "map_of (pd_open_positions ex_driver) ''m'' = None"
    by (simp_all add: ex_driver_def new_paper_driver_def)
  from entry_passes_every_gate [OF ex_tick_parses this p] show ?thesis by auto
qed

theorem paused_driver_is_inert_witness:
  "pd_db (handle_tick (\<lambda>_. 0) ex_market_db no_files 150 ex_tick_dict (ex_driver\<lparr>pd_paused := True\<rparr>)) = empty_db"
  using paused_driver_is_inert [of "ex_driver\<lparr>pd_paused := True\<rparr>", OF _ refl, of "\<lambda>_. 0" ex_market_db no_files 150 ex_tick_dict]
  by (simp add: ex_driver_def new_paper_driver_def)

definition ex_held :: "unit paper_driver" where
  "ex_held = ex_driver\<lparr>pd_open_positions := [(''m'', entry_position ex_client ex_request)]\<rparr>"

lemma ex_held_pos: "map_of (pd_open_positions ex_held) ''m'' = Some (entry_position ex_client ex_request)"
  by (simp add: ex_held_def)

lemma ex_position_simps:
  "ep_side (entry_position ex_client ex_request) = YES_UP" "ep_stake_usd (entry_position ex_client ex_request) = 10"
  "ep_client_order_id (entry_position ex_client ex_request) = request_coid ex_client ex_request"
  "ep_window_close_ts (entry_position ex_client ex_request) = 300" "0 < ep_entry_price (entry_position ex_client ex_request)"
  by (simp_all add: entry_position_def ex_request_def Let_def)
    (simp add: request_fill_def simulate_fill_def ex_client_def default_fill_params_def Let_def)

theorem settlement_booked_once_witness:
  "map_of (pd_open_positions (settle_from_values ''m'' 300 101 True ex_held)) ''m'' = None \<and>
   pd_daily_pnl (settle_from_values ''m'' 300 101 True ex_held) = 10 / ep_entry_price (entry_position ex_client ex_request) - 10 \<and>
   length (fills_tbl (pd_db (settle_from_values ''m'' 300 101 True ex_held))) = 1"
  using settlement_booked_once [OF ex_held_pos ex_position_simps(5) refl refl refl refl, where t = 300 and up = True and px = 101]
  by (simp add: ex_position_simps ex_held_def ex_driver_def new_paper_driver_def empty_db_def)

theorem watchdog_settles_closed_windows_witness:
  "pd_open_positions (settle_watchdog_step ex_market_db 500 ex_held) = [] \<and>
   pd_daily_pnl (settle_watchdog_step ex_market_db 500 ex_held) = 10 / ep_entry_price (entry_position ex_client ex_request) - 10"
proof -
  let ?pos = "entry_position ex_client ex_request"
  note close = ex_position_simps(4)
  have prices: "closing_price ex_market_db ?pos 500 = Some 101" "opening_price ex_market_db ?pos = Some 100"
    by (simp_all add: closing_price_def opening_price_def last_paper_tick_price_def first_paper_tick_spot_def window_rows_def
        ohlcv_close_at_def ex_market_db_def close Let_def)
  have d: "distinct (keys_of (pd_open_positions ex_held))" "pd_open_positions ex_held = [(''m'', ?pos)]" "pd_daily_pnl ex_held = 0"
    by (simp_all add: ex_held_def ex_driver_def new_paper_driver_def)
  show ?thesis
    using watchdog_settles_closed_windows [OF d(1) refl refl refl, where now = 500 and md = ex_market_db]
    by (simp add: d(2,3) close prices payoff_def position_won_def ex_position_simps)
qed

theorem first_tick_discards_restored_state_witness:
  "pd_trade_taken (snd (tick_setup (\<lambda>_. 0) ex_driver_tick
     (boot (Some True) 500 (new_paper_driver ex_strategy () ex_bt_manager ex_client ex_driver_config empty_db)))) = {} \<and>
   pd_daily_pnl (boot (Some True) 500 (new_paper_driver ex_strategy () ex_bt_manager ex_client ex_driver_config empty_db)) = 0"
  using first_tick_discards_restored_state [of "Some True" 500 ex_strategy "()" ex_bt_manager ex_client ex_driver_config empty_db
      "\<lambda>_. 0" ex_driver_tick]
  by (simp add: Let_def empty_db_def settled_pnl_def joined_fills_def)

text \<open>A day with one entry and one lost settlement, reconciled just after midnight.\<close>

definition ex_ledger_client :: exec_client where
  "ex_ledger_client = ex_client\<lparr>ec_strategy_id := ''always_up''\<rparr>"

definition ex_ledger_db :: trading_db where
  "ex_ledger_db = \<lparr>orders_tbl = [entry_order_row ex_ledger_client ex_request],
     fills_tbl = [entry_fill_row ex_ledger_client ex_request,
       exit_fill_row (entry_position ex_ledger_client ex_request) 300 (''LOSS'', 0, - 10)], db_up = True, fills_up = True\<rparr>"

definition ex_evening :: "unit paper_driver" where
  "ex_evening = ex_driver\<lparr>pd_db := ex_ledger_db, pd_today := Some 0, pd_daily_pnl := - 10, pd_daily_trades := 1\<rparr>"

lemma ex_ledger_joined:
  "joined_fills ''always_up'' 86410 ex_ledger_db = fills_tbl ex_ledger_db"
  by (simp add: joined_fills_def ex_ledger_db_def entry_fill_row_def exit_fill_row_def entry_order_row_def entry_position_def
      ex_ledger_client_def request_coid_def ex_request_def LATENCY_MS_def Let_def)

theorem reconciliation_fails_after_midnight_witness:
  "\<exists>detail. pd_sent (reconciliation_step 86410 (snd (tick_setup (\<lambda>_. 0) (ex_driver_tick\<lparr>tc_ts := 86405\<rparr>) ex_evening)))
     = [ReconciliationFail detail]"
proof -
  have sel: "pd_today ex_evening = Some 0" "pd_db ex_evening = ex_ledger_db" "pd_sent ex_evening = []"
    "sg_name (pd_strategy ex_evening) = ''always_up''" "db_up ex_ledger_db"
    by (simp_all add: ex_evening_def ex_driver_def new_paper_driver_def ex_strategy_def ex_ledger_db_def)
  have "settled_pnl (fills_tbl ex_ledger_db) = - 10" "count_kind ''entry'' (fills_tbl ex_ledger_db) = 1"
    by (simp_all add: settled_pnl_def count_kind_def fill_kind_def ex_ledger_db_def entry_fill_row_def exit_fill_row_def Let_def)
  then show ?thesis
    using reconciliation_fails_after_midnight [of ex_evening "ex_driver_tick\<lparr>tc_ts := 86405\<rparr>" 86410 "\<lambda>_. 0"]
    by (simp add: sel ex_ledger_joined today_of_def)
qed

theorem kill_switch_alerts_once_per_change_witness:
  "pd_sent (fold kill_switch_step [no_files, no_files] ex_driver) = [] \<and>
   pd_sent (fold kill_switch_step [all_files, all_files, no_files] ex_driver) = [KillSwitchOn, KillSwitchOff]"
proof -
  have d: "pd_sent ex_driver = []" "pd_kill_switch_last_state ex_driver = False"
    by (simp_all add: ex_driver_def new_paper_driver_def)
  show ?thesis
    using kill_switch_alerts_once_per_change [of "[no_files, no_files]" ex_driver]
      kill_switch_alerts_once_per_change [of "[all_files, all_files, no_files]" ex_driver] d by simp
qed

theorem driver_state_bounded_witness:
  "distinct (keys_of (pd_open_positions (fold (driver_step (\<lambda>_. 0)) [DTick ex_market_db no_files 150 ex_tick_dict, DWatchdog ex_market_db 500]
     (new_paper_driver ex_strategy () ex_bt_manager ex_client ex_driver_config empty_db))))"
  using driver_state_bounded [OF refl, of "\<lambda>_. 0" "[DTick ex_market_db no_files 150 ex_tick_dict, DWatchdog ex_market_db 500]"
      ex_strategy "()" ex_bt_manager ex_client ex_driver_config empty_db] by blast

end
