(* ===== verification/MM_Driver.thy ===== *)
theory MM_Driver
  imports Limit_Book MM_Rebate Paper_Driver
begin

text \<open>
  \<open>paper/mm_driver.py\<close>: the driver of a market-making strategy. \<open>mm_driver\<close> is the state of
  \<open>MMPaperDriver\<close>: the state it inherits from \<open>PaperDriver\<close> (with the market-making strategy as the
  strategy object), its own \<open>LimitBookSim\<close> and the caps shared by all drivers.
  \<open>mm_handle_tick\<close> is \<open>_handle_tick\<close> and \<open>dispatch_action\<close> is \<open>_dispatch_action\<close>. The engine gives
  every driver a book of its own. A raise in a dispatched action ends the handler: the actions
  after it and the matching do not run, and what was done before it stays.
\<close>

section \<open>State\<close>

record mm_driver =
  mx_base :: "mm_strategy paper_driver"
  mx_book :: limit_book
  mx_global :: global_mm_state

definition new_mm_driver :: "mm_strategy paper_driver \<Rightarrow> limit_book \<Rightarrow> global_mm_state option \<Rightarrow> mm_driver" where
  "new_mm_driver base book global =
     \<lparr>mx_base = base, mx_book = book,
      mx_global = (case global of Some g \<Rightarrow> g | None \<Rightarrow> default_global_mm_state)\<rparr>"

abbreviation mm_strat :: "mm_driver \<Rightarrow> mm_strategy" where
  "mm_strat d \<equiv> pd_strat_state (mx_base d)"

definition mm_bump :: "string \<Rightarrow> mm_driver \<Rightarrow> mm_driver" where
  "mm_bump bucket d = d\<lparr>mx_base := bump_counter bucket None (mx_base d)\<rparr>"

definition instrument_id_yes :: "string \<Rightarrow> string" where
  "instrument_id_yes slug = slug @ ''-YES.POLYMARKET''"

definition side_to_book_side :: "side \<Rightarrow> string" where
  "side_to_book_side sd = (if sd = YES_UP then ''BUY'' else ''SELL'')"

section \<open>Actions\<close>

definition coid_for_post :: "digest_env \<Rightarrow> string \<Rightarrow> string \<Rightarrow> real \<Rightarrow> post_quote \<Rightarrow> string" where
  "coid_for_post digest strategy slug ts q =
     take 16 (dg_sha256_hex digest
       (strategy @ ''|'' @ slug @ ''|'' @ dg_fmt6 digest ts @ ''|'' @ side_value (pq_side q) @ ''|'' @ pq_client_id_seed q))"

definition order_of_quote :: "digest_env \<Rightarrow> string \<Rightarrow> string \<Rightarrow> real \<Rightarrow> post_quote \<Rightarrow> limit_order" where
  "order_of_quote digest strategy slug ts q =
     \<lparr>lo_coid = coid_for_post digest strategy slug ts q, lo_strategy_id = strategy,
      lo_instrument_id = instrument_id_yes slug, lo_side = side_to_book_side (pq_side q),
      lo_price = pq_price q, lo_qty = pq_qty_shares q, lo_ts_placed = ts,
      lo_ttl_s = (if pq_ttl_seconds q > 0 then Some (of_int (pq_ttl_seconds q)) else None),
      lo_metadata = [(''strategy'', JStr strategy), (''seed'', JStr (pq_client_id_seed q))]\<rparr>"

definition place_quote :: "limit_order \<Rightarrow> mm_driver \<Rightarrow> py_error option \<times> mm_driver" where
  "place_quote lo d =
     (case place lo (mx_book d) (pd_db (mx_base d)) of
        Inl e \<Rightarrow> (Some e, d)
      | Inr (_, b, db) \<Rightarrow> (None, d\<lparr>mx_book := b, mx_base := (mx_base d)\<lparr>pd_db := db\<rparr>\<rparr>))"

definition cancel_quote :: "string \<Rightarrow> string \<Rightarrow> datetime \<Rightarrow> mm_driver \<Rightarrow> bool \<times> mm_driver" where
  "cancel_quote coid reason now d =
     (let (ok, b, db) = cancel coid reason (of_int now / 10 ^ 6) (mx_book d) (pd_db (mx_base d))
      in (ok, d\<lparr>mx_book := b, mx_base := (mx_base d)\<lparr>pd_db := db\<rparr>\<rparr>))"

fun dispatch_action ::
  "digest_env \<Rightarrow> datetime \<Rightarrow> real \<Rightarrow> string \<Rightarrow> mm_action \<Rightarrow> mm_driver \<Rightarrow> py_error option \<times> mm_driver" where
  "dispatch_action digest now ts slug (PostQuote q) d =
     (let name = mr_name (mm_strat d);
          delta_inv = pq_qty_shares q * pq_price q;
          (blocked, _) = global_block_post_quote (mx_global d) name delta_inv delta_inv
      in if blocked then (None, mm_bump ''mm_global_cap_drop'' d)
         else (case place_quote (order_of_quote digest name slug ts q) d of
                 (Some e, d') \<Rightarrow> (Some e, d')
               | (None, d') \<Rightarrow> (None, mm_bump ''mm_post_quote'' d')))"
| "dispatch_action digest now ts slug (CancelQuote coid market reason) d =
     (None, mm_bump ''mm_cancel_quote'' (snd (cancel_quote coid (if reason \<noteq> [] then reason else ''user'') now d)))"
| "dispatch_action digest now ts slug (ReplaceQuote old new) d =
     (let (ok, d1) = cancel_quote old ''replace'' now d;
          (err, d2) = (if ok then place_quote (order_of_quote digest (mr_name (mm_strat d)) slug ts new) d1 else (None, d1))
      in case err of Some e \<Rightarrow> (Some e, d2) | None \<Rightarrow> (None, mm_bump ''mm_replace_quote'' d2))"

fun dispatch_all ::
  "digest_env \<Rightarrow> datetime \<Rightarrow> real \<Rightarrow> string \<Rightarrow> mm_action list \<Rightarrow> mm_driver \<Rightarrow> py_error option \<times> mm_driver" where
  "dispatch_all digest now ts slug [] d = (None, d)"
| "dispatch_all digest now ts slug (a # as) d =
     (case dispatch_action digest now ts slug a d of
        (Some e, d') \<Rightarrow> (Some e, d')
      | (None, d') \<Rightarrow> dispatch_all digest now ts slug as d')"

section \<open>Ticks\<close>

definition fill_side :: "limit_fill \<Rightarrow> side" where
  "fill_side f = (if lf_side f = ''BUY'' then YES_UP else YES_DOWN)"

definition deliver_fill :: "datetime \<Rightarrow> string \<Rightarrow> limit_fill \<Rightarrow> mm_driver \<Rightarrow> mm_driver" where
  "deliver_fill now slug f d =
     (let sd = side_value (fill_side f);
          base = mx_base d;
          base1 = base\<lparr>pd_strat_state := mm_on_fill slug (lf_coid f) sd (lf_price f) (lf_qty f) now (pd_strat_state base),
                       pd_daily_trades := pd_daily_trades base + 1\<rparr>;
          base2 = bump_counter ''fill'' None base1
      in d\<lparr>mx_base := send (TradeOpen slug sd (lf_price f) (lf_qty f * lf_price f)) base2\<rparr>)"

definition match_mid :: "datetime \<Rightarrow> string \<Rightarrow> real \<Rightarrow> real \<Rightarrow> mm_driver \<Rightarrow> mm_driver" where
  "match_mid now slug mid ts d =
     (if 0 < mid \<and> mid < 1
      then (let (fills, b, db) = on_tick (instrument_id_yes slug) mid ts (mx_book d) (pd_db (mx_base d));
                d1 = d\<lparr>mx_book := b, mx_base := (mx_base d)\<lparr>pd_db := db\<rparr>\<rparr>
            in fold (deliver_fill now slug) fills d1)
      else d)"

definition active_markets :: "mm_strategy \<Rightarrow> nat" where
  "active_markets s = length (filter (\<lambda>v. v \<noteq> []) (values_of (mr_live s)))"

definition mm_handle_tick ::
  "(real \<Rightarrow> real) \<Rightarrow> digest_env \<Rightarrow> datetime \<Rightarrow> tick_dict \<Rightarrow> mm_driver \<Rightarrow> mm_driver" where
  "mm_handle_tick erf digest now td d0 =
     (case tick_from_dict td of
        Inl _ \<Rightarrow> d0
      | Inr tick \<Rightarrow>
          (let (ctx, base) = tick_setup erf tick (mx_base d0);
               slug = tc_market_slug ctx
           in if pd_paused base
              then d0\<lparr>mx_base := bump_counter ''paused_skip'' (Some (ftext ''paused'')) base\<rparr>
              else (let base1 = base\<lparr>pd_hb_open_positions := active_markets (pd_strat_state base),
                                     pd_hb_trades_today := pd_daily_trades base\<rparr>;
                        (acts, st) = mm_on_tick digest now ctx (pd_strat_state base1);
                        (err, d1) = dispatch_all digest now (tc_ts ctx) slug acts
                          (d0\<lparr>mx_base := base1\<lparr>pd_strat_state := st\<rparr>\<rparr>)
                    in case err of
                         Some _ \<Rightarrow> d1
                       | None \<Rightarrow> match_mid now slug (tc_implied_prob_yes ctx) (tc_ts ctx) d1)))"

section \<open>Selectors of the actions\<close>

lemma mm_bump_sel [simp]:
  "mx_book (mm_bump k d) = mx_book d" "mx_global (mm_bump k d) = mx_global d" "mm_strat (mm_bump k d) = mm_strat d"
  "pd_db (mx_base (mm_bump k d)) = pd_db (mx_base d)" "pd_paused (mx_base (mm_bump k d)) = pd_paused (mx_base d)"
  by (simp_all add: mm_bump_def)

lemma cancel_quote_sel [simp]:
  "mx_global (snd (cancel_quote c r now d)) = mx_global d" "mm_strat (snd (cancel_quote c r now d)) = mm_strat d"
  "pd_paused (mx_base (snd (cancel_quote c r now d))) = pd_paused (mx_base d)"
  by (simp_all add: cancel_quote_def case_prod_beta Let_def)

lemma place_quote_sel [simp]:
  "mx_global (snd (place_quote lo d)) = mx_global d" "mm_strat (snd (place_quote lo d)) = mm_strat d"
  "pd_paused (mx_base (snd (place_quote lo d))) = pd_paused (mx_base d)"
  by (simp_all add: place_quote_def case_prod_beta split: sum.split)

lemma place_quote_ok: "order_wf lo \<Longrightarrow> fst (place_quote lo d) = None"
  by (auto simp: place_quote_def place_def order_wf_def Let_def)

lemma cancel_quote_wf [intro]: "book_wf (mx_book d) \<Longrightarrow> book_wf (mx_book (snd (cancel_quote c r now d)))"
  by (simp add: cancel_quote_def case_prod_beta Let_def cancel_wf)

lemma place_quote_wf [intro]: "book_wf (mx_book d) \<Longrightarrow> book_wf (mx_book (snd (place_quote lo d)))"
  by (auto simp: place_quote_def split: sum.split prod.split dest: place_wf)

text \<open>The driver as a client of the book.\<close>

interpretation quote_store: object_store "\<lambda>d. book_get (mx_book d)" "\<lambda>lo d. snd (place_quote lo d)"
    "\<lambda>c d. cancel_quote c r now d" lo_coid order_wf for r now
proof
  fix lo d
  assume wf: "order_wf lo"
  have "mx_book (snd (place_quote lo d)) = fst (book_step (OpPlace lo) (mx_book d, pd_db (mx_base d)))"
    by (simp add: place_quote_def split: sum.split prod.split)
  with book_store.find_put [OF wf, of "(mx_book d, pd_db (mx_base d))"]
  show "book_get (mx_book (snd (place_quote lo d))) =
      (if book_get (mx_book d) (lo_coid lo) = None then (book_get (mx_book d))(lo_coid lo \<mapsto> lo) else book_get (mx_book d))"
    by simp
next
  fix k d
  show "fst (cancel_quote k r now d) \<longleftrightarrow> book_get (mx_book d) k \<noteq> None"
    using book_store.pull_ok [of k r "of_int now / 10 ^ 6" "(mx_book d, pd_db (mx_base d))"]
    by (simp add: cancel_quote_def case_prod_beta Let_def)
  show "book_get (mx_book (snd (cancel_quote k r now d))) = (book_get (mx_book d))(k := None)"
    using book_store.find_pull [of k r "of_int now / 10 ^ 6" "(mx_book d, pd_db (mx_base d))"]
    by (simp add: cancel_quote_def case_prod_beta Let_def)
qed

text \<open>The driver derives the order id the strategy has written into its ledger.\<close>

lemma coid_for_post_eq: "coid_for_post digest name slug ts q = mm_coid digest name slug ts (pq_side q) (pq_client_id_seed q)"
  by (simp add: coid_for_post_def mm_coid_def)

lemma order_of_quote_sel [simp]:
  "lo_coid (order_of_quote digest name slug ts q) = mm_coid digest name slug ts (pq_side q) (pq_client_id_seed q)"
  "lo_instrument_id (order_of_quote digest name slug ts q) = instrument_id_yes slug"
  "lo_price (order_of_quote digest name slug ts q) = pq_price q" "lo_qty (order_of_quote digest name slug ts q) = pq_qty_shares q"
  "lo_side (order_of_quote digest name slug ts q) = side_to_book_side (pq_side q)"
  by (simp_all add: order_of_quote_def coid_for_post_eq)

lemma order_of_quote_wf: "0 < pq_price q \<Longrightarrow> 0 < pq_qty_shares q \<Longrightarrow> order_wf (order_of_quote digest name slug ts q)"
  by (simp add: order_wf_def side_to_book_side_def)

lemma instrument_inj [simp]: "instrument_id_yes a = instrument_id_yes b \<longleftrightarrow> a = b"
  by (simp add: instrument_id_yes_def)

section \<open>No orphan orders\<close>

definition tracked :: "string \<Rightarrow> mm_strategy \<Rightarrow> string set" where
  "tracked slug s = lq_client_order_id ` set (live_of slug s)"

definition orphan_free :: "mm_strategy \<Rightarrow> limit_book \<Rightarrow> bool" where
  "orphan_free s b \<longleftrightarrow>
     (\<forall>c lo. book_get b c = Some lo \<longrightarrow> (\<exists>slug. lo_instrument_id lo = instrument_id_yes slug \<and> c \<in> tracked slug s))"

lemma orphan_free_step:
  assumes "orphan_free s b"
    and "\<And>c lo. book_get b' c = Some lo \<Longrightarrow> (book_get b c = Some lo \<and> c \<notin> old) \<or> (c \<in> new \<and> lo_instrument_id lo = instrument_id_yes slug)"
    and "\<And>m. tracked m s - (if m = slug then old else {}) \<subseteq> tracked m s'" and "new \<subseteq> tracked slug s'"
  shows "orphan_free s' b'"
  unfolding orphan_free_def
proof (intro allI impI)
  fix c lo
  assume "book_get b' c = Some lo"
  from assms(2) [OF this] show "\<exists>m. lo_instrument_id lo = instrument_id_yes m \<and> c \<in> tracked m s'"
  proof
    assume c: "book_get b c = Some lo \<and> c \<notin> old"
    with assms(1) obtain m where m: "lo_instrument_id lo = instrument_id_yes m" "c \<in> tracked m s"
      unfolding orphan_free_def by blast
    with c have "c \<in> tracked m s - (if m = slug then old else {})" by simp
    with assms(3) [of m] m show ?thesis by blast
  next
    assume "c \<in> new \<and> lo_instrument_id lo = instrument_id_yes slug"
    with assms(4) show ?thesis by blast
  qed
qed

text \<open>What dispatching a list of actions does: it never raises, touches only the book, its tables and
  the counters, and leaves the book covered by the new ledger.\<close>

definition dispatch_good :: "digest_env \<Rightarrow> datetime \<Rightarrow> real \<Rightarrow> string \<Rightarrow> mm_action list \<Rightarrow> mm_strategy \<Rightarrow> mm_driver \<Rightarrow> bool" where
  "dispatch_good digest now ts slug acts s' d \<longleftrightarrow>
     fst (dispatch_all digest now ts slug acts d) = None \<and>
     (let d' = snd (dispatch_all digest now ts slug acts d)
      in orphan_free s' (mx_book d') \<and> book_wf (mx_book d') \<and> mm_strat d' = mm_strat d \<and> mx_global d' = mx_global d)"

lemma dispatch_all_append:
  "dispatch_all digest now ts slug (as @ bs) d =
     (case dispatch_all digest now ts slug as d of
        (Some e, d') \<Rightarrow> (Some e, d') | (None, d') \<Rightarrow> dispatch_all digest now ts slug bs d')"
  by (induction as arbitrary: d) (auto split: prod.split option.split)

lemma dispatch_good_append:
  assumes "dispatch_good digest now ts slug as s1 d"
    and "\<And>d1. orphan_free s1 (mx_book d1) \<Longrightarrow> book_wf (mx_book d1) \<Longrightarrow> mm_strat d1 = mm_strat d \<Longrightarrow>
      dispatch_good digest now ts slug bs s2 d1"
  shows "dispatch_good digest now ts slug (as @ bs) s2 d"
proof -
  obtain d1 where d1: "dispatch_all digest now ts slug as d = (None, d1)"
    using assms(1) by (cases "dispatch_all digest now ts slug as d") (simp add: dispatch_good_def)
  with assms(1) have "orphan_free s1 (mx_book d1)" "book_wf (mx_book d1)" "mm_strat d1 = mm_strat d" "mx_global d1 = mx_global d"
    by (simp_all add: dispatch_good_def Let_def)
  with assms(2) [OF this(1-3)] d1 show ?thesis
    by (simp add: dispatch_good_def Let_def dispatch_all_append)
qed

lemma dispatch_good_nil: "orphan_free s' (mx_book d) \<Longrightarrow> book_wf (mx_book d) \<Longrightarrow> dispatch_good digest now ts slug [] s' d"
  by (simp add: dispatch_good_def)

lemma dispatch_good_cancel:
  assumes "orphan_free s (mx_book d)" "book_wf (mx_book d)" "\<And>m. tracked m s - (if m = slug then {c} else {}) \<subseteq> tracked m s'"
  shows "dispatch_good digest now ts slug [CancelQuote c slug r] s' d"
proof -
  let ?d = "snd (cancel_quote c (if r \<noteq> [] then r else ''user'') now d)"
  have "orphan_free s' (mx_book ?d)"
    by (rule orphan_free_step [OF assms(1) _ assms(3), of "mx_book ?d" "{}"])
      (use quote_store.pull_origin [of c "if r \<noteq> [] then r else ''user''" now d] in auto)
  with assms(2) show ?thesis by (simp add: dispatch_good_def Let_def cancel_quote_wf)
qed

lemma dispatch_good_post:
  assumes "orphan_free s (mx_book d)" "book_wf (mx_book d)" "0 < pq_price q" "0 < pq_qty_shares q"
    and "\<And>m. tracked m s \<subseteq> tracked m s'"
    and "mm_coid digest (mr_name (mm_strat d)) slug ts (pq_side q) (pq_client_id_seed q) \<in> tracked slug s'"
  shows "dispatch_good digest now ts slug [PostQuote q] s' d"
proof -
  let ?lo = "order_of_quote digest (mr_name (mm_strat d)) slug ts q"
  have wf: "order_wf ?lo" using assms(3,4) by (rule order_of_quote_wf)
  have err: "fst (place_quote ?lo d) = None" using wf by (rule place_quote_ok)
  have keep: "orphan_free s' (mx_book d)"
    by (rule orphan_free_step [OF assms(1), of _ "{}" "{}" slug]) (use assms(5) in auto)
  have "(book_get (mx_book d) c = Some lo \<and> c \<notin> {}) \<or> (c \<in> {lo_coid ?lo} \<and> lo_instrument_id lo = instrument_id_yes slug)"
    if "book_get (mx_book (snd (place_quote ?lo d))) c = Some lo" for c lo
    using quote_store.put_origin [OF wf that] by auto
  then have new: "orphan_free s' (mx_book (snd (place_quote ?lo d)))"
    by (rule orphan_free_step [OF assms(1)]) (use assms(5,6) in auto)
  obtain d1 where d1: "place_quote ?lo d = (None, d1)" using err by (cases "place_quote ?lo d") auto
  have d1s: "orphan_free s' (mx_book d1)" "mm_strat d1 = mm_strat d" "mx_global d1 = mx_global d"
    using new place_quote_sel [of ?lo d] by (simp_all add: d1)
  have "book_wf (mx_book d1)" using place_quote_wf [OF assms(2), of ?lo] by (simp add: d1)
  with keep d1 d1s assms(2) show ?thesis
    by (simp add: dispatch_good_def Let_def case_prod_beta)
qed

lemma dispatch_good_replace:
  assumes "orphan_free s (mx_book d)" "book_wf (mx_book d)" "0 < pq_price q" "0 < pq_qty_shares q"
    and "\<And>m. tracked m s - (if m = slug then {old} else {}) \<subseteq> tracked m s'"
    and "mm_coid digest (mr_name (mm_strat d)) slug ts (pq_side q) (pq_client_id_seed q) \<in> tracked slug s'"
  shows "dispatch_good digest now ts slug [ReplaceQuote old q] s' d"
proof -
  let ?lo = "order_of_quote digest (mr_name (mm_strat d)) slug ts q"
  let ?c = "snd (cancel_quote old ''replace'' now d)"
  have wf: "order_wf ?lo" using assms(3,4) by (rule order_of_quote_wf)
  obtain d1 where d1: "place_quote ?lo ?c = (None, d1)"
    using place_quote_ok [OF wf, of ?c] by (cases "place_quote ?lo ?c") auto
  have c: "book_wf (mx_book ?c)" using assms(2) by auto
  have keep: "orphan_free s' (mx_book ?c)"
    by (rule orphan_free_step [OF assms(1), of _ "{old}" "{}" slug])
      (use quote_store.pull_origin [of old "''replace''" now d] assms(5) in auto)
  have "(book_get (mx_book d) c = Some lo \<and> c \<notin> {old}) \<or> (c \<in> {lo_coid ?lo} \<and> lo_instrument_id lo = instrument_id_yes slug)"
    if "book_get (mx_book (snd (place_quote ?lo ?c))) c = Some lo" for c lo
    using quote_store.swap_origin [OF wf that] by auto
  then have new: "orphan_free s' (mx_book (snd (place_quote ?lo ?c)))"
    by (rule orphan_free_step [OF assms(1)]) (use assms(5,6) in auto)
  then have d1s: "orphan_free s' (mx_book d1)" "mm_strat d1 = mm_strat d" "mx_global d1 = mx_global d" "book_wf (mx_book d1)"
    using place_quote_sel [of ?lo ?c] place_quote_wf [OF c, of ?lo] by (simp_all add: d1)
  show ?thesis
    using keep d1 d1s c by (simp add: dispatch_good_def Let_def case_prod_beta)
qed

lemma tracked_simps [simp]:
  "tracked m (set_live slug qs s) = (if m = slug then lq_client_order_id ` set qs else tracked m s)"
  "tracked m (safety_cancel slug now s) = tracked m s" "tracked m (s\<lparr>mr_safety := g\<rparr>) = tracked m s"
  "tracked m (fold (\<lambda>_. safety_cancel slug now) qs s) = tracked m s"
  by (simp_all add: tracked_def)

lemma tracked_ledger [simp]:
  "tracked m (untrack slug c s) = tracked m s - (if m = slug then {c} else {})"
  "tracked m (track_new slug c sd px qty s) = tracked m s \<union> (if m = slug then {c} else {})"
  by (auto simp: tracked_def untrack_def track_new_def)

lemma post_or_replace_good:
  assumes "orphan_free s (mx_book d)" "book_wf (mx_book d)" "mr_name (mm_strat d) = mr_name s" "0 < price" "0 < qty"
  shows "dispatch_good digest now (tc_ts ctx) slug (fst (post_or_replace_side digest now slug sd price qty p ctx s))
    (snd (post_or_replace_side digest now slug sd price qty p ctx s)) d"
proof (cases "fst (block_post_quote (mr_safety s) slug (if sd = YES_UP then 1 else -1) qty p)")
  case True
  then show ?thesis
    using assms(1,2)
    by (auto simp: post_or_replace_side_def cancel_side_def case_prod_beta Let_def dispatch_good_nil
        intro!: dispatch_good_cancel split: option.split)
next
  case False
  then show ?thesis
    using assms
    by (auto simp: post_or_replace_side_def case_prod_beta Let_def dispatch_good_nil
        intro!: dispatch_good_post [OF assms(1)] dispatch_good_replace [OF assms(1)] split: option.split)
qed

lemma cancels_good:
  assumes "orphan_free s (mx_book d)" "book_wf (mx_book d)" "\<And>m. tracked m s - (if m = slug then set cs else {}) \<subseteq> tracked m s'"
  shows "dispatch_good digest now ts slug (map (\<lambda>c. CancelQuote c slug r) cs) s' d"
  using assms
proof (induction cs arbitrary: s d)
  case Nil
  have "tracked m s \<subseteq> tracked m s'" for m using Nil(3) [of m] by (simp split: if_splits)
  then have "orphan_free s' (mx_book d)" by (intro orphan_free_step [OF Nil(1), of _ "{}" "{}" slug]) auto
  with Nil show ?case by (simp add: dispatch_good_nil)
next
  case (Cons c cs)
  have "dispatch_good digest now ts slug ([CancelQuote c slug r] @ map (\<lambda>c. CancelQuote c slug r) cs) s' d"
  proof (rule dispatch_good_append [where ?s1.0 = "untrack slug c s"])
    show "dispatch_good digest now ts slug [CancelQuote c slug r] (untrack slug c s) d"
      by (rule dispatch_good_cancel [OF Cons.prems(1,2)]) simp
    show "dispatch_good digest now ts slug (map (\<lambda>c. CancelQuote c slug r) cs) s' d1"
      if "orphan_free (untrack slug c s) (mx_book d1)" "book_wf (mx_book d1)" for d1
    proof (rule Cons.IH [OF that])
      fix m
      show "tracked m (untrack slug c s) - (if m = slug then set cs else {}) \<subseteq> tracked m s'"
        using Cons.prems(3) [of m] by (cases "m = slug") auto
    qed
  qed
  then show ?case by simp
qed

lemma cancel_all_good:
  assumes "orphan_free s (mx_book d)" "book_wf (mx_book d)"
  shows "dispatch_good digest now ts slug (fst (cancel_all_for_market slug r now s)) (snd (cancel_all_for_market slug r now s)) d"
proof -
  let ?cs = "map lq_client_order_id (live_of slug s)"
  have "dispatch_good digest now ts slug (map (\<lambda>c. CancelQuote c slug r) ?cs) (snd (cancel_all_for_market slug r now s)) d"
    by (rule cancels_good [OF assms]) (auto simp: cancel_all_for_market_def Let_def tracked_def)
  moreover have "fst (cancel_all_for_market slug r now s) = map (\<lambda>c. CancelQuote c slug r) ?cs"
    by (simp add: cancel_all_for_market_def Let_def)
  ultimately show ?thesis by simp
qed

subsection \<open>One tick\<close>

definition quoting_ok :: "mm_strategy \<Rightarrow> bool" where
  "quoting_ok s \<longleftrightarrow> 0 < mr_stake_nominal_usd s \<and> 0 < mr_zone_lo s"

lemma quotes_positive: "0 < p \<Longrightarrow> 0 < fst (optimal_bid_ask p q k P t) \<and> 0 < snd (optimal_bid_ask p q k P t)"
proof -
  assume "0 < p"
  then have "0 < reservation_price p q P t"
    by (simp add: reservation_price_def Let_def min_def max_def)
  then show ?thesis by (simp add: optimal_bid_ask_def Let_def min_def max_def)
qed

lemma post_or_replace_frame [simp]:
  "mr_name (snd (post_or_replace_side digest now slug sd price qty p ctx s)) = mr_name s"
  "quoting_ok (snd (post_or_replace_side digest now slug sd price qty p ctx s)) = quoting_ok s"
  by (simp_all add: post_or_replace_side_def cancel_side_def untrack_def track_new_def set_live_def safety_cancel_def
      quoting_ok_def case_prod_beta Let_def split: option.split)

lemma quote_both_good:
  assumes "orphan_free s (mx_book d)" "book_wf (mx_book d)" "mr_name (mm_strat d) = mr_name s" "quoting_ok s" "0 < p"
  shows "dispatch_good digest now (tc_ts ctx) (tc_market_slug ctx) (fst (quote_both digest now ctx p s)) (snd (quote_both digest now ctx p s)) d"
proof -
  define slug where "slug = tc_market_slug ctx"
  define ba where "ba = optimal_bid_ask p (inventory_shares (mr_safety s) slug) (k_of (mr_k s) (bucket_for_estimator p) 2)
      (mr_as_params s) (tc_t_in_window ctx)"
  define qty where "qty = mr_stake_nominal_usd s / max (fst ba) (1 / 1000)"
  define r1 where "r1 = post_or_replace_side digest now slug YES_UP (fst ba) qty p ctx s"
  define r2 where "r2 = post_or_replace_side digest now slug YES_DOWN (snd ba) qty p ctx (snd r1)"
  have eq: "quote_both digest now ctx p s = (fst r1 @ fst r2, snd r2)"
    by (simp add: quote_both_def case_prod_beta Let_def r1_def r2_def qty_def ba_def slug_def)
  have pos: "0 < fst ba" "0 < snd ba" "0 < qty"
    using quotes_positive [OF assms(5)] assms(4) by (auto simp: ba_def qty_def quoting_ok_def divide_pos_pos max_def)
  have "dispatch_good digest now (tc_ts ctx) slug (fst r1 @ fst r2) (snd r2) d"
  proof (rule dispatch_good_append)
    show "dispatch_good digest now (tc_ts ctx) slug (fst r1) (snd r1) d"
      unfolding r1_def by (rule post_or_replace_good) (use assms pos in auto)
    fix d1
    assume "orphan_free (snd r1) (mx_book d1)" "book_wf (mx_book d1)" "mm_strat d1 = mm_strat d"
    with assms(3) pos show "dispatch_good digest now (tc_ts ctx) slug (fst r2) (snd r2) d1"
      unfolding r2_def by (intro post_or_replace_good) (simp_all add: r1_def)
  qed
  then show ?thesis by (simp add: eq slug_def)
qed

lemma zone_positive: "gates_open now ctx s \<Longrightarrow> quoting_ok s \<Longrightarrow> 0 < tc_implied_prob_yes ctx"
  by (simp add: gates_open_def quoting_ok_def in_active_zone_def split: if_splits)

lemma orphan_free_safety [simp]: "orphan_free (s\<lparr>mr_safety := g\<rparr>) b = orphan_free s b"
  by (simp add: orphan_free_def)

lemma quoting_ok_safety [simp]: "quoting_ok (s\<lparr>mr_safety := g\<rparr>) = quoting_ok s"
  by (simp add: quoting_ok_def)

lemma mm_on_tick_good:
  assumes "orphan_free s (mx_book d)" "book_wf (mx_book d)" "mr_name (mm_strat d) = mr_name s" "quoting_ok s"
  shows "dispatch_good digest now (tc_ts ctx) (tc_market_slug ctx) (fst (mm_on_tick digest now ctx s)) (snd (mm_on_tick digest now ctx s)) d"
proof (cases "gates_open now ctx s")
  case True
  then have "0 < tc_implied_prob_yes ctx" using assms(4) by (rule zone_positive)
  with True assms show ?thesis
    by (auto simp: mm_on_tick_cases dispatch_good_nil intro!: quote_both_good)
next
  case False
  with assms show ?thesis
    by (auto simp: mm_on_tick_cases dispatch_good_nil intro!: cancel_all_good)
qed

lemma cancel_all_frame [simp]:
  "mr_name (snd (cancel_all_for_market slug r now s)) = mr_name s"
  "quoting_ok (snd (cancel_all_for_market slug r now s)) = quoting_ok s"
proof -
  have "mr_name (fold (\<lambda>_. safety_cancel slug now) qs s) = mr_name s \<and>
      quoting_ok (fold (\<lambda>_. safety_cancel slug now) qs s) = quoting_ok s" for qs :: "live_quote list"
    by (induction qs arbitrary: s) (simp_all add: safety_cancel_def)
  then show "mr_name (snd (cancel_all_for_market slug r now s)) = mr_name s"
    "quoting_ok (snd (cancel_all_for_market slug r now s)) = quoting_ok s"
    by (simp_all add: cancel_all_for_market_def Let_def set_live_def quoting_ok_def)
qed

lemma mm_on_tick_frame [simp]:
  "mr_name (snd (mm_on_tick digest now ctx s)) = mr_name s" "quoting_ok (snd (mm_on_tick digest now ctx s)) = quoting_ok s"
  by (simp_all add: mm_on_tick_cases quote_both_def case_prod_beta Let_def)

subsection \<open>Fills\<close>

lemma deliver_fill_sel [simp]:
  "mx_book (deliver_fill now slug f d) = mx_book d" "mx_global (deliver_fill now slug f d) = mx_global d"
  "mm_strat (deliver_fill now slug f d) = mm_on_fill slug (lf_coid f) (side_value (fill_side f)) (lf_price f) (lf_qty f) now (mm_strat d)"
  "pd_sent (mx_base (deliver_fill now slug f d)) =
     pd_sent (mx_base d) @ [TradeOpen slug (side_value (fill_side f)) (lf_price f) (lf_qty f * lf_price f)]"
  by (simp_all add: deliver_fill_def Let_def)

lemma mm_on_fill_sel [simp]:
  "tracked m (mm_on_fill slug c sv px qty now s) = tracked m s - (if m = slug then {c} else {})"
  "quoting_ok (mm_on_fill slug c sv px qty now s) = quoting_ok s" "mr_name (mm_on_fill slug c sv px qty now s) = mr_name s"
  by (auto simp: mm_on_fill_def Let_def tracked_def quoting_ok_def set_live_def live_of_def)

lemma deliver_fills_sel:
  "mx_book (fold (deliver_fill now slug) fs d) = mx_book d"
  "tracked m (mm_strat (fold (deliver_fill now slug) fs d)) = tracked m (mm_strat d) - (if m = slug then lf_coid ` set fs else {})"
  "quoting_ok (mm_strat (fold (deliver_fill now slug) fs d)) = quoting_ok (mm_strat d)"
  by (induction fs arbitrary: d) auto

lemma match_mid_orphan_free:
  assumes "orphan_free (mm_strat d) (mx_book d)" "book_wf (mx_book d)"
  shows "orphan_free (mm_strat (match_mid now slug mid ts d)) (mx_book (match_mid now slug mid ts d)) \<and>
    book_wf (mx_book (match_mid now slug mid ts d)) \<and>
    quoting_ok (mm_strat (match_mid now slug mid ts d)) = quoting_ok (mm_strat d)"
proof (cases "0 < mid \<and> mid < 1")
  case True
  define r where "r = on_tick (instrument_id_yes slug) mid ts (mx_book d) (pd_db (mx_base d))"
  define d1 where "d1 = d\<lparr>mx_book := fst (snd r), mx_base := (mx_base d)\<lparr>pd_db := snd (snd r)\<rparr>\<rparr>"
  have eq: "match_mid now slug mid ts d = fold (deliver_fill now slug) (fst r) d1"
    using True by (simp add: match_mid_def case_prod_beta Let_def r_def d1_def)
  have d1: "mm_strat d1 = mm_strat d" "mx_book d1 = fst (snd r)" by (simp_all add: d1_def)
  have wf: "book_wf (fst (snd r))" unfolding r_def using assms(2) by (rule on_tick_wf)
  have gone: "c \<notin> lf_coid ` set (fst r)" if "book_get (fst (snd r)) c \<noteq> None" for c
  proof
    assume "c \<in> lf_coid ` set (fst r)"
    then obtain lo where lo: "lo \<in> set (snapshot (mx_book d))" "lo_instrument_id lo = instrument_id_yes slug" "leaves mid ts lo" "c = lo_coid lo"
      by (auto simp: r_def on_tick_fills set_fifo_orders leaves_def)
    then have "book_get (mx_book d) c = Some lo" using book_wf_snapshot [OF assms(2)] by (simp add: book_get_def)
    with lo that show False by (simp add: r_def on_tick_get [OF assms(2)])
  qed
  have was: "book_get (mx_book d) c = Some lo" if "book_get (fst (snd r)) c = Some lo" for c lo
    using that by (simp add: r_def on_tick_get [OF assms(2)] split: option.splits if_splits)
  let ?s = "mm_strat (fold (deliver_fill now slug) (fst r) d1)"
  have "(book_get (mx_book d) c = Some lo \<and> c \<notin> lf_coid ` set (fst r)) \<or> (c \<in> {} \<and> lo_instrument_id lo = instrument_id_yes slug)"
    if "book_get (fst (snd r)) c = Some lo" for c lo
    using was [OF that] gone [of c] that by simp
  then have "orphan_free ?s (fst (snd r))"
    by (rule orphan_free_step [OF assms(1)]) (simp_all add: deliver_fills_sel d1)
  with wf show ?thesis by (simp add: eq deliver_fills_sel d1)
next
  case False
  then have "match_mid now slug mid ts d = d" by (auto simp: match_mid_def)
  with assms show ?thesis by simp
qed

subsection \<open>Every event\<close>

text \<open>The events of the driver: its ticks, and the background loops it inherits.\<close>

datatype mm_driver_event = MTick datetime tick_dict | MBackground driver_event

fun mm_driver_step :: "(real \<Rightarrow> real) \<Rightarrow> digest_env \<Rightarrow> mm_driver_event \<Rightarrow> mm_driver \<Rightarrow> mm_driver" where
  "mm_driver_step erf digest (MTick now td) d = mm_handle_tick erf digest now td d"
| "mm_driver_step erf digest (MBackground (DTick md ex now td)) d = d"
| "mm_driver_step erf digest (MBackground e) d = d\<lparr>mx_base := driver_step erf e (mx_base d)\<rparr>"

lemma watchdog_strat: "pd_strat_state (settle_via_watchdog md slug pos now d) = pd_strat_state d"
proof -
  have "pd_strat_state (settle_from_values s t px up e) = pd_strat_state e" for s t px up and e :: "'a paper_driver"
    by (simp add: settle_from_values_def Let_def case_prod_beta split: option.split)
  then show ?thesis
    by (simp add: settle_via_watchdog_def Let_def case_prod_beta split: option.split sum.split)
qed

lemma background_strat: "(\<nexists>md ex now td. e = DTick md ex now td) \<Longrightarrow> pd_strat_state (driver_step erf e d) = pd_strat_state d"
proof (cases e)
  case (DWatchdog md now)
  have "pd_strat_state (fold (\<lambda>(slug, pos). settle_via_watchdog md slug pos now) xs d) = pd_strat_state d" for xs
    by (induction xs arbitrary: d) (auto simp: watchdog_strat)
  with DWatchdog show ?thesis by (simp add: settle_watchdog_step_def Let_def)
next
  case (DOrphans now)
  have "pd_strat_state (fold cleanup_market xs d) = pd_strat_state d" for xs
    by (induction xs arbitrary: d) simp_all
  with DOrphans show ?thesis by (simp add: orphan_cleanup_step_def Let_def)
qed (auto simp: kill_switch_step_def reconciliation_step_def eval_summary_step_def handle_control_message_def Let_def)

definition mm_inv :: "mm_driver \<Rightarrow> bool" where
  "mm_inv d \<longleftrightarrow> orphan_free (mm_strat d) (mx_book d) \<and> book_wf (mx_book d) \<and> quoting_ok (mm_strat d)"

lemma mm_handle_tick_inv:
  assumes "mm_inv d"
  shows "mm_inv (mm_handle_tick erf digest now td d)"
proof (cases "tick_from_dict td")
  case (Inr tick)
  define ctx where "ctx = fst (tick_setup erf tick (mx_base d))"
  define base where "base = snd (tick_setup erf tick (mx_base d))"
  have base: "pd_strat_state base = mm_strat d" by (simp add: base_def)
  show ?thesis
  proof (cases "pd_paused base")
    case True
    with Inr assms base show ?thesis
      by (simp add: mm_handle_tick_def mm_inv_def base_def case_prod_beta Let_def)
  next
    case False
    define r where "r = mm_on_tick digest now ctx (mm_strat d)"
    define d0 where "d0 = d\<lparr>mx_base := base\<lparr>pd_hb_open_positions := active_markets (mm_strat d),
        pd_hb_trades_today := pd_daily_trades base, pd_strat_state := snd r\<rparr>\<rparr>"
    have d0: "mm_strat d0 = snd r" "mx_book d0 = mx_book d" by (simp_all add: d0_def)
    have "dispatch_good digest now (tc_ts ctx) (tc_market_slug ctx) (fst r) (snd r) d0"
      unfolding r_def by (rule mm_on_tick_good) (use assms d0 in \<open>simp_all add: mm_inv_def r_def\<close>)
    then obtain d1 where d1: "dispatch_all digest now (tc_ts ctx) (tc_market_slug ctx) (fst r) d0 = (None, d1)"
      "orphan_free (snd r) (mx_book d1)" "book_wf (mx_book d1)" "mm_strat d1 = mm_strat d0"
      by (cases "dispatch_all digest now (tc_ts ctx) (tc_market_slug ctx) (fst r) d0") (auto simp: dispatch_good_def Let_def)
    have eq: "mm_handle_tick erf digest now td d = match_mid now (tc_market_slug ctx) (tc_implied_prob_yes ctx) (tc_ts ctx) d1"
      using Inr False d1(1)
      by (simp add: mm_handle_tick_def base_def ctx_def [symmetric] case_prod_beta Let_def r_def d0_def base [unfolded base_def])
    have "quoting_ok (mm_strat d1)" using assms d0 d1(4) by (simp add: mm_inv_def r_def)
    with d1 d0 match_mid_orphan_free [of d1] show ?thesis by (simp add: mm_inv_def eq)
  qed
qed (use assms in \<open>simp add: mm_handle_tick_def\<close>)

lemma mm_driver_step_inv: "mm_inv d \<Longrightarrow> mm_inv (mm_driver_step erf digest e d)"
proof (cases e)
  case (MBackground b)
  assume "mm_inv d"
  with MBackground background_strat [of b erf "mx_base d"] show ?thesis
    by (cases b) (simp_all add: mm_inv_def del: driver_step.simps)
qed (simp add: mm_handle_tick_inv)

interpretation mm_paper: preserved "mm_driver_step erf digest" mm_inv for erf digest
  by unfold_locales (rule mm_driver_step_inv)

text \<open>C2. The market maker never leaves an order it does not know of. Starting from a fresh strategy
  with a positive stake and a positive lower end of its price zone and an empty book, after any
  sequence of ticks, settlements, control messages and other events, with any database failures,
  any collisions of order ids and any dropped or expired quotes, every order resting in the book
  belongs to a market of the strategy and its id is in the strategy's ledger for that market, so
  the next cancellation of that ledger reaches it.\<close>

theorem no_orphan_orders:
  assumes "0 < mr_stake_nominal_usd (new_mm_rebate p c k)" and "0 < mr_zone_lo (new_mm_rebate p c k)"
    and "mm_strat d0 = new_mm_rebate p c k" and "mx_book d0 = new_book mode fee pers bt"
    and "d = fold (mm_driver_step erf digest) es d0"
    and "book_get (mx_book d) coid = Some lo"
  shows "lo_coid lo = coid \<and>
    (\<exists>slug. lo_instrument_id lo = instrument_id_yes slug \<and> (\<exists>q \<in> set (live_of slug (mm_strat d)). lq_client_order_id q = coid))"
proof -
  have "mm_inv d0"
    using assms(1-4) by (simp add: mm_inv_def orphan_free_def quoting_ok_def book_get_def new_book_def book_wf_def)
  then have "mm_inv d" unfolding assms(5) by (rule mm_paper.run_inv)
  then have wf: "book_wf (mx_book d)" and "orphan_free (mm_strat d) (mx_book d)" by (simp_all add: mm_inv_def)
  then obtain slug where "lo_instrument_id lo = instrument_id_yes slug" "coid \<in> tracked slug (mm_strat d)"
    using assms(6) unfolding orphan_free_def by blast
  moreover have "lo_coid lo = coid" using book_wf_key [OF wf] assms(6) unfolding book_get_def by blast
  ultimately show ?thesis unfolding tracked_def by blast
qed

section \<open>Fills, caps and lost quotes\<close>

lemma inventory_on_fill:
  "inventory_shares (mr_safety (mm_on_fill slug c (side_value sd) px qty now s)) m =
     inventory_shares (mr_safety s) m + (if m = slug then (if sd = YES_UP then qty else - qty) else 0)"
proof -
  have "inventory_shares (MM_Safety.record_fill slug now g) m = inventory_shares g m" for g
    by (simp add: MM_Safety.record_fill_def inventory_shares_def put_market_def Let_def)
  then show ?thesis
    by (cases sd) (simp_all add: mm_on_fill_def Let_def record_inventory_after_fill_def inventory_shares_def dict_getd_def)
qed

definition signed_qty :: "limit_fill \<Rightarrow> real" where
  "signed_qty f = (if lf_side f = ''BUY'' then lf_qty f else - lf_qty f)"

lemma deliver_fills_inventory:
  "inventory_shares (mr_safety (mm_strat (fold (deliver_fill now slug) fs d))) m =
     inventory_shares (mr_safety (mm_strat d)) m + (if m = slug then sum_list (map signed_qty fs) else 0)"
  by (induction fs arbitrary: d) (simp_all add: inventory_on_fill fill_side_def signed_qty_def)

lemma deliver_fills_sent:
  "pd_sent (mx_base (fold (deliver_fill now slug) fs d)) =
     pd_sent (mx_base d) @ map (\<lambda>f. TradeOpen slug (side_value (fill_side f)) (lf_price f) (lf_qty f * lf_price f)) fs"
  by (induction fs arbitrary: d) simp_all

text \<open>C22. Every fill of the book reaches the strategy exactly once. Matching the market's mid price
  moves the inventory of that market by the signed sum of the filled quantities, bids positive
  and asks negative, and leaves every other market alone; the filled orders, and no others, leave
  the ledger of the market, they are no longer in the book, and one message is sent for each.\<close>

theorem fills_reach_the_strategy:
  assumes "book_wf (mx_book d)" and "0 < mid" and "mid < 1"
    and "on_tick (instrument_id_yes slug) mid ts (mx_book d) (pd_db (mx_base d)) = (fills, b, db)"
    and "d' = match_mid now slug mid ts d"
  shows "mx_book d' = b \<and>
    inventory_shares (mr_safety (mm_strat d')) m =
      inventory_shares (mr_safety (mm_strat d)) m + (if m = slug then sum_list (map signed_qty fills) else 0) \<and>
    tracked m (mm_strat d') = tracked m (mm_strat d) - (if m = slug then lf_coid ` set fills else {}) \<and>
    pd_sent (mx_base d') = pd_sent (mx_base d) @
      map (\<lambda>f. TradeOpen slug (side_value (fill_side f)) (lf_price f) (lf_qty f * lf_price f)) fills"
proof -
  define d1 where "d1 = d\<lparr>mx_book := b, mx_base := (mx_base d)\<lparr>pd_db := db\<rparr>\<rparr>"
  have "d' = fold (deliver_fill now slug) fills d1"
    using assms by (simp add: match_mid_def d1_def)
  then show ?thesis by (simp add: deliver_fills_sel deliver_fills_inventory deliver_fills_sent d1_def)
qed

lemma new_order_changes:
  "map_of (bk_orders b) k = None \<Longrightarrow> (b\<lparr>bk_orders := AList.update k lo (bk_orders b)\<rparr> = b) = False"
proof
  assume none: "map_of (bk_orders b) k = None" and eq: "b\<lparr>bk_orders := AList.update k lo (bk_orders b)\<rparr> = b"
  have "AList.update k lo (bk_orders b) = bk_orders (b\<lparr>bk_orders := AList.update k lo (bk_orders b)\<rparr>)" by simp
  also have "\<dots> = bk_orders b" by (subst eq) (rule refl)
  finally have "map_of (AList.update k lo (bk_orders b)) k = None" using none by simp
  then show False by simp
qed simp

text \<open>The caps over all strategies gate new quotes only. A dispatched \<open>PostQuote\<close> adds an order to
  the book only if the notional fits under both caps on top of what the other strategies have
  booked, and a refused one changes neither book nor tables; a \<open>ReplaceQuote\<close> does the same whatever
  the caps are, also when its quote is larger than they allow.\<close>

theorem global_caps_gate_posts_only:
  assumes "d' = snd (dispatch_action digest now ts slug (PostQuote q) d)"
  shows "(mx_book d' \<noteq> mx_book d \<longrightarrow>
      others_sum (mr_name (mm_strat d)) (gm_inventory_usdc_by_strategy (mx_global d)) + pq_qty_shares q * pq_price q
        \<le> gm_max_total_inventory_usdc (mx_global d) - \<bar>dict_getd (gm_inventory_usdc_by_strategy (mx_global d)) (mr_name (mm_strat d)) 0\<bar> \<and>
      others_sum (mr_name (mm_strat d)) (gm_capital_at_risk_by_strategy (mx_global d)) + pq_qty_shares q * pq_price q
        \<le> gm_max_total_capital_at_risk_usd (mx_global d) - dict_getd (gm_capital_at_risk_by_strategy (mx_global d)) (mr_name (mm_strat d)) 0) \<and>
    (mx_book d' = mx_book d \<longrightarrow> pd_db (mx_base d') = pd_db (mx_base d)) \<and>
    mx_book (snd (dispatch_action digest now ts slug (ReplaceQuote old q) (d\<lparr>mx_global := g\<rparr>))) =
      mx_book (snd (dispatch_action digest now ts slug (ReplaceQuote old q) d))"
proof -
  have g: "place_quote lo (e\<lparr>mx_global := g\<rparr>) = (fst (place_quote lo e), (snd (place_quote lo e))\<lparr>mx_global := g\<rparr>)"
    "cancel_quote c r now (e\<lparr>mx_global := g\<rparr>) = (fst (cancel_quote c r now e), (snd (cancel_quote c r now e))\<lparr>mx_global := g\<rparr>)"
    for lo c r e
    by (simp_all add: place_quote_def cancel_quote_def case_prod_beta Let_def split: sum.split)
  have same: "mx_book (snd (place_quote lo d)) = mx_book d \<Longrightarrow> pd_db (mx_base (snd (place_quote lo d))) = pd_db (mx_base d)" for lo
    by (auto simp: place_quote_def place_def Let_def new_order_changes split: if_splits)
  show ?thesis
    unfolding assms
    by (auto simp: case_prod_beta Let_def g global_block_post_quote_def same split: option.split if_splits)
qed

text \<open>A quote the book has lost stays lost. When a tracked quote does not rest in the book (a global
  cap dropped it, or its time to live ran out), quoting that side again places nothing: the
  strategy sends a replacement, whose cancellation fails, or finds its price good enough, and
  goes on tracking a quote on that side that no order stands for.\<close>

theorem lost_quote_stays_lost:
  assumes "ledger_ok (live_of slug s)" and "existing_for slug sd s = Some q"
    and "book_get (mx_book d) (lq_client_order_id q) = None"
    and "\<not> fst (block_post_quote (mr_safety s) slug (sign_of sd) qty p)"
    and "book_get (mx_book d) (mm_coid digest (mr_name s) slug (tc_ts ctx) sd (if sd = YES_UP then ''bid'' else ''ask'')) = None"
    and "post_or_replace_side digest now slug sd price qty p ctx s = (acts, s')"
  shows "mx_book (snd (dispatch_all digest now (tc_ts ctx) slug acts d)) = mx_book d \<and>
    (\<exists>q'. existing_for slug sd s' = Some q' \<and> book_get (mx_book d) (lq_client_order_id q') = None)"
proof (cases "\<bar>lq_price q - price\<bar> \<ge> 1 / 100")
  case True
  define c where "c = mm_coid digest (mr_name s) slug (tc_ts ctx) sd (if sd = YES_UP then ''bid'' else ''ask'')"
  have miss: "cancel_quote (lq_client_order_id q) ''replace'' now d = (False, d)"
    using assms(3) by (simp add: cancel_quote_def cancel_def book_get_def Let_def)
  have gone: "sd \<notin> lq_side ` set (filter (\<lambda>x. lq_client_order_id x \<noteq> lq_client_order_id q) (live_of slug s))"
    using side_gone [OF assms(1)] existing_for_mem [OF assms(2)] by metis
  have s': "s' = safety_cancel slug now (track_new slug c sd price qty (untrack slug (lq_client_order_id q) s))"
    and acts: "\<exists>new. acts = [ReplaceQuote (lq_client_order_id q) new]"
    using assms(2,4,6) True by (auto simp: post_or_replace_side_def case_prod_beta Let_def sign_of_def c_def)
  have find_snoc: "List.find P (xs @ [y]) = Some y" if "\<not> list_ex P xs" "P y" for P :: "live_quote \<Rightarrow> bool" and xs y
    using that by (induction xs) auto
  have "existing_for slug sd s' = Some \<lparr>lq_client_order_id = c, lq_side = sd, lq_price = price, lq_qty_shares = qty\<rparr>"
    using gone by (auto simp: s' existing_for_def track_new_def untrack_def list_ex_iff intro!: find_snoc)
  with acts miss assms(5) show ?thesis by (auto simp: c_def)
next
  case False
  with assms show ?thesis
    by (auto simp: post_or_replace_side_def case_prod_beta Let_def sign_of_def)
qed

section \<open>Worked examples\<close>

text \<open>A fresh market maker and the first tick of a market at a fair price of 0.3.\<close>

definition ex_mm_base :: "mm_strategy paper_driver" where
  "ex_mm_base = new_paper_driver \<lparr>sg_name = ''mm'', sg_on_start = id, sg_should_enter = (\<lambda>ctx s. (mk_decision SKIP NONE [] [], s)),
     sg_on_stop = id\<rparr> ex_mm ex_bt_manager ex_client ex_driver_config empty_db"

definition ex_mm_driver :: mm_driver where
  "ex_mm_driver = new_mm_driver ex_mm_base (new_book ''paper'' 10 True None) None"

definition ex_mm_dict :: tick_dict where
  "ex_mm_dict = \<lparr>td_num = [(''ts'', Some 100), (''window_close_ts'', Some 900), (''t_in_window'', Some 100),
     (''implied_prob_yes'', Some (3 / 10))], td_market_slug = ''m'', td_condition_id = None\<rparr>"

definition ex_mm_tick :: tick_core where
  "ex_mm_tick = projr (tick_from_dict ex_mm_dict)"

definition ex_rev_digest :: digest_env where
  "ex_rev_digest = \<lparr>dg_sha256_hex = rev, dg_fmt6 = (\<lambda>_. [])\<rparr>"

lemma ex_mm_parses: "tick_from_dict ex_mm_dict = Inr ex_mm_tick"
  by (simp add: ex_mm_tick_def tick_from_dict_def ex_mm_dict_def Let_def)

lemma ex_mm_tick_sel:
  "tc_market_slug ex_mm_tick = ''m''" "tc_ts ex_mm_tick = 100" "tc_t_in_window ex_mm_tick = 100" "tc_implied_prob_yes ex_mm_tick = 3 / 10"
  by (simp_all add: ex_mm_tick_def tick_from_dict_def ex_mm_dict_def num_or0_def Let_def)

lemma ex_mm_quotes:
  assumes "ap_spread_floor_bps P = 50" "ap_spread_ceiling_bps P = 500"
  shows "275 / 1000 \<le> fst (optimal_bid_ask (3 / 10) 0 k P t) \<and> fst (optimal_bid_ask (3 / 10) 0 k P t) < 3 / 10 \<and>
    3 / 10 < snd (optimal_bid_ask (3 / 10) 0 k P t) \<and> snd (optimal_bid_ask (3 / 10) 0 k P t) \<le> 325 / 1000"
proof -
  define h where "h = optimal_total_spread (3 / 10) k P t / 2"
  have h: "25 / 10000 \<le> h" "h \<le> 250 / 10000" using spread_between [of P "3 / 10" k t] assms by (simp_all add: h_def)
  have "reservation_price (3 / 10) 0 P t = 3 / 10" by (simp add: reservation_price_def Let_def)
  then have "optimal_bid_ask (3 / 10) 0 k P t =
      (if max (1 / 1000) (min (999 / 1000) (3 / 10 + h)) \<le> max (1 / 1000) (min (999 / 1000) (3 / 10 - h))
       then (max (1 / 1000) (3 / 10 - 5 / 1000), min (999 / 1000) (3 / 10 + 5 / 1000))
       else (max (1 / 1000) (min (999 / 1000) (3 / 10 - h)), max (1 / 1000) (min (999 / 1000) (3 / 10 + h))))"
    unfolding optimal_bid_ask_def Let_def h_def by (simp only:)
  with h show ?thesis by (simp add: min_def max_def)
qed

lemma place_quote_keeps: "book_get (mx_book d) c = Some x \<Longrightarrow> book_get (mx_book (snd (place_quote lo d))) c = Some x"
  by (auto simp: place_quote_def place_def book_get_def Let_def)

lemma dispatch_post_keeps:
  "book_get (mx_book d) c = Some x \<Longrightarrow> book_get (mx_book (snd (dispatch_action digest now ts slug (PostQuote q) d))) c = Some x"
  using place_quote_keeps [of d c x] by (auto simp: case_prod_beta Let_def split: option.split)

lemma dispatch_post_places:
  assumes "order_wf lo" "lo = order_of_quote digest (mr_name (mm_strat d)) slug ts q" "book_get (mx_book d) (lo_coid lo) = None"
    "\<not> fst (global_block_post_quote (mx_global d) (mr_name (mm_strat d)) (pq_qty_shares q * pq_price q) (pq_qty_shares q * pq_price q))"
  shows "\<exists>d'. dispatch_action digest now ts slug (PostQuote q) d = (None, d') \<and> book_get (mx_book d') (lo_coid lo) = Some lo"
proof -
  obtain d1 where d1: "place_quote lo d = (None, d1)" using place_quote_ok [OF assms(1), of d] by (cases "place_quote lo d") auto
  have "book_get (mx_book d1) (lo_coid lo) = Some lo" using quote_store.find_put [OF assms(1), of d] assms(3) by (simp add: d1)
  with d1 assms(2,4) show ?thesis by (simp add: case_prod_beta Let_def)
qed

text \<open>The resting orders of the example: the bid of the first tick.\<close>

definition ex_bid_quote :: "real \<Rightarrow> post_quote" where
  "ex_bid_quote bid = \<lparr>pq_side = YES_UP, pq_price = bid, pq_qty_shares = 20 / bid, pq_market_slug = ''m'', pq_ttl_seconds = 0,
     pq_client_id_seed = ''bid''\<rparr>"

lemma ex_mm_sel:
  "mr_name ex_mm = ''mm_rebate_v1''" "mr_stake_nominal_usd ex_mm = 20" "mr_zone_lo ex_mm = 15 / 100" "live_of m ex_mm = []"
  "mr_ttl_seconds ex_mm = 0" "ap_spread_floor_bps (mr_as_params ex_mm) = 50" "ap_spread_ceiling_bps (mr_as_params ex_mm) = 500"
  "inventory_shares (mr_safety ex_mm) m = 0" "sp_inventory_cap_usdc (gd_params (mr_safety ex_mm)) = 50"
  "is_market_killed m now (mr_safety ex_mm) = (False, mr_safety ex_mm)"
  by (simp_all add: ex_mm_def new_mm_rebate_def cfg_num_def cfg_str_def live_of_def as_params_of_def safety_params_of_def
      new_guard_def inventory_shares_def is_market_killed_def py_int_def Let_def)

lemma ex_mm_posts:
  assumes "tc_market_slug ctx = ''m''" "tc_t_in_window ctx = 100" "tc_implied_prob_yes ctx = 3 / 10"
  shows "\<exists>bid ask_acts. 275 / 1000 \<le> bid \<and> bid < 3 / 10 \<and> fst (mm_on_tick digest now ctx ex_mm) = PostQuote (ex_bid_quote bid) # ask_acts \<and>
    (\<forall>a \<in> set ask_acts. \<exists>q. a = PostQuote q)"
proof -
  define ba where "ba = optimal_bid_ask (3 / 10) 0 (k_of (mr_k ex_mm) (bucket_for_estimator (3 / 10)) 2) (mr_as_params ex_mm) 100"
  have ba: "275 / 1000 \<le> fst ba" "fst ba < 3 / 10"
    using ex_mm_quotes [OF ex_mm_sel(6,7)] by (simp_all add: ba_def)
  define q where "q = 20 / fst ba"
  have q: "q = 20 / max (fst ba) (1 / 1000)" "q * (3 / 10) \<le> 50" "0 < q" using ba by (simp_all add: q_def field_simps max_def)
  define r1 where "r1 = post_or_replace_side digest now ''m'' YES_UP (fst ba) q (3 / 10) ctx ex_mm"
  have r1: "fst r1 = [PostQuote (ex_bid_quote (fst ba))]" "existing_for ''m'' YES_DOWN (snd r1) = None"
    using q by (simp_all add: r1_def post_or_replace_side_def block_post_quote_iff existing_for_def ex_mm_sel case_prod_beta Let_def
        ex_bid_quote_def q_def track_new_def)
  have gates: "gates_open now ctx ex_mm" "\<not> foreign_market ctx ex_mm"
    using assms by (simp_all add: gates_open_def foreign_market_def ex_mm_def new_mm_rebate_def cfg_num_def cfg_str_def in_active_zone_def
        in_quoting_window_def as_params_of_def safety_params_of_def new_guard_def is_market_killed_def py_int_def Let_def)
  have "fst (mm_on_tick digest now ctx ex_mm) = fst r1 @ fst (post_or_replace_side digest now ''m'' YES_DOWN (snd ba) q (3 / 10) ctx (snd r1))"
    using gates by (simp add: mm_on_tick_cases ex_mm_sel quote_both_def case_prod_beta Let_def r1_def ba_def q(1) assms)
  moreover have "\<forall>a \<in> set (fst (post_or_replace_side digest now ''m'' YES_DOWN x q (3 / 10) ctx (snd r1))). \<exists>q. a = PostQuote q" for x
    using r1(2) by (auto simp: post_or_replace_side_def cancel_side_def case_prod_beta Let_def)
  ultimately show ?thesis using ba r1(1) by auto
qed

lemma ex_mm_rests:
  "\<exists>c lo. book_get (mx_book (mm_handle_tick (\<lambda>_. 0) ex_rev_digest 0 ex_mm_dict ex_mm_driver)) c = Some lo"
proof -
  define r where "r = tick_setup (\<lambda>_. 0) ex_mm_tick (mx_base ex_mm_driver)"
  have ctx: "tc_market_slug (fst r) = ''m''" "tc_t_in_window (fst r) = 100" "tc_implied_prob_yes (fst r) = 3 / 10" "tc_ts (fst r) = 100"
    using stack_update_market [of ex_mm_tick "\<lambda>_. 0"]
    by (simp_all add: r_def tick_setup_def case_prod_beta Let_def with_recent_def tick_core.defs same_market_def ex_mm_tick_sel)
  have base: "pd_strat_state (snd r) = ex_mm" "\<not> pd_paused (snd r)"
    by (simp_all add: r_def ex_mm_driver_def new_mm_driver_def ex_mm_base_def new_paper_driver_def)
  obtain bid rest where acts: "fst (mm_on_tick ex_rev_digest 0 (fst r) ex_mm) = PostQuote (ex_bid_quote bid) # rest"
    and bid: "275 / 1000 \<le> bid" "bid < 3 / 10" and rest: "\<forall>a \<in> set rest. \<exists>q. a = PostQuote q"
    using ex_mm_posts [OF ctx(1-3), of ex_rev_digest 0] by blast
  define d0 where "d0 = ex_mm_driver\<lparr>mx_base := (snd r)\<lparr>pd_hb_open_positions := active_markets ex_mm,
      pd_hb_trades_today := pd_daily_trades (snd r), pd_strat_state := snd (mm_on_tick ex_rev_digest 0 (fst r) ex_mm)\<rparr>\<rparr>"
  define lo where "lo = order_of_quote ex_rev_digest ''mm_rebate_v1'' ''m'' 100 (ex_bid_quote bid)"
  have d0: "mr_name (mm_strat d0) = ''mm_rebate_v1''" "mx_global d0 = default_global_mm_state" "book_get (mx_book d0) c = None"
    "book_wf (mx_book d0)" for c
    by (simp_all add: d0_def ex_mm_sel ex_mm_driver_def new_mm_driver_def book_get_def new_book_def book_wf_def)
  have wf: "order_wf lo" unfolding lo_def using bid by (intro order_of_quote_wf) (simp_all add: ex_bid_quote_def)
  have "\<exists>d1. dispatch_action ex_rev_digest 0 100 ''m'' (PostQuote (ex_bid_quote bid)) d0 = (None, d1) \<and> book_get (mx_book d1) (lo_coid lo) = Some lo"
    by (rule dispatch_post_places [OF wf])
      (use bid d0 in \<open>simp_all add: lo_def ex_bid_quote_def global_block_post_quote_def default_global_mm_state_def others_sum_def dict_getd_def Let_def\<close>)
  then obtain d1 where d1: "dispatch_action ex_rev_digest 0 100 ''m'' (PostQuote (ex_bid_quote bid)) d0 = (None, d1)"
    "book_get (mx_book d1) (lo_coid lo) = Some lo" by blast
  have keep: "book_get (mx_book (snd (dispatch_all ex_rev_digest 0 100 ''m'' rest d))) (lo_coid lo) = Some lo"
    if "book_get (mx_book d) (lo_coid lo) = Some lo" for d
    using rest that
  proof (induction rest arbitrary: d)
    case (Cons a rest)
    then obtain q where "a = PostQuote q" by auto
    with Cons dispatch_post_keeps [OF Cons.prems(2), of ex_rev_digest 0 100 "''m''" q] show ?case
      by (cases "dispatch_action ex_rev_digest 0 100 ''m'' a d") (auto split: option.split)
  qed simp
  let ?acts = "fst (mm_on_tick ex_rev_digest 0 (fst r) ex_mm)"
  have "dispatch_good ex_rev_digest 0 (tc_ts (fst r)) (tc_market_slug (fst r)) ?acts (snd (mm_on_tick ex_rev_digest 0 (fst r) ex_mm)) d0"
    by (rule mm_on_tick_good) (use d0 in \<open>simp_all add: orphan_free_def quoting_ok_def ex_mm_sel\<close>)
  then obtain d2 where d2: "dispatch_all ex_rev_digest 0 100 ''m'' ?acts d0 = (None, d2)" "book_wf (mx_book d2)"
    by (cases "dispatch_all ex_rev_digest 0 100 ''m'' ?acts d0") (auto simp: dispatch_good_def ctx Let_def)
  have "book_get (mx_book d2) (lo_coid lo) = Some lo"
    using keep [OF d1(2)] d2(1) by (simp add: acts d1(1) del: dispatch_action.simps)
  moreover have "\<not> leaves (3 / 10) 100 lo"
    using bid by (simp add: leaves_def expired_at_def crossed_def lo_def order_of_quote_def ex_bid_quote_def side_to_book_side_def)
  ultimately have "book_get (mx_book (match_mid 0 ''m'' (3 / 10) 100 d2)) (lo_coid lo) = Some lo"
    by (simp add: match_mid_def case_prod_beta Let_def deliver_fills_sel on_tick_get [OF d2(2)])
  moreover have "mm_handle_tick (\<lambda>_. 0) ex_rev_digest 0 ex_mm_dict ex_mm_driver = match_mid 0 ''m'' (3 / 10) 100 d2"
    using d2(1) base by (simp add: mm_handle_tick_def ex_mm_parses r_def [symmetric] case_prod_beta Let_def d0_def ctx)
  ultimately show ?thesis by auto
qed

theorem no_orphan_orders_witness:
  "\<exists>c lo slug. book_get (mx_book (fold (mm_driver_step (\<lambda>_. 0) ex_rev_digest) [MTick 0 ex_mm_dict] ex_mm_driver)) c = Some lo \<and>
     lo_instrument_id lo = instrument_id_yes slug \<and>
     c \<in> tracked slug (mm_strat (fold (mm_driver_step (\<lambda>_. 0) ex_rev_digest) [MTick 0 ex_mm_dict] ex_mm_driver))"
proof -
  obtain c lo where rests: "book_get (mx_book (fold (mm_driver_step (\<lambda>_. 0) ex_rev_digest) [MTick 0 ex_mm_dict] ex_mm_driver)) c = Some lo"
    using ex_mm_rests by auto
  have init: "mm_strat ex_mm_driver = new_mm_rebate [] [] None" "mx_book ex_mm_driver = new_book ''paper'' 10 True None"
    by (simp_all add: ex_mm_driver_def new_mm_driver_def ex_mm_base_def new_paper_driver_def ex_mm_def)
  have pos: "0 < mr_stake_nominal_usd (new_mm_rebate [] [] None)" "0 < mr_zone_lo (new_mm_rebate [] [] None)"
    using ex_mm_sel(2,3) by (simp_all add: ex_mm_def)
  from no_orphan_orders [OF pos init refl rests] rests show ?thesis unfolding tracked_def by (metis imageI)
qed

theorem fills_reach_the_strategy_witness:
  "inventory_shares (mr_safety (mm_strat (match_mid 0 ''m'' (2 / 10) 5
     (ex_mm_driver\<lparr>mx_book := (new_book ''paper'' 10 True None)\<lparr>bk_orders :=
        [(''a'', (ex_order ''a'' ''BUY'' (3 / 10) 1 None)\<lparr>lo_instrument_id := instrument_id_yes ''m''\<rparr>)]\<rparr>\<rparr>)))) ''m'' = 10"
proof -
  let ?lo = "(ex_order ''a'' ''BUY'' (3 / 10) 1 None)\<lparr>lo_instrument_id := instrument_id_yes ''m''\<rparr>"
  let ?b = "(new_book ''paper'' 10 True None)\<lparr>bk_orders := [(''a'', ?lo)]\<rparr>"
  let ?d = "ex_mm_driver\<lparr>mx_book := ?b\<rparr>"
  have wf: "book_wf (mx_book ?d)" by (simp add: book_wf_def order_wf_def ex_order_def)
  obtain fills b db where r: "on_tick (instrument_id_yes ''m'') (2 / 10) 5 (mx_book ?d) (pd_db (mx_base ?d)) = (fills, b, db)"
    by (cases "on_tick (instrument_id_yes ''m'') (2 / 10) 5 (mx_book ?d) (pd_db (mx_base ?d))") auto
  have "fills = [fill_of 10 5 ?lo]"
    using on_tick_fills [of "instrument_id_yes ''m''" "2 / 10" 5 "mx_book ?d" "pd_db (mx_base ?d)"] r
    by (simp add: fifo_orders_def snapshot_def expired_at_def crossed_def ex_order_def new_book_def)
  moreover have "inventory_shares (mr_safety (mm_strat ?d)) ''m'' = 0"
    by (simp add: ex_mm_driver_def new_mm_driver_def ex_mm_base_def new_paper_driver_def ex_mm_sel)
  ultimately show ?thesis
    using fills_reach_the_strategy [OF wf _ _ r refl, of 0 "''m''"] by (simp add: signed_qty_def fill_of_def ex_order_def)
qed

theorem global_caps_gate_posts_only_witness:
  "mx_book (snd (dispatch_action ex_rev_digest 0 5 ''m'' (PostQuote (ex_bid_quote (3 / 10))) (ex_mm_driver\<lparr>mx_global :=
     default_global_mm_state\<lparr>gm_max_total_inventory_usdc := 10\<rparr>\<rparr>))) = mx_book ex_mm_driver"
  using global_caps_gate_posts_only [OF refl, of ex_rev_digest 0 5 "''m''" "ex_bid_quote (3 / 10)"
      "ex_mm_driver\<lparr>mx_global := default_global_mm_state\<lparr>gm_max_total_inventory_usdc := 10\<rparr>\<rparr>"]
  by (auto simp: default_global_mm_state_def others_sum_def dict_getd_def ex_bid_quote_def simp del: dispatch_action.simps)

theorem lost_quote_stays_lost_witness:
  "\<exists>s'. post_or_replace_side ex_rev_digest 0 ''m'' YES_UP (1 / 10) 5 (3 / 10) ex_mm_tick (track_new ''m'' ''c1'' YES_UP (3 / 10) 5 ex_mm)
     = ([ReplaceQuote ''c1'' \<lparr>pq_side = YES_UP, pq_price = 1 / 10, pq_qty_shares = 5, pq_market_slug = ''m'', pq_ttl_seconds = 0,
          pq_client_id_seed = ''bid''\<rparr>], s') \<and>
     (\<exists>q'. existing_for ''m'' YES_UP s' = Some q' \<and> book_get (mx_book ex_mm_driver) (lq_client_order_id q') = None)"
proof -
  let ?s = "track_new ''m'' ''c1'' YES_UP (3 / 10) 5 ex_mm"
  let ?q = "\<lparr>lq_client_order_id = ''c1'', lq_side = YES_UP, lq_price = 3 / 10, lq_qty_shares = 5\<rparr>"
  have live: "live_of ''m'' ?s = [?q]" by (simp add: track_new_def ex_mm_sel)
  have ex: "existing_for ''m'' YES_UP ?s = Some ?q" by (simp add: existing_for_def live)
  have none: "book_get (mx_book ex_mm_driver) c = None" for c
    by (simp add: ex_mm_driver_def new_mm_driver_def book_get_def new_book_def)
  have nb: "\<not> fst (block_post_quote (mr_safety ?s) ''m'' (sign_of YES_UP) 5 (3 / 10))"
    by (simp add: block_post_quote_iff track_new_def ex_mm_sel sign_of_def)
  obtain acts s' where r: "post_or_replace_side ex_rev_digest 0 ''m'' YES_UP (1 / 10) 5 (3 / 10) ex_mm_tick ?s = (acts, s')"
    by (cases "post_or_replace_side ex_rev_digest 0 ''m'' YES_UP (1 / 10) 5 (3 / 10) ex_mm_tick ?s")
  have "acts = [ReplaceQuote ''c1'' \<lparr>pq_side = YES_UP, pq_price = 1 / 10, pq_qty_shares = 5, pq_market_slug = ''m'', pq_ttl_seconds = 0,
          pq_client_id_seed = ''bid''\<rparr>]"
    using r ex nb by (simp add: post_or_replace_side_def case_prod_beta Let_def sign_of_def) (auto simp: track_new_def ex_mm_sel)
  moreover have "ledger_ok (live_of ''m'' ?s)" by (simp add: live ledger_ok_def)
  ultimately show ?thesis
    using lost_quote_stays_lost [OF _ ex none nb none r] r by blast
qed

end
