(* ===== verification/Walk_Forward.thy ===== *)
theory Walk_Forward
  imports Backtest
begin

text \<open>
  \<open>engine/walk_forward.py\<close>: rolling train/test splits over a period, a backtest of each test window
  and the stability verdict. The loop of \<open>run_walk_forward\<close> is \<open>wf_loop\<close>, a partial function:
  \<open>None\<close> is a loop that does not end. The data loader is the parameter \<open>ld\<close>, which gives for a
  time range the markets with their ticks and the settlement prices; times are in microseconds.
\<close>

section \<open>Data\<close>

record walk_forward_split =
  ws_fold :: nat
  ws_train_from :: datetime
  ws_train_to :: datetime
  ws_test_from :: datetime
  ws_test_to :: datetime
  ws_n_trades :: nat
  ws_kpis :: "performance \<times> risk_adjusted"

record wf_summary =
  wy_n_splits :: nat
  wy_pnl_mean :: real
  wy_pnl_values :: "real list"
  wy_win_rate_mean :: real
  wy_win_rate_values :: "real list"
  wy_tolerance :: real

record walk_forward_result =
  wr_strategy :: string
  wr_splits :: "walk_forward_split list"
  wr_verdict :: string
  wr_summary :: "wf_summary option"

record 's wf_config =
  wc_factory :: "'s strategy \<times> 's"
  wc_loader :: "real \<Rightarrow> real \<Rightarrow> (string \<times> tick_core list) list \<times> (string, real) dict option"
  wc_train_days :: int
  wc_test_days :: int
  wc_step_days :: int
  wc_params :: bt_params
  wc_risk_cfg :: "(string, real) dict"
  wc_config_used :: "(string, jval) dict"

definition wf_step :: "datetime \<Rightarrow> int \<Rightarrow> datetime" where
  "wf_step ts n = ts + days n"

definition timestamp :: "datetime \<Rightarrow> real" where
  "timestamp t = of_int t / 10 ^ 6"

section \<open>One split\<close>

definition test_end :: "'s wf_config \<Rightarrow> datetime \<Rightarrow> datetime" where
  "test_end c cursor = wf_step (wf_step cursor (wc_train_days c)) (wc_test_days c)"

definition wf_split :: "'s wf_config \<Rightarrow> nat \<Rightarrow> datetime \<Rightarrow> py_error + walk_forward_split" where
  "wf_split c fold_no cursor =
     (let train_to = wf_step cursor (wc_train_days c);
          test_to = wf_step train_to (wc_test_days c);
          (markets, settles) = wc_loader c (timestamp train_to) (timestamp test_to)
      in case new_risk_manager (wc_risk_cfg c) of
           Inl e \<Rightarrow> Inl e
         | Inr risk \<Rightarrow>
             (let P = (wc_params c)\<lparr>bp_bypass_risk := dict_getd (wc_risk_cfg c) ''bypass_in_backtest'' 0 \<noteq> 0,
                                     bp_settle_prices := settles\<rparr>;
                  result = run_backtest (fst (wc_factory c)) markets (timestamp train_to) (timestamp test_to) P risk
                    (wc_config_used c) (snd (wc_factory c))
              in Inr \<lparr>ws_fold = fold_no, ws_train_from = cursor, ws_train_to = train_to, ws_test_from = train_to,
                   ws_test_to = test_to, ws_n_trades = res_n_trades result,
                   ws_kpis = compute_kpis (res_trades result) (timestamp (test_to - train_to))\<rparr>))"

partial_function (option) wf_loop ::
  "'s wf_config \<Rightarrow> datetime \<Rightarrow> datetime \<Rightarrow> nat \<Rightarrow> walk_forward_split list \<Rightarrow> (py_error + walk_forward_split list) option" where
  "wf_loop c to_dt cursor fold_no splits =
     (if test_end c cursor > to_dt then Some (Inr splits)
      else (case wf_split c fold_no cursor of
              Inl e \<Rightarrow> Some (Inl e)
            | Inr sp \<Rightarrow> wf_loop c to_dt (wf_step cursor (wc_step_days c)) (Suc fold_no) (splits @ [sp])))"

section \<open>Verdict\<close>

definition in_band :: "real \<Rightarrow> real list \<Rightarrow> real \<Rightarrow> bool" where
  "in_band tolerance vals mean =
     (if mean = 0 then list_all (\<lambda>v. \<bar>v\<bar> < 1 / 10 ^ 6) vals
      else list_all (\<lambda>v. \<bar>v - mean\<bar> / \<bar>mean\<bar> \<le> tolerance) vals)"

definition wf_verdict :: "real \<Rightarrow> walk_forward_split list \<Rightarrow> walk_forward_result" where
  "wf_verdict tolerance splits =
     (if splits = [] then \<lparr>wr_strategy = ''n/a'', wr_splits = [], wr_verdict = ''insufficient_data'', wr_summary = None\<rparr>
      else (let pnls = map (\<lambda>s. pf_total_pnl (fst (ws_kpis s))) splits;
                wrs = map (\<lambda>s. pf_win_rate (fst (ws_kpis s))) splits;
                mean_pnl = sum_list pnls / real (length pnls);
                mean_wr = sum_list wrs / real (length wrs);
                stable = (in_band tolerance pnls mean_pnl \<and> in_band tolerance wrs mean_wr)
            in \<lparr>wr_strategy = ''n/a'', wr_splits = splits,
                wr_verdict = (if stable then ''stable'' else ''unstable''),
                wr_summary = Some \<lparr>wy_n_splits = length splits, wy_pnl_mean = mean_pnl, wy_pnl_values = pnls,
                  wy_win_rate_mean = mean_wr, wy_win_rate_values = wrs, wy_tolerance = tolerance\<rparr>\<rparr>))"

definition run_walk_forward ::
  "'s wf_config \<Rightarrow> datetime \<Rightarrow> datetime \<Rightarrow> real \<Rightarrow> (py_error + walk_forward_result) option" where
  "run_walk_forward c from_dt to_dt tolerance =
     map_option (map_sum id (wf_verdict tolerance)) (wf_loop c to_dt from_dt 0 [])"

section \<open>The folds\<close>

text \<open>The fold that starts at the \<open>i\<close>-th step.\<close>

definition fold_ok :: "'s wf_config \<Rightarrow> datetime \<Rightarrow> datetime \<Rightarrow> nat \<Rightarrow> walk_forward_split \<Rightarrow> bool" where
  "fold_ok c from_dt to_dt i sp \<longleftrightarrow>
     wf_split c i (from_dt + int i * days (wc_step_days c)) = Inr sp \<and> ws_fold sp = i \<and>
     ws_train_from sp = from_dt + int i * days (wc_step_days c) \<and>
     ws_train_to sp = ws_train_from sp + days (wc_train_days c) \<and>
     ws_test_from sp = ws_train_to sp \<and> ws_test_to sp = ws_test_from sp + days (wc_test_days c) \<and> ws_test_to sp \<le> to_dt"

lemma test_end_eq: "test_end c t = t + days (wc_train_days c) + days (wc_test_days c)"
  by (simp add: test_end_def wf_step_def)

lemma wf_split_ok:
  "wf_split c i (from_dt + int i * days (wc_step_days c)) = Inr sp \<Longrightarrow>
   test_end c (from_dt + int i * days (wc_step_days c)) \<le> to_dt \<Longrightarrow> fold_ok c from_dt to_dt i sp"
  by (auto simp: fold_ok_def test_end_eq wf_split_def wf_step_def Let_def case_prod_beta split: sum.splits)

lemma split_raises_iff: "(\<exists>e. wf_split c i t = Inl e) \<longleftrightarrow> (\<exists>e. new_risk_manager (wc_risk_cfg c) = Inl e)"
  by (auto simp: wf_split_def Let_def case_prod_beta split: sum.splits)

lemma days_mono: "days n \<le> days m \<longleftrightarrow> n \<le> m"
  by (simp add: days_def)

text \<open>The loop from the \<open>i\<close>-th fold: with a positive step it ends, with the folds that fit.\<close>

lemma wf_loop_runs:
  assumes step: "0 < wc_step_days c" and risk: "new_risk_manager (wc_risk_cfg c) = Inr m"
    and splits: "\<forall>j < length splits. fold_ok c from_dt to_dt j (splits ! j)"
  shows "\<exists>sps. wf_loop c to_dt (from_dt + int (length splits) * days (wc_step_days c)) (length splits) splits = Some (Inr sps) \<and>
    (\<forall>j < length sps. fold_ok c from_dt to_dt j (sps ! j)) \<and>
    to_dt < test_end c (from_dt + int (length sps) * days (wc_step_days c)) \<and> length splits \<le> length sps"
  using splits
proof (induction "nat (to_dt + 1 - test_end c (from_dt + int (length splits) * days (wc_step_days c)))" arbitrary: splits rule: less_induct)
  case less
  let ?t = "from_dt + int (length splits) * days (wc_step_days c)"
  show ?case
  proof (cases "test_end c ?t > to_dt")
    case True
    with less.prems show ?thesis by (subst wf_loop.simps) auto
  next
    case False
    obtain sp where sp: "wf_split c (length splits) ?t = Inr sp"
      using split_raises_iff [of c "length splits" ?t] risk by (cases "wf_split c (length splits) ?t") auto
    with False have "fold_ok c from_dt to_dt (length splits) sp" by (intro wf_split_ok) auto
    with less.prems have ok: "\<forall>j < length (splits @ [sp]). fold_ok c from_dt to_dt j ((splits @ [sp]) ! j)"
      by (auto simp: nth_append less_Suc_eq)
    have next_t: "from_dt + int (length (splits @ [sp])) * days (wc_step_days c) = wf_step ?t (wc_step_days c)"
      by (simp add: wf_step_def distrib_right)
    have "0 < days (wc_step_days c)" using step by (simp add: days_def)
    then have "nat (to_dt + 1 - test_end c (wf_step ?t (wc_step_days c))) < nat (to_dt + 1 - test_end c ?t)"
      using False by (simp add: test_end_eq wf_step_def)
    from less.hyps [of "splits @ [sp]", unfolded next_t, OF this ok]
    show ?thesis using False sp by (subst wf_loop.simps) (auto simp: next_t)
  qed
qed

lemma wf_loop_diverges:
  assumes "wc_step_days c \<le> 0" "new_risk_manager (wc_risk_cfg c) = Inr m"
  shows "test_end c t \<le> to_dt \<Longrightarrow> wf_loop c to_dt t i splits = None"
proof (rule ccontr)
  assume fits: "test_end c t \<le> to_dt" and "wf_loop c to_dt t i splits \<noteq> None"
  then obtain r where r: "wf_loop c to_dt t i splits = Some r" by blast
  have "\<not> (c = c \<and> test_end c t \<le> to_dt)"
  proof (rule wf_loop.raw_induct [where P = "\<lambda>c' to_dt t i splits r. \<not> (c' = c \<and> test_end c t \<le> to_dt)", OF _ r])
    fix loop c' to_dt t i splits r
    assume ih: "\<And>c' to_dt t i splits r. loop c' to_dt t i splits = Some r \<Longrightarrow> \<not> (c' = c \<and> test_end c t \<le> to_dt)"
      and body: "(if test_end c' t > to_dt then Some (Inr splits)
        else case wf_split c' i t of Inl e \<Rightarrow> Some (Inl e)
          | Inr sp \<Rightarrow> loop c' to_dt (wf_step t (wc_step_days c')) (Suc i) (splits @ [sp])) = Some r"
    show "\<not> (c' = c \<and> test_end c t \<le> to_dt)"
    proof
      assume a: "c' = c \<and> test_end c t \<le> to_dt"
      obtain sp where "wf_split c i t = Inr sp"
        using split_raises_iff [of c i t] assms(2) by (cases "wf_split c i t") auto
      with body a have "loop c to_dt (wf_step t (wc_step_days c)) (Suc i) (splits @ [sp]) = Some r" by simp
      from ih [OF this] have "\<not> test_end c (wf_step t (wc_step_days c)) \<le> to_dt" by simp
      moreover have "days (wc_step_days c) \<le> 0" using assms(1) by (simp add: days_def)
      ultimately show False using a by (simp add: test_end_eq wf_step_def)
    qed
  qed
  with fits show False by simp
qed

text \<open>C12. The walk-forward loop ends and its folds tile the period. With a positive step and a valid
  risk configuration the run returns a result; fold \<open>i\<close> trains from the start plus \<open>i\<close> steps, tests
  exactly the days after its training window and ends inside the period, so no fold sees data
  of its own test window in training; and there is a fold for every step that fits.\<close>

theorem walk_forward_folds:
  assumes "0 < wc_step_days c" and "new_risk_manager (wc_risk_cfg c) = Inr m"
  shows "\<exists>r. run_walk_forward c from_dt to_dt tol = Some (Inr r) \<and>
    (\<forall>i < length (wr_splits r). fold_ok c from_dt to_dt i (wr_splits r ! i)) \<and>
    (\<forall>i. from_dt + int i * days (wc_step_days c) + days (wc_train_days c) + days (wc_test_days c) \<le> to_dt
       \<longrightarrow> i < length (wr_splits r))"
proof -
  obtain sps where sps: "wf_loop c to_dt from_dt 0 [] = Some (Inr sps)" "\<forall>j < length sps. fold_ok c from_dt to_dt j (sps ! j)"
    "to_dt < test_end c (from_dt + int (length sps) * days (wc_step_days c))"
    using wf_loop_runs [OF assms, of "[]" from_dt to_dt] by auto
  have fits: "i < length sps"
    if "from_dt + int i * days (wc_step_days c) + days (wc_train_days c) + days (wc_test_days c) \<le> to_dt" for i
  proof (rule ccontr)
    assume "\<not> i < length sps"
    then have "int (length sps) * days (wc_step_days c) \<le> int i * days (wc_step_days c)"
      using assms(1) by (intro mult_right_mono) (simp_all add: days_def)
    with that sps(3) show False by (simp add: test_end_eq)
  qed
  have "run_walk_forward c from_dt to_dt tol = Some (Inr (wf_verdict tol sps))"
    by (simp add: run_walk_forward_def sps(1))
  moreover have "wr_splits (wf_verdict tol sps) = sps" by (simp add: wf_verdict_def Let_def)
  ultimately show ?thesis using sps(2) fits by auto
qed

text \<open>A step of zero or fewer days never returns: if one fold fits into the period, the loop runs
  for ever.\<close>

theorem walk_forward_needs_positive_step:
  assumes "wc_step_days c \<le> 0" and "new_risk_manager (wc_risk_cfg c) = Inr m"
    and "from_dt + days (wc_train_days c) + days (wc_test_days c) \<le> to_dt"
  shows "run_walk_forward c from_dt to_dt tol = None"
  using wf_loop_diverges [OF assms(1,2), of from_dt to_dt 0 "[]"] assms(3)
  by (simp add: run_walk_forward_def test_end_eq)

text \<open>What a stable verdict means. With a tolerance below one a stable result has no mixture of
  winning and losing folds: if the mean result is positive (negative) every fold won (lost), by at
  least the share one minus the tolerance of the mean; if it is zero every fold is flat.\<close>

theorem stable_verdict_means_one_sign:
  assumes "wr_verdict (wf_verdict tol sps) = ''stable''" and "sp \<in> set sps" and "0 \<le> tol" and "tol < 1"
    and "mean = sum_list (map (\<lambda>s. pf_total_pnl (fst (ws_kpis s))) sps) / real (length sps)"
  shows "(0 < mean \<longrightarrow> (1 - tol) * mean \<le> pf_total_pnl (fst (ws_kpis sp)) \<and> 0 < pf_total_pnl (fst (ws_kpis sp))) \<and>
    (mean < 0 \<longrightarrow> pf_total_pnl (fst (ws_kpis sp)) \<le> (1 - tol) * mean \<and> pf_total_pnl (fst (ws_kpis sp)) < 0) \<and>
    (mean = 0 \<longrightarrow> \<bar>pf_total_pnl (fst (ws_kpis sp))\<bar> < 1 / 10 ^ 6)"
proof -
  let ?v = "pf_total_pnl (fst (ws_kpis sp))"
  have band: "in_band tol (map (\<lambda>s. pf_total_pnl (fst (ws_kpis s))) sps) mean"
    using assms(1,2,5) by (auto simp: wf_verdict_def Let_def split: if_splits)
  have close: "\<bar>?v - mean\<bar> \<le> tol * \<bar>mean\<bar>" if "mean \<noteq> 0"
    using band assms(2) that by (auto simp: in_band_def list_all_iff pos_divide_le_eq)
  have pos: "(1 - tol) * mean \<le> ?v \<and> 0 < ?v" if "0 < mean"
  proof -
    have "(1 - tol) * mean \<le> ?v" using close that by (simp add: left_diff_distrib abs_le_iff)
    moreover have "0 < (1 - tol) * mean" using that assms(4) by simp
    ultimately show ?thesis by linarith
  qed
  have neg: "?v \<le> (1 - tol) * mean \<and> ?v < 0" if "mean < 0"
  proof -
    have "?v \<le> (1 - tol) * mean" using close that by (simp add: left_diff_distrib abs_le_iff)
    moreover have "(1 - tol) * mean < 0" using that assms(4) by (simp add: mult_pos_neg)
    ultimately show ?thesis by linarith
  qed
  have "\<bar>?v\<bar> < 1 / 10 ^ 6" if "mean = 0"
    using band assms(2) that by (auto simp: in_band_def list_all_iff)
  with pos neg show ?thesis by blast
qed

section \<open>Worked examples\<close>

definition ex_wf :: "int \<Rightarrow> unit wf_config" where
  "ex_wf step = \<lparr>wc_factory = (ex_strategy, ()), wc_loader = (\<lambda>_ _. ([], None)), wc_train_days = 2, wc_test_days = 1,
     wc_step_days = step, wc_params = ex_bt_params, wc_risk_cfg = ex_bt_risk_cfg, wc_config_used = []\<rparr>"

lemma ex_wf_sel: "wc_step_days (ex_wf step) = step" "wc_train_days (ex_wf step) = 2" "wc_test_days (ex_wf step) = 1"
  "new_risk_manager (wc_risk_cfg (ex_wf step)) = Inr ex_bt_manager"
  by (simp_all add: ex_wf_def ex_bt_manager_init)

theorem walk_forward_folds_witness:
  "\<exists>r. run_walk_forward (ex_wf 1) 0 (days 5) (3 / 10) = Some (Inr r) \<and> 3 \<le> length (wr_splits r)"
proof -
  obtain r where "run_walk_forward (ex_wf 1) 0 (days 5) (3 / 10) = Some (Inr r)"
    "\<forall>i. 0 + int i * days (wc_step_days (ex_wf 1)) + days (wc_train_days (ex_wf 1)) + days (wc_test_days (ex_wf 1)) \<le> days 5
       \<longrightarrow> i < length (wr_splits r)"
    using walk_forward_folds [of "ex_wf 1" ex_bt_manager 0 "days 5" "3 / 10"] by (auto simp: ex_wf_sel)
  moreover from this(2) have "2 < length (wr_splits r)" by (simp add: ex_wf_sel days_def)
  ultimately show ?thesis by auto
qed

theorem walk_forward_needs_positive_step_witness: "run_walk_forward (ex_wf 0) 0 (days 5) (3 / 10) = None"
  by (rule walk_forward_needs_positive_step [where m = ex_bt_manager]) (simp_all add: ex_wf_sel days_def)

definition ex_split :: "real \<Rightarrow> walk_forward_split" where
  "ex_split pnl = \<lparr>ws_fold = 0, ws_train_from = 0, ws_train_to = 0, ws_test_from = 0, ws_test_to = 0, ws_n_trades = 1,
     ws_kpis = ((fst (compute_kpis [] 0))\<lparr>pf_total_pnl := pnl, pf_win_rate := 1 / 2\<rparr>, snd (compute_kpis [] 0))\<rparr>"

lemma ex_split_sel: "pf_total_pnl (fst (ws_kpis (ex_split pnl))) = pnl" "pf_win_rate (fst (ws_kpis (ex_split pnl))) = 1 / 2"
  by (simp_all add: ex_split_def)

theorem stable_verdict_means_one_sign_witness:
  "wr_verdict (wf_verdict (3 / 10) [ex_split 9, ex_split 11]) = ''stable'' \<and> 7 \<le> pf_total_pnl (fst (ws_kpis (ex_split 9)))"
proof -
  have "in_band (3 / 10) [9, 11] 10" "in_band (3 / 10) [1 / 2, 1 / 2] (1 / 2)" by (simp_all add: in_band_def)
  then have st: "wr_verdict (wf_verdict (3 / 10) [ex_split 9, ex_split 11]) = ''stable''"
    by (simp add: wf_verdict_def ex_split_sel Let_def)
  have "ex_split 9 \<in> set [ex_split 9, ex_split 11]" by simp
  from stable_verdict_means_one_sign [OF st this] st show ?thesis by (simp add: ex_split_sel)
qed

end
