(* ===== verification/Slug.thy ===== *)
theory Slug
  imports Prelude
begin

text \<open>
  \<open>ingest/polymarket/slug.py\<close>: the five-minute windows and the slugs of their markets, with the text
  functions of Python they need. \<open>show_int\<close> is \<open>str(n)\<close> of an integer and \<open>py_int_of\<close> is \<open>int(s)\<close> of
  a string of characters below 256 (read as Unicode code points): blanks around it, a sign and single underscores between digits are accepted,
  everything else raises (\<open>None\<close>).
\<close>

section \<open>Integers as text\<close>

definition digit_char :: "nat \<Rightarrow> char" where
  "digit_char n = char_of (48 + n)"

definition digit_of :: "char \<Rightarrow> nat option" where
  "digit_of c = (let k = of_char c in if 48 \<le> k \<and> k < 58 then Some (k - 48) else None)"

fun show_nat :: "nat \<Rightarrow> string" where
  "show_nat n = (if n < 10 then [digit_char n] else show_nat (n div 10) @ [digit_char (n mod 10)])"

declare show_nat.simps [simp del]

text \<open>\<open>s.lower()\<close> on ASCII letters.\<close>

definition ascii_lower :: "string \<Rightarrow> string" where
  "ascii_lower = map (\<lambda>c. let k = (of_char c :: nat) in if 65 \<le> k \<and> k \<le> 90 then char_of (k + 32) else c)"

definition show_int :: "int \<Rightarrow> string" where
  "show_int z = (if z < 0 then CHR ''-'' # show_nat (nat (- z)) else show_nat (nat z))"

fun int_digits :: "nat \<Rightarrow> bool \<Rightarrow> string \<Rightarrow> nat option" where
  "int_digits acc after_digit [] = (if after_digit then Some acc else None)"
| "int_digits acc after_digit (c # cs) =
     (case digit_of c of
        Some d \<Rightarrow> int_digits (acc * 10 + d) True cs
      | None \<Rightarrow> if c = CHR ''_'' \<and> after_digit then int_digits acc False cs else None)"

definition is_blank :: "char \<Rightarrow> bool" where
  "is_blank c \<longleftrightarrow> (let k = (of_char c :: nat) in (9 \<le> k \<and> k \<le> 13) \<or> (28 \<le> k \<and> k \<le> 32) \<or> k = 133 \<or> k = 160)"

definition py_strip :: "string \<Rightarrow> string" where
  "py_strip s = rev (dropWhile is_blank (rev (dropWhile is_blank s)))"

definition py_int_of :: "string \<Rightarrow> int option" where
  "py_int_of s =
     (case py_strip s of
        [] \<Rightarrow> None
      | c # cs \<Rightarrow>
          if c = CHR ''-'' then map_option (\<lambda>n. - int n) (int_digits 0 False cs)
          else if c = CHR ''+'' then map_option int (int_digits 0 False cs)
          else map_option int (int_digits 0 False (c # cs)))"

text \<open>\<open>s.rsplit(sep, 1)[-1]\<close> for a separator of one character.\<close>

definition rsplit_last :: "char \<Rightarrow> string \<Rightarrow> string" where
  "rsplit_last sep s = rev (takeWhile (\<lambda>c. c \<noteq> sep) (rev s))"

lemma digit_of_char [simp]: "n < 10 \<Longrightarrow> digit_of (digit_char n) = Some n"
  by (simp add: digit_of_def digit_char_def)

definition digit_string :: "string \<Rightarrow> bool" where
  "digit_string s \<longleftrightarrow> s \<noteq> [] \<and> (\<forall>c \<in> set s. digit_of c \<noteq> None)"

lemma show_nat_digits: "digit_string (show_nat n)"
  by (induction n rule: show_nat.induct) (subst show_nat.simps, auto simp: digit_string_def)

lemma digit_not_special: "digit_of c \<noteq> None \<Longrightarrow> \<not> is_blank c \<and> c \<noteq> CHR ''-'' \<and> c \<noteq> CHR ''+''"
proof -
  assume "digit_of c \<noteq> None"
  moreover have "digit_of (CHR ''-'') = None" "digit_of (CHR ''+'') = None" by (simp_all add: digit_of_def)
  ultimately show ?thesis by (auto simp: digit_of_def is_blank_def Let_def split: if_splits)
qed

lemma int_digits_snoc:
  "\<forall>c \<in> set s. digit_of c \<noteq> None \<Longrightarrow> d < 10 \<Longrightarrow>
   int_digits a p (s @ [digit_char d]) = map_option (\<lambda>v. v * 10 + d) (if s = [] then Some a else int_digits a p s)"
  by (induction s arbitrary: a p) (auto split: option.split)

lemma int_digits_show: "int_digits 0 False (show_nat n) = Some n"
proof (induction n rule: show_nat.induct)
  case (1 n)
  show ?case
  proof (cases "n < 10")
    case True
    then show ?thesis by (subst show_nat.simps) simp
  next
    case False
    have "digit_string (show_nat (n div 10))" by (rule show_nat_digits)
    then have "int_digits 0 False (show_nat (n div 10) @ [digit_char (n mod 10)]) =
        map_option (\<lambda>v. v * 10 + n mod 10) (int_digits 0 False (show_nat (n div 10)))"
      by (subst int_digits_snoc) (auto simp: digit_string_def)
    with 1 False show ?thesis by (subst show_nat.simps) simp
  qed
qed

lemma strip_id:
  assumes "s \<noteq> []" "\<not> is_blank (hd s)" "\<not> is_blank (last s)"
  shows "py_strip s = s"
proof -
  have "dropWhile is_blank s = s" using assms(1,2) by (cases s) auto
  moreover have "dropWhile is_blank (rev s) = rev s"
    using assms(1,3) by (cases s rule: rev_cases) auto
  ultimately show ?thesis by (simp add: py_strip_def)
qed

lemma show_nat_edges: "show_nat k \<noteq> [] \<and> digit_of (hd (show_nat k)) \<noteq> None \<and> digit_of (last (show_nat k)) \<noteq> None"
  using show_nat_digits [of k] unfolding digit_string_def by (metis hd_in_set last_in_set)

lemma py_int_of_show: "py_int_of (show_int z) = Some z"
proof (cases "z < 0")
  case True
  have e: "show_nat (nat (- z)) \<noteq> []" "\<not> is_blank (last (show_nat (nat (- z))))"
    using show_nat_edges [of "nat (- z)"] digit_not_special by blast+
  then have "py_strip (show_int z) = show_int z"
    using True by (intro strip_id) (auto simp: show_int_def is_blank_def)
  with True show ?thesis by (simp add: py_int_of_def show_int_def int_digits_show)
next
  case False
  have e: "show_nat (nat z) \<noteq> []" "digit_of (hd (show_nat (nat z))) \<noteq> None" "\<not> is_blank (last (show_nat (nat z)))"
    using show_nat_edges [of "nat z"] digit_not_special by blast+
  note h = digit_not_special [OF e(2)]
  have strip: "py_strip (show_int z) = show_int z"
    using False e h by (intro strip_id) (auto simp: show_int_def)
  obtain c cs where cs: "show_nat (nat z) = c # cs" using e(1) by (cases "show_nat (nat z)") auto
  with h int_digits_show [of "nat z"] False show ?thesis
    by (simp add: py_int_of_def strip) (simp add: show_int_def)
qed

lemma rsplit_last_append: "sep \<notin> set t \<Longrightarrow> rsplit_last sep (s @ sep # t) = t"
proof -
  assume "sep \<notin> set t"
  then have "takeWhile (\<lambda>c. c \<noteq> sep) (rev t @ sep # rev s) = rev t"
    by (subst takeWhile_append2) auto
  then show ?thesis by (simp add: rsplit_last_def)
qed

lemma minus_not_digit: "CHR ''-'' \<notin> set (show_nat n)"
  using show_nat_digits [of n] digit_not_special unfolding digit_string_def by blast

section \<open>Windows\<close>

definition SLUG_PREFIX :: string where
  "SLUG_PREFIX = ''btc-updown-5m-''"

definition WINDOW_SECONDS :: int where
  "WINDOW_SECONDS = 300"

record window =
  wd_open_ts :: int
  wd_close_ts :: int
  wd_slug :: string

text \<open>\<open>int(ts.timestamp())\<close> of a time in microseconds: truncated towards zero.\<close>

definition epoch_of :: "datetime \<Rightarrow> int" where
  "epoch_of ts = py_int (of_int ts / 10 ^ 6)"

definition window_at :: "int \<Rightarrow> window" where
  "window_at close_ts = \<lparr>wd_open_ts = close_ts - WINDOW_SECONDS, wd_close_ts = close_ts, wd_slug = SLUG_PREFIX @ show_int close_ts\<rparr>"

definition window_for :: "datetime \<Rightarrow> window" where
  "window_for ts =
     (let epoch = epoch_of ts;
          open_ts = epoch - epoch mod WINDOW_SECONDS;
          close_ts = open_ts + WINDOW_SECONDS
      in \<lparr>wd_open_ts = open_ts, wd_close_ts = close_ts, wd_slug = SLUG_PREFIX @ show_int close_ts\<rparr>)"

function windows_loop :: "int \<Rightarrow> int \<Rightarrow> window list \<Rightarrow> window list" where
  "windows_loop cursor_ts until_epoch out =
     (if cursor_ts \<le> until_epoch then windows_loop (cursor_ts + WINDOW_SECONDS) until_epoch (out @ [window_at cursor_ts])
      else out)"
  by pat_completeness auto
termination
  by (relation "measure (\<lambda>(cursor_ts, until_epoch, _). nat (until_epoch - cursor_ts + 1))") (auto simp: WINDOW_SECONDS_def)

declare windows_loop.simps [simp del]

definition windows_between :: "datetime \<Rightarrow> datetime \<Rightarrow> window list" where
  "windows_between since till = windows_loop (wd_close_ts (window_for since)) (epoch_of till) []"

definition next_window :: "datetime \<Rightarrow> window" where
  "next_window base = window_for (base + WINDOW_SECONDS * 1000000)"

lemma windows_loop_eq:
  "windows_loop c u out = out @ map (\<lambda>i. window_at (c + int i * WINDOW_SECONDS)) [0..<nat ((u - c) div WINDOW_SECONDS + 1)]"
proof (induction c u out rule: windows_loop.induct)
  case (1 c u out)
  show ?case
  proof (cases "c \<le> u")
    case True
    have n: "nat ((u - c) div WINDOW_SECONDS + 1) = Suc (nat ((u - (c + WINDOW_SECONDS)) div WINDOW_SECONDS + 1))"
    proof -
      have "(u - c) div WINDOW_SECONDS = (u - (c + WINDOW_SECONDS)) div WINDOW_SECONDS + 1"
        by (simp add: WINDOW_SECONDS_def)
      moreover have "0 \<le> (u - c) div WINDOW_SECONDS"
        using True by (simp add: WINDOW_SECONDS_def pos_imp_zdiv_nonneg_iff)
      ultimately show ?thesis by simp
    qed
    have "windows_loop c u out = windows_loop (c + WINDOW_SECONDS) u (out @ [window_at c])"
      using True by (subst windows_loop.simps) simp
    also have "\<dots> = out @ window_at c # map (\<lambda>i. window_at (c + WINDOW_SECONDS + int i * WINDOW_SECONDS))
        [0..<nat ((u - (c + WINDOW_SECONDS)) div WINDOW_SECONDS + 1)]"
      using 1 [OF True] by simp
    also have "\<dots> = out @ map (\<lambda>i. window_at (c + int i * WINDOW_SECONDS)) [0..<nat ((u - c) div WINDOW_SECONDS + 1)]"
      unfolding n by (simp add: upt_conv_Cons map_Suc_upt [symmetric] algebra_simps del: upt_Suc)
    finally show ?thesis .
  next
    case False
    then have "(u - c) div WINDOW_SECONDS < 0" by (simp add: WINDOW_SECONDS_def)
    with False show ?thesis by (subst windows_loop.simps) simp
  qed
qed

lemma slug_roundtrip: "0 \<le> z \<Longrightarrow> py_int_of (rsplit_last (CHR ''-'') (SLUG_PREFIX @ show_int z)) = Some z"
  using rsplit_last_append [of "CHR ''-''" "show_int z" "''btc-updown-5m''"] minus_not_digit [of "nat z"] py_int_of_show [of z]
  by (simp add: SLUG_PREFIX_def show_int_def)

lemma first_close: "300 dvd c \<Longrightarrow> e < c \<longleftrightarrow> e - e mod 300 + 300 \<le> (c :: int)"
proof -
  assume "300 dvd c"
  then obtain k where k: "c = 300 * k" ..
  have e: "e - e mod 300 = 300 * (e div 300)" by (simp add: minus_mod_eq_mult_div)
  have "e < 300 * k \<longleftrightarrow> e div 300 < k" by linarith
  then show ?thesis unfolding k e by linarith
qed

lemma windows_between_closes:
  "wd_close_ts ` set (windows_between since till) = {c. 300 dvd c \<and> epoch_of since < c \<and> c \<le> epoch_of till}"
proof -
  define c0 where "c0 = epoch_of since - epoch_of since mod 300 + 300"
  have c0: "300 dvd c0" by (simp add: c0_def)
  have "wd_close_ts ` set (windows_between since till) = (\<lambda>i. c0 + int i * 300) ` {0..<nat ((epoch_of till - c0) div 300 + 1)}"
    by (auto simp: windows_between_def windows_loop_eq window_at_def window_for_def WINDOW_SECONDS_def Let_def c0_def image_image)
  also have "\<dots> = {c. 300 dvd c \<and> c0 \<le> c \<and> c \<le> epoch_of till}"
  proof (intro equalityI subsetI)
    fix c assume "c \<in> {c. 300 dvd c \<and> c0 \<le> c \<and> c \<le> epoch_of till}"
    then have c: "300 dvd c - c0" "c0 \<le> c" "c \<le> epoch_of till" using c0 by auto
    then obtain k where k: "c = c0 + 300 * k" by (metis add.commute diff_eq_eq dvdE)
    with c have "0 \<le> k" "k \<le> (epoch_of till - c0) div 300" by auto
    then have "nat k < nat ((epoch_of till - c0) div 300 + 1)" "c = c0 + int (nat k) * 300" using k by auto
    then show "c \<in> (\<lambda>i. c0 + int i * 300) ` {0..<nat ((epoch_of till - c0) div 300 + 1)}" by (metis (no_types, lifting) atLeastLessThan_iff image_eqI le0)
  qed (use c0 in auto)
  also have "\<dots> = {c. 300 dvd c \<and> epoch_of since < c \<and> c \<le> epoch_of till}"
    using first_close [of _ "epoch_of since"] by (auto simp: c0_def)
  finally show ?thesis .
qed

text \<open>A slug carries its window. The window of a time contains its second, is five minutes long
  and aligned, and its close is what the feeds read back from the slug (\<open>int(slug.rsplit("-", 1)[-1])\<close>).
  The enumeration between two times ends and lists exactly the windows that close after the
  first time and not after the second.\<close>

theorem windows_and_slugs:
  assumes "0 \<le> wd_close_ts (window_for ts)"
  shows "wd_open_ts (window_for ts) \<le> epoch_of ts \<and> epoch_of ts < wd_close_ts (window_for ts) \<and>
    wd_close_ts (window_for ts) = wd_open_ts (window_for ts) + 300 \<and> 300 dvd wd_open_ts (window_for ts) \<and>
    py_int_of (rsplit_last (CHR ''-'') (wd_slug (window_for ts))) = Some (wd_close_ts (window_for ts)) \<and>
    wd_close_ts ` set (windows_between since till) = {c. 300 dvd c \<and> epoch_of since < c \<and> c \<le> epoch_of till}"
proof -
  have "wd_slug (window_for ts) = SLUG_PREFIX @ show_int (wd_close_ts (window_for ts))"
    by (simp add: window_for_def Let_def)
  with slug_roundtrip [OF assms] windows_between_closes [of since till] show ?thesis
    by (auto simp: window_for_def WINDOW_SECONDS_def Let_def)
qed

theorem windows_and_slugs_witness:
  "py_int_of (rsplit_last (CHR ''-'') (wd_slug (window_for 1000000000))) = Some 1200"
proof -
  have "wd_close_ts (window_for 1000000000) = 1200"
    by (simp add: window_for_def epoch_of_def py_int_def WINDOW_SECONDS_def Let_def)
  with windows_and_slugs [of 1000000000] show ?thesis by simp
qed

end
