(* ===== verification/Json.thy ===== *)
theory Json
  imports Slug
begin

text \<open>
  Decoded JSON documents, as \<open>json.loads\<close> returns them, and the operations of Python on such
  values that the feeds and adapters use: truth value, \<open>dict.get\<close>, iteration, \<open>len\<close>, indexing,
  \<open>float\<close> and \<open>str\<close>. An operation on a value of the wrong type raises what Python raises. An
  object lists the entries of its dict, each key once.

  What is not computed is the reading and printing of floats and the JSON parser itself:
  \<open>text_env\<close> carries \<open>float\<close> of a string, \<open>str\<close> of a value that is neither a string nor an
  integer, and \<open>json.loads\<close> (\<open>None\<close> when it raises).
\<close>

datatype json = JsNull | JsBool bool | JsInt int | JsNum real | JsStr string
  | JsArr "json list" | JsObj "(string \<times> json) list"

record text_env =
  te_float :: "string \<Rightarrow> real option"
  te_repr :: "json \<Rightarrow> string"
  te_loads :: "string \<Rightarrow> json option"

fun truthy :: "json \<Rightarrow> bool" where
  "truthy JsNull = False"
| "truthy (JsBool b) = b"
| "truthy (JsInt i) = (i \<noteq> 0)"
| "truthy (JsNum x) = (x \<noteq> 0)"
| "truthy (JsStr s) = (s \<noteq> [])"
| "truthy (JsArr xs) = (xs \<noteq> [])"
| "truthy (JsObj d) = (d \<noteq> [])"

definition js_or :: "json \<Rightarrow> json \<Rightarrow> json" where
  "js_or a b = (if truthy a then a else b)"

text \<open>\<open>v.get(k, default)\<close>.\<close>

fun js_getd :: "string \<Rightarrow> json \<Rightarrow> json \<Rightarrow> py_error + json" where
  "js_getd k dflt (JsObj d) = Inr (dict_getd d k dflt)"
| "js_getd k dflt _ = Inl (AttributeError ''get'')"

abbreviation js_get :: "string \<Rightarrow> json \<Rightarrow> py_error + json" where
  "js_get k \<equiv> js_getd k JsNull"

text \<open>\<open>v.get(k1) or v.get(k2)\<close>.\<close>

definition js_get_or :: "string \<Rightarrow> string \<Rightarrow> json \<Rightarrow> py_error + json" where
  "js_get_or k1 k2 v = bind_r (js_get k1 v) (\<lambda>a. if truthy a then Inr a else js_get k2 v)"

fun js_iter :: "json \<Rightarrow> py_error + json list" where
  "js_iter (JsArr xs) = Inr xs"
| "js_iter (JsObj d) = Inr (map (JsStr \<circ> fst) d)"
| "js_iter (JsStr s) = Inr (map (\<lambda>c. JsStr [c]) s)"
| "js_iter _ = Inl TypeError"

fun js_len :: "json \<Rightarrow> py_error + nat" where
  "js_len (JsArr xs) = Inr (length xs)"
| "js_len (JsObj d) = Inr (length d)"
| "js_len (JsStr s) = Inr (length s)"
| "js_len _ = Inl TypeError"

fun js_index :: "json \<Rightarrow> nat \<Rightarrow> py_error + json" where
  "js_index (JsArr xs) i = (if i < length xs then Inr (xs ! i) else Inl IndexError)"
| "js_index (JsStr s) i = (if i < length s then Inr (JsStr [s ! i]) else Inl IndexError)"
| "js_index (JsObj d) i = Inl (KeyError (show_int (int i)))"
| "js_index _ i = Inl TypeError"

fun py_float :: "text_env \<Rightarrow> json \<Rightarrow> py_error + real" where
  "py_float te (JsBool b) = Inr (if b then 1 else 0)"
| "py_float te (JsInt i) = Inr (of_int i)"
| "py_float te (JsNum x) = Inr x"
| "py_float te (JsStr s) = (case te_float te s of None \<Rightarrow> Inl (ValueError s) | Some x \<Rightarrow> Inr x)"
| "py_float te _ = Inl TypeError"

fun py_str :: "text_env \<Rightarrow> json \<Rightarrow> string" where
  "py_str te (JsStr s) = s"
| "py_str te (JsInt i) = show_int i"
| "py_str te v = te_repr te v"

text \<open>\<open>int(v)\<close> of a decoded value.\<close>

fun js_int :: "json \<Rightarrow> py_error + int" where
  "js_int (JsInt i) = Inr i"
| "js_int (JsBool b) = Inr (if b then 1 else 0)"
| "js_int (JsNum x) = Inr (py_int x)"
| "js_int (JsStr s) = (case py_int_of s of Some i \<Rightarrow> Inr i | None \<Rightarrow> Inl (ValueError s))"
| "js_int _ = Inl TypeError"

text \<open>\<open>v[k]\<close> with a string key.\<close>

fun js_item :: "string \<Rightarrow> json \<Rightarrow> py_error + json" where
  "js_item k (JsObj d) = (case map_of d k of Some v \<Rightarrow> Inr v | None \<Rightarrow> Inl (KeyError k))"
| "js_item k _ = Inl TypeError"

text \<open>\<open>except (TypeError, ValueError)\<close>.\<close>

fun is_type_or_value_error :: "py_error \<Rightarrow> bool" where
  "is_type_or_value_error TypeError = True"
| "is_type_or_value_error (ValueError _) = True"
| "is_type_or_value_error _ = False"

text \<open>A statement that assigns the value of an expression that may raise, and what follows it.\<close>

definition assign_r :: "'e + 'a \<Rightarrow> ('a \<Rightarrow> 's \<Rightarrow> 's) \<Rightarrow> ('s \<Rightarrow> 'e option \<times> 's) \<Rightarrow> 's \<Rightarrow> 'e option \<times> 's" where
  "assign_r r upd k s = (case r of Inl e \<Rightarrow> (Some e, s) | Inr a \<Rightarrow> k (upd a s))"

text \<open>An expression that may raise, evaluated before statements on the state.\<close>

definition eval_r :: "'e + 'a \<Rightarrow> ('a \<Rightarrow> 's \<Rightarrow> 'e option \<times> 's) \<Rightarrow> 's \<Rightarrow> 'e option \<times> 's" where
  "eval_r r k s = (case r of Inl e \<Rightarrow> (Some e, s) | Inr a \<Rightarrow> k a s)"

text \<open>A loop over a list whose body may raise: the exception leaves the loop and keeps what was done.\<close>

fun for_r :: "('a \<Rightarrow> 's \<Rightarrow> 'e option \<times> 's) \<Rightarrow> 'a list \<Rightarrow> 's \<Rightarrow> 'e option \<times> 's" where
  "for_r body [] s = (None, s)"
| "for_r body (x # xs) s =
     (case body x s of (Some e, s') \<Rightarrow> (Some e, s') | (None, s') \<Rightarrow> for_r body xs s')"

section \<open>Lemmas on the statements\<close>

lemma js_or_true: "truthy a \<Longrightarrow> js_or a b = a"
  by (simp add: js_or_def)

lemma eval_r_simps [simp]: "eval_r (Inl e) k s = (Some e, s)" "eval_r (Inr a) k s = k a s"
  by (simp_all add: eval_r_def)

lemma assign_r_simps [simp]: "assign_r (Inl e) u k s = (Some e, s)" "assign_r (Inr a) u k s = k (u a s)"
  by (simp_all add: assign_r_def)

lemma eval_r_keeps: "P s \<Longrightarrow> (\<And>a. r = Inr a \<Longrightarrow> P (snd (k a s))) \<Longrightarrow> P (snd (eval_r r k s))"
  by (cases r) auto

lemma assign_r_keeps: "P s \<Longrightarrow> (\<And>a. r = Inr a \<Longrightarrow> P (snd (k (u a s)))) \<Longrightarrow> P (snd (assign_r r u k s))"
  by (cases r) auto

lemma for_r_keeps:
  "P s \<Longrightarrow> (\<And>x s. x \<in> set xs \<Longrightarrow> P s \<Longrightarrow> P (snd (body x s))) \<Longrightarrow> P (snd (for_r body xs s))"
proof (induction xs arbitrary: s)
  case (Cons x xs)
  from Cons.prems have "P (snd (body x s))" by simp
  with Cons.prems Cons.IH [of "snd (body x s)"] show ?case
    by (cases "body x s"; cases "fst (body x s)") auto
qed simp

text \<open>The environment of the worked examples: no string reads as a float and every document is null.\<close>

definition ex_text_env :: text_env where
  "ex_text_env = \<lparr>te_float = (\<lambda>_. None), te_repr = (\<lambda>_. []), te_loads = (\<lambda>_. Some JsNull)\<rparr>"

end
