(* ===== verification/Feeds.thy ===== *)
theory Feeds
  imports Json
begin

text \<open>
  \<open>paper/state.py\<close> and \<open>paper/feeds.py\<close>: the shared state of the paper engine and the tasks that
  write it. Each websocket task is its message handler together with the reconnection loop
  around it (\<open>ws_step\<close>); each pass of the market refresher is a function of the HTTP responses it
  receives. A handler that raises returns the exception beside the state it leaves behind: the
  loop logs it, waits and reconnects. The wall clock is an argument. Handlers run to completion
  between two awaits, so a sequence of handler calls is what the event loop executes.

  A condition id is a string; where a payload carries another non-empty value the model raises
  \<open>TypeError\<close>, as Python does for the unhashable ones.
\<close>

section \<open>The shared state\<close>

record clob_book =
  cb_yes_bid :: real
  cb_yes_ask :: real
  cb_no_bid :: real
  cb_no_ask :: real
  cb_depth_yes :: real
  cb_depth_no :: real
  cb_last_update_ts :: real

record market_meta =
  mt_condition_id :: string
  mt_slug :: string
  mt_yes_token_id :: string
  mt_no_token_id :: string
  mt_window_close_ts :: int
  mt_open_price :: real
  mt_open_price_captured :: bool

record feed_state =
  fs_spot_price :: real
  fs_spot_ts :: real
  fs_chainlink_price :: real
  fs_chainlink_ts :: real
  fs_books :: "(string, clob_book) dict"
  fs_markets :: "(string, market_meta) dict"
  fs_token_to_condition :: "(string, string) dict"
  fs_token_side :: "(string, string) dict"

definition new_clob_book :: clob_book where
  "new_clob_book = \<lparr>cb_yes_bid = 0, cb_yes_ask = 0, cb_no_bid = 0, cb_no_ask = 0, cb_depth_yes = 0,
     cb_depth_no = 0, cb_last_update_ts = 0\<rparr>"

definition new_feed_state :: feed_state where
  "new_feed_state = \<lparr>fs_spot_price = 0, fs_spot_ts = 0, fs_chainlink_price = 0, fs_chainlink_ts = 0,
     fs_books = [], fs_markets = [], fs_token_to_condition = [], fs_token_side = []\<rparr>"

definition feeds_fresh :: "real \<Rightarrow> real \<Rightarrow> feed_state \<Rightarrow> (string, bool) dict" where
  "feeds_fresh max_age_s now st =
     [(''spot'', now - fs_spot_ts st < max_age_s \<and> fs_spot_price st > 0),
      (''chainlink'', now - fs_chainlink_ts st < max_age_s \<and> fs_chainlink_price st > 0)]"

section \<open>Spot and oracle messages\<close>

type_synonym handler = "real \<Rightarrow> string \<Rightarrow> feed_state \<Rightarrow> py_error option \<times> feed_state"

definition binance_message :: "text_env \<Rightarrow> handler" where
  "binance_message te now raw st =
     (case te_loads te raw of
        None \<Rightarrow> (Some (ValueError ''json''), st)
      | Some data \<Rightarrow>
          eval_r (bind_r (js_get ''k'' data) (\<lambda>k. js_get ''c'' (js_or k (JsObj []))))
            (\<lambda>close s. if \<not> truthy close then (None, s)
              else assign_r (py_float te close) (\<lambda>x s. s\<lparr>fs_spot_price := x\<rparr>)
                (\<lambda>s. (None, s\<lparr>fs_spot_ts := now\<rparr>)) s) st)"

definition PRICE_KEYS :: "string list" where
  "PRICE_KEYS = [''price'', ''value'', ''p'', ''close'', ''usd'', ''last'', ''c'']"

fun key_price :: "text_env \<Rightarrow> (string \<times> json) list \<Rightarrow> string list \<Rightarrow> real option" where
  "key_price te d [] = None"
| "key_price te d (k # ks) =
     (case map_of d k of
        None \<Rightarrow> key_price te d ks
      | Some v \<Rightarrow> (case py_float te v of
                    Inr x \<Rightarrow> if x > 1000 then Some x else key_price te d ks
                  | Inl _ \<Rightarrow> key_price te d ks))"

text \<open>\<open>found = _walk(v); if found: return found\<close>: a price of zero counts as not found.\<close>

fun price_walk :: "text_env \<Rightarrow> json \<Rightarrow> real option"
  and price_walk_list :: "text_env \<Rightarrow> json list \<Rightarrow> real option"
  and price_walk_items :: "text_env \<Rightarrow> (string \<times> json) list \<Rightarrow> real option" where
  "price_walk te (JsObj d) = (case key_price te d PRICE_KEYS of Some x \<Rightarrow> Some x | None \<Rightarrow> price_walk_items te d)"
| "price_walk te (JsArr xs) = price_walk_list te xs"
| "price_walk te _ = None"
| "price_walk_list te [] = None"
| "price_walk_list te (v # vs) =
     (case price_walk te v of Some x \<Rightarrow> if x \<noteq> 0 then Some x else price_walk_list te vs | None \<Rightarrow> price_walk_list te vs)"
| "price_walk_items te [] = None"
| "price_walk_items te ((k, v) # kvs) =
     (case price_walk te v of Some x \<Rightarrow> if x \<noteq> 0 then Some x else price_walk_items te kvs | None \<Rightarrow> price_walk_items te kvs)"

definition extract_chainlink_price :: "text_env \<Rightarrow> json \<Rightarrow> real option" where
  "extract_chainlink_price te data = price_walk te data"

definition chainlink_message :: "text_env \<Rightarrow> handler" where
  "chainlink_message te now raw st =
     (case te_loads te raw of
        None \<Rightarrow> (None, st)
      | Some data \<Rightarrow>
          (case extract_chainlink_price te data of
             Some price \<Rightarrow> if price \<noteq> 0 then (None, st\<lparr>fs_chainlink_price := price, fs_chainlink_ts := now\<rparr>) else (None, st)
           | None \<Rightarrow> (None, st)))"

section \<open>Order book messages\<close>

fun level_prices :: "text_env \<Rightarrow> json list \<Rightarrow> py_error + real list" where
  "level_prices te [] = Inr []"
| "level_prices te (l # ls) =
     bind_r (bind_r (js_getd ''price'' (JsInt 0) l) (py_float te)) (\<lambda>p.
     bind_r (level_prices te ls) (\<lambda>ps. Inr (p # ps)))"

definition first_positive :: "real list \<Rightarrow> real" where
  "first_positive ps = (case find (\<lambda>p. p > 0) ps of Some p \<Rightarrow> p | None \<Rightarrow> 0)"

definition best :: "text_env \<Rightarrow> bool \<Rightarrow> json \<Rightarrow> py_error + real" where
  "best te ascending levels =
     (case bind_r (js_iter levels) (level_prices te) of
        Inl e \<Rightarrow> if is_type_or_value_error e then Inr 0 else Inl e
      | Inr ps \<Rightarrow> Inr (first_positive (if ascending then sort ps else rev (sort ps))))"

definition level_usd :: "text_env \<Rightarrow> json \<Rightarrow> py_error + real" where
  "level_usd te l =
     bind_r (bind_r (js_getd ''price'' (JsInt 0) l) (py_float te)) (\<lambda>p.
     bind_r (bind_r (js_getd ''size'' (JsInt 0) l) (py_float te)) (\<lambda>s. Inr (p * s)))"

fun sum_usd_loop :: "text_env \<Rightarrow> real \<Rightarrow> json list \<Rightarrow> py_error + real" where
  "sum_usd_loop te acc [] = Inr acc"
| "sum_usd_loop te acc (l # ls) =
     (case level_usd te l of
        Inr x \<Rightarrow> sum_usd_loop te (acc + x) ls
      | Inl e \<Rightarrow> if is_type_or_value_error e then sum_usd_loop te acc ls else Inl e)"

definition sum_usd :: "text_env \<Rightarrow> json \<Rightarrow> py_error + real" where
  "sum_usd te levels = bind_r (js_iter levels) (sum_usd_loop te 0)"

definition depth_usd :: "text_env \<Rightarrow> json \<Rightarrow> json \<Rightarrow> py_error + real" where
  "depth_usd te bids asks = bind_r (sum_usd te bids) (\<lambda>b. bind_r (sum_usd te asks) (\<lambda>a. Inr (b + a)))"

definition book_event :: "text_env \<Rightarrow> real \<Rightarrow> string option \<Rightarrow> json \<Rightarrow> json \<Rightarrow> clob_book \<Rightarrow> py_error option \<times> clob_book" where
  "book_event te now sd bids asks =
     (let stamp = (\<lambda>b. (None, b\<lparr>cb_last_update_ts := now\<rparr>))
      in if sd = Some ''yes'' then
           assign_r (best te False bids) (\<lambda>x b. b\<lparr>cb_yes_bid := x\<rparr>)
             (assign_r (best te True asks) (\<lambda>x b. b\<lparr>cb_yes_ask := x\<rparr>)
               (assign_r (depth_usd te bids asks) (\<lambda>x b. b\<lparr>cb_depth_yes := x\<rparr>) stamp))
         else if sd = Some ''no'' then
           assign_r (best te False bids) (\<lambda>x b. b\<lparr>cb_no_bid := x\<rparr>)
             (assign_r (best te True asks) (\<lambda>x b. b\<lparr>cb_no_ask := x\<rparr>)
               (assign_r (depth_usd te bids asks) (\<lambda>x b. b\<lparr>cb_depth_no := x\<rparr>) stamp))
         else stamp)"

definition apply_change :: "text_env \<Rightarrow> string option \<Rightarrow> json \<Rightarrow> clob_book \<Rightarrow> py_error option \<times> clob_book" where
  "apply_change te sd ch b =
     eval_r (js_get ''price'' ch) (\<lambda>v b.
       case py_float te v of
         Inl e \<Rightarrow> (None, b)
       | Inr price \<Rightarrow>
           eval_r (js_get ''side'' ch) (\<lambda>cs b. (None,
             if sd = Some ''yes''
             then (if cs = JsStr ''SELL'' then b\<lparr>cb_yes_ask := price\<rparr> else b\<lparr>cb_yes_bid := price\<rparr>)
             else (if cs = JsStr ''SELL'' then b\<lparr>cb_no_ask := price\<rparr> else b\<lparr>cb_no_bid := price\<rparr>))) b) b"

definition price_change_event :: "text_env \<Rightarrow> real \<Rightarrow> string option \<Rightarrow> json \<Rightarrow> clob_book \<Rightarrow> py_error option \<times> clob_book" where
  "price_change_event te now sd changes b =
     (if \<not> truthy changes then (None, b)
      else eval_r (js_iter changes) (\<lambda>chs b.
        case for_r (apply_change te sd) chs b of
          (Some e, b') \<Rightarrow> (Some e, b')
        | (None, b') \<Rightarrow> (None, b'\<lparr>cb_last_update_ts := now\<rparr>)) b)"

definition clob_body :: "text_env \<Rightarrow> real \<Rightarrow> json \<Rightarrow> json \<Rightarrow> string option \<Rightarrow> clob_book \<Rightarrow> py_error option \<times> clob_book" where
  "clob_body te now et ev sd =
     (if et = JsStr ''book'' then
        eval_r (bind_r (js_get ''bids'' ev) (\<lambda>b. bind_r (js_get ''asks'' ev) (\<lambda>a. Inr (js_or b (JsArr []), js_or a (JsArr [])))))
          (\<lambda>(bids, asks). book_event te now sd bids asks)
      else if et = JsStr ''price_change'' then eval_r (js_get ''changes'' ev) (price_change_event te now sd)
      else (\<lambda>b. (None, b)))"

definition apply_clob_event :: "text_env \<Rightarrow> real \<Rightarrow> json \<Rightarrow> feed_state \<Rightarrow> py_error option \<times> feed_state" where
  "apply_clob_event te now ev =
     eval_r (bind_r (js_get_or ''event_type'' ''type'' ev) (\<lambda>et.
             bind_r (js_get_or ''asset_id'' ''market'' ev) (\<lambda>t. Inr (et, py_str te (js_or t (JsStr []))))))
       (\<lambda>(et, tid) st.
          case map_of (fs_token_to_condition st) tid of
            None \<Rightarrow> (None, st)
          | Some cond \<Rightarrow>
              if cond = [] then (None, st)
              else (let books = dict_setdefault cond new_clob_book (fs_books st);
                        (r, b) = clob_body te now et ev (map_of (fs_token_side st) tid) (dict_getd books cond new_clob_book)
                    in (r, st\<lparr>fs_books := AList.update cond b books\<rparr>)))"

definition clob_message :: "text_env \<Rightarrow> handler" where
  "clob_message te now raw st =
     (case te_loads te raw of
        None \<Rightarrow> (None, st)
      | Some (JsArr evs) \<Rightarrow> for_r (apply_clob_event te now) evs st
      | Some msg \<Rightarrow> for_r (apply_clob_event te now) [msg] st)"

section \<open>Websocket tasks\<close>

text \<open>What a task sees: a connection attempt that fails or succeeds, a message, a connection that
  breaks with an exception or closes cleanly.\<close>

datatype ws_event = WsRefused | WsOpened | WsMessage real string | WsBroken | WsClosed

record ws_task =
  wt_backoff :: real
  wt_connected :: bool
  wt_slept :: "real list"

definition new_ws_task :: ws_task where
  "new_ws_task = \<lparr>wt_backoff = 1, wt_connected = False, wt_slept = []\<rparr>"

definition ws_failed :: "ws_task \<Rightarrow> ws_task" where
  "ws_failed t = t\<lparr>wt_connected := False, wt_slept := wt_slept t @ [wt_backoff t],
     wt_backoff := min (wt_backoff t * 2) 60\<rparr>"

fun ws_step :: "handler \<Rightarrow> ws_event \<Rightarrow> ws_task \<times> feed_state \<Rightarrow> ws_task \<times> feed_state" where
  "ws_step h WsRefused (t, st) = (if wt_connected t then (t, st) else (ws_failed t, st))"
| "ws_step h WsOpened (t, st) = (t\<lparr>wt_connected := True, wt_backoff := 1\<rparr>, st)"
| "ws_step h (WsMessage now raw) (t, st) =
     (if \<not> wt_connected t then (t, st)
      else (case h now raw st of (None, st') \<Rightarrow> (t, st') | (Some e, st') \<Rightarrow> (ws_failed t, st')))"
| "ws_step h WsBroken (t, st) = (if wt_connected t then (ws_failed t, st) else (t, st))"
| "ws_step h WsClosed (t, st) = (t\<lparr>wt_connected := False\<rparr>, st)"

text \<open>Subscriptions of the order book task: all known tokens on connection, then the new ones at
  each pass of the background loop. \<open>list(set)\<close> has no fixed order; a message is the set of its
  tokens, and \<open>known_tokens\<close> with the messages sent is the state of a connection.\<close>

definition clob_connect :: "feed_state \<Rightarrow> (string set \<times> string set list) option" where
  "clob_connect st =
     (let tokens = keys_of (fs_token_to_condition st)
      in if tokens = [] then None else Some (set tokens, [set tokens]))"

definition diff_subscribe :: "feed_state \<Rightarrow> string set \<times> string set list \<Rightarrow> string set \<times> string set list" where
  "diff_subscribe st conn =
     (let (known, sent) = conn;
          new = set (keys_of (fs_token_to_condition st)) - known
      in if new \<noteq> {} then (known \<union> new, sent @ [new]) else (known, sent))"

section \<open>Market refresh\<close>

record http_response =
  hr_status :: int
  hr_json :: "json option"

text \<open>\<open>tokens_raw\<close> as a list, or \<open>None\<close> where the source goes on to the next market.\<close>

definition clob_tokens :: "text_env \<Rightarrow> json \<Rightarrow> json option" where
  "clob_tokens te raw = (case raw of JsStr s \<Rightarrow> te_loads te s | _ \<Rightarrow> Some (js_or raw (JsArr [])))"

definition token_pair :: "text_env \<Rightarrow> json \<Rightarrow> py_error + (string \<times> string) option" where
  "token_pair te tokens =
     bind_r (js_len tokens) (\<lambda>n. if n \<noteq> 2 then Inr None
       else bind_r (js_index tokens 0) (\<lambda>t0. bind_r (js_index tokens 1) (\<lambda>t1.
         Inr (Some (py_str te t0, py_str te t1)))))"

text \<open>The market of an entry whose slug and closing time are accepted, \<open>Inr None\<close> where it is skipped.\<close>

definition market_entry :: "text_env \<Rightarrow> string \<Rightarrow> int \<Rightarrow> json \<Rightarrow> py_error + market_meta option" where
  "market_entry te slug close_ts m =
     bind_r (js_get ''conditionId'' m) (\<lambda>c.
       if \<not> truthy c then Inr None
       else bind_r (js_get ''clobTokenIds'' m) (\<lambda>raw.
         (case clob_tokens te raw of
            None \<Rightarrow> Inr None
          | Some tokens \<Rightarrow> bind_r (token_pair te tokens) (\<lambda>p.
              (case p of
                 None \<Rightarrow> Inr None
               | Some (yes_id, no_id) \<Rightarrow>
                   (case c of
                      JsStr cid \<Rightarrow> Inr (Some \<lparr>mt_condition_id = cid, mt_slug = slug, mt_yes_token_id = yes_id,
                        mt_no_token_id = no_id, mt_window_close_ts = close_ts, mt_open_price = 0,
                        mt_open_price_captured = False\<rparr>)
                    | _ \<Rightarrow> Inl TypeError))))))"

definition gamma_market :: "text_env \<Rightarrow> (string \<Rightarrow> bool) \<Rightarrow> real \<Rightarrow> json \<Rightarrow> json \<Rightarrow> py_error + market_meta option" where
  "gamma_market te wanted now ev m =
     bind_r (js_get ''slug'' m) (\<lambda>s1.
     bind_r (if truthy s1 then Inr s1 else js_get ''slug'' ev) (\<lambda>slug.
       if \<not> truthy slug then Inr None
       else (case slug of
         JsStr s \<Rightarrow>
           if \<not> wanted s then Inr None
           else (case py_int_of (rsplit_last (CHR ''-'') s) of
             None \<Rightarrow> Inr None
           | Some close_ts \<Rightarrow> if of_int close_ts \<le> now then Inr None else market_entry te s close_ts m)
       | _ \<Rightarrow> Inl (AttributeError ''startswith''))))"

text \<open>Storing a market keeps the open price and its flag of the entry it replaces.\<close>

definition store_market :: "market_meta \<Rightarrow> feed_state \<Rightarrow> feed_state" where
  "store_market mt st =
     (let cid = mt_condition_id mt;
          old = map_of (fs_markets st) cid;
          mt' = mt\<lparr>mt_open_price := (case old of Some o' \<Rightarrow> mt_open_price o' | None \<Rightarrow> 0),
                   mt_open_price_captured := (case old of Some o' \<Rightarrow> mt_open_price_captured o' | None \<Rightarrow> False)\<rparr>
      in st\<lparr>fs_markets := AList.update cid mt' (fs_markets st),
            fs_token_to_condition := AList.update (mt_no_token_id mt) cid (AList.update (mt_yes_token_id mt) cid (fs_token_to_condition st)),
            fs_token_side := AList.update (mt_no_token_id mt) ''no'' (AList.update (mt_yes_token_id mt) ''yes'' (fs_token_side st))\<rparr>)"

definition register_market :: "text_env \<Rightarrow> (string \<Rightarrow> bool) \<Rightarrow> real \<Rightarrow> json \<Rightarrow> json \<Rightarrow> feed_state \<Rightarrow> py_error option \<times> feed_state" where
  "register_market te wanted now ev m =
     eval_r (gamma_market te wanted now ev m) (\<lambda>r st. (None, case r of None \<Rightarrow> st | Some mt \<Rightarrow> store_market mt st))"

definition event_markets :: "json \<Rightarrow> py_error + json list" where
  "event_markets ev = bind_r (js_get ''markets'' ev) (\<lambda>ms. js_iter (js_or ms (JsArr [])))"

definition register_event :: "text_env \<Rightarrow> (string \<Rightarrow> bool) \<Rightarrow> real \<Rightarrow> json \<Rightarrow> feed_state \<Rightarrow> py_error option \<times> feed_state" where
  "register_event te wanted now ev =
     eval_r (js_get ''closed'' ev) (\<lambda>c.
       if truthy c then (\<lambda>st. (None, st))
       else eval_r (event_markets ev) (for_r (register_market te wanted now ev)))"

definition drop_market :: "string \<Rightarrow> market_meta \<Rightarrow> feed_state \<Rightarrow> feed_state" where
  "drop_market cid m st =
     st\<lparr>fs_markets := AList.delete cid (fs_markets st),
        fs_books := AList.delete cid (fs_books st),
        fs_token_to_condition := dict_pop_all [mt_yes_token_id m, mt_no_token_id m] (fs_token_to_condition st),
        fs_token_side := dict_pop_all [mt_yes_token_id m, mt_no_token_id m] (fs_token_side st)\<rparr>"

definition drop_if_closed :: "real \<Rightarrow> string \<Rightarrow> feed_state \<Rightarrow> feed_state" where
  "drop_if_closed cutoff cid st =
     (case map_of (fs_markets st) cid of
        Some m \<Rightarrow> if of_int (mt_window_close_ts m) < cutoff then drop_market cid m st else st
      | None \<Rightarrow> st)"

definition drop_closed :: "real \<Rightarrow> feed_state \<Rightarrow> feed_state" where
  "drop_closed now st = fold (drop_if_closed (now - 300)) (keys_of (fs_markets st)) st"

definition refresh_5m_series :: "text_env \<Rightarrow> string \<Rightarrow> real \<times> http_response option \<Rightarrow> feed_state \<Rightarrow> py_error option \<times> feed_state" where
  "refresh_5m_series te slug_prefix inp st =
     (case inp of
        (now, None) \<Rightarrow> (Some HTTPError, st)
      | (now, Some r) \<Rightarrow>
          if \<not> (200 \<le> hr_status r \<and> hr_status r < 300) then (Some HTTPError, st)
          else (case hr_json r of
            None \<Rightarrow> (Some (ValueError ''json''), st)
          | Some (JsArr evs) \<Rightarrow>
              (case for_r (register_event te (prefix slug_prefix) now) evs st of
                 (Some e, st') \<Rightarrow> (Some e, st')
               | (None, st') \<Rightarrow> (None, drop_closed now st'))
          | Some _ \<Rightarrow> (None, st)))"

definition SERIES_5M :: "string list" where
  "SERIES_5M = [''btc-updown-5m-'', ''eth-updown-5m-'']"

definition refresh_once :: "text_env \<Rightarrow> (real \<times> http_response option) list \<Rightarrow> feed_state \<Rightarrow> py_error option \<times> feed_state" where
  "refresh_once te inps = for_r (\<lambda>(p, inp). refresh_5m_series te p inp) (zip SERIES_5M inps)"

definition wanted_15m :: "string \<Rightarrow> bool" where
  "wanted_15m slug \<longleftrightarrow> prefix ''btc-updown-15m-'' slug \<or> prefix ''eth-updown-15m-'' slug"

definition GLOBAL_15M_PAGES_PER_REFRESH :: nat where
  "GLOBAL_15M_PAGES_PER_REFRESH = 5"

fun pages_15m :: "text_env \<Rightarrow> real \<Rightarrow> http_response option list \<Rightarrow> feed_state \<Rightarrow> py_error option \<times> feed_state" where
  "pages_15m te now [] st = (None, st)"
| "pages_15m te now (None # rs) st = (None, st)"
| "pages_15m te now (Some r # rs) st =
     (if hr_status r \<noteq> 200 then (None, st)
      else (case hr_json r of
        None \<Rightarrow> (Some (ValueError ''json''), st)
      | Some (JsArr evs) \<Rightarrow>
          if evs = [] then (None, st)
          else (case for_r (register_event te wanted_15m now) evs st of
             (Some e, st') \<Rightarrow> (Some e, st')
           | (None, st') \<Rightarrow> pages_15m te now rs st')
      | Some _ \<Rightarrow> (None, st)))"

definition refresh_once_15m :: "text_env \<Rightarrow> real \<Rightarrow> http_response option list \<Rightarrow> feed_state \<Rightarrow> py_error option \<times> feed_state" where
  "refresh_once_15m te now pages = pages_15m te now (take GLOBAL_15M_PAGES_PER_REFRESH pages)"

text \<open>One pass of \<open>refresh_markets_loop\<close>: both refreshes, whatever either of them raises.\<close>

definition refresh_markets_pass ::
  "text_env \<Rightarrow> (real \<times> http_response option) list \<Rightarrow> real \<Rightarrow> http_response option list \<Rightarrow> feed_state \<Rightarrow> feed_state" where
  "refresh_markets_pass te inps now pages st = snd (refresh_once_15m te now pages (snd (refresh_once te inps st)))"

section \<open>Derived book\<close>

text \<open>A float that may be infinite.\<close>

datatype xfloat = Fin real | Inf

record derived_book =
  db_imbalance :: "xfloat option"
  db_spread_bps :: "real option"
  db_implied_prob_yes :: "real option"

definition compute_derived_book :: "clob_book \<Rightarrow> derived_book" where
  "compute_derived_book b =
     (if cb_yes_bid b \<le> 0 \<or> cb_yes_ask b \<le> 0
      then \<lparr>db_imbalance = None, db_spread_bps = None, db_implied_prob_yes = None\<rparr>
      else (let mid_yes = (cb_yes_bid b + cb_yes_ask b) / 2
            in \<lparr>db_imbalance = Some (if cb_depth_no b > 0 then Fin (cb_depth_yes b / cb_depth_no b)
                   else if cb_depth_yes b > 0 then Inf else Fin 1),
                db_spread_bps = (if mid_yes > 0 then Some ((cb_yes_ask b - cb_yes_bid b) / mid_yes * 10000) else None),
                db_implied_prob_yes = Some mid_yes\<rparr>))"

text \<open>The tasks interleave: a history is a list of handler calls and refresher passes.\<close>

datatype feed_event = BinanceMsg real string | ChainlinkMsg real string | ClobMsg real string
  | RefreshPass "(real \<times> http_response option) list" real "http_response option list"

fun feed_step :: "text_env \<Rightarrow> feed_event \<Rightarrow> feed_state \<Rightarrow> feed_state" where
  "feed_step te (BinanceMsg now raw) st = snd (binance_message te now raw st)"
| "feed_step te (ChainlinkMsg now raw) st = snd (chainlink_message te now raw st)"
| "feed_step te (ClobMsg now raw) st = snd (clob_message te now raw st)"
| "feed_step te (RefreshPass inps now pages) st = refresh_markets_pass te inps now pages st"

section \<open>The oracle price\<close>

text \<open>The prices a document quotes: a number above 1000 under one of the price keys, at any depth.\<close>

inductive quoted :: "text_env \<Rightarrow> json \<Rightarrow> real \<Rightarrow> bool" for te where
  quoted_here: "k \<in> set PRICE_KEYS \<Longrightarrow> map_of d k = Some v \<Longrightarrow> py_float te v = Inr x \<Longrightarrow> x > 1000 \<Longrightarrow> quoted te (JsObj d) x"
| quoted_obj: "(k, v) \<in> set d \<Longrightarrow> quoted te v x \<Longrightarrow> quoted te (JsObj d) x"
| quoted_arr: "v \<in> set xs \<Longrightarrow> quoted te v x \<Longrightarrow> quoted te (JsArr xs) x"

inductive_cases quoted_objE: "quoted te (JsObj d) x"
inductive_cases quoted_arrE: "quoted te (JsArr xs) x"
inductive_simps quoted_simps: "quoted te JsNull x" "quoted te (JsBool b) x" "quoted te (JsInt i) x"
  "quoted te (JsNum r) x" "quoted te (JsStr s) x"

lemma quoted_big: "quoted te v x \<Longrightarrow> x > 1000"
  by (induction rule: quoted.induct) auto

lemma key_price_Some:
  "key_price te d ks = Some x \<Longrightarrow> \<exists>k \<in> set ks. \<exists>v. map_of d k = Some v \<and> py_float te v = Inr x \<and> x > 1000"
  by (induction ks) (auto split: option.splits sum.splits if_splits)

lemma key_price_None:
  "key_price te d ks = None \<Longrightarrow> k \<in> set ks \<Longrightarrow> map_of d k = Some v \<Longrightarrow> py_float te v = Inr x \<Longrightarrow> \<not> x > 1000"
  by (induction ks) (auto split: option.splits sum.splits if_splits)

lemma price_walk_sound:
  "price_walk te v = Some x \<Longrightarrow> quoted te v x"
  "price_walk_list te vs = Some x \<Longrightarrow> \<exists>v \<in> set vs. quoted te v x"
  "price_walk_items te kvs = Some x \<Longrightarrow> \<exists>k v. (k, v) \<in> set kvs \<and> quoted te v x"
proof (induction te v and te vs and te kvs arbitrary: x and x and x rule: price_walk_price_walk_list_price_walk_items.induct)
  case (1 te d)
  then show ?case
    by (fastforce split: option.splits dest: key_price_Some intro: quoted_here quoted_obj)
qed (fastforce split: option.splits if_splits intro: quoted_arr)+

lemma price_walk_nonzero: "price_walk te v = Some x \<Longrightarrow> x \<noteq> 0"
  using price_walk_sound(1) quoted_big by fastforce

lemma price_walk_complete:
  "price_walk te v = None \<Longrightarrow> \<not> quoted te v x"
  "price_walk_list te vs = None \<Longrightarrow> v' \<in> set vs \<Longrightarrow> \<not> quoted te v' x"
  "price_walk_items te kvs = None \<Longrightarrow> (k', v'') \<in> set kvs \<Longrightarrow> \<not> quoted te v'' x"
proof (induction te v and te vs and te kvs arbitrary: x and x v' and x k' v'' rule: price_walk_price_walk_list_price_walk_items.induct)
  case (1 te d)
  then show ?case by (fastforce split: option.splits elim!: quoted_objE dest: key_price_None)
qed (auto simp: quoted_simps split: option.splits if_splits elim: quoted_arrE dest: price_walk_nonzero)

text \<open>The oracle handler never raises, whatever document arrives, and it stores a price exactly when
  the document quotes one, a number above 1000 under a price key at any depth; otherwise the state is
  left as it was.\<close>

theorem oracle_price_found:
  "chainlink_message te now raw st =
     (None, case te_loads te raw of
              None \<Rightarrow> st
            | Some v \<Rightarrow> (case extract_chainlink_price te v of
                None \<Rightarrow> st | Some x \<Rightarrow> st\<lparr>fs_chainlink_price := x, fs_chainlink_ts := now\<rparr>)) \<and>
   (case extract_chainlink_price te v of
      Some x \<Rightarrow> quoted te v x \<and> x > 1000
    | None \<Rightarrow> \<not> (\<exists>x. quoted te v x))"
proof -
  have sound: "quoted te w x \<and> x > 1000" if "price_walk te w = Some x" for w x
    using price_walk_sound(1) [OF that] quoted_big by blast
  show ?thesis
    by (auto simp: chainlink_message_def extract_chainlink_price_def
        dest: sound price_walk_nonzero price_walk_complete(1) split: option.split)
qed

section \<open>Quotes of a book event\<close>

lemma find_eq_hd_filter: "find P xs = (case filter P xs of [] \<Rightarrow> None | x # _ \<Rightarrow> Some x)"
  by (induction xs) auto

lemma first_positive_ascending:
  "first_positive (sort ps) = (if \<exists>p \<in> set ps. p > 0 then Min {p \<in> set ps. p > 0} else 0)"
proof (cases "filter (\<lambda>p. p > 0) (sort ps)")
  case Nil
  then have "\<not> (\<exists>p \<in> set ps. p > 0)" by (metis (mono_tags, lifting) filter_empty_conv set_sort)
  with Nil show ?thesis by (simp add: first_positive_def find_eq_hd_filter)
next
  case (Cons x xs)
  have "sorted (x # xs)" using sorted_filter [of "\<lambda>x. x" "sort ps" "\<lambda>p. p > 0"] Cons by simp
  moreover have s: "set (x # xs) = {p \<in> set ps. p > 0}" using Cons by (metis set_filter set_sort)
  ultimately have "Min {p \<in> set ps. p > 0} = x" unfolding s [symmetric] by (intro Min_eqI) auto
  moreover have "\<exists>p \<in> set ps. p > 0" using s by auto
  ultimately show ?thesis using Cons by (simp add: first_positive_def find_eq_hd_filter)
qed

lemma first_positive_descending:
  "first_positive (rev (sort ps)) = (if \<exists>p \<in> set ps. p > 0 then Max (set ps) else 0)"
proof (cases "rev (sort ps)")
  case Nil
  then have "ps = []" by (metis Nil_is_rev_conv set_empty set_sort)
  then show ?thesis by (simp add: first_positive_def)
next
  case (Cons x xs)
  have x: "x \<in> set ps" using Cons by (metis list.set_intros(1) set_rev set_sort)
  have "sort ps = rev xs @ [x]" using Cons by (metis rev.simps(2) rev_rev_ident)
  then have "sorted (rev xs @ [x])" "set (rev xs @ [x]) = set ps" by (metis sorted_sort, metis set_sort)
  then have "\<forall>p \<in> set ps. p \<le> x" by (auto simp: sorted_append)
  with x have m: "Max (set ps) = x" by (intro Max_eqI) auto
  show ?thesis
  proof (cases "x > 0")
    case True
    then show ?thesis using Cons x m by (auto simp: first_positive_def)
  next
    case False
    with \<open>\<forall>p \<in> set ps. p \<le> x\<close> have none: "\<forall>p \<in> set ps. \<not> p > 0" by force
    then have "find (\<lambda>p. p > 0) (rev (sort ps)) = None" by (simp add: find_None_iff)
    with none show ?thesis by (simp add: first_positive_def)
  qed
qed

text \<open>The prices of the levels of one side, where every level has a readable price.\<close>

definition side_prices :: "text_env \<Rightarrow> json \<Rightarrow> string \<Rightarrow> real list option" where
  "side_prices te ev k =
     (case bind_r (js_get k ev) (\<lambda>ls. bind_r (js_iter (js_or ls (JsArr []))) (level_prices te)) of
        Inr ps \<Rightarrow> Some ps | Inl _ \<Rightarrow> None)"

lemma side_prices_best:
  assumes "side_prices te ev k = Some ps"
  obtains ls where "js_get k ev = Inr ls" and
    "best te False (js_or ls (JsArr [])) = Inr (if \<exists>p \<in> set ps. p > 0 then Max (set ps) else 0)" and
    "best te True (js_or ls (JsArr [])) = Inr (if \<exists>p \<in> set ps. p > 0 then Min {p \<in> set ps. p > 0} else 0)"
proof -
  from assms obtain ls where ls: "js_get k ev = Inr ls"
    and ps: "bind_r (js_iter (js_or ls (JsArr []))) (level_prices te) = Inr ps"
    by (auto simp: side_prices_def bind_r_eq_Inr split: sum.splits)
  then show thesis
    using that [OF ls] by (simp add: best_def first_positive_ascending first_positive_descending)
qed

lemma apply_clob_known:
  assumes "js_get_or ''event_type'' ''type'' ev = Inr et" and "js_get_or ''asset_id'' ''market'' ev = Inr (JsStr tid)"
    and "tid \<noteq> []" and "map_of (fs_token_to_condition st) tid = Some cond" and "cond \<noteq> []"
  shows "apply_clob_event te now ev st =
    (let (r, b) = clob_body te now et ev (map_of (fs_token_side st) tid) (dict_getd (fs_books st) cond new_clob_book)
     in (r, st\<lparr>fs_books := AList.update cond b (dict_setdefault cond new_clob_book (fs_books st))\<rparr>))"
proof -
  have "dict_getd (dict_setdefault cond new_clob_book (fs_books st)) cond new_clob_book = dict_getd (fs_books st) cond new_clob_book"
    by (simp add: dict_getd_def split: option.split)
  with assms(3-5) show ?thesis by (simp add: apply_clob_event_def assms(1,2) js_or_def Let_def)
qed

lemma clob_body_book:
  "js_get ''bids'' ev = Inr bs \<Longrightarrow> js_get ''asks'' ev = Inr as' \<Longrightarrow>
   clob_body te now (JsStr ''book'') ev sd = book_event te now sd (js_or bs (JsArr [])) (js_or as' (JsArr []))"
  by (auto simp: clob_body_def)

text \<open>A book snapshot for the YES token of a registered market whose levels are readable sets the YES bid to
  the highest positive bid price and the YES ask to the lowest positive ask price, zero where there is none,
  stamps the book and touches nothing else: the NO side, the other books and the rest of the state stay.\<close>

theorem book_event_quotes:
  assumes "ev = JsObj d" and "map_of d ''event_type'' = Some (JsStr ''book'')" and "map_of d ''asset_id'' = Some (JsStr tid)"
    and "tid \<noteq> []" and "map_of (fs_token_to_condition st) tid = Some cond" and "cond \<noteq> []"
    and "map_of (fs_token_side st) tid = Some ''yes''"
    and "side_prices te ev ''bids'' = Some bps" and "side_prices te ev ''asks'' = Some aps"
    and "apply_clob_event te now ev st = (None, st')"
  defines "old \<equiv> dict_getd (fs_books st) cond new_clob_book"
  shows "\<exists>b. map_of (fs_books st') cond = Some b \<and>
    cb_yes_bid b = (if \<exists>p \<in> set bps. p > 0 then Max (set bps) else 0) \<and>
    cb_yes_ask b = (if \<exists>p \<in> set aps. p > 0 then Min {p \<in> set aps. p > 0} else 0) \<and>
    cb_no_bid b = cb_no_bid old \<and> cb_no_ask b = cb_no_ask old \<and> cb_depth_no b = cb_depth_no old \<and>
    cb_last_update_ts b = now \<and>
    map_of (fs_books st') = (map_of (fs_books st))(cond \<mapsto> b) \<and> st' = st\<lparr>fs_books := fs_books st'\<rparr>"
proof -
  obtain bs where bs: "js_get ''bids'' ev = Inr bs"
    "best te False (js_or bs (JsArr [])) = Inr (if \<exists>p \<in> set bps. p > 0 then Max (set bps) else 0)"
    by (rule side_prices_best [OF assms(8)])
  obtain as' where as': "js_get ''asks'' ev = Inr as'"
    "best te True (js_or as' (JsArr [])) = Inr (if \<exists>p \<in> set aps. p > 0 then Min {p \<in> set aps. p > 0} else 0)"
    by (rule side_prices_best [OF assms(9)])
  have et: "js_get_or ''event_type'' ''type'' ev = Inr (JsStr ''book'')" and tid: "js_get_or ''asset_id'' ''market'' ev = Inr (JsStr tid)"
    using assms(1-4) by (simp_all add: js_get_or_def dict_getd_def)
  have "apply_clob_event te now ev st =
    (let (r, b) = book_event te now (Some ''yes'') (js_or bs (JsArr [])) (js_or as' (JsArr [])) old
     in (r, st\<lparr>fs_books := AList.update cond b (dict_setdefault cond new_clob_book (fs_books st))\<rparr>))"
    unfolding apply_clob_known [OF et tid assms(4,5,6)] assms(7) clob_body_book [OF bs(1) as'(1)] old_def ..
  with assms(10) obtain b where b: "book_event te now (Some ''yes'') (js_or bs (JsArr [])) (js_or as' (JsArr [])) old = (None, b)"
    "st' = st\<lparr>fs_books := AList.update cond b (dict_setdefault cond new_clob_book (fs_books st))\<rparr>"
    by (auto simp: Let_def split: prod.splits)
  from b(1) have "\<exists>dy. b = old\<lparr>cb_yes_bid := (if \<exists>p \<in> set bps. p > 0 then Max (set bps) else 0),
      cb_yes_ask := (if \<exists>p \<in> set aps. p > 0 then Min {p \<in> set aps. p > 0} else 0), cb_depth_yes := dy, cb_last_update_ts := now\<rparr>"
    by (cases "depth_usd te (js_or bs (JsArr [])) (js_or as' (JsArr []))") (auto simp: book_event_def bs(2) as'(2))
  moreover have "map_of (AList.update cond b (dict_setdefault cond new_clob_book (fs_books st))) = (map_of (fs_books st))(cond \<mapsto> b)"
    by (auto split: option.split)
  ultimately show ?thesis using b(2) by auto
qed

definition ex_level :: "real \<Rightarrow> json" where
  "ex_level p = JsObj [(''price'', JsNum p), (''size'', JsInt 10)]"

definition ex_book_fields :: "(string \<times> json) list" where
  "ex_book_fields = [(''event_type'', JsStr ''book''), (''asset_id'', JsStr ''y1''),
     (''bids'', JsArr [ex_level (2 / 5), ex_level (1 / 2)]), (''asks'', JsArr [ex_level (3 / 5), ex_level 0])]"

definition ex_feed_state :: feed_state where
  "ex_feed_state = new_feed_state\<lparr>fs_token_to_condition := [(''y1'', ''c1'')], fs_token_side := [(''y1'', ''yes'')]\<rparr>"

lemma ex_side_prices:
  "side_prices ex_text_env (JsObj ex_book_fields) ''bids'' = Some [2 / 5, 1 / 2]"
  "side_prices ex_text_env (JsObj ex_book_fields) ''asks'' = Some [3 / 5, 0]"
  by (simp_all add: side_prices_def ex_book_fields_def ex_level_def js_or_def dict_getd_def)

lemma ex_book_accepted: "fst (apply_clob_event ex_text_env 7 (JsObj ex_book_fields) ex_feed_state) = None"
  by (simp add: apply_clob_event_def ex_book_fields_def ex_level_def ex_feed_state_def new_feed_state_def js_get_or_def js_or_def
      dict_getd_def clob_body_def book_event_def best_def depth_usd_def sum_usd_def level_usd_def dict_setdefault_def Let_def case_prod_beta)

theorem book_event_quotes_witness:
  "\<exists>b. map_of (fs_books (snd (apply_clob_event ex_text_env 7 (JsObj ex_book_fields) ex_feed_state))) ''c1'' = Some b \<and>
     cb_yes_bid b = 1 / 2 \<and> cb_yes_ask b = 3 / 5"
proof -
  let ?r = "apply_clob_event ex_text_env 7 (JsObj ex_book_fields) ex_feed_state"
  have "map_of ex_book_fields ''event_type'' = Some (JsStr ''book'')" "map_of ex_book_fields ''asset_id'' = Some (JsStr ''y1'')"
    "''y1'' \<noteq> []" "map_of (fs_token_to_condition ex_feed_state) ''y1'' = Some ''c1''" "''c1'' \<noteq> []"
    "map_of (fs_token_side ex_feed_state) ''y1'' = Some ''yes''"
    by (simp_all add: ex_book_fields_def ex_feed_state_def)
  moreover have "?r = (None, snd ?r)" using ex_book_accepted by (metis prod.collapse)
  ultimately obtain b where b: "map_of (fs_books (snd ?r)) ''c1'' = Some b"
    "cb_yes_bid b = (if \<exists>p \<in> set [2 / 5 :: real, 1 / 2]. p > 0 then Max (set [2 / 5, 1 / 2]) else 0)"
    "cb_yes_ask b = (if \<exists>p \<in> set [3 / 5 :: real, 0]. p > 0 then Min {p \<in> set [3 / 5, 0]. p > 0} else 0)"
    using book_event_quotes [OF refl _ _ _ _ _ _ ex_side_prices] by blast
  moreover have "{p \<in> set [3 / 5, 0]. p > 0} = {3 / 5 :: real}" by auto
  ultimately show ?thesis by simp
qed

section \<open>What the handlers leave alone\<close>

definition same_registry :: "feed_state \<Rightarrow> feed_state \<Rightarrow> bool" where
  "same_registry a b \<longleftrightarrow> fs_markets a = fs_markets b \<and> fs_token_to_condition a = fs_token_to_condition b \<and>
     fs_token_side a = fs_token_side b"

definition same_prices :: "feed_state \<Rightarrow> feed_state \<Rightarrow> bool" where
  "same_prices a b \<longleftrightarrow> fs_spot_price a = fs_spot_price b \<and> fs_spot_ts a = fs_spot_ts b \<and>
     fs_chainlink_price a = fs_chainlink_price b \<and> fs_chainlink_ts a = fs_chainlink_ts b"

text \<open>The effect of order book messages: prices and registry stay, and books appear or change only
  for conditions some token maps to.\<close>

definition books_only :: "feed_state \<Rightarrow> feed_state \<Rightarrow> bool" where
  "books_only st st' \<longleftrightarrow> same_registry st st' \<and> same_prices st st' \<and>
     dom (map_of (fs_books st')) \<subseteq> dom (map_of (fs_books st)) \<union> ran (map_of (fs_token_to_condition st))"

lemma books_only_refl: "books_only st st"
  by (simp add: books_only_def same_registry_def same_prices_def)

lemma apply_clob_books_only: "books_only st0 st \<Longrightarrow> books_only st0 (snd (apply_clob_event te now ev st))"
  unfolding apply_clob_event_def
  by (rule eval_r_keeps)
    (auto simp: books_only_def same_registry_def same_prices_def Let_def ranI split: option.split prod.split if_splits)

lemma clob_message_books_only: "books_only st (snd (clob_message te now raw st))"
  unfolding clob_message_def
  by (auto split: option.split json.split simp del: for_r.simps
      intro!: for_r_keeps [where P = "books_only st"] books_only_refl apply_clob_books_only)

lemma backoff_course:
  "fst (fold (ws_step h) (replicate n WsRefused) (new_ws_task, st)) =
     \<lparr>wt_backoff = min (2 ^ n) 60, wt_connected = False, wt_slept = map (\<lambda>i. min (2 ^ i) 60) [0..<n]\<rparr> \<and>
   snd (fold (ws_step h) (replicate n WsRefused) (new_ws_task, st)) = st"
proof (induction n)
  case 0
  then show ?case by (simp add: new_ws_task_def)
next
  case (Suc n)
  have "replicate (Suc n) WsRefused = replicate n WsRefused @ [WsRefused]" by (simp add: replicate_append_same)
  then have "fold (ws_step h) (replicate (Suc n) WsRefused) (new_ws_task, st) =
      ws_step h WsRefused (fold (ws_step h) (replicate n WsRefused) (new_ws_task, st))"
    by (simp del: replicate.simps)
  with Suc show ?case
    by (cases "fold (ws_step h) (replicate n WsRefused) (new_ws_task, st)") (auto simp: ws_failed_def min_def)
qed

text \<open>Errors in the feeds are contained. A spot message that raises changes nothing, and one that does not
  changes only the spot price and its time. An order book message, raising or not, changes only books, and
  only of conditions a registered token maps to. After a message that raises the task waits the
  current backoff and doubles it up to a minute; a series of refused connections waits 1, 2, 4, up to 60
  seconds and then a minute each time, with the state untouched.\<close>

theorem feed_errors_contained:
  "(case binance_message te now raw st of
      (Some e, st') \<Rightarrow> st' = st
    | (None, st') \<Rightarrow> st' = st\<lparr>fs_spot_price := fs_spot_price st', fs_spot_ts := fs_spot_ts st'\<rparr>) \<and>
   books_only st (snd (clob_message te now raw st)) \<and>
   (case h now raw st of
      (Some e, st') \<Rightarrow> ws_step h (WsMessage now raw) (t\<lparr>wt_connected := True\<rparr>, st) =
         (t\<lparr>wt_connected := False, wt_slept := wt_slept t @ [wt_backoff t], wt_backoff := min (wt_backoff t * 2) 60\<rparr>, st')
    | (None, st') \<Rightarrow> ws_step h (WsMessage now raw) (t\<lparr>wt_connected := True\<rparr>, st) = (t\<lparr>wt_connected := True\<rparr>, st')) \<and>
   wt_slept (fst (fold (ws_step h) (replicate n WsRefused) (new_ws_task, st))) = map (\<lambda>i. min (2 ^ i) 60) [0..<n] \<and>
   snd (fold (ws_step h) (replicate n WsRefused) (new_ws_task, st)) = st"
proof -
  have "case binance_message te now raw st of
      (Some e, st') \<Rightarrow> st' = st
    | (None, st') \<Rightarrow> st' = st\<lparr>fs_spot_price := fs_spot_price st', fs_spot_ts := fs_spot_ts st'\<rparr>"
    by (auto simp: binance_message_def eval_r_def assign_r_def split: option.splits sum.splits)
  moreover have "case h now raw st of
      (Some e, st') \<Rightarrow> ws_step h (WsMessage now raw) (t\<lparr>wt_connected := True\<rparr>, st) =
         (t\<lparr>wt_connected := False, wt_slept := wt_slept t @ [wt_backoff t], wt_backoff := min (wt_backoff t * 2) 60\<rparr>, st')
    | (None, st') \<Rightarrow> ws_step h (WsMessage now raw) (t\<lparr>wt_connected := True\<rparr>, st) = (t\<lparr>wt_connected := True\<rparr>, st')"
    by (auto simp: ws_failed_def split: option.splits prod.splits)
  ultimately show ?thesis using clob_message_books_only backoff_course [of h n st] by simp
qed

section \<open>The market registry\<close>

text \<open>The tokens of the markets: each condition has two tokens of its own, which is how the exchange
  issues them. \<open>payload_agrees\<close>: every market that a response describes carries these tokens.\<close>

definition tokens_disjoint :: "(string \<Rightarrow> string \<times> string) \<Rightarrow> bool" where
  "tokens_disjoint tk \<longleftrightarrow> (\<forall>c. fst (tk c) \<noteq> snd (tk c)) \<and>
     (\<forall>c c'. {fst (tk c), snd (tk c)} \<inter> {fst (tk c'), snd (tk c')} \<noteq> {} \<longrightarrow> c = c')"

definition event_agrees :: "text_env \<Rightarrow> (string \<Rightarrow> string \<times> string) \<Rightarrow> (string \<Rightarrow> bool) \<Rightarrow> real \<Rightarrow> json \<Rightarrow> bool" where
  "event_agrees te tk wanted now ev \<longleftrightarrow>
     (case event_markets ev of
        Inl _ \<Rightarrow> True
      | Inr ms \<Rightarrow> list_all (\<lambda>m. case gamma_market te wanted now ev m of
           Inr (Some mt) \<Rightarrow> (mt_yes_token_id mt, mt_no_token_id mt) = tk (mt_condition_id mt) | _ \<Rightarrow> True) ms)"

definition payload_agrees :: "text_env \<Rightarrow> (string \<Rightarrow> string \<times> string) \<Rightarrow> (string \<Rightarrow> bool) \<Rightarrow> real \<Rightarrow> http_response option \<Rightarrow> bool" where
  "payload_agrees te tk wanted now resp \<longleftrightarrow>
     (case resp of
        Some r \<Rightarrow> (case hr_json r of Some (JsArr evs) \<Rightarrow> list_all (event_agrees te tk wanted now) evs | _ \<Rightarrow> True)
      | None \<Rightarrow> True)"

fun history_agrees :: "text_env \<Rightarrow> (string \<Rightarrow> string \<times> string) \<Rightarrow> feed_event \<Rightarrow> bool" where
  "history_agrees te tk (RefreshPass inps now pages) \<longleftrightarrow>
     list_all (\<lambda>(p, now', resp). payload_agrees te tk (prefix p) now' resp) (zip SERIES_5M inps) \<and>
     list_all (payload_agrees te tk wanted_15m now) pages"
| "history_agrees te tk _ \<longleftrightarrow> True"

definition registry_ok :: "(string \<Rightarrow> string \<times> string) \<Rightarrow> feed_state \<Rightarrow> bool" where
  "registry_ok tk st \<longleftrightarrow>
     (\<forall>c m. map_of (fs_markets st) c = Some m \<longrightarrow>
        mt_condition_id m = c \<and> mt_yes_token_id m = fst (tk c) \<and> mt_no_token_id m = snd (tk c)) \<and>
     (\<forall>t c. map_of (fs_token_to_condition st) t = Some c \<longleftrightarrow>
        c \<in> dom (map_of (fs_markets st)) \<and> (t = fst (tk c) \<or> t = snd (tk c))) \<and>
     (\<forall>t s. map_of (fs_token_side st) t = Some s \<longleftrightarrow>
        (\<exists>c \<in> dom (map_of (fs_markets st)). t = fst (tk c) \<and> s = ''yes'' \<or> t = snd (tk c) \<and> s = ''no'')) \<and>
     dom (map_of (fs_books st)) \<subseteq> dom (map_of (fs_markets st))"

lemma tokens_disjointD:
  assumes "tokens_disjoint tk"
  shows "fst (tk c) \<noteq> snd (tk c)" "fst (tk c) = fst (tk c') \<longleftrightarrow> c = c'" "snd (tk c) = snd (tk c') \<longleftrightarrow> c = c'"
    "fst (tk c) \<noteq> snd (tk c')" "snd (tk c') \<noteq> fst (tk c)"
proof -
  have own: "fst (tk c) \<noteq> snd (tk c)" for c using assms by (simp add: tokens_disjoint_def)
  have share: "x \<in> {fst (tk c), snd (tk c)} \<Longrightarrow> x \<in> {fst (tk c'), snd (tk c')} \<Longrightarrow> c = c'" for x c c'
    using assms unfolding tokens_disjoint_def by blast
  show "fst (tk c) \<noteq> snd (tk c)" by (rule own)
  show "fst (tk c) = fst (tk c') \<longleftrightarrow> c = c'" using share [of "fst (tk c)" c c'] by auto
  show "snd (tk c) = snd (tk c') \<longleftrightarrow> c = c'" using share [of "snd (tk c)" c c'] by auto
  show "fst (tk c) \<noteq> snd (tk c')" using share [of "fst (tk c)" c c'] own [of c] by auto
  then show "snd (tk c') \<noteq> fst (tk c)" by simp
qed

lemma new_registry_ok: "registry_ok tk new_feed_state"
  by (simp add: registry_ok_def new_feed_state_def)

lemma store_market_ok:
  assumes "tokens_disjoint tk" "registry_ok tk st" "mt_yes_token_id mt = fst (tk (mt_condition_id mt))"
    "mt_no_token_id mt = snd (tk (mt_condition_id mt))"
  shows "registry_ok tk (store_market mt st)"
proof -
  note d = tokens_disjointD [OF assms(1)]
  have side: "(\<exists>c \<in> insert (mt_condition_id mt) A. t = fst (tk c) \<and> s = ''yes'' \<or> t = snd (tk c) \<and> s = ''no'') \<longleftrightarrow>
      (if t = snd (tk (mt_condition_id mt)) then s = ''no'' else if t = fst (tk (mt_condition_id mt)) then s = ''yes''
       else \<exists>c \<in> A. t = fst (tk c) \<and> s = ''yes'' \<or> t = snd (tk c) \<and> s = ''no'')" for A t s
    using d by auto
  show ?thesis
    using assms(2-) d unfolding registry_ok_def store_market_def
    by (auto simp: Let_def side split: if_splits)
qed

lemma drop_market_ok:
  assumes "tokens_disjoint tk" "registry_ok tk st" "map_of (fs_markets st) c = Some m"
  shows "registry_ok tk (drop_market c m st)"
proof -
  note d = tokens_disjointD [OF assms(1)]
  have m: "mt_yes_token_id m = fst (tk c)" "mt_no_token_id m = snd (tk c)"
    using assms(2,3) by (auto simp: registry_ok_def)
  have side: "(\<exists>c' \<in> A - {c}. t = fst (tk c') \<and> s = ''yes'' \<or> t = snd (tk c') \<and> s = ''no'') \<longleftrightarrow>
      t \<noteq> fst (tk c) \<and> t \<noteq> snd (tk c) \<and> (\<exists>c' \<in> A. t = fst (tk c') \<and> s = ''yes'' \<or> t = snd (tk c') \<and> s = ''no'')" for A t s
    using d by auto
  show ?thesis
    using assms(2) d unfolding registry_ok_def drop_market_def
    by (auto simp: m side split: if_splits)
qed

lemma register_event_keeps:
  assumes "P st" and "\<And>ms m mt st. event_markets ev = Inr ms \<Longrightarrow> m \<in> set ms \<Longrightarrow>
      gamma_market te wanted now ev m = Inr (Some mt) \<Longrightarrow> P st \<Longrightarrow> P (store_market mt st)"
  shows "P (snd (register_event te wanted now ev st))"
proof -
  have m: "P (snd (register_market te wanted now ev m s))" if "event_markets ev = Inr ms" "m \<in> set ms" "P s" for ms m s
    using that(3) assms(2) [OF that(1,2)]
    by (cases "gamma_market te wanted now ev m") (auto simp: register_market_def split: option.split)
  have "P (snd (eval_r (event_markets ev) (for_r (register_market te wanted now ev)) st))"
    by (rule eval_r_keeps [of P], rule assms(1), rule for_r_keeps [of P], rule assms(1)) (rule m)
  with assms(1) show ?thesis
    by (cases "js_get ''closed'' ev") (auto simp: register_event_def)
qed

lemma register_event_ok:
  assumes "tokens_disjoint tk" "event_agrees te tk wanted now ev" "registry_ok tk st"
  shows "registry_ok tk (snd (register_event te wanted now ev st))"
proof (rule register_event_keeps)
  fix ms m mt st assume m: "event_markets ev = Inr ms" "m \<in> set ms" "gamma_market te wanted now ev m = Inr (Some mt)"
    and st: "registry_ok tk st"
  from assms(2) m have "(mt_yes_token_id mt, mt_no_token_id mt) = tk (mt_condition_id mt)"
    by (auto simp: event_agrees_def list_all_iff dest!: bspec)
  then have "mt_yes_token_id mt = fst (tk (mt_condition_id mt))" "mt_no_token_id mt = snd (tk (mt_condition_id mt))"
    by (metis fst_conv, metis snd_conv)
  with assms(1) st show "registry_ok tk (store_market mt st)" by (rule store_market_ok)
qed (rule assms(3))

lemma register_events_ok:
  "tokens_disjoint tk \<Longrightarrow> list_all (event_agrees te tk wanted now) evs \<Longrightarrow> registry_ok tk st \<Longrightarrow>
   registry_ok tk (snd (for_r (register_event te wanted now) evs st))"
  by (rule for_r_keeps) (auto simp: list_all_iff intro: register_event_ok)

lemma drop_closed_ok:
  assumes "tokens_disjoint tk" "registry_ok tk st"
  shows "registry_ok tk (drop_closed now st)"
proof -
  have "registry_ok tk (fold (drop_if_closed cutoff) ks st)" if "registry_ok tk st" for ks cutoff st
    using that by (induction ks arbitrary: st) (auto simp: drop_if_closed_def intro: drop_market_ok [OF assms(1)] split: option.split)
  with assms(2) show ?thesis by (simp add: drop_closed_def)
qed

lemma refresh_5m_series_ok:
  assumes "tokens_disjoint tk" "payload_agrees te tk (prefix p) (fst inp) (snd inp)" "registry_ok tk st"
  shows "registry_ok tk (snd (refresh_5m_series te p inp st))"
proof (cases inp)
  case (Pair now resp)
  have "registry_ok tk (snd (case for_r (register_event te (prefix p) now) evs st of
      (Some e, st') \<Rightarrow> (Some e, st') | (None, st') \<Rightarrow> (None, drop_closed now st')))"
    if "list_all (event_agrees te tk (prefix p) now) evs" for evs
    using register_events_ok [OF assms(1) that assms(3)] drop_closed_ok [OF assms(1)]
    by (auto split: prod.split option.split)
  with assms(2,3) show ?thesis
    by (auto simp: refresh_5m_series_def Pair payload_agrees_def split: option.split json.split)
qed

lemma pages_15m_ok:
  "tokens_disjoint tk \<Longrightarrow> list_all (payload_agrees te tk wanted_15m now) pages \<Longrightarrow> registry_ok tk st \<Longrightarrow>
   registry_ok tk (snd (pages_15m te now pages st))"
proof (induction pages arbitrary: st)
  case (Cons resp rs)
  show ?case
  proof (cases "\<exists>r evs. resp = Some r \<and> hr_status r = 200 \<and> hr_json r = Some (JsArr evs) \<and> evs \<noteq> []")
    case True
    then obtain r evs where evs: "resp = Some r" "hr_status r = 200" "hr_json r = Some (JsArr evs)" "evs \<noteq> []" by blast
    obtain e st' where f: "for_r (register_event te wanted_15m now) evs st = (e, st')" by fastforce
    have "registry_ok tk st'"
      using register_events_ok [OF Cons.prems(1), of te wanted_15m now evs st] Cons.prems(2,3) evs f by (simp add: payload_agrees_def)
    with Cons.IH [of st'] Cons.prems(1,2) evs f show ?thesis by (cases e) auto
  qed (use Cons.prems(3) in \<open>cases resp; auto split: option.split json.split\<close>)
qed simp

lemma books_only_ok:
  assumes "registry_ok tk st" "books_only st st'"
  shows "registry_ok tk st'"
proof -
  have "ran (map_of (fs_token_to_condition st)) \<subseteq> dom (map_of (fs_markets st))"
    using assms(1) by (auto simp: registry_ok_def ran_def simp del: not_None_eq)
  moreover have "dom (map_of (fs_books st)) \<subseteq> dom (map_of (fs_markets st))" using assms(1) by (simp add: registry_ok_def)
  ultimately have "dom (map_of (fs_books st')) \<subseteq> dom (map_of (fs_markets st))"
    using assms(2) unfolding books_only_def by (meson Un_least subset_trans)
  with assms show ?thesis by (simp add: registry_ok_def books_only_def same_registry_def)
qed

lemma feed_step_ok:
  assumes "tokens_disjoint tk" "history_agrees te tk ev" "registry_ok tk st"
  shows "registry_ok tk (feed_step te ev st)"
proof (cases ev)
  case (BinanceMsg now raw)
  then show ?thesis using assms(3)
    by (auto simp: binance_message_def eval_r_def assign_r_def registry_ok_def split: option.split sum.split)
next
  case (ChainlinkMsg now raw)
  then show ?thesis using assms(3) by (auto simp: chainlink_message_def registry_ok_def split: option.split)
next
  case (ClobMsg now raw)
  with books_only_ok [OF assms(3) clob_message_books_only] show ?thesis by simp
next
  case (RefreshPass inps now pages)
  have "registry_ok tk (snd (refresh_once te inps st))"
    unfolding refresh_once_def
    by (rule for_r_keeps) (use assms RefreshPass in \<open>auto simp: list_all_iff intro!: refresh_5m_series_ok\<close>)
  moreover have "list_all (payload_agrees te tk wanted_15m now) (take GLOBAL_15M_PAGES_PER_REFRESH pages)"
    using assms(2) RefreshPass by (auto simp: list_all_iff dest: in_set_takeD)
  ultimately show ?thesis
    using RefreshPass pages_15m_ok [OF assms(1)] by (simp add: refresh_markets_pass_def refresh_once_15m_def)
qed

text \<open>C31. The market registry stays consistent under any interleaving of messages and refreshes, when each
  market has two tokens of its own and the responses report them: the token map sends exactly the tokens of
  the registered markets to their market, the side map names them YES and NO, and every book
  belongs to a registered market, so dropping a market leaves no token and no book behind.\<close>

theorem feed_registry_invariant:
  assumes "tokens_disjoint tk" and "list_all (history_agrees te tk) evs"
  shows "registry_ok tk (fold (feed_step te) evs new_feed_state)"
proof -
  have "registry_ok tk (fold (feed_step te) evs st)" if "registry_ok tk st" for st
    using assms(2) that by (induction evs arbitrary: st) (auto intro: feed_step_ok [OF assms(1)])
  from this [OF new_registry_ok] show ?thesis .
qed

definition ex_payload :: json where
  "ex_payload = JsArr [JsObj [(''markets'', JsArr [JsObj [(''slug'', JsStr ''btc-updown-5m-1200''), (''conditionId'', JsStr ''c''),
     (''clobTokenIds'', JsArr [JsStr ''yc'', JsStr ''nc''])]])]]"

definition ex_tokens :: "string \<Rightarrow> string \<times> string" where
  "ex_tokens c = (CHR ''y'' # c, CHR ''n'' # c)"

definition ex_response :: "http_response option" where
  "ex_response = Some \<lparr>hr_status = 200, hr_json = Some ex_payload\<rparr>"

lemma ex_close_ts: "py_int_of (rsplit_last (CHR ''-'') ''btc-updown-5m-1200'') = Some 1200"
  by (simp add: py_int_of_def rsplit_last_def py_strip_def is_blank_def digit_of_def Let_def)

lemma ex_agrees: "payload_agrees ex_text_env ex_tokens wanted 1000 ex_response"
  by (auto simp: payload_agrees_def ex_response_def ex_payload_def event_agrees_def event_markets_def gamma_market_def market_entry_def dict_getd_def
      js_or_def clob_tokens_def token_pair_def ex_close_ts ex_tokens_def)

theorem feed_registry_invariant_witness:
  "registry_ok ex_tokens (fold (feed_step ex_text_env)
     [RefreshPass [(1000, ex_response), (1000, ex_response)] 1000 [ex_response], BinanceMsg 1001 ''x''] new_feed_state)"
proof (rule feed_registry_invariant)
  show "tokens_disjoint ex_tokens" by (auto simp: tokens_disjoint_def ex_tokens_def)
  show "list_all (history_agrees ex_text_env ex_tokens)
      [RefreshPass [(1000, ex_response), (1000, ex_response)] 1000 [ex_response], BinanceMsg 1001 ''x'']"
    by (simp add: SERIES_5M_def ex_agrees)
qed

lemma market_entry_close: "market_entry te s t m = Inr (Some mt) \<Longrightarrow> mt_window_close_ts mt = t"
  by (auto simp: market_entry_def bind_r_def split: sum.splits if_splits option.splits json.splits prod.splits)

lemma gamma_market_open: "gamma_market te wanted now ev m = Inr (Some mt) \<Longrightarrow> now < of_int (mt_window_close_ts mt)"
  by (auto simp: gamma_market_def bind_r_def dest!: market_entry_close split: sum.splits if_splits json.splits option.splits)

definition still_known :: "real \<Rightarrow> feed_state \<Rightarrow> feed_state \<Rightarrow> bool" where
  "still_known now st0 st \<longleftrightarrow>
     (\<forall>c m. map_of (fs_markets st0) c = Some m \<longrightarrow>
        (\<exists>m1. map_of (fs_markets st) c = Some m1 \<and> mt_open_price m1 = mt_open_price m \<and>
           mt_open_price_captured m1 = mt_open_price_captured m \<and>
           (mt_window_close_ts m1 = mt_window_close_ts m \<or> now < of_int (mt_window_close_ts m1))))"

lemma still_known_store:
  "still_known now st0 st \<Longrightarrow> now < of_int (mt_window_close_ts mt) \<Longrightarrow> still_known now st0 (store_market mt st)"
  by (fastforce simp: still_known_def store_market_def Let_def split: option.splits)

lemma still_known_register: "still_known now st (snd (for_r (register_event te wanted now) evs st))"
  by (rule for_r_keeps [where P = "still_known now st"])
    (auto simp: still_known_def [of now st st] intro: register_event_keeps still_known_store gamma_market_open)

lemma drop_if_closed_markets:
  "map_of (fs_markets (drop_if_closed cutoff k st)) c =
     (case map_of (fs_markets st) c of
        Some m \<Rightarrow> if c = k \<and> of_int (mt_window_close_ts m) < cutoff then None else Some m
      | None \<Rightarrow> None)"
  by (auto simp: drop_if_closed_def drop_market_def split: option.split)

lemma drop_fold_markets:
  "map_of (fs_markets (fold (drop_if_closed cutoff) ks st)) c =
     (case map_of (fs_markets st) c of
        Some m \<Rightarrow> if c \<in> set ks \<and> of_int (mt_window_close_ts m) < cutoff then None else Some m
      | None \<Rightarrow> None)"
  by (induction ks arbitrary: st) (auto simp: drop_if_closed_markets split: option.split if_splits)

lemma drop_closed_markets:
  "map_of (fs_markets (drop_closed now st)) c =
     (case map_of (fs_markets st) c of
        Some m \<Rightarrow> if of_int (mt_window_close_ts m) < now - 300 then None else Some m
      | None \<Rightarrow> None)"
  by (auto simp: drop_closed_def drop_fold_markets split: option.split) (metis domI dom_map_of_conv_image_fst image_set)

text \<open>A refresh that completes forgets exactly the stale markets: afterwards no market closed more than five
  minutes ago is registered, a market of before is still there with its captured open price and flag, and one
  that is gone had closed more than five minutes ago.\<close>

theorem refresh_keeps_live_markets:
  assumes "refresh_5m_series te p (now, Some r) st = (None, st')" and "hr_json r = Some (JsArr evs)"
  shows "(\<forall>c m'. map_of (fs_markets st') c = Some m' \<longrightarrow> now - 300 \<le> of_int (mt_window_close_ts m')) \<and>
    (\<forall>c m. map_of (fs_markets st) c = Some m \<longrightarrow>
       (case map_of (fs_markets st') c of
          Some m' \<Rightarrow> mt_open_price m' = mt_open_price m \<and> mt_open_price_captured m' = mt_open_price_captured m
        | None \<Rightarrow> of_int (mt_window_close_ts m) < now - 300))"
proof -
  obtain st1 where st1: "for_r (register_event te (prefix p) now) evs st = (None, st1)" "st' = drop_closed now st1"
    using assms by (auto simp: refresh_5m_series_def split: if_splits prod.splits option.splits)
  have k: "still_known now st st1" using still_known_register [of now st te "prefix p" evs] st1(1) by simp
  have "case map_of (fs_markets st') c of
      Some m' \<Rightarrow> mt_open_price m' = mt_open_price m \<and> mt_open_price_captured m' = mt_open_price_captured m
    | None \<Rightarrow> of_int (mt_window_close_ts m) < now - 300" if m: "map_of (fs_markets st) c = Some m" for c m
  proof -
    from k m obtain m1 where "map_of (fs_markets st1) c = Some m1" "mt_open_price m1 = mt_open_price m"
      "mt_open_price_captured m1 = mt_open_price_captured m"
      "mt_window_close_ts m1 = mt_window_close_ts m \<or> now < of_int (mt_window_close_ts m1)"
      unfolding still_known_def by blast
    then show ?thesis by (auto simp: st1(2) drop_closed_markets)
  qed
  moreover have "now - 300 \<le> of_int (mt_window_close_ts m')" if "map_of (fs_markets st') c = Some m'" for c m'
    using that by (auto simp: st1(2) drop_closed_markets split: option.splits if_splits)
  ultimately show ?thesis by blast
qed

definition ex_meta :: "string \<Rightarrow> int \<Rightarrow> market_meta" where
  "ex_meta c t = \<lparr>mt_condition_id = c, mt_slug = ''s'', mt_yes_token_id = CHR ''y'' # c, mt_no_token_id = CHR ''n'' # c,
     mt_window_close_ts = t, mt_open_price = 100, mt_open_price_captured = True\<rparr>"

theorem refresh_keeps_live_markets_witness:
  "case map_of (fs_markets (drop_closed 1000 (new_feed_state\<lparr>fs_markets := [(''a'', ex_meta ''a'' 600), (''b'', ex_meta ''b'' 900)]\<rparr>))) ''b'' of
     Some m' \<Rightarrow> mt_open_price m' = 100 \<and> mt_open_price_captured m'
   | None \<Rightarrow> (900 :: real) < 700"
proof -
  let ?st = "new_feed_state\<lparr>fs_markets := [(''a'', ex_meta ''a'' 600), (''b'', ex_meta ''b'' 900)]\<rparr>"
  have "refresh_5m_series ex_text_env ''p'' (1000, Some \<lparr>hr_status = 200, hr_json = Some (JsArr [])\<rparr>) ?st = (None, drop_closed 1000 ?st)"
    by (simp add: refresh_5m_series_def)
  from refresh_keeps_live_markets [OF this] show ?thesis
    by (auto simp: ex_meta_def split: option.splits dest!: spec [of _ "''b''"])
qed

end
