(* ===== verification/Tick_Recorder.thy ===== *)
theory Tick_Recorder
  imports Feeds Paper_Driver
begin

text \<open>
  \<open>paper/tick_recorder.py\<close>: once per spot update the recorder latches open prices, publishes one
  tick per market inside its window and appends the rows of \<open>market_data.paper_ticks\<close>. A pass is a
  function of the clock, of which publications succeed and of the recorder's state; the feeds do not
  run during a pass. \<open>paper/heartbeat.py\<close> is the payload of one beat.
\<close>

section \<open>Definitions\<close>

definition WINDOW_OPEN_LEAD_S :: real where
  "WINDOW_OPEN_LEAD_S = 2"

definition window_seconds_for_slug :: "string \<Rightarrow> real" where
  "window_seconds_for_slug slug = (if has_substring ''-15m-'' slug then 900 else 300)"

definition is_in_publishing_window :: "real \<Rightarrow> real \<Rightarrow> string \<Rightarrow> bool" where
  "is_in_publishing_window window_close_ts now slug \<longleftrightarrow>
     (let window_open = window_close_ts - window_seconds_for_slug slug
      in window_open - WINDOW_OPEN_LEAD_S \<le> now \<and> now < window_close_ts)"

abbreviation market_open_ts :: "market_meta \<Rightarrow> real" where
  "market_open_ts m \<equiv> of_int (mt_window_close_ts m) - window_seconds_for_slug (mt_slug m)"

definition capture_open :: "real \<Rightarrow> real \<Rightarrow> real \<Rightarrow> market_meta \<Rightarrow> market_meta" where
  "capture_open now spot chainlink m =
     (let window_open = market_open_ts m;
          t_in_win = max 0 (now - window_open)
      in if \<not> mt_open_price_captured m \<and> now \<ge> window_open \<and> t_in_win \<le> 5
         then m\<lparr>mt_open_price := float_or spot chainlink, mt_open_price_captured := True\<rparr> else m)"

text \<open>\<open>orjson\<close> writes an infinite float as \<open>null\<close>.\<close>

fun xnum :: "xfloat \<Rightarrow> real option" where
  "xnum (Fin x) = Some x"
| "xnum Inf = None"

text \<open>\<open>x or 0.0\<close> on an optional float.\<close>

definition opt_or0 :: "real option \<Rightarrow> real" where
  "opt_or0 x = (case x of Some v \<Rightarrow> v | None \<Rightarrow> 0)"

definition xopt_or0 :: "xfloat option \<Rightarrow> xfloat" where
  "xopt_or0 x = (case x of Some v \<Rightarrow> v | None \<Rightarrow> Fin 0)"

definition recorder_tick :: "real \<Rightarrow> real \<Rightarrow> real \<Rightarrow> market_meta \<Rightarrow> clob_book \<Rightarrow> tick_dict" where
  "recorder_tick now spot chainlink m book =
     (let d = compute_derived_book book
      in \<lparr>td_num = [(''ts'', Some now), (''t_in_window'', Some (max 0 (now - market_open_ts m))),
            (''window_close_ts'', Some (of_int (mt_window_close_ts m))), (''spot_price'', Some spot),
            (''chainlink_price'', Some chainlink), (''open_price'', Some (mt_open_price m)),
            (''pm_yes_bid'', Some (cb_yes_bid book)), (''pm_yes_ask'', Some (cb_yes_ask book)),
            (''pm_no_bid'', Some (cb_no_bid book)), (''pm_no_ask'', Some (cb_no_ask book)),
            (''pm_depth_yes'', Some (cb_depth_yes book)), (''pm_depth_no'', Some (cb_depth_no book)),
            (''pm_imbalance'', xnum (xopt_or0 (db_imbalance d))), (''pm_spread_bps'', Some (opt_or0 (db_spread_bps d))),
            (''implied_prob_yes'', Some (opt_or0 (db_implied_prob_yes d)))],
          td_market_slug = mt_slug m, td_condition_id = Some (mt_condition_id m)\<rparr>)"

record recorded_row = paper_tick_row +
  rr_market_slug :: string
  rr_t_in_window :: real
  rr_window_close_ts :: int
  rr_open_price :: real
  rr_yes_bid :: real
  rr_yes_ask :: real
  rr_no_bid :: real
  rr_no_ask :: real
  rr_depth_yes :: real
  rr_depth_no :: real
  rr_imbalance :: xfloat
  rr_spread_bps :: real
  rr_implied_prob_yes :: real

definition recorder_row :: "real \<Rightarrow> real \<Rightarrow> real \<Rightarrow> market_meta \<Rightarrow> clob_book \<Rightarrow> recorded_row" where
  "recorder_row now spot chainlink m book =
     (let d = compute_derived_book book
      in \<lparr>pt_condition_id = mt_condition_id m, pt_ts = now, pt_spot_price = Some spot, pt_chainlink_price = Some chainlink,
          rr_market_slug = mt_slug m, rr_t_in_window = max 0 (now - market_open_ts m),
          rr_window_close_ts = mt_window_close_ts m, rr_open_price = mt_open_price m,
          rr_yes_bid = cb_yes_bid book, rr_yes_ask = cb_yes_ask book, rr_no_bid = cb_no_bid book, rr_no_ask = cb_no_ask book,
          rr_depth_yes = cb_depth_yes book, rr_depth_no = cb_depth_no book, rr_imbalance = xopt_or0 (db_imbalance d),
          rr_spread_bps = opt_or0 (db_spread_bps d), rr_implied_prob_yes = opt_or0 (db_implied_prob_yes d)\<rparr>)"

record pass_result =
  pr_state :: feed_state
  pr_published :: "tick_dict list"
  pr_rows :: "recorded_row list"

text \<open>The body of the loop over the open markets; \<open>pub\<close> tells whether the publication succeeds.\<close>

definition record_market :: "real \<Rightarrow> (string \<Rightarrow> bool) \<Rightarrow> string \<times> market_meta \<Rightarrow> pass_result \<Rightarrow> pass_result" where
  "record_market now pub entry acc =
     (let (key, m) = entry; st = pr_state acc
      in case map_of (fs_books st) (mt_condition_id m) of
           None \<Rightarrow> acc
         | Some book \<Rightarrow>
             (let m' = capture_open now (fs_spot_price st) (fs_chainlink_price st) m;
                  acc1 = acc\<lparr>pr_state := st\<lparr>fs_markets := AList.update key m' (fs_markets st)\<rparr>\<rparr>
              in if max 0 (now - market_open_ts m) > window_seconds_for_slug (mt_slug m) then acc1
                 else acc1\<lparr>pr_published := pr_published acc1 @
                        (if pub (mt_condition_id m) then [recorder_tick now (fs_spot_price st) (fs_chainlink_price st) m' book] else []),
                      pr_rows := pr_rows acc1 @ [recorder_row now (fs_spot_price st) (fs_chainlink_price st) m' book]\<rparr>))"

definition open_markets :: "real \<Rightarrow> feed_state \<Rightarrow> (string \<times> market_meta) list" where
  "open_markets now st =
     filter (\<lambda>(k, m). is_in_publishing_window (of_int (mt_window_close_ts m)) now (mt_slug m)) (fs_markets st)"

definition record_pass :: "real \<Rightarrow> (string \<Rightarrow> bool) \<Rightarrow> feed_state \<Rightarrow> pass_result" where
  "record_pass now pub st =
     fold (record_market now pub) (open_markets now st) \<lparr>pr_state = st, pr_published = [], pr_rows = []\<rparr>"

record recorder =
  rc_state :: feed_state
  rc_last_spot_ts :: real
  rc_channel :: "tick_dict list"
  rc_table :: "recorded_row list"

definition recorded_key :: "recorded_row \<Rightarrow> string \<times> real" where
  "recorded_key r = (pt_condition_id r, pt_ts r)"

definition recorder_step :: "real \<Rightarrow> (string \<Rightarrow> bool) \<Rightarrow> bool \<Rightarrow> recorder \<Rightarrow> recorder" where
  "recorder_step now pub database_up rc =
     (if fs_spot_ts (rc_state rc) \<le> rc_last_spot_ts rc then rc
      else (let p = record_pass now pub (rc_state rc)
            in rc\<lparr>rc_state := pr_state p, rc_last_spot_ts := fs_spot_ts (rc_state rc),
                  rc_channel := rc_channel rc @ pr_published p,
                  rc_table := (if database_up then upsert_many recorded_key (pr_rows p) (rc_table rc) else rc_table rc)\<rparr>))"

record heartbeat =
  hb_ts :: real
  hb_uptime_s :: int
  hb_n_trades_today :: int
  hb_n_open_positions :: nat

definition heartbeat_payload :: "real \<Rightarrow> real \<Rightarrow> 's paper_driver \<Rightarrow> heartbeat" where
  "heartbeat_payload startup_ts now d =
     \<lparr>hb_ts = now, hb_uptime_s = py_int (now - startup_ts), hb_n_trades_today = pd_hb_trades_today d,
      hb_n_open_positions = pd_hb_open_positions d\<rparr>"

section \<open>A pass of the recorder\<close>

definition booked :: "feed_state \<Rightarrow> string \<times> market_meta \<Rightarrow> bool" where
  "booked st e \<longleftrightarrow> map_of (fs_books st) (mt_condition_id (snd e)) \<noteq> None"

definition book_of :: "feed_state \<Rightarrow> market_meta \<Rightarrow> clob_book" where
  "book_of st m = the (map_of (fs_books st) (mt_condition_id m))"

definition captured :: "real \<Rightarrow> feed_state \<Rightarrow> market_meta \<Rightarrow> market_meta" where
  "captured now st m = capture_open now (fs_spot_price st) (fs_chainlink_price st) m"

lemma capture_open_keeps [simp]:
  "mt_slug (capture_open now sp cl m) = mt_slug m" "mt_condition_id (capture_open now sp cl m) = mt_condition_id m"
  "mt_window_close_ts (capture_open now sp cl m) = mt_window_close_ts m"
  by (simp_all add: capture_open_def Let_def)

lemma window_seconds_pos: "0 < window_seconds_for_slug slug"
  by (simp add: window_seconds_for_slug_def)

lemma publishing_t_in_window:
  "is_in_publishing_window close now slug \<Longrightarrow>
   max 0 (now - (close - window_seconds_for_slug slug)) \<le> window_seconds_for_slug slug"
  using window_seconds_pos [of slug] by (auto simp: is_in_publishing_window_def Let_def)

lemma record_market_in_window:
  assumes "is_in_publishing_window (of_int (mt_window_close_ts m)) now (mt_slug m)"
  shows "record_market now pub (k, m) acc =
    (let st = pr_state acc
     in if booked st (k, m) then
          \<lparr>pr_state = st\<lparr>fs_markets := AList.update k (captured now st m) (fs_markets st)\<rparr>,
           pr_published = pr_published acc @ (if pub (mt_condition_id m)
             then [recorder_tick now (fs_spot_price st) (fs_chainlink_price st) (captured now st m) (book_of st m)] else []),
           pr_rows = pr_rows acc @ [recorder_row now (fs_spot_price st) (fs_chainlink_price st) (captured now st m) (book_of st m)]\<rparr>
        else acc)"
  using publishing_t_in_window [OF assms]
  by (auto simp: record_market_def Let_def booked_def book_of_def captured_def split: option.splits)

lemma record_fold:
  assumes "list_all (\<lambda>(k, m). is_in_publishing_window (of_int (mt_window_close_ts m)) now (mt_slug m)) es"
  shows "fold (record_market now pub) es acc =
    (let st = pr_state acc; es' = filter (booked st) es
     in \<lparr>pr_state = st\<lparr>fs_markets := fold (\<lambda>(k, m). AList.update k (captured now st m)) es' (fs_markets st)\<rparr>,
         pr_published = pr_published acc @ map (\<lambda>(k, m). recorder_tick now (fs_spot_price st) (fs_chainlink_price st)
            (captured now st m) (book_of st m)) (filter (\<lambda>(k, m). pub (mt_condition_id m)) es'),
         pr_rows = pr_rows acc @ map (\<lambda>(k, m). recorder_row now (fs_spot_price st) (fs_chainlink_price st)
            (captured now st m) (book_of st m)) es'\<rparr>)"
  using assms
proof (induction es arbitrary: acc)
  case (Cons e es)
  obtain k m where e: "e = (k, m)" by (cases e)
  have w: "is_in_publishing_window (of_int (mt_window_close_ts m)) now (mt_slug m)"
    and ws: "list_all (\<lambda>(k, m). is_in_publishing_window (of_int (mt_window_close_ts m)) now (mt_slug m)) es"
    using Cons.prems e by simp_all
  have inv: "booked (st\<lparr>fs_markets := x\<rparr>) = booked st" "book_of (st\<lparr>fs_markets := x\<rparr>) = book_of st"
    "captured now (st\<lparr>fs_markets := x\<rparr>) = captured now st" for st x
    by (auto simp: booked_def book_of_def captured_def fun_eq_iff)
  show ?case
    by (simp add: e record_market_in_window [OF w] Cons.IH [OF ws] Let_def inv)
qed simp

lemma record_pass_eq:
  "record_pass now pub st =
    (let es = filter (booked st) (open_markets now st)
     in \<lparr>pr_state = st\<lparr>fs_markets := fold (\<lambda>(k, m). AList.update k (captured now st m)) es (fs_markets st)\<rparr>,
         pr_published = map (\<lambda>(k, m). recorder_tick now (fs_spot_price st) (fs_chainlink_price st)
            (captured now st m) (book_of st m)) (filter (\<lambda>(k, m). pub (mt_condition_id m)) es),
         pr_rows = map (\<lambda>(k, m). recorder_row now (fs_spot_price st) (fs_chainlink_price st)
            (captured now st m) (book_of st m)) es\<rparr>)"
  unfolding record_pass_def
  by (subst record_fold) (auto simp: open_markets_def list_all_iff Let_def)

lemma map_of_fold_update:
  "map_of (fold (\<lambda>(k, m). AList.update k (f m)) es d) c =
     (case map_of (rev es) c of Some m \<Rightarrow> Some (f m) | None \<Rightarrow> map_of d c)"
  by (induction es arbitrary: d) (auto simp: map_add_def split: option.split)

lemma map_of_filter_distinct:
  "distinct (keys_of d) \<Longrightarrow>
   map_of (filter P d) c = (case map_of d c of Some m \<Rightarrow> if P (c, m) then Some m else None | None \<Rightarrow> None)"
proof (induction d)
  case (Cons e d)
  have "c = fst e \<Longrightarrow> map_of (filter P d) c = None"
    using Cons.prems by (force simp: map_of_eq_None_iff)
  with Cons show ?case by (cases e) auto
qed simp

text \<open>The open price is latched once and only near the open. A pass sets the open price of a registered market
  exactly when it has a book, has no captured price and its window opened at most five seconds ago, to the
  spot price or, when that is zero, to the oracle price; every other market keeps its entry, and nothing else of the
  feed state changes.\<close>

theorem open_price_latched:
  assumes "distinct (keys_of (fs_markets st))" and st'_def: "st' = pr_state (record_pass now pub st)"
  shows "map_of (fs_markets st') c =
      map_option (\<lambda>m. if map_of (fs_books st) (mt_condition_id m) \<noteq> None \<and> \<not> mt_open_price_captured m \<and>
            market_open_ts m \<le> now \<and> now \<le> market_open_ts m + 5
          then m\<lparr>mt_open_price := float_or (fs_spot_price st) (fs_chainlink_price st), mt_open_price_captured := True\<rparr> else m)
        (map_of (fs_markets st) c) \<and> st' = st\<lparr>fs_markets := fs_markets st'\<rparr>"
proof -
  let ?es = "filter (booked st) (open_markets now st)"
  have es: "?es = filter (\<lambda>e. is_in_publishing_window (of_int (mt_window_close_ts (snd e))) now (mt_slug (snd e)) \<and> booked st e) (fs_markets st)"
    by (simp add: open_markets_def case_prod_beta)
  have "distinct (keys_of ?es)" unfolding es by (rule distinct_map_filter [OF assms(1)])
  then have "map_of (rev ?es) = map_of ?es" by (subst map_of_inject_set) (simp_all add: rev_map [symmetric])
  then have "map_of (fs_markets st') c = (case map_of ?es c of Some m \<Rightarrow> Some (captured now st m) | None \<Rightarrow> map_of (fs_markets st) c)"
    by (simp add: st'_def record_pass_eq Let_def map_of_fold_update)
  moreover have "is_in_publishing_window (of_int (mt_window_close_ts m)) now (mt_slug m)"
    if "market_open_ts m \<le> now" "now \<le> market_open_ts m + 5" for m
    using that by (auto simp: is_in_publishing_window_def WINDOW_OPEN_LEAD_S_def window_seconds_for_slug_def Let_def split: if_splits)
  ultimately show ?thesis
    by (auto simp: es map_of_filter_distinct [OF assms(1)] captured_def capture_open_def booked_def Let_def
        st'_def record_pass_eq split: option.splits)
qed

definition ex_recorder_state :: feed_state where
  "ex_recorder_state = new_feed_state\<lparr>fs_spot_price := 70000, fs_markets := [(''b'', (ex_meta ''b'' 900)\<lparr>mt_open_price_captured := False\<rparr>)],
     fs_books := [(''b'', new_clob_book)]\<rparr>"

theorem open_price_latched_witness:
  "map_option mt_open_price (map_of (fs_markets (pr_state (record_pass 603 (\<lambda>_. True) ex_recorder_state))) ''b'') = Some 70000"
  using open_price_latched [of ex_recorder_state _ 603 "\<lambda>_. True" "''b''", OF _ refl]
  by (simp add: ex_recorder_state_def new_feed_state_def ex_meta_def float_or_def window_seconds_for_slug_def has_substring_def upt_rec)

section \<open>From the recorder to the driver\<close>

text \<open>C30. What the recorder publishes is what the driver reads. Every tick of a pass is of a market inside its
  publishing window that has a book, is accepted by the driver's decoder, and comes out with the recorder's clock,
  slug, time in window (between zero and the window length), prices and open price; a zero oracle price is read as
  missing, and an infinite imbalance, published as null, is read as zero. The market id reaches the execution client.\<close>

theorem published_ticks_reach_the_driver:
  assumes "td \<in> set (pr_published (record_pass now pub st))"
  shows "\<exists>k m b. (k, m) \<in> set (fs_markets st) \<and> is_in_publishing_window (of_int (mt_window_close_ts m)) now (mt_slug m) \<and>
    map_of (fs_books st) (mt_condition_id m) = Some b \<and> td_condition_id td = Some (mt_condition_id m) \<and>
    (\<exists>c. tick_from_dict td = Inr c \<and> tc_ts c = now \<and> tc_market_slug c = mt_slug m \<and>
      tc_t_in_window c = max 0 (now - market_open_ts m) \<and> tc_t_in_window c \<le> window_seconds_for_slug (mt_slug m) \<and>
      tc_window_close_ts c = of_int (mt_window_close_ts m) \<and> tc_t_to_close c = of_int (mt_window_close_ts m) - now \<and>
      tc_spot_price c = fs_spot_price st \<and>
      tc_chainlink_price c = (if fs_chainlink_price st = 0 then None else Some (fs_chainlink_price st)) \<and>
      tc_open_price c = mt_open_price (capture_open now (fs_spot_price st) (fs_chainlink_price st) m) \<and>
      tc_pm_yes_bid c = cb_yes_bid b \<and> tc_pm_yes_ask c = cb_yes_ask b \<and>
      tc_pm_no_bid c = cb_no_bid b \<and> tc_pm_no_ask c = cb_no_ask b \<and>
      tc_pm_depth_yes c = cb_depth_yes b \<and> tc_pm_depth_no c = cb_depth_no b \<and>
      tc_pm_imbalance c = (case db_imbalance (compute_derived_book b) of Some (Fin x) \<Rightarrow> x | _ \<Rightarrow> 0) \<and>
      tc_implied_prob_yes c = opt_or0 (db_implied_prob_yes (compute_derived_book b)))"
proof -
  from assms obtain k m where km: "(k, m) \<in> set (open_markets now st)" "booked st (k, m)"
    and td: "td = recorder_tick now (fs_spot_price st) (fs_chainlink_price st) (captured now st m) (book_of st m)"
    by (auto simp: record_pass_eq Let_def)
  obtain b where b: "map_of (fs_books st) (mt_condition_id m) = Some b" "book_of st m = b"
    using km(2) by (auto simp: booked_def book_of_def)
  have w: "is_in_publishing_window (of_int (mt_window_close_ts m)) now (mt_slug m)" and e: "(k, m) \<in> set (fs_markets st)"
    using km(1) by (auto simp: open_markets_def)
  have "now < of_int (mt_window_close_ts m)" using w by (simp add: is_in_publishing_window_def Let_def)
  with publishing_t_in_window [OF w] show ?thesis
    by (intro exI [of _ k] exI [of _ m] exI [of _ b])
      (auto simp: e w b td recorder_tick_def Let_def tick_from_dict_def num_or0_def captured_def xopt_or0_def split: option.split xfloat.split)
qed

theorem published_ticks_reach_the_driver_witness:
  "\<exists>c. tick_from_dict (hd (pr_published (record_pass 603 (\<lambda>_. True) ex_recorder_state))) = Inr c \<and> tc_open_price c = 70000 \<and>
     tc_t_in_window c = 3"
proof -
  have k: "has_substring ''-15m-'' ''s'' = False" by (simp add: has_substring_def)
  have "pr_published (record_pass 603 (\<lambda>_. True) ex_recorder_state) \<noteq> []"
    by (simp add: record_pass_eq Let_def ex_recorder_state_def open_markets_def ex_meta_def booked_def is_in_publishing_window_def
        window_seconds_for_slug_def WINDOW_OPEN_LEAD_S_def k new_feed_state_def)
  then have "hd (pr_published (record_pass 603 (\<lambda>_. True) ex_recorder_state)) \<in> set (pr_published (record_pass 603 (\<lambda>_. True) ex_recorder_state))"
    by simp
  from published_ticks_reach_the_driver [OF this] show ?thesis
    by (auto simp: ex_recorder_state_def new_feed_state_def ex_meta_def capture_open_def Let_def float_or_def window_seconds_for_slug_def k)
qed

end
