(* ===== verification/Telegram.thy ===== *)
theory Telegram
  imports Json Paper_Driver
begin

text \<open>
  \<open>notifications/telegram.py\<close>: the alert client with its deduplication and circuit breaker, and the
  builders of the alerts; \<open>bots/telegram/watcher.py\<close>: the heartbeat watcher, the control loop and the
  schedules. A send is two atomic steps, as the event loop runs it: \<open>tg_admit\<close> decides and
  \<open>tg_delivered\<close> books the answer of the bot API.
\<close>

section \<open>The alert client\<close>

definition DEDUPE_SECONDS :: real where
  "DEDUPE_SECONDS = 60"

definition CIRCUIT_BREAKER_WINDOW_S :: real where
  "CIRCUIT_BREAKER_WINDOW_S = 60"

definition CIRCUIT_BREAKER_MAX :: nat where
  "CIRCUIT_BREAKER_MAX = 20"

definition CIRCUIT_BREAKER_COOLDOWN_S :: real where
  "CIRCUIT_BREAKER_COOLDOWN_S = 15 * 60"

datatype severity = INFO | WARN | CRIT

fun severity_value :: "severity \<Rightarrow> string" where
  "severity_value INFO = ''INFO''"
| "severity_value WARN = ''WARN''"
| "severity_value CRIT = ''CRIT''"

record alert_event =
  ae_kind :: string
  ae_text :: fstring
  ae_severity :: severity

record tg_client =
  tg_token :: string
  tg_chat_id :: string
  tg_last_seen :: "(string, real) dict"
  tg_sent_window :: "real list"
  tg_suppressed_until :: real

definition new_tg_client :: "string \<Rightarrow> string \<Rightarrow> tg_client" where
  "new_tg_client token chat_id =
     \<lparr>tg_token = token, tg_chat_id = chat_id, tg_last_seen = [], tg_sent_window = [], tg_suppressed_until = 0\<rparr>"

definition tg_enabled :: "tg_client \<Rightarrow> bool" where
  "tg_enabled c \<longleftrightarrow> tg_token c \<noteq> [] \<and> tg_chat_id c \<noteq> []"

definition circuit_open :: "real \<Rightarrow> tg_client \<Rightarrow> bool \<times> tg_client" where
  "circuit_open now c =
     (if now < tg_suppressed_until c then (True, c)
      else (let cutoff = now - CIRCUIT_BREAKER_WINDOW_S;
                c1 = c\<lparr>tg_sent_window := filter (\<lambda>t. t > cutoff) (tg_sent_window c)\<rparr>
            in if length (tg_sent_window c1) \<ge> CIRCUIT_BREAKER_MAX
               then (True, c1\<lparr>tg_suppressed_until := now + CIRCUIT_BREAKER_COOLDOWN_S\<rparr>)
               else (False, c1)))"

definition dedupe :: "real \<Rightarrow> string \<Rightarrow> tg_client \<Rightarrow> bool \<times> tg_client" where
  "dedupe now kind c =
     (let last_ts = dict_getd (tg_last_seen c) kind 0
      in if now - last_ts < DEDUPE_SECONDS then (True, c)
         else (False, c\<lparr>tg_last_seen := AList.update kind now (tg_last_seen c)\<rparr>))"

datatype send_outcome = LoggedOnly | DedupeDrop | Suppressed | Post fstring

text \<open>The part of \<open>send\<close> before the request, and what the answer changes. \<open>None\<close> is a request that
  raised.\<close>

definition tg_admit :: "real \<Rightarrow> alert_event \<Rightarrow> tg_client \<Rightarrow> send_outcome \<times> tg_client" where
  "tg_admit now ev c =
     (if \<not> tg_enabled c then (LoggedOnly, c)
      else (case dedupe now (ae_kind ev) c of
          (True, c1) \<Rightarrow> (DedupeDrop, c1)
        | (False, c1) \<Rightarrow>
            (case circuit_open now c1 of
               (True, c2) \<Rightarrow> (Suppressed, c2)
             | (False, c2) \<Rightarrow> (Post ([FTxt ''['', FStr (severity_value (ae_severity ev)), FTxt ''] ''] @ ae_text ev), c2))))"

definition tg_delivered :: "real \<Rightarrow> int option \<Rightarrow> tg_client \<Rightarrow> tg_client" where
  "tg_delivered now status c = (if status = Some 200 then c\<lparr>tg_sent_window := tg_sent_window c @ [now]\<rparr> else c)"

record tg_call =
  tcl_now :: real
  tcl_event :: alert_event
  tcl_sent_at :: real
  tcl_status :: "int option"

definition tg_send :: "tg_call \<Rightarrow> tg_client \<Rightarrow> send_outcome \<times> tg_client" where
  "tg_send call c =
     (case tg_admit (tcl_now call) (tcl_event call) c of
        (Post body, c1) \<Rightarrow> (Post body, tg_delivered (tcl_sent_at call) (tcl_status call) c1)
      | (r, c1) \<Rightarrow> (r, c1))"

section \<open>The alerts\<close>

definition trade_open :: "string \<Rightarrow> string \<Rightarrow> real \<Rightarrow> real \<Rightarrow> alert_event" where
  "trade_open slug sd price stake_usd =
     \<lparr>ae_kind = ''TRADE_OPEN'',
      ae_text = [FUni 128200, FTxt '' entry '', FStr sd, FTxt '' '', FStr slug, FTxt '' @'', FNum 4 price,
        FTxt '' stake=$'', FNum 0 stake_usd],
      ae_severity = INFO\<rparr>"

definition trade_close :: "string \<Rightarrow> real \<Rightarrow> string \<Rightarrow> alert_event" where
  "trade_close res pnl slug =
     \<lparr>ae_kind = ''TRADE_CLOSE'',
      ae_text = (if res = ''win'' then [FUni 9989, FTxt '' win''] else [FUni 10060, FTxt '' loss'']) @ [FTxt '' '',
        FSigned 2 pnl, FTxt '' USD ('', FStr slug, FTxt '')''],
      ae_severity = INFO\<rparr>"

definition loss_threshold :: "real \<Rightarrow> real \<Rightarrow> alert_event" where
  "loss_threshold daily_pnl pct =
     \<lparr>ae_kind = ''LOSS_THRESHOLD'',
      ae_text = [FUni 128993, FTxt '' daily loss $'', FSigned 2 daily_pnl, FTxt '' ('', FSigned 2 (pct * 100), FTxt ''%)''],
      ae_severity = WARN\<rparr>"

definition engine_stopped :: "string \<Rightarrow> string \<Rightarrow> alert_event" where
  "engine_stopped task reason =
     \<lparr>ae_kind = ''ENGINE_STOPPED'',
      ae_text = [FUni 128308, FTxt '' engine stopped, task='', FStr task, FTxt '' reason='', FStr reason],
      ae_severity = CRIT\<rparr>"

definition heartbeat_lost :: "int \<Rightarrow> alert_event" where
  "heartbeat_lost age_s =
     \<lparr>ae_kind = ''HEARTBEAT_LOST'',
      ae_text = [FUni 128308, FTxt '' heartbeat lost, last seen '', FInt age_s, FTxt ''s ago''],
      ae_severity = CRIT\<rparr>"

definition heartbeat_recovered :: alert_event where
  "heartbeat_recovered =
     \<lparr>ae_kind = ''HEARTBEAT_RECOVERED'', ae_text = [FUni 128994, FTxt '' heartbeat recovered''], ae_severity = INFO\<rparr>"

definition kill_switch_on :: "string \<Rightarrow> alert_event" where
  "kill_switch_on at_iso =
     \<lparr>ae_kind = ''KILL_SWITCH_ON'', ae_text = [FUni 9940, FTxt '' KILL_SWITCH active at '', FStr at_iso], ae_severity = CRIT\<rparr>"

definition kill_switch_off :: "string \<Rightarrow> alert_event" where
  "kill_switch_off at_iso =
     \<lparr>ae_kind = ''KILL_SWITCH_OFF'', ae_text = [FUni 9989, FTxt '' KILL_SWITCH removed at '', FStr at_iso], ae_severity = WARN\<rparr>"

definition reconciliation_fail :: "fstring \<Rightarrow> alert_event" where
  "reconciliation_fail detail =
     \<lparr>ae_kind = ''RECONCILIATION_FAIL'',
      ae_text = [FUni 128308, FTxt '' reconciliation failed '', FUni 8212, FTxt '' ''] @ detail,
      ae_severity = CRIT\<rparr>"

text \<open>The alert each message of the paper driver builds; \<open>at_iso\<close> is the rendered wall clock.\<close>

fun alert_of :: "string \<Rightarrow> tg_message \<Rightarrow> alert_event" where
  "alert_of at_iso (TradeOpen slug sd price stake) = trade_open slug sd price stake"
| "alert_of at_iso (TradeClose res pnl slug) = trade_close res pnl slug"
| "alert_of at_iso (LossThreshold pnl pct) = loss_threshold pnl pct"
| "alert_of at_iso KillSwitchOn = kill_switch_on at_iso"
| "alert_of at_iso KillSwitchOff = kill_switch_off at_iso"
| "alert_of at_iso (ReconciliationFail detail) = reconciliation_fail detail"

section \<open>The watcher\<close>

definition LOST_THRESHOLD_S :: real where
  "LOST_THRESHOLD_S = 60"

record watcher_settings =
  ws_pnl_alert_threshold :: real
  ws_stale_trade_minutes :: int

record watcher =
  wa_settings :: watcher_settings
  wa_outbox :: "alert_event list"
  wa_last_state_lost :: bool
  wa_engine_alert_active :: bool
  wa_killswitch_alert_active :: bool
  wa_stale_trades_alert_active :: bool
  wa_pnl_alert_day :: "int option"

definition new_watcher :: "watcher_settings \<Rightarrow> watcher" where
  "new_watcher s = \<lparr>wa_settings = s, wa_outbox = [], wa_last_state_lost = False, wa_engine_alert_active = False,
     wa_killswitch_alert_active = False, wa_stale_trades_alert_active = False, wa_pnl_alert_day = None\<rparr>"

definition wa_send :: "alert_event \<Rightarrow> watcher \<Rightarrow> watcher" where
  "wa_send ev w = w\<lparr>wa_outbox := wa_outbox w @ [ev]\<rparr>"

text \<open>The age of the last beat: \<open>None\<close> when the key has expired.\<close>

definition heartbeat_is_lost :: "real option \<Rightarrow> bool" where
  "heartbeat_is_lost age = (case age of None \<Rightarrow> True | Some a \<Rightarrow> a > LOST_THRESHOLD_S)"

definition heartbeat_observe :: "real option \<Rightarrow> watcher \<Rightarrow> watcher" where
  "heartbeat_observe age w =
     (let lost = heartbeat_is_lost age;
          shown = (case age of Some a \<Rightarrow> if a = 0 then 9999 else py_int a | None \<Rightarrow> 9999);
          w1 = (if lost \<and> \<not> wa_last_state_lost w then wa_send (heartbeat_lost shown) w
                else if \<not> lost \<and> wa_last_state_lost w then wa_send heartbeat_recovered w
                else w)
      in w1\<lparr>wa_last_state_lost := lost\<rparr>)"

text \<open>One poll: the value of the key, \<open>None\<close> when absent. A payload that cannot be read is logged.\<close>

definition beat_age :: "text_env \<Rightarrow> real \<Rightarrow> string option \<Rightarrow> py_error + real option" where
  "beat_age te now raw =
     (case raw of
        None \<Rightarrow> Inr None
      | Some r \<Rightarrow>
          (case te_loads te r of
             None \<Rightarrow> Inl (ValueError ''json'')
           | Some data \<Rightarrow> bind_r (bind_r (js_getd ''ts'' (JsInt 0) data) (py_float te)) (\<lambda>ts. Inr (Some (now - ts)))))"

definition heartbeat_poll :: "text_env \<Rightarrow> real \<Rightarrow> string option \<Rightarrow> watcher \<Rightarrow> watcher" where
  "heartbeat_poll te now raw w = (case beat_age te now raw of Inl _ \<Rightarrow> w | Inr age \<Rightarrow> heartbeat_observe age w)"

text \<open>The control loop. The three requests return a decoded object or raise; an exception leaves what was
  done before it. \<open>fromiso\<close> of the environment is \<open>datetime.fromisoformat\<close>: \<open>None\<close> when it raises,
  \<open>Some None\<close> for a time without zone, whose subtraction raises.\<close>

definition control_alert :: "string \<Rightarrow> fstring \<Rightarrow> severity \<Rightarrow> alert_event" where
  "control_alert kind txt sev = \<lparr>ae_kind = kind, ae_text = txt, ae_severity = sev\<rparr>"

definition engine_observe :: "bool \<Rightarrow> watcher \<Rightarrow> watcher" where
  "engine_observe down w =
     (let w1 = (if down \<and> \<not> wa_engine_alert_active w
                then wa_send (control_alert ''CONTROL_ENGINE_DOWN'' (ftext ''control loop detected engine down via /health'') CRIT) w else w)
      in w1\<lparr>wa_engine_alert_active := down\<rparr>)"

definition killswitch_observe :: "bool \<Rightarrow> watcher \<Rightarrow> watcher" where
  "killswitch_observe on w =
     (let w1 = (if on \<and> \<not> wa_killswitch_alert_active w
                then wa_send (control_alert ''CONTROL_KILL_SWITCH_ON'' (ftext ''control loop detected KILL_SWITCH active'') CRIT) w else w)
      in w1\<lparr>wa_killswitch_alert_active := on\<rparr>)"

definition stale_observe :: "bool \<Rightarrow> watcher \<Rightarrow> watcher" where
  "stale_observe stale w =
     (let w1 = (if stale \<and> \<not> wa_stale_trades_alert_active w
                then wa_send (control_alert ''CONTROL_STALE_TRADES''
                  [FTxt ''recent trade feed looks stale based on /trades/recent (threshold '',
                   FInt (ws_stale_trade_minutes (wa_settings w)), FTxt '' min)''] WARN) w else w)
      in w1\<lparr>wa_stale_trades_alert_active := stale\<rparr>)"

definition pnl_observe :: "text_env \<Rightarrow> int \<Rightarrow> json \<Rightarrow> watcher \<Rightarrow> py_error option \<times> watcher" where
  "pnl_observe te today pnl =
     eval_r (bind_r (js_get ''pnl'' pnl) (\<lambda>v. py_float te (js_or v (JsNum 0)))) (\<lambda>x w.
       if x \<le> ws_pnl_alert_threshold (wa_settings w) \<and> wa_pnl_alert_day w \<noteq> Some today
       then eval_r (bind_r (js_get ''n_trades'' pnl) (\<lambda>v. js_int (js_or v (JsInt 0)))) (\<lambda>n w. (None,
              wa_send (control_alert ''CONTROL_PNL_ALERT'' [FTxt ''daily pnl anomaly detected: $'', FGrouped 2 x, FTxt '' across '', FInt n,
                FTxt '' trades''] WARN) w))
            (w\<lparr>wa_pnl_alert_day := Some today\<rparr>)
       else (None, w))"

definition trade_is_stale :: "(string \<Rightarrow> int option option) \<Rightarrow> int \<Rightarrow> int \<Rightarrow> json \<Rightarrow> py_error + bool" where
  "trade_is_stale fromiso mins now trade =
     (if \<not> truthy trade then Inr True
      else bind_r (js_get_or ''ts_submit'' ''ts'' trade) (\<lambda>ts_raw.
        (case ts_raw of
           JsStr s \<Rightarrow>
             if s = [] then Inr True
             else (case fromiso s of
               None \<Rightarrow> Inr True
             | Some None \<Rightarrow> Inl TypeError
             | Some (Some ts) \<Rightarrow> Inr (now - ts > mins * 60 * 1000000))
         | _ \<Rightarrow> Inr True)))"

definition observe_once ::
  "text_env \<Rightarrow> (string \<Rightarrow> int option option) \<Rightarrow> datetime \<Rightarrow> py_error + json \<Rightarrow> py_error + json \<Rightarrow> py_error + json \<Rightarrow>
   watcher \<Rightarrow> py_error option \<times> watcher" where
  "observe_once te fromiso now status pnl trades =
     eval_r (bind_r status (\<lambda>s. bind_r (js_get ''engine_up'' s) (\<lambda>u. bind_r (js_get ''kill_switch_active'' s) (\<lambda>k.
         Inr (\<not> truthy u, truthy k))))) (\<lambda>(down, on) w.
       let w1 = killswitch_observe on (engine_observe down w)
       in (case eval_r pnl (pnl_observe te (now div 86400000000)) w1 of
             (Some e, w2) \<Rightarrow> (Some e, w2)
           | (None, w2) \<Rightarrow>
               eval_r (bind_r trades (\<lambda>t. bind_r (js_get ''trades'' t) (\<lambda>ts. bind_r (js_index (js_or ts (JsArr [JsNull])) 0)
                   (trade_is_stale fromiso (ws_stale_trade_minutes (wa_settings w2)) now))))
                 (\<lambda>stale w. (None, stale_observe stale w)) w2))"

section \<open>Schedules\<close>

definition hour_of :: "datetime \<Rightarrow> int" where
  "hour_of now = now mod 86400000000 div 3600000000"

definition minute_of :: "datetime \<Rightarrow> int" where
  "minute_of now = now mod 3600000000 div 60000000"

definition day_of :: "datetime \<Rightarrow> int" where
  "day_of now = now div 86400000000"

text \<open>Monday is 0, and the ISO week is counted from the Monday before the epoch.\<close>

definition weekday_of :: "datetime \<Rightarrow> int" where
  "weekday_of now = (day_of now + 3) mod 7"

definition iso_week_of :: "datetime \<Rightarrow> int" where
  "iso_week_of now = (day_of now + 3) div 7"

definition daily_report_step :: "datetime \<Rightarrow> int option \<times> datetime list \<Rightarrow> int option \<times> datetime list" where
  "daily_report_step now st =
     (if hour_of now = 0 \<and> minute_of now \<ge> 5 \<and> fst st \<noteq> Some (day_of now)
      then (Some (day_of now), snd st @ [now]) else st)"

definition WF_STRATEGIES :: "string list" where
  "WF_STRATEGIES = [''hmm_regime_btc5m'', ''last_90s_forecaster_v3'', ''trend_confirm_t1_v1'']"

text \<open>The launches of a Sunday: strategy, first and last day of the evaluated range.\<close>

definition walk_forward_sunday_step ::
  "datetime \<Rightarrow> int option \<times> (datetime \<times> (string \<times> int \<times> int) list) list \<Rightarrow> int option \<times> (datetime \<times> (string \<times> int \<times> int) list) list" where
  "walk_forward_sunday_step now st =
     (if weekday_of now = 6 \<and> hour_of now = 2 \<and> fst st \<noteq> Some (iso_week_of now)
      then (Some (iso_week_of now), snd st @ [(now, map (\<lambda>s. (s, day_of now - 30, day_of now)) WF_STRATEGIES)]) else st)"

section \<open>Alerts are spaced\<close>

definition posts_of :: "(tg_call \<times> send_outcome) list \<Rightarrow> tg_call list" where
  "posts_of hist = map fst (filter (\<lambda>(c, r). case r of Post _ \<Rightarrow> True | _ \<Rightarrow> False) hist)"

text \<open>A run of sends with its outcomes.\<close>

fun tg_run :: "tg_call list \<Rightarrow> tg_client \<Rightarrow> (tg_call \<times> send_outcome) list \<times> tg_client" where
  "tg_run [] c = ([], c)"
| "tg_run (x # xs) c = (let (r, c1) = tg_send x c; (h, c2) = tg_run xs c1 in ((x, r) # h, c2))"

abbreviation call_kind :: "tg_call \<Rightarrow> string" where
  "call_kind x \<equiv> ae_kind (tcl_event x)"

lemma tg_send_post:
  assumes "tg_send x c = (Post body, c')"
  shows "dict_getd (tg_last_seen c) (call_kind x) 0 + 60 \<le> tcl_now x" and "tg_suppressed_until c \<le> tcl_now x"
    and "length (filter (\<lambda>t. tcl_now x - 60 < t) (tg_sent_window c)) < 20"
    and "c' = c\<lparr>tg_last_seen := AList.update (call_kind x) (tcl_now x) (tg_last_seen c),
      tg_sent_window := filter (\<lambda>t. tcl_now x - 60 < t) (tg_sent_window c) @ (if tcl_status x = Some 200 then [tcl_sent_at x] else [])\<rparr>"
  using assms
  by (auto simp: tg_send_def tg_admit_def dedupe_def circuit_open_def tg_delivered_def Let_def DEDUPE_SECONDS_def
      CIRCUIT_BREAKER_WINDOW_S_def CIRCUIT_BREAKER_MAX_def split: if_splits)

lemma tg_send_no_post:
  assumes "tg_send x c = (r, c')" "\<And>body. r \<noteq> Post body"
  shows "tg_sent_window c' = tg_sent_window c \<or> tg_sent_window c' = filter (\<lambda>t. tcl_now x - 60 < t) (tg_sent_window c)"
  using assms
  by (auto simp: tg_send_def tg_admit_def dedupe_def circuit_open_def Let_def CIRCUIT_BREAKER_WINDOW_S_def split: if_splits)

lemma tg_send_monotone:
  "dict_getd (tg_last_seen c) k 0 \<le> dict_getd (tg_last_seen (snd (tg_send x c))) k 0"
  "tg_suppressed_until c \<le> tg_suppressed_until (snd (tg_send x c))"
  by (auto simp: tg_send_def tg_admit_def dedupe_def circuit_open_def tg_delivered_def Let_def DEDUPE_SECONDS_def
      CIRCUIT_BREAKER_COOLDOWN_S_def split: send_outcome.splits)

lemma tg_run_Cons: "fst (tg_run (x # xs) c) = (x, fst (tg_send x c)) # fst (tg_run xs (snd (tg_send x c)))"
  by (simp add: case_prod_beta Let_def)

lemma posts_of_Cons:
  "posts_of ((x, r) # h) = (if \<exists>b. r = Post b then [x] else []) @ posts_of h"
  by (auto simp: posts_of_def split: send_outcome.splits)

lemma posts_bounds:
  "p \<in> set (posts_of (fst (tg_run xs c))) \<Longrightarrow>
   dict_getd (tg_last_seen c) (call_kind p) 0 + 60 \<le> tcl_now p \<and> tg_suppressed_until c \<le> tcl_now p"
proof (induction xs arbitrary: c)
  case (Cons x xs)
  note mono = tg_send_monotone(1) [of c "call_kind p" x] tg_send_monotone(2) [of c x]
  show ?case
  proof (cases "p \<in> set (posts_of (fst (tg_run xs (snd (tg_send x c)))))")
    case True
    with Cons.IH [OF True] mono show ?thesis by linarith
  next
    case False
    then obtain b where "p = x" "fst (tg_send x c) = Post b"
      using Cons.prems by (auto simp: tg_run_Cons posts_of_Cons simp del: tg_run.simps split: if_splits)
    with tg_send_post(1,2) [of x c b "snd (tg_send x c)"] show ?thesis by (cases "tg_send x c") simp
  qed
qed (simp add: posts_of_def)

lemma posts_spaced:
  "sorted_wrt (\<lambda>a b. call_kind a = call_kind b \<longrightarrow> tcl_now a + 60 \<le> tcl_now b) (posts_of (fst (tg_run xs c)))"
proof (induction xs arbitrary: c)
  case (Cons x xs)
  obtain r c1 where r: "tg_send x c = (r, c1)" by fastforce
  show ?case
  proof (cases "\<exists>b. r = Post b")
    case True
    then have "dict_getd (tg_last_seen c1) (call_kind x) 0 = tcl_now x" using tg_send_post(4) r by fastforce
    with posts_bounds [of _ xs c1] Cons.IH [of c1] r True show ?thesis
      by (fastforce simp: tg_run_Cons posts_of_Cons simp del: tg_run.simps)
  next
    case False
    with Cons.IH [of c1] r show ?thesis by (simp add: tg_run_Cons posts_of_Cons del: tg_run.simps)
  qed
qed (simp add: posts_of_def)

section \<open>The circuit breaker\<close>

text \<open>Sends that do not overlap: each decision comes after the previous answer.\<close>

fun in_order :: "real \<Rightarrow> tg_call list \<Rightarrow> bool" where
  "in_order T [] \<longleftrightarrow> True"
| "in_order T (x # xs) \<longleftrightarrow> T \<le> tcl_now x \<and> tcl_now x \<le> tcl_sent_at x \<and> in_order (tcl_sent_at x) xs"

definition delivered :: "(tg_call \<times> send_outcome) list \<Rightarrow> real list" where
  "delivered hist = map tcl_sent_at (filter (\<lambda>x. tcl_status x = Some 200) (posts_of hist))"

definition per_minute :: "real \<Rightarrow> real list \<Rightarrow> nat" where
  "per_minute t D = length (filter (\<lambda>s. t - 60 < s \<and> s \<le> t) D)"

definition breaker_inv :: "real \<Rightarrow> real list \<Rightarrow> tg_client \<Rightarrow> bool" where
  "breaker_inv T D c \<longleftrightarrow> (\<forall>t. per_minute t D \<le> 20) \<and>
     (\<exists>lo \<le> T - 60. tg_sent_window c = filter (\<lambda>t. lo < t) D)"

lemma filter_cut: "lo \<le> lo' \<Longrightarrow> filter (\<lambda>t. lo' < t) (filter (\<lambda>t. lo < t) D) = filter (\<lambda>t. lo' < (t :: real)) D"
  by (auto intro: filter_cong)

lemma breaker_step:
  assumes "breaker_inv T D c" "T \<le> tcl_now x" "tcl_now x \<le> tcl_sent_at x" "tg_send x c = (r, c')"
  shows "breaker_inv (tcl_sent_at x) (D @ delivered [(x, r)]) c'"
proof -
  let ?n = "tcl_now x - 60"
  from assms(1) obtain lo where lo: "lo \<le> T - 60" "tg_sent_window c = filter (\<lambda>t. lo < t) D"
    by (auto simp: breaker_inv_def)
  have w: "filter (\<lambda>t. ?n < t) (tg_sent_window c) = filter (\<lambda>t. ?n < t) D"
    unfolding lo(2) by (rule filter_cut) (use lo(1) assms(2) in linarith)
  show ?thesis
  proof (cases "\<exists>b. r = Post b")
    case True
    then obtain b where "tg_send x c = (Post b, c')" using assms(4) by auto
    note post = tg_send_post [OF this]
    have few: "length (filter (\<lambda>t. ?n < t) D) < 20" using post(3) w by simp
    have "per_minute t (D @ [tcl_sent_at x]) \<le> 20" for t
    proof (cases "t - 60 < tcl_sent_at x \<and> tcl_sent_at x \<le> t")
      case True
      have "length (filter (\<lambda>s. t - 60 < s \<and> s \<le> t) D) \<le> length (filter (\<lambda>s. ?n < s) (filter (\<lambda>s. t - 60 < s \<and> s \<le> t) D))"
        using True assms(3) by (intro eq_imp_le arg_cong [of _ _ length]) (auto intro: filter_cong)
      also have "\<dots> = length (filter (\<lambda>s. t - 60 < s \<and> s \<le> t) (filter (\<lambda>s. ?n < s) D))"
        by (simp add: conj_commute)
      also have "\<dots> \<le> length (filter (\<lambda>s. ?n < s) D)" by (rule length_filter_le)
      finally show ?thesis using few True by (simp add: per_minute_def)
    next
      case False
      with assms(1) show ?thesis by (auto simp: breaker_inv_def per_minute_def)
    qed
    moreover have "filter (\<lambda>t. ?n < t) D @ [tcl_sent_at x] = filter (\<lambda>t. ?n < t) (D @ [tcl_sent_at x])"
      using assms(3) by simp
    ultimately show ?thesis
      using assms(1,3) post(4) w True
      by (auto simp: breaker_inv_def delivered_def posts_of_def intro!: exI [of _ ?n])
  next
    case False
    then have d: "delivered [(x, r)] = []" by (auto simp: delivered_def posts_of_def split: send_outcome.splits)
    have "tg_sent_window c' = filter (\<lambda>t. lo < t) D \<or> tg_sent_window c' = filter (\<lambda>t. ?n < t) D"
      using tg_send_no_post [OF assms(4)] False w lo(2) by auto
    moreover have "lo \<le> tcl_sent_at x - 60" "?n \<le> tcl_sent_at x - 60" using assms(2,3) lo(1) by linarith+
    ultimately have "\<exists>l \<le> tcl_sent_at x - 60. tg_sent_window c' = filter (\<lambda>t. l < t) D" by blast
    with assms(1) d show ?thesis by (simp add: breaker_inv_def)
  qed
qed

lemma delivered_Cons: "delivered ((x, r) # h) = delivered [(x, r)] @ delivered h"
  by (auto simp: delivered_def posts_of_def split: send_outcome.splits)

lemma breaker_run:
  "breaker_inv T D c \<Longrightarrow> in_order T xs \<Longrightarrow> \<exists>T'. breaker_inv T' (D @ delivered (fst (tg_run xs c))) (snd (tg_run xs c))"
proof (induction xs arbitrary: T D c)
  case Nil
  then show ?case by (auto simp: delivered_def posts_of_def)
next
  case (Cons x xs)
  obtain r c' where r: "tg_send x c = (r, c')" by fastforce
  from Cons.prems r have "breaker_inv (tcl_sent_at x) (D @ delivered [(x, r)]) c'" by (intro breaker_step) auto
  moreover have "fst (tg_run (x # xs) c) = (x, r) # fst (tg_run xs c')" using r tg_run_Cons [of x xs c] by simp
  moreover have "snd (tg_run (x # xs) c) = snd (tg_run xs c')" using r by (simp add: case_prod_beta Let_def)
  ultimately show ?case
    using Cons.IH [of "tcl_sent_at x" "D @ delivered [(x, r)]" c'] Cons.prems(2) delivered_Cons [of x r "fst (tg_run xs c')"]
    by (simp del: tg_run.simps)
qed

text \<open>The alert client limits what it posts. Whatever is sent and whatever the bot API answers, two posts of
  the same kind are at least a minute apart, and nothing is posted before the end of a suppression. When
  sends do not overlap, at most twenty messages are delivered in any minute.\<close>

theorem alerts_are_limited:
  assumes "in_order T calls" and "hist = fst (tg_run calls (new_tg_client token chat_id))"
  shows "sorted_wrt (\<lambda>a b. ae_kind (tcl_event a) = ae_kind (tcl_event b) \<longrightarrow> tcl_now a + 60 \<le> tcl_now b) (posts_of hist) \<and>
    per_minute t (delivered hist) \<le> 20 \<and>
    list_all (\<lambda>p. tg_suppressed_until c \<le> tcl_now p) (posts_of (fst (tg_run later c)))"
proof -
  have "breaker_inv T [] (new_tg_client token chat_id)"
    by (auto simp: breaker_inv_def per_minute_def new_tg_client_def)
  from breaker_run [OF this assms(1)] have "per_minute t (delivered hist) \<le> 20"
    by (auto simp: breaker_inv_def assms(2))
  with posts_spaced [of calls] posts_bounds [of _ later c] show ?thesis by (auto simp: assms(2) list_all_iff)
qed

definition ex_call :: "real \<Rightarrow> tg_call" where
  "ex_call now = \<lparr>tcl_now = now, tcl_event = heartbeat_recovered, tcl_sent_at = now + 1, tcl_status = Some 200\<rparr>"

theorem alerts_are_limited_witness:
  "map tcl_now (posts_of (fst (tg_run [ex_call 100, ex_call 130, ex_call 170] (new_tg_client ''t'' ''c'')))) = [100, 170] \<and>
   per_minute 171 (delivered (fst (tg_run [ex_call 100, ex_call 130, ex_call 170] (new_tg_client ''t'' ''c'')))) \<le> 20"
proof -
  have "in_order 0 [ex_call 100, ex_call 130, ex_call 170]" by (simp add: ex_call_def)
  moreover have "map tcl_now (posts_of (fst (tg_run [ex_call 100, ex_call 130, ex_call 170] (new_tg_client ''t'' ''c'')))) = [100, 170]"
    by (simp add: ex_call_def heartbeat_recovered_def new_tg_client_def tg_send_def tg_admit_def tg_enabled_def dedupe_def circuit_open_def
        DEDUPE_SECONDS_def CIRCUIT_BREAKER_MAX_def CIRCUIT_BREAKER_WINDOW_S_def tg_delivered_def posts_of_def dict_getd_def Let_def)
  ultimately show ?thesis using alerts_are_limited [OF _ refl] by blast
qed

section \<open>The watcher alerts on changes\<close>

lemmas observe_defs = heartbeat_observe_def engine_observe_def killswitch_observe_def stale_observe_def wa_send_def control_alert_def

interpretation beat_alert: edge_alert heartbeat_observe heartbeat_is_lost wa_last_state_lost "\<lambda>w. map ae_kind (wa_outbox w)"
  "[''HEARTBEAT_LOST'']" "[''HEARTBEAT_RECOVERED'']"
  by unfold_locales (auto simp: observe_defs heartbeat_lost_def heartbeat_recovered_def Let_def)

text \<open>A pass of the control loop whose status request succeeds; the other two requests may raise.\<close>

record control_input =
  ci_now :: datetime
  ci_status :: "(string \<times> json) list"
  ci_pnl :: "py_error + json"
  ci_trades :: "py_error + json"

definition control_pass :: "text_env \<Rightarrow> (string \<Rightarrow> int option option) \<Rightarrow> control_input \<Rightarrow> watcher \<Rightarrow> watcher" where
  "control_pass te fromiso i w = snd (observe_once te fromiso (ci_now i) (Inr (JsObj (ci_status i))) (ci_pnl i) (ci_trades i) w)"

definition status_down :: "control_input \<Rightarrow> bool" where
  "status_down i \<longleftrightarrow> \<not> truthy (dict_getd (ci_status i) ''engine_up'' JsNull)"

definition status_killed :: "control_input \<Rightarrow> bool" where
  "status_killed i \<longleftrightarrow> truthy (dict_getd (ci_status i) ''kill_switch_active'' JsNull)"

definition kinds :: "string \<Rightarrow> watcher \<Rightarrow> string list" where
  "kinds k w = filter (\<lambda>x. x = k) (map ae_kind (wa_outbox w))"

lemma pnl_observe_frame:
  "wa_engine_alert_active (snd (pnl_observe te day j w)) = wa_engine_alert_active w \<and>
   wa_killswitch_alert_active (snd (pnl_observe te day j w)) = wa_killswitch_alert_active w \<and>
   (k \<noteq> ''CONTROL_PNL_ALERT'' \<longrightarrow> kinds k (snd (pnl_observe te day j w)) = kinds k w)"
  by (auto simp: pnl_observe_def eval_r_def wa_send_def control_alert_def kinds_def split: sum.split)

lemma stale_observe_frame:
  "wa_engine_alert_active (stale_observe b w) = wa_engine_alert_active w"
  "wa_killswitch_alert_active (stale_observe b w) = wa_killswitch_alert_active w"
  "wa_pnl_alert_day (stale_observe b w) = wa_pnl_alert_day w"
  "k \<noteq> ''CONTROL_STALE_TRADES'' \<Longrightarrow> kinds k (stale_observe b w) = kinds k w"
  by (auto simp: observe_defs Let_def kinds_def)

lemma control_pass_frame:
  fixes w i
  defines "w1 \<equiv> killswitch_observe (status_killed i) (engine_observe (status_down i) w)"
  shows "wa_engine_alert_active (control_pass te fromiso i w) = wa_engine_alert_active w1 \<and>
   wa_killswitch_alert_active (control_pass te fromiso i w) = wa_killswitch_alert_active w1 \<and>
   (k \<in> {''CONTROL_ENGINE_DOWN'', ''CONTROL_KILL_SWITCH_ON''} \<longrightarrow> kinds k (control_pass te fromiso i w) = kinds k w1)"
proof -
  have p: "wa_engine_alert_active (snd (eval_r (ci_pnl i) (pnl_observe te d) w1)) = wa_engine_alert_active w1 \<and>
    wa_killswitch_alert_active (snd (eval_r (ci_pnl i) (pnl_observe te d) w1)) = wa_killswitch_alert_active w1 \<and>
    (k \<in> {''CONTROL_ENGINE_DOWN'', ''CONTROL_KILL_SWITCH_ON''} \<longrightarrow> kinds k (snd (eval_r (ci_pnl i) (pnl_observe te d) w1)) = kinds k w1)" for d
    using pnl_observe_frame [of te d _ w1 k] by (cases "ci_pnl i") auto
  obtain e w2 where w2: "eval_r (ci_pnl i) (pnl_observe te (ci_now i div 86400000000)) w1 = (e, w2)" by fastforce
  have "control_pass te fromiso i w = w2 \<or> (\<exists>b. control_pass te fromiso i w = stale_observe b w2)"
    unfolding control_pass_def observe_once_def
    by (simp add: status_down_def [symmetric] status_killed_def [symmetric] w1_def [symmetric] w2)
      (auto simp: eval_r_def split: option.split sum.split)
  then show ?thesis
    using p [of "ci_now i div 86400000000"] by (auto simp: w2 stale_observe_frame)
qed

interpretation down_alert: edge_alert "control_pass te fromiso" status_down wa_engine_alert_active "kinds ''CONTROL_ENGINE_DOWN''"
  "[''CONTROL_ENGINE_DOWN'']" "[]" for te fromiso
  using control_pass_frame [of te fromiso _ _ "''CONTROL_ENGINE_DOWN''"]
  by unfold_locales (auto simp: observe_defs Let_def kinds_def)

interpretation killed_alert: edge_alert "control_pass te fromiso" status_killed wa_killswitch_alert_active "kinds ''CONTROL_KILL_SWITCH_ON''"
  "[''CONTROL_KILL_SWITCH_ON'']" "[]" for te fromiso
  using control_pass_frame [of te fromiso _ _ "''CONTROL_KILL_SWITCH_ON''"]
  by unfold_locales (auto simp: observe_defs Let_def kinds_def)

text \<open>The watcher alerts on changes only. Over any series of readable heartbeat polls it sends one message
  per loss and one per recovery, and an unreadable payload changes nothing; over any passes of the control loop,
  whatever its later requests do, it announces a stopped engine and a kill switch once per episode.\<close>

theorem watcher_alerts_on_changes:
  "map ae_kind (wa_outbox (fold heartbeat_observe ages w)) =
     map ae_kind (wa_outbox w) @ edge_changes [''HEARTBEAT_LOST''] [''HEARTBEAT_RECOVERED''] (wa_last_state_lost w) (map heartbeat_is_lost ages) \<and>
   heartbeat_poll te now raw w = (case beat_age te now raw of Inl _ \<Rightarrow> w | Inr age \<Rightarrow> fold heartbeat_observe [age] w) \<and>
   kinds ''CONTROL_ENGINE_DOWN'' (fold (control_pass te fromiso) is w) =
     kinds ''CONTROL_ENGINE_DOWN'' w @ edge_changes [''CONTROL_ENGINE_DOWN''] [] (wa_engine_alert_active w) (map status_down is) \<and>
   kinds ''CONTROL_KILL_SWITCH_ON'' (fold (control_pass te fromiso) is w) =
     kinds ''CONTROL_KILL_SWITCH_ON'' w @ edge_changes [''CONTROL_KILL_SWITCH_ON''] [] (wa_killswitch_alert_active w) (map status_killed is)"
  using beat_alert.sent_run [of ages w] down_alert.sent_run [of te fromiso "is" w] killed_alert.sent_run [of te fromiso "is" w]
  by (simp add: heartbeat_poll_def split: sum.split)

section \<open>The schedules\<close>

lemma daily_fired:
  assumes "sorted ts" "fold daily_report_step ts (None, []) = (d, fired)"
  shows "sorted_wrt (\<lambda>a b. day_of a < day_of b) fired \<and>
    list_all (\<lambda>t. hour_of t = 0 \<and> 5 \<le> minute_of t) fired \<and> set fired \<subseteq> set ts \<and>
    d = (if fired = [] then None else Some (day_of (last fired))) \<and>
    list_all (\<lambda>t. hour_of t \<noteq> 0 \<or> minute_of t < 5 \<or> day_of t \<in> day_of ` set fired) ts"
  using assms
proof (induction ts arbitrary: d fired rule: rev_induct)
  case (snoc t ts)
  obtain d0 fired0 where f0: "fold daily_report_step ts (None, []) = (d0, fired0)" by fastforce
  have IH: "sorted_wrt (\<lambda>a b. day_of a < day_of b) fired0" "list_all (\<lambda>t. hour_of t = 0 \<and> 5 \<le> minute_of t) fired0"
    "set fired0 \<subseteq> set ts" "d0 = (if fired0 = [] then None else Some (day_of (last fired0)))"
    "list_all (\<lambda>t. hour_of t \<noteq> 0 \<or> minute_of t < 5 \<or> day_of t \<in> day_of ` set fired0) ts"
    using snoc.IH [OF _ f0] snoc.prems(1) by (auto simp: sorted_append)
  have le: "day_of a \<le> day_of t" if "a \<in> set fired0" for a
  proof -
    have "a \<le> t" using that IH(3) snoc.prems(1) by (auto simp: sorted_append)
    then show ?thesis unfolding day_of_def by (rule zdiv_mono1) simp
  qed
  have lt: "day_of a < day_of t" if "a \<in> set fired0" "d0 \<noteq> Some (day_of t)" for a
  proof -
    have "day_of a \<le> day_of (last fired0)"
      using IH(1) that(1) by (cases fired0 rule: rev_cases) (auto simp: sorted_wrt_append)
    moreover have "fired0 \<noteq> []" using that(1) by auto
    then have "day_of (last fired0) \<noteq> day_of t" "last fired0 \<in> set fired0" using that(2) IH(4) by auto
    ultimately show ?thesis using le [of "last fired0"] by linarith
  qed
  have run: "(d, fired) = daily_report_step t (d0, fired0)" using snoc.prems(2) f0 by simp
  show ?case
  proof (cases "hour_of t = 0 \<and> 5 \<le> minute_of t \<and> d0 \<noteq> Some (day_of t)")
    case True
    then have "d = Some (day_of t)" "fired = fired0 @ [t]" using run by (simp_all add: daily_report_step_def)
    with IH lt True show ?thesis by (auto simp: sorted_wrt_append list_all_iff)
  next
    case False
    then have "d = d0" "fired = fired0" using run by (auto simp: daily_report_step_def)
    moreover have "hour_of t \<noteq> 0 \<or> minute_of t < 5 \<or> day_of t \<in> day_of ` set fired0"
      using False IH(4) by (metis image_eqI last_in_set not_le option.distinct(1) option.inject)
    ultimately show ?thesis using IH by (auto simp: list_all_iff)
  qed
qed simp

text \<open>The daily report runs once per day: over any increasing series of checks it is launched on strictly
  increasing days, only between 00:05 and 01:00 UTC, and on every day with a check in that time.\<close>

theorem daily_report_once_per_day:
  assumes "sorted ts"
  shows "sorted_wrt (\<lambda>a b. day_of a < day_of b) (snd (fold daily_report_step ts (None, []))) \<and>
    list_all (\<lambda>t. hour_of t = 0 \<and> 5 \<le> minute_of t) (snd (fold daily_report_step ts (None, []))) \<and>
    day_of ` set (snd (fold daily_report_step ts (None, []))) = day_of ` set (filter (\<lambda>t. hour_of t = 0 \<and> 5 \<le> minute_of t) ts)"
proof -
  obtain d fired where f: "fold daily_report_step ts (None, []) = (d, fired)" by fastforce
  from daily_fired [OF assms f] f show ?thesis by (auto simp: list_all_iff subset_iff)
qed

theorem daily_report_once_per_day_witness:
  "day_of ` set (snd (fold daily_report_step [300000000, 360000000] (None, []))) = {0}"
  using daily_report_once_per_day [of "[300000000, 360000000]"] by (simp add: day_of_def hour_of_def minute_of_def)

end
