(* ===== verification/Bot_Commands.thy ===== *)
theory Bot_Commands
  imports Json
begin

text \<open>
  \<open>bots/telegram/commands.py\<close> with the request layer of \<open>bots/telegram/api_client.py\<close>: the command
  poller of the Telegram bot. Its state is the set of authorized users, the update offset, the pending
  kill switch confirmations, the chat sessions kept in Redis and the list of everything it has sent.
  A handler that raises keeps what it has done; the poller logs the exception. Texts are strings of
  code points below 256 with other code points as separate pieces; updates are decoded messages with
  the field types of the Bot API. \<open>api\<close> answers a request with a status and a decoded body (a text body
  is a string) or raises.
\<close>

section \<open>Text functions\<close>

definition py_lower_char :: "char \<Rightarrow> char" where
  "py_lower_char c =
     (let k = (of_char c :: nat)
      in if (65 \<le> k \<and> k \<le> 90) \<or> (192 \<le> k \<and> k \<le> 222 \<and> k \<noteq> 215) then char_of (k + 32) else c)"

definition py_lower :: "string \<Rightarrow> string" where
  "py_lower s = map py_lower_char s"

text \<open>\<open>s.split()\<close>.\<close>

function py_split :: "string \<Rightarrow> string list" where
  "py_split s =
     (let r = dropWhile is_blank s
      in if r = [] then [] else takeWhile (\<lambda>c. \<not> is_blank c) r # py_split (dropWhile (\<lambda>c. \<not> is_blank c) r))"
  by pat_completeness auto

termination
proof (relation "measure length")
  fix s r assume r: "r = dropWhile is_blank s" "r \<noteq> []"
  then have "\<not> is_blank (hd r)" using hd_dropWhile by metis
  with r(2) have "length (dropWhile (\<lambda>c. \<not> is_blank c) r) < length r"
    by (cases r) (auto simp: less_Suc_eq_le length_dropWhile_le)
  also have "\<dots> \<le> length s" unfolding r(1) by (rule length_dropWhile_le)
  finally show "(dropWhile (\<lambda>c. \<not> is_blank c) r, s) \<in> measure length" by simp
qed simp

declare py_split.simps [simp del]

text \<open>\<open>s.isdigit()\<close>: the superscripts count as digits, which \<open>int\<close> does not read.\<close>

definition py_isdigit :: "string \<Rightarrow> bool" where
  "py_isdigit s \<longleftrightarrow> s \<noteq> [] \<and> list_all (\<lambda>c. digit_of c \<noteq> None \<or> of_char c \<in> {178, 179, 185 :: nat}) s"

fun split_at :: "char \<Rightarrow> string \<Rightarrow> string list" where
  "split_at sep [] = [[]]"
| "split_at sep (c # cs) =
     (case split_at sep cs of
        [] \<Rightarrow> [[c]]
      | w # ws \<Rightarrow> if c = sep then [] # w # ws else (c # w) # ws)"

section \<open>Long replies\<close>

definition TELEGRAM_MSG_MAX :: nat where
  "TELEGRAM_MSG_MAX = 4000"

definition newline :: char where
  "newline = char_of (10 :: nat)"

text \<open>\<open>s.rfind(c, 0, limit)\<close>, \<open>None\<close> for -1.\<close>

definition rfind_upto :: "char \<Rightarrow> nat \<Rightarrow> string \<Rightarrow> nat option" where
  "rfind_upto c limit s =
     (case filter (\<lambda>i. s ! i = c) (rev [0..<min limit (length s)]) of [] \<Rightarrow> None | i # _ \<Rightarrow> Some i)"

definition split_cut :: "nat \<Rightarrow> string \<Rightarrow> nat" where
  "split_cut limit remaining =
     (case rfind_upto newline limit remaining of
        None \<Rightarrow> limit
      | Some k \<Rightarrow> if k < limit div 2 then limit else k)"

definition py_rstrip :: "string \<Rightarrow> string" where
  "py_rstrip s = rev (dropWhile is_blank (rev s))"

lemma split_cut_pos: "2 \<le> limit \<Longrightarrow> 0 < split_cut limit s"
  by (auto simp: split_cut_def split: option.split)

text \<open>A limit of zero or one can cut nothing off; the source is only called with the default.\<close>

function split_loop :: "nat \<Rightarrow> string \<Rightarrow> string list" where
  "split_loop limit remaining =
     (if limit < 2 then [remaining]
      else if length remaining > limit
      then py_rstrip (take (split_cut limit remaining) remaining) #
           split_loop limit (dropWhile (\<lambda>c. c = newline) (drop (split_cut limit remaining) remaining))
      else if remaining \<noteq> [] then [remaining] else [])"
  by pat_completeness auto

termination
proof (relation "measure (\<lambda>(l, s). length s)")
  fix limit :: nat and s :: string assume a: "\<not> limit < 2" "limit < length s"
  have "length (dropWhile (\<lambda>c. c = newline) (drop (split_cut limit s) s)) \<le> length s - split_cut limit s"
    using length_dropWhile_le by (metis length_drop)
  with split_cut_pos [of limit s] a
  show "((limit, dropWhile (\<lambda>c. c = newline) (drop (split_cut limit s) s)), (limit, s)) \<in> measure (\<lambda>(l, s). length s)"
    by simp
qed simp

declare split_loop.simps [simp del]

definition split_for_telegram :: "nat \<Rightarrow> string \<Rightarrow> string list" where
  "split_for_telegram limit txt = (if length txt \<le> limit then [txt] else split_loop limit txt)"

section \<open>The poller and its effects\<close>

definition KILLSWITCH_CONFIRM :: string where
  "KILLSWITCH_CONFIRM = ''s'' @ [char_of (237 :: nat)] @ '' lo entiendo''"

definition KILLSWITCH_FSM_TTL_S :: int where
  "KILLSWITCH_FSM_TTL_S = 120"

definition LLM_SESSION_TTL_S :: int where
  "LLM_SESSION_TTL_S = 4 * 3600"

datatype bot_call = ApiGet string "(string \<times> json) list" | ApiPost string json | RestartService string

datatype bot_effect = Reply int fstring | Called bot_call | FollowupTask int string

record tg_update =
  up_id :: int
  up_user :: "int option"
  up_chat :: "int option"
  up_text :: "string option"

record bot =
  bp_token :: string
  bp_authorized :: "int list"
  bp_offset :: int
  bp_pending :: "(int, datetime) dict"
  bp_sessions :: "(int, string \<times> datetime) dict"
  bp_effects :: "bot_effect list"

type_synonym bot_action = "bot \<Rightarrow> py_error option \<times> bot"
type_synonym bot_api = "bot_call \<Rightarrow> py_error + (int \<times> json)"

record bot_env =
  be_text :: text_env
  be_api :: bot_api
  be_now :: datetime
  be_uuid :: string

fun parse_authorized :: "string list \<Rightarrow> py_error + int list" where
  "parse_authorized [] = Inr []"
| "parse_authorized (x # xs) =
     (if py_isdigit (py_strip x)
      then (case py_int_of x of
              None \<Rightarrow> Inl (ValueError x)
            | Some i \<Rightarrow> bind_r (parse_authorized xs) (\<lambda>is. Inr (i # is)))
      else parse_authorized xs)"

definition new_bot :: "string \<Rightarrow> string \<Rightarrow> py_error + bot" where
  "new_bot token authorized_csv =
     bind_r (parse_authorized (split_at (CHR '','') authorized_csv)) (\<lambda>auth.
       Inr \<lparr>bp_token = token, bp_authorized = auth, bp_offset = 0, bp_pending = [], bp_sessions = [], bp_effects = []\<rparr>)"

definition bot_enabled :: "bot \<Rightarrow> bool" where
  "bot_enabled b \<longleftrightarrow> bp_token b \<noteq> [] \<and> bp_authorized b \<noteq> []"

definition emit :: "bot_effect \<Rightarrow> bot \<Rightarrow> bot" where
  "emit e b = b\<lparr>bp_effects := bp_effects b @ [e]\<rparr>"

definition reply :: "int \<Rightarrow> fstring \<Rightarrow> bot_action" where
  "reply chat txt b = (None, emit (Reply chat txt) b)"

text \<open>A request and what is done with its answer.\<close>

definition request :: "bot_env \<Rightarrow> bot_call \<Rightarrow> (int \<Rightarrow> json \<Rightarrow> bot_action) \<Rightarrow> bot_action" where
  "request env c k b = eval_r (be_api env c) (\<lambda>(code, body). k code body) (emit (Called c) b)"

text \<open>The common tail of the handlers: anything but 200 is reported.\<close>

definition request_ok :: "bot_env \<Rightarrow> int \<Rightarrow> string \<Rightarrow> string \<Rightarrow> bot_call \<Rightarrow> (json \<Rightarrow> bot_action) \<Rightarrow> bot_action" where
  "request_ok env chat before after c k =
     request env c (\<lambda>code body.
       if code \<noteq> 200 then reply chat [FTxt before, FInt code, FTxt after, FStr (py_str (be_text env) body)] else k body)"

abbreviation api_get_ok :: "bot_env \<Rightarrow> int \<Rightarrow> bot_call \<Rightarrow> (json \<Rightarrow> bot_action) \<Rightarrow> bot_action" where
  "api_get_ok env chat \<equiv> request_ok env chat ''api error '' '': ''"

definition first_arg :: "string \<Rightarrow> string" where
  "first_arg args = (case py_split args of [] \<Rightarrow> [] | w # _ \<Rightarrow> w)"

section \<open>Command handlers\<close>

definition nl :: fpiece where
  "nl = FTxt [newline]"

definition help_text :: fstring where
  "help_text = [FTxt ''TEA bot '', FUni 8212, FTxt '' available commands:'', nl,
     FTxt ''/status              engine + kill switch'', nl,
     FTxt ''/positions           open paper positions'', nl,
     FTxt ''/trades [N]          last N paper trades (default 10)'', nl,
     FTxt ''/pnl [today|semana|mes]   pnl for the period (default today)'', nl,
     FTxt ''/restart <service>   restart a whitelisted Docker service via API'', nl,
     FTxt ''/pause <strategy>    pause a strategy'', nl,
     FTxt ''/resume <strategy>   resume a strategy'', nl,
     FTxt ''/killswitch          arm KILL_SWITCH (two-step)'', nl,
     FTxt ''/backtest <strategy> <params_file> <from_ts> <to_ts> [source] [polybot_db] [slug_encodes_open_ts]'', nl,
     FTxt ''/ask <pregunta>      research copilot (ADR 0010, read-only)'', nl,
     FTxt ''/ask_reset           clear current ask session'', nl,
     FTxt ''/help                this message'']"

definition cmd_help :: "int \<Rightarrow> bot_action" where
  "cmd_help chat = reply chat help_text"

text \<open>\<open>v[:n]\<close> and the formats of a decoded number.\<close>

fun js_slice :: "nat \<Rightarrow> json \<Rightarrow> py_error + json" where
  "js_slice n (JsArr xs) = Inr (JsArr (take n xs))"
| "js_slice n (JsStr s) = Inr (JsStr (take n s))"
| "js_slice n _ = Inl TypeError"

fun js_number :: "json \<Rightarrow> py_error + real" where
  "js_number (JsInt i) = Inr (of_int i)"
| "js_number (JsNum x) = Inr x"
| "js_number (JsBool b) = Inr (if b then 1 else 0)"
| "js_number (JsStr s) = Inl (ValueError s)"
| "js_number _ = Inl TypeError"

definition fmt_money :: "json \<Rightarrow> py_error + fstring" where
  "fmt_money v = (if v = JsNull then Inr [FTxt ''-''] else bind_r (js_number v) (\<lambda>x. Inr [FTxt ''$'', FGrouped 2 x]))"

fun map_r :: "('a \<Rightarrow> 'e + 'b) \<Rightarrow> 'a list \<Rightarrow> 'e + 'b list" where
  "map_r f [] = Inr []"
| "map_r f (x # xs) = bind_r (f x) (\<lambda>y. bind_r (map_r f xs) (\<lambda>ys. Inr (y # ys)))"

definition bullet :: fstring where
  "bullet = [FUni 183, FTxt '' '']"

definition shown :: "bot_env \<Rightarrow> string \<Rightarrow> json \<Rightarrow> json \<Rightarrow> py_error + fstring" where
  "shown env k dflt v = bind_r (js_getd k dflt v) (\<lambda>x. Inr [FStr (py_str (be_text env) x)])"

definition shown_prefix :: "bot_env \<Rightarrow> nat \<Rightarrow> string \<Rightarrow> json \<Rightarrow> py_error + fstring" where
  "shown_prefix env n k v =
     bind_r (js_getd k (JsStr ''?'') v) (\<lambda>x. bind_r (js_slice n x) (\<lambda>y. Inr [FStr (py_str (be_text env) y)]))"

definition position_line :: "bot_env \<Rightarrow> json \<Rightarrow> py_error + fstring" where
  "position_line env p =
     bind_r (shown env ''strategy_id'' (JsStr ''?'') p) (\<lambda>a. bind_r (shown_prefix env 24 ''instrument_id'' p) (\<lambda>b.
     bind_r (shown env ''qty'' JsNull p) (\<lambda>c. bind_r (shown env ''avg_price'' JsNull p) (\<lambda>d.
       Inr ([nl] @ bullet @ a @ [FTxt '' ''] @ b @ [FTxt '' qty=''] @ c @ [FTxt '' avg=''] @ d)))))"

definition cmd_positions :: "bot_env \<Rightarrow> int \<Rightarrow> bot_action" where
  "cmd_positions env chat =
     api_get_ok env chat (ApiGet ''/api/v1/positions'' []) (\<lambda>body.
       eval_r (js_getd ''positions'' (JsArr []) body) (\<lambda>pos.
         if \<not> truthy pos then reply chat (ftext ''no open positions'')
         else eval_r (bind_r (js_slice 15 pos) (\<lambda>ps. bind_r (js_iter ps) (map_r (position_line env))))
                (\<lambda>ls. reply chat (FTxt ''open positions:'' # concat ls))))"

definition trades_count :: "string \<Rightarrow> int" where
  "trades_count args =
     (if args = [] then 10 else (case py_int_of (first_arg args) of Some n \<Rightarrow> min 50 (max 1 n) | None \<Rightarrow> 10))"

definition trade_line :: "bot_env \<Rightarrow> json \<Rightarrow> py_error + fstring" where
  "trade_line env t =
     bind_r (js_get ''pnl'' t) (\<lambda>pnl.
     bind_r (if pnl = JsNull then Inr [FTxt ''-''] else bind_r (py_float (be_text env) pnl) (\<lambda>x. Inr [FSigned 4 x])) (\<lambda>e.
     bind_r (shown env ''ts_submit'' (JsStr ''?'') t) (\<lambda>a. bind_r (shown env ''strategy_id'' (JsStr ''?'') t) (\<lambda>b.
     bind_r (shown_prefix env 16 ''instrument_id'' t) (\<lambda>c.
       Inr ([nl] @ bullet @ a @ [FTxt '' ''] @ b @ [FTxt '' ''] @ c @ [FTxt '' pnl=''] @ e))))))"

definition cmd_trades :: "bot_env \<Rightarrow> int \<Rightarrow> string \<Rightarrow> bot_action" where
  "cmd_trades env chat args =
     api_get_ok env chat (ApiGet ''/api/v1/trades/recent'' [(''n'', JsInt (trades_count args))]) (\<lambda>body.
       eval_r (js_getd ''trades'' (JsArr []) body) (\<lambda>trades.
         if \<not> truthy trades then reply chat (ftext ''no recent trades'')
         else eval_r (bind_r (js_len trades) (\<lambda>n. bind_r (js_iter trades) (\<lambda>ts. bind_r (map_r (trade_line env) ts) (\<lambda>ls. Inr (n, ls)))))
                (\<lambda>(n, ls). reply chat ([FTxt ''last '', FInt (int n), FTxt '' trades:''] @ concat ls))))"

definition cmd_pnl :: "bot_env \<Rightarrow> int \<Rightarrow> string \<Rightarrow> bot_action" where
  "cmd_pnl env chat args =
     (let candidate = py_lower (first_arg args)
      in if args \<noteq> [] \<and> candidate \<notin> {''today'', ''semana'', ''mes''} then reply chat (ftext ''usage: /pnl [today|semana|mes]'')
         else (let period = (if args = [] then ''today'' else candidate)
               in api_get_ok env chat (ApiGet ''/api/v1/pnl'' [(''period'', JsStr period)]) (\<lambda>body.
                    eval_r (bind_r (bind_r (js_get ''pnl'' body) fmt_money) (\<lambda>p.
                        bind_r (shown env ''n_trades'' JsNull body) (\<lambda>n. Inr (p, n)))) (\<lambda>(p, n).
                      reply chat ([FTxt ''pnl ('', FStr period, FTxt ''): ''] @ p @ [FTxt ''  (n=''] @ n @ [FTxt '')''])))))"

text \<open>The lines of \<open>/status\<close> from the two answers; \<open>n_open\<close> is the rendered number of positions.\<close>

definition paused_count :: "json list \<Rightarrow> py_error + nat" where
  "paused_count ss = bind_r (map_r (js_get ''paused'') ss) (\<lambda>ps. Inr (length (filter truthy ps)))"

fun when_dict :: "string \<Rightarrow> json \<Rightarrow> json" where
  "when_dict k (JsObj d) = dict_getd d k JsNull"
| "when_dict k _ = JsNull"

record status_parts =
  sp_killed :: bool
  sp_age :: fstring
  sp_pnl_today :: json
  sp_strategies :: nat
  sp_paused :: nat

definition status_head :: "json \<Rightarrow> py_error + status_parts" where
  "status_head body =
     bind_r (js_get ''kill_switch_active'' body) (\<lambda>ks.
     bind_r (js_get ''heartbeat_age_s'' body) (\<lambda>age.
     bind_r (if age = JsNull then Inr [FTxt ''-''] else bind_r (js_number age) (\<lambda>x. Inr [FNum 1 x, FTxt ''s''])) (\<lambda>age_str.
     bind_r (js_get ''pnl_today'' body) (\<lambda>p0.
     bind_r (bind_r (js_get ''strategies'' body) (\<lambda>ss. js_iter (js_or ss (JsArr [])))) (\<lambda>strategies.
     bind_r (paused_count strategies) (\<lambda>n_paused.
       Inr \<lparr>sp_killed = truthy ks, sp_age = age_str, sp_pnl_today = js_or p0 (JsObj []), sp_strategies = length strategies,
            sp_paused = n_paused\<rparr>))))))"

definition status_lines :: "bot_env \<Rightarrow> json \<Rightarrow> status_parts \<Rightarrow> fstring \<Rightarrow> py_error + fstring" where
  "status_lines env body sp n_open =
     bind_r (js_get ''engine_up'' body) (\<lambda>up.
     bind_r (fmt_money (when_dict ''pnl'' (sp_pnl_today sp))) (\<lambda>money.
       let trades_today = when_dict ''n_trades'' (sp_pnl_today sp)
       in Inr ([FTxt ''engine: '', FTxt (if truthy up then ''up'' else ''DOWN''), FTxt ''  heartbeat age=''] @ sp_age sp @
         [nl, FTxt ''kill switch: '', FTxt (if sp_killed sp then ''ON'' else ''OFF''),
          nl, FTxt ''strategies: '', FInt (int (sp_strategies sp)), FTxt '' ('', FInt (int (sp_paused sp)), FTxt '' paused)'',
          nl, FTxt ''open positions: ''] @ n_open @
         [nl, FTxt ''trades today: '', FStr (if trades_today = JsNull then ''-'' else py_str (be_text env) trades_today),
          nl, FTxt ''pnl today: ''] @ money)))"

definition cmd_status :: "bot_env \<Rightarrow> int \<Rightarrow> bot_action" where
  "cmd_status env chat =
     api_get_ok env chat (ApiGet ''/api/v1/status'' []) (\<lambda>body.
       eval_r (status_head body) (\<lambda>sp.
       request env (ApiGet ''/api/v1/positions'' []) (\<lambda>pcode pbody.
         eval_r (if pcode = 200
                 then bind_r (js_get ''positions'' pbody) (\<lambda>ps. bind_r (js_len (js_or ps (JsArr []))) (\<lambda>n. Inr [FInt (int n)]))
                 else Inr [FTxt ''-'']) (\<lambda>n_open.
           eval_r (status_lines env body sp n_open) (reply chat)))))"

text \<open>\<open>restart_service\<close> goes through \<open>TradingAPIClient._request\<close>, which turns every failure into an
  \<open>InternalAPIError\<close> that this handler reports. An answer that is not JSON is a string here; a timeout is
  \<open>RuntimeError ''timeout''\<close>.\<close>

fun err_text :: "py_error \<Rightarrow> string" where
  "err_text (RuntimeError s) = s"
| "err_text (ValueError s) = s"
| "err_text _ = []"

definition api_request :: "bot_env \<Rightarrow> string \<Rightarrow> bot_call \<Rightarrow> string + json" where
  "api_request env path c =
     (case be_api env c of
        Inl e \<Rightarrow>
          if e = RuntimeError ''timeout'' then Inl (''timeout calling '' @ path)
          else Inl (''network error calling '' @ path @ '': '' @ err_text e)
      | Inr (code, JsStr _) \<Rightarrow> Inl (''non-json response from '' @ path @ '' (status '' @ show_int code @ '')'')
      | Inr (code, payload) \<Rightarrow>
          if code \<ge> 400 then
            Inl (path @ '' failed ('' @ show_int code @ ''): '' @
              (case payload of JsObj d \<Rightarrow> py_str (be_text env) (dict_getd d ''detail'' JsNull) | _ \<Rightarrow> py_str (be_text env) payload))
          else (case payload of JsObj _ \<Rightarrow> Inr payload | _ \<Rightarrow> Inl (''unexpected payload type from '' @ path)))"

definition cmd_restart :: "bot_env \<Rightarrow> int \<Rightarrow> string \<Rightarrow> bot_action" where
  "cmd_restart env chat args b =
     (let service = py_lower (first_arg args)
      in if service = [] then reply chat (ftext ''usage: /restart <service>'') b
         else (case api_request env ''/system/restart'' (RestartService service) of
           Inl e \<Rightarrow> reply chat [FTxt ''restart failed: '', FStr e] (emit (Called (RestartService service)) b)
         | Inr body \<Rightarrow>
             eval_r (bind_r (shown env ''requested_service'' (JsStr service) body) (\<lambda>s.
                 bind_r (shown env ''container_name'' (JsStr ''?'') body) (\<lambda>c. Inr (s, c))))
               (\<lambda>(s, c). reply chat ([FUni 9851, FUni 65039, FTxt '' restarted ''] @ s @ [FTxt '' (''] @ c @ [FTxt '')'']))
               (emit (Called (RestartService service)) b)))"

definition cmd_pause :: "bot_env \<Rightarrow> int \<Rightarrow> string \<Rightarrow> bot_action" where
  "cmd_pause env chat args =
     (let name = first_arg args
      in if name = [] then reply chat (ftext ''usage: /pause <strategy>'')
         else request_ok env chat ''pause failed ('' ''): '' (ApiPost (''/api/v1/strategies/'' @ name @ ''/pause'') (JsObj []))
                (\<lambda>body. reply chat [FUni 9208, FTxt '' '', FStr name, FTxt '' paused'']))"

definition cmd_resume :: "bot_env \<Rightarrow> int \<Rightarrow> string \<Rightarrow> bot_action" where
  "cmd_resume env chat args =
     (let name = first_arg args
      in if name = [] then reply chat (ftext ''usage: /resume <strategy>'')
         else request_ok env chat ''resume failed ('' ''): '' (ApiPost (''/api/v1/strategies/'' @ name @ ''/resume'') (JsObj []))
                (\<lambda>body. reply chat [FUni 9654, FUni 65039, FTxt '' '', FStr name, FTxt '' resumed'']))"

definition cmd_killswitch :: "bot_env \<Rightarrow> int \<Rightarrow> int \<Rightarrow> bot_action" where
  "cmd_killswitch env chat user b =
     reply chat [FUni 9888, FUni 65039, FTxt '' KILL_SWITCH arming. Reply with the exact phrase to confirm:'', nl,
         FTxt ''    '', FStr KILLSWITCH_CONFIRM, nl,
         FTxt ''(expires in '', FInt KILLSWITCH_FSM_TTL_S, FTxt ''s; any other reply cancels)'']
       (b\<lparr>bp_pending := AList.update user (be_now env) (bp_pending b)\<rparr>)"

definition killswitch_call :: bot_call where
  "killswitch_call = ApiPost ''/api/v1/killswitch'' (JsObj [(''confirm'', JsStr KILLSWITCH_CONFIRM)])"

definition cmd_killswitch_confirm :: "bot_env \<Rightarrow> int \<Rightarrow> string \<Rightarrow> bot_action" where
  "cmd_killswitch_confirm env chat txt =
     (if py_lower (py_strip txt) \<noteq> KILLSWITCH_CONFIRM
      then reply chat (ftext ''phrase did not match. kill switch NOT armed.'')
      else request_ok env chat ''killswitch failed ('' ''): '' killswitch_call
             (\<lambda>body. eval_r (shown env ''path'' (JsStr ''?'') body) (\<lambda>p.
                reply chat ([FUni 9940, FTxt '' KILL_SWITCH ARMED at ''] @ p @
                  [FTxt ''. engine will refuse new orders until removed.'']))))"

definition backtest_payload :: "int \<Rightarrow> string list \<Rightarrow> json" where
  "backtest_payload user parts =
     JsObj ([(''strategy'', JsStr (parts ! 0)), (''params_file'', JsStr (parts ! 1)), (''from_ts'', JsStr (parts ! 2)),
        (''to_ts'', JsStr (parts ! 3)), (''requested_by'', JsStr (''telegram:'' @ show_int user))] @
       (if length parts \<ge> 5 then [(''source'', JsStr (parts ! 4))] else []) @
       (if length parts \<ge> 6 then [(''polybot_db'', JsStr (parts ! 5))] else []) @
       (if length parts \<ge> 7 then [(''slug_encodes_open_ts'', JsBool (py_lower (parts ! 6) \<in> {''1'', ''true'', ''yes''}))] else []))"

definition cmd_backtest :: "bot_env \<Rightarrow> int \<Rightarrow> int \<Rightarrow> string \<Rightarrow> bot_action" where
  "cmd_backtest env chat user args =
     (let parts = py_split args
      in if length parts < 4 then
           reply chat (ftext ''usage: /backtest <strategy> <params_file> <from_ts> <to_ts> [source] [polybot_db] [slug_encodes_open_ts]'')
         else request_ok env chat ''backtest submit failed ('' ''): '' (ApiPost ''/api/v1/backtests'' (backtest_payload user parts))
                (\<lambda>body. eval_r (js_getd ''job_id'' (JsStr ''?'') body) (\<lambda>j b.
                   reply chat [FUni 129514, FTxt '' backtest queued. job_id='', FStr (py_str (be_text env) j), nl,
                       FTxt ''I'', FUni 39, FTxt ''ll DM when it finishes with a link to the report.'']
                     (emit (FollowupTask chat (py_str (be_text env) j)) b))))"

section \<open>Research questions\<close>

text \<open>The session of a chat, kept in Redis under the chat id with an expiry time.\<close>

definition session_of :: "datetime \<Rightarrow> int \<Rightarrow> bot \<Rightarrow> string option" where
  "session_of now chat b =
     (case map_of (bp_sessions b) chat of
        Some (sid, expires) \<Rightarrow> if now < expires \<and> sid \<noteq> [] then Some sid else None
      | None \<Rightarrow> None)"

definition get_or_create_session :: "bot_env \<Rightarrow> int \<Rightarrow> bot \<Rightarrow> (string \<times> bool) \<times> bot" where
  "get_or_create_session env chat b =
     (let expires = be_now env + LLM_SESSION_TTL_S * 1000000
      in case session_of (be_now env) chat b of
           Some sid \<Rightarrow> ((sid, False), b\<lparr>bp_sessions := AList.update chat (sid, expires) (bp_sessions b)\<rparr>)
         | None \<Rightarrow>
             (let sid = ''tg-'' @ show_int chat @ ''-'' @ take 10 (be_uuid env)
              in ((sid, True), b\<lparr>bp_sessions := AList.update chat (sid, expires) (bp_sessions b)\<rparr>)))"

definition ref :: "string \<Rightarrow> string \<Rightarrow> json" where
  "ref ty i = JsObj [(''type'', JsStr ty), (''id'', JsStr i)]"

definition strategy_refs :: "bot_env \<Rightarrow> json list \<Rightarrow> py_error + json list" where
  "strategy_refs env ss =
     bind_r (map_r (js_get ''name'') ss) (\<lambda>ns. Inr (map (\<lambda>n. ref ''paper_stats'' (py_str (be_text env) n @ '':7'')) (filter truthy ns)))"

definition default_ask_refs :: "bot_env \<Rightarrow> (json list \<Rightarrow> bot_action) \<Rightarrow> bot_action" where
  "default_ask_refs env k =
     request env (ApiGet ''/api/v1/strategies'' []) (\<lambda>code body.
       (let refs = [ref ''recent_trades'' ''*:10'']
        in if code = 200 then
             (case body of
                JsObj d \<Rightarrow>
                  eval_r (bind_r (js_slice 5 (js_or (dict_getd d ''strategies'' JsNull) (JsArr []))) (\<lambda>ss.
                     bind_r (js_iter ss) (strategy_refs env))) (\<lambda>more. k (refs @ more))
              | _ \<Rightarrow> k refs)
           else k refs))"

definition last_chars :: "nat \<Rightarrow> 'a list \<Rightarrow> 'a list" where
  "last_chars n s = drop (length s - n) s"

fun reply_all :: "int \<Rightarrow> string list \<Rightarrow> bot \<Rightarrow> bot" where
  "reply_all chat [] b = b"
| "reply_all chat (c # cs) b = reply_all chat cs (emit (Reply chat [FStr c]) b)"

definition ask_usage :: fstring where
  "ask_usage = [FTxt ''usage: /ask <pregunta>'', nl, FTxt ''Sin context_refs expl'', FUni 237, FTxt ''citos desde Telegram,'',
     FTxt '' se inyectan defaults (paper_stats 7d por estrategia activa + '', FUni 250,
     FTxt ''ltimos 10 trades). Usa /research/chat para pinear backtests/ADRs.'']"

text \<open>The answer of the copilot is text; for another value the model raises.\<close>

definition ask_answer :: "bot_env \<Rightarrow> int \<Rightarrow> string \<Rightarrow> int \<Rightarrow> json \<Rightarrow> bot_action" where
  "ask_answer env chat sid code resp =
     (if code \<noteq> 200 then
        reply chat [FUni 10060, FTxt '' /ask failed ('', FInt code, FTxt ''): '',
          FStr (case resp of JsObj d \<Rightarrow> py_str (be_text env) (dict_getd d ''detail'' JsNull) | _ \<Rightarrow> py_str (be_text env) resp)]
      else eval_r (js_get ''assistant'' resp) (\<lambda>a.
        (case js_or a (JsStr ''(empty reply)'') of
           JsStr r \<Rightarrow> (\<lambda>b.
             eval_r (bind_r (js_getd ''cost_usd_total'' (JsInt 0) resp) (\<lambda>c. bind_r (js_number c) (\<lambda>x.
                 bind_r (shown env ''model'' (JsStr ''?'') resp) (\<lambda>m. Inr (x, m)))))
               (\<lambda>(x, m). reply chat ([FUni 8212, FTxt '' session '', FStr (last_chars 10 sid), FTxt ''  '', FUni 183, FTxt '' $'', FNum 4 x,
                  FTxt ''  '', FUni 183, FTxt '' model ''] @ m))
               (reply_all chat (split_for_telegram TELEGRAM_MSG_MAX r) b))
         | _ \<Rightarrow> (\<lambda>b. (Some TypeError, b)))))"

definition cmd_ask :: "bot_env \<Rightarrow> int \<Rightarrow> string \<Rightarrow> bot_action" where
  "cmd_ask env chat args b =
     (if args = [] then reply chat ask_usage b
      else (let ((sid, is_new), b1) = get_or_create_session env chat b
            in default_ask_refs env (\<lambda>refs b2.
                 request env (ApiPost ''/api/v1/llm/chat''
                     (JsObj [(''session_id'', JsStr sid), (''message'', JsStr args), (''context_refs'', JsArr refs)]))
                   (ask_answer env chat sid) (emit (Reply chat [FUni 129504, FTxt '' thinking'', FUni 8230]) b2)) b1))"

definition cmd_ask_reset :: "bot_env \<Rightarrow> int \<Rightarrow> bot_action" where
  "cmd_ask_reset env chat b =
     (let prior = session_of (be_now env) chat b;
          b1 = b\<lparr>bp_sessions := AList.delete chat (bp_sessions b)\<rparr>
      in case prior of
           Some sid \<Rightarrow>
             request env (ApiPost (''/api/v1/llm/reset?session_id='' @ sid) (JsObj [])) (\<lambda>code body.
               reply chat [FUni 129529, FTxt '' ask session cleared (was '', FStr (last_chars 10 sid), FTxt '')'']) b1
         | None \<Rightarrow> reply chat (ftext ''no active ask session'') b1)"

section \<open>Dispatch\<close>

definition dispatch :: "bot_env \<Rightarrow> int \<Rightarrow> int \<Rightarrow> string \<Rightarrow> string \<Rightarrow> bot_action" where
  "dispatch env chat user cmd args =
     (if cmd = ''/status'' then cmd_status env chat
      else if cmd = ''/positions'' then cmd_positions env chat
      else if cmd = ''/trades'' then cmd_trades env chat args
      else if cmd = ''/pnl'' then cmd_pnl env chat args
      else if cmd = ''/restart'' then cmd_restart env chat args
      else if cmd = ''/pause'' then cmd_pause env chat args
      else if cmd = ''/resume'' then cmd_resume env chat args
      else if cmd = ''/killswitch'' then cmd_killswitch env chat user
      else if cmd = ''/backtest'' then cmd_backtest env chat user args
      else if cmd = ''/ask'' then cmd_ask env chat args
      else if cmd = ''/ask_reset'' then cmd_ask_reset env chat
      else if cmd = ''/help'' \<or> cmd = ''/start'' then cmd_help chat
      else reply chat [FTxt ''unknown command: '', FStr cmd, nl, FTxt ''/help for list''])"

definition command_of :: "string \<Rightarrow> string \<times> string" where
  "command_of txt =
     (py_lower (takeWhile (\<lambda>c. c \<noteq> CHR ''@'') (takeWhile (\<lambda>c. c \<noteq> CHR '' '') txt)),
      py_strip (drop 1 (dropWhile (\<lambda>c. c \<noteq> CHR '' '') txt)))"

definition run_command :: "bot_env \<Rightarrow> int \<Rightarrow> int \<Rightarrow> string \<Rightarrow> bot_action" where
  "run_command env chat user txt =
     (if \<not> prefix ''/'' txt then (\<lambda>b. (None, b))
      else (let (cmd, args) = command_of txt in dispatch env chat user cmd args))"

definition handle_update :: "bot_env \<Rightarrow> tg_update \<Rightarrow> bot_action" where
  "handle_update env upd b =
     (let txt = py_strip (case up_text upd of Some t \<Rightarrow> t | None \<Rightarrow> [])
      in case (up_user upd, up_chat upd) of
           (Some user, Some chat) \<Rightarrow>
             if txt = [] then (None, b)
             else if user \<notin> set (bp_authorized b) then reply chat [FUni 9940, FTxt '' not authorized''] b
             else (case map_of (bp_pending b) user of
                 Some prompted_at \<Rightarrow>
                   (let b1 = b\<lparr>bp_pending := AList.delete user (bp_pending b)\<rparr>
                    in if be_now env - prompted_at < KILLSWITCH_FSM_TTL_S * 1000000
                       then cmd_killswitch_confirm env chat txt b1
                       else run_command env chat user txt b1)
               | None \<Rightarrow> run_command env chat user txt b)
         | _ \<Rightarrow> (None, b))"

text \<open>One poll: the offset moves past the last update, then each update is handled, whatever it raises.\<close>

fun handle_updates :: "(bot_env \<times> tg_update) list \<Rightarrow> bot \<Rightarrow> bot" where
  "handle_updates [] b = b"
| "handle_updates ((env, u) # us) b = handle_updates us (snd (handle_update env u b))"

definition poll :: "(bot_env \<times> tg_update) list \<Rightarrow> bot \<Rightarrow> bot" where
  "poll us b =
     (let b1 = (if us = [] then b else b\<lparr>bp_offset := up_id (snd (last us)) + 1\<rparr>)
      in handle_updates us b1)"

section \<open>Long replies are cut, not lost\<close>

abbreviation visible :: "string \<Rightarrow> string" where
  "visible \<equiv> filter (\<lambda>c. \<not> is_blank c)"

lemma visible_dropWhile: "(\<And>c. P c \<Longrightarrow> is_blank c) \<Longrightarrow> visible (dropWhile P s) = visible s"
  by (induction s) auto

lemma visible_rstrip: "visible (py_rstrip s) = visible s"
  by (simp add: py_rstrip_def rev_filter [symmetric] visible_dropWhile)

lemma newline_blank: "is_blank newline"
  by (simp add: is_blank_def newline_def)

lemma length_rstrip: "length (py_rstrip s) \<le> length s"
  using length_dropWhile_le [of is_blank "rev s"] by (simp add: py_rstrip_def)

lemma split_cut_le: "split_cut limit s \<le> limit"
proof (cases "rfind_upto newline limit s")
  case (Some k)
  then obtain ks where "filter (\<lambda>i. s ! i = newline) (rev [0..<min limit (length s)]) = k # ks"
    by (auto simp: rfind_upto_def split: list.splits)
  then have "k \<in> set (filter (\<lambda>i. s ! i = newline) (rev [0..<min limit (length s)]))" by simp
  then show ?thesis by (simp add: split_cut_def Some)
qed (simp add: split_cut_def)

lemma split_loop_ok:
  "2 \<le> limit \<Longrightarrow> list_all (\<lambda>c. length c \<le> limit) (split_loop limit s) \<and> visible (concat (split_loop limit s)) = visible s"
proof (induction limit s rule: split_loop.induct)
  case (1 limit s)
  show ?case
  proof (cases "length s > limit")
    case True
    let ?k = "split_cut limit s"
    let ?r = "dropWhile (\<lambda>c. c = newline) (drop ?k s)"
    have eq: "split_loop limit s = py_rstrip (take ?k s) # split_loop limit ?r"
      using True 1(2) by (subst split_loop.simps) simp
    have IH: "list_all (\<lambda>c. length c \<le> limit) (split_loop limit ?r)" "visible (concat (split_loop limit ?r)) = visible ?r"
      using 1(1) [OF _ True 1(2)] 1(2) by simp_all
    have "length (py_rstrip (take ?k s)) \<le> limit" using length_rstrip [of "take ?k s"] split_cut_le [of limit s] by simp
    moreover have "visible ?r = visible (drop ?k s)" by (rule visible_dropWhile) (simp add: newline_blank)
    moreover have "visible (take ?k s) @ visible (drop ?k s) = visible s" by (metis append_take_drop_id filter_append)
    ultimately show ?thesis unfolding eq using IH visible_rstrip by simp
  next
    case False
    with 1(2) show ?thesis by (subst (1 2) split_loop.simps) auto
  qed
qed

text \<open>Splitting a long reply always ends and loses nothing a reader sees: every chunk fits the limit of the
  message, and the chunks together have the visible characters of the text in their order.\<close>

theorem long_replies_are_complete:
  assumes "2 \<le> limit"
  shows "list_all (\<lambda>c. length c \<le> limit) (split_for_telegram limit txt) \<and>
    filter (\<lambda>c. \<not> is_blank c) (concat (split_for_telegram limit txt)) = filter (\<lambda>c. \<not> is_blank c) txt"
  using split_loop_ok [OF assms, of "txt"] by (simp add: split_for_telegram_def)

theorem long_replies_are_complete_witness:
  "filter (\<lambda>c. \<not> is_blank c) (concat (split_for_telegram TELEGRAM_MSG_MAX ''ab cdef'')) = ''abcdef'' \<and>
   list_all (\<lambda>c. length c \<le> 4) (split_for_telegram 4 ''ab cdef'')"
  using long_replies_are_complete [of TELEGRAM_MSG_MAX "''ab cdef''"] long_replies_are_complete [of 4 "''ab cdef''"]
  by (simp add: TELEGRAM_MSG_MAX_def is_blank_def)

section \<open>The kill switch needs two messages\<close>

text \<open>What a handler may do without touching the kill switch: more effects, none of them the call that arms
  it, with the pending confirmations and the authorized users as they were.\<close>

definition quiet :: "bot \<Rightarrow> bot \<Rightarrow> bool" where
  "quiet b b' \<longleftrightarrow> bp_pending b' = bp_pending b \<and> bp_authorized b' = bp_authorized b \<and>
     (\<exists>es. bp_effects b' = bp_effects b @ es \<and> Called killswitch_call \<notin> set es)"

definition quiet_action :: "bot_action \<Rightarrow> bool" where
  "quiet_action f \<longleftrightarrow> (\<forall>b. quiet b (snd (f b)))"

lemma quiet_refl: "quiet b b"
  by (simp add: quiet_def)

lemma quiet_trans: "quiet a b \<Longrightarrow> quiet b c \<Longrightarrow> quiet a c"
  unfolding quiet_def by (metis append_assoc UnE set_append)

lemma quiet_emit: "e \<noteq> Called killswitch_call \<Longrightarrow> quiet b (emit e b)"
  by (simp add: quiet_def emit_def)

lemma quiet_reply: "quiet_action (reply chat t)"
  by (simp add: quiet_action_def reply_def quiet_emit)

lemma quiet_eval: "(\<And>a. quiet_action (k a)) \<Longrightarrow> quiet_action (eval_r r k)"
  by (cases r) (simp_all add: quiet_action_def quiet_refl)

lemma quiet_skip: "quiet_action (\<lambda>b. (e, b))"
  by (simp add: quiet_action_def quiet_refl)

lemma quiet_if: "quiet_action f \<Longrightarrow> quiet_action g \<Longrightarrow> quiet_action (if c then f else g)"
  by simp

lemma quiet_request:
  assumes "c \<noteq> killswitch_call" "\<And>code body. quiet_action (k code body)"
  shows "quiet_action (request env c k)"
proof -
  have "quiet_action (eval_r (be_api env c) (\<lambda>(code, body). k code body))"
    by (rule quiet_eval) (use assms(2) in auto)
  then show ?thesis
    using quiet_emit [of "Called c"] assms(1) by (auto simp: quiet_action_def request_def intro: quiet_trans)
qed

lemma quiet_request_ok:
  "c \<noteq> killswitch_call \<Longrightarrow> (\<And>body. quiet_action (k body)) \<Longrightarrow> quiet_action (request_ok env chat p q c k)"
  unfolding request_ok_def by (intro quiet_request quiet_if quiet_reply) auto

lemmas quiet_intros = quiet_request_ok quiet_request quiet_eval quiet_reply quiet_skip

lemma reply_all_quiet: "quiet b (reply_all chat cs b)"
  by (induction cs arbitrary: b) (auto intro: quiet_refl quiet_trans quiet_emit)

lemma other_calls:
  "ApiGet p ps \<noteq> killswitch_call" "RestartService sv \<noteq> killswitch_call"
  "ApiPost (''/api/v1/strategies/'' @ n) j \<noteq> killswitch_call"
  "ApiPost ''/api/v1/backtests'' j \<noteq> killswitch_call" "ApiPost ''/api/v1/llm/chat'' j \<noteq> killswitch_call"
  "ApiPost (''/api/v1/llm/reset?session_id='' @ n) j \<noteq> killswitch_call"
  by (simp_all add: killswitch_call_def)

lemma quiet_views: "quiet_action (cmd_help chat)" "quiet_action (cmd_status env chat)" "quiet_action (cmd_positions env chat)"
  "quiet_action (cmd_trades env chat args)" "quiet_action (cmd_pnl env chat args)"
  unfolding cmd_help_def cmd_status_def cmd_positions_def cmd_trades_def cmd_pnl_def Let_def
  by (auto intro!: quiet_intros other_calls)

lemma quiet_controls: "quiet_action (cmd_pause env chat args)" "quiet_action (cmd_resume env chat args)"
  using other_calls(3) unfolding cmd_pause_def cmd_resume_def Let_def by (auto intro!: quiet_intros)

lemma quiet_restart: "quiet_action (cmd_restart env chat args)"
proof -
  have "quiet b (snd (f (emit (Called (RestartService sv)) b)))" if "quiet_action f" for f sv b
    using that quiet_emit [of "Called (RestartService sv)" b] other_calls(2) by (auto simp: quiet_action_def intro: quiet_trans)
  moreover have "quiet_action (eval_r r (\<lambda>(s, c). reply chat (f s c)))" for r :: "py_error + (fstring \<times> fstring)" and f
    by (rule quiet_eval) (auto simp: quiet_reply)
  ultimately show ?thesis
    using quiet_reply unfolding quiet_action_def cmd_restart_def Let_def by (auto split: sum.split)
qed

lemma quiet_backtest: "quiet_action (cmd_backtest env chat user args)"
proof -
  have "quiet_action (\<lambda>b. reply chat t (emit (FollowupTask chat j) b))" for t j
    by (simp add: quiet_action_def reply_def quiet_trans [OF quiet_emit quiet_emit])
  then show ?thesis
    unfolding cmd_backtest_def Let_def by (auto intro!: quiet_intros other_calls)
qed

lemma quiet_default_refs:
  assumes "\<And>refs. quiet_action (k refs)"
  shows "quiet_action (default_ask_refs env k)"
proof -
  have "quiet_action (eval_r r (\<lambda>more. k (f more)))" for r :: "py_error + json list" and f
    by (rule quiet_eval) (rule assms)
  with assms show ?thesis
    unfolding default_ask_refs_def Let_def by (auto intro!: quiet_request other_calls split: json.split)
qed

lemma quiet_ask: "quiet_action (cmd_ask env chat args)"
proof -
  have answer: "quiet_action (ask_answer env chat sid code resp)" for sid code resp
  proof -
    have foot: "quiet_action (eval_r r (\<lambda>(x, m). reply chat (f x m)))" for r :: "py_error + (real \<times> fstring)" and f
      by (rule quiet_eval) (auto simp: quiet_reply)
    have "quiet_action (\<lambda>b. eval_r r (\<lambda>(x, m). reply chat (f x m)) (reply_all chat cs b))"
      for r :: "py_error + (real \<times> fstring)" and f cs
      unfolding quiet_action_def using foot [of r f, unfolded quiet_action_def] reply_all_quiet quiet_trans by blast
    moreover have "quiet_action (\<lambda>b. (e, reply_all chat cs b))" for e cs
      by (simp add: quiet_action_def reply_all_quiet)
    ultimately show ?thesis
      unfolding ask_answer_def by (auto intro!: quiet_intros split: json.split)
  qed
  have "quiet_action (request env (ApiPost ''/api/v1/llm/chat'' j) (ask_answer env chat sid))" for j sid
    by (intro quiet_request other_calls answer)
  then have post: "quiet_action (\<lambda>b. request env (ApiPost ''/api/v1/llm/chat'' j) (ask_answer env chat sid) (emit (Reply chat t) b))" for j sid t
    using quiet_emit [of "Reply chat t"] unfolding quiet_action_def by (blast intro: quiet_trans)
  have "quiet_action (default_ask_refs env (\<lambda>refs b2.
       request env (ApiPost ''/api/v1/llm/chat'' (JsObj [(''session_id'', JsStr sid), (''message'', JsStr args), (''context_refs'', JsArr refs)]))
         (ask_answer env chat sid) (emit (Reply chat [FUni 129504, FTxt '' thinking'', FUni 8230]) b2)))" for sid
    by (rule quiet_default_refs) (rule post)
  moreover have "quiet b (snd (get_or_create_session env chat b))" for b
    by (auto simp: get_or_create_session_def quiet_def Let_def split: option.split)
  ultimately show ?thesis
    using quiet_reply unfolding quiet_action_def cmd_ask_def by (fastforce simp: case_prod_beta Let_def intro: quiet_trans)
qed

lemma quiet_ask_reset: "quiet_action (cmd_ask_reset env chat)"
proof -
  have "quiet b (b\<lparr>bp_sessions := AList.delete chat (bp_sessions b)\<rparr>)" for b by (simp add: quiet_def)
  moreover have "quiet_action (request env (ApiPost (''/api/v1/llm/reset?session_id='' @ sid) (JsObj [])) (\<lambda>code body. reply chat (f sid)))" for sid f
    by (intro quiet_request quiet_reply other_calls)
  ultimately show ?thesis
    using quiet_reply unfolding quiet_action_def cmd_ask_reset_def Let_def by (fastforce intro: quiet_trans split: option.split)
qed

lemmas quiet_commands = quiet_views quiet_controls quiet_restart quiet_backtest quiet_ask quiet_ask_reset quiet_reply quiet_skip

lemma quiet_run_command:
  assumes "\<not> (prefix ''/'' t \<and> fst (command_of t) = ''/killswitch'')"
  shows "quiet_action (run_command env chat user t)"
proof -
  have "quiet_action (dispatch env chat user cmd args)" if "cmd \<noteq> ''/killswitch''" for cmd args
    unfolding dispatch_def using that by (simp add: quiet_commands)
  with assms show ?thesis unfolding run_command_def by (auto simp: quiet_skip case_prod_beta intro!: quiet_if)
qed

lemma run_killswitch:
  "prefix ''/'' t \<Longrightarrow> fst (command_of t) = ''/killswitch'' \<Longrightarrow> run_command env chat user t = cmd_killswitch env chat user"
  by (simp add: run_command_def dispatch_def case_prod_beta)

text \<open>The messages of a user that reach the handler, and the last of them.\<close>

definition heard :: "int \<Rightarrow> bot_env \<times> tg_update \<Rightarrow> bool" where
  "heard user m \<longleftrightarrow> up_user (snd m) = Some user \<and> up_chat (snd m) \<noteq> None \<and>
     py_strip (case up_text (snd m) of Some t \<Rightarrow> t | None \<Rightarrow> []) \<noteq> []"

definition text_of :: "tg_update \<Rightarrow> string" where
  "text_of u = py_strip (case up_text u of Some t \<Rightarrow> t | None \<Rightarrow> [])"

definition last_heard :: "int \<Rightarrow> (bot_env \<times> tg_update) list \<Rightarrow> (bot_env \<times> tg_update) option" where
  "last_heard user ms = (let hs = filter (heard user) ms in if hs = [] then None else Some (last hs))"

definition pending_inv :: "(bot_env \<times> tg_update) list \<Rightarrow> bot \<Rightarrow> bool" where
  "pending_inv ms b \<longleftrightarrow>
     (\<forall>user t. map_of (bp_pending b) user = Some t \<longrightarrow> user \<in> set (bp_authorized b) \<and>
        (\<exists>m. last_heard user ms = Some m \<and> be_now (fst m) = t \<and> fst (command_of (text_of (snd m))) = ''/killswitch''))"

lemma last_heard_snoc: "last_heard user (ms @ [m]) = (if heard user m then Some m else last_heard user ms)"
  by (simp add: last_heard_def Let_def)

text \<open>What one update does to the pending confirmations and whether it arms the kill switch.\<close>

lemma handle_update_cases:
  assumes "handle_update env u b = (r, b')"
  obtains (unheard) "\<And>user. \<not> heard user (env, u)" "b' = b"
  | (refused) user chat where "heard user (env, u)" "user \<notin> set (bp_authorized b)" "b' = emit (Reply chat [FUni 9940, FTxt '' not authorized'']) b"
  | (confirm) user chat t where "heard user (env, u)" "user \<in> set (bp_authorized b)" "map_of (bp_pending b) user = Some t"
      "be_now env - t < 120000000" "b' = snd (cmd_killswitch_confirm env chat (text_of u) (b\<lparr>bp_pending := AList.delete user (bp_pending b)\<rparr>))"
  | (command) user chat where "heard user (env, u)" "user \<in> set (bp_authorized b)"
      "b' = snd (run_command env chat user (text_of u) (b\<lparr>bp_pending := AList.delete user (bp_pending b)\<rparr>))"
proof (cases "\<exists>user. heard user (env, u)")
  case False
  with assms have "b' = b" by (auto simp: handle_update_def heard_def Let_def split: option.splits if_splits)
  with False unheard show ?thesis by blast
next
  case True
  then obtain user chat where h: "heard user (env, u)" "up_user u = Some user" "up_chat u = Some chat" "text_of u \<noteq> []"
    by (auto simp: heard_def text_of_def)
  let ?b = "b\<lparr>bp_pending := AList.delete user (bp_pending b)\<rparr>"
  have run: "handle_update env u b =
     (if user \<notin> set (bp_authorized b) then reply chat [FUni 9940, FTxt '' not authorized''] b
      else (case map_of (bp_pending b) user of
          Some t \<Rightarrow> if be_now env - t < 120000000 then cmd_killswitch_confirm env chat (text_of u) ?b
                    else run_command env chat user (text_of u) ?b
        | None \<Rightarrow> run_command env chat user (text_of u) b))"
    using h(2-4) by (simp add: handle_update_def text_of_def Let_def KILLSWITCH_FSM_TTL_S_def split: option.split)
  have same: "map_of (bp_pending b) user = None \<Longrightarrow> ?b = b" by (simp add: dict_delete_absent)
  show ?thesis
  proof (cases "user \<in> set (bp_authorized b)")
    case False
    with run assms h(1) refused [of user chat] show ?thesis by (simp add: reply_def)
  next
    case auth: True
    show ?thesis
    proof (cases "\<exists>t. map_of (bp_pending b) user = Some t \<and> be_now env - t < 120000000")
      case True
      then obtain t where t: "map_of (bp_pending b) user = Some t" "be_now env - t < 120000000" by blast
      with run assms auth have "(r, b') = cmd_killswitch_confirm env chat (text_of u) ?b" by simp
      then have "b' = snd (cmd_killswitch_confirm env chat (text_of u) ?b)" by (metis snd_conv)
      with h(1) auth t show ?thesis by (rule confirm)
    next
      case False
      with run assms auth same have "(r, b') = run_command env chat user (text_of u) ?b" by (auto split: option.splits)
      then have "b' = snd (run_command env chat user (text_of u) ?b)" by (metis snd_conv)
      with h(1) auth show ?thesis by (rule command)
    qed
  qed
qed

lemma confirm_pending:
  "bp_pending (snd (cmd_killswitch_confirm env chat t b)) = bp_pending b \<and>
   bp_authorized (snd (cmd_killswitch_confirm env chat t b)) = bp_authorized b"
  by (auto simp: cmd_killswitch_confirm_def request_ok_def request_def reply_def emit_def eval_r_def split: sum.split prod.split)

lemma run_command_pending:
  "map_of (bp_pending (snd (run_command env chat user t b))) =
     (if prefix ''/'' t \<and> fst (command_of t) = ''/killswitch'' then (map_of (bp_pending b))(user \<mapsto> be_now env)
      else map_of (bp_pending b)) \<and>
   bp_authorized (snd (run_command env chat user t b)) = bp_authorized b"
proof (cases "prefix ''/'' t \<and> fst (command_of t) = ''/killswitch''")
  case True
  then show ?thesis by (auto simp: run_killswitch cmd_killswitch_def reply_def emit_def)
next
  case False
  from quiet_run_command [OF this, of env chat user] have "quiet b (snd (run_command env chat user t b))"
    by (simp add: quiet_action_def)
  with False show ?thesis by (auto simp: quiet_def)
qed

lemma handle_update_authorized:
  assumes "handle_update env u b = (r, b')"
  shows "bp_authorized b' = bp_authorized b"
  using assms
proof (cases rule: handle_update_cases)
  case (command user chat)
  then show ?thesis by (simp only: run_command_pending) simp
qed (simp_all add: emit_def confirm_pending)

lemma handle_update_inv:
  assumes "pending_inv ms b" "handle_update env u b = (r, b')"
  shows "pending_inv (ms @ [(env, u)]) b'"
proof -
  have one: "heard user (env, u) \<Longrightarrow> heard user' (env, u) \<Longrightarrow> user = user'" for user user' by (simp add: heard_def)
  note auth = handle_update_authorized [OF assms(2)]
  from assms(2) show ?thesis
  proof (cases rule: handle_update_cases)
    case unheard
    with assms(1) show ?thesis by (auto simp: pending_inv_def last_heard_snoc)
  next
    case (refused user chat)
    then have "bp_pending b' = bp_pending b" by (simp add: emit_def)
    with refused(1,2) assms(1) one auth show ?thesis by (auto simp: pending_inv_def last_heard_snoc)
  next
    case (confirm user chat t)
    with assms(1) one auth show ?thesis by (auto simp: pending_inv_def last_heard_snoc confirm_pending)
  next
    case (command user chat)
    with assms(1) one auth show ?thesis
      by (auto simp: pending_inv_def last_heard_snoc run_command_pending text_of_def split: if_splits)
  qed
qed

lemma handle_updates_inv:
  "pending_inv ms b \<Longrightarrow> pending_inv (ms @ us) (handle_updates us b) \<and> bp_authorized (handle_updates us b) = bp_authorized b"
proof (induction us arbitrary: ms b)
  case (Cons eu us)
  obtain env u where eu: "eu = (env, u)" by (cases eu)
  obtain r b' where r: "handle_update env u b = (r, b')" by fastforce
  from handle_update_inv [OF Cons.prems r] handle_update_authorized [OF r] Cons.IH [of "ms @ [(env, u)]" b'] r eu
  show ?case by simp
qed simp

lemma new_bot_inv: "new_bot token csv = Inr b \<Longrightarrow> pending_inv [] b"
  by (auto simp: new_bot_def bind_r_eq_Inr pending_inv_def)

text \<open>C15. Arming the kill switch takes two messages. Whatever updates the bot has handled since it started, the
  next update makes the call that arms the kill switch only if it comes from an authorized user, says exactly
  the confirmation phrase (up to case and blanks around it), and the message of that user just before it was the
  \<open>/killswitch\<close> command less than two minutes earlier.\<close>

theorem killswitch_needs_confirmation:
  assumes "new_bot token csv = Inr b0" and "handle_update env u (handle_updates ms b0) = (r, b')"
    and "bp_effects b' = bp_effects (handle_updates ms b0) @ es" and "Called killswitch_call \<in> set es"
  shows "\<exists>user env0 u0. heard user (env, u) \<and> user \<in> set (bp_authorized b0) \<and>
    py_lower (py_strip (text_of u)) = KILLSWITCH_CONFIRM \<and> last_heard user ms = Some (env0, u0) \<and>
    fst (command_of (text_of u0)) = ''/killswitch'' \<and> be_now env - be_now env0 < 120000000"
proof -
  define b where "b = handle_updates ms b0"
  have inv: "pending_inv ms b" "bp_authorized b = bp_authorized b0"
    using handle_updates_inv [OF new_bot_inv [OF assms(1)], of ms] by (simp_all add: b_def)
  have eff: "bp_effects b' = bp_effects b @ es" using assms(3) by (simp add: b_def)
  have noisy: "\<not> quiet b b'" using eff assms(4) by (auto simp: quiet_def)
  have upd: "handle_update env u b = (r, b')" using assms(2) by (simp add: b_def)
  have drop: "bp_effects c = bp_effects b \<Longrightarrow> quiet c b' \<Longrightarrow> False" for c using eff assms(4) by (auto simp: quiet_def)
  from upd show ?thesis
  proof (cases rule: handle_update_cases)
    case unheard
    with noisy quiet_refl show ?thesis by simp
  next
    case (refused user chat)
    with noisy quiet_emit show ?thesis by blast
  next
    case (confirm user chat t)
    let ?b = "b\<lparr>bp_pending := AList.delete user (bp_pending b)\<rparr>"
    have "py_lower (py_strip (text_of u)) = KILLSWITCH_CONFIRM"
    proof (rule ccontr)
      assume "py_lower (py_strip (text_of u)) \<noteq> KILLSWITCH_CONFIRM"
      then have "quiet ?b b'" unfolding confirm(5) cmd_killswitch_confirm_def
        using quiet_reply by (simp add: quiet_action_def)
      with drop [of ?b] show False by simp
    qed
    with confirm inv show ?thesis unfolding pending_inv_def by (metis prod.collapse)
  next
    case (command user chat)
    let ?b = "b\<lparr>bp_pending := AList.delete user (bp_pending b)\<rparr>"
    have "\<exists>c. bp_effects c = bp_effects b \<and> quiet c b'"
    proof (cases "prefix ''/'' (text_of u) \<and> fst (command_of (text_of u)) = ''/killswitch''")
      case True
      then have "quiet (?b\<lparr>bp_pending := AList.update user (be_now env) (bp_pending ?b)\<rparr>) b'"
        unfolding command(3) by (simp add: run_killswitch cmd_killswitch_def reply_def quiet_emit)
      then show ?thesis by (intro exI conjI) auto
    next
      case False
      from quiet_run_command [OF this, of env chat user] have "quiet ?b b'" unfolding command(3) by (simp add: quiet_action_def)
      then show ?thesis by (intro exI [of _ ?b]) simp
    qed
    with drop show ?thesis by blast
  qed
qed

definition ex_bot :: bot where
  "ex_bot = \<lparr>bp_token = ''t'', bp_authorized = [7], bp_offset = 0, bp_pending = [], bp_sessions = [], bp_effects = []\<rparr>"

definition ex_bot_env :: "datetime \<Rightarrow> bot_env" where
  "ex_bot_env now = \<lparr>be_text = ex_text_env, be_api = (\<lambda>_. Inr (200, JsObj [])), be_now = now, be_uuid = ''u''\<rparr>"

definition ex_update :: "int \<Rightarrow> string \<Rightarrow> tg_update" where
  "ex_update user t = \<lparr>up_id = 1, up_user = Some user, up_chat = Some 9, up_text = Some t\<rparr>"

lemma ex_new_bot: "new_bot ''t'' ''7'' = Inr ex_bot"
  by (simp add: new_bot_def py_isdigit_def py_strip_def py_int_of_def is_blank_def digit_of_def ex_bot_def Let_def)

lemma ex_killswitch_text: "py_strip ''/killswitch'' = ''/killswitch''" "py_strip KILLSWITCH_CONFIRM = KILLSWITCH_CONFIRM"
  "command_of ''/killswitch'' = (''/killswitch'', [])"
  by (simp_all add: py_strip_def is_blank_def KILLSWITCH_CONFIRM_def command_of_def py_lower_def py_lower_char_def)

lemma ex_armed:
  "handle_updates [(ex_bot_env 0, ex_update 7 ''/killswitch'')] ex_bot = snd (cmd_killswitch (ex_bot_env 0) 9 7 ex_bot)"
  by (simp add: handle_update_def ex_update_def ex_killswitch_text Let_def run_killswitch ex_bot_def)

lemma ex_confirmed:
  "\<exists>r b' es. handle_update (ex_bot_env 60000000) (ex_update 7 KILLSWITCH_CONFIRM) (snd (cmd_killswitch (ex_bot_env 0) 9 7 ex_bot)) = (r, b') \<and>
     bp_effects b' = bp_effects (snd (cmd_killswitch (ex_bot_env 0) 9 7 ex_bot)) @ es \<and> Called killswitch_call \<in> set es"
proof -
  have "KILLSWITCH_CONFIRM \<noteq> []" "py_lower KILLSWITCH_CONFIRM = KILLSWITCH_CONFIRM"
    by (simp_all add: KILLSWITCH_CONFIRM_def py_lower_def py_lower_char_def)
  then show ?thesis
    by (simp add: handle_update_def ex_update_def ex_killswitch_text Let_def cmd_killswitch_def cmd_killswitch_confirm_def reply_def emit_def
        request_ok_def request_def ex_bot_env_def ex_bot_def KILLSWITCH_FSM_TTL_S_def shown_def dict_getd_def)
qed

theorem killswitch_needs_confirmation_witness:
  "\<exists>user env0 u0. heard user (ex_bot_env 60000000, ex_update 7 KILLSWITCH_CONFIRM) \<and>
     last_heard user [(ex_bot_env 0, ex_update 7 ''/killswitch'')] = Some (env0, u0) \<and> fst (command_of (text_of u0)) = ''/killswitch''"
proof -
  obtain r b' es where r: "handle_update (ex_bot_env 60000000) (ex_update 7 KILLSWITCH_CONFIRM)
      (handle_updates [(ex_bot_env 0, ex_update 7 ''/killswitch'')] ex_bot) = (r, b')"
    "bp_effects b' = bp_effects (handle_updates [(ex_bot_env 0, ex_update 7 ''/killswitch'')] ex_bot) @ es"
    "Called killswitch_call \<in> set es"
    using ex_confirmed unfolding ex_armed by blast
  from killswitch_needs_confirmation [OF ex_new_bot r] show ?thesis by blast
qed

text \<open>A stranger gets nothing but a refusal. Handling any updates none of which comes from an authorized user
  makes no request, leaves sessions, pending confirmations and the authorized users as they were, and answers only
  with refusals, one for each message with text.\<close>

theorem strangers_are_refused:
  assumes "list_all (\<lambda>(env, u). case up_user u of Some user \<Rightarrow> user \<notin> set (bp_authorized b) | None \<Rightarrow> True) us"
  shows "\<exists>es. handle_updates us b = b\<lparr>bp_effects := bp_effects b @ es\<rparr> \<and>
    list_all (\<lambda>e. \<exists>chat. e = Reply chat [FUni 9940, FTxt '' not authorized'']) es \<and>
    length es = length (filter (\<lambda>m. \<exists>user. heard user m) us)"
  using assms
proof (induction us arbitrary: b)
  case Nil
  then show ?case by (intro exI [of _ "[]"]) simp
next
  case (Cons eu us)
  obtain env u where eu: "eu = (env, u)" by (cases eu)
  obtain r b' where r: "handle_update env u b = (r, b')" by fastforce
  have stranger: "heard user (env, u) \<Longrightarrow> user \<notin> set (bp_authorized b)" for user
    using Cons.prems eu by (auto simp: heard_def)
  from r have "\<exists>e. b' = b\<lparr>bp_effects := bp_effects b @ e\<rparr> \<and> list_all (\<lambda>e. \<exists>chat. e = Reply chat [FUni 9940, FTxt '' not authorized'']) e \<and>
      length e = (if \<exists>user. heard user (env, u) then 1 else 0)"
  proof (cases rule: handle_update_cases)
    case unheard
    then show ?thesis by (intro exI [of _ "[]"]) simp
  next
    case (refused user chat)
    then show ?thesis by (intro exI [of _ "[Reply chat [FUni 9940, FTxt '' not authorized'']]"]) (auto simp: emit_def)
  qed (use stranger in auto)
  then obtain e where e: "b' = b\<lparr>bp_effects := bp_effects b @ e\<rparr>" "list_all (\<lambda>e. \<exists>chat. e = Reply chat [FUni 9940, FTxt '' not authorized'']) e"
    "length e = (if \<exists>user. heard user (env, u) then 1 else 0)" by blast
  from Cons.prems have "list_all (\<lambda>(env, u). case up_user u of Some user \<Rightarrow> user \<notin> set (bp_authorized b') | None \<Rightarrow> True) us"
    unfolding handle_update_authorized [OF r] by simp
  from Cons.IH [OF this] obtain es where es: "handle_updates us b' = b'\<lparr>bp_effects := bp_effects b' @ es\<rparr>"
    "list_all (\<lambda>e. \<exists>chat. e = Reply chat [FUni 9940, FTxt '' not authorized'']) es" "length es = length (filter (\<lambda>m. \<exists>user. heard user m) us)"
    by blast
  with e show ?case by (intro exI [of _ "e @ es"]) (simp add: eu r)
qed

theorem strangers_are_refused_witness:
  "\<exists>es. handle_updates [(ex_bot_env 0, ex_update 8 ''/killswitch'')] ex_bot = ex_bot\<lparr>bp_effects := es\<rparr> \<and> length es = 1"
proof -
  have "list_all (\<lambda>(env, u). case up_user u of Some user \<Rightarrow> user \<notin> set (bp_authorized ex_bot) | None \<Rightarrow> True)
      [(ex_bot_env 0, ex_update 8 ''/killswitch'')]" by (simp add: ex_update_def ex_bot_def)
  moreover have "heard 8 (ex_bot_env 0, ex_update 8 ''/killswitch'')" by (simp add: heard_def ex_update_def ex_killswitch_text)
  moreover have "bp_effects ex_bot = []" by (simp add: ex_bot_def)
  ultimately show ?thesis using strangers_are_refused [of ex_bot "[(ex_bot_env 0, ex_update 8 ''/killswitch'')]"] by fastforce
qed

end
