(* ===== verification/Copilot.thy ===== *)
theory Copilot
  imports Json
begin

text \<open>
  The research copilot: \<open>llm/pricing.py\<close>, \<open>llm/rate_limit.py\<close>, \<open>llm/store.py\<close>, \<open>llm/client.py\<close>,
  \<open>llm/prompt.py\<close>, the reference handling of \<open>llm/context_loader.py\<close> and the turn of
  \<open>llm/orchestrator.py\<close>. The two tables, \<open>llm_usage_daily\<close> and \<open>llm_conversations\<close>, are dictionaries; the
  provider is a function of the request body. The bodies of the loaded contexts, the text of the system
  prompt and the day are inputs of a turn. Turns run one after the other.
\<close>

section \<open>Pricing\<close>

record model_price =
  mp_in_per_million_usd :: real
  mp_out_per_million_usd :: real
  mp_context_tokens :: int

definition mk_price :: "real \<Rightarrow> real \<Rightarrow> int \<Rightarrow> model_price" where
  "mk_price i out ctx = \<lparr>mp_in_per_million_usd = i, mp_out_per_million_usd = out, mp_context_tokens = ctx\<rparr>"

definition MODEL_PRICING :: "(string, model_price) dict" where
  "MODEL_PRICING =
     [(''qwen/qwen3-max'', mk_price (78 / 100) (390 / 100) 262144),
      (''anthropic/claude-sonnet-4.6'', mk_price 3 15 1000000),
      (''anthropic/claude-opus-4.6'', mk_price 5 25 1000000),
      (''openai/gpt-4o-mini'', mk_price (15 / 100) (60 / 100) 128000),
      (''meta-llama/llama-3.3-70b-instruct'', mk_price (10 / 100) (32 / 100) 131072)]"

definition allowed :: "string \<Rightarrow> bool" where
  "allowed model \<longleftrightarrow> map_of MODEL_PRICING model \<noteq> None"

definition cost_usd :: "string \<Rightarrow> int \<Rightarrow> int \<Rightarrow> py_error + real" where
  "cost_usd model tokens_in tokens_out =
     (case map_of MODEL_PRICING model of
        None \<Rightarrow> Inl (KeyError model)
      | Some p \<Rightarrow> Inr (py_round_to 6 (of_int tokens_in / 1000000 * mp_in_per_million_usd p +
                                      of_int tokens_out / 1000000 * mp_out_per_million_usd p)))"

section \<open>Context references\<close>

definition BYTE_BUDGET :: "(string, nat) dict" where
  "BYTE_BUDGET = [(''backtest'', 16000), (''strategy'', 24000), (''recent_trades'', 6000), (''paper_stats'', 2000), (''adr'', 8000)]"

record context_ref =
  cr_type :: string
  cr_id :: string

text \<open>The two fields as the payload has them, \<open>None\<close> for a missing one. A type outside ASCII is not in the
  table, whatever lower case it has.\<close>

definition parse_ref :: "string option \<Rightarrow> string option \<Rightarrow> py_error + context_ref" where
  "parse_ref t0 i0 =
     (let t = ascii_lower (py_strip (case t0 of Some s \<Rightarrow> s | None \<Rightarrow> []));
          i = py_strip (case i0 of Some s \<Rightarrow> s | None \<Rightarrow> [])
      in if map_of BYTE_BUDGET t = None then Inl (ValueError ''context type not allowed'')
         else if i = [] then Inl (ValueError ''context id empty'')
         else Inr \<lparr>cr_type = t, cr_id = i\<rparr>)"

record loaded_context =
  lc_ref :: context_ref
  lc_body :: string
  lc_truncated_bytes :: nat

definition replace_char :: "char \<Rightarrow> string \<Rightarrow> string \<Rightarrow> string" where
  "replace_char c r s = concat (map (\<lambda>x. if x = c then r else [x]) s)"

definition quote_char :: char where
  "quote_char = CHR 0x22"

definition esc_attr :: "string \<Rightarrow> string" where
  "esc_attr v = replace_char (CHR ''<'') ''&lt;'' (replace_char quote_char ''&quot;'' (replace_char (CHR ''&'') ''&amp;'' v))"

definition line_end :: string where
  "line_end = [CHR 0x0A]"

definition render_context :: "loaded_context \<Rightarrow> string" where
  "render_context c =
     (let attr = ''type='' @ [quote_char] @ cr_type (lc_ref c) @ [quote_char] @ '' id='' @ [quote_char] @ esc_attr (cr_id (lc_ref c)) @ [quote_char];
          suffix = (if lc_truncated_bytes c \<noteq> 0 then line_end @ ''[truncated '' @ show_int (int (lc_truncated_bytes c)) @ '' bytes]'' else [])
      in ''<context '' @ attr @ ''>'' @ line_end @ lc_body c @ suffix @ line_end @ ''</context>'')"

definition sanitize :: "string \<Rightarrow> string" where
  "sanitize s = filter (\<lambda>c. let k = (of_char c :: nat) in \<not> (k < 32 \<and> k \<noteq> 9 \<and> k \<noteq> 10 \<and> k \<noteq> 13 \<or> k = 127)) s"

definition budget_trim :: "string \<Rightarrow> nat \<Rightarrow> string \<times> nat" where
  "budget_trim body budget = (if length body \<le> budget then (body, 0) else (take budget body, length body - budget))"

section \<open>Messages\<close>

record chat_message =
  cm_role :: string
  cm_content :: string

fun render_contexts :: "loaded_context list \<Rightarrow> string" where
  "render_contexts [] = ''<context>'' @ line_end @ ''[no context refs supplied for this turn]'' @ line_end @ ''</context>''"
| "render_contexts [c] = render_context c"
| "render_contexts (c # d # cs) = render_context c @ line_end @ line_end @ render_contexts (d # cs)"

definition build_messages :: "string \<Rightarrow> string \<Rightarrow> chat_message list \<Rightarrow> loaded_context list \<Rightarrow> chat_message list" where
  "build_messages system_prompt user_message history contexts =
     [\<lparr>cm_role = ''system'', cm_content = system_prompt @ line_end @ line_end @ render_contexts contexts\<rparr>] @
     filter (\<lambda>m. cm_role m \<in> {''user'', ''assistant''} \<and> cm_content m \<noteq> []) history @
     [\<lparr>cm_role = ''user'', cm_content = user_message\<rparr>]"

section \<open>The chat client\<close>

datatype llm_error = LLMError fstring | LLMPolicyError fstring | RateLimitError fstring int "int option" | BadRequest py_error

record chat_result =
  ch_model :: string
  ch_content :: string
  ch_tokens_in :: int
  ch_tokens_out :: int
  ch_cost_usd :: real
  ch_raw_finish_reason :: json

definition BLOCKED_REQUEST_KEYS :: "string list" where
  "BLOCKED_REQUEST_KEYS = [''tools'', ''tool_choice'', ''function_call'', ''functions'']"

definition message_json :: "chat_message \<Rightarrow> json" where
  "message_json m = JsObj [(''role'', JsStr (cm_role m)), (''content'', JsStr (cm_content m))]"

fun add_extra :: "(string \<times> json) list \<Rightarrow> (string \<times> json) list \<Rightarrow> (string \<times> json) list" where
  "add_extra [] body = body"
| "add_extra ((k, v) # kvs) body = add_extra kvs (if k \<in> set BLOCKED_REQUEST_KEYS then body else AList.update k v body)"

definition request_body :: "string \<Rightarrow> chat_message list \<Rightarrow> int \<Rightarrow> real \<Rightarrow> (string \<times> json) list \<Rightarrow> (string \<times> json) list" where
  "request_body model messages max_tokens temperature extra =
     add_extra extra [(''model'', JsStr model), (''messages'', JsArr (map message_json messages)), (''temperature'', JsNum temperature),
       (''stream'', JsBool False), (''max_tokens'', JsInt max_tokens)]"

fun js_token_count :: "json \<Rightarrow> py_error + int" where
  "js_token_count (JsInt i) = Inr i"
| "js_token_count (JsBool b) = Inr (if b then 1 else 0)"
| "js_token_count (JsNum x) = Inr (py_int x)"
| "js_token_count (JsStr s) = (case py_int_of s of Some i \<Rightarrow> Inr i | None \<Rightarrow> Inl (ValueError s))"
| "js_token_count _ = Inl TypeError"

fun lift_err :: "py_error + 'a \<Rightarrow> llm_error + 'a" where
  "lift_err (Inl e) = Inl (BadRequest e)"
| "lift_err (Inr x) = Inr x"

text \<open>The reading of a response body. A content that is not text counts as text only when it is one.\<close>

definition read_response :: "string \<Rightarrow> json \<Rightarrow> llm_error + chat_result" where
  "read_response model data =
     bind_r (lift_err (js_get ''choices'' data)) (\<lambda>cs.
     if \<not> truthy cs then Inl (LLMError (ftext ''openrouter returned no choices''))
     else bind_r (lift_err (js_index cs 0)) (\<lambda>choice.
     bind_r (lift_err (js_get ''message'' choice)) (\<lambda>m0. let msg = js_or m0 (JsObj []) in
     bind_r (lift_err (bind_r (js_get ''tool_calls'' msg) (\<lambda>a. bind_r (js_get ''function_call'' msg) (\<lambda>b. Inr (truthy a \<or> truthy b))))) (\<lambda>tool.
     if tool then Inl (LLMPolicyError (ftext ''provider returned tool-use payload; discarded''))
     else bind_r (lift_err (js_get ''content'' msg)) (\<lambda>c0.
     bind_r (lift_err (js_get ''usage'' data)) (\<lambda>u0. let usage = js_or u0 (JsObj []) in
     bind_r (lift_err (bind_r (js_get ''prompt_tokens'' usage) (\<lambda>v. js_token_count (js_or v (JsInt 0))))) (\<lambda>t_in.
     bind_r (lift_err (bind_r (js_get ''completion_tokens'' usage) (\<lambda>v. js_token_count (js_or v (JsInt 0))))) (\<lambda>t_out.
     bind_r (lift_err (js_get ''finish_reason'' choice)) (\<lambda>finish.
     bind_r (lift_err (cost_usd model t_in t_out)) (\<lambda>cost.
     (case js_or c0 (JsStr []) of
        JsStr content \<Rightarrow> Inr \<lparr>ch_model = model, ch_content = content, ch_tokens_in = t_in, ch_tokens_out = t_out, ch_cost_usd = cost,
          ch_raw_finish_reason = finish\<rparr>
      | _ \<Rightarrow> Inl (BadRequest TypeError))))))))))))"

text \<open>The provider: a transport error with its text, or a response with its text and what \<open>json()\<close> gives.\<close>

record provider_response =
  lr_status :: int
  lr_text :: string
  lr_json :: "string + json"

type_synonym provider = "(string \<times> json) list \<Rightarrow> string + provider_response"

definition chat_completion :: "provider \<Rightarrow> string \<Rightarrow> string \<Rightarrow> chat_message list \<Rightarrow> int \<Rightarrow> llm_error + chat_result" where
  "chat_completion post api_key model messages max_tokens =
     (if \<not> allowed model then Inl (LLMError [FTxt ''model not whitelisted: '', FStr model])
      else if api_key = [] then Inl (LLMError (ftext ''OPENROUTER_API_KEY not configured''))
      else (case post (request_body model messages max_tokens (3 / 10) []) of
          Inl e \<Rightarrow> Inl (LLMError [FTxt ''openrouter transport error: '', FStr e])
        | Inr r \<Rightarrow>
            if lr_status r \<ge> 400 then Inl (LLMError [FTxt ''openrouter '', FInt (lr_status r), FTxt '': '', FStr (take 400 (lr_text r))])
            else (case lr_json r of
                Inl e \<Rightarrow> Inl (LLMError [FTxt ''openrouter bad json: '', FStr e])
              | Inr data \<Rightarrow> read_response model data)))"

section \<open>Limits and persistence\<close>

record daily_usage =
  du_sessions :: int
  du_tokens :: int
  du_cost_usd :: real

record conversation =
  cv_user_id :: string
  cv_model :: string
  cv_messages :: "chat_message list"
  cv_context_refs :: "context_ref list"
  cv_tokens_in :: int
  cv_tokens_out :: int
  cv_cost_usd :: real

record llm_db =
  ld_usage :: "(int \<times> string, daily_usage) dict"
  ld_conversations :: "(string, conversation) dict"

record llm_settings =
  ls_max_sessions_per_day :: int
  ls_max_tokens_per_session :: int
  ls_max_daily_cost_usd :: real
  ls_max_reply_tokens :: int
  ls_default_model :: string
  ls_api_key :: string
  ls_system_prompt :: string

definition current_usage :: "int \<Rightarrow> string \<Rightarrow> llm_db \<Rightarrow> daily_usage" where
  "current_usage today user db = dict_getd (ld_usage db) (today, user) \<lparr>du_sessions = 0, du_tokens = 0, du_cost_usd = 0\<rparr>"

definition seconds_until_utc_midnight :: "datetime \<Rightarrow> int" where
  "seconds_until_utc_midnight now = max 0 (((now div 86400000000 + 1) * 86400000000 - now) div 1000000)"

definition check_before_turn :: "llm_settings \<Rightarrow> datetime \<Rightarrow> string \<Rightarrow> bool \<Rightarrow> int \<Rightarrow> llm_db \<Rightarrow> llm_error option" where
  "check_before_turn s now user is_first_turn session_tokens_so_far db =
     (if session_tokens_so_far \<ge> ls_max_tokens_per_session s then Some (RateLimitError [FTxt ''session capped at '', FInt (ls_max_tokens_per_session s), FTxt '' tokens; /ask_reset''] 403 None)
      else (let usage = current_usage (now div 86400000000) user db
            in if du_cost_usd usage \<ge> ls_max_daily_cost_usd s
               then Some (RateLimitError [FTxt ''daily cost cap $'', FNum 2 (ls_max_daily_cost_usd s), FTxt '' reached''] 429 (Some (seconds_until_utc_midnight now)))
               else if is_first_turn \<and> du_sessions usage \<ge> ls_max_sessions_per_day s
               then Some (RateLimitError [FTxt ''daily session cap '', FInt (ls_max_sessions_per_day s), FTxt '' reached''] 429 (Some (seconds_until_utc_midnight now)))
               else None))"

definition record_turn :: "int \<Rightarrow> string \<Rightarrow> bool \<Rightarrow> int \<Rightarrow> real \<Rightarrow> llm_db \<Rightarrow> llm_db" where
  "record_turn today user is_first_turn tokens_added cost_added db =
     (let u = current_usage today user db
      in db\<lparr>ld_usage := AList.update (today, user)
           \<lparr>du_sessions = du_sessions u + (if is_first_turn then 1 else 0), du_tokens = du_tokens u + tokens_added,
            du_cost_usd = du_cost_usd u + cost_added\<rparr> (ld_usage db)\<rparr>)"

text \<open>\<open>INSERT \<dots> ON CONFLICT (session_id) DO UPDATE\<close>: the user of an existing row is kept.\<close>

definition upsert_turn :: "string \<Rightarrow> conversation \<Rightarrow> llm_db \<Rightarrow> llm_db" where
  "upsert_turn session_id cv db =
     (let cv' = (case map_of (ld_conversations db) session_id of
                   Some old \<Rightarrow> cv\<lparr>cv_user_id := cv_user_id old\<rparr> | None \<Rightarrow> cv)
      in db\<lparr>ld_conversations := AList.update session_id cv' (ld_conversations db)\<rparr>)"

record turn_input =
  ti_now :: datetime
  ti_recorded_at :: datetime
  ti_session_id :: string
  ti_user_id :: string
  ti_message :: string
  ti_refs :: "(string option \<times> string option) list"
  ti_contexts :: "loaded_context list"
  ti_model :: "string option"

fun parse_refs :: "(string option \<times> string option) list \<Rightarrow> py_error + context_ref list" where
  "parse_refs [] = Inr []"
| "parse_refs ((t, i) # rs) = bind_r (parse_ref t i) (\<lambda>r. bind_r (parse_refs rs) (\<lambda>rest. Inr (r # rest)))"

definition turn_model :: "llm_settings \<Rightarrow> turn_input \<Rightarrow> string" where
  "turn_model s ti = (case ti_model ti of Some m \<Rightarrow> if m \<noteq> [] then m else ls_default_model s | None \<Rightarrow> ls_default_model s)"

definition prior_tokens :: "conversation option \<Rightarrow> int" where
  "prior_tokens prior = (case prior of Some p \<Rightarrow> cv_tokens_in p + cv_tokens_out p | None \<Rightarrow> 0)"

definition prior_history :: "conversation option \<Rightarrow> chat_message list" where
  "prior_history prior = filter (\<lambda>m. cm_role m \<noteq> ''system'') (case prior of Some p \<Rightarrow> cv_messages p | None \<Rightarrow> [])"

definition turn_conversation :: "turn_input \<Rightarrow> string \<Rightarrow> context_ref list \<Rightarrow> conversation option \<Rightarrow> chat_result \<Rightarrow> conversation" where
  "turn_conversation ti model refs prior r =
     \<lparr>cv_user_id = ti_user_id ti, cv_model = model,
      cv_messages = prior_history prior @ [\<lparr>cm_role = ''user'', cm_content = ti_message ti\<rparr>,
        \<lparr>cm_role = ''assistant'', cm_content = ch_content r\<rparr>],
      cv_context_refs = refs,
      cv_tokens_in = (case prior of Some p \<Rightarrow> cv_tokens_in p | None \<Rightarrow> 0) + ch_tokens_in r,
      cv_tokens_out = (case prior of Some p \<Rightarrow> cv_tokens_out p | None \<Rightarrow> 0) + ch_tokens_out r,
      cv_cost_usd = (case prior of Some p \<Rightarrow> cv_cost_usd p | None \<Rightarrow> 0) + ch_cost_usd r\<rparr>"

definition run_turn :: "provider \<Rightarrow> llm_settings \<Rightarrow> turn_input \<Rightarrow> llm_db \<Rightarrow> (llm_error + chat_result) \<times> llm_db" where
  "run_turn post s ti db =
     (let model = turn_model s ti
      in if \<not> allowed model then (Inl (LLMError [FTxt ''model not whitelisted: '', FStr model]), db)
         else (case parse_refs (ti_refs ti) of
             Inl e \<Rightarrow> (Inl (BadRequest e), db)
           | Inr refs \<Rightarrow>
               (let prior = map_of (ld_conversations db) (ti_session_id ti);
                    is_first_turn = (prior = None)
                in case check_before_turn s (ti_now ti) (ti_user_id ti) is_first_turn (prior_tokens prior) db of
                     Some e \<Rightarrow> (Inl e, db)
                   | None \<Rightarrow>
                       (case chat_completion post (ls_api_key s) model
                          (build_messages (ls_system_prompt s) (ti_message ti) (prior_history prior) (ti_contexts ti)) (ls_max_reply_tokens s) of
                          Inl e \<Rightarrow> (Inl e, db)
                        | Inr r \<Rightarrow>
                            (Inr r,
                             record_turn (ti_recorded_at ti div 86400000000) (ti_user_id ti) is_first_turn
                               (ch_tokens_in r + ch_tokens_out r) (ch_cost_usd r)
                               (upsert_turn (ti_session_id ti) (turn_conversation ti model refs prior r) db))))))"

section \<open>Turns and limits\<close>

text \<open>A response that asks for a tool.\<close>

definition wants_tool :: "json \<Rightarrow> bool" where
  "wants_tool data \<longleftrightarrow>
     (\<exists>d choice rest msg. data = JsObj d \<and> map_of d ''choices'' = Some (JsArr (JsObj choice # rest)) \<and>
        map_of choice ''message'' = Some (JsObj msg) \<and>
        (truthy (dict_getd msg ''tool_calls'' JsNull) \<or> truthy (dict_getd msg ''function_call'' JsNull)))"

lemma read_response_tool:
  assumes "wants_tool data"
  shows "read_response model data = Inl (LLMPolicyError (ftext ''provider returned tool-use payload; discarded''))"
proof -
  from assms obtain d choice rest msg where "data = JsObj d" "map_of d ''choices'' = Some (JsArr (JsObj choice # rest))"
    "map_of choice ''message'' = Some (JsObj msg)" "truthy (dict_getd msg ''tool_calls'' JsNull) \<or> truthy (dict_getd msg ''function_call'' JsNull)"
    by (auto simp: wants_tool_def)
  moreover from this(4) have "msg \<noteq> []" by (auto simp: dict_getd_def)
  ultimately show ?thesis by (simp add: read_response_def dict_getd_def js_or_def Let_def)
qed

lemma read_response_model: "read_response model data = Inr r \<Longrightarrow> ch_model r = model \<and> cost_usd model (ch_tokens_in r) (ch_tokens_out r) = Inr (ch_cost_usd r)"
  by (auto simp: read_response_def bind_r_def Let_def split: sum.splits if_splits json.splits elim!: lift_err.elims)

lemma chat_completion_Inr:
  assumes "chat_completion post key model ms n = Inr r"
  obtains resp data where "post (request_body model ms n (3 / 10) []) = Inr resp" "lr_json resp = Inr data" "read_response model data = Inr r"
  using assms by (auto simp: chat_completion_def split: if_splits sum.splits)

text \<open>An accepted turn: every limit was open, the answer came from the whitelisted model, and the two rows
  are written. Any other turn leaves the tables alone.\<close>

lemma run_turn_cases:
  fixes post s ti db
  defines "prior \<equiv> map_of (ld_conversations db) (ti_session_id ti)"
  obtains (failed) e where "run_turn post s ti db = (Inl e, db)"
  | (answered) r data refs where "allowed (turn_model s ti)"
      "check_before_turn s (ti_now ti) (ti_user_id ti) (prior = None) (prior_tokens prior) db = None"
      "read_response (turn_model s ti) data = Inr r"
      "run_turn post s ti db = (Inr r, record_turn (ti_recorded_at ti div 86400000000) (ti_user_id ti) (prior = None)
         (ch_tokens_in r + ch_tokens_out r) (ch_cost_usd r)
         (upsert_turn (ti_session_id ti) (turn_conversation ti (turn_model s ti) refs prior r) db))"
proof -
  let ?chat = "chat_completion post (ls_api_key s) (turn_model s ti)
      (build_messages (ls_system_prompt s) (ti_message ti) (prior_history prior) (ti_contexts ti)) (ls_max_reply_tokens s)"
  show thesis
  proof (cases "\<exists>r refs. allowed (turn_model s ti) \<and> parse_refs (ti_refs ti) = Inr refs \<and>
      check_before_turn s (ti_now ti) (ti_user_id ti) (prior = None) (prior_tokens prior) db = None \<and> ?chat = Inr r")
    case True
    then obtain r refs where ok: "allowed (turn_model s ti)" "parse_refs (ti_refs ti) = Inr refs"
      "check_before_turn s (ti_now ti) (ti_user_id ti) (prior = None) (prior_tokens prior) db = None" "?chat = Inr r" by blast
    obtain data where data: "read_response (turn_model s ti) data = Inr r" using ok(4) by (rule chat_completion_Inr)
    have run: "run_turn post s ti db = (Inr r, record_turn (ti_recorded_at ti div 86400000000) (ti_user_id ti) (prior = None)
         (ch_tokens_in r + ch_tokens_out r) (ch_cost_usd r)
         (upsert_turn (ti_session_id ti) (turn_conversation ti (turn_model s ti) refs prior r) db))"
      using ok by (simp add: run_turn_def prior_def [symmetric] Let_def)
    show thesis by (rule answered [OF ok(1,3) data run])
  next
    case False
    then have "\<exists>e. run_turn post s ti db = (Inl e, db)"
      by (auto simp: run_turn_def prior_def [symmetric] Let_def split: sum.split option.split)
    with failed show thesis by blast
  qed
qed

lemma check_before_turn_None:
  "check_before_turn s now user first tokens db = None \<longleftrightarrow>
     tokens < ls_max_tokens_per_session s \<and> du_cost_usd (current_usage (now div 86400000000) user db) < ls_max_daily_cost_usd s \<and>
     (first \<longrightarrow> du_sessions (current_usage (now div 86400000000) user db) < ls_max_sessions_per_day s)"
  by (auto simp: check_before_turn_def Let_def)

text \<open>A turn of the copilot is all or nothing. If it fails, for whatever reason, both tables are as before;
  if it succeeds, the model is whitelisted, the session had tokens left, the user's cost of the day was
  below the cap and, on a first turn, sessions were left; the cost is the priced number of tokens; and a
  response that asks for a tool never succeeds.\<close>

theorem copilot_turn_all_or_nothing:
  "(case run_turn post s ti db of
      (Inl e, db') \<Rightarrow> db' = db
    | (Inr r, db') \<Rightarrow> allowed (ch_model r) \<and> ch_model r = turn_model s ti \<and>
        prior_tokens (map_of (ld_conversations db) (ti_session_id ti)) < ls_max_tokens_per_session s \<and>
        du_cost_usd (current_usage (ti_now ti div 86400000000) (ti_user_id ti) db) < ls_max_daily_cost_usd s \<and>
        (map_of (ld_conversations db) (ti_session_id ti) = None \<longrightarrow>
         du_sessions (current_usage (ti_now ti div 86400000000) (ti_user_id ti) db) < ls_max_sessions_per_day s) \<and>
        cost_usd (ch_model r) (ch_tokens_in r) (ch_tokens_out r) = Inr (ch_cost_usd r)) \<and>
   (wants_tool data \<longrightarrow> read_response model data = Inl (LLMPolicyError (ftext ''provider returned tool-use payload; discarded'')))"
proof -
  have "case run_turn post s ti db of
      (Inl e, db') \<Rightarrow> db' = db
    | (Inr r, db') \<Rightarrow> allowed (ch_model r) \<and> ch_model r = turn_model s ti \<and>
        prior_tokens (map_of (ld_conversations db) (ti_session_id ti)) < ls_max_tokens_per_session s \<and>
        du_cost_usd (current_usage (ti_now ti div 86400000000) (ti_user_id ti) db) < ls_max_daily_cost_usd s \<and>
        (map_of (ld_conversations db) (ti_session_id ti) = None \<longrightarrow>
         du_sessions (current_usage (ti_now ti div 86400000000) (ti_user_id ti) db) < ls_max_sessions_per_day s) \<and>
        cost_usd (ch_model r) (ch_tokens_in r) (ch_tokens_out r) = Inr (ch_cost_usd r)"
  proof (cases rule: run_turn_cases [of post s ti db])
    case (answered r data refs)
    with read_response_model [OF answered(3)] show ?thesis by (auto simp: check_before_turn_None)
  qed simp
  with read_response_tool [of data model] show ?thesis by simp
qed

definition empty_llm_db :: llm_db where
  "empty_llm_db = \<lparr>ld_usage = [], ld_conversations = []\<rparr>"

definition ex_llm_settings :: llm_settings where
  "ex_llm_settings = \<lparr>ls_max_sessions_per_day = 1, ls_max_tokens_per_session = 100, ls_max_daily_cost_usd = 10, ls_max_reply_tokens = 50,
     ls_default_model = ''openai/gpt-4o-mini'', ls_api_key = ''k'', ls_system_prompt = ''p''\<rparr>"

definition ex_provider :: provider where
  "ex_provider body = Inr \<lparr>lr_status = 200, lr_text = [], lr_json = Inr (JsObj [
     (''choices'', JsArr [JsObj [(''message'', JsObj [(''content'', JsStr ''hi'')])]]),
     (''usage'', JsObj [(''prompt_tokens'', JsInt 60), (''completion_tokens'', JsInt 40)])])\<rparr>"

definition ex_turn :: "string \<Rightarrow> turn_input" where
  "ex_turn sid = \<lparr>ti_now = 0, ti_recorded_at = 5, ti_session_id = sid, ti_user_id = ''u'', ti_message = ''m'', ti_refs = [], ti_contexts = [],
     ti_model = None\<rparr>"

definition ex_tool_response :: json where
  "ex_tool_response = JsObj [(''choices'', JsArr [JsObj [(''message'', JsObj [(''tool_calls'', JsArr [JsStr ''order''])])]])]"

theorem copilot_turn_all_or_nothing_witness:
  "(case run_turn ex_provider ex_llm_settings (ex_turn ''a'') empty_llm_db of
      (Inr r, db') \<Rightarrow> ch_model r = ''openai/gpt-4o-mini'' \<and> ch_tokens_in r = 60
    | (Inl e, db') \<Rightarrow> False) \<and>
   read_response ''m'' ex_tool_response = Inl (LLMPolicyError (ftext ''provider returned tool-use payload; discarded''))"
  using copilot_turn_all_or_nothing [where post = ex_provider and s = ex_llm_settings and ti = "ex_turn ''a''" and db = empty_llm_db
      and data = ex_tool_response and model = "''m''"]
  by (simp add: run_turn_def turn_model_def ex_turn_def ex_llm_settings_def allowed_def MODEL_PRICING_def empty_llm_db_def
      check_before_turn_def current_usage_def dict_getd_def prior_tokens_def chat_completion_def ex_provider_def read_response_def
      js_or_def cost_usd_def wants_tool_def ex_tool_response_def bind_r_def Let_def)

section \<open>The two ledgers\<close>

definition total_of :: "('v \<Rightarrow> 'a::ab_group_add) \<Rightarrow> ('k, 'v) dict \<Rightarrow> 'a" where
  "total_of f d = sum_list (map f (values_of d))"

lemma total_of_update:
  "distinct (keys_of d) \<Longrightarrow>
   total_of f (AList.update k v d) = total_of f d + f v - (case map_of d k of Some w \<Rightarrow> f w | None \<Rightarrow> 0)"
proof (induction d)
  case (Cons e d)
  obtain k' w where e: "e = (k', w)" by (cases e)
  show ?case
  proof (cases "k' = k")
    case True
    with e show ?thesis by (simp add: total_of_def)
  next
    case False
    with e Cons show ?thesis by (simp add: total_of_def algebra_simps split: option.splits)
  qed
qed (simp add: total_of_def)

lemma length_update: "distinct (keys_of d) \<Longrightarrow> length (AList.update k v d) = length d + (if map_of d k = None then 1 else 0)"
  by (induction d) (auto split: if_splits)

definition llm_run :: "provider \<Rightarrow> llm_settings \<Rightarrow> turn_input list \<Rightarrow> llm_db \<Rightarrow> llm_db" where
  "llm_run post s tis db = fold (\<lambda>ti d. snd (run_turn post s ti d)) tis db"

definition ledgers_inv :: "llm_settings \<Rightarrow> llm_db \<Rightarrow> bool" where
  "ledgers_inv s db \<longleftrightarrow> distinct (keys_of (ld_usage db)) \<and> distinct (keys_of (ld_conversations db)) \<and>
     total_of du_cost_usd (ld_usage db) = total_of cv_cost_usd (ld_conversations db) \<and>
     total_of du_tokens (ld_usage db) = total_of (\<lambda>c. cv_tokens_in c + cv_tokens_out c) (ld_conversations db) \<and>
     total_of du_sessions (ld_usage db) = int (length (ld_conversations db)) \<and>
     (\<forall>day user. du_sessions (current_usage day user db) \<le> max 0 (ls_max_sessions_per_day s))"

lemma current_usage_record:
  "current_usage day user (record_turn day' user' first n c (upsert_turn sid cv db)) =
     (if (day, user) = (day', user')
      then \<lparr>du_sessions = du_sessions (current_usage day user db) + (if first then 1 else 0), du_tokens = du_tokens (current_usage day user db) + n,
            du_cost_usd = du_cost_usd (current_usage day user db) + c\<rparr>
      else current_usage day user db)"
  by (auto simp: record_turn_def upsert_turn_def current_usage_def Let_def)

lemma usage_total:
  assumes "distinct (keys_of (ld_usage db))"
    and "f \<lparr>du_sessions = 0, du_tokens = 0, du_cost_usd = 0\<rparr> = (0 :: 'a :: ab_group_add)"
  shows "total_of f (ld_usage (record_turn day user first n c (upsert_turn sid cv db))) =
    total_of f (ld_usage db) + f (current_usage day user (record_turn day user first n c (upsert_turn sid cv db))) - f (current_usage day user db)"
  using assms
  by (auto simp: record_turn_def upsert_turn_def current_usage_def dict_getd_def total_of_update Let_def split: option.split)

lemma conversation_total:
  assumes "distinct (keys_of (ld_conversations db))" and "\<And>cv u. f (cv\<lparr>cv_user_id := u\<rparr>) = (f cv :: 'a :: ab_group_add)"
  shows "total_of f (ld_conversations (record_turn day user first n c (upsert_turn sid cv db))) =
    total_of f (ld_conversations db) + f cv - (case map_of (ld_conversations db) sid of Some w \<Rightarrow> f w | None \<Rightarrow> 0)"
  using assms(1)
  by (auto simp: record_turn_def upsert_turn_def total_of_update assms(2) Let_def split: option.split)

lemma ledgers_turn:
  assumes "ledgers_inv s db" "ti_recorded_at ti div 86400000000 = ti_now ti div 86400000000"
  shows "ledgers_inv s (snd (run_turn post s ti db))"
proof (cases rule: run_turn_cases [of post s ti db])
  case (answered r data refs)
  let ?prior = "map_of (ld_conversations db) (ti_session_id ti)"
  let ?cv = "turn_conversation ti (turn_model s ti) refs ?prior r"
  let ?day = "ti_now ti div 86400000000"
  let ?db = "record_turn ?day (ti_user_id ti) (?prior = None) (ch_tokens_in r + ch_tokens_out r) (ch_cost_usd r)
      (upsert_turn (ti_session_id ti) ?cv db)"
  note inv = assms(1) [unfolded ledgers_inv_def]
  have du: "distinct (keys_of (ld_usage db))" and dc: "distinct (keys_of (ld_conversations db))" using inv by auto
  have keys: "distinct (keys_of (ld_usage ?db))" "distinct (keys_of (ld_conversations ?db))"
    using du dc by (simp_all add: record_turn_def upsert_turn_def Let_def distinct_update)
  have len: "int (length (ld_conversations ?db)) = int (length (ld_conversations db)) + (if ?prior = None then 1 else 0)"
    using length_update [OF dc, of "ti_session_id ti"] by (simp add: record_turn_def upsert_turn_def Let_def)
  have cost: "total_of du_cost_usd (ld_usage ?db) = total_of cv_cost_usd (ld_conversations ?db)"
    using inv by (simp add: usage_total [OF du] conversation_total [OF dc] current_usage_record turn_conversation_def split: option.split)
  have tokens: "total_of du_tokens (ld_usage ?db) = total_of (\<lambda>c. cv_tokens_in c + cv_tokens_out c) (ld_conversations ?db)"
    using inv by (simp add: usage_total [OF du] conversation_total [OF dc] current_usage_record turn_conversation_def split: option.split)
  have sessions: "total_of du_sessions (ld_usage ?db) = int (length (ld_conversations ?db))"
    using inv len by (simp add: usage_total [OF du] current_usage_record)
  have bound: "du_sessions (current_usage day user ?db) \<le> max 0 (ls_max_sessions_per_day s)" for day user
    using inv answered(2) by (auto simp: current_usage_record check_before_turn_None)
  from keys cost tokens sessions bound have "ledgers_inv s ?db" by (simp add: ledgers_inv_def)
  with answered(4) assms(2) show ?thesis by simp
qed (use assms in simp)

text \<open>The copilot's books balance. Starting from empty tables and whatever turns are tried, the daily usage
  rows and the conversation rows add up to the same cost and the same number of tokens, the sessions counted are the
  conversations, and no user exceeds the session limit of a day (turns that do not cross midnight).\<close>

theorem copilot_books_balance:
  assumes "list_all (\<lambda>ti. ti_recorded_at ti div 86400000000 = ti_now ti div 86400000000) tis"
    and "db = llm_run post s tis empty_llm_db"
  shows "total_of du_cost_usd (ld_usage db) = total_of cv_cost_usd (ld_conversations db) \<and>
    total_of du_tokens (ld_usage db) = total_of (\<lambda>c. cv_tokens_in c + cv_tokens_out c) (ld_conversations db) \<and>
    total_of du_sessions (ld_usage db) = int (length (ld_conversations db)) \<and>
    du_sessions (current_usage day user db) \<le> max 0 (ls_max_sessions_per_day s)"
proof -
  have "ledgers_inv s (llm_run post s tis d)" if "ledgers_inv s d" for d
    using assms(1) that by (induction tis arbitrary: d) (simp_all add: llm_run_def ledgers_turn)
  moreover have "ledgers_inv s empty_llm_db" by (simp add: ledgers_inv_def empty_llm_db_def total_of_def current_usage_def)
  ultimately show ?thesis unfolding assms(2) by (simp add: ledgers_inv_def)
qed

theorem copilot_books_balance_witness:
  "total_of du_sessions (ld_usage (llm_run ex_provider ex_llm_settings [ex_turn ''a'', ex_turn ''a'', ex_turn ''b''] empty_llm_db)) =
     int (length (ld_conversations (llm_run ex_provider ex_llm_settings [ex_turn ''a'', ex_turn ''a'', ex_turn ''b''] empty_llm_db)))"
  using copilot_books_balance [of "[ex_turn ''a'', ex_turn ''a'', ex_turn ''b'']", OF _ refl] by (simp add: ex_turn_def)

section \<open>What the provider is sent\<close>

lemma add_extra_keys: "set (keys_of (add_extra extra body)) \<subseteq> set (keys_of body) \<union> (set (keys_of extra) - set BLOCKED_REQUEST_KEYS)"
proof (induction extra body rule: add_extra.induct)
  case (2 k v kvs body)
  then show ?case using keys_dict_update [of k v body] by (auto split: if_splits)
qed simp

lemma request_never_offers_tools:
  "set (keys_of (request_body model ms n t extra)) \<inter> set BLOCKED_REQUEST_KEYS = {}"
proof -
  have "set (keys_of (request_body model ms n t extra)) \<subseteq>
      set [''model'', ''messages'', ''temperature'', ''stream'', ''max_tokens''] \<union> (set (keys_of extra) - set BLOCKED_REQUEST_KEYS)"
    unfolding request_body_def by (rule subset_trans [OF add_extra_keys]) auto
  then show ?thesis by (auto simp: BLOCKED_REQUEST_KEYS_def)
qed

lemma set_replace_char: "set (replace_char c r s) \<subseteq> (set s - {c}) \<union> set r"
  by (auto simp: replace_char_def split: if_splits)

lemma escaped_id_stays_inside: "quote_char \<notin> set (esc_attr v) \<and> CHR ''<'' \<notin> set (esc_attr v)"
proof -
  have q: "quote_char \<notin> set ''&quot;''" "quote_char \<notin> set ''&lt;''" "CHR ''<'' \<notin> set ''&lt;''" by (simp_all add: quote_char_def)
  have "quote_char \<notin> set (replace_char quote_char ''&quot;'' w)" for w
    using set_replace_char [of quote_char "''&quot;''" w] q(1) by blast
  then show ?thesis
    unfolding esc_attr_def using set_replace_char [of "CHR ''<''" "''&lt;''"] q(2,3) by blast
qed

end
