(* ===== verification/Strategy_Base.thy ===== *)
theory Strategy_Base
  imports Backtest
begin

text \<open>
  \<open>engine/strategy_base.py\<close>: the defaults of a strategy, and what the one-shot strategies share: each
  remembers the markets it has entered and enters none twice (locale \<open>one_shot\<close>), and what a replay
  records of an entry is what the strategy attached to it.
\<close>

section \<open>The base class\<close>

definition build_breakdown :: "(string, jval) dict \<Rightarrow> (string, jval) dict" where
  "build_breakdown checks = checks"

definition base_should_enter :: "tick_context \<Rightarrow> 's \<Rightarrow> decision \<times> 's" where
  "base_should_enter ctx s = (mk_decision SKIP NONE (ftext ''not_implemented'') [], s)"

definition base_strategy :: "'s strategy" where
  "base_strategy = \<lparr>sg_name = ''base'', sg_on_start = id, sg_should_enter = base_should_enter, sg_on_stop = id\<rparr>"

section \<open>One entry per market\<close>

text \<open>The markets entered when the ticks are decided one after the other.\<close>

fun entry_slugs :: "(tick_context \<Rightarrow> 's \<Rightarrow> decision \<times> 's) \<Rightarrow> tick_context list \<Rightarrow> 's \<Rightarrow> string list" where
  "entry_slugs decide [] s = []"
| "entry_slugs decide (ctx # ctxs) s =
     (case decide ctx s of (d, s') \<Rightarrow>
        (if dc_action d = ENTER then [tc_market_slug ctx] else []) @ entry_slugs decide ctxs s')"

locale one_shot =
  fixes decide :: "tick_context \<Rightarrow> 's \<Rightarrow> decision \<times> 's" and entered :: "'s \<Rightarrow> string set"
  assumes enter_once: "decide ctx s = (d, s') \<Longrightarrow> dc_action d = ENTER \<Longrightarrow>
      tc_market_slug ctx \<notin> entered s \<and> entered s' = insert (tc_market_slug ctx) (entered s)"
    and skip_keeps: "decide ctx s = (d, s') \<Longrightarrow> dc_action d \<noteq> ENTER \<Longrightarrow> entered s' = entered s"
begin

lemma entries_distinct: "distinct (entry_slugs decide ctxs s) \<and> set (entry_slugs decide ctxs s) \<inter> entered s = {}"
proof (induction ctxs arbitrary: s)
  case (Cons ctx ctxs)
  obtain d s' where ds: "decide ctx s = (d, s')" by (cases "decide ctx s")
  show ?case
  proof (cases "dc_action d = ENTER")
    case True
    with enter_once [OF ds] Cons [of s'] ds show ?thesis by auto
  next
    case False
    with skip_keeps [OF ds] Cons [of s'] ds show ?thesis by simp
  qed
qed simp

lemma entered_grows: "entered s \<subseteq> entered (fold (\<lambda>ctx s. snd (decide ctx s)) ctxs s)"
proof (induction ctxs arbitrary: s)
  case (Cons ctx ctxs)
  obtain d s' where ds: "decide ctx s = (d, s')" by (cases "decide ctx s")
  have "entered s \<subseteq> entered s'" using enter_once [OF ds] skip_keeps [OF ds] by (cases "dc_action d = ENTER") auto
  with Cons [of s'] ds show ?case by auto
qed simp

end

interpretation idle: one_shot base_should_enter "\<lambda>s. {}"
  by unfold_locales (simp_all add: base_should_enter_def mk_decision_def)

section \<open>What a replay records of an entry\<close>

text \<open>A strategy that keeps an invariant \<open>I\<close> of its own state and whose entries all satisfy \<open>Q\<close>.\<close>

definition entries_satisfy :: "('s \<Rightarrow> bool) \<Rightarrow> (side \<Rightarrow> (string, jval) dict \<Rightarrow> bool) \<Rightarrow> 's strategy \<Rightarrow> bool" where
  "entries_satisfy I Q S \<longleftrightarrow>
     (\<forall>ctx s d s'. I s \<longrightarrow> sg_should_enter S ctx s = (d, s') \<longrightarrow>
        I s' \<and> (dc_action d = ENTER \<longrightarrow> Q (dc_side d) (dc_signal_features d)))"

definition position_sat :: "(side \<Rightarrow> (string, jval) dict \<Rightarrow> bool) \<Rightarrow> market_state \<Rightarrow> bool" where
  "position_sat Q mk \<longleftrightarrow> (\<forall>p. ms_position mk = Some p \<longrightarrow> Q (po_side p) (po_signal_features p))"

definition run_sat :: "('s \<Rightarrow> bool) \<Rightarrow> (side \<Rightarrow> (string, jval) dict \<Rightarrow> bool) \<Rightarrow> 's bt_state \<Rightarrow> bool" where
  "run_sat I Q st \<longleftrightarrow> I (bs_strat st) \<and> (\<forall>t \<in> set (bs_trades st). Q (bt_side t) (bt_signal_features t))"

lemma bt_decide_sat:
  assumes "entries_satisfy I Q S" "position_sat Q mk" "run_sat I Q st"
  shows "position_sat Q (fst (bt_decide S P ctx mk st)) \<and> run_sat I Q (snd (bt_decide S P ctx mk st))"
proof -
  obtain d s' where d: "sg_should_enter S ctx (bs_strat st) = (d, s')" by fastforce
  have "I s'" "dc_action d = ENTER \<Longrightarrow> Q (dc_side d) (dc_signal_features d)"
    using assms(1,3) d unfolding entries_satisfy_def run_sat_def by blast+
  with d assms(2,3) show ?thesis
    by (auto simp: bt_decide_def position_sat_def run_sat_def open_position_def Let_def split: prod.split)
qed

lemma bt_tick_sat:
  assumes "entries_satisfy I Q S" "position_sat Q mk" "run_sat I Q st"
  shows "position_sat Q (fst (bt_tick S P tick (mk, st))) \<and> run_sat I Q (snd (bt_tick S P tick (mk, st)))"
proof -
  obtain core ind where u: "stack_update (bp_erf P) tick (ms_indicators mk) = (core, ind)" by fastforce
  let ?st = "st\<lparr>bs_n_ticks := bs_n_ticks st + 1\<rparr>" and ?ctx = "with_recent core (ms_recent mk)"
    and ?mk = "mk\<lparr>ms_indicators := ind, ms_recent := ms_recent mk @ [core]\<rparr>"
  obtain ok st1 where g: "bt_gate P ?ctx ?st = (ok, st1)" by fastforce
  have "run_sat I Q st1" using g assms(3) by (auto simp: bt_gate_def run_sat_def Let_def split: if_splits prod.splits)
  moreover have "position_sat Q ?mk" using assms(2) by (simp add: position_sat_def)
  moreover have "run_sat I Q ?st" using assms(3) by (simp add: run_sat_def)
  ultimately show ?thesis
    using u g bt_decide_sat [OF assms(1), of ?mk st1 P ?ctx] by (simp add: bt_tick_def Let_def)
qed

lemma bt_ticks_sat:
  assumes "entries_satisfy I Q S" "position_sat Q mk" "run_sat I Q st"
  shows "position_sat Q (fst (fold (bt_tick S P) ticks (mk, st))) \<and> run_sat I Q (snd (fold (bt_tick S P) ticks (mk, st)))"
  using assms(2,3)
proof (induction ticks arbitrary: mk st)
  case (Cons t ticks)
  obtain mk' st' where "bt_tick S P t (mk, st) = (mk', st')" by fastforce
  with bt_tick_sat [OF assms(1) Cons.prems, of P t] Cons.IH [of mk' st'] show ?case by simp
qed simp

lemma bt_market_sat:
  assumes "entries_satisfy I Q S" "run_sat I Q st"
  shows "run_sat I Q (bt_market S P m st)"
proof -
  obtain slug ticks where m: "m = (slug, ticks)" by (cases m)
  obtain mk st1 where run: "fold (bt_tick S P) ticks (fresh_market P, st\<lparr>bs_n_markets := bs_n_markets st + 1\<rparr>) = (mk, st1)" by fastforce
  have "position_sat Q (fresh_market P)" by (simp add: position_sat_def fresh_market_def Let_def)
  moreover have st: "run_sat I Q (st\<lparr>bs_n_markets := bs_n_markets st + 1\<rparr>)" using assms(2) by (simp add: run_sat_def)
  ultimately have "position_sat Q mk" "run_sat I Q st1"
    using bt_ticks_sat [OF assms(1), of "fresh_market P" "st\<lparr>bs_n_markets := bs_n_markets st + 1\<rparr>" P ticks, unfolded run] by simp_all
  with m run assms(2) st show ?thesis
    by (auto simp: bt_market_def bt_settle_def close_position_def position_sat_def run_sat_def Let_def split: option.split)
qed

lemma run_backtest_sat:
  assumes "entries_satisfy I Q S" "I (sg_on_start S s0)"
    and "t \<in> set (res_trades (run_backtest S markets from_ts to_ts P risk cfg s0))"
  shows "Q (bt_side t) (bt_signal_features t)"
proof -
  have "run_sat I Q (fold (bt_market S P) markets st)" if "run_sat I Q st" for st
    using that by (induction markets arbitrary: st) (simp_all add: bt_market_sat [OF assms(1)])
  from this [of "bt_init S risk s0"] assms(2,3) show ?thesis
    by (simp add: run_backtest_def bt_init_def run_sat_def Let_def)
qed

end
