(* ===== verification/Forecast_Features.thy ===== *)
theory Forecast_Features
  imports Indicators
begin

text \<open>
  The features of the trained forecaster: \<open>engine/features/macro.py\<close> (five-minute candles), \<open>micro.py\<close> and \<open>jumps.py\<close>
  (one-second spots), \<open>microprice.py\<close>, \<open>bb_residual.py\<close> and \<open>binance_microstructure.py\<close> (taker trades). Sequences are lists,
  windows and periods are naturals; the error function is the parameter \<open>erf\<close>.
\<close>

section \<open>Macro features\<close>

record macro_snapshot =
  sn_ema8 :: real
  sn_ema34 :: real
  sn_adx_14 :: real
  sn_consecutive_same_dir :: int
  sn_regime :: string
  sn_ema8_vs_ema34_pct :: real

definition macro_ema :: "real list \<Rightarrow> nat \<Rightarrow> real" where
  "macro_ema values period =
     (if period < 1 \<or> length values < period then 0
      else (let alpha = 2 / (real period + 1)
            in fold (\<lambda>v out. alpha * v + (1 - alpha) * out) (drop period values) (sum_list (take period values) / real period)))"

text \<open>The first loop of \<open>adx_14\<close>: both directional movements and the true range of each pair of bars.\<close>

fun directional :: "real list \<Rightarrow> real list \<Rightarrow> real list \<Rightarrow> (real \<times> real \<times> real) list" where
  "directional (h0 # h1 # hs) (l0 # l1 # ls) (c0 # c1 # cs) =
     (let up = h1 - h0; dn = l0 - l1
      in (if up > dn \<and> up > 0 then up else 0, if dn > up \<and> dn > 0 then dn else 0,
          max (max (h1 - l1) \<bar>h1 - c0\<bar>) \<bar>l1 - c0\<bar>) # directional (h1 # hs) (l1 # ls) (c1 # cs))"
| "directional _ _ _ = []"

fun wilder_loop :: "nat \<Rightarrow> real \<Rightarrow> real list \<Rightarrow> real list" where
  "wilder_loop n out [] = [out]"
| "wilder_loop n out (v # vs) = out # wilder_loop n (out - out / real n + v) vs"

definition wilder :: "nat \<Rightarrow> real list \<Rightarrow> real list" where
  "wilder n xs = (if length xs < n then [] else wilder_loop n (sum_list (take n xs)) (drop n xs))"

fun dx_list :: "real list \<Rightarrow> real list \<Rightarrow> real list \<Rightarrow> real list" where
  "dx_list (ps # pss) (ms # mss) (trs # trss) =
     (if trs \<le> 0 then dx_list pss mss trss
      else (let plus_di = 100 * ps / trs; minus_di = 100 * ms / trs; denom = plus_di + minus_di
            in if denom = 0 then dx_list pss mss trss
               else 100 * \<bar>plus_di - minus_di\<bar> / denom # dx_list pss mss trss))"
| "dx_list _ _ _ = []"

definition adx_14 :: "real list \<Rightarrow> real list \<Rightarrow> real list \<Rightarrow> real" where
  "adx_14 highs lows closes =
     (if length closes < 28 \<or> length highs \<noteq> length closes \<or> length lows \<noteq> length closes then 0
      else (let d = directional highs lows closes;
                dxs = dx_list (wilder 14 (map fst d)) (wilder 14 (map (fst \<circ> snd) d)) (wilder 14 (map (snd \<circ> snd) d))
            in if wilder 14 (map (snd \<circ> snd) d) = [] then 0
               else if length dxs < 14 then 0
               else fold (\<lambda>v adx. (adx * 13 + v) / 14) (drop 14 dxs) (sum_list (take 14 dxs) / 14)))"

text \<open>The backward loop, on the reversed closes.\<close>

fun streak_loop :: "int \<Rightarrow> int \<Rightarrow> real list \<Rightarrow> int" where
  "streak_loop sign streak (c # p # cs) =
     (let s = (if c - p > 0 then 1 else if c - p < 0 then - 1 else 0)
      in if s = 0 then streak * sign
         else if sign = 0 then streak_loop s 1 (p # cs)
         else if s \<noteq> sign then streak * sign
         else streak_loop sign (streak + 1) (p # cs))"
| "streak_loop sign streak _ = streak * sign"

definition consecutive_same_direction :: "real list \<Rightarrow> int" where
  "consecutive_same_direction closes = (if length closes < 2 then 0 else streak_loop 0 0 (rev closes))"

definition classify_regime :: "real \<Rightarrow> real \<Rightarrow> real \<Rightarrow> int \<Rightarrow> real \<Rightarrow> int \<Rightarrow> string" where
  "classify_regime ema_fast ema_slow adx_val consec adx_threshold consecutive_min =
     (if ema_fast > ema_slow \<and> adx_val \<ge> adx_threshold \<and> consec \<ge> consecutive_min then ''uptrend''
      else if ema_fast < ema_slow \<and> adx_val \<ge> adx_threshold \<and> - consec \<ge> consecutive_min then ''downtrend''
      else ''range'')"

definition macro_snapshot_of :: "real list \<Rightarrow> real list \<Rightarrow> real list \<Rightarrow> real \<Rightarrow> int \<Rightarrow> macro_snapshot option" where
  "macro_snapshot_of highs lows closes adx_threshold consecutive_min =
     (if length closes < 28 \<or> length highs \<noteq> length closes \<or> length lows \<noteq> length closes then None
      else (let ema_fast = macro_ema closes 8;
                ema_slow = (if length closes \<ge> 34 then macro_ema closes 34 else macro_ema closes (min (length closes) 34));
                adx_val = adx_14 highs lows closes;
                consec = consecutive_same_direction closes
            in Some \<lparr>sn_ema8 = ema_fast, sn_ema34 = ema_slow, sn_adx_14 = adx_val, sn_consecutive_same_dir = consec,
                     sn_regime = classify_regime ema_fast ema_slow adx_val consec adx_threshold consecutive_min,
                     sn_ema8_vs_ema34_pct = (if ema_slow = 0 then 0 else (ema_fast - ema_slow) / ema_slow * 100)\<rparr>))"

section \<open>Micro features\<close>

definition momentum_bps :: "real list \<Rightarrow> nat \<Rightarrow> real" where
  "momentum_bps spots lookback_s =
     (if lookback_s < 1 \<or> length spots < lookback_s + 1 then 0
      else (let past = spots ! (length spots - (lookback_s + 1)); now = last spots
            in if past \<le> 0 then 0 else (now / past - 1) * 10000))"

fun ratio_returns :: "real list \<Rightarrow> real list" where
  "ratio_returns (a # b # xs) = (if a \<le> 0 \<or> b \<le> 0 then [] else [ln (b / a)]) @ ratio_returns (b # xs)"
| "ratio_returns _ = []"

definition realized_vol_yz :: "real list \<Rightarrow> nat \<Rightarrow> real" where
  "realized_vol_yz spots window_s =
     (if window_s < 2 \<or> length spots < window_s + 1 then 0
      else (let rets = ratio_returns (py_tail (window_s + 1) spots)
            in if length rets < 2 then 0
               else (let mean = sum_list rets / real (length rets);
                         var = sum_sq_dev rets mean / (real (length rets) - 1)
                     in sqrt (max var 0))))"

fun count_ups :: "real list \<Rightarrow> nat" where
  "count_ups (a # b # xs) = (if b > a then 1 else 0) + count_ups (b # xs)"
| "count_ups _ = 0"

definition tick_up_ratio :: "real list \<Rightarrow> nat \<Rightarrow> real" where
  "tick_up_ratio spots window_s =
     (if window_s < 1 \<or> length spots < window_s + 1 then 0
      else real (count_ups (py_tail (window_s + 1) spots)) / real window_s)"

section \<open>Jumps\<close>

fun jump_returns :: "real list \<Rightarrow> real list" where
  "jump_returns (a # b # xs) = (if a \<le> 0 \<or> b \<le> 0 then 0 else ln (b / a)) # jump_returns (b # xs)"
| "jump_returns _ = []"

fun bipower_sum :: "real list \<Rightarrow> real" where
  "bipower_sum (a # b # xs) = \<bar>b\<bar> * \<bar>a\<bar> + bipower_sum (b # xs)"
| "bipower_sum _ = 0"

definition lee_mykland_jump_flag :: "real list \<Rightarrow> nat \<Rightarrow> real \<Rightarrow> bool" where
  "lee_mykland_jump_flag spots window_s z_threshold =
     (if window_s < 4 \<or> length spots < window_s + 1 then False
      else (let rets = jump_returns (py_tail (window_s + 1) spots)
            in if length rets < 3 then False
               else (let local_var = (pi / 2) / real (max (length rets - 1) 1) * bipower_sum rets
                     in if local_var \<le> 1 / 10 ^ 20 then False
                        else list_ex (\<lambda>r. \<bar>r\<bar> / sqrt local_var > z_threshold) rets)))"

section \<open>Microprice and the bridge prior\<close>

definition stoikov_microprice :: "real \<Rightarrow> real \<Rightarrow> real \<Rightarrow> real \<Rightarrow> real" where
  "stoikov_microprice yes_ask no_ask depth_yes depth_no =
     (depth_no * yes_ask + depth_yes * (1 - no_ask)) / max (depth_yes + depth_no) (1 / 10 ^ 12)"

definition brownian_bridge_prob :: "(real \<Rightarrow> real) \<Rightarrow> real \<Rightarrow> real \<Rightarrow> real \<Rightarrow> real \<Rightarrow> real \<Rightarrow> real \<Rightarrow> real" where
  "brownian_bridge_prob erf spot open_p t_in_window_s vol_per_sqrt_s T eps =
     (if open_p \<le> 0 then 1 / 2
      else if vol_per_sqrt_s \<le> 0 then 1 / 2
      else (let delta = spot - open_p; tau = T - t_in_window_s
            in if tau \<le> eps then (if delta > 0 then 1 else if delta < 0 then 0 else 1 / 2)
               else norm_cdf erf (delta / (open_p * vol_per_sqrt_s * sqrt tau))))"

definition bb_residual_features :: "(real \<Rightarrow> real) \<Rightarrow> 'a tick_core_scheme \<Rightarrow> real \<Rightarrow> real \<Rightarrow> (string, real) dict" where
  "bb_residual_features erf ctx T eps =
     (let vol_per_sqrt_s = (if tc_vol_ewma ctx > 0 then tc_vol_ewma ctx / sqrt (365 * 24 * 3600) else 0);
          implied = tc_implied_prob_yes ctx;
          p_prior = brownian_bridge_prob erf (tc_spot_price ctx) (tc_open_price ctx) (tc_t_in_window ctx) vol_per_sqrt_s T eps;
          model = tc_model_prob_yes ctx
      in [(''bb_p_prior'', p_prior), (''bb_model_vs_prior'', model - p_prior), (''bb_market_vs_prior'', implied - p_prior),
          (''bb_edge_vs_market'', model - implied)])"

section \<open>Taker trades\<close>

record taker_trade =
  tt_price :: real
  tt_qty :: real
  tt_side :: string

definition empty_features :: "(string, real) dict" where
  "empty_features = [(''bm_cvd_normalized'', 0), (''bm_taker_buy_ratio'', 1 / 2), (''bm_trade_intensity'', 1), (''bm_large_trade_flag'', 0),
     (''bm_signed_autocorr_lag1'', 0)]"

definition cvd_normalized :: "taker_trade list \<Rightarrow> real" where
  "cvd_normalized trades =
     (if trades = [] then 0
      else (let tot = sum_list (map tt_qty trades)
            in if tot \<le> 0 then 0
               else sum_list (map (\<lambda>t. if tt_side t = ''buy'' then tt_qty t else - tt_qty t) trades) / tot))"

definition taker_buy_ratio :: "taker_trade list \<Rightarrow> real" where
  "taker_buy_ratio trades =
     (if trades = [] then 1 / 2
      else (let tot = sum_list (map tt_qty trades)
            in if tot \<le> 0 then 1 / 2 else sum_list (map tt_qty (filter (\<lambda>t. tt_side t = ''buy'') trades)) / tot))"

definition trade_intensity :: "nat \<Rightarrow> int \<Rightarrow> int \<Rightarrow> real" where
  "trade_intensity n_in_window baseline_trades_24h window_s =
     (if baseline_trades_24h \<le> 0 \<or> window_s \<le> 0 then 1
      else (let baseline_per_window = of_int baseline_trades_24h / max 1 (86400 / of_int window_s)
            in if baseline_per_window < 100 then 1 else real n_in_window / baseline_per_window))"

definition large_trade_flag :: "taker_trade list \<Rightarrow> real \<Rightarrow> real" where
  "large_trade_flag trades threshold_usd = (if list_ex (\<lambda>t. tt_price t * tt_qty t \<ge> threshold_usd) trades then 1 else 0)"

fun lag1_products :: "real list \<Rightarrow> real list" where
  "lag1_products (a # b # xs) = a * b # lag1_products (b # xs)"
| "lag1_products _ = []"

definition signed_trade_autocorr_lag1 :: "taker_trade list \<Rightarrow> real \<Rightarrow> real" where
  "signed_trade_autocorr_lag1 trades eps =
     (if length trades < 10 then 0
      else (let s = map (\<lambda>t. if tt_side t = ''buy'' then 1 else - 1) trades; n = real (length s);
                mu = sum_list s / n; centered = map (\<lambda>v. v - mu) s;
                var = sum_list (map (\<lambda>c. c * c) centered) / n
            in if var \<le> eps then 0 else sum_list (lag1_products centered) / (n - 1) / var))"

definition binance_microstructure_from_trades :: "taker_trade list \<Rightarrow> int \<Rightarrow> int \<Rightarrow> real \<Rightarrow> (string, real) dict" where
  "binance_microstructure_from_trades trades baseline_trades_24h window_s large_threshold_usd =
     [(''bm_cvd_normalized'', cvd_normalized trades), (''bm_taker_buy_ratio'', taker_buy_ratio trades),
      (''bm_trade_intensity'', trade_intensity (length trades) baseline_trades_24h window_s),
      (''bm_large_trade_flag'', large_trade_flag trades large_threshold_usd),
      (''bm_signed_autocorr_lag1'', signed_trade_autocorr_lag1 trades (1 / 10 ^ 9))]"

text \<open>The database entry point: the trades of the window and the count of the day, or no connection.\<close>

definition binance_microstructure_features :: "(taker_trade list \<times> int) option \<Rightarrow> int \<Rightarrow> real \<Rightarrow> (string, real) dict" where
  "binance_microstructure_features rows window_s large_threshold_usd =
     (case rows of
        None \<Rightarrow> empty_features
      | Some (trades, baseline) \<Rightarrow> binance_microstructure_from_trades trades baseline window_s large_threshold_usd)"

text \<open>Without trades every feature is its sentinel, so the strategy's own fallback agrees with the provider's.\<close>

lemma no_trades_no_signal: "binance_microstructure_from_trades [] 0 window_s large = empty_features"
  by (simp add: binance_microstructure_from_trades_def empty_features_def cvd_normalized_def taker_buy_ratio_def trade_intensity_def
      large_trade_flag_def signed_trade_autocorr_lag1_def)

section \<open>Ranges\<close>

subsection \<open>The directional index\<close>

lemma directional_nonneg: "d \<in> set (directional hs ls cs) \<Longrightarrow> 0 \<le> fst d \<and> 0 \<le> fst (snd d)"
  by (induction hs ls cs rule: directional.induct) (auto simp: Let_def split: if_splits)

lemma wilder_loop_nonneg:
  assumes "0 < n" "0 \<le> out" "\<And>v. v \<in> set vs \<Longrightarrow> 0 \<le> v" "x \<in> set (wilder_loop n out vs)"
  shows "0 \<le> x"
  using assms(2-)
proof (induction vs arbitrary: out)
  case (Cons v vs)
  have "out / real n \<le> out" using Cons.prems(1) assms(1) by (simp add: divide_le_eq mult_left_le_one_le mult_le_cancel_left1)
  then have "0 \<le> out - out / real n + v" using Cons.prems(2) [of v] by simp
  from Cons.IH [OF this] Cons.prems show ?case by auto
qed simp

lemma wilder_nonneg:
  assumes "0 < n" "\<And>v. v \<in> set xs \<Longrightarrow> 0 \<le> v" "x \<in> set (wilder n xs)"
  shows "0 \<le> x"
proof (rule wilder_loop_nonneg [of n "sum_list (take n xs)" "drop n xs"])
  show "0 \<le> sum_list (take n xs)" by (rule sum_list_nonneg) (use assms(2) in_set_takeD in fast)
  show "0 \<le> v" if "v \<in> set (drop n xs)" for v using that assms(2) in_set_dropD by fast
  show "x \<in> set (wilder_loop n (sum_list (take n xs)) (drop n xs))" using assms(3) by (simp add: wilder_def split: if_splits)
qed (rule assms(1))

lemma dx_value_range:
  fixes p m :: real
  assumes "0 \<le> p" "0 \<le> m" "p + m \<noteq> 0"
  shows "0 \<le> 100 * \<bar>p - m\<bar> / (p + m) \<and> 100 * \<bar>p - m\<bar> / (p + m) \<le> 100"
proof -
  have "0 < p + m" "\<bar>p - m\<bar> \<le> p + m" using assms by linarith+
  then show ?thesis by (simp add: divide_le_eq)
qed

lemma dx_list_range:
  assumes "list_all (\<lambda>v. 0 \<le> v) pss" "list_all (\<lambda>v. 0 \<le> v) mss"
  shows "list_all (\<lambda>x. 0 \<le> x \<and> x \<le> 100) (dx_list pss mss trss)"
  using assms
proof (induction pss mss trss rule: dx_list.induct)
  case (1 ps pss ms mss trs trss)
  have rest: "list_all (\<lambda>x. 0 \<le> x \<and> x \<le> 100) (dx_list pss mss trss)"
    using 1 by (cases "trs \<le> 0"; cases "100 * ps / trs + 100 * ms / trs = 0") (auto simp: Let_def)
  show ?case
  proof (cases "trs \<le> 0 \<or> 100 * ps / trs + 100 * ms / trs = 0")
    case True
    with rest show ?thesis by (auto simp: Let_def)
  next
    case False
    then have "0 \<le> 100 * ps / trs" "0 \<le> 100 * ms / trs" using "1.prems" by auto
    with False dx_value_range [of "100 * ps / trs" "100 * ms / trs"] rest show ?thesis by (simp add: Let_def)
  qed
qed auto

lemma mean_range:
  fixes xs :: "real list"
  assumes "\<And>x. x \<in> set xs \<Longrightarrow> lo \<le> x \<and> x \<le> hi" "xs \<noteq> []"
  shows "lo \<le> sum_list xs / real (length xs) \<and> sum_list xs / real (length xs) \<le> hi"
proof -
  have "lo * real (length xs) \<le> sum_list xs \<and> sum_list xs \<le> hi * real (length xs)"
    using assms(1)
  proof (induction xs)
    case (Cons x xs)
    then have "lo \<le> x \<and> x \<le> hi" "lo * real (length xs) \<le> sum_list xs \<and> sum_list xs \<le> hi * real (length xs)" by auto
    then show ?case by (simp add: algebra_simps)
  qed simp
  then show ?thesis using assms(2) by (simp add: pos_le_divide_eq pos_divide_le_eq)
qed

lemma smoothed_range:
  assumes "\<And>v. v \<in> set vs \<Longrightarrow> 0 \<le> v \<and> v \<le> 100" "0 \<le> a \<and> a \<le> (100 :: real)"
  shows "0 \<le> fold (\<lambda>v adx. (adx * 13 + v) / 14) vs a \<and> fold (\<lambda>v adx. (adx * 13 + v) / 14) vs a \<le> 100"
  using assms
proof (induction vs arbitrary: a)
  case (Cons v vs)
  have "0 \<le> v \<and> v \<le> 100" using Cons.prems(1) by simp
  then have "0 \<le> (a * 13 + v) / 14 \<and> (a * 13 + v) / 14 \<le> 100" using Cons.prems(2) by simp
  with Cons show ?case by simp
qed simp

lemma adx_range: "0 \<le> adx_14 highs lows closes \<and> adx_14 highs lows closes \<le> 100"
proof -
  define d where "d = directional highs lows closes"
  define dxs where "dxs = dx_list (wilder 14 (map fst d)) (wilder 14 (map (fst \<circ> snd) d)) (wilder 14 (map (snd \<circ> snd) d))"
  have "0 \<le> v" if "v \<in> set (wilder 14 (map fst d))" for v
    by (rule wilder_nonneg [OF _ _ that]) (use directional_nonneg [of _ highs lows closes] in \<open>auto simp: d_def\<close>)
  moreover have "0 \<le> v" if "v \<in> set (wilder 14 (map (fst \<circ> snd) d))" for v
    by (rule wilder_nonneg [OF _ _ that]) (use directional_nonneg [of _ highs lows closes] in \<open>auto simp: d_def\<close>)
  ultimately have "list_all (\<lambda>x. 0 \<le> x \<and> x \<le> 100) dxs" unfolding dxs_def by (intro dx_list_range) (simp_all add: list_all_iff)
  then have dx: "0 \<le> x \<and> x \<le> 100" if "x \<in> set dxs" for x using that by (simp add: list_all_iff)
  show ?thesis
  proof (cases "length dxs < 14")
    case True
    then show ?thesis by (simp add: adx_14_def d_def dxs_def Let_def)
  next
    case False
    have "0 \<le> x \<and> x \<le> 100" if "x \<in> set (take 14 dxs)" for x using dx in_set_takeD [OF that] by blast
    moreover have "length (take 14 dxs) = 14" using False by simp
    ultimately have "0 \<le> sum_list (take 14 dxs) / 14 \<and> sum_list (take 14 dxs) / 14 \<le> 100"
      using mean_range [of "take 14 dxs" 0 100] by (metis length_greater_0_conv of_nat_numeral zero_less_numeral)
    then have "0 \<le> fold (\<lambda>v adx. (adx * 13 + v) / 14) (drop 14 dxs) (sum_list (take 14 dxs) / 14) \<and>
        fold (\<lambda>v adx. (adx * 13 + v) / 14) (drop 14 dxs) (sum_list (take 14 dxs) / 14) \<le> 100"
      using dx by (intro smoothed_range) (auto dest: in_set_dropD)
    then show ?thesis by (simp add: adx_14_def d_def dxs_def Let_def)
  qed
qed

subsection \<open>The second-by-second features\<close>

lemma count_ups_le: "count_ups xs \<le> length xs - 1"
  by (induction xs rule: count_ups.induct) auto

lemma tick_up_ratio_range: "0 \<le> tick_up_ratio spots w \<and> tick_up_ratio spots w \<le> 1"
proof (cases "w < 1 \<or> length spots < w + 1")
  case False
  then have "length (py_tail (w + 1) spots) = w + 1" by (simp add: py_tail_def)
  then have "count_ups (py_tail (w + 1) spots) \<le> w" using count_ups_le [of "py_tail (w + 1) spots"] by simp
  with False show ?thesis by (simp add: tick_up_ratio_def divide_le_eq)
qed (simp add: tick_up_ratio_def)

lemma realized_vol_nonneg: "0 \<le> realized_vol_yz spots w"
  by (simp add: realized_vol_yz_def Let_def)

lemma bridge_prob_range:
  assumes "\<And>x. - 1 \<le> erf x \<and> erf x \<le> 1"
  shows "0 \<le> brownian_bridge_prob erf spot open_p t vol T eps \<and> brownian_bridge_prob erf spot open_p t vol T eps \<le> 1"
proof -
  have "0 \<le> norm_cdf erf x \<and> norm_cdf erf x \<le> 1" for x using assms [of "x / sqrt 2"] by (simp add: norm_cdf_def)
  then show ?thesis by (simp add: brownian_bridge_prob_def Let_def)
qed

text \<open>The microprice is a convex combination of the two ways to buy the up side.\<close>

lemma stoikov_between:
  assumes "0 \<le> dy" "0 \<le> dn" "1 / 10 ^ 12 \<le> dy + dn"
  shows "min ya (1 - na) \<le> stoikov_microprice ya na dy dn \<and> stoikov_microprice ya na dy dn \<le> max ya (1 - na)"
proof -
  let ?lo = "min ya (1 - na)" and ?hi = "max ya (1 - na)"
  have pos: "0 < dy + dn" using assms(3) by (rule less_le_trans [rotated]) simp
  have "?lo * dn \<le> dn * ya" "?lo * dy \<le> dy * (1 - na)" "dn * ya \<le> ?hi * dn" "dy * (1 - na) \<le> ?hi * dy"
    using assms(1,2) by (simp_all add: mult.commute mult_left_mono)
  then have "?lo * (dy + dn) \<le> dn * ya + dy * (1 - na) \<and> dn * ya + dy * (1 - na) \<le> ?hi * (dy + dn)"
    by (simp add: distrib_left)
  then show ?thesis using pos assms(3) by (simp add: stoikov_microprice_def max_absorb1 pos_le_divide_eq pos_divide_le_eq)
qed

subsection \<open>The taker-trade features\<close>

lemma signed_volume_le:
  "list_all (\<lambda>t. 0 \<le> tt_qty t) trades \<Longrightarrow>
   \<bar>sum_list (map (\<lambda>t. if tt_side t = ''buy'' then tt_qty t else - tt_qty t) trades)\<bar> \<le> sum_list (map tt_qty trades)"
  by (induction trades) auto

lemma cvd_range: "list_all (\<lambda>t. 0 \<le> tt_qty t) trades \<Longrightarrow> - 1 \<le> cvd_normalized trades \<and> cvd_normalized trades \<le> 1"
  using signed_volume_le [of trades] by (auto simp: cvd_normalized_def Let_def pos_le_divide_eq pos_divide_le_eq)

lemma buy_volume_le:
  "list_all (\<lambda>t. 0 \<le> tt_qty t) trades \<Longrightarrow>
   0 \<le> sum_list (map tt_qty (filter (\<lambda>t. tt_side t = ''buy'') trades)) \<and>
   sum_list (map tt_qty (filter (\<lambda>t. tt_side t = ''buy'') trades)) \<le> sum_list (map tt_qty trades)"
  by (induction trades) auto

lemma buy_ratio_range: "list_all (\<lambda>t. 0 \<le> tt_qty t) trades \<Longrightarrow> 0 \<le> taker_buy_ratio trades \<and> taker_buy_ratio trades \<le> 1"
  using buy_volume_le [of trades] by (auto simp: taker_buy_ratio_def Let_def pos_divide_le_eq)

lemma intensity_nonneg: "0 \<le> trade_intensity n baseline w"
  by (auto simp: trade_intensity_def Let_def)

lemma flag_range: "large_trade_flag trades thr \<in> {0, 1}"
  by (simp add: large_trade_flag_def)

subsection \<open>The lag-one autocorrelation of the trade signs\<close>

text \<open>
  The estimator divides the lag sum by \<open>n - 1\<close> and the variance by \<open>n\<close>, so Cauchy-Schwarz alone does not bound it by one:
  the bound uses that the series is a list of signs. With \<open>T\<close> the sum of the signs, \<open>h\<close> and \<open>l\<close> its ends and \<open>E\<close> the number of
  equal neighbours, both centred sums have closed forms, and \<open>T\<close> is bounded by \<open>E\<close>.
\<close>

fun equal_pairs :: "real list \<Rightarrow> nat" where
  "equal_pairs (a # b # xs) = (if a = b then 1 else 0) + equal_pairs (b # xs)"
| "equal_pairs _ = 0"

abbreviation signs :: "real list \<Rightarrow> bool" where
  "signs \<equiv> list_all (\<lambda>v. v = 1 \<or> v = - 1)"

lemma sum_centred_squares: "signs s \<Longrightarrow> sum_list (map (\<lambda>c. c * c) (map (\<lambda>v. v - mu) s)) =
    real (length s) - 2 * mu * sum_list s + real (length s) * mu * mu"
  by (induction s) (auto simp: algebra_simps)

lemma sum_lag_centred: "s \<noteq> [] \<Longrightarrow> sum_list (lag1_products (map (\<lambda>v. v - mu) s)) =
    sum_list (lag1_products s) - mu * (2 * sum_list s - hd s - last s) + (real (length s) - 1) * mu * mu"
  by (induction s rule: lag1_products.induct) (auto simp: algebra_simps)

lemma sum_lag_signs: "signs s \<Longrightarrow> s \<noteq> [] \<Longrightarrow> sum_list (lag1_products s) = 2 * real (equal_pairs s) - (real (length s) - 1)"
  by (induction s rule: lag1_products.induct) auto

lemma equal_pairs_le: "s \<noteq> [] \<Longrightarrow> equal_pairs s \<le> length s - 1"
  by (induction s rule: equal_pairs.induct) auto

lemma equal_pairs_all: "s \<noteq> [] \<Longrightarrow> equal_pairs s = length s - 1 \<Longrightarrow> v \<in> set s \<Longrightarrow> v = hd s"
proof (induction s rule: equal_pairs.induct)
  case (1 a b xs)
  have "equal_pairs (b # xs) \<le> length xs" using equal_pairs_le [of "b # xs"] by simp
  with 1 show ?case by (auto split: if_splits)
qed auto

lemma sum_signs_bound:
  "signs s \<Longrightarrow> s \<noteq> [] \<Longrightarrow> 2 * sum_list s \<le> 2 * real (equal_pairs s) + hd s + last s \<and>
     - 2 * sum_list s \<le> 2 * real (equal_pairs s) - hd s - last s"
  by (induction s rule: equal_pairs.induct) auto

lemma scaled_le:
  fixes mu d e :: real
  assumes "0 \<le> e" "\<bar>mu\<bar> \<le> 1" "d \<le> e" "- d \<le> e"
  shows "mu * d \<le> e"
proof -
  have "\<bar>mu\<bar> * \<bar>d\<bar> \<le> 1 * e" using assms by (intro mult_mono) auto
  then show ?thesis using abs_ge_self [of "mu * d"] by (simp add: abs_mult)
qed

lemma sum_signs_le: "signs s \<Longrightarrow> \<bar>sum_list s\<bar> \<le> real (length s)"
  by (induction s) auto

lemma lag_sum_bound:
  assumes s: "signs s" "s \<noteq> []" and mu: "mu = sum_list s / real (length s)" and vary: "equal_pairs s \<noteq> length s - 1"
  shows "\<bar>sum_list (lag1_products (map (\<lambda>v. v - mu) s))\<bar> \<le> (real (length s) - 1) * (1 - mu * mu)"
proof -
  let ?n = "real (length s)" and ?E = "real (equal_pairs s)" and ?e = "hd s + last s"
  have T: "sum_list s = ?n * mu" using s(2) by (simp add: mu)
  have "hd s \<in> set s" "last s \<in> set s" using s(2) by auto
  then have "hd s \<in> {1, - 1}" "last s \<in> {1, - 1}" using s(1) by (auto simp: list_all_iff)
  then have e: "\<bar>?e\<bar> \<le> 2" by auto
  have m1: "\<bar>mu\<bar> \<le> 1" using sum_signs_le [OF s(1)] s(2) by (simp add: mu abs_divide divide_le_eq)
  have "equal_pairs s + 2 \<le> length s" using equal_pairs_le [OF s(2)] vary s(2) by (cases s) auto
  then have E: "?E + 2 \<le> ?n" by linarith
  have L: "sum_list (lag1_products (map (\<lambda>v. v - mu) s)) =
      2 * ?E - (?n - 1) - mu * (2 * (?n * mu) - ?e) + (?n - 1) * (mu * mu)"
    using sum_lag_centred [OF s(2), of mu] sum_lag_signs [OF s] by (simp add: T algebra_simps)
  have "mu * ?e \<le> 2" using m1 e by (intro scaled_le) auto
  moreover have "0 \<le> mu * mu" by simp
  ultimately have up: "2 * ?E - 2 * (?n - 1) - 2 * (mu * mu) + mu * ?e \<le> 0" using E by argo
  have "mu * (2 * (?n * mu) - ?e) \<le> 2 * ?E"
    using sum_signs_bound [OF s] m1 unfolding T by (intro scaled_le) auto
  then show ?thesis using up unfolding L by (auto simp: abs_le_iff algebra_simps)
qed

lemma signed_autocorr_range:
  assumes "0 \<le> eps"
  shows "- 1 \<le> signed_trade_autocorr_lag1 trades eps \<and> signed_trade_autocorr_lag1 trades eps \<le> 1"
proof -
  define s where "s = map (\<lambda>t. if tt_side t = ''buy'' then 1 else - 1 :: real) trades"
  let ?n = "real (length s)"
  define mu where "mu = sum_list s / ?n"
  let ?L = "sum_list (lag1_products (map (\<lambda>v. v - mu) s))" and ?v = "sum_list (map (\<lambda>c. c * c) (map (\<lambda>v. v - mu) s)) / ?n"
  have form: "signed_trade_autocorr_lag1 trades eps = (if length trades < 10 \<or> ?v \<le> eps then 0 else ?L / (?n - 1) / ?v)"
    by (simp add: signed_trade_autocorr_lag1_def Let_def s_def mu_def comp_assoc)
  show ?thesis
  proof (cases "length trades < 10 \<or> ?v \<le> eps")
    case False
    have sg: "signs s" and n: "10 \<le> length s" using False by (auto simp: s_def list_all_iff)
    then have ne: "s \<noteq> []" by auto
    have T: "sum_list s = ?n * mu" using ne by (simp add: mu_def)
    have v: "?v = 1 - mu * mu" unfolding sum_centred_squares [OF sg] T using ne by (simp add: field_simps)
    have pos: "0 < 1 - mu * mu" using False assms v by linarith
    have "equal_pairs s \<noteq> length s - 1"
    proof
      assume "equal_pairs s = length s - 1"
      then have "s = replicate (length s) (hd s)" using equal_pairs_all [OF ne] by (metis replicate_length_same)
      then have "sum_list s = ?n * hd s" by (metis sum_list_replicate)
      then have "mu = hd s" using T ne by simp
      moreover have "hd s \<in> set s" using ne by simp
      then have "hd s = 1 \<or> hd s = - 1" using sg unfolding list_all_iff by blast
      ultimately show False using pos by auto
    qed
    from lag_sum_bound [OF sg ne mu_def this] have "\<bar>?L\<bar> \<le> (?n - 1) * (1 - mu * mu)" .
    moreover have "0 < (?n - 1) * (1 - mu * mu)" using pos n by simp
    moreover have "signed_trade_autocorr_lag1 trades eps = ?L / ((?n - 1) * (1 - mu * mu))" using False form unfolding v by simp
    ultimately show ?thesis by (simp add: abs_le_iff pos_le_divide_eq pos_divide_le_eq)
  qed (simp add: form)
qed

end
