(* ===== verification/Forecaster.thy ===== *)
theory Forecaster
  imports Strategy_Base Forecast_Features
begin

text \<open>
  The trained forecaster of the last ninety seconds, \<open>strategies/polymarket_btc5m/last_90s_forecaster_v3.py\<close>, with
  its feature vector \<open>_v2_features.py\<close>, the two candle providers \<open>_macro_provider.py\<close>, the cache of the trade
  features \<open>_microstructure_provider.py\<close> and the model runner \<open>_lgb_runner.py\<close>. The booster and its calibrator are functions,
  a tick that makes the runner or a look-up raise is a left value. The three protocols of the
  strategy are the locales of this theory.
\<close>

section \<open>The feature vector\<close>

definition FEATURE_NAMES_BASE :: "string list" where
  "FEATURE_NAMES_BASE =
     [''m30_bps'', ''m60_bps'', ''m90_bps'', ''rv_90s'', ''tick_up_ratio'', ''ema8_vs_ema34_pct'', ''adx_14'', ''consecutive_same_dir'',
      ''regime_uptrend'', ''regime_downtrend'', ''regime_range'', ''implied_prob_yes'', ''microprice'', ''microprice_minus_implied'',
      ''pm_imbalance'', ''pm_spread_bps'', ''lee_mykland_jump_60s'', ''hour_sin'', ''hour_cos'', ''dow_sin'', ''dow_cos'']"

definition FEATURE_NAMES_BB :: "string list" where
  "FEATURE_NAMES_BB = [''bb_p_prior'', ''bb_model_vs_prior'', ''bb_market_vs_prior'', ''bb_edge_vs_market'']"

definition feature_names :: "bool \<Rightarrow> string list" where
  "feature_names include_bb_residual = FEATURE_NAMES_BASE @ (if include_bb_residual then FEATURE_NAMES_BB else [])"

record V2FeatureInputs =
  vi_as_of_ts :: epoch
  vi_spots_last_90s :: "real list"
  vi_macro_snap :: macro_snapshot
  vi_implied_prob_yes :: real
  vi_yes_ask :: real
  vi_no_ask :: real
  vi_depth_yes :: real
  vi_depth_no :: real
  vi_pm_imbalance :: real
  vi_pm_spread_bps :: real
  vi_open_price :: real
  vi_t_in_window_s :: real
  vi_bb_T_seconds :: real

text \<open>\<open>datetime.fromtimestamp(ts, tz=UTC)\<close> in microseconds, its clock and its day of the week (0 is Monday).\<close>

definition utc_datetime :: "epoch \<Rightarrow> datetime" where
  "utc_datetime ts = py_round (ts * 1000000)"

definition dt_hour :: "datetime \<Rightarrow> int" where
  "dt_hour dt = dt div 3600000000 mod 24"

definition dt_minute :: "datetime \<Rightarrow> int" where
  "dt_minute dt = dt div 60000000 mod 60"

definition dt_weekday :: "datetime \<Rightarrow> int" where
  "dt_weekday dt = (dt div 86400000000 + 3) mod 7"

definition clock_features :: "epoch \<Rightarrow> real list" where
  "clock_features ts =
     (let dt = utc_datetime ts;
          hour = of_int (dt_hour dt) + of_int (dt_minute dt) / 60;
          dow = of_int (dt_weekday dt)
      in [sin (2 * pi * hour / 24), cos (2 * pi * hour / 24), sin (2 * pi * dow / 7), cos (2 * pi * dow / 7)])"

definition base_vector :: "V2FeatureInputs \<Rightarrow> real list" where
  "base_vector inp =
     (let spots = vi_spots_last_90s inp; snap = vi_macro_snap inp;
          mp = stoikov_microprice (vi_yes_ask inp) (vi_no_ask inp) (vi_depth_yes inp) (vi_depth_no inp)
      in [momentum_bps spots 30, momentum_bps spots 60, momentum_bps spots 90, realized_vol_yz spots 90, tick_up_ratio spots 90,
          sn_ema8_vs_ema34_pct snap, sn_adx_14 snap, of_int (sn_consecutive_same_dir snap),
          if sn_regime snap = ''uptrend'' then 1 else 0, if sn_regime snap = ''downtrend'' then 1 else 0,
          if sn_regime snap = ''range'' then 1 else 0,
          vi_implied_prob_yes inp, mp, mp - vi_implied_prob_yes inp, vi_pm_imbalance inp, vi_pm_spread_bps inp,
          if lee_mykland_jump_flag spots 60 3 then 1 else 0] @ clock_features (vi_as_of_ts inp))"

definition bb_vector :: "(real \<Rightarrow> real) \<Rightarrow> V2FeatureInputs \<Rightarrow> real list" where
  "bb_vector erf inp =
     (let spots = vi_spots_last_90s inp;
          p_prior = brownian_bridge_prob erf (if spots \<noteq> [] then last spots else 0) (vi_open_price inp) (vi_t_in_window_s inp)
                      (realized_vol_yz spots 90) (vi_bb_T_seconds inp) (1 / 10 ^ 6);
          model_prob = p_prior
      in [p_prior, model_prob - p_prior, vi_implied_prob_yes inp - p_prior, model_prob - vi_implied_prob_yes inp])"

definition build_vector :: "(real \<Rightarrow> real) \<Rightarrow> V2FeatureInputs \<Rightarrow> bool \<Rightarrow> real list" where
  "build_vector erf inp include_bb_residual = base_vector inp @ (if include_bb_residual then bb_vector erf inp else [])"

section \<open>The candle providers\<close>

record macro_candle =
  cd_ts :: epoch
  cd_high :: real
  cd_low :: real
  cd_close :: real

text \<open>The loop of \<open>bisect.bisect_right\<close>.\<close>

function bisect_loop :: "real list \<Rightarrow> real \<Rightarrow> nat \<Rightarrow> nat \<Rightarrow> nat" where
  "bisect_loop a x lo hi =
     (if lo < hi
      then (let mid = (lo + hi) div 2 in if x < a ! mid then bisect_loop a x lo mid else bisect_loop a x (mid + 1) hi)
      else lo)"
  by auto
termination by (relation "measure (\<lambda>(a, x, lo, hi). hi - lo)") auto

declare bisect_loop.simps [simp del]

definition bisect_right :: "real list \<Rightarrow> real \<Rightarrow> nat" where
  "bisect_right a x = bisect_loop a x 0 (length a)"

definition snapshot_from_window :: "macro_candle list \<Rightarrow> real list \<Rightarrow> epoch \<Rightarrow> nat \<Rightarrow> real \<Rightarrow> int \<Rightarrow> macro_snapshot option" where
  "snapshot_from_window candles tss as_of_ts lookback adx_threshold consecutive_min =
     (let cutoff = as_of_ts - 300; idx = bisect_right tss cutoff
      in if idx < lookback then None
         else (let window = drop (idx - lookback) (take idx candles)
               in macro_snapshot_of (map cd_high window) (map cd_low window) (map cd_close window) adx_threshold consecutive_min))"

record macro_provider =
  mp_candles :: "macro_candle list"
  mp_tss :: "real list"
  mp_lookback :: nat
  mp_adx_threshold :: real
  mp_consecutive_min :: int

definition set_candles :: "macro_candle list \<Rightarrow> macro_provider \<Rightarrow> macro_provider" where
  "set_candles candles mp = mp\<lparr>mp_candles := candles, mp_tss := map cd_ts candles\<rparr>"

definition new_postgres_macro :: "nat \<Rightarrow> real \<Rightarrow> int \<Rightarrow> macro_provider" where
  "new_postgres_macro lookback adx_threshold consecutive_min =
     \<lparr>mp_candles = [], mp_tss = [], mp_lookback = lookback, mp_adx_threshold = adx_threshold, mp_consecutive_min = consecutive_min\<rparr>"

definition new_fixed_macro :: "macro_candle list \<Rightarrow> nat \<Rightarrow> real \<Rightarrow> int \<Rightarrow> macro_provider" where
  "new_fixed_macro candles lookback adx_threshold consecutive_min =
     set_candles (sort_key cd_ts candles) (new_postgres_macro lookback adx_threshold consecutive_min)"

definition snapshot_at :: "macro_provider \<Rightarrow> epoch \<Rightarrow> macro_snapshot option" where
  "snapshot_at mp as_of_ts =
     snapshot_from_window (mp_candles mp) (mp_tss mp) as_of_ts (mp_lookback mp) (mp_adx_threshold mp) (mp_consecutive_min mp)"

text \<open>The table the live provider reads and its query: the rows of one instrument since \<open>hours\<close> ago, in the order of time.\<close>

record ohlcv_row =
  or_ts :: datetime
  or_exchange :: string
  or_symbol :: string
  or_interval :: string
  or_high :: real
  or_low :: real
  or_close :: real

definition ohlcv_query :: "string \<Rightarrow> string \<Rightarrow> string \<Rightarrow> datetime \<Rightarrow> ohlcv_row list \<Rightarrow> ohlcv_row list" where
  "ohlcv_query exchange symbol interval since table =
     sort_key or_ts (filter (\<lambda>r. or_exchange r = exchange \<and> or_symbol r = symbol \<and> or_interval r = interval \<and> or_ts r > since) table)"

definition row_candle :: "ohlcv_row \<Rightarrow> macro_candle" where
  "row_candle r = \<lparr>cd_ts = of_int (or_ts r) / 1000000, cd_high = or_high r, cd_low = or_low r, cd_close = or_close r\<rparr>"

definition macro_refresh :: "ohlcv_row list \<Rightarrow> datetime \<Rightarrow> int \<Rightarrow> macro_provider \<Rightarrow> macro_provider" where
  "macro_refresh table now hours mp =
     (let since = utc_datetime (of_int now / 1000000 - of_int (hours * 3600))
      in set_candles (map row_candle (ohlcv_query ''binance'' ''BTCUSDT'' ''5m'' since table)) mp)"

section \<open>The cache of the trade features\<close>

record ms_provider =
  mi_window_s :: int
  mi_large_threshold_usd :: real
  mi_max_staleness_s :: real
  mi_cache :: "(string, real) dict"
  mi_cache_ts :: epoch

definition new_ms_provider :: "int \<Rightarrow> real \<Rightarrow> real \<Rightarrow> ms_provider" where
  "new_ms_provider window_s large_threshold_usd max_staleness_s =
     \<lparr>mi_window_s = window_s, mi_large_threshold_usd = large_threshold_usd, mi_max_staleness_s = max_staleness_s,
      mi_cache = empty_features, mi_cache_ts = 0\<rparr>"

text \<open>A refresh at wall-clock time \<open>now\<close>: the rows of the two queries, or \<open>None\<close> where the database raises.\<close>

definition ms_refresh :: "epoch \<Rightarrow> (taker_trade list \<times> int) option \<Rightarrow> ms_provider \<Rightarrow> ms_provider" where
  "ms_refresh now rows p =
     (case rows of
        None \<Rightarrow> p
      | Some r \<Rightarrow> p\<lparr>mi_cache := binance_microstructure_features (Some r) (mi_window_s p) (mi_large_threshold_usd p), mi_cache_ts := now\<rparr>)"

definition ms_fetch :: "ms_provider \<Rightarrow> epoch \<Rightarrow> (string, real) dict" where
  "ms_fetch p ts =
     (if mi_cache_ts p \<le> 0 then empty_features
      else if \<bar>ts - mi_cache_ts p\<bar> > mi_max_staleness_s p then empty_features
      else mi_cache p)"

section \<open>The model runner\<close>

record lgb_runner =
  lr_booster :: "real list \<Rightarrow> real"
  lr_n_features :: nat
  lr_calibrator :: "(real \<Rightarrow> real) option"

definition predict_proba :: "lgb_runner \<Rightarrow> real list \<Rightarrow> py_error + real" where
  "predict_proba m x =
     (if length x \<noteq> lr_n_features m then Inl (ValueError ''feature vector length does not match model.num_feature()'')
      else (let p0 = lr_booster m x; p = (case lr_calibrator m of Some cal \<Rightarrow> cal p0 | None \<Rightarrow> p0)
            in Inr (max 0 (min 1 p))))"

text \<open>
  The registry: the answer of the look-up (\<open>Inl\<close> a database error, otherwise the path of the active model if there is one),
  which files exist, the booster and number of features of a model file, and the calibrator of a pickle file; the last two may raise.
\<close>

definition new_lgb_runner :: "(string \<Rightarrow> bool) \<Rightarrow> (string \<Rightarrow> py_error + ((real list \<Rightarrow> real) \<times> nat)) \<Rightarrow> (string \<Rightarrow> py_error + (real \<Rightarrow> real)) \<Rightarrow>
    string \<Rightarrow> string option \<Rightarrow> py_error + lgb_runner" where
  "new_lgb_runner file_exists load_booster unpickle model_path calibrator_path =
     bind_r (load_booster model_path) (\<lambda>(booster, n).
       case calibrator_path of
         None \<Rightarrow> Inr \<lparr>lr_booster = booster, lr_n_features = n, lr_calibrator = None\<rparr>
       | Some cp \<Rightarrow>
           if \<not> file_exists cp then Inr \<lparr>lr_booster = booster, lr_n_features = n, lr_calibrator = None\<rparr>
           else bind_r (unpickle cp) (\<lambda>cal. Inr \<lparr>lr_booster = booster, lr_n_features = n, lr_calibrator = Some cal\<rparr>))"

definition load_runner :: "(string \<Rightarrow> bool) \<Rightarrow> (string \<Rightarrow> py_error + ((real list \<Rightarrow> real) \<times> nat)) \<Rightarrow> (string \<Rightarrow> py_error + (real \<Rightarrow> real)) \<Rightarrow>
    py_error + string option \<Rightarrow> lgb_runner option" where
  "load_runner file_exists load_booster unpickle row =
     (case row of
        Inl e \<Rightarrow> None
      | Inr None \<Rightarrow> None
      | Inr (Some path) \<Rightarrow>
          (let model_file = path @ ''/model.lgb''; calibrator_file = path @ ''/calibrator.pkl''
           in if \<not> file_exists model_file then None
              else (case new_lgb_runner file_exists load_booster unpickle model_file (Some calibrator_file) of
                      Inl e \<Rightarrow> None
                    | Inr m \<Rightarrow> Some m)))"

section \<open>The strategy\<close>

definition V3_TAIL :: "string list" where
  "V3_TAIL = [''bm_cvd_normalized'', ''bm_taker_buy_ratio'', ''bm_trade_intensity'', ''bm_large_trade_flag'', ''bm_signed_autocorr_lag1'']"

definition feature_names_v3 :: "string list" where
  "feature_names_v3 = feature_names False @ V3_TAIL"

record forecaster =
  fc_params :: "(string, real) dict"
  fc_shadow :: "bool option"
  fc_macro :: "(epoch \<Rightarrow> macro_snapshot option) option"
  fc_model :: "(real list \<Rightarrow> py_error + real) option"
  fc_ms :: "(epoch \<Rightarrow> (string, real) dict) option"

text \<open>\<open>self.config.get("paper", {}).get("shadow", True)\<close>.\<close>

definition shadow_of :: "forecaster \<Rightarrow> bool" where
  "shadow_of f = (case fc_shadow f of Some b \<Rightarrow> b | None \<Rightarrow> True)"

definition in_forecast_window :: "forecaster \<Rightarrow> 'a tick_core_scheme \<Rightarrow> bool" where
  "in_forecast_window f ctx \<longleftrightarrow>
     dict_getd (fc_params f) ''entry_window_start_s'' 205 \<le> tc_t_in_window ctx \<and>
     tc_t_in_window ctx \<le> dict_getd (fc_params f) ''entry_window_end_s'' 215"

definition spots_90s :: "tick_context \<Rightarrow> real list" where
  "spots_90s ctx =
     map tc_spot_price (filter (\<lambda>t. tc_ts ctx - tc_ts t \<le> 90 \<and> tc_spot_price t > 0) (tc_recent_ticks ctx)) @ [tc_spot_price ctx]"

definition macro_snap_of :: "forecaster \<Rightarrow> tick_context \<Rightarrow> macro_snapshot option" where
  "macro_snap_of f ctx = (case fc_macro f of Some snap \<Rightarrow> snap (tc_ts ctx) | None \<Rightarrow> None)"

definition regime_of :: "forecaster \<Rightarrow> macro_snapshot \<Rightarrow> string" where
  "regime_of f snap =
     classify_regime (sn_ema8 snap) (sn_ema34 snap) (sn_adx_14 snap) (sn_consecutive_same_dir snap)
       (dict_getd (fc_params f) ''adx_threshold'' 20) (py_int (dict_getd (fc_params f) ''consecutive_min'' 2))"

definition forecast_inputs :: "forecaster \<Rightarrow> tick_context \<Rightarrow> macro_snapshot \<Rightarrow> V2FeatureInputs" where
  "forecast_inputs f ctx snap =
     \<lparr>vi_as_of_ts = tc_ts ctx, vi_spots_last_90s = spots_90s ctx, vi_macro_snap = snap\<lparr>sn_regime := regime_of f snap\<rparr>,
      vi_implied_prob_yes = tc_implied_prob_yes ctx, vi_yes_ask = tc_pm_yes_ask ctx, vi_no_ask = tc_pm_no_ask ctx,
      vi_depth_yes = tc_pm_depth_yes ctx, vi_depth_no = tc_pm_depth_no ctx, vi_pm_imbalance = tc_pm_imbalance ctx,
      vi_pm_spread_bps = tc_pm_spread_bps ctx, vi_open_price = tc_open_price ctx, vi_t_in_window_s = tc_t_in_window ctx,
      vi_bb_T_seconds = 300\<rparr>"

definition ms_features_of :: "forecaster \<Rightarrow> tick_context \<Rightarrow> (string, real) dict" where
  "ms_features_of f ctx =
     (case fc_ms f of
        Some fetch \<Rightarrow> fetch (tc_ts ctx)
      | None \<Rightarrow> binance_microstructure_from_trades [] 0 (py_int (dict_getd (fc_params f) ''microstructure_window_seconds'' 90))
                 (dict_getd (fc_params f) ''large_trade_threshold_usd'' 100000))"

text \<open>The vector of a tick; \<open>ms_features[k]\<close> raises on a missing key.\<close>

definition forecast_vector :: "(real \<Rightarrow> real) \<Rightarrow> forecaster \<Rightarrow> tick_context \<Rightarrow> macro_snapshot \<Rightarrow> py_error + real list" where
  "forecast_vector erf f ctx snap =
     bind_r (cfg_reads (ms_features_of f ctx) V3_TAIL) (\<lambda>ms_tail. Inr (build_vector erf (forecast_inputs f ctx snap) False @ ms_tail))"

definition named_features :: "real list \<Rightarrow> (string, jval) dict" where
  "named_features vec = zip feature_names_v3 (map JNum vec)"

text \<open>The gates behind the model.\<close>

definition forecast_gates :: "forecaster \<Rightarrow> tick_context \<Rightarrow> string \<Rightarrow> (string, jval) dict \<Rightarrow> real \<Rightarrow> decision" where
  "forecast_gates f ctx regime feats micro_prob =
     (let edge = micro_prob - tc_implied_prob_yes ctx;
          features = feats @ [(''micro_prob'', JNum micro_prob), (''edge'', JNum edge), (''regime'', JStr regime), (''shadow'', JBool (shadow_of f))]
      in if tc_pm_spread_bps ctx > dict_getd (fc_params f) ''spread_max_bps'' 150 then mk_decision SKIP NONE (ftext ''spread_too_wide'') features
         else if regime = ''uptrend'' \<and> micro_prob \<le> 1 / 2 then mk_decision SKIP NONE (ftext ''macro_contradicts_micro'') features
         else if regime = ''downtrend'' \<and> micro_prob \<ge> 1 / 2 then mk_decision SKIP NONE (ftext ''macro_contradicts_micro'') features
         else if \<bar>edge\<bar> < dict_getd (fc_params f) ''edge_threshold'' (4 / 100) then mk_decision SKIP NONE (ftext ''edge_below_threshold'') features
         else if shadow_of f then mk_decision SKIP NONE (ftext ''shadow_mode'') features
         else (mk_decision ENTER (if edge > 0 then YES_UP else YES_DOWN)
                 [FTxt ''edge='', FSigned 4 edge, FTxt '' micro_prob='', FNum 4 micro_prob, FTxt '' regime='', FStr regime] features)
                \<lparr>dc_signal_breakdown := [(''edge'', JNum edge), (''micro_prob'', JNum micro_prob), (''regime'', JStr regime)]\<rparr>)"

definition forecast_should_enter :: "(real \<Rightarrow> real) \<Rightarrow> tick_context \<Rightarrow> forecaster \<Rightarrow> py_error + decision" where
  "forecast_should_enter erf ctx f =
     (if \<not> in_forecast_window f ctx then Inr (mk_decision SKIP NONE (ftext ''outside_entry_window'') [])
      else if length (spots_90s ctx) < 60 then Inr (mk_decision SKIP NONE (ftext ''insufficient_micro_data'') [])
      else (case macro_snap_of f ctx of
              None \<Rightarrow> Inr (mk_decision SKIP NONE (ftext ''no_macro_snapshot'') [])
            | Some snap \<Rightarrow>
                bind_r (forecast_vector erf f ctx snap) (\<lambda>vec.
                  case fc_model f of
                    None \<Rightarrow> Inr (mk_decision SKIP NONE (ftext ''shadow_mode_no_model'') (named_features vec))
                  | Some predict \<Rightarrow>
                      bind_r (predict vec) (\<lambda>micro_prob. Inr (forecast_gates f ctx (regime_of f snap) (named_features vec) micro_prob)))))"

definition forecast_strategy :: "(real \<Rightarrow> real) \<Rightarrow> forecaster strategy" where
  "forecast_strategy erf =
     \<lparr>sg_name = ''last_90s_forecaster_v3'', sg_on_start = id,
      sg_should_enter = (\<lambda>ctx f. case forecast_should_enter erf ctx f of Inr d \<Rightarrow> (d, f) | Inl e \<Rightarrow> (mk_decision SKIP NONE [] [], f)),
      sg_on_stop = id\<rparr>"

section \<open>The search of the closed candles\<close>

lemma bisect_loop_splits:
  "sorted a \<Longrightarrow> lo \<le> hi \<Longrightarrow> hi \<le> length a \<Longrightarrow> (\<forall>i < lo. a ! i \<le> x) \<Longrightarrow> (\<forall>i < length a. hi \<le> i \<longrightarrow> x < a ! i) \<Longrightarrow>
   bisect_loop a x lo hi \<le> length a \<and> (\<forall>i < bisect_loop a x lo hi. a ! i \<le> x) \<and>
   (\<forall>i < length a. bisect_loop a x lo hi \<le> i \<longrightarrow> x < a ! i)"
proof (induction a x lo hi rule: bisect_loop.induct)
  case (1 a x lo hi)
  let ?mid = "(lo + hi) div 2"
  show ?case
  proof (cases "lo < hi")
    case False
    then have "bisect_loop a x lo hi = lo" by (subst bisect_loop.simps) simp
    with False "1.prems" show ?thesis by auto
  next
    case lt: True
    then have mid: "lo \<le> ?mid" "?mid < hi" by auto
    show ?thesis
    proof (cases "x < a ! ?mid")
      case True
      have "\<forall>i < length a. ?mid \<le> i \<longrightarrow> x < a ! i"
        using True sorted_nth_mono [OF "1.prems"(1)] by (meson less_le_trans)
      with "1.IH"(1) [OF lt refl True "1.prems"(1)] mid "1.prems"(3,4) lt True show ?thesis
        by (simp add: bisect_loop.simps [of a x lo hi])
    next
      case False
      have "\<forall>i < ?mid + 1. a ! i \<le> x"
      proof (intro allI impI)
        fix i assume "i < ?mid + 1"
        then have "a ! i \<le> a ! ?mid" using mid "1.prems"(3) by (intro sorted_nth_mono [OF "1.prems"(1)]) auto
        with False show "a ! i \<le> x" by simp
      qed
      with "1.IH"(2) [OF lt refl False "1.prems"(1)] mid "1.prems"(3,5) lt False show ?thesis
        by (simp add: bisect_loop.simps [of a x lo hi])
    qed
  qed
qed

lemma bisect_right_takes:
  assumes "tss = map f xs" "sorted tss"
  shows "take (bisect_right tss x) xs = filter (\<lambda>c. f c \<le> x) xs \<and> bisect_right tss x = length (filter (\<lambda>c. f c \<le> x) xs)"
proof -
  let ?r = "bisect_right tss x"
  have r: "?r \<le> length xs" "\<And>i. i < ?r \<Longrightarrow> f (xs ! i) \<le> x" "\<And>i. i < length xs \<Longrightarrow> ?r \<le> i \<Longrightarrow> x < f (xs ! i)"
    using bisect_loop_splits [of tss 0 "length tss" x] assms by (auto simp: bisect_right_def)
  have "filter (\<lambda>c. f c \<le> x) (take ?r xs) = take ?r xs"
    using r(1,2) by (auto simp: filter_id_conv in_set_conv_nth)
  moreover have "filter (\<lambda>c. f c \<le> x) (drop ?r xs) = []"
    using r(1,3) by (auto simp: filter_empty_conv in_set_conv_nth not_le)
  ultimately have "take ?r xs = filter (\<lambda>c. f c \<le> x) xs"
    by (metis append_Nil2 append_take_drop_id filter_append)
  with r(1) show ?thesis by (metis length_take min.absorb2)
qed

definition macro_wf :: "macro_provider \<Rightarrow> bool" where
  "macro_wf mp \<longleftrightarrow> mp_tss mp = map cd_ts (mp_candles mp) \<and> sorted (mp_tss mp)"

lemma macro_wf_new: "macro_wf (new_postgres_macro lb adx cm)"
  by (simp add: macro_wf_def new_postgres_macro_def)

lemma macro_wf_fixed: "macro_wf (new_fixed_macro cs lb adx cm)"
  by (simp add: macro_wf_def new_fixed_macro_def set_candles_def new_postgres_macro_def)

lemma macro_wf_refresh: "macro_wf (macro_refresh table now hours mp)"
proof -
  have "sorted (map cd_ts (map row_candle rs))" if "sorted (map or_ts rs)" for rs
    using that by (induction rs) (auto simp: row_candle_def divide_right_mono)
  then show ?thesis by (simp add: macro_wf_def macro_refresh_def set_candles_def ohlcv_query_def Let_def)
qed

text \<open>The reference of the documentation: the last \<open>lookback\<close> candles that have closed.\<close>

definition closed_candles :: "macro_candle list \<Rightarrow> epoch \<Rightarrow> macro_candle list" where
  "closed_candles cs as_of = filter (\<lambda>c. cd_ts c + 300 \<le> as_of) cs"

definition snapshot_spec :: "macro_candle list \<Rightarrow> epoch \<Rightarrow> nat \<Rightarrow> real \<Rightarrow> int \<Rightarrow> macro_snapshot option" where
  "snapshot_spec cs as_of lookback adx_threshold consecutive_min =
     (let closed = closed_candles cs as_of; window = drop (length closed - lookback) closed
      in if length closed < lookback then None
         else macro_snapshot_of (map cd_high window) (map cd_low window) (map cd_close window) adx_threshold consecutive_min)"

lemma snapshot_at_spec:
  assumes "macro_wf mp"
  shows "snapshot_at mp t = snapshot_spec (mp_candles mp) t (mp_lookback mp) (mp_adx_threshold mp) (mp_consecutive_min mp)"
proof -
  have "closed_candles (mp_candles mp) t = filter (\<lambda>c. cd_ts c \<le> t - 300) (mp_candles mp)"
    unfolding closed_candles_def by (rule filter_cong) auto
  moreover have "mp_tss mp = map cd_ts (mp_candles mp)" "sorted (mp_tss mp)" using assms unfolding macro_wf_def by auto
  ultimately have "take (bisect_right (mp_tss mp) (t - 300)) (mp_candles mp) = closed_candles (mp_candles mp) t"
    "bisect_right (mp_tss mp) (t - 300) = length (closed_candles (mp_candles mp) t)"
    using bisect_right_takes [of "mp_tss mp" cd_ts "mp_candles mp" "t - 300"] by metis+
  then show ?thesis unfolding snapshot_at_def snapshot_from_window_def snapshot_spec_def Let_def by simp
qed

lemma filter_sort_future:
  assumes "list_all (\<lambda>c. \<not> P c) extra"
  shows "filter P (sort_key cd_ts (cs @ extra)) = filter P (sort_key cd_ts cs)"
proof -
  have "filter P extra = []" using assms by (simp add: list_all_iff filter_empty_conv)
  then show ?thesis by (simp add: filter_sort)
qed

text \<open>C29. The snapshot of the higher time frame looks at closed candles only. Whatever the order in which the candles
  were handed over, the binary search selects exactly the last \<open>lookback\<close> candles that ended at or before the tick, or
  answers nothing when there are fewer; and candles that have not ended by then change nothing, however
  many are added. The live cache, after any refresh, answers by the same rule from its own rows.\<close>

theorem macro_snapshot_no_lookahead:
  assumes "list_all (\<lambda>c. as_of < cd_ts c + 300) extra"
  shows "snapshot_at (new_fixed_macro (cs @ extra) lookback adx cm) as_of = snapshot_spec (sort_key cd_ts cs) as_of lookback adx cm \<and>
    snapshot_at (macro_refresh table now hours mp) as_of =
      snapshot_spec (map row_candle (ohlcv_query ''binance'' ''BTCUSDT'' ''5m'' (utc_datetime (of_int now / 1000000 - of_int (hours * 3600))) table))
        as_of (mp_lookback mp) (mp_adx_threshold mp) (mp_consecutive_min mp)"
proof
  have "closed_candles (sort_key cd_ts (cs @ extra)) as_of = closed_candles (sort_key cd_ts cs) as_of"
    unfolding closed_candles_def using assms by (intro filter_sort_future) (simp add: list_all_iff not_le)
  then show "snapshot_at (new_fixed_macro (cs @ extra) lookback adx cm) as_of = snapshot_spec (sort_key cd_ts cs) as_of lookback adx cm"
    using snapshot_at_spec [OF macro_wf_fixed, of "cs @ extra" lookback adx cm as_of]
    by (simp add: snapshot_spec_def new_fixed_macro_def set_candles_def new_postgres_macro_def)
  show "snapshot_at (macro_refresh table now hours mp) as_of =
      snapshot_spec (map row_candle (ohlcv_query ''binance'' ''BTCUSDT'' ''5m'' (utc_datetime (of_int now / 1000000 - of_int (hours * 3600))) table))
        as_of (mp_lookback mp) (mp_adx_threshold mp) (mp_consecutive_min mp)"
    using snapshot_at_spec [OF macro_wf_refresh, of table now hours mp as_of] by (simp add: macro_refresh_def set_candles_def Let_def)
qed

section \<open>The protocols of the strategy\<close>

locale feature_source =
  fixes fetch :: "'p \<Rightarrow> epoch \<Rightarrow> (string, real) dict" and ok :: "'p \<Rightarrow> bool"
  assumes fetch_keys: "ok p \<Longrightarrow> map fst (fetch p ts) = V3_TAIL"

locale probability_model =
  fixes predict :: "'m \<Rightarrow> real list \<Rightarrow> py_error + real" and arity :: "'m \<Rightarrow> nat"
  assumes accepts: "length x = arity m \<Longrightarrow> \<exists>q. predict m x = Inr q \<and> 0 \<le> q \<and> q \<le> 1"
    and rejects: "length x \<noteq> arity m \<Longrightarrow> \<exists>e. predict m x = Inl (ValueError e)"

lemma cfg_reads_keys: "distinct (map fst d) \<Longrightarrow> cfg_reads d (map fst d) = Inr (map snd d)"
proof -
  have "cfg_reads d (map fst d') = Inr (map snd d')" if "distinct (map fst d)" "set d' \<subseteq> set d" for d'
    using that by (induction d') (auto split: option.split dest: eq_key_imp_eq_value)
  then show "distinct (map fst d) \<Longrightarrow> cfg_reads d (map fst d) = Inr (map snd d)" by blast
qed

lemma distinct_tail: "distinct V3_TAIL" "length V3_TAIL = 5"
  by (simp_all add: V3_TAIL_def)

lemma length_base: "length (base_vector inp) = 21"
  by (simp add: base_vector_def clock_features_def Let_def)

lemma tail_keys:
  "map fst (binance_microstructure_from_trades trades n w l) = V3_TAIL" "map fst empty_features = V3_TAIL"
  by (simp_all add: binance_microstructure_from_trades_def empty_features_def V3_TAIL_def)

definition wired :: "(string, real) dict \<Rightarrow> bool option \<Rightarrow> (epoch \<Rightarrow> macro_snapshot option) option \<Rightarrow> (real list \<Rightarrow> py_error + real) option \<Rightarrow>
    (epoch \<Rightarrow> (string, real) dict) option \<Rightarrow> forecaster" where
  "wired params shadow macro model ms = \<lparr>fc_params = params, fc_shadow = shadow, fc_macro = macro, fc_model = model, fc_ms = ms\<rparr>"

locale forecaster_wiring = feature_source fetch ok + probability_model predict arity
  for fetch :: "'p \<Rightarrow> epoch \<Rightarrow> (string, real) dict" and ok :: "'p \<Rightarrow> bool"
    and predict :: "'m \<Rightarrow> real list \<Rightarrow> py_error + real" and arity :: "'m \<Rightarrow> nat"
begin

lemma tail_read:
  assumes "ok p"
  shows "cfg_reads (fetch p ts) V3_TAIL = Inr (map snd (fetch p ts))"
  using cfg_reads_keys [of "fetch p ts"] fetch_keys [OF assms, of ts] distinct_tail(1) by simp

lemma vector:
  assumes "ok p"
  shows "forecast_vector erf (wired ps sh mac mo (Some (fetch p))) ctx snap =
      Inr (base_vector (forecast_inputs (wired ps sh mac mo (Some (fetch p))) ctx snap) @ map snd (fetch p (tc_ts ctx)))"
    and "length (base_vector inp @ map snd (fetch p ts)) = 26"
proof -
  show "forecast_vector erf (wired ps sh mac mo (Some (fetch p))) ctx snap =
      Inr (base_vector (forecast_inputs (wired ps sh mac mo (Some (fetch p))) ctx snap) @ map snd (fetch p (tc_ts ctx)))"
    using tail_read [OF assms] by (simp add: forecast_vector_def ms_features_of_def wired_def build_vector_def)
  have "length (map fst (fetch p ts)) = 5" unfolding fetch_keys [OF assms] by (rule distinct_tail)
  then show "length (base_vector inp @ map snd (fetch p ts)) = 26" by (simp add: length_base)
qed

lemma decides:
  assumes "ok p" "arity m = 26"
  shows "\<exists>d. forecast_should_enter erf ctx (wired ps sh mac (Some (predict m)) (Some (fetch p))) = Inr d"
proof -
  let ?f = "wired ps sh mac (Some (predict m)) (Some (fetch p))"
  have "\<exists>q. predict m (base_vector (forecast_inputs ?f ctx snap) @ map snd (fetch p (tc_ts ctx))) = Inr q" for snap
    using accepts vector(2) [OF assms(1)] assms(2) by metis
  moreover have "fc_model ?f = Some (predict m)" by (simp add: wired_def)
  ultimately show ?thesis
    using vector(1) [OF assms(1), where mo = "Some (predict m)"]
    by (auto simp: forecast_should_enter_def bind_r_def split: option.split sum.split) (metis Inr_Inl_False)
qed

lemma raises:
  assumes "ok p" "arity m \<noteq> 26" "in_forecast_window f ctx" "60 \<le> length (spots_90s ctx)" "macro_snap_of f ctx = Some snap"
    and f: "f = wired ps sh mac (Some (predict m)) (Some (fetch p))"
  shows "\<exists>e. forecast_should_enter erf ctx f = Inl (ValueError e)"
proof -
  let ?v = "base_vector (forecast_inputs f ctx snap) @ map snd (fetch p (tc_ts ctx))"
  have "forecast_vector erf f ctx snap = Inr ?v" unfolding f by (rule vector(1) [OF assms(1)])
  moreover obtain e where "predict m ?v = Inl (ValueError e)"
    using rejects vector(2) [OF assms(1)] assms(2) by metis
  moreover have "fc_model f = Some (predict m)" by (simp add: f wired_def)
  ultimately show ?thesis using assms(3-5) by (simp add: forecast_should_enter_def)
qed

end

definition ms_ok :: "ms_provider \<Rightarrow> bool" where
  "ms_ok p \<longleftrightarrow> map fst (mi_cache p) = V3_TAIL"

interpretation v3: forecaster_wiring ms_fetch ms_ok predict_proba lr_n_features
  by unfold_locales (auto simp: ms_fetch_def ms_ok_def tail_keys predict_proba_def Let_def)

text \<open>The provider after a sequence of refreshes, each at its time and with the rows it read.\<close>

definition ms_after :: "(epoch \<times> (taker_trade list \<times> int) option) list \<Rightarrow> ms_provider \<Rightarrow> ms_provider" where
  "ms_after refreshes p = fold (\<lambda>(now, rows). ms_refresh now rows) refreshes p"

lemma ms_ok_refresh: "ms_ok p \<Longrightarrow> ms_ok (ms_refresh now rows p)"
  by (auto simp: ms_ok_def ms_refresh_def binance_microstructure_features_def tail_keys split: option.split)

lemma ms_ok_after: "ms_ok p \<Longrightarrow> ms_ok (ms_after refreshes p)"
  unfolding ms_after_def by (induction refreshes arbitrary: p) (auto simp: ms_ok_refresh)

lemma ms_ok_new: "ms_ok (new_ms_provider w l st)"
  by (simp add: ms_ok_def new_ms_provider_def tail_keys)

text \<open>The vector always has the shape of its names, so a matching model is never refused. With the live
  feature cache, whatever its refreshes read, a tick never raises when the model was trained on 26 features, and a
  model with any other number of features (the 21 or 25 of the earlier family) raises on every tick that gets
  as far as the model: it can never serve a decision on a misaligned vector.\<close>

theorem forecaster_arity:
  assumes f: "f = wired ps sh mac (Some (predict_proba m)) (Some (ms_fetch (ms_after refreshes (new_ms_provider w l st))))"
  shows "(lr_n_features m = 26 \<longrightarrow> (\<exists>d. forecast_should_enter erf ctx f = Inr d)) \<and>
    (lr_n_features m \<noteq> 26 \<and> in_forecast_window f ctx \<and> 60 \<le> length (spots_90s ctx) \<and> macro_snap_of f ctx = Some snap \<longrightarrow>
      (\<exists>e. forecast_should_enter erf ctx f = Inl (ValueError e))) \<and>
    length feature_names_v3 = 26 \<and> distinct feature_names_v3"
proof (intro conjI impI)
  have ok: "ms_ok (ms_after refreshes (new_ms_provider w l st))" by (rule ms_ok_after [OF ms_ok_new])
  show "\<exists>d. forecast_should_enter erf ctx f = Inr d" if "lr_n_features m = 26" unfolding f by (rule v3.decides [OF ok that])
  show "\<exists>e. forecast_should_enter erf ctx f = Inl (ValueError e)"
    if "lr_n_features m \<noteq> 26 \<and> in_forecast_window f ctx \<and> 60 \<le> length (spots_90s ctx) \<and> macro_snap_of f ctx = Some snap"
    using v3.raises [OF ok _ _ _ _ f] that by blast
qed (simp_all add: feature_names_v3_def feature_names_def FEATURE_NAMES_BASE_def V3_TAIL_def)

section \<open>Entries\<close>

lemma forecast_decision_cases:
  assumes "forecast_should_enter erf ctx f = Inr d" "dc_action d = ENTER"
  obtains snap vec predict q where "in_forecast_window f ctx" "60 \<le> length (spots_90s ctx)" "macro_snap_of f ctx = Some snap"
    "forecast_vector erf f ctx snap = Inr vec" "fc_model f = Some predict" "predict vec = Inr q"
    "d = forecast_gates f ctx (regime_of f snap) (named_features vec) q"
  using assms
  by (auto simp: forecast_should_enter_def mk_decision_def bind_r_def split: if_splits option.splits sum.splits)

lemma forecast_gates_enter:
  assumes "dc_action (forecast_gates f ctx regime feats q) = ENTER"
  shows "\<not> shadow_of f" "tc_pm_spread_bps ctx \<le> dict_getd (fc_params f) ''spread_max_bps'' 150"
    "dict_getd (fc_params f) ''edge_threshold'' (4 / 100) \<le> \<bar>q - tc_implied_prob_yes ctx\<bar>"
    "regime = ''uptrend'' \<Longrightarrow> 1 / 2 < q" "regime = ''downtrend'' \<Longrightarrow> q < 1 / 2"
    "dc_side (forecast_gates f ctx regime feats q) = (if q > tc_implied_prob_yes ctx then YES_UP else YES_DOWN)"
    "dc_signal_features (forecast_gates f ctx regime feats q) =
       feats @ [(''micro_prob'', JNum q), (''edge'', JNum (q - tc_implied_prob_yes ctx)), (''regime'', JStr regime), (''shadow'', JBool (shadow_of f))]"
  using assms by (auto simp: forecast_gates_def mk_decision_def Let_def split: if_splits)

text \<open>C28. The forecaster enters only what its model and its gates support. An entry happens inside the entry
  window, out of shadow mode, with a model, with at least sixty spots and a candle snapshot; the model
  was asked on the vector of the tick, its answer differs from the market's probability by at least the
  threshold, the side is the one the model prefers to the market, the spread is within its limit, and in a trend the model
  is on the side of the trend.\<close>

theorem forecaster_entry_sound:
  assumes "forecast_should_enter erf ctx f = Inr d" "dc_action d = ENTER"
  shows "\<exists>snap vec predict q.
    in_forecast_window f ctx \<and> \<not> shadow_of f \<and> 60 \<le> length (spots_90s ctx) \<and> macro_snap_of f ctx = Some snap \<and>
    forecast_vector erf f ctx snap = Inr vec \<and> fc_model f = Some predict \<and> predict vec = Inr q \<and>
    dict_getd (fc_params f) ''edge_threshold'' (4 / 100) \<le> \<bar>q - tc_implied_prob_yes ctx\<bar> \<and>
    dc_side d = (if q > tc_implied_prob_yes ctx then YES_UP else YES_DOWN) \<and>
    tc_pm_spread_bps ctx \<le> dict_getd (fc_params f) ''spread_max_bps'' 150 \<and>
    (regime_of f snap = ''uptrend'' \<longrightarrow> 1 / 2 < q) \<and> (regime_of f snap = ''downtrend'' \<longrightarrow> q < 1 / 2)"
proof -
  from assms obtain snap vec predict q where
    d: "in_forecast_window f ctx" "60 \<le> length (spots_90s ctx)" "macro_snap_of f ctx = Some snap"
    "forecast_vector erf f ctx snap = Inr vec" "fc_model f = Some predict" "predict vec = Inr q"
    "d = forecast_gates f ctx (regime_of f snap) (named_features vec) q"
    by (rule forecast_decision_cases)
  with forecast_gates_enter [of f ctx "regime_of f snap" "named_features vec" q] assms(2) show ?thesis by blast
qed

section \<open>Ranges of the vector\<close>

definition feature :: "real list \<Rightarrow> string \<Rightarrow> real" where
  "feature vec name = dict_getd (zip feature_names_v3 vec) name 0"

lemma feature_base:
  "feature (base_vector inp @ bm) ''rv_90s'' = realized_vol_yz (vi_spots_last_90s inp) 90"
  "feature (base_vector inp @ bm) ''tick_up_ratio'' = tick_up_ratio (vi_spots_last_90s inp) 90"
  "feature (base_vector inp @ bm) ''adx_14'' = sn_adx_14 (vi_macro_snap inp)"
  "feature (base_vector inp @ bm) ''regime_uptrend'' = of_bool (sn_regime (vi_macro_snap inp) = ''uptrend'')"
  "feature (base_vector inp @ bm) ''regime_downtrend'' = of_bool (sn_regime (vi_macro_snap inp) = ''downtrend'')"
  "feature (base_vector inp @ bm) ''regime_range'' = of_bool (sn_regime (vi_macro_snap inp) = ''range'')"
  by (simp_all add: feature_def dict_getd_def feature_names_v3_def feature_names_def FEATURE_NAMES_BASE_def base_vector_def Let_def)

lemma feature_clock:
  "(feature (base_vector inp @ bm) ''hour_sin'')\<^sup>2 + (feature (base_vector inp @ bm) ''hour_cos'')\<^sup>2 = 1"
  "(feature (base_vector inp @ bm) ''dow_sin'')\<^sup>2 + (feature (base_vector inp @ bm) ''dow_cos'')\<^sup>2 = 1"
  by (simp_all add: feature_def dict_getd_def feature_names_v3_def feature_names_def FEATURE_NAMES_BASE_def base_vector_def
      clock_features_def Let_def)

lemma feature_tail:
  "feature (base_vector inp @ [c, b, i, fl, ac]) ''bm_cvd_normalized'' = c"
  "feature (base_vector inp @ [c, b, i, fl, ac]) ''bm_taker_buy_ratio'' = b"
  "feature (base_vector inp @ [c, b, i, fl, ac]) ''bm_trade_intensity'' = i"
  "feature (base_vector inp @ [c, b, i, fl, ac]) ''bm_large_trade_flag'' = fl"
  "feature (base_vector inp @ [c, b, i, fl, ac]) ''bm_signed_autocorr_lag1'' = ac"
  by (simp_all add: feature_def dict_getd_def feature_names_v3_def feature_names_def FEATURE_NAMES_BASE_def V3_TAIL_def base_vector_def
      clock_features_def Let_def)

lemma snapshot_adx_range: "snapshot_at mp t = Some snap \<Longrightarrow> 0 \<le> sn_adx_14 snap \<and> sn_adx_14 snap \<le> 100"
  by (auto simp: snapshot_at_def snapshot_from_window_def macro_snapshot_of_def Let_def adx_range split: if_splits)

lemma regime_cases: "regime_of f snap \<in> {''uptrend'', ''downtrend'', ''range''}"
  by (simp add: regime_of_def classify_regime_def)

text \<open>What the cache can hold: the five features of some trades with quantities that are not negative.\<close>

definition of_trades :: "(string, real) dict \<Rightarrow> bool" where
  "of_trades d \<longleftrightarrow> (\<exists>trades n w l. list_all (\<lambda>t. 0 \<le> tt_qty t) trades \<and> d = binance_microstructure_from_trades trades n w l)"

lemma of_trades_empty: "of_trades empty_features"
  unfolding of_trades_def using no_trades_no_signal by (intro exI [of _ "[]"] exI [of _ 0]) simp

definition nonneg_rows :: "(epoch \<times> (taker_trade list \<times> int) option) list \<Rightarrow> bool" where
  "nonneg_rows refreshes = list_all (\<lambda>(now, rows). case rows of None \<Rightarrow> True | Some (trades, n) \<Rightarrow> list_all (\<lambda>t. 0 \<le> tt_qty t) trades) refreshes"

lemma of_trades_after: "nonneg_rows refreshes \<Longrightarrow> of_trades (mi_cache p) \<Longrightarrow> of_trades (mi_cache (ms_after refreshes p))"
  unfolding ms_after_def
proof (induction refreshes arbitrary: p)
  case (Cons r refreshes)
  obtain now rows where r: "r = (now, rows)" by (cases r)
  have "of_trades (mi_cache (ms_refresh now rows p))"
  proof (cases rows)
    case None
    with Cons.prems show ?thesis by (simp add: ms_refresh_def)
  next
    case (Some tn)
    then have "list_all (\<lambda>t. 0 \<le> tt_qty t) (fst tn)" using Cons.prems(1) r by (cases tn) (simp add: nonneg_rows_def)
    then have "of_trades (binance_microstructure_from_trades (fst tn) (snd tn) (mi_window_s p) (mi_large_threshold_usd p))"
      unfolding of_trades_def by blast
    with Some show ?thesis by (cases tn) (simp add: ms_refresh_def binance_microstructure_features_def)
  qed
  with Cons r show ?case by (simp add: nonneg_rows_def)
qed simp

lemma fetched_tail:
  assumes "nonneg_rows refreshes"
  obtains trades n w' l' where "list_all (\<lambda>t. 0 \<le> tt_qty t) trades"
    "ms_fetch (ms_after refreshes (new_ms_provider w l st)) ts = binance_microstructure_from_trades trades n w' l'"
proof -
  have "of_trades (mi_cache (ms_after refreshes (new_ms_provider w l st)))"
    using of_trades_after [OF assms] of_trades_empty by (simp add: new_ms_provider_def)
  then have "of_trades (ms_fetch (ms_after refreshes (new_ms_provider w l st)) ts)"
    using of_trades_empty by (simp add: ms_fetch_def)
  then show ?thesis using that by (auto simp: of_trades_def)
qed

text \<open>Every feature of the vector that has a natural range stays in it, whatever the candles, ticks and trades:
  volatility is not negative, the share of rising ticks and of buying takers are in [0, 1], the trend index is in
  [0, 100], the three regime flags are one-hot, the clock features lie on the unit circle, the large-trade flag
  is 0 or 1, and the signed volume and the lag-one autocorrelation of the trade signs are in
  [-1, 1] (although its covariance and its variance are averaged over different counts).\<close>

theorem forecast_vector_in_range:
  assumes f: "f = wired ps sh (Some (snapshot_at mp)) mo (Some (ms_fetch (ms_after refreshes (new_ms_provider w l st))))"
    and rows: "nonneg_rows refreshes"
    and vec: "macro_snap_of f ctx = Some snap" "forecast_vector erf f ctx snap = Inr vec"
  shows "length vec = 26 \<and> 0 \<le> feature vec ''rv_90s'' \<and> 0 \<le> feature vec ''tick_up_ratio'' \<and> feature vec ''tick_up_ratio'' \<le> 1 \<and>
    0 \<le> feature vec ''adx_14'' \<and> feature vec ''adx_14'' \<le> 100 \<and>
    {feature vec ''regime_uptrend'', feature vec ''regime_downtrend'', feature vec ''regime_range''} \<subseteq> {0, 1} \<and>
    feature vec ''regime_uptrend'' + feature vec ''regime_downtrend'' + feature vec ''regime_range'' = 1 \<and>
    (feature vec ''hour_sin'')\<^sup>2 + (feature vec ''hour_cos'')\<^sup>2 = 1 \<and> (feature vec ''dow_sin'')\<^sup>2 + (feature vec ''dow_cos'')\<^sup>2 = 1 \<and>
    \<bar>feature vec ''bm_cvd_normalized''\<bar> \<le> 1 \<and> 0 \<le> feature vec ''bm_taker_buy_ratio'' \<and> feature vec ''bm_taker_buy_ratio'' \<le> 1 \<and>
    0 \<le> feature vec ''bm_trade_intensity'' \<and> feature vec ''bm_large_trade_flag'' \<in> {0, 1} \<and> \<bar>feature vec ''bm_signed_autocorr_lag1''\<bar> \<le> 1"
proof -
  let ?p = "ms_after refreshes (new_ms_provider w l st)" and ?inp = "forecast_inputs f ctx snap"
  obtain trades n w' l' where tr: "list_all (\<lambda>t. 0 \<le> tt_qty t) trades"
    "ms_fetch ?p (tc_ts ctx) = binance_microstructure_from_trades trades n w' l'"
    by (rule fetched_tail [OF rows])
  have ok: "ms_ok ?p" by (rule ms_ok_after [OF ms_ok_new])
  have "vec = base_vector ?inp @ map snd (ms_fetch ?p (tc_ts ctx))"
    using vec(2) v3.vector(1) [OF ok, of erf ps sh "Some (snapshot_at mp)" mo ctx snap] by (simp add: f)
  then have v: "vec = base_vector ?inp @ [cvd_normalized trades, taker_buy_ratio trades, trade_intensity (length trades) n w',
      large_trade_flag trades l', signed_trade_autocorr_lag1 trades (1 / 10 ^ 9)]"
    by (simp add: tr(2) binance_microstructure_from_trades_def)
  have "snapshot_at mp (tc_ts ctx) = Some snap" using vec(1) by (simp add: f macro_snap_of_def wired_def)
  then have adx: "0 \<le> sn_adx_14 (vi_macro_snap ?inp)" "sn_adx_14 (vi_macro_snap ?inp) \<le> 100"
    using snapshot_adx_range by (auto simp: forecast_inputs_def)
  have reg: "sn_regime (vi_macro_snap ?inp) \<in> {''uptrend'', ''downtrend'', ''range''}"
    using regime_cases [of f snap] by (simp add: forecast_inputs_def)
  note tail = cvd_range [OF tr(1)] buy_ratio_range [OF tr(1)] intensity_nonneg flag_range signed_autocorr_range [of "1 / 10 ^ 9" trades]
  show ?thesis
    unfolding v using adx reg tail
    by (auto simp: feature_base feature_clock feature_tail realized_vol_nonneg tick_up_ratio_range length_base abs_le_iff)
qed

section \<open>The order of the trades\<close>

definition sided :: "string \<Rightarrow> taker_trade" where
  "sided sd = \<lparr>tt_price = 100, tt_qty = 1, tt_side = sd\<rparr>"

text \<open>The query of the trades has no order, and one feature depends on it: the same ten trades, in the order of
  time or in another one, give two vectors that agree on the four other features and whose autocorrelations are
  far apart (close to plus one for a run of buys followed by a run of sells, minus one when they alternate).\<close>

theorem autocorr_depends_on_row_order:
  "\<exists>trades trades'. mset trades = mset trades' \<and>
     map_of (binance_microstructure_from_trades trades n w l) ''bm_signed_autocorr_lag1'' = Some (7 / 9) \<and>
     map_of (binance_microstructure_from_trades trades' n w l) ''bm_signed_autocorr_lag1'' = Some (- 1) \<and>
     AList.delete ''bm_signed_autocorr_lag1'' (binance_microstructure_from_trades trades n w l) =
       AList.delete ''bm_signed_autocorr_lag1'' (binance_microstructure_from_trades trades' n w l)"
proof -
  let ?b = "sided ''buy''" and ?s = "sided ''sell''"
  define t where "t = [?b, ?b, ?b, ?b, ?b, ?s, ?s, ?s, ?s, ?s]"
  define t' where "t' = [?b, ?s, ?b, ?s, ?b, ?s, ?b, ?s, ?b, ?s]"
  have "signed_trade_autocorr_lag1 t (1 / 10 ^ 9) = 7 / 9" "signed_trade_autocorr_lag1 t' (1 / 10 ^ 9) = - 1"
    by (simp_all add: signed_trade_autocorr_lag1_def sided_def Let_def t_def t'_def)
  moreover have "mset t = mset t'" "length t = length t'" by (simp_all add: t_def t'_def)
  moreover have "cvd_normalized t = cvd_normalized t'" "taker_buy_ratio t = taker_buy_ratio t'" "large_trade_flag t l = large_trade_flag t' l"
    by (simp_all add: cvd_normalized_def taker_buy_ratio_def large_trade_flag_def sided_def Let_def t_def t'_def)
  ultimately have "mset t = mset t' \<and>
     map_of (binance_microstructure_from_trades t n w l) ''bm_signed_autocorr_lag1'' = Some (7 / 9) \<and>
     map_of (binance_microstructure_from_trades t' n w l) ''bm_signed_autocorr_lag1'' = Some (- 1) \<and>
     AList.delete ''bm_signed_autocorr_lag1'' (binance_microstructure_from_trades t n w l) =
       AList.delete ''bm_signed_autocorr_lag1'' (binance_microstructure_from_trades t' n w l)"
    by (simp add: binance_microstructure_from_trades_def)
  then show ?thesis by blast
qed

section \<open>Replays of the forecaster\<close>

lemma named_features_keys: "k \<in> set (map fst (named_features vec)) \<Longrightarrow> k \<in> set feature_names_v3"
  by (auto simp: named_features_def dest: set_zip_leftD)

definition supported :: "forecaster \<Rightarrow> side \<Rightarrow> (string, jval) dict \<Rightarrow> bool" where
  "supported f sd feats \<longleftrightarrow>
     (\<exists>e. map_of feats ''edge'' = Some (JNum e) \<and> dict_getd (fc_params f) ''edge_threshold'' (4 / 100) \<le> \<bar>e\<bar> \<and>
          sd = (if e > 0 then YES_UP else YES_DOWN))"

lemma forecast_entries_supported: "entries_satisfy (\<lambda>g. g = f) (supported f) (forecast_strategy erf)"
proof -
  have "supported f (dc_side d) (dc_signal_features d)" if d: "forecast_should_enter erf ctx f = Inr d" "dc_action d = ENTER" for ctx d
  proof -
    from d obtain snap vec predict q where g: "d = forecast_gates f ctx (regime_of f snap) (named_features vec) q"
      by (rule forecast_decision_cases)
    have "''edge'' \<notin> set feature_names_v3"
      by (simp add: feature_names_v3_def feature_names_def FEATURE_NAMES_BASE_def V3_TAIL_def)
    then have "map_of (named_features vec) ''edge'' = None"
      using named_features_keys unfolding map_of_eq_None_iff by (metis set_map)
    with forecast_gates_enter(3,6,7) [of f ctx "regime_of f snap" "named_features vec" q] d(2) show ?thesis
      unfolding g supported_def by (auto simp: map_add_def)
  qed
  then show ?thesis by (auto simp: entries_satisfy_def forecast_strategy_def mk_decision_def split: sum.splits)
qed

text \<open>Every trade of a replay of the forecaster carries an edge of at least the threshold in size, on the
  side of its sign; a forecaster without a model, or with the default shadow flag, makes no trade at all.\<close>

theorem forecaster_trades_have_edge:
  "list_all (\<lambda>t. supported f (bt_side t) (bt_signal_features t) \<and> fc_model f \<noteq> None \<and> \<not> shadow_of f)
     (res_trades (run_backtest (forecast_strategy erf) markets from_ts to_ts P risk cfg f))"
proof -
  let ?S = "forecast_strategy erf" and ?Q = "\<lambda>sd feats. fc_model f \<noteq> None \<and> \<not> shadow_of f"
  have "entries_satisfy (\<lambda>g. g = f) ?Q ?S"
    using forecast_gates_enter(1)
    by (fastforce simp: entries_satisfy_def forecast_strategy_def mk_decision_def split: sum.splits elim: forecast_decision_cases)
  moreover have "sg_on_start ?S f = f" by (simp add: forecast_strategy_def)
  ultimately show ?thesis
    using run_backtest_sat [OF forecast_entries_supported] run_backtest_sat [of "\<lambda>g. g = f" ?Q ?S f] unfolding list_all_iff by blast
qed

section \<open>A worked example\<close>

definition ex_candles :: "macro_candle list" where
  "ex_candles = map (\<lambda>i. \<lparr>cd_ts = - 300 - 300 * real i, cd_high = 101, cd_low = 99, cd_close = 100\<rparr>) [0..<34]"

definition ex_ms :: ms_provider where
  "ex_ms = ms_after [] (new_ms_provider 90 100000 30)"

definition ex_runner :: "nat \<Rightarrow> lgb_runner" where
  "ex_runner n = \<lparr>lr_booster = (\<lambda>x. 3 / 5), lr_n_features = n, lr_calibrator = None\<rparr>"

definition ex_forecaster :: "nat \<Rightarrow> forecaster" where
  "ex_forecaster n = wired [(''adx_threshold'', 101)] (Some False) (Some (snapshot_at (new_fixed_macro ex_candles 34 20 2))) (Some (predict_proba (ex_runner n))) (Some (ms_fetch ex_ms))"

definition ex_forecast_ctx :: tick_context where
  "ex_forecast_ctx = with_recent (ex_core\<lparr>tc_ts := 210, tc_t_in_window := 210\<rparr>) (replicate 60 (ex_core\<lparr>tc_ts := 200\<rparr>))"

lemma ex_forecast_ctx_sel [simp]:
  "tc_ts ex_forecast_ctx = 210" "tc_t_in_window ex_forecast_ctx = 210" "tc_implied_prob_yes ex_forecast_ctx = 1 / 2"
  "tc_pm_spread_bps ex_forecast_ctx = 100" "tc_recent_ticks ex_forecast_ctx = replicate 60 (ex_core\<lparr>tc_ts := 200\<rparr>)"
  by (simp_all add: ex_forecast_ctx_def with_recent_def ex_core_def tick_core.defs tick_context.defs)

lemma ex_forecaster_sel [simp]:
  "fc_params (ex_forecaster n) = [(''adx_threshold'', 101)]" "shadow_of (ex_forecaster n) = False" "fc_model (ex_forecaster n) = Some (predict_proba (ex_runner n))"
  by (simp_all add: ex_forecaster_def wired_def shadow_of_def)

lemma ex_window: "in_forecast_window (ex_forecaster n) ex_forecast_ctx" "60 \<le> length (spots_90s ex_forecast_ctx)"
  by (simp_all add: in_forecast_window_def spots_90s_def ex_core_def filter_replicate dict_getd_def)

lemma ex_forecaster_wired:
  "ex_forecaster n = wired [(''adx_threshold'', 101)] (Some False) (Some (snapshot_at (new_fixed_macro ex_candles 34 20 2)))
     (Some (predict_proba (ex_runner n))) (Some (ms_fetch (ms_after [] (new_ms_provider 90 100000 30))))"
  by (simp add: ex_forecaster_def ex_ms_def)

lemma ex_snapshot: "\<exists>snap. snapshot_at (new_fixed_macro ex_candles 34 20 2) 210 = Some snap"
proof -
  have "closed_candles (sort_key cd_ts ex_candles) 210 = sort_key cd_ts ex_candles"
    unfolding closed_candles_def by (rule filter_True) (auto simp: ex_candles_def)
  moreover have "length ex_candles = 34" by (simp add: ex_candles_def)
  ultimately have "\<exists>snap. snapshot_spec (sort_key cd_ts ex_candles) 210 34 20 2 = Some snap"
    by (simp add: snapshot_spec_def macro_snapshot_of_def Let_def)
  then show ?thesis
    using snapshot_at_spec [OF macro_wf_fixed, of ex_candles 34 20 2 210]
    by (simp add: new_fixed_macro_def set_candles_def new_postgres_macro_def)
qed

lemma ex_forecast_vector:
  obtains snap vec where "macro_snap_of (ex_forecaster n) ex_forecast_ctx = Some snap"
    "forecast_vector erf (ex_forecaster n) ex_forecast_ctx snap = Inr vec" "length vec = 26"
proof -
  obtain snap where snap: "macro_snap_of (ex_forecaster n) ex_forecast_ctx = Some snap"
    using ex_snapshot by (auto simp: macro_snap_of_def ex_forecaster_def wired_def)
  have ok: "ms_ok ex_ms" unfolding ex_ms_def by (rule ms_ok_after [OF ms_ok_new])
  from that [OF snap, unfolded ex_forecaster_def, OF v3.vector(1) [OF ok] v3.vector(2) [OF ok]] show ?thesis .
qed

lemma ex_regime: "macro_snap_of (ex_forecaster n) ex_forecast_ctx = Some snap \<Longrightarrow> regime_of (ex_forecaster n) snap = ''range''"
  using snapshot_adx_range [of "new_fixed_macro ex_candles 34 20 2" 210 snap]
  by (simp add: macro_snap_of_def ex_forecaster_def wired_def regime_of_def classify_regime_def dict_getd_def)

lemma ex_forecast_enters: "\<exists>d. forecast_should_enter erf ex_forecast_ctx (ex_forecaster 26) = Inr d \<and> dc_action d = ENTER"
proof -
  obtain snap vec where v: "macro_snap_of (ex_forecaster 26) ex_forecast_ctx = Some snap"
    "forecast_vector erf (ex_forecaster 26) ex_forecast_ctx snap = Inr vec" "length vec = 26"
    by (rule ex_forecast_vector)
  have "predict_proba (ex_runner 26) vec = Inr (3 / 5)" using v(3) by (simp add: predict_proba_def ex_runner_def)
  with v ex_window ex_regime [OF v(1)] show ?thesis
    by (simp add: forecast_should_enter_def forecast_gates_def mk_decision_def Let_def dict_getd_def)
qed

lemma forecaster_entry_sound_witness:
  "\<exists>d. forecast_should_enter (\<lambda>x. 0) ex_forecast_ctx (ex_forecaster 26) = Inr d \<and> dc_action d = ENTER \<and> \<not> shadow_of (ex_forecaster 26)"
proof -
  obtain d where d: "forecast_should_enter (\<lambda>x. 0) ex_forecast_ctx (ex_forecaster 26) = Inr d" "dc_action d = ENTER"
    using ex_forecast_enters by blast
  from forecaster_entry_sound [OF d] d show ?thesis by blast
qed

lemma forecaster_arity_witness:
  "(\<exists>d. forecast_should_enter (\<lambda>x. 0) ex_forecast_ctx (ex_forecaster 26) = Inr d) \<and>
   (\<exists>e. forecast_should_enter (\<lambda>x. 0) ex_forecast_ctx (ex_forecaster 21) = Inl (ValueError e))"
proof -
  obtain snap where "macro_snap_of (ex_forecaster 21) ex_forecast_ctx = Some snap" using ex_forecast_vector by blast
  then show ?thesis
    using forecaster_arity [OF ex_forecaster_wired [of 26], where erf = "\<lambda>x. 0" and ctx = ex_forecast_ctx]
      forecaster_arity [OF ex_forecaster_wired [of 21], where erf = "\<lambda>x. 0" and ctx = ex_forecast_ctx] ex_window(1) [of 21] ex_window(2)
    by (simp add: ex_runner_def)
qed

lemma forecast_vector_in_range_witness:
  "\<exists>snap vec. forecast_vector (\<lambda>x. 0) (ex_forecaster 26) ex_forecast_ctx snap = Inr vec \<and> feature vec ''adx_14'' \<le> 100"
proof -
  obtain snap vec where v: "macro_snap_of (ex_forecaster 26) ex_forecast_ctx = Some snap"
    "forecast_vector (\<lambda>x. 0) (ex_forecaster 26) ex_forecast_ctx snap = Inr vec"
    using ex_forecast_vector by blast
  from forecast_vector_in_range [OF ex_forecaster_wired [of 26] _ v] v show ?thesis
    by (auto simp: nonneg_rows_def)
qed

lemma macro_snapshot_no_lookahead_witness:
  "snapshot_at (new_fixed_macro (ex_candles @ [\<lparr>cd_ts = 0, cd_high = 300, cd_low = 1, cd_close = 200\<rparr>]) 34 20 2) 210 =
   snapshot_spec (sort_key cd_ts ex_candles) 210 34 20 2"
  using macro_snapshot_no_lookahead [where as_of = 210 and extra = "[\<lparr>cd_ts = 0, cd_high = 300, cd_low = 1, cd_close = 200\<rparr>]"
      and cs = ex_candles and lookback = 34 and adx = 20 and cm = 2] by simp

end
