(* ===== verification/HMM_Regime.thy ===== *)
theory HMM_Regime
  imports Forecast_Features
begin

text \<open>
  \<open>engine/features/hmm_regime.py\<close>: the regime detector around a fitted four-state hidden Markov model. The model is the
  record \<open>hmm_model\<close> of what the code reads of it: the posterior of every row of a feature matrix, the transition matrix,
  the state means and the score.
\<close>

section \<open>Features\<close>

definition yz_volatility :: "real list \<Rightarrow> nat \<Rightarrow> real" where
  "yz_volatility closes window =
     (if window < 2 \<or> length closes < window + 1 then 0
      else (let rets = ratio_returns (py_tail (window + 1) closes)
            in if length rets < 2 then 0
               else (let mean = sum_list rets / real (length rets);
                         var = sum_sq_dev rets mean / (real (length rets) - 1)
                     in sqrt (max var 0))))"

definition feature_row :: "real list \<Rightarrow> nat \<Rightarrow> (real \<times> real) list" where
  "feature_row closes i =
     (let prev = closes ! (i - 1); cur = closes ! i
      in if prev \<le> 0 \<or> cur \<le> 0 then []
         else (let window = drop (i - 20) (take (i + 1) closes)
               in [(ln (cur / prev), yz_volatility window (min 20 (length window - 1)))]))"

definition build_feature_matrix :: "real list \<Rightarrow> (real \<times> real) list" where
  "build_feature_matrix closes = concat (map (feature_row closes) [1..<length closes])"

section \<open>Labels\<close>

definition canonical_label_order :: "(real \<times> real) list \<Rightarrow> string list" where
  "canonical_label_order means =
     (let n = length means
      in if n \<noteq> 4 then replicate n ''ranging''
         else (let by_vol = sort_key (\<lambda>i. snd (means ! i)) [0..<n];
                   low3 = take 3 by_vol; high1 = by_vol ! 3;
                   sorted_low = sort_key (\<lambda>i. fst (means ! i)) low3
               in (replicate n ''ranging'')
                    [sorted_low ! 0 := ''trending_bear'', sorted_low ! 2 := ''trending_bull'', sorted_low ! 1 := ''ranging'',
                     high1 := ''high_vol'']))"

section \<open>The detector\<close>

record hmm_model =
  hm_predict_proba :: "(real \<times> real) list \<Rightarrow> real list list"
  hm_transmat :: "real list list"
  hm_means :: "(real \<times> real) list"
  hm_score :: "(real \<times> real) list \<Rightarrow> real"

record regime_state =
  rs_label :: string
  rs_posteriors :: "real \<times> real \<times> real \<times> real"
  rs_transition_stability :: real

text \<open>The first index of the greatest value.\<close>

fun argmax_from :: "nat \<Rightarrow> nat \<Rightarrow> real \<Rightarrow> real list \<Rightarrow> nat" where
  "argmax_from i best v [] = best"
| "argmax_from i best v (x # xs) = (if x > v then argmax_from (i + 1) i x xs else argmax_from (i + 1) best v xs)"

definition argmax :: "real list \<Rightarrow> nat" where
  "argmax xs = (case xs of [] \<Rightarrow> 0 | x # ys \<Rightarrow> argmax_from 1 0 x ys)"

text \<open>\<open>canonical\<close> after the loop: a label that occurs twice keeps its last posterior.\<close>

definition canonical_posteriors :: "string list \<Rightarrow> real list \<Rightarrow> (string, real) dict" where
  "canonical_posteriors labels posteriors =
     fold (\<lambda>(l, p). AList.update l p) (zip labels posteriors)
       [(''trending_bull'', 0), (''trending_bear'', 0), (''ranging'', 0), (''high_vol'', 0)]"

definition trace_of :: "real list list \<Rightarrow> real" where
  "trace_of m = sum_list (map (\<lambda>i. m ! i ! i) [0..<length m])"

definition off_diag :: "real list list \<Rightarrow> real" where
  "off_diag m = (sum_list (map sum_list m) - trace_of m) / real (max (length m) 1)"

definition transition_stability :: "real list list \<Rightarrow> real" where
  "transition_stability m = max 0 (1 - off_diag m / real (max (length m) 1))"

definition hmm_predict :: "hmm_model \<Rightarrow> string list \<Rightarrow> real list \<Rightarrow> py_error + regime_state option" where
  "hmm_predict m labels closes =
     (let x = build_feature_matrix closes
      in if length x < 21 then Inr None
         else (let posteriors = last (hm_predict_proba m x); state_idx = argmax posteriors
               in if length labels \<le> state_idx \<or> length posteriors < length labels then Inl IndexError
                  else (let c = (\<lambda>l. dict_getd (canonical_posteriors labels posteriors) l 0)
                        in Inr (Some \<lparr>rs_label = labels ! state_idx,
                             rs_posteriors = (c ''trending_bull'', c ''trending_bear'', c ''ranging'', c ''high_vol''),
                             rs_transition_stability = transition_stability (hm_transmat m)\<rparr>))))"

definition null_predict :: "real list \<Rightarrow> regime_state option" where
  "null_predict closes = None"

section \<open>What the labels mean\<close>

lemma length_4_cases: "length xs = 4 \<Longrightarrow> \<exists>a b c d. xs = [a, b, c, d]"
  by (auto simp: numeral_eq_Suc length_Suc_conv)

lemma length_3_cases: "length xs = 3 \<Longrightarrow> \<exists>a b c. xs = [a, b, c]"
  by (auto simp: numeral_eq_Suc length_Suc_conv)

text \<open>Every four-state model gets each label exactly once. One state each is labelled bear, ranging, bull and high
  volatility; the high-volatility state is the most volatile of the four, and the other three are ordered by their mean
  return, bear lowest and bull highest. The order is relative: the labels do not look at the sign of the
  return, so a model whose states all lose on average still has a bull state.\<close>

theorem canonical_labels_rank_states:
  assumes "length means = 4"
  shows "\<exists>bear rng bull hi. distinct [bear, rng, bull, hi] \<and> {bear, rng, bull, hi} = {0..<4} \<and>
    canonical_label_order means ! bear = ''trending_bear'' \<and> canonical_label_order means ! rng = ''ranging'' \<and>
    canonical_label_order means ! bull = ''trending_bull'' \<and> canonical_label_order means ! hi = ''high_vol'' \<and>
    length (canonical_label_order means) = 4 \<and>
    snd (means ! bear) \<le> snd (means ! hi) \<and> snd (means ! rng) \<le> snd (means ! hi) \<and> snd (means ! bull) \<le> snd (means ! hi) \<and>
    fst (means ! bear) \<le> fst (means ! rng) \<and> fst (means ! rng) \<le> fst (means ! bull)"
proof -
  let ?v = "\<lambda>i. snd (means ! i)" and ?r = "\<lambda>i. fst (means ! i)"
  obtain a b c d where v: "sort_key ?v [0..<4] = [a, b, c, d]" using length_4_cases [of "sort_key ?v [0..<4]"] by auto
  have abcd: "distinct [a, b, c, d]" "set [a, b, c, d] = {0..<4}"
    unfolding v [symmetric] by (simp_all only: distinct_sort set_sort distinct_upt set_upt)
  have "sorted (map ?v (sort_key ?v [0..<4]))" by (rule sorted_sort_key)
  then have vol: "?v a \<le> ?v d" "?v b \<le> ?v d" "?v c \<le> ?v d" unfolding v by auto
  have "length (sort_key ?r [a, b, c]) = 3" by (simp only: length_sort list.size)
  then obtain x y z where r: "sort_key ?r [a, b, c] = [x, y, z]" using length_3_cases by metis
  have "distinct (sort_key ?r [a, b, c])" "set (sort_key ?r [a, b, c]) = {a, b, c}" using abcd(1) by (simp_all only: distinct_sort set_sort) auto
  then have xyz: "distinct [x, y, z]" "{x, y, z} = {a, b, c}" unfolding r by auto
  have "sorted (map ?r (sort_key ?r [a, b, c]))" by (rule sorted_sort_key)
  then have ret: "?r x \<le> ?r y" "?r y \<le> ?r z" unfolding r by auto
  have dist: "distinct [x, y, z, d]" using xyz abcd(1) by auto
  have "insert d {x, y, z} = insert d {a, b, c}" using xyz(2) by simp
  also have "\<dots> = {0..<4}" using abcd(2) by auto
  finally have all: "{x, y, z, d} = {0..<4}" by auto
  then have lt: "x < 4" "y < 4" "z < 4" "d < 4" by auto
  have order: "canonical_label_order means =
      (replicate 4 ''ranging'')[x := ''trending_bear'', z := ''trending_bull'', y := ''ranging'', d := ''high_vol'']"
    using r by (simp add: canonical_label_order_def assms Let_def v)
  have "?v x \<le> ?v d" "?v y \<le> ?v d" "?v z \<le> ?v d" using vol xyz(2) by auto
  then show ?thesis
    using dist all lt ret by (intro exI [of _ x] exI [of _ y] exI [of _ z] exI [of _ d]) (simp add: order nth_list_update)
qed

definition all_falling :: "(real \<times> real) list" where
  "all_falling = [(- 4, 1), (- 3, 2), (- 2, 3), (- 1, 4)]"

theorem canonical_labels_rank_states_witness:
  "''trending_bull'' \<in> set (canonical_label_order all_falling) \<and> list_all (\<lambda>(r, v). r < 0) all_falling"
proof -
  have "length all_falling = 4" by (simp add: all_falling_def)
  from canonical_labels_rank_states [OF this] obtain bull where
    "bull \<in> {0..<4}" "canonical_label_order all_falling ! bull = ''trending_bull''" "length (canonical_label_order all_falling) = 4"
    by blast
  then have "''trending_bull'' \<in> set (canonical_label_order all_falling)" unfolding in_set_conv_nth by auto
  then show ?thesis by (simp add: all_falling_def)
qed

section \<open>The range of the stability\<close>

definition stochastic :: "real list list \<Rightarrow> bool" where
  "stochastic m \<longleftrightarrow> list_all (\<lambda>row. length row = length m \<and> list_all (\<lambda>p. 0 \<le> p) row \<and> sum_list row = 1) m"

lemma stochastic_trace:
  assumes "stochastic m"
  shows "0 \<le> trace_of m \<and> trace_of m \<le> real (length m) \<and> sum_list (map sum_list m) = real (length m)"
proof -
  have row: "length (m ! i) = length m \<and> (\<forall>j < length m. 0 \<le> m ! i ! j) \<and> sum_list (m ! i) = 1" if "i < length m" for i
    using assms that by (auto simp: stochastic_def list_all_length)
  have le: "m ! i ! i \<le> 1" if "i < length m" for i
    using row [OF that] member_le_sum_list [of "m ! i ! i" "m ! i"] that by (auto simp: in_set_conv_nth)
  have "0 \<le> trace_of m" unfolding trace_of_def using row by (intro sum_list_nonneg) auto
  moreover have "trace_of m \<le> sum_list (map (\<lambda>i. 1) [0..<length m])" unfolding trace_of_def using le by (intro sum_list_mono) auto
  moreover have "map sum_list m = replicate (length m) 1" using assms by (simp add: stochastic_def list_all_iff map_replicate_const [symmetric])
  ultimately show ?thesis by (simp add: sum_list_triv sum_list_replicate)
qed

text \<open>The stability of a regime model cannot fall below three quarters. For a transition matrix of four states
  (rows that are distributions) the average mass that leaves a state is between 0 and 1, but the code
  divides it by the number of states a second time, so the figure lies between 3/4 and 1, and
  a model that never stays in a state is still reported as three quarters stable.\<close>

theorem stability_at_least_three_quarters:
  assumes "stochastic m" "length m = 4"
  shows "3 / 4 \<le> transition_stability m \<and> transition_stability m \<le> 1 \<and> 0 \<le> off_diag m \<and> off_diag m \<le> 1 \<and>
    transition_stability m = 1 - off_diag m / 4"
  using stochastic_trace [OF assms(1)] assms(2) by (simp add: transition_stability_def off_diag_def)

theorem stability_at_least_three_quarters_witness:
  "transition_stability [[0, 1, 0, 0], [0, 0, 1, 0], [0, 0, 0, 1], [1, 0, 0, 0]] = 3 / 4"
  using stability_at_least_three_quarters [of "[[0, 1, 0, 0], [0, 0, 1, 0], [0, 0, 0, 1], [1, 0, 0, 0]]"]
  by (simp add: stochastic_def off_diag_def trace_of_def numeral_eq_Suc upt_rec)

section \<open>The feature matrix\<close>

text \<open>Every pair of positive neighbours gives one row, with a volatility that is not negative; the detector answers only
  on at least 21 rows, and with the four labels and four posteriors of its model it never raises.\<close>

lemma yz_nonneg: "0 \<le> yz_volatility closes w"
  by (simp add: yz_volatility_def Let_def)

lemma feature_matrix_positive:
  assumes "list_all (\<lambda>c. 0 < c) closes"
  shows "length (build_feature_matrix closes) = length closes - 1 \<and> list_all (\<lambda>(r, v). 0 \<le> v) (build_feature_matrix closes)"
proof -
  have "length (feature_row closes i) = 1 \<and> list_all (\<lambda>(r, v). 0 \<le> v) (feature_row closes i)" if "i \<in> set [1..<length closes]" for i
    using assms that by (auto simp: feature_row_def Let_def list_all_length yz_nonneg not_le)
  then have "map (length \<circ> feature_row closes) [1..<length closes] = replicate (length closes - 1) 1"
    "list_all (\<lambda>(r, v). 0 \<le> v) (build_feature_matrix closes)"
    by (auto simp: build_feature_matrix_def list_all_iff intro!: replicate_eqI)
  then show ?thesis by (simp add: build_feature_matrix_def length_concat sum_list_replicate)
qed

lemma argmax_from_bound: "best < i \<Longrightarrow> argmax_from i best v xs < i + length xs"
proof (induction xs arbitrary: i best v)
  case (Cons x xs)
  from Cons.IH [of i "i + 1" x] Cons.IH [of best "i + 1" v] Cons.prems show ?case by simp
qed simp

lemma argmax_bound: "xs \<noteq> [] \<Longrightarrow> argmax xs < length xs"
  using argmax_from_bound [of 0 1] by (auto simp: argmax_def split: list.split)

lemma hmm_predict_total:
  assumes "length labels = 4" "\<And>x. x \<noteq> [] \<Longrightarrow> length (last (hm_predict_proba m x)) = 4"
  shows "\<exists>r. hmm_predict m labels closes = Inr r"
proof (cases "length (build_feature_matrix closes) < 21")
  case False
  then have "build_feature_matrix closes \<noteq> []" by auto
  from assms(2) [OF this] have four: "length (last (hm_predict_proba m (build_feature_matrix closes))) = 4" .
  then have "last (hm_predict_proba m (build_feature_matrix closes)) \<noteq> []" by auto
  from argmax_bound [OF this] four assms(1) show ?thesis by (auto simp: hmm_predict_def Let_def)
qed (simp add: hmm_predict_def Let_def)

end
