(* ===== verification/Research_Folds.thy ===== *)
theory Research_Folds
  imports Walk_Forward HMM_Regime
begin

text \<open>
  \<open>research/walk_forward.py\<close> (folds, the verdict of a fold, the summary of a run) and the command that drives it,
  \<open>cli/walk_forward.py\<close>. A fold result is the dictionary of the source with an option for every key that may be missing or
  \<open>None\<close>. Training and scoring libraries, the databases and the model registry are parameters; the replay of the rule-based
  strategies is the walk-forward runner of the engine.
\<close>

section \<open>Folds\<close>

definition AUC_STABLE_WINDOW :: real where
  "AUC_STABLE_WINDOW = 3 / 100"

definition AUC_DRIFT_WINDOW :: real where
  "AUC_DRIFT_WINDOW = 5 / 100"

definition MIN_TRADES_OOS :: int where
  "MIN_TRADES_OOS = 20"

definition MIN_FOLDS_FOR_VERDICT :: nat where
  "MIN_FOLDS_FOR_VERDICT = 3"

record FoldWindow =
  fw_idx :: nat
  fw_is_from :: datetime
  fw_is_to :: datetime
  fw_oos_from :: datetime
  fw_oos_to :: datetime

definition fw_is_days :: "FoldWindow \<Rightarrow> int" where
  "fw_is_days w = py_int (of_int (fw_is_to w - fw_is_from w) / 1000000 / 86400)"

definition fw_oos_days :: "FoldWindow \<Rightarrow> int" where
  "fw_oos_days w = py_int (of_int (fw_oos_to w - fw_oos_from w) / 1000000 / 86400)"

definition fold_at :: "int \<Rightarrow> int \<Rightarrow> nat \<Rightarrow> datetime \<Rightarrow> FoldWindow" where
  "fold_at is_days oos_days idx anchor =
     (let is_to = anchor + days is_days
      in \<lparr>fw_idx = idx, fw_is_from = anchor, fw_is_to = is_to, fw_oos_from = is_to, fw_oos_to = is_to + days oos_days\<rparr>)"

partial_function (option) folds_loop :: "int \<Rightarrow> int \<Rightarrow> int \<Rightarrow> datetime \<Rightarrow> datetime \<Rightarrow> nat \<Rightarrow> FoldWindow list \<Rightarrow> FoldWindow list option" where
  "folds_loop is_days oos_days step_days t_to anchor idx folds =
     (if fw_oos_to (fold_at is_days oos_days idx anchor) > t_to then Some folds
      else folds_loop is_days oos_days step_days t_to (anchor + days step_days) (idx + 1) (folds @ [fold_at is_days oos_days idx anchor]))"

definition build_folds :: "datetime \<Rightarrow> datetime \<Rightarrow> int \<Rightarrow> int \<Rightarrow> int \<Rightarrow> (py_error + FoldWindow list) option" where
  "build_folds t_from t_to is_days oos_days step_days =
     (if is_days \<le> 0 \<or> oos_days \<le> 0 \<or> step_days \<le> 0 then Some (Inl (ValueError ''is_days, oos_days, step_days must all be > 0''))
      else if t_to \<le> t_from then Some (Inl (ValueError ''t_to must be after t_from''))
      else map_option Inr (folds_loop is_days oos_days step_days t_to t_from 0 []))"

definition default_folds :: "datetime \<Rightarrow> datetime \<Rightarrow> (py_error + FoldWindow list) option" where
  "default_folds t_from t_to = build_folds t_from t_to 5 1 1"

section \<open>Verdicts\<close>

definition classify_fold :: "real option \<Rightarrow> real option \<Rightarrow> int \<Rightarrow> string" where
  "classify_fold auc_is auc_oos n_trades_oos =
     (if n_trades_oos < MIN_TRADES_OOS then ''unvalidated_small_sample''
      else (case (auc_is, auc_oos) of
              (Some a, Some b) \<Rightarrow>
                (let delta = \<bar>a - b\<bar>
                 in if delta > AUC_DRIFT_WINDOW then ''drift'' else if delta > AUC_STABLE_WINDOW then ''unstable_aucs'' else ''stable'')
            | _ \<Rightarrow> ''no_model_auc''))"

record fold_result =
  fr_fold :: FoldWindow
  fr_auc_is :: "real option"
  fr_auc_oos :: "real option"
  fr_n_trades_oos :: int
  fr_pnl_oos :: "real option"
  fr_verdict :: "string option"
  fr_note :: "fstring option"
  fr_score :: "(real \<times> real option) option"
  fr_state_labels :: "string list option"
  fr_brier_oos :: "real option"

record wf_aggregate =
  ag_n_folds :: nat
  ag_n_stable :: "nat option"
  ag_stability_index :: real
  ag_median_auc_oos :: "real option"
  ag_median_pnl_oos :: "real option"
  ag_total_pnl_oos :: "real option"
  ag_dominant_verdict :: string
  ag_promote_recommendation :: string

text \<open>\<open>statistics.median\<close>.\<close>

definition median_of :: "real list \<Rightarrow> real" where
  "median_of xs =
     (let s = sort xs; n = length s
      in if odd n then s ! (n div 2) else (s ! (n div 2 - 1) + s ! (n div 2)) / 2)"

definition median_opt :: "real list \<Rightarrow> real option" where
  "median_opt xs = (if xs \<noteq> [] then Some (median_of xs) else None)"

definition verdict_priority :: "(string, nat) dict" where
  "verdict_priority =
     [(''drift'', 0), (''unstable_aucs'', 1), (''unvalidated_small_sample'', 2), (''no_model_auc'', 3), (''stable'', 4), (''unknown'', 5)]"

text \<open>\<open>min(tied, key=\<dots>)\<close>: the first of the smallest.\<close>

fun first_min :: "('a \<Rightarrow> nat) \<Rightarrow> 'a \<Rightarrow> 'a list \<Rightarrow> 'a" where
  "first_min f x [] = x"
| "first_min f x (y # ys) = (if f y < f x then first_min f y ys else first_min f x ys)"

text \<open>The keys of \<open>Counter(verdicts)\<close> in the order of their first occurrence, and the most frequent of them.\<close>

definition counter_keys :: "'a list \<Rightarrow> 'a list" where
  "counter_keys xs = rev (remdups (rev xs))"

definition most_common :: "'a list \<Rightarrow> 'a list" where
  "most_common xs = (let mx = Max (set (map (count_list xs) (counter_keys xs))) in filter (\<lambda>v. count_list xs v = mx) (counter_keys xs))"

definition dominant_of :: "string list \<Rightarrow> string" where
  "dominant_of verdicts =
     (case most_common verdicts of
        [] \<Rightarrow> ''''
      | v # vs \<Rightarrow> first_min (\<lambda>v. dict_getd verdict_priority v 9) v vs)"

definition recommendation :: "nat \<Rightarrow> real \<Rightarrow> real option \<Rightarrow> real \<Rightarrow> string" where
  "recommendation n_total stability_index median_auc_oos total_pnl_oos =
     (if n_total < MIN_FOLDS_FOR_VERDICT then ''insufficient_folds''
      else if stability_index \<ge> 75 / 100 \<and> (case median_auc_oos of Some m \<Rightarrow> m \<ge> 55 / 100 | None \<Rightarrow> False) then ''promote''
      else if stability_index \<ge> 1 / 2 \<and> total_pnl_oos > 0 then ''soak_longer''
      else ''hold'')"

definition verdicts_of :: "fold_result list \<Rightarrow> string list" where
  "verdicts_of rs = map (\<lambda>r. case fr_verdict r of Some v \<Rightarrow> v | None \<Rightarrow> ''unknown'') rs"

definition stability_index :: "fold_result list \<Rightarrow> real" where
  "stability_index rs = real (length (filter (\<lambda>v. v = ''stable'') (verdicts_of rs))) / real (length rs)"

definition aggregate_verdicts :: "fold_result list \<Rightarrow> wf_aggregate" where
  "aggregate_verdicts rs =
     (if rs = [] then \<lparr>ag_n_folds = 0, ag_n_stable = None, ag_stability_index = 0, ag_median_auc_oos = None, ag_median_pnl_oos = None,
        ag_total_pnl_oos = None, ag_dominant_verdict = ''insufficient_folds'', ag_promote_recommendation = ''hold''\<rparr>
      else (let verdicts = verdicts_of rs;
                aucs = List.map_filter fr_auc_oos rs;
                pnls = List.map_filter fr_pnl_oos rs;
                n_total = length rs;
                total_pnl_oos = (if pnls \<noteq> [] then sum_list pnls else 0)
            in \<lparr>ag_n_folds = n_total, ag_n_stable = Some (length (filter (\<lambda>v. v = ''stable'') verdicts)),
                ag_stability_index = py_round_to 4 (stability_index rs), ag_median_auc_oos = median_opt aucs,
                ag_median_pnl_oos = median_opt pnls, ag_total_pnl_oos = Some total_pnl_oos,
                ag_dominant_verdict = dominant_of verdicts,
                ag_promote_recommendation = recommendation n_total (stability_index rs) (median_opt aucs) total_pnl_oos\<rparr>))"

section \<open>The command\<close>

definition ML_STRATEGIES :: "string list" where
  "ML_STRATEGIES = [''hmm_regime_btc5m'', ''last_90s_forecaster_v3'']"

definition RULE_STRATEGIES :: "string list" where
  "RULE_STRATEGIES = [''trend_confirm_t1_v1'']"

text \<open>\<open>name.rsplit("/", 1)[-1]\<close>.\<close>

definition normalize_strategy :: "string \<Rightarrow> string" where
  "normalize_strategy name = rev (takeWhile (\<lambda>c. c \<noteq> CHR ''/'') (rev name))"

definition mk_fold_result :: "FoldWindow \<Rightarrow> real option \<Rightarrow> real option \<Rightarrow> int \<Rightarrow> real option \<Rightarrow> string \<Rightarrow> fold_result" where
  "mk_fold_result fw auc_is auc_oos n pnl verdict =
     \<lparr>fr_fold = fw, fr_auc_is = auc_is, fr_auc_oos = auc_oos, fr_n_trades_oos = n, fr_pnl_oos = pnl, fr_verdict = Some verdict,
      fr_note = None, fr_score = None, fr_state_labels = None, fr_brier_oos = None\<rparr>"

definition unvalidated_fold :: "FoldWindow \<Rightarrow> int \<Rightarrow> fstring \<Rightarrow> fold_result" where
  "unvalidated_fold fw n note = (mk_fold_result fw None None n (Some 0) ''unvalidated_small_sample'')\<lparr>fr_note := Some note\<rparr>"

subsection \<open>The hidden Markov model\<close>

text \<open>The fitted model of a fold: the full covariance, and the diagonal one where that fit fails (with \<open>LinAlgError\<close> or
  \<open>ValueError\<close>, the errors \<open>fit\<close> has here).\<close>

definition fit_hmm :: "(string \<Rightarrow> (real \<times> real) list \<Rightarrow> py_error + hmm_model) \<Rightarrow> (real \<times> real) list \<Rightarrow> py_error + hmm_model" where
  "fit_hmm fit X = (case fit ''full'' X of Inr m \<Rightarrow> Inr m | Inl e \<Rightarrow> fit ''diag'' X)"

definition secs_of :: "datetime \<Rightarrow> int" where
  "secs_of t = py_int (timestamp t)"

definition eval_hmm_fold :: "(int \<Rightarrow> int \<Rightarrow> real list) \<Rightarrow> (string \<Rightarrow> (real \<times> real) list \<Rightarrow> py_error + hmm_model) \<Rightarrow> FoldWindow \<Rightarrow> py_error + fold_result" where
  "eval_hmm_fold fetch fit fw =
     (let closes = fetch (secs_of (fw_is_from fw)) (secs_of (fw_is_to fw))
      in if length closes < 200 then Inr (unvalidated_fold fw 0 (ftext ''insufficient IS closes''))
         else bind_r (fit_hmm fit (build_feature_matrix closes)) (\<lambda>model.
           let score_is = hm_score model (build_feature_matrix closes);
               oos_closes = fetch (secs_of (fw_oos_from fw)) (secs_of (fw_oos_to fw));
               n_oos = length oos_closes - 1;
               X_oos = build_feature_matrix oos_closes;
               score_oos = (if n_oos \<ge> 20 then Some (hm_score model X_oos / real (max (length X_oos) 1)) else None)
           in Inr ((mk_fold_result fw None None (int n_oos) (Some 0) (classify_fold None None (int n_oos)))
                \<lparr>fr_score := Some (score_is, score_oos), fr_state_labels := Some (canonical_label_order (hm_means model))\<rparr>)))"

subsection \<open>The forecaster\<close>

text \<open>What the fold of the forecaster calls: whether its database exists, the resolved markets with their closing times, the
  samples (label and features) of some markets, the trainer with the metric it reports, and the two scores.\<close>

record 'm v3_env =
  ve_db_exists :: bool
  ve_markets :: "py_error + (real \<times> 'm) list"
  ve_build_samples :: "(real \<times> 'm) list \<Rightarrow> py_error + (int \<times> real list) list"
  ve_train :: "(int \<times> real list) list \<Rightarrow> py_error + ((real list \<Rightarrow> real) \<times> real option)"
  ve_roc_auc :: "int list \<Rightarrow> real list \<Rightarrow> real"
  ve_brier :: "int list \<Rightarrow> real list \<Rightarrow> real"

definition markets_in :: "datetime \<Rightarrow> datetime \<Rightarrow> (real \<times> 'm) list \<Rightarrow> (real \<times> 'm) list" where
  "markets_in a b ms = filter (\<lambda>(close_ts, m). timestamp a \<le> close_ts \<and> close_ts \<le> timestamp b) ms"

definition eval_last_90s_v3_fold :: "'m v3_env \<Rightarrow> FoldWindow \<Rightarrow> py_error + fold_result" where
  "eval_last_90s_v3_fold env fw =
     (if \<not> ve_db_exists env then Inr (unvalidated_fold fw 0 (ftext ''polybot-agent sqlite missing''))
      else bind_r (ve_markets env) (\<lambda>markets.
        let is_markets = markets_in (fw_is_from fw) (fw_is_to fw) markets;
            oos_markets = markets_in (fw_oos_from fw) (fw_oos_to fw) markets
        in if length is_markets < 50 \<or> length oos_markets < 10
           then Inr (unvalidated_fold fw (int (length oos_markets))
             [FTxt ''is='', FInt (int (length is_markets)), FTxt '' oos='', FInt (int (length oos_markets))])
           else bind_r (ve_build_samples env is_markets) (\<lambda>is_samples. bind_r (ve_build_samples env oos_markets) (\<lambda>oos_samples.
             if length is_samples < 40 \<or> length oos_samples < 10
             then Inr (unvalidated_fold fw (int (length oos_samples)) (ftext ''post-feature-build insufficient''))
             else bind_r (ve_train env is_samples) (\<lambda>(model, auc_is).
               let y_oos = map fst oos_samples;
                   probs = map (model \<circ> snd) oos_samples;
                   auc_oos = (if length (remdups y_oos) = 2 then Some (ve_roc_auc env y_oos probs) else None);
                   n = int (length oos_samples)
               in Inr ((mk_fold_result fw auc_is auc_oos n None (classify_fold auc_is auc_oos n))
                    \<lparr>fr_brier_oos := Some (ve_brier env y_oos probs)\<rparr>))))))"

subsection \<open>The rule-based strategies\<close>

text \<open>\<open>getattr(split, name, None)\<close> on the fields of \<open>WalkForwardSplit\<close> that are numbers.\<close>

definition split_attr :: "walk_forward_split \<Rightarrow> string \<Rightarrow> real option" where
  "split_attr sp name =
     map_of [(''fold'', real (ws_fold sp)), (''train_from'', timestamp (ws_train_from sp)), (''train_to'', timestamp (ws_train_to sp)),
       (''test_from'', timestamp (ws_test_from sp)), (''test_to'', timestamp (ws_test_to sp)), (''n_trades'', real (ws_n_trades sp))] name"

definition attr_or_zero :: "walk_forward_split option \<Rightarrow> string \<Rightarrow> real" where
  "attr_or_zero sp name = (case sp of None \<Rightarrow> 0 | Some s \<Rightarrow> (case split_attr s name of Some v \<Rightarrow> v | None \<Rightarrow> 0))"

definition whole_days :: "datetime \<Rightarrow> datetime \<Rightarrow> int" where
  "whole_days a b = (b - a) div days 1"

text \<open>The arguments of the run: \<open>conf\<close> is the configuration taken from the parsed parameter file (a key that is missing is an
  error when the run needs it), its days replaced by those of the fold; \<open>None\<close> where no file is given.\<close>

definition rules_config :: "'s wf_config \<Rightarrow> FoldWindow \<Rightarrow> 's wf_config" where
  "rules_config c fw = c\<lparr>wc_train_days := whole_days (fw_is_from fw) (fw_is_to fw), wc_test_days := whole_days (fw_oos_from fw) (fw_oos_to fw),
     wc_step_days := max 1 (whole_days (fw_oos_from fw) (fw_oos_to fw))\<rparr>"

definition replay_rules_fold :: "(py_error + 's wf_config) option \<Rightarrow> bool \<Rightarrow> string \<Rightarrow> real \<Rightarrow> FoldWindow \<Rightarrow> (py_error + fold_result) option" where
  "replay_rules_fold conf db_exists polybot_db tolerance fw =
     (case conf of
        None \<Rightarrow> Some (Inr (unvalidated_fold fw 0 (ftext ''--params required for rule-based WF'')))
      | Some conf' \<Rightarrow>
          if \<not> db_exists then Some (Inr (unvalidated_fold fw 0 [FTxt ''polybot-db missing: '', FStr polybot_db]))
          else (case conf' of Inl e \<Rightarrow> Some (Inl e) | Inr c \<Rightarrow> map_option (\<lambda>r. bind_r r (\<lambda>result.
            let sp = (case wr_splits result of [] \<Rightarrow> None | s # ss \<Rightarrow> Some s);
                n_trades_oos = py_int (attr_or_zero sp ''n_trades_oos'');
                pnl_oos = attr_or_zero sp ''pnl_oos''
            in Inr (mk_fold_result fw None None n_trades_oos (Some pnl_oos) (classify_fold None None n_trades_oos))))
            (run_walk_forward (rules_config c fw) (fw_is_from fw) (fw_oos_to fw) tolerance)))"

subsection \<open>A run\<close>

record ('m, 's) wf_env =
  we_fetch_closes :: "int \<Rightarrow> int \<Rightarrow> real list"
  we_fit :: "string \<Rightarrow> (real \<times> real) list \<Rightarrow> py_error + hmm_model"
  we_v3 :: "'m v3_env"
  we_conf :: "(py_error + 's wf_config) option"
  we_db_exists :: bool
  we_polybot_db :: string
  we_tolerance :: real
  we_promote_winner :: bool

definition evaluate_fold_ml :: "('m, 's) wf_env \<Rightarrow> string \<Rightarrow> FoldWindow \<Rightarrow> py_error + fold_result" where
  "evaluate_fold_ml env strategy fw =
     (if strategy = ''hmm_regime_btc5m'' then eval_hmm_fold (we_fetch_closes env) (we_fit env) fw
      else if strategy = ''last_90s_forecaster_v3'' then eval_last_90s_v3_fold (we_v3 env) fw
      else Inl (RuntimeError strategy))"

definition evaluate_fold :: "('m, 's) wf_env \<Rightarrow> string \<Rightarrow> FoldWindow \<Rightarrow> (py_error + fold_result) option" where
  "evaluate_fold env strategy fw =
     (if strategy \<in> set ML_STRATEGIES then Some (evaluate_fold_ml env strategy fw)
      else replay_rules_fold (we_conf env) (we_db_exists env) (we_polybot_db env) (we_tolerance env) fw)"

text \<open>The exception handler of the loop.\<close>

definition error_fold :: "FoldWindow \<Rightarrow> fold_result" where
  "error_fold fw = mk_fold_result fw None None 0 (Some 0) ''error''"

definition fold_or_error :: "('m, 's) wf_env \<Rightarrow> string \<Rightarrow> FoldWindow \<Rightarrow> fold_result option" where
  "fold_or_error env strategy fw =
     map_option (\<lambda>r. case r of Inr x \<Rightarrow> x | Inl e \<Rightarrow> error_fold fw) (evaluate_fold env strategy fw)"

fun run_folds :: "('m, 's) wf_env \<Rightarrow> string \<Rightarrow> FoldWindow list \<Rightarrow> fold_result list option" where
  "run_folds env strategy [] = Some []"
| "run_folds env strategy (fw # fws) =
     (case fold_or_error env strategy fw of
        None \<Rightarrow> None
      | Some r \<Rightarrow> map_option (\<lambda>rs. r # rs) (run_folds env strategy fws))"

text \<open>The row written to the database carries the results, the summary and whether promotion was asked for.\<close>

datatype wf_outcome = UnknownStrategy | NoFolds | Persisted "fold_result list" wf_aggregate bool

fun exit_code :: "wf_outcome \<Rightarrow> int" where
  "exit_code UnknownStrategy = 2"
| "exit_code NoFolds = 3"
| "exit_code (Persisted rs ag promoted) = 0"

definition wf_main :: "('m, 's) wf_env \<Rightarrow> string \<Rightarrow> datetime \<Rightarrow> datetime \<Rightarrow> int \<Rightarrow> int \<Rightarrow> int \<Rightarrow> (py_error + wf_outcome) option" where
  "wf_main env name t_from t_to is_days oos_days step_days =
     (let strategy = normalize_strategy name
      in if strategy \<notin> set ML_STRATEGIES \<and> strategy \<notin> set RULE_STRATEGIES then Some (Inr UnknownStrategy)
         else (case build_folds t_from t_to is_days oos_days step_days of
                 None \<Rightarrow> None
               | Some (Inl e) \<Rightarrow> Some (Inl e)
               | Some (Inr folds) \<Rightarrow>
                   if folds = [] then Some (Inr NoFolds)
                   else map_option (\<lambda>rs. Inr (Persisted rs (aggregate_verdicts rs) (we_promote_winner env))) (run_folds env strategy folds)))"

section \<open>The folds tile the range\<close>

lemma fold_at_sel [simp]:
  "fw_idx (fold_at i o' k a) = k" "fw_is_from (fold_at i o' k a) = a" "fw_is_to (fold_at i o' k a) = a + days i"
  "fw_oos_from (fold_at i o' k a) = a + days i" "fw_oos_to (fold_at i o' k a) = a + days i + days o'"
  by (simp_all add: fold_at_def Let_def)

definition tiles :: "datetime \<Rightarrow> datetime \<Rightarrow> int \<Rightarrow> int \<Rightarrow> int \<Rightarrow> FoldWindow list \<Rightarrow> bool" where
  "tiles t_from t_to is_days oos_days step_days folds \<longleftrightarrow>
     (\<forall>k < length folds. folds ! k = fold_at is_days oos_days k (t_from + int k * days step_days) \<and> fw_oos_to (folds ! k) \<le> t_to)"

lemma folds_loop_runs:
  assumes "0 < step" "tiles t_from t_to i o' step folds"
  shows "\<exists>fs. folds_loop i o' step t_to (t_from + int (length folds) * days step) (length folds) folds = Some fs \<and>
    tiles t_from t_to i o' step fs \<and> t_to < t_from + int (length fs) * days step + days i + days o'"
  using assms(2)
proof (induction "nat (t_to + 1 - (t_from + int (length folds) * days step + days i + days o'))" arbitrary: folds rule: less_induct)
  case less
  let ?a = "t_from + int (length folds) * days step"
  show ?case
  proof (cases "t_to < ?a + days i + days o'")
    case True
    with less.prems show ?thesis by (subst folds_loop.simps) auto
  next
    case False
    let ?fs = "folds @ [fold_at i o' (length folds) ?a]"
    have step: "0 < days step" using assms(1) by (simp add: days_def)
    have next_a: "t_from + int (length ?fs) * days step = ?a + days step" by (simp add: distrib_right)
    have ok: "tiles t_from t_to i o' step ?fs" using less.prems False by (auto simp: tiles_def nth_append less_Suc_eq)
    have "nat (t_to + 1 - (?a + days step + days i + days o')) < nat (t_to + 1 - (?a + days i + days o'))" using False step by simp
    from less.hyps [of ?fs, unfolded next_a, OF this ok] False show ?thesis by (subst folds_loop.simps) simp
  qed
qed

lemma build_folds_ok:
  assumes "0 < i" "0 < o'" "0 < step" "t_from < t_to"
  obtains fs where "build_folds t_from t_to i o' step = Some (Inr fs)" "tiles t_from t_to i o' step fs"
    "t_to < t_from + int (length fs) * days step + days i + days o'"
  using folds_loop_runs [OF assms(3), of t_from t_to i o' "[]"] assms that by (auto simp: build_folds_def tiles_def)

text \<open>Building the folds always ends. With positive day counts and a range that is not empty it returns the folds \<open>k = 0, 1,
  \<dots>\<close>, each starting \<open>k\<close> steps after the start, with its test window right behind its training window and ending inside the
  range, and every fold that fits is there; with a step of at least the test length no two test windows overlap.
  Any other arguments raise a value error.\<close>

theorem build_folds_tile_range:
  "(if 0 < i \<and> 0 < o' \<and> 0 < step \<and> t_from < t_to
    then \<exists>fs. build_folds t_from t_to i o' step = Some (Inr fs) \<and> tiles t_from t_to i o' step fs \<and>
      (\<forall>k. t_from + int k * days step + days i + days o' \<le> t_to \<longleftrightarrow> k < length fs) \<and>
      (o' \<le> step \<longrightarrow> sorted_wrt (\<lambda>a b. fw_oos_to a \<le> fw_oos_from b) fs)
    else \<exists>e. build_folds t_from t_to i o' step = Some (Inl (ValueError e)))"
proof (cases "0 < i \<and> 0 < o' \<and> 0 < step \<and> t_from < t_to")
  case True
  then obtain fs where fs: "build_folds t_from t_to i o' step = Some (Inr fs)" "tiles t_from t_to i o' step fs"
    "t_to < t_from + int (length fs) * days step + days i + days o'" using build_folds_ok by blast
  have step: "0 \<le> days step" "days o' \<le> days step \<longleftrightarrow> o' \<le> step" using True by (simp_all add: days_def)
  have fits: "t_from + int k * days step + days i + days o' \<le> t_to \<longleftrightarrow> k < length fs" for k
  proof
    assume le: "t_from + int k * days step + days i + days o' \<le> t_to"
    show "k < length fs"
    proof (rule ccontr)
      assume "\<not> k < length fs"
      then have "int (length fs) * days step \<le> int k * days step" using step(1) by (intro mult_right_mono) auto
      with le fs(3) show False by linarith
    qed
  next
    assume "k < length fs"
    then show "t_from + int k * days step + days i + days o' \<le> t_to" using fs(2) unfolding tiles_def by (metis fold_at_sel(5))
  qed
  have "sorted_wrt (\<lambda>a b. fw_oos_to a \<le> fw_oos_from b) fs" if "o' \<le> step"
  proof (unfold sorted_wrt_iff_nth_less, intro allI impI)
    fix j k assume jk: "j < k" "k < length fs"
    then have "int j * days step + days step \<le> int k * days step"
      using step(1) mult_right_mono [of "int j + 1" "int k" "days step"] by (simp add: distrib_right)
    moreover have "days o' \<le> days step" using that step(2) by simp
    ultimately show "fw_oos_to (fs ! j) \<le> fw_oos_from (fs ! k)" using fs(2) jk by (simp add: tiles_def)
  qed
  with True fs fits show ?thesis by auto
next
  case False
  then show ?thesis by (auto simp: build_folds_def)
qed

theorem build_folds_tile_range_witness: "\<exists>fs. build_folds 0 (days 8) 5 1 1 = Some (Inr fs) \<and> 2 < length fs"
proof -
  obtain fs where "build_folds 0 (days 8) 5 1 1 = Some (Inr fs)"
    "\<forall>k. 0 + int k * days 1 + days 5 + days 1 \<le> days 8 \<longleftrightarrow> k < length fs"
    using build_folds_tile_range [of 5 1 1 0 "days 8"] by (auto simp: days_def)
  moreover from this(2) have "2 < length fs" by (auto simp: days_def)
  ultimately show ?thesis by blast
qed

section \<open>The recommendation\<close>

lemma stable_count: "length (filter (\<lambda>v. v = ''stable'') (verdicts_of rs)) = length (filter (\<lambda>r. fr_verdict r = Some ''stable'') rs)"
proof -
  have "filter ((\<lambda>v. v = ''stable'') \<circ> (\<lambda>r. case fr_verdict r of Some v \<Rightarrow> v | None \<Rightarrow> ''unknown'')) rs = filter (\<lambda>r. fr_verdict r = Some ''stable'') rs"
    by (rule filter_cong) (auto split: option.split)
  then show ?thesis by (simp add: verdicts_of_def filter_map)
qed

lemma sorted_ge_count:
  assumes "sorted s" "k \<le> length s" "\<And>j. k \<le> j \<Longrightarrow> j < length s \<Longrightarrow> m \<le> s ! j"
  shows "length s - k \<le> length (filter (\<lambda>x. m \<le> x) s)"
proof -
  have "filter (\<lambda>x. m \<le> x) (drop k s) = drop k s"
    using assms(2,3) by (auto simp: filter_id_conv in_set_conv_nth)
  then have "length s - k \<le> length (filter (\<lambda>x. m \<le> x) (drop k s))" by simp
  also have "\<dots> \<le> length (filter (\<lambda>x. m \<le> x) s)"
    by (metis append_take_drop_id filter_append length_append le_add2)
  finally show ?thesis .
qed

lemma length_filter_mono: "(\<And>x. P x \<Longrightarrow> Q x) \<Longrightarrow> length (filter P xs) \<le> length (filter Q xs)"
  by (induction xs) (auto intro: le_SucI)

text \<open>At least half of the values reach the median.\<close>

lemma median_half:
  assumes "xs \<noteq> []"
  shows "length xs \<le> 2 * length (filter (\<lambda>x. median_of xs \<le> x) xs)"
proof -
  let ?s = "sort xs" let ?n = "length xs"
  have srt: "sorted ?s" "length ?s = ?n" by simp_all
  have "?n div 2 \<le> j \<Longrightarrow> j < ?n \<Longrightarrow> median_of xs \<le> ?s ! j" for j
  proof -
    assume j: "?n div 2 \<le> j" "j < ?n"
    have "?s ! (?n div 2) \<le> ?s ! j" using j by (intro sorted_nth_mono) auto
    moreover have "?s ! (?n div 2 - 1) \<le> ?s ! (?n div 2)" using j by (intro sorted_nth_mono) auto
    ultimately show ?thesis by (auto simp: median_of_def Let_def)
  qed
  from sorted_ge_count [of ?s "?n div 2" "median_of xs"] this srt
  have "?n - ?n div 2 \<le> length (filter (\<lambda>x. median_of xs \<le> x) ?s)" by simp
  also have "\<dots> = length (filter (\<lambda>x. median_of xs \<le> x) xs)"
    by (metis filter_sort length_sort)
  finally show ?thesis by linarith
qed

lemma promote_iff:
  "ag_promote_recommendation (aggregate_verdicts rs) = ''promote'' \<longleftrightarrow>
     3 \<le> length rs \<and> 3 * length rs \<le> 4 * length (filter (\<lambda>r. fr_verdict r = Some ''stable'') rs) \<and>
     (\<exists>m. median_opt (List.map_filter fr_auc_oos rs) = Some m \<and> 55 / 100 \<le> m)"
proof (cases "rs = []")
  case False
  then have "75 / 100 \<le> stability_index rs \<longleftrightarrow> 3 * length rs \<le> 4 * length (filter (\<lambda>r. fr_verdict r = Some ''stable'') rs)"
    unfolding stability_index_def stable_count by (simp add: le_divide_eq) linarith
  with False show ?thesis
    by (auto simp: aggregate_verdicts_def recommendation_def MIN_FOLDS_FOR_VERDICT_def Let_def split: option.splits)
qed (simp add: aggregate_verdicts_def)

lemma classify_stable:
  "classify_fold a b n = ''stable'' \<longleftrightarrow> 20 \<le> n \<and> (\<exists>x y. a = Some x \<and> b = Some y \<and> \<bar>x - y\<bar> \<le> 3 / 100)"
  by (auto simp: classify_fold_def MIN_TRADES_OOS_def AUC_DRIFT_WINDOW_def AUC_STABLE_WINDOW_def Let_def split: option.splits if_splits)

section \<open>What a run of the command can recommend\<close>

lemma rules_fold_blind:
  assumes "replay_rules_fold conf db_exists db tol fw = Some (Inr r)"
  shows "fr_n_trades_oos r = 0 \<and> fr_pnl_oos r = Some 0 \<and> fr_verdict r = Some ''unvalidated_small_sample'' \<and> fr_auc_oos r = None"
proof -
  have attr: "attr_or_zero sp ''n_trades_oos'' = 0" "attr_or_zero sp ''pnl_oos'' = 0" for sp
    by (auto simp: attr_or_zero_def split_attr_def split: option.split)
  have "py_int 0 = 0" by (simp add: py_int_def)
  then show ?thesis
    using assms
    by (auto simp: replay_rules_fold_def unvalidated_fold_def mk_fold_result_def attr classify_fold_def MIN_TRADES_OOS_def Let_def bind_r_eq_Inr
        split: option.splits if_splits sum.splits)
qed

text \<open>The replay of a rule-based strategy never sees its trades. The fold reads the number of trades and the
  result under names the split does not have, so whatever the replay traded, the fold reports no trades and no result and
  its verdict is that the sample is too small.\<close>

theorem rules_fold_sees_no_trades:
  assumes "replay_rules_fold conf db_exists db tol fw = Some (Inr r)"
  shows "fr_n_trades_oos r = 0 \<and> fr_pnl_oos r = Some 0 \<and> fr_verdict r = Some ''unvalidated_small_sample'' \<and> fr_auc_oos r = None"
  using assms by (rule rules_fold_blind)

text \<open>A result without a profit and, except for the forecaster, never stable.\<close>

definition dull :: "string \<Rightarrow> fold_result \<Rightarrow> bool" where
  "dull strategy r \<longleftrightarrow> (fr_pnl_oos r = None \<or> fr_pnl_oos r = Some 0) \<and>
     (strategy \<noteq> ''last_90s_forecaster_v3'' \<longrightarrow> fr_verdict r \<noteq> Some ''stable'')"

lemma dull_basic: "dull s (unvalidated_fold fw n note)" "dull s (error_fold fw)"
  by (simp_all add: dull_def unvalidated_fold_def error_fold_def mk_fold_result_def)

lemma dull_hmm: "eval_hmm_fold fetch fit fw = Inr r \<Longrightarrow> dull s r"
  using classify_stable [of None None]
  by (auto simp: eval_hmm_fold_def bind_r_def Let_def dull_basic split: if_splits sum.splits) (auto simp: dull_def mk_fold_result_def)

lemma dull_v3: "eval_last_90s_v3_fold env fw = Inr r \<Longrightarrow> dull ''last_90s_forecaster_v3'' r"
  by (auto simp: eval_last_90s_v3_fold_def bind_r_def Let_def dull_basic split: if_splits sum.splits prod.splits) (auto simp: dull_def mk_fold_result_def)

lemma dull_fold:
  assumes "fold_or_error env strategy fw = Some r"
  shows "dull strategy r"
proof -
  obtain x where x: "evaluate_fold env strategy fw = Some x" "r = (case x of Inr y \<Rightarrow> y | Inl e \<Rightarrow> error_fold fw)"
    using assms by (auto simp: fold_or_error_def)
  show ?thesis
  proof (cases x)
    case (Inr y)
    have "dull strategy y"
    proof (cases "strategy \<in> set ML_STRATEGIES")
      case True
      with x(1) Inr dull_hmm dull_v3 show ?thesis by (auto simp: evaluate_fold_def evaluate_fold_ml_def split: if_splits)
    next
      case False
      then have "replay_rules_fold (we_conf env) (we_db_exists env) (we_polybot_db env) (we_tolerance env) fw = Some (Inr y)"
        using x(1) Inr by (simp add: evaluate_fold_def)
      from rules_fold_blind [OF this] show ?thesis by (simp add: dull_def)
    qed
    with Inr x(2) show ?thesis by simp
  qed (use x(2) dull_basic in simp)
qed

lemma dull_run: "run_folds env strategy fws = Some rs \<Longrightarrow> list_all (dull strategy) rs"
  by (induction fws arbitrary: rs) (auto dest: dull_fold split: option.splits)

lemma dull_total: "list_all (dull s) rs \<Longrightarrow> sum_list (List.map_filter fr_pnl_oos rs) = 0"
  by (induction rs) (auto simp: dull_def map_filter_simps)

lemma dull_recommendation:
  assumes "list_all (dull s) rs"
  shows "ag_promote_recommendation (aggregate_verdicts rs) \<noteq> ''soak_longer'' \<and>
    (s \<noteq> ''last_90s_forecaster_v3'' \<longrightarrow> ag_promote_recommendation (aggregate_verdicts rs) \<noteq> ''promote'')"
proof
  show "ag_promote_recommendation (aggregate_verdicts rs) \<noteq> ''soak_longer''"
    using dull_total [OF assms] by (auto simp: aggregate_verdicts_def recommendation_def Let_def)
  have "filter (\<lambda>r. fr_verdict r = Some ''stable'') rs = []" if "s \<noteq> ''last_90s_forecaster_v3''"
    using assms that by (auto simp: list_all_iff dull_def filter_empty_conv)
  then show "s \<noteq> ''last_90s_forecaster_v3'' \<longrightarrow> ag_promote_recommendation (aggregate_verdicts rs) \<noteq> ''promote''"
    unfolding promote_iff by auto
qed

text \<open>A stable fold has the figures for it, whichever strategy it was evaluated for; folds that ended in an error or without enough data are not stable.\<close>

definition earned :: "fold_result \<Rightarrow> bool" where
  "earned r \<longleftrightarrow> (fr_verdict r = Some ''stable'' \<longrightarrow>
     20 \<le> fr_n_trades_oos r \<and> (\<exists>x y. fr_auc_is r = Some x \<and> fr_auc_oos r = Some y \<and> \<bar>x - y\<bar> \<le> 3 / 100))"

lemma earned_basic: "earned (unvalidated_fold fw n note)" "earned (error_fold fw)"
  by (simp_all add: earned_def unvalidated_fold_def error_fold_def mk_fold_result_def)

lemma earned_v3: "eval_last_90s_v3_fold env fw = Inr r \<Longrightarrow> earned r"
  by (auto simp: eval_last_90s_v3_fold_def bind_r_def Let_def earned_basic split: if_splits sum.splits prod.splits)
    (auto simp: earned_def mk_fold_result_def classify_stable)

lemma earned_fold:
  assumes "fold_or_error env strategy fw = Some r"
  shows "earned r"
proof (cases "strategy = ''last_90s_forecaster_v3''")
  case True
  then show ?thesis using assms earned_v3 earned_basic(2)
    by (auto simp: fold_or_error_def evaluate_fold_def evaluate_fold_ml_def ML_STRATEGIES_def split: sum.splits)
next
  case False
  then have "fr_verdict r \<noteq> Some ''stable''" using dull_fold [OF assms] by (simp add: dull_def)
  then show ?thesis by (simp add: earned_def)
qed

lemma earned_run: "run_folds env strategy fws = Some rs \<Longrightarrow> list_all earned rs"
  by (induction fws arbitrary: rs) (auto dest: earned_fold split: option.splits)

lemma promoted_median:
  assumes "ag_promote_recommendation (aggregate_verdicts rs) = ''promote''"
  shows "length (List.map_filter fr_auc_oos rs) \<le> 2 * length (filter (\<lambda>x. 55 / 100 \<le> x) (List.map_filter fr_auc_oos rs))"
proof -
  let ?a = "List.map_filter fr_auc_oos rs"
  obtain m where m: "median_opt ?a = Some m" "55 / 100 \<le> m" using assms unfolding promote_iff by auto
  have "length ?a \<le> 2 * length (filter (\<lambda>x. m \<le> x) ?a)"
    using m(1) median_half [of ?a] by (auto simp: median_opt_def split: if_splits)
  moreover have "length (filter (\<lambda>x. m \<le> x) ?a) \<le> length (filter (\<lambda>x. 55 / 100 \<le> x) ?a)"
    by (rule length_filter_mono) (use m(2) in linarith)
  ultimately show ?thesis by linarith
qed

text \<open>C13. What a recommendation to promote needs. Whatever folds are aggregated, those that ended in an error or had too little data
  included, it is given exactly when there are at least three folds, at least three quarters of all of them are stable and the median of the out-of-sample scores is at least
  0.55; at least half of those scores then reach 0.55. When the folds are the ones a run evaluated, for any strategy, then in at least three quarters of
  all the folds there were 20 or more out-of-sample trades and the score moved by at most 0.03 between the samples.\<close>

theorem promotion_needs_stable_folds:
  "(ag_promote_recommendation (aggregate_verdicts rs) = ''promote'' \<longleftrightarrow>
      3 \<le> length rs \<and> 3 * length rs \<le> 4 * length (filter (\<lambda>r. fr_verdict r = Some ''stable'') rs) \<and>
      (\<exists>m. median_opt (List.map_filter fr_auc_oos rs) = Some m \<and> 55 / 100 \<le> m)) \<and>
   (ag_promote_recommendation (aggregate_verdicts rs) = ''promote'' \<longrightarrow>
      length (List.map_filter fr_auc_oos rs) \<le> 2 * length (filter (\<lambda>x. 55 / 100 \<le> x) (List.map_filter fr_auc_oos rs))) \<and>
   (run_folds env strategy fws = Some rs \<and> ag_promote_recommendation (aggregate_verdicts rs) = ''promote'' \<longrightarrow>
      3 * length rs \<le> 4 * length (filter (\<lambda>r. 20 \<le> fr_n_trades_oos r \<and>
        (\<exists>x y. fr_auc_is r = Some x \<and> fr_auc_oos r = Some y \<and> \<bar>x - y\<bar> \<le> 3 / 100)) rs))"
proof (intro conjI impI)
  assume run: "run_folds env strategy fws = Some rs \<and> ag_promote_recommendation (aggregate_verdicts rs) = ''promote''"
  have "length (filter (\<lambda>r. fr_verdict r = Some ''stable'') rs) \<le> length (filter (\<lambda>r. 20 \<le> fr_n_trades_oos r \<and>
      (\<exists>x y. fr_auc_is r = Some x \<and> fr_auc_oos r = Some y \<and> \<bar>x - y\<bar> \<le> 3 / 100)) rs)"
    using earned_run [OF run [THEN conjunct1]] by (induction rs) (auto simp: earned_def)
  with run show "3 * length rs \<le> 4 * length (filter (\<lambda>r. 20 \<le> fr_n_trades_oos r \<and>
      (\<exists>x y. fr_auc_is r = Some x \<and> fr_auc_oos r = Some y \<and> \<bar>x - y\<bar> \<le> 3 / 100)) rs)"
    unfolding promote_iff by linarith
qed (rule promote_iff, rule promoted_median)

text \<open>Three folds of a forecaster with fifty markets to train on and twenty to test on, and constant scores.\<close>

definition ex_v3 :: "unit v3_env" where
  "ex_v3 = \<lparr>ve_db_exists = True, ve_markets = Inr (replicate 50 (0, ()) @ replicate 20 (475200, ())),
     ve_build_samples = (\<lambda>ms. Inr ((0, []) # replicate (length ms - 1) (1, []))), ve_train = (\<lambda>ss. Inr (\<lambda>x. 1, Some 1)),
     ve_roc_auc = (\<lambda>ys ps. 1), ve_brier = (\<lambda>ys ps. 0)\<rparr>"

definition ex_v3_env :: "(unit, unit) wf_env" where
  "ex_v3_env = \<lparr>we_fetch_closes = (\<lambda>a b. []), we_fit = (\<lambda>k X. Inl (RuntimeError [])), we_v3 = ex_v3, we_conf = None,
     we_db_exists = True, we_polybot_db = [], we_tolerance = 0, we_promote_winner = False\<rparr>"

definition ex_stable_fold :: fold_result where
  "ex_stable_fold = (mk_fold_result (fold_at 5 1 0 0) (Some 1) (Some 1) 20 None ''stable'')\<lparr>fr_brier_oos := Some 0\<rparr>"

lemma ex_stable_run: "run_folds ex_v3_env ''last_90s_forecaster_v3'' (replicate 3 (fold_at 5 1 0 0)) = Some (replicate 3 ex_stable_fold)"
proof -
  have "markets_in 0 (days 5) (replicate 50 (0, ()) @ replicate 20 (475200, ())) = replicate 50 (0, ())"
    "markets_in (days 5) (days 5 + days 1) (replicate 50 (0, ()) @ replicate 20 (475200, ())) = replicate 20 (475200, ())"
    by (simp_all add: markets_in_def timestamp_def days_def)
  moreover have "classify_fold (Some 1) (Some 1) 20 = ''stable''" by (simp add: classify_stable)
  moreover have "remdups (replicate n (1 :: int)) = (if n = 0 then [] else [1])" for n by (induction n) auto
  ultimately have "eval_last_90s_v3_fold ex_v3 (fold_at 5 1 0 0) = Inr ex_stable_fold"
    by (simp add: eval_last_90s_v3_fold_def ex_v3_def ex_stable_fold_def Let_def)
  then have "fold_or_error ex_v3_env ''last_90s_forecaster_v3'' (fold_at 5 1 0 0) = Some ex_stable_fold"
    by (simp add: fold_or_error_def evaluate_fold_def evaluate_fold_ml_def ML_STRATEGIES_def ex_v3_env_def)
  then show ?thesis by (simp add: numeral_3_eq_3)
qed

theorem promotion_needs_stable_folds_witness:
  "ag_promote_recommendation (aggregate_verdicts (replicate 3 ex_stable_fold)) = ''promote'' \<and>
   9 \<le> 4 * length (filter (\<lambda>r. 20 \<le> fr_n_trades_oos r \<and>
        (\<exists>x y. fr_auc_is r = Some x \<and> fr_auc_oos r = Some y \<and> \<bar>x - y\<bar> \<le> 3 / 100)) (replicate 3 ex_stable_fold))"
proof -
  have "fr_verdict ex_stable_fold = Some ''stable''" "fr_auc_oos ex_stable_fold = Some 1"
    by (simp_all add: ex_stable_fold_def mk_fold_result_def)
  moreover from this have "List.map_filter fr_auc_oos (replicate 3 ex_stable_fold) = [1, 1, 1]" by (simp add: numeral_3_eq_3 map_filter_simps)
  moreover have "median_opt [1, 1, 1] = Some 1" by (simp add: median_opt_def median_of_def)
  ultimately show ?thesis
    using promotion_needs_stable_folds [of "replicate 3 ex_stable_fold" ex_v3_env "''last_90s_forecaster_v3''" "replicate 3 (fold_at 5 1 0 0)"] ex_stable_run
    by simp
qed

text \<open>What a run of the command can recommend. No run ever recommends a longer soak, because no fold of any
  strategy carries a profit; and only the forecaster can be recommended for promotion, because the folds of the hidden
  Markov model have no score and those of the rule-based strategies no trades, so none of them is ever stable.\<close>

theorem only_forecaster_can_be_promoted:
  assumes "wf_main env name t_from t_to is_days oos_days step_days = Some (Inr (Persisted rs ag promoted))"
  shows "ag_promote_recommendation ag \<in> {''promote'', ''hold'', ''insufficient_folds''} \<and>
    (normalize_strategy name \<noteq> ''last_90s_forecaster_v3'' \<longrightarrow> ag_promote_recommendation ag \<in> {''hold'', ''insufficient_folds''})"
proof -
  obtain fs where fs: "run_folds env (normalize_strategy name) fs = Some rs" "ag = aggregate_verdicts rs"
    using assms by (auto simp: wf_main_def Let_def split: if_splits option.splits sum.splits)
  have "ag_promote_recommendation (aggregate_verdicts rs) \<in> {''promote'', ''soak_longer'', ''hold'', ''insufficient_folds''}"
    by (auto simp: aggregate_verdicts_def recommendation_def Let_def)
  with dull_recommendation [OF dull_run [OF fs(1)]] fs(2) show ?thesis by auto
qed

section \<open>The command ends\<close>

lemma run_walk_forward_returns:
  assumes "0 < wc_step_days c"
  shows "\<exists>r. run_walk_forward c from_dt to_dt tol = Some r"
proof (cases "new_risk_manager (wc_risk_cfg c)")
  case (Inr m)
  from wf_loop_runs [OF assms Inr, of "[]" from_dt to_dt] show ?thesis by (auto simp: run_walk_forward_def)
next
  case (Inl e)
  then obtain e' where e': "wf_split c 0 from_dt = Inl e'" using split_raises_iff by blast
  have "\<exists>r. wf_loop c to_dt from_dt 0 [] = Some r" using e' by (subst wf_loop.simps) auto
  then show ?thesis by (auto simp: run_walk_forward_def)
qed

lemma replay_returns: "\<exists>r. replay_rules_fold conf db_exists db tol fw = Some r"
proof -
  have "\<exists>r. run_walk_forward (rules_config c fw) (fw_is_from fw) (fw_oos_to fw) tol = Some r" for c
    by (rule run_walk_forward_returns) (simp add: rules_config_def)
  then show ?thesis by (fastforce simp: replay_rules_fold_def split: option.split sum.split)
qed

lemma run_folds_returns: "\<exists>rs. run_folds env strategy fws = Some rs \<and> length rs = length fws"
proof (induction fws)
  case (Cons fw fws)
  have "\<exists>r. fold_or_error env strategy fw = Some r"
    using replay_returns by (auto simp: fold_or_error_def evaluate_fold_def)
  with Cons show ?case by auto
qed simp

text \<open>The command always ends. For a strategy it does not know it stops with code 2, for impossible day counts with a
  value error, for a range too short for one fold with code 3; otherwise it evaluates every fold, an
  exception in one fold included, and stores one result per fold.\<close>

theorem walk_forward_command_ends:
  "\<exists>r. wf_main env name t_from t_to is_days oos_days step_days = Some r \<and>
    (case r of
       Inl e \<Rightarrow> is_days \<le> 0 \<or> oos_days \<le> 0 \<or> step_days \<le> 0 \<or> t_to \<le> t_from
     | Inr UnknownStrategy \<Rightarrow> normalize_strategy name \<notin> {''hmm_regime_btc5m'', ''last_90s_forecaster_v3'', ''trend_confirm_t1_v1''}
     | Inr NoFolds \<Rightarrow> t_to < t_from + days is_days + days oos_days
     | Inr (Persisted rs ag promoted) \<Rightarrow> ag = aggregate_verdicts rs \<and>
         (\<exists>fs. build_folds t_from t_to is_days oos_days step_days = Some (Inr fs) \<and> fs \<noteq> [] \<and> length rs = length fs))"
proof (cases "normalize_strategy name \<in> set ML_STRATEGIES \<or> normalize_strategy name \<in> set RULE_STRATEGIES")
  case False
  then show ?thesis by (simp add: wf_main_def Let_def ML_STRATEGIES_def RULE_STRATEGIES_def)
next
  case known: True
  show ?thesis
  proof (cases "0 < is_days \<and> 0 < oos_days \<and> 0 < step_days \<and> t_from < t_to")
    case False
    then have "\<exists>e. build_folds t_from t_to is_days oos_days step_days = Some (Inl e)" by (auto simp: build_folds_def)
    with known False show ?thesis by (auto simp: wf_main_def Let_def)
  next
    case True
    then obtain fs where fs: "build_folds t_from t_to is_days oos_days step_days = Some (Inr fs)"
      "t_to < t_from + int (length fs) * days step_days + days is_days + days oos_days" using build_folds_ok by metis
    obtain rs where "run_folds env (normalize_strategy name) fs = Some rs" "length rs = length fs" using run_folds_returns by blast
    with known fs show ?thesis by (cases "fs = []") (auto simp: wf_main_def Let_def)
  qed
qed

section \<open>Worked examples\<close>

theorem rules_fold_sees_no_trades_witness:
  "\<exists>r. replay_rules_fold (Some (Inr (ex_wf 1))) True ''polybot.db'' (3 / 10) (fold_at 2 1 0 0) = Some (Inr r) \<and> fr_n_trades_oos r = 0"
proof -
  let ?c = "rules_config (ex_wf 1) (fold_at 2 1 0 0)"
  have "new_risk_manager (wc_risk_cfg ?c) = Inr ex_bt_manager" "0 < wc_step_days ?c"
    using ex_wf_sel(4) [of 1] by (simp_all add: rules_config_def)
  from wf_loop_runs [OF this(2,1), of "[]"] obtain res where
    "run_walk_forward ?c 0 (days 2 + days 1) (3 / 10) = Some (Inr res)" by (fastforce simp: run_walk_forward_def)
  then obtain r where r: "replay_rules_fold (Some (Inr (ex_wf 1))) True ''polybot.db'' (3 / 10) (fold_at 2 1 0 0) = Some (Inr r)"
    by (simp add: replay_rules_fold_def Let_def)
  from rules_fold_sees_no_trades [OF r] r show ?thesis by blast
qed

definition ex_wf_env :: "(nat, unit) wf_env" where
  "ex_wf_env = \<lparr>we_fetch_closes = (\<lambda>a b. []), we_fit = (\<lambda>c X. Inl TypeError),
     we_v3 = \<lparr>ve_db_exists = False, ve_markets = Inr [], ve_build_samples = (\<lambda>ms. Inr []), ve_train = (\<lambda>ss. Inl TypeError),
       ve_roc_auc = (\<lambda>y p. 0), ve_brier = (\<lambda>y p. 0)\<rparr>,
     we_conf = None, we_db_exists = False, we_polybot_db = [], we_tolerance = 3 / 10, we_promote_winner = True\<rparr>"

theorem only_forecaster_can_be_promoted_witness:
  "\<exists>rs ag. wf_main ex_wf_env ''polymarket_btc5m/hmm_regime_btc5m'' 0 (days 8) 5 1 1 = Some (Inr (Persisted rs ag True)) \<and>
     ag_promote_recommendation ag \<noteq> ''promote''"
proof -
  have n: "normalize_strategy ''polymarket_btc5m/hmm_regime_btc5m'' = ''hmm_regime_btc5m''" by (simp add: normalize_strategy_def)
  obtain fs where fs: "build_folds 0 (days 8) 5 1 1 = Some (Inr fs)" "days 8 < 0 + int (length fs) * days 1 + days 5 + days 1"
    by (rule build_folds_ok [of 5 1 1 0 "days 8"]) (auto simp: days_def)
  then have "fs \<noteq> []" by (auto simp: days_def)
  moreover obtain rs where "run_folds ex_wf_env ''hmm_regime_btc5m'' fs = Some rs" using run_folds_returns by blast
  ultimately have "wf_main ex_wf_env ''polymarket_btc5m/hmm_regime_btc5m'' 0 (days 8) 5 1 1 = Some (Inr (Persisted rs (aggregate_verdicts rs) True))"
    using fs(1) by (simp add: wf_main_def n Let_def ML_STRATEGIES_def ex_wf_env_def)
  from only_forecaster_can_be_promoted [OF this] this n show ?thesis by auto
qed

text \<open>A tie between stable folds and folds that raised counts as stable: an error has no place in the order of the verdicts.\<close>

lemma error_loses_ties: "dominant_of [''error'', ''stable''] = ''stable''"
  by (simp add: dominant_of_def most_common_def counter_keys_def verdict_priority_def dict_getd_def Let_def)

end
