(* ===== verification/Oracle_Lag.thy ===== *)
theory Oracle_Lag
  imports Strategy_Base
begin

text \<open>
  The oracle-lag strategy of the five-minute markets: \<open>strategies/polymarket_btc5m/oracle_lag_v1.py\<close>, its
  basket of exchanges \<open>_oracle_lag_cesta.py\<close>, the dollar basis \<open>engine/features/usdt_basis.py\<close> and the
  pricer \<open>engine/features/black_scholes_digital.py\<close>. A missing float (\<open>None\<close>) is \<open>None\<close> of an option, the
  NaN of the debug dictionary is \<open>JNull\<close>; the error function of the mathematics library is \<open>erf\<close>. A
  configuration is a dictionary of numbers in which a truth value is 0 or 1.
\<close>

section \<open>Time series\<close>

type_synonym series = "(epoch \<times> real) list"

text \<open>The loop of both look-ups: the last observation before the first one that is too late.\<close>

fun last_before :: "epoch \<Rightarrow> (epoch \<times> real) option \<Rightarrow> series \<Rightarrow> (epoch \<times> real) option" where
  "last_before ts acc [] = acc"
| "last_before ts acc ((t, px) # s) = (if t > ts then acc else last_before ts (Some (t, px)) s)"

section \<open>The dollar basis\<close>

definition MAX_STALENESS_S :: real where
  "MAX_STALENESS_S = 300"

definition BASIS_MIN :: real where
  "BASIS_MIN = 95 / 100"

definition BASIS_MAX :: real where
  "BASIS_MAX = 105 / 100"

definition implicit_basis :: "real option \<Rightarrow> real option \<Rightarrow> real option" where
  "implicit_basis binance coinbase =
     (case (binance, coinbase) of
        (Some b, Some c) \<Rightarrow>
          (if b \<le> 0 \<or> c \<le> 0 then None
           else (let basis = c / b in if basis < BASIS_MIN \<or> basis > BASIS_MAX then None else Some basis))
      | _ \<Rightarrow> None)"

definition basis_at :: "epoch \<Rightarrow> series \<Rightarrow> real" where
  "basis_at ts basis_series =
     (case last_before ts None basis_series of
        None \<Rightarrow> 1
      | Some (last_ts, last_basis) \<Rightarrow> if ts - last_ts > MAX_STALENESS_S then 1 else last_basis)"

text \<open>The rows of the join: time, Binance close and Coinbase close of the same minute.\<close>

fun load_basis_series :: "(epoch \<times> real option \<times> real option) list \<Rightarrow> series" where
  "load_basis_series [] = []"
| "load_basis_series ((ts, b, c) # rows) =
     (case implicit_basis b c of None \<Rightarrow> load_basis_series rows | Some k \<Rightarrow> (ts, k) # load_basis_series rows)"

section \<open>The basket of exchanges\<close>

record CestaWeights =
  cw_binance :: real
  cw_bybit :: real
  cw_coinbase :: real
  cw_okx :: real
  cw_kraken :: real

definition default_weights :: CestaWeights where
  "default_weights = \<lparr>cw_binance = 40 / 100, cw_bybit = 10 / 100, cw_coinbase = 25 / 100, cw_okx = 15 / 100, cw_kraken = 10 / 100\<rparr>"

definition normalised :: "CestaWeights \<Rightarrow> CestaWeights" where
  "normalised w =
     (let total = cw_binance w + cw_bybit w + cw_coinbase w + cw_okx w + cw_kraken w
      in if total \<le> 0 then default_weights
         else \<lparr>cw_binance = cw_binance w / total, cw_bybit = cw_bybit w / total, cw_coinbase = cw_coinbase w / total,
               cw_okx = cw_okx w / total, cw_kraken = cw_kraken w / total\<rparr>)"

record CestaProvider =
  ce_coinbase :: series
  ce_bybit :: series
  ce_okx :: series
  ce_kraken :: series
  ce_basis :: series
  ce_w :: CestaWeights

definition new_cesta :: "series \<Rightarrow> series \<Rightarrow> series option \<Rightarrow> series option \<Rightarrow> series option \<Rightarrow> CestaWeights option \<Rightarrow> CestaProvider" where
  "new_cesta coinbase basis bybit okx kraken weights =
     \<lparr>ce_coinbase = coinbase, ce_bybit = (case bybit of Some s \<Rightarrow> s | None \<Rightarrow> []), ce_okx = (case okx of Some s \<Rightarrow> s | None \<Rightarrow> []),
      ce_kraken = (case kraken of Some s \<Rightarrow> s | None \<Rightarrow> []), ce_basis = basis,
      ce_w = normalised (case weights of Some w \<Rightarrow> w | None \<Rightarrow> default_weights)\<rparr>"

definition cesta_lookup :: "series \<Rightarrow> epoch \<Rightarrow> real option" where
  "cesta_lookup s ts =
     (case last_before ts None s of
        None \<Rightarrow> None
      | Some (last_ts, last_px) \<Rightarrow> if ts - last_ts > 300 then None else Some last_px)"

text \<open>\<open>px / basis if (px and basis > 0) else None\<close>.\<close>

definition in_usd :: "real \<Rightarrow> real option \<Rightarrow> real option" where
  "in_usd basis px = (case px of Some x \<Rightarrow> if x \<noteq> 0 \<and> basis > 0 then Some (x / basis) else None | None \<Rightarrow> None)"

text \<open>The pairs of weight and price that take part: \<open>if usd and usd > 0\<close>.\<close>

definition venue :: "real \<Rightarrow> real option \<Rightarrow> (real \<times> real) list" where
  "venue w px = (case px of Some x \<Rightarrow> if x \<noteq> 0 \<and> x > 0 then [(w, x)] else [] | None \<Rightarrow> [])"

definition opt_num :: "real option \<Rightarrow> jval" where
  "opt_num px = (case px of Some x \<Rightarrow> JNum x | None \<Rightarrow> JNull)"

definition binance_in_usd :: "CestaProvider \<Rightarrow> epoch \<Rightarrow> real \<Rightarrow> real" where
  "binance_in_usd ce ts spot = (let basis = basis_at ts (ce_basis ce) in if basis > 0 then spot / basis else spot)"

definition venues :: "CestaProvider \<Rightarrow> epoch \<Rightarrow> real \<Rightarrow> (real \<times> real) list" where
  "venues ce ts spot =
     (let basis = basis_at ts (ce_basis ce); w = ce_w ce
      in venue (cw_binance w) (Some (binance_in_usd ce ts spot)) @
         venue (cw_bybit w) (in_usd basis (cesta_lookup (ce_bybit ce) ts)) @
         venue (cw_coinbase w) (cesta_lookup (ce_coinbase ce) ts) @
         venue (cw_okx w) (in_usd basis (cesta_lookup (ce_okx ce) ts)) @
         venue (cw_kraken w) (cesta_lookup (ce_kraken ce) ts))"

definition p_spot :: "CestaProvider \<Rightarrow> epoch \<Rightarrow> real \<Rightarrow> real \<times> (string, jval) dict" where
  "p_spot ce ts spot =
     (let basis = basis_at ts (ce_basis ce);
          vs = venues ce ts spot;
          total_w = sum_list (map fst vs);
          p = (if total_w \<le> 0 \<or> vs = [] then spot else sum_list (map (\<lambda>(w, px). w * px) vs) / total_w)
      in (p, [(''basis'', JNum basis), (''binance_usd'', JNum (binance_in_usd ce ts spot)),
              (''bybit_usd'', opt_num (in_usd basis (cesta_lookup (ce_bybit ce) ts))),
              (''coinbase_usd'', opt_num (cesta_lookup (ce_coinbase ce) ts)),
              (''okx_usd'', opt_num (in_usd basis (cesta_lookup (ce_okx ce) ts))),
              (''kraken_usd'', opt_num (cesta_lookup (ce_kraken ce) ts)),
              (''p_spot_usd'', JNum p), (''n_venues'', JNum (real (length vs)))]))"

text \<open>A refresh with the rows of the four price queries and of the basis query.\<close>

definition cesta_refresh :: "series \<Rightarrow> series \<Rightarrow> series \<Rightarrow> series \<Rightarrow> (epoch \<Rightarrow> epoch \<Rightarrow> (epoch \<times> real option \<times> real option) list) \<Rightarrow>
    CestaProvider \<Rightarrow> CestaProvider" where
  "cesta_refresh coinbase bybit okx kraken basis_rows ce =
     (let ce1 = ce\<lparr>ce_coinbase := coinbase, ce_bybit := bybit, ce_okx := okx, ce_kraken := kraken\<rparr>
      in if coinbase = [] then ce1
         else ce1\<lparr>ce_basis := load_basis_series (basis_rows (fst (hd coinbase)) (fst (last coinbase)))\<rparr>)"

section \<open>The pricer\<close>

definition p_up :: "(real \<Rightarrow> real) \<Rightarrow> real \<Rightarrow> real \<Rightarrow> real \<Rightarrow> real" where
  "p_up erf delta_pct tau_s sigma =
     (if tau_s \<le> 0 \<or> sigma \<le> 0 then (if delta_pct > 0 then 1 else if delta_pct < 0 then 0 else 1 / 2)
      else norm_cdf erf (delta_pct / (sigma * sqrt tau_s)))"

fun ewma_loop :: "real \<Rightarrow> real \<Rightarrow> real option \<Rightarrow> real list \<Rightarrow> real" where
  "ewma_loop lam var prev [] = var"
| "ewma_loop lam var prev (s # ss) =
     (if s \<le> 0 then ewma_loop lam var prev ss
      else (case prev of
          None \<Rightarrow> ewma_loop lam var (Some s) ss
        | Some p \<Rightarrow> (let r = ln (s / p) in ewma_loop lam (lam * var + (1 - lam) * r * r) (Some s) ss)))"

definition sigma_ewma :: "real list \<Rightarrow> real \<Rightarrow> real" where
  "sigma_ewma spots lam = (if length spots < 2 then 0 else sqrt (max (ewma_loop lam 0 None spots) 0))"

fun tick_loop :: "int \<Rightarrow> int \<Rightarrow> real list \<Rightarrow> int \<times> int" where
  "tick_loop signed_sum n_moves (a # b # ss) =
     (let d = b - a
      in if d > 0 then tick_loop (signed_sum + 1) (n_moves + 1) (b # ss)
         else if d < 0 then tick_loop (signed_sum - 1) (n_moves + 1) (b # ss)
         else tick_loop signed_sum n_moves (b # ss))"
| "tick_loop signed_sum n_moves _ = (signed_sum, n_moves)"

definition tick_rule_cvd :: "real list \<Rightarrow> real" where
  "tick_rule_cvd spots =
     (if length spots < 2 then 0
      else (let (signed_sum, n_moves) = tick_loop 0 0 spots
            in if n_moves = 0 then 0 else of_int signed_sum / of_int n_moves))"

section \<open>The strategy\<close>

definition dynamic_fee :: "real \<Rightarrow> real \<Rightarrow> real \<Rightarrow> real" where
  "dynamic_fee p fee_a fee_b = fee_a + fee_b * 4 * p * (1 - p)"

record oracle_lag =
  ol_entry_start_s :: real
  ol_entry_end_s :: real
  ol_sigma_lookback_s :: real
  ol_sigma_min_ticks :: int
  ol_ewma_lambda :: real
  ol_fee_a :: real
  ol_fee_b :: real
  ol_ev_threshold :: real
  ol_max_entry_price :: real
  ol_ofi_enabled :: bool
  ol_ofi_window_s :: real
  ol_ofi_min_strength :: real
  ol_usdt_basis_phase0 :: real
  ol_cesta :: "CestaProvider option"
  ol_shadow :: bool
  ol_per_window_entered :: "string list"

text \<open>The constructor, with the parameters of the section \<open>params\<close> and the flag \<open>shadow\<close> of the section \<open>paper\<close>.\<close>

definition new_oracle_lag :: "(string, real) dict \<Rightarrow> bool option \<Rightarrow> CestaProvider option \<Rightarrow> oracle_lag" where
  "new_oracle_lag p shadow cesta =
     \<lparr>ol_entry_start_s = dict_getd p ''entry_window_start_s'' 285, ol_entry_end_s = dict_getd p ''entry_window_end_s'' 297,
      ol_sigma_lookback_s = dict_getd p ''sigma_lookback_s'' 90, ol_sigma_min_ticks = py_int (dict_getd p ''sigma_min_ticks'' 60),
      ol_ewma_lambda = dict_getd p ''ewma_lambda'' (94 / 100), ol_fee_a = dict_getd p ''fee_a'' (5 / 1000),
      ol_fee_b = dict_getd p ''fee_b'' (25 / 1000), ol_ev_threshold = dict_getd p ''ev_threshold'' (5 / 1000),
      ol_max_entry_price = dict_getd p ''max_entry_price'' 1, ol_ofi_enabled = (dict_getd p ''ofi_enabled'' 0 \<noteq> 0),
      ol_ofi_window_s = dict_getd p ''ofi_window_s'' 30, ol_ofi_min_strength = dict_getd p ''ofi_min_strength'' (10 / 100),
      ol_usdt_basis_phase0 = dict_getd p ''usdt_basis_phase0'' 1, ol_cesta = cesta,
      ol_shadow = (case shadow of Some b \<Rightarrow> b | None \<Rightarrow> True), ol_per_window_entered = []\<rparr>"

definition oracle_on_start :: "oracle_lag \<Rightarrow> oracle_lag" where
  "oracle_on_start s = s\<lparr>ol_per_window_entered := []\<rparr>"

text \<open>Step 3: the fair price in dollars. Without a basket the configured basis divides and may be zero.\<close>

definition fair_price :: "oracle_lag \<Rightarrow> 'a tick_core_scheme \<Rightarrow> py_error + (real \<times> (string, jval) dict)" where
  "fair_price s ctx =
     (case ol_cesta s of
        Some ce \<Rightarrow> Inr (p_spot ce (tc_ts ctx) (tc_spot_price ctx))
      | None \<Rightarrow> if ol_usdt_basis_phase0 s = 0 then Inl ZeroDivisionError
                else Inr (tc_spot_price ctx / ol_usdt_basis_phase0 s, []))"

definition spots_since :: "epoch \<Rightarrow> tick_context \<Rightarrow> real list" where
  "spots_since cutoff ctx =
     map tc_spot_price (filter (\<lambda>t. tc_ts t \<ge> cutoff \<and> tc_spot_price t > 0) (tc_recent_ticks ctx)) @ [tc_spot_price ctx]"

definition window_spots :: "oracle_lag \<Rightarrow> tick_context \<Rightarrow> real list" where
  "window_spots s ctx = spots_since (tc_ts ctx - ol_sigma_lookback_s s) ctx"

definition tau_of :: "'a tick_core_scheme \<Rightarrow> real" where
  "tau_of ctx = max 0 (tc_window_close_ts ctx - tc_ts ctx)"

text \<open>Step 5b: the proxy of the order flow, zero where the gate is off.\<close>

definition ofi_proxy :: "oracle_lag \<Rightarrow> tick_context \<Rightarrow> real" where
  "ofi_proxy s ctx =
     (if ol_ofi_enabled s \<and> tau_of ctx < 60 then tick_rule_cvd (spots_since (tc_ts ctx - ol_ofi_window_s s) ctx) else 0)"

definition ofi_disagrees :: "oracle_lag \<Rightarrow> tick_context \<Rightarrow> real \<Rightarrow> bool" where
  "ofi_disagrees s ctx delta_pct \<longleftrightarrow>
     ol_ofi_enabled s \<and> tau_of ctx < 60 \<and> \<bar>ofi_proxy s ctx\<bar> \<ge> ol_ofi_min_strength s \<and>
     (delta_pct > 0) \<noteq> (ofi_proxy s ctx > 0)"

definition skip_with :: "fstring \<Rightarrow> (string, jval) dict \<Rightarrow> decision" where
  "skip_with reason feats = mk_decision SKIP NONE reason feats"

text \<open>\<open>features.update({f"cesta_{k}": v \<dots>})\<close>: the keys are new.\<close>

definition cesta_features :: "(string, jval) dict \<Rightarrow> (string, jval) dict" where
  "cesta_features dbg = map (\<lambda>(k, v). (''cesta_'' @ k, v)) dbg"

text \<open>Steps 6 and 7 for a chosen side: the price gates, the expected value and the shadow gate.\<close>

definition decide_side :: "oracle_lag \<Rightarrow> tick_context \<Rightarrow> real \<Rightarrow> (string, jval) dict \<Rightarrow> real \<Rightarrow> real \<Rightarrow> side \<Rightarrow> real \<Rightarrow> real \<Rightarrow> decision \<times> oracle_lag" where
  "decide_side s ctx delta_pct dbg sigma prob_up side ask p_side =
     (if ask \<le> 0 \<or> ask \<ge> 1 then (skip_with (ftext ''bad_ask'') [], s)
      else if ask > ol_max_entry_price s then (skip_with (ftext ''ask_above_max_entry_price'') [], s)
      else (let ev_gross = p_side * (1 - ask) - (1 - p_side) * ask;
                fee = dynamic_fee ask (ol_fee_a s) (ol_fee_b s);
                ev_net = ev_gross - fee;
                features = [(''delta_pct'', JNum delta_pct), (''sigma_per_sqrt_s'', JNum sigma), (''tau_s'', JNum (tau_of ctx)),
                  (''prob_up'', JNum prob_up), (''p_side'', JNum p_side), (''ask'', JNum ask), (''ev_gross'', JNum ev_gross),
                  (''fee'', JNum fee), (''ev_net'', JNum ev_net), (''n_sigma_ticks'', JNum (real (length (window_spots s ctx)))),
                  (''cvd_proxy'', JNum (ofi_proxy s ctx))] @ cesta_features dbg
            in if ev_net < ol_ev_threshold s then (skip_with (ftext ''ev_below_threshold'') features, s)
               else if ol_shadow s then (skip_with (ftext ''shadow_mode'') features, s)
               else (mk_decision ENTER side [FTxt ''ev_net='', FSigned 4 ev_net, FTxt '' prob_up='', FNum 3 prob_up] features,
                     s\<lparr>ol_per_window_entered := List.insert (tc_market_slug ctx) (ol_per_window_entered s)\<rparr>)))"

definition oracle_should_enter :: "(real \<Rightarrow> real) \<Rightarrow> tick_context \<Rightarrow> oracle_lag \<Rightarrow> py_error + (decision \<times> oracle_lag)" where
  "oracle_should_enter erf ctx s =
     (if \<not> (ol_entry_start_s s \<le> tc_t_in_window ctx \<and> tc_t_in_window ctx \<le> ol_entry_end_s s)
      then Inr (skip_with (ftext ''outside_entry_window'') [], s)
      else if tc_market_slug ctx \<in> set (ol_per_window_entered s) then Inr (skip_with (ftext ''already_entered'') [], s)
      else if tc_open_price ctx \<le> 0 \<or> tc_spot_price ctx \<le> 0 then Inr (skip_with (ftext ''bad_price_data'') [], s)
      else bind_r (fair_price s ctx) (\<lambda>(p_spot_usd, dbg).
        let delta_pct = (p_spot_usd - tc_open_price ctx) / tc_open_price ctx;
            spots = window_spots s ctx
        in if int (length spots) < ol_sigma_min_ticks s then Inr (skip_with (ftext ''insufficient_sigma_ticks'') [], s)
           else (let sigma = sigma_ewma spots (ol_ewma_lambda s)
                 in if sigma \<le> 0 then Inr (skip_with (ftext ''sigma_collapsed'') [], s)
                    else (let prob_up = p_up erf delta_pct (tau_of ctx) sigma
                          in if ofi_disagrees s ctx delta_pct
                             then Inr (skip_with (ftext ''ofi_disagrees_with_delta'')
                               [(''delta_pct'', JNum delta_pct), (''cvd_proxy'', JNum (ofi_proxy s ctx))], s)
                             else if prob_up \<ge> 1 / 2
                             then Inr (decide_side s ctx delta_pct dbg sigma prob_up YES_UP (tc_pm_yes_ask ctx) prob_up)
                             else Inr (decide_side s ctx delta_pct dbg sigma prob_up YES_DOWN (tc_pm_no_ask ctx) (1 - prob_up))))))"

text \<open>The strategy as the drivers see it. The exception of a zero basis would end the run; the decision it
  has here is never reached where the basis is not zero.\<close>

definition oracle_strategy :: "(real \<Rightarrow> real) \<Rightarrow> oracle_lag strategy" where
  "oracle_strategy erf =
     \<lparr>sg_name = ''oracle_lag_v1'', sg_on_start = oracle_on_start,
      sg_should_enter = (\<lambda>ctx s. case oracle_should_enter erf ctx s of Inr r \<Rightarrow> r | Inl e \<Rightarrow> (skip_with [] [], s)),
      sg_on_stop = id\<rparr>"

section \<open>Look-ups\<close>

text \<open>The reference: the last of the observations that are neither too late nor stale.\<close>

definition latest_fresh :: "epoch \<Rightarrow> series \<Rightarrow> real option" where
  "latest_fresh ts s =
     (let fresh = filter (\<lambda>(t, px). t \<le> ts \<and> ts - t \<le> 300) s in if fresh = [] then None else Some (snd (last fresh)))"

lemma last_before_cases:
  assumes "sorted (map fst s)"
  shows "last_before ts acc s =
    (let old = filter (\<lambda>(t, px). t \<le> ts) s in if old = [] then acc else Some (last old))"
  using assms
proof (induction s arbitrary: acc)
  case (Cons p s)
  obtain t px where p: "p = (t, px)" by (cases p)
  show ?case
  proof (cases "t \<le> ts")
    case True
    with Cons p show ?thesis by (auto simp: Let_def)
  next
    case False
    with Cons.prems p have "filter (\<lambda>(t, px). t \<le> ts) s = []" by (auto simp: filter_empty_conv)
    with False p show ?thesis by simp
  qed
qed simp

lemma latest_fresh_last_before:
  assumes "sorted (map fst s)"
  shows "latest_fresh ts s = (case last_before ts None s of None \<Rightarrow> None | Some (t, px) \<Rightarrow> if ts - t > 300 then None else Some px)"
proof -
  let ?old = "filter (\<lambda>(t, px). t \<le> ts) s"
  have fresh: "filter (\<lambda>(t, px). t \<le> ts \<and> ts - t \<le> 300) s = filter (\<lambda>(t, px). ts - t \<le> 300) ?old"
    by (auto intro: filter_cong)
  show ?thesis
  proof (cases ?old rule: rev_cases)
    case Nil
    with assms fresh show ?thesis by (simp add: latest_fresh_def last_before_cases)
  next
    case (snoc qs q)
    obtain t px where q: "q = (t, px)" by (cases q)
    have "sorted (map fst ?old)" using assms by (rule sorted_filter)
    then have earlier: "t' \<le> t" if "(t', px') \<in> set qs" for t' px'
      using that q unfolding snoc by (force simp: sorted_append)
    then have "filter (\<lambda>(t, px). ts - t \<le> 300) ?old = []" if "ts - t > 300"
      using that q unfolding snoc by (force simp: filter_empty_conv)
    with q fresh snoc show ?thesis
      by (simp add: latest_fresh_def last_before_cases [OF assms] Let_def)
  qed
qed

lemmas lookup_simps = latest_fresh_last_before cesta_lookup_def basis_at_def MAX_STALENESS_S_def

lemma lookup_latest_fresh:
  assumes "sorted (map fst s)"
  shows "cesta_lookup s ts = latest_fresh ts s"
    and "basis_at ts s = (case latest_fresh ts s of None \<Rightarrow> 1 | Some k \<Rightarrow> k)"
  using assms by (auto simp: lookup_simps split: option.split)

section \<open>The basket is an average\<close>

lemma weights_sum: "cw_binance (normalised w) + cw_bybit (normalised w) + cw_coinbase (normalised w) + cw_okx (normalised w) + cw_kraken (normalised w) = 1"
proof (cases "cw_binance w + cw_bybit w + cw_coinbase w + cw_okx w + cw_kraken w \<le> 0")
  case False
  then show ?thesis by (simp add: normalised_def Let_def add_divide_distrib [symmetric])
qed (simp add: normalised_def default_weights_def Let_def)

definition weights_of :: "CestaWeights \<Rightarrow> real list" where
  "weights_of w = [cw_binance w, cw_bybit w, cw_coinbase w, cw_okx w, cw_kraken w]"

lemma normalised_nonneg: "list_all (\<lambda>x. 0 \<le> x) (weights_of w) \<Longrightarrow> list_all (\<lambda>x. 0 \<le> x) (weights_of (normalised w))"
  by (simp add: weights_of_def normalised_def default_weights_def Let_def)

lemma weighted_sum_bounds:
  fixes vs :: "(real \<times> real) list"
  assumes "\<forall>(w, px) \<in> set vs. 0 \<le> w \<and> lo \<le> px \<and> px \<le> hi"
  shows "lo * sum_list (map fst vs) \<le> sum_list (map (\<lambda>(w, px). w * px) vs) \<and>
    sum_list (map (\<lambda>(w, px). w * px) vs) \<le> hi * sum_list (map fst vs)"
  using assms
proof (induction vs)
  case (Cons v vs)
  obtain w px where v: "v = (w, px)" by (cases v)
  with Cons.prems have "lo * w \<le> w * px" "w * px \<le> hi * w"
    by (auto simp: mult.commute [of lo] mult.commute [of hi] intro: mult_left_mono)
  moreover from Cons have "lo * sum_list (map fst vs) \<le> sum_list (map (\<lambda>(w, px). w * px) vs)"
    "sum_list (map (\<lambda>(w, px). w * px) vs) \<le> hi * sum_list (map fst vs)" by auto
  ultimately show ?case using v by (simp add: distrib_left)
qed simp

lemma set_venue: "v \<in> set (venue w px) \<longleftrightarrow> (\<exists>x. px = Some x \<and> x > 0 \<and> v = (w, x))"
  by (auto simp: venue_def split: option.splits)

lemma set_venues:
  assumes "(w, px) \<in> set (venues ce ts spot)"
  shows "0 < px \<and> w \<in> set (weights_of (ce_w ce))"
  using assms by (auto simp: venues_def weights_of_def set_venue Let_def)

lemma p_spot_between:
  assumes "list_all (\<lambda>x. 0 \<le> x) (weights_of (ce_w ce))" "0 < sum_list (map fst (venues ce ts spot))"
    and "\<And>w px. (w, px) \<in> set (venues ce ts spot) \<Longrightarrow> lo \<le> px \<and> px \<le> hi"
  shows "lo \<le> fst (p_spot ce ts spot) \<and> fst (p_spot ce ts spot) \<le> hi"
proof -
  let ?vs = "venues ce ts spot"
  have "\<forall>(w, px) \<in> set ?vs. 0 \<le> w \<and> lo \<le> px \<and> px \<le> hi"
    using assms(1,3) set_venues by (fastforce simp: list_all_iff)
  from weighted_sum_bounds [OF this] assms(2) show ?thesis
    by (auto simp: p_spot_def Let_def field_simps)
qed

text \<open>The fair price is an average of what the exchanges quote. With weights that are not negative and a
  participating venue of positive weight it lies between the lowest and the highest participating price. The
  normalised weights add up to one, and a series takes part only through its last observation of
  the last five minutes; without one the venue is left out (the basis is then one).\<close>

theorem fair_price_between_venues:
  assumes "list_all (\<lambda>x. 0 \<le> x) (weights_of w)" "ce_w ce = normalised w"
    and "0 < sum_list (map fst (venues ce ts spot))"
    and "sorted (map fst (ce_coinbase ce))" "sorted (map fst (ce_basis ce))"
  shows "Min (snd ` set (venues ce ts spot)) \<le> fst (p_spot ce ts spot) \<and>
    fst (p_spot ce ts spot) \<le> Max (snd ` set (venues ce ts spot)) \<and>
    0 < fst (p_spot ce ts spot) \<and> sum_list (weights_of (ce_w ce)) = 1 \<and>
    cesta_lookup (ce_coinbase ce) ts = latest_fresh ts (ce_coinbase ce) \<and>
    basis_at ts (ce_basis ce) = (case latest_fresh ts (ce_basis ce) of None \<Rightarrow> 1 | Some k \<Rightarrow> k)"
proof -
  let ?vs = "venues ce ts spot"
  have nonneg: "list_all (\<lambda>x. 0 \<le> x) (weights_of (ce_w ce))" using normalised_nonneg [OF assms(1)] assms(2) by simp
  have ne: "snd ` set ?vs \<noteq> {}" using assms(3) by (cases ?vs) auto
  have range: "Min (snd ` set ?vs) \<le> px \<and> px \<le> Max (snd ` set ?vs)" if "(w', px) \<in> set ?vs" for w' px
    using that by (auto intro!: Min_le Max_ge rev_image_eqI)
  have "Min (snd ` set ?vs) \<in> snd ` set ?vs" using ne by (intro Min_in) auto
  then have "0 < Min (snd ` set ?vs)" using set_venues by fastforce
  moreover have "Min (snd ` set ?vs) \<le> fst (p_spot ce ts spot) \<and> fst (p_spot ce ts spot) \<le> Max (snd ` set ?vs)"
    by (rule p_spot_between [OF nonneg assms(3)]) (rule range)
  moreover have "sum_list (weights_of (ce_w ce)) = 1" using weights_sum [of w] assms(2) by (simp add: weights_of_def)
  ultimately show ?thesis
    using lookup_latest_fresh(1) [OF assms(4)] lookup_latest_fresh(2) [OF assms(5)] by auto
qed

section \<open>The correction by the basis\<close>

text \<open>A basis is the price of a tether in dollars, the quotient of the Coinbase and the Binance price of the
  same minute: multiplying the Binance price by it gives the Coinbase price. The basket divides by it, which
  doubles the gap it should close, up to the factor of the basis itself.\<close>

theorem basis_correction_widens_the_gap:
  assumes "implicit_basis (Some b) (Some c) = Some k" "series = [(ts, k)]"
    and "ce_basis ce = series" "b \<noteq> c"
  shows "b * k = c \<and> binance_in_usd ce ts b = b / k \<and> \<bar>b - c\<bar> < \<bar>binance_in_usd ce ts b - c\<bar> \<and>
    binance_in_usd ce ts b - c = (b - c) * (1 + 1 / k)"
proof -
  have bc: "0 < b" "0 < c" and k: "k = c / b" "0 < k"
    using assms(1) by (auto simp: implicit_basis_def BASIS_MIN_def Let_def split: if_splits)
  have usd: "binance_in_usd ce ts b = b / k"
    using assms(2,3) k(2) by (simp add: binance_in_usd_def basis_at_def MAX_STALENESS_S_def)
  have gap: "b / k - c = (b - c) * (1 + 1 / k)" using bc k by (simp add: field_simps)
  have "\<bar>b - c\<bar> * 1 < \<bar>b - c\<bar> * \<bar>1 + 1 / k\<bar>" using assms(4) k(2) by (intro mult_strict_left_mono) auto
  then have "\<bar>b - c\<bar> < \<bar>b / k - c\<bar>" unfolding gap abs_mult by simp
  with usd gap bc k show ?thesis by simp
qed

section \<open>Entries\<close>

lemma norm_cdf_range: "\<bar>erf (x / sqrt 2)\<bar> \<le> 1 \<Longrightarrow> 0 \<le> norm_cdf erf x \<and> norm_cdf erf x \<le> 1"
  by (auto simp: norm_cdf_def abs_le_iff)

text \<open>The weighted variance in closed form: the log returns of the ticks, the newest with the greatest weight.\<close>

definition ewma_variance :: "real \<Rightarrow> real list \<Rightarrow> real" where
  "ewma_variance lam xs = (\<Sum>i<length xs - 1. (1 - lam) * lam ^ (length xs - 2 - i) * (ln (xs ! Suc i / xs ! i))\<^sup>2)"

lemma ewma_loop_sum:
  "list_all (\<lambda>x. 0 < x) xs \<Longrightarrow>
   ewma_loop lam var (Some p) xs =
     lam ^ length xs * var + (\<Sum>i<length xs. (1 - lam) * lam ^ (length xs - 1 - i) * (ln ((p # xs) ! Suc i / (p # xs) ! i))\<^sup>2)"
proof (induction xs arbitrary: var p)
  case (Cons x xs)
  let ?r = "ln (x / p)"
  let ?f = "\<lambda>i. (1 - lam) * lam ^ (length xs - i) * (ln ((p # x # xs) ! Suc i / (p # x # xs) ! i))\<^sup>2"
  have "(\<Sum>i<Suc (length xs). ?f i) = ?f 0 + (\<Sum>i<length xs. ?f (Suc i))" by (rule sum.lessThan_Suc_shift)
  moreover have "?f 0 = (1 - lam) * lam ^ length xs * ?r\<^sup>2" by simp
  moreover have "ewma_loop lam var (Some p) (x # xs) =
      lam ^ length xs * (lam * var + (1 - lam) * ?r * ?r) + (\<Sum>i<length xs. ?f (Suc i))"
    using Cons by (simp add: Let_def)
  ultimately show ?case by (simp add: power2_eq_square algebra_simps del: nth_Cons_Suc)
qed simp

lemma sigma_ewma_closed:
  assumes "list_all (\<lambda>x. 0 < x) xs" "0 < sigma_ewma xs lam"
  shows "sigma_ewma xs lam = sqrt (max (ewma_variance lam xs) 0)"
proof -
  have len: "2 \<le> length xs" using assms(2) by (simp add: sigma_ewma_def split: if_splits)
  then obtain p ys where xs: "xs = p # ys" by (cases xs) auto
  have "ewma_loop lam 0 None xs = ewma_variance lam xs"
    using assms(1) ewma_loop_sum [of ys lam 0 p] by (simp add: xs ewma_variance_def)
  with len show ?thesis by (simp add: sigma_ewma_def)
qed

lemma window_spots_pos: "0 < tc_spot_price ctx \<Longrightarrow> list_all (\<lambda>x. 0 < x) (window_spots s ctx)"
  by (auto simp: window_spots_def spots_since_def list_all_iff)

lemma p_up_half:
  assumes "\<And>x. 0 \<le> erf x \<longleftrightarrow> 0 \<le> x"
  shows "1 / 2 \<le> p_up erf d tau sigma \<longleftrightarrow> 0 \<le> d"
proof (cases "tau \<le> 0 \<or> sigma \<le> 0")
  case False
  then have pos: "0 < sigma * sqrt tau" by simp
  have "1 / 2 \<le> norm_cdf erf z \<longleftrightarrow> 0 \<le> z" for z
    using assms [of "z / sqrt 2"] by (auto simp: norm_cdf_def zero_le_divide_iff)
  with False pos_le_divide_eq [OF pos, of 0 d] show ?thesis by (simp add: p_up_def)
qed (auto simp: p_up_def)

lemma p_up_range: "(\<And>x. \<bar>erf x\<bar> \<le> 1) \<Longrightarrow> 0 \<le> p_up erf d tau sigma \<and> p_up erf d tau sigma \<le> 1"
  using norm_cdf_range [of erf] by (simp add: p_up_def)

lemma skip_with_simps [simp]: "dc_action (skip_with r f) = SKIP" "dc_side (skip_with r f) = NONE"
  by (simp_all add: skip_with_def mk_decision_def)

lemma decide_side_enter:
  assumes "decide_side s ctx delta dbg sigma prob side ask p = (d, s')" "dc_action d = ENTER"
  shows "0 < ask \<and> ask < 1 \<and> ask \<le> ol_max_entry_price s \<and> \<not> ol_shadow s \<and> dc_side d = side \<and>
    ol_ev_threshold s \<le> p - ask - dynamic_fee ask (ol_fee_a s) (ol_fee_b s) \<and>
    map_of (dc_signal_features d) ''ev_net'' = Some (JNum (p - ask - dynamic_fee ask (ol_fee_a s) (ol_fee_b s))) \<and>
    s' = s\<lparr>ol_per_window_entered := List.insert (tc_market_slug ctx) (ol_per_window_entered s)\<rparr>"
proof -
  have ev: "p * (1 - ask) - (1 - p) * ask = p - ask" by (simp add: algebra_simps)
  show ?thesis using assms unfolding decide_side_def Let_def ev
    by (auto simp: mk_decision_def split: if_splits)
qed

lemma decide_side_skip:
  "decide_side s ctx delta dbg sigma prob side ask p = (d, s') \<Longrightarrow> dc_action d \<noteq> ENTER \<Longrightarrow> s' = s \<and> dc_side d = NONE"
  by (auto simp: decide_side_def mk_decision_def Let_def split: if_splits)

text \<open>A decision that reaches the choice of the side, or one of the earlier exits.\<close>

lemma oracle_should_enter_cases:
  assumes "oracle_should_enter erf ctx s = Inr (d, s')"
  obtains (skip) "dc_action d = SKIP" "dc_side d = NONE" "s' = s"
  | (side) price dbg delta sigma prob sd ask p where
      "ol_entry_start_s s \<le> tc_t_in_window ctx" "tc_t_in_window ctx \<le> ol_entry_end_s s"
      "tc_market_slug ctx \<notin> set (ol_per_window_entered s)" "0 < tc_open_price ctx" "0 < tc_spot_price ctx"
      "fair_price s ctx = Inr (price, dbg)" "delta = (price - tc_open_price ctx) / tc_open_price ctx"
      "ol_sigma_min_ticks s \<le> int (length (window_spots s ctx))" "sigma = sigma_ewma (window_spots s ctx) (ol_ewma_lambda s)" "0 < sigma"
      "prob = p_up erf delta (tau_of ctx) sigma" "\<not> ofi_disagrees s ctx delta"
      "(sd, ask, p) = (if 1 / 2 \<le> prob then (YES_UP, tc_pm_yes_ask ctx, prob) else (YES_DOWN, tc_pm_no_ask ctx, 1 - prob))"
      "decide_side s ctx delta dbg sigma prob sd ask p = (d, s')"
  using assms unfolding oracle_should_enter_def
  by (auto simp: Let_def bind_r_eq_Inr not_less not_le split: if_splits intro: that)

text \<open>C26. The strategy enters only with an edge. When it enters, the tick is inside the entry window, the market has
  not been entered before, the prices are positive, there are enough ticks and shadow mode is off. The volatility is the root of the exponentially
  weighted mean square of the log returns of those ticks and is positive; the chance of an up move is the normal distribution
  of the relative distance of the fair price from the opening price over the volatility times the root of the time left (with no time left the
  sign of the distance decides). The flow of orders does not disagree; the side is up exactly when the fair price is not below the opening
  price, its chance (the chance of the up move or its complement) is at least one half, its ask lies in (0, 1) below the ceiling, and chance minus ask
  minus the fee reaches the threshold. The market is then marked as entered. Any other decision names no side and changes
  nothing. The function fails only for a basis of zero without a basket.\<close>

theorem oracle_entry_has_edge:
  assumes erf: "\<And>x. \<bar>erf x\<bar> \<le> 1" "\<And>x. 0 \<le> erf x \<longleftrightarrow> 0 \<le> x"
    and basis: "ol_cesta s \<noteq> None \<or> ol_usdt_basis_phase0 s \<noteq> 0"
    and tau: "tau = max 0 (tc_window_close_ts ctx - tc_ts ctx)"
    and vol: "vol = sqrt (max (\<Sum>i<length (window_spots s ctx) - 1. (1 - ol_ewma_lambda s) * ol_ewma_lambda s ^ (length (window_spots s ctx) - 2 - i) *
      (ln (window_spots s ctx ! Suc i / window_spots s ctx ! i))\<^sup>2) 0)"
  shows "\<exists>d s'. oracle_should_enter erf ctx s = Inr (d, s') \<and>
    (if dc_action d = ENTER
     then (\<exists>price dbg delta chance p ask. fair_price s ctx = Inr (price, dbg) \<and>
        (ol_cesta s = None \<longrightarrow> price = tc_spot_price ctx / ol_usdt_basis_phase0 s) \<and>
        ol_entry_start_s s \<le> tc_t_in_window ctx \<and> tc_t_in_window ctx \<le> ol_entry_end_s s \<and>
        tc_market_slug ctx \<notin> set (ol_per_window_entered s) \<and> 0 < tc_open_price ctx \<and> 0 < tc_spot_price ctx \<and>
        ol_sigma_min_ticks s \<le> int (length (window_spots s ctx)) \<and> 0 < vol \<and>
        delta = (price - tc_open_price ctx) / tc_open_price ctx \<and>
        chance = (if tau = 0 then (if 0 < delta then 1 else if delta < 0 then 0 else 1 / 2)
                  else (1 + erf (delta / (vol * sqrt tau) / sqrt 2)) / 2) \<and>
        \<not> ofi_disagrees s ctx delta \<and> \<not> ol_shadow s \<and>
        (dc_side d, ask, p) = (if tc_open_price ctx \<le> price then (YES_UP, tc_pm_yes_ask ctx, chance) else (YES_DOWN, tc_pm_no_ask ctx, 1 - chance)) \<and>
        1 / 2 \<le> p \<and> p \<le> 1 \<and> 0 < ask \<and> ask < 1 \<and> ask \<le> ol_max_entry_price s \<and>
        ol_ev_threshold s \<le> p - ask - (ol_fee_a s + ol_fee_b s * 4 * ask * (1 - ask))) \<and>
        s' = s\<lparr>ol_per_window_entered := List.insert (tc_market_slug ctx) (ol_per_window_entered s)\<rparr>
     else dc_side d = NONE \<and> s' = s)"
  (is "\<exists>d s'. _ \<and> (if _ then (\<exists>price dbg delta chance p ask. ?gates price dbg delta chance p ask d) \<and> s' = ?marked else _)")
proof -
  have "\<exists>r. oracle_should_enter erf ctx s = Inr r"
    using basis by (auto simp: oracle_should_enter_def fair_price_def Let_def split: option.split prod.split)
  then obtain d s' where run: "oracle_should_enter erf ctx s = Inr (d, s')" by auto
  then show ?thesis
  proof (cases rule: oracle_should_enter_cases)
    case skip
    with run show ?thesis by auto
  next
    case (side price dbg delta sigma prob sd ask p)
    have up: "1 / 2 \<le> prob \<longleftrightarrow> tc_open_price ctx \<le> price"
      unfolding side(11) p_up_half [OF erf(2)] using side(4) by (simp add: side(7) zero_le_divide_iff)
    have range: "0 \<le> prob \<and> prob \<le> 1" using p_up_range [OF erf(1)] side(11) by simp
    have p: "1 / 2 \<le> p \<and> p \<le> 1" and ask: "(sd, ask, p) = (if tc_open_price ctx \<le> price then (YES_UP, tc_pm_yes_ask ctx, prob) else (YES_DOWN, tc_pm_no_ask ctx, 1 - prob))"
      using side(13) range up by (auto split: if_splits)
    have vol': "vol = sigma"
      using sigma_ewma_closed [OF window_spots_pos [OF side(5)]] side(9,10) by (simp add: vol ewma_variance_def)
    have "tau_of ctx = tau" "0 \<le> tau" by (simp_all add: tau tau_of_def)
    then have prob: "prob = (if tau = 0 then (if 0 < delta then 1 else if delta < 0 then 0 else 1 / 2)
        else (1 + erf (delta / (vol * sqrt tau) / sqrt 2)) / 2)"
      using side(10) by (simp add: side(11) p_up_def norm_cdf_def vol' add_divide_distrib)
    have price: "ol_cesta s = None \<longrightarrow> price = tc_spot_price ctx / ol_usdt_basis_phase0 s"
      using side(6) basis by (auto simp: fair_price_def)
    show ?thesis
    proof (cases "dc_action d = ENTER")
      case False
      with decide_side_skip [OF side(14)] run show ?thesis by simp
    next
      case enter: True
      note step = decide_side_enter [OF side(14) enter]
      then have "(dc_side d, ask, p) = (if tc_open_price ctx \<le> price then (YES_UP, tc_pm_yes_ask ctx, prob) else (YES_DOWN, tc_pm_no_ask ctx, 1 - prob))"
        using ask by simp
      moreover have "ol_ev_threshold s \<le> p - ask - (ol_fee_a s + ol_fee_b s * 4 * ask * (1 - ask))"
        using step by (simp add: dynamic_fee_def)
      moreover note side(1-8,12) p step prob price side(10) [folded vol']
      ultimately have gates: "?gates price dbg delta prob p ask d" by (intro conjI) (elim conjE, assumption)+
      have "\<exists>price dbg delta chance p ask. ?gates price dbg delta chance p ask d" by ((rule exI)+, rule gates)
      moreover have "s' = ?marked" using step by blast
      ultimately have "(\<exists>price dbg delta chance p ask. ?gates price dbg delta chance p ask d) \<and> s' = ?marked" ..
      with run enter show ?thesis by (intro exI [of _ d] exI [of _ s']) (simp only: if_True simp_thms)
    qed
  qed
qed

lemma oracle_strategy_decision:
  assumes "sg_should_enter (oracle_strategy erf) ctx s = (d, s')" "dc_action d = ENTER"
  shows "oracle_should_enter erf ctx s = Inr (d, s')"
  using assms by (auto simp: oracle_strategy_def split: sum.splits)

lemma oracle_enter_marks:
  assumes "oracle_should_enter erf ctx s = Inr (d, s')" "dc_action d = ENTER"
  shows "tc_market_slug ctx \<notin> set (ol_per_window_entered s) \<and> \<not> ol_shadow s \<and>
    s' = s\<lparr>ol_per_window_entered := List.insert (tc_market_slug ctx) (ol_per_window_entered s)\<rparr> \<and>
    (\<exists>ev. map_of (dc_signal_features d) ''ev_net'' = Some (JNum ev) \<and> ol_ev_threshold s \<le> ev)"
  using assms(1)
proof (cases rule: oracle_should_enter_cases)
  case (side price dbg delta sigma prob sd ask p)
  with decide_side_enter [OF side(14) assms(2)] show ?thesis by blast
qed (use assms(2) in simp)

lemma oracle_skip_keeps:
  assumes "sg_should_enter (oracle_strategy erf) ctx s = (d, s')" "dc_action d \<noteq> ENTER"
  shows "s' = s"
proof (cases "oracle_should_enter erf ctx s")
  case (Inr r)
  with assms(1) have "oracle_should_enter erf ctx s = Inr (d, s')" by (simp add: oracle_strategy_def)
  then show ?thesis
  proof (cases rule: oracle_should_enter_cases)
    case (side price dbg delta sigma prob sd ask p)
    with decide_side_skip [OF side(14) assms(2)] show ?thesis by simp
  qed simp
qed (use assms in \<open>simp add: oracle_strategy_def\<close>)

interpretation lag: one_shot "sg_should_enter (oracle_strategy erf)" "\<lambda>s. set (ol_per_window_entered s)" for erf
proof
  fix ctx s d s' assume "sg_should_enter (oracle_strategy erf) ctx s = (d, s')" "dc_action d = ENTER"
  then show "tc_market_slug ctx \<notin> set (ol_per_window_entered s) \<and>
      set (ol_per_window_entered s') = insert (tc_market_slug ctx) (set (ol_per_window_entered s))"
    using oracle_enter_marks [OF oracle_strategy_decision] by fastforce
next
  fix ctx s d s' assume "sg_should_enter (oracle_strategy erf) ctx s = (d, s')" "dc_action d \<noteq> ENTER"
  then show "set (ol_per_window_entered s') = set (ol_per_window_entered s)" using oracle_skip_keeps by blast
qed

lemma shadow_never_enters: "ol_shadow s \<Longrightarrow> entry_slugs (sg_should_enter (oracle_strategy erf)) ctxs s = []"
proof (induction ctxs arbitrary: s)
  case (Cons ctx ctxs)
  obtain d s' where ds: "sg_should_enter (oracle_strategy erf) ctx s = (d, s')" by fastforce
  then have "dc_action d \<noteq> ENTER" using oracle_enter_marks [OF oracle_strategy_decision [OF ds]] Cons.prems by blast
  with oracle_skip_keeps [OF ds] ds Cons show ?case by simp
qed simp

text \<open>Whatever ticks arrive in whatever order, the strategy enters each market at most once between two starts and
  never one it had entered before; in shadow mode it enters none.\<close>

theorem oracle_enters_each_market_once:
  "distinct (entry_slugs (sg_should_enter (oracle_strategy erf)) ctxs s) \<and>
   set (entry_slugs (sg_should_enter (oracle_strategy erf)) ctxs s) \<inter> set (ol_per_window_entered s) = {} \<and>
   entry_slugs (sg_should_enter (oracle_strategy erf)) ctxs (new_oracle_lag p None ce) = []"
  using lag.entries_distinct [of erf ctxs s] shadow_never_enters [of "new_oracle_lag p None ce"]
  by (simp add: new_oracle_lag_def)

section \<open>A worked example\<close>

definition ex_oracle :: oracle_lag where
  "ex_oracle = new_oracle_lag [(''sigma_min_ticks'', 2)] (Some False) None"

definition ex_oracle_ctx :: tick_context where
  "ex_oracle_ctx = with_recent (ex_core\<lparr>tc_ts := 290, tc_t_in_window := 290, tc_spot_price := 101\<rparr>) [ex_core\<lparr>tc_ts := 289\<rparr>]"

lemma ex_oracle_ctx_simps:
  "tc_ts ex_oracle_ctx = 290" "tc_t_in_window ex_oracle_ctx = 290" "tc_spot_price ex_oracle_ctx = 101" "tc_open_price ex_oracle_ctx = 100"
  "tc_window_close_ts ex_oracle_ctx = 300" "tc_pm_yes_ask ex_oracle_ctx = 11 / 20" "tc_market_slug ex_oracle_ctx = ''m''"
  "tc_recent_ticks ex_oracle_ctx = [ex_core\<lparr>tc_ts := 289\<rparr>]"
  by (simp_all add: ex_oracle_ctx_def with_recent_def ex_core_def tick_core.defs tick_context.defs)

lemma ex_oracle_simps:
  "ol_entry_start_s ex_oracle = 285" "ol_entry_end_s ex_oracle = 297" "ol_sigma_lookback_s ex_oracle = 90" "ol_sigma_min_ticks ex_oracle = 2"
  "ol_ewma_lambda ex_oracle = 94 / 100" "ol_fee_a ex_oracle = 5 / 1000" "ol_fee_b ex_oracle = 25 / 1000" "ol_ev_threshold ex_oracle = 5 / 1000"
  "ol_max_entry_price ex_oracle = 1" "\<not> ol_ofi_enabled ex_oracle" "ol_usdt_basis_phase0 ex_oracle = 1" "ol_cesta ex_oracle = None"
  "\<not> ol_shadow ex_oracle" "ol_per_window_entered ex_oracle = []"
  by (simp_all add: ex_oracle_def new_oracle_lag_def dict_getd_def py_int_def)

lemma ex_oracle_spots: "window_spots ex_oracle ex_oracle_ctx = [100, 101]"
  by (simp add: window_spots_def spots_since_def ex_oracle_ctx_simps ex_oracle_simps ex_core_def)

lemma ex_oracle_sigma: "0 < sigma_ewma [100, 101] (94 / 100)"
  by (simp add: sigma_ewma_def Let_def zero_less_mult_iff ln_gt_zero)

lemma ex_oracle_price: "fair_price ex_oracle ex_oracle_ctx = Inr (101, [])"
  by (simp add: fair_price_def ex_oracle_simps ex_oracle_ctx_simps)

lemma ex_oracle_p_up: "0 < sigma \<Longrightarrow> p_up sgn (1 / 100) 10 sigma = 1"
  by (simp add: p_up_def norm_cdf_def sgn_if)

lemma ex_oracle_enters:
  "\<exists>d s'. oracle_should_enter sgn ex_oracle_ctx ex_oracle = Inr (d, s') \<and> dc_action d = ENTER"
proof -
  have "\<not> ofi_disagrees ex_oracle ex_oracle_ctx x" for x by (simp add: ofi_disagrees_def ex_oracle_simps)
  moreover have "tau_of ex_oracle_ctx = 10" by (simp add: tau_of_def ex_oracle_ctx_simps)
  ultimately have "oracle_should_enter sgn ex_oracle_ctx ex_oracle =
      Inr (decide_side ex_oracle ex_oracle_ctx (1 / 100) [] (sigma_ewma [100, 101] (94 / 100)) 1 YES_UP (11 / 20) 1)"
    using ex_oracle_sigma
    by (simp add: oracle_should_enter_def ex_oracle_price ex_oracle_spots ex_oracle_ctx_simps ex_oracle_simps ex_oracle_p_up Let_def)
  moreover have "dc_action (fst (decide_side ex_oracle ex_oracle_ctx delta [] sigma 1 YES_UP (11 / 20) 1)) = ENTER" for delta sigma
    by (simp add: decide_side_def ex_oracle_simps dynamic_fee_def mk_decision_def Let_def)
  ultimately show ?thesis by (metis prod.collapse)
qed

theorem oracle_entry_has_edge_witness:
  "\<exists>d s'. oracle_should_enter sgn ex_oracle_ctx ex_oracle = Inr (d, s') \<and> dc_action d = ENTER \<and> dc_side d = YES_UP"
proof -
  obtain d s' where run: "oracle_should_enter sgn ex_oracle_ctx ex_oracle = Inr (d, s')" "dc_action d = ENTER"
    using ex_oracle_enters by blast
  have "\<bar>sgn x :: real\<bar> \<le> 1" "(0 \<le> sgn x) = (0 \<le> (x :: real))" for x by (auto simp: sgn_if)
  from oracle_entry_has_edge [OF this _ refl refl, of ex_oracle ex_oracle_ctx] have "dc_side d = YES_UP"
    unfolding run(1) ex_oracle_price using run(2) by (auto simp: ex_oracle_ctx_simps ex_oracle_simps)
  with run show ?thesis by blast
qed

definition ex_cesta :: CestaProvider where
  "ex_cesta = new_cesta [(0, 100), (60, 102)] [(0, 1), (60, 102 / 100)] None None None None"

lemma ex_cesta_venues: "venues ex_cesta 100 102 = [(40 / 100, 100), (25 / 100, 102)]"
  by (simp add: venues_def venue_def binance_in_usd_def ex_cesta_def new_cesta_def basis_at_def cesta_lookup_def in_usd_def
      normalised_def default_weights_def MAX_STALENESS_S_def Let_def)

theorem fair_price_between_venues_witness:
  "100 \<le> fst (p_spot ex_cesta 100 102) \<and> fst (p_spot ex_cesta 100 102) \<le> 102 \<and> sum_list (weights_of (ce_w ex_cesta)) = 1"
  using fair_price_between_venues [of default_weights ex_cesta 100 102]
  by (simp add: ex_cesta_venues)
    (simp add: ex_cesta_def new_cesta_def weights_of_def default_weights_def)

theorem basis_correction_widens_the_gap_witness:
  "\<bar>100 - 102\<bar> < \<bar>binance_in_usd (new_cesta [] [(0, 102 / 100)] None None None None) 0 100 - 102\<bar>"
  using basis_correction_widens_the_gap [of 100 102 "102 / 100" "[(0, 102 / 100)]" 0 "new_cesta [] [(0, 102 / 100)] None None None None"]
  by (simp add: implicit_basis_def BASIS_MIN_def BASIS_MAX_def new_cesta_def)

section \<open>The strategy in a replay\<close>

lemma oracle_entries_satisfy:
  "entries_satisfy (\<lambda>s. ol_ev_threshold s = theta) (\<lambda>sd fs. \<exists>ev. map_of fs ''ev_net'' = Some (JNum ev) \<and> theta \<le> ev) (oracle_strategy erf)"
  unfolding entries_satisfy_def
proof (intro allI impI)
  fix ctx s d s' assume th: "ol_ev_threshold s = theta" and ds: "sg_should_enter (oracle_strategy erf) ctx s = (d, s')"
  show "ol_ev_threshold s' = theta \<and> (dc_action d = ENTER \<longrightarrow> (\<exists>ev. map_of (dc_signal_features d) ''ev_net'' = Some (JNum ev) \<and> theta \<le> ev))"
  proof (cases "dc_action d = ENTER")
    case True
    from oracle_enter_marks [OF oracle_strategy_decision [OF ds True] True] th show ?thesis by auto
  next
    case False
    with oracle_skip_keeps [OF ds False] th show ?thesis by simp
  qed
qed

text \<open>Replayed on history, every trade of the strategy was entered with an expected value after fees of at least the
  configured threshold, and that value is recorded with the trade.\<close>

theorem oracle_trades_have_edge:
  "list_all (\<lambda>t. \<exists>ev. map_of (bt_signal_features t) ''ev_net'' = Some (JNum ev) \<and> ol_ev_threshold s0 \<le> ev)
     (res_trades (run_backtest (oracle_strategy erf) markets from_ts to_ts P risk cfg s0))"
  unfolding list_all_iff
  by (intro ballI run_backtest_sat [OF oracle_entries_satisfy]) (simp_all add: oracle_strategy_def oracle_on_start_def)

end
