(* ===== verification/Afml.thy ===== *)
theory Afml
  imports Indicators Slug
begin

text \<open>
  \<open>engine/afml_features.py\<close> and \<open>engine/monte_carlo.py\<close>: the features the trend strategy reads from the spot
  series of a market. Arrays are lists. A logarithm of a price that is not positive is not finite in numpy and
  the differences it takes part in are dropped by the \<open>isfinite\<close> filters, which is what \<open>log_returns\<close> says; no
  other value of the module can be infinite, so the final sanitising pass is the identity. Window sizes, lags and
  numbers of simulations are positive, as in every configuration of the repository.
\<close>

section \<open>Fractional differentiation\<close>

fun frac_weights :: "real \<Rightarrow> nat \<Rightarrow> real list" where
  "frac_weights d 0 = [1]"
| "frac_weights d (Suc k) = (let w = frac_weights d k in w @ [- last w * (d - real (Suc k) + 1) / real (Suc k)])"

definition frac_diff_weights :: "real \<Rightarrow> nat \<Rightarrow> real list" where
  "frac_diff_weights d n = rev (frac_weights d (n - 1))"

definition dot :: "real list \<Rightarrow> real list \<Rightarrow> real" where
  "dot xs ys = sum_list (map2 (*) xs ys)"

definition frac_diff_series :: "real list \<Rightarrow> real \<Rightarrow> nat \<Rightarrow> real" where
  "frac_diff_series arr d n =
     (if length arr < n then 0 else dot (frac_diff_weights d n) (py_tail n arr))"

section \<open>Returns and their entropy\<close>

fun log_returns :: "real list \<Rightarrow> real list" where
  "log_returns (a # b # xs) = (if a > 0 \<and> b > 0 then [ln b - ln a] else []) @ log_returns (b # xs)"
| "log_returns _ = []"

text \<open>\<open>np.histogram\<close> on \<open>bins\<close> equal bins between \<open>lo\<close> and \<open>hi\<close>, the last one closed.\<close>

definition bin_index :: "nat \<Rightarrow> real \<Rightarrow> real \<Rightarrow> real \<Rightarrow> nat" where
  "bin_index bins lo hi x = min (bins - 1) (nat \<lfloor>(x - lo) / (hi - lo) * real bins\<rfloor>)"

definition histogram :: "nat \<Rightarrow> real \<Rightarrow> real \<Rightarrow> real list \<Rightarrow> nat list" where
  "histogram bins lo hi arr = map (\<lambda>i. length (filter (\<lambda>x. bin_index bins lo hi x = i) arr)) [0..<bins]"

definition shannon_entropy :: "real list \<Rightarrow> nat \<Rightarrow> real" where
  "shannon_entropy arr bins =
     (if length arr < 2 then 0
      else (let lo = Min (set arr); hi = Max (set arr)
            in if hi - lo < 1 / 10 ^ 12 then 0
               else (let hist = histogram bins lo hi arr; n = sum_list hist
                     in if n = 0 then 0
                        else (let p = filter (\<lambda>x. x > 0) (map (\<lambda>h. real h / real n) hist)
                              in - sum_list (map (\<lambda>x. x * ln x) p)))))"

definition returns_entropy :: "real list \<Rightarrow> nat \<Rightarrow> real" where
  "returns_entropy prices bins = (if length prices < 3 then 0 else shannon_entropy (log_returns prices) bins)"

section \<open>Order book\<close>

definition microprice :: "real \<Rightarrow> real \<Rightarrow> real \<Rightarrow> real \<Rightarrow> real" where
  "microprice bid ask bid_depth ask_depth =
     (let n = bid_depth + ask_depth
      in if n \<le> 0 \<or> bid \<le> 0 \<or> ask \<le> 0 then (if bid > 0 \<and> ask > 0 then (bid + ask) / 2 else 0)
         else ask * (bid_depth / n) + bid * (ask_depth / n))"

definition book_pressure :: "real \<Rightarrow> real \<Rightarrow> real" where
  "book_pressure bid_depth ask_depth =
     (let n = bid_depth + ask_depth in if n \<le> 0 then 0 else (bid_depth - ask_depth) / n)"

section \<open>Cumulative sums and autocorrelation\<close>

fun cusum_loop :: "real \<Rightarrow> nat \<Rightarrow> real \<Rightarrow> real \<Rightarrow> real list \<Rightarrow> nat list" where
  "cusum_loop threshold i pos neg [] = []"
| "cusum_loop threshold i pos neg (x # xs) =
     (let pos = max 0 (pos + x); neg = min 0 (neg + x)
      in if pos > threshold then i # cusum_loop threshold (Suc i) 0 neg xs
         else if neg < - threshold then i # cusum_loop threshold (Suc i) pos 0 xs
         else cusum_loop threshold (Suc i) pos neg xs)"

definition cusum_events :: "real list \<Rightarrow> real \<Rightarrow> nat list" where
  "cusum_events arr threshold = cusum_loop threshold 0 0 0 arr"

definition cusum_active :: "real list \<Rightarrow> real \<Rightarrow> nat" where
  "cusum_active arr threshold =
     (let events = cusum_events arr threshold
      in if events = [] then 0 else if last events = length arr - 1 then 1 else 0)"

definition mean_of :: "real list \<Rightarrow> real" where
  "mean_of xs = sum_list xs / real (length xs)"

definition centered :: "real list \<Rightarrow> real list" where
  "centered xs = map (\<lambda>x. x - mean_of xs) xs"

definition autocorr :: "real list \<Rightarrow> nat \<Rightarrow> real" where
  "autocorr arr lag =
     (if length arr \<le> lag + 1 then 0
      else (let va = centered (take (length arr - lag) arr); vb = centered (drop lag arr);
                denom = sqrt (dot va va * dot vb vb)
            in if denom \<le> 0 then 0 else dot va vb / denom))"

definition ar_key :: "nat \<Rightarrow> string" where
  "ar_key lag = ''ar_'' @ show_int (int lag)"

fun dict_of :: "('k \<times> 'v) list \<Rightarrow> ('k, 'v) dict \<Rightarrow> ('k, 'v) dict" where
  "dict_of [] d = d"
| "dict_of ((k, v) # kvs) d = dict_of kvs (AList.update k v d)"

definition returns_autocorr_multi :: "real list \<Rightarrow> nat list \<Rightarrow> py_error + (string, real) dict" where
  "returns_autocorr_multi arr lags =
     (if lags = [] then Inl (ValueError ''max() arg is an empty sequence'')
      else if length arr < Max (set lags) + 2 then Inr (dict_of (map (\<lambda>lag. (ar_key lag, 0)) lags) [])
      else Inr (dict_of (map (\<lambda>lag. (ar_key lag, autocorr (log_returns arr) lag)) lags) []))"

section \<open>The feature dictionary\<close>

record afml_params =
  ap_frac_d :: real
  ap_frac_size :: nat
  ap_entropy_lookback :: nat
  ap_cusum_threshold :: real
  ap_cusum_lookback :: nat
  ap_ar_lags :: "nat list"

definition last_n :: "nat \<Rightarrow> 'a list \<Rightarrow> 'a list" where
  "last_n n xs = (if length xs \<ge> n then py_tail n xs else xs)"

definition cusum_features :: "real list \<Rightarrow> real \<Rightarrow> nat \<Rightarrow> real \<times> real" where
  "cusum_features arr threshold lookback =
     (if length arr \<ge> 3
      then (let cwindow = last_n lookback (log_returns arr); events = cusum_events cwindow threshold
            in (if events \<noteq> [] \<and> int (last events) = int (length cwindow) - 1 then 1 else 0,
                real (length events) / real (max 1 (length cwindow))))
      else (0, 0))"

definition compute_afml_features :: "real list \<Rightarrow> real \<Rightarrow> real \<Rightarrow> real \<Rightarrow> real \<Rightarrow> afml_params \<Rightarrow> py_error + (string, real) dict" where
  "compute_afml_features arr pm_yes_bid pm_yes_ask pm_depth_yes pm_depth_no P =
     (let (active, rate) = cusum_features arr (ap_cusum_threshold P) (ap_cusum_lookback P);
          out = [(''fracdiff'', if length arr \<ge> ap_frac_size P then frac_diff_series arr (ap_frac_d P) (ap_frac_size P) else 0),
                 (''rets_entropy'', returns_entropy (last_n (ap_entropy_lookback P) arr) 10),
                 (''microprice'', microprice pm_yes_bid pm_yes_ask pm_depth_yes pm_depth_no),
                 (''book_pressure'', book_pressure pm_depth_yes pm_depth_no),
                 (''cusum_active'', active), (''cusum_event_rate'', rate)]
      in bind_r (returns_autocorr_multi arr (ap_ar_lags P)) (\<lambda>ac. Inr (dict_of ac out)))"

section \<open>The bootstrap\<close>

text \<open>The draws of \<open>rng.choice\<close>: for each simulation and step the index of the drawn return.\<close>

definition mc_bootstrap_prob_up :: "(nat \<Rightarrow> nat \<Rightarrow> nat) \<Rightarrow> real list \<Rightarrow> real \<Rightarrow> real \<Rightarrow> nat \<Rightarrow> nat \<Rightarrow> real" where
  "mc_bootstrap_prob_up choice spot_series current_price strike horizon_s n_sims =
     (if length spot_series < 31 \<or> current_price \<le> 0 \<or> strike \<le> 0 then 1 / 2
      else (let arr = filter (\<lambda>x. x > 0) spot_series
            in if length arr < 31 then 1 / 2
               else (let returns = log_returns arr
                     in if length returns < 30 then 1 / 2
                        else (let final = (\<lambda>i. exp (ln current_price + sum_list (map (\<lambda>j. returns ! choice i j) [0..<horizon_s])))
                              in real (length (filter (\<lambda>i. final i > strike) [0..<n_sims])) / real n_sims))))"

section \<open>The weights are binomial coefficients\<close>

lemma length_frac_weights [simp]: "length (frac_weights d k) = Suc k"
  by (induction k) (simp_all add: Let_def)

lemma frac_weights_not_Nil [simp]: "frac_weights d k \<noteq> []"
  by (metis length_frac_weights length_0_conv nat.distinct(1))

lemma frac_weights_gchoose: "frac_weights d k = map (\<lambda>i. (- 1) ^ i * (d gchoose i)) [0..<Suc k]"
proof (induction k)
  case (Suc k)
  have "(d - real k) * (d gchoose k) = real (Suc k) * (d gchoose Suc k)"
    using gbinomial_mult_1 [of d k] by (simp add: algebra_simps)
  then have "(d gchoose Suc k) = (d - real k) * (d gchoose k) / real (Suc k)" by (simp add: field_simps)
  then have "- ((- 1) ^ k * (d gchoose k)) * (d - real (Suc k) + 1) / real (Suc k) = (- 1) ^ Suc k * (d gchoose Suc k)"
    by (simp add: algebra_simps)
  with Suc show ?case by (simp add: Let_def)
qed simp

section \<open>Ranges\<close>

lemma dot_Cons [simp]: "dot (x # xs) (y # ys) = x * y + dot xs ys"
  by (simp add: dot_def)

lemma dot_Nil [simp]: "dot [] ys = 0" "dot xs [] = 0"
  by (simp_all add: dot_def)

lemma dot_self_nonneg: "0 \<le> dot xs xs"
  by (induction xs) simp_all

lemma dot_line: "length xs = length ys \<Longrightarrow> dot (map2 (\<lambda>x y. x * t - y) xs ys) (map2 (\<lambda>x y. x * t - y) xs ys) =
  dot xs xs * t\<^sup>2 - 2 * dot xs ys * t + dot ys ys"
  by (induction xs ys rule: list_induct2) (simp_all add: algebra_simps power2_eq_square)

lemma dot_Cauchy_Schwarz:
  assumes "length xs = length ys"
  shows "(dot xs ys)\<^sup>2 \<le> dot xs xs * dot ys ys"
proof -
  have line: "0 \<le> dot xs xs * t\<^sup>2 - 2 * dot xs ys * t + dot ys ys" for t
    using dot_self_nonneg [of "map2 (\<lambda>x y. x * t - y) xs ys"] dot_line [OF assms] by simp
  show ?thesis
  proof (cases "dot xs xs = 0")
    case True
    have "dot xs ys = 0"
    proof (rule ccontr)
      assume "dot xs ys \<noteq> 0"
      with line [of "(dot ys ys + 1) / (2 * dot xs ys)"] True show False by simp
    qed
    with True show ?thesis by simp
  next
    case False
    then have pos: "0 < dot xs xs" using dot_self_nonneg [of xs] by simp
    have "dot xs xs * (dot xs ys / dot xs xs)\<^sup>2 - 2 * dot xs ys * (dot xs ys / dot xs xs) + dot ys ys =
        dot ys ys - (dot xs ys)\<^sup>2 / dot xs xs"
      using pos by (simp add: power2_eq_square)
    with line [of "dot xs ys / dot xs xs"] have "(dot xs ys)\<^sup>2 / dot xs xs \<le> dot ys ys" by linarith
    with pos show ?thesis by (simp add: pos_divide_le_eq mult.commute)
  qed
qed

lemma autocorr_range: "\<bar>autocorr arr lag\<bar> \<le> 1"
proof -
  let ?va = "centered (take (length arr - lag) arr)" and ?vb = "centered (drop lag arr)"
  have "length ?va = length ?vb" by (simp add: centered_def)
  then have "(dot ?va ?vb)\<^sup>2 \<le> dot ?va ?va * dot ?vb ?vb" by (rule dot_Cauchy_Schwarz)
  then have "\<bar>dot ?va ?vb\<bar> \<le> sqrt (dot ?va ?va * dot ?vb ?vb)" by (metis real_sqrt_abs real_sqrt_le_iff)
  then show ?thesis by (auto simp: autocorr_def Let_def abs_divide divide_le_eq_1)
qed

lemma entropy_term:
  fixes x N :: real
  assumes "0 < x" "0 < N"
  shows "- (x * ln x) \<le> x * ln N + 1 / N - x"
proof -
  have "ln (1 / (x * N)) \<le> 1 / (x * N) - 1" using assms by (intro ln_le_minus_one) simp
  then have "x * ln (1 / (x * N)) \<le> x * (1 / (x * N) - 1)" using assms(1) by (intro mult_left_mono) auto
  with assms show ?thesis by (simp add: ln_div ln_mult algebra_simps)
qed

lemma entropy_le:
  fixes ps :: "real list"
  assumes "\<forall>x \<in> set ps. 0 < x" "0 < N"
  shows "- sum_list (map (\<lambda>x. x * ln x) ps) \<le> sum_list ps * ln N + real (length ps) / N - sum_list ps"
  using assms(1)
proof (induction ps)
  case (Cons x ps)
  with entropy_term [of x N] assms(2) show ?case by (simp add: algebra_simps add_divide_distrib)
qed simp

lemma sum_list_filter_pos: "(\<And>x. x \<in> set xs \<Longrightarrow> 0 \<le> x) \<Longrightarrow> sum_list (filter (\<lambda>x. x > 0) xs) = sum_list (xs :: real list)"
  by (induction xs) (auto simp: order.antisym not_less)

lemma sum_list_fractions: "sum_list (map (\<lambda>h. real h / n) hs) = real (sum_list hs) / n"
  by (induction hs) (simp_all add: add_divide_distrib)

lemma shannon_entropy_range: "0 < bins \<Longrightarrow> 0 \<le> shannon_entropy arr bins \<and> shannon_entropy arr bins \<le> ln (real bins)"
proof (cases "length arr < 2 \<or> Max (set arr) - Min (set arr) < 1 / 10 ^ 12 \<or> sum_list (histogram bins (Min (set arr)) (Max (set arr)) arr) = 0")
  case True
  assume "0 < bins"
  then have "0 \<le> ln (real bins)" by simp
  with True show ?thesis by (auto simp: shannon_entropy_def Let_def)
next
  case False
  assume bins: "0 < bins"
  let ?hist = "histogram bins (Min (set arr)) (Max (set arr)) arr"
  let ?n = "sum_list ?hist"
  let ?ps = "filter (\<lambda>x. x > 0) (map (\<lambda>h. real h / real ?n) ?hist)"
  have eq: "shannon_entropy arr bins = - sum_list (map (\<lambda>x. x * ln x) ?ps)" using False unfolding shannon_entropy_def Let_def by (simp only: de_Morgan_disj if_False)
  have n: "0 < ?n" using False by blast
  have "real h / real ?n \<le> 1" if "h \<in> set ?hist" for h
    using member_le_sum_list [OF that] n by (simp add: divide_le_eq_1)
  then have unit: "0 < x \<and> x \<le> 1" if "x \<in> set ?ps" for x using that by auto
  then have "x * ln x \<le> 0" if "x \<in> set ?ps" for x using that by (simp add: mult_nonneg_nonpos less_imp_le)
  then have lower: "sum_list (map (\<lambda>x. x * ln x) ?ps) \<le> 0" by (intro sum_list_nonpos) auto
  have one: "sum_list ?ps = 1"
  proof -
    have "sum_list ?ps = sum_list (map (\<lambda>h. real h / real ?n) ?hist)" by (rule sum_list_filter_pos) auto
    also have "\<dots> = real ?n / real ?n" by (rule sum_list_fractions)
    finally show ?thesis using n by (metis divide_self of_nat_0_less_iff less_irrefl)
  qed
  have few: "real (length ?ps) / real bins \<le> 1"
    using bins length_filter_le [of "\<lambda>x. x > 0" "map (\<lambda>h. real h / real ?n) ?hist"] by (simp add: histogram_def divide_le_eq_1)
  have "- sum_list (map (\<lambda>x. x * ln x) ?ps) \<le> sum_list ?ps * ln (real bins) + real (length ?ps) / real bins - sum_list ?ps"
    by (rule entropy_le) (use unit bins in \<open>blast, simp\<close>)
  with lower few show ?thesis unfolding eq one by linarith
qed

lemma log_returns_length: "length (log_returns xs) \<le> length xs - 1"
  by (induction xs rule: log_returns.induct) auto

lemma microprice_between:
  assumes "0 < bid" "bid \<le> ask" "0 \<le> bid_depth" "0 \<le> ask_depth"
  shows "bid \<le> microprice bid ask bid_depth ask_depth \<and> microprice bid ask bid_depth ask_depth \<le> ask"
proof (cases "bid_depth + ask_depth \<le> 0")
  case False
  then have n: "0 < bid_depth + ask_depth" by simp
  have eq: "microprice bid ask bid_depth ask_depth = (ask * bid_depth + bid * ask_depth) / (bid_depth + ask_depth)"
    using assms(1,2) n by (simp add: microprice_def Let_def add_divide_distrib)
  have "bid * bid_depth \<le> ask * bid_depth" "bid * ask_depth \<le> ask * ask_depth" using assms by (auto intro: mult_right_mono)
  then show ?thesis unfolding eq using n by (simp add: pos_le_divide_eq pos_divide_le_eq algebra_simps)
qed (use assms in \<open>simp add: microprice_def Let_def\<close>)

lemma book_pressure_range: "0 \<le> bid_depth \<Longrightarrow> 0 \<le> ask_depth \<Longrightarrow> \<bar>book_pressure bid_depth ask_depth\<bar> \<le> 1"
  by (auto simp: book_pressure_def Let_def abs_divide divide_le_eq_1)

lemma cusum_loop_events:
  "sorted_wrt (<) (cusum_loop threshold i pos neg xs) \<and> set (cusum_loop threshold i pos neg xs) \<subseteq> {i..<i + length xs}"
proof (induction xs arbitrary: i pos neg)
  case (Cons x xs)
  have "sorted_wrt (<) (i # cusum_loop threshold (Suc i) p n xs)" "set (i # cusum_loop threshold (Suc i) p n xs) \<subseteq> {i..<i + length (x # xs)}"
    for p n using Cons [of "Suc i" p n] by auto
  moreover have "set (cusum_loop threshold (Suc i) p n xs) \<subseteq> {i..<i + length (x # xs)}" for p n using Cons [of "Suc i" p n] by auto
  ultimately show ?case using Cons by (simp add: Let_def)
qed simp

lemma cusum_events_length: "length (cusum_events xs threshold) \<le> length xs"
proof -
  have "distinct (cusum_events xs threshold)" "set (cusum_events xs threshold) \<subseteq> {0..<length xs}"
    using cusum_loop_events [of threshold 0 0 0 xs] by (auto simp: cusum_events_def strict_sorted_iff)
  then show ?thesis using card_mono [of "{0..<length xs}" "set (cusum_events xs threshold)"] by (simp add: distinct_card)
qed

lemma cusum_features_range: "fst (cusum_features arr th n) \<in> {0, 1} \<and> 0 \<le> snd (cusum_features arr th n) \<and> snd (cusum_features arr th n) \<le> 1"
proof -
  let ?w = "last_n n (log_returns arr)"
  have "real (length (cusum_events ?w th)) / real (max 1 (length ?w)) \<le> 1"
    using cusum_events_length [of ?w th] by (intro divide_le_eq_1 [THEN iffD2] disjI1) auto
  then show ?thesis by (auto simp: cusum_features_def Let_def)
qed

lemma mc_prob_range: "0 \<le> mc_bootstrap_prob_up choice xs cur strike h n \<and> mc_bootstrap_prob_up choice xs cur strike h n \<le> 1"
proof -
  have "real (length (filter Q [0..<n])) / real n \<le> 1" for Q
    using length_filter_le [of Q "[0..<n]"] by (cases "n = 0") (simp_all add: divide_le_eq_1)
  then show ?thesis by (simp add: mc_bootstrap_prob_up_def Let_def)
qed

section \<open>What the features are\<close>

lemma dot_rev: "length xs = length ys \<Longrightarrow> dot (rev xs) (rev ys) = dot xs ys"
  by (simp add: dot_def zip_rev rev_map [symmetric])

lemma dot_nth: "length xs = length ys \<Longrightarrow> dot xs ys = (\<Sum>i<length xs. xs ! i * ys ! i)"
  by (simp add: dot_def sum_list_sum_nth atLeast0LessThan)

text \<open>Fractional differentiation is the truncated binomial series: on a window of \<open>n\<close> prices the feature is the
  sum of the prices going back in time, the \<open>i\<close>-th weighted with \<open>(-1)^i\<close> times the generalised binomial coefficient
  of the order \<open>d\<close>. With order one it is the last price change.\<close>

theorem frac_diff_is_binomial:
  assumes "0 < n" "n \<le> length arr"
  shows "frac_diff_series arr d n = (\<Sum>i<n. (- 1) ^ i * (d gchoose i) * rev arr ! i) \<and>
    (2 \<le> n \<longrightarrow> frac_diff_series arr 1 n = rev arr ! 0 - rev arr ! 1)"
proof -
  have series: "frac_diff_series arr d n = (\<Sum>i<n. (- 1) ^ i * (d gchoose i) * rev arr ! i)" for d
  proof -
    let ?w = "frac_weights d (n - 1)"
    have len: "length ?w = n" using assms(1) by simp
    have "frac_diff_series arr d n = dot (rev ?w) (rev (take n (rev arr)))"
      using assms by (simp add: frac_diff_series_def frac_diff_weights_def py_tail_def take_rev)
    also have "\<dots> = dot ?w (take n (rev arr))" using len assms(2) by (intro dot_rev) simp
    also have "\<dots> = (\<Sum>i<n. ?w ! i * rev arr ! i)" using len assms(2) by (subst dot_nth) auto
    also have "\<dots> = (\<Sum>i<n. (- 1) ^ i * (d gchoose i) * rev arr ! i)"
      using assms(1) by (intro sum.cong) (simp_all add: frac_weights_gchoose del: upt_Suc)
    finally show ?thesis .
  qed
  have one: "(1 :: real) gchoose i = (if i \<le> 1 then 1 else 0)" for i
  proof -
    have "(1 :: real) gchoose i = of_nat (1 choose i)" using binomial_gbinomial [of 1 i, where 'a = real] by simp
    then show ?thesis by (cases i; cases "i - 1") (auto simp: binomial_eq_0)
  qed
  have "(\<Sum>i<n. (- 1) ^ i * (1 gchoose i) * rev arr ! i) = (\<Sum>i \<in> {0, 1}. (- 1) ^ i * rev arr ! i)" if "2 \<le> n"
    using that unfolding one by (intro sum.mono_neutral_cong_right) auto
  with series show ?thesis by auto
qed

theorem frac_diff_is_binomial_witness: "frac_diff_series [5, 7, 4] 1 2 = - 3"
  using frac_diff_is_binomial [of 2 "[5, 7, 4]" 1] by simp

lemma map_of_dict_of: "map_of (dict_of kvs d) k = (case map_of (rev kvs) k of None \<Rightarrow> map_of d k | Some v \<Rightarrow> Some v)"
proof (induction kvs d rule: dict_of.induct)
  case (2 k' v kvs d)
  then show ?case by (simp add: map_add_def split: option.split)
qed simp

lemma dict_of_values: "(k, v) \<in> set (dict_of kvs d) \<Longrightarrow> (k, v) \<in> set kvs \<union> set d"
  by (induction kvs d rule: dict_of.induct) (use set_dict_update in fastforce)+

lemma ar_features:
  assumes "returns_autocorr_multi arr lags = Inr ac"
  shows "set (keys_of ac) \<subseteq> ar_key ` set lags" "(k, v) \<in> set ac \<Longrightarrow> \<bar>v\<bar> \<le> 1" "lag \<in> set lags \<Longrightarrow> ar_key lag \<in> set (keys_of ac)"
proof -
  obtain f where ac: "ac = dict_of (map (\<lambda>lag. (ar_key lag, f lag)) lags) []" and f: "\<And>lag. \<bar>f lag\<bar> \<le> 1"
  proof (cases "length arr < Max (set lags) + 2")
    case True
    with assms that [of "\<lambda>_. 0"] show ?thesis by (auto simp: returns_autocorr_multi_def split: if_splits)
  next
    case False
    with assms that [of "autocorr (log_returns arr)"] autocorr_range show ?thesis
      by (auto simp: returns_autocorr_multi_def split: if_splits)
  qed
  show "set (keys_of ac) \<subseteq> ar_key ` set lags" unfolding ac using dict_of_values by fastforce
  show "\<bar>v\<bar> \<le> 1" if "(k, v) \<in> set ac" using that dict_of_values f unfolding ac by fastforce
  show "ar_key lag \<in> set (keys_of ac)" if "lag \<in> set lags"
  proof -
    have "map_of (rev (map (\<lambda>lag. (ar_key lag, f lag)) lags)) (ar_key lag) \<noteq> None"
      unfolding map_of_eq_None_iff using that by force
    then have "map_of ac (ar_key lag) \<noteq> None" unfolding ac map_of_dict_of by auto
    then show ?thesis by (simp add: map_of_eq_None_iff)
  qed
qed

lemma ar_key_prefix: "take 3 (ar_key lag) = ''ar_''"
  by (simp add: ar_key_def)

definition in_range :: "(string, real) dict \<Rightarrow> string \<Rightarrow> real \<Rightarrow> real \<Rightarrow> bool" where
  "in_range fs k lo hi \<longleftrightarrow> (case map_of fs k of Some v \<Rightarrow> lo \<le> v \<and> v \<le> hi | None \<Rightarrow> False)"

text \<open>The features of a tick are defined and bounded. With a sane book and at least one lag the features are
  computed without an error; the entropy lies between zero and \<open>ln 10\<close>, the microprice between bid and
  ask, the book pressure and every autocorrelation between minus one and one, the share of cumulative-sum events
  between zero and one, and so does the probability of the bootstrap.\<close>

theorem afml_features_in_range:
  assumes "0 < bid" "bid \<le> ask" "0 \<le> depth_yes" "0 \<le> depth_no" "lag \<in> set (ap_ar_lags P)"
  shows "\<exists>fs. compute_afml_features arr bid ask depth_yes depth_no P = Inr fs \<and>
    in_range fs ''rets_entropy'' 0 (ln 10) \<and> in_range fs ''microprice'' bid ask \<and> in_range fs ''book_pressure'' (- 1) 1 \<and>
    in_range fs ''cusum_event_rate'' 0 1 \<and> in_range fs (ar_key lag) (- 1) 1 \<and>
    0 \<le> mc_bootstrap_prob_up choice arr cur strike h n \<and> mc_bootstrap_prob_up choice arr cur strike h n \<le> 1"
proof -
  have "\<exists>ac. returns_autocorr_multi arr (ap_ar_lags P) = Inr ac" using assms(5) by (auto simp: returns_autocorr_multi_def)
  then obtain ac where ac: "returns_autocorr_multi arr (ap_ar_lags P) = Inr ac" by blast
  obtain active rate where cu: "cusum_features arr (ap_cusum_threshold P) (ap_cusum_lookback P) = (active, rate)" by fastforce
  define out where "out = [(''fracdiff'', if length arr \<ge> ap_frac_size P then frac_diff_series arr (ap_frac_d P) (ap_frac_size P) else 0),
      (''rets_entropy'', returns_entropy (last_n (ap_entropy_lookback P) arr) 10),
      (''microprice'', microprice bid ask depth_yes depth_no), (''book_pressure'', book_pressure depth_yes depth_no),
      (''cusum_active'', active), (''cusum_event_rate'', rate)]"
  have fs: "compute_afml_features arr bid ask depth_yes depth_no P = Inr (dict_of ac out)"
    using ac cu by (simp add: compute_afml_features_def out_def Let_def)
  have keep: "map_of (dict_of ac out) k = map_of out k" if "take 3 k \<noteq> ''ar_''" for k
  proof -
    have "k \<notin> ar_key ` set (ap_ar_lags P)" using that ar_key_prefix by blast
    with ar_features(1) [OF ac] have "map_of (rev ac) k = None" unfolding map_of_eq_None_iff by auto
    then show ?thesis unfolding map_of_dict_of by simp
  qed
  have ar: "in_range (dict_of ac out) (ar_key lag) (- 1) 1"
  proof -
    have "ar_key lag \<in> set (keys_of (rev ac))" using ar_features(3) [OF ac assms(5)] by simp
    then obtain v where v: "map_of (rev ac) (ar_key lag) = Some v" by (metis map_of_eq_None_iff not_None_eq image_set)
    with ar_features(2) [OF ac, of "ar_key lag" v] have "\<bar>v\<bar> \<le> 1" by (auto dest: map_of_SomeD)
    with v show ?thesis by (auto simp: in_range_def map_of_dict_of abs_le_iff)
  qed
  have "returns_entropy xs 10 \<le> ln 10 \<and> 0 \<le> returns_entropy xs 10" for xs
    using shannon_entropy_range [of 10] by (simp add: returns_entropy_def)
  then show ?thesis
    using fs ar mc_prob_range microprice_between [OF assms(1-4)] book_pressure_range [OF assms(3,4)]
      cusum_features_range [of arr "ap_cusum_threshold P" "ap_cusum_lookback P"] cu
    by (intro exI [of _ "dict_of ac out"]) (simp add: in_range_def keep, simp add: out_def abs_le_iff)
qed

definition ex_afml :: afml_params where
  "ex_afml = \<lparr>ap_frac_d = 4 / 10, ap_frac_size = 60, ap_entropy_lookback = 60, ap_cusum_threshold = 5 / 10000, ap_cusum_lookback = 120,
     ap_ar_lags = [1, 5]\<rparr>"

theorem afml_features_in_range_witness:
  "\<exists>fs. compute_afml_features [100, 101, 99] (1 / 2) (11 / 20) 10 30 ex_afml = Inr fs \<and> in_range fs ''microprice'' (1 / 2) (11 / 20)"
  using afml_features_in_range [of "1 / 2" "11 / 20" 10 30 5 ex_afml "[100, 101, 99]" "\<lambda>i j. 0" 100 100 1 1]
  unfolding ex_afml_def by auto

end
