(* ===== verification/Trend_Confirm.thy ===== *)
theory Trend_Confirm
  imports Strategy_Base Afml
begin

text \<open>
  \<open>strategies/polymarket_btc5m/trend_confirm_t1_v1.py\<close>: the trend confirmation strategy, gate by gate in the order of
  \<open>should_enter\<close>. A configuration is a dictionary of numbers in which a truth value is 0 or 1; the tuple of lags and
  the name of the order type are separate arguments. A context has no \<open>long_history\<close>, so the prior-trend
  filter always reads the recent ticks. The draws of the bootstrap are the parameter \<open>choice\<close>.
\<close>

section \<open>State\<close>

record trend_confirm =
  tr_entry_horizon_s :: int
  tr_horizon_tolerance_s :: real
  tr_delta_bps_min :: real
  tr_max_price :: real
  tr_min_fav_price :: real
  tr_min_confirmations :: int
  tr_high_price_threshold :: real
  tr_min_confirmations_high_price :: int
  tr_cusum_min_rate :: real
  tr_recent_window_s :: real
  tr_doji_body_ratio_min :: real
  tr_prior_trend_window_s :: real
  tr_prior_trend_min_slope_bps :: real
  tr_cl_adverse_max_bps :: real
  tr_cl_concordance_min_ratio :: real
  tr_afml :: afml_params
  tr_autocorr_lag :: nat
  tr_mc_enabled :: bool
  tr_mc_shadow :: bool
  tr_mc_n_sims :: nat
  tr_mc_threshold :: real
  tr_gtc :: bool
  tr_limit_offset_bps :: real
  tr_gtc_ttl_seconds :: int
  tr_per_window_entered :: "string list"

definition new_trend_confirm :: "(string, real) dict \<Rightarrow> nat list option \<Rightarrow> string option \<Rightarrow> trend_confirm" where
  "new_trend_confirm p ar_lags order_type =
     (let f = (\<lambda>k d. dict_getd p k d); i = (\<lambda>k d. py_int (dict_getd p k d))
      in \<lparr>tr_entry_horizon_s = i ''entry_horizon_s'' 240, tr_horizon_tolerance_s = f ''horizon_tolerance_s'' 2,
          tr_delta_bps_min = f ''delta_bps_min'' 3, tr_max_price = f ''max_price'' (80 / 100), tr_min_fav_price = f ''min_fav_price'' 0,
          tr_min_confirmations = i ''min_confirmations'' 3, tr_high_price_threshold = f ''high_price_threshold'' 1,
          tr_min_confirmations_high_price = i ''min_confirmations_high_price'' (of_int (i ''min_confirmations'' 3)),
          tr_cusum_min_rate = f ''cusum_min_rate'' (5 / 1000), tr_recent_window_s = f ''recent_window_s'' 60,
          tr_doji_body_ratio_min = f ''doji_body_ratio_min'' (3 / 10), tr_prior_trend_window_s = f ''prior_trend_window_s'' 0,
          tr_prior_trend_min_slope_bps = f ''prior_trend_min_slope_bps'' (1 / 2), tr_cl_adverse_max_bps = f ''cl_adverse_max_bps'' 15,
          tr_cl_concordance_min_ratio = f ''cl_concordance_min_ratio'' 0,
          tr_afml = \<lparr>ap_frac_d = f ''frac_d'' (4 / 10), ap_frac_size = nat (i ''frac_size'' 60), ap_entropy_lookback = nat (i ''entropy_lookback'' 60),
            ap_cusum_threshold = f ''cusum_threshold'' (5 / 10000), ap_cusum_lookback = nat (i ''cusum_lookback'' 120),
            ap_ar_lags = (case ar_lags of Some l \<Rightarrow> l | None \<Rightarrow> [1, 5, 15, 30])\<rparr>,
          tr_autocorr_lag = nat (i ''autocorr_lag'' 1), tr_mc_enabled = (f ''mc_enabled'' 1 \<noteq> 0), tr_mc_shadow = (f ''mc_shadow'' 1 \<noteq> 0),
          tr_mc_n_sims = nat (i ''mc_n_sims'' 1000), tr_mc_threshold = f ''mc_threshold'' (55 / 100),
          tr_gtc = (ascii_lower (case order_type of Some s \<Rightarrow> s | None \<Rightarrow> ''gtc'') = ''gtc''), tr_limit_offset_bps = f ''limit_offset_bps'' 50,
          tr_gtc_ttl_seconds = i ''gtc_ttl_seconds'' 30, tr_per_window_entered = []\<rparr>)"

section \<open>The gates before the filters\<close>

definition is_horizon :: "trend_confirm \<Rightarrow> 'a tick_core_scheme \<Rightarrow> bool" where
  "is_horizon s ctx \<longleftrightarrow> \<bar>tc_t_in_window ctx - of_int (tr_entry_horizon_s s)\<bar> \<le> tr_horizon_tolerance_s s"

definition trend_skip :: "fstring \<Rightarrow> (string, jval) dict \<Rightarrow> decision" where
  "trend_skip reason feats = mk_decision SKIP NONE reason feats"

text \<open>Gate 1: the direction.\<close>

definition direction :: "trend_confirm \<Rightarrow> 'a tick_core_scheme \<Rightarrow> side option" where
  "direction s ctx =
     (if tc_delta_bps ctx > tr_delta_bps_min s then Some YES_UP
      else if tc_delta_bps ctx < - tr_delta_bps_min s then Some YES_DOWN else None)"

definition undecided :: "trend_confirm \<Rightarrow> 'a tick_core_scheme \<Rightarrow> decision" where
  "undecided s ctx =
     trend_skip [FTxt ''indeciso delta_bps='', FSigned 1 (tc_delta_bps ctx), FTxt '' (|min|='', FVal (tr_delta_bps_min s), FTxt '')'']
       [(''delta_bps'', JNum (tc_delta_bps ctx)), (''direction_threshold'', JNum (tr_delta_bps_min s))]"

text \<open>Gates 1.5 and 1.6: the oracle price, when it is known.\<close>

definition cl_features :: "side \<Rightarrow> 'a tick_core_scheme \<Rightarrow> real \<Rightarrow> real \<Rightarrow> (string, jval) dict \<Rightarrow> (string, jval) dict" where
  "cl_features side ctx cl cl_delta_bps extra =
     [(''side'', JStr (side_value side)), (''delta_bps'', JNum (tc_delta_bps ctx)), (''cl_delta_bps'', JNum (py_round_to 2 cl_delta_bps))] @
     extra @ [(''cl_price'', JNum cl), (''strike'', JNum (tc_open_price ctx))]"

definition cl_divergence :: "string \<Rightarrow> string \<Rightarrow> trend_confirm \<Rightarrow> real \<Rightarrow> fstring" where
  "cl_divergence want sign s cl_delta_bps =
     [FTxt ''cl_divergence cl_'', FUni 916, FTxt ''='', FSigned 1 cl_delta_bps, FTxt (''bps (want '' @ want @ '', max adverse '' @ sign),
      FNum 0 (tr_cl_adverse_max_bps s), FTxt '')'']"

definition cl_delta :: "'a tick_core_scheme \<Rightarrow> (real \<times> real) option" where
  "cl_delta ctx =
     (case tc_chainlink_price ctx of
        Some cl \<Rightarrow> if cl > 0 \<and> tc_open_price ctx > 0 then Some (cl, (cl - tc_open_price ctx) / tc_open_price ctx * 10000) else None
      | None \<Rightarrow> None)"

definition cl_gates :: "trend_confirm \<Rightarrow> 'a tick_core_scheme \<Rightarrow> side \<Rightarrow> decision option" where
  "cl_gates s ctx side =
     (case cl_delta ctx of
        None \<Rightarrow> None
      | Some (cl, d) \<Rightarrow>
          (let want_positive = (side = YES_UP)
           in if want_positive \<and> d < - tr_cl_adverse_max_bps s
              then Some (trend_skip (cl_divergence ''UP'' ''-'' s d) (cl_features side ctx cl d []))
              else if \<not> want_positive \<and> d > tr_cl_adverse_max_bps s
              then Some (trend_skip (cl_divergence ''DOWN'' ''+'' s d) (cl_features side ctx cl d []))
              else if tr_cl_concordance_min_ratio s > 0
              then (let required_cl = tr_cl_concordance_min_ratio s * \<bar>tc_delta_bps ctx\<bar>;
                        same_sign = ((d > 0) = want_positive)
                    in if \<not> same_sign \<or> \<bar>d\<bar> < required_cl
                       then Some (trend_skip
                         [FTxt ''cl_concordance cl_'', FUni 916, FTxt ''='', FSigned 1 d, FTxt '' need same-sign '', FUni 8805, FNum 1 required_cl,
                          FTxt '' (ratio='', FVal (tr_cl_concordance_min_ratio s), FTxt '')'']
                         (cl_features side ctx cl d [(''cl_concordance_required_bps'', JNum (py_round_to 2 required_cl))]))
                       else None)
              else None))"

text \<open>Gate 2: the band of the price.\<close>

definition fav_ask_of :: "side \<Rightarrow> 'a tick_core_scheme \<Rightarrow> real" where
  "fav_ask_of side ctx = (if side = YES_UP then tc_pm_yes_ask ctx else tc_pm_no_ask ctx)"

definition price_gate :: "trend_confirm \<Rightarrow> side \<Rightarrow> real \<Rightarrow> decision option" where
  "price_gate s side fav_ask =
     (if \<not> (0 < fav_ask \<and> fav_ask < tr_max_price s)
      then Some (trend_skip [FTxt ''fav_ask '', FNum 3 fav_ask, FTxt '' !< '', FVal (tr_max_price s), FTxt ('' ('' @ side_value side @ '')'')]
        [(''side'', JStr (side_value side)), (''fav_ask'', JNum fav_ask), (''max_price'', JNum (tr_max_price s))])
      else if fav_ask < tr_min_fav_price s
      then Some (trend_skip [FTxt ''fav_ask '', FNum 3 fav_ask, FTxt '' < min_fav_price '', FVal (tr_min_fav_price s),
          FTxt ('' ('' @ side_value side @ '' vs strong opposite consensus)'')]
        [(''side'', JStr (side_value side)), (''fav_ask'', JNum fav_ask), (''min_fav_price'', JNum (tr_min_fav_price s))])
      else None)"

section \<open>The filters\<close>

text \<open>f6: the candle of the recent window.\<close>

record candle =
  ca_body_ratio :: real
  ca_momentum_ok :: bool
  ca_not_doji :: bool
  ca_n_ticks :: nat

definition recent_candle :: "trend_confirm \<Rightarrow> tick_context \<Rightarrow> bool \<Rightarrow> candle" where
  "recent_candle s ctx want_positive =
     (let spots = map tc_spot_price (filter (\<lambda>t. tc_spot_price t > 0 \<and> tc_ts ctx - tc_ts t \<le> tr_recent_window_s s) (tc_recent_ticks ctx)) @
                  [tc_spot_price ctx]
      in if length spots \<ge> 2
         then (let open_p = hd spots; close_p = last spots; range_p = Max (set spots) - Min (set spots);
                   body_ratio = (if range_p > 0 then \<bar>close_p - open_p\<bar> / range_p else 0)
               in \<lparr>ca_body_ratio = body_ratio, ca_momentum_ok = ((close_p - open_p > 0) = want_positive),
                   ca_not_doji = (body_ratio \<ge> tr_doji_body_ratio_min s), ca_n_ticks = length spots\<rparr>)
         else \<lparr>ca_body_ratio = 0, ca_momentum_ok = False, ca_not_doji = False, ca_n_ticks = length spots\<rparr>)"

definition f6_candle :: "candle \<Rightarrow> bool" where
  "f6_candle c \<longleftrightarrow> ca_momentum_ok c \<and> ca_not_doji c"

text \<open>f7: the slope of the least-squares line through the points of the window.\<close>

definition fit_slope :: "(real \<times> real) list \<Rightarrow> real" where
  "fit_slope pts =
     (let ts0 = fst (hd pts); xs = map (\<lambda>(t, p). t - ts0) pts; ys = map snd pts; n = real (length xs);
          mx = sum_list xs / n; my = sum_list ys / n;
          num = sum_list (map2 (\<lambda>x y. (x - mx) * (y - my)) xs ys); den = sum_list (map (\<lambda>x. (x - mx)\<^sup>2) xs)
      in if den > 0 then num / den else 0)"

record prior_trend =
  pt_ok :: bool
  pt_slope_bps :: real
  pt_n_points :: nat

definition prior_trend_filter :: "trend_confirm \<Rightarrow> tick_context \<Rightarrow> bool \<Rightarrow> prior_trend" where
  "prior_trend_filter s ctx want_positive =
     (if tr_prior_trend_window_s s > 0
      then (let pts = map (\<lambda>t. (tc_ts t, tc_spot_price t))
                  (filter (\<lambda>t. tc_ts t \<ge> tc_ts ctx - tr_prior_trend_window_s s \<and> tc_spot_price t > 0) (tc_recent_ticks ctx))
            in if length pts \<ge> 30
               then (let ref_price = (if snd (last pts) > 0 then snd (last pts) else 1);
                         slope_bps = fit_slope pts / ref_price * 10000 * tr_prior_trend_window_s s
                     in \<lparr>pt_ok = (\<bar>slope_bps\<bar> \<ge> tr_prior_trend_min_slope_bps s \<and> (slope_bps > 0) = want_positive),
                         pt_slope_bps = slope_bps, pt_n_points = length pts\<rparr>)
               else \<lparr>pt_ok = False, pt_slope_bps = 0, pt_n_points = length pts\<rparr>)
      else \<lparr>pt_ok = False, pt_slope_bps = 0, pt_n_points = 0\<rparr>)"

text \<open>f5: the bootstrap; the probability is \<open>-1\<close> where it is off.\<close>

definition mc_filter :: "(nat \<Rightarrow> nat \<Rightarrow> nat) \<Rightarrow> trend_confirm \<Rightarrow> tick_context \<Rightarrow> real list \<Rightarrow> bool \<Rightarrow> bool \<times> real" where
  "mc_filter choice s ctx spot_series want_positive =
     (if tr_mc_enabled s
      then (let p = mc_bootstrap_prob_up choice spot_series
                      (case tc_chainlink_price ctx of Some c \<Rightarrow> float_or c (tc_spot_price ctx) | None \<Rightarrow> tc_spot_price ctx)
                      (tc_open_price ctx) (nat (max 1 (py_int (tc_t_to_close ctx)))) (tr_mc_n_sims s)
            in (if want_positive then p > tr_mc_threshold s else p < 1 - tr_mc_threshold s, p))
      else (False, - 1))"

definition spot_series :: "tick_context \<Rightarrow> real list" where
  "spot_series ctx = map tc_spot_price (filter (\<lambda>t. tc_spot_price t > 0) (tc_recent_ticks ctx)) @ [tc_spot_price ctx]"

record filters =
  fi_feats :: "(string, real) dict"
  fi_f1_fracdiff :: bool
  fi_f2_autocorr :: bool
  fi_f3_cusum :: bool
  fi_f4_microprice :: bool
  fi_candle :: candle
  fi_prior :: prior_trend
  fi_f5_mc :: bool
  fi_mc_prob_up :: real

definition run_filters :: "(nat \<Rightarrow> nat \<Rightarrow> nat) \<Rightarrow> trend_confirm \<Rightarrow> tick_context \<Rightarrow> side \<Rightarrow> py_error + filters" where
  "run_filters choice s ctx side =
     (let want_positive = (side = YES_UP); spots = spot_series ctx
      in bind_r (compute_afml_features spots (tc_pm_yes_bid ctx) (tc_pm_yes_ask ctx) (tc_pm_depth_yes ctx) (tc_pm_depth_no ctx) (tr_afml s)) (\<lambda>feats.
         let (f5, p) = mc_filter choice s ctx spots want_positive
         in Inr \<lparr>fi_feats = feats, fi_f1_fracdiff = ((dict_getd feats ''fracdiff'' 0 > 0) = want_positive),
                 fi_f2_autocorr = (dict_getd feats (ar_key (tr_autocorr_lag s)) 0 > 0),
                 fi_f3_cusum = (dict_getd feats ''cusum_event_rate'' 0 > tr_cusum_min_rate s),
                 fi_f4_microprice = ((dict_getd feats ''microprice'' 0 > 1 / 2) = want_positive),
                 fi_candle = recent_candle s ctx want_positive, fi_prior = prior_trend_filter s ctx want_positive,
                 fi_f5_mc = f5, fi_mc_prob_up = p\<rparr>))"

definition filter_list :: "trend_confirm \<Rightarrow> filters \<Rightarrow> (string \<times> bool) list" where
  "filter_list s F =
     [(''fracdiff'', fi_f1_fracdiff F), (''autocorr'', fi_f2_autocorr F), (''cusum'', fi_f3_cusum F), (''microprice'', fi_f4_microprice F),
      (''candle'', f6_candle (fi_candle F)), (''prior_trend'', pt_ok (fi_prior F))] @
     (if tr_mc_shadow s then [] else [(''mc'', fi_f5_mc F)])"

definition confirmations_of :: "trend_confirm \<Rightarrow> filters \<Rightarrow> int" where
  "confirmations_of s F =
     sum_list (map of_bool [fi_f1_fracdiff F, fi_f2_autocorr F, fi_f3_cusum F, fi_f4_microprice F, f6_candle (fi_candle F), pt_ok (fi_prior F)]) +
     (if tr_mc_enabled s \<and> \<not> tr_mc_shadow s then of_bool (fi_f5_mc F) else 0)"

definition total_filters :: "trend_confirm \<Rightarrow> int" where
  "total_filters s = (if tr_mc_shadow s then 6 else 7)"

definition required_confirmations :: "trend_confirm \<Rightarrow> real \<Rightarrow> int" where
  "required_confirmations s fav_ask =
     (if fav_ask \<ge> tr_high_price_threshold s then tr_min_confirmations_high_price s else tr_min_confirmations s)"

section \<open>What a decision carries\<close>

definition show_bool :: "bool \<Rightarrow> string" where
  "show_bool b = (if b then ''True'' else ''False'')"

definition trend_features :: "trend_confirm \<Rightarrow> 'a tick_core_scheme \<Rightarrow> side \<Rightarrow> filters \<Rightarrow> (string, jval) dict" where
  "trend_features s ctx side F =
     dict_of (map (\<lambda>(k, v). (k, JNum (py_round_to 6 v))) (fi_feats F))
     [(''side'', JStr (side_value side)), (''delta_bps'', JNum (tc_delta_bps ctx)), (''fav_ask'', JNum (py_round_to 4 (fav_ask_of side ctx))),
      (''horizon_s'', JNum (of_int (tr_entry_horizon_s s))), (''confirmations'', JNum (of_int (confirmations_of s F))),
      (''min_confirmations'', JNum (of_int (tr_min_confirmations s))), (''mc_prob_up'', JNum (py_round_to 4 (fi_mc_prob_up F))),
      (''mc_confirms'', JBool (fi_f5_mc F)), (''mc_shadow'', JBool (tr_mc_shadow s)),
      (''candle_momentum_ok'', JBool (ca_momentum_ok (fi_candle F))), (''candle_not_doji'', JBool (ca_not_doji (fi_candle F))),
      (''candle_body_ratio'', JNum (py_round_to 4 (ca_body_ratio (fi_candle F)))), (''candle_window_s'', JNum (tr_recent_window_s s)),
      (''candle_n_ticks'', JNum (real (ca_n_ticks (fi_candle F)))),
      (''prior_trend_slope_bps'', JNum (py_round_to 3 (pt_slope_bps (fi_prior F)))), (''prior_trend_n_points'', JNum (real (pt_n_points (fi_prior F)))),
      (''prior_trend_window_s'', JNum (tr_prior_trend_window_s s)), (''prior_trend_ok'', JBool (pt_ok (fi_prior F))),
      (''f1_fracdiff_fired'', JBool (fi_f1_fracdiff F)), (''f2_autocorr_fired'', JBool (fi_f2_autocorr F)),
      (''f3_cusum_fired'', JBool (fi_f3_cusum F)), (''f4_microprice_fired'', JBool (fi_f4_microprice F)), (''f5_mc_fired'', JBool (fi_f5_mc F)),
      (''f6_candle_fired'', JBool (f6_candle (fi_candle F))), (''f7_prior_trend_fired'', JBool (pt_ok (fi_prior F))),
      (''cl_adverse_blocked'', JBool False), (''tau_seconds'', JNum (of_int (py_int (tc_t_to_close ctx))))]"

definition trend_breakdown :: "trend_confirm \<Rightarrow> 'a tick_core_scheme \<Rightarrow> side \<Rightarrow> filters \<Rightarrow> (string, jval) dict" where
  "trend_breakdown s ctx side F =
     build_breakdown
     [(''delta_bps'', JNum (py_round_to 2 (tc_delta_bps ctx))), (''side_picked'', JStr (side_value side)),
      (''fav_ask'', JNum (py_round_to 4 (fav_ask_of side ctx))), (''f1_fracdiff'', JBool (fi_f1_fracdiff F)),
      (''f2_autocorr'', JBool (fi_f2_autocorr F)), (''f3_cusum'', JBool (fi_f3_cusum F)), (''f4_microprice'', JBool (fi_f4_microprice F)),
      (''f5_mc'', JFmt [FStr (show_bool (fi_f5_mc F)), FTxt '' (p='', FNum 3 (fi_mc_prob_up F), FTxt '', shadow='', FStr (show_bool (tr_mc_shadow s)), FTxt '')'']),
      (''f6_candle'', JFmt [FStr (show_bool (f6_candle (fi_candle F))), FTxt '' (mom_ok='', FStr (show_bool (ca_momentum_ok (fi_candle F))), FTxt '', body_ratio='',
         FNum 2 (ca_body_ratio (fi_candle F)), FTxt '', min='', FVal (tr_doji_body_ratio_min s), FTxt '', n='', FInt (int (ca_n_ticks (fi_candle F))), FTxt '')'']),
      (''f7_prior_trend'', JFmt [FStr (show_bool (pt_ok (fi_prior F))), FTxt '' (slope='', FSigned 2 (pt_slope_bps (fi_prior F)), FTxt ''bps min='', FUni 177,
         FNum 2 (tr_prior_trend_min_slope_bps s), FTxt '' n='', FInt (int (pt_n_points (fi_prior F))), FTxt '' win='', FNum 0 (tr_prior_trend_window_s s), FTxt ''s)'']),
      (''confirmations'', JFmt [FInt (confirmations_of s F), FTxt ''/'', FInt (total_filters s)]),
      (''min_required'', JNum (of_int (tr_min_confirmations s)))]"

fun join_with :: "string \<Rightarrow> string list \<Rightarrow> string" where
  "join_with sep [] = []"
| "join_with sep [x] = x"
| "join_with sep (x # y # xs) = x @ sep @ join_with sep (y # xs)"

definition unconfirmed :: "trend_confirm \<Rightarrow> 'a tick_core_scheme \<Rightarrow> side \<Rightarrow> filters \<Rightarrow> decision" where
  "unconfirmed s ctx side F =
     (trend_skip [FTxt ''confirm '', FInt (confirmations_of s F), FTxt ''/'', FInt (total_filters s), FTxt '' < '',
         FInt (required_confirmations s (fav_ask_of side ctx)), FTxt '' (fav='', FNum 3 (fav_ask_of side ctx), FTxt '', threshold='',
         FVal (tr_high_price_threshold s), FTxt '', failed: '', FStr (join_with '','' (map fst (filter (\<lambda>(n, ok). \<not> ok) (filter_list s F)))), FTxt '')'']
       (trend_features s ctx side F))\<lparr>dc_signal_breakdown := trend_breakdown s ctx side F\<rparr>"

text \<open>The price of a resting entry.\<close>

definition gtc_limit_price :: "trend_confirm \<Rightarrow> 'a tick_core_scheme \<Rightarrow> side \<Rightarrow> real" where
  "gtc_limit_price s ctx side =
     (let fav_ask = fav_ask_of side ctx;
          fav_bid = (if side = YES_UP then tc_pm_yes_bid ctx else tc_pm_no_bid ctx);
          mid = (if side = YES_UP then (tc_pm_yes_bid ctx + tc_pm_yes_ask ctx) / 2 else (tc_pm_no_bid ctx + tc_pm_no_ask ctx) / 2);
          offset = tr_limit_offset_bps s / 10000 * max mid (1 / 1000);
          target = (if fav_bid > 0 then min (fav_ask - offset) fav_bid else fav_ask - offset)
      in max (1 / 100) (py_round_to 3 target))"

definition enter_decision :: "trend_confirm \<Rightarrow> 'a tick_core_scheme \<Rightarrow> side \<Rightarrow> filters \<Rightarrow> decision" where
  "enter_decision s ctx side F =
     (let fav_ask = fav_ask_of side ctx;
          reason = (\<lambda>rest. [FTxt ''trend_confirm '', FUni 916, FTxt ''='', FSigned 1 (tc_delta_bps ctx), FTxt '' confirm='', FInt (confirmations_of s F), FTxt ''/'',
            FInt (total_filters s), FTxt '' fav='', FNum 3 fav_ask] @ rest);
          d = (mk_decision ENTER side [] (trend_features s ctx side F))
                \<lparr>dc_signal_breakdown := trend_breakdown s ctx side F, dc_horizon_s := Some (tr_entry_horizon_s s)\<rparr>
      in if tr_gtc s
         then d\<lparr>dc_limit_price := Some (gtc_limit_price s ctx side), dc_reason := reason [FTxt '' gtc@'', FNum 3 (gtc_limit_price s ctx side)],
                dc_order_type := GTC, dc_ttl_seconds := Some (tr_gtc_ttl_seconds s)\<rparr>
         else d\<lparr>dc_limit_price := Some fav_ask, dc_reason := reason [FTxt '' market''], dc_order_type := MARKET\<rparr>)"

section \<open>The decision\<close>

definition trend_should_enter :: "(nat \<Rightarrow> nat \<Rightarrow> nat) \<Rightarrow> tick_context \<Rightarrow> trend_confirm \<Rightarrow> py_error + (decision \<times> trend_confirm)" where
  "trend_should_enter choice ctx s =
     (if \<not> is_horizon s ctx
      then Inr (trend_skip [FTxt ''not_at_horizon t='', FNum 1 (tc_t_in_window ctx), FTxt ''s (target='', FInt (tr_entry_horizon_s s), FTxt ''s)''] [], s)
      else if tc_market_slug ctx \<in> set (tr_per_window_entered s) then Inr (trend_skip (ftext ''already_entered_this_window'') [], s)
      else (case direction s ctx of
          None \<Rightarrow> Inr (undecided s ctx, s)
        | Some side \<Rightarrow>
            (case cl_gates s ctx side of
               Some d \<Rightarrow> Inr (d, s)
             | None \<Rightarrow>
                 (case price_gate s side (fav_ask_of side ctx) of
                    Some d \<Rightarrow> Inr (d, s)
                  | None \<Rightarrow>
                      bind_r (run_filters choice s ctx side) (\<lambda>F.
                        if confirmations_of s F < required_confirmations s (fav_ask_of side ctx) then Inr (unconfirmed s ctx side F, s)
                        else Inr (enter_decision s ctx side F,
                                  s\<lparr>tr_per_window_entered := List.insert (tc_market_slug ctx) (tr_per_window_entered s)\<rparr>))))))"

definition notify_window_rollover :: "string \<Rightarrow> trend_confirm \<Rightarrow> trend_confirm" where
  "notify_window_rollover new_slug s = s\<lparr>tr_per_window_entered := []\<rparr>"

definition trend_strategy :: "(nat \<Rightarrow> nat \<Rightarrow> nat) \<Rightarrow> trend_confirm strategy" where
  "trend_strategy choice =
     \<lparr>sg_name = ''trend_confirm_t1_v1'', sg_on_start = id,
      sg_should_enter = (\<lambda>ctx s. case trend_should_enter choice ctx s of Inr r \<Rightarrow> r | Inl e \<Rightarrow> (trend_skip [] [], s)), sg_on_stop = id\<rparr>"

section \<open>Entries\<close>

lemma trend_skip_simps [simp]: "dc_action (trend_skip r f) = SKIP" "dc_side (trend_skip r f) = NONE"
  by (simp_all add: trend_skip_def mk_decision_def)

lemma skips_are_skips:
  "dc_action (undecided s ctx) = SKIP" "dc_action (unconfirmed s ctx side F) = SKIP"
  "cl_gates s ctx side = Some d \<Longrightarrow> dc_action d = SKIP" "price_gate s side a = Some d \<Longrightarrow> dc_action d = SKIP"
  by (auto simp: undecided_def unconfirmed_def cl_gates_def price_gate_def Let_def split: option.splits if_splits)

lemma enter_decision_simps [simp]: "dc_action (enter_decision s ctx side F) = ENTER" "dc_side (enter_decision s ctx side F) = side"
  by (simp_all add: enter_decision_def mk_decision_def Let_def)

lemma trend_cases:
  assumes "trend_should_enter choice ctx s = Inr (d, s')"
  obtains (skip) "dc_action d = SKIP" "s' = s"
  | (enter) side F where "is_horizon s ctx" "tc_market_slug ctx \<notin> set (tr_per_window_entered s)" "direction s ctx = Some side"
      "cl_gates s ctx side = None" "price_gate s side (fav_ask_of side ctx) = None" "run_filters choice s ctx side = Inr F"
      "required_confirmations s (fav_ask_of side ctx) \<le> confirmations_of s F" "d = enter_decision s ctx side F"
      "s' = s\<lparr>tr_per_window_entered := List.insert (tc_market_slug ctx) (tr_per_window_entered s)\<rparr>"
proof (cases "is_horizon s ctx \<and> tc_market_slug ctx \<notin> set (tr_per_window_entered s)")
  case False
  with assms skip show thesis by (auto simp: trend_should_enter_def split: if_splits)
next
  case free: True
  show thesis
  proof (cases "direction s ctx")
    case None
    with assms free skip skips_are_skips(1) show thesis by (auto simp: trend_should_enter_def)
  next
    case (Some side)
    note dir = this
    show thesis
    proof (cases "cl_gates s ctx side")
      case (Some d0)
      with assms free dir skip skips_are_skips(3) show thesis by (auto simp: trend_should_enter_def)
    next
      case None
      note cl = this
      show thesis
      proof (cases "price_gate s side (fav_ask_of side ctx)")
        case (Some d0)
        with assms free dir cl skip skips_are_skips(4) show thesis by (auto simp: trend_should_enter_def)
      next
        case None
        with assms free dir cl obtain F where F: "run_filters choice s ctx side = Inr F"
          by (auto simp: trend_should_enter_def bind_r_eq_Inr)
        show thesis
        proof (cases "confirmations_of s F < required_confirmations s (fav_ask_of side ctx)")
          case True
          with assms free dir cl None F skip skips_are_skips(2) show thesis by (auto simp: trend_should_enter_def)
        next
          case False
          with assms free dir cl None F have "d = enter_decision s ctx side F"
            "s' = s\<lparr>tr_per_window_entered := List.insert (tc_market_slug ctx) (tr_per_window_entered s)\<rparr>"
            by (simp_all add: trend_should_enter_def)
          with enter free dir cl None F False show thesis by (simp add: not_less)
        qed
      qed
    qed
  qed
qed

text \<open>What the two oracle gates let through.\<close>

definition cl_concordant :: "trend_confirm \<Rightarrow> 'a tick_core_scheme \<Rightarrow> side \<Rightarrow> bool" where
  "cl_concordant s ctx side \<longleftrightarrow>
     (case cl_delta ctx of
        None \<Rightarrow> True
      | Some (cl, d) \<Rightarrow> (if side = YES_UP then - tr_cl_adverse_max_bps s \<le> d else d \<le> tr_cl_adverse_max_bps s) \<and>
          (tr_cl_concordance_min_ratio s > 0 \<longrightarrow>
             (d > 0) = (side = YES_UP) \<and> tr_cl_concordance_min_ratio s * \<bar>tc_delta_bps ctx\<bar> \<le> \<bar>d\<bar>))"

lemma cl_gates_None: "cl_gates s ctx side = None \<longleftrightarrow> cl_concordant s ctx side"
  by (auto simp: cl_gates_def cl_concordant_def Let_def not_less split: option.splits)

text \<open>The price a resting order aims at: the ask less the offset, and never above the bid where there is one.\<close>

definition gtc_target :: "trend_confirm \<Rightarrow> 'a tick_core_scheme \<Rightarrow> side \<Rightarrow> real" where
  "gtc_target s ctx side =
     (let (bid, ask) = (if side = YES_UP then (tc_pm_yes_bid ctx, tc_pm_yes_ask ctx) else (tc_pm_no_bid ctx, tc_pm_no_ask ctx));
          below = ask - tr_limit_offset_bps s / 10000 * max ((bid + ask) / 2) (1 / 1000)
      in if 0 < bid then min below bid else below)"

lemma gtc_price_bounds:
  "\<bar>gtc_limit_price s ctx side - max (1 / 100) (gtc_target s ctx side)\<bar> \<le> 1 / 2000" "1 / 100 \<le> gtc_limit_price s ctx side"
  "0 \<le> tr_limit_offset_bps s \<Longrightarrow> gtc_limit_price s ctx side \<le> max (1 / 100) (fav_ask_of side ctx + 1 / 2000)"
proof -
  have p: "gtc_limit_price s ctx side = max (1 / 100) (py_round_to 3 (gtc_target s ctx side))"
    by (simp add: gtc_limit_price_def gtc_target_def fav_ask_of_def Let_def)
  have "\<bar>py_round_to 3 (gtc_target s ctx side) - gtc_target s ctx side\<bar> \<le> 1 / (2 * 10 ^ 3)" by (rule py_round_to_error)
  then have tick: "\<bar>py_round_to 3 (gtc_target s ctx side) - gtc_target s ctx side\<bar> \<le> 1 / 2000" by simp
  then show "\<bar>gtc_limit_price s ctx side - max (1 / 100) (gtc_target s ctx side)\<bar> \<le> 1 / 2000" "1 / 100 \<le> gtc_limit_price s ctx side"
    unfolding p by linarith+
  assume "0 \<le> tr_limit_offset_bps s"
  then have "0 \<le> tr_limit_offset_bps s / 10000 * max m (1 / 1000)" for m by (intro mult_nonneg_nonneg) auto
  then have "gtc_target s ctx side \<le> fav_ask_of side ctx" by (simp add: gtc_target_def fav_ask_of_def Let_def min_le_iff_disj)
  with tick show "gtc_limit_price s ctx side \<le> max (1 / 100) (fav_ask_of side ctx + 1 / 2000)" unfolding p by linarith
qed

lemma confirmations_count:
  "confirmations_of s F \<le> int (length (filter snd (filter_list s F)))"
  by (auto simp: confirmations_of_def filter_list_def)

text \<open>C27. The trend strategy enters only what its gates confirm. When it enters, the tick is at the horizon, the market has
  not been entered, the side is the sign of a price move beyond the threshold, the oracle price (where known) neither
  contradicts nor, if concordance is asked for, falls short of it, the ask is positive and inside the price band, and
  at least the required number of filters agree. A market order is priced at the ask. A resting order aims at the ask less the offset,
  and at no more than the bid where there is one; its price is within half a tick of that aim, except that it is raised to one cent where the aim is lower.
  With an offset that is not negative it is therefore at most the greater of one cent and half a tick above the ask (an ask below a cent
  is overbid). The market is marked; every other outcome changes nothing.\<close>

theorem trend_entry_confirmed:
  assumes run: "trend_should_enter choice ctx s = Inr (d, s')"
    and quote: "(bid, ask) = (if dc_side d = YES_UP then (tc_pm_yes_bid ctx, tc_pm_yes_ask ctx) else (tc_pm_no_bid ctx, tc_pm_no_ask ctx))"
    and below: "below = ask - tr_limit_offset_bps s / 10000 * max ((bid + ask) / 2) (1 / 1000)"
  shows "if dc_action d = ENTER
    then \<bar>tc_t_in_window ctx - of_int (tr_entry_horizon_s s)\<bar> \<le> tr_horizon_tolerance_s s \<and>
      tc_market_slug ctx \<notin> set (tr_per_window_entered s) \<and>
      (dc_side d = YES_UP \<and> tr_delta_bps_min s < tc_delta_bps ctx \<or> dc_side d = YES_DOWN \<and> tc_delta_bps ctx < - tr_delta_bps_min s) \<and>
      cl_concordant s ctx (dc_side d) \<and>
      0 < ask \<and> ask < tr_max_price s \<and> tr_min_fav_price s \<le> ask \<and>
      (\<exists>F. run_filters choice s ctx (dc_side d) = Inr F \<and>
        (if tr_high_price_threshold s \<le> ask then tr_min_confirmations_high_price s else tr_min_confirmations s)
          \<le> int (length (filter snd (filter_list s F)))) \<and>
      (case dc_limit_price d of None \<Rightarrow> False
       | Some p \<Rightarrow> if dc_order_type d = MARKET then p = ask
                   else \<bar>p - max (1 / 100) (if 0 < bid then min below bid else below)\<bar> \<le> 1 / 2000 \<and> 1 / 100 \<le> p \<and>
                     (0 \<le> tr_limit_offset_bps s \<longrightarrow> p \<le> max (1 / 100) (ask + 1 / 2000))) \<and>
      s' = s\<lparr>tr_per_window_entered := List.insert (tc_market_slug ctx) (tr_per_window_entered s)\<rparr>
    else s' = s"
  using run
proof (cases rule: trend_cases)
  case (enter side F)
  have side: "dc_side d = side" by (simp add: enter(8) enter_decision_simps)
  have ask: "ask = fav_ask_of side ctx" using quote by (simp add: side fav_ask_of_def split: if_splits)
  have target: "(if 0 < bid then min below bid else below) = gtc_target s ctx side"
    using quote by (simp add: side below gtc_target_def Let_def split: if_splits)
  have dir: "side = YES_UP \<and> tr_delta_bps_min s < tc_delta_bps ctx \<or> side = YES_DOWN \<and> tc_delta_bps ctx < - tr_delta_bps_min s"
    using enter(3) by (auto simp: direction_def split: if_splits)
  have price: "0 < ask \<and> ask < tr_max_price s \<and> tr_min_fav_price s \<le> ask"
    using enter(5) by (auto simp: price_gate_def ask split: if_splits)
  have limit: "case dc_limit_price d of None \<Rightarrow> False
      | Some p \<Rightarrow> if dc_order_type d = MARKET then p = ask
         else \<bar>p - max (1 / 100) (if 0 < bid then min below bid else below)\<bar> \<le> 1 / 2000 \<and> 1 / 100 \<le> p \<and>
           (0 \<le> tr_limit_offset_bps s \<longrightarrow> p \<le> max (1 / 100) (ask + 1 / 2000))"
    using gtc_price_bounds [of s ctx side] unfolding target ask by (simp add: enter(8) enter_decision_def Let_def)
  have "(if tr_high_price_threshold s \<le> ask then tr_min_confirmations_high_price s else tr_min_confirmations s)
      \<le> int (length (filter snd (filter_list s F)))"
    using enter(7) confirmations_count [of s F] unfolding required_confirmations_def ask by linarith
  with dir price limit enter(1,2,4,6,9) side show ?thesis
    unfolding enter(8) enter_decision_simps by (simp add: is_horizon_def cl_gates_None)
qed simp

lemma run_filters_choice:
  assumes "run_filters choice s ctx side = Inr F"
  shows "\<exists>b p. run_filters choice' s ctx side = Inr (F\<lparr>fi_f5_mc := b, fi_mc_prob_up := p\<rparr>)"
proof -
  obtain b p where "mc_filter choice' s ctx (spot_series ctx) (side = YES_UP) = (b, p)" by fastforce
  obtain b0 p0 where "mc_filter choice s ctx (spot_series ctx) (side = YES_UP) = (b0, p0)" by fastforce
  moreover from assms obtain feats where
    "compute_afml_features (spot_series ctx) (tc_pm_yes_bid ctx) (tc_pm_yes_ask ctx) (tc_pm_depth_yes ctx) (tc_pm_depth_no ctx) (tr_afml s) = Inr feats"
    by (auto simp: run_filters_def Let_def bind_r_eq_Inr)
  moreover note \<open>mc_filter choice' s ctx (spot_series ctx) (side = YES_UP) = (b, p)\<close>
  ultimately show ?thesis using assms by (auto simp: run_filters_def Let_def)
qed

lemma shadow_counts: "tr_mc_shadow s \<Longrightarrow> confirmations_of s (F\<lparr>fi_f5_mc := b, fi_mc_prob_up := p\<rparr>) = confirmations_of s F"
  by (simp add: confirmations_of_def)

text \<open>What a decision makes the driver do.\<close>

definition order_of :: "decision \<times> trend_confirm \<Rightarrow> action \<times> side \<times> order_type \<times> real option \<times> int option \<times> trend_confirm" where
  "order_of r = (dc_action (fst r), dc_side (fst r), dc_order_type (fst r), dc_limit_price (fst r), dc_ttl_seconds (fst r), snd r)"

text \<open>In shadow mode the bootstrap is only logged: whatever it draws, the strategy takes the same decision for the
  same side, order type, price and life time and ends in the same state, and it fails for some draws only if it
  fails for all.\<close>

theorem shadow_bootstrap_is_inert:
  assumes "tr_mc_shadow s"
  shows "map_sum id order_of (trend_should_enter choice ctx s) = map_sum id order_of (trend_should_enter choice' ctx s)"
proof (cases "direction s ctx")
  case None
  then show ?thesis by (simp add: trend_should_enter_def)
next
  case (Some side)
  have fav: "order_of (enter_decision s ctx side (F\<lparr>fi_f5_mc := b, fi_mc_prob_up := p\<rparr>), s') = order_of (enter_decision s ctx side F, s')" for F b p s'
    by (simp add: order_of_def enter_decision_def mk_decision_def Let_def)
  have un: "order_of (unconfirmed s ctx side (F\<lparr>fi_f5_mc := b, fi_mc_prob_up := p\<rparr>), s) = order_of (unconfirmed s ctx side F, s)" for F b p
    by (simp add: order_of_def unconfirmed_def trend_skip_def mk_decision_def)
  show ?thesis
  proof (cases "run_filters choice s ctx side")
    case (Inl e)
    then have "compute_afml_features (spot_series ctx) (tc_pm_yes_bid ctx) (tc_pm_yes_ask ctx) (tc_pm_depth_yes ctx) (tc_pm_depth_no ctx) (tr_afml s) = Inl e"
      by (auto simp: run_filters_def Let_def bind_r_def split: sum.splits prod.splits)
    then have "run_filters choice' s ctx side = Inl e" by (simp add: run_filters_def Let_def)
    with Inl Some show ?thesis by (simp add: trend_should_enter_def split: option.split)
  next
    case (Inr F)
    obtain b p where "run_filters choice' s ctx side = Inr (F\<lparr>fi_f5_mc := b, fi_mc_prob_up := p\<rparr>)"
      using run_filters_choice [OF Inr] by blast
    with Inr Some fav un shadow_counts [OF assms] show ?thesis
      by (simp add: trend_should_enter_def split: option.split)
  qed
qed

lemma trend_strategy_decision:
  "sg_should_enter (trend_strategy choice) ctx s = (d, s') \<Longrightarrow> dc_action d = ENTER \<Longrightarrow> trend_should_enter choice ctx s = Inr (d, s')"
  by (auto simp: trend_strategy_def split: sum.splits)

lemma trend_skip_keeps:
  assumes "sg_should_enter (trend_strategy choice) ctx s = (d, s')" "dc_action d \<noteq> ENTER"
  shows "s' = s"
proof (cases "trend_should_enter choice ctx s")
  case (Inr r)
  with assms(1) have "trend_should_enter choice ctx s = Inr (d, s')" by (simp add: trend_strategy_def)
  then show ?thesis by (cases rule: trend_cases) (use assms(2) in simp_all)
qed (use assms in \<open>simp add: trend_strategy_def\<close>)

interpretation trend: one_shot "sg_should_enter (trend_strategy choice)" "\<lambda>s. set (tr_per_window_entered s)" for choice
proof
  fix ctx s d s' assume ds: "sg_should_enter (trend_strategy choice) ctx s = (d, s')" "dc_action d = ENTER"
  from trend_strategy_decision [OF ds]
  show "tc_market_slug ctx \<notin> set (tr_per_window_entered s) \<and>
      set (tr_per_window_entered s') = insert (tc_market_slug ctx) (set (tr_per_window_entered s))"
    by (cases rule: trend_cases) (use ds(2) in simp_all)
next
  fix ctx s d s' assume "sg_should_enter (trend_strategy choice) ctx s = (d, s')" "dc_action d \<noteq> ENTER"
  then show "set (tr_per_window_entered s') = set (tr_per_window_entered s)" using trend_skip_keeps by blast
qed

lemma trend_enters_each_market_once: "distinct (entry_slugs (sg_should_enter (trend_strategy choice)) ctxs s)"
  using trend.entries_distinct by blast

section \<open>A worked example\<close>

text \<open>A rise of one per cent at the horizon, with the two confirmations of the candle and the microprice.\<close>

definition ex_trend :: trend_confirm where
  "ex_trend = new_trend_confirm [(''min_confirmations'', 2)] None None"

definition ex_trend_ctx :: tick_context where
  "ex_trend_ctx = with_recent (ex_core\<lparr>tc_ts := 240, tc_t_in_window := 240, tc_spot_price := 101, tc_delta_bps := 100\<rparr>) [ex_core\<lparr>tc_ts := 239\<rparr>]"

lemma ex_trend_simps:
  "tr_entry_horizon_s ex_trend = 240" "tr_horizon_tolerance_s ex_trend = 2" "tr_delta_bps_min ex_trend = 3" "tr_max_price ex_trend = 80 / 100"
  "tr_min_fav_price ex_trend = 0" "tr_min_confirmations ex_trend = 2" "tr_high_price_threshold ex_trend = 1" "tr_cusum_min_rate ex_trend = 5 / 1000"
  "tr_recent_window_s ex_trend = 60" "tr_doji_body_ratio_min ex_trend = 3 / 10" "tr_prior_trend_window_s ex_trend = 0" "tr_autocorr_lag ex_trend = 1"
  "tr_mc_enabled ex_trend" "tr_mc_shadow ex_trend" "tr_limit_offset_bps ex_trend = 50" "tr_per_window_entered ex_trend = []"
  "ap_frac_size (tr_afml ex_trend) = 60" "ap_ar_lags (tr_afml ex_trend) = [1, 5, 15, 30]"
  by (simp_all add: ex_trend_def new_trend_confirm_def dict_getd_def py_int_def Let_def)

lemma ex_trend_ctx_simps:
  "tc_ts ex_trend_ctx = 240" "tc_t_in_window ex_trend_ctx = 240" "tc_spot_price ex_trend_ctx = 101" "tc_delta_bps ex_trend_ctx = 100"
  "tc_chainlink_price ex_trend_ctx = None" "tc_pm_yes_ask ex_trend_ctx = 11 / 20" "tc_pm_yes_bid ex_trend_ctx = 1 / 2"
  "tc_pm_depth_yes ex_trend_ctx = 100" "tc_pm_depth_no ex_trend_ctx = 100" "tc_market_slug ex_trend_ctx = ''m''"
  "tc_recent_ticks ex_trend_ctx = [ex_core\<lparr>tc_ts := 239\<rparr>]"
  by (simp_all add: ex_trend_ctx_def with_recent_def ex_core_def tick_core.defs tick_context.defs)

lemma ex_trend_series: "spot_series ex_trend_ctx = [100, 101]"
  by (simp add: spot_series_def ex_trend_ctx_simps ex_core_def)

lemma ex_trend_microprice: "\<exists>fs. compute_afml_features [100, 101] (1 / 2) (11 / 20) 100 100 (tr_afml ex_trend) = Inr fs \<and>
    dict_getd fs ''microprice'' 0 = 21 / 40"
  by (simp add: compute_afml_features_def ex_trend_simps cusum_features_def returns_autocorr_multi_def ar_key_def show_int_def show_nat.simps
      digit_char_def microprice_def dict_getd_def)

lemma ex_trend_candle: "f6_candle (recent_candle ex_trend ex_trend_ctx True)"
  by (simp add: f6_candle_def recent_candle_def ex_trend_simps ex_trend_ctx_simps ex_core_def Let_def)

lemma ex_trend_enters: "\<exists>d s'. trend_should_enter choice ex_trend_ctx ex_trend = Inr (d, s') \<and> dc_action d = ENTER"
proof -
  have gates: "is_horizon ex_trend ex_trend_ctx" "direction ex_trend ex_trend_ctx = Some YES_UP" "cl_gates ex_trend ex_trend_ctx YES_UP = None"
    "price_gate ex_trend YES_UP (fav_ask_of YES_UP ex_trend_ctx) = None" "required_confirmations ex_trend (fav_ask_of YES_UP ex_trend_ctx) = 2"
    "tc_market_slug ex_trend_ctx \<notin> set (tr_per_window_entered ex_trend)"
    by (simp_all add: is_horizon_def direction_def cl_gates_def cl_delta_def price_gate_def fav_ask_of_def required_confirmations_def
        ex_trend_simps ex_trend_ctx_simps)
  obtain fs where fs: "compute_afml_features [100, 101] (1 / 2) (11 / 20) 100 100 (tr_afml ex_trend) = Inr fs"
    "dict_getd fs ''microprice'' 0 = 21 / 40" using ex_trend_microprice by blast
  obtain b p where "mc_filter choice ex_trend ex_trend_ctx [100, 101] True = (b, p)" by fastforce
  with fs obtain F where F: "run_filters choice ex_trend ex_trend_ctx YES_UP = Inr F" "fi_f4_microprice F" "fi_candle F = recent_candle ex_trend ex_trend_ctx True"
    by (simp add: run_filters_def ex_trend_series ex_trend_ctx_simps)
  have "2 \<le> confirmations_of ex_trend F" using F ex_trend_candle by (simp add: confirmations_of_def ex_trend_simps)
  with gates F show ?thesis by (simp add: trend_should_enter_def)
qed

theorem trend_entry_confirmed_witness:
  "\<exists>d s'. trend_should_enter (\<lambda>i j. 0) ex_trend_ctx ex_trend = Inr (d, s') \<and> dc_side d = YES_UP \<and> tr_per_window_entered s' = [''m'']"
proof -
  obtain d s' where run: "trend_should_enter (\<lambda>i j. 0) ex_trend_ctx ex_trend = Inr (d, s')" "dc_action d = ENTER"
    using ex_trend_enters by blast
  obtain bid ask where "(bid, ask) = (if dc_side d = YES_UP then (tc_pm_yes_bid ex_trend_ctx, tc_pm_yes_ask ex_trend_ctx)
      else (tc_pm_no_bid ex_trend_ctx, tc_pm_no_ask ex_trend_ctx))" by (metis prod.collapse)
  from trend_entry_confirmed [OF run(1) this refl] run show ?thesis by (auto simp: ex_trend_simps ex_trend_ctx_simps)
qed

theorem shadow_bootstrap_is_inert_witness:
  "map_sum id order_of (trend_should_enter (\<lambda>i j. 0) ex_trend_ctx ex_trend) = map_sum id order_of (trend_should_enter (\<lambda>i j. i) ex_trend_ctx ex_trend)"
  by (rule shadow_bootstrap_is_inert) (simp add: ex_trend_simps)

end
