(* ===== verification/Monte_Carlo.thy ===== *)
theory Monte_Carlo
  imports Oracle_Lag Trend_Confirm
begin

text \<open>
  \<open>research/monte_carlo.py\<close>: the bootstrap of a trade vector, the permutation test, the block bootstrap that replays
  resampled markets, and the verdict. The draws of the random generator are parameters: matrices of indices with one
  row per replicate. A value that may not be a number (\<open>nan\<close>) is an option.
\<close>

section \<open>Statistics of a trade vector\<close>

record mc_summary =
  sm_n_trades :: nat
  sm_total_pnl :: real
  sm_win_rate :: real
  sm_sharpe_per_trade :: real
  sm_max_drawdown_usd :: real

text \<open>\<open>cumsum\<close> and \<open>np.maximum.accumulate\<close>.\<close>

fun cumsum_from :: "real \<Rightarrow> real list \<Rightarrow> real list" where
  "cumsum_from acc [] = []"
| "cumsum_from acc (x # xs) = (acc + x) # cumsum_from (acc + x) xs"

fun peaks_from :: "real \<Rightarrow> real list \<Rightarrow> real list" where
  "peaks_from peak [] = []"
| "peaks_from peak (x # xs) = max peak x # peaks_from (max peak x) xs"

definition maximum_accumulate :: "real list \<Rightarrow> real list" where
  "maximum_accumulate xs = (case xs of [] \<Rightarrow> [] | x # ys \<Rightarrow> x # peaks_from x ys)"

text \<open>\<open>(equity - peak).min()\<close>; the vector is not empty where it is called.\<close>

definition drawdown_of :: "real list \<Rightarrow> real" where
  "drawdown_of pnls =
     (let equity = cumsum_from 0 pnls; peak = maximum_accumulate equity
      in Min (set (map (\<lambda>(e, p). e - p) (zip equity peak))))"

definition std_ddof1 :: "real list \<Rightarrow> real" where
  "std_ddof1 xs = sqrt (sum_sq_dev xs (sum_list xs / real (length xs)) / (real (length xs) - 1))"

definition summary_from_pnls :: "real list \<Rightarrow> mc_summary" where
  "summary_from_pnls pnls =
     (let n = length pnls
      in if n = 0 then \<lparr>sm_n_trades = 0, sm_total_pnl = 0, sm_win_rate = 0, sm_sharpe_per_trade = 0, sm_max_drawdown_usd = 0\<rparr>
         else (let wins = length (filter (\<lambda>p. p > 0) pnls);
                   mean = sum_list pnls / real n;
                   std = (if n > 1 then std_ddof1 pnls else 0);
                   sharpe = (if std > 0 then mean / std else 0)
               in \<lparr>sm_n_trades = n, sm_total_pnl = sum_list pnls, sm_win_rate = real wins / real n, sm_sharpe_per_trade = sharpe,
                   sm_max_drawdown_usd = drawdown_of pnls\<rparr>))"

text \<open>\<open>np.percentile\<close> with linear interpolation, on a sample that is not empty.\<close>

definition np_percentile :: "real list \<Rightarrow> real \<Rightarrow> real" where
  "np_percentile xs p =
     (let s = sort xs; n = length s; h = real (n - 1) * p / 100; lo = nat \<lfloor>h\<rfloor>; hi = min (lo + 1) (n - 1)
      in s ! lo + (h - real lo) * (s ! hi - s ! lo))"

definition PERCENTILES :: "nat list" where
  "PERCENTILES = [5, 25, 50, 75, 95]"

definition percentile_dict :: "(string, real list) dict \<Rightarrow> (string, (nat, real) dict) dict" where
  "percentile_dict matrix = map (\<lambda>(k, arr). (k, map (\<lambda>p. (p, np_percentile arr (real p))) PERCENTILES)) matrix"

definition mean_dict :: "(string, real list) dict \<Rightarrow> (string, real) dict" where
  "mean_dict matrix = map (\<lambda>(k, v). (k, sum_list v / real (length v))) matrix"

section \<open>The bootstrap of the trades\<close>

record mc_draws =
  md_idx :: "nat list list"
  md_coin :: "nat list list"
  md_win_idx :: "nat list list"
  md_loss_idx :: "nat list list"

record TradeBootstrapResult =
  tb_n_iter :: nat
  tb_realized :: mc_summary
  tb_percentiles :: "(string, (nat, real) dict) dict"
  tb_means :: "(string, real) dict"
  tb_stds :: "(string, real option) dict"
  tb_permutation_pvalue :: "real option option"

text \<open>\<open>np.divide(means, stds, out=zeros, where=stds > 0)\<close> of one row; a single trade has no deviation and the row keeps its zero.\<close>

definition row_sharpe :: "real list \<Rightarrow> real" where
  "row_sharpe row =
     (let mean = sum_list row / real (length row)
      in if length row > 1 \<and> std_ddof1 row > 0 then mean / std_ddof1 row else 0)"

definition boot_matrices :: "nat \<Rightarrow> real list list \<Rightarrow> (string, real list) dict" where
  "boot_matrices n samples =
     [(''total_pnl'', map sum_list samples),
      (''win_rate'', map (\<lambda>row. real (length (filter (\<lambda>p. p > 0) row)) / real n) samples),
      (''sharpe_per_trade'', map row_sharpe samples),
      (''max_drawdown_usd'', map drawdown_of samples)]"

text \<open>\<open>Some None\<close> is the \<open>nan\<close> of a vector without a win or without a loss.\<close>

definition permutation_pvalue_arr :: "real list \<Rightarrow> mc_draws \<Rightarrow> real option" where
  "permutation_pvalue_arr pnls d =
     (let wins_pnl = filter (\<lambda>p. p > 0) pnls; losses_pnl = filter (\<lambda>p. p \<le> 0) pnls
      in if wins_pnl = [] \<or> losses_pnl = [] then None
         else (let null_totals = map (\<lambda>(coin, win_idx, loss_idx).
                     sum_list (map (\<lambda>(c, w, l). if c = 1 then wins_pnl ! w else losses_pnl ! l) (zip coin (zip win_idx loss_idx))))
                     (zip (md_coin d) (zip (md_win_idx d) (md_loss_idx d)))
               in Some (real (length (filter (\<lambda>t. t \<ge> sum_list pnls) null_totals)) / real (length null_totals))))"

definition bootstrap_metrics :: "backtest_trade list \<Rightarrow> mc_draws \<Rightarrow> bool \<Rightarrow> TradeBootstrapResult" where
  "bootstrap_metrics trades d include_permutation =
     (let pnls = map bt_pnl_usd trades; n = length pnls; realized = summary_from_pnls pnls
      in if n = 0 then \<lparr>tb_n_iter = 0, tb_realized = realized, tb_percentiles = [], tb_means = [], tb_stds = [], tb_permutation_pvalue = None\<rparr>
         else (let samples = map (map (\<lambda>i. pnls ! i)) (md_idx d); matrices = boot_matrices n samples
               in \<lparr>tb_n_iter = length (md_idx d), tb_realized = realized, tb_percentiles = percentile_dict matrices,
                   tb_means = mean_dict matrices,
                   tb_stds = map (\<lambda>(k, v). (k, if length v > 1 then Some (std_ddof1 v) else None)) matrices,
                   tb_permutation_pvalue = (if include_permutation then Some (permutation_pvalue_arr pnls d) else None)\<rparr>))"

definition verdict_from_bootstrap :: "TradeBootstrapResult \<Rightarrow> string" where
  "verdict_from_bootstrap r =
     (if tb_n_iter r = 0 then ''inconclusive''
      else (let p5 = dict_getd (dict_getd (tb_percentiles r) ''total_pnl'' []) 5 0;
                pv_lt = (\<lambda>x. case tb_permutation_pvalue r of Some (Some p) \<Rightarrow> p < x | _ \<Rightarrow> False);
                pv_ge = (\<lambda>x. case tb_permutation_pvalue r of Some (Some p) \<Rightarrow> p \<ge> x | _ \<Rightarrow> False)
            in if p5 > 0 \<and> pv_lt (5 / 100) then ''edge_likely''
               else if p5 \<le> 0 \<or> pv_ge (10 / 100) then ''no_edge''
               else ''inconclusive''))"

section \<open>The block bootstrap\<close>

record BlockBootstrapReplicate =
  br_iter_idx :: nat
  br_n_markets :: nat
  br_n_trades :: nat
  br_total_pnl :: real
  br_win_rate :: real
  br_sharpe_per_trade :: real
  br_max_drawdown_usd :: real

record BlockBootstrapResult =
  bb_n_iter :: nat
  bb_n_source_markets :: nat
  bb_realized :: "(mc_summary \<times> nat) option"
  bb_percentiles :: "(string, (nat, real) dict) dict"
  bb_means :: "(string, real) dict"
  bb_stds :: "(string, real) dict"
  bb_replicates :: "BlockBootstrapReplicate list"

text \<open>The loader that yields the sampled markets whatever the time range, with the settlement prices of the source.\<close>

record materialized_loader =
  ml_markets :: "(string \<times> tick_core list) list"
  ml_settle :: "(string, real) dict option"

definition materialize :: "(real \<Rightarrow> real \<Rightarrow> (string \<times> tick_core list) list \<times> (string, real) dict option) \<Rightarrow> real \<Rightarrow> real \<Rightarrow> materialized_loader" where
  "materialize loader from_ts to_ts = (let (markets, settle) = loader from_ts to_ts in \<lparr>ml_markets = markets, ml_settle = settle\<rparr>)"

definition sampled_markets :: "materialized_loader \<Rightarrow> nat list \<Rightarrow> (string \<times> tick_core list) list" where
  "sampled_markets ml idxs = map (\<lambda>i. ml_markets ml ! i) idxs"

text \<open>One replicate: \<open>draws\<close> is the stream of the fill model seeded for this replicate.\<close>

definition replicate_run :: "'s strategy \<times> 's \<Rightarrow> materialized_loader \<Rightarrow> real \<Rightarrow> real \<Rightarrow> bt_params \<Rightarrow> risk_manager \<Rightarrow> (string, jval) dict \<Rightarrow>
    (nat \<Rightarrow> real) \<Rightarrow> nat list \<Rightarrow> 's backtest_run_result" where
  "replicate_run factory ml from_ts to_ts P risk cfg draws idxs =
     run_backtest (fst factory) (sampled_markets ml idxs) from_ts to_ts (P\<lparr>bp_settle_prices := ml_settle ml, bp_draws := draws\<rparr>) risk cfg (snd factory)"

definition replicate_of :: "nat \<Rightarrow> 's backtest_run_result \<Rightarrow> BlockBootstrapReplicate" where
  "replicate_of it result =
     (let s = summary_from_pnls (map bt_pnl_usd (res_trades result))
      in \<lparr>br_iter_idx = it, br_n_markets = res_n_markets result, br_n_trades = res_n_trades result, br_total_pnl = sm_total_pnl s,
          br_win_rate = sm_win_rate s, br_sharpe_per_trade = sm_sharpe_per_trade s, br_max_drawdown_usd = sm_max_drawdown_usd s\<rparr>)"

definition block_matrices :: "BlockBootstrapReplicate list \<Rightarrow> (string, real list) dict" where
  "block_matrices rs =
     [(''total_pnl'', map br_total_pnl rs), (''win_rate'', map br_win_rate rs), (''sharpe_per_trade'', map br_sharpe_per_trade rs),
      (''max_drawdown_usd'', map br_max_drawdown_usd rs)]"

definition block_bootstrap_replay :: "'s strategy \<times> 's \<Rightarrow> (real \<Rightarrow> real \<Rightarrow> (string \<times> tick_core list) list \<times> (string, real) dict option) \<Rightarrow>
    real \<Rightarrow> real \<Rightarrow> bt_params \<Rightarrow> (string, real) dict \<Rightarrow> (string, jval) dict \<Rightarrow> (nat \<Rightarrow> nat \<Rightarrow> real) \<Rightarrow> nat list list \<Rightarrow>
    's backtest_run_result option \<Rightarrow> py_error + BlockBootstrapResult" where
  "block_bootstrap_replay factory loader from_ts to_ts P risk_cfg cfg draws idx_rows realized =
     (let ml = materialize loader from_ts to_ts
      in if ml_markets ml = [] then Inr \<lparr>bb_n_iter = 0, bb_n_source_markets = 0, bb_realized = None, bb_percentiles = [], bb_means = [],
           bb_stds = [], bb_replicates = []\<rparr>
         else bind_r (if idx_rows = [] then Inr None else map_sum id Some (new_risk_manager risk_cfg)) (\<lambda>risk.
           let replicates = map (\<lambda>(it, idxs). replicate_of it (replicate_run factory ml from_ts to_ts P (the risk) cfg (draws it) idxs))
                 (enumerate 0 idx_rows);
               matrices = block_matrices replicates
           in Inr \<lparr>bb_n_iter = length idx_rows, bb_n_source_markets = length (ml_markets ml),
                bb_realized = map_option (\<lambda>r. (summary_from_pnls (map bt_pnl_usd (res_trades r)), res_n_markets r)) realized,
                bb_percentiles = percentile_dict matrices, bb_means = mean_dict matrices,
                bb_stds = map (\<lambda>(k, v). (k, if length v > 1 then std_ddof1 v else 0)) matrices, bb_replicates = replicates\<rparr>))"

section \<open>Percentiles\<close>

text \<open>The fractional rank of a percentile and the two ranks around it.\<close>

definition pct_pos :: "real list \<Rightarrow> real \<Rightarrow> real" where
  "pct_pos xs p = real (length xs - 1) * p / 100"

definition pct_lo :: "real list \<Rightarrow> real \<Rightarrow> nat" where
  "pct_lo xs p = nat \<lfloor>pct_pos xs p\<rfloor>"

definition pct_hi :: "real list \<Rightarrow> real \<Rightarrow> nat" where
  "pct_hi xs p = min (pct_lo xs p + 1) (length xs - 1)"

lemma np_percentile_form:
  "np_percentile xs p = sort xs ! pct_lo xs p + (pct_pos xs p - real (pct_lo xs p)) * (sort xs ! pct_hi xs p - sort xs ! pct_lo xs p)"
  by (simp add: np_percentile_def pct_hi_def pct_lo_def pct_pos_def Let_def)

lemma sort_nth_mono:
  fixes xs :: "real list"
  assumes "xs \<noteq> []" "i \<le> j" "j \<le> length xs - 1"
  shows "sort xs ! i \<le> sort xs ! j"
proof -
  have "j < length (sort xs)" using assms(1,3) by (cases "length xs") auto
  with assms(2) show ?thesis by (intro sorted_nth_mono) simp_all
qed

lemma pct_lo_bounds:
  assumes "0 \<le> p" "p \<le> 100"
  shows "real (pct_lo xs p) \<le> pct_pos xs p" "pct_pos xs p < real (pct_lo xs p) + 1" "pct_lo xs p \<le> length xs - 1"
    "pct_lo xs p \<le> pct_hi xs p" "pct_hi xs p \<le> length xs - 1"
proof -
  have h: "0 \<le> pct_pos xs p" "pct_pos xs p \<le> real (length xs - 1)"
    using assms mult_left_mono [of p 100 "real (length xs - 1)"] by (simp_all add: pct_pos_def)
  then show 1: "real (pct_lo xs p) \<le> pct_pos xs p" "pct_pos xs p < real (pct_lo xs p) + 1"
    by (simp_all add: pct_lo_def)
  with h(2) show 2: "pct_lo xs p \<le> length xs - 1" by linarith
  then show "pct_lo xs p \<le> pct_hi xs p" "pct_hi xs p \<le> length xs - 1" by (simp_all add: pct_hi_def)
qed

lemma percentile_between:
  assumes "xs \<noteq> []" "0 \<le> p" "p \<le> 100"
  shows "sort xs ! pct_lo xs p \<le> np_percentile xs p" and "np_percentile xs p \<le> sort xs ! pct_hi xs p"
proof -
  note b = pct_lo_bounds [OF assms(2,3), of xs]
  let ?d = "sort xs ! pct_hi xs p - sort xs ! pct_lo xs p" and ?w = "pct_pos xs p - real (pct_lo xs p)"
  have d: "0 \<le> ?d" using sort_nth_mono [OF assms(1) b(4,5)] by simp
  have "0 \<le> ?w" "?w \<le> 1" using b(1,2) by simp_all
  with d have 1: "0 \<le> ?w * ?d" and 2: "?w * ?d \<le> ?d" using mult_right_mono [of ?w 1 ?d] by simp_all
  show "sort xs ! pct_lo xs p \<le> np_percentile xs p" unfolding np_percentile_form using 1 by simp
  have "np_percentile xs p \<le> sort xs ! pct_lo xs p + ?d" unfolding np_percentile_form using 2 by (rule add_left_mono)
  then show "np_percentile xs p \<le> sort xs ! pct_hi xs p" by simp
qed

lemma percentile_mono:
  assumes "xs \<noteq> []" "0 \<le> p" "p \<le> q" "q \<le> 100"
  shows "np_percentile xs p \<le> np_percentile xs q"
proof -
  note b = pct_lo_bounds [of q xs]
  have q: "0 \<le> q" "p \<le> 100" using assms by auto
  have h: "pct_pos xs p \<le> pct_pos xs q" using assms(3) by (simp add: pct_pos_def mult_left_mono)
  then have lo: "pct_lo xs p \<le> pct_lo xs q" unfolding pct_lo_def by (intro nat_mono floor_mono)
  show ?thesis
  proof (cases "pct_lo xs p = pct_lo xs q")
    case True
    then have hi: "pct_hi xs p = pct_hi xs q" by (simp add: pct_hi_def)
    have "0 \<le> sort xs ! pct_hi xs q - sort xs ! pct_lo xs q" using sort_nth_mono [OF assms(1)] b(4,5) q assms(4) by simp
    then have "(pct_pos xs p - real (pct_lo xs q)) * (sort xs ! pct_hi xs q - sort xs ! pct_lo xs q) \<le>
        (pct_pos xs q - real (pct_lo xs q)) * (sort xs ! pct_hi xs q - sort xs ! pct_lo xs q)"
      using h by (intro mult_right_mono) auto
    with True hi show ?thesis unfolding np_percentile_form by simp
  next
    case False
    with lo have "pct_hi xs p \<le> pct_lo xs q" by (simp add: pct_hi_def)
    then have "sort xs ! pct_hi xs p \<le> sort xs ! pct_lo xs q" using b(3) q assms(4) by (intro sort_nth_mono [OF assms(1)]) auto
    with percentile_between(2) [OF assms(1,2) q(2)] percentile_between(1) [OF assms(1) q(1) assms(4)] show ?thesis by linarith
  qed
qed

lemma percentile_range:
  assumes "xs \<noteq> []" "0 \<le> p" "p \<le> 100" "\<And>x. x \<in> set xs \<Longrightarrow> a \<le> x \<and> x \<le> b"
  shows "a \<le> np_percentile xs p \<and> np_percentile xs p \<le> b"
proof -
  have "sort xs ! i \<in> set xs" if "i \<le> length xs - 1" for i
  proof -
    have "i < length (sort xs)" using that assms(1) by (cases "length xs") auto
    from nth_mem [OF this] show ?thesis by simp
  qed
  with pct_lo_bounds(3,5) [OF assms(2,3), of xs] assms(4)
  have "a \<le> sort xs ! pct_lo xs p" "sort xs ! pct_hi xs p \<le> b" by blast+
  with percentile_between [OF assms(1-3)] show ?thesis by linarith
qed

lemma percentile_positive:
  assumes "xs \<noteq> []" "0 \<le> p" "p \<le> 100" "0 < np_percentile xs p"
  shows "real (length (filter (\<lambda>x. x \<le> 0) xs)) \<le> pct_pos xs p + 1"
proof -
  let ?s = "sort xs" and ?hi = "pct_hi xs p"
  have pos: "0 < ?s ! ?hi" using percentile_between(2) [OF assms(1-3)] assms(4) by linarith
  have "0 < x" if "x \<in> set (drop ?hi ?s)" for x
  proof -
    obtain i where i: "i < length (drop ?hi ?s)" "x = drop ?hi ?s ! i" using \<open>x \<in> set (drop ?hi ?s)\<close> by (metis in_set_conv_nth)
    then have "?s ! ?hi \<le> ?s ! (?hi + i)" by (intro sort_nth_mono [OF assms(1)]) auto
    with pos i show ?thesis by simp
  qed
  then have "filter (\<lambda>x. x \<le> 0) (drop ?hi ?s) = []" by (auto simp: filter_empty_conv not_le)
  then have "filter (\<lambda>x. x \<le> 0) ?s = filter (\<lambda>x. x \<le> 0) (take ?hi ?s)" by (metis append_Nil2 append_take_drop_id filter_append)
  then have "length (filter (\<lambda>x. x \<le> 0) ?s) \<le> ?hi" using length_filter_le [of "\<lambda>x. x \<le> 0" "take ?hi ?s"] by simp
  moreover have "length (filter (\<lambda>x. x \<le> 0) ?s) = length (filter (\<lambda>x. x \<le> 0) xs)" by (metis filter_sort length_sort)
  moreover have "?hi \<le> pct_lo xs p + 1" by (simp add: pct_hi_def)
  ultimately show ?thesis using pct_lo_bounds(1) [OF assms(2,3), of xs] by linarith
qed

section \<open>Drawdowns\<close>

lemma mdd_loop_Min:
  "mdd_loop ps e pk m = Min (insert m (set (map (\<lambda>(a, b). a - b) (zip (cumsum_from e ps) (peaks_from pk (cumsum_from e ps))))))"
proof (induction ps arbitrary: e pk m)
  case (Cons p ps)
  have "Min (insert (min m d) S) = Min (insert m (insert d S))" if "finite S" for d :: real and S
    using that by (cases "S = {}") (auto simp: min.assoc)
  with Cons show ?case by (simp add: Let_def)
qed simp

lemma drawdown_Cons: "drawdown_of (x # ps) = mdd_loop ps x x 0"
  by (simp add: drawdown_of_def maximum_accumulate_def mdd_loop_Min Let_def)

lemma mdd_loop_antimono: "pk \<le> pk' \<Longrightarrow> m' \<le> m \<Longrightarrow> mdd_loop ps e pk' m' \<le> mdd_loop ps e pk m"
proof (induction ps arbitrary: e pk pk' m m')
  case (Cons p ps)
  then show ?case by (auto simp: Let_def intro!: Cons.IH)
qed simp

lemma mdd_loop_below: "mdd_loop ps e pk m \<le> m"
proof (induction ps arbitrary: e pk m)
  case (Cons p ps)
  from Cons [of "e + p" "max pk (e + p)" "min m (e + p - max pk (e + p))"] show ?case by (simp add: Let_def)
qed simp

lemma drawdown_le_0: "ps \<noteq> [] \<Longrightarrow> drawdown_of ps \<le> 0"
  using mdd_loop_below by (cases ps) (auto simp: drawdown_Cons)

text \<open>C17. The drawdown of the Monte Carlo summary forgets the loss from the start. The report of a backtest measures from an equity
  of zero; it is the drawdown of the vector with a zero in front. The summary takes the first trade as its first peak, so its
  figure is never deeper than the report's, and a run that is one losing trade has drawdown zero there
  and the whole loss in the report.\<close>

theorem mc_drawdown_forgets_opening_loss:
  assumes "trades \<noteq> []"
  shows "ra_mdd_usd (snd (compute_kpis trades dur)) = drawdown_of (0 # map bt_pnl_usd trades) \<and>
    ra_mdd_usd (snd (compute_kpis trades dur)) \<le> sm_max_drawdown_usd (summary_from_pnls (map bt_pnl_usd trades)) \<and>
    sm_max_drawdown_usd (summary_from_pnls (map bt_pnl_usd trades)) \<le> 0 \<and>
    (\<forall>t. trades = [t] \<longrightarrow> sm_max_drawdown_usd (summary_from_pnls (map bt_pnl_usd trades)) = 0 \<and>
       ra_mdd_usd (snd (compute_kpis trades dur)) = min 0 (bt_pnl_usd t))"
proof -
  obtain t ts where ts: "trades = t # ts" using assms by (cases trades) auto
  let ?p = "map bt_pnl_usd trades"
  have rep: "ra_mdd_usd (snd (compute_kpis trades dur)) = mdd_loop ?p 0 0 0" using assms by (simp add: compute_kpis_def Let_def)
  have sm: "sm_max_drawdown_usd (summary_from_pnls ?p) = drawdown_of ?p" using assms by (simp add: summary_from_pnls_def Let_def)
  have "mdd_loop ?p 0 0 0 \<le> drawdown_of ?p" unfolding ts by (simp add: drawdown_Cons Let_def mdd_loop_antimono)
  moreover have "drawdown_of ?p \<le> 0" using assms by (intro drawdown_le_0) simp
  moreover have "drawdown_of (0 # ?p) = mdd_loop ?p 0 0 0" by (simp add: drawdown_Cons)
  ultimately show ?thesis unfolding rep sm by (auto simp: drawdown_Cons Let_def min_def max_def)
qed

section \<open>What the bootstrap reports\<close>

definition pct :: "TradeBootstrapResult \<Rightarrow> string \<Rightarrow> nat \<Rightarrow> real" where
  "pct r k p = dict_getd (dict_getd (tb_percentiles r) k []) p 0"

definition draws_ok :: "nat \<Rightarrow> mc_draws \<Rightarrow> bool" where
  "draws_ok n d \<longleftrightarrow> md_idx d \<noteq> [] \<and> list_all (\<lambda>row. length row = n \<and> list_all (\<lambda>i. i < n) row) (md_idx d)"

definition resampled :: "backtest_trade list \<Rightarrow> mc_draws \<Rightarrow> real list list" where
  "resampled trades d = map (map (\<lambda>i. map bt_pnl_usd trades ! i)) (md_idx d)"

lemma pct_bootstrap:
  assumes "trades \<noteq> []" "k \<in> {''total_pnl'', ''win_rate'', ''sharpe_per_trade'', ''max_drawdown_usd''}" "p \<in> set PERCENTILES"
  shows "pct (bootstrap_metrics trades d perm) k p =
    np_percentile (the (map_of (boot_matrices (length trades) (resampled trades d)) k)) (real p)"
  using assms
  by (auto simp: pct_def bootstrap_metrics_def percentile_dict_def boot_matrices_def resampled_def PERCENTILES_def dict_getd_def Let_def)

lemma boot_matrix_nonempty:
  "k \<in> {''total_pnl'', ''win_rate'', ''sharpe_per_trade'', ''max_drawdown_usd''} \<Longrightarrow> md_idx d \<noteq> [] \<Longrightarrow>
   the (map_of (boot_matrices n (resampled trades d)) k) \<noteq> []"
  by (auto simp: boot_matrices_def resampled_def)

lemma resampled_row:
  assumes "draws_ok (length trades) d" "row \<in> set (resampled trades d)"
  shows "length row = length trades" "set row \<subseteq> set (map bt_pnl_usd trades)"
proof -
  obtain idx where idx: "idx \<in> set (md_idx d)" "row = map (\<lambda>i. map bt_pnl_usd trades ! i) idx"
    using assms(2) by (auto simp: resampled_def)
  with assms(1) have "length idx = length trades" "\<forall>i \<in> set idx. i < length trades" by (auto simp: draws_ok_def list_all_iff)
  with idx(2) show "length row = length trades" "set row \<subseteq> set (map bt_pnl_usd trades)" by auto
qed

lemma sum_list_between:
  fixes xs :: "real list"
  assumes "\<And>x. x \<in> set xs \<Longrightarrow> a \<le> x \<and> x \<le> b"
  shows "real (length xs) * a \<le> sum_list xs \<and> sum_list xs \<le> real (length xs) * b"
  using assms
proof (induction xs)
  case (Cons x xs)
  then have "a \<le> x \<and> x \<le> b" "real (length xs) * a \<le> sum_list xs \<and> sum_list xs \<le> real (length xs) * b" by auto
  then show ?case by (simp add: algebra_simps)
qed simp

text \<open>The percentiles of the bootstrap are coherent. For every metric the five percentiles are in ascending order; those of the total
  result lie between the number of trades times the worst and the best trade, those of the win rate in [0, 1], and
  no drawdown is positive.\<close>

theorem bootstrap_percentiles_coherent:
  assumes "trades \<noteq> []" "draws_ok (length trades) d" "r = bootstrap_metrics trades d perm"
  shows "list_all (\<lambda>k. sorted (map (pct r k) PERCENTILES)) [''total_pnl'', ''win_rate'', ''sharpe_per_trade'', ''max_drawdown_usd''] \<and>
    real (length trades) * Min (set (map bt_pnl_usd trades)) \<le> pct r ''total_pnl'' 5 \<and>
    pct r ''total_pnl'' 95 \<le> real (length trades) * Max (set (map bt_pnl_usd trades)) \<and>
    0 \<le> pct r ''win_rate'' 5 \<and> pct r ''win_rate'' 95 \<le> 1 \<and> pct r ''max_drawdown_usd'' 95 \<le> 0"
proof -
  let ?M = "\<lambda>k. the (map_of (boot_matrices (length trades) (resampled trades d)) k)" and ?p = "map bt_pnl_usd trades"
  have ne: "md_idx d \<noteq> []" using assms(2) by (simp add: draws_ok_def)
  have asc: "sorted (map (pct r k) PERCENTILES)" if k: "k \<in> {''total_pnl'', ''win_rate'', ''sharpe_per_trade'', ''max_drawdown_usd''}" for k
  proof -
    have "map (pct r k) PERCENTILES = map (\<lambda>p. np_percentile (?M k) (real p)) PERCENTILES"
      unfolding assms(3) by (rule map_cong) (simp_all add: pct_bootstrap [OF assms(1) k])
    then show ?thesis using percentile_mono [OF boot_matrix_nonempty [OF k ne]] by (simp add: PERCENTILES_def)
  qed
  have bound: "a \<le> pct r k p \<and> pct r k p \<le> b"
    if "k \<in> {''total_pnl'', ''win_rate'', ''sharpe_per_trade'', ''max_drawdown_usd''}" "p \<in> set PERCENTILES" "\<And>x. x \<in> set (?M k) \<Longrightarrow> a \<le> x \<and> x \<le> b"
    for k p a b
    unfolding assms(3) pct_bootstrap [OF assms(1) that(1,2)] using that boot_matrix_nonempty [OF that(1) ne]
    by (intro percentile_range) (auto simp: PERCENTILES_def)
  have tot: "real (length trades) * Min (set ?p) \<le> x \<and> x \<le> real (length trades) * Max (set ?p)" if x: "x \<in> set (?M ''total_pnl'')" for x
  proof -
    obtain row where row: "row \<in> set (resampled trades d)" "x = sum_list row" using x by (auto simp: boot_matrices_def)
    have "Min (set ?p) \<le> y \<and> y \<le> Max (set ?p)" if "y \<in> set row" for y
      using resampled_row(2) [OF assms(2) row(1)] that by (metis List.finite_set Max_ge Min_le subsetD)
    from sum_list_between [of row, OF this] resampled_row(1) [OF assms(2) row(1)] row(2) show ?thesis by simp
  qed
  have wr: "0 \<le> x \<and> x \<le> 1" if x: "x \<in> set (?M ''win_rate'')" for x
  proof -
    obtain row where row: "row \<in> set (resampled trades d)" "x = real (length (filter (\<lambda>p. p > 0) row)) / real (length trades)"
      using x by (auto simp: boot_matrices_def)
    then show ?thesis using resampled_row(1) [OF assms(2) row(1)] length_filter_le [of "\<lambda>p. p > 0" row] by (simp add: divide_le_eq)
  qed
  have dd: "x \<le> 0" if x: "x \<in> set (?M ''max_drawdown_usd'')" for x
  proof -
    obtain row where row: "row \<in> set (resampled trades d)" "x = drawdown_of row" using x by (auto simp: boot_matrices_def)
    have "row \<noteq> []" using resampled_row(1) [OF assms(2) row(1)] assms(1) by auto
    with row(2) drawdown_le_0 show ?thesis by simp
  qed
  have "Min (set (?M ''max_drawdown_usd'')) \<le> x \<and> x \<le> 0" if "x \<in> set (?M ''max_drawdown_usd'')" for x using dd that by simp
  from bound [of "''max_drawdown_usd''" 95, OF _ _ this] bound [of "''total_pnl''", OF _ _ tot] bound [of "''win_rate''", OF _ _ wr] asc
  show ?thesis by (simp add: PERCENTILES_def)
qed

text \<open>C16. What the verdict that an edge is likely stands for. The resampled totals are positive except for at most one in twenty and one
  more; the trades have a win and a loss (a vector without one has no permutation test and can never get this
  verdict); and fewer than one in twenty of the coin-flip replicates reach the realized total.\<close>

theorem edge_verdict_sound:
  assumes "verdict_from_bootstrap (bootstrap_metrics trades d perm) = ''edge_likely''"
  shows "\<exists>p. permutation_pvalue_arr (map bt_pnl_usd trades) d = Some p \<and> p < 5 / 100 \<and> perm \<and>
    20 * length (filter (\<lambda>row. sum_list row \<le> 0) (resampled trades d)) \<le> length (md_idx d) + 19 \<and>
    list_ex (\<lambda>t. bt_pnl_usd t > 0) trades \<and> list_ex (\<lambda>t. bt_pnl_usd t \<le> 0) trades"
proof -
  let ?r = "bootstrap_metrics trades d perm" and ?tot = "map sum_list (resampled trades d)"
  have ne: "trades \<noteq> []" using assms by (auto simp: verdict_from_bootstrap_def bootstrap_metrics_def Let_def)
  have n: "md_idx d \<noteq> []" using assms ne by (auto simp: verdict_from_bootstrap_def bootstrap_metrics_def Let_def split: if_splits)
  have v: "0 < pct ?r ''total_pnl'' 5 \<and> (\<exists>p. tb_permutation_pvalue ?r = Some (Some p) \<and> p < 5 / 100)"
    using assms by (auto simp: verdict_from_bootstrap_def pct_def Let_def split: if_splits option.splits)
  then obtain p where p: "tb_permutation_pvalue ?r = Some (Some p)" "p < 5 / 100" by blast
  then have pv: "perm" "permutation_pvalue_arr (map bt_pnl_usd trades) d = Some p"
    using ne by (auto simp: bootstrap_metrics_def Let_def split: if_splits)
  then have ex: "filter (\<lambda>p. p > 0) (map bt_pnl_usd trades) \<noteq> []" "filter (\<lambda>p. p \<le> 0) (map bt_pnl_usd trades) \<noteq> []"
    by (auto simp: permutation_pvalue_arr_def Let_def split: if_splits)
  have "0 < np_percentile ?tot 5" using v pct_bootstrap [OF ne, of "''total_pnl''" 5 d perm] by (simp add: PERCENTILES_def boot_matrices_def)
  then have "real (length (filter (\<lambda>x. x \<le> 0) ?tot)) \<le> pct_pos ?tot 5 + 1" using n by (intro percentile_positive) (auto simp: resampled_def)
  moreover have "length (filter (\<lambda>x. x \<le> 0) ?tot) = length (filter (\<lambda>row. sum_list row \<le> 0) (resampled trades d))" by (simp add: filter_map comp_def)
  moreover have "pct_pos ?tot 5 = (real (length (md_idx d)) - 1) * 5 / 100" using n by (cases "md_idx d") (simp_all add: pct_pos_def resampled_def)
  ultimately have "real (20 * length (filter (\<lambda>row. sum_list row \<le> 0) (resampled trades d))) \<le> real (length (md_idx d) + 19)" by (simp add: field_simps)
  then have "20 * length (filter (\<lambda>row. sum_list row \<le> 0) (resampled trades d)) \<le> length (md_idx d) + 19" by (simp only: of_nat_le_iff)
  with p pv ex show ?thesis by (auto simp: list_ex_iff filter_empty_conv)
qed

section \<open>Replicates of a one-shot strategy\<close>

definition slugs_of :: "'s bt_state \<Rightarrow> string list" where
  "slugs_of st = map bt_market_slug (bs_trades st)"

lemma stack_update_slug: "tc_market_slug (with_recent (fst (stack_update f c st)) r) = tc_market_slug c"
  using stack_update_market [of c f st] by (simp add: same_market_def with_recent_def tick_core.defs)

context one_shot
begin

text \<open>The markets traded so far are different and have been entered; so has the market of an open position, which is new.\<close>

definition traded_once :: "string \<Rightarrow> market_state \<times> 's bt_state \<Rightarrow> bool" where
  "traded_once slug m \<longleftrightarrow> distinct (slugs_of (snd m)) \<and> set (slugs_of (snd m)) \<subseteq> entered (bs_strat (snd m)) \<and>
     (ms_position (fst m) \<noteq> None \<longrightarrow> slug \<in> entered (bs_strat (snd m)) \<and> slug \<notin> set (slugs_of (snd m)))"

lemma decide_once:
  assumes "sg_should_enter S = decide" "tc_market_slug ctx = slug" "ms_position mk = None" "traded_once slug (mk, st)"
  shows "traded_once slug (bt_decide S P ctx mk st)"
proof -
  obtain d s' where ds: "decide ctx (bs_strat st) = (d, s')" by (cases "decide ctx (bs_strat st)")
  let ?r = "bt_decide S P ctx mk st"
  have st: "slugs_of (snd ?r) = slugs_of st" "bs_strat (snd ?r) = s'"
    by (simp_all add: slugs_of_def bt_decide_def assms(1) ds Let_def split: prod.split)
  show ?thesis
  proof (cases "dc_action d = ENTER")
    case True
    from enter_once [OF ds True] assms(2,4) st show ?thesis by (auto simp: traded_once_def)
  next
    case False
    then have "fst ?r = mk" by (simp add: bt_decide_def assms(1) ds)
    with skip_keeps [OF ds False] assms(3,4) st show ?thesis by (simp add: traded_once_def)
  qed
qed

lemma tick_once:
  assumes "sg_should_enter S = decide" "tc_market_slug tick = slug" "traded_once slug m"
  shows "traded_once slug (bt_tick S P tick m)"
proof -
  obtain mk st where m: "m = (mk, st)" by (cases m)
  let ?core = "fst (stack_update (bp_erf P) tick (ms_indicators mk))"
  let ?ctx = "with_recent ?core (ms_recent mk)" and ?st = "st\<lparr>bs_n_ticks := bs_n_ticks st + 1\<rparr>"
    and ?mk = "mk\<lparr>ms_indicators := snd (stack_update (bp_erf P) tick (ms_indicators mk)), ms_recent := ms_recent mk @ [?core]\<rparr>"
  have keep: "traded_once slug (?mk, ?st)" using assms(3) by (simp add: m traded_once_def slugs_of_def)
  have gate: "traded_once slug (?mk, snd (bt_gate P ?ctx ?st))" using keep by (simp add: traded_once_def slugs_of_def)
  show ?thesis
  proof (cases "ms_position mk = None")
    case True
    from decide_once [OF assms(1) _ _ gate, of ?ctx P] True assms(2) keep gate show ?thesis
      by (simp add: m bt_tick_eq Let_def stack_update_slug)
  next
    case False
    with keep show ?thesis by (simp add: m bt_tick_eq Let_def)
  qed
qed

lemma ticks_once:
  assumes "sg_should_enter S = decide" "list_all (\<lambda>t. tc_market_slug t = slug) ticks" "traded_once slug m"
  shows "traded_once slug (fold (bt_tick S P) ticks m)"
  using assms(2,3) by (induction ticks arbitrary: m) (simp_all add: tick_once [OF assms(1)])

lemma market_once:
  assumes "sg_should_enter S = decide" "list_all (\<lambda>t. tc_market_slug t = slug) ticks"
    "distinct (slugs_of st)" "set (slugs_of st) \<subseteq> entered (bs_strat st)"
  shows "distinct (slugs_of (bt_market S P (slug, ticks) st)) \<and>
    set (slugs_of (bt_market S P (slug, ticks) st)) \<subseteq> entered (bs_strat (bt_market S P (slug, ticks) st))"
proof -
  let ?m = "(fresh_market P, st\<lparr>bs_n_markets := bs_n_markets st + 1\<rparr>)"
  obtain mk st1 where run: "fold (bt_tick S P) ticks ?m = (mk, st1)" by fastforce
  have "traded_once slug ?m" using assms(3,4) by (simp add: traded_once_def slugs_of_def fresh_market_def Let_def)
  from ticks_once [OF assms(1,2) this, of P, unfolded run] have once: "traded_once slug (mk, st1)" .
  have settle: "slugs_of (bt_settle P slug ticks f mk st1) = slugs_of st1 @ (if ms_position mk = None then [] else [slug])"
    "bs_strat (bt_settle P slug ticks f mk st1) = bs_strat st1" for f
    by (simp_all add: slugs_of_def bt_settle_def close_position_def Let_def split: option.split)
  have settled: "distinct (slugs_of (bt_settle P slug ticks f mk st1)) \<and>
      set (slugs_of (bt_settle P slug ticks f mk st1)) \<subseteq> entered (bs_strat (bt_settle P slug ticks f mk st1))" for f
    using once by (cases "ms_position mk") (auto simp: settle traded_once_def)
  have same: "slugs_of (snd ?m) = slugs_of st" "bs_strat (snd ?m) = bs_strat st" by (simp_all add: slugs_of_def)
  have "bt_market S P (slug, ticks) st =
      (if ticks = [] then st else case settle_price P slug ticks of None \<Rightarrow> snd ?m | Some f \<Rightarrow> bt_settle P slug ticks f mk st1)"
    using run by (simp add: bt_market_def Let_def split: option.split)
  then show ?thesis
    using settled same assms(3,4) by (cases "ticks = []"; cases "settle_price P slug ticks") simp_all
qed

lemma replay_once:
  assumes "sg_should_enter S = decide" "own_ticks markets"
  shows "distinct (map bt_market_slug (res_trades (run_backtest S markets from_ts to_ts P risk cfg s0)))"
proof -
  have "distinct (slugs_of (fold (bt_market S P) markets st))" if "distinct (slugs_of st)" "set (slugs_of st) \<subseteq> entered (bs_strat st)" for st
    using assms(2) that
  proof (induction markets arbitrary: st)
    case (Cons m markets)
    obtain slug ticks where m: "m = (slug, ticks)" by (cases m)
    have "list_all (\<lambda>t. tc_market_slug t = slug) ticks" using Cons.prems(1) by (simp add: own_ticks_def m)
    from market_once [OF assms(1) this Cons.prems(2,3), of P] Cons show ?case by (simp add: own_ticks_def m)
  qed simp
  from this [of "bt_init S risk s0"] show ?thesis by (simp add: run_backtest_def bt_init_def slugs_of_def Let_def)
qed

end

lemma tick_n_markets: "bs_n_markets (snd (fold (bt_tick S P) ticks m)) = bs_n_markets (snd m)"
proof (induction ticks arbitrary: m)
  case (Cons t ticks)
  have "bs_n_markets (snd (bt_tick S P t m)) = bs_n_markets (snd m)"
    by (cases m) (simp add: bt_tick_eq bt_gate_def bt_decide_def Let_def case_prod_beta)
  with Cons show ?case by simp
qed simp

lemma market_n_markets: "snd m \<noteq> [] \<Longrightarrow> bs_n_markets (bt_market S P m st) = bs_n_markets st + 1"
  using tick_n_markets [of S P "snd m" "(fresh_market P, st\<lparr>bs_n_markets := bs_n_markets st + 1\<rparr>)"]
  by (cases m) (auto simp: bt_market_def bt_settle_def Let_def case_prod_beta split: option.split)

lemma run_n_markets:
  assumes "list_all (\<lambda>(slug, ticks). ticks \<noteq> []) markets"
  shows "res_n_markets (run_backtest S markets from_ts to_ts P risk cfg s0) = length markets"
proof -
  have "bs_n_markets (fold (bt_market S P) markets st) = bs_n_markets st + length markets" for st
    using assms by (induction markets arbitrary: st) (auto simp: market_n_markets case_prod_beta)
  then show ?thesis by (simp add: run_backtest_def bt_init_def Let_def)
qed

lemma run_trade_slugs: "set (map bt_market_slug (res_trades (run_backtest S markets from_ts to_ts P risk cfg s0))) \<subseteq> set (map fst markets)"
proof -
  obtain new where "bs_trades (fold (bt_market S P) markets (bt_init S risk s0)) = bs_trades (bt_init S risk s0) @ new"
    "subseq (map bt_market_slug new) (map fst markets)"
    using bt_markets_trades [of markets markets "bt_init S risk s0" S P] by (auto simp: bt_init_def)
  moreover have "set (map bt_market_slug new) \<subseteq> set (map fst markets)" using calculation(2) set_nths_subset by (metis subseq_conv_nths)
  ultimately show ?thesis by (simp add: run_backtest_def bt_init_def Let_def)
qed

text \<open>The trades of a replicate against its draws.\<close>

definition each_market_once :: "materialized_loader \<Rightarrow> nat list \<Rightarrow> 's backtest_run_result \<Rightarrow> bool" where
  "each_market_once ml idxs r \<longleftrightarrow> distinct (map bt_market_slug (res_trades r)) \<and>
     res_n_trades r \<le> card (set (map fst (sampled_markets ml idxs))) \<and> res_n_markets r = length idxs"

lemma replicate_once:
  assumes "own_ticks (ml_markets ml)" "list_all (\<lambda>(slug, ticks). ticks \<noteq> []) (ml_markets ml)" "list_all (\<lambda>i. i < length (ml_markets ml)) idxs"
    and once: "\<And>markets P. own_ticks markets \<Longrightarrow> distinct (map bt_market_slug (res_trades (run_backtest S markets from_ts to_ts P risk cfg s0)))"
  shows "each_market_once ml idxs (replicate_run (S, s0) ml from_ts to_ts P risk cfg draws idxs)"
proof -
  let ?r = "replicate_run (S, s0) ml from_ts to_ts P risk cfg draws idxs" and ?ms = "sampled_markets ml idxs"
  have ms: "own_ticks ?ms" "list_all (\<lambda>(slug, ticks). ticks \<noteq> []) ?ms"
    using assms(1-3) by (auto simp: own_ticks_def sampled_markets_def list_all_iff)
  have dist: "distinct (map bt_market_slug (res_trades ?r))" unfolding replicate_run_def fst_conv snd_conv by (rule once [OF ms(1)])
  have n: "res_n_markets ?r = length idxs"
    unfolding replicate_run_def fst_conv snd_conv run_n_markets [OF ms(2)] by (simp add: sampled_markets_def)
  have "set (map bt_market_slug (res_trades ?r)) \<subseteq> set (map fst ?ms)" unfolding replicate_run_def fst_conv by (rule run_trade_slugs)
  then have "card (set (map bt_market_slug (res_trades ?r))) \<le> card (set (map fst ?ms))" by (intro card_mono) auto
  moreover have "res_n_trades ?r = length (map bt_market_slug (res_trades ?r))" by (simp add: replicate_run_def run_backtest_def Let_def)
  ultimately show ?thesis using dist n by (simp only: each_market_once_def distinct_card simp_thms)
qed

text \<open>A repeated market counts once. The block bootstrap draws markets with replacement, but the oracle-lag and the trend
  strategy remember the markets they have entered and a replicate runs one instance over all its draws: no replicate trades a market
  twice, however often it was drawn, so the number of trades is at most the number of different markets drawn,
  while the number of markets it reports counts every draw.\<close>

theorem block_replicate_drops_repeats:
  assumes "own_ticks (ml_markets ml)" "list_all (\<lambda>(slug, ticks). ticks \<noteq> []) (ml_markets ml)" "list_all (\<lambda>i. i < length (ml_markets ml)) idxs"
  shows "each_market_once ml idxs (replicate_run (oracle_strategy erf, s0) ml from_ts to_ts P risk cfg draws idxs) \<and>
    each_market_once ml idxs (replicate_run (trend_strategy choice, s0') ml from_ts to_ts P risk cfg draws idxs)"
  using replicate_once [OF assms lag.replay_once [OF refl]] replicate_once [OF assms trend.replay_once [OF refl]] by blast

section \<open>Worked examples\<close>

definition ex_loader :: materialized_loader where
  "ex_loader = \<lparr>ml_markets = [(''m'', [ex_core])], ml_settle = None\<rparr>"

theorem block_replicate_drops_repeats_witness:
  "res_n_markets (replicate_run (oracle_strategy (\<lambda>x. 0), new_oracle_lag [] None None) ex_loader 0 300 ex_bt_params ex_bt_manager [] (\<lambda>i. 0) [0, 0, 0]) = 3 \<and>
   res_n_trades (replicate_run (oracle_strategy (\<lambda>x. 0), new_oracle_lag [] None None) ex_loader 0 300 ex_bt_params ex_bt_manager [] (\<lambda>i. 0) [0, 0, 0]) \<le> 1"
proof -
  have "own_ticks (ml_markets ex_loader)" "list_all (\<lambda>(slug, ticks). ticks \<noteq> []) (ml_markets ex_loader)"
    "list_all (\<lambda>i. i < length (ml_markets ex_loader)) [0, 0, 0]"
    by (simp_all add: ex_loader_def own_ticks_def ex_core_def)
  from block_replicate_drops_repeats [OF this, of "\<lambda>x. 0" "new_oracle_lag [] None None" 0 300 ex_bt_params ex_bt_manager "[]" "\<lambda>i. 0"]
  show ?thesis by (simp add: each_market_once_def sampled_markets_def ex_loader_def)
qed

definition ex_mc_trade :: "real \<Rightarrow> backtest_trade" where
  "ex_mc_trade pnl = (close_position ex_bt_params ''m'' 1 1 0 0 None (open_position ex_core (mk_decision ENTER YES_UP [] []) 0 1))\<lparr>bt_pnl_usd := pnl\<rparr>"

definition ex_draws :: mc_draws where
  "ex_draws = \<lparr>md_idx = [[0, 0]], md_coin = [[0, 0]], md_win_idx = [[0, 0]], md_loss_idx = [[0, 0]]\<rparr>"

theorem mc_drawdown_forgets_opening_loss_witness:
  "sm_max_drawdown_usd (summary_from_pnls (map bt_pnl_usd [ex_mc_trade (- 3)])) = 0 \<and>
   ra_mdd_usd (snd (compute_kpis [ex_mc_trade (- 3)] 300)) = - 3"
proof -
  have "[ex_mc_trade (- 3)] \<noteq> []" by simp
  from mc_drawdown_forgets_opening_loss [OF this, of 300] show ?thesis by (simp add: ex_mc_trade_def)
qed

theorem bootstrap_percentiles_coherent_witness:
  "pct (bootstrap_metrics [ex_mc_trade 10, ex_mc_trade (- 1)] ex_draws True) ''total_pnl'' 95 \<le> 20"
proof -
  have "draws_ok (length [ex_mc_trade 10, ex_mc_trade (- 1)]) ex_draws" by (simp add: draws_ok_def ex_draws_def)
  from bootstrap_percentiles_coherent [OF _ this refl, of True] show ?thesis by (simp add: ex_mc_trade_def)
qed

theorem edge_verdict_sound_witness:
  "verdict_from_bootstrap (bootstrap_metrics [ex_mc_trade 10, ex_mc_trade (- 1)] ex_draws True) = ''edge_likely'' \<and>
   list_ex (\<lambda>t. bt_pnl_usd t \<le> 0) [ex_mc_trade 10, ex_mc_trade (- 1)]"
proof -
  have "verdict_from_bootstrap (bootstrap_metrics [ex_mc_trade 10, ex_mc_trade (- 1)] ex_draws True) = ''edge_likely''"
    by (simp add: verdict_from_bootstrap_def bootstrap_metrics_def percentile_dict_def boot_matrices_def PERCENTILES_def np_percentile_def
        permutation_pvalue_arr_def ex_draws_def ex_mc_trade_def dict_getd_def Let_def)
  from edge_verdict_sound [OF this] this show ?thesis by blast
qed

end
