(* ===== verification/Data_Loader.thy ===== *)
theory Data_Loader
  imports Backtest Slug
begin

text \<open>
  \<open>engine/data_loader.py\<close> and \<open>paper/backtest_loader.py\<close>: the two stores a replay reads its markets from, and
  the head of \<open>engine/backtest_driver.run_backtest\<close> that asks them. A table is the list of its rows in the
  order the database scans them; a query is a selection, and \<open>ORDER BY\<close> a stable sort, of that list (rows
  that tie keep the scan order, which stands for the order the database happens to choose). A nullable
  column is an option. \<open>pf\<close> is Python's \<open>float(text)\<close>, \<open>None\<close> where it raises. A generator is the list of what
  it yields, with the error that ends it if one does. The log lines and the connections are left out; a
  failing connection to postgres is the error of the parameter \<open>pg\<close>.
\<close>

section \<open>Helpers\<close>

text \<open>\<open>x or y\<close> of a nullable number.\<close>

definition opt_or :: "real option \<Rightarrow> real \<Rightarrow> real" where
  "opt_or x y = (case x of None \<Rightarrow> y | Some v \<Rightarrow> float_or v y)"

text \<open>The distinct values of a column in the order they are first seen (\<open>GROUP BY\<close>, \<open>DISTINCT\<close>, the keys of a dict).\<close>

fun first_seen :: "'a list \<Rightarrow> 'a list" where
  "first_seen [] = []"
| "first_seen (x # xs) = x # filter (\<lambda>y. y \<noteq> x) (first_seen xs)"

lemma set_first_seen [simp]: "set (first_seen xs) = set xs"
  by (induction xs) auto

lemma distinct_first_seen [simp]: "distinct (first_seen xs)"
  by (induction xs) auto

lemma first_seen_snoc: "first_seen (xs @ [x]) = (if x \<in> set xs then first_seen xs else first_seen xs @ [x])"
  by (induction xs) auto

text \<open>A dict comprehension over rows with a nullable value: rows without one are left out, later rows win.\<close>

definition dict_build :: "('r \<Rightarrow> 'k) \<Rightarrow> ('r \<Rightarrow> 'v option) \<Rightarrow> 'r list \<Rightarrow> ('k, 'v) dict" where
  "dict_build k v rows = fold (\<lambda>r d. case v r of None \<Rightarrow> d | Some x \<Rightarrow> AList.update (k r) x d) rows []"

lemma dict_build_snoc:
  "dict_build k v (rows @ [r]) = (case v r of None \<Rightarrow> dict_build k v rows | Some x \<Rightarrow> AList.update (k r) x (dict_build k v rows))"
  by (simp add: dict_build_def split: option.split)

lemma dict_build_Some: "map_of (dict_build k v rows) j = Some x \<Longrightarrow> \<exists>r \<in> set rows. k r = j \<and> v r = Some x"
proof (induction rows rule: rev_induct)
  case (snoc r rows)
  then show ?case by (auto simp: dict_build_snoc split: option.splits if_splits)
qed (simp add: dict_build_def)

lemma dict_build_None: "map_of (dict_build k v rows) j = None \<longleftrightarrow> list_all (\<lambda>r. k r = j \<longrightarrow> v r = None) rows"
proof (induction rows rule: rev_induct)
  case (snoc r rows)
  then show ?case by (auto simp: dict_build_snoc split: option.split)
qed (simp add: dict_build_def)

text \<open>When the rows of a key agree on the value, the look-up is that value.\<close>

lemma dict_build_unique:
  assumes "r \<in> set rows" "k r = j" "v r = Some x" and "\<And>r'. r' \<in> set rows \<Longrightarrow> k r' = j \<Longrightarrow> v r' \<noteq> None \<Longrightarrow> v r' = Some x"
  shows "map_of (dict_build k v rows) j = Some x"
proof (cases "map_of (dict_build k v rows) j")
  case None
  with assms(1-3) show ?thesis by (auto simp: dict_build_None list_all_iff)
next
  case (Some y)
  with dict_build_Some [OF this] assms(4) show ?thesis by force
qed

text \<open>\<open>EXTRACT(EPOCH FROM ts)::bigint\<close>: rounded to the nearest second, halves away from zero.\<close>

definition epoch_bigint :: "datetime \<Rightarrow> int" where
  "epoch_bigint us = (if 0 \<le> us then (us + 500000) div 1000000 else - ((500000 - us) div 1000000))"

text \<open>\<open>to_timestamp(x)\<close>: to the nearest microsecond.\<close>

definition to_timestamp :: "real \<Rightarrow> datetime" where
  "to_timestamp x = py_round (x * 10 ^ 6)"

text \<open>\<open>_run_coro\<close>: inside a running loop the coroutine runs in a thread, where its exception is lost.\<close>

definition run_coro :: "string \<Rightarrow> bool \<Rightarrow> py_error + 'a \<Rightarrow> py_error + 'a" where
  "run_coro who running r =
     (if \<not> running then r
      else case r of Inr v \<Rightarrow> Inr v | Inl _ \<Rightarrow> Inl (RuntimeError (who @ '' helper thread did not complete'')))"

text \<open>\<open>_build_pg_dsn\<close> on the environment.\<close>

definition build_pg_dsn :: "(string, string) dict \<Rightarrow> string" where
  "build_pg_dsn env =
     dict_getd env ''DATABASE_URL''
       (''postgresql://'' @ dict_getd env ''TEA_PG_USER'' ''tea'' @ '':'' @ dict_getd env ''TEA_PG_PASSWORD'' [] @ ''@'' @
        dict_getd env ''TEA_PG_HOST'' ''tea-postgres'' @ '':'' @ dict_getd env ''TEA_PG_PORT'' ''5432'' @ ''/'' @
        dict_getd env ''TEA_PG_DB'' ''trading_edge'')"

section \<open>The tables\<close>

text \<open>A row of the \<open>ticks\<close> table of a polybot store.\<close>

record polybot_row =
  pr_ts :: epoch
  pr_market_slug :: "string option"
  pr_spot_price :: "real option"
  pr_chainlink_price :: "real option"
  pr_open_price :: "real option"
  pr_yes_bid :: "real option"
  pr_yes_ask :: "real option"
  pr_no_bid :: "real option"
  pr_no_ask :: "real option"
  pr_depth_yes :: "real option"
  pr_depth_no :: "real option"
  pr_imbalance :: "real option"
  pr_spread_bps :: "real option"
  pr_implied_prob_yes :: "real option"
  pr_model_prob_yes :: "real option"
  pr_edge :: "real option"
  pr_z_score :: "real option"
  pr_delta_bps :: "real option"

text \<open>A row of \<open>market_data.paper_ticks\<close>, of \<open>market_data.crypto_ohlcv\<close> and of \<open>market_data.polymarket_markets\<close>.\<close>

record paper_row =
  pp_ts :: datetime
  pp_market_slug :: string
  pp_t_in_window :: real
  pp_window_close_ts :: int
  pp_spot_price :: "real option"
  pp_chainlink_price :: "real option"
  pp_open_price :: "real option"
  pp_yes_bid :: "real option"
  pp_yes_ask :: "real option"
  pp_no_bid :: "real option"
  pp_no_ask :: "real option"
  pp_depth_yes :: "real option"
  pp_depth_no :: "real option"
  pp_imbalance :: "real option"
  pp_spread_bps :: "real option"
  pp_implied_prob_yes :: "real option"

record price_candle =
  pc_exchange :: string
  pc_symbol :: string
  pc_interval :: string
  pc_ts :: datetime
  pc_open :: "real option"
  pc_close :: "real option"

record market_row =
  mr_slug :: string
  mr_close_time :: "datetime option"

record loader_db =
  ld_paper_ticks :: "paper_row list"
  ld_ohlcv :: "price_candle list"
  ld_markets :: "market_row list"

text \<open>The one-minute candles of Binance's BTCUSDT.\<close>

definition btc_minute :: "price_candle \<Rightarrow> bool" where
  "btc_minute c \<longleftrightarrow> pc_exchange c = ''binance'' \<and> pc_symbol c = ''BTCUSDT'' \<and> pc_interval c = ''1m''"

section \<open>The polybot store\<close>

record polybot_loader =
  pl_ticks :: "polybot_row list"
  pl_slug_encodes_open_ts :: bool

definition polybot_in_range :: "real \<Rightarrow> real \<Rightarrow> polybot_row list \<Rightarrow> polybot_row list" where
  "polybot_in_range from_ts to_ts table = filter (\<lambda>r. from_ts \<le> pr_ts r \<and> pr_ts r \<le> to_ts) table"

text \<open>The first query of \<open>iter_markets\<close>: the slugs with their first time, in the order of that time.\<close>

definition slug_rows :: "real \<Rightarrow> real \<Rightarrow> polybot_row list \<Rightarrow> (string option \<times> real) list" where
  "slug_rows from_ts to_ts table =
     (let rows = polybot_in_range from_ts to_ts table
      in sort_key snd
           (map (\<lambda>s. (s, Min (set (map pr_ts (filter (\<lambda>r. pr_market_slug r = s) rows)))))
             (first_seen (map pr_market_slug rows))))"

definition slugs_in_order :: "real \<Rightarrow> real \<Rightarrow> polybot_row list \<Rightarrow> string list" where
  "slugs_in_order from_ts to_ts table = filter (\<lambda>s. s \<noteq> []) (List.map_filter fst (slug_rows from_ts to_ts table))"

text \<open>The second query, and the context of a row.\<close>

definition polybot_market_rows :: "real \<Rightarrow> real \<Rightarrow> string \<Rightarrow> polybot_row list \<Rightarrow> polybot_row list" where
  "polybot_market_rows from_ts to_ts slug table =
     sort_key pr_ts (filter (\<lambda>r. pr_market_slug r = Some slug) (polybot_in_range from_ts to_ts table))"

definition polybot_tick :: "real \<Rightarrow> real \<Rightarrow> polybot_row \<Rightarrow> tick_core" where
  "polybot_tick open_ts close_ts r =
     (let ts = pr_ts r;
          yes_bid = opt_or (pr_yes_bid r) 0;
          yes_ask = opt_or (pr_yes_ask r) 0;
          no_bid = (case pr_no_bid r of Some x \<Rightarrow> x | None \<Rightarrow> max 0 (1 - yes_ask));
          no_ask = (case pr_no_ask r of Some x \<Rightarrow> x | None \<Rightarrow> max 0 (1 - yes_bid))
      in \<lparr>tc_ts = ts, tc_market_slug = (case pr_market_slug r of Some s \<Rightarrow> s | None \<Rightarrow> []),
          tc_t_in_window = max 0 (ts - open_ts), tc_window_close_ts = close_ts,
          tc_spot_price = opt_or (pr_spot_price r) 0, tc_chainlink_price = pr_chainlink_price r,
          tc_open_price = opt_or (pr_open_price r) (opt_or (pr_spot_price r) 0),
          tc_pm_yes_bid = yes_bid, tc_pm_yes_ask = yes_ask, tc_pm_no_bid = no_bid, tc_pm_no_ask = no_ask,
          tc_pm_depth_yes = opt_or (pr_depth_yes r) 0, tc_pm_depth_no = opt_or (pr_depth_no r) 0,
          tc_pm_imbalance = opt_or (pr_imbalance r) 0, tc_pm_spread_bps = opt_or (pr_spread_bps r) 0,
          tc_implied_prob_yes = opt_or (pr_implied_prob_yes r) 0,
          tc_model_prob_yes = opt_or (pr_model_prob_yes r) 0, tc_edge = opt_or (pr_edge r) 0,
          tc_z_score = opt_or (pr_z_score r) 0, tc_vol_regime = ''unknown'',
          tc_t_to_close = max 0 (close_ts - ts), tc_ema_fast = 0, tc_ema_slow = 0, tc_rsi_14 = 50,
          tc_vol_realized = 0, tc_vol_ewma = 0, tc_delta_bps = opt_or (pr_delta_bps r) 0\<rparr>)"

definition slug_suffix :: "string \<Rightarrow> string" where
  "slug_suffix slug = rsplit_last (CHR ''-'') slug"

definition polybot_market :: "bool \<Rightarrow> real \<Rightarrow> polybot_row list \<Rightarrow> tick_core list" where
  "polybot_market encodes_open slug_ts rows =
     (let (open_ts, close_ts) = (if encodes_open then (slug_ts, slug_ts + 300) else (slug_ts - 300, slug_ts))
      in map (polybot_tick open_ts close_ts) rows)"

text \<open>The loop of \<open>iter_markets\<close>: a slug whose suffix is not a number ends the generator.\<close>

fun polybot_stream ::
  "(string \<Rightarrow> real option) \<Rightarrow> bool \<Rightarrow> (string \<Rightarrow> polybot_row list) \<Rightarrow> string list
   \<Rightarrow> (string \<times> tick_core list) list \<times> py_error option" where
  "polybot_stream pf encodes_open rows_of [] = ([], None)"
| "polybot_stream pf encodes_open rows_of (slug # slugs) =
     (case pf (slug_suffix slug) of
        None \<Rightarrow> ([], Some (ValueError ''could not convert string to float''))
      | Some slug_ts \<Rightarrow>
          (let (rest, err) = polybot_stream pf encodes_open rows_of slugs
           in ((slug, polybot_market encodes_open slug_ts (rows_of slug)) # rest, err)))"

definition polybot_iter_markets ::
  "(string \<Rightarrow> real option) \<Rightarrow> polybot_loader \<Rightarrow> real \<Rightarrow> real \<Rightarrow> (string \<times> tick_core list) list \<times> py_error option" where
  "polybot_iter_markets pf L from_ts to_ts =
     polybot_stream pf (pl_slug_encodes_open_ts L)
       (\<lambda>slug. polybot_market_rows from_ts to_ts slug (pl_ticks L))
       (slugs_in_order from_ts to_ts (pl_ticks L))"

text \<open>\<open>market_outcomes\<close>: the close minute of each slug, where only a suffix that is no integer is skipped; a
  missing slug has no \<open>rsplit\<close>.\<close>

definition minute_floor :: "int \<Rightarrow> int" where
  "minute_floor ts = (ts div 60) * 60"

fun slug_minutes :: "bool \<Rightarrow> string option list \<Rightarrow> (string, int) dict \<Rightarrow> py_error + (string, int) dict" where
  "slug_minutes encodes_open [] d = Inr d"
| "slug_minutes encodes_open (None # rows) d = Inl (AttributeError ''rsplit'')"
| "slug_minutes encodes_open (Some slug # rows) d =
     (case py_int_of (slug_suffix slug) of
        None \<Rightarrow> slug_minutes encodes_open rows d
      | Some slug_ts \<Rightarrow>
          (let close_ts = (if encodes_open then slug_ts + 300 else slug_ts)
           in slug_minutes encodes_open rows (AList.update slug (minute_floor close_ts) d)))"

definition fetch_closes :: "price_candle list \<Rightarrow> int \<Rightarrow> int \<Rightarrow> (int, real) dict" where
  "fetch_closes table min_ts max_ts =
     dict_build (\<lambda>c. epoch_bigint (pc_ts c)) pc_close
       (filter (\<lambda>c. btc_minute c \<and> min_ts * 1000000 \<le> pc_ts c \<and> pc_ts c \<le> max_ts * 1000000) table)"

definition settles_at :: "(int, real) dict \<Rightarrow> (string, int) dict \<Rightarrow> (string, real) dict" where
  "settles_at close_by_minute slug_to_minute =
     dict_build fst (\<lambda>(slug, minute). map_of close_by_minute minute) slug_to_minute"

definition polybot_market_outcomes ::
  "bool \<Rightarrow> py_error + loader_db \<Rightarrow> polybot_loader \<Rightarrow> real \<Rightarrow> real \<Rightarrow> py_error + (string, real) dict" where
  "polybot_market_outcomes running pg L from_ts to_ts =
     (let rows = first_seen (map pr_market_slug (polybot_in_range from_ts to_ts (pl_ticks L)))
      in bind_r (slug_minutes (pl_slug_encodes_open_ts L) rows []) (\<lambda>slug_to_minute.
           let mins = set (values_of slug_to_minute)
           in if slug_to_minute = [] then Inr []
              else bind_r (run_coro ''market_outcomes'' running
                     (bind_r pg (\<lambda>db. Inr (fetch_closes (ld_ohlcv db) (Min mins) (Max mins)))))
                   (\<lambda>cbm. Inr (settles_at cbm slug_to_minute))))"

text \<open>\<open>warn_if_polybot_stale\<close>: \<open>db\<close> is \<open>None\<close> where the store cannot be read; \<open>now\<close> is the clock.\<close>

datatype stale_warning = Unreadable | NoRows | Stale int real | NotCovered int int real

definition warn_if_polybot_stale ::
  "polybot_row list option \<Rightarrow> real \<Rightarrow> real option \<Rightarrow> real \<Rightarrow> real option \<times> stale_warning list" where
  "warn_if_polybot_stale db now expected_window_end_ts stale_after_hours =
     (case db of
        None \<Rightarrow> (None, [Unreadable])
      | Some rows \<Rightarrow>
          if rows = [] then (None, [NoRows])
          else (let last_ts = Max (set (map pr_ts rows));
                    age_h = (now - last_ts) / 3600
                in (Some last_ts,
                    (if age_h > stale_after_hours then [Stale (py_int last_ts) age_h] else []) @
                    (case expected_window_end_ts of
                       None \<Rightarrow> []
                     | Some e \<Rightarrow> if e > last_ts + 60 then [NotCovered (py_int e) (py_int last_ts) ((e - last_ts) / 3600)] else []))))"

section \<open>The paper store\<close>

text \<open>\<open>_bulk_ohlcv_opens\<close>: the opening price of the minute that starts each window.\<close>

definition bulk_ohlcv_opens :: "price_candle list \<Rightarrow> int list \<Rightarrow> (int, real) dict" where
  "bulk_ohlcv_opens table close_tss =
     (let open_minutes = map (\<lambda>c. (c - 300) * 1000000) close_tss;
          by_minute = dict_build (\<lambda>r. epoch_bigint (pc_ts r)) pc_open
            (filter (\<lambda>r. btc_minute r \<and> pc_ts r \<in> set open_minutes) table)
      in if close_tss = [] then [] else dict_build (\<lambda>c. c) (\<lambda>c. map_of by_minute (c - 300)) close_tss)"

text \<open>\<open>_bulk_settle_prices\<close>: the join of the markets with the candle of their close minute.\<close>

definition trunc_minute :: "datetime \<Rightarrow> datetime" where
  "trunc_minute us = (us div 60000000) * 60000000"

definition joined_candle :: "datetime \<Rightarrow> string \<Rightarrow> price_candle \<Rightarrow> (string \<times> real) option" where
  "joined_candle ct slug k =
     (if btc_minute k \<and> pc_ts k = trunc_minute ct then map_option (\<lambda>x. (slug, x)) (pc_close k) else None)"

definition market_settles :: "price_candle list \<Rightarrow> string list \<Rightarrow> market_row \<Rightarrow> (string \<times> real) list" where
  "market_settles table slugs m =
     (case mr_close_time m of
        None \<Rightarrow> []
      | Some ct \<Rightarrow> if mr_slug m \<in> set slugs then List.map_filter (joined_candle ct (mr_slug m)) table else [])"

definition settle_join :: "market_row list \<Rightarrow> price_candle list \<Rightarrow> string list \<Rightarrow> (string \<times> real) list" where
  "settle_join markets table slugs = concat (map (market_settles table slugs) markets)"

definition bulk_settle_prices :: "market_row list \<Rightarrow> price_candle list \<Rightarrow> string list \<Rightarrow> (string, real) dict" where
  "bulk_settle_prices markets table slugs =
     (if slugs = [] then [] else dict_build fst (\<lambda>(slug, x). Some x) (settle_join markets table slugs))"

definition row_to_tick :: "paper_row \<Rightarrow> real option \<Rightarrow> tick_core" where
  "row_to_tick r ohlcv_open =
     (let ts = of_int (pp_ts r) / 10 ^ 6;
          close_ts = of_int (pp_window_close_ts r);
          spot = opt_or (pp_spot_price r) 0;
          open_price = (case ohlcv_open of
              Some x \<Rightarrow> if x > 0 then x else opt_or (pp_open_price r) (opt_or (pp_spot_price r) 0)
            | None \<Rightarrow> opt_or (pp_open_price r) (opt_or (pp_spot_price r) 0));
          delta_bps = (if open_price > 0 then (spot - open_price) / open_price * 10000 else 0);
          chainlink = opt_or (pp_chainlink_price r) 0
      in \<lparr>tc_ts = ts, tc_market_slug = pp_market_slug r,
          tc_t_in_window = float_or (pp_t_in_window r) 0, tc_window_close_ts = close_ts,
          tc_spot_price = spot, tc_chainlink_price = (if chainlink = 0 then None else Some chainlink),
          tc_open_price = open_price,
          tc_pm_yes_bid = opt_or (pp_yes_bid r) 0, tc_pm_yes_ask = opt_or (pp_yes_ask r) 0,
          tc_pm_no_bid = opt_or (pp_no_bid r) 0, tc_pm_no_ask = opt_or (pp_no_ask r) 0,
          tc_pm_depth_yes = opt_or (pp_depth_yes r) 0, tc_pm_depth_no = opt_or (pp_depth_no r) 0,
          tc_pm_imbalance = opt_or (pp_imbalance r) 0, tc_pm_spread_bps = opt_or (pp_spread_bps r) 0,
          tc_implied_prob_yes = opt_or (pp_implied_prob_yes r) 0, tc_model_prob_yes = 0, tc_edge = 0,
          tc_z_score = 0, tc_vol_regime = ''unknown'', tc_t_to_close = max 0 (close_ts - ts),
          tc_ema_fast = 0, tc_ema_slow = 0, tc_rsi_14 = 50, tc_vol_realized = 0, tc_vol_ewma = 0,
          tc_delta_bps = delta_bps\<rparr>)"

definition paper_in_range :: "real \<Rightarrow> real \<Rightarrow> paper_row list \<Rightarrow> paper_row list" where
  "paper_in_range from_ts to_ts table =
     filter (\<lambda>r. to_timestamp from_ts \<le> pp_ts r \<and> pp_ts r \<le> to_timestamp to_ts) table"

definition fetch_window :: "loader_db \<Rightarrow> real \<Rightarrow> real \<Rightarrow> paper_row list \<times> (int, real) dict" where
  "fetch_window db from_ts to_ts =
     (let ticks_rows = sort_key pp_ts (paper_in_range from_ts to_ts (ld_paper_ticks db));
          close_tss = sort (remdups (map pp_window_close_ts ticks_rows))
      in (ticks_rows, bulk_ohlcv_opens (ld_ohlcv db) close_tss))"

text \<open>The grouping loop of \<open>iter_markets\<close>, with \<open>setdefault(slug, []).append(r)\<close>.\<close>

definition group_by_slug :: "paper_row list \<Rightarrow> (string, paper_row list) dict" where
  "group_by_slug rows =
     fold (\<lambda>r d. if pp_market_slug r = [] then d
                  else AList.update (pp_market_slug r) (dict_getd d (pp_market_slug r) [] @ [r]) d) rows []"

definition paper_iter_markets ::
  "bool \<Rightarrow> py_error + loader_db \<Rightarrow> real \<Rightarrow> real \<Rightarrow> (string \<times> tick_core list) list \<times> py_error option" where
  "paper_iter_markets running pg from_ts to_ts =
     (case run_coro ''PaperTicksLoader'' running (bind_r pg (\<lambda>db. Inr (fetch_window db from_ts to_ts))) of
        Inl e \<Rightarrow> ([], Some e)
      | Inr (ticks_rows, ohlcv_opens) \<Rightarrow>
          (map (\<lambda>(slug, rows).
             (slug, map (\<lambda>r. row_to_tick r (map_of ohlcv_opens (pp_window_close_ts (hd rows)))) rows))
             (group_by_slug ticks_rows), None))"

definition paper_market_outcomes ::
  "bool \<Rightarrow> py_error + loader_db \<Rightarrow> real \<Rightarrow> real \<Rightarrow> py_error + (string, real) dict" where
  "paper_market_outcomes running pg from_ts to_ts =
     run_coro ''PaperTicksLoader'' running (bind_r pg (\<lambda>db.
       let slug_rows = first_seen (map pp_market_slug (paper_in_range from_ts to_ts (ld_paper_ticks db)));
           slugs = filter (\<lambda>s. s \<noteq> []) slug_rows
       in Inr (bulk_settle_prices (ld_markets db) (ld_ohlcv db) slugs)))"

section \<open>A replay of a loader\<close>

text \<open>What \<open>run_backtest\<close> uses of a loader: the outcomes where \<open>provides_settle_prices\<close> is set, and the markets.
  An error of either escapes from it.\<close>

record loader =
  lo_outcomes :: "(real \<Rightarrow> real \<Rightarrow> py_error + (string, real) dict) option"
  lo_markets :: "real \<Rightarrow> real \<Rightarrow> (string \<times> tick_core list) list \<times> py_error option"

definition polybot_source :: "(string \<Rightarrow> real option) \<Rightarrow> bool \<Rightarrow> py_error + loader_db \<Rightarrow> polybot_loader \<Rightarrow> loader" where
  "polybot_source pf running pg L =
     \<lparr>lo_outcomes = Some (polybot_market_outcomes running pg L), lo_markets = polybot_iter_markets pf L\<rparr>"

definition paper_source :: "bool \<Rightarrow> py_error + loader_db \<Rightarrow> loader" where
  "paper_source running pg =
     \<lparr>lo_outcomes = Some (paper_market_outcomes running pg), lo_markets = paper_iter_markets running pg\<rparr>"

definition settle_prices_of :: "loader \<Rightarrow> real \<Rightarrow> real \<Rightarrow> py_error + (string, real) dict option" where
  "settle_prices_of L from_ts to_ts =
     (case lo_outcomes L of
        None \<Rightarrow> Inr None
      | Some outcomes \<Rightarrow> bind_r (outcomes from_ts to_ts) (\<lambda>d. Inr (Some d)))"

definition run_backtest_on ::
  "'s strategy \<Rightarrow> loader \<Rightarrow> real \<Rightarrow> real \<Rightarrow> bt_params \<Rightarrow> risk_manager \<Rightarrow> (string, jval) dict \<Rightarrow> 's
   \<Rightarrow> py_error + 's backtest_run_result" where
  "run_backtest_on S L from_ts to_ts P risk config_used s0 =
     bind_r (settle_prices_of L from_ts to_ts) (\<lambda>settle_prices.
       case lo_markets L from_ts to_ts of
         (markets, Some e) \<Rightarrow> Inl e
       | (markets, None) \<Rightarrow>
           Inr (run_backtest S markets from_ts to_ts (P\<lparr>bp_settle_prices := settle_prices\<rparr>) risk config_used s0))"

section \<open>The contract of a loader\<close>

text \<open>
  What the replay and its clients rely on: every market once, with its own ticks and at least one,
  in the order of time and inside the requested range, the markets in the order of their first tick.
\<close>

locale market_source =
  fixes markets :: "'d \<Rightarrow> datetime \<Rightarrow> datetime \<Rightarrow> (string \<times> tick_core list) list"
  assumes slugs_once: "distinct (map fst (markets d f t))"
    and nonempty: "(slug, ticks) \<in> set (markets d f t) \<Longrightarrow> ticks \<noteq> []"
    and own: "(slug, ticks) \<in> set (markets d f t) \<Longrightarrow> c \<in> set ticks \<Longrightarrow> tc_market_slug c = slug"
    and in_time: "(slug, ticks) \<in> set (markets d f t) \<Longrightarrow> sorted (map tc_ts ticks)"
    and in_range: "(slug, ticks) \<in> set (markets d f t) \<Longrightarrow> c \<in> set ticks \<Longrightarrow> of_int f / 10 ^ 6 \<le> tc_ts c \<and> tc_ts c \<le> of_int t / 10 ^ 6"
    and first_order: "sorted (map (\<lambda>m. tc_ts (hd (snd m))) (markets d f t))"
begin

lemma own_markets: "own_ticks (markets d f t)"
  using own by (fastforce simp: own_ticks_def list_all_iff)

lemma replay_distinct:
  "r = run_backtest S (markets d f t) a b P risk cfg s0 \<Longrightarrow> distinct (map bt_market_slug (res_trades r))"
  using replay_trades(1) slugs_once by (metis subseq_conv_nths distinct_nthsI)

lemma replay_in_range:
  assumes "r = run_backtest S (markets d f t) a b P risk cfg s0" "x \<in> set (res_trades r)"
  shows "of_int f / 10 ^ 6 \<le> bt_entry_ts x \<and> bt_entry_ts x \<le> of_int t / 10 ^ 6"
  using replay_trades(3) [OF assms] in_range by (fastforce simp: trade_ok_def)

end

text \<open>What a trade of such a replay is: entered in the range and in the five minutes before the close of its
  market, and won or lost by the settlement price \<open>px\<close> of the market against the opening price of its ticks.\<close>

definition settled_trade ::
  "(string \<times> tick_core list) list \<Rightarrow> (string \<Rightarrow> real option) \<Rightarrow> (string \<Rightarrow> int) \<Rightarrow> datetime \<Rightarrow> datetime \<Rightarrow> backtest_trade \<Rightarrow> bool" where
  "settled_trade markets px close_of f t x \<longleftrightarrow>
     of_int f / 10 ^ 6 \<le> bt_entry_ts x \<and> bt_entry_ts x \<le> of_int t / 10 ^ 6 \<and>
     of_int (close_of (bt_market_slug x)) - 300 \<le> bt_entry_ts x \<and> bt_entry_ts x < of_int (close_of (bt_market_slug x)) \<and>
     (\<exists>ticks p. (bt_market_slug x, ticks) \<in> set markets \<and> px (bt_market_slug x) = Some p \<and>
        bt_resolution x = (if won_market (open_price_market ticks) p (bt_side x) then ''win'' else ''loss''))"

text \<open>A source whose ticks lie inside the five-minute window of their market, one market per window.\<close>

locale windowed_source = market_source +
  fixes good :: "'d \<Rightarrow> bool" and close_of :: "string \<Rightarrow> int"
  assumes good_tick: "good d \<Longrightarrow> (slug, ticks) \<in> set (markets d f t) \<Longrightarrow> c \<in> set ticks \<Longrightarrow>
      tc_window_close_ts c = of_int (close_of slug) \<and> of_int (close_of slug) - 300 \<le> tc_ts c \<and> tc_ts c < of_int (close_of slug)"
    and close_grid: "good d \<Longrightarrow> (slug, ticks) \<in> set (markets d f t) \<Longrightarrow> 300 dvd close_of slug \<and> 0 < close_of slug"
    and close_inj: "good d \<Longrightarrow> inj_on close_of (fst ` set (markets d f t))"
begin

lemma chronological_list:
  assumes "good d"
  shows "set ms \<subseteq> set (markets d f t) \<Longrightarrow> distinct (map fst ms) \<Longrightarrow> sorted (map (\<lambda>m. tc_ts (hd (snd m))) ms) \<Longrightarrow>
    (case ms of [] \<Rightarrow> True | m # _ \<Rightarrow> t0 \<le> tc_ts (hd (snd m))) \<Longrightarrow> chronological t0 ms"
proof (induction ms arbitrary: t0)
  case (Cons m ms)
  obtain slug ticks where m: "m = (slug, ticks)" by (cases m)
  have mem: "(slug, ticks) \<in> set (markets d f t)" using Cons.prems(1) m by simp
  have ne: "ticks \<noteq> []" by (rule nonempty [OF mem])
  note tick = good_tick [OF assms mem] and grid = close_grid [OF assms mem]
  have close: "close_ts_of ticks = of_int (close_of slug)"
    using tick [of "hd ticks"] grid ne by (simp add: close_ts_of_def float_or_def)
  have "t0 \<le> tc_ts (hd ticks)" using Cons.prems(4) m by simp
  moreover have "tc_ts (hd ticks) \<le> tc_ts c" if "c \<in> set ticks" for c
    using in_time [OF mem] that by (cases ticks) auto
  ultimately have "t0 \<le> tc_ts c \<and> tc_ts c \<le> of_int (close_of slug)" if "c \<in> set ticks" for c
    using tick [OF that] that by fastforce
  moreover from this [of "hd ticks"] ne have "t0 \<le> of_int (close_of slug)" by simp
  ultimately have first: "sorted (t0 # map tc_ts ticks @ [close_ts_of ticks])"
    using in_time [OF mem] by (simp add: close sorted_append)
  have "case ms of [] \<Rightarrow> True | m' # _ \<Rightarrow> of_int (close_of slug) \<le> tc_ts (hd (snd m'))"
  proof (cases ms)
    case (Cons m' ms')
    obtain slug' ticks' where m': "m' = (slug', ticks')" by (cases m')
    have mem': "(slug', ticks') \<in> set (markets d f t)" using Cons.prems(1) m' Cons by simp
    have ne': "hd ticks' \<in> set ticks'" "hd ticks \<in> set ticks" using nonempty [OF mem'] ne by simp_all
    have "slug \<noteq> slug'" using \<open>distinct (map fst (m # ms))\<close> m m' Cons by auto
    then have diff: "close_of slug \<noteq> close_of slug'"
      using close_inj [OF assms, of f t] mem mem' by (force dest: inj_onD)
    have "tc_ts (hd ticks) \<le> tc_ts (hd ticks')"
      using \<open>sorted (map (\<lambda>m. tc_ts (hd (snd m))) (m # ms))\<close> m m' Cons by simp
    with tick [OF ne'(2)] good_tick [OF assms mem' ne'(1)]
    have "(of_int (close_of slug) :: real) - 300 < of_int (close_of slug')" by linarith
    then have "close_of slug - 300 < close_of slug'" by linarith
    moreover obtain k k' where "close_of slug = 300 * k" "close_of slug' = 300 * k'"
      using grid close_grid [OF assms mem'] by (meson dvdE)
    ultimately have "close_of slug \<le> close_of slug' - 300" using diff by simp
    with good_tick [OF assms mem' ne'(1)] have "of_int (close_of slug) \<le> tc_ts (hd ticks')" by linarith
    with m' Cons show ?thesis by simp
  qed simp
  with Cons.IH [of "of_int (close_of slug)"] Cons.prems first ne m show ?case
    by (simp add: close)
qed simp

lemma chronological_markets:
  assumes "good d"
  shows "chronological (of_int f / 10 ^ 6) (markets d f t)"
proof (rule chronological_list [OF assms order_refl slugs_once first_order])
  show "case markets d f t of [] \<Rightarrow> True | m # _ \<Rightarrow> of_int f / 10 ^ 6 \<le> tc_ts (hd (snd m))"
  proof (cases "markets d f t")
    case (Cons m ms)
    then have m: "(fst m, snd m) \<in> set (markets d f t)" by simp
    with nonempty [OF m] in_range [OF m, of "hd (snd m)"] Cons show ?thesis by simp
  qed simp
qed

lemma replay_limits:
  assumes "new_risk_manager cfg_risk = Inr m" "\<not> bp_bypass_risk P" "good d"
    and "r = run_backtest S (markets d f t) a b P m cfg s0" "i < length (res_trades r)"
  shows "within_limits m (take i (res_trades r)) (bt_entry_ts (res_trades r ! i))"
  by (rule replay_within_limits [OF assms(1,2) chronological_markets [OF assms(3)] assms(4,5)])

lemma replay_settled:
  assumes "good d" "r = run_backtest S (markets d f t) a b (P\<lparr>bp_settle_prices := Some prices\<rparr>) risk cfg s0"
    and "x \<in> set (res_trades r)"
    and px: "\<And>slug ticks. (slug, ticks) \<in> set (markets d f t) \<Longrightarrow> map_of prices slug = px slug"
  shows "settled_trade (markets d f t) px close_of f t x"
proof -
  from replay_trades(3) [OF assms(2,3)] obtain ticks c p where
    mem: "(bt_market_slug x, ticks) \<in> set (markets d f t)" and c: "c \<in> set ticks" "bt_entry_ts x = tc_ts c"
    and p: "map_of prices (bt_market_slug x) = Some p"
      "bt_resolution x = (if won_market (open_price_market ticks) p (bt_side x) then ''win'' else ''loss'')"
    by (auto simp: trade_ok_def settle_price_def)
  have "px (bt_market_slug x) = Some p" using px [OF mem] p(1) by simp
  with mem p(2) good_tick [OF assms(1) mem c(1)] replay_in_range [OF assms(2,3)] show ?thesis
    unfolding settled_trade_def c(2) by (intro conjI exI [of _ ticks] exI [of _ p]) simp_all
qed

end

section \<open>The polybot store keeps the contract\<close>

lemma polybot_stream_eq:
  "polybot_stream pf b R ss =
     (map (\<lambda>s. (s, polybot_market b (the (pf (slug_suffix s))) (R s))) (takeWhile (\<lambda>s. pf (slug_suffix s) \<noteq> None) ss),
      if list_all (\<lambda>s. pf (slug_suffix s) \<noteq> None) ss then None else Some (ValueError ''could not convert string to float''))"
  by (induction ss) (auto split: option.split)

lemma map_filter_simps [simp]:
  "List.map_filter g [] = []"
  "List.map_filter g (x # xs) = (case g x of None \<Rightarrow> List.map_filter g xs | Some y \<Rightarrow> y # List.map_filter g xs)"
  by (simp_all add: List.map_filter_def split: option.split)

lemma set_map_filter: "y \<in> set (List.map_filter g xs) \<longleftrightarrow> (\<exists>x \<in> set xs. g x = Some y)"
  by (induction xs) (auto split: option.split)

lemma set_map_filter_fst [simp]: "set (List.map_filter fst xs) = {s. Some s \<in> fst ` set xs}"
  by (induction xs) (auto split: option.split)

lemma distinct_map_filter_fst: "distinct (map fst xs) \<Longrightarrow> distinct (List.map_filter fst xs)"
  by (induction xs) (auto split: option.split simp: image_iff)

lemma sorted_map_filter_fst:
  "sorted (map (g \<circ> fst) xs) \<Longrightarrow> sorted (map (\<lambda>s. g (Some s)) (List.map_filter fst xs))"
proof (induction xs)
  case (Cons x xs)
  show ?case
  proof (cases "fst x")
    case (Some s)
    have "g (Some s) \<le> g (Some s')" if "Some s' \<in> fst ` set xs" for s'
      using Cons.prems that Some by force
    with Cons Some show ?thesis by simp
  qed (use Cons in simp)
qed simp

lemma sorted_map_takeWhile: "sorted (map k xs) \<Longrightarrow> sorted (map k (takeWhile P xs))"
  by (subst (asm) takeWhile_dropWhile_id [of P xs, symmetric]) (simp only: map_append sorted_append)

lemma hd_sort_key_Min: "xs \<noteq> [] \<Longrightarrow> k (hd (sort_key k xs)) = Min (set (map k xs))"
proof -
  assume ne: "xs \<noteq> []"
  then obtain y ys where y: "sort_key k xs = y # ys" by (metis length_0_conv length_sort neq_Nil_conv)
  have set: "set (map k xs) = set (map k (y # ys))" using y by (metis list.set_map set_sort)
  have "sorted (map k (y # ys))" by (metis sorted_sort_key y)
  then have "Min (set (map k (y # ys))) = k y" by (intro Min_eqI) auto
  then show ?thesis unfolding set y by simp
qed

text \<open>The first query: the slugs that have a row in the range, each once, in the order of their first time.\<close>

lemma slug_rows_fst: "mset (map fst (slug_rows f t table)) = mset (first_seen (map pr_market_slug (polybot_in_range f t table)))"
  by (simp add: slug_rows_def Let_def image_mset.compositionality comp_def)

lemma slug_rows_snd:
  "x \<in> set (slug_rows f t table) \<Longrightarrow>
     snd x = Min (set (map pr_ts (filter (\<lambda>r. pr_market_slug r = fst x) (polybot_in_range f t table))))"
  by (auto simp: slug_rows_def Let_def)

lemma polybot_market_rows_nonempty:
  "polybot_market_rows f t s table \<noteq> [] \<longleftrightarrow> Some s \<in> pr_market_slug ` set (polybot_in_range f t table)"
  using set_sort [of pr_ts "filter (\<lambda>r. pr_market_slug r = Some s) (polybot_in_range f t table)"]
  unfolding polybot_market_rows_def by (force simp: filter_empty_conv simp flip: set_empty)

lemma slugs_in_order_set: "s \<in> set (slugs_in_order f t table) \<longleftrightarrow> s \<noteq> [] \<and> polybot_market_rows f t s table \<noteq> []"
proof -
  have "fst ` set (slug_rows f t table) = set (map pr_market_slug (polybot_in_range f t table))"
    using slug_rows_fst [of f t table, THEN mset_eq_setD] by simp
  then show ?thesis by (auto simp: slugs_in_order_def polybot_market_rows_nonempty)
qed

lemma slugs_in_order_distinct: "distinct (slugs_in_order f t table)"
proof -
  have "distinct (map fst (slug_rows f t table))"
    using mset_eq_imp_distinct_iff [OF slug_rows_fst [of f t table]] by simp
  then show ?thesis by (simp add: slugs_in_order_def distinct_map_filter_fst)
qed

lemma slugs_in_order_sorted: "sorted (map (\<lambda>s. pr_ts (hd (polybot_market_rows f t s table))) (slugs_in_order f t table))"
proof -
  let ?g = "\<lambda>o'. Min (set (map pr_ts (filter (\<lambda>r. pr_market_slug r = o') (polybot_in_range f t table))))"
  have "map (?g \<circ> fst) (slug_rows f t table) = map snd (slug_rows f t table)"
    using slug_rows_snd [of _ f t table] by (auto intro!: map_cong)
  moreover have "sorted (map snd (slug_rows f t table))" unfolding slug_rows_def Let_def by (rule sorted_sort_key)
  ultimately have "sorted (map (?g \<circ> fst) (slug_rows f t table))" by (simp only:)
  from sorted_map_filter_fst [OF this]
  have "sorted (map (\<lambda>s. ?g (Some s)) (slugs_in_order f t table))"
    by (simp add: slugs_in_order_def sorted_filter)
  moreover have "pr_ts (hd (polybot_market_rows f t s table)) = ?g (Some s)" if "s \<in> set (slugs_in_order f t table)" for s
  proof -
    have "filter (\<lambda>r. pr_market_slug r = Some s) (polybot_in_range f t table) \<noteq> []"
      using that unfolding slugs_in_order_set polybot_market_rows_def by auto
    from hd_sort_key_Min [OF this, of pr_ts] show ?thesis by (simp add: polybot_market_rows_def)
  qed
  ultimately show ?thesis by (simp cong: map_cong)
qed

lemma polybot_tick_sel [simp]:
  "tc_ts (polybot_tick o' c r) = pr_ts r" "tc_market_slug (polybot_tick o' c r) = (case pr_market_slug r of Some s \<Rightarrow> s | None \<Rightarrow> [])"
  "tc_window_close_ts (polybot_tick o' c r) = c"
  by (simp_all add: polybot_tick_def Let_def)

lemma polybot_market_eq:
  "polybot_market b z rows = map (polybot_tick (if b then z else z - 300) (if b then z + 300 else z)) rows"
  by (simp add: polybot_market_def)

lemma polybot_first_tick:
  "s \<in> set (slugs_in_order f t table) \<Longrightarrow>
     tc_ts (hd (polybot_market b z (polybot_market_rows f t s table))) = pr_ts (hd (polybot_market_rows f t s table))"
  by (simp add: slugs_in_order_set polybot_market_eq hd_map)

definition polybot_markets ::
  "(string \<Rightarrow> real option) \<Rightarrow> bool \<Rightarrow> polybot_row list \<Rightarrow> datetime \<Rightarrow> datetime \<Rightarrow> (string \<times> tick_core list) list" where
  "polybot_markets pf b table f t =
     fst (polybot_iter_markets pf \<lparr>pl_ticks = table, pl_slug_encodes_open_ts = b\<rparr> (of_int f / 10 ^ 6) (of_int t / 10 ^ 6))"

lemma polybot_markets_eq:
  "polybot_markets pf b table f t =
     map (\<lambda>s. (s, polybot_market b (the (pf (slug_suffix s))) (polybot_market_rows (of_int f / 10 ^ 6) (of_int t / 10 ^ 6) s table)))
       (takeWhile (\<lambda>s. pf (slug_suffix s) \<noteq> None) (slugs_in_order (of_int f / 10 ^ 6) (of_int t / 10 ^ 6) table))"
  by (simp add: polybot_markets_def polybot_iter_markets_def polybot_stream_eq)

lemma polybot_markets_mem:
  assumes "(slug, ticks) \<in> set (polybot_markets pf b table f t)"
  shows "slug \<in> set (slugs_in_order (of_int f / 10 ^ 6) (of_int t / 10 ^ 6) table)"
    and "ticks = polybot_market b (the (pf (slug_suffix slug))) (polybot_market_rows (of_int f / 10 ^ 6) (of_int t / 10 ^ 6) slug table)"
    and "c \<in> set ticks \<Longrightarrow> \<exists>r \<in> set table. pr_market_slug r = Some slug \<and> tc_ts c = pr_ts r \<and>
       of_int f / 10 ^ 6 \<le> pr_ts r \<and> pr_ts r \<le> of_int t / 10 ^ 6 \<and> tc_market_slug c = slug \<and>
       tc_window_close_ts c = (if b then the (pf (slug_suffix slug)) + 300 else the (pf (slug_suffix slug)))"
proof -
  show 1: "slug \<in> set (slugs_in_order (of_int f / 10 ^ 6) (of_int t / 10 ^ 6) table)"
    using assms by (auto simp: polybot_markets_eq dest: set_takeWhileD)
  show 2: "ticks = polybot_market b (the (pf (slug_suffix slug))) (polybot_market_rows (of_int f / 10 ^ 6) (of_int t / 10 ^ 6) slug table)"
    using assms by (auto simp: polybot_markets_eq)
  show "c \<in> set ticks \<Longrightarrow> \<exists>r \<in> set table. pr_market_slug r = Some slug \<and> tc_ts c = pr_ts r \<and>
       of_int f / 10 ^ 6 \<le> pr_ts r \<and> pr_ts r \<le> of_int t / 10 ^ 6 \<and> tc_market_slug c = slug \<and>
       tc_window_close_ts c = (if b then the (pf (slug_suffix slug)) + 300 else the (pf (slug_suffix slug)))"
    unfolding 2 by (auto simp: polybot_market_eq polybot_market_rows_def polybot_in_range_def)
qed

interpretation polybot: market_source "polybot_markets pf b" for pf b
proof
  fix table f t slug ticks c
  let ?f = "of_int f / 10 ^ 6 :: real" and ?t = "of_int t / 10 ^ 6 :: real"
  show "distinct (map fst (polybot_markets pf b table f t))"
    by (simp add: polybot_markets_eq comp_def slugs_in_order_distinct distinct_takeWhile)
  have "map (\<lambda>m. tc_ts (hd (snd m))) (polybot_markets pf b table f t) =
      map (\<lambda>s. pr_ts (hd (polybot_market_rows ?f ?t s table))) (takeWhile (\<lambda>s. pf (slug_suffix s) \<noteq> None) (slugs_in_order ?f ?t table))"
    unfolding polybot_markets_eq list.map_comp by (rule map_cong [OF refl]) (drule set_takeWhileD, simp add: polybot_first_tick)
  then show "sorted (map (\<lambda>m. tc_ts (hd (snd m))) (polybot_markets pf b table f t))"
    by (simp only: sorted_map_takeWhile slugs_in_order_sorted)
  assume mem: "(slug, ticks) \<in> set (polybot_markets pf b table f t)"
  note eq = polybot_markets_mem(2) [OF mem]
  show "ticks \<noteq> []" using polybot_markets_mem(1) [OF mem] by (simp add: eq slugs_in_order_set polybot_market_eq)
  show "sorted (map tc_ts ticks)" by (simp add: eq polybot_market_eq comp_def polybot_market_rows_def)
  assume "c \<in> set ticks"
  from polybot_markets_mem(3) [OF mem this] show "tc_market_slug c = slug" "?f \<le> tc_ts c \<and> tc_ts c \<le> ?t" by auto
qed

text \<open>Rows recorded inside the window their slug names: the slug of a five-minute window, a suffix that
  Python reads as its number, a time before the close and not before the opening.\<close>

definition slug_close :: "bool \<Rightarrow> string \<Rightarrow> int" where
  "slug_close b slug = (case py_int_of (slug_suffix slug) of Some n \<Rightarrow> if b then n + 300 else n | None \<Rightarrow> 0)"

definition window_slug :: "bool \<Rightarrow> string \<Rightarrow> bool" where
  "window_slug b slug \<longleftrightarrow>
     (case py_int_of (slug_suffix slug) of None \<Rightarrow> False | Some n \<Rightarrow> slug = SLUG_PREFIX @ show_int n) \<and>
     0 < slug_close b slug \<and> 300 dvd slug_close b slug"

definition polybot_row_ok :: "(string \<Rightarrow> real option) \<Rightarrow> bool \<Rightarrow> polybot_row \<Rightarrow> bool" where
  "polybot_row_ok pf b r \<longleftrightarrow>
     (case pr_market_slug r of
        None \<Rightarrow> False
      | Some s \<Rightarrow> window_slug b s \<and> pf (slug_suffix s) = map_option of_int (py_int_of (slug_suffix s)) \<and>
          of_int (slug_close b s) - 300 \<le> pr_ts r \<and> pr_ts r < of_int (slug_close b s))"

lemma slug_close_inj: "window_slug b s \<Longrightarrow> window_slug b s' \<Longrightarrow> slug_close b s = slug_close b s' \<Longrightarrow> s = s'"
  by (auto simp: window_slug_def slug_close_def split: option.splits if_splits)

lemma polybot_good_tick:
  assumes "list_all (polybot_row_ok pf b) table" "(slug, ticks) \<in> set (polybot_markets pf b table f t)" "c \<in> set ticks"
  shows "tc_window_close_ts c = of_int (slug_close b slug) \<and> of_int (slug_close b slug) - 300 \<le> tc_ts c \<and>
    tc_ts c < of_int (slug_close b slug) \<and> window_slug b slug"
  using polybot_markets_mem(3) [OF assms(2,3)] assms(1)
  by (auto simp: list_all_iff polybot_row_ok_def window_slug_def slug_close_def split: option.splits dest!: bspec)

lemma polybot_good_slug:
  assumes "list_all (polybot_row_ok pf b) table" "(slug, ticks) \<in> set (polybot_markets pf b table f t)"
  shows "window_slug b slug"
  using polybot_good_tick [OF assms, of "hd ticks"] polybot.nonempty [OF assms(2)] by simp

interpretation polybot_windows: windowed_source "polybot_markets pf b" "list_all (polybot_row_ok pf b)" "slug_close b" for pf b
proof
  fix table f t slug ticks c
  assume good: "list_all (polybot_row_ok pf b) table"
  show "inj_on (slug_close b) (fst ` set (polybot_markets pf b table f t))"
  proof (rule inj_onI)
    fix s s' assume "s \<in> fst ` set (polybot_markets pf b table f t)" "s' \<in> fst ` set (polybot_markets pf b table f t)"
      and eq: "slug_close b s = slug_close b s'"
    then have "window_slug b s" "window_slug b s'" using polybot_good_slug [OF good] by auto
    then show "s = s'" using eq by (rule slug_close_inj)
  qed
  assume mem: "(slug, ticks) \<in> set (polybot_markets pf b table f t)"
  show "300 dvd slug_close b slug \<and> 0 < slug_close b slug"
    using polybot_good_slug [OF good mem] by (simp add: window_slug_def)
  assume "c \<in> set ticks"
  with polybot_good_tick [OF good mem] show "tc_window_close_ts c = of_int (slug_close b slug) \<and>
      of_int (slug_close b slug) - 300 \<le> tc_ts c \<and> tc_ts c < of_int (slug_close b slug)" by blast
qed

section \<open>The paper store keeps the contract\<close>

lemma to_timestamp_of [simp]: "to_timestamp (of_int u / 10 ^ 6) = u"
  by (simp add: to_timestamp_def py_round_def)

lemma group_by_slug_lookup:
  "map_of (group_by_slug rows) s =
     (if s = [] \<or> s \<notin> set (map pp_market_slug rows) then None else Some (filter (\<lambda>r. pp_market_slug r = s) rows))"
proof (induction rows arbitrary: s rule: rev_induct)
  case (snoc r rows)
  have "group_by_slug (rows @ [r]) = (if pp_market_slug r = [] then group_by_slug rows
      else AList.update (pp_market_slug r) (dict_getd (group_by_slug rows) (pp_market_slug r) [] @ [r]) (group_by_slug rows))"
    by (simp add: group_by_slug_def)
  moreover have "dict_getd (group_by_slug rows) (pp_market_slug r) [] = filter (\<lambda>r'. pp_market_slug r' = pp_market_slug r) rows"
    if "pp_market_slug r \<noteq> []" using that by (auto simp: dict_getd_def snoc filter_empty_conv eq_commute [of "[]"] image_iff)
  ultimately show ?case by (auto simp: snoc)
qed (simp add: group_by_slug_def)

lemma group_by_slug_keys:
  "keys_of (group_by_slug rows) = first_seen (map pp_market_slug (filter (\<lambda>r. pp_market_slug r \<noteq> []) rows))"
proof (induction rows rule: rev_induct)
  case (snoc r rows)
  have "group_by_slug (rows @ [r]) = (if pp_market_slug r = [] then group_by_slug rows
      else AList.update (pp_market_slug r) (dict_getd (group_by_slug rows) (pp_market_slug r) [] @ [r]) (group_by_slug rows))"
    by (simp add: group_by_slug_def)
  with snoc show ?case by (auto simp: update_keys first_seen_snoc)
qed (simp add: group_by_slug_def)

lemma group_by_slug_mem:
  assumes "(slug, rs) \<in> set (group_by_slug rows)"
  shows "slug \<noteq> []" "rs = filter (\<lambda>r. pp_market_slug r = slug) rows" "rs \<noteq> []"
proof -
  have "distinct (keys_of (group_by_slug rows))" by (simp add: group_by_slug_keys)
  then have "map_of (group_by_slug rows) slug = Some rs" using assms by simp
  then show "slug \<noteq> []" "rs = filter (\<lambda>r. pp_market_slug r = slug) rows" "rs \<noteq> []"
    by (auto simp: group_by_slug_lookup filter_empty_conv split: if_splits)
qed

lemma first_seen_sorted:
  "sorted (map k xs) \<Longrightarrow> sorted (map (\<lambda>s. k (hd (filter (\<lambda>x. f x = s) xs))) (first_seen (map f xs)))"
proof (induction xs)
  case (Cons x xs)
  let ?g = "\<lambda>s. k (hd (filter (\<lambda>x. f x = s) xs))"
  have in_xs: "hd (filter (\<lambda>x. f x = s) xs) \<in> set xs" if "s \<in> set (first_seen (map f xs))" for s
  proof -
    have "filter (\<lambda>x. f x = s) xs \<noteq> []" using that by (auto simp: filter_empty_conv)
    then show ?thesis using hd_in_set by fastforce
  qed
  have tail: "sorted (map ?g (filter (\<lambda>y. y \<noteq> f x) (first_seen (map f xs))))"
    using Cons by (intro sorted_filter) simp
  have map_eq: "map (\<lambda>s. k (hd (filter (\<lambda>y. f y = s) (x # xs)))) (filter (\<lambda>y. y \<noteq> f x) (first_seen (map f xs)))
      = map ?g (filter (\<lambda>y. y \<noteq> f x) (first_seen (map f xs)))" by (rule map_cong) auto
  have "k x \<le> ?g s" if "s \<in> set (first_seen (map f xs))" for s
    using Cons.prems in_xs [OF that] by simp
  with tail have "sorted (k x # map ?g (filter (\<lambda>y. y \<noteq> f x) (first_seen (map f xs))))" by auto
  then have "sorted (k x # map (\<lambda>s. k (hd (filter (\<lambda>y. f y = s) (x # xs)))) (filter (\<lambda>y. y \<noteq> f x) (first_seen (map f xs))))"
    by (simp only: map_eq)
  then show ?case by simp
qed simp

definition paper_markets :: "bool \<Rightarrow> loader_db \<Rightarrow> datetime \<Rightarrow> datetime \<Rightarrow> (string \<times> tick_core list) list" where
  "paper_markets running db f t = fst (paper_iter_markets running (Inr db) (of_int f / 10 ^ 6) (of_int t / 10 ^ 6))"

definition paper_rows :: "loader_db \<Rightarrow> datetime \<Rightarrow> datetime \<Rightarrow> paper_row list" where
  "paper_rows db f t = sort_key pp_ts (filter (\<lambda>r. f \<le> pp_ts r \<and> pp_ts r \<le> t) (ld_paper_ticks db))"

lemma run_coro_Inr [simp]: "run_coro who running (Inr v) = Inr v"
  by (simp add: run_coro_def)

lemma row_to_tick_sel [simp]:
  "tc_ts (row_to_tick r x) = of_int (pp_ts r) / 10 ^ 6" "tc_market_slug (row_to_tick r x) = pp_market_slug r"
  "tc_window_close_ts (row_to_tick r x) = of_int (pp_window_close_ts r)"
  by (simp_all add: row_to_tick_def Let_def)

lemma fetch_window_rows:
  "fst (fetch_window db (of_int f / 10 ^ 6) (of_int t / 10 ^ 6)) = paper_rows db f t"
  unfolding fetch_window_def Let_def fst_conv paper_in_range_def to_timestamp_of paper_rows_def ..

lemma paper_iter_markets_eq:
  "paper_iter_markets running (Inr db) (of_int f / 10 ^ 6) (of_int t / 10 ^ 6) =
     (map (\<lambda>(slug, rows). (slug, map (\<lambda>r. row_to_tick r
         (map_of (snd (fetch_window db (of_int f / 10 ^ 6) (of_int t / 10 ^ 6))) (pp_window_close_ts (hd rows)))) rows))
       (group_by_slug (paper_rows db f t)), None)"
  by (simp add: paper_iter_markets_def fetch_window_rows [symmetric] case_prod_beta del: power_numeral)

lemma paper_markets_mem:
  assumes "(slug, ticks) \<in> set (paper_markets running db f t)"
  shows "slug \<noteq> []" "ticks = map (\<lambda>r. row_to_tick r (map_of (snd (fetch_window db (of_int f / 10 ^ 6) (of_int t / 10 ^ 6)))
      (pp_window_close_ts (hd (filter (\<lambda>r. pp_market_slug r = slug) (paper_rows db f t))))))
      (filter (\<lambda>r. pp_market_slug r = slug) (paper_rows db f t))" "ticks \<noteq> []"
    "c \<in> set ticks \<Longrightarrow> \<exists>r \<in> set (ld_paper_ticks db). pp_market_slug r = slug \<and> f \<le> pp_ts r \<and> pp_ts r \<le> t \<and>
       tc_market_slug c = slug \<and> tc_ts c = of_int (pp_ts r) / 10 ^ 6 \<and> tc_window_close_ts c = of_int (pp_window_close_ts r)"
proof -
  let ?opens = "snd (fetch_window db (of_int f / 10 ^ 6) (of_int t / 10 ^ 6))"
  from assms obtain rs where rs: "(slug, rs) \<in> set (group_by_slug (paper_rows db f t))"
      "ticks = map (\<lambda>r. row_to_tick r (map_of ?opens (pp_window_close_ts (hd rs)))) rs"
    by (auto simp: paper_markets_def paper_iter_markets_eq simp del: power_numeral)
  note mem = group_by_slug_mem [OF rs(1)]
  show "slug \<noteq> []" by (rule mem(1))
  show eq: "ticks = map (\<lambda>r. row_to_tick r (map_of ?opens (pp_window_close_ts (hd (filter (\<lambda>r. pp_market_slug r = slug) (paper_rows db f t))))))
      (filter (\<lambda>r. pp_market_slug r = slug) (paper_rows db f t))" using rs(2) mem(2) by simp
  show "ticks \<noteq> []" using rs(2) mem(3) by simp
  assume "c \<in> set ticks"
  then show "\<exists>r \<in> set (ld_paper_ticks db). pp_market_slug r = slug \<and> f \<le> pp_ts r \<and> pp_ts r \<le> t \<and>
       tc_market_slug c = slug \<and> tc_ts c = of_int (pp_ts r) / 10 ^ 6 \<and> tc_window_close_ts c = of_int (pp_window_close_ts r)"
    unfolding eq by (auto simp: paper_rows_def)
qed

interpretation paper: market_source "paper_markets running" for running
proof
  fix db f t slug ticks c
  let ?R = "filter (\<lambda>r. pp_market_slug r \<noteq> []) (paper_rows db f t)"
  have keys: "map fst (paper_markets running db f t) = keys_of (group_by_slug (paper_rows db f t))"
    by (simp add: paper_markets_def paper_iter_markets_eq comp_def case_prod_beta del: power_numeral)
  show "distinct (map fst (paper_markets running db f t))"
    by (simp add: keys group_by_slug_keys)
  have rows: "sorted (map pp_ts (filter P (paper_rows db f t)))" for P
    unfolding paper_rows_def by (intro sorted_filter) simp
  have "map (\<lambda>m. tc_ts (hd (snd m))) (paper_markets running db f t)
      = map (\<lambda>s. of_int (pp_ts (hd (filter (\<lambda>r. pp_market_slug r = s) ?R))) / 10 ^ 6) (map fst (paper_markets running db f t))"
  proof (simp only: list.map_comp comp_def, rule map_cong [OF refl])
    fix m assume "m \<in> set (paper_markets running db f t)"
    then have m: "(fst m, snd m) \<in> set (paper_markets running db f t)" by simp
    have "filter (\<lambda>r. pp_market_slug r = fst m) (paper_rows db f t) = filter (\<lambda>r. pp_market_slug r = fst m) ?R"
      using paper_markets_mem(1) [OF m] by (auto intro: filter_cong)
    with paper_markets_mem(2,3) [OF m]
    show "tc_ts (hd (snd m)) = of_int (pp_ts (hd (filter (\<lambda>r. pp_market_slug r = fst m) ?R))) / 10 ^ 6"
      by (simp add: hd_map)
  qed
  moreover have "sorted (map (\<lambda>s. pp_ts (hd (filter (\<lambda>r. pp_market_slug r = s) ?R))) (first_seen (map pp_market_slug ?R)))"
    by (rule first_seen_sorted [OF rows])
  ultimately show "sorted (map (\<lambda>m. tc_ts (hd (snd m))) (paper_markets running db f t))"
    unfolding keys group_by_slug_keys by (simp add: sorted_map divide_right_mono sorted_wrt_map)
  assume mem: "(slug, ticks) \<in> set (paper_markets running db f t)"
  show "ticks \<noteq> []" by (rule paper_markets_mem(3) [OF mem])
  show "sorted (map tc_ts ticks)"
    unfolding paper_markets_mem(2) [OF mem] using rows [of "\<lambda>r. pp_market_slug r = slug"]
    by (simp add: comp_def sorted_map divide_right_mono)
  assume "c \<in> set ticks"
  from paper_markets_mem(4) [OF mem this] show "tc_market_slug c = slug" "of_int f / 10 ^ 6 \<le> tc_ts c \<and> tc_ts c \<le> of_int t / 10 ^ 6"
    by (auto intro!: divide_right_mono)
qed

definition paper_row_ok :: "paper_row \<Rightarrow> bool" where
  "paper_row_ok r \<longleftrightarrow> window_slug False (pp_market_slug r) \<and>
     pp_window_close_ts r = slug_close False (pp_market_slug r) \<and>
     (pp_window_close_ts r - 300) * 1000000 \<le> pp_ts r \<and> pp_ts r < pp_window_close_ts r * 1000000"

lemma micros_between: "(n - 300) * 1000000 \<le> u \<Longrightarrow> u < n * 1000000 \<Longrightarrow>
    of_int n - 300 \<le> (of_int u / 1000000 :: real) \<and> of_int u / 1000000 < (of_int n :: real)"
proof -
  assume "(n - 300) * 1000000 \<le> u" "u < n * 1000000"
  then have "of_int ((n - 300) * 1000000) \<le> (of_int u :: real)" "(of_int u :: real) < of_int (n * 1000000)"
    by (simp_all only: of_int_le_iff of_int_less_iff)
  then show ?thesis by (simp add: field_simps)
qed

lemma paper_good_tick:
  assumes "list_all paper_row_ok (ld_paper_ticks db)" "(slug, ticks) \<in> set (paper_markets running db f t)" "c \<in> set ticks"
  shows "tc_window_close_ts c = of_int (slug_close False slug) \<and> of_int (slug_close False slug) - 300 \<le> tc_ts c \<and>
    tc_ts c < of_int (slug_close False slug) \<and> window_slug False slug"
proof -
  from paper_markets_mem(4) [OF assms(2,3)] obtain r where r: "r \<in> set (ld_paper_ticks db)" "pp_market_slug r = slug"
    "tc_ts c = of_int (pp_ts r) / 10 ^ 6" "tc_window_close_ts c = of_int (pp_window_close_ts r)" by blast
  with assms(1) have ok: "paper_row_ok r" by (simp add: list_all_iff)
  with r micros_between [of "pp_window_close_ts r" "pp_ts r"] show ?thesis by (simp add: paper_row_ok_def)
qed

interpretation paper_windows: windowed_source "paper_markets running" "\<lambda>db. list_all paper_row_ok (ld_paper_ticks db)" "slug_close False" for running
proof
  fix db :: loader_db and f t slug ticks c
  assume good: "list_all paper_row_ok (ld_paper_ticks db)"
  have ok: "window_slug False slug" if "(slug, ticks) \<in> set (paper_markets running db f t)" for slug ticks
    using paper_good_tick [OF good that, of "hd ticks"] paper_markets_mem(3) [OF that] by simp
  show "inj_on (slug_close False) (fst ` set (paper_markets running db f t))"
  proof (rule inj_onI)
    fix s s' assume "s \<in> fst ` set (paper_markets running db f t)" "s' \<in> fst ` set (paper_markets running db f t)"
      and eq: "slug_close False s = slug_close False s'"
    then have "window_slug False s" "window_slug False s'" using ok by auto
    then show "s = s'" using eq by (rule slug_close_inj)
  qed
  assume mem: "(slug, ticks) \<in> set (paper_markets running db f t)"
  show "300 dvd slug_close False slug \<and> 0 < slug_close False slug"
    using ok [OF mem] by (simp add: window_slug_def)
  assume "c \<in> set ticks"
  with paper_good_tick [OF good mem] show "tc_window_close_ts c = of_int (slug_close False slug) \<and>
      of_int (slug_close False slug) - 300 \<le> tc_ts c \<and> tc_ts c < of_int (slug_close False slug)" by blast
qed

section \<open>The settlement prices\<close>

text \<open>The reference: the value of the one candle of a minute. The candle table has whole minutes and one candle for each.\<close>

definition candle_at :: "(price_candle \<Rightarrow> real option) \<Rightarrow> price_candle list \<Rightarrow> datetime \<Rightarrow> real option" where
  "candle_at v table us = (case map_of (map (\<lambda>c. (pc_ts c, v c)) (filter btc_minute table)) us of Some x \<Rightarrow> x | None \<Rightarrow> None)"

definition ohlcv_ok :: "price_candle list \<Rightarrow> bool" where
  "ohlcv_ok table \<longleftrightarrow> list_all (\<lambda>c. 60000000 dvd pc_ts c) (filter btc_minute table) \<and> distinct (map pc_ts (filter btc_minute table))"

lemma candle_at_Some:
  assumes "ohlcv_ok table"
  shows "candle_at v table us = Some x \<longleftrightarrow> (\<exists>c \<in> set table. btc_minute c \<and> pc_ts c = us \<and> v c = Some x)"
proof -
  let ?m = "map (\<lambda>c. (pc_ts c, v c)) (filter btc_minute table)"
  have "distinct (map fst ?m)" using assms by (simp add: ohlcv_ok_def comp_def)
  then have "map_of ?m us = Some (Some x) \<longleftrightarrow> (us, Some x) \<in> set ?m" by (rule map_of_eq_Some_iff)
  also have "\<dots> \<longleftrightarrow> (\<exists>c \<in> set table. btc_minute c \<and> pc_ts c = us \<and> v c = Some x)" by force
  also have "map_of ?m us = Some (Some x) \<longleftrightarrow> candle_at v table us = Some x"
    by (cases "map_of ?m us") (simp_all add: candle_at_def)
  finally show ?thesis .
qed

lemma epoch_bigint_minutes: "60000000 dvd us \<Longrightarrow> epoch_bigint us * 1000000 = us"
proof -
  assume "60000000 dvd us"
  then obtain k where "us = 60000000 * k" ..
  then have us: "us = 1000000 * (60 * k)" by simp
  have "(1000000 * (60 * k) + 500000) div 1000000 = 60 * k" "(500000 - 1000000 * (60 * k)) div 1000000 = - (60 * k)"
    by linarith+
  then show ?thesis unfolding us epoch_bigint_def by simp
qed

lemma dict_build_candles:
  assumes "ohlcv_ok table" and "\<And>c. c \<in> set table \<Longrightarrow> btc_minute c \<Longrightarrow> pc_ts c = m * 1000000 \<Longrightarrow> P c"
  shows "map_of (dict_build (\<lambda>c. epoch_bigint (pc_ts c)) v (filter (\<lambda>c. btc_minute c \<and> P c) table)) m = candle_at v table (m * 1000000)"
proof -
  let ?d = "dict_build (\<lambda>c. epoch_bigint (pc_ts c)) v (filter (\<lambda>c. btc_minute c \<and> P c) table)"
  have at: "epoch_bigint (pc_ts c) = m \<longleftrightarrow> pc_ts c = m * 1000000" if "c \<in> set table" "btc_minute c" for c
    using that assms(1) epoch_bigint_minutes [of "pc_ts c"] by (auto simp: ohlcv_ok_def list_all_iff)
  have one: "c = c'" if "c \<in> set table" "btc_minute c" "c' \<in> set table" "btc_minute c'" "pc_ts c = pc_ts c'" for c c'
    using assms(1) that by (auto simp: ohlcv_ok_def distinct_map dest: inj_onD)
  have "map_of ?d m = Some x \<longleftrightarrow> candle_at v table (m * 1000000) = Some x" for x
  proof
    assume "map_of ?d m = Some x"
    from dict_build_Some [OF this] obtain c where "c \<in> set table" "btc_minute c" "epoch_bigint (pc_ts c) = m" "v c = Some x" by auto
    with at show "candle_at v table (m * 1000000) = Some x" unfolding candle_at_Some [OF assms(1)] by blast
  next
    assume "candle_at v table (m * 1000000) = Some x"
    then obtain c where c: "c \<in> set table" "btc_minute c" "pc_ts c = m * 1000000" "v c = Some x"
      by (auto simp: candle_at_Some [OF assms(1)])
    show "map_of ?d m = Some x"
    proof (rule dict_build_unique)
      show "c \<in> set (filter (\<lambda>c. btc_minute c \<and> P c) table)" using c assms(2) by simp
      show "epoch_bigint (pc_ts c) = m" using at c by blast
      show "v c = Some x" by (rule c)
      fix r assume "r \<in> set (filter (\<lambda>c. btc_minute c \<and> P c) table)" "epoch_bigint (pc_ts r) = m"
      with at c one [of r c] show "v r = Some x" by simp
    qed
  qed
  then show ?thesis by (metis option.exhaust)
qed

text \<open>The minutes of the slugs.\<close>

lemma slug_minutes_total: "None \<notin> set rows \<Longrightarrow> \<exists>d'. slug_minutes b rows d = Inr d'"
  by (induction b rows d rule: slug_minutes.induct) (auto split: option.split)

lemma slug_minutes_lookup:
  "slug_minutes b rows d = Inr d' \<Longrightarrow>
     map_of d' s = (if Some s \<in> set rows \<and> py_int_of (slug_suffix s) \<noteq> None then Some (minute_floor (slug_close b s)) else map_of d s)"
proof (induction b rows d rule: slug_minutes.induct)
  case (3 b slug rows d)
  then show ?case by (cases "py_int_of (slug_suffix slug)") (auto simp: slug_close_def Let_def)
qed auto

lemma slug_minutes_distinct: "slug_minutes b rows d = Inr d' \<Longrightarrow> distinct (keys_of d) \<Longrightarrow> distinct (keys_of d')"
  by (induction b rows d rule: slug_minutes.induct) (auto simp: Let_def distinct_update split: option.splits)

lemma settles_at_lookup:
  assumes "distinct (keys_of d)"
  shows "map_of (settles_at cbm d) s = (case map_of d s of None \<Rightarrow> None | Some m \<Rightarrow> map_of cbm m)"
proof -
  have "map_of (settles_at cbm d) s = Some x \<longleftrightarrow> (\<exists>m. map_of d s = Some m \<and> map_of cbm m = Some x)" for x
  proof
    assume "map_of (settles_at cbm d) s = Some x"
    then obtain e where "e \<in> set d" "fst e = s" "(case e of (slug, minute) \<Rightarrow> map_of cbm minute) = Some x"
      unfolding settles_at_def by (auto dest: dict_build_Some)
    with assms show "\<exists>m. map_of d s = Some m \<and> map_of cbm m = Some x" by (cases e) (auto intro!: exI [of _ "snd e"])
  next
    assume "\<exists>m. map_of d s = Some m \<and> map_of cbm m = Some x"
    then obtain m where m: "map_of d s = Some m" "map_of cbm m = Some x" by blast
    show "map_of (settles_at cbm d) s = Some x"
      unfolding settles_at_def
    proof (rule dict_build_unique [where r = "(s, m)"])
      show "(s, m) \<in> set d" using m(1) by (rule map_of_SomeD)
      fix e assume "e \<in> set d" "fst e = s"
      then have "map_of d s = Some (snd e)" using assms by (cases e) auto
      with m show "(case e of (slug, minute) \<Rightarrow> map_of cbm minute) = Some x" by (simp add: case_prod_beta)
    qed (use m in simp_all)
  qed
  then show ?thesis by (cases "map_of d s") (auto, metis option.exhaust)
qed

lemma minute_floor_div: "minute_floor ts * 1000000 = (ts * 1000000) div 60000000 * 60000000"
proof -
  have "(1000000 * ts) div (1000000 * 60) = ts div 60" by (rule div_mult_mult1) simp
  then show ?thesis by (simp add: minute_floor_def mult.commute)
qed

text \<open>What the polybot loader settles a slug at: the close of the candle of its minute.\<close>

lemma polybot_outcome:
  assumes "polybot_market_outcomes running (Inr db) L f t = Inr d" and "ohlcv_ok (ld_ohlcv db)"
  shows "map_of d s =
    (if Some s \<in> set (map pr_market_slug (polybot_in_range f t (pl_ticks L))) \<and> py_int_of (slug_suffix s) \<noteq> None
     then candle_at pc_close (ld_ohlcv db) (minute_floor (slug_close (pl_slug_encodes_open_ts L) s) * 1000000) else None)"
proof -
  let ?rows = "first_seen (map pr_market_slug (polybot_in_range f t (pl_ticks L)))" and ?b = "pl_slug_encodes_open_ts L"
  obtain sm where sm: "slug_minutes ?b ?rows [] = Inr sm"
    using assms(1) by (auto simp: polybot_market_outcomes_def bind_r_eq_Inr Let_def)
  let ?closes = "fetch_closes (ld_ohlcv db) (Min (set (values_of sm))) (Max (set (values_of sm)))"
  have d: "d = (if sm = [] then [] else settles_at ?closes sm)"
    using assms(1) by (auto simp: polybot_market_outcomes_def sm Let_def)
  have dist: "distinct (keys_of sm)" using slug_minutes_distinct [OF sm] by simp
  note look = slug_minutes_lookup [OF sm, of s]
  show ?thesis
  proof (cases "Some s \<in> set ?rows \<and> py_int_of (slug_suffix s) \<noteq> None")
    case True
    with look have m: "map_of sm s = Some (minute_floor (slug_close ?b s))" by simp
    then have "minute_floor (slug_close ?b s) \<in> set (values_of sm)" by (force dest: map_of_SomeD)
    then have "Min (set (values_of sm)) \<le> minute_floor (slug_close ?b s)" "minute_floor (slug_close ?b s) \<le> Max (set (values_of sm))"
      by simp_all
    then have "map_of ?closes (minute_floor (slug_close ?b s)) = candle_at pc_close (ld_ohlcv db) (minute_floor (slug_close ?b s) * 1000000)"
      unfolding fetch_closes_def by (intro dict_build_candles [OF assms(2)]) simp
    with m True d show ?thesis by (auto simp: settles_at_lookup [OF dist])
  next
    case False
    with look have "map_of sm s = None" by (simp split: if_splits)
    with False d show ?thesis by (auto simp: settles_at_lookup [OF dist])
  qed
qed

text \<open>The market table closes a slug in the minute \<open>us\<close>.\<close>

definition closes_in :: "market_row list \<Rightarrow> string \<Rightarrow> datetime \<Rightarrow> bool" where
  "closes_in markets slug us \<longleftrightarrow>
     (let times = List.map_filter mr_close_time (filter (\<lambda>m. mr_slug m = slug) markets)
      in times \<noteq> [] \<and> list_all (\<lambda>ct. trunc_minute ct = us) times)"

lemma closes_in_iff:
  "closes_in markets slug us \<longleftrightarrow> (\<exists>m \<in> set markets. mr_slug m = slug \<and> mr_close_time m \<noteq> None) \<and>
     (\<forall>m \<in> set markets. \<forall>ct. mr_slug m = slug \<longrightarrow> mr_close_time m = Some ct \<longrightarrow> trunc_minute ct = us)"
proof -
  let ?times = "List.map_filter mr_close_time (filter (\<lambda>m. mr_slug m = slug) markets)"
  have times: "set ?times = {ct. \<exists>m \<in> set markets. mr_slug m = slug \<and> mr_close_time m = Some ct}"
    by (auto simp: set_map_filter)
  have "?times \<noteq> [] \<longleftrightarrow> (\<exists>m \<in> set markets. mr_slug m = slug \<and> mr_close_time m \<noteq> None)"
    unfolding set_empty [symmetric] times by auto
  moreover have "list_all (\<lambda>ct. trunc_minute ct = us) ?times \<longleftrightarrow>
      (\<forall>m \<in> set markets. \<forall>ct. mr_slug m = slug \<longrightarrow> mr_close_time m = Some ct \<longrightarrow> trunc_minute ct = us)"
    unfolding list_all_iff times by auto
  ultimately show ?thesis unfolding closes_in_def Let_def by (rule conj_cong)
qed

lemma market_settles_mem:
  "(s, x) \<in> set (market_settles table slugs m) \<longleftrightarrow> s \<in> set slugs \<and> mr_slug m = s \<and>
     (\<exists>ct. mr_close_time m = Some ct \<and> (\<exists>k \<in> set table. btc_minute k \<and> pc_ts k = trunc_minute ct \<and> pc_close k = Some x))"
  by (cases "mr_close_time m") (auto simp: market_settles_def set_map_filter joined_candle_def split: if_splits)

lemma settle_join_mem:
  "(s, x) \<in> set (settle_join markets table slugs) \<longleftrightarrow>
     s \<in> set slugs \<and> (\<exists>m \<in> set markets. mr_slug m = s \<and>
       (\<exists>ct. mr_close_time m = Some ct \<and> (\<exists>k \<in> set table. btc_minute k \<and> pc_ts k = trunc_minute ct \<and> pc_close k = Some x)))"
  by (auto simp: settle_join_def market_settles_mem)

lemma paper_outcome:
  assumes "paper_market_outcomes running (Inr db) f t = Inr d" and "ohlcv_ok (ld_ohlcv db)"
    and "s \<noteq> []" "s \<in> set (map pp_market_slug (paper_in_range f t (ld_paper_ticks db)))" "closes_in (ld_markets db) s us"
  shows "map_of d s = candle_at pc_close (ld_ohlcv db) us"
proof -
  let ?slugs = "filter (\<lambda>s. s \<noteq> []) (first_seen (map pp_market_slug (paper_in_range f t (ld_paper_ticks db))))"
  have s: "s \<in> set ?slugs" using assms(3,4) by simp
  let ?J = "settle_join (ld_markets db) (ld_ohlcv db) ?slugs"
  have "?slugs \<noteq> []" using s by (metis empty_iff list.set(1))
  then have d: "d = dict_build fst (\<lambda>(slug, x). Some x) ?J"
    using assms(1) by (simp add: paper_market_outcomes_def bulk_settle_prices_def Let_def)
  have mem: "(s, x) \<in> set ?J \<longleftrightarrow> candle_at pc_close (ld_ohlcv db) us = Some x" for x
    using s assms(5) unfolding settle_join_mem closes_in_iff candle_at_Some [OF assms(2)] by (auto; metis)
  have "map_of d s = Some x \<longleftrightarrow> candle_at pc_close (ld_ohlcv db) us = Some x" for x
  proof
    assume "map_of d s = Some x"
    then show "candle_at pc_close (ld_ohlcv db) us = Some x" unfolding d mem [symmetric] by (auto dest: dict_build_Some)
  next
    assume a: "candle_at pc_close (ld_ohlcv db) us = Some x"
    show "map_of d s = Some x" unfolding d
    proof (rule dict_build_unique [where r = "(s, x)"])
      show "(s, x) \<in> set ?J" using a mem by simp
      fix e assume "e \<in> set ?J" "fst e = s"
      with a mem [of "snd e"] show "(case e of (slug, x) \<Rightarrow> Some x) = Some x" by (cases e) auto
    qed simp_all
  qed
  then show ?thesis by (metis option.exhaust)
qed

section \<open>What a replay of a loader promises\<close>

lemma polybot_iter_error:
  "snd (polybot_iter_markets pf L f t) = None \<longleftrightarrow> list_all (\<lambda>s. pf (slug_suffix s) \<noteq> None) (slugs_in_order f t (pl_ticks L))"
  by (simp add: polybot_iter_markets_def polybot_stream_eq)

lemma polybot_outcomes_total:
  "(\<exists>d. polybot_market_outcomes running (Inr db) L f t = Inr d) \<longleftrightarrow> None \<notin> pr_market_slug ` set (polybot_in_range f t (pl_ticks L))"
proof -
  let ?rows = "first_seen (map pr_market_slug (polybot_in_range f t (pl_ticks L)))"
  have "(\<exists>d'. slug_minutes b rows d = Inr d') \<longleftrightarrow> None \<notin> set rows" for b rows d
    by (induction b rows d rule: slug_minutes.induct) (auto split: option.split)
  from this [of "pl_slug_encodes_open_ts L" ?rows "[]"] show ?thesis
    by (cases "slug_minutes (pl_slug_encodes_open_ts L) ?rows []") (auto simp: polybot_market_outcomes_def Let_def)
qed

lemma polybot_run:
  assumes "list_all (polybot_row_ok pf b) table"
  obtains d where "polybot_market_outcomes running (Inr db) \<lparr>pl_ticks = table, pl_slug_encodes_open_ts = b\<rparr> (of_int f / 10 ^ 6) (of_int t / 10 ^ 6) = Inr d"
    "run_backtest_on S (polybot_source pf running (Inr db) \<lparr>pl_ticks = table, pl_slug_encodes_open_ts = b\<rparr>) (of_int f / 10 ^ 6) (of_int t / 10 ^ 6) P risk cfg s0 =
      Inr (run_backtest S (polybot_markets pf b table f t) (of_int f / 10 ^ 6) (of_int t / 10 ^ 6) (P\<lparr>bp_settle_prices := Some d\<rparr>) risk cfg s0)"
proof -
  let ?L = "\<lparr>pl_ticks = table, pl_slug_encodes_open_ts = b\<rparr>" and ?f = "of_int f / 10 ^ 6 :: real" and ?t = "of_int t / 10 ^ 6 :: real"
  have "None \<notin> pr_market_slug ` set (polybot_in_range ?f ?t (pl_ticks ?L))"
    using assms by (auto simp: polybot_in_range_def list_all_iff polybot_row_ok_def split: option.splits dest!: bspec)
  with polybot_outcomes_total [of running db ?L ?f ?t] obtain d where d: "polybot_market_outcomes running (Inr db) ?L ?f ?t = Inr d" by blast
  have "pf (slug_suffix s) \<noteq> None" if "s \<in> set (slugs_in_order ?f ?t table)" for s
  proof -
    from that have "polybot_market_rows ?f ?t s table \<noteq> []" by (simp add: slugs_in_order_set)
    then obtain r where "r \<in> set (polybot_market_rows ?f ?t s table)" using hd_in_set by blast
    then have "r \<in> set table" "pr_market_slug r = Some s" by (simp_all add: polybot_market_rows_def polybot_in_range_def)
    with assms have "polybot_row_ok pf b r" by (simp add: list_all_iff)
    with \<open>pr_market_slug r = Some s\<close> show ?thesis by (auto simp: polybot_row_ok_def window_slug_def split: option.splits)
  qed
  then have "snd (polybot_iter_markets pf ?L ?f ?t) = None" unfolding polybot_iter_error by (simp add: list_all_iff)
  then have "polybot_iter_markets pf ?L ?f ?t = (polybot_markets pf b table f t, None)"
    by (simp add: polybot_markets_def prod_eq_iff del: power_numeral)
  then show ?thesis using d
    by (intro that [OF d]) (simp add: run_backtest_on_def settle_prices_of_def polybot_source_def del: power_numeral)
qed

lemma minute_floor_close: "300 dvd c \<Longrightarrow> minute_floor c = c"
  by (auto simp: minute_floor_def)

lemma polybot_prices:
  assumes "list_all (polybot_row_ok pf b) table" "ohlcv_ok (ld_ohlcv db)"
    and "polybot_market_outcomes running (Inr db) \<lparr>pl_ticks = table, pl_slug_encodes_open_ts = b\<rparr> (of_int f / 10 ^ 6) (of_int t / 10 ^ 6) = Inr d"
    and "(slug, ticks) \<in> set (polybot_markets pf b table f t)"
  shows "map_of d slug = candle_at pc_close (ld_ohlcv db) (slug_close b slug * 1000000)"
proof -
  have ok: "window_slug b slug" by (rule polybot_good_slug [OF assms(1,4)])
  obtain r where "r \<in> set table" "pr_market_slug r = Some slug" "of_int f / 10 ^ 6 \<le> pr_ts r" "pr_ts r \<le> of_int t / 10 ^ 6"
    using polybot_markets_mem(3) [OF assms(4), of "hd ticks"] polybot.nonempty [OF assms(4)] by auto
  then have "Some slug \<in> set (map pr_market_slug (polybot_in_range (of_int f / 10 ^ 6) (of_int t / 10 ^ 6) table))"
    by (force simp: polybot_in_range_def)
  with polybot_outcome [OF assms(3,2), of slug] ok show ?thesis
    by (auto simp: window_slug_def minute_floor_close split: option.splits)
qed

text \<open>C19. A replay of a polybot store is sound end to end. When every row was recorded inside the five-minute
  window its slug names, the replay does not raise, trades each market at most once, only in the
  requested range and in the window of the market, resolves each trade by the close of the one-minute candle of
  the market's close, and every trade obeys the risk limits with respect to those before it.\<close>

theorem polybot_replay_sound:
  assumes "new_risk_manager cfg_risk = Inr m" and "\<not> bp_bypass_risk P"
    and "list_all (polybot_row_ok pf b) table" and "ohlcv_ok (ld_ohlcv db)"
  shows "\<exists>r. run_backtest_on S (polybot_source pf running (Inr db) \<lparr>pl_ticks = table, pl_slug_encodes_open_ts = b\<rparr>)
        (of_int f / 10 ^ 6) (of_int t / 10 ^ 6) P m cfg s0 = Inr r \<and>
      distinct (map bt_market_slug (res_trades r)) \<and>
      list_all (settled_trade (polybot_markets pf b table f t)
        (\<lambda>s. candle_at pc_close (ld_ohlcv db) (slug_close b s * 1000000)) (slug_close b) f t) (res_trades r) \<and>
      list_all (\<lambda>i. within_limits m (take i (res_trades r)) (bt_entry_ts (res_trades r ! i))) [0..<length (res_trades r)]"
proof -
  obtain d where d: "polybot_market_outcomes running (Inr db) \<lparr>pl_ticks = table, pl_slug_encodes_open_ts = b\<rparr> (of_int f / 10 ^ 6) (of_int t / 10 ^ 6) = Inr d"
    and run: "run_backtest_on S (polybot_source pf running (Inr db) \<lparr>pl_ticks = table, pl_slug_encodes_open_ts = b\<rparr>) (of_int f / 10 ^ 6) (of_int t / 10 ^ 6) P m cfg s0 =
      Inr (run_backtest S (polybot_markets pf b table f t) (of_int f / 10 ^ 6) (of_int t / 10 ^ 6) (P\<lparr>bp_settle_prices := Some d\<rparr>) m cfg s0)"
    by (rule polybot_run [OF assms(3)])
  have nb: "\<not> bp_bypass_risk (P\<lparr>bp_settle_prices := Some d\<rparr>)" using assms(2) by simp
  note prices = polybot_prices [OF assms(3,4) d]
  define r where "r = run_backtest S (polybot_markets pf b table f t) (of_int f / 10 ^ 6) (of_int t / 10 ^ 6) (P\<lparr>bp_settle_prices := Some d\<rparr>) m cfg s0"
  note once = polybot.replay_distinct [OF r_def]
    and settled = polybot_windows.replay_settled [OF assms(3) r_def _ prices]
    and limits = polybot_windows.replay_limits [OF assms(1) nb assms(3) r_def]
  show ?thesis
    unfolding run by (intro exI [of _ r] conjI once) (simp_all add: r_def [symmetric] list_all_iff settled limits del: power_numeral)
qed

lemma fetch_opens:
  assumes "ohlcv_ok (ld_ohlcv db)" "r \<in> set (paper_rows db f t)"
  shows "map_of (snd (fetch_window db (of_int f / 10 ^ 6) (of_int t / 10 ^ 6))) (pp_window_close_ts r) =
    candle_at pc_open (ld_ohlcv db) ((pp_window_close_ts r - 300) * 1000000)"
proof -
  define cs where "cs = sort (remdups (map pp_window_close_ts (paper_rows db f t)))"
  have mem: "pp_window_close_ts r \<in> set cs" using assms(2) by (simp add: cs_def)
  let ?by = "dict_build (\<lambda>r. epoch_bigint (pc_ts r)) pc_open
      (filter (\<lambda>r. btc_minute r \<and> pc_ts r \<in> set (map (\<lambda>c. (c - 300) * 1000000) cs)) (ld_ohlcv db))"
  have "snd (fetch_window db (of_int f / 10 ^ 6) (of_int t / 10 ^ 6)) = bulk_ohlcv_opens (ld_ohlcv db) cs"
    using fetch_window_rows [of db f t] by (simp add: fetch_window_def cs_def Let_def del: power_numeral)
  also have "\<dots> = dict_build (\<lambda>c. c) (\<lambda>c. map_of ?by (c - 300)) cs"
    using mem by (auto simp: bulk_ohlcv_opens_def Let_def)
  finally have eq: "snd (fetch_window db (of_int f / 10 ^ 6) (of_int t / 10 ^ 6)) = dict_build (\<lambda>c. c) (\<lambda>c. map_of ?by (c - 300)) cs" .
  have "map_of (dict_build (\<lambda>c. c) (\<lambda>c. map_of ?by (c - 300)) cs) (pp_window_close_ts r) = map_of ?by (pp_window_close_ts r - 300)"
  proof (cases "map_of ?by (pp_window_close_ts r - 300)")
    case None
    show ?thesis unfolding None by (rule dict_build_None [THEN iffD2]) (auto simp only: list_all_iff None)
  next
    case (Some x)
    show ?thesis unfolding Some by (rule dict_build_unique [where r = "pp_window_close_ts r"]) (auto simp only: mem Some)
  qed
  also have "\<dots> = candle_at pc_open (ld_ohlcv db) ((pp_window_close_ts r - 300) * 1000000)"
    using mem by (intro dict_build_candles [OF assms(1)]) auto
  finally show ?thesis by (simp only: eq)
qed

text \<open>The strike of a paper market is the opening price of its first minute. In a store whose rows lie in
  the window their slug names, whenever the one-minute candle of the opening exists with a positive
  price, every tick of the market carries that price as its opening price and the distance to it in basis
  points, and the replay resolves the market against it, whatever the rows recorded.\<close>

theorem paper_strike_is_opening_candle:
  assumes "list_all paper_row_ok (ld_paper_ticks db)" and "ohlcv_ok (ld_ohlcv db)"
    and "(slug, ticks) \<in> set (fst (paper_iter_markets running (Inr db) (of_int f / 10 ^ 6) (of_int t / 10 ^ 6)))"
    and "candle_at pc_open (ld_ohlcv db) ((slug_close False slug - 300) * 1000000) = Some x" and "0 < x"
  shows "open_price_market ticks = x \<and>
    list_all (\<lambda>c. tc_open_price c = x \<and> tc_delta_bps c = (tc_spot_price c - x) / x * 10000) ticks"
proof -
  have mem: "(slug, ticks) \<in> set (paper_markets running db f t)" using assms(3) by (simp only: paper_markets_def)
  let ?rs = "filter (\<lambda>r. pp_market_slug r = slug) (paper_rows db f t)"
  note eq = paper_markets_mem(2) [OF mem]
  have "?rs \<noteq> []" using paper_markets_mem(3) [OF mem] unfolding eq by simp
  then have r: "hd ?rs \<in> set ?rs" by (rule hd_in_set)
  then have rows: "hd ?rs \<in> set (paper_rows db f t)" "pp_market_slug (hd ?rs) = slug" by simp_all
  then have "paper_row_ok (hd ?rs)" using assms(1) by (simp add: paper_rows_def list_all_iff)
  then have "pp_window_close_ts (hd ?rs) = slug_close False slug" using rows(2) by (simp add: paper_row_ok_def)
  with fetch_opens [OF assms(2) rows(1)] assms(4)
  have "map_of (snd (fetch_window db (of_int f / 10 ^ 6) (of_int t / 10 ^ 6))) (pp_window_close_ts (hd ?rs)) = Some x" by simp
  then have ticks: "ticks = map (\<lambda>r. row_to_tick r (Some x)) ?rs" using eq by simp
  have open_x: "tc_open_price (row_to_tick r (Some x)) = x" for r using assms(5) by (simp add: row_to_tick_def Let_def)
  obtain r0 rs0 where "?rs = r0 # rs0" using \<open>?rs \<noteq> []\<close> by (cases ?rs) auto
  then have "open_price_market ticks = x" using assms(5) by (simp add: ticks open_price_market_def open_x Let_def)
  then show ?thesis using assms(5) by (simp add: ticks list_all_iff open_x) (simp add: row_to_tick_def Let_def)
qed

lemma paper_prices:
  assumes "list_all paper_row_ok (ld_paper_ticks db)" "ohlcv_ok (ld_ohlcv db)"
    and "list_all (\<lambda>r. closes_in (ld_markets db) (pp_market_slug r) (pp_window_close_ts r * 1000000)) (ld_paper_ticks db)"
    and "paper_market_outcomes running (Inr db) (of_int f / 10 ^ 6) (of_int t / 10 ^ 6) = Inr d"
    and "(slug, ticks) \<in> set (paper_markets running db f t)"
  shows "map_of d slug = candle_at pc_close (ld_ohlcv db) (slug_close False slug * 1000000)"
proof -
  obtain r where r: "r \<in> set (ld_paper_ticks db)" "pp_market_slug r = slug" "f \<le> pp_ts r" "pp_ts r \<le> t"
    using paper_markets_mem(4) [OF assms(5), of "hd ticks"] paper_markets_mem(3) [OF assms(5)] by auto
  with assms(1,3) have "pp_window_close_ts r = slug_close False slug" "closes_in (ld_markets db) slug (pp_window_close_ts r * 1000000)"
    by (auto simp: list_all_iff paper_row_ok_def)
  moreover have "slug \<in> set (map pp_market_slug (paper_in_range (of_int f / 10 ^ 6) (of_int t / 10 ^ 6) (ld_paper_ticks db)))"
    using r by (force simp: paper_in_range_def simp del: power_numeral)
  ultimately show ?thesis using paper_outcome [OF assms(4,2) paper_markets_mem(1) [OF assms(5)]] by metis
qed

text \<open>A replay of the paper store is sound end to end: the same promises as for a polybot store, when the market
  table closes each recorded market at the end of its window.\<close>

theorem paper_replay_sound:
  assumes "new_risk_manager cfg_risk = Inr m" and "\<not> bp_bypass_risk P"
    and "list_all paper_row_ok (ld_paper_ticks db)" and "ohlcv_ok (ld_ohlcv db)"
    and "list_all (\<lambda>r. closes_in (ld_markets db) (pp_market_slug r) (pp_window_close_ts r * 1000000)) (ld_paper_ticks db)"
  shows "\<exists>r. run_backtest_on S (paper_source running (Inr db)) (of_int f / 10 ^ 6) (of_int t / 10 ^ 6) P m cfg s0 = Inr r \<and>
      distinct (map bt_market_slug (res_trades r)) \<and>
      list_all (settled_trade (paper_markets running db f t)
        (\<lambda>s. candle_at pc_close (ld_ohlcv db) (slug_close False s * 1000000)) (slug_close False) f t) (res_trades r) \<and>
      list_all (\<lambda>i. within_limits m (take i (res_trades r)) (bt_entry_ts (res_trades r ! i))) [0..<length (res_trades r)]"
proof -
  obtain d where d: "paper_market_outcomes running (Inr db) (of_int f / 10 ^ 6) (of_int t / 10 ^ 6) = Inr d"
    by (simp add: paper_market_outcomes_def Let_def)
  have nb: "\<not> bp_bypass_risk (P\<lparr>bp_settle_prices := Some d\<rparr>)" using assms(2) by simp
  define r where "r = run_backtest S (paper_markets running db f t) (of_int f / 10 ^ 6) (of_int t / 10 ^ 6) (P\<lparr>bp_settle_prices := Some d\<rparr>) m cfg s0"
  have run: "run_backtest_on S (paper_source running (Inr db)) (of_int f / 10 ^ 6) (of_int t / 10 ^ 6) P m cfg s0 = Inr r"
    unfolding run_backtest_on_def settle_prices_of_def paper_source_def r_def paper_markets_def
    by (simp add: d paper_iter_markets_eq del: power_numeral)
  note once = paper.replay_distinct [OF r_def]
    and settled = paper_windows.replay_settled [OF assms(3) r_def _ paper_prices [OF assms(3,4,5) d]]
    and limits = paper_windows.replay_limits [OF assms(1) nb assms(3) r_def]
  show ?thesis
    unfolding run by (intro exI [of _ r] conjI once) (simp_all add: list_all_iff settled limits)
qed

text \<open>C20. The two loaders settle a market alike. For a slug recorded in both stores, with an integer suffix and
  closed by the market table in the minute of that integer, both outcomes are the close of the one-minute candle of
  that minute, or neither has one.\<close>

theorem loaders_settle_alike:
  assumes "ohlcv_ok (ld_ohlcv db)"
    and "polybot_market_outcomes running (Inr db) L f t = Inr d" and "paper_market_outcomes running' (Inr db) f' t' = Inr d'"
    and "Some slug \<in> set (map pr_market_slug (polybot_in_range f t (pl_ticks L)))" and "py_int_of (slug_suffix slug) \<noteq> None"
    and "slug \<in> set (map pp_market_slug (paper_in_range f' t' (ld_paper_ticks db)))"
    and "closes_in (ld_markets db) slug (minute_floor (slug_close (pl_slug_encodes_open_ts L) slug) * 1000000)"
  shows "map_of d slug = map_of d' slug \<and>
    map_of d slug = candle_at pc_close (ld_ohlcv db) (minute_floor (slug_close (pl_slug_encodes_open_ts L) slug) * 1000000)"
proof -
  have "slug \<noteq> []" using assms(5) by (auto simp: slug_suffix_def rsplit_last_def py_int_of_def py_strip_def)
  from paper_outcome [OF assms(3,1) this assms(6,7)] polybot_outcome [OF assms(2,1), of slug] assms(4,5) show ?thesis by simp
qed

lemma bad_slug_ex:
  "None \<in> g ` set rs \<or> (\<exists>s. s \<noteq> [] \<and> Some s \<in> g ` set rs \<and> Q s) \<longleftrightarrow>
     list_ex (\<lambda>r. case g r of None \<Rightarrow> True | Some s \<Rightarrow> s \<noteq> [] \<and> Q s) rs"
proof (induction rs)
  case (Cons r rs)
  show ?case by (cases "g r") (simp_all add: Cons [symmetric], blast)
qed simp

text \<open>What stops a replay. Over a polybot store it returns exactly when every slug in the range is
  present and each that is not empty ends in a number: one malformed slug anywhere in the range loses the whole
  run, although the outcomes, which are read first, skip the malformed and fail only for a missing slug. Over the
  paper store it returns exactly when the database answers.\<close>

theorem malformed_slug_stops_the_replay:
  "(isl (run_backtest_on S (polybot_source pf running (Inr db) L) f t P risk cfg s0) \<longleftrightarrow>
      list_ex (\<lambda>r. case pr_market_slug r of None \<Rightarrow> True | Some s \<Rightarrow> s \<noteq> [] \<and> pf (slug_suffix s) = None)
        (polybot_in_range f t (pl_ticks L))) \<and>
   (isl (polybot_market_outcomes running (Inr db) L f t) \<longleftrightarrow>
      list_ex (\<lambda>r. pr_market_slug r = None) (polybot_in_range f t (pl_ticks L))) \<and>
   (isl (run_backtest_on S (paper_source running pg) f t P risk cfg s0) \<longleftrightarrow> isl pg)"
proof (intro conjI)
  let ?R = "polybot_in_range f t (pl_ticks L)"
  have out: "isl (polybot_market_outcomes running (Inr db) L f t) \<longleftrightarrow> None \<in> pr_market_slug ` set ?R"
    using polybot_outcomes_total [of running db L f t] by (cases "polybot_market_outcomes running (Inr db) L f t") auto
  moreover have "None \<in> g ` set rs \<longleftrightarrow> list_ex (\<lambda>r. g r = None) rs" for g :: "polybot_row \<Rightarrow> string option" and rs
    by (induction rs) auto
  ultimately show "isl (polybot_market_outcomes running (Inr db) L f t) \<longleftrightarrow> list_ex (\<lambda>r. pr_market_slug r = None) ?R"
    by blast
  have slugs: "s \<in> set (slugs_in_order f t (pl_ticks L)) \<longleftrightarrow> s \<noteq> [] \<and> Some s \<in> pr_market_slug ` set ?R" for s
    by (simp add: slugs_in_order_set polybot_market_rows_nonempty)
  have "isl (run_backtest_on S (polybot_source pf running (Inr db) L) f t P risk cfg s0) \<longleftrightarrow>
      isl (polybot_market_outcomes running (Inr db) L f t) \<or> snd (polybot_iter_markets pf L f t) \<noteq> None"
    by (cases "polybot_market_outcomes running (Inr db) L f t"; cases "polybot_iter_markets pf L f t"; cases "snd (polybot_iter_markets pf L f t)")
      (simp_all add: run_backtest_on_def settle_prices_of_def polybot_source_def)
  also have "\<dots> \<longleftrightarrow> None \<in> pr_market_slug ` set ?R \<or> (\<exists>s. s \<noteq> [] \<and> Some s \<in> pr_market_slug ` set ?R \<and> pf (slug_suffix s) = None)"
    unfolding out polybot_iter_error list_all_iff Ball_def slugs by simp
  also have "\<dots> \<longleftrightarrow> list_ex (\<lambda>r. case pr_market_slug r of None \<Rightarrow> True | Some s \<Rightarrow> s \<noteq> [] \<and> pf (slug_suffix s) = None) ?R"
    by (rule bad_slug_ex)
  finally show "isl (run_backtest_on S (polybot_source pf running (Inr db) L) f t P risk cfg s0) \<longleftrightarrow>
      list_ex (\<lambda>r. case pr_market_slug r of None \<Rightarrow> True | Some s \<Rightarrow> s \<noteq> [] \<and> pf (slug_suffix s) = None) ?R" .
  show "isl (run_backtest_on S (paper_source running pg) f t P risk cfg s0) \<longleftrightarrow> isl pg"
    by (cases pg) (auto simp: run_backtest_on_def settle_prices_of_def paper_source_def paper_market_outcomes_def
        paper_iter_markets_def run_coro_def Let_def split: prod.splits)
qed

section \<open>A worked example\<close>

text \<open>One market, recorded once in each store two and a half minutes into its window.\<close>

definition ex_slug :: string where
  "ex_slug = SLUG_PREFIX @ show_int 600"

definition ex_pf :: "string \<Rightarrow> real option" where
  "ex_pf s = map_option of_int (py_int_of s)"

definition ex_polybot_row :: polybot_row where
  "ex_polybot_row = \<lparr>pr_ts = 450, pr_market_slug = Some ex_slug, pr_spot_price = Some 100, pr_chainlink_price = None,
     pr_open_price = Some 100, pr_yes_bid = Some (1 / 2), pr_yes_ask = Some (11 / 20), pr_no_bid = None, pr_no_ask = None,
     pr_depth_yes = Some 100, pr_depth_no = Some 100, pr_imbalance = None, pr_spread_bps = Some 100,
     pr_implied_prob_yes = Some (1 / 2), pr_model_prob_yes = None, pr_edge = None, pr_z_score = None, pr_delta_bps = None\<rparr>"

definition ex_paper_row :: paper_row where
  "ex_paper_row = \<lparr>pp_ts = 450000000, pp_market_slug = ex_slug, pp_t_in_window = 150, pp_window_close_ts = 600,
     pp_spot_price = Some 101, pp_chainlink_price = None, pp_open_price = Some 102, pp_yes_bid = Some (1 / 2),
     pp_yes_ask = Some (11 / 20), pp_no_bid = None, pp_no_ask = None, pp_depth_yes = Some 100, pp_depth_no = Some 100,
     pp_imbalance = None, pp_spread_bps = Some 100, pp_implied_prob_yes = Some (1 / 2)\<rparr>"

definition ex_candle :: "datetime \<Rightarrow> real \<Rightarrow> real \<Rightarrow> price_candle" where
  "ex_candle ts op cl = \<lparr>pc_exchange = ''binance'', pc_symbol = ''BTCUSDT'', pc_interval = ''1m'', pc_ts = ts, pc_open = Some op, pc_close = Some cl\<rparr>"

definition ex_loader_db :: loader_db where
  "ex_loader_db = \<lparr>ld_paper_ticks = [ex_paper_row], ld_ohlcv = [ex_candle 300000000 100 100, ex_candle 600000000 101 103],
     ld_markets = [\<lparr>mr_slug = ex_slug, mr_close_time = Some 600000000\<rparr>]\<rparr>"

lemma ex_suffix [simp]: "py_int_of (slug_suffix ex_slug) = Some 600"
  using slug_roundtrip [of 600] by (simp add: ex_slug_def slug_suffix_def)

lemma ex_slug_facts [simp]: "slug_close False ex_slug = 600" "window_slug False ex_slug" "ex_slug \<noteq> []"
  by (simp_all add: slug_close_def window_slug_def) (simp_all add: ex_slug_def SLUG_PREFIX_def)

lemma ex_rows_ok: "list_all (polybot_row_ok ex_pf False) [ex_polybot_row]" "list_all paper_row_ok (ld_paper_ticks ex_loader_db)"
  by (simp_all add: polybot_row_ok_def ex_polybot_row_def ex_pf_def paper_row_ok_def ex_loader_db_def ex_paper_row_def)

lemma ex_ohlcv_ok: "ohlcv_ok (ld_ohlcv ex_loader_db)"
  by (simp add: ohlcv_ok_def ex_loader_db_def ex_candle_def btc_minute_def)

lemma ex_candle_at: "candle_at pc_close (ld_ohlcv ex_loader_db) 600000000 = Some 103"
  "candle_at pc_open (ld_ohlcv ex_loader_db) 300000000 = Some 100"
  by (simp_all add: candle_at_def ex_loader_db_def ex_candle_def btc_minute_def)

lemma ex_closes_in: "list_all (\<lambda>r. closes_in (ld_markets ex_loader_db) (pp_market_slug r) (pp_window_close_ts r * 1000000)) (ld_paper_ticks ex_loader_db)"
  by (simp add: closes_in_def ex_loader_db_def ex_paper_row_def trunc_minute_def)

lemma stack_update_depths: "tc_pm_depth_yes (fst (stack_update f c st)) = tc_pm_depth_yes c"
  "tc_pm_depth_no (fst (stack_update f c st)) = tc_pm_depth_no c"
  by (simp_all add: stack_update_def Let_def split: prod.split)

text \<open>A market of one tick like these is traded.\<close>

lemma ex_one_tick_trade:
  assumes c: "tc_ts c = 450" "tc_t_in_window c = 150" "tc_pm_yes_ask c = 11 / 20" "tc_pm_spread_bps c = 100"
    "tc_pm_depth_yes c = 100" "tc_pm_depth_no c = 100" and "map_of d slug = Some fp"
  shows "length (res_trades (run_backtest ex_strategy [(slug, [c])] a b (ex_bt_params\<lparr>bp_settle_prices := Some d\<rparr>) ex_bt_manager [] ())) = 1"
proof -
  let ?P = "ex_bt_params\<lparr>bp_settle_prices := Some d\<rparr>"
  let ?m = "(fresh_market ?P, (bt_init ex_strategy ex_bt_manager ())\<lparr>bs_n_markets := 1\<rparr>)"
  have sel: "tc_pm_yes_ask (with_recent (fst (stack_update f c st)) r) = 11 / 20" "tc_pm_spread_bps (with_recent (fst (stack_update f c st)) r) = 100"
    "tc_pm_depth_yes (with_recent (fst (stack_update f c st)) r) = 100" "tc_pm_depth_no (with_recent (fst (stack_update f c st)) r) = 100"
    "tc_ts (with_recent (fst (stack_update f c st)) r) = 450" for f st r
    using stack_update_market [of c f st] c by (simp_all add: with_recent_def tick_core.defs same_market_def stack_update_depths)
  have "fst (fst (can_enter (with_recent (fst (stack_update f c st)) r) ex_bt_manager))" for f st r
    by (simp add: can_enter_ok_iff sel c(1) Let_def ex_bt_manager_def ex_manager_def new_risk_state_def today_of_def roll_day_def)
  then have "fst (bt_gate ?P (with_recent (fst (stack_update f c st)) r) bs)" if "bs_risk bs = ex_bt_manager" for f st r and bs :: "unit bt_state"
    using that by (simp add: bt_gate_def case_prod_beta Let_def ex_bt_params_def)
  moreover have "in_entry_window ?P c"
    using c by (simp add: in_entry_window_def ex_bt_params_def default_entry_window_def)
  moreover have "tc_pm_yes_ask ctx = 11 / 20 \<Longrightarrow> ms_position (fst (bt_decide ex_strategy ?P ctx mk st)) \<noteq> None" for ctx mk st
    by (simp add: bt_decide_def ex_strategy_def mk_decision_def ex_bt_params_def default_fill_config_def fill_price_of_def Let_def)
  ultimately have "ms_position (fst (bt_tick ex_strategy ?P c ?m)) \<noteq> None"
    by (simp add: bt_tick_eq sel fresh_market_def bt_init_def Let_def)
  then obtain pos where "ms_position (fst (bt_tick ex_strategy ?P c ?m)) = Some pos" by blast
  with assms(7) show ?thesis
    by (simp add: run_backtest_def bt_market_def settle_price_def bt_settle_def case_prod_beta Let_def bt_init_def
      arg_cong [OF ex_bt_params_def, of bp_bypass_risk])
qed

lemma ex_polybot_markets:
  "\<exists>c. polybot_markets ex_pf False [ex_polybot_row] 300000000 600000000 = [(ex_slug, [c])] \<and> tc_ts c = 450 \<and> tc_t_in_window c = 150 \<and>
     tc_pm_yes_ask c = 11 / 20 \<and> tc_pm_spread_bps c = 100 \<and> tc_pm_depth_yes c = 100 \<and> tc_pm_depth_no c = 100"
  by (simp add: polybot_markets_eq slugs_in_order_def slug_rows_def polybot_in_range_def polybot_market_rows_def
      polybot_market_eq polybot_tick_def ex_polybot_row_def ex_pf_def opt_or_def float_or_def Let_def)

text \<open>The single trade of the polybot example, bought at 0.55, wins: the candle of the close ends above the opening price.\<close>

theorem polybot_replay_sound_witness:
  "\<exists>r x. run_backtest_on ex_strategy (polybot_source ex_pf True (Inr ex_loader_db) \<lparr>pl_ticks = [ex_polybot_row], pl_slug_encodes_open_ts = False\<rparr>)
        (of_int 300000000 / 10 ^ 6) (of_int 600000000 / 10 ^ 6) ex_bt_params ex_bt_manager [] () = Inr r \<and>
     res_trades r = [x] \<and>
     settled_trade (polybot_markets ex_pf False [ex_polybot_row] 300000000 600000000)
       (\<lambda>s. candle_at pc_close (ld_ohlcv ex_loader_db) (slug_close False s * 1000000)) (slug_close False) 300000000 600000000 x"
proof -
  let ?L = "\<lparr>pl_ticks = [ex_polybot_row], pl_slug_encodes_open_ts = False\<rparr>"
  have nb: "\<not> bp_bypass_risk ex_bt_params" by (simp add: ex_bt_params_def)
  obtain d where d: "polybot_market_outcomes True (Inr ex_loader_db) ?L (of_int 300000000 / 10 ^ 6) (of_int 600000000 / 10 ^ 6) = Inr d"
    and run: "run_backtest_on ex_strategy (polybot_source ex_pf True (Inr ex_loader_db) ?L) (of_int 300000000 / 10 ^ 6) (of_int 600000000 / 10 ^ 6) ex_bt_params ex_bt_manager [] () =
      Inr (run_backtest ex_strategy (polybot_markets ex_pf False [ex_polybot_row] 300000000 600000000) (of_int 300000000 / 10 ^ 6) (of_int 600000000 / 10 ^ 6)
        (ex_bt_params\<lparr>bp_settle_prices := Some d\<rparr>) ex_bt_manager [] ())"
    by (rule polybot_run [OF ex_rows_ok(1)])
  from ex_polybot_markets obtain c where c: "polybot_markets ex_pf False [ex_polybot_row] 300000000 600000000 = [(ex_slug, [c])]"
    "tc_ts c = 450" "tc_t_in_window c = 150" "tc_pm_yes_ask c = 11 / 20" "tc_pm_spread_bps c = 100" "tc_pm_depth_yes c = 100" "tc_pm_depth_no c = 100"
    by blast
  have "map_of d ex_slug = Some 103"
    using polybot_prices [OF ex_rows_ok(1) ex_ohlcv_ok d, of ex_slug "[c]"] c(1) ex_candle_at by simp
  note one = ex_one_tick_trade [OF c(2-7) this, folded c(1)]
  define r where "r = run_backtest ex_strategy (polybot_markets ex_pf False [ex_polybot_row] 300000000 600000000) (of_int 300000000 / 10 ^ 6) (of_int 600000000 / 10 ^ 6)
        (ex_bt_params\<lparr>bp_settle_prices := Some d\<rparr>) ex_bt_manager [] ()"
  have "length (res_trades r) = 1" unfolding r_def by (rule one)
  then obtain x where x: "res_trades r = [x]" by (cases "res_trades r") auto
  note r = run [folded r_def] x
  obtain r' where r': "run_backtest_on ex_strategy (polybot_source ex_pf True (Inr ex_loader_db) ?L) (of_int 300000000 / 10 ^ 6) (of_int 600000000 / 10 ^ 6) ex_bt_params ex_bt_manager [] () = Inr r'"
    and settled: "list_all (settled_trade (polybot_markets ex_pf False [ex_polybot_row] 300000000 600000000)
       (\<lambda>s. candle_at pc_close (ld_ohlcv ex_loader_db) (slug_close False s * 1000000)) (slug_close False) 300000000 600000000) (res_trades r')"
    using polybot_replay_sound [OF ex_bt_manager_init nb ex_rows_ok(1) ex_ohlcv_ok, of ex_strategy True 300000000 600000000 "[]" "()"] by blast
  have "Inr r' = (Inr r :: py_error + unit backtest_run_result)" using r(1) r' by (rule trans [OF sym, rotated])
  then have "r' = r" by simp
  with settled r(2) have "list_all (settled_trade (polybot_markets ex_pf False [ex_polybot_row] 300000000 600000000)
       (\<lambda>s. candle_at pc_close (ld_ohlcv ex_loader_db) (slug_close False s * 1000000)) (slug_close False) 300000000 600000000) [x]"
    by (simp only:)
  then show ?thesis using r by (intro exI [of _ r] exI [of _ x] conjI) (simp_all only: list.pred_inject simp_thms)
qed

theorem paper_strike_is_opening_candle_witness:
  "\<exists>ticks. paper_iter_markets True (Inr ex_loader_db) (of_int 300000000 / 10 ^ 6) (of_int 600000000 / 10 ^ 6) = ([(ex_slug, ticks)], None) \<and>
     open_price_market ticks = 100 \<and> map tc_delta_bps ticks = [100]"
proof -
  have "paper_rows ex_loader_db 300000000 600000000 = [ex_paper_row]"
    by (simp add: paper_rows_def ex_loader_db_def ex_paper_row_def)
  moreover have "group_by_slug [ex_paper_row] = [(ex_slug, [ex_paper_row])]"
    by (simp add: group_by_slug_def ex_paper_row_def)
  ultimately obtain t where it: "paper_iter_markets True (Inr ex_loader_db) (of_int 300000000 / 10 ^ 6) (of_int 600000000 / 10 ^ 6) = ([(ex_slug, [t])], None)"
    "tc_spot_price t = 101"
    unfolding paper_iter_markets_eq by (simp add: row_to_tick_def ex_paper_row_def opt_or_def float_or_def Let_def)
  from paper_strike_is_opening_candle [OF ex_rows_ok(2) ex_ohlcv_ok, of ex_slug "[t]" True 300000000 600000000 100] ex_candle_at(2)
  have "open_price_market [t] = 100 \<and> list_all (\<lambda>c. tc_open_price c = 100 \<and> tc_delta_bps c = (tc_spot_price c - 100) / 100 * 10000) [t]"
    by (simp only: it fst_conv) simp
  with it show ?thesis by (intro exI [of _ "[t]"]) simp
qed

theorem paper_replay_sound_witness:
  "\<exists>r. run_backtest_on ex_strategy (paper_source True (Inr ex_loader_db)) (of_int 300000000 / 10 ^ 6) (of_int 600000000 / 10 ^ 6) ex_bt_params ex_bt_manager [] () = Inr r \<and>
     distinct (map bt_market_slug (res_trades r))"
proof -
  have nb: "\<not> bp_bypass_risk ex_bt_params" by (simp add: ex_bt_params_def)
  from paper_replay_sound [OF ex_bt_manager_init nb ex_rows_ok(2) ex_ohlcv_ok ex_closes_in, of ex_strategy True 300000000 600000000 "[]" "()"]
  show ?thesis by blast
qed

theorem loaders_settle_alike_witness:
  "\<exists>d d'. polybot_market_outcomes True (Inr ex_loader_db) \<lparr>pl_ticks = [ex_polybot_row], pl_slug_encodes_open_ts = False\<rparr> 300 600 = Inr d \<and>
     paper_market_outcomes True (Inr ex_loader_db) 300 600 = Inr d' \<and> map_of d ex_slug = Some 103 \<and> map_of d' ex_slug = Some 103"
proof -
  let ?L = "\<lparr>pl_ticks = [ex_polybot_row], pl_slug_encodes_open_ts = False\<rparr>"
  obtain d where d: "polybot_market_outcomes True (Inr ex_loader_db) ?L 300 600 = Inr d"
    using polybot_outcomes_total [of True ex_loader_db ?L 300 600] by (auto simp: polybot_in_range_def ex_polybot_row_def)
  obtain d' where d': "paper_market_outcomes True (Inr ex_loader_db) 300 600 = Inr d'"
    by (simp add: paper_market_outcomes_def Let_def)
  have "Some ex_slug \<in> set (map pr_market_slug (polybot_in_range 300 600 (pl_ticks ?L)))"
    by (simp add: polybot_in_range_def ex_polybot_row_def)
  moreover have "ex_slug \<in> set (map pp_market_slug (paper_in_range 300 600 (ld_paper_ticks ex_loader_db)))"
    by (simp add: paper_in_range_def ex_loader_db_def ex_paper_row_def to_timestamp_def py_round_def)
  moreover have "closes_in (ld_markets ex_loader_db) ex_slug (minute_floor (slug_close (pl_slug_encodes_open_ts ?L) ex_slug) * 1000000)"
    by (simp add: closes_in_def ex_loader_db_def trunc_minute_def minute_floor_def)
  ultimately have alike: "map_of d ex_slug = map_of d' ex_slug \<and>
      map_of d ex_slug = candle_at pc_close (ld_ohlcv ex_loader_db) (minute_floor (slug_close (pl_slug_encodes_open_ts ?L) ex_slug) * 1000000)"
    by (intro loaders_settle_alike [OF ex_ohlcv_ok d d']) simp_all
  have "minute_floor (slug_close (pl_slug_encodes_open_ts ?L) ex_slug) * 1000000 = 600000000" by (simp add: minute_floor_def)
  with alike ex_candle_at(1) have "map_of d ex_slug = Some 103" "map_of d' ex_slug = Some 103" by metis+
  with d d' show ?thesis by blast
qed

end
