(* ===== verification/Signal_Features.thy ===== *)
theory Signal_Features
  imports Slug
begin

text \<open>
  The signal features of \<open>engine/features\<close> that stand beside the strategies: the volume buckets of
  \<open>vpin.py\<close>, the order-flow imbalance of \<open>mlofi.py\<close>, the abstention gate of \<open>conformal.py\<close>, the liquidation
  gravity of \<open>liquidation_gravity.py\<close> and the candle patterns of \<open>candle_patterns.py\<close>.
\<close>

section \<open>Volume buckets\<close>

record bucket =
  bk_buy :: real
  bk_sell :: real
  bk_fill :: real
  bk_imbalances :: "real list"

definition empty_bucket :: bucket where
  "empty_bucket = \<lparr>bk_buy = 0, bk_sell = 0, bk_fill = 0, bk_imbalances = []\<rparr>"

text \<open>The body of the inner loop: one chunk of the trade goes to the bucket, which is closed when full.\<close>

definition add_chunk :: "real \<Rightarrow> bool \<Rightarrow> real \<Rightarrow> bucket \<Rightarrow> bucket" where
  "add_chunk bucket_volume is_buy chunk b0 =
     (let b = (if is_buy then b0\<lparr>bk_buy := bk_buy b0 + chunk\<rparr> else b0\<lparr>bk_sell := bk_sell b0 + chunk\<rparr>);
          b = b\<lparr>bk_fill := bk_fill b0 + chunk\<rparr>
      in if bk_fill b \<ge> bucket_volume - 1 / 10 ^ 9
         then \<lparr>bk_buy = 0, bk_sell = 0, bk_fill = 0,
                bk_imbalances = bk_imbalances b @ [\<bar>bk_buy b - bk_sell b\<bar> / bucket_volume]\<rparr>
         else b)"

partial_function (option) fill_buckets :: "real \<Rightarrow> bool \<Rightarrow> real \<Rightarrow> bucket \<Rightarrow> bucket option" where
  "fill_buckets bucket_volume is_buy remaining b =
     (if remaining > 0
      then (let room = bucket_volume - bk_fill b;
                chunk = min room remaining
            in fill_buckets bucket_volume is_buy (remaining - chunk) (add_chunk bucket_volume is_buy chunk b))
      else Some b)"

definition ascii_upper :: "string \<Rightarrow> string" where
  "ascii_upper = map (\<lambda>c. let k = (of_char c :: nat) in if 97 \<le> k \<and> k \<le> 122 then char_of (k - 32) else c)"

fun vpin_loop :: "real \<Rightarrow> (real \<times> real \<times> string) list \<Rightarrow> bucket \<Rightarrow> bucket option" where
  "vpin_loop bucket_volume [] b = Some b"
| "vpin_loop bucket_volume ((ts, qty, side) # trades) b =
     (if qty \<le> 0 then vpin_loop bucket_volume trades b
      else (case fill_buckets bucket_volume (ascii_upper side = ''BUY'') qty b of
              None \<Rightarrow> None
            | Some b' \<Rightarrow> vpin_loop bucket_volume trades b'))"

text \<open>\<open>None\<close> is a call that does not return.\<close>

definition vpin :: "(real \<times> real \<times> string) list \<Rightarrow> real \<Rightarrow> int \<Rightarrow> real option" where
  "vpin trades bucket_volume n_buckets =
     (if bucket_volume \<le> 0 \<or> n_buckets < 1 \<or> trades = [] then Some 0
      else (case vpin_loop bucket_volume trades empty_bucket of
              None \<Rightarrow> None
            | Some b \<Rightarrow>
                Some (if bk_imbalances b = [] then 0
                      else (let tl' = py_tail (nat n_buckets) (bk_imbalances b)
                            in sum_list tl' / real (length tl')))))"

section \<open>Order-flow imbalance\<close>

record book_level =
  bl_bid_price :: real
  bl_bid_size :: real
  bl_ask_price :: real
  bl_ask_size :: real

definition side_flow :: "real \<Rightarrow> real \<Rightarrow> real \<Rightarrow> real \<Rightarrow> bool \<Rightarrow> real" where
  "side_flow prev_price prev_size now_price now_size is_bid =
     (if is_bid
      then (if now_price > prev_price then now_size
            else if now_price < prev_price then - prev_size else now_size - prev_size)
      else (if now_price < prev_price then now_size
            else if now_price > prev_price then - prev_size else now_size - prev_size))"

definition level_flow :: "book_level \<Rightarrow> book_level \<Rightarrow> real" where
  "level_flow p n =
     (let bid = side_flow (bl_bid_price p) (bl_bid_size p) (bl_bid_price n) (bl_bid_size n) True;
          ask = side_flow (bl_ask_price p) (bl_ask_size p) (bl_ask_price n) (bl_ask_size n) False
      in bid - ask)"

definition mlofi :: "book_level list \<Rightarrow> book_level list \<Rightarrow> py_error + real list" where
  "mlofi prev now =
     (if length prev \<noteq> length now then Inl (ValueError ''prev and now must share the same level count'')
      else Inr (map2 level_flow prev now))"

section \<open>The abstention gate\<close>

datatype conformal_decision = Predict_Up | Predict_Down | Abstain

text \<open>The calibrator is a function that may raise (\<open>None\<close>).\<close>

record isotonic_conformal =
  cf_alpha :: real
  cf_calibrator :: "(real \<Rightarrow> real option) option"

definition default_conformal :: isotonic_conformal where
  "default_conformal = \<lparr>cf_alpha = 25 / 100, cf_calibrator = None\<rparr>"

definition calibrated :: "isotonic_conformal \<Rightarrow> real \<Rightarrow> real" where
  "calibrated c p_raw =
     (case cf_calibrator c of
        None \<Rightarrow> max 0 (min 1 p_raw)
      | Some predict \<Rightarrow>
          (let p = (case predict p_raw of Some x \<Rightarrow> x | None \<Rightarrow> p_raw) in max 0 (min 1 p)))"

definition decide_conformal :: "isotonic_conformal \<Rightarrow> real \<Rightarrow> conformal_decision \<times> real" where
  "decide_conformal c p_raw =
     (let p = calibrated c p_raw;
          lo = 1 / 2 - cf_alpha c / 2;
          hi = 1 / 2 + cf_alpha c / 2
      in if p > hi then (Predict_Up, p)
         else if p < lo then (Predict_Down, p)
         else (Abstain, p))"

section \<open>Liquidation gravity\<close>

record liq_cluster =
  lq_ts :: epoch
  lq_side :: string
  lq_price :: real
  lq_size_usd :: real

definition proximity_weight :: "real \<Rightarrow> real \<Rightarrow> real" where
  "proximity_weight dist_pct band_pct = (if dist_pct \<ge> band_pct then 0 else max 0 (1 - dist_pct / band_pct))"

definition add_cluster :: "real \<Rightarrow> real \<Rightarrow> real \<Rightarrow> real \<Rightarrow> real \<Rightarrow> liq_cluster \<Rightarrow> real \<times> real \<Rightarrow> real \<times> real" where
  "add_cluster spot band_pct close_band_pct large_cluster_usd max_mass c = (\<lambda>(down_raw, up_raw).
     if lq_price c \<le> 0 \<or> lq_size_usd c \<le> 0 then (down_raw, up_raw)
     else (let dist_pct = \<bar>lq_price c - spot\<bar> / spot * 100;
               w = proximity_weight dist_pct band_pct
           in if w \<le> 0 then (down_raw, up_raw)
              else (let is_close = dist_pct \<le> close_band_pct;
                        is_large = lq_size_usd c \<ge> large_cluster_usd;
                        mass = (if is_close \<and> is_large then max_mass else lq_size_usd c * w)
                    in if lq_price c < spot then (down_raw + mass, up_raw) else (down_raw, up_raw + mass))))"

definition gravity_scores :: "real \<Rightarrow> liq_cluster list \<Rightarrow> real \<Rightarrow> real \<Rightarrow> real \<Rightarrow> real \<times> real" where
  "gravity_scores spot clusters band_pct close_band_pct large_cluster_usd =
     (if spot \<le> 0 \<or> clusters = [] then (0, 0)
      else (let max_mass = max large_cluster_usd 1;
                (down_raw, up_raw) = fold (add_cluster spot band_pct close_band_pct large_cluster_usd max_mass) clusters (0, 0)
            in (min 1 (down_raw / max_mass), min 1 (up_raw / max_mass))))"

definition signed_gravity :: "real \<Rightarrow> real \<Rightarrow> real" where
  "signed_gravity down up = max (- 1) (min 1 (up - down))"

section \<open>Candle patterns\<close>

record ohlc =
  oh_ts :: epoch
  oh_open :: real
  oh_high :: real
  oh_low :: real
  oh_close :: real

record pattern_signal =
  ps_name :: string
  ps_direction :: int
  ps_strength :: real

definition mk_signal :: "string \<Rightarrow> int \<Rightarrow> real \<Rightarrow> pattern_signal" where
  "mk_signal nm d s = \<lparr>ps_name = nm, ps_direction = d, ps_strength = s\<rparr>"

definition candle_body :: "ohlc \<Rightarrow> real" where
  "candle_body c = \<bar>oh_close c - oh_open c\<bar>"

definition candle_range :: "ohlc \<Rightarrow> real" where
  "candle_range c = max (1 / 10 ^ 9) (oh_high c - oh_low c)"

definition is_bull :: "ohlc \<Rightarrow> bool" where
  "is_bull c \<longleftrightarrow> oh_close c > oh_open c"

definition is_bear :: "ohlc \<Rightarrow> bool" where
  "is_bear c \<longleftrightarrow> oh_close c < oh_open c"

definition detect_doji :: "ohlc \<Rightarrow> pattern_signal option" where
  "detect_doji c =
     (let body_ratio = candle_body c / candle_range c
      in if body_ratio \<le> 10 / 100 then Some (mk_signal ''doji'' 0 (1 - body_ratio * 10)) else None)"

definition detect_engulfing :: "ohlc \<Rightarrow> ohlc \<Rightarrow> pattern_signal option" where
  "detect_engulfing prev cur =
     (if is_bear prev \<and> is_bull cur \<and> oh_close cur \<ge> oh_open prev \<and> oh_open cur \<le> oh_close prev
      then Some (mk_signal ''engulfing'' 1 1)
      else if is_bull prev \<and> is_bear cur \<and> oh_open cur \<ge> oh_close prev \<and> oh_close cur \<le> oh_open prev
      then Some (mk_signal ''engulfing'' (- 1) 1)
      else None)"

definition lower_wick :: "ohlc \<Rightarrow> real" where
  "lower_wick c = min (oh_open c) (oh_close c) - oh_low c"

definition upper_wick :: "ohlc \<Rightarrow> real" where
  "upper_wick c = oh_high c - max (oh_open c) (oh_close c)"

definition detect_hammer :: "ohlc \<Rightarrow> pattern_signal option" where
  "detect_hammer c =
     (let r = candle_range c; bd = candle_body c
      in if r \<le> 0 \<or> bd / r > 40 / 100 then None
         else if lower_wick c \<ge> 2 * bd \<and> upper_wick c \<le> 1 / 10 * r \<and> is_bull c
         then Some (mk_signal ''hammer'' 1 (min 1 (lower_wick c / (3 * max bd (1 / 10 ^ 9)))))
         else None)"

definition detect_shooting_star :: "ohlc \<Rightarrow> pattern_signal option" where
  "detect_shooting_star c =
     (let r = candle_range c; bd = candle_body c
      in if r \<le> 0 \<or> bd / r > 40 / 100 then None
         else if upper_wick c \<ge> 2 * bd \<and> lower_wick c \<le> 1 / 10 * r \<and> is_bear c
         then Some (mk_signal ''shooting_star'' (- 1) (min 1 (upper_wick c / (3 * max bd (1 / 10 ^ 9)))))
         else None)"

text \<open>\<open>candles[-3], candles[-2], candles[-1]\<close>, where there are three.\<close>

definition last_three :: "ohlc list \<Rightarrow> (ohlc \<times> ohlc \<times> ohlc) option" where
  "last_three cs =
     (if length cs < 3 then None
      else Some (cs ! (length cs - 3), cs ! (length cs - 2), cs ! (length cs - 1)))"

definition detect_morning_star :: "ohlc list \<Rightarrow> pattern_signal option" where
  "detect_morning_star candles =
     (case last_three candles of
        None \<Rightarrow> None
      | Some (a, b, c) \<Rightarrow>
          (let mid = (oh_open a + oh_close a) / 2
           in if is_bear a \<and> candle_body b < 3 / 10 * candle_body a \<and> is_bull c \<and> oh_close c > mid
              then Some (mk_signal ''morning_star'' 1 (9 / 10)) else None))"

definition detect_evening_star :: "ohlc list \<Rightarrow> pattern_signal option" where
  "detect_evening_star candles =
     (case last_three candles of
        None \<Rightarrow> None
      | Some (a, b, c) \<Rightarrow>
          (let mid = (oh_open a + oh_close a) / 2
           in if is_bull a \<and> candle_body b < 3 / 10 * candle_body a \<and> is_bear c \<and> oh_close c < mid
              then Some (mk_signal ''evening_star'' (- 1) (9 / 10)) else None))"

definition detect_advance_block :: "ohlc list \<Rightarrow> pattern_signal option" where
  "detect_advance_block candles =
     (case last_three candles of
        None \<Rightarrow> None
      | Some (a, b, c) \<Rightarrow>
          if \<not> (is_bull a \<and> is_bull b \<and> is_bull c) then None
          else if candle_body a > candle_body b \<and> candle_body b > candle_body c \<and> oh_high c > oh_high b \<and> oh_high b > oh_high a \<and> upper_wick c > candle_body c
          then Some (mk_signal ''advance_block'' (- 1) (7 / 10)) else None)"

definition some_of :: "'a option list \<Rightarrow> 'a list" where
  "some_of xs = List.map_filter (\<lambda>x. x) xs"

definition detect_5m :: "ohlc list \<Rightarrow> pattern_signal list" where
  "detect_5m candles =
     (if length candles < 3 then []
      else (let cur = candles ! (length candles - 1); prev = candles ! (length candles - 2)
            in some_of [detect_doji cur, detect_engulfing prev cur, detect_hammer cur, detect_shooting_star cur,
                 detect_morning_star candles, detect_evening_star candles, detect_advance_block candles]))"

definition detect_1m_micro :: "ohlc list \<Rightarrow> pattern_signal list" where
  "detect_1m_micro candles =
     (if length candles < 2 then []
      else (let cur = candles ! (length candles - 1); prev = candles ! (length candles - 2)
            in some_of [detect_doji cur, detect_engulfing prev cur, detect_hammer cur, detect_shooting_star cur]))"

definition aggregate_direction :: "pattern_signal list \<Rightarrow> int \<times> real" where
  "aggregate_direction signals =
     (if signals = [] then (0, 0)
      else (let sm = sum_list (map (\<lambda>s. of_int (ps_direction s) * ps_strength s) (filter (\<lambda>s. ps_direction s \<noteq> 0) signals))
            in if sm = 0 then (0, 0) else (if sm > 0 then 1 else - 1, min 1 \<bar>sm\<bar>)))"

section \<open>The bucket loop returns and stays in range\<close>

text \<open>Between trades a bucket holds what was bought and sold since it was opened, less than its volume.\<close>

definition bucket_ok :: "real \<Rightarrow> bucket \<Rightarrow> bool" where
  "bucket_ok bucket_volume b \<longleftrightarrow> 0 \<le> bk_buy b \<and> 0 \<le> bk_sell b \<and> bk_fill b = bk_buy b + bk_sell b \<and>
     bk_fill b < bucket_volume \<and> list_all (\<lambda>x. 0 \<le> x \<and> x \<le> 1) (bk_imbalances b)"

lemma add_chunk_ok:
  assumes "bucket_ok v b" "0 \<le> chunk" "chunk \<le> v - bk_fill b"
  shows "bucket_ok v (add_chunk v s chunk b)"
proof -
  have v: "0 < v" using assms(1) by (simp add: bucket_ok_def)
  have "\<bar>x - y\<bar> / v \<le> 1" if "0 \<le> x" "0 \<le> y" "x + y \<le> v" for x y
    using that v by (simp add: divide_le_eq)
  with assms v show ?thesis by (auto simp: bucket_ok_def add_chunk_def Let_def)
qed

lemma add_chunk_full: "bk_fill (add_chunk v s (v - bk_fill b) b) = 0"
  by (simp add: add_chunk_def Let_def)

lemma fill_buckets_done: "fill_buckets v s 0 b = Some b"
  by (subst fill_buckets.simps) simp

text \<open>Each full chunk lowers what is in the bucket or still to be put there by one bucket volume.\<close>

lemma fill_buckets_returns:
  assumes "bucket_ok v b"
  shows "\<exists>b'. fill_buckets v s remaining b = Some b' \<and> bucket_ok v b'"
  using assms
proof (induction "nat \<lfloor>(remaining + bk_fill b) / v\<rfloor>" arbitrary: remaining b rule: less_induct)
  case less
  have v: "0 < v" "0 \<le> bk_fill b" "bk_fill b < v" using less.prems by (auto simp: bucket_ok_def)
  let ?room = "v - bk_fill b"
  consider "remaining \<le> 0" | "0 < remaining" "remaining \<le> ?room" | "?room < remaining" by linarith
  then show ?case
  proof cases
    case 1
    with less.prems show ?thesis by (subst fill_buckets.simps) simp
  next
    case 2
    then have "min ?room remaining = remaining" by simp
    then have "fill_buckets v s remaining b = Some (add_chunk v s remaining b)"
      using 2 by (subst fill_buckets.simps) (simp only: if_True Let_def diff_self fill_buckets_done)
    with add_chunk_ok [OF less.prems, of remaining s] 2 show ?thesis by simp
  next
    case 3
    let ?b = "add_chunk v s ?room b" and ?rest = "remaining - ?room"
    have ok: "bucket_ok v ?b" using v by (intro add_chunk_ok [OF less.prems]) auto
    have "min ?room remaining = ?room" using 3 by simp
    then have step: "fill_buckets v s remaining b = fill_buckets v s ?rest ?b"
      using 3 v by (subst fill_buckets.simps) (simp only: if_True Let_def, simp)
    have "(?rest + bk_fill ?b) / v = (remaining + bk_fill b) / v - 1"
      using v by (simp add: add_chunk_full field_simps)
    moreover have "1 \<le> (remaining + bk_fill b) / v" using 3 v by (simp add: le_divide_eq)
    ultimately have "nat \<lfloor>(?rest + bk_fill ?b) / v\<rfloor> < nat \<lfloor>(remaining + bk_fill b) / v\<rfloor>" by linarith
    from less.hyps [OF this ok] step show ?thesis by simp
  qed
qed

lemma vpin_loop_returns:
  "bucket_ok v b \<Longrightarrow> \<exists>b'. vpin_loop v trades b = Some b' \<and> bucket_ok v b'"
proof (induction v trades b rule: vpin_loop.induct)
  case (2 v ts qty side trades b)
  obtain b' where b': "fill_buckets v (ascii_upper side = ''BUY'') qty b = Some b'" "bucket_ok v b'"
    using fill_buckets_returns [OF 2(3)] by blast
  with 2 show ?case by simp
qed simp

lemma average_in_unit:
  assumes "list_all (\<lambda>x. 0 \<le> x \<and> x \<le> (1 :: real)) xs" "xs \<noteq> []"
  shows "0 \<le> sum_list xs / real (length xs) \<and> sum_list xs / real (length xs) \<le> 1"
proof -
  have "0 \<le> sum_list xs" using assms(1) by (intro sum_list_nonneg) (simp add: list_all_iff)
  moreover have "sum_list xs \<le> real (length xs)" using assms(1) by (induction xs) auto
  ultimately show ?thesis using assms(2) by (simp add: divide_le_eq)
qed

text \<open>The bucket loop always returns. Whatever the trades, the bucket volume and the number of
  buckets, the computation ends and its value lies between zero and one.\<close>

theorem vpin_returns_in_range: "\<exists>x. vpin trades bucket_volume n_buckets = Some x \<and> 0 \<le> x \<and> x \<le> 1"
proof (cases "bucket_volume \<le> 0 \<or> n_buckets < 1 \<or> trades = []")
  case False
  then have "bucket_ok bucket_volume empty_bucket" by (simp add: bucket_ok_def empty_bucket_def)
  from vpin_loop_returns [OF this] obtain b where b: "vpin_loop bucket_volume trades empty_bucket = Some b" "bucket_ok bucket_volume b" by blast
  let ?tl = "py_tail (nat n_buckets) (bk_imbalances b)"
  have "list_all (\<lambda>x. 0 \<le> x \<and> x \<le> 1) ?tl"
    using b(2) set_py_tail [of "nat n_buckets" "bk_imbalances b"] by (auto simp: bucket_ok_def list_all_iff)
  moreover have "?tl \<noteq> []" if "bk_imbalances b \<noteq> []"
  proof -
    have "0 < nat n_buckets" using False by simp
    then have "0 < length ?tl" using that by (simp del: zero_less_nat_eq)
    then show ?thesis by auto
  qed
  ultimately have avg: "bk_imbalances b \<noteq> [] \<Longrightarrow> 0 \<le> sum_list ?tl / real (length ?tl) \<and> sum_list ?tl / real (length ?tl) \<le> 1"
    by (intro average_in_unit)
  have "vpin trades bucket_volume n_buckets = Some (if bk_imbalances b = [] then 0 else sum_list ?tl / real (length ?tl))"
    using False b(1) by (simp add: vpin_def Let_def del: length_py_tail)
  with avg show ?thesis by (cases "bk_imbalances b = []") auto
qed (simp add: vpin_def)

section \<open>Flow, gate and gravity\<close>

lemma side_flow_antisym: "side_flow p2 s2 p1 s1 b = - side_flow p1 s1 p2 s2 b"
  by (simp add: side_flow_def)

text \<open>Playing two books backwards turns every flow around.\<close>

lemma mlofi_antisym: "mlofi now prev = (case mlofi prev now of Inl e \<Rightarrow> Inl e | Inr xs \<Rightarrow> Inr (map uminus xs))"
proof (cases "length prev = length now")
  case True
  then have "map2 level_flow now prev = map uminus (map2 level_flow prev now)"
  proof (induction prev now rule: list_induct2)
    case (Cons p ps n ns)
    then show ?case by (simp add: level_flow_def Let_def side_flow_antisym [of "bl_bid_price p"] side_flow_antisym [of "bl_ask_price p"])
  qed simp
  with True show ?thesis by (simp add: mlofi_def)
qed (simp add: mlofi_def)

lemma calibrated_range: "0 \<le> calibrated c p \<and> calibrated c p \<le> 1"
  by (simp add: calibrated_def Let_def split: option.split)

text \<open>With a band of a width from zero to one the gate decides exactly on the sides of the band.\<close>

lemma conformal_band:
  assumes "0 \<le> cf_alpha c"
  shows "(fst (decide_conformal c p) = Predict_Up \<longleftrightarrow> cf_alpha c / 2 < calibrated c p - 1 / 2) \<and>
    (fst (decide_conformal c p) = Predict_Down \<longleftrightarrow> calibrated c p - 1 / 2 < - (cf_alpha c / 2)) \<and>
    (fst (decide_conformal c p) = Abstain \<longleftrightarrow> \<bar>calibrated c p - 1 / 2\<bar> \<le> cf_alpha c / 2)"
  using assms by (auto simp: decide_conformal_def Let_def abs_if split: if_splits)

lemma add_cluster_mono:
  assumes "0 \<le> m" "add_cluster spot bd cl lg m c (d, u) = (d', u')"
  shows "d \<le> d' \<and> u \<le> u'"
  using assms by (auto simp: add_cluster_def Let_def split: if_splits)

lemma add_clusters_mono:
  "0 \<le> m \<Longrightarrow> fold (add_cluster spot bd cl lg m) cs (d, u) = (d', u') \<Longrightarrow> d \<le> d' \<and> u \<le> u'"
proof (induction cs arbitrary: d u)
  case (Cons c cs)
  obtain d1 u1 where 1: "add_cluster spot bd cl lg m c (d, u) = (d1, u1)" by (cases "add_cluster spot bd cl lg m c (d, u)")
  with Cons.prems have "fold (add_cluster spot bd cl lg m) cs (d1, u1) = (d', u')" by simp
  from Cons.IH [OF Cons.prems(1) this] add_cluster_mono [OF Cons.prems(1) 1] show ?case by linarith
qed simp

lemma gravity_range:
  assumes "gravity_scores spot cs bd cl lg = (dn, up)"
  shows "0 \<le> dn \<and> dn \<le> 1 \<and> 0 \<le> up \<and> up \<le> 1"
proof (cases "spot \<le> 0 \<or> cs = []")
  case False
  obtain d u where du: "fold (add_cluster spot bd cl lg (max lg 1)) cs (0, 0) = (d, u)" by (cases "fold (add_cluster spot bd cl lg (max lg 1)) cs (0, 0)")
  then have "0 \<le> d \<and> 0 \<le> u" by (intro add_clusters_mono [rotated]) auto
  with assms False du show ?thesis by (auto simp: gravity_scores_def Let_def)
qed (use assms in \<open>simp add: gravity_scores_def\<close>)

text \<open>More clusters never pull less.\<close>

lemma gravity_mono:
  assumes "gravity_scores spot cs bd cl lg = (dn, up)" "gravity_scores spot (cs @ cs') bd cl lg = (dn', up')"
  shows "dn \<le> dn' \<and> up \<le> up'"
proof (cases "spot \<le> 0 \<or> cs = []")
  case True
  with assms(1) gravity_range [OF assms(2)] show ?thesis by (auto simp: gravity_scores_def)
next
  case False
  define m where "m = max lg 1"
  have m: "0 < m" by (simp add: m_def)
  obtain d u where du: "fold (add_cluster spot bd cl lg m) cs (0, 0) = (d, u)" by (cases "fold (add_cluster spot bd cl lg m) cs (0, 0)")
  obtain d' u' where du': "fold (add_cluster spot bd cl lg m) cs' (d, u) = (d', u')" by (cases "fold (add_cluster spot bd cl lg m) cs' (d, u)")
  have le: "d \<le> d' \<and> u \<le> u'" using m by (intro add_clusters_mono [OF _ du']) simp
  have "dn = min 1 (d / m)" "up = min 1 (u / m)" "dn' = min 1 (d' / m)" "up' = min 1 (u' / m)"
    using assms False du du' by (simp_all add: gravity_scores_def Let_def m_def)
  moreover have "d / m \<le> d' / m" "u / m \<le> u' / m" using le m by (simp_all add: divide_right_mono)
  ultimately show ?thesis by (simp only: min.mono order_refl simp_thms)
qed

section \<open>Patterns\<close>

lemma set_some_of: "x \<in> set (some_of xs) \<longleftrightarrow> Some x \<in> set xs"
  unfolding some_of_def List.map_filter_def by force

text \<open>A signal is sound for the last candle: a strength in the unit interval, and a direction that is that of the
  candle's body unless the pattern is one of indecision or exhaustion.\<close>

definition signal_ok :: "ohlc \<Rightarrow> pattern_signal \<Rightarrow> bool" where
  "signal_ok c s \<longleftrightarrow> 0 \<le> ps_strength s \<and> ps_strength s \<le> 1 \<and>
     (if ps_name s = ''doji'' then ps_direction s = 0
      else if ps_name s = ''advance_block'' then ps_direction s = - 1 \<and> is_bull c
      else ps_direction s = (if is_bull c then 1 else - 1) \<and> (is_bull c \<or> is_bear c))"

lemma mk_signal_sel [simp]: "ps_name (mk_signal nm d x) = nm" "ps_direction (mk_signal nm d x) = d" "ps_strength (mk_signal nm d x) = x"
  by (simp_all add: mk_signal_def)

lemma candle_body_nonneg: "0 \<le> candle_body c"
  by (simp add: candle_body_def)

lemma range_pos: "0 < candle_range c"
  by (simp add: candle_range_def less_max_iff_disj)

lemma not_both: "is_bear c \<Longrightarrow> \<not> is_bull c"
  by (simp add: is_bear_def is_bull_def)

lemma wick_strength: "2 * candle_body c \<le> w \<Longrightarrow> 0 \<le> min 1 (w / (3 * max (candle_body c) (1 / 10 ^ 9)))"
  using candle_body_nonneg [of c] by (auto intro!: divide_nonneg_nonneg)

lemma doji_ok: "detect_doji c = Some s \<Longrightarrow> signal_ok c s"
proof -
  assume "detect_doji c = Some s"
  then have s: "candle_body c / candle_range c \<le> 1 / 10" "s = mk_signal ''doji'' 0 (1 - candle_body c / candle_range c * 10)"
    by (auto simp: detect_doji_def Let_def split: if_splits)
  have "0 \<le> candle_body c / candle_range c" using candle_body_nonneg [of c] range_pos [of c] by (intro divide_nonneg_nonneg) auto
  with s(1) have "0 \<le> 1 - candle_body c / candle_range c * 10 \<and> 1 - candle_body c / candle_range c * 10 \<le> 1" by linarith
  then show ?thesis by (simp add: s(2) signal_ok_def)
qed

lemma engulfing_ok: "detect_engulfing prev c = Some s \<Longrightarrow> signal_ok c s"
  using not_both [of c] by (auto simp: detect_engulfing_def signal_ok_def split: if_splits)

lemma hammer_ok: "detect_hammer c = Some s \<Longrightarrow> signal_ok c s"
  using wick_strength [of c "lower_wick c"] by (auto simp: detect_hammer_def signal_ok_def Let_def split: if_splits)

lemma shooting_star_ok: "detect_shooting_star c = Some s \<Longrightarrow> signal_ok c s"
  using wick_strength [of c "upper_wick c"] not_both [of c] by (auto simp: detect_shooting_star_def signal_ok_def Let_def split: if_splits)

lemma three_bar_ok:
  assumes "3 \<le> length cs"
  shows "detect_morning_star cs = Some s \<Longrightarrow> signal_ok (cs ! (length cs - 1)) s"
    and "detect_evening_star cs = Some s \<Longrightarrow> signal_ok (cs ! (length cs - 1)) s"
    and "detect_advance_block cs = Some s \<Longrightarrow> signal_ok (cs ! (length cs - 1)) s"
  using assms not_both [of "cs ! (length cs - 1)"]
  by (auto simp: detect_morning_star_def detect_evening_star_def detect_advance_block_def last_three_def signal_ok_def Let_def split: if_splits)

lemma detect_5m_ok: "s \<in> set (detect_5m cs) \<Longrightarrow> signal_ok (cs ! (length cs - 1)) s"
  using doji_ok engulfing_ok hammer_ok shooting_star_ok three_bar_ok [of cs]
  by (auto simp: detect_5m_def Let_def set_some_of split: if_splits)

lemma detector_names:
  "detect_doji c = Some s \<Longrightarrow> ps_name s = ''doji''" "detect_engulfing prev c = Some s \<Longrightarrow> ps_name s = ''engulfing''"
  "detect_hammer c = Some s \<Longrightarrow> ps_name s = ''hammer''" "detect_shooting_star c = Some s \<Longrightarrow> ps_name s = ''shooting_star''"
  by (auto simp: detect_doji_def detect_engulfing_def detect_hammer_def detect_shooting_star_def Let_def split: if_splits)

lemma detect_1m_ok: "s \<in> set (detect_1m_micro cs) \<Longrightarrow> signal_ok (cs ! (length cs - 1)) s \<and> ps_name s \<noteq> ''advance_block''"
proof -
  assume "s \<in> set (detect_1m_micro cs)"
  then have "detect_doji (cs ! (length cs - 1)) = Some s \<or> detect_engulfing (cs ! (length cs - 2)) (cs ! (length cs - 1)) = Some s \<or>
      detect_hammer (cs ! (length cs - 1)) = Some s \<or> detect_shooting_star (cs ! (length cs - 1)) = Some s"
    unfolding detect_1m_micro_def Let_def by (simp add: set_some_of eq_commute split: if_splits)
  then show ?thesis
    by (elim disjE) (simp_all only: doji_ok engulfing_ok hammer_ok shooting_star_ok detector_names, simp_all)
qed

text \<open>A sum of terms of one sign.\<close>

lemma directed_sum:
  assumes "list_all (\<lambda>s. 0 \<le> ps_strength s \<and> (ps_direction s = 0 \<or> ps_direction s = d)) ss" "d = 1 \<or> d = - 1"
  shows "0 \<le> of_int d * sum_list (map (\<lambda>s. of_int (ps_direction s) * ps_strength s) (filter (\<lambda>s. ps_direction s \<noteq> 0) ss))"
  using assms by (induction ss) (auto simp: algebra_simps)

text \<open>The pattern signals agree with the last candle. Every signal has a strength between zero and one and,
  except for the indecisive doji and the exhaustion block after three rising candles, the direction of
  the last candle's body; so the micro patterns, which have no block, never aggregate to a direction
  against the last candle, and the confidence is at most one.\<close>

theorem pattern_signals_follow_last_candle:
  fixes cs :: "ohlc list"
  defines "c \<equiv> cs ! (length cs - 1)"
  shows "list_all (signal_ok c) (detect_5m cs) \<and> list_all (signal_ok c) (detect_1m_micro cs) \<and>
    fst (aggregate_direction (detect_1m_micro cs)) \<in> {0, if is_bull c then 1 else - 1} \<and>
    0 \<le> snd (aggregate_direction ss) \<and> snd (aggregate_direction ss) \<le> 1"
proof (intro conjI)
  show "list_all (signal_ok c) (detect_5m cs)" unfolding list_all_iff c_def by (intro ballI detect_5m_ok)
  show "list_all (signal_ok c) (detect_1m_micro cs)" unfolding list_all_iff c_def by (intro ballI conjunct1 [OF detect_1m_ok])
  let ?d = "if is_bull c then 1 else - 1 :: int"
  have "0 \<le> ps_strength s \<and> (ps_direction s = 0 \<or> ps_direction s = ?d)" if "s \<in> set (detect_1m_micro cs)" for s
    using detect_1m_ok [OF that] by (auto simp: signal_ok_def c_def split: if_splits)
  then have "list_all (\<lambda>s. 0 \<le> ps_strength s \<and> (ps_direction s = 0 \<or> ps_direction s = ?d)) (detect_1m_micro cs)"
    by (simp add: list_all_iff)
  from directed_sum [OF this] show "fst (aggregate_direction (detect_1m_micro cs)) \<in> {0, ?d}"
    by (cases "is_bull c") (auto simp: aggregate_direction_def Let_def)
  show "0 \<le> snd (aggregate_direction ss)" "snd (aggregate_direction ss) \<le> 1"
    by (simp_all add: aggregate_direction_def Let_def)
qed

text \<open>The bounded signals. The calibrated probability is a probability whatever the calibrator returns or raises and
  the gate abstains exactly inside its band; both pulls of the liquidation clusters lie in the unit interval and
  never shrink when clusters are added.\<close>

theorem gate_and_gravity_bounded:
  assumes "0 \<le> cf_alpha g"
  shows "0 \<le> calibrated g p \<and> calibrated g p \<le> 1 \<and>
    (fst (decide_conformal g p) = Abstain \<longleftrightarrow> \<bar>calibrated g p - 1 / 2\<bar> \<le> cf_alpha g / 2) \<and>
    (let (down, up) = gravity_scores spot cs band close_band large;
         (down', up') = gravity_scores spot (cs @ extra) band close_band large
     in 0 \<le> down \<and> down \<le> down' \<and> down' \<le> 1 \<and> 0 \<le> up \<and> up \<le> up' \<and> up' \<le> 1)"
  using calibrated_range [of g p] conformal_band [OF assms, of p]
    gravity_range [of spot cs band close_band large] gravity_range [of spot "cs @ extra" band close_band large]
    gravity_mono [of spot cs band close_band large _ _ extra]
  by (cases "gravity_scores spot cs band close_band large"; cases "gravity_scores spot (cs @ extra) band close_band large") simp

theorem gate_and_gravity_bounded_witness:
  "\<bar>calibrated default_conformal (6 / 10) - 1 / 2\<bar> \<le> 1 / 8 \<and> fst (decide_conformal default_conformal (6 / 10)) = Abstain"
proof -
  have a: "0 \<le> cf_alpha default_conformal" by (simp add: default_conformal_def)
  have "\<bar>calibrated default_conformal (6 / 10) - 1 / 2\<bar> \<le> cf_alpha default_conformal / 2"
    by (simp add: default_conformal_def calibrated_def)
  with gate_and_gravity_bounded [OF a, of "6 / 10" 1 "[]" 1 1 1 "[]"] show ?thesis by (simp add: default_conformal_def)
qed

end
