(* ===== verification/Oracle_Feed.thy ===== *)
theory Oracle_Feed
  imports Json Signal_Features
begin

text \<open>
  The path of an oracle price into the strategies: the clients of \<open>engine/features/chainlink_oracle.py\<close> with
  their decoding, the polling loop of \<open>ingest/chainlink/adapter.py\<close> with its table, and the cached
  snapshots of \<open>strategies/polymarket_btc5m/_shared_providers.py\<close>. An HTTP exchange is a parameter: it fails,
  or it gives a status and the decoded body (\<open>None\<close> where \<open>r.json()\<close> raises).
\<close>

section \<open>Clients\<close>

record chainlink_snapshot =
  cs_feed :: string
  cs_round_id :: int
  cs_answer :: real
  cs_updated_at_ts :: real
  cs_source :: string

datatype http_reply = No_Reply | Reply int "json option"

text \<open>A block under \<open>except Exception: return None\<close>.\<close>

definition or_none :: "py_error + 'a \<Rightarrow> 'a option" where
  "or_none r = (case r of Inl e \<Rightarrow> None | Inr x \<Rightarrow> Some x)"

definition reply_body :: "http_reply \<Rightarrow> json option" where
  "reply_body r = (case r of No_Reply \<Rightarrow> None | Reply st b \<Rightarrow> if st \<noteq> 200 then None else b)"

definition datastreams_snapshot :: "text_env \<Rightarrow> string \<Rightarrow> json \<Rightarrow> py_error + chainlink_snapshot" where
  "datastreams_snapshot te feed_id data =
     bind_r (bind_r (js_item ''price'' data) (py_float te)) (\<lambda>price.
     bind_r (bind_r (js_item ''observationsTimestamp'' data) (py_float te)) (\<lambda>observations_ts.
     bind_r (bind_r (bind_r (js_getd ''reportContext'' (JsArr [JsInt 0, JsInt 0]) data) (\<lambda>c. js_index c 1)) js_int) (\<lambda>round_id.
       Inr \<lparr>cs_feed = ''datastreams:'' @ feed_id, cs_round_id = round_id, cs_answer = price / 10 ^ 8,
            cs_updated_at_ts = observations_ts, cs_source = ''datastreams''\<rparr>)))"

definition datastreams_latest :: "text_env \<Rightarrow> string \<Rightarrow> http_reply \<Rightarrow> chainlink_snapshot option" where
  "datastreams_latest te feed_id r =
     (case reply_body r of None \<Rightarrow> None | Some data \<Rightarrow> or_none (datastreams_snapshot te feed_id data))"

text \<open>\<open>bytes.fromhex\<close>: pairs of hexadecimal digits, ASCII blanks between the pairs skipped.\<close>

definition hex_value :: "char \<Rightarrow> int option" where
  "hex_value c =
     (let k = (of_char c :: nat)
      in if 48 \<le> k \<and> k \<le> 57 then Some (int k - 48)
         else if 97 \<le> k \<and> k \<le> 102 then Some (int k - 87)
         else if 65 \<le> k \<and> k \<le> 70 then Some (int k - 55) else None)"

definition hex_blank :: "char \<Rightarrow> bool" where
  "hex_blank c \<longleftrightarrow> (let k = (of_char c :: nat) in (9 \<le> k \<and> k \<le> 13) \<or> k = 32)"

fun from_hex :: "string \<Rightarrow> int list option" where
  "from_hex [] = Some []"
| "from_hex (c # cs) =
     (if hex_blank c then from_hex cs
      else case cs of
        [] \<Rightarrow> None
      | d # ds \<Rightarrow>
          (case (hex_value c, hex_value d) of
             (Some h, Some l) \<Rightarrow> map_option (\<lambda>bs. (16 * h + l) # bs) (from_hex ds)
           | _ \<Rightarrow> None))"

text \<open>\<open>int.from_bytes(bs, "big")\<close>, unsigned and signed.\<close>

definition int_from_bytes :: "int list \<Rightarrow> int" where
  "int_from_bytes bs = foldl (\<lambda>a b. a * 256 + b) 0 bs"

definition int_from_bytes_signed :: "int list \<Rightarrow> int" where
  "int_from_bytes_signed bs =
     (let u = int_from_bytes bs
      in if 2 * u \<ge> 256 ^ length bs then u - 256 ^ length bs else u)"

definition slice :: "nat \<Rightarrow> nat \<Rightarrow> 'a list \<Rightarrow> 'a list" where
  "slice i j xs = take (j - i) (drop i xs)"

definition eac_latest :: "string \<Rightarrow> http_reply \<Rightarrow> chainlink_snapshot option" where
  "eac_latest contract_address r =
     (case reply_body r of
        None \<Rightarrow> None
      | Some body \<Rightarrow>
          (case js_item ''result'' body of
             Inr (JsStr raw) \<Rightarrow>
               if raw = [] \<or> raw = ''0x'' then None
               else (case from_hex (drop 2 raw) of
                       None \<Rightarrow> None
                     | Some data \<Rightarrow>
                         if length data < 160 then None
                         else (let round_id = int_from_bytes (slice 0 32 data);
                                   answer_raw = int_from_bytes_signed (slice 32 64 data);
                                   updated_at = int_from_bytes (slice 96 128 data)
                               in Some \<lparr>cs_feed = ''eac_polygon:'' @ contract_address, cs_round_id = round_id,
                                    cs_answer = of_int answer_raw / 10 ^ 8, cs_updated_at_ts = of_int updated_at,
                                    cs_source = ''eac_polygon''\<rparr>))
           | _ \<Rightarrow> None))"

section \<open>The choice of a client\<close>

datatype oracle_client = Data_Streams string string string | Eac_Proxy string string | Null_Chainlink

record oracle_settings =
  os_datastreams_key :: string
  os_datastreams_url :: string
  os_datastreams_feed_id :: string
  os_alchemy_polygon_url :: string
  os_eac_btcusd_polygon :: string
  os_refresh_interval_s :: int

definition rstrip_slash :: "string \<Rightarrow> string" where
  "rstrip_slash s = rev (dropWhile (\<lambda>c. c = CHR ''/'') (rev s))"

definition pick_watcher :: "oracle_settings \<Rightarrow> oracle_client" where
  "pick_watcher s =
     (if os_datastreams_key s \<noteq> []
      then Data_Streams (os_datastreams_key s) (rstrip_slash (os_datastreams_url s)) (os_datastreams_feed_id s)
      else if os_alchemy_polygon_url s \<noteq> []
      then Eac_Proxy (os_alchemy_polygon_url s) (ascii_lower (os_eac_btcusd_polygon s))
      else Null_Chainlink)"

definition watcher_latest :: "text_env \<Rightarrow> oracle_client \<Rightarrow> http_reply \<Rightarrow> chainlink_snapshot option" where
  "watcher_latest te w r =
     (case w of
        Data_Streams key url feed_id \<Rightarrow> datastreams_latest te feed_id r
      | Eac_Proxy url address \<Rightarrow> eac_latest address r
      | Null_Chainlink \<Rightarrow> None)"

section \<open>Signals\<close>

definition binance_chainlink_delta_bps :: "real \<Rightarrow> real \<Rightarrow> real" where
  "binance_chainlink_delta_bps spot_binance chainlink_answer =
     (if chainlink_answer \<le> 0 then 0 else (spot_binance / chainlink_answer - 1) * 10000)"

definition chainlink_lag_score :: "real \<Rightarrow> real \<Rightarrow> real" where
  "chainlink_lag_score age_s delta_bps =
     (if age_s < 2 \<or> \<bar>delta_bps\<bar> < 5 then 0
      else (let age_score = min 1 (max 0 ((age_s - 2) / 18));
                delta_score = min 1 (max 0 ((\<bar>delta_bps\<bar> - 5) / 35))
            in age_score * delta_score))"

text \<open>The cache dict of \<open>fetch_latest_cached\<close>; \<open>latest\<close> is what the watcher answers if it is asked.\<close>

record oracle_cache =
  oc_snapshot :: "chainlink_snapshot option"
  oc_ts :: real

definition empty_oracle_cache :: oracle_cache where
  "empty_oracle_cache = \<lparr>oc_snapshot = None, oc_ts = 0\<rparr>"

definition fetch_latest_cached :: "real \<Rightarrow> real \<Rightarrow> chainlink_snapshot option \<Rightarrow> oracle_cache \<Rightarrow> chainlink_snapshot option \<times> oracle_cache" where
  "fetch_latest_cached now cache_ttl_s latest cache =
     (let hit = oc_snapshot cache; ts = oc_ts cache
      in if hit \<noteq> None \<and> now - ts < cache_ttl_s then (hit, cache)
         else (latest, cache\<lparr>oc_snapshot := latest, oc_ts := now\<rparr>))"

section \<open>The polling loop\<close>

text \<open>A row of \<open>market_data.chainlink_updates\<close> without its key, the feed and the round. The key column \<open>round_id\<close> is a
  64-bit integer: the insertion of a larger one raises. An existing key keeps its row (\<open>DO NOTHING\<close>).\<close>

record chainlink_row =
  ch_ts :: real
  ch_answer :: real
  ch_updated_at :: real
  ch_age_s :: real
  ch_source :: string

type_synonym chainlink_table = "(string \<times> int, chainlink_row) dict"

definition fits_bigint :: "int \<Rightarrow> bool" where
  "fits_bigint n \<longleftrightarrow> - (2 ^ 63) \<le> n \<and> n < 2 ^ 63"

definition insert_update :: "bool \<Rightarrow> string \<times> int \<Rightarrow> chainlink_row \<Rightarrow> chainlink_table \<Rightarrow> py_error + chainlink_table" where
  "insert_update db_up key row table =
     (if \<not> db_up then Inl (RuntimeError ''db'')
      else if \<not> fits_bigint (snd key) then Inl (ValueError ''value out of int64 range'')
      else Inr (dict_setdefault key row table))"

text \<open>\<open>datetime.fromtimestamp(x, tz=UTC)\<close> raises outside the years 1 to 9999.\<close>

definition datetime_ok :: "real \<Rightarrow> bool" where
  "datetime_ok x \<longleftrightarrow> - 62135596800 \<le> x \<and> x < 253402300800"

datatype oracle_event = Feed_Stale real nat int | Feed_Recovered real | Loop_Err

record oracle_loop =
  ol_stale_streak :: nat
  ol_stale_alert_fired :: bool
  ol_log :: "oracle_event list"
  ol_table :: chainlink_table

definition MAX_STALE_STREAK :: nat where
  "MAX_STALE_STREAK = 5"

definition STALE_AGE_S :: real where
  "STALE_AGE_S = 60"

definition new_oracle_loop :: oracle_loop where
  "new_oracle_loop = \<lparr>ol_stale_streak = 0, ol_stale_alert_fired = False, ol_log = [], ol_table = []\<rparr>"

definition note_age :: "real \<Rightarrow> int \<Rightarrow> oracle_loop \<Rightarrow> oracle_loop" where
  "note_age age_s round_id st =
     (if age_s > STALE_AGE_S
      then (let st1 = st\<lparr>ol_stale_streak := ol_stale_streak st + 1\<rparr>
            in if ol_stale_streak st1 \<ge> MAX_STALE_STREAK \<and> \<not> ol_stale_alert_fired st1
               then st1\<lparr>ol_log := ol_log st1 @ [Feed_Stale age_s (ol_stale_streak st1) round_id], ol_stale_alert_fired := True\<rparr>
               else st1)
      else (let st1 = (if ol_stale_streak st \<ge> MAX_STALE_STREAK \<and> ol_stale_alert_fired st
                       then st\<lparr>ol_log := ol_log st @ [Feed_Recovered age_s]\<rparr> else st)
            in st1\<lparr>ol_stale_streak := 0, ol_stale_alert_fired := False\<rparr>))"

definition store_snapshot :: "bool \<Rightarrow> real \<Rightarrow> chainlink_snapshot \<Rightarrow> real \<Rightarrow> oracle_loop \<Rightarrow> oracle_loop" where
  "store_snapshot db_up now_ts snap age_s st =
     (if \<not> datetime_ok now_ts \<or> \<not> datetime_ok (cs_updated_at_ts snap) then st\<lparr>ol_log := ol_log st @ [Loop_Err]\<rparr>
      else (case insert_update db_up (cs_feed snap, cs_round_id snap)
                   \<lparr>ch_ts = now_ts, ch_answer = cs_answer snap, ch_updated_at = cs_updated_at_ts snap, ch_age_s = age_s, ch_source = cs_source snap\<rparr>
                   (ol_table st) of
              Inl e \<Rightarrow> st\<lparr>ol_log := ol_log st @ [Loop_Err]\<rparr>
            | Inr table \<Rightarrow> st\<lparr>ol_table := table\<rparr>))"

text \<open>One turn of the loop: whether the database is up, the clock and the answer of the watcher.\<close>

definition oracle_poll :: "bool \<times> real \<times> chainlink_snapshot option \<Rightarrow> oracle_loop \<Rightarrow> oracle_loop" where
  "oracle_poll = (\<lambda>(db_up, now_ts, latest) st.
     case latest of
       None \<Rightarrow> st
     | Some snap \<Rightarrow>
         (let age_s = max 0 (now_ts - cs_updated_at_ts snap)
          in store_snapshot db_up now_ts snap age_s (note_age age_s (cs_round_id snap) st)))"

section \<open>Cached snapshots of the strategies\<close>

text \<open>\<open>CachedChainlinkSnapshot\<close>: the newest row by the time of its insertion; ties in the order of the table.\<close>

record cached_row =
  cw_answer :: real
  cw_updated_at_ts :: real
  cw_source :: string

record cached_chainlink =
  cc_row :: "cached_row option"
  cc_last_refresh_ts :: real

definition newest_row :: "chainlink_table \<Rightarrow> chainlink_row option" where
  "newest_row table = (if table = [] then None else Some (last (sort_key ch_ts (values_of table))))"

definition refresh_chainlink :: "real \<Rightarrow> chainlink_table option \<Rightarrow> cached_chainlink \<Rightarrow> cached_chainlink" where
  "refresh_chainlink now db c =
     (case db of
        None \<Rightarrow> c
      | Some table \<Rightarrow>
          (case newest_row table of
             None \<Rightarrow> c
           | Some row \<Rightarrow> c\<lparr>cc_row := Some \<lparr>cw_answer = ch_answer row, cw_updated_at_ts = ch_updated_at row, cw_source = ch_source row\<rparr>,
                            cc_last_refresh_ts := now\<rparr>))"

definition chainlink_snapshot_at :: "real \<Rightarrow> cached_chainlink \<Rightarrow> (cached_row \<times> real) option" where
  "chainlink_snapshot_at now c =
     (case cc_row c of None \<Rightarrow> None | Some row \<Rightarrow> Some (row, max 0 (now - cw_updated_at_ts row)))"

definition fresh_age_s :: "real \<Rightarrow> real \<Rightarrow> real" where
  "fresh_age_s now last_refresh_ts = (if last_refresh_ts \<noteq> 0 then now - last_refresh_ts else 9999)"

text \<open>\<open>CachedLiqClusters\<close>: the last 500 clusters of its symbol in the last hour, newest first.\<close>

record liq_row =
  lr_ts :: datetime
  lr_symbol :: string
  lr_side :: string
  lr_price :: real
  lr_size_usd :: real

record cached_liq =
  cl_symbol :: string
  cl_rows :: "liq_cluster list"
  cl_last_refresh_ts :: real

definition liq_query :: "string \<Rightarrow> datetime \<Rightarrow> liq_row list \<Rightarrow> liq_row list" where
  "liq_query symbol now table =
     take 500 (sort_key (\<lambda>r. - lr_ts r) (filter (\<lambda>r. lr_symbol r = symbol \<and> lr_ts r > now - 3600 * 1000000) table))"

definition row_cluster :: "liq_row \<Rightarrow> liq_cluster" where
  "row_cluster r = \<lparr>lq_ts = of_int (lr_ts r) / 10 ^ 6, lq_side = lr_side r, lq_price = lr_price r, lq_size_usd = lr_size_usd r\<rparr>"

definition refresh_liq :: "datetime \<Rightarrow> liq_row list option \<Rightarrow> cached_liq \<Rightarrow> cached_liq" where
  "refresh_liq now db c =
     (case db of
        None \<Rightarrow> c
      | Some table \<Rightarrow> c\<lparr>cl_rows := map row_cluster (liq_query (cl_symbol c) now table), cl_last_refresh_ts := of_int now / 10 ^ 6\<rparr>)"

section \<open>Decoding undoes encoding\<close>

fun be_bytes :: "nat \<Rightarrow> int \<Rightarrow> int list" where
  "be_bytes 0 z = []"
| "be_bytes (Suc n) z = be_bytes n (z div 256) @ [z mod 256]"

definition hex_char :: "int \<Rightarrow> char" where
  "hex_char k = char_of (nat (if k < 10 then 48 + k else 87 + k))"

definition byte_hex :: "int \<Rightarrow> string" where
  "byte_hex b = [hex_char (b div 16), hex_char (b mod 16)]"

text \<open>The answer of \<open>latestRoundData()\<close>: five words of 32 bytes.\<close>

definition round_words :: "int \<Rightarrow> int \<Rightarrow> int \<Rightarrow> int \<Rightarrow> int \<Rightarrow> int list" where
  "round_words round_id answer started updated answered =
     be_bytes 32 round_id @ be_bytes 32 answer @ be_bytes 32 started @ be_bytes 32 updated @ be_bytes 32 answered"

definition eac_reply :: "int list \<Rightarrow> http_reply" where
  "eac_reply data = Reply 200 (Some (JsObj [(''result'', JsStr (''0x'' @ concat (map byte_hex data)))]))"

lemma length_be_bytes [simp]: "length (be_bytes n z) = n"
  by (induction n z rule: be_bytes.induct) simp_all

lemma be_bytes_range: "list_all (\<lambda>b. 0 \<le> b \<and> b < 256) (be_bytes n z)"
  by (induction n z rule: be_bytes.induct) simp_all

lemma int_from_be_bytes: "int_from_bytes (be_bytes n z) = z mod 256 ^ n"
proof (induction n z rule: be_bytes.induct)
  case (2 n z)
  have "int_from_bytes (be_bytes (Suc n) z) = int_from_bytes (be_bytes n (z div 256)) * 256 + z mod 256"
    by (simp add: int_from_bytes_def)
  also have "\<dots> = z mod (256 * 256 ^ n)"
    using mod_mult2_eq' [of z 256 "256 ^ n"] by (simp add: 2 mult.commute)
  finally show ?case by simp
qed (simp add: int_from_bytes_def)

lemma signed_be_bytes:
  assumes "- (2 ^ 255) \<le> z" "z < 2 ^ 255"
  shows "int_from_bytes_signed (be_bytes 32 z) = z"
proof (cases "0 \<le> z")
  case True
  with assms have "z mod 256 ^ 32 = z" by (intro mod_pos_pos_trivial) simp_all
  with assms show ?thesis by (simp add: int_from_bytes_signed_def int_from_be_bytes)
next
  case False
  have "z mod 256 ^ 32 = (z + 256 ^ 32) mod 256 ^ 32" by simp
  also have "\<dots> = z + 256 ^ 32" using False assms by (intro mod_pos_pos_trivial) simp_all
  finally show ?thesis using False assms by (simp add: int_from_bytes_signed_def int_from_be_bytes)
qed

lemma hex_char_value: "0 \<le> k \<Longrightarrow> k < 16 \<Longrightarrow> hex_value (hex_char k) = Some k \<and> \<not> hex_blank (hex_char k)"
  by (cases "k < 10") (auto simp: hex_value_def hex_char_def hex_blank_def Let_def nat_add_distrib)

lemma from_byte_hex:
  assumes "0 \<le> b" "b < 256"
  shows "from_hex (byte_hex b @ s) = map_option (\<lambda>bs. b # bs) (from_hex s)"
proof -
  have "0 \<le> b div 16" "b div 16 < 16" "0 \<le> b mod 16" "b mod 16 < 16" using assms by auto
  then show ?thesis using hex_char_value [of "b div 16"] hex_char_value [of "b mod 16"] by (simp add: byte_hex_def)
qed

lemma from_hex_bytes: "list_all (\<lambda>b. 0 \<le> b \<and> b < 256) bs \<Longrightarrow> from_hex (concat (map byte_hex bs)) = Some bs"
  by (induction bs) (simp_all add: from_byte_hex)

lemma round_words_range: "list_all (\<lambda>b. 0 \<le> b \<and> b < 256) (round_words r a s u n)"
  unfolding round_words_def list_all_append by (intro conjI be_bytes_range)

lemma round_words_slices:
  "length (round_words r a s u n) = 160" "slice 0 32 (round_words r a s u n) = be_bytes 32 r"
  "slice 32 64 (round_words r a s u n) = be_bytes 32 a" "slice 96 128 (round_words r a s u n) = be_bytes 32 u"
  by (simp_all add: round_words_def slice_def)

lemma round_words_ne: "round_words r a s u n \<noteq> []"
  using round_words_slices(1) [of r a s u n] by (metis list.size(3) zero_neq_numeral)

lemma byte_hex_ne: "concat (map byte_hex bs) = [] \<longleftrightarrow> bs = []"
  by (cases bs) (simp_all add: byte_hex_def)

text \<open>The client of the oracle contract decodes what the contract encodes. The five words of a round, written as a
  hexadecimal answer, come back as the round, the signed answer with eight decimals and the time of its update,
  for every 80-bit round, every answer of a signed 256-bit integer and every time; any other status or body is no price.\<close>

theorem eac_decodes_round:
  assumes "0 \<le> round_id" "round_id < 2 ^ 80" "- (2 ^ 255) \<le> answer" "answer < 2 ^ 255" "0 \<le> updated" "updated < 2 ^ 256"
  shows "eac_latest address (eac_reply (round_words round_id answer started updated answered)) =
      Some \<lparr>cs_feed = ''eac_polygon:'' @ address, cs_round_id = round_id, cs_answer = of_int answer / 10 ^ 8,
        cs_updated_at_ts = of_int updated, cs_source = ''eac_polygon''\<rparr> \<and>
    (status \<noteq> 200 \<longrightarrow> eac_latest address (Reply status json) = None) \<and>
    (length data < 160 \<longrightarrow> list_all (\<lambda>b. 0 \<le> b \<and> b < 256) data \<longrightarrow> eac_latest address (eac_reply data) = None)"
proof (intro conjI impI)
  have "int_from_bytes (be_bytes 32 round_id) = round_id" "int_from_bytes (be_bytes 32 updated) = updated"
    using assms by (simp_all add: int_from_be_bytes)
  then show "eac_latest address (eac_reply (round_words round_id answer started updated answered)) =
      Some \<lparr>cs_feed = ''eac_polygon:'' @ address, cs_round_id = round_id, cs_answer = of_int answer / 10 ^ 8,
        cs_updated_at_ts = of_int updated, cs_source = ''eac_polygon''\<rparr>"
    using signed_be_bytes [OF assms(3,4)] round_words_ne [of round_id answer started updated answered]
    by (simp add: eac_latest_def eac_reply_def reply_body_def from_hex_bytes round_words_range round_words_slices
        byte_hex_ne Let_def del: concat_eq_Nil_conv)
  show "eac_latest address (Reply status json) = None" if "status \<noteq> 200"
    using that by (simp add: eac_latest_def reply_body_def)
  show "eac_latest address (eac_reply data) = None" if "length data < 160" "list_all (\<lambda>b. 0 \<le> b \<and> b < 256) data"
    using that by (simp add: eac_latest_def eac_reply_def reply_body_def from_hex_bytes)
qed

theorem eac_decodes_round_witness:
  "map_option cs_answer (eac_latest ''0xc9'' (eac_reply (round_words (2 ^ 64 + 7) (- 5) 0 1700000000 0))) = Some (- 5 / 10 ^ 8)"
  using eac_decodes_round [of "2 ^ 64 + 7" "- 5" 1700000000 "''0xc9''" 0 0] by simp

section \<open>The polling loop\<close>

lemma note_age_table [simp]: "ol_table (note_age a r st) = ol_table st"
  by (simp add: note_age_def Let_def)

lemma store_snapshot_keeps [simp]:
  "ol_stale_streak (store_snapshot up now snap a st) = ol_stale_streak st"
  "ol_stale_alert_fired (store_snapshot up now snap a st) = ol_stale_alert_fired st"
  by (simp_all add: store_snapshot_def split: sum.split)

text \<open>What the log says of the feed: \<open>True\<close> for a stale feed, \<open>False\<close> for a recovered one.\<close>

fun event_kind :: "oracle_event \<Rightarrow> bool option" where
  "event_kind (Feed_Stale age n r) = Some True"
| "event_kind (Feed_Recovered age) = Some False"
| "event_kind Loop_Err = None"

definition feed_alerts :: "oracle_loop \<Rightarrow> bool list" where
  "feed_alerts st = List.map_filter event_kind (ol_log st)"

lemma feed_alerts_store [simp]: "feed_alerts (store_snapshot up now snap a st) = feed_alerts st"
  by (simp add: feed_alerts_def store_snapshot_def List.map_filter_def split: sum.split)

text \<open>The reference: the answered polls, whether each was stale, and after each whether the last five were.\<close>

definition stale_bits :: "(bool \<times> real \<times> chainlink_snapshot option) list \<Rightarrow> bool list" where
  "stale_bits ps = List.map_filter (\<lambda>(up, now, latest). map_option (\<lambda>s. now - cs_updated_at_ts s > 60) latest) ps"

definition trailing :: "bool list \<Rightarrow> nat" where
  "trailing bs = length (takeWhile (\<lambda>b. b) (rev bs))"

definition outage_levels :: "bool list \<Rightarrow> bool list" where
  "outage_levels bs = map (\<lambda>i. 5 \<le> trailing (take (Suc i) bs)) [0..<length bs]"

lemma trailing_snoc: "trailing (bs @ [b]) = (if b then Suc (trailing bs) else 0)"
  by (simp add: trailing_def)

lemma outage_levels_snoc: "outage_levels (bs @ [b]) = outage_levels bs @ [5 \<le> trailing (bs @ [b])]"
  by (simp add: outage_levels_def)

lemma last_outage_level: "last (False # outage_levels bs) = (5 \<le> trailing bs)"
  by (cases bs rule: rev_cases) (simp_all add: outage_levels_snoc, simp add: outage_levels_def trailing_def)

lemma edge_changes_snoc:
  "edge_changes r f b (cs @ [c]) = edge_changes r f b cs @ (if c = last (b # cs) then [] else if c then r else f)"
  by (induction cs arbitrary: b) auto

definition loop_follows :: "bool list \<Rightarrow> oracle_loop \<Rightarrow> bool" where
  "loop_follows bs st \<longleftrightarrow> ol_stale_streak st = trailing bs \<and> (ol_stale_alert_fired st \<longleftrightarrow> 5 \<le> trailing bs) \<and>
     feed_alerts st = edge_changes [True] [False] False (outage_levels bs)"

lemma note_age_follows:
  assumes "loop_follows bs st"
  shows "loop_follows (bs @ [a > 60]) (note_age a r st)"
  using assms last_outage_level [of bs]
  by (auto simp: loop_follows_def note_age_def Let_def STALE_AGE_S_def MAX_STALE_STREAK_def trailing_snoc outage_levels_snoc
      edge_changes_snoc feed_alerts_def List.map_filter_def)

lemma oracle_poll_follows: "loop_follows bs st \<Longrightarrow> loop_follows (bs @ stale_bits [p]) (oracle_poll p st)"
proof -
  assume inv: "loop_follows bs st"
  obtain up now latest where p: "p = (up, now, latest)" by (cases p)
  show ?thesis
  proof (cases latest)
    case None
    with inv p show ?thesis by (simp add: oracle_poll_def stale_bits_def List.map_filter_def)
  next
    case (Some s)
    let ?a = "max 0 (now - cs_updated_at_ts s)"
    have "?a > 60 \<longleftrightarrow> now - cs_updated_at_ts s > 60" by auto
    with note_age_follows [OF inv, of ?a "cs_round_id s"]
    have "loop_follows (bs @ [now - cs_updated_at_ts s > 60]) (note_age ?a (cs_round_id s) st)" by simp
    then show ?thesis using p Some
      by (simp add: oracle_poll_def stale_bits_def List.map_filter_def Let_def loop_follows_def)
  qed
qed

text \<open>One alarm per outage. Over any run of polls, with the database up or down, the log reports the feed stale
  exactly when the fifth answered poll in a row is more than sixty seconds old, and recovered exactly at the
  first fresh answer after that: the reports are the changes of this level, so they alternate and none is repeated.\<close>

theorem oracle_alarm_once_per_outage:
  "feed_alerts (fold oracle_poll ps new_oracle_loop) = edge_changes [True] [False] False (outage_levels (stale_bits ps))"
proof -
  have "loop_follows (stale_bits ps) (fold oracle_poll ps new_oracle_loop)"
  proof (induction ps rule: rev_induct)
    case Nil
    show ?case by (simp add: loop_follows_def stale_bits_def trailing_def outage_levels_def feed_alerts_def new_oracle_loop_def List.map_filter_def)
  next
    case (snoc p ps)
    have "stale_bits (ps @ [p]) = stale_bits ps @ stale_bits [p]" by (simp add: stale_bits_def List.map_filter_def)
    with oracle_poll_follows [OF snoc, of p] show ?case by simp
  qed
  then show ?thesis by (simp add: loop_follows_def)
qed

text \<open>The table.\<close>

lemma store_keeps_row:
  "map_of (ol_table st) k = Some row \<Longrightarrow> map_of (ol_table (store_snapshot up now snap a st)) k = Some row"
  by (auto simp: store_snapshot_def insert_update_def split: sum.split option.split)

lemma oracle_poll_keeps_row: "map_of (ol_table st) k = Some row \<Longrightarrow> map_of (ol_table (oracle_poll p st)) k = Some row"
  by (auto simp: oracle_poll_def Let_def store_keeps_row split: prod.split option.split)

text \<open>A poll of the contract: whether the database is up, the clock, and the round the proxy answers with, its phase in the upper bits as
  Chainlink documents it (phases count from one).\<close>

record proxy_round =
  px_phase :: int
  px_round :: int
  px_answer :: int
  px_started :: int
  px_updated :: int

definition valid_round :: "proxy_round \<Rightarrow> bool" where
  "valid_round p \<longleftrightarrow> 1 \<le> px_phase p \<and> px_phase p < 2 ^ 16 \<and> 0 \<le> px_round p \<and> px_round p < 2 ^ 64 \<and>
     - (2 ^ 255) \<le> px_answer p \<and> px_answer p < 2 ^ 255 \<and> 0 \<le> px_updated p \<and> px_updated p < 2 ^ 256"

definition proxy_reply :: "proxy_round \<Rightarrow> http_reply" where
  "proxy_reply p = (let rid = px_phase p * 2 ^ 64 + px_round p in eac_reply (round_words rid (px_answer p) (px_started p) (px_updated p) rid))"

lemma proxy_round_id:
  assumes "valid_round p"
  shows "eac_latest address (proxy_reply p) = Some \<lparr>cs_feed = ''eac_polygon:'' @ address, cs_round_id = px_phase p * 2 ^ 64 + px_round p,
      cs_answer = of_int (px_answer p) / 10 ^ 8, cs_updated_at_ts = of_int (px_updated p), cs_source = ''eac_polygon''\<rparr>"
    and "2 ^ 64 \<le> px_phase p * 2 ^ 64 + px_round p"
proof -
  have "px_phase p * 2 ^ 64 \<le> (2 ^ 16 - 1) * 2 ^ 64" "1 * 2 ^ 64 \<le> px_phase p * 2 ^ 64"
    using assms unfolding valid_round_def by (intro mult_right_mono; simp)+
  moreover have "(2 ^ 16 - 1) * 2 ^ 64 + 2 ^ 64 = (2 ^ 80 :: int)" by simp
  ultimately have b: "2 ^ 64 \<le> px_phase p * 2 ^ 64 + px_round p" "px_phase p * 2 ^ 64 + px_round p < 2 ^ 80"
    using assms unfolding valid_round_def by linarith+
  then show "2 ^ 64 \<le> px_phase p * 2 ^ 64 + px_round p" by blast
  have "0 \<le> px_phase p * 2 ^ 64 + px_round p" using b(1) by simp
  from eac_decodes_round [OF this b(2)] assms
  show "eac_latest address (proxy_reply p) = Some \<lparr>cs_feed = ''eac_polygon:'' @ address, cs_round_id = px_phase p * 2 ^ 64 + px_round p,
      cs_answer = of_int (px_answer p) / 10 ^ 8, cs_updated_at_ts = of_int (px_updated p), cs_source = ''eac_polygon''\<rparr>"
    by (simp add: valid_round_def proxy_reply_def Let_def)
qed

lemma big_round_poll:
  assumes "2 ^ 63 \<le> cs_round_id snap"
  shows "ol_table (oracle_poll (up, now, Some snap) st) = ol_table st" "last (ol_log (oracle_poll (up, now, Some snap) st)) = Loop_Err"
  using assms by (simp_all add: oracle_poll_def store_snapshot_def insert_update_def fits_bigint_def Let_def)

lemma proxy_poll:
  assumes "valid_round p"
  shows "ol_table (oracle_poll (up, now, eac_latest address (proxy_reply p)) st) = ol_table st"
    "last (ol_log (oracle_poll (up, now, eac_latest address (proxy_reply p)) st)) = Loop_Err"
  using proxy_round_id(2) [OF assms] unfolding proxy_round_id(1) [OF assms] by (intro big_round_poll; simp)+

text \<open>C40. What the table keeps of the oracle. Every round of the proxy contract, from its first phase on, is decoded but never stored: whatever rounds
  the contract answers with, the table stays as it was and each poll ends in the error log, because the identifier carries the phase in its
  upper bits and does not fit the column. A snapshot with an identifier that fits (those of the data streams) is stored on the first poll that sees it while the database is up, with the
  age it has at that moment, and keeps that row through all later polls, however long the feed stays on it, so the column never
  shows a stale feed.\<close>

theorem stored_rounds_hide_staleness:
  assumes rounds: "list_all (\<lambda>(up, now, p). valid_round p) rounds"
    and new: "map_of (ol_table st) (cs_feed snap, cs_round_id snap) = None"
    and fits: "- (2 ^ 63) \<le> cs_round_id snap" "cs_round_id snap < 2 ^ 63"
    and dates: "datetime_ok now" "datetime_ok (cs_updated_at_ts snap)"
  shows "ol_table (fold oracle_poll (map (\<lambda>(up, now, p). (up, now, eac_latest address (proxy_reply p))) rounds) st) = ol_table st \<and>
    list_all (\<lambda>(up, now, p). \<exists>s. eac_latest address (proxy_reply p) = Some s \<and> cs_answer s = of_int (px_answer p) / 10 ^ 8 \<and>
      last (ol_log (oracle_poll (up, now, Some s) st)) = Loop_Err) rounds \<and>
    map_of (ol_table (fold oracle_poll ps (oracle_poll (True, now, Some snap) st))) (cs_feed snap, cs_round_id snap) =
      Some \<lparr>ch_ts = now, ch_answer = cs_answer snap, ch_updated_at = cs_updated_at_ts snap,
        ch_age_s = max 0 (now - cs_updated_at_ts snap), ch_source = cs_source snap\<rparr>"
proof (intro conjI)
  show "ol_table (fold oracle_poll (map (\<lambda>(up, now, p). (up, now, eac_latest address (proxy_reply p))) rounds) st) = ol_table st"
    using rounds by (induction rounds arbitrary: st) (auto simp: proxy_poll(1))
  have "\<exists>s. eac_latest address (proxy_reply p) = Some s \<and> cs_answer s = of_int (px_answer p) / 10 ^ 8 \<and>
      last (ol_log (oracle_poll (up, now, Some s) st)) = Loop_Err" if "valid_round p" for up now p
    using proxy_poll(2) [OF that, of up now address st] unfolding proxy_round_id(1) [OF that] by simp
  then show "list_all (\<lambda>(up, now, p). \<exists>s. eac_latest address (proxy_reply p) = Some s \<and> cs_answer s = of_int (px_answer p) / 10 ^ 8 \<and>
      last (ol_log (oracle_poll (up, now, Some s) st)) = Loop_Err) rounds"
    using rounds by (auto simp: list_all_iff)
  let ?row = "\<lparr>ch_ts = now, ch_answer = cs_answer snap, ch_updated_at = cs_updated_at_ts snap,
        ch_age_s = max 0 (now - cs_updated_at_ts snap), ch_source = cs_source snap\<rparr>"
  have keep: "map_of (ol_table st) k = Some row \<Longrightarrow> map_of (ol_table (fold oracle_poll ps st)) k = Some row" for st k row
    by (induction ps arbitrary: st) (simp_all add: oracle_poll_keeps_row)
  have "map_of (ol_table (oracle_poll (True, now, Some snap) st)) (cs_feed snap, cs_round_id snap) = Some ?row"
    using new fits dates
    by (simp add: oracle_poll_def store_snapshot_def insert_update_def fits_bigint_def dict_setdefault_def Let_def)
  from keep [OF this] show "map_of (ol_table (fold oracle_poll ps (oracle_poll (True, now, Some snap) st))) (cs_feed snap, cs_round_id snap) = Some ?row" .
qed

definition ex_proxy_round :: proxy_round where
  "ex_proxy_round = \<lparr>px_phase = 1, px_round = 7, px_answer = 6500000000000, px_started = 0, px_updated = 1000\<rparr>"

theorem stored_rounds_hide_staleness_witness:
  "let snap = \<lparr>cs_feed = ''f'', cs_round_id = 7, cs_answer = 100, cs_updated_at_ts = 1000, cs_source = ''datastreams''\<rparr>;
       st = oracle_poll (True, 1010, Some snap) new_oracle_loop
   in ol_table (fold oracle_poll [(True, 1010, eac_latest ''0xc9'' (proxy_reply ex_proxy_round))] new_oracle_loop) = [] \<and>
      map_option ch_age_s (map_of (ol_table (fold oracle_poll [(True, 9000, Some snap)] st)) (''f'', 7)) = Some 10"
proof -
  define snap where "snap = \<lparr>cs_feed = ''f'', cs_round_id = 7, cs_answer = 100, cs_updated_at_ts = 1000, cs_source = ''datastreams''\<rparr>"
  have s: "cs_feed snap = ''f''" "cs_round_id snap = 7" "cs_updated_at_ts snap = 1000" by (simp_all add: snap_def)
  have e: "ol_table new_oracle_loop = []" by (simp add: new_oracle_loop_def)
  have v: "list_all (\<lambda>(up, now, p). valid_round p) [(True, 1010 :: real, ex_proxy_round)]" by (simp add: valid_round_def ex_proxy_round_def)
  have d: "datetime_ok 1010" "datetime_ok 1000" by (simp_all add: datetime_ok_def)
  show ?thesis
    using stored_rounds_hide_staleness [OF v, where st = new_oracle_loop and snap = snap and now = 1010 and address = "''0xc9''" and ps = "[(True, 9000, Some snap)]"] e d
    unfolding s Let_def snap_def [symmetric] by simp
qed

section \<open>Signals and caches\<close>

text \<open>The lag score grows with the age and with the distance and stays in the unit interval.\<close>

lemma lag_score_range: "0 \<le> chainlink_lag_score a d \<and> chainlink_lag_score a d \<le> 1"
  by (auto simp: chainlink_lag_score_def Let_def intro!: mult_le_one mult_nonneg_nonneg)

lemma lag_score_mono:
  assumes "a \<le> a'" "\<bar>d\<bar> \<le> \<bar>d'\<bar>"
  shows "chainlink_lag_score a d \<le> chainlink_lag_score a' d'"
proof (cases "a < 2 \<or> \<bar>d\<bar> < 5")
  case True
  then show ?thesis using lag_score_range [of a' d'] by (simp add: chainlink_lag_score_def)
next
  case False
  then have "\<not> (a' < 2 \<or> \<bar>d'\<bar> < 5)" using assms by linarith
  moreover have "min 1 (max 0 ((a - 2) / 18)) \<le> min 1 (max 0 ((a' - 2) / 18))"
    "min 1 (max 0 ((\<bar>d\<bar> - 5) / 35)) \<le> min 1 (max 0 ((\<bar>d'\<bar> - 5) / 35))"
    using assms by (intro min.mono max.mono order_refl divide_right_mono; simp)+
  ultimately show ?thesis using False unfolding chainlink_lag_score_def Let_def
    by (simp only: if_False simp_thms) (intro mult_mono; simp)
qed

lemma newest_row_max: "newest_row table = Some row \<Longrightarrow> row \<in> set (values_of table) \<and> list_all (\<lambda>r. ch_ts r \<le> ch_ts row) (values_of table)"
proof -
  assume a: "newest_row table = Some row"
  let ?s = "sort_key ch_ts (values_of table)"
  have ne: "?s \<noteq> []" and row: "row = last ?s"
    using a by (auto simp: newest_row_def split: if_splits) (metis length_0_conv length_map length_sort)
  have "row \<in> set ?s" using ne row last_in_set by blast
  moreover have "ch_ts r \<le> ch_ts row" if "r \<in> set ?s" for r
    using sorted_le_last [of "map ch_ts ?s" "ch_ts r"] that ne row by (simp add: last_map)
  ultimately show ?thesis by (simp add: list_all_iff)
qed

text \<open>The cached oracle price never looks fresher than it is. A refresh takes the row of the latest insertion; when
  the database fails or is empty the previous row stays. At every later moment the age given with the price is the time
  since the oracle's own update, so the lag score computed from it never falls while the row is kept.\<close>

theorem cached_oracle_age_is_true:
  assumes "cc_row (refresh_chainlink t0 (Some table) c) = Some row" and "table \<noteq> []" and "t \<le> t'"
  shows "list_ex (\<lambda>r. cw_answer row = ch_answer r \<and> cw_updated_at_ts row = ch_updated_at r \<and> list_all (\<lambda>r'. ch_ts r' \<le> ch_ts r) (values_of table)) (values_of table) \<and>
    refresh_chainlink t0 None c = c \<and> refresh_chainlink t0 (Some []) c = c \<and>
    (let (r1, age1) = the (chainlink_snapshot_at t (refresh_chainlink t0 (Some table) c));
         (r2, age2) = the (chainlink_snapshot_at t' (refresh_chainlink t0 (Some table) c))
     in r1 = row \<and> r2 = row \<and> age1 = max 0 (t - cw_updated_at_ts row) \<and> age1 \<le> age2 \<and>
        chainlink_lag_score age1 d \<le> chainlink_lag_score age2 d)"
proof -
  obtain r where r: "newest_row table = Some r" using assms(2) by (simp add: newest_row_def)
  then have row: "row = \<lparr>cw_answer = ch_answer r, cw_updated_at_ts = ch_updated_at r, cw_source = ch_source r\<rparr>"
    using assms(1) by (simp add: refresh_chainlink_def)
  have "max 0 (t - cw_updated_at_ts row) \<le> max 0 (t' - cw_updated_at_ts row)" using assms(3) by simp
  with newest_row_max [OF r] assms(1) lag_score_mono [of _ _ d d] show ?thesis
    by (simp add: chainlink_snapshot_at_def list_ex_iff row Let_def) (force simp: refresh_chainlink_def newest_row_def)
qed

theorem cached_oracle_age_is_true_witness:
  "let c = refresh_chainlink 1000 (Some [((''f'', 7), \<lparr>ch_ts = 990, ch_answer = 100, ch_updated_at = 980, ch_age_s = 10, ch_source = ''s''\<rparr>)])
        \<lparr>cc_row = None, cc_last_refresh_ts = 0\<rparr>
   in snd (the (chainlink_snapshot_at 1000 c)) = 20"
proof -
  let ?t = "[((''f'', 7), \<lparr>ch_ts = 990, ch_answer = 100, ch_updated_at = 980, ch_age_s = 10, ch_source = ''s''\<rparr>)] :: chainlink_table"
  let ?c = "\<lparr>cc_row = None, cc_last_refresh_ts = 0\<rparr> :: cached_chainlink"
  have row: "cc_row (refresh_chainlink 1000 (Some ?t) ?c) = Some \<lparr>cw_answer = 100, cw_updated_at_ts = 980, cw_source = ''s''\<rparr>"
    by (simp add: refresh_chainlink_def newest_row_def)
  have ne: "?t \<noteq> []" by simp
  from cached_oracle_age_is_true [OF row ne, of 1000 1000 0] show ?thesis
    by (simp add: Let_def case_prod_beta)
qed

end
