(* ===== verification/Calendar.thy ===== *)
theory Calendar
  imports Slug
begin

text \<open>
  The calendar of Python's \<open>datetime\<close>, as the API and the command lines use it: the ordinal of a date
  (\<open>date.toordinal\<close>, day 1 is the first of January of year 1) and the date of an ordinal, the fields
  of an aware UTC time, \<open>replace\<close>, \<open>weekday\<close>, and the text that \<open>strftime\<close> and \<open>fromisoformat\<close> exchange.
  A time is a number of microseconds since 1970, as everywhere in the development. The lemmas show that ordinals and
  dates are inverse to each other.
\<close>

section \<open>Dates and ordinals\<close>

definition is_leap :: "int \<Rightarrow> bool" where
  "is_leap y \<longleftrightarrow> y mod 4 = 0 \<and> (y mod 100 \<noteq> 0 \<or> y mod 400 = 0)"

definition days_before_year :: "int \<Rightarrow> int" where
  "days_before_year year = (let y = year - 1 in y * 365 + y div 4 - y div 100 + y div 400)"

definition DAYS_IN_MONTH :: "int list" where
  "DAYS_IN_MONTH = [31, 28, 31, 30, 31, 30, 31, 31, 30, 31, 30, 31]"

definition DAYS_BEFORE_MONTH :: "int list" where
  "DAYS_BEFORE_MONTH = [0, 31, 59, 90, 120, 151, 181, 212, 243, 273, 304, 334]"

definition days_in_month :: "bool \<Rightarrow> nat \<Rightarrow> int" where
  "days_in_month leap m = (if m = 2 \<and> leap then 29 else DAYS_IN_MONTH ! (m - 1))"

definition days_before_month :: "bool \<Rightarrow> nat \<Rightarrow> int" where
  "days_before_month leap m = DAYS_BEFORE_MONTH ! (m - 1) + (if m > 2 \<and> leap then 1 else 0)"

record date =
  d_year :: int
  d_month :: nat
  d_day :: int

definition valid_date :: "date \<Rightarrow> bool" where
  "valid_date d \<longleftrightarrow> 1 \<le> d_month d \<and> d_month d \<le> 12 \<and> 1 \<le> d_day d \<and> d_day d \<le> days_in_month (is_leap (d_year d)) (d_month d)"

definition ymd2ord :: "date \<Rightarrow> int" where
  "ymd2ord d = days_before_year (d_year d) + days_before_month (is_leap (d_year d)) (d_month d) + d_day d"

text \<open>Month and day of the day \<open>n\<close> of a year, counted from zero.\<close>

definition month_day :: "bool \<Rightarrow> int \<Rightarrow> nat \<times> int" where
  "month_day leap n =
     (let month = nat ((n + 50) div 32); preceding = days_before_month leap month
      in if preceding > n then (month - 1, n - (preceding - days_in_month leap (month - 1)) + 1)
         else (month, n - preceding + 1))"

definition ord2ymd :: "int \<Rightarrow> date" where
  "ord2ymd ordinal =
     (let n0 = ordinal - 1; n400 = n0 div 146097; r400 = n0 mod 146097;
          n100 = r400 div 36524; r100 = r400 mod 36524; n4 = r100 div 1461; r4 = r100 mod 1461;
          n1 = r4 div 365; r1 = r4 mod 365; year = n400 * 400 + 1 + n100 * 100 + n4 * 4 + n1
      in if n1 = 4 \<or> n100 = 4 then \<lparr>d_year = year - 1, d_month = 12, d_day = 31\<rparr>
         else (let leap = (n1 = 3 \<and> (n4 \<noteq> 24 \<or> n100 = 3)); (m, d) = month_day leap r1
               in \<lparr>d_year = year, d_month = m, d_day = d\<rparr>))"

section \<open>Ordinals and dates are inverse\<close>

definition month_day_ok :: "bool \<Rightarrow> int \<Rightarrow> bool" where
  "month_day_ok leap n =
     (let (m, d) = month_day leap n
      in 1 \<le> m \<and> m \<le> 12 \<and> 1 \<le> d \<and> d \<le> days_in_month leap m \<and> days_before_month leap m + d = n + 1)"

lemma twelve: "1 \<le> k \<Longrightarrow> k < 13 \<Longrightarrow> k \<in> {1, 2, 3, 4, 5, 6, 7, 8, 9, 10, 11, 12 :: int}"
  by simp presburger

lemma month_day_ok_range:
  assumes "0 \<le> n" "n < (if leap then 366 else 365)"
  shows "month_day_ok leap n"
proof -
  define k where "k = (n + 50) div 32"
  have b: "32 * k \<le> n + 50" "n + 50 < 32 * k + 32" unfolding k_def by presburger+
  then have "1 \<le> k" "k < 13" using assms by (auto split: if_splits)
  then have "k \<in> {1, 2, 3, 4, 5, 6, 7, 8, 9, 10, 11, 12}" by (rule twelve)
  then show ?thesis
    using b assms unfolding month_day_ok_def month_day_def k_def [symmetric]
    by (elim insertE emptyE; cases leap)
      (simp_all add: days_before_month_def days_in_month_def DAYS_BEFORE_MONTH_def DAYS_IN_MONTH_def)
qed

lemma month_day_eq:
  assumes "month_day leap n = (m, d)" "0 \<le> n" "n < (if leap then 366 else 365)"
  shows "1 \<le> m" "m \<le> 12" "1 \<le> d" "d \<le> days_in_month leap m" "days_before_month leap m + d = n + 1"
  using month_day_ok_range [OF assms(2,3)] by (simp_all add: month_day_ok_def assms(1))

text \<open>The years of a cycle of 400.\<close>

lemma cycle_year:
  fixes a b c d :: int
  assumes "0 \<le> b" "b \<le> 3" "0 \<le> c" "c \<le> 24" "0 \<le> d" "d \<le> 3"
  shows "days_before_year (400 * a + 100 * b + 4 * c + d + 1) = 146097 * a + 36524 * b + 1461 * c + 365 * d"
    and "is_leap (400 * a + 100 * b + 4 * c + d + 1) \<longleftrightarrow> d = 3 \<and> (c \<noteq> 24 \<or> b = 3)"
proof -
  let ?y = "400 * a + 100 * b + 4 * c + d"
  have q4: "?y div 4 = 100 * a + 25 * b + c" by (rule int_div_pos_eq [where r = d]) (use assms in simp_all)
  have q100: "?y div 100 = 4 * a + b" by (rule int_div_pos_eq [where r = "4 * c + d"]) (use assms in simp_all)
  have q400: "?y div 400 = a" by (rule int_div_pos_eq [where r = "100 * b + 4 * c + d"]) (use assms in simp_all)
  show "days_before_year (?y + 1) = 146097 * a + 36524 * b + 1461 * c + 365 * d"
    by (simp add: days_before_year_def Let_def q4 q100 q400)
  have "?y + 1 = (d + 1) + (100 * a + 25 * b + c) * 4" by simp
  then have m4: "(?y + 1) mod 4 = (d + 1) mod 4" by (simp only: mod_mult_self1)
  have "?y + 1 = (4 * c + d + 1) + (4 * a + b) * 100" by simp
  then have m100: "(?y + 1) mod 100 = (4 * c + d + 1) mod 100" by (simp only: mod_mult_self1)
  have "?y + 1 = (100 * b + 4 * c + d + 1) + (a) * 400" by simp
  then have m400: "(?y + 1) mod 400 = (100 * b + 4 * c + d + 1) mod 400" by (simp only: mod_mult_self1)
  have wrap: "0 < x \<Longrightarrow> x \<le> k \<Longrightarrow> x mod k = 0 \<longleftrightarrow> x = k" for x k :: int
    by (cases "x = k") (auto simp: mod_pos_pos_trivial)
  have "(d + 1) mod 4 = 0 \<longleftrightarrow> d = 3" using wrap [of "d + 1" 4] assms by simp
  moreover have "(4 * c + d + 1) mod 100 = 0 \<longleftrightarrow> 4 * c + d = 99" using wrap [of "4 * c + d + 1" 100] assms by simp
  moreover have "(100 * b + 4 * c + d + 1) mod 400 = 0 \<longleftrightarrow> 100 * b + 4 * c + d = 399"
    using wrap [of "100 * b + 4 * c + d + 1" 400] assms by linarith
  ultimately show "is_leap (?y + 1) \<longleftrightarrow> d = 3 \<and> (c \<noteq> 24 \<or> b = 3)"
    unfolding is_leap_def m4 m100 m400 using assms by auto
qed

lemma div_pred: "0 < k \<Longrightarrow> y div k = (y - 1) div k + (if y mod k = 0 then 1 else 0)" for y k :: int
proof -
  assume k: "0 < k"
  have y: "y = k * (y div k) + y mod k" by simp
  show ?thesis
  proof (cases "y mod k = 0")
    case True
    then have "(y - 1) div k = y div k - 1"
      using k y by (intro int_div_pos_eq [where r = "k - 1"]) (auto simp: algebra_simps)
    then show ?thesis using True by simp
  next
    case False
    moreover have "0 \<le> y mod k" "y mod k < k" using k by simp_all
    ultimately have "(y - 1) div k = y div k"
      using y by (intro int_div_pos_eq [where r = "y mod k - 1"]) (linarith | simp)+
    then show ?thesis using False by simp
  qed
qed

lemma days_before_year_next: "days_before_year (y + 1) = days_before_year y + (if is_leap y then 366 else 365)"
proof -
  have m: "y mod 400 = 0 \<Longrightarrow> y mod 100 = 0" "y mod 100 = 0 \<Longrightarrow> y mod 4 = 0" by presburger+
  have "days_before_year (y + 1) = y * 365 + y div 4 - y div 100 + y div 400" by (simp add: days_before_year_def)
  also have "\<dots> = days_before_year y + 365 + (if y mod 4 = 0 then 1 else 0) - (if y mod 100 = 0 then 1 else 0) + (if y mod 400 = 0 then 1 else 0)"
    unfolding div_pred [of 4 y, simplified] div_pred [of 100 y, simplified] div_pred [of 400 y, simplified] days_before_year_def Let_def
    by (simp only: left_diff_distrib mult_1)
  finally show ?thesis using m unfolding is_leap_def by presburger
qed

lemma days_before_year_mono: "y \<le> z \<Longrightarrow> days_before_year y \<le> days_before_year z"
proof (induction z rule: int_ge_induct)
  case (step i)
  then show ?case using days_before_year_next [of i] by (auto split: if_splits)
qed simp

lemma days_before_year_less: "y < z \<Longrightarrow> days_before_year y + (if is_leap y then 366 else 365) \<le> days_before_year z"
  using days_before_year_mono [of "y + 1" z] days_before_year_next [of y] by simp

text \<open>The days of a year and of a month, counted from its first.\<close>

lemma day_of_year:
  assumes "valid_date d"
  shows "1 \<le> days_before_month (is_leap (d_year d)) (d_month d) + d_day d"
    "days_before_month (is_leap (d_year d)) (d_month d) + d_day d \<le> (if is_leap (d_year d) then 366 else 365)"
proof -
  have m: "d_month d \<in> {1, 2, 3, 4, 5, 6, 7, 8, 9, 10, 11, 12}" using assms unfolding valid_date_def by (simp; presburger)
  show "1 \<le> days_before_month (is_leap (d_year d)) (d_month d) + d_day d"
    "days_before_month (is_leap (d_year d)) (d_month d) + d_day d \<le> (if is_leap (d_year d) then 366 else 365)"
    using m assms unfolding valid_date_def
    by (elim insertE emptyE; cases "is_leap (d_year d)";
        simp add: days_before_month_def days_in_month_def DAYS_BEFORE_MONTH_def DAYS_IN_MONTH_def)+
qed

theorem ymd2ord_ord2ymd: "ymd2ord (ord2ymd n) = n \<and> valid_date (ord2ymd n)"
proof -
  define n0 a r400 b r100 c r4 d r1
    where defs: "n0 = n - 1" "a = n0 div 146097" "r400 = n0 mod 146097" "b = r400 div 36524" "r100 = r400 mod 36524"
      "c = r100 div 1461" "r4 = r100 mod 1461" "d = r4 div 365" "r1 = r4 mod 365"
  have e1: "n0 = 146097 * a + r400" "0 \<le> r400" "r400 < 146097" unfolding defs by simp_all
  have e2: "r400 = 36524 * b + r100" "0 \<le> r100" "r100 < 36524" unfolding defs by simp_all
  have e3: "r100 = 1461 * c + r4" "0 \<le> r4" "r4 < 1461" unfolding defs by simp_all
  have e4: "r4 = 365 * d + r1" "0 \<le> r1" "r1 < 365" unfolding defs by simp_all
  have bounds: "0 \<le> b" "b \<le> 4" "0 \<le> c" "c \<le> 24" "0 \<le> d" "d \<le> 4"
    using e1 e2 e3 e4 by linarith+
  note ord = ord2ymd_def [of n, folded defs(1), unfolded Let_def, folded defs]
  show ?thesis
  proof (cases "d = 4 \<or> b = 4")
    case True
    have y: "ord2ymd n = \<lparr>d_year = 400 * a + 100 * b + 4 * c + d, d_month = 12, d_day = 31\<rparr>"
      using True by (simp add: ord algebra_simps)
    from True obtain b' c' where bc: "400 * a + 100 * b + 4 * c + d = 400 * a + 100 * b' + 4 * c' + 3 + 1"
      "0 \<le> b'" "b' \<le> 3" "0 \<le> c'" "c' \<le> 24" "c' \<noteq> 24 \<or> b' = 3" "n0 = 146097 * a + 36524 * b' + 1461 * c' + 1460"
    proof (elim disjE)
      assume "d = 4"
      then show ?thesis using e1 e2 e3 e4 bounds by (intro that [of b c]) linarith+
    next
      assume "b = 4"
      then show ?thesis using e1 e2 e3 e4 bounds by (intro that [of 3 24]) linarith+
    qed
    have "is_leap (400 * a + 100 * b + 4 * c + d)"
      "days_before_year (400 * a + 100 * b + 4 * c + d) = 146097 * a + 36524 * b' + 1461 * c' + 365 * 3"
      unfolding bc(1) using cycle_year [OF bc(2-5), of 3] bc(6) by simp_all
    then show ?thesis
      using bc(7) defs(1) unfolding y by (simp add: ymd2ord_def valid_date_def days_before_month_def days_in_month_def DAYS_BEFORE_MONTH_def DAYS_IN_MONTH_def)
  next
    case False
    then have bd: "b \<le> 3" "d \<le> 3" using bounds by simp_all
    obtain m dd where md: "month_day (d = 3 \<and> (c \<noteq> 24 \<or> b = 3)) r1 = (m, dd)" by fastforce
    have y: "ord2ymd n = \<lparr>d_year = 400 * a + 100 * b + 4 * c + d + 1, d_month = m, d_day = dd\<rparr>"
      using False md by (simp add: ord algebra_simps)
    note cy = cycle_year [OF bounds(1) bd(1) bounds(3,4,5) bd(2), of a]
    have "r1 < (if d = 3 \<and> (c \<noteq> 24 \<or> b = 3) then 366 else 365)" using e4(3) by simp
    from month_day_eq [OF md e4(2) this] show ?thesis
      using e1(1) e2(1) e3(1) e4(1) defs(1) unfolding y by (simp add: ymd2ord_def valid_date_def cy)
  qed
qed

lemma month_unique:
  assumes "valid_date d" "valid_date e" "d_year d = d_year e"
    and "days_before_month (is_leap (d_year d)) (d_month d) + d_day d = days_before_month (is_leap (d_year e)) (d_month e) + d_day e"
  shows "d_month d = d_month e \<and> d_day d = d_day e"
proof -
  have next_month: "days_before_month l m + days_in_month l m \<le> days_before_month l k" if "1 \<le> m" "m < k" "k \<le> 12" for l m k
  proof -
    have "m \<in> {1, 2, 3, 4, 5, 6, 7, 8, 9, 10, 11}" "k \<in> {2, 3, 4, 5, 6, 7, 8, 9, 10, 11, 12}" using that by (simp_all; presburger)+
    then show ?thesis
      using that(2) by (elim insertE emptyE; cases l; simp add: days_before_month_def days_in_month_def DAYS_BEFORE_MONTH_def DAYS_IN_MONTH_def)
  qed
  show ?thesis
  proof (rule ccontr)
    assume "\<not> ?thesis"
    with assms(3,4) have "d_month d \<noteq> d_month e" by auto
    then show False
      using next_month [of "d_month d" "d_month e" "is_leap (d_year e)"] next_month [of "d_month e" "d_month d" "is_leap (d_year e)"] assms
      unfolding valid_date_def by fastforce
  qed
qed

theorem ord2ymd_ymd2ord:
  assumes "valid_date d"
  shows "ord2ymd (ymd2ord d) = d"
proof -
  define e where "e = ord2ymd (ymd2ord d)"
  have e: "ymd2ord e = ymd2ord d" "valid_date e" using ymd2ord_ord2ymd [of "ymd2ord d"] by (simp_all add: e_def)
  have "d_year e = d_year d"
    using day_of_year [OF assms] day_of_year [OF e(2)] e(1) days_before_year_less [of "d_year e" "d_year d"] days_before_year_less [of "d_year d" "d_year e"]
    unfolding ymd2ord_def by linarith
  moreover from this have "d_month e = d_month d \<and> d_day e = d_day d"
    using month_unique [OF e(2) assms] e(1) by (simp add: ymd2ord_def)
  ultimately have "e = d" by (cases d; cases e) simp
  then show ?thesis by (simp add: e_def)
qed

section \<open>Times\<close>

definition EPOCH_ORDINAL :: int where
  "EPOCH_ORDINAL = 719163"

definition DAY_US :: int where
  "DAY_US = 86400000000"

definition date_of :: "datetime \<Rightarrow> date" where
  "date_of t = ord2ymd (t div DAY_US + EPOCH_ORDINAL)"

definition midnight :: "date \<Rightarrow> datetime" where
  "midnight d = (ymd2ord d - EPOCH_ORDINAL) * DAY_US"

text \<open>\<open>replace(hour=0, minute=0, second=0, microsecond=0)\<close>, \<open>replace(day=k)\<close> and \<open>weekday()\<close>, Monday being 0.\<close>

definition start_of_day :: "datetime \<Rightarrow> datetime" where
  "start_of_day t = midnight (date_of t)"

definition replace_day :: "int \<Rightarrow> datetime \<Rightarrow> datetime" where
  "replace_day k t = midnight ((date_of t)\<lparr>d_day := k\<rparr>) + t mod DAY_US"

definition weekday :: "datetime \<Rightarrow> int" where
  "weekday t = (t div DAY_US + EPOCH_ORDINAL + 6) mod 7"

lemma date_of_midnight: "valid_date d \<Longrightarrow> 0 \<le> r \<Longrightarrow> r < DAY_US \<Longrightarrow> date_of (midnight d + r) = d"
  by (simp add: date_of_def midnight_def ord2ymd_ymd2ord div_mult_self3)

lemma valid_date_of: "valid_date (date_of t)"
  by (simp add: date_of_def ymd2ord_ord2ymd)

lemma midnight_date_of: "midnight (date_of t) = t - t mod DAY_US"
  by (simp add: midnight_def date_of_def ymd2ord_ord2ymd minus_mod_eq_div_mult)

lemma start_of_day_eq: "start_of_day t = t - t mod DAY_US"
  by (simp add: start_of_day_def midnight_date_of)

lemma date_of_start: "date_of (start_of_day t) = date_of t"
  unfolding start_of_day_def using date_of_midnight [OF valid_date_of, of 0 t] by (simp add: DAY_US_def)

lemma date_of_eq_iff: "date_of s = date_of t \<longleftrightarrow> s div DAY_US = t div DAY_US"
proof
  assume "date_of s = date_of t"
  then have "ymd2ord (date_of s) = ymd2ord (date_of t)" by simp
  then show "s div DAY_US = t div DAY_US" by (simp add: date_of_def ymd2ord_ord2ymd)
qed (simp add: date_of_def)

section \<open>Months\<close>

definition first_of :: "date \<Rightarrow> date" where
  "first_of d = d\<lparr>d_day := 1\<rparr>"

definition month_days :: "date \<Rightarrow> int" where
  "month_days d = days_in_month (is_leap (d_year d)) (d_month d)"

definition next_month :: "date \<Rightarrow> date" where
  "next_month d =
     (if d_month d = 12 then \<lparr>d_year = d_year d + 1, d_month = 1, d_day = 1\<rparr>
      else \<lparr>d_year = d_year d, d_month = d_month d + 1, d_day = 1\<rparr>)"

lemma month_days_range:
  assumes "valid_date d"
  shows "28 \<le> month_days d" "month_days d \<le> 31"
proof -
  have "d_month d \<in> {1, 2, 3, 4, 5, 6, 7, 8, 9, 10, 11, 12}" using assms unfolding valid_date_def by (simp; presburger)
  then show "28 \<le> month_days d" "month_days d \<le> 31"
    by (elim insertE emptyE; simp add: month_days_def days_in_month_def DAYS_IN_MONTH_def)+
qed

lemma valid_day: "valid_date d \<Longrightarrow> 1 \<le> k \<Longrightarrow> k \<le> month_days d \<Longrightarrow> valid_date (d\<lparr>d_day := k\<rparr>)"
  by (simp add: valid_date_def month_days_def)

lemma ymd2ord_day: "ymd2ord (d\<lparr>d_day := k\<rparr>) = ymd2ord (first_of d) + k - 1"
  by (simp add: ymd2ord_def first_of_def)

lemma next_month_ord:
  assumes "valid_date d"
  shows "ymd2ord (next_month d) = ymd2ord (first_of d) + month_days d" "valid_date (next_month d)"
proof -
  have m: "d_month d \<in> {1, 2, 3, 4, 5, 6, 7, 8, 9, 10, 11, 12}" using assms unfolding valid_date_def by (simp; presburger)
  then show "ymd2ord (next_month d) = ymd2ord (first_of d) + month_days d"
    using days_before_year_next [of "d_year d"]
    by (elim insertE emptyE; cases "is_leap (d_year d)"; simp add: ymd2ord_def first_of_def next_month_def month_days_def
        days_before_month_def days_in_month_def DAYS_BEFORE_MONTH_def DAYS_IN_MONTH_def)
  from m show "valid_date (next_month d)"
    by (elim insertE emptyE; simp add: next_month_def valid_date_def days_in_month_def DAYS_IN_MONTH_def)
qed

text \<open>The days of a month are those between its first and the first of the next.\<close>

lemma in_month_iff:
  assumes d: "valid_date d" and e: "valid_date e"
  shows "ymd2ord (first_of d) \<le> ymd2ord e \<and> ymd2ord e < ymd2ord (next_month d) \<longleftrightarrow> d_year e = d_year d \<and> d_month e = d_month d"
proof
  assume r: "ymd2ord (first_of d) \<le> ymd2ord e \<and> ymd2ord e < ymd2ord (next_month d)"
  define k where "k = ymd2ord e - ymd2ord (first_of d) + 1"
  have "1 \<le> k" "k \<le> month_days d" using r next_month_ord(1) [OF d] by (simp_all add: k_def)
  then have v: "valid_date (d\<lparr>d_day := k\<rparr>)" by (intro valid_day d)
  have "ymd2ord e = ymd2ord (d\<lparr>d_day := k\<rparr>)" unfolding ymd2ord_day by (simp add: k_def)
  then have "e = d\<lparr>d_day := k\<rparr>" by (metis ord2ymd_ymd2ord e v)
  then show "d_year e = d_year d \<and> d_month e = d_month d" by simp
next
  assume same: "d_year e = d_year d \<and> d_month e = d_month d"
  then have "e = d\<lparr>d_day := d_day e\<rparr>" by (cases d; cases e) simp
  then have "ymd2ord e = ymd2ord (first_of d) + d_day e - 1" using ymd2ord_day [of "d_day e" d] by simp
  moreover have "1 \<le> d_day e" "d_day e \<le> month_days d" using e same by (simp_all add: valid_date_def month_days_def)
  ultimately show "ymd2ord (first_of d) \<le> ymd2ord e \<and> ymd2ord e < ymd2ord (next_month d)"
    using next_month_ord(1) [OF d] by simp
qed

text \<open>Four days after the 28th it is the next month.\<close>

lemma four_days_after_28:
  assumes "valid_date d"
  shows "first_of (ord2ymd (ymd2ord (d\<lparr>d_day := 28\<rparr>) + 4)) = next_month d"
proof -
  let ?k = "32 - month_days d"
  have k: "1 \<le> ?k" "?k \<le> 28" using month_days_range [OF assms] by simp_all
  have v: "valid_date ((next_month d)\<lparr>d_day := ?k\<rparr>)"
    using k month_days_range(1) [OF next_month_ord(2) [OF assms]] by (intro valid_day next_month_ord(2) assms) linarith+
  have f: "first_of (next_month d) = next_month d" by (simp add: first_of_def next_month_def)
  have "ymd2ord (d\<lparr>d_day := 28\<rparr>) + 4 = ymd2ord ((next_month d)\<lparr>d_day := ?k\<rparr>)"
    unfolding ymd2ord_day f next_month_ord(1) [OF assms] by simp
  then show ?thesis using ord2ymd_ymd2ord [OF v] f by (simp add: first_of_def)
qed

lemma midnight_le_iff: "midnight d \<le> t \<longleftrightarrow> ymd2ord d \<le> ymd2ord (date_of t)"
proof -
  have "ymd2ord (date_of t) = t div DAY_US + EPOCH_ORDINAL" by (simp add: date_of_def ymd2ord_ord2ymd)
  moreover have "x * DAY_US \<le> t \<longleftrightarrow> x \<le> t div DAY_US" for x
  proof
    have pos: "0 < DAY_US" by (simp add: DAY_US_def)
    show "x \<le> t div DAY_US" if "x * DAY_US \<le> t" using zdiv_mono1 [OF that pos] pos by simp
    show "x * DAY_US \<le> t" if "x \<le> t div DAY_US"
    proof -
      have "x * DAY_US \<le> t div DAY_US * DAY_US" using that pos by simp
      also have "\<dots> \<le> t" using pos_mod_sign [OF pos, of t] minus_mod_eq_div_mult [of t DAY_US] by linarith
      finally show ?thesis .
    qed
  qed
  ultimately show ?thesis by (simp add: midnight_def diff_le_eq)
qed

section \<open>Times as text\<close>

definition pad2 :: "nat \<Rightarrow> string" where
  "pad2 n = (if n < 10 then CHR ''0'' # show_nat n else show_nat n)"

text \<open>\<open>strftime("%Y-%m-%dT%H:%M:%SZ")\<close>, with the year as it is.\<close>

definition strftime_z :: "datetime \<Rightarrow> string" where
  "strftime_z t =
     (let d = date_of t; s = nat (t mod DAY_US div 1000000)
      in show_int (d_year d) @ ''-'' @ pad2 (d_month d) @ ''-'' @ pad2 (nat (d_day d)) @ ''T'' @
         pad2 (s div 3600) @ '':'' @ pad2 (s div 60 mod 60) @ '':'' @ pad2 (s mod 60) @ ''Z'')"

definition digits_value :: "string \<Rightarrow> nat option" where
  "digits_value s = fold (\<lambda>c acc. case acc of None \<Rightarrow> None | Some n \<Rightarrow> map_option (\<lambda>d. 10 * n + d) (digit_of c)) s (Some 0)"

text \<open>The extended format with an offset of zero, one of those \<open>fromisoformat\<close> reads.\<close>

definition iso_extended :: "string \<Rightarrow> datetime option" where
  "iso_extended s =
     (if length s = 25 \<and> s ! 4 = CHR ''-'' \<and> s ! 7 = CHR ''-'' \<and> s ! 10 = CHR ''T'' \<and> s ! 13 = CHR '':'' \<and>
         s ! 16 = CHR '':'' \<and> drop 19 s = ''+00:00''
      then (case (digits_value (take 4 s), digits_value (take 2 (drop 5 s)), digits_value (take 2 (drop 8 s)),
                  digits_value (take 2 (drop 11 s)), digits_value (take 2 (drop 14 s)), digits_value (take 2 (drop 17 s))) of
              (Some y, Some mo, Some d, Some h, Some mi, Some sec) \<Rightarrow>
                let date = \<lparr>d_year = int y, d_month = mo, d_day = int d\<rparr>
                in if 1 \<le> y \<and> valid_date date \<and> h < 24 \<and> mi < 60 \<and> sec < 60
                   then Some (midnight date + int (h * 3600 + mi * 60 + sec) * 1000000) else None
            | _ \<Rightarrow> None)
      else None)"

lemma show_nat_single: "n < 10 \<Longrightarrow> show_nat n = [digit_char n]"
  by (subst show_nat.simps) simp

lemma digit_char_zero: "digit_char 0 = CHR ''0''"
  by code_simp

lemma pad2_digits: "n < 100 \<Longrightarrow> pad2 n = [digit_char (n div 10), digit_char (n mod 10)]"
  by (simp add: pad2_def show_nat_single) (simp add: show_nat.simps [of n] show_nat_single digit_char_zero)

lemma show_year_digits:
  assumes "1000 \<le> n" "n < 10000"
  shows "show_nat n = [digit_char (n div 1000), digit_char (n div 100 mod 10), digit_char (n div 10 mod 10), digit_char (n mod 10)]"
proof -
  have "show_nat n = show_nat (n div 10) @ [digit_char (n mod 10)]" using assms by (subst show_nat.simps) simp
  moreover have "show_nat (n div 10) = show_nat (n div 100) @ [digit_char (n div 10 mod 10)]"
    using assms by (subst show_nat.simps) (simp add: div_mult2_eq [symmetric])
  moreover have "show_nat (n div 100) = [digit_char (n div 1000), digit_char (n div 100 mod 10)]"
    using assms by (subst show_nat.simps) (simp add: div_mult2_eq [symmetric] show_nat_single)
  ultimately show ?thesis by simp
qed

lemma digits_value_two: "n < 100 \<Longrightarrow> digits_value [digit_char (n div 10), digit_char (n mod 10)] = Some n"
  by (simp add: digits_value_def)

lemma digits_value_four:
  assumes "1000 \<le> n" "n < 10000"
  shows "digits_value [digit_char (n div 1000), digit_char (n div 100 mod 10), digit_char (n div 10 mod 10), digit_char (n mod 10)] = Some n"
proof -
  have "n div 1000 < 10" using assms by simp
  moreover have "10 * (10 * (10 * (n div 1000) + n div 100 mod 10) + n div 10 mod 10) + n mod 10 = n"
  proof -
    have d: "m = 10 * (m div 10) + m mod 10" for m :: nat by simp
    have q: "n div 100 = n div 10 div 10" "n div 1000 = n div 10 div 10 div 10" by (simp_all add: div_mult2_eq [symmetric])
    show ?thesis unfolding q by (simp only: d [symmetric])
  qed
  ultimately show ?thesis by (simp add: digits_value_def)
qed

text \<open>What a time prints as is read back as the time without its fraction of a second.\<close>

lemma iso_of_strftime:
  assumes "1000 \<le> d_year (date_of t)" "d_year (date_of t) < 10000"
  shows "iso_extended (butlast (strftime_z t) @ ''+00:00'') = Some (t - t mod 1000000)"
    and "last (strftime_z t) = CHR ''Z''" "strftime_z t \<noteq> []" "hd (strftime_z t) \<noteq> CHR ''-''"
proof -
  define d s where "d = date_of t" and "s = nat (t mod DAY_US div 1000000)"
  define y where "y = nat (d_year d)"
  have vd: "valid_date d" by (simp add: d_def valid_date_of)
  have y: "1000 \<le> y" "y < 10000" "int y = d_year d" "show_int (d_year d) = show_nat y"
    using assms by (simp_all add: y_def d_def show_int_def)
  have "d_month d < 100" "nat (d_day d) < 100" "1 \<le> d_day d" "1 \<le> d_month d"
    using vd unfolding valid_date_def days_in_month_def DAYS_IN_MONTH_def
    by (auto simp: nth_Cons split: if_splits nat.splits)
  note small = this
  have s: "s < 86400" unfolding s_def DAY_US_def by auto
  then have hms: "s div 3600 < 100" "s div 60 mod 60 < 100" "s mod 60 < 100" "s div 3600 < 24" by simp_all
  note two = pad2_digits [OF small(1)] pad2_digits [OF small(2)] pad2_digits [OF hms(1)] pad2_digits [OF hms(2)] pad2_digits [OF hms(3)]
  note val = digits_value_two [OF small(1)] digits_value_two [OF small(2)] digits_value_two [OF hms(1)] digits_value_two [OF hms(2)] digits_value_two [OF hms(3)]
  have txt_eq: "strftime_z t = show_nat y @ ''-'' @ pad2 (d_month d) @ ''-'' @ pad2 (nat (d_day d)) @ ''T'' @
         pad2 (s div 3600) @ '':'' @ pad2 (s div 60 mod 60) @ '':'' @ pad2 (s mod 60) @ ''Z''"
    by (simp add: strftime_z_def Let_def y(4) flip: d_def s_def)
  show "last (strftime_z t) = CHR ''Z''" "strftime_z t \<noteq> []" by (simp_all add: txt_eq)
  show "hd (strftime_z t) \<noteq> CHR ''-''"
    using show_nat_edges [of y] digit_not_special [of "hd (show_nat y)"] by (simp add: txt_eq)
  have d_eq: "\<lparr>d_year = int y, d_month = d_month d, d_day = d_day d\<rparr> = d" using y(3) by (cases d) simp
  have "s div 3600 * 3600 + s div 60 mod 60 * 60 + s mod 60 = s"
  proof -
    have m: "m = 60 * (m div 60) + m mod 60" for m :: nat by simp
    have q: "s div 3600 = s div 60 div 60" by (simp add: div_mult2_eq [symmetric])
    have g: "x * 3600 + y * 60 = 60 * (60 * x + y)" for x y :: nat by simp
    show ?thesis unfolding q g by (simp only: m [symmetric])
  qed
  then have sec: "int (s div 3600 * 3600 + s div 60 mod 60 * 60 + s mod 60) = t mod DAY_US div 1000000"
    by (simp add: s_def DAY_US_def pos_imp_zdiv_nonneg_iff)
  have "t mod DAY_US = 1000000 * (t div 1000000 mod 86400) + t mod 1000000"
    using zmod_zmult2_eq [of 86400 t 1000000] by (simp add: DAY_US_def)
  then have "t - t mod DAY_US + t mod DAY_US div 1000000 * 1000000 = t - t mod 1000000" by simp
  then have fin: "midnight d + int (s div 3600 * 3600 + s div 60 mod 60 * 60 + s mod 60) * 1000000 = t - t mod 1000000"
    unfolding sec by (simp add: d_def midnight_date_of)
  have nn: "int (nat (d_day d)) = d_day d" "0 \<le> d_day d" "Suc 0 \<le> y" using small y(1) by simp_all
  show "iso_extended (butlast (strftime_z t) @ ''+00:00'') = Some (t - t mod 1000000)"
    unfolding txt_eq two show_year_digits [OF y(1,2)]
    by (simp add: iso_extended_def val digits_value_four [OF y(1,2)] Let_def nn d_eq vd hms del: of_nat_add of_nat_mult) (simp only: fin)
qed

end
