(* ===== verification/Uuid.thy ===== *)
theory Uuid
  imports Slug
begin

text \<open>
  \<open>uuid.UUID(text)\<close> and \<open>str(uuid)\<close> of the standard library, which the API uses on every identifier of a
  backtest and of a job. An identifier is the number below \<open>2 ^ 128\<close> it stands for; \<open>uuid_of\<close> is \<open>None\<close>
  where the constructor raises \<open>ValueError\<close>. The canonical text of a number is read back as that number.
\<close>

definition hex_val :: "char \<Rightarrow> nat option" where
  "hex_val c =
     (let k = of_char c
      in if 48 \<le> k \<and> k < 58 then Some (k - 48)
         else if 97 \<le> k \<and> k < 103 then Some (k - 87)
         else if 65 \<le> k \<and> k < 71 then Some (k - 55) else None)"

fun hex_digits :: "nat \<Rightarrow> bool \<Rightarrow> string \<Rightarrow> nat option" where
  "hex_digits acc after_digit [] = (if after_digit then Some acc else None)"
| "hex_digits acc after_digit (c # cs) =
     (case hex_val c of
        Some d \<Rightarrow> hex_digits (acc * 16 + d) True cs
      | None \<Rightarrow> if c = CHR ''_'' \<and> after_digit then hex_digits acc False cs else None)"

definition hex_body :: "string \<Rightarrow> nat option" where
  "hex_body s =
     (if take 2 s = ''0x'' \<or> take 2 s = ''0X''
      then hex_digits 0 False (if take 1 (drop 2 s) = ''_'' then drop 3 s else drop 2 s)
      else hex_digits 0 False s)"

text \<open>\<open>int(s, 16)\<close>.\<close>

definition py_int16 :: "string \<Rightarrow> int option" where
  "py_int16 s =
     (case py_strip s of
        [] \<Rightarrow> None
      | c # cs \<Rightarrow>
          if c = CHR ''-'' then map_option (\<lambda>n. - int n) (hex_body cs)
          else if c = CHR ''+'' then map_option int (hex_body cs)
          else map_option int (hex_body (c # cs)))"

text \<open>\<open>s.replace(p, "")\<close>; the number counts the characters of a found \<open>p\<close> still to be skipped.\<close>

fun remove_sub :: "string \<Rightarrow> nat \<Rightarrow> string \<Rightarrow> string" where
  "remove_sub p k [] = []"
| "remove_sub p (Suc k) (c # cs) = remove_sub p k cs"
| "remove_sub p 0 (c # cs) = (if take (length p) (c # cs) = p then remove_sub p (length p - 1) cs else c # remove_sub p 0 cs)"

definition strip_braces :: "string \<Rightarrow> string" where
  "strip_braces s =
     (let brace = (\<lambda>c. c = CHR ''{'' \<or> c = CHR ''}'') in rev (dropWhile brace (rev (dropWhile brace s))))"

definition uuid_of :: "string \<Rightarrow> nat option" where
  "uuid_of s =
     (let h = filter (\<lambda>c. c \<noteq> CHR ''-'') (strip_braces (remove_sub ''uuid:'' 0 (remove_sub ''urn:'' 0 s)))
      in if length h \<noteq> 32 then None
         else (case py_int16 h of
                 Some i \<Rightarrow> if 0 \<le> i \<and> i < 2 ^ 128 then Some (nat i) else None
               | None \<Rightarrow> None))"

definition hex_digit_char :: "nat \<Rightarrow> char" where
  "hex_digit_char d = char_of (if d < 10 then 48 + d else 87 + d)"

fun hex_fixed :: "nat \<Rightarrow> nat \<Rightarrow> string" where
  "hex_fixed 0 n = []"
| "hex_fixed (Suc k) n = hex_fixed k (n div 16) @ [hex_digit_char (n mod 16)]"

definition uuid_text :: "nat \<Rightarrow> string" where
  "uuid_text n =
     (let h = hex_fixed 32 n
      in take 8 h @ ''-'' @ take 4 (drop 8 h) @ ''-'' @ take 4 (drop 12 h) @ ''-'' @ take 4 (drop 16 h) @ ''-'' @ drop 20 h)"

section \<open>The canonical text is read back\<close>

lemma hex_val_char: "d < 16 \<Longrightarrow> hex_val (hex_digit_char d) = Some d"
  by (simp add: hex_val_def hex_digit_char_def Let_def)

lemma length_hex_fixed [simp]: "length (hex_fixed k n) = k"
  by (induction k arbitrary: n) simp_all

lemma hex_fixed_digits: "c \<in> set (hex_fixed k n) \<Longrightarrow> \<exists>d < 16. c = hex_digit_char d"
  by (induction k arbitrary: n) (auto intro: exI [of _ "_ mod 16"])

lemma hex_char_plain:
  assumes "d < 16"
  shows "hex_digit_char d \<notin> set ''-+{}urnixX''" "\<not> is_blank (hex_digit_char d)"
proof -
  have "d \<in> {0, 1, 2, 3, 4, 5, 6, 7, 8, 9, 10, 11, 12, 13, 14, 15}" using assms by (simp; presburger)
  then show "hex_digit_char d \<notin> set ''-+{}urnixX''" "\<not> is_blank (hex_digit_char d)"
    by (elim insertE emptyE; simp add: hex_digit_char_def is_blank_def char_of_def)+
qed

lemma hex_digits_snoc:
  "list_all (\<lambda>c. hex_val c \<noteq> None) s \<Longrightarrow> d < 16 \<Longrightarrow>
   hex_digits a p (s @ [hex_digit_char d]) = map_option (\<lambda>v. v * 16 + d) (if s = [] then Some a else hex_digits a p s)"
  by (induction s arbitrary: a p) (auto simp: hex_val_char)

lemma hex_fixed_all: "list_all (\<lambda>c. hex_val c \<noteq> None) (hex_fixed k n)"
  using hex_fixed_digits hex_val_char by (fastforce simp: list_all_iff)

lemma hex_digits_fixed: "hex_digits 0 p (hex_fixed (Suc k) n) = Some (n mod 16 ^ Suc k)"
proof (induction k arbitrary: n)
  case 0
  show ?case by (simp add: hex_val_char)
next
  case (Suc k)
  have "n mod 16 ^ Suc (Suc k) = n div 16 mod 16 ^ Suc k * 16 + n mod 16"
    using mod_mult2_eq [of n 16 "16 ^ Suc k"] by simp
  moreover have "hex_digits 0 p (hex_fixed (Suc k) (n div 16)) = Some (n div 16 mod 16 ^ Suc k)" by (rule Suc)
  moreover have "hex_fixed (Suc k) (n div 16) \<noteq> []" by simp
  ultimately show ?case
    using hex_digits_snoc [OF hex_fixed_all, of "n mod 16" 0 p "Suc k" "n div 16"] by (simp del: power_Suc)
qed

lemma remove_sub_absent: "p \<noteq> [] \<Longrightarrow> hd p \<notin> set s \<Longrightarrow> remove_sub p 0 s = s"
  by (induction s) (auto simp: take_Cons' neq_Nil_conv)

lemma uuid_of_text:
  assumes "n < 2 ^ 128"
  shows "uuid_of (uuid_text n) = Some n"
proof -
  define h where "h = hex_fixed 32 n"
  define t where "t = uuid_text n"
  have t: "t = take 8 h @ ''-'' @ take 4 (drop 8 h) @ ''-'' @ take 4 (drop 12 h) @ ''-'' @ take 4 (drop 16 h) @ ''-'' @ drop 20 h"
    unfolding t_def h_def uuid_text_def Let_def ..
  have len: "length h = 32" by (simp add: h_def)
  have plain: "c \<notin> set ''-+{}urnixX'' \<and> \<not> is_blank c" if "c \<in> set h" for c
    using hex_fixed_digits [of c 32 n] hex_char_plain that unfolding h_def by blast
  have sub: "c \<in> set h \<or> c = CHR ''-''" if "c \<in> set t" for c
    using that unfolding t by (auto dest: in_set_takeD in_set_dropD)
  have u: "CHR ''u'' \<notin> set t" using sub plain by fastforce
  have br: "dropWhile (\<lambda>c. c = CHR ''{'' \<or> c = CHR ''}'') l = l" if "set l \<subseteq> set t" for l
    using that sub plain by (cases l) fastforce+
  have "strip_braces (remove_sub ''uuid:'' 0 (remove_sub ''urn:'' 0 t)) = t"
    using u by (simp add: remove_sub_absent strip_braces_def br)
  moreover have "filter (\<lambda>c. c \<noteq> CHR ''-'') t = h"
  proof -
    have id: "filter (\<lambda>c. c \<noteq> CHR ''-'') l = l" if "set l \<subseteq> set h" for l
      using that plain by (induction l) auto
    have "filter (\<lambda>c. c \<noteq> CHR ''-'') t = take 8 h @ take 4 (drop 8 h) @ take 4 (drop 12 h) @ take 4 (drop 16 h) @ drop 20 h"
      unfolding t by (simp add: id set_take_subset set_drop_subset order_trans [OF set_take_subset set_drop_subset])
    also have "\<dots> = h"
      using append_take_drop_id [of 8 h] append_take_drop_id [of 4 "drop 8 h"] append_take_drop_id [of 4 "drop 12 h"] append_take_drop_id [of 4 "drop 16 h"]
      by (simp add: drop_drop add.commute)
    finally show ?thesis .
  qed
  moreover have "py_int16 h = Some (int n)"
  proof -
    have "h \<noteq> []" using len by auto
    then have "hd h \<in> set h" "last h \<in> set h" by simp_all
    then have "py_strip h = h" using \<open>h \<noteq> []\<close> plain by (intro strip_id) blast+
    moreover have no_prefix: "take 2 h \<noteq> ''0x'' \<and> take 2 h \<noteq> ''0X''"
    proof -
      have "CHR ''x'' \<notin> set h" "CHR ''X'' \<notin> set h" using plain by fastforce+
      then have x: "CHR ''x'' \<notin> set (take 2 h)" "CHR ''X'' \<notin> set (take 2 h)" by (blast dest: in_set_takeD)+
      show ?thesis
      proof (intro conjI notI)
        assume "take 2 h = ''0x''"
        with x(1) show False by simp
      next
        assume "take 2 h = ''0X''"
        with x(2) show False by simp
      qed
    qed
    moreover have "hex_body h = Some n"
      using hex_digits_fixed [of False 31 n] assms no_prefix by (simp add: hex_body_def h_def del: hex_fixed.simps)
    moreover have "hd h \<noteq> CHR ''-'' \<and> hd h \<noteq> CHR ''+''" using plain \<open>hd h \<in> set h\<close> by fastforce
    ultimately show ?thesis using \<open>h \<noteq> []\<close> by (cases h) (simp_all add: py_int16_def)
  qed
  ultimately show ?thesis using assms len by (simp add: uuid_of_def t_def [symmetric])
qed

end
