(* ===== verification/Api.thy ===== *)
theory Api
  imports Calendar Uuid Bot_Commands Copilot Paper_Driver "HOL-Library.List_Lexorder" "HOL-Library.Char_ord"
begin

text \<open>
  The HTTP API: \<open>api/main.py\<close> with \<open>api/auth.py\<close>, \<open>api/db.py\<close> and \<open>api/service_control.py\<close>. The world is the
  record \<open>api_world\<close>: the tables the handlers read and write, the files of the host, the messages
  published on redis, the jobs handed to the worker, the requests sent to the Docker socket and the tables of
  the copilot. A handler is a function of the environment of a request to the response and the new world; \<open>serve\<close> puts the
  guard of its route before each handler, as the decorators do. A query is a filter and a stable sort of the rows.

  Request bodies and query strings have passed their declared types, the database and redis answer, and pages are
  named by their template with the data given to it. The clock of a request is the sequence of its readings. JSON
  columns hold decoded documents; what an exception that no handler catches becomes is \<open>Unhandled\<close> (status 500).
\<close>

section \<open>Tables\<close>

record backtest_row =
  br_id :: nat
  br_strategy_name :: string
  br_started_at :: datetime
  br_ended_at :: "datetime option"
  br_status :: string
  br_dataset_from :: datetime
  br_dataset_to :: datetime
  br_metrics :: "json option"
  br_report_path :: "string option"

record bt_trade_row =
  btr_backtest_id :: nat
  btr_trade_idx :: int
  btr_instrument :: string
  btr_strategy_side :: string
  btr_entry_ts :: datetime
  btr_entry_price :: real
  btr_exit_ts :: "datetime option"
  btr_exit_price :: "real option"
  btr_pnl :: "real option"
  btr_fees :: "real option"
  btr_edge_bps :: "real option"
  btr_vol_regime :: "string option"

record job_row =
  jr_id :: nat
  jr_status :: string
  jr_strategy_name :: string
  jr_params_file :: string
  jr_data_source :: string
  jr_from_ts :: datetime
  jr_to_ts :: datetime
  jr_slug_encodes_open_ts :: bool
  jr_polybot_db_path :: "string option"
  jr_created_at :: datetime
  jr_started_at :: "datetime option"
  jr_finished_at :: "datetime option"
  jr_exit_code :: "int option"
  jr_stdout_tail :: "string option"
  jr_stderr_tail :: "string option"
  jr_backtest_id :: "nat option"
  jr_error_message :: "string option"
  jr_requested_by :: string

record position_row =
  pr_strategy_id :: string
  pr_instrument_id :: string
  pr_qty :: real
  pr_avg_price :: real
  pr_realized_pnl :: real
  pr_unrealized_pnl :: real
  pr_mode :: string
  pr_at :: real

text \<open>A row of \<open>trading.strategy_state\<close>: the document and the time of its update.\<close>

type_synonym state_table = "(string, json \<times> datetime) dict"

text \<open>The parsed strategies file by its path, with the modification time it was read at.\<close>

type_synonym toml_cache = "(string, real \<times> json) dict"

datatype docker_request = DockerInspect string | DockerRestart string int

record api_world =
  aw_backtests :: "backtest_row list"
  aw_bt_trades :: "bt_trade_row list"
  aw_jobs :: "job_row list"
  aw_state :: state_table
  aw_trading :: trading_db
  aw_positions :: "position_row list"
  aw_toml_cache :: toml_cache
  aw_exists :: "string \<Rightarrow> bool"
  aw_published :: "(string \<times> string) list"
  aw_tasks :: "nat list"
  aw_docker :: "docker_request list"
  aw_llm :: llm_db

text \<open>A column as asyncpg gives it to Python.\<close>

datatype py_value = PyNone | PyUuid nat | PyStr string | PyInt int | PyTime datetime | PyBool bool

text \<open>The environment of one request: the settings, the readings of the clock, the identifier drawn, the strategies
  file (its modification time and what it parses to), the heartbeat key, the Docker daemon, whether
  pydantic takes a value for a declared type, and the provider of the copilot.\<close>

record api_env =
  ae_token :: string
  ae_restart_enabled :: bool
  ae_service_map :: string
  ae_clock :: "nat \<Rightarrow> datetime"
  ae_uuid :: nat
  ae_mtime :: "string \<Rightarrow> py_error + real"
  ae_parse_toml :: "string \<Rightarrow> py_error + json"
  ae_heartbeat :: "json option"
  ae_docker :: "docker_request \<Rightarrow> py_error + int"
  ae_accepts :: "string \<Rightarrow> py_value \<Rightarrow> bool"
  ae_text_env :: text_env
  ae_sha256_hex :: "string \<Rightarrow> string"
  ae_provider :: provider
  ae_llm_settings :: llm_settings
  ae_contexts :: "(string option \<times> string option) list \<Rightarrow> loaded_context list"
  ae_resolve :: "string list \<Rightarrow> string list"
  ae_is_file :: "string list \<Rightarrow> bool"

record http_request =
  hr_header_token :: "string option"
  hr_cookie_token :: "string option"
  hr_client_host :: "string option"

section \<open>Queries\<close>

text \<open>\<open>if strategy:\<close>: neither missing nor empty. The condition it adds to a query.\<close>

definition chosen :: "string option \<Rightarrow> string \<Rightarrow> bool" where
  "chosen want s \<longleftrightarrow> (case want of Some w \<Rightarrow> w = [] \<or> s = w | None \<Rightarrow> True)"

text \<open>\<open>LIMIT l OFFSET o\<close>; Postgres refuses negative numbers.\<close>

definition limit_offset :: "int \<Rightarrow> int \<Rightarrow> 'a list \<Rightarrow> py_error + 'a list" where
  "limit_offset lmt off rows =
     (if lmt < 0 then Inl (RuntimeError ''LIMIT must not be negative'')
      else if off < 0 then Inl (RuntimeError ''OFFSET must not be negative'')
      else Inr (take (nat lmt) (drop (nat off) rows)))"

definition list_backtests :: "string option \<Rightarrow> int \<Rightarrow> int \<Rightarrow> string option \<Rightarrow> api_world \<Rightarrow> py_error + backtest_row list" where
  "list_backtests strategy lmt off status w =
     limit_offset lmt off
       (sort_key (\<lambda>r. - br_started_at r)
         (filter (\<lambda>r. chosen strategy (br_strategy_name r) \<and> chosen status (br_status r)) (aw_backtests w)))"

definition uuid_arg :: "string \<Rightarrow> py_error + nat" where
  "uuid_arg s = (case uuid_of s of Some u \<Rightarrow> Inr u | None \<Rightarrow> Inl (ValueError ''badly formed hexadecimal UUID string''))"

definition get_backtest :: "string \<Rightarrow> api_world \<Rightarrow> py_error + backtest_row option" where
  "get_backtest backtest_id w = bind_r (uuid_arg backtest_id) (\<lambda>u. Inr (find (\<lambda>r. br_id r = u) (aw_backtests w)))"

definition backtest_trades :: "string \<Rightarrow> int \<Rightarrow> api_world \<Rightarrow> py_error + bt_trade_row list" where
  "backtest_trades backtest_id lmt w =
     bind_r (uuid_arg backtest_id) (\<lambda>u.
       limit_offset lmt 0 (sort_key btr_trade_idx (filter (\<lambda>t. btr_backtest_id t = u) (aw_bt_trades w))))"

record job_payload =
  jp_strategy :: string
  jp_params_file :: string
  jp_source :: string
  jp_from_ts :: datetime
  jp_to_ts :: datetime
  jp_slug_encodes_open_ts :: bool
  jp_polybot_db :: string

definition queued_job :: "nat \<Rightarrow> datetime \<Rightarrow> job_payload \<Rightarrow> string \<Rightarrow> job_row" where
  "queued_job i now p requested_by =
     \<lparr>jr_id = i, jr_status = ''queued'', jr_strategy_name = jp_strategy p, jr_params_file = jp_params_file p,
      jr_data_source = jp_source p, jr_from_ts = jp_from_ts p, jr_to_ts = jp_to_ts p,
      jr_slug_encodes_open_ts = jp_slug_encodes_open_ts p, jr_polybot_db_path = Some (jp_polybot_db p), jr_created_at = now,
      jr_started_at = None, jr_finished_at = None, jr_exit_code = None, jr_stdout_tail = None, jr_stderr_tail = None,
      jr_backtest_id = None, jr_error_message = None, jr_requested_by = requested_by\<rparr>"

text \<open>The identifier is the primary key of the table.\<close>

definition create_job :: "api_env \<Rightarrow> job_payload \<Rightarrow> string \<Rightarrow> api_world \<Rightarrow> py_error + string \<times> api_world" where
  "create_job env p requested_by w =
     (if ae_uuid env \<in> jr_id ` set (aw_jobs w) then Inl (RuntimeError ''duplicate key value violates unique constraint'')
      else Inr (uuid_text (ae_uuid env), w\<lparr>aw_jobs := aw_jobs w @ [queued_job (ae_uuid env) (ae_clock env 0) p requested_by]\<rparr>))"

definition get_job :: "string \<Rightarrow> api_world \<Rightarrow> py_error + job_row option" where
  "get_job job_id w = bind_r (uuid_arg job_id) (\<lambda>u. Inr (find (\<lambda>r. jr_id r = u) (aw_jobs w)))"

section \<open>Strategies and their pause flag\<close>

definition DEFAULT_STRATEGIES_TOML :: string where
  "DEFAULT_STRATEGIES_TOML = ''config/environments/staging.toml''"

text \<open>\<open>_load_strategies_toml\<close>: the cached document while the modification time is the same.\<close>

definition load_strategies_toml :: "api_env \<Rightarrow> string \<Rightarrow> toml_cache \<Rightarrow> (py_error + json) \<times> toml_cache" where
  "load_strategies_toml env path cache =
     (case ae_mtime env path of
        Inl e \<Rightarrow> (Inl e, cache)
      | Inr mtime \<Rightarrow>
          (case map_of cache path of
             Some (t, cfg) \<Rightarrow>
               if t = mtime then (Inr cfg, cache)
               else (case ae_parse_toml env path of
                       Inl e \<Rightarrow> (Inl e, cache)
                     | Inr c \<Rightarrow> (Inr c, AList.update path (mtime, c) cache))
           | None \<Rightarrow>
               (case ae_parse_toml env path of
                  Inl e \<Rightarrow> (Inl e, cache)
                | Inr c \<Rightarrow> (Inr c, AList.update path (mtime, c) cache))))"

record strategy_view =
  sv_name :: string
  sv_enabled :: bool
  sv_paused :: bool
  sv_updated_at :: "datetime option"
  sv_params_file :: json

definition state_doc :: "state_table \<Rightarrow> string \<Rightarrow> json" where
  "state_doc tbl name = (case map_of tbl name of Some (doc, t) \<Rightarrow> doc | None \<Rightarrow> JsObj [])"

definition view_strategy :: "state_table \<Rightarrow> string \<times> json \<Rightarrow> py_error + strategy_view" where
  "view_strategy tbl = (\<lambda>(name, entry).
     bind_r (js_get ''enabled'' entry) (\<lambda>en.
       bind_r (js_getd ''paused'' (JsBool False) (state_doc tbl name)) (\<lambda>pz.
         bind_r (js_get ''params_file'' entry) (\<lambda>pf.
           Inr \<lparr>sv_name = name, sv_enabled = truthy en, sv_paused = truthy pz,
                sv_updated_at = map_option snd (map_of tbl name), sv_params_file = pf\<rparr>))))"

fun js_items :: "json \<Rightarrow> py_error + (string \<times> json) list" where
  "js_items (JsObj d) = Inr d"
| "js_items _ = Inl (AttributeError ''items'')"

definition list_strategies :: "api_env \<Rightarrow> api_world \<Rightarrow> (py_error + strategy_view list) \<times> api_world" where
  "list_strategies env w =
     (let (r, cache) = load_strategies_toml env DEFAULT_STRATEGIES_TOML (aw_toml_cache w)
      in (bind_r r (\<lambda>cfg. bind_r (js_getd ''strategies'' (JsObj []) cfg) (\<lambda>strategies.
            if \<not> truthy strategies then Inr []
            else bind_r (js_items strategies) (map_r (view_strategy (aw_state w))))),
          w\<lparr>aw_toml_cache := cache\<rparr>))"

definition seconds_of :: "datetime \<Rightarrow> real" where
  "seconds_of t = of_int t / 1000000"

text \<open>The row is inserted or its document replaced; the second reading is the one of the database.\<close>

definition set_strategy_pause :: "api_env \<Rightarrow> string \<Rightarrow> bool \<Rightarrow> string \<Rightarrow> api_world \<Rightarrow> api_world" where
  "set_strategy_pause env name paused by_whom w =
     (let doc = JsObj [(''paused'', JsBool paused), (''by'', JsStr by_whom), (''ts'', JsNum (seconds_of (ae_clock env 0)))]
      in w\<lparr>aw_state := AList.update name (doc, ae_clock env 1) (aw_state w)\<rparr>)"

section \<open>Trades, profits and positions\<close>

record trade_view =
  tv_ts_submit :: real
  tv_strategy_id :: string
  tv_instrument_id :: string
  tv_entry_price :: real
  tv_exit_price :: "real option"
  tv_pnl :: "real option"
  tv_resolution :: "string option"

text \<open>\<open>metadata->>'pnl'\<close> as a number and \<open>metadata->>'resolution'\<close>.\<close>

definition meta_num :: "string \<Rightarrow> fill_row \<Rightarrow> real option" where
  "meta_num k f = (case map_of (fr_metadata f) k of Some (JNum x) \<Rightarrow> Some x | _ \<Rightarrow> None)"

definition meta_text :: "string \<Rightarrow> fill_row \<Rightarrow> string option" where
  "meta_text k f = (case map_of (fr_metadata f) k of Some (JStr s) \<Rightarrow> Some s | _ \<Rightarrow> None)"

definition is_settle :: "fill_row \<Rightarrow> bool" where
  "is_settle f \<longleftrightarrow> fill_kind f = Some (JStr ''settle'')"

definition trade_row :: "order_row \<Rightarrow> fill_row option \<Rightarrow> trade_view" where
  "trade_row r f =
     \<lparr>tv_ts_submit = or_ts_submit r, tv_strategy_id = or_strategy_id r, tv_instrument_id = or_instrument_id r,
      tv_entry_price = or_price r, tv_exit_price = map_option fr_price f,
      tv_pnl = (case f of Some x \<Rightarrow> meta_num ''pnl'' x | None \<Rightarrow> None),
      tv_resolution = (case f of Some x \<Rightarrow> meta_text ''resolution'' x | None \<Rightarrow> None)\<rparr>"

text \<open>The left join of the orders with their settlement fills.\<close>

definition with_settlement :: "trading_db \<Rightarrow> order_row \<Rightarrow> trade_view list" where
  "with_settlement db r =
     (case filter (\<lambda>f. fr_order_id f = or_order_id r \<and> is_settle f) (fills_tbl db) of
        [] \<Rightarrow> [trade_row r None]
      | fs \<Rightarrow> map (\<lambda>f. trade_row r (Some f)) fs)"

definition recent_trades :: "int \<Rightarrow> string option \<Rightarrow> api_world \<Rightarrow> py_error + trade_view list" where
  "recent_trades n strategy w =
     limit_offset n 0
       (sort_key (\<lambda>t. - tv_ts_submit t)
         (concat (map (with_settlement (aw_trading w))
            (filter (\<lambda>r. or_mode r = ''paper'' \<and> chosen strategy (or_strategy_id r)) (orders_tbl (aw_trading w))))))"

record pnl_view =
  pv_pnl :: real
  pv_n_trades :: nat

text \<open>Fills joined with the orders they belong to, one row for each match.\<close>

definition period_fills :: "real \<Rightarrow> real \<Rightarrow> string option \<Rightarrow> trading_db \<Rightarrow> fill_row list" where
  "period_fills a b strategy db =
     concat (map (\<lambda>f. map (\<lambda>_. f) (filter (\<lambda>r. or_order_id r = fr_order_id f \<and> chosen strategy (or_strategy_id r)) (orders_tbl db)))
       (filter (\<lambda>f. fr_mode f = ''paper'' \<and> a \<le> fr_ts f \<and> fr_ts f < b) (fills_tbl db)))"

definition pnl_in_period :: "datetime \<Rightarrow> datetime \<Rightarrow> string option \<Rightarrow> trading_db \<Rightarrow> pnl_view" where
  "pnl_in_period from_dt to_dt strategy db =
     (let fs = period_fills (seconds_of from_dt) (seconds_of to_dt) strategy db
      in \<lparr>pv_pnl = sum_list (List.map_filter (meta_num ''pnl'') fs), pv_n_trades = length (filter is_settle fs)\<rparr>)"

definition open_positions :: "string option \<Rightarrow> api_world \<Rightarrow> position_row list" where
  "open_positions strategy w =
     take 100 (sort_key (\<lambda>r. - pr_at r)
       (filter (\<lambda>r. pr_mode r = ''paper'' \<and> chosen strategy (pr_strategy_id r)) (aw_positions w)))"

section \<open>Responses\<close>

record backtest_view =
  bv_id :: string
  bv_strategy_name :: string
  bv_started_at :: datetime
  bv_ended_at :: "datetime option"
  bv_status :: string
  bv_dataset_from :: datetime
  bv_dataset_to :: datetime
  bv_n_trades :: json
  bv_total_pnl :: json
  bv_win_rate :: json
  bv_sharpe_per_trade :: json
  bv_mdd_usd :: json
  bv_report_path :: "string option"

record status_view =
  st_engine_up :: bool
  st_heartbeat_age_s :: "real option"
  st_strategies :: "strategy_view list"
  st_pnl_today :: pnl_view
  st_kill_switch_active :: bool

record strategy_metrics =
  sm_name :: string
  sm_status :: string
  sm_enabled :: bool
  sm_paused :: bool
  sm_pnl_24h :: real
  sm_pnl_7d :: real
  sm_n_trades_24h :: nat
  sm_win_rate :: real

record dash_line =
  tl_t :: string
  tl_strat :: string
  tl_side :: string
  tl_sym :: string
  tl_px :: fstring
  tl_pnl :: real

record overview_view =
  ov_up :: bool
  ov_kill_switch_active :: bool
  ov_heartbeat_age_s :: "real option"
  ov_strategies :: "strategy_metrics list"
  ov_pnl_24h :: real
  ov_pnl_7d :: real
  ov_n_trades_24h :: nat
  ov_recent_trades :: "dash_line list"
  ov_backtests :: "backtest_view list"

record chat_view =
  cw_session_id :: string
  cw_assistant :: string
  cw_model :: string
  cw_tokens_in_total :: int
  cw_tokens_out_total :: int
  cw_cost_usd_total :: real
  cw_cost_usd_this_turn :: real

datatype page =
    LoginForm
  | IndexPage "backtest_view list" "strategy_view list" "string option" "string option"
  | NewRunPage "strategy_view list"
  | JobPage job_row
  | DetailPage backtest_view "bt_trade_row list"
  | ComparePage "backtest_view list"
  | ChatPage string "conversation option" "backtest_view list" "strategy_view list" "string list" string
  | TextPage string

datatype api_response =
    BacktestsOk "backtest_view list" int int
  | BacktestOk backtest_view
  | BtTradesOk "bt_trade_row list" int
  | JobAccepted string
  | JobOk job_row
  | StrategiesOk "strategy_view list"
  | PauseOk string bool
  | StatusOk status_view
  | HealthOk bool status_view
  | PositionsOk "position_row list"
  | RecentOk "trade_view list"
  | PnlOk string datetime datetime "string option" pnl_view
  | RestartOk string string datetime
  | KillOk bool datetime
  | ChatOk chat_view
  | ChatResetOk string
  | OverviewOk overview_view
  | HttpError int fstring "int option"
  | Unhandled py_error
  | RedirectTo int string
  | SessionCookie string
  | PageOk int page
  | FileContent "string list"

text \<open>An exception that the handler lets through.\<close>

definition answer :: "('a \<Rightarrow> api_response) \<Rightarrow> py_error + 'a \<Rightarrow> api_response" where
  "answer k r = (case r of Inl e \<Rightarrow> Unhandled e | Inr a \<Rightarrow> k a)"

section \<open>Authentication\<close>

definition present :: "string option \<Rightarrow> bool" where
  "present t \<longleftrightarrow> t \<noteq> None \<and> t \<noteq> Some []"

definition presented_token :: "http_request \<Rightarrow> string option" where
  "presented_token rq = (if present (hr_header_token rq) then hr_header_token rq else hr_cookie_token rq)"

definition require_token :: "api_env \<Rightarrow> http_request \<Rightarrow> api_response option" where
  "require_token env rq =
     (if ae_token env = [] then Some (HttpError 503 (ftext ''api_token not configured on server'') None)
      else if \<not> present (presented_token rq) \<or> presented_token rq \<noteq> Some (ae_token env)
      then Some (HttpError 401 (ftext ''invalid or missing X-TEA-Token'') None) else None)"

definition cookie_auth_or_redirect :: "api_env \<Rightarrow> http_request \<Rightarrow> api_response option" where
  "cookie_auth_or_redirect env rq =
     (if \<not> present (hr_cookie_token rq) \<or> hr_cookie_token rq \<noteq> Some (ae_token env) then Some (RedirectTo 303 ''/login'') else None)"

type_synonym api_action = "api_world \<Rightarrow> api_response \<times> api_world"

definition guarded :: "api_response option \<Rightarrow> api_action \<Rightarrow> api_action" where
  "guarded denial h w = (case denial of Some r \<Rightarrow> (r, w) | None \<Rightarrow> h w)"

section \<open>Backtests and jobs\<close>

definition backtest_row_to_dict :: "backtest_row \<Rightarrow> py_error + backtest_view" where
  "backtest_row_to_dict r =
     (let metrics = js_or (js_or (case br_metrics r of Some m \<Rightarrow> m | None \<Rightarrow> JsNull) (JsObj [])) (JsObj [])
      in bind_r (js_get ''performance'' metrics) (\<lambda>p0. bind_r (js_get ''risk_adjusted'' metrics) (\<lambda>r0.
           let perf = js_or p0 (JsObj []); risk = js_or r0 (JsObj [])
           in bind_r (js_get ''n_trades'' perf) (\<lambda>nt. bind_r (js_get ''total_pnl'' perf) (\<lambda>tp.
              bind_r (js_get ''win_rate'' perf) (\<lambda>wr. bind_r (js_get ''sharpe_per_trade'' risk) (\<lambda>sh.
              bind_r (js_get ''mdd_usd'' risk) (\<lambda>md.
                Inr \<lparr>bv_id = uuid_text (br_id r), bv_strategy_name = br_strategy_name r, bv_started_at = br_started_at r,
                     bv_ended_at = br_ended_at r, bv_status = br_status r, bv_dataset_from = br_dataset_from r,
                     bv_dataset_to = br_dataset_to r, bv_n_trades = nt, bv_total_pnl = tp, bv_win_rate = wr,
                     bv_sharpe_per_trade = sh, bv_mdd_usd = md, bv_report_path = br_report_path r\<rparr>))))))))"

definition api_list_backtests :: "string option \<Rightarrow> int \<Rightarrow> int \<Rightarrow> string option \<Rightarrow> api_action" where
  "api_list_backtests strategy lmt off status w =
     (answer (\<lambda>vs. BacktestsOk vs lmt off) (bind_r (list_backtests strategy lmt off status w) (map_r backtest_row_to_dict)), w)"

definition api_get_backtest :: "string \<Rightarrow> api_action" where
  "api_get_backtest backtest_id w =
     (answer (\<lambda>row. case row of
          None \<Rightarrow> HttpError 404 (ftext ''not found'') None
        | Some r \<Rightarrow> answer BacktestOk (backtest_row_to_dict r)) (get_backtest backtest_id w), w)"

definition api_backtest_trades :: "string \<Rightarrow> int \<Rightarrow> api_action" where
  "api_backtest_trades backtest_id lmt w = (answer (\<lambda>ts. BtTradesOk ts lmt) (backtest_trades backtest_id lmt w), w)"

text \<open>\<open>req.requested_by or f"web:{host}"\<close>; the job is stored and handed to the worker.\<close>

definition requester :: "http_request \<Rightarrow> string \<Rightarrow> string" where
  "requester rq requested_by =
     (if requested_by \<noteq> [] then requested_by
      else ''web:'' @ (case hr_client_host rq of Some h \<Rightarrow> h | None \<Rightarrow> ''-''))"

definition api_run_backtest :: "api_env \<Rightarrow> http_request \<Rightarrow> job_payload \<Rightarrow> string \<Rightarrow> api_action" where
  "api_run_backtest env rq p requested_by w =
     (case create_job env p (requester rq requested_by) w of
        Inl e \<Rightarrow> (Unhandled e, w)
      | Inr (job_id, w1) \<Rightarrow> (JobAccepted job_id, w1\<lparr>aw_tasks := aw_tasks w1 @ [ae_uuid env]\<rparr>))"

definition opt_value :: "('a \<Rightarrow> py_value) \<Rightarrow> 'a option \<Rightarrow> py_value" where
  "opt_value k x = (case x of None \<Rightarrow> PyNone | Some a \<Rightarrow> k a)"

text \<open>\<open>dict(row)\<close> of \<open>SELECT *\<close>, column by column.\<close>

definition job_items :: "job_row \<Rightarrow> (string \<times> py_value) list" where
  "job_items r =
     [(''id'', PyUuid (jr_id r)), (''status'', PyStr (jr_status r)), (''strategy_name'', PyStr (jr_strategy_name r)),
      (''params_file'', PyStr (jr_params_file r)), (''data_source'', PyStr (jr_data_source r)),
      (''from_ts'', PyTime (jr_from_ts r)), (''to_ts'', PyTime (jr_to_ts r)),
      (''slug_encodes_open_ts'', PyBool (jr_slug_encodes_open_ts r)),
      (''polybot_db_path'', opt_value PyStr (jr_polybot_db_path r)), (''created_at'', PyTime (jr_created_at r)),
      (''started_at'', opt_value PyTime (jr_started_at r)), (''finished_at'', opt_value PyTime (jr_finished_at r)),
      (''exit_code'', opt_value PyInt (jr_exit_code r)), (''stdout_tail'', opt_value PyStr (jr_stdout_tail r)),
      (''stderr_tail'', opt_value PyStr (jr_stderr_tail r)), (''backtest_id'', opt_value PyUuid (jr_backtest_id r)),
      (''error_message'', opt_value PyStr (jr_error_message r)), (''requested_by'', PyStr (jr_requested_by r))]"

text \<open>The fields of \<open>JobStatus\<close> with their declared types.\<close>

definition JOB_STATUS_FIELDS :: "(string \<times> string) list" where
  "JOB_STATUS_FIELDS =
     [(''id'', ''str''), (''status'', ''str''), (''strategy_name'', ''str''), (''created_at'', ''datetime''),
      (''started_at'', ''datetime | None''), (''finished_at'', ''datetime | None''), (''exit_code'', ''int | None''),
      (''backtest_id'', ''str | None''), (''stdout_tail'', ''str | None''), (''stderr_tail'', ''str | None''),
      (''error_message'', ''str | None''), (''requested_by'', ''str'')]"

definition job_status :: "api_env \<Rightarrow> job_row \<Rightarrow> py_error + job_row" where
  "job_status env r =
     (if list_all (\<lambda>(k, v). case map_of JOB_STATUS_FIELDS k of Some ty \<Rightarrow> ae_accepts env ty v | None \<Rightarrow> True) (job_items r)
      then Inr r else Inl (ValueError ''validation errors for JobStatus''))"

definition api_get_job :: "api_env \<Rightarrow> string \<Rightarrow> api_action" where
  "api_get_job env job_id w =
     (answer (\<lambda>row. case row of
          None \<Rightarrow> HttpError 404 (ftext ''not found'') None
        | Some r \<Rightarrow> answer JobOk (job_status env r)) (get_job job_id w), w)"

section \<open>Status, pause and profits\<close>

definition api_list_strategies :: "api_env \<Rightarrow> api_action" where
  "api_list_strategies env w = (let (r, w1) = list_strategies env w in (answer StrategiesOk r, w1))"

text \<open>The row is written first, then the message is published on the channel of the strategy.\<close>

definition publish :: "string \<Rightarrow> string \<Rightarrow> api_world \<Rightarrow> api_world" where
  "publish channel action w = w\<lparr>aw_published := aw_published w @ [(channel, action)]\<rparr>"

definition control_channel :: "string \<Rightarrow> string" where
  "control_channel name = ''tea:control:'' @ name"

definition api_pause :: "api_env \<Rightarrow> string \<Rightarrow> api_action" where
  "api_pause env name w = (PauseOk name True, publish (control_channel name) ''pause'' (set_strategy_pause env name True ''api'' w))"

definition api_resume :: "api_env \<Rightarrow> string \<Rightarrow> api_action" where
  "api_resume env name w = (PauseOk name False, publish (control_channel name) ''resume'' (set_strategy_pause env name False ''api'' w))"

definition KILL_SWITCH_ETC :: string where
  "KILL_SWITCH_ETC = ''/etc/trading-system/KILL_SWITCH''"

definition KILL_SWITCH_API :: string where
  "KILL_SWITCH_API = ''/var/tea/control/KILL_SWITCH''"

definition api_kill_switch_active :: "(string \<Rightarrow> bool) \<Rightarrow> bool" where
  "api_kill_switch_active exists \<longleftrightarrow> list_ex exists [KILL_SWITCH_ETC, KILL_SWITCH_API]"

definition heartbeat_age :: "api_env \<Rightarrow> datetime \<Rightarrow> py_error + real option" where
  "heartbeat_age env now =
     (case ae_heartbeat env of
        None \<Rightarrow> Inr None
      | Some data \<Rightarrow>
          if \<not> truthy data then Inr None
          else bind_r (js_getd ''ts'' (JsInt 0) data) (\<lambda>v. bind_r (py_float (ae_text_env env) v) (\<lambda>ts. Inr (Some (seconds_of now - ts)))))"

definition status_payload :: "api_env \<Rightarrow> nat \<Rightarrow> api_world \<Rightarrow> (py_error + status_view) \<times> api_world" where
  "status_payload env k w =
     (case heartbeat_age env (ae_clock env k) of
        Inl e \<Rightarrow> (Inl e, w)
      | Inr age \<Rightarrow>
          (let (strategies, w1) = list_strategies env w;
               today = start_of_day (ae_clock env (k + 1))
           in (bind_r strategies (\<lambda>ss.
                 Inr \<lparr>st_engine_up = (case age of Some a \<Rightarrow> a < 60 | None \<Rightarrow> False), st_heartbeat_age_s = age, st_strategies = ss,
                      st_pnl_today = pnl_in_period today (today + DAY_US) None (aw_trading w1),
                      st_kill_switch_active = api_kill_switch_active (aw_exists w1)\<rparr>), w1)))"

definition api_status :: "api_env \<Rightarrow> api_action" where
  "api_status env w = (let (r, w1) = status_payload env 0 w in (answer StatusOk r, w1))"

definition api_health :: "api_env \<Rightarrow> api_action" where
  "api_health env w =
     (let (r, w1) = status_payload env 0 w
      in (answer (\<lambda>st. HealthOk (st_engine_up st \<and> \<not> st_kill_switch_active st) st) r, w1))"

definition api_positions :: "string option \<Rightarrow> api_action" where
  "api_positions strategy w = (PositionsOk (open_positions strategy w), w)"

definition api_recent_trades :: "int \<Rightarrow> string option \<Rightarrow> api_action" where
  "api_recent_trades n strategy w = (answer RecentOk (recent_trades (max 1 (min 50 n)) strategy w), w)"

text \<open>The range of a period: the day, the week from Monday, the month up to the first of the next.\<close>

definition period_range :: "string \<Rightarrow> datetime \<Rightarrow> (datetime \<times> datetime) option" where
  "period_range period now =
     (let today = start_of_day now
      in if period = ''today'' then Some (today, today + DAY_US)
         else if period = ''semana'' then (let since = today - weekday today * DAY_US in Some (since, since + 7 * DAY_US))
         else if period = ''mes''
         then (let since = replace_day 1 today in Some (since, replace_day 1 (replace_day 28 since + 4 * DAY_US)))
         else None)"

definition api_pnl :: "api_env \<Rightarrow> string \<Rightarrow> string option \<Rightarrow> api_action" where
  "api_pnl env period strategy w =
     (case period_range period (ae_clock env 0) of
        None \<Rightarrow> (HttpError 400 (ftext ''period must be today|semana|mes'') None, w)
      | Some (since, until) \<Rightarrow> (PnlOk period since until strategy (pnl_in_period since until strategy (aw_trading w)), w))"

section \<open>The kill switch\<close>

definition CONFIRM_PHRASE :: string where
  "CONFIRM_PHRASE = ''s'' @ [char_of (237 :: nat)] @ '' lo entiendo''"

definition api_killswitch_on :: "api_env \<Rightarrow> string \<Rightarrow> api_action" where
  "api_killswitch_on env confirm w =
     (if py_lower (py_strip confirm) \<noteq> CONFIRM_PHRASE then (HttpError 400 (ftext ''confirmation phrase mismatch'') None, w)
      else (KillOk True (ae_clock env 1), w\<lparr>aw_exists := (aw_exists w)(KILL_SWITCH_API := True)\<rparr>))"

definition api_killswitch_off :: "api_env \<Rightarrow> api_action" where
  "api_killswitch_off env w =
     (let w1 = (if aw_exists w KILL_SWITCH_API then w\<lparr>aw_exists := (aw_exists w)(KILL_SWITCH_API := False)\<rparr> else w)
      in (KillOk (api_kill_switch_active (aw_exists w1)) (ae_clock env 0), w1))"

section \<open>Restarting a service\<close>

fun add_alias :: "string \<Rightarrow> (string, string) dict \<Rightarrow> (string, string) dict" where
  "add_alias part aliases =
     (let item = py_strip part
      in if item = [] \<or> CHR ''='' \<notin> set item then aliases
         else (let alias = py_lower (py_strip (takeWhile (\<lambda>c. c \<noteq> CHR ''='') item));
                   container = py_strip (tl (dropWhile (\<lambda>c. c \<noteq> CHR ''='') item))
               in if alias \<noteq> [] \<and> container \<noteq> [] then AList.update alias container aliases else aliases))"

definition service_aliases :: "string \<Rightarrow> (string, string) dict" where
  "service_aliases raw = fold add_alias (split_at (CHR '','') raw) []"

fun comma_list :: "string list \<Rightarrow> string" where
  "comma_list [] = []"
| "comma_list [s] = s"
| "comma_list (s # ss) = s @ '', '' @ comma_list ss"

definition resolve_service :: "string \<Rightarrow> string \<Rightarrow> api_response + string \<times> string" where
  "resolve_service raw name =
     (let requested = py_lower (py_strip name); aliases = service_aliases raw
      in case map_of aliases requested of
           Some container \<Rightarrow> Inr (requested, container)
         | None \<Rightarrow>
             Inl (HttpError 404 [FTxt ''service '', FUni 39, FStr name, FUni 39, FTxt '' is not restartable; allowed values: '',
               FStr (let supported = comma_list (sort (keys_of aliases)) in if supported \<noteq> [] then supported else ''(none configured)'')] None))"

definition docker :: "api_env \<Rightarrow> docker_request \<Rightarrow> (int \<Rightarrow> api_action) \<Rightarrow> api_action" where
  "docker env q k w =
     (let w1 = w\<lparr>aw_docker := aw_docker w @ [q]\<rparr>
      in case ae_docker env q of Inl e \<Rightarrow> (Unhandled e, w1) | Inr code \<Rightarrow> k code w1)"

definition gone :: "string \<Rightarrow> string \<Rightarrow> api_response" where
  "gone container what = HttpError 404 [FTxt ''container '', FUni 39, FStr container, FUni 39, FTxt what] None"

definition restart_service :: "api_env \<Rightarrow> string \<Rightarrow> api_action" where
  "restart_service env name w =
     (if \<not> ae_restart_enabled env
      then (HttpError 503 (ftext ''service restart is disabled; set TEA_DOCKER_RESTART_ENABLED=true to enable it'') None, w)
      else (case resolve_service (ae_service_map env) name of
          Inl r \<Rightarrow> (r, w)
        | Inr (requested, container) \<Rightarrow>
            docker env (DockerInspect container) (\<lambda>code.
              if code = 404 then Pair (gone container '' not found on Docker host'')
              else if code \<ge> 400 then Pair (HttpError 502 [FTxt ''docker inspect failed with status '', FInt code] None)
              else docker env (DockerRestart container 10) (\<lambda>code2.
                if code2 = 204 then Pair (RestartOk requested container (ae_clock env 0))
                else if code2 = 404 then Pair (gone container '' disappeared before restart'')
                else Pair (HttpError 502 [FTxt ''docker restart failed with status '', FInt code2] None))) w))"

section \<open>The copilot\<close>

definition user_id_for_request :: "api_env \<Rightarrow> http_request \<Rightarrow> string" where
  "user_id_for_request env rq =
     (case presented_token rq of
        Some t \<Rightarrow> if t \<noteq> [] then ''web:'' @ take 8 (ae_sha256_hex env t) else ''web:anon''
      | None \<Rightarrow> ''web:anon'')"

record chat_request =
  cq_session_id :: string
  cq_message :: string
  cq_context_refs :: "(string \<times> string) list"
  cq_model :: "string option"

definition chat_turn :: "api_env \<Rightarrow> http_request \<Rightarrow> chat_request \<Rightarrow> turn_input" where
  "chat_turn env rq q =
     (let refs = map (\<lambda>(t, i). (Some t, Some i)) (cq_context_refs q)
      in \<lparr>ti_now = ae_clock env 0, ti_recorded_at = ae_clock env 1, ti_session_id = cq_session_id q,
          ti_user_id = user_id_for_request env rq, ti_message = cq_message q, ti_refs = refs,
          ti_contexts = ae_contexts env refs, ti_model = cq_model q\<rparr>)"

fun chat_error :: "llm_error \<Rightarrow> api_response" where
  "chat_error (RateLimitError reason code retry) = HttpError code reason retry"
| "chat_error (LLMPolicyError m) = HttpError 502 (ftext ''provider returned disallowed payload'') None"
| "chat_error (LLMError m) = HttpError 502 m None"
| "chat_error (BadRequest (ValueError m)) = HttpError 400 (ftext m) None"
| "chat_error (BadRequest e) = Unhandled e"

definition chat_answer :: "string \<Rightarrow> chat_result \<Rightarrow> conversation \<Rightarrow> chat_view" where
  "chat_answer session_id r conv =
     \<lparr>cw_session_id = session_id, cw_assistant = ch_content r, cw_model = cv_model conv, cw_tokens_in_total = cv_tokens_in conv,
      cw_tokens_out_total = cv_tokens_out conv, cw_cost_usd_total = cv_cost_usd conv, cw_cost_usd_this_turn = ch_cost_usd r\<rparr>"

text \<open>The conversation in the answer is the stored one.\<close>

definition api_llm_chat :: "api_env \<Rightarrow> http_request \<Rightarrow> chat_request \<Rightarrow> api_action" where
  "api_llm_chat env rq q w =
     (if py_strip (cq_session_id q) = [] then (HttpError 400 (ftext ''session_id required'') None, w)
      else if py_strip (cq_message q) = [] then (HttpError 400 (ftext ''message required'') None, w)
      else (case run_turn (ae_provider env) (ae_llm_settings env) (chat_turn env rq q) (aw_llm w) of
          (Inl e, db) \<Rightarrow> (chat_error e, w\<lparr>aw_llm := db\<rparr>)
        | (Inr r, db) \<Rightarrow>
            ((case map_of (ld_conversations db) (cq_session_id q) of
                Some conv \<Rightarrow> ChatOk (chat_answer (cq_session_id q) r conv)
              | None \<Rightarrow> Unhandled (AttributeError ''session_id'')), w\<lparr>aw_llm := db\<rparr>)))"

definition api_llm_reset :: "string \<Rightarrow> api_action" where
  "api_llm_reset session_id w =
     (ChatResetOk session_id,
      w\<lparr>aw_llm := (aw_llm w)\<lparr>ld_conversations := AList.delete session_id (ld_conversations (aw_llm w))\<rparr>\<rparr>)"

section \<open>The dashboard\<close>

definition win_rate_of :: "trade_view list \<Rightarrow> real" where
  "win_rate_of recent =
     (let pnls = List.map_filter tv_pnl recent; wins = length (filter (\<lambda>p. p > 0) pnls)
      in if pnls \<noteq> [] then of_nat wins / of_nat (length pnls) else 0)"

definition strategy_metrics_of :: "datetime \<Rightarrow> api_world \<Rightarrow> strategy_view \<Rightarrow> py_error + strategy_metrics" where
  "strategy_metrics_of now w s =
     (let p24 = pnl_in_period (now - DAY_US) now (Some (sv_name s)) (aw_trading w);
          p7d = pnl_in_period (now - 7 * DAY_US) now (Some (sv_name s)) (aw_trading w)
      in bind_r (recent_trades 50 (Some (sv_name s)) w) (\<lambda>recent.
           Inr \<lparr>sm_name = sv_name s, sm_status = (if sv_paused s then ''paused'' else ''running''), sm_enabled = sv_enabled s,
                sm_paused = sv_paused s, sm_pnl_24h = pv_pnl p24, sm_pnl_7d = pv_pnl p7d, sm_n_trades_24h = pv_n_trades p24,
                sm_win_rate = win_rate_of recent\<rparr>))"

definition clock_text :: "real \<Rightarrow> string" where
  "clock_text ts =
     (let s = nat (\<lfloor>ts\<rfloor> mod 86400) in pad2 (s div 3600) @ '':'' @ pad2 (s div 60 mod 60) @ '':'' @ pad2 (s mod 60))"

definition trade_to_dict :: "trade_view \<Rightarrow> dash_line" where
  "trade_to_dict t =
     \<lparr>tl_t = clock_text (tv_ts_submit t), tl_strat = tv_strategy_id t,
      tl_side = (case tv_exit_price t of Some x \<Rightarrow> if x \<ge> tv_entry_price t then ''BUY'' else ''SELL'' | None \<Rightarrow> ''SELL''),
      tl_sym = tv_instrument_id t, tl_px = [FNum 4 (tv_entry_price t)],
      tl_pnl = (case tv_pnl t of Some x \<Rightarrow> x | None \<Rightarrow> 0)\<rparr>"

definition api_dashboard_overview :: "api_env \<Rightarrow> api_action" where
  "api_dashboard_overview env w =
     (let (st, w1) = status_payload env 0 w; now = ae_clock env 2
      in (answer OverviewOk
            (bind_r st (\<lambda>status. bind_r (map_r (strategy_metrics_of now w1) (st_strategies status)) (\<lambda>aug.
               bind_r (recent_trades 20 None w1) (\<lambda>recent_all.
               bind_r (list_backtests None 50 0 None w1) (\<lambda>rows. bind_r (map_r backtest_row_to_dict rows) (\<lambda>bts.
                 Inr \<lparr>ov_up = st_engine_up status, ov_kill_switch_active = st_kill_switch_active status,
                      ov_heartbeat_age_s = st_heartbeat_age_s status, ov_strategies = aug,
                      ov_pnl_24h = sum_list (map sm_pnl_24h aug), ov_pnl_7d = sum_list (map sm_pnl_7d aug),
                      ov_n_trades_24h = sum_list (map sm_n_trades_24h aug),
                      ov_recent_trades = map trade_to_dict recent_all, ov_backtests = bts\<rparr>)))))), w1))"

text \<open>The static files. \<open>ae_resolve\<close> is \<open>Path.resolve\<close> of a joined path, given and answered as the list of its parts.\<close>

definition DASHBOARD_DIR :: "string list" where
  "DASHBOARD_DIR = [''src'', ''trading'', ''api'', ''dashboard'']"

definition path_under :: "'a list \<Rightarrow> 'a list \<Rightarrow> bool" where
  "path_under p xs \<longleftrightarrow> take (length p) xs = p"

definition join_path :: "string list \<Rightarrow> string \<Rightarrow> string list" where
  "join_path base sub =
     (if take 1 sub = ''/'' then ''/'' # filter (\<lambda>c. c \<noteq> []) (split_at (CHR ''/'') sub)
      else base @ filter (\<lambda>c. c \<noteq> []) (split_at (CHR ''/'') sub))"

definition dashboard_static :: "api_env \<Rightarrow> string \<Rightarrow> api_action" where
  "dashboard_static env subpath w =
     (let root_dir = ae_resolve env DASHBOARD_DIR;
          index = (subpath = [] \<or> last subpath = CHR ''/'');
          target = (if index then root_dir @ [''index.html''] else ae_resolve env (join_path root_dir subpath))
      in if \<not> index \<and> \<not> path_under root_dir target then (HttpError 403 (ftext ''forbidden'') None, w)
         else if \<not> ae_is_file env target then (HttpError 404 (ftext ''not found'') None, w)
         else (FileContent target, w))"

section \<open>Pages\<close>

definition login_submit :: "api_env \<Rightarrow> string option \<Rightarrow> api_action" where
  "login_submit env form_token w =
     (let token = (case form_token of Some t \<Rightarrow> t | None \<Rightarrow> [])
      in if token \<noteq> ae_token env then (PageOk 401 LoginForm, w) else (SessionCookie token, w))"

definition research_index :: "api_env \<Rightarrow> string option \<Rightarrow> string option \<Rightarrow> api_action" where
  "research_index env strategy status w =
     (case list_backtests strategy 50 0 status w of
        Inl e \<Rightarrow> (Unhandled e, w)
      | Inr rows \<Rightarrow>
          (let (strategies, w1) = list_strategies env w
           in (answer (\<lambda>(bts, ss). PageOk 200 (IndexPage bts ss strategy status))
                 (bind_r strategies (\<lambda>ss. bind_r (map_r backtest_row_to_dict rows) (\<lambda>bts. Inr (bts, ss)))), w1)))"

definition research_new :: "api_env \<Rightarrow> api_action" where
  "research_new env w = (let (r, w1) = list_strategies env w in (answer (\<lambda>ss. PageOk 200 (NewRunPage ss)) r, w1))"

definition research_job :: "string \<Rightarrow> api_action" where
  "research_job job_id w =
     (answer (\<lambda>row. case row of None \<Rightarrow> PageOk 404 (TextPage ''job not found'') | Some r \<Rightarrow> PageOk 200 (JobPage r)) (get_job job_id w), w)"

definition research_detail :: "string \<Rightarrow> api_action" where
  "research_detail backtest_id w =
     (answer (\<lambda>row. case row of
          None \<Rightarrow> PageOk 404 (TextPage ''backtest not found'')
        | Some r \<Rightarrow> answer (\<lambda>(v, ts). PageOk 200 (DetailPage v ts))
            (bind_r (backtest_trades backtest_id 50 w) (\<lambda>ts. bind_r (backtest_row_to_dict r) (\<lambda>v. Inr (v, ts)))))
        (get_backtest backtest_id w), w)"

fun compared_runs :: "string list \<Rightarrow> api_world \<Rightarrow> py_error + backtest_view list" where
  "compared_runs [] w = Inr []"
| "compared_runs (b # bs) w =
     bind_r (get_backtest b w) (\<lambda>row. case row of
         None \<Rightarrow> compared_runs bs w
       | Some r \<Rightarrow> bind_r (backtest_row_to_dict r) (\<lambda>v. bind_r (compared_runs bs w) (\<lambda>vs. Inr (v # vs))))"

definition research_compare :: "string \<Rightarrow> api_action" where
  "research_compare ids w =
     (answer (\<lambda>runs. PageOk 200 (ComparePage runs)) (compared_runs (take 3 (filter (\<lambda>i. i \<noteq> []) (split_at (CHR '','') ids))) w), w)"

definition research_chat :: "api_env \<Rightarrow> string option \<Rightarrow> api_action" where
  "research_chat env session_id w =
     (let fresh = ''web-'' @ take 10 (hex_fixed 32 (ae_uuid env));
          sid = (case session_id of Some s \<Rightarrow> if s \<noteq> [] then s else fresh | None \<Rightarrow> fresh)
      in case list_backtests None 20 0 (Some ''completed'') w of
           Inl e \<Rightarrow> (Unhandled e, w)
         | Inr rows \<Rightarrow>
             (let (strategies, w1) = list_strategies env w
              in (answer (\<lambda>(ss, bts). PageOk 200 (ChatPage sid (map_of (ld_conversations (aw_llm w)) sid) bts ss
                     (sort (keys_of MODEL_PRICING)) (ls_default_model (ae_llm_settings env))))
                    (bind_r strategies (\<lambda>ss. bind_r (map_r backtest_row_to_dict rows) (\<lambda>bts. Inr (ss, bts)))), w1)))"

section \<open>The routes\<close>

datatype api_route =
    RListBacktests "string option" int int "string option"
  | RGetBacktest string
  | RBacktestTrades string int
  | RRunBacktest job_payload string
  | RGetJob string
  | RListStrategies
  | RPause string
  | RResume string
  | RStatus
  | RHealth
  | RPositions "string option"
  | RRecentTrades int "string option"
  | RPnl string "string option"
  | RRestartService string
  | RKillSwitchOn string
  | RKillSwitchOff
  | RChat chat_request
  | RChatReset string
  | ROverview

datatype page_route =
    PIndex "string option" "string option"
  | PNew
  | PJob string
  | PDetail string
  | PCompare string
  | PChat "string option"
  | PStatic string

datatype open_route = OMain | OLoginPage | OLoginSubmit "string option" | ODashboard

datatype route = Api api_route | Pg page_route | Open open_route

fun api_handler :: "api_env \<Rightarrow> http_request \<Rightarrow> api_route \<Rightarrow> api_action" where
  "api_handler env rq (RListBacktests s l k st) = api_list_backtests s l k st"
| "api_handler env rq (RGetBacktest b) = api_get_backtest b"
| "api_handler env rq (RBacktestTrades b l) = api_backtest_trades b l"
| "api_handler env rq (RRunBacktest p by_whom) = api_run_backtest env rq p by_whom"
| "api_handler env rq (RGetJob j) = api_get_job env j"
| "api_handler env rq RListStrategies = api_list_strategies env"
| "api_handler env rq (RPause n) = api_pause env n"
| "api_handler env rq (RResume n) = api_resume env n"
| "api_handler env rq RStatus = api_status env"
| "api_handler env rq RHealth = api_health env"
| "api_handler env rq (RPositions s) = api_positions s"
| "api_handler env rq (RRecentTrades n s) = api_recent_trades n s"
| "api_handler env rq (RPnl p s) = api_pnl env p s"
| "api_handler env rq (RRestartService n) = restart_service env n"
| "api_handler env rq (RKillSwitchOn c) = api_killswitch_on env c"
| "api_handler env rq RKillSwitchOff = api_killswitch_off env"
| "api_handler env rq (RChat q) = api_llm_chat env rq q"
| "api_handler env rq (RChatReset s) = api_llm_reset s"
| "api_handler env rq ROverview = api_dashboard_overview env"

fun page_handler :: "api_env \<Rightarrow> page_route \<Rightarrow> api_action" where
  "page_handler env (PIndex s st) = research_index env s st"
| "page_handler env PNew = research_new env"
| "page_handler env (PJob j) = research_job j"
| "page_handler env (PDetail b) = research_detail b"
| "page_handler env (PCompare ids) = research_compare ids"
| "page_handler env (PChat s) = research_chat env s"
| "page_handler env (PStatic p) = dashboard_static env p"

fun open_handler :: "api_env \<Rightarrow> open_route \<Rightarrow> api_action" where
  "open_handler env OMain w = (RedirectTo 302 ''/research'', w)"
| "open_handler env OLoginPage w = (PageOk 200 LoginForm, w)"
| "open_handler env (OLoginSubmit t) w = login_submit env t w"
| "open_handler env ODashboard w = (RedirectTo 308 ''/dashboard/'', w)"

fun serve :: "api_env \<Rightarrow> http_request \<Rightarrow> route \<Rightarrow> api_action" where
  "serve env rq (Api r) w = guarded (require_token env rq) (api_handler env rq r) w"
| "serve env rq (Pg p) w = guarded (cookie_auth_or_redirect env rq) (page_handler env p) w"
| "serve env rq (Open p) w = open_handler env p w"

section \<open>What a request can do\<close>

lemma guarded_cases: "guarded d h w = (case d of Some r \<Rightarrow> (r, w) | None \<Rightarrow> h w)"
  by (simp add: guarded_def)

lemma require_token_None: "require_token env rq = None \<longleftrightarrow> ae_token env \<noteq> [] \<and> presented_token rq = Some (ae_token env)"
  by (auto simp: require_token_def present_def)

lemma cookie_auth_None: "cookie_auth_or_redirect env rq = None \<longleftrightarrow> ae_token env \<noteq> [] \<and> hr_cookie_token rq = Some (ae_token env)"
  by (auto simp: cookie_auth_or_redirect_def present_def)

definition holds_token :: "api_env \<Rightarrow> http_request \<Rightarrow> bool" where
  "holds_token env rq \<longleftrightarrow> ae_token env \<noteq> [] \<and> (hr_header_token rq = Some (ae_token env) \<or> hr_cookie_token rq = Some (ae_token env))"

lemma no_token_denied:
  assumes "\<not> holds_token env rq"
  shows "require_token env rq \<noteq> None" "cookie_auth_or_redirect env rq \<noteq> None"
  using assms by (auto simp: require_token_None cookie_auth_None holds_token_def presented_token_def split: if_splits)

fun refusal :: "api_env \<Rightarrow> route \<Rightarrow> api_response \<Rightarrow> bool" where
  "refusal env (Api r) resp \<longleftrightarrow>
     resp = (if ae_token env = [] then HttpError 503 (ftext ''api_token not configured on server'') None
             else HttpError 401 (ftext ''invalid or missing X-TEA-Token'') None)"
| "refusal env (Pg p) resp \<longleftrightarrow> resp = RedirectTo 303 ''/login''"
| "refusal env (Open p) resp \<longleftrightarrow>
     resp \<in> {RedirectTo 302 ''/research'', RedirectTo 308 ''/dashboard/'', PageOk 200 LoginForm, PageOk 401 LoginForm, SessionCookie (ae_token env)}"

text \<open>C36. Nothing happens without the token. A request that carries the configured token neither in its header
  nor in its cookie, or any request while no token is configured, changes nothing in the world and is answered by the refusal of
  its route: an error for the JSON routes, the login page for the others; with the token in the header every JSON
  route is served, and with the token in the cookie every page. A header with another token is not rescued by the cookie.\<close>

theorem requests_need_the_token:
  "(\<not> holds_token env rq \<longrightarrow> snd (serve env rq rt w) = w \<and> refusal env rt (fst (serve env rq rt w))) \<and>
   (ae_token env \<noteq> [] \<and> hr_header_token rq = Some (ae_token env) \<longrightarrow> serve env rq (Api r) w = api_handler env rq r w) \<and>
   (ae_token env \<noteq> [] \<and> hr_cookie_token rq = Some (ae_token env) \<longrightarrow> serve env rq (Pg p) w = page_handler env p w) \<and>
   (present (hr_header_token rq) \<and> hr_header_token rq \<noteq> Some (ae_token env) \<longrightarrow> snd (serve env rq (Api r) w) = w)"
proof (intro conjI impI)
  assume no: "\<not> holds_token env rq"
  show "snd (serve env rq rt w) = w"
  proof (cases rt)
    case (Open p)
    then show ?thesis by (cases p) (simp_all add: login_submit_def Let_def)
  qed (use no_token_denied [OF no] in \<open>auto simp: guarded_cases\<close>)
  show "refusal env rt (fst (serve env rq rt w))"
  proof (cases rt)
    case (Open p)
    then show ?thesis by (cases p) (simp_all add: login_submit_def Let_def)
  next
    case (Api r)
    with no_token_denied(1) [OF no] show ?thesis by (auto simp: guarded_cases require_token_def split: if_splits)
  next
    case (Pg p)
    with no_token_denied(2) [OF no] show ?thesis by (auto simp: guarded_cases cookie_auth_or_redirect_def split: if_splits)
  qed
next
  assume "ae_token env \<noteq> [] \<and> hr_header_token rq = Some (ae_token env)"
  then have "require_token env rq = None" by (simp add: require_token_None presented_token_def present_def)
  then show "serve env rq (Api r) w = api_handler env rq r w" by (simp add: guarded_cases)
next
  assume "ae_token env \<noteq> [] \<and> hr_cookie_token rq = Some (ae_token env)"
  then have "cookie_auth_or_redirect env rq = None" by (simp add: cookie_auth_None)
  then show "serve env rq (Pg p) w = page_handler env p w" by (simp add: guarded_cases)
next
  assume "present (hr_header_token rq) \<and> hr_header_token rq \<noteq> Some (ae_token env)"
  then have "require_token env rq \<noteq> None" by (simp add: require_token_None presented_token_def)
  then show "snd (serve env rq (Api r) w) = w" by (auto simp: guarded_cases)
qed

text \<open>What the handlers leave alone. Listing the strategies touches the cache only.\<close>

lemma list_strategies_world: "snd (list_strategies env w) = w\<lparr>aw_toml_cache := snd (load_strategies_toml env DEFAULT_STRATEGIES_TOML (aw_toml_cache w))\<rparr>"
  by (simp add: list_strategies_def case_prod_beta Let_def)

lemma status_payload_world:
  "snd (status_payload env k w) = w \<or> snd (status_payload env k w) = snd (list_strategies env w)"
  by (simp add: status_payload_def case_prod_beta Let_def split: sum.split)

definition same_outside :: "api_world \<Rightarrow> api_world \<Rightarrow> bool" where
  "same_outside w w' \<longleftrightarrow>
     aw_exists w' = aw_exists w \<and> aw_state w' = aw_state w \<and> aw_published w' = aw_published w \<and> aw_docker w' = aw_docker w \<and>
     aw_trading w' = aw_trading w \<and> aw_jobs w' = aw_jobs w \<and> aw_tasks w' = aw_tasks w"

lemma same_outside_refl [simp]: "same_outside w w"
  by (simp add: same_outside_def)

lemma list_strategies_outside: "same_outside w (snd (list_strategies env w))"
  by (simp add: list_strategies_world same_outside_def)

lemma status_payload_outside: "same_outside w (snd (status_payload env k w))"
  using status_payload_world [of env k w] list_strategies_outside [of w env] by auto

lemmas reading_handlers = api_list_backtests_def api_get_backtest_def api_backtest_trades_def api_get_job_def api_list_strategies_def
  api_status_def api_health_def api_positions_def api_recent_trades_def api_pnl_def api_dashboard_overview_def
  research_index_def research_new_def research_job_def research_detail_def research_compare_def research_chat_def dashboard_static_def

fun acts :: "api_route \<Rightarrow> bool" where
  "acts (RRunBacktest p s) = True"
| "acts (RPause n) = True"
| "acts (RResume n) = True"
| "acts (RRestartService n) = True"
| "acts (RKillSwitchOn c) = True"
| "acts RKillSwitchOff = True"
| "acts _ = False"

lemma chat_outside: "same_outside w (snd (api_llm_chat env rq q w))"
  by (simp add: api_llm_chat_def same_outside_def split: prod.split sum.split)

lemma reading_api: "\<not> acts r \<Longrightarrow> same_outside w (snd (api_handler env rq r w))"
  using list_strategies_outside [of w env] status_payload_outside [of w env 0] chat_outside [of w env rq]
  by (cases r) (auto simp: reading_handlers api_llm_reset_def case_prod_beta Let_def same_outside_def split: option.split)

lemma reading_pages: "same_outside w (snd (page_handler env p w))"
  using list_strategies_outside [of w env]
  by (cases p) (auto simp: reading_handlers case_prod_beta Let_def split: option.split sum.split)

lemma reading_open: "snd (open_handler env p w) = w"
  by (cases p) (simp_all add: login_submit_def Let_def)

text \<open>So only an authorised acting route changes anything but the cache and the tables of the copilot.\<close>

lemma serve_outside:
  assumes "\<And>r. rt = Api r \<Longrightarrow> \<not> acts r \<or> require_token env rq \<noteq> None"
  shows "same_outside w (snd (serve env rq rt w))"
proof (cases rt)
  case (Api r)
  then show ?thesis using assms [OF Api] reading_api [of r w env rq] by (auto simp: guarded_cases split: option.split)
next
  case (Pg p)
  then show ?thesis using reading_pages [of w env p] by (auto simp: guarded_cases split: option.split)
next
  case (Open p)
  then show ?thesis by (simp add: reading_open)
qed

section \<open>The kill switch over any requests\<close>

fun serve_all :: "(api_env \<times> http_request \<times> route) list \<Rightarrow> api_world \<Rightarrow> api_world" where
  "serve_all [] w = w"
| "serve_all ((env, rq, rt) # rs) w = serve_all rs (snd (serve env rq rt w))"

definition arms :: "api_env \<times> http_request \<times> route \<Rightarrow> bool" where
  "arms = (\<lambda>(env, rq, rt). require_token env rq = None \<and> (case rt of Api (RKillSwitchOn c) \<Rightarrow> py_lower (py_strip c) = CONFIRM_PHRASE | _ \<Rightarrow> False))"

definition disarms :: "api_env \<times> http_request \<times> route \<Rightarrow> bool" where
  "disarms = (\<lambda>(env, rq, rt). require_token env rq = None \<and> rt = Api RKillSwitchOff)"

text \<open>The file of the API after some requests: as the last of them that armed or disarmed left it.\<close>

definition armed_after :: "(api_env \<times> http_request \<times> route) list \<Rightarrow> bool \<Rightarrow> bool" where
  "armed_after rs before = fold (\<lambda>r b. if arms r then True else if disarms r then False else b) rs before"

lemma serve_exists:
  "aw_exists (snd (serve env rq rt w)) =
     (if arms (env, rq, rt) then (aw_exists w)(KILL_SWITCH_API := True)
      else if disarms (env, rq, rt) then (aw_exists w)(KILL_SWITCH_API := False) else aw_exists w)"
proof -
  have plain: "(aw_exists w)(KILL_SWITCH_API := False) = aw_exists w" if "\<not> aw_exists w KILL_SWITCH_API" using that by (simp add: fun_upd_idem)
  show ?thesis
  proof (cases "\<exists>r. rt = Api r \<and> acts r \<and> require_token env rq = None")
    case True
    then obtain r where r: "rt = Api r" "acts r" "require_token env rq = None" by blast
    have docker_exists: "(\<And>code w. aw_exists (snd (k code w)) = aw_exists w) \<Longrightarrow> aw_exists (snd (docker env q k w)) = aw_exists w" for q k w
      by (simp add: docker_def Let_def split: sum.split)
    have "aw_exists (snd (restart_service env n w)) = aw_exists w" for n
      by (auto simp: restart_service_def docker_exists split: sum.split)
    with r plain show ?thesis
      by (cases r) (auto simp: guarded_cases arms_def disarms_def api_run_backtest_def create_job_def case_prod_beta api_pause_def
        api_resume_def publish_def set_strategy_pause_def api_killswitch_on_def api_killswitch_off_def Let_def)
  next
    case False
    then have nf: "rt = Api r \<Longrightarrow> require_token env rq = None \<Longrightarrow> \<not> acts r" for r by auto
    from False have "same_outside w (snd (serve env rq rt w))" by (intro serve_outside) auto
    moreover have "\<not> arms (env, rq, rt)" "\<not> disarms (env, rq, rt)"
      using nf [of "RKillSwitchOn _"] nf [of RKillSwitchOff]
      by (auto simp: arms_def disarms_def split: route.splits api_route.splits)
    ultimately show ?thesis by (simp add: same_outside_def)
  qed
qed

lemma serve_all_exists:
  "aw_exists (serve_all rs w) = (aw_exists w)(KILL_SWITCH_API := armed_after rs (aw_exists w KILL_SWITCH_API))"
proof (induction rs arbitrary: w)
  case (Cons r rs)
  obtain env rq rt where r: "r = (env, rq, rt)" by (cases r) auto
  show ?case using Cons [of "snd (serve env rq rt w)"] by (simp add: r serve_exists armed_after_def)
qed (simp add: armed_after_def)

lemma kill_switch_paths: "kill_switch_active = api_kill_switch_active"
  by (rule ext) (simp add: kill_switch_active_def api_kill_switch_active_def KILL_SWITCH_PATHS_def KILL_SWITCH_ETC_def KILL_SWITCH_API_def)

section \<open>Periods of the calendar\<close>

definition week_of :: "datetime \<Rightarrow> int" where
  "week_of t = (t div DAY_US + EPOCH_ORDINAL + 6) div 7"

fun same_period :: "string \<Rightarrow> datetime \<Rightarrow> datetime \<Rightarrow> bool" where
  "same_period p s t \<longleftrightarrow>
     (if p = ''today'' then date_of s = date_of t
      else if p = ''semana'' then week_of s = week_of t
      else d_year (date_of s) = d_year (date_of t) \<and> d_month (date_of s) = d_month (date_of t))"

declare same_period.simps [simp del]

lemma seven_div: "7 * q \<le> j \<and> j < 7 * q + 7 \<longleftrightarrow> j div 7 = q" for q j :: int
proof
  show "j div 7 = q" if "7 * q \<le> j \<and> j < 7 * q + 7"
    by (rule int_div_pos_eq [where r = "j - 7 * q"]) (use that in simp_all)
  show "7 * q \<le> j \<and> j < 7 * q + 7" if "j div 7 = q"
    using that mult_div_mod_eq [of 7 j] pos_mod_bound [of 7 j] pos_mod_sign [of 7 j] by linarith
qed

lemma replace_day_1: "t mod DAY_US = 0 \<Longrightarrow> replace_day 1 t = midnight (first_of (date_of t))"
  by (simp add: replace_day_def first_of_def)

lemma start_mod: "start_of_day t mod DAY_US = 0" "start_of_day t div DAY_US = t div DAY_US"
proof -
  have "start_of_day t = t div DAY_US * DAY_US" by (simp add: start_of_day_eq minus_mod_eq_div_mult)
  then show "start_of_day t mod DAY_US = 0" "start_of_day t div DAY_US = t div DAY_US" by (simp_all add: DAY_US_def)
qed

lemma midnight_mod [simp]: "midnight d mod DAY_US = 0"
  by (simp add: midnight_def)

lemma month_range:
  "period_range ''mes'' now = Some (midnight (first_of (date_of now)), midnight (next_month (date_of now)))"
proof -
  let ?d = "date_of now"
  have v: "valid_date ?d" by (rule valid_date_of)
  have since: "replace_day 1 (start_of_day now) = midnight (first_of ?d)"
    by (simp add: replace_day_1 start_mod date_of_start)
  have v1: "valid_date (first_of ?d)"
    unfolding first_of_def using month_days_range(1) [OF v] by (intro valid_day [OF v]) simp_all
  have dm: "date_of (midnight (first_of ?d)) = first_of ?d" using date_of_midnight [OF v1, of 0] by (simp add: DAY_US_def)
  have "replace_day 28 (midnight (first_of ?d)) = midnight (?d\<lparr>d_day := 28\<rparr>)"
    by (simp add: replace_day_def dm) (simp add: first_of_def)
  moreover have "midnight (?d\<lparr>d_day := 28\<rparr>) + 4 * DAY_US = midnight (ord2ymd (ymd2ord (?d\<lparr>d_day := 28\<rparr>) + 4))"
    by (simp add: midnight_def ymd2ord_ord2ymd algebra_simps)
  moreover have "date_of (midnight (ord2ymd k)) = ord2ymd k" for k
    using date_of_midnight [of "ord2ymd k" 0] ymd2ord_ord2ymd by (simp add: DAY_US_def)
  ultimately have "replace_day 1 (replace_day 28 (midnight (first_of ?d)) + 4 * DAY_US) = midnight (next_month ?d)"
    by (simp add: replace_day_1 four_days_after_28 [OF v])
  then show ?thesis by (simp add: period_range_def Let_def since)
qed

text \<open>C37. The range a profit is summed over is the calendar period of the request: a time lies in it exactly when it falls
  on the same day, in the same week from Monday to Sunday, or in the same month of the same year as the clock of the server,
  which itself always lies in it; any other name of a period is refused and nothing is summed.\<close>

theorem period_is_calendar_period:
  "(case period_range p now of
      Some (since, until) \<Rightarrow> (since \<le> t \<and> t < until \<longleftrightarrow> same_period p t now) \<and> since \<le> now \<and> now < until
    | None \<Rightarrow> True) \<and>
   (period_range p now = None \<longleftrightarrow> p \<notin> {''today'', ''semana'', ''mes''})"
proof -
  have day: "x * DAY_US \<le> s \<longleftrightarrow> x \<le> s div DAY_US" for x s
    using midnight_le_iff [of "ord2ymd (x + EPOCH_ORDINAL)" s] by (simp add: midnight_def ymd2ord_ord2ymd date_of_def)
  have today: "start_of_day now = now div DAY_US * DAY_US" by (simp add: start_of_day_eq minus_mod_eq_div_mult)
  let ?n = "now div DAY_US"
  have rng: "a * DAY_US \<le> s \<and> s < b * DAY_US \<longleftrightarrow> a \<le> s div DAY_US \<and> s div DAY_US < b" for a b s
    using day [of a s] day [of b s] by linarith
  have d: "start_of_day now \<le> s \<and> s < start_of_day now + DAY_US \<longleftrightarrow> same_period ''today'' s now" for s
    using rng [of ?n s "?n + 1"] by (auto simp: today algebra_simps same_period.simps date_of_eq_iff)
  have w: "start_of_day now - weekday (start_of_day now) * DAY_US \<le> s \<and> s < start_of_day now - weekday (start_of_day now) * DAY_US + 7 * DAY_US
      \<longleftrightarrow> same_period ''semana'' s now" for s
  proof -
    define k where "k = ?n + EPOCH_ORDINAL + 6"
    have wd: "weekday (start_of_day now) = k mod 7" by (simp add: weekday_def start_mod k_def)
    have eq: "start_of_day now - k mod 7 * DAY_US = (?n - k mod 7) * DAY_US"
      "(?n - k mod 7) * DAY_US + 7 * DAY_US = (?n - k mod 7 + 7) * DAY_US" by (simp_all add: today algebra_simps)
    have "?n - k mod 7 \<le> m \<and> m < ?n - k mod 7 + 7 \<longleftrightarrow> (m + EPOCH_ORDINAL + 6) div 7 = k div 7" for m
    proof -
      define j where "j = m + EPOCH_ORDINAL + 6"
      have "?n = k - EPOCH_ORDINAL - 6" by (simp add: k_def)
      then have "?n - k mod 7 = 7 * (k div 7) - EPOCH_ORDINAL - 6" using mult_div_mod_eq [of 7 k] by linarith
      then have "?n - k mod 7 \<le> m \<and> m < ?n - k mod 7 + 7 \<longleftrightarrow> 7 * (k div 7) \<le> j \<and> j < 7 * (k div 7) + 7"
        by (auto simp: j_def)
      also have "\<dots> \<longleftrightarrow> j div 7 = k div 7" by (rule seven_div)
      finally show ?thesis by (simp add: j_def)
    qed
    then show ?thesis unfolding wd eq rng by (simp add: same_period.simps week_of_def k_def)
  qed
  have m: "midnight (first_of (date_of now)) \<le> s \<and> s < midnight (next_month (date_of now)) \<longleftrightarrow> same_period ''mes'' s now" for s
    using in_month_iff [OF valid_date_of valid_date_of, of now s]
    by (auto simp: midnight_le_iff not_le [symmetric] same_period.simps)
  have self: "same_period p now now" by (simp add: same_period.simps)
  consider "p = ''today''" | "p = ''semana''" | "p = ''mes''" | "p \<notin> {''today'', ''semana'', ''mes''}" by auto
  then show ?thesis
  proof cases
    case 1
    with d [of t] d [of now] self show ?thesis by (simp add: period_range_def Let_def)
  next
    case 2
    with w [of t] w [of now] self show ?thesis by (simp add: period_range_def Let_def)
  next
    case 3
    with m [of t] m [of now] self show ?thesis by (simp add: month_range)
  qed (simp add: period_range_def Let_def)
qed

section \<open>The profits of the last day\<close>

lemma sum_profits:
  "list_all (\<lambda>f. if is_settle f then meta_num ''pnl'' f \<noteq> None else meta_num ''pnl'' f = None) fs \<Longrightarrow>
   sum_list (List.map_filter (meta_num ''pnl'') fs) = settled_pnl fs"
proof (induction fs)
  case (Cons f fs)
  then show ?case
    by (cases "meta_num ''pnl'' f")
      (auto simp: map_filter_simps settled_pnl_def is_settle_def meta_num_def split: option.splits jval.splits if_splits)
qed (simp add: settled_pnl_def map_filter_simps)

lemma count_settles: "length (filter is_settle fs) = count_kind ''settle'' fs"
  by (simp add: count_kind_def is_settle_def [abs_def])

text \<open>C38. The figures of the last day that the dashboard shows for a strategy are those its driver reconciles its own ledger
  with. When no fill is dated in the future and the settlements are the fills that carry a profit, the profit and the number of settlements that the query of the API sums over the last
  twenty-four hours are the ones the driver reads from the same tables. A reconciliation that looks at them, with the database up and a trade of the
  day in the ledger or an entry in the tables, stays silent exactly when the ledger agrees with the dashboard to within a dollar and the open positions with the
  tables to within one; without the database, or with nothing traded, it is silent whatever the ledger says.\<close>

theorem dashboard_agrees_with_reconciliation:
  assumes settled: "list_all (\<lambda>f. (is_settle f \<longrightarrow> meta_num ''pnl'' f \<noteq> None) \<and> (\<not> is_settle f \<longrightarrow> meta_num ''pnl'' f = None)) (fills_tbl (pd_db d))"
    and past: "list_all (\<lambda>f. fr_ts f < seconds_of now) (fills_tbl (pd_db d))"
    and name: "sg_name (pd_strategy d) \<noteq> []"
    and p: "p = pnl_in_period (now - DAY_US) now (Some (sg_name (pd_strategy d))) (pd_db d)"
    and fs: "fs = joined_fills (sg_name (pd_strategy d)) (seconds_of now) (pd_db d)"
  shows "pv_pnl p = settled_pnl fs \<and> pv_n_trades p = count_kind ''settle'' fs \<and>
    (if db_up (pd_db d) \<and> (pd_daily_trades d \<noteq> 0 \<or> count_kind ''entry'' fs \<noteq> 0)
     then reconciliation_step (seconds_of now) d = d \<longleftrightarrow>
       \<bar>pv_pnl p - pd_daily_pnl d\<bar> \<le> 1 \<and>
       \<bar>int (count_kind ''entry'' fs) - int (pv_n_trades p) - int (length (pd_open_positions d))\<bar> \<le> 1
     else reconciliation_step (seconds_of now) d = d)"
proof -
  let ?s = "sg_name (pd_strategy d)" and ?db = "pd_db d"
  have secs: "seconds_of (now - DAY_US) = seconds_of now - 86400" by (simp add: seconds_of_def DAY_US_def)
  have "filter (\<lambda>f. fr_mode f = ''paper'' \<and> seconds_of now - 86400 \<le> fr_ts f \<and> fr_ts f < seconds_of now) (fills_tbl ?db) =
      filter (\<lambda>f. fr_mode f = ''paper'' \<and> fr_ts f \<ge> seconds_of now - 86400) (fills_tbl ?db)"
    using past by (intro filter_cong) (auto simp: list_all_iff)
  then have fills: "period_fills (seconds_of (now - DAY_US)) (seconds_of now) (Some ?s) ?db = fs"
    using name by (simp add: fs period_fills_def joined_fills_def secs chosen_def)
  have "set fs \<subseteq> set (fills_tbl ?db)" by (auto simp: fs joined_fills_def)
  then have "list_all (\<lambda>f. if is_settle f then meta_num ''pnl'' f \<noteq> None else meta_num ''pnl'' f = None) fs"
    using settled unfolding list_all_iff by auto
  from sum_profits [OF this] have eq: "pv_pnl p = settled_pnl fs" "pv_n_trades p = count_kind ''settle'' fs"
    unfolding p pnl_in_period_def fills by (simp_all add: Let_def count_settles)
  have "pd_sent (send m d) \<noteq> pd_sent d" for m by (simp add: send_def)
  then have "send m d \<noteq> d" for m by metis
  then show ?thesis unfolding eq by (auto simp: reconciliation_step_def fs Let_def)
qed

section \<open>The cache of the strategies file\<close>

text \<open>A history of requests in which the modification time tells the contents.\<close>

definition file_at :: "(string \<Rightarrow> real \<Rightarrow> py_error + json) \<Rightarrow> string \<Rightarrow> api_env \<Rightarrow> bool" where
  "file_at contents path env \<longleftrightarrow>
     (case ae_mtime env path of Inl e \<Rightarrow> True | Inr m \<Rightarrow> ae_parse_toml env path = contents path m)"

definition cache_true :: "(string \<Rightarrow> real \<Rightarrow> py_error + json) \<Rightarrow> toml_cache \<Rightarrow> bool" where
  "cache_true contents cache \<longleftrightarrow> (\<forall>path m c. map_of cache path = Some (m, c) \<longrightarrow> contents path m = Inr c)"

definition read_fresh :: "api_env \<Rightarrow> string \<Rightarrow> py_error + json" where
  "read_fresh env path = bind_r (ae_mtime env path) (\<lambda>m. ae_parse_toml env path)"

lemma load_true:
  assumes "cache_true contents cache" "file_at contents path env"
  shows "fst (load_strategies_toml env path cache) = read_fresh env path" "cache_true contents (snd (load_strategies_toml env path cache))"
  using assms
  by (auto simp: load_strategies_toml_def read_fresh_def file_at_def cache_true_def update_conv' split: sum.splits option.splits if_splits)

fun loads :: "(api_env \<times> string) list \<Rightarrow> toml_cache \<Rightarrow> (py_error + json) list" where
  "loads [] cache = []"
| "loads ((env, path) # es) cache = (let (r, cache') = load_strategies_toml env path cache in r # loads es cache')"

lemma loads_true:
  "cache_true contents cache \<Longrightarrow> list_all (\<lambda>(env, path). file_at contents path env) es \<Longrightarrow>
   loads es cache = map (\<lambda>(env, path). read_fresh env path) es"
proof (induction es arbitrary: cache)
  case (Cons e es)
  obtain env path where e: "e = (env, path)" by (cases e) auto
  from Cons.prems have "file_at contents path env" by (simp add: e)
  note t = load_true [OF Cons.prems(1) this]
  show ?case using t(1) Cons.IH [OF t(2)] Cons.prems(2) by (simp add: e case_prod_beta Let_def)
qed simp

text \<open>The cache of the strategies file is invisible. In any sequence of requests during which a modification
  time belongs to one text of the file, every reading gives what reading and parsing the file at that moment would give, errors
  included: a failed parse is not cached and an edit is seen by the next request.\<close>

theorem toml_cache_is_transparent:
  assumes "list_all (\<lambda>(env, path). file_at contents path env) es"
  shows "loads es [] = map (\<lambda>(env, path). read_fresh env path) es"
  using assms by (intro loads_true) (simp_all add: cache_true_def)

section \<open>Restarts\<close>

definition restart_of :: "api_env \<Rightarrow> http_request \<Rightarrow> route \<Rightarrow> string \<Rightarrow> string \<Rightarrow> bool" where
  "restart_of env rq rt alias container \<longleftrightarrow>
     (\<exists>name. rt = Api (RRestartService name) \<and> alias = py_lower (py_strip name)) \<and> require_token env rq = None \<and>
     ae_restart_enabled env \<and> map_of (service_aliases (ae_service_map env)) alias = Some container"

lemma restart_service_cases:
  "restart_service env name w =
     (if \<not> ae_restart_enabled env
      then (HttpError 503 (ftext ''service restart is disabled; set TEA_DOCKER_RESTART_ENABLED=true to enable it'') None, w)
      else (case resolve_service (ae_service_map env) name of
          Inl r \<Rightarrow> (r, w)
        | Inr (requested, container) \<Rightarrow>
            (let w1 = w\<lparr>aw_docker := aw_docker w @ [DockerInspect container]\<rparr>;
                 w2 = w\<lparr>aw_docker := aw_docker w @ [DockerInspect container, DockerRestart container 10]\<rparr>
             in case ae_docker env (DockerInspect container) of
               Inl e \<Rightarrow> (Unhandled e, w1)
             | Inr code \<Rightarrow>
                 if code = 404 then (gone container '' not found on Docker host'', w1)
                 else if code \<ge> 400 then (HttpError 502 [FTxt ''docker inspect failed with status '', FInt code] None, w1)
                 else (case ae_docker env (DockerRestart container 10) of
                     Inl e \<Rightarrow> (Unhandled e, w2)
                   | Inr code2 \<Rightarrow>
                       if code2 = 204 then (RestartOk requested container (ae_clock env 0), w2)
                       else if code2 = 404 then (gone container '' disappeared before restart'', w2)
                       else (HttpError 502 [FTxt ''docker restart failed with status '', FInt code2] None, w2)))))"
  by (simp add: restart_service_def docker_def Let_def split: sum.split)

text \<open>A container is restarted only on purpose. A request reaches the Docker daemon only when it is a restart with the token, restarts
  are switched on and the service is in the configured map; it then inspects the container of the map and restarts it
  after an inspection that succeeded, and success is reported exactly when the daemon confirmed the restart.\<close>

theorem restarts_are_configured:
  assumes "(resp, w') = serve env rq rt w"
  shows "(aw_docker w' = aw_docker w \<or>
      (\<exists>alias container. restart_of env rq rt alias container \<and>
         (aw_docker w' = aw_docker w @ [DockerInspect container] \<or>
          (\<exists>code < 400. ae_docker env (DockerInspect container) = Inr code \<and>
             aw_docker w' = aw_docker w @ [DockerInspect container, DockerRestart container 10])))) \<and>
    (rt = Api (RRestartService name) \<and> resp = RestartOk alias container time \<longrightarrow>
       restart_of env rq rt alias container \<and> ae_docker env (DockerRestart container 10) = Inr 204 \<and>
       aw_docker w' = aw_docker w @ [DockerInspect container, DockerRestart container 10])"
proof (cases "\<exists>n. rt = Api (RRestartService n) \<and> require_token env rq = None")
  case True
  then obtain n where n: "rt = Api (RRestartService n)" "require_token env rq = None" by blast
  then have eq: "(resp, w') = restart_service env n w" using assms by (simp add: guarded_cases)
  have ro: "restart_of env rq rt a c \<longleftrightarrow> a = py_lower (py_strip n) \<and> ae_restart_enabled env \<and> map_of (service_aliases (ae_service_map env)) a = Some c" for a c
    using n by (auto simp: restart_of_def)
  show ?thesis
    using eq unfolding restart_service_cases ro resolve_service_def gone_def Let_def
    by (auto split: if_splits sum.splits option.splits)
next
  case False
  have "aw_docker w' = aw_docker w"
  proof (cases "\<exists>r. rt = Api r \<and> acts r \<and> require_token env rq = None")
    case True
    then obtain r where r: "rt = Api r" "acts r" "require_token env rq = None" by blast
    have w': "w' = snd (api_handler env rq r w)" using assms r by (simp add: guarded_cases) (metis snd_conv)
    from r False show ?thesis unfolding w'
      by (cases r) (auto simp: api_run_backtest_def create_job_def case_prod_beta api_pause_def api_resume_def publish_def
        set_strategy_pause_def api_killswitch_on_def api_killswitch_off_def Let_def)
  next
    case False
    then have "same_outside w (snd (serve env rq rt w))" by (intro serve_outside) auto
    then show ?thesis using assms by (simp add: same_outside_def) (metis snd_conv)
  qed
  moreover have "resp \<noteq> RestartOk alias container time" if "rt = Api (RRestartService name)"
    using that False assms by (auto simp: guarded_cases require_token_def split: if_splits)
  ultimately show ?thesis by simp
qed

section \<open>The order of the routes\<close>

text \<open>Method, path and handler of the routes, in the order their decorators register them.\<close>

definition ROUTES :: "(string \<times> string \<times> string) list" where
  "ROUTES =
     [(''GET'', ''/api/v1/backtests'', ''api_list_backtests''), (''GET'', ''/api/v1/backtests/{backtest_id}'', ''api_get_backtest''),
      (''GET'', ''/api/v1/backtests/{backtest_id}/trades'', ''api_backtest_trades''), (''POST'', ''/api/v1/backtests'', ''api_run_backtest''),
      (''GET'', ''/api/v1/jobs/{job_id}'', ''api_get_job''), (''GET'', ''/api/v1/strategies'', ''api_list_strategies''),
      (''POST'', ''/api/v1/strategies/{name}/pause'', ''api_pause''), (''POST'', ''/api/v1/strategies/{name}/resume'', ''api_resume''),
      (''GET'', ''/api/v1/status'', ''api_status''), (''GET'', ''/api/v1/health'', ''api_health''), (''GET'', ''/health'', ''api_health''),
      (''GET'', ''/api/v1/positions'', ''api_positions''), (''GET'', ''/api/v1/trades/recent'', ''api_recent_trades''),
      (''GET'', ''/trades/recent'', ''api_recent_trades_compat''), (''GET'', ''/api/v1/pnl'', ''api_pnl''),
      (''GET'', ''/api/v1/metrics/pnl'', ''api_pnl_metrics''), (''GET'', ''/metrics/pnl'', ''api_pnl_metrics''),
      (''POST'', ''/api/v1/system/restart'', ''api_restart_service''), (''POST'', ''/system/restart'', ''api_restart_service''),
      (''POST'', ''/api/v1/killswitch'', ''api_killswitch_on''), (''POST'', ''/api/v1/killswitch_off'', ''api_killswitch_off''),
      (''POST'', ''/api/v1/llm/chat'', ''api_llm_chat''), (''POST'', ''/api/v1/llm/reset'', ''api_llm_reset''),
      (''GET'', ''/'', ''root''), (''GET'', ''/login'', ''login_page''), (''POST'', ''/login'', ''login_submit''),
      (''GET'', ''/research'', ''research_index''), (''GET'', ''/research/new'', ''research_new''),
      (''GET'', ''/research/jobs/{job_id}'', ''research_job''), (''GET'', ''/research/{backtest_id}'', ''research_detail''),
      (''GET'', ''/research-compare'', ''research_compare''), (''GET'', ''/research/chat'', ''research_chat''),
      (''GET'', ''/api/v1/dashboard/overview'', ''api_dashboard_overview''), (''GET'', ''/dashboard'', ''dashboard_root''),
      (''GET'', ''/dashboard/{subpath:path}'', ''dashboard_static''), (''GET'', ''/dashboard/'', ''dashboard_static'')]"

text \<open>A path template matches a path segment by segment; a segment in braces stands for any segment that is not empty.\<close>

fun segments_match :: "string list \<Rightarrow> string list \<Rightarrow> bool" where
  "segments_match [] [] = True"
| "segments_match (p # ps) (s # ss) = ((if take 1 p = ''{'' then s \<noteq> [] else p = s) \<and> segments_match ps ss)"
| "segments_match _ _ = False"

definition template_matches :: "string \<Rightarrow> string \<Rightarrow> bool" where
  "template_matches template path = segments_match (split_at (CHR ''/'') template) (split_at (CHR ''/'') path)"

text \<open>What the router of the framework documents: the first route of the method whose path matches is taken.\<close>

definition first_match_router :: "((string \<times> string \<times> string) list \<Rightarrow> string \<Rightarrow> string \<Rightarrow> string option) \<Rightarrow> bool" where
  "first_match_router router \<longleftrightarrow>
     (\<forall>routes method path.
        list_all (\<lambda>(m, t, h). t \<noteq> ''/dashboard/{subpath:path}'') routes \<longrightarrow>
        router routes method path = map_option (\<lambda>(m, t, h). h) (find (\<lambda>(m, t, h). m = method \<and> template_matches t path) routes))"

definition page_routes :: "(string \<times> string \<times> string) list" where
  "page_routes = filter (\<lambda>(m, t, h). t \<noteq> ''/dashboard/{subpath:path}'') ROUTES"

text \<open>The chat page cannot be reached. The route of a single backtest is registered before it and matches its path,
  so a request for the chat page is served as the backtest with the identifier chat, which is not an identifier: with the
  cookie it ends in an uncaught error, without it in the login page.\<close>

theorem chat_page_is_shadowed:
  assumes "first_match_router router"
  shows "router page_routes ''GET'' ''/research/chat'' = Some ''research_detail'' \<and>
    router page_routes ''GET'' ''/research/new'' = Some ''research_new'' \<and>
    fst (serve env rq (Pg (PDetail ''chat'')) w) \<in> {Unhandled (ValueError ''badly formed hexadecimal UUID string''), RedirectTo 303 ''/login''}"
proof -
  have all: "list_all (\<lambda>(m, t, h). t \<noteq> ''/dashboard/{subpath:path}'') page_routes" by (auto simp: page_routes_def list_all_iff)
  have find1: "find (\<lambda>(m, t, h). m = ''GET'' \<and> template_matches t ''/research/chat'') page_routes = Some (''GET'', ''/research/{backtest_id}'', ''research_detail'')"
    by code_simp
  have find2: "find (\<lambda>(m, t, h). m = ''GET'' \<and> template_matches t ''/research/new'') page_routes = Some (''GET'', ''/research/new'', ''research_new'')"
    by code_simp
  have "uuid_of ''chat'' = None" by code_simp
  then have "fst (research_detail ''chat'' w) = Unhandled (ValueError ''badly formed hexadecimal UUID string'')"
    by (simp add: research_detail_def get_backtest_def uuid_arg_def answer_def)
  then have "fst (serve env rq (Pg (PDetail ''chat'')) w) \<in> {Unhandled (ValueError ''badly formed hexadecimal UUID string''), RedirectTo 303 ''/login''}"
    by (simp add: guarded_cases cookie_auth_or_redirect_def)
  moreover have "router page_routes ''GET'' ''/research/chat'' = Some ''research_detail''" "router page_routes ''GET'' ''/research/new'' = Some ''research_new''"
    using assms all find1 find2 unfolding first_match_router_def by simp_all
  ultimately show ?thesis by simp
qed

section \<open>Worked instances\<close>

definition ex_api_env :: api_env where
  "ex_api_env =
     \<lparr>ae_token = ''t'', ae_restart_enabled = True, ae_service_map = ''api=tea-api, Engine = tea-engine ,bad,=x'',
      ae_clock = (\<lambda>k. 1776000000000000 + int k), ae_uuid = 255, ae_mtime = (\<lambda>p. Inr 5),
      ae_parse_toml = (\<lambda>p. Inr (JsObj [(''strategies'', JsObj [(''s'', JsObj [(''enabled'', JsBool True)])])])),
      ae_heartbeat = Some (JsObj [(''ts'', JsInt 1775999990)]),
      ae_docker = (\<lambda>q. case q of DockerInspect c \<Rightarrow> Inr 200 | DockerRestart c t \<Rightarrow> Inr 204),
      ae_accepts = (\<lambda>ty v. case v of PyUuid u \<Rightarrow> False | _ \<Rightarrow> True),
      ae_text_env = ex_text_env, ae_sha256_hex = (\<lambda>s. s), ae_provider = ex_provider, ae_llm_settings = ex_llm_settings,
      ae_contexts = (\<lambda>r. []), ae_resolve = (\<lambda>p. p), ae_is_file = (\<lambda>p. True)\<rparr>"

definition ex_world :: api_world where
  "ex_world =
     \<lparr>aw_backtests = [], aw_bt_trades = [], aw_jobs = [], aw_state = [], aw_trading = empty_db, aw_positions = [], aw_toml_cache = [],
      aw_exists = (\<lambda>p. False), aw_published = [], aw_tasks = [], aw_docker = [], aw_llm = empty_llm_db\<rparr>"

definition ex_rq :: "string \<Rightarrow> http_request" where
  "ex_rq token = \<lparr>hr_header_token = Some token, hr_cookie_token = Some ''t'', hr_client_host = None\<rparr>"

theorem requests_need_the_token_witness:
  "snd (serve (ex_api_env\<lparr>ae_token := []\<rparr>) (ex_rq []) (Api RKillSwitchOff) ex_world) = ex_world \<and>
   refusal (ex_api_env\<lparr>ae_token := []\<rparr>) (Api RKillSwitchOff) (fst (serve (ex_api_env\<lparr>ae_token := []\<rparr>) (ex_rq []) (Api RKillSwitchOff) ex_world)) \<and>
   serve ex_api_env (ex_rq ''t'') (Api RKillSwitchOff) ex_world = api_killswitch_off ex_api_env ex_world \<and>
   serve ex_api_env (ex_rq ''t'') (Pg PNew) ex_world = research_new ex_api_env ex_world \<and>
   snd (serve ex_api_env (ex_rq ''x'') (Api RKillSwitchOff) ex_world) = ex_world"
  using requests_need_the_token [of "ex_api_env\<lparr>ae_token := []\<rparr>" "ex_rq []" "Api RKillSwitchOff" ex_world RStatus PNew]
    requests_need_the_token [of ex_api_env "ex_rq ''t''" "Api RStatus" ex_world RKillSwitchOff PNew]
    requests_need_the_token [of ex_api_env "ex_rq ''x''" "Api RStatus" ex_world RKillSwitchOff PNew]
  by (simp add: holds_token_def ex_api_env_def ex_rq_def present_def del: serve.simps refusal.simps)

definition ex_arm :: "(api_env \<times> http_request \<times> route) list" where
  "ex_arm = [(ex_api_env, ex_rq ''t'', Api (RKillSwitchOn CONFIRM_PHRASE)), (ex_api_env, ex_rq ''x'', Api RKillSwitchOff)]"

lemma ex_phrase: "py_lower (py_strip CONFIRM_PHRASE) = CONFIRM_PHRASE"
  by code_simp

definition ex_day_db :: trading_db where
  "ex_day_db =
     (let f = (\<lambda>i k m. \<lparr>fr_fill_id = i, fr_order_id = ''o'', fr_ts = 1000, fr_price = 1, fr_qty = 10, fr_liquidity_side = ''TAKER'', fr_fee = 0,
            fr_fee_currency = ''USDC'', fr_mode = ''paper'', fr_backtest_id = None, fr_metadata = (''kind'', JStr k) # m\<rparr>)
      in \<lparr>orders_tbl = [\<lparr>or_order_id = ''o'', or_strategy_id = ''always_up'', or_instrument_id = ''m'', or_side = ''YES_UP'', or_order_type = ''MARKET'',
            or_qty = 10, or_price = 1 / 2, or_status = ''FILLED'', or_ts_submit = 900, or_ts_last_update = 900, or_mode = ''paper'',
            or_backtest_id = None, or_metadata = []\<rparr>],
          fills_tbl = [f ''e'' ''entry'' [], f ''x'' ''settle'' [(''pnl'', JNum 3)]], db_up = True, fills_up = True\<rparr>)"

definition ex_day_driver :: "unit paper_driver" where
  "ex_day_driver = ex_driver\<lparr>pd_db := ex_day_db, pd_daily_pnl := 3, pd_daily_trades := 1\<rparr>"

theorem dashboard_agrees_with_reconciliation_witness:
  "pv_pnl (pnl_in_period (2000000000 - DAY_US) 2000000000 (Some (sg_name (pd_strategy ex_day_driver))) ex_day_db) =
     settled_pnl (joined_fills (sg_name (pd_strategy ex_day_driver)) 2000 ex_day_db) \<and>
   reconciliation_step 2000 ex_day_driver = ex_day_driver"
proof -
  have name: "sg_name (pd_strategy ex_day_driver) = ''always_up''"
    by (simp add: ex_day_driver_def ex_driver_def new_paper_driver_def ex_strategy_def)
  have d: "pd_db ex_day_driver = ex_day_db" "pd_daily_trades ex_day_driver = 1" "pd_daily_pnl ex_day_driver = 3" "pd_open_positions ex_day_driver = []"
    by (simp_all add: ex_day_driver_def ex_driver_def new_paper_driver_def)
  have s: "seconds_of 2000000000 = 2000" by (simp add: seconds_of_def)
  have ok: "list_all (\<lambda>f. (is_settle f \<longrightarrow> meta_num ''pnl'' f \<noteq> None) \<and> (\<not> is_settle f \<longrightarrow> meta_num ''pnl'' f = None)) (fills_tbl ex_day_db)"
    by (simp add: ex_day_db_def is_settle_def fill_kind_def meta_num_def)
  have past: "list_all (\<lambda>f. fr_ts f < seconds_of 2000000000) (fills_tbl ex_day_db)"
    by (simp add: ex_day_db_def s)
  have figures: "settled_pnl (joined_fills ''always_up'' 2000 ex_day_db) = 3" "count_kind ''entry'' (joined_fills ''always_up'' 2000 ex_day_db) = 1"
    "count_kind ''settle'' (joined_fills ''always_up'' 2000 ex_day_db) = 1"
    by (simp_all add: joined_fills_def ex_day_db_def settled_pnl_def count_kind_def fill_kind_def)
  have up: "db_up ex_day_db" by (simp add: ex_day_db_def)
  show ?thesis
    using dashboard_agrees_with_reconciliation [where d = ex_day_driver and now = 2000000000, unfolded name d s, OF ok past [unfolded s] _ refl refl] up
    by (simp add: figures name)
qed

theorem toml_cache_is_transparent_witness:
  "loads [(ex_api_env, ''p''), (ex_api_env, ''p'')] [] =
     [Inr (JsObj [(''strategies'', JsObj [(''s'', JsObj [(''enabled'', JsBool True)])])]),
      Inr (JsObj [(''strategies'', JsObj [(''s'', JsObj [(''enabled'', JsBool True)])])])]"
  using toml_cache_is_transparent [of "\<lambda>p m. ae_parse_toml ex_api_env p" "[(ex_api_env, ''p''), (ex_api_env, ''p'')]"]
  by (simp add: file_at_def read_fresh_def ex_api_env_def)

theorem restarts_are_configured_witness:
  "restart_of ex_api_env (ex_rq ''t'') (Api (RRestartService '' ENGINE '')) ''engine'' ''tea-engine'' \<and>
   aw_docker (snd (serve ex_api_env (ex_rq ''t'') (Api (RRestartService '' ENGINE '')) ex_world)) =
     [DockerInspect ''tea-engine'', DockerRestart ''tea-engine'' 10]"
proof -
  have ok: "require_token ex_api_env (ex_rq ''t'') = None"
    by (simp add: require_token_None) (simp add: ex_api_env_def ex_rq_def presented_token_def present_def)
  have res: "resolve_service (ae_service_map ex_api_env) '' ENGINE '' = Inr (''engine'', ''tea-engine'')" by code_simp
  have resp: "fst (serve ex_api_env (ex_rq ''t'') (Api (RRestartService '' ENGINE '')) ex_world) = RestartOk ''engine'' ''tea-engine'' 1776000000000000"
    using ok by (simp add: guarded_cases restart_service_cases res) (simp add: ex_api_env_def)
  show ?thesis
    using restarts_are_configured [OF prod.collapse, of ex_api_env "ex_rq ''t''" "Api (RRestartService '' ENGINE '')" ex_world
        "'' ENGINE ''" "''engine''" "''tea-engine''" 1776000000000000] resp
    by (simp add: ex_world_def del: serve.simps)
qed

definition ex_router :: "(string \<times> string \<times> string) list \<Rightarrow> string \<Rightarrow> string \<Rightarrow> string option" where
  "ex_router routes method path = map_option (\<lambda>(m, t, h). h) (find (\<lambda>(m, t, h). m = method \<and> template_matches t path) routes)"

theorem chat_page_is_shadowed_witness:
  "ex_router page_routes ''GET'' ''/research/chat'' = Some ''research_detail'' \<and>
   fst (serve ex_api_env (ex_rq ''t'') (Pg (PDetail ''chat'')) ex_world) \<in>
     {Unhandled (ValueError ''badly formed hexadecimal UUID string''), RedirectTo 303 ''/login''}"
  using chat_page_is_shadowed [of ex_router ex_api_env "ex_rq ''t''" ex_world]
  by (simp add: first_match_router_def ex_router_def del: serve.simps)

end
