(* ===== verification/Job_Worker.thy ===== *)
theory Job_Worker
  imports Api
begin

text \<open>
  \<open>api/worker.py\<close>: the backtest jobs of the API from their submission to their end, and the follow-up of the telegram bot
  that waits for one (\<open>_followup_backtest\<close> of \<open>bots/telegram/commands.py\<close>). A job is a row of the table \<open>aw_jobs\<close>;
  \<open>start_job\<close> and \<open>finish_job\<close> are the two updates of \<open>run_job\<close> around the child process, between which other requests and jobs
  run. \<open>worker_state\<close> adds the coroutines that are waiting for their child, and \<open>worker_step\<close> is one event, a restart
  of the process among them. The child process and the conversion of a text to a column of type UUID are parameters.
\<close>

section \<open>The child process\<close>

definition TIMEOUT_S :: int where
  "TIMEOUT_S = 15 * 60"

text \<open>How the child ends: with an exit code, or killed after the time limit; with its two outputs.\<close>

datatype child = Exited int string string | TimedOut string string

record run_result =
  rr_stdout :: string
  rr_stderr :: string
  rr_exit_code :: int
  rr_status :: string

definition worker_command :: "job_row \<Rightarrow> string list" where
  "worker_command job =
     [''python'', ''-m'', ''trading.cli.backtest'', ''--strategy'', jr_strategy_name job, ''--params'', jr_params_file job,
      ''--from'', strftime_z (jr_from_ts job), ''--to'', strftime_z (jr_to_ts job), ''--source'', jr_data_source job] @
     (case jr_polybot_db_path job of Some p \<Rightarrow> if p \<noteq> [] then [''--polybot-db'', p] else [] | None \<Rightarrow> []) @
     (if jr_slug_encodes_open_ts job then [''--slug-encodes-open-ts''] else [])"

definition child_result :: "child \<Rightarrow> run_result" where
  "child_result c =
     (case c of
        Exited code out err \<Rightarrow>
          \<lparr>rr_stdout = py_tail 10000 out, rr_stderr = py_tail 10000 err, rr_exit_code = code,
           rr_status = (if code = 0 then ''completed'' else ''failed'')\<rparr>
      | TimedOut out err \<Rightarrow>
          \<lparr>rr_stdout = py_tail 10000 out, rr_stderr = py_tail 10000 err, rr_exit_code = - 9, rr_status = ''timeout''\<rparr>)"

text \<open>The first match of the pattern \<open>"backtest_id": "([0-9a-f-]+)"\<close>.\<close>

definition bid_prefix :: string where
  "bid_prefix = [CHR 0x22] @ ''backtest_id'' @ [CHR 0x22] @ '': '' @ [CHR 0x22]"

definition bid_char :: "char \<Rightarrow> bool" where
  "bid_char c \<longleftrightarrow> (let k = (of_char c :: nat) in (48 \<le> k \<and> k \<le> 57) \<or> (97 \<le> k \<and> k \<le> 102) \<or> k = 45)"

definition match_bid :: "string \<Rightarrow> string option" where
  "match_bid s =
     (if take (length bid_prefix) s = bid_prefix
      then (let r = drop (length bid_prefix) s; g = takeWhile bid_char r; rest = dropWhile bid_char r
            in if g \<noteq> [] \<and> take 1 rest = [CHR 0x22] then Some g else None)
      else None)"

fun extract_backtest_id :: "string \<Rightarrow> string option" where
  "extract_backtest_id [] = None"
| "extract_backtest_id (c # cs) = (case match_bid (c # cs) of Some g \<Rightarrow> Some g | None \<Rightarrow> extract_backtest_id cs)"

section \<open>A job\<close>

text \<open>\<open>update_job\<close> of the row with the identifier.\<close>

definition update_job :: "nat \<Rightarrow> (job_row \<Rightarrow> job_row) \<Rightarrow> api_world \<Rightarrow> api_world" where
  "update_job u f w = w\<lparr>aw_jobs := map (\<lambda>r. if jr_id r = u then f r else r) (aw_jobs w)\<rparr>"

definition mark_running :: "datetime \<Rightarrow> job_row \<Rightarrow> job_row" where
  "mark_running now r = r\<lparr>jr_status := ''running'', jr_started_at := Some now\<rparr>"

definition mark_finished :: "datetime \<Rightarrow> run_result \<Rightarrow> nat option \<Rightarrow> job_row \<Rightarrow> job_row" where
  "mark_finished now res bid r =
     r\<lparr>jr_status := rr_status res, jr_finished_at := Some now, jr_exit_code := Some (rr_exit_code res),
       jr_stdout_tail := Some (rr_stdout res), jr_stderr_tail := Some (rr_stderr res), jr_backtest_id := bid\<rparr>"

text \<open>The first half, up to the child: a job that is not found is left alone.\<close>

definition start_job :: "nat \<Rightarrow> datetime \<Rightarrow> api_world \<Rightarrow> job_row option \<times> api_world" where
  "start_job u now w =
     (case find (\<lambda>r. jr_id r = u) (aw_jobs w) of
        None \<Rightarrow> (None, w)
      | Some job \<Rightarrow> (Some job, update_job u (mark_running now) w))"

text \<open>The second half. A text that the column of type UUID refuses raises, and the row keeps its state.\<close>

definition finish_job :: "(string \<Rightarrow> nat option) \<Rightarrow> nat \<Rightarrow> datetime \<Rightarrow> py_error + child \<Rightarrow> api_world \<Rightarrow> py_error option \<times> api_world" where
  "finish_job uuid_column u now outcome w =
     (case outcome of
        Inl e \<Rightarrow> (Some e, w)
      | Inr c \<Rightarrow>
          (let res = child_result c
           in case extract_backtest_id (rr_stdout res) of
                None \<Rightarrow> (None, update_job u (mark_finished now res None) w)
              | Some s \<Rightarrow>
                  (case uuid_column s of
                     None \<Rightarrow> (Some (ValueError s), w)
                   | Some b \<Rightarrow> (None, update_job u (mark_finished now res (Some b)) w))))"

definition run_job ::
  "(string \<Rightarrow> nat option) \<Rightarrow> (string list \<Rightarrow> py_error + child) \<Rightarrow> string \<Rightarrow> datetime \<Rightarrow> datetime \<Rightarrow> api_world \<Rightarrow> py_error option \<times> api_world" where
  "run_job uuid_column run job_id now1 now2 w =
     (case uuid_arg job_id of
        Inl e \<Rightarrow> (Some e, w)
      | Inr u \<Rightarrow>
          (case start_job u now1 w of
             (None, w1) \<Rightarrow> (None, w1)
           | (Some job, w1) \<Rightarrow> finish_job uuid_column u now2 (run (worker_command job)) w1))"

section \<open>Events\<close>

record worker_state =
  wk_world :: api_world
  wk_running :: "nat list"

datatype worker_event =
    Submitted api_env http_request job_payload string
  | Started nat datetime
  | Finished nat datetime "py_error + child"
  | Served api_env http_request route
  | Restarted

fun is_submission :: "route \<Rightarrow> bool" where
  "is_submission (Api (RRunBacktest p s)) = True"
| "is_submission _ = False"

text \<open>A coroutine starts once, waits for its child and finishes; a restart of the process loses the coroutines.\<close>

fun worker_step :: "(string \<Rightarrow> nat option) \<Rightarrow> worker_event \<Rightarrow> worker_state \<Rightarrow> worker_state" where
  "worker_step col (Submitted env rq p by_whom) s = s\<lparr>wk_world := snd (serve env rq (Api (RRunBacktest p by_whom)) (wk_world s))\<rparr>"
| "worker_step col (Started u now) s =
     (if u \<in> set (aw_tasks (wk_world s))
      then (let w = (wk_world s)\<lparr>aw_tasks := remove1 u (aw_tasks (wk_world s))\<rparr>
            in case start_job u now w of
                 (None, w1) \<Rightarrow> s\<lparr>wk_world := w1\<rparr>
               | (Some job, w1) \<Rightarrow> s\<lparr>wk_world := w1, wk_running := u # wk_running s\<rparr>)
      else s)"
| "worker_step col (Finished u now outcome) s =
     (if u \<in> set (wk_running s)
      then s\<lparr>wk_world := snd (finish_job col u now outcome (wk_world s)), wk_running := remove1 u (wk_running s)\<rparr> else s)"
| "worker_step col (Served env rq rt) s = (if is_submission rt then s else s\<lparr>wk_world := snd (serve env rq rt (wk_world s))\<rparr>)"
| "worker_step col Restarted s = s\<lparr>wk_world := (wk_world s)\<lparr>aw_tasks := []\<rparr>, wk_running := []\<rparr>"

definition worker_run :: "(string \<Rightarrow> nat option) \<Rightarrow> worker_event list \<Rightarrow> worker_state \<Rightarrow> worker_state" where
  "worker_run col es s = fold (worker_step col) es s"

section \<open>The follow-up of the bot\<close>

text \<open>The status of a response and the document a client sees in it.\<close>

fun response_code :: "api_response \<Rightarrow> int" where
  "response_code (HttpError c m r) = c"
| "response_code (Unhandled e) = 500"
| "response_code (RedirectTo c l) = c"
| "response_code (SessionCookie t) = 303"
| "response_code (PageOk c p) = c"
| "response_code _ = 200"

definition rstrip_char :: "char \<Rightarrow> string \<Rightarrow> string" where
  "rstrip_char c s = rev (dropWhile (\<lambda>x. x = c) (rev s))"

text \<open>One poll: the time at the head of the loop and what \<open>_api_get\<close> does, an exception of the HTTP client (which nothing catches: it ends the task
  of the follow-up) or the status and the body of the answer. The result is the exception or the text sent at the end.\<close>

fun followup_backtest :: "text_env \<Rightarrow> string \<Rightarrow> real \<Rightarrow> string \<Rightarrow> (real \<times> (py_error + int \<times> json)) list \<Rightarrow> py_error + fstring" where
  "followup_backtest te base deadline job_id [] =
     Inr [FUni 9201, FTxt '' backtest '', FStr job_id, FTxt '' still running after 20 min '', FUni 8212, FTxt '' check /research'']"
| "followup_backtest te base deadline job_id ((now, got) # polls) =
     (if \<not> now < deadline then followup_backtest te base deadline job_id []
      else bind_r got (\<lambda>(code, body).
        if code \<noteq> 200 then followup_backtest te base deadline job_id polls
        else bind_r (js_get ''status'' body) (\<lambda>status.
          if status \<notin> {JsStr ''completed'', JsStr ''failed'', JsStr ''timeout''} then followup_backtest te base deadline job_id polls
          else bind_r (js_get ''backtest_id'' body) (\<lambda>bt_id.
            if truthy bt_id
            then Inr [FUni 9989, FTxt '' backtest '', FStr (py_str te status), FTxt ''. job='', FStr job_id, nl, FTxt ''report: '',
                      FStr (rstrip_char (CHR ''/'') base), FTxt ''/research/'', FStr (py_str te bt_id)]
            else bind_r (js_get ''error_message'' body) (\<lambda>err.
              Inr [FUni (if status \<noteq> JsStr ''completed'' then 9888 else 9989), FTxt '' backtest '', FStr (py_str te status), FTxt ''. job='',
                   FStr job_id, nl, FTxt ''error: '', FStr (py_str te (js_or err (JsStr ''-'')))])))))"

section \<open>The life of a job\<close>

definition finished_status :: "string list" where
  "finished_status = [''completed'', ''failed'', ''timeout'']"

definition job_ok :: "job_row \<Rightarrow> bool" where
  "job_ok r \<longleftrightarrow>
     (if jr_status r = ''queued'' then jr_started_at r = None \<and> jr_finished_at r = None \<and> jr_exit_code r = None
      else if jr_status r = ''running'' then jr_started_at r \<noteq> None \<and> jr_finished_at r = None \<and> jr_exit_code r = None
      else jr_status r \<in> set finished_status \<and> jr_started_at r \<noteq> None \<and> jr_finished_at r \<noteq> None \<and> jr_exit_code r \<noteq> None \<and>
        (jr_status r = ''completed'' \<longleftrightarrow> jr_exit_code r = Some 0) \<and> (jr_status r = ''timeout'' \<longrightarrow> jr_exit_code r = Some (- 9)))"

definition has_status :: "string \<Rightarrow> job_row list \<Rightarrow> nat \<Rightarrow> bool" where
  "has_status st jobs u \<longleftrightarrow> (\<exists>r \<in> set jobs. jr_id r = u \<and> jr_status r = st)"

definition worker_inv :: "worker_state \<Rightarrow> bool" where
  "worker_inv s \<longleftrightarrow>
     (let w = wk_world s
      in distinct (map jr_id (aw_jobs w)) \<and> list_all job_ok (aw_jobs w) \<and> distinct (aw_tasks w @ wk_running s) \<and>
         list_all (has_status ''queued'' (aw_jobs w)) (aw_tasks w) \<and> list_all (has_status ''running'' (aw_jobs w)) (wk_running s))"

lemma find_id:
  "find (\<lambda>r. jr_id r = u) jobs = None \<longleftrightarrow> u \<notin> jr_id ` set jobs"
  "find (\<lambda>r. jr_id r = u) jobs = Some r \<Longrightarrow> r \<in> set jobs \<and> jr_id r = u"
  by (induction jobs) (auto split: if_splits)

lemma update_job_sel [simp]:
  "aw_jobs (update_job u f w) = map (\<lambda>r. if jr_id r = u then f r else r) (aw_jobs w)"
  "aw_tasks (update_job u f w) = aw_tasks w"
  by (simp_all add: update_job_def)

text \<open>Only a submission touches the jobs.\<close>

lemma serve_jobs:
  assumes "\<not> is_submission rt"
  shows "aw_jobs (snd (serve env rq rt w)) = aw_jobs w \<and> aw_tasks (snd (serve env rq rt w)) = aw_tasks w"
proof (cases "\<exists>r. rt = Api r \<and> acts r \<and> require_token env rq = None")
  case True
  then obtain r where r: "rt = Api r" "acts r" "require_token env rq = None" by blast
  have docker: "aw_jobs (snd (docker env q k w)) = aw_jobs w \<and> aw_tasks (snd (docker env q k w)) = aw_tasks w"
    if "\<And>code w. aw_jobs (snd (k code w)) = aw_jobs w \<and> aw_tasks (snd (k code w)) = aw_tasks w" for q k w
    using that by (simp add: docker_def Let_def split: sum.split)
  have "aw_jobs (snd (restart_service env n w)) = aw_jobs w \<and> aw_tasks (snd (restart_service env n w)) = aw_tasks w" for n
    by (auto simp: restart_service_def docker split: sum.split)
  with r assms show ?thesis
    by (cases r) (auto simp: guarded_cases api_pause_def api_resume_def publish_def set_strategy_pause_def
      api_killswitch_on_def api_killswitch_off_def Let_def)
next
  case False
  then have "same_outside w (snd (serve env rq rt w))" by (intro serve_outside) auto
  then show ?thesis by (simp add: same_outside_def)
qed

lemma submit_world:
  "snd (serve env rq (Api (RRunBacktest p by_whom)) w) =
     (if require_token env rq \<noteq> None \<or> ae_uuid env \<in> jr_id ` set (aw_jobs w) then w
      else w\<lparr>aw_jobs := aw_jobs w @ [queued_job (ae_uuid env) (ae_clock env 0) p (requester rq by_whom)], aw_tasks := aw_tasks w @ [ae_uuid env]\<rparr>)"
  by (auto simp: guarded_cases api_run_backtest_def create_job_def split: option.split)

lemma has_status_id: "has_status st jobs u \<Longrightarrow> u \<in> jr_id ` set jobs"
  by (auto simp: has_status_def)

lemma ids_update [simp]: "(\<And>r. jr_id (f r) = jr_id r) \<Longrightarrow> map jr_id (map (\<lambda>r. if jr_id r = u then f r else r) jobs) = map jr_id jobs"
  by simp

lemma mark_id [simp]: "jr_id (mark_running now r) = jr_id r" "jr_id (mark_finished now res b r) = jr_id r"
  by (simp_all add: mark_running_def mark_finished_def)

lemma has_status_update:
  assumes "v \<noteq> u" "\<And>r. jr_id (f r) = jr_id r"
  shows "has_status st (map (\<lambda>r. if jr_id r = u then f r else r) jobs) v = has_status st jobs v"
  using assms by (force simp: has_status_def)

lemma has_status_marked:
  assumes "has_status st jobs u" "\<And>r. jr_id (f r) = jr_id r" "\<And>r. jr_status (f r) = st'"
  shows "has_status st' (map (\<lambda>r. if jr_id r = u then f r else r) jobs) u"
  using assms by (force simp: has_status_def)

lemma row_unique: "distinct (map jr_id jobs) \<Longrightarrow> r \<in> set jobs \<Longrightarrow> r' \<in> set jobs \<Longrightarrow> jr_id r = jr_id r' \<Longrightarrow> r = r'"
  by (simp add: distinct_map inj_on_def)

text \<open>A row whose identifier no coroutine holds is never written again.\<close>

lemma idle_row_stays:
  assumes "r \<in> set (aw_jobs (wk_world s))" "jr_id r \<notin> set (aw_tasks (wk_world s))" "jr_id r \<notin> set (wk_running s)"
  shows "r \<in> set (aw_jobs (wk_world (worker_step col e s))) \<and> jr_id r \<notin> set (aw_tasks (wk_world (worker_step col e s))) \<and>
    jr_id r \<notin> set (wk_running (worker_step col e s))"
proof (cases e)
  case (Submitted env rq p by_whom)
  have "ae_uuid env \<notin> jr_id ` set (aw_jobs (wk_world s)) \<Longrightarrow> jr_id r \<noteq> ae_uuid env" using assms(1) by (metis imageI)
  with Submitted assms show ?thesis by (auto simp: submit_world simp del: serve.simps)
next
  case (Served env rq rt)
  then show ?thesis using assms serve_jobs [of rt env rq "wk_world s"] by (simp del: serve.simps)
next
  case (Finished u now outcome)
  then show ?thesis using assms notin_set_remove1
    by (auto simp: finish_job_def Let_def image_iff split: sum.split option.split)
next
  case (Started u now)
  then show ?thesis using assms notin_set_remove1
    by (auto simp: start_job_def Let_def image_iff split: option.split dest: set_remove1_subset [THEN subsetD])
qed (use assms in simp)

lemma idle_row_runs:
  "r \<in> set (aw_jobs (wk_world s)) \<Longrightarrow> jr_id r \<notin> set (aw_tasks (wk_world s)) \<Longrightarrow> jr_id r \<notin> set (wk_running s) \<Longrightarrow>
   r \<in> set (aw_jobs (wk_world (worker_run col es s)))"
proof (induction es arbitrary: s)
  case (Cons e es)
  from idle_row_stays [OF Cons.prems, of col e] show ?case
    using Cons.IH [of "worker_step col e s"] by (simp add: worker_run_def)
qed (simp add: worker_run_def)

lemma child_status: "rr_status (child_result c) \<in> set finished_status \<and>
    (rr_status (child_result c) = ''completed'' \<longleftrightarrow> rr_exit_code (child_result c) = 0) \<and>
    (rr_status (child_result c) = ''timeout'' \<longrightarrow> rr_exit_code (child_result c) = - 9)"
  by (cases c) (simp_all add: child_result_def finished_status_def)

lemma job_ok_marks:
  "job_ok r \<Longrightarrow> jr_status r = ''queued'' \<Longrightarrow> job_ok (mark_running now r)"
  "job_ok r \<Longrightarrow> jr_status r = ''running'' \<Longrightarrow> job_ok (mark_finished now (child_result c) b r)"
proof -
  show "job_ok r \<Longrightarrow> jr_status r = ''queued'' \<Longrightarrow> job_ok (mark_running now r)"
    by (simp add: job_ok_def mark_running_def)
  have "rr_status (child_result c) \<noteq> ''queued''" "rr_status (child_result c) \<noteq> ''running''"
    using child_status [of c] by (auto simp: finished_status_def)
  then show "job_ok r \<Longrightarrow> jr_status r = ''running'' \<Longrightarrow> job_ok (mark_finished now (child_result c) b r)"
    using child_status [of c] by (simp add: job_ok_def mark_finished_def)
qed

lemma has_status_append: "has_status st jobs u \<Longrightarrow> has_status st (jobs @ xs) u"
  by (auto simp: has_status_def)

lemma marked_ok:
  assumes "distinct (map jr_id jobs)" "list_all job_ok jobs" "has_status st jobs u"
    and "\<And>r. job_ok r \<Longrightarrow> jr_status r = st \<Longrightarrow> job_ok (f r)"
  shows "list_all job_ok (map (\<lambda>r. if jr_id r = u then f r else r) jobs)"
proof -
  from assms(3) obtain q where q: "q \<in> set jobs" "jr_id q = u" "jr_status q = st" by (auto simp: has_status_def)
  have "job_ok (f r)" if "r \<in> set jobs" "jr_id r = u" for r
    using row_unique [OF assms(1) that(1) q(1)] that q assms(2,4) by (simp add: list_all_iff)
  with assms(2) show ?thesis by (auto simp: list_all_iff)
qed

lemma submitted_inv:
  assumes "worker_inv s"
  shows "worker_inv (worker_step col (Submitted env rq p by_whom) s)"
proof (cases "require_token env rq \<noteq> None \<or> ae_uuid env \<in> jr_id ` set (aw_jobs (wk_world s))")
  case True
  then have "worker_step col (Submitted env rq p by_whom) s = s"
    using submit_world [of env rq p by_whom "wk_world s"] by (simp del: serve.simps)
  with assms show ?thesis by simp
next
  case False
  let ?u = "ae_uuid env" and ?q = "queued_job (ae_uuid env) (ae_clock env 0) p (requester rq by_whom)"
  have "?u \<notin> set (aw_tasks (wk_world s)) \<union> set (wk_running s)"
    using False assms by (auto simp: worker_inv_def Let_def list_all_iff dest!: has_status_id)
  moreover have "job_ok ?q" "jr_id ?q = ?u" "has_status ''queued'' (aw_jobs (wk_world s) @ [?q]) ?u"
    by (simp_all add: job_ok_def queued_job_def has_status_def)
  ultimately show ?thesis
    using False assms
    by (auto simp: worker_inv_def Let_def submit_world list_all_iff has_status_append simp del: serve.simps)
qed

lemma started_inv:
  assumes inv: "worker_inv s"
  shows "worker_inv (worker_step col (Started u now) s)"
proof (cases "u \<in> set (aw_tasks (wk_world s))")
  case True
  let ?w = "wk_world s"
  have q: "has_status ''queued'' (aw_jobs ?w) u" using True inv by (simp add: worker_inv_def Let_def list_all_iff)
  then obtain job where f: "find (\<lambda>r. jr_id r = u) (aw_jobs ?w) = Some job"
    using find_id(1) [of u "aw_jobs ?w"] by (cases "find (\<lambda>r. jr_id r = u) (aw_jobs ?w)") (auto dest: has_status_id)
  have d: "distinct (aw_tasks ?w @ wk_running s)" using inv by (simp add: worker_inv_def Let_def)
  with True have sep: "u \<notin> set (remove1 u (aw_tasks ?w))" "u \<notin> set (wk_running s)" by (auto simp: set_remove1_eq)
  have ok: "list_all job_ok (map (\<lambda>r. if jr_id r = u then mark_running now r else r) (aw_jobs ?w))"
    using inv q by (intro marked_ok) (auto simp: worker_inv_def Let_def intro: job_ok_marks)
  have keep: "has_status st (map (\<lambda>r. if jr_id r = u then mark_running now r else r) (aw_jobs ?w)) v = has_status st (aw_jobs ?w) v" if "v \<noteq> u" for st v
    using that by (intro has_status_update) simp_all
  have run: "has_status ''running'' (map (\<lambda>r. if jr_id r = u then mark_running now r else r) (aw_jobs ?w)) u"
    using q by (rule has_status_marked) (simp_all add: mark_running_def)
  have tasks: "list_all (has_status ''queued'' (map (\<lambda>r. if jr_id r = u then mark_running now r else r) (aw_jobs ?w))) (remove1 u (aw_tasks ?w))"
    unfolding list_all_iff
  proof
    fix v assume v: "v \<in> set (remove1 u (aw_tasks ?w))"
    with sep have "v \<noteq> u" by blast
    moreover have "has_status ''queued'' (aw_jobs ?w) v" using v inv notin_set_remove1 by (auto simp: worker_inv_def Let_def list_all_iff)
    ultimately show "has_status ''queued'' (map (\<lambda>r. if jr_id r = u then mark_running now r else r) (aw_jobs ?w)) v" using keep by simp
  qed
  have running: "list_all (has_status ''running'' (map (\<lambda>r. if jr_id r = u then mark_running now r else r) (aw_jobs ?w))) (u # wk_running s)"
    unfolding list_all_iff
  proof
    fix v assume v: "v \<in> set (u # wk_running s)"
    show "has_status ''running'' (map (\<lambda>r. if jr_id r = u then mark_running now r else r) (aw_jobs ?w)) v"
    proof (cases "v = u")
      case False
      with v inv keep show ?thesis by (simp add: worker_inv_def Let_def list_all_iff)
    qed (use run in simp)
  qed
  have "distinct (map jr_id (aw_jobs ?w))" using inv by (simp add: worker_inv_def Let_def)
  then show ?thesis
    using True f d sep ok tasks running unfolding worker_inv_def Let_def
    by (auto simp: start_job_def Let_def set_remove1_eq simp del: map_map)
next
  case False
  with inv show ?thesis by simp
qed

lemma finished_inv:
  assumes inv: "worker_inv s"
  shows "worker_inv (worker_step col (Finished u now outcome) s)"
proof (cases "u \<in> set (wk_running s)")
  case True
  let ?w = "wk_world s"
  have q: "has_status ''running'' (aw_jobs ?w) u" using True inv by (simp add: worker_inv_def Let_def list_all_iff)
  have d: "distinct (aw_tasks ?w @ wk_running s)" using inv by (simp add: worker_inv_def Let_def)
  with True have sep: "u \<notin> set (aw_tasks ?w)" "u \<notin> set (remove1 u (wk_running s))" by (auto simp: set_remove1_eq)
  have rest: "worker_inv (s\<lparr>wk_running := remove1 u (wk_running s)\<rparr>)"
    using inv d by (auto simp: worker_inv_def Let_def list_all_iff set_remove1_eq)
  have marked: "worker_inv (s\<lparr>wk_world := update_job u (mark_finished now (child_result c) b) ?w, wk_running := remove1 u (wk_running s)\<rparr>)" for c b
  proof -
    have ok: "list_all job_ok (map (\<lambda>r. if jr_id r = u then mark_finished now (child_result c) b r else r) (aw_jobs ?w))"
      using inv q by (intro marked_ok) (auto simp: worker_inv_def Let_def intro: job_ok_marks)
    have keep: "has_status st (map (\<lambda>r. if jr_id r = u then mark_finished now (child_result c) b r else r) (aw_jobs ?w)) v = has_status st (aw_jobs ?w) v"
      if "v \<noteq> u" for st v
      using that by (intro has_status_update) simp_all
    have ne: "v \<noteq> u" if "v \<in> set (aw_tasks ?w) \<or> v \<in> set (remove1 u (wk_running s))" for v using that sep by auto
    have "list_all (has_status ''queued'' (map (\<lambda>r. if jr_id r = u then mark_finished now (child_result c) b r else r) (aw_jobs ?w))) (aw_tasks ?w)"
      "list_all (has_status ''running'' (map (\<lambda>r. if jr_id r = u then mark_finished now (child_result c) b r else r) (aw_jobs ?w))) (remove1 u (wk_running s))"
      using rest ne keep by (simp_all add: worker_inv_def Let_def list_all_iff del: map_map)
    then show ?thesis
      using rest ok unfolding worker_inv_def Let_def by (simp del: map_map)
  qed
  from True rest marked show ?thesis
    by (cases outcome) (auto simp: finish_job_def Let_def split: option.split)
next
  case False
  with inv show ?thesis by simp
qed

lemma worker_step_inv: "worker_inv s \<Longrightarrow> worker_inv (worker_step col e s)"
proof (cases e)
  case (Served env rq rt)
  then show "worker_inv s \<Longrightarrow> ?thesis" using serve_jobs [of rt env rq "wk_world s"] by (simp add: worker_inv_def Let_def del: serve.simps)
next
  case Restarted
  then show "worker_inv s \<Longrightarrow> ?thesis" by (simp add: worker_inv_def Let_def)
qed (simp_all add: submitted_inv started_inv finished_inv del: worker_step.simps)

interpretation worker: preserved "worker_step col" worker_inv for col
  by unfold_locales (rule worker_step_inv)

definition new_worker :: "api_world \<Rightarrow> worker_state" where
  "new_worker w = \<lparr>wk_world = w\<lparr>aw_jobs := [], aw_tasks := []\<rparr>, wk_running = []\<rparr>"

text \<open>C33. Every job has one life. However submissions, other requests, starting and ending children and restarts of the process
  follow each other, every row of the table is queued without a start, running with a start and no end, or over with
  both; it is completed exactly when the child exited with code zero, a time-out has code minus nine, identifiers stay unique, and a
  row that is over is never written again.\<close>

theorem jobs_have_one_life:
  assumes s: "s = worker_run col es (new_worker w)"
  shows "list_all job_ok (aw_jobs (wk_world s)) \<and> distinct (map jr_id (aw_jobs (wk_world s))) \<and>
    (r \<in> set (aw_jobs (wk_world s)) \<and> jr_status r \<in> set finished_status \<longrightarrow> r \<in> set (aw_jobs (wk_world (worker_run col es' s))))"
proof -
  have "worker_inv (new_worker w)" by (simp add: worker_inv_def new_worker_def)
  then have inv: "worker_inv s" unfolding s worker_run_def by (rule worker.run_inv)
  have "r \<in> set (aw_jobs (wk_world (worker_run col es' s)))" if r: "r \<in> set (aw_jobs (wk_world s))" "jr_status r \<in> set finished_status"
  proof (rule idle_row_runs [OF r(1)])
    have other: "\<not> has_status st (aw_jobs (wk_world s)) (jr_id r)" if "st \<notin> set finished_status" for st
    proof
      assume "has_status st (aw_jobs (wk_world s)) (jr_id r)"
      then obtain q where q: "q \<in> set (aw_jobs (wk_world s))" "jr_id q = jr_id r" "jr_status q = st" by (auto simp: has_status_def)
      have "distinct (map jr_id (aw_jobs (wk_world s)))" using inv by (simp add: worker_inv_def Let_def)
      from row_unique [OF this q(1) r(1) q(2)] show False using q(3) r(2) that by simp
    qed
    have "\<not> has_status ''queued'' (aw_jobs (wk_world s)) (jr_id r)" "\<not> has_status ''running'' (aw_jobs (wk_world s)) (jr_id r)"
      using other by (simp_all add: finished_status_def)
    then show "jr_id r \<notin> set (aw_tasks (wk_world s))" "jr_id r \<notin> set (wk_running s)"
      using inv by (auto simp: worker_inv_def Let_def list_all_iff)
  qed
  with inv show ?thesis by (auto simp: worker_inv_def Let_def)
qed

text \<open>C34. A restart of the API orphans its jobs. A job that is queued or running when the process restarts keeps its row for
  ever, whatever follows: it is neither started nor finished nor marked as failed, since only the coroutine of its submission would do
  it and its identifier cannot be submitted again.\<close>

theorem restart_orphans_jobs:
  assumes "r \<in> set (aw_jobs (wk_world s))" and "jr_status r \<in> {''queued'', ''running''}"
    and "s' = worker_run col (Restarted # es) s"
  shows "r \<in> set (aw_jobs (wk_world s')) \<and> jr_status r \<notin> set finished_status"
  using assms idle_row_runs [of r "worker_step col Restarted s" col es]
  by (auto simp: worker_run_def finished_status_def)

section \<open>The follow-up never sees the end\<close>

text \<open>What pydantic documents of its second version: a value of type UUID is not taken for a declared \<open>str\<close>.\<close>

definition strict_str :: "api_env \<Rightarrow> bool" where
  "strict_str env \<longleftrightarrow> (\<forall>u. \<not> ae_accepts env ''str'' (PyUuid u))"

lemma job_status_fails: "strict_str env \<Longrightarrow> job_status env r = Inl (ValueError ''validation errors for JobStatus'')"
  by (simp add: job_status_def job_items_def JOB_STATUS_FIELDS_def strict_str_def)

lemma get_job_not_200:
  assumes "strict_str env"
  shows "response_code (fst (serve env rq (Api (RGetJob job_id)) w)) \<noteq> 200"
  using assms by (auto simp: guarded_cases require_token_def api_get_job_def answer_def get_job_def uuid_arg_def job_status_fails split: option.split)

text \<open>A poll of the bot: the time, and the error of a request that got no answer or the environment and the world of the one that did, with the
  body it got.\<close>

type_synonym api_poll = "real \<times> (py_error + api_env \<times> http_request \<times> api_world \<times> json)"

definition poll_answer :: "string \<Rightarrow> api_poll \<Rightarrow> real \<times> (py_error + int \<times> json)" where
  "poll_answer job_id = map_prod id (map_sum id (\<lambda>(env, rq, w, body). (response_code (fst (serve env rq (Api (RGetJob job_id)) w)), body)))"

text \<open>The first poll before the deadline that got no answer.\<close>

fun lost_poll :: "real \<Rightarrow> api_poll list \<Rightarrow> py_error option" where
  "lost_poll deadline [] = None"
| "lost_poll deadline ((now, got) # polls) =
     (if \<not> now < deadline then None else (case got of Inl e \<Rightarrow> Some e | Inr r \<Rightarrow> lost_poll deadline polls))"

text \<open>C35. The follow-up of a backtest never tells how it ended. The status of a job declares the identifiers of its row as
  texts, which the row holds as UUIDs, so the API answers every question about an existing job with status 500 and about any
  other with an error as well. Whatever becomes of the job, there are two outcomes: if every poll of the twenty minutes is answered, the bot says at their end that the job
  is still running; if one of them gets no answer (the API is restarting, say), the exception ends the task and nothing is sent at all. The page of the
  job shows how it ended.\<close>

theorem followup_never_tells_the_end:
  assumes "list_all (\<lambda>(now, got). case got of Inl e \<Rightarrow> True | Inr (env, rq, w, body) \<Rightarrow> strict_str env) polls"
  shows "followup_backtest te base deadline (uuid_text u) (map (poll_answer (uuid_text u)) polls) =
      (case lost_poll deadline polls of
         Some e \<Rightarrow> Inl e
       | None \<Rightarrow> Inr [FUni 9201, FTxt '' backtest '', FStr (uuid_text u), FTxt '' still running after 20 min '', FUni 8212, FTxt '' check /research'']) \<and>
    (u < 2 ^ 128 \<and> find (\<lambda>r. jr_id r = u) (aw_jobs w) = Some job \<and> require_token env rq = None \<and> strict_str env \<longrightarrow>
       fst (serve env rq (Api (RGetJob (uuid_text u))) w) = Unhandled (ValueError ''validation errors for JobStatus'') \<and>
       fst (page_handler env (PJob (uuid_text u)) w) = PageOk 200 (JobPage job))"
proof -
  have "followup_backtest te base deadline (uuid_text u) (map (poll_answer (uuid_text u)) polls) =
      (case lost_poll deadline polls of Some e \<Rightarrow> Inl e | None \<Rightarrow> followup_backtest te base deadline (uuid_text u) [])"
    using assms
  proof (induction polls)
    case (Cons x xs)
    obtain now got where x: "x = (now, got)" by (cases x) auto
    show ?case
    proof (cases got)
      case (Inl e)
      then show ?thesis by (simp add: x poll_answer_def bind_r_def)
    next
      case (Inr r)
      obtain env rq w body where r: "r = (env, rq, w, body)" by (cases r) auto
      with Cons.prems Inr have "response_code (fst (serve env rq (Api (RGetJob (uuid_text u))) w)) \<noteq> 200"
        by (simp add: x get_job_not_200 del: serve.simps)
      then show ?thesis using Cons by (simp add: x Inr r poll_answer_def bind_r_def del: serve.simps)
    qed
  qed simp
  moreover have "fst (serve env rq (Api (RGetJob (uuid_text u))) w) = Unhandled (ValueError ''validation errors for JobStatus'') \<and>
       fst (page_handler env (PJob (uuid_text u)) w) = PageOk 200 (JobPage job)"
    if "u < 2 ^ 128" "find (\<lambda>r. jr_id r = u) (aw_jobs w) = Some job" "require_token env rq = None" "strict_str env"
    using that by (simp add: guarded_cases api_get_job_def research_job_def answer_def get_job_def uuid_arg_def uuid_of_text job_status_fails)
  ultimately show ?thesis by (simp split: option.split)
qed

section \<open>The identifier in the output\<close>

lemma match_bid_here:
  assumes "g \<noteq> []" "list_all bid_char g"
  shows "match_bid (bid_prefix @ g @ CHR 0x22 # rest) = Some g"
proof -
  have q: "\<not> bid_char (CHR 0x22)" by (simp add: bid_char_def)
  have "takeWhile bid_char (g @ CHR 0x22 # rest) = g" "dropWhile bid_char (g @ CHR 0x22 # rest) = CHR 0x22 # rest"
    using assms(2) q by (auto simp: list_all_iff takeWhile_append2 dropWhile_append2)
  then show ?thesis using assms(1) by (simp add: match_bid_def)
qed

lemma extract_first:
  assumes "\<And>k. k < length pre \<Longrightarrow> match_bid (drop k (pre @ s)) = None" and "match_bid s = Some g" and "s \<noteq> []"
  shows "extract_backtest_id (pre @ s) = Some g"
  using assms
proof (induction pre)
  case Nil
  then show ?case by (cases s) simp_all
next
  case (Cons c cs)
  have "match_bid (drop k (cs @ s)) = None" if "k < length cs" for k using Cons.prems(1) [of "Suc k"] that by simp
  moreover have "match_bid (c # cs @ s) = None" using Cons.prems(1) [of 0] by simp
  ultimately show ?case using Cons by simp
qed

lemma uuid_text_chars: "list_all bid_char (uuid_text n) \<and> uuid_text n \<noteq> []"
proof -
  have h: "bid_char c" if "c \<in> set (hex_fixed k n)" for c k n
    using hex_fixed_digits [OF that] by (auto simp: bid_char_def hex_digit_char_def Let_def split: if_splits)
  have "bid_char (CHR ''-'')" by (simp add: bid_char_def)
  then show ?thesis
    using h by (auto simp: uuid_text_def Let_def list_all_iff dest!: in_set_takeD in_set_dropD)
qed

lemma update_job_twice: "(\<And>r. jr_id (g r) = jr_id r) \<Longrightarrow> update_job u f (update_job u g w) = update_job u (\<lambda>r. f (g r)) w"
  by (simp add: update_job_def comp_def cong: if_cong)

text \<open>A job that ends well names its report. When the child exits with code zero and its output, cut to its last ten thousand
  characters, holds the line the logger prints with the identifier of the stored backtest and no earlier match of the pattern, the row
  is completed with that identifier; a child killed after the time limit leaves a row with code minus nine, and a child that
  could not be started leaves the row running and raises.\<close>

theorem job_records_its_run:
  assumes job: "find (\<lambda>r. jr_id r = u) (aw_jobs w) = Some job" and u: "u < 2 ^ 128"
    and col: "col (uuid_text b) = Some b"
    and out: "py_tail 10000 out = pre @ bid_prefix @ uuid_text b @ CHR 0x22 # post"
    and first: "list_all (\<lambda>k. match_bid (drop k (py_tail 10000 out)) = None) [0..<length pre]"
  shows "(run (worker_command job) = Inr (Exited 0 out err) \<longrightarrow>
      run_job col run (uuid_text u) now1 now2 w =
        (None, update_job u (\<lambda>r. r\<lparr>jr_status := ''completed'', jr_started_at := Some now1, jr_finished_at := Some now2, jr_exit_code := Some 0,
           jr_stdout_tail := Some (py_tail 10000 out), jr_stderr_tail := Some (py_tail 10000 err), jr_backtest_id := Some b\<rparr>) w)) \<and>
    (run (worker_command job) = Inr (TimedOut out err) \<longrightarrow>
      list_all (\<lambda>r. jr_id r = u \<longrightarrow> jr_status r = ''timeout'' \<and> jr_exit_code r = Some (- 9))
        (aw_jobs (snd (run_job col run (uuid_text u) now1 now2 w)))) \<and>
    (run (worker_command job) = Inl e \<longrightarrow> run_job col run (uuid_text u) now1 now2 w = (Some e, update_job u (mark_running now1) w))"
proof -
  have "match_bid (drop k (pre @ bid_prefix @ uuid_text b @ CHR 0x22 # post)) = None" if "k < length pre" for k
    using first that by (simp add: out list_all_iff)
  then have ex: "extract_backtest_id (py_tail 10000 out) = Some (uuid_text b)"
    unfolding out using uuid_text_chars [of b] by (intro extract_first match_bid_here) (simp_all add: bid_prefix_def)
  have "run_job col run (uuid_text u) now1 now2 w = finish_job col u now2 (run (worker_command job)) (update_job u (mark_running now1) w)"
    using job u by (simp add: run_job_def uuid_arg_def uuid_of_text start_job_def)
  note run = this
  have st: "rr_stdout (child_result (Exited 0 out err)) = py_tail 10000 out" "rr_stdout (child_result (TimedOut out err)) = py_tail 10000 out"
    by (simp_all add: child_result_def)
  have done_eq: "finish_job col u now2 (Inr c) (update_job u (mark_running now1) w) =
      (None, update_job u (\<lambda>r. mark_finished now2 (child_result c) (Some b) (mark_running now1 r)) w)" if "rr_stdout (child_result c) = py_tail 10000 out" for c
    using that by (simp add: finish_job_def ex col update_job_twice Let_def)
  have good: "mark_finished now2 (child_result (Exited 0 out err)) (Some b) (mark_running now1 r) =
      r\<lparr>jr_status := ''completed'', jr_started_at := Some now1, jr_finished_at := Some now2, jr_exit_code := Some 0,
        jr_stdout_tail := Some (py_tail 10000 out), jr_stderr_tail := Some (py_tail 10000 err), jr_backtest_id := Some b\<rparr>" for r
    by (simp add: mark_finished_def mark_running_def child_result_def)
  have late: "jr_status (mark_finished now2 (child_result (TimedOut out err)) (Some b) (mark_running now1 r)) = ''timeout''"
    "jr_exit_code (mark_finished now2 (child_result (TimedOut out err)) (Some b) (mark_running now1 r)) = Some (- 9)" for r
    by (simp_all add: mark_finished_def child_result_def)
  have "list_all (\<lambda>r. jr_id r = u \<longrightarrow> jr_status r = ''timeout'' \<and> jr_exit_code r = Some (- 9))
      (aw_jobs (update_job u (\<lambda>r. mark_finished now2 (child_result (TimedOut out err)) (Some b) (mark_running now1 r)) w))"
    using late by (auto simp: list_all_iff)
  moreover have "finish_job col u now2 (Inl e) v = (Some e, v)" for v by (simp add: finish_job_def)
  ultimately show ?thesis unfolding run using done_eq [OF st(1)] done_eq [OF st(2)] by (simp add: good)
qed

section \<open>Worked instances\<close>

definition ex_job_payload :: job_payload where
  "ex_job_payload = \<lparr>jp_strategy = ''polymarket_btc5m/oracle_lag_v1'', jp_params_file = ''p.toml'', jp_source = ''paper_ticks'', jp_from_ts = 1776000000500000,
     jp_to_ts = 1776003600000000, jp_slug_encodes_open_ts = False, jp_polybot_db = ''/polybot-btc5m-data/polybot.db''\<rparr>"

definition ex_job :: job_row where
  "ex_job = queued_job 255 1776000000000000 ex_job_payload ''u''"

definition ex_submission :: worker_event where
  "ex_submission = Submitted ex_api_env (ex_rq ''t'') ex_job_payload ''u''"

lemma ex_authorised: "require_token ex_api_env (ex_rq ''t'') = None"
  by (simp add: require_token_None) (simp add: ex_api_env_def ex_rq_def presented_token_def present_def)

lemma ex_submitted:
  "worker_step col ex_submission (new_worker ex_world) =
     \<lparr>wk_world = ex_world\<lparr>aw_jobs := [ex_job], aw_tasks := [255]\<rparr>, wk_running = []\<rparr>"
proof -
  have "ae_uuid ex_api_env = 255" "ae_clock ex_api_env 0 = 1776000000000000" by (simp_all add: ex_api_env_def)
  then show ?thesis
    using ex_authorised by (simp add: ex_submission_def submit_world new_worker_def ex_job_def requester_def del: serve.simps)
qed

definition ex_end :: worker_event where
  "ex_end = Finished 255 20 (Inr (Exited 0 [] []))"

lemma ex_finished:
  "worker_run col [ex_submission, Started 255 10, ex_end] (new_worker ex_world) =
     \<lparr>wk_world = ex_world\<lparr>aw_jobs := [mark_finished 20 (child_result (Exited 0 [] [])) None (mark_running 10 ex_job)], aw_tasks := []\<rparr>, wk_running = []\<rparr>"
proof -
  have id: "jr_id ex_job = 255" by (simp add: ex_job_def queued_job_def)
  have "rr_stdout (child_result (Exited 0 [] [])) = []" by (simp add: child_result_def py_tail_def)
  then show ?thesis
    by (simp add: worker_run_def ex_submitted ex_end_def start_job_def finish_job_def update_job_def id Let_def del: serve.simps)
qed

theorem jobs_have_one_life_witness:
  "mark_finished 20 (child_result (Exited 0 [] [])) None (mark_running 10 ex_job) \<in>
     set (aw_jobs (wk_world (worker_run uuid_of [Restarted, Started 255 30] (worker_run uuid_of [ex_submission, Started 255 10, ex_end] (new_worker ex_world)))))"
  using jobs_have_one_life [OF refl, of uuid_of "[ex_submission, Started 255 10, ex_end]" ex_world
      "mark_finished 20 (child_result (Exited 0 [] [])) None (mark_running 10 ex_job)" "[Restarted, Started 255 30]"]
  by (simp add: ex_finished finished_status_def) (simp add: mark_finished_def child_result_def)

theorem restart_orphans_jobs_witness:
  "ex_job \<in> set (aw_jobs (wk_world (worker_run uuid_of [Restarted, Started 255 10, ex_end] (worker_step uuid_of ex_submission (new_worker ex_world))))) \<and>
   jr_status ex_job \<notin> set finished_status"
  by (rule restart_orphans_jobs [OF _ _ refl]) (simp_all add: ex_submitted ex_job_def queued_job_def)

definition ex_polls :: "api_poll list" where
  "ex_polls = [(10, Inr (ex_api_env, ex_rq ''t'', ex_world\<lparr>aw_jobs := [ex_job]\<rparr>, JsNull))]"

theorem followup_never_tells_the_end_witness:
  "followup_backtest ex_text_env [] 1200 (uuid_text 255) (map (poll_answer (uuid_text 255)) ex_polls) =
     Inr [FUni 9201, FTxt '' backtest '', FStr (uuid_text 255), FTxt '' still running after 20 min '', FUni 8212, FTxt '' check /research''] \<and>
   followup_backtest ex_text_env [] 1200 (uuid_text 255) (map (poll_answer (uuid_text 255)) (ex_polls @ [(20, Inl (RuntimeError ''ConnectError''))])) =
     Inl (RuntimeError ''ConnectError'') \<and>
   fst (serve ex_api_env (ex_rq ''t'') (Api (RGetJob (uuid_text 255))) (ex_world\<lparr>aw_jobs := [ex_job]\<rparr>)) = Unhandled (ValueError ''validation errors for JobStatus'') \<and>
   fst (page_handler ex_api_env (PJob (uuid_text 255)) (ex_world\<lparr>aw_jobs := [ex_job]\<rparr>)) = PageOk 200 (JobPage ex_job)"
proof -
  have s: "strict_str ex_api_env" by (simp add: strict_str_def ex_api_env_def)
  have f: "find (\<lambda>r. jr_id r = 255) (aw_jobs (ex_world\<lparr>aw_jobs := [ex_job]\<rparr>)) = Some ex_job" by (simp add: ex_job_def queued_job_def)
  let ?ok = "\<lambda>(now, got :: py_error + api_env \<times> http_request \<times> api_world \<times> json). case got of Inl e \<Rightarrow> True | Inr (env, rq, w, body) \<Rightarrow> strict_str env"
  have polls: "list_all ?ok ex_polls" "list_all ?ok (ex_polls @ [(20, Inl (RuntimeError ''ConnectError''))])"
    "lost_poll 1200 ex_polls = None" "lost_poll 1200 (ex_polls @ [(20, Inl (RuntimeError ''ConnectError''))]) = Some (RuntimeError ''ConnectError'')"
    using s by (simp_all add: ex_polls_def)
  show ?thesis
    using followup_never_tells_the_end [OF polls(1), where te = ex_text_env and base = "[]" and deadline = 1200 and u = 255
        and w = "ex_world\<lparr>aw_jobs := [ex_job]\<rparr>" and job = ex_job and rq = "ex_rq ''t''" and env = ex_api_env]
      followup_never_tells_the_end [OF polls(2), where te = ex_text_env and base = "[]" and deadline = 1200 and u = 255] s f ex_authorised polls(3,4)
    by (simp del: serve.simps page_handler.simps followup_backtest.simps find.simps list.map map_append lost_poll.simps)
qed

definition ex_output :: string where
  "ex_output = ''{'' @ bid_prefix @ uuid_text 7 @ CHR 0x22 # ''}''"

theorem job_records_its_run_witness:
  "run_job uuid_of (\<lambda>cmd. Inr (Exited 0 ex_output [])) (uuid_text 255) 10 20 (ex_world\<lparr>aw_jobs := [ex_job]\<rparr>) =
     (None, update_job 255 (\<lambda>r. r\<lparr>jr_status := ''completed'', jr_started_at := Some 10, jr_finished_at := Some 20, jr_exit_code := Some 0,
        jr_stdout_tail := Some ex_output, jr_stderr_tail := Some [], jr_backtest_id := Some 7\<rparr>) (ex_world\<lparr>aw_jobs := [ex_job]\<rparr>))"
proof -
  have "length ex_output \<le> 10000" by (simp add: ex_output_def uuid_text_def bid_prefix_def Let_def)
  then have t: "py_tail 10000 ex_output = ''{'' @ bid_prefix @ uuid_text 7 @ CHR 0x22 # ''}''" "py_tail 10000 ex_output = ex_output"
    by (simp_all add: py_tail_def ex_output_def)
  have c: "uuid_of (uuid_text 7) = Some 7" by (rule uuid_of_text) simp
  have f: "find (\<lambda>r. jr_id r = 255) (aw_jobs (ex_world\<lparr>aw_jobs := [ex_job]\<rparr>)) = Some ex_job" by (simp add: ex_job_def queued_job_def)
  have n: "list_all (\<lambda>k. match_bid (drop k (py_tail 10000 ex_output)) = None) [0..<length ''{'']"
    by (simp add: t(1) match_bid_def bid_prefix_def)
  have e: "py_tail 10000 [] = ([] :: string)" by (simp add: py_tail_def)
  show ?thesis
    using job_records_its_run [where u = 255 and w = "ex_world\<lparr>aw_jobs := [ex_job]\<rparr>" and job = ex_job and col = uuid_of and b = 7
        and out = ex_output and pre = "''{''" and post = "''}''" and run = "\<lambda>cmd. Inr (Exited 0 ex_output [])" and err = "[]" and ?now1.0 = 10 and ?now2.0 = 20,
        OF f _ c t(1) n] by (simp add: t(2) e)
qed

end
