(* ===== verification/Control_Plane.thy ===== *)
theory Control_Plane
  imports Api
begin

text \<open>
  Pausing a strategy end to end: the API writes the flag to \<open>trading.strategy_state\<close> and publishes a message on the
  channel of the strategy, the driver of \<open>paper/driver.py\<close> reads the table once when it starts (\<open>_rehydrate_pause_state\<close>)
  and hears the channel while it is subscribed (\<open>run\<close>). \<open>control_plane\<close> is the state of the two with the connection between them:
  redis delivers a message to the connections that are subscribed when it is published, in order, and forgets it. \<open>plane_step\<close> is one event;
  the theorems say when the flag of the driver is the stored one, and how it is lost.
\<close>

section \<open>The two ends of the channel\<close>

text \<open>What \<open>_rehydrate_pause_state\<close> reads: nothing without a row or without a database; the document must be a dict.\<close>

definition stored_pause :: "bool \<Rightarrow> string \<Rightarrow> state_table \<Rightarrow> py_error + bool option" where
  "stored_pause up name tbl =
     (if \<not> up then Inr None
      else (case map_of tbl name of
              None \<Rightarrow> Inr None
            | Some (doc, t) \<Rightarrow> bind_r (js_getd ''paused'' (JsBool False) doc) (\<lambda>v. Inr (Some (truthy v)))))"

text \<open>A paper driver before it runs: strategy and its state, risk manager, execution client, configuration.\<close>

record 's driver_parts =
  dp_strategy :: "'s strategy"
  dp_state :: 's
  dp_risk :: risk_manager
  dp_exec :: exec_client
  dp_cfg :: driver_config

record 's control_plane =
  cp_world :: api_world
  cp_driver :: "'s paper_driver"
  cp_subscribed :: bool
  cp_queue :: "string list"

datatype plane_event =
    PRequest api_env http_request route
  | PReceive
  | PDriver driver_event
  | PDisconnect
  | PSubscribe
  | PBoot bool real

definition heard_actions :: "string \<Rightarrow> (string \<times> string) list \<Rightarrow> string list" where
  "heard_actions name msgs = map snd (filter (\<lambda>(channel, action). channel = control_channel name) msgs)"

text \<open>One event. A request appends its messages to what the subscribed driver has still to hear; a lost
  connection loses what was not heard; a start builds a driver on the current tables, which is not subscribed yet. A stored document that is no dict ends the
  start in an exception before there is a new driver; the API stores none. Ticks and loops are events of their own, in any order with the messages.\<close>

fun plane_step :: "(real \<Rightarrow> real) \<Rightarrow> 's driver_parts \<Rightarrow> plane_event \<Rightarrow> 's control_plane \<Rightarrow> 's control_plane" where
  "plane_step erf dp (PRequest env rq rt) s =
     (let w1 = snd (serve env rq rt (cp_world s));
          new = drop (length (aw_published (cp_world s))) (aw_published w1)
      in s\<lparr>cp_world := w1, cp_queue := (if cp_subscribed s then cp_queue s @ heard_actions (sg_name (dp_strategy dp)) new else cp_queue s)\<rparr>)"
| "plane_step erf dp PReceive s =
     (case cp_queue s of
        [] \<Rightarrow> s
      | a # q \<Rightarrow> s\<lparr>cp_driver := handle_control_message (Some a) (cp_driver s), cp_queue := q\<rparr>)"
| "plane_step erf dp (PDriver e) s = (case e of DControl a \<Rightarrow> s | _ \<Rightarrow> s\<lparr>cp_driver := driver_step erf e (cp_driver s)\<rparr>)"
| "plane_step erf dp PDisconnect s = s\<lparr>cp_subscribed := False, cp_queue := []\<rparr>"
| "plane_step erf dp PSubscribe s = s\<lparr>cp_subscribed := True\<rparr>"
| "plane_step erf dp (PBoot up now) s =
     (case stored_pause up (sg_name (dp_strategy dp)) (aw_state (cp_world s)) of
        Inl err \<Rightarrow> s\<lparr>cp_subscribed := False, cp_queue := []\<rparr>
      | Inr stored \<Rightarrow>
          s\<lparr>cp_driver := boot stored now
              (new_paper_driver (dp_strategy dp) (dp_state dp) (dp_risk dp) (dp_exec dp) (dp_cfg dp) (pd_db (cp_driver s))),
            cp_subscribed := False, cp_queue := []\<rparr>)"

definition plane_run :: "(real \<Rightarrow> real) \<Rightarrow> 's driver_parts \<Rightarrow> plane_event list \<Rightarrow> 's control_plane \<Rightarrow> 's control_plane" where
  "plane_run erf dp es s = fold (plane_step erf dp) es s"

section \<open>The flag of the driver\<close>

lemma settle_from_values_paused [simp]: "pd_paused (settle_from_values s t px up d) = pd_paused d"
  by (simp add: settle_from_values_def Let_def case_prod_beta split: option.split)

lemma settle_via_watchdog_paused [simp]: "pd_paused (settle_via_watchdog md s pos now d) = pd_paused d"
  by (auto simp: settle_via_watchdog_def Let_def case_prod_beta split: option.split sum.split)

lemma settle_position_paused [simp]: "pd_paused (settle_position md now s d) = pd_paused d"
  by (simp add: settle_position_def split: option.split)

lemma enter_market_paused [simp]: "pd_paused (enter_market ex td ctx dec d) = pd_paused d"
  by (simp add: enter_market_def Let_def case_prod_beta split: option.split)

lemma evaluate_entry_paused [simp]: "pd_paused (evaluate_entry ex td ctx d) = pd_paused d"
  by (simp add: evaluate_entry_def Let_def case_prod_beta)

lemma gated_tick_paused [simp]: "pd_paused (gated_tick md ex now td ctx d) = pd_paused d"
  by (simp add: gated_tick_def Let_def)

lemma handle_tick_paused [simp]: "pd_paused (handle_tick erf md ex now td d) = pd_paused d"
  by (simp add: handle_tick_def Let_def case_prod_beta split: sum.split)

lemma fold_paused: "(\<And>x d. pd_paused (f x d) = pd_paused d) \<Longrightarrow> pd_paused (fold f xs d) = pd_paused d"
  by (induction xs arbitrary: d) simp_all

lemma driver_step_paused: "(\<And>a. e \<noteq> DControl a) \<Longrightarrow> pd_paused (driver_step erf e d) = pd_paused d"
  by (cases e) (auto simp: settle_watchdog_step_def orphan_cleanup_step_def kill_switch_step_def reconciliation_step_def
    eval_summary_step_def fold_paused Let_def case_prod_beta intro!: fold_paused)

lemma boot_paused: "pd_paused (boot stored now (new_paper_driver a b c x y db)) = (stored = Some True)"
  by (simp add: boot_def bootstrap_daily_pnl_def rehydrate_trade_taken_def rehydrate_pause_state_def new_paper_driver_def Let_def split: option.split)

section \<open>Requests and the stored flag\<close>

text \<open>The requests that set the flag of a strategy, and what they set it to.\<close>

definition sets_pause :: "string \<Rightarrow> api_env \<Rightarrow> http_request \<Rightarrow> route \<Rightarrow> bool option" where
  "sets_pause name env rq rt =
     (if require_token env rq \<noteq> None then None
      else if rt = Api (RPause name) then Some True else if rt = Api (RResume name) then Some False else None)"

definition paused_doc :: "bool \<Rightarrow> json \<Rightarrow> bool" where
  "paused_doc p doc \<longleftrightarrow> (\<exists>v. js_getd ''paused'' (JsBool False) doc = Inr v \<and> truthy v = p)"

text \<open>The stored flag, absent meaning not paused, where the row is one of the API.\<close>

definition stored_flag :: "string \<Rightarrow> state_table \<Rightarrow> bool \<Rightarrow> bool" where
  "stored_flag name tbl p \<longleftrightarrow> (case map_of tbl name of None \<Rightarrow> \<not> p | Some (doc, t) \<Rightarrow> paused_doc p doc)"


lemma stored_flag_cong: "map_of t name = map_of t' name \<Longrightarrow> stored_flag name t p = stored_flag name t' p"
  by (simp add: stored_flag_def)

lemma channel_inj [simp]: "control_channel a = control_channel b \<longleftrightarrow> a = b"
  by (simp add: control_channel_def)

definition pause_word :: "bool \<Rightarrow> string" where
  "pause_word p = (if p then ''pause'' else ''resume'')"

lemma request_effect:
  fixes w :: api_world and env rq rt
  defines "w1 \<equiv> snd (serve env rq rt w)"
  shows "heard_actions name (drop (length (aw_published w)) (aw_published w1)) =
      (case sets_pause name env rq rt of None \<Rightarrow> [] | Some p \<Rightarrow> [pause_word p])"
    and "sets_pause name env rq rt = Some p \<Longrightarrow> stored_flag name (aw_state w1) p"
    and "sets_pause name env rq rt = None \<Longrightarrow> map_of (aw_state w1) name = map_of (aw_state w) name"
proof -
  have "heard_actions name (drop (length (aw_published w)) (aw_published w1)) =
      (case sets_pause name env rq rt of None \<Rightarrow> [] | Some p \<Rightarrow> [pause_word p]) \<and>
    (\<forall>p. sets_pause name env rq rt = Some p \<longrightarrow> stored_flag name (aw_state w1) p) \<and>
    (sets_pause name env rq rt = None \<longrightarrow> map_of (aw_state w1) name = map_of (aw_state w) name)"
  proof (cases "\<exists>r. rt = Api r \<and> acts r \<and> require_token env rq = None")
    case True
    then obtain r where r: "rt = Api r" "acts r" "require_token env rq = None" by blast
    have docker: "aw_published (snd (docker env q k w)) = aw_published w \<and> aw_state (snd (docker env q k w)) = aw_state w"
      if "\<And>code w. aw_published (snd (k code w)) = aw_published w \<and> aw_state (snd (k code w)) = aw_state w" for q k w
      using that by (simp add: docker_def Let_def split: sum.split)
    have "aw_published (snd (restart_service env n w)) = aw_published w \<and> aw_state (snd (restart_service env n w)) = aw_state w" for n
      by (auto simp: restart_service_def docker split: sum.split)
    with r show ?thesis unfolding w1_def
      by (cases r) (auto simp: guarded_cases sets_pause_def heard_actions_def pause_word_def stored_flag_def paused_doc_def dict_getd_def
        api_run_backtest_def create_job_def api_pause_def api_resume_def publish_def set_strategy_pause_def update_conv'
        api_killswitch_on_def api_killswitch_off_def Let_def)
  next
    case False
    then have "same_outside w w1" unfolding w1_def by (intro serve_outside) auto
    moreover have "sets_pause name env rq rt = None" using False [unfolded not_ex, THEN spec, of "RPause name"] False [unfolded not_ex, THEN spec, of "RResume name"]
      by (auto simp: sets_pause_def)
    ultimately show ?thesis by (simp add: same_outside_def heard_actions_def)
  qed
  then show "heard_actions name (drop (length (aw_published w)) (aw_published w1)) =
      (case sets_pause name env rq rt of None \<Rightarrow> [] | Some p \<Rightarrow> [pause_word p])"
    "sets_pause name env rq rt = Some p \<Longrightarrow> stored_flag name (aw_state w1) p"
    "sets_pause name env rq rt = None \<Longrightarrow> map_of (aw_state w1) name = map_of (aw_state w) name" by auto
qed

section \<open>When the driver obeys\<close>








lemma boot_flag:
  assumes "stored_flag name tbl p"
  shows "stored_pause True name tbl = Inr (map_option (\<lambda>x. p) (map_of tbl name))"
  using assms by (auto simp: stored_pause_def stored_flag_def paused_doc_def split: option.splits)



text \<open>The last setting asked for, starting from \<open>p\<close>.\<close>

fun last_setting :: "string \<Rightarrow> bool \<Rightarrow> plane_event list \<Rightarrow> bool" where
  "last_setting name p [] = p"
| "last_setting name p (PRequest env rq rt # es) =
     last_setting name (case sets_pause name env rq rt of None \<Rightarrow> p | Some q \<Rightarrow> q) es"
| "last_setting name p (e # es) = last_setting name p es"

lemma plane_step_stored:
  assumes "stored_flag (sg_name (dp_strategy dp)) (aw_state (cp_world s)) p"
  shows "stored_flag (sg_name (dp_strategy dp)) (aw_state (cp_world (plane_step erf dp e s))) (last_setting (sg_name (dp_strategy dp)) p [e])"
proof (cases e)
  case (PRequest env rq rt)
  note eff = request_effect(2,3) [where env = env and rq = rq and rt = rt and w = "cp_world s" and name = "sg_name (dp_strategy dp)"]
  show ?thesis
  proof (cases "sets_pause (sg_name (dp_strategy dp)) env rq rt")
    case None
    then show ?thesis using stored_flag_cong [OF eff(2) [OF None]] assms by (simp add: PRequest Let_def del: serve.simps)
  qed (simp add: PRequest eff(1) Let_def del: serve.simps)
qed (use assms in \<open>auto split: list.split driver_event.split sum.split\<close>)

lemma plane_run_stored:
  "stored_flag (sg_name (dp_strategy dp)) (aw_state (cp_world s)) p \<Longrightarrow>
   stored_flag (sg_name (dp_strategy dp)) (aw_state (cp_world (plane_run erf dp es s))) (last_setting (sg_name (dp_strategy dp)) p es)"
proof (induction es arbitrary: s p)
  case (Cons e es)
  from plane_step_stored [OF Cons.prems, of erf e]
  have "stored_flag (sg_name (dp_strategy dp)) (aw_state (cp_world (plane_step erf dp e s)))
      (last_setting (sg_name (dp_strategy dp)) p [e])" .
  from Cons.IH [OF this] show ?case by (cases e) (simp_all add: plane_run_def)
qed (simp add: plane_run_def)


section \<open>How a pause is lost\<close>

text \<open>The events that do not reach the flag of the driver: no setting of it, no start.\<close>

fun silent :: "string \<Rightarrow> plane_event \<Rightarrow> bool" where
  "silent name (PRequest env rq rt) = (sets_pause name env rq rt = None)"
| "silent name (PBoot up now) = False"
| "silent name _ = True"

lemma silent_step:
  assumes "silent (sg_name (dp_strategy dp)) e" "cp_queue s = []"
  shows "pd_paused (cp_driver (plane_step erf dp e s)) = pd_paused (cp_driver s)" "cp_queue (plane_step erf dp e s) = []"
proof -
  have "pd_paused (cp_driver (plane_step erf dp e s)) = pd_paused (cp_driver s) \<and> cp_queue (plane_step erf dp e s) = []"
  proof (cases e)
    case (PRequest env rq rt)
    then show ?thesis using assms request_effect(1) [where env = env and rq = rq and rt = rt and w = "cp_world s"]
      by (simp add: Let_def del: serve.simps)
  next
    case (PDriver de)
    have "pd_paused (driver_step erf de (cp_driver s)) = pd_paused (cp_driver s)" if "\<And>a. de \<noteq> DControl a" using that by (rule driver_step_paused)
    then show ?thesis using assms by (cases de) (simp_all add: PDriver del: driver_step.simps)
  qed (use assms in simp_all)
  then show "pd_paused (cp_driver (plane_step erf dp e s)) = pd_paused (cp_driver s)" "cp_queue (plane_step erf dp e s) = []" by auto
qed

lemma silent_run:
  "list_all (silent (sg_name (dp_strategy dp))) es \<Longrightarrow> cp_queue s = [] \<Longrightarrow>
   pd_paused (cp_driver (plane_run erf dp es s)) = pd_paused (cp_driver s)"
proof (induction es arbitrary: s)
  case (Cons e es)
  then show ?case using Cons.IH [of "plane_step erf dp e s"] silent_step [of dp e s erf] by (simp add: plane_run_def)
qed (simp add: plane_run_def)

lemma silent_setting: "list_all (silent name) es \<Longrightarrow> last_setting name p es = p"
  by (induction name p es rule: last_setting.induct) simp_all

section \<open>Properties\<close>


text \<open>C8. A pause can be lost for good. A driver that is waiting to subscribe again after a lost connection to redis
  does not hear an authorised pause, and one that starts while the database is down does not read the stored one; in both cases the API answers that the strategy is paused and
  the table says so, the driver subscribes and trades on, and nothing but another setting or a restart changes it: neither the
  subscription nor any tick or loop reads the table again. A restart with the database up obeys.\<close>

theorem pause_can_be_lost:
  assumes name_def: "name = sg_name (dp_strategy dp)"
    and "require_token env rq = None" and "\<not> cp_subscribed s" and "cp_queue s = []" and "\<not> pd_paused (cp_driver s)"
    and silent: "list_all (silent name) es"
    and stored: "stored_flag name (aw_state (cp_world b)) True"
    and lost: "lost = plane_run erf dp (PRequest env rq (Api (RPause name)) # PSubscribe # es) s"
    and down: "down = plane_run erf dp (PBoot False now # PSubscribe # es) b"
  shows "fst (serve env rq (Api (RPause name)) (cp_world s)) = PauseOk name True \<and>
    stored_flag name (aw_state (cp_world lost)) True \<and> \<not> pd_paused (cp_driver lost) \<and>
    stored_flag name (aw_state (cp_world down)) True \<and> \<not> pd_paused (cp_driver down) \<and>
    pd_paused (cp_driver (plane_step erf dp (PBoot True now') lost)) \<and>
    pd_paused (cp_driver (plane_step erf dp (PBoot True now') down))"
proof -
  let ?pause = "PRequest env rq (Api (RPause name))"
  have sets: "sets_pause name env rq (Api (RPause name)) = Some True" using assms(2) by (simp add: sets_pause_def)
  define w where "w = snd (serve env rq (Api (RPause name)) (cp_world s))"
  define s1 where "s1 = plane_step erf dp PSubscribe (plane_step erf dp ?pause s)"
  define b1 where "b1 = plane_step erf dp PSubscribe (plane_step erf dp (PBoot False now) b)"
  have s1: "cp_queue s1 = []" "\<not> pd_paused (cp_driver s1)" "cp_world s1 = w"
    using assms(3-5) by (simp_all add: s1_def w_def Let_def del: serve.simps)
  have b1: "cp_queue b1 = []" "\<not> pd_paused (cp_driver b1)" "cp_world b1 = cp_world b"
    by (simp_all add: b1_def stored_pause_def boot_paused)
  have runs: "lost = plane_run erf dp es s1" "down = plane_run erf dp es b1"
    by (simp_all add: lost down s1_def b1_def plane_run_def del: plane_step.simps)
  have "stored_flag name (aw_state (cp_world s1)) True"
    using request_effect(2) [OF sets] by (simp add: s1(3) w_def del: serve.simps)
  from plane_run_stored [OF this [unfolded name_def], of erf es] have sl: "stored_flag name (aw_state (cp_world lost)) True"
    using silent by (simp add: runs(1) name_def silent_setting)
  from plane_run_stored [of dp b1 True erf es] have sd: "stored_flag name (aw_state (cp_world down)) True"
    using silent stored by (simp add: runs(2) name_def silent_setting b1(3))
  have heal: "pd_paused (cp_driver (plane_step erf dp (PBoot True now') x))" if "stored_flag name (aw_state (cp_world x)) True" for x
    using boot_flag [OF that] that by (auto simp: name_def boot_paused stored_flag_def split: option.splits)
  have "\<not> pd_paused (cp_driver lost)" "\<not> pd_paused (cp_driver down)"
    using silent silent_run [of dp es s1 erf] silent_run [of dp es b1 erf] s1 b1 by (simp_all add: runs name_def)
  moreover have "fst (serve env rq (Api (RPause name)) (cp_world s)) = PauseOk name True"
    using assms(2) by (simp add: guarded_cases api_pause_def)
  ultimately show ?thesis using sl sd heal by (simp del: serve.simps plane_step.simps)
qed

definition ex_parts :: "unit driver_parts" where
  "ex_parts = \<lparr>dp_strategy = ex_strategy, dp_state = (), dp_risk = ex_bt_manager, dp_exec = ex_client, dp_cfg = ex_driver_config\<rparr>"

definition ex_plane :: "bool \<Rightarrow> unit control_plane" where
  "ex_plane sub = \<lparr>cp_world = ex_world, cp_driver = ex_driver, cp_subscribed = sub, cp_queue = []\<rparr>"

definition ex_pause :: plane_event where
  "ex_pause = PRequest ex_api_env (ex_rq ''t'') (Api (RPause ''always_up''))"

lemma ex_token: "require_token ex_api_env (ex_rq ''t'') = None"
  by (simp add: require_token_def presented_token_def ex_api_env_def ex_rq_def present_def)


lemma ex_name: "''always_up'' = sg_name (dp_strategy ex_parts)"
  by (simp add: ex_parts_def ex_strategy_def)



theorem pause_can_be_lost_witness:
  "\<not> pd_paused (cp_driver (plane_run (\<lambda>_. 0) ex_parts [ex_pause, PSubscribe, PReceive] (ex_plane False))) \<and>
   stored_flag ''always_up'' (aw_state (cp_world (plane_run (\<lambda>_. 0) ex_parts [ex_pause, PSubscribe, PReceive] (ex_plane False)))) True"
proof -
  have "sets_pause ''always_up'' ex_api_env (ex_rq ''t'') (Api (RPause ''always_up'')) = Some True"
    by (simp add: sets_pause_def ex_token)
  from request_effect(2) [OF this, of ex_world]
  have "stored_flag ''always_up'' (aw_state (cp_world (plane_step (\<lambda>_. 0) ex_parts ex_pause (ex_plane False)))) True"
    by (simp add: ex_pause_def ex_plane_def Let_def del: serve.simps)
  from pause_can_be_lost [OF ex_name ex_token _ _ _ _ this refl refl, of "ex_plane False" "[PReceive]" "\<lambda>_. 0"]
  show ?thesis by (simp add: ex_pause_def ex_plane_def ex_driver_def new_paper_driver_def del: serve.simps plane_step.simps)
qed

end
