(* ===== verification/Deployment.thy ===== *)
theory Deployment
  imports Api
begin

text \<open>
  The kill switch between two containers. \<open>docker-compose.yml\<close> gives every container its own file system and mounts directories of the host
  and named volumes into it; \<open>ENGINE_VOLUMES\<close> and \<open>API_VOLUMES\<close> are the mounts of \<open>tea-engine\<close> and \<open>tea-api\<close>. A path that no mount covers
  belongs to the container alone. \<open>files\<close> says of each place whether there is a file; a container sees it through its mounts
  (\<open>container_view\<close>). The API arms the switch at \<open>/var/tea/control\<close>, the execution client looks there and in \<open>/etc/trading-system\<close>.
\<close>

section \<open>Mounts\<close>

datatype volume_source = HostPath string | NamedVolume string

datatype file_place = Mounted volume_source string | Own string string

type_synonym mounts = "(string \<times> volume_source) list"

definition ENGINE_VOLUMES :: mounts where
  "ENGINE_VOLUMES =
     [(''/etc/trading-system'', HostPath ''/etc/trading-system''),
      (''/polybot-btc5m-data'', HostPath ''/home/coder/polybot-btc5m/data''),
      (''/polybot-btc5m-reports'', HostPath ''/home/coder/polybot-btc5m/reports''),
      (''/btc-tendencia-data'', HostPath ''/home/coder/BTC-Tendencia-5m/data''),
      (''/app/scripts'', HostPath ''./scripts''),
      (''/app/src/trading/research/reports'', NamedVolume ''tea_research_reports''),
      (''/app/models'', NamedVolume ''tea_models'')]"

definition API_VOLUMES :: mounts where
  "API_VOLUMES =
     [(''/var/tea/control'', NamedVolume ''tea_control''),
      (''/app/src/trading/research/reports'', NamedVolume ''tea_research_reports''),
      (''/var/run/docker.sock'', HostPath ''/var/run/docker.sock'')]"

text \<open>The rest of a path below a mounted directory.\<close>

definition below_dir :: "string \<Rightarrow> string \<Rightarrow> string option" where
  "below_dir target path =
     (if path = target \<or> take (length target + 1) path = target @ ''/'' then Some (drop (length target) path) else None)"

fun place_of :: "string \<Rightarrow> mounts \<Rightarrow> string \<Rightarrow> file_place" where
  "place_of container [] path = Own container path"
| "place_of container ((target, src) # ms) path =
     (case below_dir target path of Some rest \<Rightarrow> Mounted src rest | None \<Rightarrow> place_of container ms path)"

definition container_view :: "string \<Rightarrow> mounts \<Rightarrow> (file_place \<Rightarrow> bool) \<Rightarrow> string \<Rightarrow> bool" where
  "container_view container ms files path = files (place_of container ms path)"

lemma below_dir_Some:
  assumes "below_dir target path = Some rest"
  shows "path = target @ rest"
proof (cases "path = target")
  case False
  then have t: "take (length target + 1) path = target @ ''/''" and rest: "rest = drop (length target) path"
    using assms by (simp_all add: below_dir_def split: if_splits)
  have "path = take (length target + 1) path @ drop (length target + 1) path" by simp
  then obtain r where "path = target @ ''/'' @ r" unfolding t by auto
  then show ?thesis by (simp add: rest)
qed (use assms in \<open>simp add: below_dir_def\<close>)

lemma place_of_Mounted: "place_of container ms path = Mounted src rest \<Longrightarrow> \<exists>target. (target, src) \<in> set ms \<and> path = target @ rest"
  by (induction container ms path rule: place_of.induct) (auto split: option.splits dest: below_dir_Some)

section \<open>The kill switch\<close>

lemma api_place: "place_of ''tea-api'' API_VOLUMES KILL_SWITCH_API = Mounted (NamedVolume ''tea_control'') ''/KILL_SWITCH''"
  by (simp add: API_VOLUMES_def below_dir_def KILL_SWITCH_API_def)

lemma api_place_unique:
  assumes "place_of ''tea-api'' API_VOLUMES path = Mounted (NamedVolume ''tea_control'') ''/KILL_SWITCH''"
  shows "path = KILL_SWITCH_API"
  using place_of_Mounted [OF assms] by (auto simp: API_VOLUMES_def KILL_SWITCH_API_def)

lemma engine_place: "place_of ''tea-engine'' ENGINE_VOLUMES path \<noteq> Mounted (NamedVolume ''tea_control'') rest"
  using place_of_Mounted [of "''tea-engine''" ENGINE_VOLUMES path "NamedVolume ''tea_control''" rest] by (auto simp: ENGINE_VOLUMES_def)

lemma shared_place:
  "place_of ''tea-engine'' (ENGINE_VOLUMES @ [(''/var/tea/control'', NamedVolume ''tea_control'')]) KILL_SWITCH_API =
     Mounted (NamedVolume ''tea_control'') ''/KILL_SWITCH''"
  by (simp add: ENGINE_VOLUMES_def below_dir_def KILL_SWITCH_API_def)

text \<open>C24. The kill switch of the API holds until it is taken back, but the engine as it is deployed never sees it. Whatever requests come in,
  the control file of the API is there exactly when the last request that armed or disarmed the switch with the token armed it, no other file it sees
  changes, and the API reports the switch as active while its file is there; a disarming reports whether the file of the host is still seen. In a deployment whose engine
  mounts the control volume as well, the execution client enters nothing while the switch is armed. With the mounts of \<open>docker-compose.yml\<close> the engine
  does not mount it: no request changes any file the engine sees, so the client decides every entry as if the switch had never been armed.\<close>

theorem kill_switch_holds_until_disarmed:
  assumes w: "aw_exists w = container_view ''tea-api'' API_VOLUMES files"
    and w': "w' = serve_all rs w"
    and files': "files' = files(place_of ''tea-api'' API_VOLUMES KILL_SWITCH_API := aw_exists w' KILL_SWITCH_API)"
    and shared: "shared = ENGINE_VOLUMES @ [(''/var/tea/control'', NamedVolume ''tea_control'')]"
  shows "container_view ''tea-api'' API_VOLUMES files' = aw_exists w' \<and>
    (aw_exists w' KILL_SWITCH_API \<longleftrightarrow> armed_after rs (aw_exists w KILL_SWITCH_API)) \<and>
    (path \<noteq> KILL_SWITCH_API \<longrightarrow> aw_exists w' path = aw_exists w path) \<and>
    (armed_after rs (aw_exists w KILL_SWITCH_API) \<longrightarrow>
       api_kill_switch_active (aw_exists w') \<and> try_enter (container_view ''tea-engine'' shared files') c q db = (None, db)) \<and>
    (require_token env rq = None \<longrightarrow>
       fst (serve env rq (Api RKillSwitchOff) w') = KillOk (aw_exists w KILL_SWITCH_ETC) (ae_clock env 0)) \<and>
    container_view ''tea-engine'' ENGINE_VOLUMES files' = container_view ''tea-engine'' ENGINE_VOLUMES files \<and>
    try_enter (container_view ''tea-engine'' ENGINE_VOLUMES files') c q db = try_enter (container_view ''tea-engine'' ENGINE_VOLUMES files) c q db"
proof -
  have ex: "aw_exists w' = (aw_exists w)(KILL_SWITCH_API := armed_after rs (aw_exists w KILL_SWITCH_API))"
    using serve_all_exists w' by simp
  have ne: "KILL_SWITCH_ETC \<noteq> KILL_SWITCH_API" by (simp add: KILL_SWITCH_ETC_def KILL_SWITCH_API_def)
  have view: "container_view ''tea-api'' API_VOLUMES files' = aw_exists w'"
    using api_place_unique by (auto simp: fun_eq_iff container_view_def files' api_place ex w)
  have engine: "container_view ''tea-engine'' ENGINE_VOLUMES files' = container_view ''tea-engine'' ENGINE_VOLUMES files"
    by (simp add: fun_eq_iff container_view_def files' api_place engine_place)
  have refuse: "try_enter (container_view ''tea-engine'' shared files') c q db = (None, db)" if "armed_after rs (aw_exists w KILL_SWITCH_API)"
  proof -
    have "container_view ''tea-engine'' shared files' KILL_SWITCH_API"
      using that unfolding container_view_def shared shared_place files' api_place by (simp add: ex)
    then have "kill_switch_active (container_view ''tea-engine'' shared files')"
      by (simp add: kill_switch_paths api_kill_switch_active_def)
    then show ?thesis by (simp add: try_enter_def)
  qed
  show ?thesis
    using ne refuse view engine
    by (auto simp: ex api_kill_switch_active_def guarded_cases api_killswitch_off_def Let_def)
qed

definition no_place :: "file_place \<Rightarrow> bool" where
  "no_place p = False"

definition armed_place :: "file_place \<Rightarrow> bool" where
  "armed_place p \<longleftrightarrow> p = Mounted (NamedVolume ''tea_control'') ''/KILL_SWITCH''"

theorem kill_switch_holds_until_disarmed_witness:
  "aw_exists (serve_all ex_arm ex_world) KILL_SWITCH_API \<and> api_kill_switch_active (aw_exists (serve_all ex_arm ex_world)) \<and>
   try_enter (container_view ''tea-engine'' (ENGINE_VOLUMES @ [(''/var/tea/control'', NamedVolume ''tea_control'')]) armed_place)
     ex_client ex_request empty_db = (None, empty_db) \<and>
   fst (try_enter (container_view ''tea-engine'' ENGINE_VOLUMES armed_place) ex_client ex_request empty_db) \<noteq> None \<and>
   fst (serve ex_api_env (ex_rq ''t'') (Api RKillSwitchOff) (serve_all ex_arm ex_world)) = KillOk False 1776000000000000"
proof -
  have armed: "armed_after ex_arm b" for b
    by (simp add: armed_after_def ex_arm_def arms_def disarms_def require_token_None ex_phrase)
      (simp add: ex_api_env_def ex_rq_def presented_token_def present_def)
  have ok: "require_token ex_api_env (ex_rq ''t'') = None"
    by (simp add: require_token_None) (simp add: ex_api_env_def ex_rq_def presented_token_def present_def)
  have none: "container_view k ms no_place = (\<lambda>p. False)" for k ms by (simp add: fun_eq_iff container_view_def no_place_def)
  have w: "aw_exists ex_world = container_view ''tea-api'' API_VOLUMES no_place" by (simp add: none ex_world_def)
  have ex: "aw_exists ex_world p = False" "ae_clock ex_api_env 0 = 1776000000000000" for p by (simp_all add: ex_world_def ex_api_env_def)
  have place: "no_place(place_of ''tea-api'' API_VOLUMES KILL_SWITCH_API := True) = armed_place"
    by (simp add: fun_eq_iff api_place no_place_def armed_place_def)
  have enters: "fst (try_enter (\<lambda>p. False) ex_client ex_request empty_db) \<noteq> None"
    using ex_filled by (simp add: try_enter_cases entry_guards_def ex_request_def empty_db_def)
  note kill = kill_switch_holds_until_disarmed [OF w refl refl refl, where rs = ex_arm and path = KILL_SWITCH_ETC
        and c = ex_client and q = ex_request and db = empty_db and env = ex_api_env and rq = "ex_rq ''t''"]
  from kill armed have on: "aw_exists (serve_all ex_arm ex_world) KILL_SWITCH_API = True" by blast
  show ?thesis
    using kill [unfolded on place none] armed ok enters on by (simp add: ex del: serve.simps serve_all.simps)
qed

end
