(* ===== verification/Spec2Isabelle.thy ===== *)
theory Spec2Isabelle
  imports MM_Driver Walk_Forward Tick_Recorder Telegram Bot_Commands Copilot Forecaster Research_Folds Monte_Carlo Data_Loader Oracle_Feed Job_Worker Control_Plane Deployment
begin

text \<open>
  Trading-Edge-App: a verification development for the Python package \<open>src/src/trading\<close>, which trades the five and
  fifteen minute Bitcoin up/down markets of Polymarket on paper and replays them on history.

  The parts of the program and how they interact. The ingestion feeds (\<open>paper/feeds.py\<close>) keep the last spot, oracle and
  order book quotes; the tick recorder (\<open>paper/tick_recorder.py\<close>) samples them once a second, latches the opening price
  of each market and publishes a tick on redis. A paper driver (\<open>paper/driver.py\<close>) decodes the tick, runs the indicator stack
  (\<open>engine/indicators.py\<close>) and asks, behind a pause flag, a daily threshold, an entry window, the risk manager
  (\<open>engine/risk.py\<close>) and a kill switch, one direction strategy (\<open>strategies/polymarket_btc5m\<close>) for a decision; the simulated client
  (\<open>paper/exec_client.py\<close>, \<open>engine/fill_model.py\<close>, \<open>engine/sizing.py\<close>) fills it and the driver settles it when the market
  closes. The market-maker driver (\<open>paper/mm_driver.py\<close>) does the same for the quoting strategy of the fifteen minute
  markets, whose quotes rest in a limit order book (\<open>paper/limit_book_sim.py\<close>) behind a safety guard (\<open>engine/mm_safety.py\<close>)
  and caps over all strategies (\<open>paper/global_mm_state.py\<close>). The replay (\<open>engine/backtest_driver.py\<close>) and its walk-forward
  runner (\<open>engine/walk_forward.py\<close>) feed recorded ticks to the same strategies and risk manager. Alerts go out through the
  telegram client, a watcher and a command bot (\<open>notifications\<close>, \<open>bots/telegram\<close>), and a research copilot answers questions (\<open>llm\<close>).
  An HTTP API (\<open>api\<close>) pauses strategies, arms the kill switch, runs backtests as jobs and feeds the dashboard.

  Theories and sources.
  \<^item> \<open>Prelude\<close>: Python values, dictionaries, deques, rounding, f-strings, the shared interfaces (\<open>keyed_store\<close>, \<open>preserved\<close>,
    \<open>edge_alert\<close>, \<open>time_window\<close>, \<open>object_store\<close>). \<open>Types\<close>: \<open>engine/types.py\<close>. \<open>Store\<close>: the tables the paper engine
    writes. \<open>Json\<close>: decoded JSON and the way Python code walks it. \<open>Slug\<close>: \<open>ingest/polymarket/slug.py\<close>.
  \<^item> \<open>Limit_Book\<close>: the order book with its persistence; the book refines a map of orders, a tick conserves orders, the
    tables mirror the book. \<open>Risk\<close>, \<open>Fill_Model\<close> (with sizing), \<open>Indicators\<close>: the shared engine parts.
  \<^item> \<open>Backtest\<close>: the replay and its performance figures; \<open>Walk_Forward\<close>: folds, aggregation, verdict.
  \<^item> \<open>MM_Rebate\<close>, \<open>MM_Features\<close>, \<open>K_Estimator\<close>, \<open>MM_Safety\<close>: the quoting strategy and its guards; \<open>MM_Driver\<close>: strategy,
    book, caps and database composed as the driver composes them.
  \<^item> \<open>Exec_Client\<close>, \<open>Paper_Driver\<close>: entries, settlement, restart, alerts and reconciliation of the direction strategies.
  \<^item> \<open>Feeds\<close>, \<open>Tick_Recorder\<close>: the feed state with its web sockets, and the recorder up to the decoding of its ticks.
  \<^item> \<open>Strategy_Base\<close>, \<open>Oracle_Lag\<close>, \<open>Afml\<close>, \<open>Trend_Confirm\<close>: the strategies with their features, and what a replay records of
    their entries (locale \<open>one_shot\<close>: one entry per market).
  \<^item> \<open>Forecast_Features\<close>, \<open>Forecaster\<close>: the features of \<open>engine/features\<close> the trained forecaster uses, its providers, model runner and
    decision; the three protocols it is built on are locales (\<open>feature_source\<close>, \<open>probability_model\<close>, \<open>forecaster_wiring\<close>).
  \<^item> \<open>Signal_Features\<close>: the order flow, depth, conformal, liquidation and candle pattern features that stand beside the forecaster.
  \<^item> \<open>Data_Loader\<close>: the two loaders that turn stored markets and ticks into a replay (locales \<open>market_source\<close> and
    \<open>windowed_source\<close>, interpreted on both), their queries as filters and stable sorts, and the replay run on a loader.
    \<open>Oracle_Feed\<close>: decoding of the on-chain and archived Chainlink rounds, the polling loop with its alarm, the rows it
    stores and the providers that read them back.
  \<^item> \<open>HMM_Regime\<close>, \<open>Research_Folds\<close>: the regime detector, the research folds with their verdicts and the walk-forward command;
    \<open>Monte_Carlo\<close>: bootstrap, permutation test and block bootstrap over the replay.
  \<^item> \<open>Calendar\<close>, \<open>Uuid\<close>: the dates and identifiers of the standard library the API uses, each with its round trip. \<open>Api\<close>: every
    handler of \<open>api\<close> behind the guard of its route, over the record \<open>api_world\<close>; the kill switch over any requests, the dashboard
    against the driver's reconciliation. \<open>Job_Worker\<close>: the jobs of the API as events of a state machine, and the bot that waits for one.
  \<^item> \<open>Control_Plane\<close>: pausing end to end, from the API over the stored flag and the redis channel to the driver, as events; when the
    driver obeys, and how a pause is lost. \<open>Deployment\<close>: the kill switch file between the two containers, as \<open>docker-compose.yml\<close> mounts it.
  \<^item> \<open>Telegram\<close>, \<open>Bot_Commands\<close>, \<open>Copilot\<close>: alerts, watcher, command bot and copilot.

  State corresponds to state: a Python object is a record with one field per attribute, a method is a function from the
  record (and the arguments) to the result and the new record, and an asynchronous handler that runs to its end under one lock is one step.
  An exception is a value (\<open>py_error + 'a\<close>, or an optional error beside the state where the state
  changed before is kept). Where several handlers interleave, a property is about every list of events, or about an
  inductively defined set of reachable states.

  What the lemmas show: well-formedness is preserved by every operation and so by every run; each operation does what its code says on
  every branch, errors included; optimised loops equal their reference definitions; the guards of
  entries and quotes are sound with respect to the histories that led to them; what one component publishes the next
  one decodes; alerts and ledgers record each change once. Where the code does something else than its comments say, a theorem states what it does.

  Bounds and fuel. No fuel is used: every loop is structural, except the two walk-forward loops, which are partial functions (the one of
  the engine does not return for a step of zero days and is proved to return for a positive one; the one of the research
  module checks its step and is proved to return always), and the binary search of the candles and the splitting of
  replies, which are functions with a termination proof. Floats are real numbers, so overflow, NaN and rounding of the arithmetic are
  outside the model; explicit rounding (\<open>round\<close>, \<open>int\<close>) is modelled. Times are reals (Unix seconds) or integers (microseconds).

  Parameters. Random draws, SHA-256, the error function, the wall clock, database rows, decoded JSON, file contents and the answers of HTTP
  services are arguments; a theorem that needs something of them names it as a hypothesis.

  Not modelled: the templates of the pages, the exchange and history adapters (\<open>ingest\<close> except the slugs and the
  Chainlink adapter), report rendering and the command-line entry points other than the
  walk-forward one (\<open>research/report.py\<close>, \<open>cli\<close>), training with lightgbm and hmmlearn, logging, metrics
  and configuration loading: they are input/output or calls into libraries.
\<close>

end
